(* ===== verification/Prelude.thy ===== *)
theory Prelude
  imports Main "HOL-Library.Sublist"
begin

text \<open>
  Shared vocabulary of the development. A JavaScript string is modelled by its UTF-8 bytes, a
  \<^typ>\<open>char list\<close>: slicing, comparison, hashing and JSON text then work on the same sequence the
  code writes to the wire, and the length of an ASCII string is its JavaScript length. Fallible code
  returns a sum whose left summand is what was thrown. Absent optional fields and \<open>undefined\<close> are
  \<^term>\<open>None\<close>.

  The theory holds the collections the component proofs share, the string functions of the language
  the code uses, ordered deduplication (what spreading a \<open>Set\<close> does) and association lists with the
  insertion order of a JavaScript \<open>Map\<close>.
\<close>

named_theorems js_simps \<open>simplification rules for the modelled language functions\<close>
named_theorems outcome_splits \<open>case splits on results and options\<close>

declare sum.splits [outcome_splits] option.splits [outcome_splits]

subsection \<open>Options\<close>

text \<open>The \<open>??\<close> operator: the value when present, else the default.\<close>

definition coalesce :: "'a option \<Rightarrow> 'a \<Rightarrow> 'a" where
  "coalesce x d = (case x of None \<Rightarrow> d | Some v \<Rightarrow> v)"

lemma coalesce_simps [simp, js_simps]:
  "coalesce None d = d" "coalesce (Some v) d = v"
  by (simp_all add: coalesce_def)

text \<open>\<open>a ?? b\<close> where both may be absent.\<close>

definition or_else :: "'a option \<Rightarrow> 'a option \<Rightarrow> 'a option" where
  "or_else x y = (case x of None \<Rightarrow> y | Some v \<Rightarrow> Some v)"

lemma or_else_simps [simp, js_simps]:
  "or_else None y = y" "or_else (Some v) y = Some v" "or_else x None = x"
  by (simp_all add: or_else_def split: option.split)

subsection \<open>Strings\<close>

definition starts_with :: "string \<Rightarrow> string \<Rightarrow> bool" where
  "starts_with p s = (take (length p) s = p)"

lemma starts_with_append [simp, js_simps]: "starts_with p (p @ s)"
  by (simp add: starts_with_def)

lemma starts_with_prefix: "starts_with p s \<longleftrightarrow> prefix p s"
proof
  assume "starts_with p s"
  then have "s = p @ drop (length p) s"
    by (metis append_take_drop_id starts_with_def)
  then show "prefix p s" by (rule prefixI)
qed (auto simp: starts_with_def prefix_def)

text \<open>Splitting at every occurrence of one character, as \<open>s.split(".")\<close> does: never empty.\<close>

fun split_on :: "char \<Rightarrow> string \<Rightarrow> string list" where
  "split_on c [] = [[]]"
| "split_on c (x # xs) =
     (if x = c then [] # split_on c xs
      else (case split_on c xs of [] \<Rightarrow> [[x]] | p # ps \<Rightarrow> (x # p) # ps))"

lemma split_on_not_Nil [simp]: "split_on c s \<noteq> []"
  by (induction s) (auto split: list.split)

lemma split_on_no_sep [js_simps]: "c \<notin> set s \<Longrightarrow> split_on c s = [s]"
  by (induction s) auto

lemma split_on_append_sep [js_simps]:
  "c \<notin> set p \<Longrightarrow> split_on c (p @ c # s) = p # split_on c s"
  by (induction p) auto

text \<open>Joining with a separator, the inverse of splitting.\<close>

fun join_with :: "string \<Rightarrow> string list \<Rightarrow> string" where
  "join_with sep [] = []"
| "join_with sep [p] = p"
| "join_with sep (p # q # ps) = p @ sep @ join_with sep (q # ps)"

lemma join_split_on: "join_with [c] (split_on c s) = s"
proof (induction s)
  case (Cons x xs)
  obtain p ps where s: "split_on c xs = p # ps"
    by (cases "split_on c xs") auto
  with Cons show ?case
    by (cases ps) auto
qed simp

lemma split_on_parts_no_sep: "p \<in> set (split_on c s) \<Longrightarrow> c \<notin> set p"
  by (induction s arbitrary: p) (auto split: list.splits if_splits)

definition to_lower_char :: "char \<Rightarrow> char" where
  "to_lower_char c =
     (if 65 \<le> (of_char c :: nat) \<and> (of_char c :: nat) \<le> 90 then char_of (of_char c + 32 :: nat) else c)"

text \<open>\<open>toLowerCase\<close> on ASCII letters.\<close>

definition to_lower :: "string \<Rightarrow> string" where
  "to_lower s = map to_lower_char s"

lemma to_lower_char_idem [simp]: "to_lower_char (to_lower_char c) = to_lower_char c"
proof -
  have "(of_char c :: nat) + 32 < 256" if "(of_char c :: nat) \<le> 90"
    using that by simp
  then show ?thesis
    by (auto simp: to_lower_char_def)
qed

lemma to_lower_idem [simp, js_simps]: "to_lower (to_lower s) = to_lower s"
  by (simp add: to_lower_def)

lemma length_to_lower [simp]: "length (to_lower s) = length s"
  by (simp add: to_lower_def)

definition is_space :: "char \<Rightarrow> bool" where
  "is_space c = (of_char c \<in> {9, 10, 11, 12, 13, 32 :: nat})"

text \<open>\<open>trim\<close> on ASCII white space.\<close>

definition trim :: "string \<Rightarrow> string" where
  "trim s = rev (dropWhile is_space (rev (dropWhile is_space s)))"

lemma trim_no_space [js_simps]: "(\<forall>c \<in> set s. \<not> is_space c) \<Longrightarrow> trim s = s"
proof -
  assume a: "\<forall>c \<in> set s. \<not> is_space c"
  then have "dropWhile is_space s = s" by (cases s) auto
  moreover from a have "dropWhile is_space (rev s) = rev s"
    by (cases "rev s") (auto simp flip: set_rev [of s])
  ultimately show ?thesis by (simp add: trim_def)
qed

text \<open>\<open>s.replace(/\/+$/, "")\<close>: the string without its trailing slashes.\<close>

definition strip_trailing_slashes :: "string \<Rightarrow> string" where
  "strip_trailing_slashes s = rev (dropWhile (\<lambda>c. c = CHR ''/'') (rev s))"

definition strip_leading_slashes :: "string \<Rightarrow> string" where
  "strip_leading_slashes s = dropWhile (\<lambda>c. c = CHR ''/'') s"

lemma strip_trailing_slashes_last:
  "strip_trailing_slashes s \<noteq> [] \<Longrightarrow> last (strip_trailing_slashes s) \<noteq> CHR ''/''"
  unfolding strip_trailing_slashes_def last_rev
  using hd_dropWhile [of "\<lambda>c. c = CHR ''/''" "rev s"] by auto

lemma strip_trailing_slashes_idem [simp]:
  "strip_trailing_slashes (strip_trailing_slashes s) = strip_trailing_slashes s"
  by (simp add: strip_trailing_slashes_def dropWhile_idem)

subsection \<open>Decimal numerals\<close>

text \<open>The decimal text of a number, as template literals and \<open>JSON.stringify\<close> print it.\<close>

fun show_nat :: "nat \<Rightarrow> string" where
  "show_nat n = (if n < 10 then [char_of (48 + n)] else show_nat (n div 10) @ [char_of (48 + n mod 10)])"

declare show_nat.simps [simp del]

definition show_int :: "int \<Rightarrow> string" where
  "show_int i = (if i < 0 then CHR ''-'' # show_nat (nat (- i)) else show_nat (nat i))"

definition digit_val :: "char \<Rightarrow> nat option" where
  "digit_val c =
     (let n = of_char c :: nat in if 48 \<le> n \<and> n \<le> 57 then Some (n - 48) else None)"

lemma digit_val_char_of [simp]: "d < 10 \<Longrightarrow> digit_val (char_of (48 + d)) = Some d"
  by (simp add: digit_val_def Let_def)

fun read_digits :: "nat \<Rightarrow> string \<Rightarrow> nat \<times> string" where
  "read_digits acc [] = (acc, [])"
| "read_digits acc (c # cs) =
     (case digit_val c of Some d \<Rightarrow> read_digits (acc * 10 + d) cs | None \<Rightarrow> (acc, c # cs))"

text \<open>Where a numeral must end: no digit follows.\<close>

definition no_digit :: "string \<Rightarrow> bool" where
  "no_digit s = (case s of [] \<Rightarrow> True | c # _ \<Rightarrow> digit_val c = None)"

lemma read_digits_stop: "no_digit s \<Longrightarrow> read_digits acc s = (acc, s)"
  by (cases s) (auto simp: no_digit_def)

lemma show_nat_digits: "\<exists>c cs. show_nat n = c # cs \<and> digit_val c \<noteq> None"
proof (induction n rule: show_nat.induct)
  case (1 n)
  then show ?case
    by (cases "n < 10") (auto simp: show_nat.simps [of n])
qed

lemma show_nat_not_Nil [simp]: "show_nat n \<noteq> []"
  using show_nat_digits [of n] by auto

lemma show_nat_all_digits: "c \<in> set (show_nat n) \<Longrightarrow> digit_val c \<noteq> None"
proof (induction n rule: show_nat.induct)
  case (1 n)
  then show ?case
    by (cases "n < 10") (auto simp: show_nat.simps [of n])
qed

lemma read_digits_show_nat:
  "\<exists>k. read_digits acc (show_nat n @ rest) = read_digits (acc * 10 ^ k + n) rest \<and> 0 < k"
proof (induction n arbitrary: rest rule: show_nat.induct)
  case (1 n)
  show ?case
  proof (cases "n < 10")
    case True
    then show ?thesis
      by (intro exI [of _ 1]) (simp add: show_nat.simps [of n])
  next
    case False
    let ?r = "char_of (48 + n mod 10) # rest"
    from "1.IH" [OF False, of ?r] obtain k where
      k: "read_digits acc (show_nat (n div 10) @ ?r) = read_digits (acc * 10 ^ k + n div 10) ?r"
      by blast
    have "read_digits acc (show_nat n @ rest) = read_digits acc (show_nat (n div 10) @ ?r)"
      using False by (simp add: show_nat.simps [of n])
    also have "\<dots> = read_digits ((acc * 10 ^ k + n div 10) * 10 + n mod 10) rest"
      by (simp add: k)
    also have "(acc * 10 ^ k + n div 10) * 10 + n mod 10 = acc * 10 ^ Suc k + n"
      by (simp add: algebra_simps)
    finally show ?thesis by blast
  qed
qed

lemma read_show_nat [js_simps]: "no_digit rest \<Longrightarrow> read_digits 0 (show_nat n @ rest) = (n, rest)"
  using read_digits_show_nat [of 0 n rest] by (auto simp: read_digits_stop)

lemma show_nat_inj: "show_nat m = show_nat n \<Longrightarrow> m = n"
  using read_show_nat [of "[]" m] read_show_nat [of "[]" n] by (simp add: no_digit_def)

subsection \<open>Insertion order: spreading a set, and maps\<close>

text \<open>\<open>[...new Set(xs)]\<close>: the first occurrence of every element, in order.\<close>

definition dedup :: "'a list \<Rightarrow> 'a list" where
  "dedup xs = rev (remdups (rev xs))"

lemma set_dedup [simp]: "set (dedup xs) = set xs"
  by (simp add: dedup_def)

lemma distinct_dedup [simp]: "distinct (dedup xs)"
  by (simp add: dedup_def)

lemma dedup_distinct [simp]: "distinct xs \<Longrightarrow> dedup xs = xs"
  by (simp add: dedup_def distinct_remdups_id)

lemma dedup_Nil_iff [simp]: "dedup xs = [] \<longleftrightarrow> xs = []"
  by (simp add: dedup_def)

text \<open>
  A JavaScript \<open>Map\<close> iterates in the order keys were first set; setting an existing key keeps its
  place. The model is an association list with distinct keys.
\<close>

fun amap_set :: "'k \<Rightarrow> 'v \<Rightarrow> ('k \<times> 'v) list \<Rightarrow> ('k \<times> 'v) list" where
  "amap_set k v [] = [(k, v)]"
| "amap_set k v ((k', v') # m) = (if k' = k then (k, v) # m else (k', v') # amap_set k v m)"

definition amap_delete :: "'k \<Rightarrow> ('k \<times> 'v) list \<Rightarrow> ('k \<times> 'v) list" where
  "amap_delete k m = filter (\<lambda>(k', v). k' \<noteq> k) m"

lemma map_of_amap_set [simp, js_simps]: "map_of (amap_set k v m) = (map_of m)(k \<mapsto> v)"
  by (induction m) auto

lemma map_of_amap_delete [simp, js_simps]: "map_of (amap_delete k m) = (map_of m)(k := None)"
  by (induction m) (auto simp: amap_delete_def)

lemma keys_amap_set: "fst ` set (amap_set k v m) = insert k (fst ` set m)"
  by (induction m) force+

lemma distinct_amap_set [simp]: "distinct (map fst m) \<Longrightarrow> distinct (map fst (amap_set k v m))"
proof (induction m)
  case (Cons p m)
  obtain k' v' where p: "p = (k', v')" by (cases p)
  have "set (map fst (amap_set k v m)) = insert k (set (map fst m))"
    using keys_amap_set [of k v m] by simp
  with Cons p show ?case by auto
qed simp

lemma distinct_amap_delete [simp]: "distinct (map fst m) \<Longrightarrow> distinct (map fst (amap_delete k m))"
  by (induction m) (auto simp: amap_delete_def)

text \<open>Lookups in such maps are reasoned about through \<^const>\<open>map_of\<close>, never through membership.\<close>

declare map_of_eq_Some_iff [simp del] Some_eq_map_of_iff [simp del]

text \<open>The contract a client of such a map relies on.\<close>

locale js_map =
  fixes put :: "'k \<Rightarrow> 'v \<Rightarrow> 'm \<Rightarrow> 'm"
    and remove :: "'k \<Rightarrow> 'm \<Rightarrow> 'm"
    and fetch :: "'m \<Rightarrow> 'k \<Rightarrow> 'v option"
    and ok :: "'m \<Rightarrow> bool"
  assumes fetch_put: "fetch (put k v m) = (fetch m)(k \<mapsto> v)"
    and fetch_remove: "fetch (remove k m) = (fetch m)(k := None)"
    and ok_put: "ok m \<Longrightarrow> ok (put k v m)"
    and ok_remove: "ok m \<Longrightarrow> ok (remove k m)"
begin

lemma fetch_after_put: "fetch (put k v m) k = Some v"
  by (simp add: fetch_put)

lemma fetch_other: "k' \<noteq> k \<Longrightarrow> fetch (put k v m) k' = fetch m k'"
  by (simp add: fetch_put)

lemma dom_put: "dom (fetch (put k v m)) = insert k (dom (fetch m))"
  by (simp add: fetch_put)

lemma dom_remove: "dom (fetch (remove k m)) = dom (fetch m) - {k}"
  by (simp add: fetch_remove)

end

interpretation amap: js_map amap_set amap_delete map_of "\<lambda>m. distinct (map fst m)"
  by unfold_locales simp_all

end
