(* ===== verification/BeamErrors.thy ===== *)
theory BeamErrors
  imports Prelude Complex_Main
begin

text \<open>
  The browser SDK's error model (\<open>packages/web-sdk/src/core/errors/index.ts\<close>): the code vocabulary,
  the error object and its subclasses' constructors, the default retryability of a code, and the two
  narrowing functions the transport uses, \<open>codeFromStatus\<close> and \<open>asRemoteErrorCode\<close>.
\<close>

subsection \<open>Codes\<close>

datatype beam_code =
  Invalid_argument | Permission_denied | Not_found | Conflict | Resource_exhausted | Unavailable
| Internal | Source_access_denied | Destination_access_denied
| Config_invalid | Auth_failed | Auth_expired | Network | Timeout | Aborted
| Unsupported_environment | Protocol

fun code_text :: "beam_code \<Rightarrow> string" where
  "code_text Invalid_argument = ''invalid_argument''"
| "code_text Permission_denied = ''permission_denied''"
| "code_text Not_found = ''not_found''"
| "code_text Conflict = ''conflict''"
| "code_text Resource_exhausted = ''resource_exhausted''"
| "code_text Unavailable = ''unavailable''"
| "code_text Internal = ''internal''"
| "code_text Source_access_denied = ''source_access_denied''"
| "code_text Destination_access_denied = ''destination_access_denied''"
| "code_text Config_invalid = ''config_invalid''"
| "code_text Auth_failed = ''auth_failed''"
| "code_text Auth_expired = ''auth_expired''"
| "code_text Network = ''network''"
| "code_text Timeout = ''timeout''"
| "code_text Aborted = ''aborted''"
| "code_text Unsupported_environment = ''unsupported_environment''"
| "code_text Protocol = ''protocol''"

definition RETRYABLE_CODES :: "beam_code list" where
  "RETRYABLE_CODES = [Unavailable, Internal, Network, Timeout, Resource_exhausted]"

definition REMOTE_CODES :: "beam_code list" where
  "REMOTE_CODES = [Invalid_argument, Permission_denied, Not_found, Conflict, Resource_exhausted,
     Unavailable, Internal, Source_access_denied, Destination_access_denied]"

subsection \<open>The error object\<close>

datatype error_class =
  BeamError | BeamConfigError | BeamAuthError | BeamApiError | BeamNetworkError | BeamTimeoutError
| BeamAbortError | BeamUnsupportedError

record beam_error_options =
  opt_code :: beam_code
  opt_status :: "int option"
  opt_requestId :: "string option"
  opt_retryable :: "bool option"
  opt_retryAfterSeconds :: "rat option"

record beam_error =
  err_name :: error_class
  err_message :: string
  err_code :: beam_code
  err_status :: "int option"
  err_requestId :: "string option"
  err_retryable :: bool
  err_retryAfterSeconds :: "rat option"

text \<open>
  The base constructor. \<open>new.target.name\<close> is the class that is constructed. The \<open>cause\<close> chain is
  not modelled: no code under \<open>src/\<close> reads it.
\<close>

definition new_beam_error :: "error_class \<Rightarrow> string \<Rightarrow> beam_error_options \<Rightarrow> beam_error" where
  "new_beam_error cls msg opts =
     \<lparr>err_name = cls, err_message = msg, err_code = opt_code opts, err_status = opt_status opts,
      err_requestId = opt_requestId opts,
      err_retryable = coalesce (opt_retryable opts) (opt_code opts \<in> set RETRYABLE_CODES),
      err_retryAfterSeconds = opt_retryAfterSeconds opts\<rparr>"

abbreviation code_options :: "beam_code \<Rightarrow> bool option \<Rightarrow> beam_error_options" where
  "code_options c r \<equiv>
     \<lparr>opt_code = c, opt_status = None, opt_requestId = None, opt_retryable = r,
      opt_retryAfterSeconds = None\<rparr>"

definition config_error :: "string \<Rightarrow> beam_error" where
  "config_error msg = new_beam_error BeamConfigError msg (code_options Config_invalid (Some False))"

text \<open>The authentication error defaults its code and forwards the other options.\<close>

definition auth_error ::
  "string \<Rightarrow> beam_code option \<Rightarrow> int option \<Rightarrow> string option \<Rightarrow> bool option \<Rightarrow> beam_error" where
  "auth_error msg code status rid retryable =
     new_beam_error BeamAuthError msg
       \<lparr>opt_code = coalesce code Auth_failed, opt_status = status, opt_requestId = rid,
        opt_retryable = retryable, opt_retryAfterSeconds = None\<rparr>"

definition network_error :: "string \<Rightarrow> beam_error" where
  "network_error msg = new_beam_error BeamNetworkError msg (code_options Network None)"

definition timeout_error :: "string \<Rightarrow> beam_error" where
  "timeout_error msg = new_beam_error BeamTimeoutError msg (code_options Timeout None)"

definition abort_error :: "beam_error" where
  "abort_error =
     new_beam_error BeamAbortError ''The operation was aborted.'' (code_options Aborted (Some False))"

definition unsupported_error :: "string \<Rightarrow> beam_error" where
  "unsupported_error msg =
     new_beam_error BeamUnsupportedError msg (code_options Unsupported_environment (Some False))"

text \<open>JavaScript can throw any value: a \<open>BeamError\<close> or something else, of which only text is kept.\<close>

datatype thrown = Beam beam_error | Foreign string

fun is_abort :: "thrown \<Rightarrow> bool" where
  "is_abort (Beam e) = (err_name e = BeamAbortError)"
| "is_abort (Foreign _) = False"

subsection \<open>Narrowing\<close>

definition codeFromStatus :: "int \<Rightarrow> beam_code" where
  "codeFromStatus status =
     (if status = 400 \<or> status = 422 then Invalid_argument
      else if status = 401 then Auth_failed
      else if status = 403 then Permission_denied
      else if status = 404 then Not_found
      else if status = 409 then Conflict
      else if status = 429 then Resource_exhausted
      else if status \<ge> 500 then (if status = 503 then Unavailable else Internal)
      else Internal)"

text \<open>The argument is the string when the narrowed value is one, and \<^term>\<open>None\<close> otherwise.\<close>

definition asRemoteErrorCode :: "string option \<Rightarrow> beam_code option" where
  "asRemoteErrorCode value =
     (case value of None \<Rightarrow> None | Some s \<Rightarrow> List.find (\<lambda>c. code_text c = s) REMOTE_CODES)"

subsection \<open>Lemmas\<close>

lemma code_text_inj: "code_text a = code_text b \<Longrightarrow> a = b"
  by (cases a; cases b; simp)

lemma new_beam_error_fields [simp]:
  "err_name (new_beam_error cls msg opts) = cls"
  "err_message (new_beam_error cls msg opts) = msg"
  "err_code (new_beam_error cls msg opts) = opt_code opts"
  "err_status (new_beam_error cls msg opts) = opt_status opts"
  "err_retryable (new_beam_error cls msg opts) =
     coalesce (opt_retryable opts) (opt_code opts \<in> set RETRYABLE_CODES)"
  "err_retryAfterSeconds (new_beam_error cls msg opts) = opt_retryAfterSeconds opts"
  by (simp_all add: new_beam_error_def)

lemma abort_error_simps [simp]:
  "err_name abort_error = BeamAbortError" "err_retryable abort_error = False"
  by (simp_all add: abort_error_def)

lemma find_code_text: "c \<in> set cs \<Longrightarrow> List.find (\<lambda>d. code_text d = code_text c) cs = Some c"
  by (induction cs) (auto dest: code_text_inj)

lemma find_code_SomeD: "List.find (\<lambda>d. code_text d = s) cs = Some c \<Longrightarrow> c \<in> set cs \<and> code_text c = s"
  by (auto simp: find_Some_iff)

lemma codeFromStatus_retryable:
  "codeFromStatus s \<in> set RETRYABLE_CODES \<longleftrightarrow> s \<notin> {400, 401, 403, 404, 409, 422}"
  by (auto simp: codeFromStatus_def RETRYABLE_CODES_def)

text \<open>
  Narrowing a wire value accepts exactly the coordinator's vocabulary: the text of every remote
  code narrows back to that code, anything accepted is the text of a remote code, and an SDK-local
  code can never be injected over the wire.
\<close>

theorem asRemoteErrorCode_exact:
  "asRemoteErrorCode (Some s) = Some c \<longleftrightarrow> c \<in> set REMOTE_CODES \<and> s = code_text c"
  by (auto simp: asRemoteErrorCode_def find_code_text dest: find_code_SomeD)

end
