(* ===== verification/Retry.thy ===== *)
theory Retry
  imports BeamErrors
begin

text \<open>
  Backoff, the retry loop and the reconnection loop
  (\<open>packages/web-sdk/src/core/retry/index.ts\<close>). The world outside the loop (the operation, the
  abort signal, timers, the random source) is a state of an arbitrary type \<open>'w\<close> that every call may
  read and change, so the theorems hold for every behaviour of the operation and of the signal. A
  loop is unrolled with fuel, one unit per iteration; \<^term>\<open>None\<close> is ``still running''.
\<close>

subsection \<open>Backoff\<close>

text \<open>
  Delays are rationals: every finite JavaScript number is one, and the rounding of products is not
  modelled. \<^term>\<open>None\<close> as the attempt bound is \<open>Infinity\<close>.
\<close>

record backoff_options =
  opt_initialDelayMs :: "rat option"
  opt_maxDelayMs :: "rat option"
  opt_factor :: "rat option"
  opt_maxAttempts :: "nat option option"

record backoff =
  initialDelayMs :: rat
  maxDelayMs :: rat
  factor :: rat
  maxAttempts :: "nat option"

text \<open>\<open>{ ...DEFAULTS, ...options }\<close>.\<close>

definition with_defaults :: "backoff_options \<Rightarrow> backoff" where
  "with_defaults opts =
     \<lparr>initialDelayMs = coalesce (opt_initialDelayMs opts) 500,
      maxDelayMs = coalesce (opt_maxDelayMs opts) 30000,
      factor = coalesce (opt_factor opts) 2,
      maxAttempts = coalesce (opt_maxAttempts opts) (Some 4)\<rparr>"

definition default_backoff :: backoff where
  "default_backoff =
     with_defaults \<lparr>opt_initialDelayMs = None, opt_maxDelayMs = None, opt_factor = None,
       opt_maxAttempts = None\<rparr>"

lemma default_backoff_maxAttempts [simp]: "maxAttempts default_backoff = Some 4"
  by (simp add: default_backoff_def with_defaults_def)

definition backoffDelay :: "int \<Rightarrow> backoff \<Rightarrow> rat \<Rightarrow> int" where
  "backoffDelay attempt b random =
     \<lfloor>random * min (maxDelayMs b) (initialDelayMs b * factor b ^ nat (max 0 attempt))\<rfloor>"

subsection \<open>Retrying an operation\<close>

record 'w retry_io =
  signal_aborted :: "'w \<Rightarrow> bool"
  random_draw :: "'w \<Rightarrow> rat \<times> 'w"
  on_retry :: "thrown \<Rightarrow> nat \<Rightarrow> rat \<Rightarrow> 'w \<Rightarrow> 'w"
  delay_resolves :: "rat \<Rightarrow> 'w \<Rightarrow> bool \<times> 'w"

definition defaultShouldRetry :: "thrown \<Rightarrow> nat \<Rightarrow> bool" where
  "defaultShouldRetry e attempt = (case e of Beam b \<Rightarrow> err_retryable b | Foreign _ \<Rightarrow> False)"

definition retry_after :: "thrown \<Rightarrow> rat option" where
  "retry_after e = (case e of Beam b \<Rightarrow> err_retryAfterSeconds b | Foreign _ \<Rightarrow> None)"

text \<open>The wait before the next attempt: a server-supplied delay overrides the computed one.\<close>

definition retry_wait :: "backoff \<Rightarrow> 'w retry_io \<Rightarrow> thrown \<Rightarrow> nat \<Rightarrow> 'w \<Rightarrow> rat \<times> 'w" where
  "retry_wait b io e attempt w =
     (case retry_after e of
        Some s \<Rightarrow> (s * 1000, w)
      | None \<Rightarrow> (case random_draw io w of
                  (r, w') \<Rightarrow> (of_int (backoffDelay (int attempt - 1) b r), w')))"

definition exhausted :: "backoff \<Rightarrow> nat \<Rightarrow> bool" where
  "exhausted b attempt = (case maxAttempts b of None \<Rightarrow> False | Some n \<Rightarrow> n \<le> attempt)"

fun withRetry ::
  "nat \<Rightarrow> backoff \<Rightarrow> (thrown \<Rightarrow> nat \<Rightarrow> bool) \<Rightarrow> 'w retry_io
    \<Rightarrow> (nat \<Rightarrow> 'w \<Rightarrow> (thrown + 'a) \<times> 'w) \<Rightarrow> nat \<Rightarrow> 'w \<Rightarrow> ((thrown + 'a) \<times> 'w) option" where
  "withRetry 0 b should io operation attempt w = None"
| "withRetry (Suc fuel) b should io operation attempt w =
     (if signal_aborted io w then Some (Inl (Beam abort_error), w)
      else
        (case operation attempt w of
           (Inr x, w1) \<Rightarrow> Some (Inr x, w1)
         | (Inl e, w1) \<Rightarrow>
             (let attempt' = Suc attempt in
              if exhausted b attempt' \<or> \<not> should e attempt' then Some (Inl e, w1)
              else
                (case retry_wait b io e attempt' w1 of
                   (ms, w2) \<Rightarrow>
                     (case delay_resolves io ms (on_retry io e attempt' ms w2) of
                        (False, w3) \<Rightarrow> Some (Inl (Beam abort_error), w3)
                      | (True, w3) \<Rightarrow> withRetry fuel b should io operation attempt' w3)))))"

subsection \<open>The reconnector\<close>

datatype reconnect_state = Connecting | Connected | Reconnecting | Closed

text \<open>
  The instance's fields, with the callback calls of \<open>onStateChange\<close> recorded oldest first.
\<close>

record reconnector =
  rc_state :: reconnect_state
  rc_attempt :: nat
  rc_changes :: "reconnect_state list"

definition new_reconnector :: reconnector where
  "new_reconnector = \<lparr>rc_state = Closed, rc_attempt = 0, rc_changes = []\<rparr>"

definition setState :: "reconnect_state \<Rightarrow> reconnector \<Rightarrow> reconnector" where
  "setState s rc =
     (if rc_state rc = s then rc else rc\<lparr>rc_state := s, rc_changes := rc_changes rc @ [s]\<rparr>)"

definition markConnected :: "reconnector \<Rightarrow> reconnector" where
  "markConnected rc = setState Connected (rc\<lparr>rc_attempt := 0\<rparr>)"

text \<open>
  What \<open>connect\<close> does to the reconnector is to mark it connected some number of times before it
  resolves or rejects. Marking twice is marking once, so a flag says whether it did.
\<close>

record 'w reconnect_io =
  rc_aborted :: "'w \<Rightarrow> bool"
  rc_connect :: "'w \<Rightarrow> (bool \<times> (thrown + unit)) \<times> 'w"
  rc_random :: "'w \<Rightarrow> rat \<times> 'w"
  rc_online_and_delay :: "rat \<Rightarrow> 'w \<Rightarrow> bool \<times> 'w"

definition reconnectShouldRetry :: "thrown \<Rightarrow> bool" where
  "reconnectShouldRetry e = (case e of Beam b \<Rightarrow> err_retryable b | Foreign _ \<Rightarrow> True)"

text \<open>One pass of the loop body: either the loop is left with an outcome, or it goes round.\<close>

datatype 'w pass = Leave "thrown + unit" reconnector 'w | Again reconnector 'w

definition reconnect_backoff :: "backoff \<Rightarrow> 'w reconnect_io \<Rightarrow> thrown option \<Rightarrow> reconnector \<Rightarrow> 'w \<Rightarrow> 'w pass" where
  "reconnect_backoff b io lastError rc w =
     (if rc_aborted io w then Leave (Inr ()) rc w
      else
        (let rc1 = setState Reconnecting rc in
         case rc_random io w of
           (r, w1) \<Rightarrow>
             (let ms = of_int (backoffDelay (int (rc_attempt rc1)) b r);
                  rc2 = rc1\<lparr>rc_attempt := Suc (rc_attempt rc1)\<rparr> in
              if exhausted b (rc_attempt rc2)
              then Leave (case lastError of Some e \<Rightarrow> Inl e | None \<Rightarrow> Inr ()) rc2 w1
              else
                (case rc_online_and_delay io ms w1 of
                   (True, w2) \<Rightarrow> Again rc2 w2
                 | (False, w2) \<Rightarrow> Leave (Inr ()) rc2 w2))))"

definition reconnect_pass ::
  "backoff \<Rightarrow> (thrown \<Rightarrow> bool) \<Rightarrow> 'w reconnect_io \<Rightarrow> reconnector \<Rightarrow> 'w \<Rightarrow> 'w pass" where
  "reconnect_pass b should io rc w =
     (if rc_aborted io w then Leave (Inr ()) rc w
      else
        (case rc_connect io w of
           ((marked, result), w1) \<Rightarrow>
             (let rc1 = (if marked then markConnected rc else rc) in
              case result of
                Inr _ \<Rightarrow> reconnect_backoff b io None rc1 w1
              | Inl e \<Rightarrow>
                  if rc_aborted io w1 \<or> is_abort e then Leave (Inr ()) rc1 w1
                  else if \<not> should e then Leave (Inl e) rc1 w1
                  else reconnect_backoff b io (Some e) rc1 w1)))"

fun reconnect_loop ::
  "nat \<Rightarrow> backoff \<Rightarrow> (thrown \<Rightarrow> bool) \<Rightarrow> 'w reconnect_io \<Rightarrow> reconnector \<Rightarrow> 'w
    \<Rightarrow> ((thrown + unit) \<times> reconnector \<times> 'w) option" where
  "reconnect_loop 0 b should io rc w = None"
| "reconnect_loop (Suc fuel) b should io rc w =
     (case reconnect_pass b should io rc w of
        Leave r rc' w' \<Rightarrow> Some (r, setState Closed rc', w')
      | Again rc' w' \<Rightarrow> reconnect_loop fuel b should io rc' w')"

text \<open>\<open>run\<close>: here the default attempt bound is unlimited, and the \<open>finally\<close> closes.\<close>

definition reconnect_run ::
  "nat \<Rightarrow> backoff_options \<Rightarrow> (thrown \<Rightarrow> bool) option \<Rightarrow> 'w reconnect_io \<Rightarrow> reconnector \<Rightarrow> 'w
    \<Rightarrow> ((thrown + unit) \<times> reconnector \<times> 'w) option" where
  "reconnect_run fuel opts should io rc w =
     reconnect_loop fuel ((with_defaults opts)\<lparr>maxAttempts := coalesce (opt_maxAttempts opts) None\<rparr>)
       (coalesce should reconnectShouldRetry) io (setState Connecting rc) w"


subsection \<open>Properties of the retry loop\<close>

text \<open>
  The same loop with the attempt numbers the operation is called with recorded, newest first, beside
  the world.
\<close>

definition logged_io :: "'w retry_io \<Rightarrow> ('w \<times> nat list) retry_io" where
  "logged_io io =
     \<lparr>signal_aborted = (\<lambda>(w, l). signal_aborted io w),
      random_draw = (\<lambda>(w, l). case random_draw io w of (r, w') \<Rightarrow> (r, (w', l))),
      on_retry = (\<lambda>e k ms (w, l). (on_retry io e k ms w, l)),
      delay_resolves = (\<lambda>ms (w, l). case delay_resolves io ms w of (r, w') \<Rightarrow> (r, (w', l)))\<rparr>"

definition logged_op ::
  "(nat \<Rightarrow> 'w \<Rightarrow> (thrown + 'a) \<times> 'w) \<Rightarrow> nat \<Rightarrow> 'w \<times> nat list \<Rightarrow> (thrown + 'a) \<times> 'w \<times> nat list" where
  "logged_op operation k wl =
     (case wl of (w, l) \<Rightarrow> (case operation k w of (r, w') \<Rightarrow> (r, (w', k # l))))"

lemma retry_wait_logged:
  "retry_wait b (logged_io io) e k (w, l) =
     (case retry_wait b io e k w of (ms, w') \<Rightarrow> (ms, (w', l)))"
  by (simp add: retry_wait_def logged_io_def split: option.split prod.split)

lemma withRetry_logged_bound:
  assumes "maxAttempts b = Some n" and "n - k < fuel" and "k < n \<or> k = 0"
  shows "\<exists>r w' c. withRetry fuel b should (logged_io io) (logged_op operation) k (w, rev [0..<k])
           = Some (r, (w', rev [0..<c])) \<and> k \<le> c \<and> c \<le> max 1 n"
  using assms(2,3)
proof (induction fuel arbitrary: k w)
  case (Suc fuel)
  have zero: "\<exists>c. rev [0..<k] = rev [0..<c] \<and> k \<le> c \<and> c \<le> max 1 n"
    using Suc.prems by (intro exI [of _ k]) auto
  show ?case
  proof (cases "signal_aborted io w")
    case True
    with zero show ?thesis by (auto simp: logged_io_def)
  next
    case False
    obtain out w1 where op: "operation k w = (out, w1)" by fastforce
    have log: "logged_op operation k (w, rev [0..<k]) = (out, (w1, rev [0..<Suc k]))"
      by (simp add: logged_op_def op)
    have here: "\<exists>c. rev [0..<Suc k] = rev [0..<c] \<and> k \<le> c \<and> c \<le> max 1 n"
      using Suc.prems by (intro exI [of _ "Suc k"]) auto
    have ab: "\<not> signal_aborted (logged_io io) (w, rev [0..<k])"
      using False by (simp add: logged_io_def)
    show ?thesis
    proof (cases out)
      case (Inr x)
      with log ab here show ?thesis by (auto simp del: upt_Suc)
    next
      case (Inl e)
      show ?thesis
      proof (cases "exhausted b (Suc k) \<or> \<not> should e (Suc k)")
        case True
        with Inl log ab here show ?thesis by (auto simp del: upt_Suc simp add: Let_def)
      next
        case go: False
        then have lt: "Suc k < n" using assms(1) by (simp add: exhausted_def)
        obtain ms w2 where wait: "retry_wait b io e (Suc k) w1 = (ms, w2)" by fastforce
        obtain ok w3 where sl: "delay_resolves io ms (on_retry io e (Suc k) ms w2) = (ok, w3)"
          by fastforce
        have wait': "retry_wait b (logged_io io) e (Suc k) (w1, rev [0..<Suc k]) =
            (ms, (w2, rev [0..<Suc k]))"
          by (simp add: retry_wait_logged wait del: upt_Suc)
        have sl': "delay_resolves (logged_io io) ms
            (on_retry (logged_io io) e (Suc k) ms (w2, rev [0..<Suc k])) = (ok, (w3, rev [0..<Suc k]))"
          by (simp add: logged_io_def sl del: upt_Suc)
        show ?thesis
        proof (cases ok)
          case False
          with Inl go log ab here wait' sl' show ?thesis
            by (auto simp del: upt_Suc simp add: Let_def)
        next
          case True
          have "\<exists>r w' c. withRetry fuel b should (logged_io io) (logged_op operation) (Suc k)
              (w3, rev [0..<Suc k]) = Some (r, (w', rev [0..<c])) \<and> Suc k \<le> c \<and> c \<le> max 1 n"
            using Suc.prems lt by (intro Suc.IH) auto
          with True Inl go log ab wait' sl' show ?thesis
            by (force simp del: upt_Suc simp add: Let_def)
        qed
      qed
    qed
  qed
qed simp

text \<open>
  With a finite \<open>maxAttempts\<close> the retry loop returns, whatever the operation, the signal, the
  timers and the retry predicate do, and it calls the operation with the attempt numbers
  0, 1, 2, ... in order, at most \<open>maxAttempts\<close> times (once when the bound is 0).
\<close>

theorem withRetry_bounded:
  assumes "maxAttempts b = Some n"
  shows "\<exists>r w' c. withRetry (Suc n) b should (logged_io io) (logged_op operation) 0 (w, [])
           = Some (r, (w', rev [0..<c])) \<and> c \<le> max 1 n"
  using withRetry_logged_bound [OF assms, of 0 "Suc n" should io operation w] by auto

text \<open>
  A rule for invariants of the whole loop: a property of the world indexed by the number of calls made,
  which the operation moves from one index to the next and everything else keeps.
\<close>

lemma withRetry_rule:
  assumes n: "maxAttempts b = Some n"
    and op: "\<And>j w. P j w \<Longrightarrow> P (Suc j) (snd (operation j w))"
    and draw: "\<And>j w. P j w \<Longrightarrow> P j (snd (random_draw io w))"
    and retry: "\<And>j w e i ms. P j w \<Longrightarrow> P j (on_retry io e i ms w)"
    and sleep: "\<And>j w ms. P j w \<Longrightarrow> P j (snd (delay_resolves io ms w))"
    and fuel: "n - k < fuel" "k < n \<or> k = 0" and start: "P k w"
  shows "\<exists>r w' c. withRetry fuel b should io operation k w = Some (r, w') \<and> P c w' \<and> c \<le> max 1 n"
  using fuel start
proof (induction fuel arbitrary: k w)
  case (Suc fuel)
  obtain out w1 where out: "operation k w = (out, w1)" by fastforce
  have P1: "P (Suc k) w1" using op [OF Suc.prems(3)] by (simp add: out)
  have here: "P k w \<and> k \<le> max 1 n" "P (Suc k) w1 \<and> Suc k \<le> max 1 n" using Suc.prems P1 by auto
  show ?case
  proof (cases "signal_aborted io w \<or> (\<exists>x. out = Inr x)")
    case True
    with here out show ?thesis by auto
  next
    case False
    then obtain e where e: "out = Inl e" by (cases out) auto
    show ?thesis
    proof (cases "exhausted b (Suc k) \<or> \<not> should e (Suc k)")
      case True
      with False e here out show ?thesis by (auto simp: Let_def)
    next
      case go: False
      then have lt: "Suc k < n" using n by (simp add: exhausted_def)
      obtain ms w2 where wait: "retry_wait b io e (Suc k) w1 = (ms, w2)" by fastforce
      have "P (Suc k) w2"
        using wait P1 draw [OF P1] by (auto simp: retry_wait_def split: option.splits prod.splits)
      then have P2: "P (Suc k) (on_retry io e (Suc k) ms w2)" by (rule retry)
      obtain ok w3 where sl: "delay_resolves io ms (on_retry io e (Suc k) ms w2) = (ok, w3)" by fastforce
      have P3: "P (Suc k) w3" using sleep [OF P2, of ms] by (simp add: sl)
      show ?thesis
      proof (cases ok)
        case True
        have "\<exists>r w' c. withRetry fuel b should io operation (Suc k) w3 = Some (r, w') \<and> P c w' \<and> c \<le> max 1 n"
          using Suc.prems(1) lt by (intro Suc.IH P3) auto
        with True False go e out wait sl show ?thesis by (simp add: Let_def)
      next
        case stop: False
        have "Suc k \<le> max 1 n" using lt by simp
        with stop False go e out wait sl P3 show ?thesis by (auto simp: Let_def)
      qed
    qed
  qed
qed simp

text \<open>A quiet world: the signal never fires, delays resolve, nothing changes.\<close>

definition quiet_io :: "unit retry_io" where
  "quiet_io =
     \<lparr>signal_aborted = (\<lambda>_. False), random_draw = (\<lambda>_. (1 / 2, ())), on_retry = (\<lambda>_ _ _ _. ()),
      delay_resolves = (\<lambda>_ _. (True, ()))\<rparr>"

theorem withRetry_bounded_witness:
  "\<exists>r w' c. withRetry (Suc 4) default_backoff defaultShouldRetry (logged_io quiet_io)
       (logged_op (\<lambda>k w. (Inl (Beam (network_error ''down'')) :: thrown + nat, w))) 0 ((), [])
     = Some (r, (w', rev [0..<c])) \<and> c \<le> max 1 4"
  by (rule withRetry_bounded [where b = default_backoff and n = 4]) (rule default_backoff_maxAttempts)

text \<open>When the loop stops after an attempt: success, bound reached, or not worth a retry.\<close>

definition stops_at ::
  "backoff \<Rightarrow> (thrown \<Rightarrow> nat \<Rightarrow> bool) \<Rightarrow> (nat \<Rightarrow> thrown + 'a) \<Rightarrow> nat \<Rightarrow> bool" where
  "stops_at b should f k =
     (case f k of Inr _ \<Rightarrow> True | Inl e \<Rightarrow> exhausted b (Suc k) \<or> \<not> should e (Suc k))"

lemma withRetry_quiet_step:
  "withRetry (Suc fuel) b should quiet_io (\<lambda>k w. (f k, w)) k () =
     (if stops_at b should f k then Some (f k, ())
      else withRetry fuel b should quiet_io (\<lambda>k w. (f k, w)) (Suc k) ())"
  by (simp add: stops_at_def quiet_io_def Let_def split: sum.split prod.split)

lemma withRetry_quiet_least:
  assumes "stops_at b should f m" and "\<forall>j. k \<le> j \<and> j < m \<longrightarrow> \<not> stops_at b should f j"
    and "k \<le> m" and "m - k < fuel"
  shows "withRetry fuel b should quiet_io (\<lambda>k w. (f k, w)) k () = Some (f m, ())"
  using assms(2-)
proof (induction fuel arbitrary: k)
  case (Suc fuel)
  show ?case
  proof (cases "k = m")
    case True
    then show ?thesis by (simp only: withRetry_quiet_step assms(1) if_True)
  next
    case False
    with Suc.prems have lt: "k < m" and nst: "\<not> stops_at b should f k" by auto
    have "withRetry fuel b should quiet_io (\<lambda>k w. (f k, w)) (Suc k) () = Some (f m, ())"
      using Suc.prems lt by (intro Suc.IH) auto
    with nst show ?thesis by (simp only: withRetry_quiet_step if_False)
  qed
qed simp

text \<open>
  With no abort, the retry loop's result is the outcome of the first attempt after which it
  stops (a success, a failure that is not worth retrying, or the last permitted attempt): no later
  outcome is used and no earlier stop is passed over.
\<close>

theorem withRetry_first_stop:
  assumes "maxAttempts b = Some n" and "0 < n"
  shows "\<exists>k < n. withRetry n b should quiet_io (\<lambda>k w. (f k, w)) 0 () = Some (f k, ())
           \<and> stops_at b should f k \<and> (\<forall>j < k. \<not> stops_at b should f j)"
proof -
  have last: "stops_at b should f (n - 1)"
    using assms by (simp add: stops_at_def exhausted_def split: sum.split)
  define m where "m = (LEAST k. stops_at b should f k)"
  have st: "stops_at b should f m" and le: "m \<le> n - 1"
    using last unfolding m_def by (rule LeastI, rule Least_le)
  have before: "\<forall>j < m. \<not> stops_at b should f j"
    using not_less_Least unfolding m_def by blast
  have "withRetry n b should quiet_io (\<lambda>k w. (f k, w)) 0 () = Some (f m, ())"
    using st before le assms(2) by (intro withRetry_quiet_least) auto
  moreover have "m < n" using le assms(2) by linarith
  ultimately show ?thesis using st before by blast
qed

theorem withRetry_first_stop_witness:
  "\<exists>k < 4. withRetry 4 default_backoff defaultShouldRetry quiet_io
       (\<lambda>k w. (if k < 2 then Inl (Beam (timeout_error ''slow'')) else Inr k, w)) 0 ()
     = Some (if k < 2 then Inl (Beam (timeout_error ''slow'')) else Inr k, ())
     \<and> stops_at default_backoff defaultShouldRetry
         (\<lambda>k. if k < 2 then Inl (Beam (timeout_error ''slow'')) else Inr k) k
     \<and> (\<forall>j < k. \<not> stops_at default_backoff defaultShouldRetry
         (\<lambda>k. if k < 2 then Inl (Beam (timeout_error ''slow'')) else Inr k) j)"
  by (rule withRetry_first_stop [where b = default_backoff and n = 4 and should = defaultShouldRetry
        and f = "\<lambda>k. if k < 2 then Inl (Beam (timeout_error ''slow'')) else Inr k"])
    (simp_all only: default_backoff_maxAttempts zero_less_numeral)

text \<open>
  A computed delay is never negative and never longer than the ceiling: neither
  \<open>maxDelayMs\<close> nor the exponential curve is exceeded, for every attempt and every draw in [0, 1).
\<close>

theorem backoffDelay_bounds:
  assumes "0 \<le> random" and "random < 1" and "0 \<le> initialDelayMs b" and "0 \<le> factor b"
    and "0 \<le> maxDelayMs b"
  shows "0 \<le> backoffDelay attempt b random
     \<and> of_int (backoffDelay attempt b random) \<le> maxDelayMs b
     \<and> of_int (backoffDelay attempt b random) \<le> initialDelayMs b * factor b ^ nat (max 0 attempt)"
proof -
  let ?c = "min (maxDelayMs b) (initialDelayMs b * factor b ^ nat (max 0 attempt))"
  have c0: "0 \<le> ?c" using assms by simp
  have le: "random * ?c \<le> ?c"
    using mult_right_mono [OF less_imp_le [OF assms(2)] c0] by simp
  have fl: "of_int \<lfloor>random * ?c\<rfloor> \<le> random * ?c" by (rule of_int_floor_le)
  have "0 \<le> random * ?c" using c0 assms(1) by simp
  then have "0 \<le> \<lfloor>random * ?c\<rfloor>" by simp
  moreover have "of_int \<lfloor>random * ?c\<rfloor> \<le> maxDelayMs b"
    and "of_int \<lfloor>random * ?c\<rfloor> \<le> initialDelayMs b * factor b ^ nat (max 0 attempt)"
    using fl le by linarith+
  ultimately show ?thesis by (simp add: backoffDelay_def)
qed

theorem backoffDelay_bounds_witness:
  "0 \<le> backoffDelay 9 default_backoff (3 / 4)
     \<and> of_int (backoffDelay 9 default_backoff (3 / 4)) \<le> maxDelayMs default_backoff
     \<and> of_int (backoffDelay 9 default_backoff (3 / 4))
       \<le> initialDelayMs default_backoff * factor default_backoff ^ nat (max 0 9)"
  by (rule backoffDelay_bounds) (simp_all add: default_backoff_def with_defaults_def)


subsection \<open>Properties of the reconnector\<close>

text \<open>
  The callback history of a reconnector: every change is a real change, starting from \<open>Closed\<close>, and
  the last one reported is the current state.
\<close>

definition rc_ok :: "reconnector \<Rightarrow> bool" where
  "rc_ok rc \<longleftrightarrow> successively (\<noteq>) (Closed # rc_changes rc) \<and> last (Closed # rc_changes rc) = rc_state rc"

lemma rc_ok_new: "rc_ok new_reconnector"
  by (simp add: rc_ok_def new_reconnector_def)

lemma rc_ok_setState [intro]: "rc_ok rc \<Longrightarrow> rc_ok (setState s rc)"
  by (auto simp: rc_ok_def setState_def successively_append_iff successively_Cons hd_append
      split: if_splits)

lemma rc_state_setState [simp]: "rc_state (setState s rc) = s"
  by (simp add: setState_def)

lemma rc_attempt_setState [simp]: "rc_attempt (setState s rc) = rc_attempt rc"
  by (simp add: setState_def)

lemma rc_ok_attempt [simp]: "rc_ok (rc\<lparr>rc_attempt := k\<rparr>) = rc_ok rc"
  by (simp add: rc_ok_def)

lemma rc_ok_markConnected [intro]: "rc_ok rc \<Longrightarrow> rc_ok (markConnected rc)"
  by (auto simp: markConnected_def)

definition pass_ok :: "'w pass \<Rightarrow> bool" where
  "pass_ok p = (case p of
     Leave r rc w \<Rightarrow> rc_ok rc \<and> (\<forall>e. r = Inl e \<longrightarrow> \<not> is_abort e)
   | Again rc w \<Rightarrow> rc_ok rc)"

lemma backoff_ok:
  "rc_ok rc \<Longrightarrow> (\<And>e. lastError = Some e \<Longrightarrow> \<not> is_abort e) \<Longrightarrow>
     pass_ok (reconnect_backoff b io lastError rc w)"
  by (auto simp: reconnect_backoff_def Let_def pass_ok_def split: prod.splits bool.splits option.splits)

lemma reconnect_pass_ok: "rc_ok rc \<Longrightarrow> pass_ok (reconnect_pass b should io rc w)"
  by (auto simp: reconnect_pass_def Let_def intro!: backoff_ok split: prod.splits sum.splits)
    (auto simp: pass_ok_def)

lemma reconnect_loop_ok:
  "rc_ok rc \<Longrightarrow> reconnect_loop fuel b should io rc w = Some (r, rc', w') \<Longrightarrow>
     rc_ok rc' \<and> rc_state rc' = Closed \<and> (\<forall>e. r = Inl e \<longrightarrow> \<not> is_abort e)"
proof (induction fuel arbitrary: rc w)
  case (Suc fuel)
  have ok: "pass_ok (reconnect_pass b should io rc w)"
    using Suc.prems(1) by (rule reconnect_pass_ok)
  show ?case
  proof (cases "reconnect_pass b should io rc w")
    case (Leave r0 rc0 w0)
    from ok Leave have "rc_ok rc0" "\<forall>e. r0 = Inl e \<longrightarrow> \<not> is_abort e"
      by (simp_all add: pass_ok_def)
    moreover from Suc.prems(2) Leave have "r0 = r" "rc' = setState Closed rc0" by simp_all
    ultimately show ?thesis using rc_ok_setState [of rc0 Closed] by simp
  next
    case (Again rc0 w0)
    from ok Again have "rc_ok rc0" by (simp add: pass_ok_def)
    moreover from Suc.prems(2) Again have "reconnect_loop fuel b should io rc0 w0 = Some (r, rc', w')"
      by simp
    ultimately show ?thesis by (rule Suc.IH)
  qed
qed simp

text \<open>
  Whenever \<open>run\<close> settles, the reconnector is closed, \<open>onStateChange\<close> was called only on real
  changes of state and ended with the closed state, and the rejection, if there is one, is never an
  abort: aborting stops the loop cleanly.
\<close>

theorem reconnect_run_closes:
  assumes "rc_ok rc" and "reconnect_run fuel opts should io rc w = Some (r, rc', w')"
  shows "rc_state rc' = Closed \<and> rc_ok rc' \<and> (\<forall>e. r = Inl e \<longrightarrow> \<not> is_abort e)"
proof -
  note ran = assms(2) [unfolded reconnect_run_def]
  show ?thesis
    using reconnect_loop_ok [OF rc_ok_setState [OF assms(1)] ran] by simp
qed

text \<open>A server that refuses with a permanent error, and a world in which nothing is aborted.\<close>

definition refusing_io :: "unit reconnect_io" where
  "refusing_io =
     \<lparr>rc_aborted = (\<lambda>_. False),
      rc_connect = (\<lambda>_. ((False, Inl (Beam (config_error ''no''))), ())),
      rc_random = (\<lambda>_. (1 / 2, ())), rc_online_and_delay = (\<lambda>_ _. (True, ()))\<rparr>"

definition default_backoff_options :: backoff_options where
  "default_backoff_options =
     \<lparr>opt_initialDelayMs = None, opt_maxDelayMs = None, opt_factor = None, opt_maxAttempts = None\<rparr>"

lemma refusing_run:
  "reconnect_run 1 default_backoff_options None refusing_io new_reconnector () =
     Some (Inl (Beam (config_error ''no'')),
       \<lparr>rc_state = Closed, rc_attempt = 0, rc_changes = [Connecting, Closed]\<rparr>, ())"
  by (simp add: reconnect_run_def reconnect_pass_def refusing_io_def reconnectShouldRetry_def
      config_error_def setState_def new_reconnector_def)

theorem reconnect_run_closes_witness:
  "rc_state \<lparr>rc_state = Closed, rc_attempt = 0, rc_changes = [Connecting, Closed]\<rparr> = Closed"
  using reconnect_run_closes [OF rc_ok_new refusing_run] by blast

lemma pass_unmarked:
  assumes "\<And>w. \<not> fst (fst (rc_connect io w))" and "maxAttempts b = Some n"
    and "reconnect_pass b should io rc w = Again rc' w'"
  shows "rc_attempt rc' = Suc (rc_attempt rc) \<and> rc_attempt rc' < n"
proof -
  obtain marked result w1 where c: "rc_connect io w = ((marked, result), w1)"
    by (metis prod.exhaust)
  with assms(1) [of w] have "\<not> marked" by simp
  with assms(2,3) c show ?thesis
    by (auto simp: reconnect_pass_def reconnect_backoff_def exhausted_def Let_def
        split: if_splits sum.splits prod.splits bool.splits)
qed

lemma loop_unmarked_terminates:
  assumes "\<And>w. \<not> fst (fst (rc_connect io w))" and "maxAttempts b = Some n"
    and "max 1 n - rc_attempt rc \<le> fuel" and "rc_attempt rc < max 1 n"
  shows "reconnect_loop fuel b should io rc w \<noteq> None"
  using assms(3,4)
proof (induction fuel arbitrary: rc w)
  case 0
  then have False by linarith
  then show ?case ..
next
  case (Suc fuel)
  show ?case
  proof (cases "reconnect_pass b should io rc w")
    case (Again rc' w')
    from pass_unmarked [OF assms(1,2) Again]
    have att: "rc_attempt rc' = Suc (rc_attempt rc)" "rc_attempt rc' < n" by simp_all
    then have "reconnect_loop fuel b should io rc' w' \<noteq> None"
      using Suc.prems by (intro Suc.IH) auto
    with Again show ?thesis by simp
  qed simp
qed

text \<open>
  A connection that never comes up is given up on: with \<open>maxAttempts\<close> = n and a \<open>connect\<close> that
  never reaches \<open>markConnected\<close>, \<open>run\<close> settles after at most n connection attempts (one when n is 0).
\<close>

theorem reconnect_gives_up:
  assumes "\<And>w. \<not> fst (fst (rc_connect io w))" and "opt_maxAttempts opts = Some (Some n)"
    and "rc_attempt rc = 0"
  shows "\<exists>r rc' w'. reconnect_run (max 1 n) opts should io rc w = Some (r, rc', w')"
proof -
  have "reconnect_run (max 1 n) opts should io rc w \<noteq> None"
    unfolding reconnect_run_def using assms
    by (intro loop_unmarked_terminates [where n = n]) auto
  then show ?thesis by auto
qed

definition bounded_options :: "nat \<Rightarrow> backoff_options" where
  "bounded_options n = default_backoff_options\<lparr>opt_maxAttempts := Some (Some n)\<rparr>"

theorem reconnect_gives_up_witness:
  "\<exists>r rc' w'. reconnect_run (max 1 3) (bounded_options 3) None refusing_io new_reconnector ()
     = Some (r, rc', w')"
  by (rule reconnect_gives_up)
    (simp_all add: refusing_io_def bounded_options_def new_reconnector_def)

lemma flapping_loop:
  assumes "\<And>w. \<not> rc_aborted io w"
    and "\<And>w. fst (fst (rc_connect io w))"
    and "\<And>w e. snd (fst (rc_connect io w)) = Inl e \<Longrightarrow> should e \<and> \<not> is_abort e"
    and "\<And>ms w. fst (rc_online_and_delay io ms w)"
    and "\<And>n. maxAttempts b = Some n \<Longrightarrow> 2 \<le> n"
  shows "reconnect_loop fuel b should io rc w = None"
proof (induction fuel arbitrary: rc w)
  case (Suc fuel)
  have backoff: "\<exists>rc' w'. reconnect_backoff b io lastError rc w = Again rc' w'"
    if "rc_attempt rc = 0" for lastError rc w
  proof -
    obtain r w1 where r: "rc_random io w = (r, w1)" by fastforce
    obtain ok w2 where d: "rc_online_and_delay io (of_int (backoffDelay 0 b r)) w1 = (ok, w2)"
      by fastforce
    with assms(4) have ok by (metis fst_conv)
    moreover have "\<not> exhausted b (Suc 0)"
      using assms(5) by (cases "maxAttempts b") (force simp: exhausted_def)+
    ultimately show ?thesis
      using that assms(1) r d by (simp add: reconnect_backoff_def Let_def)
  qed
  obtain marked result w1 where c: "rc_connect io w = ((marked, result), w1)"
    by (metis prod.exhaust)
  with assms(2) [of w] have marked by simp
  have att: "rc_attempt (markConnected rc) = 0" by (simp add: markConnected_def)
  obtain rc' w' where "reconnect_pass b should io rc w = Again rc' w'"
  proof (cases result)
    case (Inl e)
    with assms(3) [of w e] c have "should e" "\<not> is_abort e" by auto
    with Inl c \<open>marked\<close> assms(1) backoff [OF att, of "Some e" w1] that show ?thesis
      by (auto simp: reconnect_pass_def Let_def)
  next
    case (Inr u)
    with c \<open>marked\<close> assms(1) backoff [OF att, of None w1] that show ?thesis
      by (auto simp: reconnect_pass_def Let_def)
  qed
  with Suc.IH show ?case by simp
qed simp

text \<open>
  \<open>markConnected\<close> resets the attempt count, so the bound never fires for a stream that comes up
  and dies again: with any \<open>maxAttempts\<close> of 2 or more, when every attempt marks the connection healthy
  and then closes or fails retryably, and nothing aborts, \<open>run\<close> never settles. The comment in the loop
  says the opposite (``a stream that connects and immediately dies is as unusable as one that never
  connects'').
\<close>

theorem reconnect_flapping_never_settles:
  assumes "\<And>w. \<not> rc_aborted io w"
    and "\<And>w. fst (fst (rc_connect io w))"
    and "\<And>w e. snd (fst (rc_connect io w)) = Inl e \<Longrightarrow> coalesce should reconnectShouldRetry e \<and> \<not> is_abort e"
    and "\<And>ms w. fst (rc_online_and_delay io ms w)"
    and "opt_maxAttempts opts = Some (Some n)" and "2 \<le> n"
  shows "\<forall>fuel. reconnect_run fuel opts should io rc w = None"
  unfolding reconnect_run_def using assms by (intro allI flapping_loop) auto

definition flapping_io :: "unit reconnect_io" where
  "flapping_io =
     \<lparr>rc_aborted = (\<lambda>_. False),
      rc_connect = (\<lambda>_. ((True, Inl (Beam (network_error ''dropped''))), ())),
      rc_random = (\<lambda>_. (1 / 2, ())), rc_online_and_delay = (\<lambda>_ _. (True, ()))\<rparr>"

theorem reconnect_flapping_never_settles_witness:
  "\<forall>fuel. reconnect_run fuel (bounded_options 3) None flapping_io new_reconnector () = None"
  by (rule reconnect_flapping_never_settles [where n = 3])
    (auto simp: flapping_io_def bounded_options_def reconnectShouldRetry_def network_error_def
      RETRYABLE_CODES_def)

end
