(* ===== verification/Sse.thy ===== *)
theory Sse
  imports Retry
begin

text \<open>
  Server-sent events (\<open>packages/web-sdk/src/core/transport/sse.ts\<close>): the incremental frame parser
  \<open>SseParser\<close>, and one connection of \<open>SseStream\<close> with its resume position. The main result is that
  the parser's output does not depend on how the text is cut into chunks, unless a chunk ends between
  a carriage return and its line feed.
\<close>

abbreviation LF :: char where "LF \<equiv> CHR 0x0A"
abbreviation CR :: char where "CR \<equiv> CHR 0x0D"

record sse_event =
  ev_type :: string
  ev_data :: string
  ev_id :: "string option"

subsection \<open>The frame parser\<close>

text \<open>\<open>replace(/\r\n|\r/g, "\n")\<close>.\<close>

fun normalize :: "string \<Rightarrow> string" where
  "normalize [] = []"
| "normalize [c] = [if c = CR then LF else c]"
| "normalize (c # d # s) =
     (if c = CR then (if d = LF then LF # normalize s else LF # normalize (d # s))
      else c # normalize (d # s))"

text \<open>\<open>split("\n\n")\<close>: the frames before the last separator, and what follows it.\<close>

fun split_frames :: "string \<Rightarrow> string list \<times> string" where
  "split_frames [] = ([], [])"
| "split_frames [c] = ([], [c])"
| "split_frames (c # d # s) =
     (if c = LF \<and> d = LF then (case split_frames s of (fs, r) \<Rightarrow> ([] # fs, r))
      else (case split_frames (d # s) of
              ([], r) \<Rightarrow> ([], c # r)
            | (f # fs, r) \<Rightarrow> ((c # f) # fs, r)))"

text \<open>The three fields a frame's lines accumulate.\<close>

record frame_fields =
  ff_type :: string
  ff_id :: "string option"
  ff_data :: "string list"

definition line_field :: "string \<Rightarrow> string" where
  "line_field line = takeWhile (\<lambda>c. c \<noteq> CHR '':'') line"

definition line_value :: "string \<Rightarrow> string" where
  "line_value line =
     (case dropWhile (\<lambda>c. c \<noteq> CHR '':'') line of
        [] \<Rightarrow> []
      | colon # v \<Rightarrow> (case v of CHR '' '' # v' \<Rightarrow> v' | _ \<Rightarrow> v))"

definition frame_line :: "string \<Rightarrow> frame_fields \<Rightarrow> frame_fields" where
  "frame_line line ff =
     (if line = [] \<or> starts_with '':'' line then ff
      else if line_field line = ''event'' then ff\<lparr>ff_type := line_value line\<rparr>
      else if line_field line = ''data'' then ff\<lparr>ff_data := ff_data ff @ [line_value line]\<rparr>
      else if line_field line = ''id'' then ff\<lparr>ff_id := Some (line_value line)\<rparr>
      else ff)"

definition parseFrame :: "string \<Rightarrow> sse_event option" where
  "parseFrame frame =
     (let ff = fold frame_line (split_on LF frame) \<lparr>ff_type = ''message'', ff_id = None, ff_data = []\<rparr> in
      if ff_data ff = [] then None
      else Some \<lparr>ev_type = ff_type ff, ev_data = join_with [LF] (ff_data ff), ev_id = ff_id ff\<rparr>)"

text \<open>\<open>push\<close>: the state is the buffer.\<close>

definition push :: "string \<Rightarrow> string \<Rightarrow> sse_event list \<times> string" where
  "push buffer chunk =
     (case split_frames (normalize (buffer @ chunk)) of
        (frames, rest) \<Rightarrow> (List.map_filter parseFrame frames, rest))"

fun push_all :: "string \<Rightarrow> string list \<Rightarrow> sse_event list \<times> string" where
  "push_all buffer [] = ([], buffer)"
| "push_all buffer (c # cs) =
     (case push buffer c of (es, b) \<Rightarrow> (case push_all b cs of (es', b') \<Rightarrow> (es @ es', b')))"

subsection \<open>One connection of a stream\<close>

text \<open>
  The stream's resume position, and what one connection sees: chunks, then a clean close or a read
  error. The handler is a function that says whether it throws on an event; the delivered events are
  recorded.
\<close>

datatype read_step = Chunk string | Done | Read_error

record sse_stream =
  lastEventId :: "string option"
  delivered :: "sse_event list"

text \<open>The resume header \<open>Last-Event-ID\<close> sent with the request.\<close>

definition request_headers :: "sse_stream \<Rightarrow> (string \<times> string) list" where
  "request_headers st =
     (''accept'', ''text/event-stream'')
       # (case lastEventId st of None \<Rightarrow> [] | Some i \<Rightarrow> [(''Last-Event-ID'', i)])"

text \<open>The inner loop: the position is recorded before the handler runs. False is a throw.\<close>

fun dispatch :: "(sse_event \<Rightarrow> bool) \<Rightarrow> sse_event list \<Rightarrow> sse_stream \<Rightarrow> bool \<times> sse_stream" where
  "dispatch throws [] st = (True, st)"
| "dispatch throws (e # es) st =
     (let st1 = (case ev_id e of None \<Rightarrow> st | Some i \<Rightarrow> st\<lparr>lastEventId := Some i\<rparr>);
          st2 = st1\<lparr>delivered := delivered st1 @ [e]\<rparr> in
      if throws e then (False, st2) else dispatch throws es st2)"

definition interrupted :: "bool \<Rightarrow> thrown" where
  "interrupted aborted =
     (if aborted then Beam abort_error else Beam (network_error ''The event stream was interrupted.''))"

text \<open>
  The read loop with a fresh parser. \<open>aborted\<close> is the signal when a read or the handler fails; a
  list that runs out is a read that never answers, \<^term>\<open>None\<close>.
\<close>

fun read_loop ::
  "(sse_event \<Rightarrow> bool) \<Rightarrow> bool \<Rightarrow> read_step list \<Rightarrow> string \<Rightarrow> sse_stream
    \<Rightarrow> ((thrown + unit) \<times> sse_stream) option" where
  "read_loop throws aborted [] buffer st = None"
| "read_loop throws aborted (Done # rs) buffer st = Some (Inr (), st)"
| "read_loop throws aborted (Read_error # rs) buffer st = Some (Inl (interrupted aborted), st)"
| "read_loop throws aborted (Chunk c # rs) buffer st =
     (case push buffer c of
        (es, buffer') \<Rightarrow>
          (case dispatch throws es st of
             (True, st') \<Rightarrow> read_loop throws aborted rs buffer' st'
           | (False, st') \<Rightarrow> Some (Inl (interrupted aborted), st')))"

subsection \<open>Chunk boundaries\<close>

lemma normalize_no_CR: "CR \<notin> set s \<Longrightarrow> normalize s = s"
  by (induction s rule: normalize.induct) auto

lemma CR_normalize [simp]: "CR \<notin> set (normalize s)"
  by (induction s rule: normalize.induct) auto

lemma normalize_append:
  "s = [] \<or> last s \<noteq> CR \<Longrightarrow> normalize (s @ t) = normalize s @ normalize t"
proof (induction s rule: normalize.induct)
  case (2 c)
  then show ?case by (cases t) auto
next
  case (3 c d s)
  show ?case
  proof (cases "c = CR \<and> d = LF")
    case True
    have "s = [] \<or> last s \<noteq> CR" using "3.prems" by auto
    with True "3.IH" show ?thesis by simp
  next
    case False
    have "last (d # s) \<noteq> CR" using "3.prems" by simp
    with False "3.IH" show ?thesis by auto
  qed
qed simp

lemma split_frames_none: "split_frames s = ([], r) \<Longrightarrow> r = s"
proof (induction s arbitrary: r rule: split_frames.induct)
  case (3 c d s)
  then show ?case
    by (auto split: if_splits prod.splits list.splits)
qed auto

lemma split_frames_append:
  "split_frames s = (fs, r) \<Longrightarrow>
     split_frames (s @ t) = (case split_frames (r @ t) of (fs', r') \<Rightarrow> (fs @ fs', r'))"
proof (induction s arbitrary: fs r rule: split_frames.induct)
  case 1
  then show ?case by (simp split: prod.split)
next
  case (2 c)
  then show ?case by (simp split: prod.split)
next
  case (3 c d s)
  show ?case
  proof (cases "c = LF \<and> d = LF")
    case True
    with "3.prems" obtain fs0 where fs0: "split_frames s = (fs0, r)" "fs = [] # fs0"
      by (auto split: prod.splits)
    with True "3.IH"(1) [OF True fs0(1)] show ?thesis
      by (auto split: prod.splits)
  next
    case False
    show ?thesis
    proof (cases fs)
      case Nil
      with "3.prems" have "split_frames (c # d # s) = ([], r)" by blast
      then have "r = c # d # s" by (rule split_frames_none)
      with Nil show ?thesis by (auto split: prod.splits)
    next
      case (Cons f fs1)
      with "3.prems" False obtain f0 where
        f0: "split_frames (d # s) = (f0 # fs1, r)" "f = c # f0"
        by (auto split: prod.splits list.splits)
      from "3.IH"(2) [OF False f0(1)] False f0 Cons show ?thesis
        by (auto split: prod.splits)
    qed
  qed
qed

lemma split_frames_rest_set: "split_frames s = (fs, r) \<Longrightarrow> set r \<subseteq> set s"
proof (induction s arbitrary: fs r rule: split_frames.induct)
  case (3 c d s)
  then show ?case
    by (fastforce split: if_splits prod.splits list.splits)
qed auto

lemma map_filter_append: "List.map_filter f (xs @ ys) = List.map_filter f xs @ List.map_filter f ys"
  by (simp add: List.map_filter_def)

lemma push_rest_no_CR: "push b c = (es, r) \<Longrightarrow> CR \<notin> set r"
  using split_frames_rest_set CR_normalize by (fastforce simp: push_def split: prod.splits)

lemma push_append:
  assumes "CR \<notin> set b" and "c = [] \<or> last c \<noteq> CR" and "push b c = (es, r)"
  shows "push b (c @ d) = (case push r d of (es', r') \<Rightarrow> (es @ es', r'))"
proof -
  obtain fs where fs: "split_frames (normalize (b @ c)) = (fs, r)"
    and es: "es = List.map_filter parseFrame fs"
    using assms(3) by (auto simp: push_def split: prod.splits)
  have last: "b @ c = [] \<or> last (b @ c) \<noteq> CR"
    using assms(1,2) by (cases "c = []") (auto dest: last_in_set)
  have r: "normalize r = r"
    using push_rest_no_CR [OF assms(3)] by (rule normalize_no_CR)
  have "r = [] \<or> last r \<noteq> CR"
    using push_rest_no_CR [OF assms(3)] last_in_set by fastforce
  then have "normalize (r @ d) = r @ normalize d"
    using normalize_append [of r d] r by simp
  moreover have "normalize (b @ c @ d) = normalize (b @ c) @ normalize d"
    using normalize_append [OF last, of d] by simp
  ultimately show ?thesis
    using split_frames_append [OF fs, of "normalize d"]
    by (simp add: push_def es map_filter_append split: prod.splits)
qed

lemma push_all_concat:
  assumes "CR \<notin> set b" and "\<forall>c \<in> set cs. c \<noteq> [] \<longrightarrow> last c \<noteq> CR" and "cs \<noteq> []"
  shows "push_all b cs = push b (concat cs)"
  using assms
proof (induction cs arbitrary: b)
  case (Cons c cs)
  obtain es r where p: "push b c = (es, r)" by fastforce
  note r = push_rest_no_CR [OF p]
  have pa: "push b (c @ concat cs) = (case push r (concat cs) of (es', r') \<Rightarrow> (es @ es', r'))"
    using Cons.prems p by (intro push_append) auto
  show ?case
  proof (cases "cs = []")
    case True
    with p show ?thesis by simp
  next
    case False
    with Cons.prems r have "push_all r cs = push r (concat cs)"
      by (intro Cons.IH) auto
    with p pa show ?thesis by simp
  qed
qed simp

text \<open>
  However a stream's text is cut into chunks, the parser yields the same events and keeps the same
  unfinished frame as when the whole text arrives at once, as long as no chunk ends in a carriage
  return: a frame that arrives across two reads is neither lost nor split.
\<close>

theorem push_chunking_invariant:
  assumes "\<forall>c \<in> set chunks. c \<noteq> [] \<longrightarrow> last c \<noteq> CR" and "chunks \<noteq> []"
  shows "push_all [] chunks = push [] (concat chunks)"
  using assms by (intro push_all_concat) simp_all

theorem push_chunking_invariant_witness:
  "push_all [] [''data: he'', ''llo'' @ [LF], [LF]] = push [] (concat [''data: he'', ''llo'' @ [LF], [LF]])"
  by (rule push_chunking_invariant) simp_all

text \<open>
  A read that ends between the carriage return and the line feed of one line ending breaks the
  frame in two: the first \<open>push\<close> turns the carriage return into a line feed, the second sees the line
  feed that belonged to it, and the pair is taken for a blank line. Here one event with two data
  lines is delivered as two events.
\<close>

theorem push_splits_crlf_frame:
  "push_all [] [''data: a'' @ [CR], [LF] @ ''data: b'' @ [CR, LF, CR, LF]] =
     ([\<lparr>ev_type = ''message'', ev_data = ''a'', ev_id = None\<rparr>,
       \<lparr>ev_type = ''message'', ev_data = ''b'', ev_id = None\<rparr>], [])
   \<and> push [] (''data: a'' @ [CR, LF] @ ''data: b'' @ [CR, LF, CR, LF]) =
     ([\<lparr>ev_type = ''message'', ev_data = ''a'' @ [LF] @ ''b'', ev_id = None\<rparr>], [])"
  by code_simp


subsection \<open>The resume position\<close>

text \<open>The last identifier among the events, or the position the connection started with.\<close>

definition last_id :: "string option \<Rightarrow> sse_event list \<Rightarrow> string option" where
  "last_id start es = fold (\<lambda>e p. or_else (ev_id e) p) es start"

lemma last_id_append: "last_id start (es @ es') = last_id (last_id start es) es'"
  by (simp add: last_id_def)

lemma dispatch_position:
  "dispatch throws es st = (ok, st') \<Longrightarrow>
     \<exists>ds. delivered st' = delivered st @ ds \<and> prefix ds es \<and> lastEventId st' = last_id (lastEventId st) ds
        \<and> (ok \<longrightarrow> ds = es \<and> (\<forall>e \<in> set es. \<not> throws e))
        \<and> (\<not> ok \<longrightarrow> ds \<noteq> [] \<and> throws (last ds))"
proof (induction es arbitrary: st)
  case Nil
  then show ?case by (auto simp: last_id_def)
next
  case (Cons e es)
  define st2 where "st2 = (case ev_id e of None \<Rightarrow> st | Some i \<Rightarrow> st\<lparr>lastEventId := Some i\<rparr>)
      \<lparr>delivered := delivered st @ [e]\<rparr>"
  have st2: "delivered st2 = delivered st @ [e]" "lastEventId st2 = or_else (ev_id e) (lastEventId st)"
    by (simp_all add: st2_def split: option.split)
  have step: "dispatch throws (e # es) st = (if throws e then (False, st2) else dispatch throws es st2)"
    by (simp add: st2_def Let_def split: option.split)
  show ?case
  proof (cases "throws e")
    case True
    with Cons.prems step st2 show ?thesis
      by (intro exI [of _ "[e]"]) (auto simp: last_id_def)
  next
    case False
    with Cons.prems step have "dispatch throws es st2 = (ok, st')" by simp
    from Cons.IH [OF this] obtain ds where
      "delivered st' = delivered st2 @ ds" "prefix ds es" "lastEventId st' = last_id (lastEventId st2) ds"
      "ok \<longrightarrow> ds = es \<and> (\<forall>e \<in> set es. \<not> throws e)" "\<not> ok \<longrightarrow> ds \<noteq> [] \<and> throws (last ds)"
      by blast
    with st2 False show ?thesis
      by (intro exI [of _ "e # ds"]) (auto simp: last_id_def)
  qed
qed

lemma read_loop_position_aux:
  "read_loop throws aborted rs buffer st = Some (r, st') \<Longrightarrow>
     \<exists>ds. delivered st' = delivered st @ ds \<and> lastEventId st' = last_id (lastEventId st) ds"
proof (induction rs arbitrary: buffer st)
  case (Cons x rs)
  show ?case
  proof (cases x)
    case (Chunk c)
    obtain es b where p: "push buffer c = (es, b)" by fastforce
    obtain ok st1 where d: "dispatch throws es st = (ok, st1)" by fastforce
    from dispatch_position [OF d] obtain ds where
      ds: "delivered st1 = delivered st @ ds" "lastEventId st1 = last_id (lastEventId st) ds"
      by blast
    show ?thesis
    proof (cases ok)
      case True
      with Cons.prems Chunk p d have "read_loop throws aborted rs b st1 = Some (r, st')" by simp
      from Cons.IH [OF this] ds show ?thesis by (auto simp: last_id_append)
    next
      case False
      with Cons.prems Chunk p d ds show ?thesis by auto
    qed
  qed (use Cons.prems in \<open>auto intro!: exI [of _ "[]"] simp: last_id_def\<close>)
qed simp

text \<open>
  When a connection ends, however it ends (clean close, read error, a throwing handler), the
  stream's resume position is the identifier of the last delivered event that had one, or the
  position it started from, and that is what the next connection sends as \<open>Last-Event-ID\<close>: no
  delivered event with an identifier is asked for again.
\<close>

theorem resume_after_delivered:
  assumes "read_loop throws aborted rs [] st = Some (r, st')" and "delivered st = []"
  shows "lastEventId st' = last_id (lastEventId st) (delivered st')
     \<and> (\<forall>i. last_id (lastEventId st) (delivered st') = Some i \<longrightarrow>
          (''Last-Event-ID'', i) \<in> set (request_headers st'))"
  using read_loop_position_aux [OF assms(1)] assms(2) by (auto simp: request_headers_def)

theorem resume_after_delivered_witness:
  "lastEventId \<lparr>lastEventId = Some ''7'', delivered = [\<lparr>ev_type = ''message'', ev_data = ''x'', ev_id = Some ''7''\<rparr>]\<rparr>
     = last_id None [\<lparr>ev_type = ''message'', ev_data = ''x'', ev_id = Some ''7''\<rparr>]"
proof -
  have "read_loop (\<lambda>_. True) False [Chunk (''id: 7'' @ [LF] @ ''data: x'' @ [LF, LF]), Done] []
      \<lparr>lastEventId = None, delivered = []\<rparr>
    = Some (Inl (interrupted False), \<lparr>lastEventId = Some ''7'',
        delivered = [\<lparr>ev_type = ''message'', ev_data = ''x'', ev_id = Some ''7''\<rparr>]\<rparr>)"
    by (simp add: push_def parseFrame_def frame_line_def line_field_def line_value_def
        starts_with_def List.map_filter_def)
  from resume_after_delivered [OF this] show ?thesis by simp
qed

end
