(* ===== verification/Events.thy ===== *)
theory Events
  imports Prelude
begin

text \<open>
  The event emitter and the bridge from an event to an asynchronous iterator
  (\<open>packages/web-sdk/src/core/events/index.ts\<close>). Listeners are compared by identity, as a \<open>Set\<close> of
  functions does. What a listener does when it is called, including subscribing and unsubscribing
  during dispatch and throwing, is an arbitrary function of the emitter.
\<close>

subsection \<open>The emitter\<close>

text \<open>
  A registered listener is the caller's function, or the closure \<open>once\<close> made around one; every call of
  \<open>once\<close> makes a new closure, told apart by a counter.
\<close>

datatype 'l listener = Direct 'l | Once nat 'l

record 'l emitter =
  listeners :: "(string \<times> 'l listener list) list"
  next_once :: nat

definition new_emitter :: "'l emitter" where
  "new_emitter = \<lparr>listeners = [], next_once = 0\<rparr>"

definition listeners_of :: "'l emitter \<Rightarrow> string \<Rightarrow> 'l listener list" where
  "listeners_of em event = (case map_of (listeners em) event of None \<Rightarrow> [] | Some ls \<Rightarrow> ls)"

definition on_listener :: "string \<Rightarrow> 'l listener \<Rightarrow> 'l emitter \<Rightarrow> 'l emitter" where
  "on_listener event l em =
     (let ls = listeners_of em event in
      em\<lparr>listeners := amap_set event (if l \<in> set ls then ls else ls @ [l]) (listeners em)\<rparr>)"

definition on :: "string \<Rightarrow> 'l \<Rightarrow> 'l emitter \<Rightarrow> 'l emitter" where
  "on event l em = on_listener event (Direct l) em"

definition once :: "string \<Rightarrow> 'l \<Rightarrow> 'l emitter \<Rightarrow> 'l emitter" where
  "once event l em = on_listener event (Once (next_once em) l) (em\<lparr>next_once := Suc (next_once em)\<rparr>)"

definition off :: "string \<Rightarrow> 'l listener \<Rightarrow> 'l emitter \<Rightarrow> 'l emitter" where
  "off event l em =
     (case map_of (listeners em) event of
        None \<Rightarrow> em
      | Some ls \<Rightarrow>
          (let ls' = filter (\<lambda>x. x \<noteq> l) ls in
           if ls' = [] then em\<lparr>listeners := amap_delete event (listeners em)\<rparr>
           else em\<lparr>listeners := amap_set event ls' (listeners em)\<rparr>))"

definition removeAllListeners :: "'l emitter \<Rightarrow> 'l emitter" where
  "removeAllListeners em = em\<lparr>listeners := []\<rparr>"

definition listenerCount :: "'l emitter \<Rightarrow> string \<Rightarrow> nat" where
  "listenerCount em event = length (listeners_of em event)"

text \<open>
  The behaviour of the caller's functions: what calling one with a payload does to the emitter, and
  what it threw, if anything.
\<close>

type_synonym ('l, 'p) behaviour = "'l \<Rightarrow> 'p \<Rightarrow> 'l emitter \<Rightarrow> string option \<times> 'l emitter"

fun call_listener ::
  "('l, 'p) behaviour \<Rightarrow> string \<Rightarrow> 'l listener \<Rightarrow> 'p \<Rightarrow> 'l emitter \<Rightarrow> string option \<times> 'l emitter" where
  "call_listener beh event (Direct l) p em = beh l p em"
| "call_listener beh event (Once n l) p em = beh l p (off event (Once n l) em)"

text \<open>The loop over the snapshot: the calls made, and the errors reported to \<open>onError\<close>, in order.\<close>

fun emit_loop ::
  "('l, 'p) behaviour \<Rightarrow> string \<Rightarrow> 'p \<Rightarrow> 'l listener list \<Rightarrow> 'l emitter
    \<Rightarrow> 'l listener list \<times> string list \<times> 'l emitter" where
  "emit_loop beh event p [] em = ([], [], em)"
| "emit_loop beh event p (l # ls) em =
     (case call_listener beh event l p em of
        (err, em1) \<Rightarrow>
          (case emit_loop beh event p ls em1 of
             (calls, errs, em2) \<Rightarrow>
               (l # calls, (case err of None \<Rightarrow> errs | Some e \<Rightarrow> e # errs), em2)))"

definition emit ::
  "('l, 'p) behaviour \<Rightarrow> string \<Rightarrow> 'p \<Rightarrow> 'l emitter \<Rightarrow> 'l listener list \<times> string list \<times> 'l emitter" where
  "emit beh event p em = emit_loop beh event p (listeners_of em event) em"

text \<open>Well-formed emitters: distinct events, no empty set kept, no listener twice, fresh closures.\<close>

definition set_ok :: "nat \<Rightarrow> 'l listener list \<Rightarrow> bool" where
  "set_ok bound ls \<longleftrightarrow> ls \<noteq> [] \<and> distinct ls \<and> (\<forall>n l. Once n l \<in> set ls \<longrightarrow> n < bound)"

definition emitter_ok :: "'l emitter \<Rightarrow> bool" where
  "emitter_ok em \<longleftrightarrow>
     distinct (map fst (listeners em))
   \<and> (\<forall>event ls. map_of (listeners em) event = Some ls \<longrightarrow> set_ok (next_once em) ls)"

lemma emitter_ok_set:
  "emitter_ok em \<Longrightarrow> set_ok (next_once em) ls \<Longrightarrow>
     emitter_ok (em\<lparr>listeners := amap_set event ls (listeners em)\<rparr>)"
  by (simp add: emitter_ok_def)

lemma emitter_ok_delete:
  "emitter_ok em \<Longrightarrow> emitter_ok (em\<lparr>listeners := amap_delete event (listeners em)\<rparr>)"
  by (simp add: emitter_ok_def)

lemma emitter_ok_new: "emitter_ok new_emitter"
  by (simp add: emitter_ok_def new_emitter_def)

lemma listeners_of_on_listener:
  "listeners_of (on_listener event l em) event' =
     (if event' = event then
        (if l \<in> set (listeners_of em event) then listeners_of em event else listeners_of em event @ [l])
      else listeners_of em event')"
  by (auto simp: on_listener_def listeners_of_def Let_def split: option.split)

lemma listeners_of_off:
  "listeners_of (off event l em) event' =
     (if event' = event then filter (\<lambda>x. x \<noteq> l) (listeners_of em event) else listeners_of em event')"
  by (auto simp: off_def listeners_of_def Let_def split: option.split)

lemma emitter_ok_on_listener:
  assumes "emitter_ok em" and "\<And>n k. l = Once n k \<Longrightarrow> n < next_once em"
  shows "emitter_ok (on_listener event l em)"
proof -
  have "\<And>ls. map_of (listeners em) event = Some ls \<Longrightarrow> set_ok (next_once em) ls"
    using assms(1) by (simp add: emitter_ok_def)
  then have "set_ok (next_once em) (if l \<in> set (listeners_of em event) then listeners_of em event
      else listeners_of em event @ [l])"
    using assms(2)
    by (cases "map_of (listeners em) event") (auto simp: set_ok_def listeners_of_def)
  then show ?thesis
    unfolding on_listener_def Let_def by (rule emitter_ok_set [OF assms(1)])
qed

lemma emitter_ok_on: "emitter_ok em \<Longrightarrow> emitter_ok (on event l em)"
  unfolding on_def by (rule emitter_ok_on_listener) simp_all

lemma emitter_ok_once: "emitter_ok em \<Longrightarrow> emitter_ok (once event l em)"
  unfolding once_def
  by (rule emitter_ok_on_listener) (auto simp: emitter_ok_def set_ok_def less_Suc_eq)

lemma emitter_ok_off: "emitter_ok em \<Longrightarrow> emitter_ok (off event l em)"
  unfolding off_def Let_def
  by (auto intro!: emitter_ok_set emitter_ok_delete simp: emitter_ok_def set_ok_def
      split: option.split)

lemma emitter_ok_removeAll: "emitter_ok em \<Longrightarrow> emitter_ok (removeAllListeners em)"
  by (simp add: emitter_ok_def removeAllListeners_def)

lemma next_once_off [simp]: "next_once (off event y em) = next_once em"
  by (auto simp: off_def Let_def split: option.split)

text \<open>The loop's step with projections, so that no case splits are needed.\<close>

lemma emit_loop_Cons:
  "emit_loop beh event p (l # ls) em =
     (let c = call_listener beh event l p em; r = emit_loop beh event p ls (snd c) in
      (l # fst r, (case fst c of None \<Rightarrow> fst (snd r) | Some e \<Rightarrow> e # fst (snd r)), snd (snd r)))"
  by (simp add: Let_def prod.case_eq_if)

declare emit_loop.simps(2) [simp del]

lemma emit_loop_calls: "fst (emit_loop beh event p ls em) = ls"
  by (induction ls arbitrary: em) (simp_all add: emit_loop_Cons Let_def)

lemma emit_loop_errors_length: "length (fst (snd (emit_loop beh event p ls em))) \<le> length ls"
  by (induction ls arbitrary: em) (auto simp: emit_loop_Cons Let_def le_SucI split: option.split)

text \<open>
  Emitting calls exactly the listeners that were subscribed when it began, each once and in
  subscription order: a listener that throws, unsubscribes others or subscribes new ones during
  dispatch changes neither who is called nor in which order.
\<close>

theorem emit_calls_snapshot:
  "fst (emit beh event p em) = listeners_of em event"
  by (simp add: emit_def emit_loop_calls)

text \<open>
  What a listener that uses the emitter only through its methods preserves: a closure of \<open>once\<close> that is
  gone stays gone, and the closure counter never goes back.
\<close>

definition respects_once :: "('l, 'p) behaviour \<Rightarrow> string \<Rightarrow> bool" where
  "respects_once beh event \<longleftrightarrow>
     (\<forall>l p em n k. Once n k \<notin> set (listeners_of em event) \<and> n < next_once em \<longrightarrow>
        Once n k \<notin> set (listeners_of (snd (beh l p em)) event))
   \<and> (\<forall>l p em. next_once em \<le> next_once (snd (beh l p em)))"

lemma call_listener_once:
  assumes "respects_once beh event" and "n < next_once em"
    and "Once n k \<notin> set (listeners_of em event) \<or> x = Once n k"
  shows "Once n k \<notin> set (listeners_of (snd (call_listener beh event x p em)) event)"
  using assms
  by (cases x) (auto simp: respects_once_def listeners_of_off)

lemma call_listener_next:
  "respects_once beh event \<Longrightarrow> next_once em \<le> next_once (snd (call_listener beh event x p em))"
  by (cases x) (simp_all add: respects_once_def, metis next_once_off)

lemma once_removed:
  assumes "respects_once beh event"
    and "Once n k \<notin> set (listeners_of em event) \<or> Once n k \<in> set ls" and "n < next_once em"
  shows "Once n k \<notin> set (listeners_of (snd (snd (emit_loop beh event p ls em))) event)"
  using assms(2,3)
proof (induction ls arbitrary: em)
  case (Cons x ls)
  let ?em1 = "snd (call_listener beh event x p em)"
  have n1: "n < next_once ?em1"
    using Cons.prems(2) call_listener_next [OF assms(1)] by (rule order_less_le_trans)
  have "Once n k \<notin> set (listeners_of ?em1 event) \<or> Once n k \<in> set ls"
    using Cons.prems call_listener_once [OF assms(1) Cons.prems(2), of k x p] by auto
  from Cons.IH [OF this n1] show ?case by (simp add: emit_loop_Cons Let_def)
qed simp

text \<open>
  A \<open>once\<close> listener is called at most once: it is called by the first emission after it was
  subscribed and is no longer subscribed when that emission ends, whatever the listeners do, as long
  as they reach the emitter only through its methods (which never re-register a closure of \<open>once\<close>).
\<close>

theorem once_fires_once:
  assumes "emitter_ok em" and "respects_once beh event"
  shows "case emit beh event p (once event l em) of
       (calls, errs, em') \<Rightarrow>
         count_list calls (Once (next_once em) l) = 1
         \<and> Once (next_once em) l \<notin> set (listeners_of em' event)"
proof -
  let ?c = "Once (next_once em) l" and ?em = "once event l em"
  have fresh: "?c \<notin> set (listeners_of em event)"
    using assms(1)
    by (cases "map_of (listeners em) event") (force simp: emitter_ok_def set_ok_def listeners_of_def)+
  have same: "listeners_of (em\<lparr>next_once := Suc (next_once em)\<rparr>) event = listeners_of em event"
    by (simp add: listeners_of_def)
  have ls: "listeners_of ?em event = listeners_of em event @ [?c]"
    using fresh by (simp add: once_def listeners_of_on_listener same)
  have "next_once em < next_once ?em"
    by (simp add: once_def on_listener_def Let_def)
  then have gone: "?c \<notin> set (listeners_of (snd (snd (emit beh event p ?em))) event)"
    unfolding emit_def using ls by (intro once_removed [OF assms(2)]) auto
  have "count_list (fst (emit beh event p ?em)) ?c = 1"
    using fresh by (simp add: emit_def emit_loop_calls ls)
  with gone show ?thesis by (simp add: prod.case_eq_if)
qed

theorem once_fires_once_witness:
  "case emit (\<lambda>l p em. (None, em)) ''status'' (5 :: nat) (once ''status'' True new_emitter) of
     (calls, errs, em') \<Rightarrow>
       count_list calls (Once (next_once (new_emitter :: bool emitter)) True) = 1
       \<and> Once (next_once (new_emitter :: bool emitter)) True \<notin> set (listeners_of em' ''status'')"
  by (rule once_fires_once) (simp_all add: emitter_ok_new respects_once_def)


subsection \<open>From an event to an asynchronous iterator\<close>

text \<open>
  The iterator's closure variables. Waiters are numbered in the order \<open>next\<close> created them; what a
  promise settles with is an \<open>iter_result\<close>. \<open>yielded\<close> and \<open>pushed\<close> are history: the values handed to
  the consumer, and those offered while the iterator was live.
\<close>

datatype ('v, 'e) iter_result = Value 'v | Finished | Failed 'e | Waiting nat

record ('v, 'e) iter =
  it_buffer :: "'v list"
  it_waiters :: "nat list"
  it_done :: bool
  it_failure :: "'e option"
  it_next_waiter :: nat
  it_settled :: "(nat \<times> ('v, 'e) iter_result) list"
  it_yielded :: "'v list"
  it_pushed :: "'v list"

definition new_iter :: "('v, 'e) iter" where
  "new_iter = \<lparr>it_buffer = [], it_waiters = [], it_done = False, it_failure = None,
     it_next_waiter = 0, it_settled = [], it_yielded = [], it_pushed = []\<rparr>"

definition it_push :: "nat \<Rightarrow> 'v \<Rightarrow> ('v, 'e) iter \<Rightarrow> ('v, 'e) iter" where
  "it_push maxBuffer v s =
     (if it_done s then s
      else
        (let s' = s\<lparr>it_pushed := it_pushed s @ [v]\<rparr> in
         case it_waiters s' of
           w # ws \<Rightarrow>
             s'\<lparr>it_waiters := ws, it_settled := it_settled s' @ [(w, Value v)],
               it_yielded := it_yielded s' @ [v]\<rparr>
         | [] \<Rightarrow>
             s'\<lparr>it_buffer :=
               (if maxBuffer \<le> length (it_buffer s') then drop 1 (it_buffer s') else it_buffer s') @ [v]\<rparr>))"

definition it_finish :: "'e option \<Rightarrow> ('v, 'e) iter \<Rightarrow> ('v, 'e) iter" where
  "it_finish error s =
     (if it_done s then s
      else s\<lparr>it_done := True, it_failure := error, it_waiters := [],
             it_settled := it_settled s @ map (\<lambda>w. (w, Finished)) (it_waiters s)\<rparr>)"

definition it_next :: "('v, 'e) iter \<Rightarrow> ('v, 'e) iter_result \<times> ('v, 'e) iter" where
  "it_next s =
     (case it_buffer s of
        v # vs \<Rightarrow> (Value v, s\<lparr>it_buffer := vs, it_yielded := it_yielded s @ [v]\<rparr>)
      | [] \<Rightarrow>
          if it_done s
          then (case it_failure s of None \<Rightarrow> (Finished, s) | Some e \<Rightarrow> (Failed e, s))
          else (Waiting (it_next_waiter s),
                s\<lparr>it_waiters := it_waiters s @ [it_next_waiter s], it_next_waiter := Suc (it_next_waiter s)\<rparr>))"

definition it_return :: "('v, 'e) iter \<Rightarrow> ('v, 'e) iter_result \<times> ('v, 'e) iter" where
  "it_return s = (Finished, it_finish None s)"

definition it_throw :: "'e \<Rightarrow> ('v, 'e) iter \<Rightarrow> ('v, 'e) iter_result \<times> ('v, 'e) iter" where
  "it_throw e s = (Failed e, it_finish (Some e) s)"

text \<open>Everything that can happen to a live iterator, in any order.\<close>

datatype ('v, 'e) iter_op = Push 'v | Finish "'e option" | Next | Return | Throw 'e

fun it_step :: "nat \<Rightarrow> ('v, 'e) iter \<Rightarrow> ('v, 'e) iter_op \<Rightarrow> ('v, 'e) iter" where
  "it_step m s (Push v) = it_push m v s"
| "it_step m s (Finish e) = it_finish e s"
| "it_step m s Next = snd (it_next s)"
| "it_step m s Return = snd (it_return s)"
| "it_step m s (Throw e) = snd (it_throw e s)"

definition it_run :: "nat \<Rightarrow> ('v, 'e) iter_op list \<Rightarrow> ('v, 'e) iter" where
  "it_run m ops = foldl (it_step m) new_iter ops"

definition it_inv :: "nat \<Rightarrow> ('v, 'e) iter \<Rightarrow> bool" where
  "it_inv m s \<longleftrightarrow>
     (it_buffer s = [] \<or> it_waiters s = [])
   \<and> (it_done s \<longrightarrow> it_waiters s = [])
   \<and> length (it_buffer s) \<le> max 1 m
   \<and> subseq (it_yielded s @ it_buffer s) (it_pushed s)
   \<and> (length (it_pushed s) \<le> m \<longrightarrow> it_yielded s @ it_buffer s = it_pushed s)"

lemma it_inv_new: "it_inv m new_iter"
  by (simp add: it_inv_def new_iter_def)

lemma subseq_drop1_snoc: "subseq (ys @ b) ps \<Longrightarrow> subseq (ys @ drop 1 b @ [v]) (ps @ [v])"
proof -
  assume a: "subseq (ys @ b) ps"
  have "subseq (ys @ drop 1 b) (ys @ b)"
    by (rule list_emb_append_mono) (simp, cases b, auto)
  with a have "subseq (ys @ drop 1 b) ps" by (rule subseq_order.order_trans [rotated])
  then have "subseq ((ys @ drop 1 b) @ [v]) (ps @ [v])" by (simp only: subseq_append)
  then show ?thesis by simp
qed

lemma it_inv_push: "it_inv m s \<Longrightarrow> it_inv m (it_push m v s)"
proof -
  assume inv: "it_inv m s"
  show ?thesis
  proof (cases "it_done s \<or> it_waiters s \<noteq> []")
    case True
    with inv show ?thesis
      by (auto simp: it_inv_def it_push_def Let_def subseq_append neq_Nil_conv split: list.split)
  next
    case False
    then have w: "it_waiters s = []" and d: "\<not> it_done s" by auto
    have sub: "subseq (it_yielded s @ it_buffer s) (it_pushed s)"
      using inv by (simp add: it_inv_def)
    have len: "length (it_yielded s) + length (it_buffer s) \<le> length (it_pushed s)"
      using list_emb_length [OF sub] by simp
    from subseq_drop1_snoc [OF sub, of v]
    have s1: "subseq (it_yielded s @ drop 1 (it_buffer s) @ [v]) (it_pushed s @ [v])" .
    have s2: "subseq (it_yielded s @ it_buffer s @ [v]) (it_pushed s @ [v])"
      using sub by (simp add: subseq_append flip: append_assoc)
    show ?thesis
      using inv w d s1 s2 len by (auto simp: it_inv_def it_push_def Let_def)
  qed
qed

lemma it_inv_finish: "it_inv m s \<Longrightarrow> it_inv m (it_finish e s)"
  by (auto simp: it_inv_def it_finish_def)

lemma it_inv_next: "it_inv m s \<Longrightarrow> it_inv m (snd (it_next s))"
  by (auto simp: it_inv_def it_next_def split: list.split option.split)

lemma it_inv_step: "it_inv m s \<Longrightarrow> it_inv m (it_step m s op)"
  by (cases op) (auto intro: it_inv_push it_inv_finish it_inv_next simp: it_return_def it_throw_def)

lemma it_inv_run: "it_inv m (it_run m ops)"
proof -
  have "it_inv m s \<Longrightarrow> it_inv m (foldl (it_step m) s ops)" for s
    by (induction ops arbitrary: s) (simp_all add: it_inv_step)
  then show ?thesis by (simp add: it_run_def it_inv_new)
qed

text \<open>
  Under every interleaving of emitted values, iteration, completion and abort, the consumer sees
  values in the order they were emitted, none twice; the buffer never exceeds its bound (a bound of 0
  behaves as 1) and is empty whenever somebody waits; and nothing is lost while no more than the
  bound's number of values has been emitted.
\<close>

theorem iterator_fifo:
  "let s = it_run m ops in
     subseq (it_yielded s @ it_buffer s) (it_pushed s)
     \<and> length (it_buffer s) \<le> max 1 m
     \<and> (it_buffer s = [] \<or> it_waiters s = [])
     \<and> (length (it_pushed s) \<le> m \<longrightarrow> it_yielded s @ it_buffer s = it_pushed s)"
  using it_inv_run [of m ops] by (simp add: it_inv_def Let_def)

theorem iterator_fifo_witness:
  "it_yielded (it_run 2 [Next, Push (1::nat), Push 2, Push 3, Push 4, Next, Finish (None :: unit option)])
     = [1, 3]
   \<and> subseq (it_yielded (it_run 2 [Push (1::nat), Finish (None :: unit option)])
       @ it_buffer (it_run 2 [Push (1::nat), Finish (None :: unit option)]))
      (it_pushed (it_run 2 [Push (1::nat), Finish (None :: unit option)]))"
proof
  show "it_yielded (it_run 2 [Next, Push (1::nat), Push 2, Push 3, Push 4, Next, Finish (None :: unit option)])
     = [1, 3]"
    by (simp add: it_run_def it_push_def it_next_def it_finish_def new_iter_def)
qed (use iterator_fifo [of 2 "[Push (1::nat), Finish (None :: unit option)]"] in \<open>simp add: Let_def\<close>)

end
