(* ===== verification/Json.thy ===== *)
theory Json
  imports Prelude
begin

text \<open>
  JSON values, \<open>JSON.stringify\<close> and \<open>JSON.parse\<close> as the code uses them: integer numbers (a text with a
  fraction or an exponent, or a surrogate escape, is outside the model and does not parse), strings
  as UTF-8 bytes. The result is that every value survives a trip through its text.
\<close>

datatype json =
  JNull | JBool bool | JNum int | JStr string | JArr "json list" | JObj "(string \<times> json) list"

text \<open>Reading a property: the last of several equal keys, absent outside objects.\<close>

fun jget :: "json \<Rightarrow> string \<Rightarrow> json option" where
  "jget (JObj kvs) k = map_of (rev kvs) k"
| "jget _ k = None"

fun as_str :: "json option \<Rightarrow> string option" where
  "as_str (Some (JStr s)) = Some s"
| "as_str _ = None"

fun as_num :: "json option \<Rightarrow> int option" where
  "as_num (Some (JNum n)) = Some n"
| "as_num _ = None"

fun as_arr :: "json option \<Rightarrow> json list option" where
  "as_arr (Some (JArr xs)) = Some xs"
| "as_arr _ = None"

text \<open>\<open>v !== null && typeof v === "object"\<close>.\<close>

fun is_object :: "json \<Rightarrow> bool" where
  "is_object (JObj _) = True"
| "is_object (JArr _) = True"
| "is_object _ = False"

subsection \<open>Printing\<close>

definition hex_digit :: "nat \<Rightarrow> char" where
  "hex_digit n = char_of (if n < 10 then 48 + n else 87 + n)"

definition hex_value :: "char \<Rightarrow> nat option" where
  "hex_value c =
     (let n = of_char c :: nat in
      if 48 \<le> n \<and> n \<le> 57 then Some (n - 48)
      else if 97 \<le> n \<and> n \<le> 102 then Some (n - 87)
      else if 65 \<le> n \<and> n \<le> 70 then Some (n - 55)
      else None)"

lemma hex_value_digit [simp]: "n < 16 \<Longrightarrow> hex_value (hex_digit n) = Some n"
  by (auto simp: hex_value_def hex_digit_def Let_def)

definition escape_char :: "char \<Rightarrow> string" where
  "escape_char c =
     (let n = of_char c :: nat in
      if n = 34 then [CHR 0x5C, CHR 0x22]
      else if n = 92 then [CHR 0x5C, CHR 0x5C]
      else if n = 8 then [CHR 0x5C, CHR ''b'']
      else if n = 9 then [CHR 0x5C, CHR ''t'']
      else if n = 10 then [CHR 0x5C, CHR ''n'']
      else if n = 12 then [CHR 0x5C, CHR ''f'']
      else if n = 13 then [CHR 0x5C, CHR ''r'']
      else if n < 32 then [CHR 0x5C, CHR ''u'', CHR ''0'', CHR ''0'', hex_digit (n div 16), hex_digit (n mod 16)]
      else [c])"

definition quote :: "string \<Rightarrow> string" where
  "quote s = CHR 0x22 # concat (map escape_char s) @ [CHR 0x22]"

fun stringify :: "json \<Rightarrow> string" where
  "stringify JNull = ''null''"
| "stringify (JBool b) = (if b then ''true'' else ''false'')"
| "stringify (JNum i) = show_int i"
| "stringify (JStr s) = quote s"
| "stringify (JArr xs) = ''['' @ join_with '','' (map stringify xs) @ '']''"
| "stringify (JObj kvs) =
     ''{'' @ join_with '','' (map (\<lambda>(k, v). quote k @ '':'' @ stringify v) kvs) @ ''}''"

subsection \<open>Parsing\<close>

definition json_ws :: "char \<Rightarrow> bool" where
  "json_ws c = (of_char c \<in> {9, 10, 13, 32 :: nat})"

definition skip_ws :: "string \<Rightarrow> string" where
  "skip_ws s = dropWhile json_ws s"

text \<open>One expected character after white space.\<close>

definition expect :: "char \<Rightarrow> string \<Rightarrow> string option" where
  "expect c s = (case skip_ws s of [] \<Rightarrow> None | d # r \<Rightarrow> if d = c then Some r else None)"

definition simple_escape :: "char \<Rightarrow> char option" where
  "simple_escape c =
     map_of [(CHR 0x22, CHR 0x22), (CHR 0x5C, CHR 0x5C), (CHR ''/'', CHR ''/''),
       (CHR ''b'', CHR 0x08), (CHR ''f'', CHR 0x0C), (CHR ''n'', CHR 0x0A),
       (CHR ''r'', CHR 0x0D), (CHR ''t'', CHR 0x09)] c"

text \<open>A code point below the surrogates as UTF-8.\<close>

definition utf8_bmp :: "nat \<Rightarrow> string option" where
  "utf8_bmp n =
     (if n < 128 then Some [char_of n]
      else if n < 2048 then Some [char_of (192 + n div 64), char_of (128 + n mod 64)]
      else if 55296 \<le> n \<and> n < 57344 then None
      else Some [char_of (224 + n div 4096), char_of (128 + n div 64 mod 64), char_of (128 + n mod 64)])"

definition hex4 :: "char \<Rightarrow> char \<Rightarrow> char \<Rightarrow> char \<Rightarrow> nat option" where
  "hex4 a b c d =
     (case (hex_value a, hex_value b, hex_value c, hex_value d) of
        (Some w, Some x, Some y, Some z) \<Rightarrow> Some (((w * 16 + x) * 16 + y) * 16 + z)
      | _ \<Rightarrow> None)"

definition prepend :: "string \<Rightarrow> (string \<times> string) option \<Rightarrow> (string \<times> string) option" where
  "prepend p = map_option (\<lambda>(t, r). (p @ t, r))"

lemma prepend_simps [simp]:
  "prepend p None = None" "prepend p (Some (t, r)) = Some (p @ t, r)"
  by (simp_all add: prepend_def)

text \<open>The text after an opening quote.\<close>

fun parse_str :: "string \<Rightarrow> (string \<times> string) option" where
  "parse_str [] = None"
| "parse_str (c # r) =
     (if c = CHR 0x22 then Some ([], r)
      else if c = CHR 0x5C then
        (case r of
           [] \<Rightarrow> None
         | e # r1 \<Rightarrow>
             if e = CHR ''u'' then
               (case r1 of
                  h1 # h2 # h3 # h4 # r2 \<Rightarrow>
                    (case hex4 h1 h2 h3 h4 of
                       None \<Rightarrow> None
                     | Some n \<Rightarrow> (case utf8_bmp n of None \<Rightarrow> None | Some bs \<Rightarrow> prepend bs (parse_str r2)))
                | _ \<Rightarrow> None)
             else (case simple_escape e of None \<Rightarrow> None | Some ch \<Rightarrow> prepend [ch] (parse_str r1)))
      else if (of_char c :: nat) < 32 then None
      else prepend [c] (parse_str r))"

text \<open>Where an integer must end.\<close>

definition num_end :: "string \<Rightarrow> bool" where
  "num_end s = (no_digit s \<and> (case s of [] \<Rightarrow> True | c # _ \<Rightarrow> c \<notin> {CHR ''.'', CHR ''e'', CHR ''E''}))"

definition parse_nat :: "string \<Rightarrow> (nat \<times> string) option" where
  "parse_nat s =
     (case s of
        [] \<Rightarrow> None
      | c # r \<Rightarrow>
          if digit_val c = None then None
          else (let nr = (if c = CHR ''0'' then (0, r) else read_digits 0 s) in
                if num_end (snd nr) then Some nr else None))"

definition parse_num :: "string \<Rightarrow> (json \<times> string) option" where
  "parse_num s =
     (case s of
        [] \<Rightarrow> None
      | c # r \<Rightarrow>
          if c = CHR ''-'' then map_option (\<lambda>(n, r'). (JNum (- int n), r')) (parse_nat r)
          else map_option (\<lambda>(n, r'). (JNum (int n), r')) (parse_nat s))"

definition parse_word :: "string \<Rightarrow> json \<Rightarrow> string \<Rightarrow> (json \<times> string) option" where
  "parse_word w v s = (if starts_with w s then Some (v, drop (length w) s) else None)"

text \<open>Nesting and elements are counted by fuel; the length of the text is enough.\<close>

fun parse_value :: "nat \<Rightarrow> string \<Rightarrow> (json \<times> string) option"
and parse_elems :: "nat \<Rightarrow> string \<Rightarrow> (json list \<times> string) option"
and parse_members :: "nat \<Rightarrow> string \<Rightarrow> ((string \<times> json) list \<times> string) option" where
  "parse_value 0 s = None"
| "parse_value (Suc f) s =
     (case skip_ws s of
        [] \<Rightarrow> None
      | c # r \<Rightarrow>
          if c = CHR 0x22 then map_option (\<lambda>(t, r'). (JStr t, r')) (parse_str r)
          else if c = CHR ''['' then
            (case expect (CHR '']'') r of
               Some r' \<Rightarrow> Some (JArr [], r')
             | None \<Rightarrow> map_option (\<lambda>(xs, r'). (JArr xs, r')) (parse_elems f r))
          else if c = CHR ''{'' then
            (case expect (CHR ''}'') r of
               Some r' \<Rightarrow> Some (JObj [], r')
             | None \<Rightarrow> map_option (\<lambda>(kvs, r'). (JObj kvs, r')) (parse_members f r))
          else if c = CHR ''t'' then parse_word ''true'' (JBool True) (c # r)
          else if c = CHR ''f'' then parse_word ''false'' (JBool False) (c # r)
          else if c = CHR ''n'' then parse_word ''null'' JNull (c # r)
          else parse_num (c # r))"
| "parse_elems 0 s = None"
| "parse_elems (Suc f) s =
     (case parse_value f s of
        None \<Rightarrow> None
      | Some (v, r) \<Rightarrow>
          (case expect (CHR '']'') r of
             Some r' \<Rightarrow> Some ([v], r')
           | None \<Rightarrow>
               (case expect (CHR '','') r of
                  None \<Rightarrow> None
                | Some r' \<Rightarrow> map_option (\<lambda>(vs, r''). (v # vs, r'')) (parse_elems f r'))))"
| "parse_members 0 s = None"
| "parse_members (Suc f) s =
     (case expect (CHR 0x22) s of
        None \<Rightarrow> None
      | Some r0 \<Rightarrow>
          (case parse_str r0 of
             None \<Rightarrow> None
           | Some (k, r1) \<Rightarrow>
               (case expect (CHR '':'') r1 of
                  None \<Rightarrow> None
                | Some r2 \<Rightarrow>
                    (case parse_value f r2 of
                       None \<Rightarrow> None
                     | Some (v, r3) \<Rightarrow>
                         (case expect (CHR ''}'') r3 of
                            Some r4 \<Rightarrow> Some ([(k, v)], r4)
                          | None \<Rightarrow>
                              (case expect (CHR '','') r3 of
                                 None \<Rightarrow> None
                               | Some r4 \<Rightarrow>
                                   map_option (\<lambda>(kvs, r5). ((k, v) # kvs, r5)) (parse_members f r4)))))))"

definition parse_json :: "string \<Rightarrow> json option" where
  "parse_json s =
     (case parse_value (Suc (length s)) s of
        None \<Rightarrow> None
      | Some (v, r) \<Rightarrow> if skip_ws r = [] then Some v else None)"


subsection \<open>The round trip\<close>

lemma char_from_code: "(of_char c :: nat) = n \<Longrightarrow> c = char_of n"
  by auto

lemma char_of_codes [simp]:
  "char_of (34 :: nat) = CHR 0x22" "char_of (92 :: nat) = CHR 0x5C" "char_of (8 :: nat) = CHR 0x08"
  "char_of (9 :: nat) = CHR 0x09" "char_of (10 :: nat) = CHR 0x0A" "char_of (12 :: nat) = CHR 0x0C"
  "char_of (13 :: nat) = CHR 0x0D"
  by (simp_all add: char_of_def bit_iff_odd)

lemma escape_char_plain:
  "32 \<le> (of_char c :: nat) \<Longrightarrow> c \<noteq> CHR 0x22 \<Longrightarrow> c \<noteq> CHR 0x5C \<Longrightarrow> escape_char c = [c]"
  by (auto simp: escape_char_def Let_def dest!: char_from_code)

lemma parse_str_escape: "parse_str (escape_char c @ t) = prepend [c] (parse_str t)"
proof -
  let ?n = "of_char c :: nat"
  consider "?n \<in> {34, 92, 8, 9, 10, 12, 13}"
    | "?n < 32" "?n \<notin> {8, 9, 10, 12, 13}"
    | "32 \<le> ?n" "c \<noteq> CHR 0x22" "c \<noteq> CHR 0x5C"
    by (cases "?n < 32"; cases "c = CHR 0x22"; cases "c = CHR 0x5C") (auto simp: not_less)
  then show ?thesis
  proof cases
    case 1
    then show ?thesis
      by (auto simp: escape_char_def simple_escape_def dest!: char_from_code)
  next
    case 2
    have h: "hex4 (CHR ''0'') (CHR ''0'') (hex_digit (?n div 16)) (hex_digit (?n mod 16)) = Some ?n"
      using 2(1) by (simp add: hex4_def hex_value_def [of "CHR ''0''"] Let_def)
    from 2 show ?thesis
      by (simp add: escape_char_def Let_def h utf8_bmp_def)
  next
    case 3
    then show ?thesis by (simp add: escape_char_plain)
  qed
qed

lemma parse_str_quote: "parse_str (concat (map escape_char s) @ CHR 0x22 # rest) = Some (s, rest)"
  by (induction s) (simp_all add: parse_str_escape)

lemma show_nat_zero_head: "show_nat n = CHR ''0'' # cs \<Longrightarrow> n = 0 \<and> cs = []"
proof (induction n arbitrary: cs rule: show_nat.induct)
  case (1 n)
  show ?case
  proof (cases "n < 10")
    case True
    with "1.prems" have "char_of (48 + n) = CHR ''0''" "cs = []"
      by (simp_all add: show_nat.simps [of n])
    then have "(of_char (char_of (48 + n) :: char) :: nat) = of_char (CHR ''0'')" by simp
    with True \<open>cs = []\<close> show ?thesis by simp
  next
    case False
    then obtain ds where "show_nat (n div 10) = CHR ''0'' # ds"
      using "1.prems" show_nat_digits [of "n div 10"] by (auto simp: show_nat.simps [of n])
    with "1.IH" [OF False] have "n div 10 = 0" by blast
    with False show ?thesis by simp
  qed
qed

lemma digit_not_special:
  "digit_val c \<noteq> None \<Longrightarrow> c \<noteq> CHR ''-'' \<and> c \<noteq> CHR 0x22 \<and> c \<noteq> CHR ''['' \<and> c \<noteq> CHR ''{''
     \<and> c \<noteq> CHR ''t'' \<and> c \<noteq> CHR ''f'' \<and> c \<noteq> CHR ''n'' \<and> \<not> json_ws c"
  by (auto simp: digit_val_def json_ws_def Let_def split: if_splits)

lemma parse_nat_show: "num_end rest \<Longrightarrow> parse_nat (show_nat n @ rest) = Some (n, rest)"
proof -
  assume e: "num_end rest"
  then have nd: "no_digit rest" by (simp add: num_end_def)
  obtain c cs where c: "show_nat n = c # cs" "digit_val c \<noteq> None"
    using show_nat_digits by blast
  show ?thesis
  proof (cases "c = CHR ''0''")
    case True
    with c show_nat_zero_head have "n = 0" "cs = []" by blast+
    with c True e show ?thesis by (simp add: parse_nat_def)
  next
    case False
    have "read_digits 0 (c # cs @ rest) = (n, rest)"
      using read_show_nat [OF nd, of n] c(1) by simp
    with False c e show ?thesis by (simp add: parse_nat_def del: read_digits.simps)
  qed
qed

lemma parse_num_show: "num_end rest \<Longrightarrow> parse_num (show_int i @ rest) = Some (JNum i, rest)"
proof (cases "i < 0")
  case True
  assume "num_end rest"
  with True show ?thesis by (simp add: parse_num_def show_int_def parse_nat_show)
next
  case False
  assume e: "num_end rest"
  obtain c cs where c: "show_nat (nat i) = c # cs" "digit_val c \<noteq> None"
    using show_nat_digits by blast
  then have "c \<noteq> CHR ''-''" using digit_not_special [of c] by blast
  with False c parse_nat_show [OF e, of "nat i"] show ?thesis
    by (simp add: parse_num_def show_int_def)
qed

text \<open>The first character of a printed value is neither white space nor a closing bracket.\<close>

lemma show_int_first: "\<exists>c cs. show_int i = c # cs \<and> (c = CHR ''-'' \<or> digit_val c \<noteq> None)"
proof (cases "i < 0")
  case False
  then show ?thesis using show_nat_digits [of "nat i"] by (auto simp: show_int_def)
qed (simp add: show_int_def)

lemma stringify_first:
  "\<exists>c cs. stringify j = c # cs \<and> \<not> json_ws c \<and> c \<noteq> CHR '']'' \<and> c \<noteq> CHR ''}''"
proof (cases j)
  case (JNum i)
  obtain c cs where c: "show_int i = c # cs" "c = CHR ''-'' \<or> digit_val c \<noteq> None"
    using show_int_first by blast
  then have "\<not> json_ws c \<and> c \<noteq> CHR '']'' \<and> c \<noteq> CHR ''}''"
    using digit_not_special [of c] by (auto simp: json_ws_def digit_val_def)
  with c JNum show ?thesis by auto
qed (auto simp: quote_def json_ws_def)

lemma expect_hit [simp]: "\<not> json_ws c \<Longrightarrow> expect c (c # s) = Some s"
  by (simp add: expect_def skip_ws_def)

lemma expect_miss [simp]: "\<not> json_ws d \<Longrightarrow> d \<noteq> c \<Longrightarrow> expect c (d # s) = None"
  by (simp add: expect_def skip_ws_def)

lemma expect_stringify [simp]:
  "expect (CHR '']'') (stringify j @ rest) = None" "expect (CHR ''}'') (stringify j @ rest) = None"
  using stringify_first [of j] by auto

lemma skip_ws_stringify [simp]: "skip_ws (stringify j @ rest) = stringify j @ rest"
  using stringify_first [of j] by (auto simp: skip_ws_def)

lemma json_ws_punctuation [simp]:
  "\<not> json_ws (CHR 0x22)" "\<not> json_ws (CHR '','')" "\<not> json_ws (CHR '':'')" "\<not> json_ws (CHR '']'')"
  "\<not> json_ws (CHR ''}'')" "\<not> json_ws (CHR ''['')" "\<not> json_ws (CHR ''{'')" "\<not> json_ws (CHR ''t'')"
  "\<not> json_ws (CHR ''f'')" "\<not> json_ws (CHR ''n'')"
  by (simp_all add: json_ws_def)

lemma num_end_punctuation [simp]:
  "num_end []" "num_end (CHR '','' # s)" "num_end (CHR '']'' # s)" "num_end (CHR ''}'' # s)"
  by (simp_all add: num_end_def no_digit_def digit_val_def Let_def)

text \<open>The fuel a value needs, and that the length of its text covers it.\<close>

fun need :: "json \<Rightarrow> nat" where
  "need (JArr xs) = Suc (sum_list (map (\<lambda>x. Suc (need x)) xs))"
| "need (JObj kvs) = Suc (sum_list (map (\<lambda>(k, v). Suc (need v)) kvs))"
| "need _ = 1"

lemma length_join: "xs \<noteq> [] \<Longrightarrow> length (join_with [c] xs) + 1 = sum_list (map (\<lambda>x. Suc (length x)) xs)"
  by (induction xs rule: induct_list012) auto

lemma need_le_length: "need j \<le> length (stringify j)"
proof (induction j rule: need.induct)
  case (1 xs)
  have "sum_list (map (\<lambda>x. Suc (need x)) xs) \<le> sum_list (map (\<lambda>x. Suc (length (stringify x))) xs)"
    using "1.IH" by (intro sum_list_mono) auto
  then show ?case
    using length_join [of "map stringify xs" "CHR '',''"]
    by (cases xs) (auto simp: comp_def)
next
  case (2 kvs)
  have "sum_list (map (\<lambda>(k, v). Suc (need v)) kvs)
      \<le> sum_list (map (\<lambda>(k, v). Suc (length (quote k @ '':'' @ stringify v))) kvs)"
    using "2.IH" by (intro sum_list_mono) (fastforce intro: le_SucI trans_le_add2)
  then show ?case
    using length_join [of "map (\<lambda>(k, v). quote k @ '':'' @ stringify v) kvs" "CHR '',''"]
    by (cases kvs) (auto simp: comp_def case_prod_beta')
qed (auto simp: quote_def show_int_def Suc_le_eq)


definition reads_back :: "json \<Rightarrow> bool" where
  "reads_back j \<longleftrightarrow>
     (\<forall>f rest. need j \<le> f \<longrightarrow> num_end rest \<longrightarrow> parse_value f (stringify j @ rest) = Some (j, rest))"

lemma reads_backD:
  "reads_back j \<Longrightarrow> need j \<le> f \<Longrightarrow> num_end rest \<Longrightarrow> parse_value f (stringify j @ rest) = Some (j, rest)"
  by (simp add: reads_back_def)

lemma parse_elems_join:
  assumes "xs \<noteq> []" and "\<And>x. x \<in> set xs \<Longrightarrow> reads_back x"
    and "sum_list (map (\<lambda>x. Suc (need x)) xs) \<le> f"
  shows "parse_elems f (join_with '','' (map stringify xs) @ CHR '']'' # rest) = Some (xs, rest)"
  using assms
proof (induction xs arbitrary: f rule: induct_list012)
  case (2 x)
  then obtain f' where f: "f = Suc f'" "need x \<le> f'" by (cases f) auto
  with 2 show ?case by (simp add: reads_backD)
next
  case (3 x y zs)
  then obtain f' where f: "f = Suc f'" "need x \<le> f'" by (cases f) auto
  have "parse_elems f' (join_with '','' (map stringify (y # zs)) @ CHR '']'' # rest) = Some (y # zs, rest)"
    using 3 f by (intro "3.IH"(2)) auto
  with 3 f show ?case by (simp add: reads_backD)
qed simp

lemma expect_quote: "expect (CHR 0x22) (quote k @ s) = Some (concat (map escape_char k) @ CHR 0x22 # s)"
  by (simp add: quote_def)

lemma expect_brace_quote: "expect (CHR ''}'') (quote k @ s) = None"
  by (simp add: quote_def)

lemma parse_members_join:
  assumes "kvs \<noteq> []" and "\<And>k v. (k, v) \<in> set kvs \<Longrightarrow> reads_back v"
    and "sum_list (map (\<lambda>(k, v). Suc (need v)) kvs) \<le> f"
  shows "parse_members f (join_with '','' (map (\<lambda>(k, v). quote k @ '':'' @ stringify v) kvs) @ CHR ''}'' # rest)
           = Some (kvs, rest)"
  using assms
proof (induction kvs arbitrary: f rule: induct_list012)
  case (2 x)
  obtain k v where x: "x = (k, v)" by fastforce
  with 2 obtain f' where f: "f = Suc f'" "need v \<le> f'" by (cases f) auto
  with 2 x show ?case by (simp add: reads_backD expect_quote parse_str_quote)
next
  case (3 x y zs)
  obtain k v k' v' where x: "x = (k, v)" and y: "y = (k', v')" by fastforce
  with 3 obtain f' where f: "f = Suc f'" "need v \<le> f'" by (cases f) auto
  have v: "reads_back v" using "3.prems"(2) [of k v] x by simp
  have "parse_members f' (join_with '','' (map (\<lambda>(k, v). quote k @ '':'' @ stringify v) (y # zs))
      @ CHR ''}'' # rest) = Some (y # zs, rest)"
    using "3.prems" f x by (intro "3.IH"(2)) auto
  with f x y reads_backD [OF v f(2)] show ?case by (simp add: expect_quote parse_str_quote)
qed simp

lemma expect_brace_members:
  "kvs \<noteq> [] \<Longrightarrow> expect (CHR ''}'') (join_with '','' (map (\<lambda>(k, v). quote k @ CHR '':'' # stringify v) kvs) @ s) = None"
  by (induction kvs rule: induct_list012) (auto simp: expect_brace_quote)

lemma expect_bracket_elems:
  "xs \<noteq> [] \<Longrightarrow> expect (CHR '']'') (join_with '','' (map stringify xs) @ s) = None"
  by (induction xs rule: induct_list012) auto

lemma skip_ws_plain: "\<not> json_ws c \<Longrightarrow> skip_ws (c # s) = c # s"
  by (simp add: skip_ws_def)

lemma parse_value_num: "num_end rest \<Longrightarrow> parse_value (Suc f) (show_int i @ rest) = Some (JNum i, rest)"
proof -
  assume e: "num_end rest"
  obtain c cs where c: "show_int i = c # cs" "c = CHR ''-'' \<or> digit_val c \<noteq> None"
    using show_int_first by blast
  have "c \<noteq> CHR 0x22 \<and> c \<noteq> CHR ''['' \<and> c \<noteq> CHR ''{'' \<and> c \<noteq> CHR ''t'' \<and> c \<noteq> CHR ''f''
     \<and> c \<noteq> CHR ''n'' \<and> \<not> json_ws c"
    using c(2) digit_not_special [of c] by (auto simp: json_ws_def)
  with c(1) parse_num_show [OF e, of i] show ?thesis
    by (simp add: skip_ws_plain)
qed

lemma reads_back_all: "reads_back j"
proof (induction j rule: stringify.induct)
  case 1
  show ?case by (auto simp: reads_back_def skip_ws_plain parse_word_def starts_with_def gr0_conv_Suc Suc_le_eq)
next
  case (2 b)
  show ?case by (auto simp: reads_back_def skip_ws_plain parse_word_def starts_with_def gr0_conv_Suc Suc_le_eq)
next
  case (3 i)
  show ?case
    by (auto simp: reads_back_def parse_value_num gr0_conv_Suc Suc_le_eq simp del: parse_value.simps)
next
  case (4 s)
  show ?case
    by (auto simp: reads_back_def quote_def skip_ws_plain parse_str_quote gr0_conv_Suc Suc_le_eq)
next
  case (5 xs)
  have "parse_value (Suc f) (stringify (JArr xs) @ rest) = Some (JArr xs, rest)"
    if "sum_list (map (\<lambda>x. Suc (need x)) xs) \<le> f" for f rest
    using that 5 parse_elems_join [of xs f rest]
    by (cases "xs = []") (simp_all add: skip_ws_plain expect_bracket_elems)
  then have "parse_value f (stringify (JArr xs) @ rest) = Some (JArr xs, rest)" if "need (JArr xs) \<le> f" for f rest
    using that by (cases f) (simp_all only: need.simps not_less_eq_eq le_0_eq nat.distinct Suc_le_mono)
  then show ?case by (simp only: reads_back_def) blast
next
  case (6 kvs)
  have "parse_value (Suc f) (stringify (JObj kvs) @ rest) = Some (JObj kvs, rest)"
    if "sum_list (map (\<lambda>(k, v). Suc (need v)) kvs) \<le> f" for f rest
    using that 6 parse_members_join [of kvs f rest]
    by (cases "kvs = []") (auto simp: skip_ws_plain expect_brace_members)
  then have "parse_value f (stringify (JObj kvs) @ rest) = Some (JObj kvs, rest)" if "need (JObj kvs) \<le> f" for f rest
    using that by (cases f) (simp_all only: need.simps not_less_eq_eq le_0_eq nat.distinct Suc_le_mono)
  then show ?case by (simp only: reads_back_def) blast
qed

lemma parse_stringify [js_simps]: "parse_json (stringify j) = Some j"
  using reads_backD [OF reads_back_all, of j "Suc (length (stringify j))" "[]"] need_le_length [of j]
  by (simp add: parse_json_def skip_ws_def)

lemma stringify_inj: "stringify a = stringify b \<Longrightarrow> a = b"
  by (metis option.inject parse_stringify)

text \<open>The printed text holds no control character: line breaks inside strings are escaped.\<close>

lemma hex_digit_printable: "n < 16 \<Longrightarrow> 32 \<le> (of_char (hex_digit n) :: nat)"
  by (simp add: hex_digit_def)

lemma escape_char_printable:
  assumes "c \<in> set (escape_char x)"
  shows "32 \<le> (of_char c :: nat)"
proof -
  have h: "(of_char x :: nat) div 16 < 16" by (rule less_mult_imp_div_less) simp
  consider "(of_char x :: nat) \<in> {34, 92, 8, 9, 10, 12, 13}"
    | "(of_char x :: nat) < 32" "(of_char x :: nat) \<notin> {34, 92, 8, 9, 10, 12, 13}"
    | "32 \<le> (of_char x :: nat)" "(of_char x :: nat) \<notin> {34, 92}"
    by (cases "(of_char x :: nat) < 32") auto
  then show ?thesis
  proof cases
    case 1
    with assms show ?thesis by (auto simp: escape_char_def Let_def)
  next
    case 2
    with assms show ?thesis
      using hex_digit_printable [OF h] hex_digit_printable [of "of_char x mod 16"]
      by (auto simp: escape_char_def Let_def)
  next
    case 3
    with assms show ?thesis by (auto simp: escape_char_def Let_def split: if_splits)
  qed
qed

definition printable :: "string \<Rightarrow> bool" where
  "printable s = (\<forall>c \<in> set s. 32 \<le> (of_char c :: nat))"

lemma printable_append [simp]: "printable (s @ t) \<longleftrightarrow> printable s \<and> printable t"
  by (auto simp: printable_def)

lemma printable_Cons [simp]: "printable (c # s) \<longleftrightarrow> 32 \<le> (of_char c :: nat) \<and> printable s"
  by (simp add: printable_def)

lemma printable_Nil [simp]: "printable []"
  by (simp add: printable_def)

lemma printable_quote [simp]: "printable (quote s)"
  using escape_char_printable by (auto simp: quote_def printable_def)

lemma printable_show_nat [simp]: "printable (show_nat n)"
  unfolding printable_def
proof
  fix c assume "c \<in> set (show_nat n)"
  then have "digit_val c \<noteq> None" by (rule show_nat_all_digits)
  then show "32 \<le> (of_char c :: nat)" by (simp add: digit_val_def Let_def split: if_splits)
qed

lemma printable_join [simp]: "printable sep \<Longrightarrow> \<forall>p \<in> set ps. printable p \<Longrightarrow> printable (join_with sep ps)"
  by (induction sep ps rule: join_with.induct) auto

lemma printable_stringify: "printable (stringify j)"
proof (induction j rule: stringify.induct)
  case (6 kvs)
  then have "\<forall>p \<in> set (map (\<lambda>(k, v). quote k @ '':'' @ stringify v) kvs). printable p" by fastforce
  then show ?case by simp
qed (auto simp: show_int_def)

lemma stringify_no_break: "CHR 0x0A \<notin> set (stringify j)" "CHR 0x0D \<notin> set (stringify j)"
  using printable_stringify [of j] by (auto simp: printable_def)

end
