(* ===== verification/Base64Url.thy ===== *)
theory Base64Url
  imports Prelude
begin

text \<open>
  The base64 codecs the token code uses: \<open>Buffer.from(s).toString("base64url")\<close>, its lenient inverse
  \<open>Buffer.from(s, "base64url")\<close> (either alphabet, other characters skipped, nothing after a pad), and
  the browser's strict \<open>atob\<close>.
\<close>

definition b64_alphabet :: string where
  "b64_alphabet = ''ABCDEFGHIJKLMNOPQRSTUVWXYZabcdefghijklmnopqrstuvwxyz0123456789-_''"

definition b64_char :: "nat \<Rightarrow> char" where
  "b64_char n = b64_alphabet ! (n mod 64)"

definition b64_value :: "char \<Rightarrow> nat option" where
  "b64_value c =
     (let n = of_char c :: nat in
      if 65 \<le> n \<and> n \<le> 90 then Some (n - 65)
      else if 97 \<le> n \<and> n \<le> 122 then Some (n - 71)
      else if 48 \<le> n \<and> n \<le> 57 then Some (n + 4)
      else if n = 45 \<or> n = 43 then Some 62
      else if n = 95 \<or> n = 47 then Some 63
      else None)"

abbreviation byte :: "char \<Rightarrow> nat" where "byte c \<equiv> of_char c"

text \<open>Three bytes become four 6-bit values; one or two bytes at the end become two or three.\<close>

fun sextets :: "string \<Rightarrow> nat list" where
  "sextets [] = []"
| "sextets [a] = [byte a div 4, byte a mod 4 * 16]"
| "sextets [a, b] = [byte a div 4, byte a mod 4 * 16 + byte b div 16, byte b mod 16 * 4]"
| "sextets (a # b # c # s) =
     byte a div 4 # (byte a mod 4 * 16 + byte b div 16) # (byte b mod 16 * 4 + byte c div 64)
       # byte c mod 64 # sextets s"

fun unsextets :: "nat list \<Rightarrow> string" where
  "unsextets (p # q # r # t # s) =
     char_of (p * 4 + q div 16) # char_of (q mod 16 * 16 + r div 4) # char_of (r mod 4 * 64 + t)
       # unsextets s"
| "unsextets [p, q, r] = [char_of (p * 4 + q div 16), char_of (q mod 16 * 16 + r div 4)]"
| "unsextets [p, q] = [char_of (p * 4 + q div 16)]"
| "unsextets _ = []"

definition b64url_encode :: "string \<Rightarrow> string" where
  "b64url_encode s = map b64_char (sextets s)"

definition b64url_decode :: "string \<Rightarrow> string" where
  "b64url_decode s = unsextets (List.map_filter b64_value (takeWhile (\<lambda>c. c \<noteq> CHR ''='') s))"

lemma code_less [simp]: "byte c < 256"
  by (metis of_char_mod_256 mod_less_divisor zero_less_numeral)

lemma glue_div: "y < k \<Longrightarrow> (x * k + y) div k = (x :: nat)"
  by simp

lemma glue_mod: "y < k \<Longrightarrow> (x * k + y) mod k = (y :: nat)"
  by simp

lemma code_quotients [simp]: "byte c div 4 < 64" "byte c div 16 < 16" "byte c div 64 < 4"
  using code_less [of c] by (simp_all add: div_less_iff_less_mult)

lemma glue_bound: "x < m \<Longrightarrow> y < k \<Longrightarrow> m * k \<le> n \<Longrightarrow> x * k + y < (n :: nat)"
proof -
  assume a: "x < m" "y < k" "m * k \<le> n"
  then have "x * k + y < Suc x * k" by simp
  also have "\<dots> \<le> m * k" using a by (intro mult_le_mono1) simp
  finally show ?thesis using a by simp
qed

lemma sextet_middle [simp]:
  "x mod 4 * 16 + byte b div 16 < 64" "y mod 16 * 4 + byte c div 64 < 64"
  by (rule glue_bound [of _ 4]; simp) (rule glue_bound [of _ 16]; simp)

lemma sextet_last [simp]: "x mod 4 * 16 < (64 :: nat)" "x mod 16 * 4 < (64 :: nat)"
  using mod_less_divisor [of 4 x] mod_less_divisor [of 16 x] by linarith+

lemma sextets_bound: "n \<in> set (sextets s) \<Longrightarrow> n < 64"
  by (induction s rule: sextets.induct) auto

lemma unglue:
  "x div 4 * 4 + (x mod 4 * 16 + byte b div 16) div 16 = x"
  "(x mod 4 * 16 + byte b div 16) mod 16 * 16 + (byte b mod 16 * 4 + z div 64) div 4
     = byte b div 16 * 16 + (byte b mod 16 * 4 + z div 64) div 4"
  "z < 256 \<Longrightarrow> (y mod 16 * 4 + z div 64) div 4 = y mod 16"
  "z < 256 \<Longrightarrow> (y mod 16 * 4 + z div 64) mod 4 * 64 + z mod 64 = (z :: nat)"
proof -
  show "x div 4 * 4 + (x mod 4 * 16 + byte b div 16) div 16 = x"
    using glue_div [of "byte b div 16" 16 "x mod 4"] by simp
  show "(x mod 4 * 16 + byte b div 16) mod 16 * 16 + (byte b mod 16 * 4 + z div 64) div 4
     = byte b div 16 * 16 + (byte b mod 16 * 4 + z div 64) div 4"
    using glue_mod [of "byte b div 16" 16 "x mod 4"] by simp
  assume "z < 256"
  then have z: "z div 64 < 4" by (simp add: div_less_iff_less_mult)
  show "(y mod 16 * 4 + z div 64) div 4 = y mod 16" using glue_div [OF z] .
  show "(y mod 16 * 4 + z div 64) mod 4 * 64 + z mod 64 = z"
    using glue_mod [OF z, of "y mod 16"] by simp
qed

lemma unsextets_sextets: "unsextets (sextets s) = s"
proof (induction s rule: sextets.induct)
  case (2 a)
  show ?case by simp
next
  case (3 a b)
  show ?case
    using unglue(1) [of "byte a" b] unglue(2) [of "byte a" b 0] unglue(3) [of 0 "byte b"] by simp
next
  case (4 a b c s)
  show ?case
    using 4 unglue(1) [of "byte a" b] unglue(2) [of "byte a" b "byte c"]
      unglue(3,4) [of "byte c" "byte b"]
    by simp
qed simp

lemma b64_alphabet_values: "map b64_value b64_alphabet = map Some [0..<64]"
  by (simp add: b64_alphabet_def b64_value_def Let_def upt_rec [of _ 64])

lemma length_b64_alphabet: "length b64_alphabet = 64"
  by (simp add: b64_alphabet_def)

lemma b64_char_value:
  assumes "n < 64"
  shows "b64_value (b64_char n) = Some n" "b64_char n \<noteq> CHR ''=''" "b64_char n \<noteq> CHR ''.''"
proof -
  have "map b64_value b64_alphabet ! n = Some n"
    using assms by (simp add: b64_alphabet_values)
  then show v: "b64_value (b64_char n) = Some n"
    using assms by (simp add: b64_char_def length_b64_alphabet)
  have "b64_value (CHR ''='') = None" "b64_value (CHR ''.'') = None"
    by (simp_all add: b64_value_def Let_def)
  with v show "b64_char n \<noteq> CHR ''=''" "b64_char n \<noteq> CHR ''.''"
    by (metis option.distinct(1))+
qed

lemma map_filter_b64: "\<forall>n \<in> set ns. n < 64 \<Longrightarrow> List.map_filter b64_value (map b64_char ns) = ns"
  by (induction ns) (simp_all add: b64_char_value)

lemma b64url_encode_no_pad: "CHR ''='' \<notin> set (b64url_encode s)"
  using sextets_bound b64_char_value(2) by (fastforce simp: b64url_encode_def)

lemma b64url_encode_no_dot: "CHR ''.'' \<notin> set (b64url_encode s)"
  using sextets_bound b64_char_value(3) by (fastforce simp: b64url_encode_def)

lemma b64_value_not_space: "b64_value c \<noteq> None \<Longrightarrow> \<not> is_space c"
  by (auto simp: b64_value_def is_space_def Let_def split: if_splits)

lemma b64url_encode_not_space: "c \<in> set (b64url_encode s) \<Longrightarrow> \<not> is_space c"
  using sextets_bound b64_char_value(1) b64_value_not_space by (fastforce simp: b64url_encode_def)

lemma b64url_round_trip [js_simps]: "b64url_decode (b64url_encode s) = s"
proof -
  have "takeWhile (\<lambda>c. c \<noteq> CHR ''='') (b64url_encode s) = b64url_encode s"
    using b64url_encode_no_pad [of s] by (simp add: takeWhile_eq_all_conv) blast
  moreover have "List.map_filter b64_value (b64url_encode s) = sextets s"
    unfolding b64url_encode_def by (intro map_filter_b64 ballI sextets_bound)
  ultimately show ?thesis by (simp only: b64url_decode_def unsextets_sextets)
qed

text \<open>
  \<open>atob\<close>: white space is dropped, up to two pads at the end of a text whose length is a multiple of
  four, then every character must be of the standard alphabet and the count not one more than a
  multiple of four.
\<close>

definition atob_value :: "char \<Rightarrow> nat option" where
  "atob_value c = (if c = CHR ''-'' \<or> c = CHR ''_'' then None else b64_value c)"

definition atob_strip :: "string \<Rightarrow> string" where
  "atob_strip s =
     (if length s mod 4 = 0 then
        (if 2 \<le> length s \<and> drop (length s - 2) s = ''=='' then take (length s - 2) s
         else if 1 \<le> length s \<and> drop (length s - 1) s = ''='' then take (length s - 1) s
         else s)
      else s)"

definition atob :: "string \<Rightarrow> string option" where
  "atob s =
     (let t = atob_strip (filter (\<lambda>c. \<not> is_space c \<or> c = CHR 0x0B) s) in
      if length t mod 4 = 1 \<or> (\<exists>c \<in> set t. atob_value c = None) then None
      else Some (unsextets (List.map_filter atob_value t)))"

end
