(* ===== verification/WebToken.thy ===== *)
theory WebToken
  imports Json Base64Url
begin

text \<open>
  Beam Web Tokens (\<open>packages/web-sdk-server/src/token.ts\<close>): minting, verification and scope
  checks. The keyed hash is a parameter, the raw digest as a function of the secret and the payload;
  its text form, JSON and base64url are the concrete functions of the model. Times are in
  milliseconds where the code reads the clock and in seconds in claims.
\<close>

definition BWT_PREFIX :: string where "BWT_PREFIX = ''bwt1''"
definition MAX_TTL_SECONDS :: int where "MAX_TTL_SECONDS = 300"
definition DEFAULT_TTL_SECONDS :: int where "DEFAULT_TTL_SECONDS = 120"
definition MIN_TTL_SECONDS :: int where "MIN_TTL_SECONDS = 15"

definition BEAM_SCOPES :: "string list" where
  "BEAM_SCOPES =
     [''rooms:create'', ''rooms:join'', ''room:read'', ''broadcast:publish'', ''broadcast:watch'',
      ''transfers:create'', ''transfers:read'', ''transfers:cancel'']"

fun isBeamScope :: "json \<Rightarrow> bool" where
  "isBeamScope (JStr s) = (s \<in> set BEAM_SCOPES)"
| "isBeamScope _ = False"

text \<open>A thrown \<open>BeamTokenError\<close>, or a \<open>TypeError\<close> of the language (a property of \<open>null\<close>).\<close>

datatype token_error = Token_error (te_message: string) (te_code: string) | Type_error

abbreviation invalid_token :: "string \<Rightarrow> token_error" where
  "invalid_token msg \<equiv> Token_error msg ''invalid_token''"

record token_claims =
  c_iss :: string
  c_aud :: string
  c_sub :: "string option"
  c_org :: "string option"
  c_scopes :: "string list"
  c_iat :: int
  c_exp :: int
  c_jti :: string
  c_origin :: "string option"

text \<open>The claims object in the order its members are written; absent members are left out.\<close>

definition opt_member :: "string \<Rightarrow> string option \<Rightarrow> (string \<times> json) list" where
  "opt_member k v = (case v of None \<Rightarrow> [] | Some s \<Rightarrow> [(k, JStr s)])"

definition claims_json :: "token_claims \<Rightarrow> json" where
  "claims_json c = JObj
     ([(''v'', JNum 1), (''iss'', JStr (c_iss c)), (''aud'', JStr (c_aud c))]
      @ opt_member ''sub'' (c_sub c) @ opt_member ''org'' (c_org c)
      @ [(''scopes'', JArr (map JStr (c_scopes c))), (''iat'', JNum (c_iat c)), (''exp'', JNum (c_exp c)),
         (''jti'', JStr (c_jti c))]
      @ opt_member ''origin'' (c_origin c))"

record mint_options =
  m_secret :: string
  m_issuer :: "string option"
  m_audience :: "string option"
  m_subject :: "string option"
  m_organizationId :: "string option"
  m_scopes :: "string list"
  m_ttlSeconds :: "int option"
  m_origin :: "string option"

type_synonym hmac = "string \<Rightarrow> string \<Rightarrow> string"

definition sign :: "hmac \<Rightarrow> string \<Rightarrow> string \<Rightarrow> string" where
  "sign hmac secret payload = b64url_encode (hmac secret payload)"

definition assertUsableSecret :: "string \<Rightarrow> token_error option" where
  "assertUsableSecret secret =
     (if length secret < 32 then
        Some (Token_error
          (''The signing secret must be at least 32 characters. Generate one with ''
            @ ''`openssl rand -hex 32`.'') ''weak_secret'')
      else None)"

definition mintToken ::
  "hmac \<Rightarrow> string \<Rightarrow> int \<Rightarrow> mint_options \<Rightarrow> token_error + (string \<times> token_claims \<times> int)" where
  "mintToken hmac jti now_ms options =
     (case assertUsableSecret (m_secret options) of
        Some e \<Rightarrow> Inl e
      | None \<Rightarrow>
          (let scopes = dedup (m_scopes options);
               invalid = filter (\<lambda>s. \<not> isBeamScope (JStr s)) scopes;
               ttl = min (coalesce (m_ttlSeconds options) DEFAULT_TTL_SECONDS) MAX_TTL_SECONDS;
               now = now_ms div 1000 in
           if scopes = [] then
             Inl (Token_error ''A token must carry at least one scope.'' ''invalid_argument'')
           else if invalid \<noteq> [] then
             Inl (Token_error (''Unknown scope(s): '' @ join_with '', '' invalid @ ''.'') ''invalid_argument'')
           else if ttl < MIN_TTL_SECONDS then
             Inl (Token_error (''ttlSeconds must be between '' @ show_int MIN_TTL_SECONDS @ '' and ''
               @ show_int MAX_TTL_SECONDS @ ''.'') ''invalid_argument'')
           else
             (let claims =
                \<lparr>c_iss = coalesce (m_issuer options) ''beam-web-sdk-server'',
                 c_aud = coalesce (m_audience options) ''beam-web-sdk'',
                 c_sub = m_subject options, c_org = m_organizationId options, c_scopes = scopes,
                 c_iat = now, c_exp = now + ttl, c_jti = jti, c_origin = m_origin options\<rparr>;
                payload = b64url_encode (stringify (claims_json claims)) in
              Inr (BWT_PREFIX @ ''.'' @ payload @ ''.'' @ sign hmac (m_secret options) payload, claims, ttl))))"

record verify_options =
  v_secret :: string
  v_audience :: "string option"
  v_origin :: "string option"
  v_clockToleranceSeconds :: "int option"

text \<open>The checks on a payload whose signature was accepted, in the order of the code.\<close>

definition check_claims :: "verify_options \<Rightarrow> int \<Rightarrow> json \<Rightarrow> token_error + json" where
  "check_claims options now_ms claims =
     (let now = now_ms div 1000;
          tolerance = coalesce (v_clockToleranceSeconds options) 30;
          expv = as_num (jget claims ''exp''); iatv = as_num (jget claims ''iat'') in
      if claims = JNull then Inl Type_error
      else if jget claims ''v'' \<noteq> Some (JNum 1) then Inl (invalid_token ''Unsupported Beam token version.'')
      else if (case v_audience options of None \<Rightarrow> False | Some a \<Rightarrow> jget claims ''aud'' \<noteq> Some (JStr a)) then
        Inl (invalid_token ''Beam token audience mismatch.'')
      else if (case as_arr (jget claims ''scopes'') of None \<Rightarrow> True | Some ss \<Rightarrow> \<not> list_all isBeamScope ss) then
        Inl (invalid_token ''Beam token carries unknown scopes.'')
      else if (case expv of None \<Rightarrow> True | Some e \<Rightarrow> e + tolerance \<le> now) then
        Inl (Token_error ''Beam token has expired.'' ''token_expired'')
      else if (case iatv of None \<Rightarrow> True | Some i \<Rightarrow> i - tolerance > now) then
        Inl (invalid_token ''Beam token was issued in the future.'')
      else if (case (expv, iatv) of (Some e, Some i) \<Rightarrow> e - i > MAX_TTL_SECONDS + tolerance | _ \<Rightarrow> False) then
        Inl (invalid_token ''Beam token lifetime exceeds the permitted maximum.'')
      else if (case (v_origin options, jget claims ''origin'') of
                 (Some w, Some got) \<Rightarrow> got \<noteq> JStr w | _ \<Rightarrow> False) then
        Inl (Token_error ''Beam token was issued for a different origin.'' ''origin_mismatch'')
      else Inr claims)"

definition verifyToken :: "hmac \<Rightarrow> verify_options \<Rightarrow> int \<Rightarrow> string \<Rightarrow> token_error + json" where
  "verifyToken hmac options now_ms token =
     (case assertUsableSecret (v_secret options) of
        Some e \<Rightarrow> Inl e
      | None \<Rightarrow>
          (case split_on (CHR ''.'') token of
             [p, payload, signature] \<Rightarrow>
               if p \<noteq> BWT_PREFIX then Inl (invalid_token ''Malformed Beam token.'')
               else
                 (let expected = sign hmac (v_secret options) payload in
                  if length expected \<noteq> length signature \<or> expected \<noteq> signature then
                    Inl (invalid_token ''Beam token signature is invalid.'')
                  else
                    (case parse_json (b64url_decode payload) of
                       None \<Rightarrow> Inl (invalid_token ''Beam token payload is not valid JSON.'')
                     | Some claims \<Rightarrow> check_claims options now_ms claims))
           | _ \<Rightarrow> Inl (invalid_token ''Malformed Beam token.'')))"

text \<open>The scopes a verified payload carries.\<close>

definition claim_scopes :: "json \<Rightarrow> json list" where
  "claim_scopes claims = coalesce (as_arr (jget claims ''scopes'')) []"

definition assertScopes :: "json \<Rightarrow> string list \<Rightarrow> token_error option" where
  "assertScopes claims required =
     (let missing = filter (\<lambda>s. JStr s \<notin> set (claim_scopes claims)) required in
      if missing = [] then None
      else Some (Token_error (''This session is missing the required scope(s): ''
        @ join_with '', '' missing @ ''.'') ''insufficient_scope''))"

subsection \<open>Lemmas\<close>

lemma assertUsableSecret_None [simp]: "assertUsableSecret s = None \<longleftrightarrow> 32 \<le> length s"
  by (simp add: assertUsableSecret_def)

lemma BEAM_SCOPES_isBeamScope [simp]: "isBeamScope (JStr s) \<longleftrightarrow> s \<in> set BEAM_SCOPES"
  by simp

lemma jget_claims [simp]:
  "jget (claims_json c) ''v'' = Some (JNum 1)"
  "jget (claims_json c) ''iss'' = Some (JStr (c_iss c))"
  "jget (claims_json c) ''aud'' = Some (JStr (c_aud c))"
  "jget (claims_json c) ''sub'' = map_option JStr (c_sub c)"
  "jget (claims_json c) ''org'' = map_option JStr (c_org c)"
  "jget (claims_json c) ''scopes'' = Some (JArr (map JStr (c_scopes c)))"
  "jget (claims_json c) ''iat'' = Some (JNum (c_iat c))"
  "jget (claims_json c) ''exp'' = Some (JNum (c_exp c))"
  "jget (claims_json c) ''origin'' = map_option JStr (c_origin c)"
  by (simp_all add: claims_json_def opt_member_def map_add_def split: option.split)

lemma claims_json_not_null [simp]: "claims_json c \<noteq> JNull"
  by (simp add: claims_json_def)

lemma prefix_no_dot [simp]: "CHR ''.'' \<notin> set BWT_PREFIX"
  by (simp add: BWT_PREFIX_def)

lemma split_token:
  assumes "CHR ''.'' \<notin> set payload" and "CHR ''.'' \<notin> set sig"
  shows "split_on (CHR ''.'') (BWT_PREFIX @ ''.'' @ payload @ ''.'' @ sig) = [BWT_PREFIX, payload, sig]"
  using assms by (simp add: js_simps)

lemma sign_no_dot [simp]: "CHR ''.'' \<notin> set (sign hmac secret payload)"
  by (simp add: sign_def b64url_encode_no_dot)

lemma verifyToken_signed:
  assumes "32 \<le> length (v_secret options)"
  shows "verifyToken hmac options now_ms
      (BWT_PREFIX @ ''.'' @ b64url_encode (stringify j) @ ''.''
        @ sign hmac (v_secret options) (b64url_encode (stringify j))) = check_claims options now_ms j"
proof -
  have "assertUsableSecret (v_secret options) = None" using assms by simp
  then show ?thesis
    by (simp only: verifyToken_def split_token [OF b64url_encode_no_dot sign_no_dot] option.case
        list.case Let_def b64url_round_trip parse_stringify simp_thms if_False)
qed

lemma mintToken_Inr:
  assumes "mintToken hmac jti now_ms options = Inr (token, claims, ttl)"
  shows "32 \<le> length (m_secret options)" "c_scopes claims = dedup (m_scopes options)"
    "c_scopes claims \<noteq> []" "set (c_scopes claims) \<subseteq> set BEAM_SCOPES"
    "15 \<le> ttl" "ttl \<le> 300" "c_iat claims = now_ms div 1000" "c_exp claims = c_iat claims + ttl"
    "c_aud claims = coalesce (m_audience options) ''beam-web-sdk''" "c_origin claims = m_origin options"
    "c_sub claims = m_subject options" "c_org claims = m_organizationId options"
    "token = BWT_PREFIX @ ''.'' @ b64url_encode (stringify (claims_json claims)) @ ''.''
        @ sign hmac (m_secret options) (b64url_encode (stringify (claims_json claims)))"
  using assms
  by (auto simp: mintToken_def Let_def filter_empty_conv MIN_TTL_SECONDS_def MAX_TTL_SECONDS_def
      split: option.splits if_splits)


subsection \<open>Properties\<close>

text \<open>
  A token is minted exactly for a secret of at least 32 characters, a non-empty list of known
  scopes and a lifetime of at least 15 seconds; then its lifetime is between 15 and 300 seconds
  whatever was asked for, it expires that long after it was issued, and it carries each requested
  scope once and no other.
\<close>

theorem mintToken_policy:
  "case mintToken hmac jti now_ms options of
     Inl e \<Rightarrow>
       length (m_secret options) < 32 \<or> m_scopes options = []
       \<or> (\<exists>s \<in> set (m_scopes options). s \<notin> set BEAM_SCOPES) \<or> coalesce (m_ttlSeconds options) 120 < 15
   | Inr (token, claims, ttl) \<Rightarrow>
       32 \<le> length (m_secret options) \<and> 15 \<le> ttl \<and> ttl \<le> 300
       \<and> ttl \<le> coalesce (m_ttlSeconds options) 120
       \<and> c_iat claims = now_ms div 1000 \<and> c_exp claims = c_iat claims + ttl
       \<and> c_scopes claims = dedup (m_scopes options) \<and> c_scopes claims \<noteq> []
       \<and> set (c_scopes claims) \<subseteq> set BEAM_SCOPES"
proof (cases "mintToken hmac jti now_ms options")
  case (Inl e)
  then show ?thesis
    by (cases "assertUsableSecret (m_secret options)")
      (auto simp: assertUsableSecret_def mintToken_def Let_def filter_empty_conv MIN_TTL_SECONDS_def
        MAX_TTL_SECONDS_def DEFAULT_TTL_SECONDS_def split: if_splits)
next
  case (Inr r)
  obtain token claims ttl where r: "r = (token, claims, ttl)" by (cases r) auto
  have "ttl \<le> coalesce (m_ttlSeconds options) 120"
    using Inr r by (auto simp: mintToken_def Let_def DEFAULT_TTL_SECONDS_def split: option.splits if_splits)
  with mintToken_Inr [OF Inr [unfolded r]] Inr r show ?thesis by simp
qed

text \<open>
  A minted token is accepted by a verifier with the same secret, at every moment from the minting
  (less the clock tolerance) until its expiry (plus the tolerance), when the audience and the origin
  it is checked against are those it was minted for or are not checked; the verifier returns exactly
  the claims that were minted. From its expiry plus the tolerance on it is refused as expired.
\<close>

theorem mint_verify_round_trip:
  assumes minted: "mintToken hmac jti now_ms options = Inr (token, claims, ttl)"
    and same: "v_secret vopts = m_secret options" "v_clockToleranceSeconds vopts = None"
    and aud: "v_audience vopts \<in> {None, Some (c_aud claims)}"
    and origin: "v_origin vopts = None \<or> c_origin claims = None \<or> v_origin vopts = c_origin claims"
    and after: "c_iat claims - 30 \<le> later_ms div 1000"
  shows "verifyToken hmac vopts later_ms token =
     (if later_ms div 1000 < c_exp claims + 30 then Inr (claims_json claims)
      else Inl (Token_error ''Beam token has expired.'' ''token_expired''))"
proof -
  note m = mintToken_Inr [OF minted]
  have "verifyToken hmac vopts later_ms token = check_claims vopts later_ms (claims_json claims)"
    unfolding m(13) using m(1) same(1) by (metis verifyToken_signed)
  moreover have "list_all isBeamScope (map JStr (c_scopes claims))"
    using m(4) by (auto simp: list_all_iff)
  ultimately show ?thesis
    using m(5-8) aud origin after same(2)
    by (auto simp: check_claims_def Let_def MAX_TTL_SECONDS_def split: option.splits)
qed

definition demo_mint :: mint_options where
  "demo_mint = \<lparr>m_secret = replicate 32 (CHR ''k''), m_issuer = None, m_audience = None,
     m_subject = Some ''user-1'', m_organizationId = None,
     m_scopes = [''room:read'', ''transfers:read''], m_ttlSeconds = None, m_origin = None\<rparr>"

definition demo_verify :: verify_options where
  "demo_verify = \<lparr>v_secret = replicate 32 (CHR ''k''), v_audience = None, v_origin = None,
     v_clockToleranceSeconds = None\<rparr>"

text \<open>A stand-in for the keyed hash in concrete runs.\<close>

definition demo_hmac :: hmac where
  "demo_hmac secret payload = take 8 (secret @ payload)"

lemma demo_minted: "\<exists>token claims. mintToken demo_hmac ''id'' 5000 demo_mint = Inr (token, claims, 120)
    \<and> c_iat claims = 5 \<and> c_exp claims = 125"
  by (simp add: mintToken_def demo_mint_def Let_def assertUsableSecret_def BEAM_SCOPES_def dedup_def
      DEFAULT_TTL_SECONDS_def MAX_TTL_SECONDS_def MIN_TTL_SECONDS_def)

theorem mint_verify_round_trip_witness:
  "\<exists>token claims. mintToken demo_hmac ''id'' 5000 demo_mint = Inr (token, claims, 120)
     \<and> verifyToken demo_hmac demo_verify 60000 token = Inr (claims_json claims)
     \<and> verifyToken demo_hmac demo_verify 155000 token
         = Inl (Token_error ''Beam token has expired.'' ''token_expired'')"
proof -
  obtain token claims where m: "mintToken demo_hmac ''id'' 5000 demo_mint = Inr (token, claims, 120)"
    and t: "c_iat claims = 5" "c_exp claims = 125"
    using demo_minted by blast
  have v: "v_secret demo_verify = m_secret demo_mint" "v_clockToleranceSeconds demo_verify = None"
    "v_audience demo_verify \<in> {None, Some (c_aud claims)}" "v_origin demo_verify = None"
    by (simp_all add: demo_verify_def demo_mint_def)
  show ?thesis
    using m t mint_verify_round_trip [OF m v(1,2,3), of 60000] v(4)
      mint_verify_round_trip [OF m v(1,2,3), of 155000]
    by simp
qed

text \<open>
  C39. Whatever bytes a caller sends, a token is accepted only if it is the prefix, a payload and the
  signature of that very payload under the broker's secret, and its claims are current: not expired
  beyond the tolerance, not issued in the future, not longer-lived than 300 seconds plus the
  tolerance, with known scopes only and the expected audience and origin.
\<close>

theorem verifyToken_sound:
  assumes "verifyToken hmac options now_ms token = Inr claims"
  shows "\<exists>payload scopes e i.
     token = BWT_PREFIX @ ''.'' @ payload @ ''.'' @ sign hmac (v_secret options) payload
     \<and> parse_json (b64url_decode payload) = Some claims \<and> 32 \<le> length (v_secret options)
     \<and> jget claims ''scopes'' = Some (JArr scopes) \<and> list_all isBeamScope scopes
     \<and> jget claims ''exp'' = Some (JNum e) \<and> jget claims ''iat'' = Some (JNum i)
     \<and> now_ms div 1000 < e + coalesce (v_clockToleranceSeconds options) 30
     \<and> i \<le> now_ms div 1000 + coalesce (v_clockToleranceSeconds options) 30
     \<and> e - i \<le> 300 + coalesce (v_clockToleranceSeconds options) 30
     \<and> (\<forall>a. v_audience options = Some a \<longrightarrow> jget claims ''aud'' = Some (JStr a))
     \<and> (\<forall>w. v_origin options = Some w \<longrightarrow> jget claims ''origin'' \<in> {None, Some (JStr w)})"
proof -
  obtain payload where sec: "32 \<le> length (v_secret options)"
    and sp: "split_on (CHR ''.'') token = [BWT_PREFIX, payload, sign hmac (v_secret options) payload]"
    and ps: "parse_json (b64url_decode payload) = Some claims"
    and ck: "check_claims options now_ms claims = Inr claims"
    using assms
    by (auto simp: verifyToken_def Let_def check_claims_def split: option.splits list.splits if_splits)
  have tok: "token = BWT_PREFIX @ ''.'' @ payload @ ''.'' @ sign hmac (v_secret options) payload"
    using join_split_on [of "CHR ''.''" token] by (simp add: sp)
  obtain e i scopes where c: "jget claims ''exp'' = Some (JNum e)" "jget claims ''iat'' = Some (JNum i)"
    "jget claims ''scopes'' = Some (JArr scopes)"
    using ck
    by (auto simp: check_claims_def Let_def split: if_splits option.splits elim!: as_num.elims as_arr.elims)
  from ck c have "list_all isBeamScope scopes"
     "now_ms div 1000 < e + coalesce (v_clockToleranceSeconds options) 30"
     "i \<le> now_ms div 1000 + coalesce (v_clockToleranceSeconds options) 30"
     "e - i \<le> 300 + coalesce (v_clockToleranceSeconds options) 30"
     "\<forall>a. v_audience options = Some a \<longrightarrow> jget claims ''aud'' = Some (JStr a)"
     "\<forall>w. v_origin options = Some w \<longrightarrow> jget claims ''origin'' \<in> {None, Some (JStr w)}"
    by (auto simp: check_claims_def Let_def MAX_TTL_SECONDS_def split: if_splits option.splits)
  with tok sec ps c show ?thesis by blast
qed

theorem verifyToken_sound_witness:
  "\<exists>token claims. verifyToken demo_hmac demo_verify 60000 token = Inr claims
     \<and> (\<exists>e. jget claims ''exp'' = Some (JNum e) \<and> 60 < e + 30)"
proof -
  obtain token claims where m: "mintToken demo_hmac ''id'' 5000 demo_mint = Inr (token, claims, 120)"
    and t: "c_iat claims = 5" "c_exp claims = 125"
    using demo_minted by blast
  have "v_secret demo_verify = m_secret demo_mint" "32 \<le> length (v_secret demo_verify)"
    by (simp_all add: demo_verify_def demo_mint_def)
  then have "verifyToken demo_hmac demo_verify 60000 token = check_claims demo_verify 60000 (claims_json claims)"
    unfolding mintToken_Inr(13) [OF m] by (metis verifyToken_signed)
  also have "\<dots> = Inr (claims_json claims)"
    using t mintToken_Inr(4) [OF m]
    by (auto simp: check_claims_def demo_verify_def list_all_iff MAX_TTL_SECONDS_def Let_def)
  finally have v: "verifyToken demo_hmac demo_verify 60000 token = Inr (claims_json claims)" .
  have tol: "coalesce (v_clockToleranceSeconds demo_verify) 30 = 30" by (simp add: demo_verify_def)
  have "\<exists>e. jget (claims_json claims) ''exp'' = Some (JNum e) \<and> 60 < e + 30"
    using verifyToken_sound [OF v] unfolding tol by auto
  with v show ?thesis by blast
qed

lemma assertScopes_None:
  "assertScopes claims required = None \<longleftrightarrow> (\<forall>s \<in> set required. JStr s \<in> set (claim_scopes claims))"
  by (auto simp: assertScopes_def Let_def filter_empty_conv)

end
