(* ===== verification/WebPlatform.thy ===== *)
theory WebPlatform
  imports Json Complex_Main
begin

text \<open>
  The parts of the web platform the TypeScript packages call: well-formed UTF-8, percent coding
  (\<open>encodeURIComponent\<close>, \<open>decodeURIComponent\<close>), header lookup, \<open>Number\<close> on decimal and hexadecimal
  text, \<open>String\<close> on JSON values and \<open>Date.prototype.toISOString\<close>. The result the clients and the
  broker share is that a percent-encoded segment contains no separator and decodes to itself.
\<close>

subsection \<open>UTF-8\<close>

definition cont_byte :: "char \<Rightarrow> bool" where
  "cont_byte c = (128 \<le> (of_char c :: nat) \<and> (of_char c :: nat) < 192)"

text \<open>Well-formed UTF-8: no overlong form, no surrogate, nothing above U+10FFFF.\<close>

fun utf8_ok :: "string \<Rightarrow> bool" where
  "utf8_ok [] = True"
| "utf8_ok (a # s) =
     (let n = of_char a :: nat in
      if n < 128 then utf8_ok s
      else if 194 \<le> n \<and> n < 224 then
        (case s of b # r \<Rightarrow> cont_byte b \<and> utf8_ok r | _ \<Rightarrow> False)
      else if 224 \<le> n \<and> n < 240 then
        (case s of
           b # c # r \<Rightarrow>
             cont_byte b \<and> cont_byte c \<and> (n = 224 \<longrightarrow> 160 \<le> (of_char b :: nat))
             \<and> (n = 237 \<longrightarrow> (of_char b :: nat) < 160) \<and> utf8_ok r
         | _ \<Rightarrow> False)
      else if 240 \<le> n \<and> n < 245 then
        (case s of
           b # c # d # r \<Rightarrow>
             cont_byte b \<and> cont_byte c \<and> cont_byte d \<and> (n = 240 \<longrightarrow> 144 \<le> (of_char b :: nat))
             \<and> (n = 244 \<longrightarrow> (of_char b :: nat) < 144) \<and> utf8_ok r
         | _ \<Rightarrow> False)
      else False)"

subsection \<open>Percent coding\<close>

definition unreserved :: "char \<Rightarrow> bool" where
  "unreserved c =
     (let n = of_char c :: nat in
      48 \<le> n \<and> n \<le> 57 \<or> 65 \<le> n \<and> n \<le> 90 \<or> 97 \<le> n \<and> n \<le> 122
      \<or> c \<in> set ''-_.!~*'' \<or> c = CHR 0x27 \<or> c = CHR ''('' \<or> c = CHR '')'')"

definition hex_upper :: "nat \<Rightarrow> char" where
  "hex_upper n = char_of (if n < 10 then 48 + n else 55 + n)"

definition percent_char :: "char \<Rightarrow> string" where
  "percent_char c =
     (if unreserved c then [c]
      else [CHR ''%'', hex_upper (of_char c div 16), hex_upper (of_char c mod 16)])"

definition encodeURIComponent :: "string \<Rightarrow> string" where
  "encodeURIComponent s = concat (map percent_char s)"

fun percent_decode :: "string \<Rightarrow> string option" where
  "percent_decode [] = Some []"
| "percent_decode (c # s) =
     (if c = CHR ''%'' then
        (case s of
           h # l # r \<Rightarrow>
             (case (hex_value h, hex_value l) of
                (Some x, Some y) \<Rightarrow> map_option (\<lambda>t. char_of (x * 16 + y) # t) (percent_decode r)
              | _ \<Rightarrow> None)
         | _ \<Rightarrow> None)
      else map_option (\<lambda>t. c # t) (percent_decode s))"

text \<open>\<^term>\<open>None\<close> is the thrown \<open>URIError\<close>: a malformed escape, or escapes that are not UTF-8.\<close>

definition decodeURIComponent :: "string \<Rightarrow> string option" where
  "decodeURIComponent s =
     (case percent_decode s of None \<Rightarrow> None | Some t \<Rightarrow> if utf8_ok t then Some t else None)"

lemma of_char_lt_256 [simp]: "(of_char (c :: char) :: nat) < 256"
  by simp

lemma hex_value_upper [simp]: "n < 16 \<Longrightarrow> hex_value (hex_upper n) = Some n"
  by (auto simp: hex_value_def hex_upper_def Let_def)

lemma percent_not_unreserved [simp]: "\<not> unreserved (CHR ''%'')" "\<not> unreserved (CHR ''/'')"
  by (simp_all add: unreserved_def)

lemma char_split: "char_of ((of_char (c :: char) :: nat) div 16 * 16 + of_char c mod 16) = c"
  by simp

lemma percent_decode_char: "percent_decode (percent_char c @ s) = map_option (\<lambda>t. c # t) (percent_decode s)"
proof (cases "unreserved c")
  case True
  then have "c \<noteq> CHR ''%''" by auto
  with True show ?thesis by (simp add: percent_char_def)
next
  case False
  have "(of_char c :: nat) div 16 < 16" by (rule less_mult_imp_div_less) simp
  with False show ?thesis by (simp add: percent_char_def char_split)
qed

lemma percent_round_trip: "percent_decode (encodeURIComponent s) = Some s"
  by (induction s) (simp_all add: encodeURIComponent_def percent_decode_char)

lemma decode_encode [js_simps]: "utf8_ok s \<Longrightarrow> decodeURIComponent (encodeURIComponent s) = Some s"
  by (simp add: decodeURIComponent_def percent_round_trip)

lemma hex_upper_not_slash [simp]: "n < 16 \<Longrightarrow> hex_upper n \<noteq> CHR ''/''"
proof
  assume "n < 16" and "hex_upper n = CHR ''/''"
  then have "hex_value (CHR ''/'') = Some n" by (metis hex_value_upper)
  then show False by (simp add: hex_value_def)
qed

lemma percent_char_no_slash: "CHR ''/'' \<notin> set (percent_char c)"
proof (cases "unreserved c")
  case True
  then show ?thesis by (auto simp: percent_char_def)
next
  case False
  have "(of_char c :: nat) div 16 < 16" by (rule less_mult_imp_div_less) simp
  with False show ?thesis
    by (simp add: percent_char_def hex_upper_not_slash [symmetric])
qed

lemma encode_no_slash [simp]: "CHR ''/'' \<notin> set (encodeURIComponent s)"
  using percent_char_no_slash by (auto simp: encodeURIComponent_def)

lemma percent_char_not_Nil [simp]: "percent_char c \<noteq> []"
  by (simp add: percent_char_def)

lemma encode_Nil_iff [simp]: "encodeURIComponent s = [] \<longleftrightarrow> s = []"
  by (cases s) (simp_all add: encodeURIComponent_def)

subsection \<open>Headers\<close>

type_synonym headers = "(string \<times> string) list"

text \<open>\<open>headers.get(name)\<close>: names compare without case.\<close>

definition header_get :: "headers \<Rightarrow> string \<Rightarrow> string option" where
  "header_get hs name = map_of (map (\<lambda>(k, v). (to_lower k, v)) hs) (to_lower name)"

text \<open>\<open>x || undefined\<close>: an empty string counts as absent.\<close>

definition truthy :: "string option \<Rightarrow> string option" where
  "truthy v = (case v of Some (c # s) \<Rightarrow> Some (c # s) | _ \<Rightarrow> None)"

lemma truthy_simps [simp]: "truthy None = None" "truthy (Some []) = None" "truthy (Some (c # s)) = Some (c # s)"
  by (simp_all add: truthy_def)

subsection \<open>Numbers and text\<close>

definition digits_value :: "nat \<Rightarrow> nat list \<Rightarrow> nat" where
  "digits_value base ds = foldl (\<lambda>acc d. acc * base + d) 0 ds"

definition all_digits :: "string \<Rightarrow> nat list option" where
  "all_digits s = those (map digit_val s)"

fun before_char :: "char set \<Rightarrow> string \<Rightarrow> string \<times> string option" where
  "before_char cs [] = ([], None)"
| "before_char cs (c # s) =
     (if c \<in> cs then ([], Some s) else (let (p, r) = before_char cs s in (c # p, r)))"

text \<open>An unsigned decimal literal with optional fraction and exponent.\<close>

definition unsigned_decimal :: "string \<Rightarrow> rat option" where
  "unsigned_decimal s =
     (let (mant, ex) = before_char {CHR ''e'', CHR ''E''} s;
          (ip, fp) = before_char {CHR ''.''} mant;
          frac = coalesce fp [];
          scale = (case ex of
             None \<Rightarrow> Some (1 :: rat)
           | Some e \<Rightarrow>
               (let (neg, ds) = (case e of c # r \<Rightarrow>
                      if c = CHR ''-'' then (True, r) else if c = CHR ''+'' then (False, r) else (False, e)
                    | [] \<Rightarrow> (False, [])) in
                case all_digits ds of
                  None \<Rightarrow> None
                | Some ks \<Rightarrow>
                    if ks = [] then None
                    else Some (if neg then 1 / 10 ^ digits_value 10 ks else 10 ^ digits_value 10 ks))) in
      case (all_digits ip, all_digits frac, scale) of
        (Some a, Some b, Some k) \<Rightarrow>
          if a = [] \<and> b = [] then None
          else Some (of_nat (digits_value 10 (a @ b)) / 10 ^ length b * k)
      | _ \<Rightarrow> None)"

text \<open>
  \<open>Number(text)\<close> when the result is finite: empty text is zero, \<open>0x\<close> literals are hexadecimal, and
  \<^term>\<open>None\<close> is \<open>NaN\<close> or an infinity. Binary and octal prefixes and rounding are outside the model.
\<close>

definition js_number :: "string \<Rightarrow> rat option" where
  "js_number text =
     (let s = trim text in
      case s of
        [] \<Rightarrow> Some 0
      | c # r \<Rightarrow>
          if c = CHR ''-'' then map_option uminus (unsigned_decimal r)
          else if c = CHR ''+'' then unsigned_decimal r
          else if c = CHR ''0'' \<and> r \<noteq> [] \<and> hd r \<in> {CHR ''x'', CHR ''X''} then
            (case those (map hex_value (tl r)) of
               None \<Rightarrow> None
             | Some ds \<Rightarrow> if ds = [] then None else Some (of_nat (digits_value 16 ds)))
          else unsigned_decimal s)"

text \<open>\<open>String(value)\<close> of a JSON value; arrays join their elements with commas, \<open>null\<close> inside as nothing.\<close>

fun js_string :: "json \<Rightarrow> string" where
  "js_string JNull = ''null''"
| "js_string (JBool b) = (if b then ''true'' else ''false'')"
| "js_string (JNum n) = show_int n"
| "js_string (JStr s) = s"
| "js_string (JArr xs) = join_with '','' (map (\<lambda>x. case x of JNull \<Rightarrow> [] | _ \<Rightarrow> js_string x) xs)"
| "js_string (JObj _) = ''[object Object]''"

subsection \<open>Dates\<close>

definition pad_start :: "nat \<Rightarrow> char \<Rightarrow> string \<Rightarrow> string" where
  "pad_start n c s = replicate (n - length s) c @ s"

definition pad0 :: "nat \<Rightarrow> int \<Rightarrow> string" where
  "pad0 n i = pad_start n (CHR ''0'') (show_nat (nat i))"

text \<open>
  Days since 1970-01-01 in the proleptic Gregorian calendar, with years that start in March: 400-year
  eras, centuries, leap cycles, years, days.
\<close>

definition year_parts :: "int \<Rightarrow> int \<times> int" where
  "year_parts doe =
     (let c = min 3 (doe div 36524); r = doe - c * 36524;
          q = r div 1461; s = r mod 1461; a = min 3 (s div 365) in
      (100 * c + 4 * q + a, s - a * 365))"

definition civil_of_days :: "int \<Rightarrow> int \<times> int \<times> int" where
  "civil_of_days days =
     (let z = days + 719468; era = z div 146097; (yoe, doy) = year_parts (z mod 146097);
          mp = (5 * doy + 2) div 153;
          d = doy - (153 * mp + 2) div 5 + 1;
          m = (if mp < 10 then mp + 3 else mp - 9) in
      (yoe + era * 400 + (if m \<le> 2 then 1 else 0), m, d))"

definition days_of_civil :: "int \<Rightarrow> int \<Rightarrow> int \<Rightarrow> int" where
  "days_of_civil y m d =
     (let y' = y - (if m \<le> 2 then 1 else 0); era = y' div 400; yoe = y' mod 400;
          mp = (if m > 2 then m - 3 else m + 9);
          doy = (153 * mp + 2) div 5 + d - 1 in
      era * 146097 + 365 * yoe + yoe div 4 - yoe div 100 + doy - 719468)"

definition toISOString :: "int \<Rightarrow> string" where
  "toISOString ms =
     (let (y, m, d) = civil_of_days (ms div 86400000);
          t = ms mod 86400000 in
      (if 0 \<le> y \<and> y \<le> 9999 then pad0 4 y
       else if y < 0 then ''-'' @ pad0 6 (- y) else ''+'' @ pad0 6 y)
      @ ''-'' @ pad0 2 m @ ''-'' @ pad0 2 d @ ''T'' @ pad0 2 (t div 3600000) @ '':''
      @ pad0 2 (t div 60000 mod 60) @ '':'' @ pad0 2 (t div 1000 mod 60) @ ''.'' @ pad0 3 (t mod 1000) @ ''Z'')"

text \<open>
  \<open>Date.parse\<close> on the date-time form with a time zone, \<open>YYYY-MM-DDTHH:MM:SS(.f+)?(Z|+hh:mm|-hh:mm)\<close>;
  digits of the fraction past the third are dropped. Every other text is \<^term>\<open>None\<close>, \<open>NaN\<close>.
\<close>

definition digits_n :: "nat \<Rightarrow> string \<Rightarrow> (int \<times> string) option" where
  "digits_n n s =
     (if n \<le> length s \<and> (\<forall>c \<in> set (take n s). digit_val c \<noteq> None)
      then Some (int (fst (read_digits 0 (take n s))), drop n s) else None)"

definition char_then :: "char \<Rightarrow> (int \<times> string) option \<Rightarrow> (int \<times> string) option" where
  "char_then c r = (case r of Some (n, d # s) \<Rightarrow> if d = c then Some (n, s) else None | _ \<Rightarrow> None)"

fun span_digits :: "string \<Rightarrow> string \<times> string" where
  "span_digits [] = ([], [])"
| "span_digits (c # s) =
     (if digit_val c \<noteq> None then (let (d, r) = span_digits s in (c # d, r)) else ([], c # s))"

definition fraction_ms :: "string \<Rightarrow> (int \<times> string) option" where
  "fraction_ms s =
     (case s of
        [] \<Rightarrow> Some (0, [])
      | c # r \<Rightarrow>
          if c = CHR ''.'' then
            (let (d, rest) = span_digits r in
             if d = [] then None else Some (int (fst (read_digits 0 (take 3 (d @ ''00'')))), rest))
          else Some (0, s))"

definition zone_ms :: "string \<Rightarrow> int option" where
  "zone_ms s =
     (case s of
        [] \<Rightarrow> None
      | c # r \<Rightarrow>
          if c = CHR ''Z'' then (if r = [] then Some 0 else None)
          else if c = CHR ''+'' \<or> c = CHR ''-'' then
            (case char_then (CHR '':'') (digits_n 2 r) of
               None \<Rightarrow> None
             | Some (h, r1) \<Rightarrow>
                 (case digits_n 2 r1 of
                    Some (m, []) \<Rightarrow>
                      if h \<le> 23 \<and> m \<le> 59 then Some ((if c = CHR ''-'' then -1 else 1) * (h * 60 + m) * 60000) else None
                  | _ \<Rightarrow> None))
          else None)"

definition date_parse :: "string \<Rightarrow> int option" where
  "date_parse s =
     (case char_then (CHR ''-'') (digits_n 4 s) of
        None \<Rightarrow> None
      | Some (y, s1) \<Rightarrow>
     (case char_then (CHR ''-'') (digits_n 2 s1) of
        None \<Rightarrow> None
      | Some (mo, s2) \<Rightarrow>
     (case char_then (CHR ''T'') (digits_n 2 s2) of
        None \<Rightarrow> None
      | Some (d, s3) \<Rightarrow>
     (case char_then (CHR '':'') (digits_n 2 s3) of
        None \<Rightarrow> None
      | Some (h, s4) \<Rightarrow>
     (case char_then (CHR '':'') (digits_n 2 s4) of
        None \<Rightarrow> None
      | Some (mi, s5) \<Rightarrow>
     (case digits_n 2 s5 of
        None \<Rightarrow> None
      | Some (sec, s6) \<Rightarrow>
     (case fraction_ms s6 of
        None \<Rightarrow> None
      | Some (ms, s7) \<Rightarrow>
     (case zone_ms s7 of
        None \<Rightarrow> None
      | Some off \<Rightarrow>
          if 1 \<le> mo \<and> mo \<le> 12 \<and> 1 \<le> d \<and> d \<le> 31 \<and> mi \<le> 59 \<and> sec \<le> 59
             \<and> (h \<le> 23 \<or> h = 24 \<and> mi = 0 \<and> sec = 0 \<and> ms = 0)
          then Some (days_of_civil y mo d * 86400000 + h * 3600000 + mi * 60000 + sec * 1000 + ms - off)
          else None))))))))"

subsection \<open>Printing and parsing a date\<close>

lemma year_parts_range:
  assumes "0 \<le> doe" and "doe < 146097" and "year_parts doe = (yoe, doy)"
  shows "0 \<le> yoe" "yoe < 400" "0 \<le> doy" "doy \<le> 365" "365 * yoe + yoe div 4 - yoe div 100 + doy = doe"
proof -
  define c where "c = min 3 (doe div 36524)"
  define r where "r = doe - c * 36524"
  define q where "q = r div 1461"
  define s where "s = r mod 1461"
  define a where "a = min 3 (s div 365)"
  have y: "yoe = 100 * c + 4 * q + a" "doy = s - a * 365"
    using assms(3) by (simp_all add: year_parts_def Let_def c_def r_def q_def s_def a_def)
  have "0 \<le> doe div 36524" using assms(1) by simp
  then have c: "0 \<le> c" "c \<le> 3" by (simp_all add: c_def)
  have r: "0 \<le> r" "r \<le> 36524"
    using assms(1,2) by (auto simp: r_def c_def min_def)
  have q: "0 \<le> q" "q \<le> 24" using r by (simp_all add: q_def)
  have s: "0 \<le> s" "s \<le> 1460" "r = 1461 * q + s"
    by (simp_all add: s_def q_def)
  have "0 \<le> s div 365" using s(1) by simp
  then have a: "0 \<le> a" "a \<le> 3" by (simp_all add: a_def)
  have sa: "0 \<le> s - a * 365" "s - a * 365 \<le> 365"
    using s by (auto simp: a_def min_def)
  show "0 \<le> yoe" "yoe < 400" using y c q a by simp_all
  show "0 \<le> doy" "doy \<le> 365" using y sa by simp_all
  have d4: "yoe div 4 = 25 * c + q" using a y(1) by simp
  have d100: "yoe div 100 = c" using a q y(1) by simp
  show "365 * yoe + yoe div 4 - yoe div 100 + doy = doe"
    unfolding d4 d100 using y s(3) r_def by simp
qed

lemma civil_of_days_inverse:
  assumes "civil_of_days n = (y, m, d)"
  shows "days_of_civil y m d = n" "1 \<le> m" "m \<le> 12" "1 \<le> d" "d \<le> 31"
proof -
  define z where "z = n + 719468"
  obtain yoe doy where p: "year_parts (z mod 146097) = (yoe, doy)" by fastforce
  have "0 \<le> z mod 146097" "z mod 146097 < 146097" by simp_all
  note yp = year_parts_range [OF this p]
  define mp where "mp = (5 * doy + 2) div 153"
  have mp: "0 \<le> mp" "mp \<le> 11" using yp(3,4) by (simp_all add: mp_def)
  have m: "m = (if mp < 10 then mp + 3 else mp - 9)" and d: "d = doy - (153 * mp + 2) div 5 + 1"
    and y: "y = yoe + z div 146097 * 400 + (if m \<le> 2 then 1 else 0)"
    using assms p by (auto simp add: civil_of_days_def Let_def z_def mp_def)
  show "1 \<le> m" "m \<le> 12" using mp by (simp_all add: m)
  have mpd: "153 * mp \<le> 5 * doy + 2" "5 * doy + 2 < 153 * mp + 153" by (simp_all add: mp_def)
  then show "1 \<le> d" "d \<le> 31" unfolding d by linarith+
  have mp_of: "(if m > 2 then m - 3 else m + 9) = mp" using mp by (simp add: m)
  have y': "y - (if m \<le> 2 then 1 else 0) = yoe + z div 146097 * 400" by (simp add: y)
  have "(yoe + z div 146097 * 400) div 400 = z div 146097" "(yoe + z div 146097 * 400) mod 400 = yoe"
    using yp(1,2) by simp_all
  then have "days_of_civil y m d = z div 146097 * 146097 + (365 * yoe + yoe div 4 - yoe div 100 + doy) - 719468"
    unfolding days_of_civil_def Let_def y' mp_of by (simp add: d)
  also have "\<dots> = n" unfolding yp(5) using z_def by (simp add: div_mult_mod_eq)
  finally show "days_of_civil y m d = n" .
qed

lemma length_show_nat: "k < 10 ^ n \<Longrightarrow> 0 < n \<Longrightarrow> length (show_nat k) \<le> n"
proof (induction n arbitrary: k)
  case (Suc n)
  show ?case
  proof (cases "k < 10")
    case True
    then show ?thesis by (simp add: show_nat.simps [of k])
  next
    case False
    then have "0 < n" using Suc.prems(1) by (cases n) simp_all
    moreover have "k div 10 < 10 ^ n" using Suc.prems(1) by (simp add: less_mult_imp_div_less mult.commute)
    ultimately have "length (show_nat (k div 10)) \<le> n" using Suc.IH by blast
    with False show ?thesis by (simp add: show_nat.simps [of k])
  qed
qed simp

lemma read_zeros: "read_digits acc (replicate k (CHR ''0'') @ s) = read_digits (acc * 10 ^ k) s"
  by (induction k arbitrary: acc) (simp_all add: digit_val_def algebra_simps)

lemma digits_n_pad:
  assumes "0 \<le> i" and "i < 10 ^ n" and "0 < n"
  shows "digits_n n (pad0 n i @ rest) = Some (i, rest)"
proof -
  have "nat i < 10 ^ n" using assms(1,2) by (simp add: nat_less_iff)
  then have len: "length (show_nat (nat i)) \<le> n" using assms(3) length_show_nat by blast
  then have l: "length (pad0 n i) = n" by (simp add: pad0_def pad_start_def)
  have "\<forall>c \<in> set (pad0 n i). digit_val c \<noteq> None"
    using show_nat_all_digits by (auto simp: pad0_def pad_start_def digit_val_def)
  moreover have "read_digits 0 (pad0 n i) = (nat i, [])"
    using read_show_nat [of "[]" "nat i"] by (simp add: pad0_def pad_start_def read_zeros no_digit_def)
  ultimately show ?thesis using l assms(1) by (simp add: digits_n_def)
qed

lemma char_then_hit [simp]: "char_then c (Some (n, c # s)) = Some (n, s)"
  by (simp add: char_then_def)

lemma span_digits_pad:
  assumes "\<forall>c \<in> set ds. digit_val c \<noteq> None" and "digit_val x = None"
  shows "span_digits (ds @ x # s) = (ds, x # s)"
  using assms by (induction ds) simp_all

lemma fraction_pad:
  assumes "0 \<le> i" and "i < 1000"
  shows "fraction_ms (CHR ''.'' # pad0 3 i @ ''Z'') = Some (i, ''Z'')"
proof -
  have dg: "digits_n 3 (pad0 3 i @ []) = Some (i, [])" using assms by (intro digits_n_pad) simp_all
  then have l: "3 \<le> length (pad0 3 i)" and v: "int (fst (read_digits 0 (take 3 (pad0 3 i)))) = i"
    and all: "\<forall>c \<in> set (take 3 (pad0 3 i)). digit_val c \<noteq> None" and "drop 3 (pad0 3 i) = []"
    by (auto simp: digits_n_def split: if_splits)
  then have t: "take 3 (pad0 3 i) = pad0 3 i" by simp
  have "span_digits (pad0 3 i @ ''Z'') = (pad0 3 i, ''Z'')"
    using all t by (intro span_digits_pad) (simp_all add: digit_val_def)
  moreover have "pad0 3 i \<noteq> []" using l by auto
  moreover have "take 3 (pad0 3 i @ ''00'') = pad0 3 i" using l t by simp
  ultimately show ?thesis using v t by (simp add: fraction_ms_def)
qed

text \<open>The times whose year has four digits.\<close>

definition four_digit_year :: "int \<Rightarrow> bool" where
  "four_digit_year ms = (case civil_of_days (ms div 86400000) of (y, _, _) \<Rightarrow> 0 \<le> y \<and> y \<le> 9999)"

lemma date_parse_toISOString [js_simps]:
  assumes "four_digit_year ms"
  shows "date_parse (toISOString ms) = Some ms"
proof -
  obtain y m d where c: "civil_of_days (ms div 86400000) = (y, m, d)" by (cases "civil_of_days (ms div 86400000)") auto
  note inv = civil_of_days_inverse [OF c]
  have y: "0 \<le> y" "y \<le> 9999" using assms c by (simp_all add: four_digit_year_def)
  define t where "t = ms mod 86400000"
  have t: "0 \<le> t" "t < 86400000" by (simp_all add: t_def)
  have iso: "toISOString ms = pad0 4 y @ CHR ''-'' # pad0 2 m @ CHR ''-'' # pad0 2 d @ CHR ''T''
      # pad0 2 (t div 3600000) @ CHR '':'' # pad0 2 (t div 60000 mod 60) @ CHR '':'' # pad0 2 (t div 1000 mod 60)
      @ CHR ''.'' # pad0 3 (t mod 1000) @ ''Z''"
    using y by (simp add: toISOString_def c t_def Let_def)
  have h: "0 \<le> t div 3600000" "t div 3600000 \<le> 23" using t by simp_all
  have parts: "t div 3600000 * 3600000 + t div 60000 mod 60 * 60000 + t div 1000 mod 60 * 1000 + t mod 1000 = t"
  proof -
    have "t div 60000 div 60 = t div 3600000" "t div 1000 div 60 = t div 60000"
      by (simp_all flip: zdiv_zmult2_eq)
    then show ?thesis
      using div_mult_mod_eq [of "t div 60000" 60] div_mult_mod_eq [of "t div 1000" 60] div_mult_mod_eq [of t 1000]
      by linarith
  qed
  have total: "ms div 86400000 * 86400000 + t = ms" by (simp add: t_def)
  have f: "char_then c (digits_n 4 (pad0 4 y @ c # r)) = Some (y, r)"
    "char_then c (digits_n 2 (pad0 2 m @ c # r)) = Some (m, r)"
    "char_then c (digits_n 2 (pad0 2 d @ c # r)) = Some (d, r)"
    "char_then c (digits_n 2 (pad0 2 (t div 3600000) @ c # r)) = Some (t div 3600000, r)"
    "char_then c (digits_n 2 (pad0 2 (t div 60000 mod 60) @ c # r)) = Some (t div 60000 mod 60, r)"
    "digits_n 2 (pad0 2 (t div 1000 mod 60) @ r) = Some (t div 1000 mod 60, r)" for r c
    using y inv h by (simp_all add: digits_n_pad)
  have frac: "fraction_ms (CHR ''.'' # pad0 3 (t mod 1000) @ ''Z'') = Some (t mod 1000, ''Z'')"
    by (rule fraction_pad) simp_all
  have mm: "t div 60000 mod 60 \<le> 59" "t div 1000 mod 60 \<le> 59"
    using pos_mod_bound [of 60 "t div 60000"] pos_mod_bound [of 60 "t div 1000"] by linarith+
  have z: "zone_ms ''Z'' = Some 0" by (simp add: zone_ms_def)
  have ok: "1 \<le> m \<and> m \<le> 12 \<and> 1 \<le> d \<and> d \<le> 31 \<and> t div 60000 mod 60 \<le> 59 \<and> t div 1000 mod 60 \<le> 59
      \<and> (t div 3600000 \<le> 23 \<or> t div 3600000 = 24 \<and> t div 60000 mod 60 = 0 \<and> t div 1000 mod 60 = 0 \<and> t mod 1000 = 0)"
    using inv h mm by blast
  have "date_parse (toISOString ms) = Some (days_of_civil y m d * 86400000 + t div 3600000 * 3600000
      + t div 60000 mod 60 * 60000 + t div 1000 mod 60 * 1000 + t mod 1000 - 0)"
    unfolding iso date_parse_def f frac z option.case prod.case if_P [OF ok] by (rule refl)
  moreover have "days_of_civil y m d * 86400000 + t div 3600000 * 3600000
      + t div 60000 mod 60 * 60000 + t div 1000 mod 60 * 1000 + t mod 1000 - 0 = ms"
    unfolding inv(1) using parts total by linarith
  ultimately show ?thesis by (rule trans [OF _ arg_cong])
qed

end
