(* ===== verification/AuthProvider.thy ===== *)
theory AuthProvider
  imports WebToken WebPlatform BeamErrors "HOL-Library.Multiset"
begin

text \<open>
  The browser's side of access tokens: reading claims and expiry out of a token
  (\<open>packages/web-sdk/src/core/auth/token.ts\<close>), the minters over \<open>fetch\<close> and the caching provider
  (\<open>core/auth/provider.ts\<close>). The provider is a state machine: a call to \<open>getToken\<close>, the settling of
  the mint, the clearing of the shared promise and an invalidation are events that may come in any
  order. A number is a rational, and \<^term>\<open>None\<close> is \<open>NaN\<close>.
\<close>

subsection \<open>Decoding\<close>

text \<open>\<open>Number(value)\<close> as arithmetic applies it to a JSON value.\<close>

definition to_number :: "json \<Rightarrow> rat option" where
  "to_number j =
     (case j of
        JNull \<Rightarrow> Some 0
      | JBool b \<Rightarrow> Some (if b then 1 else 0)
      | JNum n \<Rightarrow> Some (of_int n)
      | JStr s \<Rightarrow> js_number s
      | JArr _ \<Rightarrow> js_number (js_string j)
      | JObj _ \<Rightarrow> None)"

definition standard_char :: "char \<Rightarrow> char" where
  "standard_char c = (if c = CHR ''-'' then CHR ''+'' else if c = CHR ''_'' then CHR ''/'' else c)"

definition base64UrlDecode :: "string \<Rightarrow> string option" where
  "base64UrlDecode value =
     (let padded = map standard_char value in
      atob (padded @ replicate ((4 - length padded mod 4) mod 4) (CHR ''='')))"

text \<open>The characters of a binary string are code points; here they become UTF-8.\<close>

definition latin1 :: "string \<Rightarrow> string" where
  "latin1 s = concat (map (\<lambda>c. if (of_char c :: nat) < 128 then [c]
     else [char_of (192 + of_char c div 64 :: nat), char_of (128 + of_char c mod 64 :: nat)]) s)"

definition decodeTokenClaims :: "string \<Rightarrow> json option" where
  "decodeTokenClaims token =
     (case split_on (CHR ''.'') token of
        [_, payload, _] \<Rightarrow>
          (case base64UrlDecode payload of
             None \<Rightarrow> None
           | Some s \<Rightarrow>
               (case parse_json (latin1 s) of
                  None \<Rightarrow> None
                | Some decoded \<Rightarrow> if is_object decoded then Some decoded else None))
      | _ \<Rightarrow> None)"

definition FALLBACK_TTL_SECONDS :: rat where "FALLBACK_TTL_SECONDS = 120"

record beam_token =
  bt_value :: string
  bt_expiresAt :: "rat option"
  bt_scopes :: json
  bt_endpoint :: "json option"

text \<open>\<open>v ?? undefined\<close>: \<open>null\<close> counts as absent.\<close>

definition not_null :: "json option \<Rightarrow> json option" where
  "not_null v = (case v of Some JNull \<Rightarrow> None | _ \<Rightarrow> v)"

definition claim_of :: "json option \<Rightarrow> string \<Rightarrow> json option" where
  "claim_of claims k = (case claims of None \<Rightarrow> None | Some c \<Rightarrow> jget c k)"

text \<open>The response is the parsed body; its token is known to be a string.\<close>

definition normalizeTokenResponse :: "string \<Rightarrow> json \<Rightarrow> rat \<Rightarrow> beam_token" where
  "normalizeTokenResponse value response now =
     (let claims = decodeTokenClaims value;
          expiresAt =
            (case claim_of claims ''exp'' of
               Some e \<Rightarrow> map_option (\<lambda>x. x * 1000) (to_number e)
             | None \<Rightarrow>
                 (case jget response ''expires_in'' of
                    Some e \<Rightarrow> map_option (\<lambda>x. now + x * 1000) (to_number e)
                  | None \<Rightarrow> Some (now + FALLBACK_TTL_SECONDS * 1000))) in
      \<lparr>bt_value = value, bt_expiresAt = expiresAt,
       bt_scopes = coalesce (or_else (not_null (jget response ''scopes'')) (not_null (claim_of claims ''scopes''))) (JArr []),
       bt_endpoint = or_else (not_null (jget response ''endpoint'')) (claim_of claims ''endpoint'')\<rparr>)"

definition REFRESH_AT_FRACTION :: rat where "REFRESH_AT_FRACTION = 3 / 4"
definition MIN_REFRESH_MARGIN_MS :: rat where "MIN_REFRESH_MARGIN_MS = 5000"

text \<open>Every comparison with \<open>NaN\<close> is false.\<close>

definition isTokenUsable :: "beam_token \<Rightarrow> rat \<Rightarrow> bool" where
  "isTokenUsable token now =
     (case bt_expiresAt token of None \<Rightarrow> True | Some e \<Rightarrow> \<not> e - now \<le> MIN_REFRESH_MARGIN_MS)"

definition isTokenStale :: "beam_token \<Rightarrow> rat \<Rightarrow> rat \<Rightarrow> bool" where
  "isTokenStale token now issuedAt =
     (case bt_expiresAt token of
        None \<Rightarrow> \<not> isTokenUsable token now
      | Some e \<Rightarrow>
          (let totalMs = e - issuedAt in
           totalMs \<le> 0 \<or> now - issuedAt \<ge> totalMs * REFRESH_AT_FRACTION \<or> \<not> isTokenUsable token now))"

subsection \<open>The caching provider\<close>

text \<open>
  The shared promise is idle, waiting for the mint, or settled but not yet cleared by its \<open>finally\<close>;
  the waiters are the callers that hold it.
\<close>

datatype flight = Idle | Minting | Settling "thrown + beam_token"

record provider =
  p_token :: "beam_token option"
  p_issuedAt :: rat
  p_inFlight :: flight
  p_waiters :: "nat list"

definition new_provider :: provider where
  "new_provider = \<lparr>p_token = None, p_issuedAt = 0, p_inFlight = Idle, p_waiters = []\<rparr>"

datatype provider_event =
  Get nat rat | Mint_settled "thrown + json" rat | Clear | Invalidate

datatype provider_output = Start_mint | Gave nat beam_token | Answered "nat list" "thrown + beam_token"

definition invalidate :: "provider \<Rightarrow> provider" where
  "invalidate p = p\<lparr>p_token := None, p_issuedAt := 0\<rparr>"

text \<open>What \<open>#refresh\<close> makes of the mint's outcome.\<close>

definition refresh_result :: "thrown + json \<Rightarrow> rat \<Rightarrow> thrown + beam_token" where
  "refresh_result r now =
     (case r of
        Inl e \<Rightarrow> Inl e
      | Inr response \<Rightarrow>
          (case as_str (jget response ''access_token'') of
             Some (c # cs) \<Rightarrow>
               (let token = normalizeTokenResponse (c # cs) response now in
                if \<not> isTokenUsable token now then
                  Inl (Beam (auth_error
                    ''The token endpoint returned an already-expired token. Check server clock skew.'' None None None None))
                else Inr token)
           | _ \<Rightarrow> Inl (Beam (auth_error ''The token endpoint did not return an access_token.'' None None None None))))"

definition getToken :: "nat \<Rightarrow> rat \<Rightarrow> provider \<Rightarrow> provider \<times> provider_output list" where
  "getToken caller now p =
     (case p_token p of
        Some current \<Rightarrow>
          if \<not> isTokenStale current now (p_issuedAt p) then (p, [Gave caller current])
          else if p_inFlight p \<noteq> Idle then
            (if isTokenUsable current now then (p, [Gave caller current])
             else (p\<lparr>p_waiters := p_waiters p @ [caller]\<rparr>, []))
          else (p\<lparr>p_inFlight := Minting, p_waiters := [caller]\<rparr>, [Start_mint])
      | None \<Rightarrow>
          if p_inFlight p \<noteq> Idle then (p\<lparr>p_waiters := p_waiters p @ [caller]\<rparr>, [])
          else (p\<lparr>p_inFlight := Minting, p_waiters := [caller]\<rparr>, [Start_mint]))"

definition mint_settles :: "thrown + json \<Rightarrow> rat \<Rightarrow> provider \<Rightarrow> provider" where
  "mint_settles r now p =
     (case refresh_result r now of
        Inl e \<Rightarrow> p\<lparr>p_inFlight := Settling (Inl e)\<rparr>
      | Inr token \<Rightarrow> p\<lparr>p_token := Some token, p_issuedAt := now, p_inFlight := Settling (Inr token)\<rparr>)"

fun provider_step :: "provider_event \<Rightarrow> provider \<Rightarrow> provider \<times> provider_output list" where
  "provider_step (Get caller now) p = getToken caller now p"
| "provider_step (Mint_settled r now) p = (if p_inFlight p = Minting then (mint_settles r now p, []) else (p, []))"
| "provider_step Clear p =
     (case p_inFlight p of
        Settling r \<Rightarrow> (p\<lparr>p_inFlight := Idle, p_waiters := []\<rparr>, [Answered (p_waiters p) r])
      | _ \<Rightarrow> (p, []))"
| "provider_step Invalidate p = (invalidate p, [])"

fun provider_run :: "provider \<Rightarrow> provider_event list \<Rightarrow> provider \<times> (provider_event \<times> provider_output list) list" where
  "provider_run p [] = (p, [])"
| "provider_run p (e # es) =
     (let (p1, outs) = provider_step e p; (p2, tr) = provider_run p1 es in (p2, (e, outs) # tr))"

subsection \<open>Minters\<close>

record http_response =
  hr_status :: int
  hr_statusText :: string
  hr_headers :: headers
  hr_text :: "string option"

record fetch_init =
  fi_method :: string
  fi_headers :: headers
  fi_body :: "string option"
  fi_credentials :: "string option"

text \<open>\<open>fetch\<close> rejects (left) or answers.\<close>

type_synonym 'w fetch = "string \<Rightarrow> fetch_init \<Rightarrow> 'w \<Rightarrow> (thrown + http_response) \<times> 'w"

definition response_ok :: "http_response \<Rightarrow> bool" where
  "response_ok r = (200 \<le> hr_status r \<and> hr_status r \<le> 299)"

text \<open>\<open>{ ...a, ...b }\<close> on association lists.\<close>

definition spread :: "('k \<times> 'v) list \<Rightarrow> ('k \<times> 'v) list \<Rightarrow> ('k \<times> 'v) list" where
  "spread a b = fold (\<lambda>(k, v). amap_set k v) b a"

record http_mint_options =
  hm_body :: "(string \<times> json) list option"
  hm_headers :: headers
  hm_credentials :: "string option"

definition readErrorDetail :: "http_response \<Rightarrow> string" where
  "readErrorDetail r =
     (case hr_text r of
        None \<Rightarrow> hr_statusText r
      | Some body \<Rightarrow>
          if body = [] then hr_statusText r
          else (case parse_json body of
                  Some parsed \<Rightarrow>
                    (case or_else (not_null (jget parsed ''error_description''))
                        (or_else (not_null (jget parsed ''error'')) (not_null (jget parsed ''message''))) of
                       Some (JStr m) \<Rightarrow> m
                     | _ \<Rightarrow> take 200 body)
                | None \<Rightarrow> take 200 body))"

definition requestToken ::
  "'w fetch \<Rightarrow> string \<Rightarrow> http_mint_options \<Rightarrow> 'w \<Rightarrow> (thrown + json) \<times> 'w" where
  "requestToken fetch url options w =
     (case fetch url
         \<lparr>fi_method = ''POST'',
          fi_headers = spread [(''content-type'', ''application/json''), (''accept'', ''application/json'')] (hm_headers options),
          fi_body = Some (stringify (JObj (coalesce (hm_body options) []))),
          fi_credentials = Some (coalesce (hm_credentials options) ''same-origin'')\<rparr> w of
        (Inl e, w') \<Rightarrow> (Inl (Beam (network_error (''Could not reach the Beam token endpoint at '' @ url @ ''.''))), w')
      | (Inr r, w') \<Rightarrow>
          if \<not> response_ok r then
            (Inl (Beam (auth_error
               (''Token request failed ('' @ show_int (hr_status r) @ ''): '' @ readErrorDetail r)
               (Some Auth_failed) (Some (hr_status r)) None (Some (hr_status r \<ge> 500 \<or> hr_status r = 429)))), w')
          else (case (case hr_text r of None \<Rightarrow> None | Some t \<Rightarrow> parse_json t) of
                  None \<Rightarrow> (Inl (Beam (auth_error ''The token endpoint returned a body that is not JSON.'' None None None None)), w')
                | Some j \<Rightarrow> (Inr j, w')))"

definition scope_member :: "string list option \<Rightarrow> (string \<times> json) list" where
  "scope_member scopes = (case scopes of None \<Rightarrow> [] | Some ss \<Rightarrow> [(''scopes'', JArr (map JStr ss))])"

definition brokerMinter ::
  "'w fetch \<Rightarrow> string \<Rightarrow> http_mint_options \<Rightarrow> string list option \<Rightarrow> 'w \<Rightarrow> (thrown + json) \<times> 'w" where
  "brokerMinter fetch url options scopes =
     requestToken fetch url (options
       \<lparr>hm_credentials := Some (coalesce (hm_credentials options) ''same-origin''),
        hm_body := Some (spread (scope_member scopes) (coalesce (hm_body options) []))\<rparr>)"

definition ellipsis :: string where
  "ellipsis = [CHR 0xE2, CHR 0x80, CHR 0xA6]"

definition clientKeyMinter ::
  "'w fetch \<Rightarrow> string \<Rightarrow> string \<Rightarrow> http_mint_options \<Rightarrow> string list option \<Rightarrow> string option
    \<Rightarrow> beam_error + ('w \<Rightarrow> (thrown + json) \<times> 'w)" where
  "clientKeyMinter fetch url clientKey options scopes subject =
     (if \<not> starts_with ''bm_pub_'' clientKey then
        Inl (config_error (''clientKey must be a publishable key beginning with \"bm_pub_\". ''
          @ ''Secret keys (bm_live_'' @ ellipsis @ '', b1m_'' @ ellipsis @ '') grant credit-spending access and must never appear in browser code.''))
      else Inr (requestToken fetch url (options
        \<lparr>hm_credentials := Some ''omit'',
         hm_body := Some (spread
           ((''client_key'', JStr clientKey) # scope_member scopes @ opt_member ''subject'' subject)
           (coalesce (hm_body options) []))\<rparr>)))"

definition callbackMinter :: "('w \<Rightarrow> (thrown + json) \<times> 'w) \<Rightarrow> 'w \<Rightarrow> (thrown + json) \<times> 'w" where
  "callbackMinter get w =
     (case get w of
        (Inr (JStr s), w') \<Rightarrow> (Inr (JObj [(''access_token'', JStr s)]), w')
      | r \<Rightarrow> r)"

subsection \<open>Reading a token the server minted\<close>

lemma replicate_pads [simp]: "replicate (Suc 0) c = [c]" "replicate 2 c = [c, c]"
  by (simp_all add: numeral_2_eq_2)

lemma atob_strip_pad:
  assumes "CHR ''='' \<notin> set s" and "length s mod 4 \<noteq> 1"
  shows "atob_strip (s @ replicate ((4 - length s mod 4) mod 4) (CHR ''='')) = s"
proof -
  have "length s mod 4 < 4" by simp
  then consider "length s mod 4 = 0" | "length s mod 4 = 2" | "length s mod 4 = 3"
    using assms(2) by linarith
  then show ?thesis
  proof cases
    case 1
    have "set (drop k s) \<subseteq> set s" for k by (rule set_drop_subset)
    then have "drop (length s - 2) s \<noteq> ''==''" "drop (length s - 1) s \<noteq> ''=''"
      using assms(1) by (metis list.set_intros(1) subsetD)+
    with 1 show ?thesis by (simp add: atob_strip_def)
  next
    case 2
    then have "(length s + 2) mod 4 = 0" by presburger
    with 2 show ?thesis by (simp add: atob_strip_def)
  next
    case 3
    have len: "(length s + 1) mod 4 = 0" "0 < length s"
      using 3 by (presburger, cases s) auto
    have "drop (length s - 1) (s @ ''='') = [last s, CHR ''='']"
      using len(2) by (simp add: drop_append) (metis append_butlast_last_id append_eq_conv_conj length_butlast length_greater_0_conv One_nat_def)
    moreover have "last s \<noteq> CHR ''=''" using assms(1) len(2) last_in_set by fastforce
    ultimately show ?thesis using 3 len by (simp add: atob_strip_def)
  qed
qed

lemma standard_b64:
  assumes "n < 64"
  shows "atob_value (standard_char (b64_char n)) = Some n" "\<not> is_space (standard_char (b64_char n))"
    "standard_char (b64_char n) \<noteq> CHR ''=''"
proof -
  have v: "b64_value (b64_char n) = Some n" by (rule b64_char_value [OF assms])
  have "n = 62" if "b64_char n = CHR ''-''" using v that by (simp add: b64_value_def)
  moreover have "n = 63" if "b64_char n = CHR ''_''" using v that by (simp add: b64_value_def)
  ultimately show "atob_value (standard_char (b64_char n)) = Some n"
    using v by (auto simp: atob_value_def standard_char_def b64_value_def)
  have "\<not> is_space (b64_char n)" using v b64_value_not_space by simp
  then show "\<not> is_space (standard_char (b64_char n))" by (simp add: standard_char_def is_space_def)
  show "standard_char (b64_char n) \<noteq> CHR ''=''"
    using b64_char_value(2) [OF assms] by (simp add: standard_char_def)
qed

lemma length_sextets: "length (sextets s) mod 4 \<noteq> 1"
  by (induction s rule: sextets.induct) simp_all

lemma base64UrlDecode_encode: "base64UrlDecode (b64url_encode s) = Some s"
proof -
  let ?e = "map standard_char (b64url_encode s)"
  have e: "?e = map (\<lambda>n. standard_char (b64_char n)) (sextets s)" by (simp add: b64url_encode_def)
  have no: "CHR ''='' \<notin> set ?e" "\<forall>c \<in> set ?e. \<not> is_space c"
    unfolding e using standard_b64(2,3) [OF sextets_bound] by (auto simp: image_iff) metis
  have len: "length ?e mod 4 \<noteq> 1" using length_sextets [of s] by (simp add: b64url_encode_def)
  have "filter (\<lambda>c. \<not> is_space c \<or> c = CHR 0x0B) (?e @ replicate k (CHR ''='')) = ?e @ replicate k (CHR ''='')" for k
    using no(2) by (auto simp: filter_id_conv is_space_def)
  moreover have "List.map_filter atob_value ?e = sextets s"
  proof -
    have "List.map_filter atob_value (map (\<lambda>n. standard_char (b64_char n)) ns) = ns" if "\<forall>n \<in> set ns. n < 64" for ns
      using that by (induction ns) (simp_all add: standard_b64)
    then show ?thesis unfolding e using sextets_bound by blast
  qed
  moreover have "\<forall>c \<in> set ?e. atob_value c \<noteq> None"
    unfolding e using standard_b64(1) [OF sextets_bound] by auto
  ultimately show ?thesis
    using atob_strip_pad [OF no(1) len] len
    by (auto simp: base64UrlDecode_def atob_def Let_def unsextets_sextets simp del: length_map map_map)
qed

definition ascii :: "string \<Rightarrow> bool" where
  "ascii s = (\<forall>c \<in> set s. (of_char c :: nat) < 128)"

lemma latin1_ascii: "ascii s \<Longrightarrow> latin1 s = s"
  by (induction s) (auto simp: latin1_def ascii_def)

lemma decode_minted:
  assumes "mintToken hmac jti now_ms options = Inr (token, claims, ttl)" and "ascii (stringify (claims_json claims))"
  shows "decodeTokenClaims token = Some (claims_json claims)"
proof -
  note m = mintToken_Inr(13) [OF assms(1)]
  have "split_on (CHR ''.'') token = [BWT_PREFIX, b64url_encode (stringify (claims_json claims)),
      sign hmac (m_secret options) (b64url_encode (stringify (claims_json claims)))]"
    unfolding m by (rule split_token [OF b64url_encode_no_dot sign_no_dot])
  moreover have "is_object (claims_json claims)" by (simp add: claims_json_def)
  ultimately show ?thesis
    by (simp add: decodeTokenClaims_def base64UrlDecode_encode latin1_ascii [OF assms(2)] parse_stringify)
qed

text \<open>
  The browser reads from a token what the server put into it: for a minted token whose claims are
  ASCII text, the decoded claims are the minted claims, and the normalized token expires exactly at the
  minted expiry, whatever the response or the browser's clock say, and carries the minted scopes when
  the response lists none.
\<close>

theorem browser_reads_minted_token:
  assumes "mintToken hmac jti now_ms options = Inr (token, claims, ttl)" and "ascii (stringify (claims_json claims))"
  shows "decodeTokenClaims token = Some (claims_json claims)
    \<and> bt_expiresAt (normalizeTokenResponse token response now) = Some (of_int (c_exp claims) * 1000)
    \<and> (not_null (jget response ''scopes'') = None \<longrightarrow>
         bt_scopes (normalizeTokenResponse token response now) = JArr (map JStr (c_scopes claims)))"
  using decode_minted [OF assms]
  by (simp add: normalizeTokenResponse_def claim_of_def to_number_def not_null_def Let_def)

definition bare_claims :: mint_options where
  "bare_claims = \<lparr>m_secret = replicate 32 (CHR ''k''), m_issuer = None, m_audience = None, m_subject = None,
     m_organizationId = None, m_scopes = [''room:read''], m_ttlSeconds = None, m_origin = None\<rparr>"

lemma ascii_append [simp]: "ascii (s @ t) \<longleftrightarrow> ascii s \<and> ascii t"
  by (auto simp: ascii_def)

lemma bare_minted:
  "\<exists>token claims. mintToken demo_hmac ''id'' 5000 bare_claims = Inr (token, claims, 120)
    \<and> c_exp claims = 125 \<and> c_scopes claims = [''room:read''] \<and> ascii (stringify (claims_json claims))"
proof -
  have "ascii (stringify (claims_json \<lparr>c_iss = ''beam-web-sdk-server'', c_aud = ''beam-web-sdk'', c_sub = None,
      c_org = None, c_scopes = [''room:read''], c_iat = 5, c_exp = 125, c_jti = ''id'', c_origin = None\<rparr>))"
    by code_simp
  then show ?thesis
    by (simp add: mintToken_def bare_claims_def Let_def assertUsableSecret_def BEAM_SCOPES_def dedup_def
        DEFAULT_TTL_SECONDS_def MAX_TTL_SECONDS_def MIN_TTL_SECONDS_def)
qed

theorem browser_reads_minted_token_witness:
  "\<exists>token claims. mintToken demo_hmac ''id'' 5000 bare_claims = Inr (token, claims, 120)
     \<and> decodeTokenClaims token = Some (claims_json claims)
     \<and> bt_expiresAt (normalizeTokenResponse token (JObj []) 9000) = Some 125000"
proof -
  obtain token claims where m: "mintToken demo_hmac ''id'' 5000 bare_claims = Inr (token, claims, 120)"
    and c: "c_exp claims = 125" "ascii (stringify (claims_json claims))" using bare_minted by blast
  from browser_reads_minted_token [OF m c(2), of "JObj []" 9000] m c(1) show ?thesis by auto
qed

subsection \<open>One mint at a time, and nobody left waiting\<close>

text \<open>What a trace did: mints started, flights that ended, callers that asked and callers served.\<close>

definition all_outputs :: "(provider_event \<times> provider_output list) list \<Rightarrow> provider_output list" where
  "all_outputs tr = concat (map snd tr)"

definition starts :: "provider_output list \<Rightarrow> nat" where
  "starts outs = length (filter (\<lambda>x. x = Start_mint) outs)"

fun is_answer :: "provider_output \<Rightarrow> bool" where
  "is_answer (Answered _ _) = True"
| "is_answer _ = False"

definition answers :: "provider_output list \<Rightarrow> nat" where
  "answers outs = length (filter is_answer outs)"

fun served :: "provider_output \<Rightarrow> nat list" where
  "served (Gave c _) = [c]"
| "served (Answered cs _) = cs"
| "served Start_mint = []"

fun asker :: "provider_event \<Rightarrow> nat list" where
  "asker (Get c _) = [c]"
| "asker _ = []"

definition served_all :: "provider_output list \<Rightarrow> nat multiset" where
  "served_all outs = mset (concat (map served outs))"

definition asked_all :: "provider_event list \<Rightarrow> nat multiset" where
  "asked_all es = mset (concat (map asker es))"

definition flying :: "provider \<Rightarrow> nat" where
  "flying p = (if p_inFlight p = Idle then 0 else 1)"

text \<open>While the shared promise is idle nobody waits.\<close>

definition provider_ok :: "provider \<Rightarrow> bool" where
  "provider_ok p \<longleftrightarrow> (p_inFlight p = Idle \<longrightarrow> p_waiters p = [])"

lemma mint_settles_simps [simp]:
  "p_waiters (mint_settles r now p) = p_waiters p" "p_inFlight (mint_settles r now p) \<noteq> Idle"
  by (simp_all add: mint_settles_def split: sum.split)

lemma provider_step_balance:
  assumes "provider_ok p" and "provider_step e p = (p', outs)"
  shows "provider_ok p'" "flying p + starts outs = answers outs + flying p'"
    "mset (p_waiters p) + mset (asker e) = served_all outs + mset (p_waiters p')"
  using assms
  by (cases e; simp add: provider_ok_def getToken_def flying_def starts_def answers_def served_all_def invalidate_def
        split: option.splits if_splits flight.splits; fastforce)+

lemma provider_run_balance:
  assumes "provider_ok p" and "provider_run p es = (p', tr)"
  shows "provider_ok p' \<and> flying p + starts (all_outputs tr) = answers (all_outputs tr) + flying p'
    \<and> mset (p_waiters p) + asked_all es = served_all (all_outputs tr) + mset (p_waiters p')"
  using assms
proof (induction es arbitrary: p tr)
  case Nil
  then show ?case by (simp add: all_outputs_def starts_def answers_def asked_all_def served_all_def)
next
  case (Cons e es)
  obtain p1 outs where s: "provider_step e p = (p1, outs)" by (cases "provider_step e p")
  obtain tr2 where r: "provider_run p1 es = (p', tr2)" and tr: "tr = (e, outs) # tr2"
    using Cons.prems(2) s by (auto split: prod.splits)
  note b = provider_step_balance [OF Cons.prems(1) s]
  have "provider_ok p' \<and> flying p1 + starts (all_outputs tr2) = answers (all_outputs tr2) + flying p'
    \<and> mset (p_waiters p1) + asked_all es = served_all (all_outputs tr2) + mset (p_waiters p')"
    by (rule Cons.IH [OF b(1) r])
  moreover from this b(3) have "mset (p_waiters p) + (mset (asker e) + asked_all es)
      = served_all outs + served_all (all_outputs tr2) + mset (p_waiters p')"
    by (metis add.assoc)
  ultimately show ?case
    using b(2) tr
    by (simp add: all_outputs_def starts_def answers_def served_all_def asked_all_def)
qed

lemma new_provider_ok: "provider_ok new_provider" "flying new_provider = 0" "p_waiters new_provider = []"
  by (simp_all add: provider_ok_def new_provider_def flying_def)

text \<open>
  However calls, mint results, clearings and invalidations interleave, at most one mint is in flight,
  since the mints started exceed the flights that ended by one exactly while a flight is on; and every
  caller is served exactly once, or is among the callers waiting for the flight: none is lost and none
  is answered twice.
\<close>

theorem provider_single_flight:
  "case provider_run new_provider es of (p, tr) \<Rightarrow>
     starts (all_outputs tr) = answers (all_outputs tr) + (if p_inFlight p = Idle then 0 else 1)
     \<and> asked_all es = served_all (all_outputs tr) + mset (p_waiters p)
     \<and> (p_inFlight p = Idle \<longrightarrow> p_waiters p = [])"
proof -
  obtain p tr where r: "provider_run new_provider es = (p, tr)" by (cases "provider_run new_provider es")
  from provider_run_balance [OF new_provider_ok(1) r] new_provider_ok(2,3) r
  show ?thesis by (simp add: flying_def provider_ok_def)
qed

theorem provider_single_flight_witness:
  "case provider_run new_provider [Get 1 0, Get 2 0, Mint_settled (Inl (Foreign ''down'')) 9, Clear] of (p, tr) \<Rightarrow>
     p_waiters p = [] \<and> starts (all_outputs tr) = 1"
  using provider_single_flight [of "[Get 1 0, Get 2 0, Mint_settled (Inl (Foreign ''down'')) 9, Clear]"]
  by (simp add: new_provider_def getToken_def mint_settles_def refresh_result_def all_outputs_def starts_def)

lemma provider_run_steps:
  "provider_run p es = (p', tr) \<Longrightarrow> (e, outs) \<in> set tr \<Longrightarrow> \<exists>q. (outs = snd (provider_step e q))"
proof (induction es arbitrary: p tr)
  case (Cons e' es)
  then show ?case by (auto split: prod.splits) (metis snd_conv)
qed simp

lemma stale_unusable: "\<not> isTokenStale t now issued \<Longrightarrow> isTokenUsable t now"
  by (auto simp: isTokenStale_def Let_def split: option.splits)

lemma getToken_gave: "Gave c t \<in> set (snd (getToken caller now p)) \<Longrightarrow> c = caller \<and> isTokenUsable t now"
  using stale_unusable by (auto simp: getToken_def split: option.splits if_splits)

text \<open>
  A token handed out from the cache is usable at the moment of the call: whatever happened before,
  when \<open>getToken\<close> answers a caller without waiting, the token has more than five seconds to live (or
  its expiry is not a number).
\<close>

theorem cached_token_is_usable:
  assumes "provider_run new_provider es = (p, tr)" and "(e, outs) \<in> set tr" and "Gave c t \<in> set outs"
  shows "\<exists>now. e = Get c now \<and> (case bt_expiresAt t of None \<Rightarrow> True | Some x \<Rightarrow> now + 5000 < x)"
proof -
  obtain q where q: "outs = snd (provider_step e q)" using provider_run_steps [OF assms(1,2)] by blast
  then obtain caller now where e: "e = Get caller now"
    using assms(3) by (cases e) (auto split: flight.splits if_splits)
  with q assms(3) have "c = caller \<and> isTokenUsable t now" using getToken_gave by simp
  with e show ?thesis by (auto simp: isTokenUsable_def MIN_REFRESH_MARGIN_MS_def split: option.splits)
qed

definition opaque_response :: json where
  "opaque_response = JObj [(''access_token'', JStr ''opaque'')]"

lemma opaque_token: "normalizeTokenResponse ''opaque'' opaque_response 0
    = \<lparr>bt_value = ''opaque'', bt_expiresAt = Some 120000, bt_scopes = JArr [], bt_endpoint = None\<rparr>"
  by (simp add: normalizeTokenResponse_def opaque_response_def decodeTokenClaims_def claim_of_def not_null_def
      FALLBACK_TTL_SECONDS_def Let_def)

lemma demo_provider_run:
  "\<exists>p tr t. provider_run new_provider [Get 1 0, Mint_settled (Inr opaque_response) 0, Clear, Get 2 1000] = (p, tr)
     \<and> (Get 2 1000, [Gave 2 t]) \<in> set tr \<and> bt_expiresAt t = Some 120000"
proof -
  have r: "refresh_result (Inr opaque_response) 0
      = Inr \<lparr>bt_value = ''opaque'', bt_expiresAt = Some 120000, bt_scopes = JArr [], bt_endpoint = None\<rparr>"
    using opaque_token
    by (simp add: refresh_result_def opaque_response_def isTokenUsable_def MIN_REFRESH_MARGIN_MS_def Let_def)
  show ?thesis
    by (simp add: new_provider_def getToken_def mint_settles_def r isTokenStale_def isTokenUsable_def
        REFRESH_AT_FRACTION_def MIN_REFRESH_MARGIN_MS_def Let_def)
qed

theorem cached_token_is_usable_witness:
  "\<exists>p tr (t :: beam_token). provider_run new_provider [Get 1 0, Mint_settled (Inr opaque_response) 0, Clear, Get 2 1000] = (p, tr)
     \<and> (\<exists>now. Get 2 1000 = Get 2 now \<and> (case bt_expiresAt t of None \<Rightarrow> True | Some x \<Rightarrow> now + 5000 < x))"
proof -
  obtain p tr t where r: "provider_run new_provider [Get 1 0, Mint_settled (Inr opaque_response) 0, Clear, Get 2 1000] = (p, tr)"
    and m: "(Get 2 1000, [Gave 2 t]) \<in> set tr" using demo_provider_run by blast
  have "\<exists>now. Get 2 1000 = Get 2 now \<and> (case bt_expiresAt t of None \<Rightarrow> True | Some x \<Rightarrow> now + 5000 < x)"
    by (rule cached_token_is_usable [OF r m]) simp
  with r show ?thesis by blast
qed

text \<open>
  A token whose \<open>exp\<close> claim is not a number is cached for ever: its expiry becomes \<open>NaN\<close>, every
  comparison with it is false, so it is usable and never stale at any time, and the fallbacks
  \<open>expires_in\<close> and 120 seconds are not used.
\<close>

theorem nan_expiry_never_refreshed:
  assumes "claim_of (decodeTokenClaims value) ''exp'' = Some e" and "to_number e = None"
  shows "isTokenUsable (normalizeTokenResponse value response t0) now
    \<and> \<not> isTokenStale (normalizeTokenResponse value response t0) now issuedAt"
  using assms by (simp add: normalizeTokenResponse_def isTokenStale_def isTokenUsable_def Let_def)

definition odd_token :: string where
  "odd_token = ''bwt1.'' @ b64url_encode (stringify (JObj [(''exp'', JStr ''never'')])) @ ''.s''"

lemma odd_token_claims: "decodeTokenClaims odd_token = Some (JObj [(''exp'', JStr ''never'')])"
proof -
  have "split_on (CHR ''.'') odd_token = [''bwt1'', b64url_encode (stringify (JObj [(''exp'', JStr ''never'')])), ''s'']"
    using split_on_append_sep [OF b64url_encode_no_dot, of "stringify (JObj [(''exp'', JStr ''never'')])" "''s''"]
    by (simp add: odd_token_def)
  moreover have "ascii (stringify (JObj [(''exp'', JStr ''never'')]))" by code_simp
  ultimately show ?thesis
    by (simp add: decodeTokenClaims_def base64UrlDecode_encode latin1_ascii parse_stringify del: stringify.simps)
qed

theorem nan_expiry_never_refreshed_witness:
  "isTokenUsable (normalizeTokenResponse odd_token (JObj []) 0) 1000000
    \<and> \<not> isTokenStale (normalizeTokenResponse odd_token (JObj []) 0) 1000000 0"
proof -
  have e: "claim_of (decodeTokenClaims odd_token) ''exp'' = Some (JStr ''never'')"
    by (simp add: odd_token_claims claim_of_def)
  have "to_number (JStr ''never'') = None" by code_simp
  from nan_expiry_never_refreshed [OF e this] show ?thesis by blast
qed

end
