(* ===== verification/Http.thy ===== *)
theory Http
  imports AuthProvider Retry
begin

text \<open>
  The control-plane transport (\<open>packages/web-sdk/src/core/transport/http.ts\<close>): URL building, error
  mapping, the deadline race, and \<open>request\<close> with its one re-mint on a 401 inside the retry loop. The
  fetch, the token provider, the random source and the timers are functions on an arbitrary world. URLs
  are absolute and already in the normal form the \<open>URL\<close> class prints.
\<close>

subsection \<open>URLs\<close>

definition is_http_url :: "string \<Rightarrow> bool" where
  "is_http_url path = (starts_with ''http://'' (to_lower path) \<or> starts_with ''https://'' (to_lower path))"

definition joinUrl :: "string \<Rightarrow> string \<Rightarrow> string" where
  "joinUrl baseUrl path =
     (if is_http_url path then path
      else strip_trailing_slashes baseUrl @ ''/'' @ strip_leading_slashes path)"

definition form_char :: "char \<Rightarrow> string" where
  "form_char c =
     (if c = CHR '' '' then ''+''
      else if unreserved c \<and> c \<notin> set ''!~()'' \<and> c \<noteq> CHR 0x27 then [c]
      else [CHR ''%'', hex_upper (of_char c div 16), hex_upper (of_char c mod 16)])"

definition form_encode :: "string \<Rightarrow> string" where
  "form_encode s = concat (map form_char s)"

record request_options =
  ro_method :: "string option"
  ro_path :: string
  ro_query :: "(string \<times> json option) list"
  ro_body :: "json option"
  ro_headers :: headers
  ro_hasSignal :: bool
  ro_timeoutMs :: "int option"
  ro_idempotencyKey :: "string option"
  ro_authenticated :: "bool option"
  ro_baseUrl :: "string option"
  ro_raw :: bool

text \<open>The query members that are defined, each set once.\<close>

definition query_params :: "(string \<times> json option) list \<Rightarrow> (string \<times> string) list" where
  "query_params q =
     fold (\<lambda>(k, v) acc. case v of None \<Rightarrow> acc | Some j \<Rightarrow> amap_set k (js_string j) acc) q []"

definition buildUrl :: "string \<Rightarrow> request_options \<Rightarrow> string" where
  "buildUrl baseUrl options =
     (let u = joinUrl (coalesce (ro_baseUrl options) baseUrl) (ro_path options);
          ps = query_params (ro_query options) in
      if ps = [] then u
      else u @ ''?'' @ join_with ''&'' (map (\<lambda>(k, v). form_encode k @ ''='' @ form_encode v) ps))"

definition after_scheme :: "string \<Rightarrow> string" where
  "after_scheme url = drop 3 (dropWhile (\<lambda>c. c \<noteq> CHR '':'') url)"

definition url_pathname :: "string \<Rightarrow> string" where
  "url_pathname url =
     (let p = takeWhile (\<lambda>c. c \<noteq> CHR ''?'' \<and> c \<noteq> CHR ''#'') (dropWhile (\<lambda>c. c \<noteq> CHR ''/'') (after_scheme url)) in
      if p = [] then ''/'' else p)"

subsection \<open>Errors of a response\<close>

text \<open>\<open>body.error ?? body.message ?? ...\<close> on the parsed body; other bodies have no members.\<close>

definition error_json :: "http_response \<Rightarrow> json" where
  "error_json r =
     (case hr_text r of
        None \<Rightarrow> JObj []
      | Some body \<Rightarrow>
          (case parse_json body of
             Some parsed \<Rightarrow> if is_object parsed then parsed else JObj []
           | None \<Rightarrow> JObj []))"

definition error_message :: "http_response \<Rightarrow> string" where
  "error_message r =
     (case or_else (not_null (jget (error_json r) ''error'')) (not_null (jget (error_json r) ''message'')) of
        Some j \<Rightarrow> js_string j
      | None \<Rightarrow> (case hr_text r of Some (c # cs) \<Rightarrow> take 200 (c # cs) | _ \<Rightarrow> hr_statusText r))"

definition request_id_of :: "http_response \<Rightarrow> string option" where
  "request_id_of r =
     or_else (map_option js_string (or_else (not_null (jget (error_json r) ''request_id''))
         (not_null (jget (error_json r) ''requestId''))))
       (header_get (hr_headers r) ''x-request-id'')"

definition retry_after_of :: "http_response \<Rightarrow> rat option" where
  "retry_after_of r =
     (case header_get (hr_headers r) ''retry-after'' of None \<Rightarrow> None | Some h \<Rightarrow> js_number h)"

definition toBeamError :: "http_response \<Rightarrow> string \<Rightarrow> beam_error" where
  "toBeamError r url =
     (let code = coalesce (asRemoteErrorCode (as_str (jget (error_json r) ''code''))) (codeFromStatus (hr_status r)) in
      if hr_status r = 401 then
        auth_error (''Beam rejected the request as unauthenticated: '' @ error_message r)
          (Some Auth_expired) (Some 401) (request_id_of r) (Some False)
      else
        new_beam_error BeamApiError
          (''Beam request to '' @ url_pathname url @ '' failed ('' @ show_int (hr_status r) @ ''): '' @ error_message r)
          \<lparr>opt_code = code, opt_status = Some (hr_status r), opt_requestId = request_id_of r, opt_retryable = None,
           opt_retryAfterSeconds = retry_after_of r\<rparr>)"

subsection \<open>The deadline\<close>

text \<open>
  What happens after the fetch is started, in order: it settles, the timer fires, or the caller aborts.
  The timer and the abort abort the fetch first, which may make it reject at once, before the deadline's
  own promise does; that rejection then wins the race. The timer always fires in the end.
\<close>

datatype race_event =
  Fetch_settles "thrown + http_response" | Timer_fires "thrown option" | Caller_aborts "thrown option"

record deadline =
  dl_timedOut :: bool
  dl_aborted :: bool

fun withDeadline :: "int \<Rightarrow> race_event list \<Rightarrow> (thrown + http_response) \<times> deadline" where
  "withDeadline timeoutMs (Fetch_settles r # _) = (r, \<lparr>dl_timedOut = False, dl_aborted = False\<rparr>)"
| "withDeadline timeoutMs (Caller_aborts reaction # _) =
     (Inl (coalesce reaction (Beam abort_error)), \<lparr>dl_timedOut = False, dl_aborted = True\<rparr>)"
| "withDeadline timeoutMs (Timer_fires reaction # _) =
     (Inl (coalesce reaction (Beam (timeout_error (''The request exceeded '' @ show_int timeoutMs @ ''ms.'')))),
      \<lparr>dl_timedOut = True, dl_aborted = True\<rparr>)"
| "withDeadline timeoutMs [] =
     (Inl (Beam (timeout_error (''The request exceeded '' @ show_int timeoutMs @ ''ms.''))),
      \<lparr>dl_timedOut = True, dl_aborted = True\<rparr>)"

fun own_error :: "thrown \<Rightarrow> bool" where
  "own_error (Beam e) = (err_name e \<in> {BeamTimeoutError, BeamAbortError})"
| "own_error (Foreign _) = False"

definition fetch_failure :: "string \<Rightarrow> string \<Rightarrow> int \<Rightarrow> deadline \<Rightarrow> bool \<Rightarrow> thrown \<Rightarrow> thrown" where
  "fetch_failure meth url ms d aborted cause =
     (if own_error cause then cause
      else if dl_timedOut d then
        Beam (timeout_error (meth @ '' '' @ url @ '' exceeded '' @ show_int ms @ ''ms.''))
      else if aborted then Beam abort_error
      else Beam (network_error (meth @ '' '' @ url
        @ '' could not be completed. Check connectivity and that the endpoint allows this origin (CORS).'')))"

subsection \<open>The transport\<close>

record transport =
  ht_baseUrl :: string
  ht_provider :: bool
  ht_timeoutMs :: int
  ht_maxAttempts :: nat
  ht_defaultHeaders :: headers

record 'w http_io =
  hx_fetch :: "string \<Rightarrow> fetch_init \<Rightarrow> 'w \<Rightarrow> race_event list \<times> 'w"
  hx_getToken :: "'w \<Rightarrow> (thrown + beam_token) \<times> 'w"
  hx_invalidate :: "'w \<Rightarrow> 'w"
  hx_uuid :: "'w \<Rightarrow> string \<times> 'w"
  hx_retry :: "'w retry_io"

definition newIdempotencyKey :: "string \<Rightarrow> 'w http_io \<Rightarrow> 'w \<Rightarrow> string \<times> 'w" where
  "newIdempotencyKey pre io w = (case hx_uuid io w of (u, w') \<Rightarrow> (pre @ ''-'' @ u, w'))"

datatype http_result = Raw http_response | Parsed json | Undefined_result

definition request_headers :: "transport \<Rightarrow> request_options \<Rightarrow> string option \<Rightarrow> headers" where
  "request_headers t options key =
     (let h = spread (spread [(''accept'', ''application/json'')] (ht_defaultHeaders t)) (ro_headers options);
          h1 = (if ro_body options \<noteq> None \<and> map_of h ''content-type'' = None
                then amap_set ''content-type'' ''application/json'' h else h) in
      (case key of None \<Rightarrow> h1 | Some k \<Rightarrow> amap_set ''Idempotency-Key'' k h1))"

definition body_text :: "json option \<Rightarrow> string option" where
  "body_text b = (case b of None \<Rightarrow> None | Some (JStr s) \<Rightarrow> Some s | Some j \<Rightarrow> Some (stringify j))"

definition success :: "string \<Rightarrow> string \<Rightarrow> bool \<Rightarrow> http_response \<Rightarrow> thrown + http_result" where
  "success meth url raw r =
     (if raw then Inr (Raw r)
      else if hr_status r = 204 \<or> header_get (hr_headers r) ''content-length'' = Some ''0'' then Inr Undefined_result
      else (case hr_text r of
              None \<Rightarrow> Inl (Foreign ''the body could not be read'')
            | Some body \<Rightarrow>
                if body = [] then Inr Undefined_result
                else (case parse_json body of
                        Some j \<Rightarrow> Inr (Parsed j)
                      | None \<Rightarrow> Inl (Beam (new_beam_error BeamApiError
                          (''Beam returned a non-JSON body for '' @ meth @ '' '' @ url @ ''.'')
                          \<lparr>opt_code = Protocol, opt_status = Some (hr_status r), opt_requestId = None,
                           opt_retryable = None, opt_retryAfterSeconds = None\<rparr>)))))"

text \<open>One request on the wire: its outcome, and whether it was answered 401.\<close>

definition uses_provider :: "transport \<Rightarrow> request_options \<Rightarrow> bool" where
  "uses_provider t options = (coalesce (ro_authenticated options) True \<and> ht_provider t)"

definition send_init :: "request_options \<Rightarrow> headers \<Rightarrow> fetch_init" where
  "send_init options headers =
     \<lparr>fi_method = coalesce (ro_method options) ''GET'', fi_headers = headers, fi_body = body_text (ro_body options),
      fi_credentials = None\<rparr>"

definition send_once ::
  "transport \<Rightarrow> 'w http_io \<Rightarrow> request_options \<Rightarrow> string \<Rightarrow> headers \<Rightarrow> 'w \<Rightarrow> (thrown + http_result) \<times> bool \<times> 'w" where
  "send_once t io options url headers w =
     (let ms = coalesce (ro_timeoutMs options) (ht_timeoutMs t); meth = coalesce (ro_method options) ''GET'' in
      case hx_fetch io url (send_init options headers) w of
        (events, w1) \<Rightarrow>
          (case withDeadline ms events of
             (Inl cause, d) \<Rightarrow>
               (Inl (fetch_failure meth url ms d (ro_hasSignal options \<and> signal_aborted (hx_retry io) w1) cause), False, w1)
           | (Inr r, d) \<Rightarrow>
               if \<not> response_ok r then (Inl (Beam (toBeamError r url)), hr_status r = 401, w1)
               else (success meth url (ro_raw options) r, False, w1)))"

definition send ::
  "transport \<Rightarrow> 'w http_io \<Rightarrow> request_options \<Rightarrow> string \<Rightarrow> string option \<Rightarrow> 'w \<Rightarrow> (thrown + http_result) \<times> bool \<times> 'w" where
  "send t io options url key w =
     (let headers = request_headers t options key in
      if uses_provider t options then
        (case hx_getToken io w of
           (Inl e, w1) \<Rightarrow> (Inl e, False, w1)
         | (Inr token, w1) \<Rightarrow>
             send_once t io options url (amap_set ''authorization'' (''Bearer '' @ bt_value token) headers) w1)
      else send_once t io options url headers w)"

text \<open>
  One attempt. The flag \<open>retriedAfterAuthFailure\<close> belongs to the whole request and lives in its state.
\<close>

definition execute ::
  "transport \<Rightarrow> 'w http_io \<Rightarrow> request_options \<Rightarrow> string \<Rightarrow> string option \<Rightarrow> nat \<Rightarrow> bool \<times> 'w
    \<Rightarrow> (thrown + http_result) \<times> bool \<times> 'w" where
  "execute t io options url key attempt s =
     (case s of (retried, w) \<Rightarrow>
        (case send t io options url key w of
           (r, unauthorized, w1) \<Rightarrow>
             if unauthorized \<and> uses_provider t options \<and> \<not> retried then
               (case send t io options url key (hx_invalidate io w1) of (r2, _, w2) \<Rightarrow> (r2, True, w2))
             else (r, retried, w1)))"

definition flagged_io :: "'w retry_io \<Rightarrow> bool \<Rightarrow> (bool \<times> 'w) retry_io" where
  "flagged_io io hasSignal =
     \<lparr>signal_aborted = (\<lambda>(f, w). hasSignal \<and> signal_aborted io w),
      random_draw = (\<lambda>(f, w). case random_draw io w of (r, w') \<Rightarrow> (r, f, w')),
      on_retry = (\<lambda>e k ms (f, w). (f, on_retry io e k ms w)),
      delay_resolves = (\<lambda>ms (f, w). case delay_resolves io ms w of (r, w') \<Rightarrow> (r, f, w'))\<rparr>"

definition request_backoff :: "transport \<Rightarrow> backoff" where
  "request_backoff t = with_defaults \<lparr>opt_initialDelayMs = None, opt_maxDelayMs = None, opt_factor = None,
     opt_maxAttempts = Some (Some (ht_maxAttempts t))\<rparr>"

definition operation_key :: "'w http_io \<Rightarrow> request_options \<Rightarrow> 'w \<Rightarrow> string option \<times> 'w" where
  "operation_key io options w =
     (case ro_idempotencyKey options of
        Some k \<Rightarrow> (Some k, w)
      | None \<Rightarrow>
          (let meth = coalesce (ro_method options) ''GET'' in
           if meth \<noteq> ''GET'' \<and> meth \<noteq> ''DELETE'' then
             (case newIdempotencyKey ''beam'' io w of (k, w') \<Rightarrow> (Some k, w'))
           else (None, w)))"

definition http_request ::
  "nat \<Rightarrow> transport \<Rightarrow> 'w http_io \<Rightarrow> request_options \<Rightarrow> 'w \<Rightarrow> ((thrown + http_result) \<times> bool \<times> 'w) option" where
  "http_request fuel t io options w =
     (let url = buildUrl (ht_baseUrl t) options in
      case operation_key io options w of
        (key, w1) \<Rightarrow>
          withRetry fuel (request_backoff t) defaultShouldRetry (flagged_io (hx_retry io) (ro_hasSignal options))
            (execute t io options url key) 0 (False, w1))"

definition plain_options :: "string \<Rightarrow> request_options" where
  "plain_options path =
     \<lparr>ro_method = None, ro_path = path, ro_query = [], ro_body = None, ro_headers = [], ro_hasSignal = False,
      ro_timeoutMs = None, ro_idempotencyKey = None, ro_authenticated = None, ro_baseUrl = None, ro_raw = False\<rparr>"

definition http_get ::
  "nat \<Rightarrow> transport \<Rightarrow> 'w http_io \<Rightarrow> string \<Rightarrow> request_options \<Rightarrow> 'w \<Rightarrow> ((thrown + http_result) \<times> bool \<times> 'w) option" where
  "http_get fuel t io path options =
     http_request fuel t io (options\<lparr>ro_path := path, ro_method := Some ''GET''\<rparr>)"

definition http_post ::
  "nat \<Rightarrow> transport \<Rightarrow> 'w http_io \<Rightarrow> string \<Rightarrow> json option \<Rightarrow> request_options \<Rightarrow> 'w
    \<Rightarrow> ((thrown + http_result) \<times> bool \<times> 'w) option" where
  "http_post fuel t io path body options =
     http_request fuel t io (options\<lparr>ro_path := path, ro_method := Some ''POST'', ro_body := body\<rparr>)"

definition http_delete ::
  "nat \<Rightarrow> transport \<Rightarrow> 'w http_io \<Rightarrow> string \<Rightarrow> request_options \<Rightarrow> 'w \<Rightarrow> ((thrown + http_result) \<times> bool \<times> 'w) option" where
  "http_delete fuel t io path options =
     http_request fuel t io (options\<lparr>ro_path := path, ro_method := Some ''DELETE''\<rparr>)"

definition new_transport :: "string \<Rightarrow> bool \<Rightarrow> int option \<Rightarrow> nat option \<Rightarrow> headers \<Rightarrow> transport" where
  "new_transport baseUrl provider timeoutMs attempts defaults =
     \<lparr>ht_baseUrl = strip_trailing_slashes baseUrl, ht_provider = provider,
      ht_timeoutMs = coalesce timeoutMs 30000, ht_maxAttempts = coalesce attempts 3,
      ht_defaultHeaders = defaults\<rparr>"

definition withBaseUrl :: "transport \<Rightarrow> string \<Rightarrow> transport" where
  "withBaseUrl t baseUrl =
     new_transport baseUrl (ht_provider t) (Some (ht_timeoutMs t)) (Some (ht_maxAttempts t)) (ht_defaultHeaders t)"

subsection \<open>Lemmas\<close>

lemma request_backoff_attempts [simp]: "maxAttempts (request_backoff t) = Some (ht_maxAttempts t)"
  by (simp add: request_backoff_def with_defaults_def)

text \<open>The same world with every fetch recorded.\<close>

type_synonym wire_log = "(string \<times> fetch_init) list"

definition logged_http :: "'w http_io \<Rightarrow> ('w \<times> wire_log) http_io" where
  "logged_http io =
     \<lparr>hx_fetch = (\<lambda>url init (w, l). case hx_fetch io url init w of (ev, w') \<Rightarrow> (ev, w', l @ [(url, init)])),
      hx_getToken = (\<lambda>(w, l). case hx_getToken io w of (r, w') \<Rightarrow> (r, w', l)),
      hx_invalidate = (\<lambda>(w, l). (hx_invalidate io w, l)),
      hx_uuid = (\<lambda>(w, l). case hx_uuid io w of (u, w') \<Rightarrow> (u, w', l)),
      hx_retry =
        \<lparr>signal_aborted = (\<lambda>(w, l). signal_aborted (hx_retry io) w),
         random_draw = (\<lambda>(w, l). case random_draw (hx_retry io) w of (r, w') \<Rightarrow> (r, w', l)),
         on_retry = (\<lambda>e k ms (w, l). (on_retry (hx_retry io) e k ms w, l)),
         delay_resolves = (\<lambda>ms (w, l). case delay_resolves (hx_retry io) ms w of (r, w') \<Rightarrow> (r, w', l))\<rparr>\<rparr>"

text \<open>A request is one of an operation: its URL, method and body, and the operation's key.\<close>

definition of_operation :: "request_options \<Rightarrow> string \<Rightarrow> string option \<Rightarrow> string \<times> fetch_init \<Rightarrow> bool" where
  "of_operation options url key entry \<longleftrightarrow>
     fst entry = url \<and> fi_method (snd entry) = coalesce (ro_method options) ''GET''
     \<and> fi_body (snd entry) = body_text (ro_body options)
     \<and> (key \<noteq> None \<longrightarrow> map_of (fi_headers (snd entry)) ''Idempotency-Key'' = key)"

lemma request_headers_key: "map_of (request_headers t options (Some k)) ''Idempotency-Key'' = Some k"
  by (simp add: request_headers_def Let_def)

lemma send_once_log:
  assumes "key \<noteq> None \<longrightarrow> map_of headers ''Idempotency-Key'' = key"
    and "send_once t (logged_http io) options url headers (w, l) = (r, u, w', l')"
  shows "\<exists>e. l' = l @ [e] \<and> of_operation options url key e"
proof -
  obtain ev w1 where f: "hx_fetch io url (send_init options headers) w = (ev, w1)" by fastforce
  have "hx_fetch (logged_http io) url (send_init options headers) (w, l)
      = (ev, w1, l @ [(url, send_init options headers)])" by (simp add: logged_http_def f)
  with assms(2) have "l' = l @ [(url, send_init options headers)]"
    by (auto simp: send_once_def Let_def split: prod.splits sum.splits if_splits)
  moreover have "of_operation options url key (url, send_init options headers)"
    using assms(1) by (simp add: of_operation_def send_init_def)
  ultimately show ?thesis by blast
qed

lemma send_log:
  assumes "send t (logged_http io) options url key (w, l) = (r, u, w', l')"
  shows "\<exists>es. l' = l @ es \<and> length es \<le> 1 \<and> list_all (of_operation options url key) es \<and> (u \<longrightarrow> length es = 1)"
proof -
  let ?h = "request_headers t options key"
  have key: "key \<noteq> None \<longrightarrow> map_of ?h ''Idempotency-Key'' = key"
    "\<And>v. key \<noteq> None \<longrightarrow> map_of (amap_set ''authorization'' v ?h) ''Idempotency-Key'' = key"
    using request_headers_key by auto
  show ?thesis
  proof (cases "uses_provider t options")
    case True
    obtain g w1 where g: "hx_getToken io w = (g, w1)" by fastforce
    then have g': "hx_getToken (logged_http io) (w, l) = (g, w1, l)" by (simp add: logged_http_def)
    show ?thesis
    proof (cases g)
      case (Inl e)
      with True g' assms show ?thesis by (auto simp: send_def Let_def)
    next
      case (Inr token)
      with True g' assms send_once_log [OF key(2), of t io options url _ w1 l] show ?thesis
        by (fastforce simp: send_def Let_def)
    qed
  next
    case False
    with assms send_once_log [OF key(1), of t io options url w l] show ?thesis
      by (fastforce simp: send_def Let_def)
  qed
qed

lemma operation_key_log: "\<exists>key w1. operation_key (logged_http io) options (w, l) = (key, w1, l)"
  by (cases "ro_idempotencyKey options"; cases "hx_uuid io w")
    (simp_all add: operation_key_def newIdempotencyKey_def logged_http_def Let_def)

definition request_inv :: "request_options \<Rightarrow> string \<Rightarrow> string option \<Rightarrow> nat \<Rightarrow> bool \<times> 'w \<times> wire_log \<Rightarrow> bool" where
  "request_inv options url key k s =
     (case s of (f, w, l) \<Rightarrow> length l \<le> k + (if f then 1 else 0) \<and> list_all (of_operation options url key) l)"

lemma execute_inv:
  assumes "request_inv options url key k s"
  shows "request_inv options url key (Suc k) (snd (execute t (logged_http io) options url key j s))"
proof -
  obtain f w l where s: "s = (f, w, l)" by (cases s)
  obtain r u w1 l1 where 1: "send t (logged_http io) options url key (w, l) = (r, u, w1, l1)"
    by (cases "send t (logged_http io) options url key (w, l)") auto
  from send_log [OF 1] obtain es where es: "l1 = l @ es" "length es \<le> 1" "list_all (of_operation options url key) es"
    by blast
  show ?thesis
  proof (cases "u \<and> uses_provider t options \<and> \<not> f")
    case False
    with 1 es assms s show ?thesis by (auto simp: execute_def request_inv_def)
  next
    case True
    have inv: "hx_invalidate (logged_http io) (w1, l1) = (hx_invalidate io w1, l1)" by (simp add: logged_http_def)
    obtain r2 u2 w2 l2 where 2: "send t (logged_http io) options url key (hx_invalidate io w1, l1) = (r2, u2, w2, l2)"
      by (cases "send t (logged_http io) options url key (hx_invalidate io w1, l1)") auto
    from send_log [OF 2] obtain es2 where "l2 = l1 @ es2" "length es2 \<le> 1" "list_all (of_operation options url key) es2"
      by blast
    with True 1 2 es assms s inv show ?thesis by (simp add: execute_def request_inv_def)
  qed
qed

lemma flagged_io_inv:
  assumes "request_inv options url key k s"
  shows "request_inv options url key k (snd (random_draw (flagged_io (hx_retry (logged_http io)) h) s))"
    "request_inv options url key k (on_retry (flagged_io (hx_retry (logged_http io)) h) e i ms s)"
    "request_inv options url key k (snd (delay_resolves (flagged_io (hx_retry (logged_http io)) h) ms s))"
  using assms by (auto simp: flagged_io_def logged_http_def request_inv_def split: prod.splits)

subsection \<open>Properties\<close>

text \<open>
  A request returns, and what it puts on the wire is one logical operation: whatever the network, the
  provider, the signal and the timers do, it makes at most \<open>maxAttempts\<close> fetches (one when the bound is
  zero) plus the single re-mint after a 401, every one of them to the same URL with the same method and
  body, and all with the same idempotency key, so a retry cannot create a second room.
\<close>

theorem request_is_one_operation:
  fixes t :: transport
  shows "\<exists>r f w' l key. http_request (Suc (ht_maxAttempts t)) t (logged_http io) options (w, []) = Some (r, f, w', l)
    \<and> key = fst (operation_key (logged_http io) options (w, []))
    \<and> length l \<le> max 1 (ht_maxAttempts t) + 1
    \<and> list_all (of_operation options (buildUrl (ht_baseUrl t) options) key) l"
proof -
  let ?url = "buildUrl (ht_baseUrl t) options"
  obtain key w1 where k: "operation_key (logged_http io) options (w, []) = (key, w1, [])"
    using operation_key_log [of io options w "[]"] by blast
  have start: "request_inv options ?url key 0 (False, w1, [])" by (simp add: request_inv_def)
  have "\<exists>r w' c. withRetry (Suc (ht_maxAttempts t)) (request_backoff t) defaultShouldRetry
      (flagged_io (hx_retry (logged_http io)) (ro_hasSignal options))
      (execute t (logged_http io) options ?url key) 0 (False, w1, []) = Some (r, w')
      \<and> request_inv options ?url key c w' \<and> c \<le> max 1 (ht_maxAttempts t)"
    by (rule withRetry_rule [where P = "request_inv options ?url key"])
      (simp_all add: execute_inv flagged_io_inv start)
  then obtain r w' c where r: "withRetry (Suc (ht_maxAttempts t)) (request_backoff t) defaultShouldRetry
      (flagged_io (hx_retry (logged_http io)) (ro_hasSignal options))
      (execute t (logged_http io) options ?url key) 0 (False, w1, []) = Some (r, w')"
    and c: "request_inv options ?url key c w'" "c \<le> max 1 (ht_maxAttempts t)" by blast
  obtain f v l where w': "w' = (f, v, l)" by (cases w')
  have "http_request (Suc (ht_maxAttempts t)) t (logged_http io) options (w, []) = Some (r, f, v, l)"
    using r k by (simp add: http_request_def w' del: withRetry.simps)
  moreover have "length l \<le> max 1 (ht_maxAttempts t) + 1" "list_all (of_operation options ?url key) l"
    using c by (auto simp: request_inv_def w' split: if_splits)
  ultimately show ?thesis using k by fastforce
qed

text \<open>A server that rejects every token.\<close>

definition rejects_tokens :: "'w http_io \<Rightarrow> bool" where
  "rejects_tokens io \<longleftrightarrow>
     (\<forall>url init w. \<exists>r w'. hx_fetch io url init w = (Fetch_settles (Inr r) # [], w') \<and> hr_status r = 401)
     \<and> (\<forall>w. \<exists>tok w'. hx_getToken io w = (Inr tok, w'))"

lemma send_rejected:
  assumes "rejects_tokens io"
  shows "\<exists>r w' e. send t (logged_http io) options url key (w, l) = (Inl (Beam (toBeamError r url)), True, w', l @ [e])
    \<and> hr_status r = 401"
proof -
  have once: "\<exists>r w' e. send_once t (logged_http io) options url headers (w, l)
      = (Inl (Beam (toBeamError r url)), True, w', l @ [e]) \<and> hr_status r = 401" for headers w
  proof -
    obtain r w' where "hx_fetch io url (send_init options headers) w = (Fetch_settles (Inr r) # [], w')" "hr_status r = 401"
      using assms unfolding rejects_tokens_def by blast
    then show ?thesis
      by (auto simp: send_once_def Let_def logged_http_def response_ok_def)
  qed
  show ?thesis
  proof (cases "uses_provider t options")
    case True
    obtain tok w1 where "hx_getToken io w = (Inr tok, w1)" using assms unfolding rejects_tokens_def by blast
    then have "hx_getToken (logged_http io) (w, l) = (Inr tok, w1, l)" by (simp add: logged_http_def)
    with True once show ?thesis by (simp add: send_def Let_def)
  next
    case False
    with once show ?thesis by (simp add: send_def Let_def)
  qed
qed

lemma toBeamError_401: "hr_status r = 401 \<Longrightarrow>
    err_code (toBeamError r url) = Auth_expired \<and> \<not> err_retryable (toBeamError r url)"
  by (simp add: toBeamError_def auth_error_def Let_def)

text \<open>
  An authenticated request to a server that rejects every token is sent exactly twice, once with the
  cached token and once after a re-mint, and then fails with \<open>auth_expired\<close>: the 401 is never retried
  by the backoff loop, whatever \<open>maxAttempts\<close> is.
\<close>

theorem rejected_token_sent_twice:
  assumes "rejects_tokens io" and "uses_provider t options" and "\<not> ro_hasSignal options"
  shows "\<exists>e w' l. http_request (Suc n) t (logged_http io) options (w, []) = Some (Inl (Beam e), True, w', l)
    \<and> length l = 2 \<and> err_code e = Auth_expired"
proof -
  let ?url = "buildUrl (ht_baseUrl t) options"
  obtain key w1 where k: "operation_key (logged_http io) options (w, []) = (key, w1, [])"
    using operation_key_log [of io options w "[]"] by blast
  obtain r1 w2 e1 where s1: "send t (logged_http io) options ?url key (w1, []) = (Inl (Beam (toBeamError r1 ?url)), True, w2, [e1])"
    using send_rejected [OF assms(1), of t options ?url key w1 "[]"] by auto
  have inv: "hx_invalidate (logged_http io) (w2, [e1]) = (hx_invalidate io w2, [e1])" by (simp add: logged_http_def)
  obtain r2 w3 e2 where s2: "send t (logged_http io) options ?url key (hx_invalidate io w2, [e1])
      = (Inl (Beam (toBeamError r2 ?url)), True, w3, [e1, e2])" and r2: "hr_status r2 = 401"
    using send_rejected [OF assms(1), of t options ?url key "hx_invalidate io w2" "[e1]"] by auto
  have ex: "execute t (logged_http io) options ?url key 0 (False, w1, []) = (Inl (Beam (toBeamError r2 ?url)), True, w3, [e1, e2])"
    using s1 s2 inv assms(2) by (simp add: execute_def)
  note 401 = toBeamError_401 [OF r2, of ?url]
  have "withRetry (Suc n) (request_backoff t) defaultShouldRetry
      (flagged_io (hx_retry (logged_http io)) (ro_hasSignal options)) (execute t (logged_http io) options ?url key) 0
      (False, w1, []) = Some (Inl (Beam (toBeamError r2 ?url)), True, w3, [e1, e2])"
    using assms(3) ex 401 by (simp add: flagged_io_def defaultShouldRetry_def Let_def)
  then show ?thesis
    using k 401 by (simp add: http_request_def del: withRetry.simps)
qed

definition unauthorized_response :: http_response where
  "unauthorized_response = \<lparr>hr_status = 401, hr_statusText = ''Unauthorized'', hr_headers = [], hr_text = Some []\<rparr>"

definition rejecting_io :: "unit http_io" where
  "rejecting_io =
     \<lparr>hx_fetch = (\<lambda>url init w. ([Fetch_settles (Inr unauthorized_response)], w)),
      hx_getToken = (\<lambda>w. (Inr \<lparr>bt_value = ''tok'', bt_expiresAt = Some 1, bt_scopes = JArr [], bt_endpoint = None\<rparr>, w)),
      hx_invalidate = (\<lambda>w. w), hx_uuid = (\<lambda>w. (''u'', w)), hx_retry = quiet_io\<rparr>"

definition demo_transport :: transport where
  "demo_transport = new_transport ''https://beam.example/'' True None None []"

theorem rejected_token_sent_twice_witness:
  "\<exists>e w' l. http_request 4 demo_transport (logged_http rejecting_io) (plain_options ''/rooms/r'') ((), [])
      = Some (Inl (Beam e), True, w', l) \<and> length l = 2 \<and> err_code e = Auth_expired"
proof -
  have "rejects_tokens rejecting_io"
    by (simp add: rejects_tokens_def rejecting_io_def unauthorized_response_def)
  moreover have "uses_provider demo_transport (plain_options ''/rooms/r'')" "\<not> ro_hasSignal (plain_options ''/rooms/r'')"
    by (simp_all add: uses_provider_def demo_transport_def new_transport_def plain_options_def)
  ultimately show ?thesis
    using rejected_token_sent_twice [of rejecting_io demo_transport "plain_options ''/rooms/r''" 3 "()"] by simp
qed

lemma send_once_unauthorized:
  "send_once t io options url headers w = (res, True, w1) \<Longrightarrow> \<exists>q. hr_status q = 401 \<and> res = Inl (Beam (toBeamError q url))"
  by (auto simp: send_once_def Let_def split: prod.splits sum.splits if_splits)

lemma send_unauthorized:
  "send t io options url key w = (res, True, w1) \<Longrightarrow> \<exists>q. hr_status q = 401 \<and> res = Inl (Beam (toBeamError q url))"
  by (auto simp: send_def Let_def split: prod.splits sum.splits if_splits dest: send_once_unauthorized)

text \<open>
  C40. Which failed responses are retried, and by whom. The backoff loop never retries an attempt that ended in a 401; otherwise a code
  of the coordinator's vocabulary in the body decides, whatever the status: the attempt is retried exactly for \<open>unavailable\<close>,
  \<open>internal\<close> and \<open>resource_exhausted\<close>. Without one the status decides: everything but 400, 403, 404, 409
  and 422 is retried, the other 4xx statuses included. A 401 is retried within the attempt instead: when the send with the provider's
  token is answered with one, and it is the first of the request, the token is dropped and the request sent once more, and
  that second answer is what the attempt ends in; after that a 401 ends the attempt as it is.
\<close>

theorem response_retryability:
  "(defaultShouldRetry (Beam (toBeamError r url)) n \<longleftrightarrow>
     hr_status r \<noteq> 401
     \<and> (case asRemoteErrorCode (as_str (jget (error_json r) ''code'')) of
          Some c \<Rightarrow> c \<in> {Unavailable, Internal, Resource_exhausted}
        | None \<Rightarrow> hr_status r \<notin> {400, 403, 404, 409, 422}))
   \<and> (\<forall>w res w1 r2 u2 w2. uses_provider t options \<and> send t io options url key w = (res, True, w1)
          \<and> send t io options url key (hx_invalidate io w1) = (r2, u2, w2)
        \<longrightarrow> (\<exists>q. hr_status q = 401 \<and> res = Inl (Beam (toBeamError q url)))
          \<and> execute t io options url key k (False, w) = (r2, True, w2)
          \<and> execute t io options url key k (True, w) = (res, True, w1))"
proof -
  have remote: "c \<in> set REMOTE_CODES" if "asRemoteErrorCode v = Some c" for v c
    using that by (cases v) (auto simp: asRemoteErrorCode_def dest: find_code_SomeD)
  have "defaultShouldRetry (Beam (toBeamError r url)) n \<longleftrightarrow>
     hr_status r \<noteq> 401
     \<and> (case asRemoteErrorCode (as_str (jget (error_json r) ''code'')) of
          Some c \<Rightarrow> c \<in> {Unavailable, Internal, Resource_exhausted}
        | None \<Rightarrow> hr_status r \<notin> {400, 403, 404, 409, 422})"
    using codeFromStatus_retryable [of "hr_status r"] remote
    by (cases "asRemoteErrorCode (as_str (jget (error_json r) ''code''))")
      (auto simp: defaultShouldRetry_def toBeamError_def auth_error_def Let_def RETRYABLE_CODES_def REMOTE_CODES_def)
  then show ?thesis by (auto simp: execute_def dest: send_unauthorized)
qed

subsection \<open>The token provider as the transport sees it\<close>

text \<open>
  What a transport relies on: a call never un-mints, and the first call after an invalidation mints.
\<close>

locale token_source =
  fixes get :: "'w \<Rightarrow> (thrown + beam_token) \<times> 'w"
    and drop_token :: "'w \<Rightarrow> 'w"
    and mints :: "'w \<Rightarrow> nat"
  assumes get_mono: "get w = (r, w') \<Longrightarrow> mints w \<le> mints w'"
    and fresh: "get (drop_token w) = (r, w') \<Longrightarrow> mints w' = Suc (mints w)"
begin

definition over :: "'w http_io \<Rightarrow> bool" where
  "over io \<longleftrightarrow> hx_getToken io = get \<and> hx_invalidate io = drop_token
     \<and> (\<forall>url init w. mints (snd (hx_fetch io url init w)) = mints w)"

lemma send_once_mints:
  "over io \<Longrightarrow> send_once t io options url h w = (r, u, w') \<Longrightarrow> mints w' = mints w"
  unfolding over_def send_once_def Let_def
  by (auto split: prod.splits sum.splits if_splits) (metis snd_conv)+

lemma send_mints:
  assumes "over io" and "send t io options url key w = (r, u, w')" and "uses_provider t options"
  shows "\<exists>x w1. get w = (x, w1) \<and> mints w' = mints w1"
proof -
  obtain x w1 where g: "get w = (x, w1)" by fastforce
  with assms send_once_mints [OF assms(1)] show ?thesis
    by (cases x) (auto simp: send_def over_def Let_def)
qed

lemma resent_after_fresh_mint:
  assumes "over io" and "execute t io options url key n (False, w) = (r, True, w')"
  shows "\<exists>w1 u e. send t io options url key w = (e, u, w1) \<and> u \<and> mints w \<le> mints w1 \<and> mints w' = Suc (mints w1)"
proof -
  obtain e u w1 where s: "send t io options url key w = (e, u, w1)" by (cases "send t io options url key w") auto
  have u: "u \<and> uses_provider t options"
    using assms(2) s by (auto simp: execute_def split: if_splits)
  obtain r2 u2 w2 where s2: "send t io options url key (hx_invalidate io w1) = (r2, u2, w2)"
    by (cases "send t io options url key (hx_invalidate io w1)") auto
  have w2: "w' = w2" using assms(2) s s2 u by (simp add: execute_def)
  have inv: "hx_invalidate io = drop_token" using assms(1) by (simp add: over_def)
  obtain x y where 1: "get w = (x, y)" "mints w1 = mints y"
    using send_mints [OF assms(1) s] u by blast
  obtain x2 y2 where 2: "get (drop_token w1) = (x2, y2)" "mints w2 = mints y2"
    using send_mints [OF assms(1) s2] u inv by auto
  have "mints w \<le> mints w1" "mints w2 = Suc (mints w1)"
    using get_mono [OF 1(1)] 1(2) fresh [OF 2(1)] 2(2) by simp_all
  with s u w2 show ?thesis by blast
qed

end

text \<open>
  The caching provider called by one caller at a time: a call that starts a mint waits for it. The state
  carries the number of mints.
\<close>

record 'w session =
  se_provider :: provider
  se_mints :: nat
  se_world :: 'w

definition wait_for_mint ::
  "('w \<Rightarrow> (thrown + json) \<times> 'w) \<Rightarrow> ('w \<Rightarrow> rat) \<Rightarrow> provider \<Rightarrow> 'w session \<Rightarrow> (thrown + beam_token) \<times> 'w session" where
  "wait_for_mint mint clock p s =
     (case mint (se_world s) of
        (r, w1) \<Rightarrow>
          (let p1 = mint_settles r (clock w1) p in
           (refresh_result r (clock w1),
            s\<lparr>se_provider := fst (provider_step Clear p1), se_mints := Suc (se_mints s), se_world := w1\<rparr>)))"

definition session_getToken ::
  "('w \<Rightarrow> (thrown + json) \<times> 'w) \<Rightarrow> ('w \<Rightarrow> rat) \<Rightarrow> 'w session \<Rightarrow> (thrown + beam_token) \<times> 'w session" where
  "session_getToken mint clock s =
     (case getToken 0 (clock (se_world s)) (se_provider s) of
        (p, [Gave _ t]) \<Rightarrow> (Inr t, s\<lparr>se_provider := p\<rparr>)
      | (p, _) \<Rightarrow> wait_for_mint mint clock p s)"

definition session_invalidate :: "'w session \<Rightarrow> 'w session" where
  "session_invalidate s = s\<lparr>se_provider := invalidate (se_provider s)\<rparr>"

lemma wait_for_mint_mints: "wait_for_mint mint clock p s = (r, s') \<Longrightarrow> se_mints s' = Suc (se_mints s)"
  by (auto simp: wait_for_mint_def Let_def split: prod.splits)

interpretation cached: token_source "session_getToken mint clock" session_invalidate se_mints for mint clock
proof
  fix s :: "'a session" and r s'
  assume "session_getToken mint clock s = (r, s')"
  then show "se_mints s \<le> se_mints s'"
    using wait_for_mint_mints
    by (fastforce simp: session_getToken_def split: prod.splits list.splits provider_output.splits)
next
  fix s :: "'a session" and r s'
  assume "session_getToken mint clock (session_invalidate s) = (r, s')"
  then show "se_mints s' = Suc (se_mints s)"
    using wait_for_mint_mints
    by (fastforce simp: session_getToken_def session_invalidate_def invalidate_def getToken_def
        split: prod.splits list.splits provider_output.splits if_splits)
qed

text \<open>A transport over the caching provider.\<close>

definition session_io ::
  "('w \<Rightarrow> (thrown + json) \<times> 'w) \<Rightarrow> ('w \<Rightarrow> rat) \<Rightarrow> (string \<Rightarrow> fetch_init \<Rightarrow> 'w \<Rightarrow> race_event list \<times> 'w)
    \<Rightarrow> 'w session retry_io \<Rightarrow> 'w session http_io" where
  "session_io mint clock fetch retry =
     \<lparr>hx_fetch = (\<lambda>url init s. case fetch url init (se_world s) of (ev, w) \<Rightarrow> (ev, s\<lparr>se_world := w\<rparr>)),
      hx_getToken = session_getToken mint clock, hx_invalidate = session_invalidate,
      hx_uuid = (\<lambda>s. (''uuid'', s)), hx_retry = retry\<rparr>"

text \<open>
  With the caching provider, an attempt that was answered 401 and sent again has minted exactly one
  token in between: the rejected token is never sent a second time from the cache.
\<close>

theorem resent_with_fresh_token:
  assumes "execute t (session_io mint clock fetch retry) options url key n (False, s) = (r, True, s')"
  shows "\<exists>s1 u e. send t (session_io mint clock fetch retry) options url key s = (e, u, s1) \<and> u
    \<and> se_mints s' = Suc (se_mints s1)"
proof -
  have "cached.over mint clock (session_io mint clock fetch retry)"
    by (simp add: cached.over_def session_io_def split: prod.split)
  from cached.resent_after_fresh_mint [OF this assms] show ?thesis by blast
qed

definition strict_fetch :: "string \<Rightarrow> fetch_init \<Rightarrow> unit \<Rightarrow> race_event list \<times> unit" where
  "strict_fetch url init w = ([Fetch_settles (Inr unauthorized_response)], w)"

definition demo_io :: "unit session http_io" where
  "demo_io = session_io (\<lambda>w. (Inr opaque_response, w)) (\<lambda>w. 0) strict_fetch
     \<lparr>signal_aborted = (\<lambda>_. False), random_draw = (\<lambda>s. (1 / 2, s)), on_retry = (\<lambda>_ _ _ s. s),
      delay_resolves = (\<lambda>_ s. (True, s))\<rparr>"

definition demo_state :: "unit session" where
  "demo_state = \<lparr>se_provider = new_provider, se_mints = 0, se_world = ()\<rparr>"

lemma demo_refresh: "refresh_result (Inr opaque_response) 0
    = Inr \<lparr>bt_value = ''opaque'', bt_expiresAt = Some 120000, bt_scopes = JArr [], bt_endpoint = None\<rparr>"
  using opaque_token
  by (simp add: refresh_result_def opaque_response_def isTokenUsable_def MIN_REFRESH_MARGIN_MS_def Let_def)

lemma demo_execute:
  "\<exists>r s'. execute demo_transport demo_io (plain_options ''/x'') ''u'' None 0 (False, demo_state) = (r, True, s')"
  by (simp add: execute_def send_def send_once_def uses_provider_def demo_transport_def new_transport_def
      plain_options_def demo_io_def session_io_def session_getToken_def wait_for_mint_def demo_refresh
      mint_settles_def getToken_def demo_state_def new_provider_def session_invalidate_def invalidate_def
      strict_fetch_def unauthorized_response_def response_ok_def Let_def)

theorem resent_with_fresh_token_witness:
  "\<exists>r s'. execute demo_transport demo_io (plain_options ''/x'') ''u'' None 0 (False, demo_state) = (r, True, s')
    \<and> (\<exists>s1 u e. send demo_transport demo_io (plain_options ''/x'') ''u'' None demo_state = (e, u, s1) \<and> u
         \<and> se_mints s' = Suc (se_mints s1))"
proof -
  obtain r s' where e: "execute demo_transport demo_io (plain_options ''/x'') ''u'' None 0 (False, demo_state) = (r, True, s')"
    using demo_execute by blast
  from resent_with_fresh_token [OF e [unfolded demo_io_def]] e show ?thesis unfolding demo_io_def by blast
qed

theorem response_retryability_witness:
  "\<exists>res s1 r2 s2. send demo_transport demo_io (plain_options ''/x'') ''u'' None demo_state = (res, True, s1)
     \<and> execute demo_transport demo_io (plain_options ''/x'') ''u'' None 0 (False, demo_state) = (r2, True, s2)
     \<and> execute demo_transport demo_io (plain_options ''/x'') ''u'' None 0 (True, demo_state) = (res, True, s1)"
proof -
  have "\<exists>res s1. send demo_transport demo_io (plain_options ''/x'') ''u'' None demo_state = (res, True, s1)"
    by (simp add: send_def send_once_def uses_provider_def demo_transport_def new_transport_def
        plain_options_def demo_io_def session_io_def session_getToken_def wait_for_mint_def demo_refresh
        mint_settles_def getToken_def demo_state_def new_provider_def strict_fetch_def unauthorized_response_def response_ok_def Let_def)
  then obtain res s1 where send: "send demo_transport demo_io (plain_options ''/x'') ''u'' None demo_state = (res, True, s1)" by blast
  obtain r2 u2 s2 where again: "send demo_transport demo_io (plain_options ''/x'') ''u'' None (hx_invalidate demo_io s1) = (r2, u2, s2)"
    by (metis prod_cases3)
  have "uses_provider demo_transport (plain_options ''/x'')"
    by (simp add: uses_provider_def demo_transport_def new_transport_def plain_options_def)
  with response_retryability [of unauthorized_response "''u''" 0 demo_transport "plain_options ''/x''" demo_io None 0] send again
  show ?thesis by blast
qed

end
