(* ===== verification/MemoryUpstream.thy ===== *)
theory MemoryUpstream
  imports WebPlatform
begin

text \<open>
  The records the broker exchanges with an upstream (\<open>packages/web-sdk-server/src/types.ts\<close>) and the
  in-process upstream (\<open>upstreams/memory.ts\<close>): its store of rooms and transfers, and the watch loop
  that moves a transfer. Between two turns of the loop anything may happen to the store: a run is
  driven by a list of turns, each with the abort flag, the clock and an arbitrary change made by the
  other requests. Byte counts are integers.
\<close>

subsection \<open>Records of the interface\<close>

record room_media =
  media_url :: string
  media_token :: "string option"
  media_whipUrl :: "string option"
  media_whepUrl :: "string option"

record room_record =
  room_id :: string
  room_name :: "string option"
  room_createdAt :: string
  room_expiresAt :: "string option"
  room_media :: room_media

record create_room_input =
  cri_name :: "string option"
  cri_ttlSeconds :: "int option"
  cri_region :: "string option"
  cri_mode :: "string option"
  cri_metadata :: "json option"

record transfer_progress =
  tp_bytesCompleted :: int
  tp_totalBytes :: "int option"
  tp_destinationsCompleted :: "int option"
  tp_destinationsTotal :: "int option"
  tp_updatedAt :: "string option"

datatype transfer_status = Pending | Preparing | Running | Completed | Failed | Cancelled

fun status_text :: "transfer_status \<Rightarrow> string" where
  "status_text Pending = ''pending''"
| "status_text Preparing = ''preparing''"
| "status_text Running = ''running''"
| "status_text Completed = ''completed''"
| "status_text Failed = ''failed''"
| "status_text Cancelled = ''cancelled''"

record transfer_record =
  tr_id :: string
  tr_status :: transfer_status
  tr_name :: "string option"
  tr_createdAt :: string
  tr_progress :: "transfer_progress option"
  tr_error :: "(string \<times> string) option"

record create_transfer_input =
  cti_source :: string
  cti_destinations :: "string list"
  cti_name :: "string option"
  cti_metadata :: "json option"

datatype broker_error = Broker_error (be_message: string) (be_status: int) (be_code: string)

text \<open>What \<open>JSON.stringify\<close> prints of the records the in-process upstream returns.\<close>

definition member :: "string \<Rightarrow> ('a \<Rightarrow> json) \<Rightarrow> 'a option \<Rightarrow> (string \<times> json) list" where
  "member k f v = (case v of None \<Rightarrow> [] | Some x \<Rightarrow> [(k, f x)])"

definition media_json :: "room_media \<Rightarrow> json" where
  "media_json m = JObj ((''url'', JStr (media_url m)) # member ''token'' JStr (media_token m)
     @ member ''whipUrl'' JStr (media_whipUrl m) @ member ''whepUrl'' JStr (media_whepUrl m))"

definition room_json :: "room_record \<Rightarrow> json" where
  "room_json r = JObj ((''id'', JStr (room_id r)) # member ''name'' JStr (room_name r)
     @ (''createdAt'', JStr (room_createdAt r)) # member ''expiresAt'' JStr (room_expiresAt r)
     @ [(''media'', media_json (room_media r))])"

definition progress_json :: "transfer_progress \<Rightarrow> json" where
  "progress_json p = JObj ((''bytesCompleted'', JNum (tp_bytesCompleted p))
     # member ''totalBytes'' JNum (tp_totalBytes p)
     @ member ''destinationsCompleted'' JNum (tp_destinationsCompleted p)
     @ member ''destinationsTotal'' JNum (tp_destinationsTotal p)
     @ member ''updatedAt'' JStr (tp_updatedAt p))"

definition transfer_json :: "transfer_record \<Rightarrow> json" where
  "transfer_json t = JObj ((''id'', JStr (tr_id t)) # (''status'', JStr (status_text (tr_status t)))
     # member ''name'' JStr (tr_name t) @ (''createdAt'', JStr (tr_createdAt t))
     # member ''progress'' progress_json (tr_progress t)
     @ member ''error'' (\<lambda>(c, m). JObj [(''code'', JStr c), (''message'', JStr m)]) (tr_error t))"

subsection \<open>The store\<close>

record memory_options =
  mo_mediaUrl :: "string option"
  mo_totalBytes :: "int option"
  mo_bytesPerTick :: "int option"
  mo_failTransfers :: bool

definition mediaUrl :: "memory_options \<Rightarrow> string" where
  "mediaUrl opts = strip_trailing_slashes
     (coalesce (mo_mediaUrl opts) ''http://127.0.0.1:8788/t/tun_local/webrtc/pub_local'')"

definition totalBytes :: "memory_options \<Rightarrow> int" where
  "totalBytes opts = coalesce (mo_totalBytes opts) (64 * 1024 * 1024)"

definition bytesPerTick :: "memory_options \<Rightarrow> int" where
  "bytesPerTick opts = coalesce (mo_bytesPerTick opts) (8 * 1024 * 1024)"

record memory =
  mem_rooms :: "(string \<times> room_record) list"
  mem_transfers :: "(string \<times> transfer_record) list"
  mem_cancelled :: "string set"
  mem_counter :: nat

definition new_memory :: memory where
  "new_memory = \<lparr>mem_rooms = [], mem_transfers = [], mem_cancelled = {}, mem_counter = 0\<rparr>"

definition nextId :: "string \<Rightarrow> memory \<Rightarrow> string \<times> memory" where
  "nextId pre m =
     (let n = mem_counter m + 1 in
      (pre @ ''_'' @ pad_start 4 (CHR ''0'') (show_nat n), m\<lparr>mem_counter := n\<rparr>))"

definition createRoom :: "memory_options \<Rightarrow> int \<Rightarrow> create_room_input \<Rightarrow> memory \<Rightarrow> room_record \<times> memory" where
  "createRoom opts now input m =
     (let (id, m1) = nextId ''room'' m;
          room = \<lparr>room_id = id, room_name = cri_name input, room_createdAt = toISOString now,
            room_expiresAt = Some (toISOString (now + coalesce (cri_ttlSeconds input) 3600 * 1000)),
            room_media = \<lparr>media_url = mediaUrl opts, media_token = Some (''local-media-token-'' @ id),
              media_whipUrl = Some (mediaUrl opts @ ''/whip''), media_whepUrl = Some (mediaUrl opts @ ''/whep'')\<rparr>\<rparr> in
      (room, m1\<lparr>mem_rooms := amap_set id room (mem_rooms m1)\<rparr>))"

definition getRoom :: "string \<Rightarrow> memory \<Rightarrow> broker_error + room_record" where
  "getRoom roomId m =
     (case map_of (mem_rooms m) roomId of
        None \<Rightarrow> Inl (Broker_error (''No such room: '' @ roomId @ ''.'') 404 ''not_found'')
      | Some room \<Rightarrow> Inr room)"

definition createTransfer ::
  "memory_options \<Rightarrow> int \<Rightarrow> create_transfer_input \<Rightarrow> memory \<Rightarrow> transfer_record \<times> memory" where
  "createTransfer opts now input m =
     (let (id, m1) = nextId ''tr'' m;
          rec = \<lparr>tr_id = id, tr_status = Pending, tr_name = cti_name input, tr_createdAt = toISOString now,
            tr_progress = Some \<lparr>tp_bytesCompleted = 0, tp_totalBytes = Some (totalBytes opts),
              tp_destinationsCompleted = Some 0,
              tp_destinationsTotal = Some (int (length (cti_destinations input))), tp_updatedAt = None\<rparr>,
            tr_error = None\<rparr> in
      (rec, m1\<lparr>mem_transfers := amap_set id rec (mem_transfers m1)\<rparr>))"

definition no_such_transfer :: "string \<Rightarrow> broker_error" where
  "no_such_transfer tid = Broker_error (''No such transfer: '' @ tid @ ''.'') 404 ''not_found''"

definition getTransfer :: "string \<Rightarrow> memory \<Rightarrow> broker_error + transfer_record" where
  "getTransfer tid m =
     (case map_of (mem_transfers m) tid of None \<Rightarrow> Inl (no_such_transfer tid) | Some r \<Rightarrow> Inr r)"

text \<open>\<open>slice(0, limit)\<close>: a negative end counts from the back.\<close>

definition listTransfers :: "int option \<Rightarrow> memory \<Rightarrow> transfer_record list" where
  "listTransfers limit m =
     (let rs = map snd (mem_transfers m); n = coalesce limit 50 in
      take (nat (if n < 0 then int (length rs) + n else n)) rs)"

definition cancelTransfer :: "string \<Rightarrow> memory \<Rightarrow> (broker_error + unit) \<times> memory" where
  "cancelTransfer tid m =
     (case map_of (mem_transfers m) tid of
        None \<Rightarrow> (Inl (no_such_transfer tid), m)
      | Some r \<Rightarrow>
          if tr_status r = Completed \<or> tr_status r = Failed then
            (Inl (Broker_error ''This transfer has already finished.'' 409 ''conflict''), m)
          else (Inr (), m\<lparr>mem_cancelled := insert tid (mem_cancelled m)\<rparr>))"

subsection \<open>Watching a transfer\<close>

record watcher =
  w_id :: string
  w_record :: transfer_record
  w_moved :: int
  w_destinations :: int

definition watch_start :: "string \<Rightarrow> memory \<Rightarrow> broker_error + watcher" where
  "watch_start tid m =
     (case map_of (mem_transfers m) tid of
        None \<Rightarrow> Inl (no_such_transfer tid)
      | Some r \<Rightarrow> Inr \<lparr>w_id = tid, w_record = r,
          w_moved = (case tr_progress r of None \<Rightarrow> 0 | Some p \<Rightarrow> tp_bytesCompleted p),
          w_destinations =
            (case tr_progress r of None \<Rightarrow> 1 | Some p \<Rightarrow> coalesce (tp_destinationsTotal p) 1)\<rparr>)"

text \<open>One turn that is not cancelled: the record it publishes, and whether the transfer is done.\<close>

definition watch_next :: "memory_options \<Rightarrow> int \<Rightarrow> watcher \<Rightarrow> transfer_record \<times> bool \<times> watcher" where
  "watch_next opts now w =
     (let moved = min (totalBytes opts) (w_moved w + bytesPerTick opts);
          finished = moved \<ge> totalBytes opts;
          status = (if finished then if mo_failTransfers opts then Failed else Completed else Running);
          nxt = (w_record w)\<lparr>tr_status := status,
            tr_progress := Some \<lparr>tp_bytesCompleted = moved, tp_totalBytes = Some (totalBytes opts),
              tp_destinationsCompleted = Some (if finished then w_destinations w else 0),
              tp_destinationsTotal = Some (w_destinations w), tp_updatedAt = Some (toISOString now)\<rparr>,
            tr_error := (if status = Failed
              then Some (''internal'', ''Simulated failure from the in-memory upstream.'')
              else tr_error (w_record w))\<rparr> in
      (nxt, finished, w\<lparr>w_moved := moved\<rparr>))"

record turn =
  t_aborted :: bool
  t_now :: int
  t_others :: "memory \<Rightarrow> memory"

definition publish :: "string \<Rightarrow> transfer_record \<Rightarrow> memory \<Rightarrow> memory" where
  "publish tid r m = m\<lparr>mem_transfers := amap_set tid r (mem_transfers m)\<rparr>"

text \<open>
  The loop: the records yielded, whether it returned within the given turns, and the store. What the
  other requests do happens before the test of the loop.
\<close>

fun watch_loop :: "memory_options \<Rightarrow> watcher \<Rightarrow> turn list \<Rightarrow> memory \<Rightarrow> transfer_record list \<times> bool \<times> memory" where
  "watch_loop opts w [] m = ([], False, m)"
| "watch_loop opts w (t # ts) m =
     (let m1 = t_others t m in
      if t_aborted t then ([], True, m1)
      else if w_id w \<in> mem_cancelled m1 then
        (let finished = (w_record w)\<lparr>tr_status := Cancelled\<rparr> in
         ([finished], True, publish (w_id w) finished m1))
      else
        (let (nxt, finished, w') = watch_next opts (t_now t) w; m2 = publish (w_id w) nxt m1 in
         if finished then ([nxt], True, m2)
         else (let (rs, returned, m3) = watch_loop opts w' ts m2 in (nxt # rs, returned, m3))))"

definition watchTransfer ::
  "memory_options \<Rightarrow> string \<Rightarrow> turn list \<Rightarrow> memory \<Rightarrow> (broker_error + transfer_record list \<times> bool) \<times> memory" where
  "watchTransfer opts tid ts m =
     (case watch_start tid m of
        Inl e \<Rightarrow> (Inl e, m)
      | Inr w \<Rightarrow> (let (rs, returned, m') = watch_loop opts w ts m in (Inr (rs, returned), m')))"

subsection \<open>Lemmas\<close>

definition terminal :: "transfer_status \<Rightarrow> bool" where
  "terminal s = (s \<in> {Completed, Failed, Cancelled})"

definition moved_of :: "transfer_record \<Rightarrow> int" where
  "moved_of r = (case tr_progress r of None \<Rightarrow> 0 | Some p \<Rightarrow> tp_bytesCompleted p)"

lemma nextId_simps [simp]:
  "mem_rooms (snd (nextId p m)) = mem_rooms m" "mem_transfers (snd (nextId p m)) = mem_transfers m"
  "mem_counter (snd (nextId p m)) = mem_counter m + 1"
  "mem_cancelled (snd (nextId p m)) = mem_cancelled m"
  by (simp_all add: nextId_def Let_def)

lemma watch_next_fields:
  assumes "watch_next opts now w = (nxt, finished, w')"
  shows "moved_of nxt = min (totalBytes opts) (w_moved w + bytesPerTick opts)"
    "w_moved w' = moved_of nxt" "w_id w' = w_id w" "w_record w' = w_record w"
    "finished \<longleftrightarrow> totalBytes opts \<le> w_moved w + bytesPerTick opts"
    "tr_status nxt = (if finished then if mo_failTransfers opts then Failed else Completed else Running)"
    "tr_id nxt = tr_id (w_record w)"
  using assms by (auto simp: watch_next_def Let_def moved_of_def)

text \<open>A trace of publications: bytes never fall and only the last one is terminal.\<close>

fun progressing :: "int \<Rightarrow> transfer_record list \<Rightarrow> bool" where
  "progressing lo [] = True"
| "progressing lo [r] =
     (tr_status r \<in> {Running, Completed, Failed} \<and> lo \<le> moved_of r \<or> tr_status r = Cancelled)"
| "progressing lo (r # s # rs) =
     (tr_status r = Running \<and> lo \<le> moved_of r \<and> progressing (moved_of r) (s # rs))"

lemma progressing_Cons:
  "tr_status r = Running \<Longrightarrow> lo \<le> moved_of r \<Longrightarrow> progressing (moved_of r) rs \<Longrightarrow> progressing lo (r # rs)"
  by (cases rs) auto

lemma watch_loop_progressing:
  assumes "0 \<le> bytesPerTick opts" and "w_moved w \<le> totalBytes opts"
  shows "progressing (w_moved w) (fst (watch_loop opts w ts m))
    \<and> (\<forall>r \<in> set (fst (watch_loop opts w ts m)). tr_status r = Cancelled \<or> moved_of r \<le> totalBytes opts)"
  using assms(2)
proof (induction ts arbitrary: w m)
  case (Cons t ts)
  obtain nxt finished w' where n: "watch_next opts (t_now t) w = (nxt, finished, w')"
    by (cases "watch_next opts (t_now t) w") auto
  note f = watch_next_fields [OF n]
  have lo: "w_moved w \<le> moved_of nxt" "moved_of nxt \<le> totalBytes opts" using f(1) assms(1) Cons.prems by auto
  show ?case
  proof (cases "t_aborted t \<or> w_id w \<in> mem_cancelled (t_others t m) \<or> finished")
    case True
    then show ?thesis using lo f(6) by (auto simp: n Let_def)
  next
    case False
    obtain rs returned m3 where l:
      "watch_loop opts w' ts (publish (w_id w) nxt (t_others t m)) = (rs, returned, m3)"
      by (cases "watch_loop opts w' ts (publish (w_id w) nxt (t_others t m))") auto
    have "progressing (w_moved w') rs \<and> (\<forall>r \<in> set rs. tr_status r = Cancelled \<or> moved_of r \<le> totalBytes opts)"
      using Cons.IH [of w' "publish (w_id w) nxt (t_others t m)"] lo(2) f(2) by (simp add: l)
    then show ?thesis
      using False lo f(2,6) by (simp add: n l Let_def progressing_Cons)
  qed
qed simp

text \<open>An undisturbed loop: nobody aborts it and nobody cancels the transfer.\<close>

definition undisturbed :: "string \<Rightarrow> turn \<Rightarrow> bool" where
  "undisturbed tid t \<longleftrightarrow> \<not> t_aborted t \<and> (\<forall>m. tid \<notin> mem_cancelled m \<longrightarrow> tid \<notin> mem_cancelled (t_others t m))"

lemma publish_simps [simp]:
  "mem_cancelled (publish tid r m) = mem_cancelled m"
  "map_of (mem_transfers (publish tid r m)) = (map_of (mem_transfers m))(tid \<mapsto> r)"
  by (simp_all add: publish_def)

lemma watch_loop_completes:
  assumes "0 < bytesPerTick opts" and "list_all (undisturbed (w_id w)) ts"
    and "w_id w \<notin> mem_cancelled m"
    and "totalBytes opts - w_moved w \<le> int (length ts) * bytesPerTick opts" and "ts \<noteq> []"
  shows "\<exists>rs r m'. watch_loop opts w ts m = (rs @ [r], True, m')
    \<and> tr_status r = (if mo_failTransfers opts then Failed else Completed) \<and> moved_of r = totalBytes opts
    \<and> map_of (mem_transfers m') (w_id w) = Some r"
  using assms(2-)
proof (induction ts arbitrary: w m)
  case (Cons t ts)
  obtain nxt finished w' where n: "watch_next opts (t_now t) w = (nxt, finished, w')"
    by (cases "watch_next opts (t_now t) w") auto
  note f = watch_next_fields [OF n]
  let ?m2 = "publish (w_id w) nxt (t_others t m)"
  have quiet: "\<not> t_aborted t" "w_id w \<notin> mem_cancelled (t_others t m)"
    using Cons.prems by (auto simp: undisturbed_def)
  show ?case
  proof (cases finished)
    case True
    then have "watch_loop opts w (t # ts) m = ([] @ [nxt], True, ?m2)"
      using quiet by (simp add: n Let_def)
    moreover have "moved_of nxt = totalBytes opts" using True f(1,5) by simp
    ultimately show ?thesis using True f(6) by fastforce
  next
    case False
    have moved: "w_moved w' = w_moved w + bytesPerTick opts" using False f by auto
    have len: "totalBytes opts - w_moved w' \<le> int (length ts) * bytesPerTick opts"
      using Cons.prems(3) moved by (simp add: algebra_simps)
    have "ts \<noteq> []" using len moved False f(5) by auto
    then obtain rs r m' where l: "watch_loop opts w' ts ?m2 = (rs @ [r], True, m')"
      and r: "tr_status r = (if mo_failTransfers opts then Failed else Completed)"
        "moved_of r = totalBytes opts" "map_of (mem_transfers m') (w_id w') = Some r"
      using Cons.IH [of w' ?m2] Cons.prems quiet len f(3) by auto
    have "watch_loop opts w (t # ts) m = ((nxt # rs) @ [r], True, m')"
      using False quiet by (simp add: n l Let_def)
    with r f(3) show ?thesis by metis
  qed
qed simp

subsection \<open>Every interleaving of requests and watches\<close>

text \<open>
  The states the upstream can reach: requests and the turns of any number of watches, in any order.
  A watch takes its record once, when it starts, and keeps it.
\<close>

inductive mem_reach :: "memory_options \<Rightarrow> memory \<Rightarrow> watcher list \<Rightarrow> bool" for opts where
  reach_new: "mem_reach opts new_memory []"
| reach_room: "mem_reach opts m ws \<Longrightarrow> mem_reach opts (snd (createRoom opts now rinput m)) ws"
| reach_transfer: "mem_reach opts m ws \<Longrightarrow> mem_reach opts (snd (createTransfer opts now tinput m)) ws"
| reach_cancel: "mem_reach opts m ws \<Longrightarrow> mem_reach opts (snd (cancelTransfer tid m)) ws"
| reach_watch: "mem_reach opts m ws \<Longrightarrow> watch_start tid m = Inr w \<Longrightarrow> mem_reach opts m (w # ws)"
| reach_cancelled:
    "mem_reach opts m ws \<Longrightarrow> w \<in> set ws \<Longrightarrow> w_id w \<in> mem_cancelled m
     \<Longrightarrow> mem_reach opts (publish (w_id w) ((w_record w)\<lparr>tr_status := Cancelled\<rparr>) m) (remove1 w ws)"
| reach_turn:
    "mem_reach opts m ws \<Longrightarrow> w \<in> set ws \<Longrightarrow> watch_next opts now w = (nxt, finished, w')
     \<Longrightarrow> mem_reach opts (publish (w_id w) nxt m)
          (if finished then remove1 w ws else w' # remove1 w ws)"

definition numbered :: "string \<Rightarrow> nat \<Rightarrow> string set" where
  "numbered pre n = {pre @ ''_'' @ pad_start 4 (CHR ''0'') (show_nat k) | k. k \<le> n}"

definition record_ok :: "memory_options \<Rightarrow> nat \<Rightarrow> string \<Rightarrow> transfer_record \<Rightarrow> bool" where
  "record_ok opts n tid r \<longleftrightarrow> tr_id r = tid \<and> tid \<in> numbered ''tr'' n \<and> moved_of r \<le> totalBytes opts"

definition watcher_ok :: "memory_options \<Rightarrow> nat \<Rightarrow> watcher \<Rightarrow> bool" where
  "watcher_ok opts n w \<longleftrightarrow> record_ok opts n (w_id w) (w_record w) \<and> w_moved w \<le> totalBytes opts"

definition mem_ok :: "memory_options \<Rightarrow> memory \<Rightarrow> watcher list \<Rightarrow> bool" where
  "mem_ok opts m ws \<longleftrightarrow>
     (\<forall>rid room. map_of (mem_rooms m) rid = Some room \<longrightarrow>
        room_id room = rid \<and> rid \<in> numbered ''room'' (mem_counter m))
     \<and> (\<forall>tid r. map_of (mem_transfers m) tid = Some r \<longrightarrow> record_ok opts (mem_counter m) tid r)
     \<and> (\<forall>w \<in> set ws. watcher_ok opts (mem_counter m) w)"

lemma numbered_mono: "x \<in> numbered p n \<Longrightarrow> n \<le> k \<Longrightarrow> x \<in> numbered p k"
  by (auto simp: numbered_def)

lemma pad_show_inj:
  assumes "pad_start w (CHR ''0'') (show_nat i) = pad_start w (CHR ''0'') (show_nat j)"
  shows "i = j"
proof -
  have r: "read_digits 0 (pad_start w (CHR ''0'') (show_nat k)) = (k, [])" for k
    using read_show_nat [of "[]" k] by (simp add: pad_start_def read_zeros no_digit_def)
  have "fst (read_digits 0 (pad_start w (CHR ''0'') (show_nat i))) = j"
    unfolding assms by (simp only: r fst_conv)
  then show ?thesis by (simp only: r fst_conv)
qed

lemma nextId_fst: "fst (nextId p m) = p @ ''_'' @ pad_start 4 (CHR ''0'') (show_nat (mem_counter m + 1))"
  by (simp add: nextId_def Let_def)

lemma nextId_fresh: "fst (nextId p m) \<notin> numbered p (mem_counter m)"
proof
  assume "fst (nextId p m) \<in> numbered p (mem_counter m)"
  then obtain k where "k \<le> mem_counter m"
    and "pad_start 4 (CHR ''0'') (show_nat (mem_counter m + 1)) = pad_start 4 (CHR ''0'') (show_nat k)"
    by (auto simp: nextId_fst numbered_def)
  then show False using pad_show_inj by fastforce
qed

lemma nextId_numbered: "fst (nextId p m) \<in> numbered p (mem_counter m + 1)"
  by (auto simp: nextId_fst numbered_def)

lemma createRoom_eq:
  "\<exists>room. createRoom opts now input m =
     (room, (snd (nextId ''room'' m))\<lparr>mem_rooms := amap_set (fst (nextId ''room'' m)) room (mem_rooms m)\<rparr>)
     \<and> room_id room = fst (nextId ''room'' m)"
  by (simp add: createRoom_def Let_def case_prod_beta)

lemma createTransfer_eq:
  "\<exists>r. createTransfer opts now input m =
     (r, (snd (nextId ''tr'' m))\<lparr>mem_transfers := amap_set (fst (nextId ''tr'' m)) r (mem_transfers m)\<rparr>)
     \<and> tr_id r = fst (nextId ''tr'' m) \<and> moved_of r = 0"
  by (simp add: createTransfer_def Let_def case_prod_beta moved_of_def)

lemma record_ok_mono: "record_ok opts n t r \<Longrightarrow> n \<le> k \<Longrightarrow> record_ok opts k t r"
  using numbered_mono by (auto simp: record_ok_def)

lemma watcher_ok_mono: "watcher_ok opts n w \<Longrightarrow> n \<le> k \<Longrightarrow> watcher_ok opts k w"
  using record_ok_mono by (auto simp: watcher_ok_def)

lemma mem_ok_room: "mem_ok opts m ws \<Longrightarrow> mem_ok opts (snd (createRoom opts now input m)) ws"
  using createRoom_eq [of opts now input m] numbered_mono [of _ "''room''" "mem_counter m" "mem_counter m + 1"]
    record_ok_mono [of opts "mem_counter m" _ _ "mem_counter m + 1"]
    watcher_ok_mono [of opts "mem_counter m" _ "mem_counter m + 1"] nextId_numbered [of "''room''" m]
  unfolding mem_ok_def by (clarsimp simp: fun_upd_apply)

lemma mem_ok_transfer:
  "0 \<le> totalBytes opts \<Longrightarrow> mem_ok opts m ws \<Longrightarrow> mem_ok opts (snd (createTransfer opts now input m)) ws"
  using createTransfer_eq [of opts now input m] numbered_mono [of _ "''room''" "mem_counter m" "mem_counter m + 1"]
    record_ok_mono [of opts "mem_counter m" _ _ "mem_counter m + 1"]
    watcher_ok_mono [of opts "mem_counter m" _ "mem_counter m + 1"] nextId_numbered [of "''tr''" m]
  unfolding mem_ok_def by (clarsimp simp: fun_upd_apply) (simp add: record_ok_def)

lemma mem_ok_publish:
  "mem_ok opts m ws \<Longrightarrow> record_ok opts (mem_counter m) tid r \<Longrightarrow> mem_ok opts (publish tid r m) ws"
  by (simp add: mem_ok_def publish_def)

lemma mem_ok_watchers: "mem_ok opts m ws \<Longrightarrow> set vs \<subseteq> set ws \<Longrightarrow> mem_ok opts m vs"
  by (auto simp: mem_ok_def)

lemma mem_ok_add: "mem_ok opts m ws \<Longrightarrow> watcher_ok opts (mem_counter m) w \<Longrightarrow> mem_ok opts m (w # ws)"
  by (simp add: mem_ok_def)

lemma mem_ok_watcher: "mem_ok opts m ws \<Longrightarrow> w \<in> set ws \<Longrightarrow> watcher_ok opts (mem_counter m) w"
  by (simp add: mem_ok_def)

lemma mem_ok_cancel: "mem_ok opts m ws \<Longrightarrow> mem_ok opts (snd (cancelTransfer tid m)) ws"
  by (simp add: mem_ok_def cancelTransfer_def split: option.split)

lemma watch_start_ok:
  "0 \<le> totalBytes opts \<Longrightarrow> mem_ok opts m ws \<Longrightarrow> watch_start tid m = Inr w \<Longrightarrow> watcher_ok opts (mem_counter m) w"
  by (cases "map_of (mem_transfers m) tid")
    (auto simp: watch_start_def watcher_ok_def mem_ok_def record_ok_def moved_of_def)

lemma publish_counter [simp]: "mem_counter (publish tid r m) = mem_counter m"
  by (simp add: publish_def)

lemma mem_reach_ok:
  assumes "0 \<le> totalBytes opts" and "mem_reach opts m ws"
  shows "mem_ok opts m ws"
  using assms(2)
proof (induction rule: mem_reach.induct)
  case reach_new
  show ?case by (simp add: mem_ok_def new_memory_def)
next
  case (reach_watch m ws tid w)
  then show ?case using watch_start_ok [OF assms(1)] mem_ok_add by blast
next
  case (reach_cancelled m ws w)
  from reach_cancelled mem_ok_watcher have "watcher_ok opts (mem_counter m) w" by blast
  then have "record_ok opts (mem_counter m) (w_id w) ((w_record w)\<lparr>tr_status := Cancelled\<rparr>)"
    by (simp add: watcher_ok_def record_ok_def moved_of_def)
  with reach_cancelled.IH show ?case
    using mem_ok_publish mem_ok_watchers set_remove1_subset by metis
next
  case (reach_turn m ws w now nxt finished w')
  note f = watch_next_fields [OF reach_turn.hyps(3)]
  from reach_turn mem_ok_watcher have w: "watcher_ok opts (mem_counter m) w" by blast
  then have r: "record_ok opts (mem_counter m) (w_id w) nxt" and w': "watcher_ok opts (mem_counter m) w'"
    using f by (auto simp: watcher_ok_def record_ok_def)
  have "mem_ok opts (publish (w_id w) nxt m) (remove1 w ws)"
    using mem_ok_publish [OF reach_turn.IH r] mem_ok_watchers set_remove1_subset by metis
  then show ?case using mem_ok_add w' by auto
qed (use assms(1) in \<open>simp_all add: mem_ok_room mem_ok_transfer mem_ok_cancel\<close>)

subsection \<open>Properties\<close>

lemma fresh_ids:
  assumes "mem_ok opts m ws"
  shows "map_of (mem_rooms m) (room_id (fst (createRoom opts now rinput m))) = None"
    "map_of (mem_transfers m) (tr_id (fst (createTransfer opts now tinput m))) = None"
proof -
  have "fst (nextId ''room'' m) \<notin> dom (map_of (mem_rooms m))"
    using assms nextId_fresh [of "''room''" m] by (auto simp: mem_ok_def)
  then show "map_of (mem_rooms m) (room_id (fst (createRoom opts now rinput m))) = None"
    using createRoom_eq [of opts now rinput m] by (auto simp: domIff)
  have "fst (nextId ''tr'' m) \<notin> dom (map_of (mem_transfers m))"
    using assms nextId_fresh [of "''tr''" m] by (auto simp: mem_ok_def record_ok_def)
  then show "map_of (mem_transfers m) (tr_id (fst (createTransfer opts now tinput m))) = None"
    using createTransfer_eq [of opts now tinput m] by (auto simp: domIff)
qed

text \<open>
  Whatever requests and watches have interleaved before, creating a room or a transfer answers an
  identifier the store does not hold, so nothing created earlier is overwritten.
\<close>

theorem memory_ids_fresh:
  assumes "mem_reach opts m ws" and "0 \<le> totalBytes opts"
  shows "map_of (mem_rooms m) (room_id (fst (createRoom opts now rinput m))) = None
    \<and> map_of (mem_transfers m) (tr_id (fst (createTransfer opts now tinput m))) = None"
  using fresh_ids [OF mem_reach_ok [OF assms(2,1)]] by blast

definition demo_memory_options :: memory_options where
  "demo_memory_options = \<lparr>mo_mediaUrl = None, mo_totalBytes = Some 20, mo_bytesPerTick = Some 8,
     mo_failTransfers = False\<rparr>"

definition demo_transfer_input :: create_transfer_input where
  "demo_transfer_input = \<lparr>cti_source = ''s3'', cti_destinations = [''a'', ''b''], cti_name = None,
     cti_metadata = None\<rparr>"

definition demo_room_input :: create_room_input where
  "demo_room_input = \<lparr>cri_name = None, cri_ttlSeconds = None, cri_region = None, cri_mode = None,
     cri_metadata = None\<rparr>"

definition demo_memory :: memory where
  "demo_memory = snd (createTransfer demo_memory_options 0 demo_transfer_input new_memory)"

lemma demo_totals [simp]: "totalBytes demo_memory_options = 20" "bytesPerTick demo_memory_options = 8"
    "mo_failTransfers demo_memory_options = False"
  by (simp_all add: totalBytes_def bytesPerTick_def demo_memory_options_def)

lemma demo_reach: "mem_reach demo_memory_options demo_memory []"
  unfolding demo_memory_def by (rule reach_transfer) (rule reach_new)

theorem memory_ids_fresh_witness:
  "map_of (mem_transfers demo_memory)
     (tr_id (fst (createTransfer demo_memory_options 5 demo_transfer_input demo_memory))) = None"
  using memory_ids_fresh [OF demo_reach, where now = 5 and tinput = demo_transfer_input] by simp

text \<open>
  A watch of a transfer the store holds, in any reachable state and under any interference, abort
  and cancellation between its turns, publishes a progression: the byte counts never fall and never
  pass the total, every record but the last says running, and a terminal record is the last one.
\<close>

theorem watch_progression:
  assumes "mem_reach opts m ws" and "0 \<le> totalBytes opts" and "0 \<le> bytesPerTick opts"
    and "watch_start tid m = Inr w"
  shows "\<exists>rs returned m'. watchTransfer opts tid ts m = (Inr (rs, returned), m')
    \<and> progressing (w_moved w) rs
    \<and> (\<forall>r \<in> set rs. tr_status r = Cancelled \<or> moved_of r \<le> totalBytes opts)"
proof -
  have "w_moved w \<le> totalBytes opts"
    using watch_start_ok [OF assms(2) mem_reach_ok [OF assms(2,1)] assms(4)] by (simp add: watcher_ok_def)
  then show ?thesis
    using watch_loop_progressing [OF assms(3), of w ts m] assms(4)
    by (auto simp: watchTransfer_def split: prod.splits)
qed

lemma first_number: "pad_start 4 (CHR ''0'') (show_nat (Suc 0)) = ''0001''"
  by code_simp

lemma demo_watch_start:
  "watch_start ''tr_0001'' demo_memory
     = Inr \<lparr>w_id = ''tr_0001'', w_record = snd (hd (mem_transfers demo_memory)), w_moved = 0, w_destinations = 2\<rparr>"
  by (simp add: demo_memory_def watch_start_def createTransfer_def Let_def nextId_def new_memory_def
      demo_transfer_input_def first_number)

theorem watch_progression_witness:
  "\<exists>rs returned m'. watchTransfer demo_memory_options ''tr_0001'' [] demo_memory = (Inr (rs, returned), m')
    \<and> progressing 0 rs \<and> (\<forall>r \<in> set rs. tr_status r = Cancelled \<or> moved_of r \<le> 20)"
  using watch_progression [OF demo_reach _ _ demo_watch_start, of "[]"] by simp

text \<open>
  A watch nobody aborts and nobody cancels ends: given at least as many turns as the remaining bytes
  need, it returns, and its last record is completed (failed when the options ask for failures) with
  every byte moved; the store holds that record.
\<close>

theorem watch_completes:
  assumes "watch_start tid m = Inr w" and "0 < bytesPerTick opts" and "tid \<notin> mem_cancelled m"
    and "list_all (undisturbed tid) ts" and "ts \<noteq> []"
    and "totalBytes opts - w_moved w \<le> int (length ts) * bytesPerTick opts"
  shows "\<exists>rs r m'. watchTransfer opts tid ts m = (Inr (rs @ [r], True), m')
    \<and> tr_status r = (if mo_failTransfers opts then Failed else Completed)
    \<and> moved_of r = totalBytes opts \<and> getTransfer tid m' = Inr r"
proof -
  have id: "w_id w = tid" using assms(1) by (auto simp: watch_start_def split: option.splits)
  show ?thesis
    using watch_loop_completes [of opts w ts m] assms id
    by (auto simp: watchTransfer_def getTransfer_def)
qed

definition quiet_turn :: turn where
  "quiet_turn = \<lparr>t_aborted = False, t_now = 0, t_others = (\<lambda>m. m)\<rparr>"

theorem watch_completes_witness:
  "\<exists>rs r m'. watchTransfer demo_memory_options ''tr_0001'' [quiet_turn, quiet_turn, quiet_turn] demo_memory
      = (Inr (rs @ [r], True), m')
    \<and> tr_status r = Completed \<and> moved_of r = 20 \<and> getTransfer ''tr_0001'' m' = Inr r"
proof -
  have "''tr_0001'' \<notin> mem_cancelled demo_memory"
    by (simp add: demo_memory_def createTransfer_def Let_def nextId_def new_memory_def)
  from watch_completes [OF demo_watch_start _ this, of demo_memory_options "[quiet_turn, quiet_turn, quiet_turn]"]
  show ?thesis by (simp add: undisturbed_def quiet_turn_def)
qed

text \<open>
  Cancelling is refused, without a change of the store, exactly for a transfer that does not exist
  and for one that has completed or failed; once it is accepted, the next turn of any watch of that
  transfer publishes it as cancelled and ends.
\<close>

theorem cancel_stops_watch:
  "case cancelTransfer tid m of
     (Inl e, m') \<Rightarrow> m' = m \<and> (case map_of (mem_transfers m) tid of
         None \<Rightarrow> be_status e = 404
       | Some r \<Rightarrow> tr_status r \<in> {Completed, Failed} \<and> be_status e = 409)
   | (Inr _, m') \<Rightarrow>
       (\<exists>r. map_of (mem_transfers m) tid = Some r \<and> tr_status r \<notin> {Completed, Failed})
       \<and> watch_loop opts \<lparr>w_id = tid, w_record = r0, w_moved = n, w_destinations = d\<rparr>
            (\<lparr>t_aborted = False, t_now = now, t_others = (\<lambda>s. s)\<rparr> # ts) m'
          = ([r0\<lparr>tr_status := Cancelled\<rparr>], True, publish tid (r0\<lparr>tr_status := Cancelled\<rparr>) m')"
  by (auto simp: cancelTransfer_def no_such_transfer_def Let_def split: option.splits)

end
