(* ===== verification/TransferHandle.thy ===== *)
theory TransferHandle
  imports Http Events MemoryUpstream
begin

text \<open>
  Transfers in the browser (\<open>packages/web-sdk/src/transfers\<close>): reading the wire forms (\<open>toStatus\<close>,
  \<open>toProgress\<close>, \<open>toTransfer\<close>), the live handle with its stream, its polling fallback and its promise
  (\<open>handle.ts\<close>), and the namespace's calls (\<open>index.ts\<close>). A handle is a state machine: stream events,
  a stream failure, the poll timer, poll results, a caller's refresh and \<open>close\<close> may come in any order.
  What it emits is recorded, oldest first. The clock's text is an argument.
\<close>

subsection \<open>Wire forms\<close>

definition KNOWN_STATUSES :: "transfer_status list" where
  "KNOWN_STATUSES = [Pending, Preparing, Running, Completed, Failed, Cancelled]"

definition TERMINAL_STATUSES :: "transfer_status list" where
  "TERMINAL_STATUSES = [Completed, Failed, Cancelled]"

definition toStatus :: "json option \<Rightarrow> transfer_status" where
  "toStatus value =
     (case as_str value of
        None \<Rightarrow> Running
      | Some s \<Rightarrow> coalesce (List.find (\<lambda>st. status_text st = s) KNOWN_STATUSES) Running)"

record progress_view =
  pv_status :: transfer_status
  pv_bytesCompleted :: json
  pv_totalBytes :: "int option"
  pv_percent :: "rat option option"
  pv_destinationsCompleted :: json
  pv_destinationsTotal :: "int option"
  pv_updatedAt :: json

fun falsy :: "json option \<Rightarrow> bool" where
  "falsy None = True"
| "falsy (Some j) = (j = JNull \<or> j = JBool False \<or> j = JNum 0 \<or> j = JStr [])"

text \<open>\<open>a ?? b\<close> on two members of an object.\<close>

definition either_member :: "json \<Rightarrow> string \<Rightarrow> string \<Rightarrow> json option" where
  "either_member j a b = or_else (not_null (jget j a)) (jget j b)"

definition toProgress :: "json option \<Rightarrow> transfer_status \<Rightarrow> string \<Rightarrow> progress_view option" where
  "toProgress wire status now =
     (if falsy wire then None
      else
        (let w = the wire;
             bytesCompleted = coalesce (not_null (either_member w ''bytes_completed'' ''bytesCompleted'')) (JNum 0);
             totalBytes = (case as_num (either_member w ''total_bytes'' ''totalBytes'') of
                Some n \<Rightarrow> if n > 0 then Some n else None | None \<Rightarrow> None) in
         Some \<lparr>pv_status = toStatus (Some (coalesce (not_null (jget w ''status'')) (JStr (status_text status)))),
           pv_bytesCompleted = bytesCompleted, pv_totalBytes = totalBytes,
           pv_percent = (case totalBytes of
              None \<Rightarrow> None
            | Some t \<Rightarrow> Some (map_option (\<lambda>b. min 100 (b / of_int t * 100)) (to_number bytesCompleted))),
           pv_destinationsCompleted =
             coalesce (not_null (either_member w ''destinations_completed'' ''destinationsCompleted'')) (JNum 0),
           pv_destinationsTotal = as_num (either_member w ''destinations_total'' ''destinationsTotal''),
           pv_updatedAt = coalesce (not_null (either_member w ''updated_at'' ''updatedAt'')) (JStr now)\<rparr>))"

record transfer_view =
  tv_id :: "json option"
  tv_status :: transfer_status
  tv_name :: "json option"
  tv_createdAt :: json
  tv_progress :: "progress_view option"
  tv_error :: "(json \<times> json) option"

text \<open>\<^term>\<open>None\<close> is the \<open>TypeError\<close> of reading a member of \<open>null\<close> or \<open>undefined\<close>.\<close>

definition toTransfer :: "json \<Rightarrow> string \<Rightarrow> transfer_view option" where
  "toTransfer wire now =
     (if wire = JNull then None
      else
        (let status = toStatus (jget wire ''status'') in
         Some \<lparr>tv_id = jget wire ''id'', tv_status = status, tv_name = jget wire ''name'',
           tv_createdAt = coalesce (not_null (either_member wire ''created_at'' ''createdAt'')) (JStr now),
           tv_progress = toProgress (jget wire ''progress'') status now,
           tv_error =
             (if falsy (jget wire ''error'') then None
              else (let e = the (jget wire ''error'') in
                Some (coalesce (not_null (jget e ''code'')) (JStr ''internal''),
                      coalesce (not_null (jget e ''message'')) (JStr ''The transfer failed.''))))\<rparr>))"

subsection \<open>The handle\<close>

datatype emission =
  Ev_progress progress_view | Ev_status transfer_status | Ev_completed transfer_view | Ev_error thrown

datatype settlement = Resolved transfer_view | Rejected beam_error

datatype polling = Not_polling | Sleeping | Fetching

record handle =
  h_id :: string
  h_transfer :: transfer_view
  h_closed :: bool
  h_streaming :: bool
  h_polling :: polling
  h_settled :: "settlement option"
  h_emitted :: "emission list"

definition emit_ev :: "emission \<Rightarrow> handle \<Rightarrow> handle" where
  "emit_ev e h = h\<lparr>h_emitted := h_emitted h @ [e]\<rparr>"

definition settlement_of :: "transfer_view \<Rightarrow> settlement" where
  "settlement_of t =
     (if tv_status t = Completed then Resolved t
      else Rejected (new_beam_error BeamApiError
        (case tv_error t of
           Some (_, m) \<Rightarrow> js_string m
         | None \<Rightarrow> if tv_status t = Cancelled then ''The transfer was cancelled.'' else ''The transfer failed.'')
        (code_options
          (if tv_status t = Cancelled then Aborted
           else coalesce (asRemoteErrorCode (case tv_error t of Some (c, _) \<Rightarrow> as_str (Some c) | None \<Rightarrow> None)) Internal)
          (Some False))))"

definition settle :: "transfer_view \<Rightarrow> handle \<Rightarrow> handle" where
  "settle t h =
     (if h_closed h then h
      else
        (let h1 = h\<lparr>h_streaming := False, h_closed := True\<rparr>;
             h2 = (if tv_status t = Completed then emit_ev (Ev_completed t) h1 else h1) in
         h2\<lparr>h_settled := Some (settlement_of t)\<rparr>))"

definition apply_transfer :: "transfer_view \<Rightarrow> handle \<Rightarrow> handle" where
  "apply_transfer nxt h =
     (let statusChanged = tv_status nxt \<noteq> tv_status (h_transfer h);
          h1 = h\<lparr>h_transfer := nxt\<rparr>;
          h2 = (case tv_progress nxt of None \<Rightarrow> h1 | Some p \<Rightarrow> emit_ev (Ev_progress p) h1);
          h3 = (if statusChanged then emit_ev (Ev_status (tv_status nxt)) h2 else h2) in
      if tv_status nxt \<in> set TERMINAL_STATUSES then settle nxt h3 else h3)"

definition id_text :: "transfer_view \<Rightarrow> string" where
  "id_text t = (case tv_id t of None \<Rightarrow> ''undefined'' | Some j \<Rightarrow> js_string j)"

definition new_handle :: "transfer_view \<Rightarrow> handle" where
  "new_handle t =
     (let h = \<lparr>h_id = id_text t, h_transfer = t, h_closed = False, h_streaming = False, h_polling = Not_polling,
        h_settled = None, h_emitted = []\<rparr> in
      if tv_status t \<in> set TERMINAL_STATUSES then settle t h else h\<lparr>h_streaming := True\<rparr>)"

text \<open>\<open>{ ...parsed, id: parsed.id ?? this.id }\<close>.\<close>

definition with_id :: "string \<Rightarrow> json \<Rightarrow> json" where
  "with_id hid parsed =
     JObj ((case parsed of JObj kvs \<Rightarrow> kvs | _ \<Rightarrow> [])
       @ [(''id'', coalesce (not_null (jget parsed ''id'')) (JStr hid))])"

text \<open>The flag tells whether the handler threw.\<close>

definition handleEvent :: "string \<Rightarrow> string \<Rightarrow> handle \<Rightarrow> handle \<times> bool" where
  "handleEvent raw now h =
     (case parse_json raw of
        None \<Rightarrow> (h, False)
      | Some parsed \<Rightarrow>
          if parsed = JNull then (h, True)
          else (case toTransfer (with_id (h_id h) parsed) now of
                  None \<Rightarrow> (h, True)
                | Some t \<Rightarrow> (apply_transfer t h, False)))"

text \<open>\<open>refresh\<close>: the fetched transfer replaces the snapshot before the caller sees it.\<close>

definition refresh :: "thrown + json \<Rightarrow> string \<Rightarrow> handle \<Rightarrow> handle \<times> transfer_view option" where
  "refresh result now h =
     (case result of
        Inl _ \<Rightarrow> (h, None)
      | Inr wire \<Rightarrow>
          (case toTransfer wire now of None \<Rightarrow> (h, None) | Some t \<Rightarrow> (h\<lparr>h_transfer := t\<rparr>, Some t)))"

definition stream_failed :: "thrown \<Rightarrow> handle \<Rightarrow> handle" where
  "stream_failed e h =
     (if h_closed h then h
      else (emit_ev (Ev_error e) h)\<lparr>h_streaming := False, h_polling := Sleeping\<rparr>)"

definition poll_timer :: "handle \<Rightarrow> handle" where
  "poll_timer h =
     (if h_polling h = Sleeping then h\<lparr>h_polling := (if h_closed h then Not_polling else Fetching)\<rparr> else h)"

text \<open>\<open>this.#apply(await this.refresh())\<close> in the loop, then the loop's test.\<close>

definition poll_result :: "thrown + json \<Rightarrow> string \<Rightarrow> handle \<Rightarrow> handle" where
  "poll_result result now h =
     (if h_polling h \<noteq> Fetching then h
      else
        (let h1 = (case refresh result now h of (h', None) \<Rightarrow> h' | (h', Some t) \<Rightarrow> apply_transfer t h') in
         h1\<lparr>h_polling := (if h_closed h1 then Not_polling else Sleeping)\<rparr>))"

definition close :: "handle \<Rightarrow> handle" where
  "close h = (if h_closed h then h else h\<lparr>h_closed := True, h_streaming := False\<rparr>)"

datatype handle_event =
  Stream_event string string | Stream_failed thrown | Poll_timer | Poll_result "thrown + json" string
| Refreshed "thrown + json" string | Close

fun handle_step :: "handle_event \<Rightarrow> handle \<Rightarrow> handle" where
  "handle_step (Stream_event raw now) h = fst (handleEvent raw now h)"
| "handle_step (Stream_failed e) h = stream_failed e h"
| "handle_step Poll_timer h = poll_timer h"
| "handle_step (Poll_result r now) h = poll_result r now h"
| "handle_step (Refreshed r now) h = fst (refresh r now h)"
| "handle_step Close h = close h"

definition handle_run :: "transfer_view \<Rightarrow> handle_event list \<Rightarrow> handle" where
  "handle_run t es = fold handle_step es (new_handle t)"

text \<open>\<open>done\<close>: the first of the settlement, the abort and the timeout, in the order they happen.\<close>

datatype done_event = Done_settles settlement | Done_aborted | Done_timed_out

definition handle_done :: "handle \<Rightarrow> bool \<Rightarrow> int option \<Rightarrow> done_event list \<Rightarrow> (thrown + transfer_view) option" where
  "handle_done h already_aborted timeoutMs events =
     (case h_settled h of
        Some (Resolved t) \<Rightarrow> Some (Inr t)
      | Some (Rejected e) \<Rightarrow> Some (Inl (Beam e))
      | None \<Rightarrow>
          if already_aborted then Some (Inl (Beam abort_error))
          else (case events of
                  [] \<Rightarrow> None
                | Done_settles (Resolved t) # _ \<Rightarrow> Some (Inr t)
                | Done_settles (Rejected e) # _ \<Rightarrow> Some (Inl (Beam e))
                | Done_aborted # _ \<Rightarrow> Some (Inl (Beam abort_error))
                | Done_timed_out # _ \<Rightarrow> Some (Inl (Beam (timeout_error
                    (''Transfer '' @ h_id h @ '' did not finish within ''
                      @ show_int (coalesce timeoutMs 0) @ ''ms.''))))))"

subsection \<open>The namespace\<close>

definition transfer_path :: "string \<Rightarrow> string" where
  "transfer_path tid = ''/transfers/'' @ encodeURIComponent tid"

type_synonym ('w, 'a) http_outcome = "((thrown + 'a) \<times> bool \<times> 'w) option"

definition map_outcome :: "(http_result \<Rightarrow> thrown + 'a) \<Rightarrow> ('w, http_result) http_outcome \<Rightarrow> ('w, 'a) http_outcome" where
  "map_outcome f r =
     (case r of
        None \<Rightarrow> None
      | Some (Inl e, s) \<Rightarrow> Some (Inl e, s)
      | Some (Inr x, s) \<Rightarrow> Some (f x, s))"

definition result_json :: "http_result \<Rightarrow> json" where
  "result_json r = (case r of Parsed j \<Rightarrow> j | _ \<Rightarrow> JNull)"

definition type_error :: thrown where
  "type_error = Foreign ''TypeError''"

definition read_transfer :: "string \<Rightarrow> http_result \<Rightarrow> thrown + transfer_view" where
  "read_transfer now r = (case toTransfer (result_json r) now of None \<Rightarrow> Inl type_error | Some t \<Rightarrow> Inr t)"

record create_transfer_options =
  ct_source :: string
  ct_destination :: "string + string list"
  ct_name :: "string option"
  ct_metadata :: "json option"

definition create_body :: "create_transfer_options \<Rightarrow> json" where
  "create_body options = JObj
     ([(''source'', JStr (ct_source options)),
       (''destinations'', JArr (map JStr (case ct_destination options of Inl d \<Rightarrow> [d] | Inr ds \<Rightarrow> ds)))]
      @ opt_member ''name'' (ct_name options)
      @ (case ct_metadata options of None \<Rightarrow> [] | Some m \<Rightarrow> [(''metadata'', m)]))"

definition transfers_create ::
  "nat \<Rightarrow> transport \<Rightarrow> 'w http_io \<Rightarrow> create_transfer_options \<Rightarrow> string \<Rightarrow> 'w \<Rightarrow> ('w, handle) http_outcome" where
  "transfers_create fuel t io options now w =
     (case newIdempotencyKey ''transfer-create'' io w of
        (key, w1) \<Rightarrow>
          map_outcome (\<lambda>r. map_sum (\<lambda>e. e) new_handle (read_transfer now r))
            (http_post fuel t io ''/transfers'' (Some (create_body options))
              ((plain_options '''')\<lparr>ro_idempotencyKey := Some key\<rparr>) w1))"

definition transfers_get ::
  "nat \<Rightarrow> transport \<Rightarrow> 'w http_io \<Rightarrow> string \<Rightarrow> string \<Rightarrow> 'w \<Rightarrow> ('w, transfer_view) http_outcome" where
  "transfers_get fuel t io tid now w =
     map_outcome (read_transfer now) (http_get fuel t io (transfer_path tid) (plain_options '''') w)"

definition transfers_watch ::
  "nat \<Rightarrow> transport \<Rightarrow> 'w http_io \<Rightarrow> string \<Rightarrow> string \<Rightarrow> 'w \<Rightarrow> ('w, handle) http_outcome" where
  "transfers_watch fuel t io tid now w =
     map_outcome (\<lambda>r. map_sum (\<lambda>e. e) new_handle (read_transfer now r))
       (http_get fuel t io (transfer_path tid) (plain_options '''') w)"

text \<open>\<open>(response.transfers ?? []).map(toTransfer)\<close>: one element that is null throws.\<close>

definition read_transfers :: "string \<Rightarrow> http_result \<Rightarrow> thrown + transfer_view list" where
  "read_transfers now r =
     (if result_json r = JNull then Inl type_error
      else (case not_null (jget (result_json r) ''transfers'') of
              None \<Rightarrow> Inr []
            | Some (JArr ws) \<Rightarrow>
                (case those (map (\<lambda>x. toTransfer x now) ws) of None \<Rightarrow> Inl type_error | Some ts \<Rightarrow> Inr ts)
            | Some _ \<Rightarrow> Inl type_error))"

definition transfers_list ::
  "nat \<Rightarrow> transport \<Rightarrow> 'w http_io \<Rightarrow> int option \<Rightarrow> string option \<Rightarrow> string \<Rightarrow> 'w \<Rightarrow> ('w, transfer_view list) http_outcome" where
  "transfers_list fuel t io limit status now w =
     map_outcome (read_transfers now)
       (http_get fuel t io ''/transfers'' ((plain_options '''')\<lparr>ro_query :=
          [(''limit'', map_option JNum limit), (''status'', map_option JStr status)]\<rparr>) w)"

definition transfers_cancel :: "nat \<Rightarrow> transport \<Rightarrow> 'w http_io \<Rightarrow> string \<Rightarrow> 'w \<Rightarrow> ('w, unit) http_outcome" where
  "transfers_cancel fuel t io tid w =
     map_outcome (\<lambda>_. Inr ()) (http_post fuel t io (transfer_path tid @ ''/cancel'') None (plain_options '''') w)"

text \<open>The handle's own \<open>cancel\<close>: a conflict is not a failure.\<close>

definition handle_cancel :: "nat \<Rightarrow> transport \<Rightarrow> 'w http_io \<Rightarrow> handle \<Rightarrow> 'w \<Rightarrow> ('w, unit) http_outcome" where
  "handle_cancel fuel t io h w =
     (case transfers_cancel fuel t io (h_id h) w of
        Some (Inl (Beam e), s) \<Rightarrow> if err_code e = Conflict then Some (Inr (), s) else Some (Inl (Beam e), s)
      | r \<Rightarrow> r)"

subsection \<open>Lemmas\<close>

lemma find_status: "List.find (\<lambda>st. status_text st = status_text s) KNOWN_STATUSES = Some s"
  by (cases s) (simp_all add: KNOWN_STATUSES_def)

lemma toStatus_text [simp]: "toStatus (Some (JStr (status_text s))) = s"
  by (simp add: toStatus_def find_status)

lemma emit_ev_simps [simp]:
  "h_emitted (emit_ev e h) = h_emitted h @ [e]" "h_transfer (emit_ev e h) = h_transfer h"
  "h_closed (emit_ev e h) = h_closed h" "h_settled (emit_ev e h) = h_settled h"
  "h_streaming (emit_ev e h) = h_streaming h" "h_polling (emit_ev e h) = h_polling h" "h_id (emit_ev e h) = h_id h"
  by (simp_all add: emit_ev_def)

lemma settle_simps [simp]:
  "h_transfer (settle t h) = h_transfer h" "h_closed (settle t h)" "h_polling (settle t h) = h_polling h"
  "h_id (settle t h) = h_id h"
  by (simp_all add: settle_def Let_def)

lemma settle_settled: "h_settled (settle t h) = (if h_closed h then h_settled h else Some (settlement_of t))"
  by (simp add: settle_def Let_def)

definition before_settle :: "transfer_view \<Rightarrow> handle \<Rightarrow> handle" where
  "before_settle nxt h =
     (let h1 = h\<lparr>h_transfer := nxt\<rparr>;
          h2 = (case tv_progress nxt of None \<Rightarrow> h1 | Some p \<Rightarrow> emit_ev (Ev_progress p) h1) in
      if tv_status nxt \<noteq> tv_status (h_transfer h) then emit_ev (Ev_status (tv_status nxt)) h2 else h2)"

lemma apply_transfer_eq:
  "apply_transfer nxt h =
     (if tv_status nxt \<in> set TERMINAL_STATUSES then settle nxt (before_settle nxt h) else before_settle nxt h)"
  by (simp add: apply_transfer_def before_settle_def Let_def)

lemma before_settle_simps [simp]:
  "h_transfer (before_settle t h) = t" "h_closed (before_settle t h) = h_closed h"
  "h_settled (before_settle t h) = h_settled h" "h_polling (before_settle t h) = h_polling h"
  "h_id (before_settle t h) = h_id h"
  by (simp_all add: before_settle_def Let_def split: option.split)

lemma apply_transfer_simps [simp]:
  "h_transfer (apply_transfer t h) = t" "h_polling (apply_transfer t h) = h_polling h"
  "h_id (apply_transfer t h) = h_id h"
  by (simp_all add: apply_transfer_eq)

lemma apply_transfer_settled:
  "h_settled (apply_transfer t h) =
     (if tv_status t \<in> set TERMINAL_STATUSES \<and> \<not> h_closed h then Some (settlement_of t) else h_settled h)"
  by (auto simp: apply_transfer_eq settle_settled)

lemma apply_transfer_closed:
  "h_closed (apply_transfer t h) = (h_closed h \<or> tv_status t \<in> set TERMINAL_STATUSES)"
  by (simp add: apply_transfer_eq)

text \<open>
  The handle's invariant: a settled handle is closed, and \<open>completed\<close> is emitted exactly when, and at
  most once, the promise resolves, with the transfer it resolves to.
\<close>

definition completions :: "handle \<Rightarrow> transfer_view list" where
  "completions h = List.map_filter (\<lambda>e. case e of Ev_completed t \<Rightarrow> Some t | _ \<Rightarrow> None) (h_emitted h)"

lemma completions_emit [simp]:
  "completions (emit_ev e h) = completions h @ (case e of Ev_completed t \<Rightarrow> [t] | _ \<Rightarrow> [])"
  by (cases e) (simp_all add: completions_def List.map_filter_def)

definition handle_ok :: "handle \<Rightarrow> bool" where
  "handle_ok h \<longleftrightarrow> (h_settled h \<noteq> None \<longrightarrow> h_closed h)
     \<and> completions h = (case h_settled h of Some (Resolved t) \<Rightarrow> [t] | _ \<Rightarrow> [])"

lemma completions_update [simp]:
  "completions (h\<lparr>h_transfer := t\<rparr>) = completions h" "completions (h\<lparr>h_polling := p\<rparr>) = completions h"
  "completions (h\<lparr>h_closed := c, h_streaming := s\<rparr>) = completions h"
  "completions (h\<lparr>h_streaming := s, h_closed := c\<rparr>) = completions h"
  "completions (h\<lparr>h_streaming := s, h_polling := p\<rparr>) = completions h"
  "completions (h\<lparr>h_streaming := s\<rparr>) = completions h"
  "completions (h\<lparr>h_closed := c\<rparr>) = completions h"
  "completions (h\<lparr>h_settled := x\<rparr>) = completions h"
  by (simp_all add: completions_def)

lemma completions_before [simp]: "completions (before_settle t h) = completions h"
  by (simp add: before_settle_def Let_def split: option.split)

lemma completions_settle: "completions (settle t h) =
    completions h @ (if \<not> h_closed h \<and> tv_status t = Completed then [t] else [])"
  by (simp add: settle_def Let_def)

lemma settlement_of_Resolved: "settlement_of t = Resolved u \<longleftrightarrow> tv_status t = Completed \<and> u = t"
  by (auto simp: settlement_of_def)

lemma settlement_of_cases:
  "(case settlement_of t of Resolved u \<Rightarrow> [u] | Rejected e \<Rightarrow> []) = (if tv_status t = Completed then [t] else [])"
  by (simp add: settlement_of_def)

lemma settle_ok: "handle_ok h \<Longrightarrow> handle_ok (settle t h)"
  by (cases "h_closed h"; cases "h_settled h")
    (auto simp: handle_ok_def settle_settled completions_settle settlement_of_cases)

lemma apply_ok: "handle_ok h \<Longrightarrow> handle_ok (apply_transfer t h)"
proof -
  assume "handle_ok h"
  then have "handle_ok (before_settle t h)" by (simp add: handle_ok_def)
  then show ?thesis using settle_ok by (simp add: apply_transfer_eq)
qed

lemma handle_ok_fields:
  assumes "handle_ok h" and "h_settled g = h_settled h" and "completions g = completions h"
    and "h_closed h \<Longrightarrow> h_closed g"
  shows "handle_ok g"
  using assms by (auto simp: handle_ok_def)

lemma handle_step_ok: "handle_ok h \<Longrightarrow> handle_ok (handle_step e h)"
proof (cases e)
  case (Poll_result r now)
  assume ok: "handle_ok h"
  define h1 where "h1 = (case refresh r now h of (h', None) \<Rightarrow> h' | (h', Some t) \<Rightarrow> apply_transfer t h')"
  have "handle_ok (fst (refresh r now h))"
    using ok by (auto simp: refresh_def handle_ok_def split: sum.split option.split)
  then have h1: "handle_ok h1" using apply_ok by (auto simp: h1_def split: prod.split option.split)
  have step: "handle_step e h
      = (if h_polling h \<noteq> Fetching then h
         else h1\<lparr>h_polling := (if h_closed h1 then Not_polling else Sleeping)\<rparr>)"
    by (simp add: Poll_result poll_result_def h1_def Let_def)
  have "handle_ok (h1\<lparr>h_polling := p\<rparr>)" for p using h1 by (simp add: handle_ok_def)
  with ok show ?thesis unfolding step by simp
qed (auto simp: handleEvent_def apply_ok refresh_def stream_failed_def poll_timer_def close_def
      split: option.split sum.split elim!: handle_ok_fields)

lemma new_handle_ok: "handle_ok (new_handle t)"
  by (auto simp: new_handle_def handle_ok_def completions_def Let_def settle_def settlement_of_def List.map_filter_def)

lemma handle_run_ok: "handle_ok (handle_run t es)"
proof -
  have "handle_ok h \<Longrightarrow> handle_ok (fold handle_step es h)" for h
    by (induction es arbitrary: h) (simp_all add: handle_step_ok)
  then show ?thesis using new_handle_ok by (simp add: handle_run_def)
qed

lemma settled_kept: "handle_ok h \<Longrightarrow> h_settled h = Some s \<Longrightarrow> h_settled (handle_step e h) = Some s"
  by (cases e)
    (auto simp: handle_ok_def handleEvent_def apply_transfer_settled refresh_def stream_failed_def poll_timer_def
      poll_result_def close_def Let_def split: option.split sum.split)

subsection \<open>Properties\<close>

text \<open>
  A handle settles at most once and for good: in any order of stream events, failures, polls,
  refreshes and closings, once its promise has settled it keeps that outcome and the handle is closed;
  \<open>completed\<close> has been emitted exactly once when the promise resolved, with the transfer it resolved
  to, and never otherwise.
\<close>

theorem handle_settles_once:
  "(h_settled (handle_run t es) \<noteq> None \<longrightarrow>
      h_closed (handle_run t es) \<and> h_settled (handle_run t (es @ rest)) = h_settled (handle_run t es))
   \<and> completions (handle_run t es)
       = (case h_settled (handle_run t es) of Some (Resolved u) \<Rightarrow> [u] | _ \<Rightarrow> [])"
proof -
  have keep: "h_settled (fold handle_step rest h) = Some s" if "handle_ok h" "h_settled h = Some s" for h s
    using that by (induction rest arbitrary: h) (simp_all add: handle_step_ok settled_kept)
  show ?thesis
    using handle_run_ok [of t es] keep [OF handle_run_ok, of t es]
    by (auto simp: handle_ok_def handle_run_def)
qed

definition demo_wire :: "string \<Rightarrow> json" where
  "demo_wire status = JObj [(''id'', JStr ''tr''), (''status'', JStr status)]"

definition demo_view :: "transfer_status \<Rightarrow> transfer_view" where
  "demo_view s = \<lparr>tv_id = Some (JStr ''tr''), tv_status = s, tv_name = None, tv_createdAt = JStr ''now'',
     tv_progress = None, tv_error = None\<rparr>"

lemma demo_toTransfer [simp]: "toTransfer (demo_wire (status_text s)) ''now'' = Some (demo_view s)"
  by (simp add: toTransfer_def demo_wire_def demo_view_def toProgress_def either_member_def not_null_def Let_def)

definition demo_events :: "handle_event list" where
  "demo_events = [Stream_failed (Foreign ''gone''), Poll_timer, Poll_result (Inr (demo_wire ''completed'')) ''now'']"

lemma demo_completed: "toTransfer (demo_wire ''completed'') ''now'' = Some (demo_view Completed)"
  using demo_toTransfer [of Completed] by simp

lemma demo_run: "h_settled (handle_run (demo_view Running) demo_events) = Some (Resolved (demo_view Completed))"
  by (simp add: handle_run_def demo_events_def new_handle_def TERMINAL_STATUSES_def demo_view_def [of Running]
      stream_failed_def poll_timer_def poll_result_def refresh_def demo_completed apply_transfer_settled
      settlement_of_def Let_def) (simp add: demo_view_def)

theorem handle_settles_once_witness:
  "h_settled (handle_run (demo_view Running) (demo_events @ [Stream_event ''{}'' ''later'', Close]))
     = Some (Resolved (demo_view Completed))
   \<and> completions (handle_run (demo_view Running) demo_events) = [demo_view Completed]"
  using handle_settles_once [of "demo_view Running" demo_events "[Stream_event ''{}'' ''later'', Close]"] demo_run
  by simp

text \<open>
  The polling fallback never reports a status change: \<open>refresh\<close> has already replaced the snapshot
  when the loop compares the statuses, so they are always equal and no \<open>status\<close> event is emitted for
  any poll result, although the same transfer arriving on the stream emits one whenever its status
  differs.
\<close>

theorem polling_never_emits_status:
  "(\<exists>new. h_emitted (poll_result r now h) = h_emitted h @ new \<and> (\<forall>s. Ev_status s \<notin> set new))
   \<and> (tv_status t \<noteq> tv_status (h_transfer h) \<longrightarrow> Ev_status (tv_status t) \<in> set (h_emitted (apply_transfer t h)))"
proof -
  have settle: "\<exists>new. h_emitted (settle u g) = h_emitted g @ new \<and> (\<forall>s. Ev_status s \<notin> set new)" for u g
    by (auto simp: settle_def Let_def)
  have same: "\<exists>new. h_emitted (before_settle u (g\<lparr>h_transfer := u\<rparr>)) = h_emitted g @ new
      \<and> (\<forall>s. Ev_status s \<notin> set new)" for u g
    by (auto simp: before_settle_def Let_def split: option.split)
  have app: "\<exists>new. h_emitted (apply_transfer u (g\<lparr>h_transfer := u\<rparr>)) = h_emitted g @ new
      \<and> (\<forall>s. Ev_status s \<notin> set new)" for u g
  proof -
    obtain n1 where n1: "h_emitted (before_settle u (g\<lparr>h_transfer := u\<rparr>)) = h_emitted g @ n1"
      "\<forall>s. Ev_status s \<notin> set n1" using same by blast
    obtain n2 where n2: "h_emitted (settle u (before_settle u (g\<lparr>h_transfer := u\<rparr>)))
        = h_emitted (before_settle u (g\<lparr>h_transfer := u\<rparr>)) @ n2" "\<forall>s. Ev_status s \<notin> set n2"
      using settle by blast
    from n1 n2 show ?thesis by (auto simp: apply_transfer_eq)
  qed
  have poll: "\<exists>new. h_emitted (poll_result r now h) = h_emitted h @ new \<and> (\<forall>s. Ev_status s \<notin> set new)"
    using app by (auto simp: poll_result_def refresh_def Let_def split: sum.split option.split)
  have "Ev_status (tv_status t) \<in> set (h_emitted (apply_transfer t h))" if "tv_status t \<noteq> tv_status (h_transfer h)"
  proof -
    have b: "Ev_status (tv_status t) \<in> set (h_emitted (before_settle t h))"
      using that by (simp add: before_settle_def Let_def)
    obtain n where "h_emitted (settle t (before_settle t h)) = h_emitted (before_settle t h) @ n"
      using settle by blast
    with b show ?thesis by (simp add: apply_transfer_eq)
  qed
  with poll show ?thesis by blast
qed

theorem polling_never_emits_status_witness:
  "(\<forall>s. Ev_status s \<notin> set (h_emitted (poll_result (Inr (demo_wire ''completed'')) ''now''
       ((new_handle (demo_view Running))\<lparr>h_polling := Fetching\<rparr>))))
   \<and> Ev_status Completed \<in> set (h_emitted (apply_transfer (demo_view Completed) (new_handle (demo_view Running))))"
proof -
  have n: "h_emitted (new_handle (demo_view Running)) = []" "h_transfer (new_handle (demo_view Running)) = demo_view Running"
    by (simp_all add: new_handle_def demo_view_def TERMINAL_STATUSES_def Let_def)
  have p: "tv_status (demo_view Completed) = Completed" "tv_status (demo_view Running) = Running"
    by (simp_all add: demo_view_def)
  show ?thesis
    using polling_never_emits_status [of "Inr (demo_wire ''completed'')" "''now''"
        "(new_handle (demo_view Running))\<lparr>h_polling := Fetching\<rparr>" "demo_view Completed"]
      polling_never_emits_status [of "Inr (demo_wire ''completed'')" "''now''" "new_handle (demo_view Running)"
        "demo_view Completed"] n p
    by auto
qed

text \<open>
  A reported percentage lies between 0 and 100 whenever the bytes reported are a non-negative number,
  whatever the total says; without a positive total there is none.
\<close>

theorem percent_bounds:
  assumes "toProgress wire status now = Some p" and "pv_percent p = Some (Some x)"
    and "to_number (pv_bytesCompleted p) = Some b" and "0 \<le> b"
  shows "0 \<le> x \<and> x \<le> 100 \<and> (\<exists>n > 0. pv_totalBytes p = Some n \<and> x = min 100 (b / of_int n * 100))"
  using assms by (auto simp: toProgress_def Let_def split: if_splits option.splits)

theorem percent_bounds_witness:
  "\<exists>p x. toProgress (Some (JObj [(''bytes_completed'', JNum 300), (''total_bytes'', JNum 200)])) Running ''now'' = Some p
     \<and> pv_percent p = Some (Some x) \<and> 0 \<le> x \<and> x \<le> 100"
proof -
  obtain p where p: "toProgress (Some (JObj [(''bytes_completed'', JNum 300), (''total_bytes'', JNum 200)])) Running ''now'' = Some p"
    "pv_percent p = Some (Some 100)" "to_number (pv_bytesCompleted p) = Some 300"
    by (simp add: toProgress_def either_member_def not_null_def to_number_def Let_def)
  from percent_bounds [OF p] p show ?thesis by auto
qed

text \<open>
  The polling fallback delivers the outcome: on an open handle whose poll answers a terminal transfer,
  the promise settles with that transfer's outcome, a completed one resolves \<open>done\<close> with it, and the loop
  stops; on a closed handle nothing settles.
\<close>

theorem poll_settles:
  assumes "h_polling h = Fetching" and "toTransfer wire now = Some t" and "tv_status t \<in> set TERMINAL_STATUSES"
  shows "h_polling (poll_result (Inr wire) now h) = Not_polling
    \<and> h_settled (poll_result (Inr wire) now h) = (if h_closed h then h_settled h else Some (settlement_of t))
    \<and> (\<not> h_closed h \<and> tv_status t = Completed \<longrightarrow>
         handle_done (poll_result (Inr wire) now h) aborted timeout evs = Some (Inr t))"
  using assms
  by (auto simp: poll_result_def refresh_def apply_transfer_settled apply_transfer_closed settlement_of_def
      handle_done_def Let_def)

theorem poll_settles_witness:
  "h_polling (poll_result (Inr (demo_wire ''completed'')) ''now'' ((new_handle (demo_view Running))\<lparr>h_polling := Fetching\<rparr>))
    = Not_polling"
  using poll_settles [of "(new_handle (demo_view Running))\<lparr>h_polling := Fetching\<rparr>", OF _ demo_completed]
  by (simp add: demo_view_def TERMINAL_STATUSES_def)

end
