(* ===== verification/Broker.thy ===== *)
theory Broker
  imports WebToken MemoryUpstream Sse
begin

text \<open>
  The broker's request handler (\<open>packages/web-sdk-server/src/broker.ts\<close>): routing, CORS, bearer
  verification, the token endpoint and the room and transfer routes over an upstream. The upstream and
  the customer's \<open>authorize\<close> are functions on an arbitrary world, so everything proved holds for every
  upstream; the in-process upstream is one instance. A request carries its parsed URL; a body that
  cannot be read is \<^term>\<open>None\<close>. A response's event stream is the text written to it.
\<close>

subsection \<open>Requests, responses, upstream\<close>

record request =
  rq_method :: string
  rq_pathname :: string
  rq_query :: "(string \<times> string) list"
  rq_headers :: headers
  rq_body :: "string option"

datatype response_body = No_body | Text_body string | Event_stream string

record response =
  rs_status :: int
  rs_headers :: headers
  rs_body :: response_body

record session_context =
  ctx_subject :: "json option"
  ctx_organizationId :: "json option"
  ctx_scopes :: "json list"
  ctx_claims :: json
  ctx_request :: request

datatype failure_cause = From_broker broker_error | From_token token_error | From_other string

type_synonym ('w, 'a) effect = "'w \<Rightarrow> (failure_cause + 'a) \<times> 'w"

record list_options =
  lo_limit :: "rat option"
  lo_status :: "string option"

record 'w upstream =
  up_createRoom :: "(create_room_input \<Rightarrow> session_context \<Rightarrow> ('w, json) effect) option"
  up_getRoom :: "(string \<Rightarrow> session_context \<Rightarrow> ('w, json) effect) option"
  up_createTransfer :: "(create_transfer_input \<Rightarrow> session_context \<Rightarrow> ('w, json) effect) option"
  up_getTransfer :: "(string \<Rightarrow> session_context \<Rightarrow> ('w, json) effect) option"
  up_cancelTransfer :: "(string \<Rightarrow> session_context \<Rightarrow> ('w, unit) effect) option"
  up_listTransfers :: "(list_options \<Rightarrow> session_context \<Rightarrow> ('w, json list) effect) option"
  up_watchTransfer ::
    "(string \<Rightarrow> session_context \<Rightarrow> 'w \<Rightarrow> (json list \<times> failure_cause option) \<times> 'w) option"

record authorized_session =
  as_subject :: "string option"
  as_organizationId :: "string option"
  as_scopes :: "string list"
  as_ttlSeconds :: "int option"

record 'w broker_options =
  bo_secret :: string
  bo_authorize :: "request \<Rightarrow> ('w, authorized_session option) effect"
  bo_upstream :: "'w upstream"
  bo_basePath :: "string option"
  bo_ttlSeconds :: "int option"
  bo_allowedOrigins :: "string list option"
  bo_issuer :: "string option"
  bo_audience :: "string option"
  bo_onError :: "(failure_cause \<Rightarrow> request \<Rightarrow> 'w \<Rightarrow> 'w) option"
  bo_clock :: "'w \<Rightarrow> int"
  bo_randomUUID :: "'w \<Rightarrow> string"

definition and_then :: "('w, 'a) effect \<Rightarrow> ('a \<Rightarrow> ('w, 'b) effect) \<Rightarrow> ('w, 'b) effect" where
  "and_then m f w = (case m w of (Inl e, w') \<Rightarrow> (Inl e, w') | (Inr a, w') \<Rightarrow> f a w')"

definition ret :: "'a \<Rightarrow> ('w, 'a) effect" where
  "ret a w = (Inr a, w)"

definition fail_with :: "failure_cause \<Rightarrow> ('w, 'a) effect" where
  "fail_with e w = (Inl e, w)"

subsection \<open>Routes\<close>

datatype segment = Lit string | Param

definition ROUTES :: "(string \<times> string \<times> segment list) list" where
  "ROUTES =
     [(''token'', ''POST'', [Lit ''token'']),
      (''rooms.create'', ''POST'', [Lit ''rooms'']),
      (''rooms.get'', ''GET'', [Lit ''rooms'', Param]),
      (''transfers.create'', ''POST'', [Lit ''transfers'']),
      (''transfers.list'', ''GET'', [Lit ''transfers'']),
      (''transfers.events'', ''GET'', [Lit ''transfers'', Param, Lit ''events'']),
      (''transfers.cancel'', ''POST'', [Lit ''transfers'', Param, Lit ''cancel'']),
      (''transfers.get'', ''GET'', [Lit ''transfers'', Param])]"

text \<open>A pattern against the path's segments: what the one group matched, if it matches.\<close>

fun match_segments :: "segment list \<Rightarrow> string list \<Rightarrow> string option \<Rightarrow> string option option" where
  "match_segments [] [] got = Some got"
| "match_segments (Lit l # ps) (s # ss) got = (if l = s then match_segments ps ss got else None)"
| "match_segments (Param # ps) (s # ss) got = (if s = [] then None else match_segments ps ss (Some s))"
| "match_segments _ _ _ = None"

definition match_pattern :: "segment list \<Rightarrow> string \<Rightarrow> string option option" where
  "match_pattern ps path =
     (case split_on (CHR ''/'') path of
        [] # ss \<Rightarrow> match_segments ps ss None
      | _ \<Rightarrow> None)"

text \<open>The left summand is the \<open>URIError\<close> of \<open>decodeURIComponent\<close>.\<close>

fun match_routes ::
  "(string \<times> string \<times> segment list) list \<Rightarrow> string \<Rightarrow> string \<Rightarrow> unit + (string \<times> string) option" where
  "match_routes [] meth path = Inr None"
| "match_routes ((name, rmethod, ps) # rs) meth path =
     (if rmethod \<noteq> meth then match_routes rs meth path
      else (case match_pattern ps path of
              None \<Rightarrow> match_routes rs meth path
            | Some None \<Rightarrow> Inr (Some (name, ''''))
            | Some (Some seg) \<Rightarrow>
                (case decodeURIComponent seg of None \<Rightarrow> Inl () | Some rid \<Rightarrow> Inr (Some (name, rid)))))"

definition matchRoute :: "string \<Rightarrow> string \<Rightarrow> unit + (string \<times> string) option" where
  "matchRoute meth path = match_routes ROUTES meth path"

subsection \<open>Responses\<close>

definition basePath :: "'w broker_options \<Rightarrow> string" where
  "basePath opts = strip_trailing_slashes (coalesce (bo_basePath opts) ''/api/beam'')"

definition audience :: "'w broker_options \<Rightarrow> string" where
  "audience opts = coalesce (bo_audience opts) ''beam-web-sdk''"

definition origin_of :: "request \<Rightarrow> string option" where
  "origin_of req = truthy (header_get (rq_headers req) ''origin'')"

definition corsHeaders :: "'w broker_options \<Rightarrow> request \<Rightarrow> headers" where
  "corsHeaders opts req =
     (case origin_of req of
        None \<Rightarrow> []
      | Some origin \<Rightarrow>
          if (case bo_allowedOrigins opts of None \<Rightarrow> True | Some os \<Rightarrow> origin \<notin> set os) then []
          else [(''access-control-allow-origin'', origin), (''vary'', ''Origin''),
                (''access-control-allow-methods'', ''GET, POST, OPTIONS''),
                (''access-control-allow-headers'', ''authorization, content-type, idempotency-key''),
                (''access-control-allow-credentials'', ''true''), (''access-control-max-age'', ''600'')])"

definition json_response :: "'w broker_options \<Rightarrow> request \<Rightarrow> json \<Rightarrow> int \<Rightarrow> response" where
  "json_response opts req body status =
     \<lparr>rs_status = status,
      rs_headers = (''content-type'', ''application/json'') # (''cache-control'', ''no-store'') # corsHeaders opts req,
      rs_body = Text_body (stringify body)\<rparr>"

definition error_body :: "string \<Rightarrow> string \<Rightarrow> json" where
  "error_body msg cde = JObj [(''error'', JStr msg), (''code'', JStr cde)]"

definition report :: "'w broker_options \<Rightarrow> failure_cause \<Rightarrow> request \<Rightarrow> 'w \<Rightarrow> 'w" where
  "report opts e req w = (case bo_onError opts of None \<Rightarrow> w | Some f \<Rightarrow> f e req w)"

definition failure :: "'w broker_options \<Rightarrow> request \<Rightarrow> failure_cause \<Rightarrow> 'w \<Rightarrow> response \<times> 'w" where
  "failure opts req cause w =
     (case cause of
        From_broker e \<Rightarrow> (json_response opts req (error_body (be_message e) (be_code e)) (be_status e), w)
      | From_token (Token_error msg cde) \<Rightarrow>
          (json_response opts req (error_body msg cde) (if cde = ''insufficient_scope'' then 403 else 401), w)
      | _ \<Rightarrow>
          (json_response opts req (error_body ''The Beam broker encountered an internal error.'' ''internal'') 500,
           report opts cause req w))"

subsection \<open>The bearer token\<close>

definition verify_options_of :: "'w broker_options \<Rightarrow> request \<Rightarrow> verify_options" where
  "verify_options_of opts req =
     \<lparr>v_secret = bo_secret opts, v_audience = Some (audience opts), v_origin = origin_of req,
      v_clockToleranceSeconds = None\<rparr>"

definition verify :: "hmac \<Rightarrow> 'w broker_options \<Rightarrow> request \<Rightarrow> string list \<Rightarrow> 'w \<Rightarrow> token_error + json" where
  "verify hmac opts req required w =
     (let header = coalesce (header_get (rq_headers req) ''authorization'') [] in
      if \<not> starts_with ''Bearer '' header then Inl (Token_error ''Missing bearer token.'' ''unauthenticated'')
      else (case verifyToken hmac (verify_options_of opts req) (bo_clock opts w) (trim (drop 7 header)) of
              Inl e \<Rightarrow> Inl e
            | Inr claims \<Rightarrow> (case assertScopes claims required of Some e \<Rightarrow> Inl e | None \<Rightarrow> Inr claims)))"

definition authenticated :: "hmac \<Rightarrow> 'w broker_options \<Rightarrow> request \<Rightarrow> string list \<Rightarrow> ('w, json) effect" where
  "authenticated hmac opts req required w =
     (case verify hmac opts req required w of Inl e \<Rightarrow> (Inl (From_token e), w) | Inr c \<Rightarrow> (Inr c, w))"

definition contextFrom :: "request \<Rightarrow> json \<Rightarrow> session_context" where
  "contextFrom req claims =
     \<lparr>ctx_subject = jget claims ''sub'', ctx_organizationId = jget claims ''org'',
      ctx_scopes = claim_scopes claims, ctx_claims = claims, ctx_request = req\<rparr>"

definition bad_json :: failure_cause where
  "bad_json = From_broker (Broker_error ''Request body is not valid JSON.'' 400 ''invalid_argument'')"

definition readJson :: "request \<Rightarrow> failure_cause + json" where
  "readJson req =
     (case rq_body req of
        None \<Rightarrow> Inl bad_json
      | Some text \<Rightarrow>
          if text = [] then Inr (JObj [])
          else (case parse_json text of
                  None \<Rightarrow> Inl bad_json
                | Some parsed \<Rightarrow> Inr (if is_object parsed then parsed else JObj [])))"

definition read_body :: "request \<Rightarrow> ('w, json) effect" where
  "read_body req w = (readJson req, w)"

definition requireCapability :: "'a option \<Rightarrow> string \<Rightarrow> ('w, 'a) effect" where
  "requireCapability m name =
     (case m of
        None \<Rightarrow> fail_with (From_broker (Broker_error
          (''This Beam broker does not implement '' @ name
            @ ''. Add it to the `upstream` passed to createBeamBroker.'') 501 ''not_implemented''))
      | Some f \<Rightarrow> ret f)"

subsection \<open>The token endpoint\<close>

definition granted_scopes :: "authorized_session \<Rightarrow> json \<Rightarrow> string list" where
  "granted_scopes session body =
     (case as_arr (jget body ''scopes'') of
        None \<Rightarrow> as_scopes session
      | Some requested \<Rightarrow> filter (\<lambda>s. JStr s \<in> set requested) (as_scopes session))"

definition token_mint_options :: "'w broker_options \<Rightarrow> request \<Rightarrow> authorized_session \<Rightarrow> string list \<Rightarrow> mint_options" where
  "token_mint_options opts req session granted =
     \<lparr>m_secret = bo_secret opts, m_issuer = bo_issuer opts, m_audience = Some (audience opts),
      m_subject = as_subject session, m_organizationId = as_organizationId session, m_scopes = granted,
      m_ttlSeconds = or_else (as_ttlSeconds session) (bo_ttlSeconds opts), m_origin = origin_of req\<rparr>"

definition token_json :: "'w broker_options \<Rightarrow> string \<Rightarrow> int \<Rightarrow> token_claims \<Rightarrow> json" where
  "token_json opts token expiresIn claims = JObj
     [(''access_token'', JStr token), (''token_type'', JStr ''Bearer''), (''expires_in'', JNum expiresIn),
      (''scopes'', JArr (map JStr (c_scopes claims))), (''endpoint'', JStr (basePath opts))]"

definition mint_effect :: "hmac \<Rightarrow> 'w broker_options \<Rightarrow> mint_options \<Rightarrow> ('w, string \<times> token_claims \<times> int) effect" where
  "mint_effect hmac opts mo w =
     (case mintToken hmac (bo_randomUUID opts w) (bo_clock opts w) mo of
        Inl e \<Rightarrow> (Inl (From_token e), w) | Inr r \<Rightarrow> (Inr r, w))"

definition handleToken :: "hmac \<Rightarrow> 'w broker_options \<Rightarrow> request \<Rightarrow> ('w, response) effect" where
  "handleToken hmac opts req =
     and_then (bo_authorize opts req) (\<lambda>s.
       case s of
         None \<Rightarrow> fail_with (From_broker
           (Broker_error ''Not permitted to obtain a Beam token.'' 401 ''unauthenticated''))
       | Some session \<Rightarrow>
           and_then (read_body req) (\<lambda>body.
             (let granted = granted_scopes session body in
              if granted = [] then fail_with (From_broker (Broker_error
                ''None of the requested scopes are permitted for this session.'' 403 ''permission_denied''))
              else and_then (mint_effect hmac opts (token_mint_options opts req session granted))
                (\<lambda>(token, claims, expiresIn).
                   ret (json_response opts req (token_json opts token expiresIn claims) 200)))))"

subsection \<open>The event stream\<close>

definition transfer_frame :: "nat \<Rightarrow> json \<Rightarrow> string" where
  "transfer_frame n r =
     ''id: '' @ show_nat n @ [LF] @ ''event: transfer'' @ [LF] @ ''data: '' @ stringify r @ [LF, LF]"

definition error_frame :: string where
  "error_frame = ''event: error'' @ [LF] @ ''data: '' @ stringify (JObj [(''error'', JStr ''stream_failed'')]) @ [LF, LF]"

fun transfer_frames :: "nat \<Rightarrow> json list \<Rightarrow> string" where
  "transfer_frames n [] = []"
| "transfer_frames n (r # rs) = transfer_frame (n + 1) r @ transfer_frames (n + 1) rs"

definition handleTransferEvents ::
  "'w broker_options \<Rightarrow> request \<Rightarrow> string \<Rightarrow> session_context \<Rightarrow> ('w, response) effect" where
  "handleTransferEvents opts req transferId context =
     and_then (requireCapability (up_watchTransfer (bo_upstream opts)) ''watchTransfer'') (\<lambda>watch w.
       (let ((records, threw), w1) = watch transferId context w;
            w2 = (case threw of None \<Rightarrow> w1 | Some e \<Rightarrow> report opts e req w1);
            text = transfer_frames 0 records @ (case threw of None \<Rightarrow> [] | Some _ \<Rightarrow> error_frame) in
        (Inr \<lparr>rs_status = 200,
           rs_headers = [(''content-type'', ''text/event-stream''), (''cache-control'', ''no-store''),
             (''connection'', ''keep-alive''), (''x-accel-buffering'', ''no'')] @ corsHeaders opts req,
           rs_body = Event_stream text\<rparr>, w2)))"

subsection \<open>The handler\<close>

definition room_input :: "json \<Rightarrow> create_room_input" where
  "room_input body =
     \<lparr>cri_name = as_str (jget body ''name''), cri_ttlSeconds = as_num (jget body ''ttl_seconds''),
      cri_region = as_str (jget body ''region''), cri_mode = as_str (jget body ''mode''),
      cri_metadata = jget body ''metadata''\<rparr>"

definition transfer_input :: "json \<Rightarrow> ('w, create_transfer_input) effect" where
  "transfer_input body =
     (case (as_str (jget body ''source''), as_arr (jget body ''destinations'')) of
        (Some source, Some ds) \<Rightarrow>
          ret \<lparr>cti_source = source, cti_destinations = map js_string ds,
               cti_name = as_str (jget body ''name''), cti_metadata = jget body ''metadata''\<rparr>
      | _ \<Rightarrow> fail_with (From_broker
          (Broker_error ''`source` and `destinations` are required.'' 400 ''invalid_argument'')))"

definition list_input :: "request \<Rightarrow> list_options" where
  "list_input req =
     (let limit = js_number (coalesce (map_of (rq_query req) ''limit'') []) in
      \<lparr>lo_limit = (case limit of None \<Rightarrow> None | Some l \<Rightarrow> if l > 0 then Some l else None),
       lo_status = map_of (rq_query req) ''status''\<rparr>)"

definition route_effect :: "hmac \<Rightarrow> 'w broker_options \<Rightarrow> request \<Rightarrow> string \<Rightarrow> string \<Rightarrow> ('w, response option) effect" where
  "route_effect hmac opts req name rid =
     (let up = bo_upstream opts;
          answer = (\<lambda>status body. ret (Some (json_response opts req body status))) in
      if name = ''token'' then and_then (handleToken hmac opts req) (\<lambda>r. ret (Some r))
      else if name = ''rooms.create'' then
        and_then (authenticated hmac opts req [''rooms:create'']) (\<lambda>claims.
          and_then (read_body req) (\<lambda>body.
            and_then (requireCapability (up_createRoom up) ''createRoom'') (\<lambda>create.
              and_then (create (room_input body) (contextFrom req claims)) (answer 201))))
      else if name = ''rooms.get'' then
        and_then (authenticated hmac opts req [''room:read'']) (\<lambda>claims.
          and_then (requireCapability (up_getRoom up) ''getRoom'') (\<lambda>get.
            and_then (get rid (contextFrom req claims)) (answer 200)))
      else if name = ''transfers.create'' then
        and_then (authenticated hmac opts req [''transfers:create'']) (\<lambda>claims.
          and_then (read_body req) (\<lambda>body.
            and_then (transfer_input body) (\<lambda>input.
              and_then (requireCapability (up_createTransfer up) ''createTransfer'') (\<lambda>create.
                and_then (create input (contextFrom req claims)) (answer 201)))))
      else if name = ''transfers.list'' then
        and_then (authenticated hmac opts req [''transfers:read'']) (\<lambda>claims.
          and_then (requireCapability (up_listTransfers up) ''listTransfers'') (\<lambda>list.
            and_then (list (list_input req) (contextFrom req claims)) (\<lambda>ts.
              answer 200 (JObj [(''transfers'', JArr ts)]))))
      else if name = ''transfers.get'' then
        and_then (authenticated hmac opts req [''transfers:read'']) (\<lambda>claims.
          and_then (requireCapability (up_getTransfer up) ''getTransfer'') (\<lambda>get.
            and_then (get rid (contextFrom req claims)) (answer 200)))
      else if name = ''transfers.events'' then
        and_then (authenticated hmac opts req [''transfers:read'']) (\<lambda>claims.
          and_then (handleTransferEvents opts req rid (contextFrom req claims)) (\<lambda>r. ret (Some r)))
      else if name = ''transfers.cancel'' then
        and_then (authenticated hmac opts req [''transfers:cancel'']) (\<lambda>claims.
          and_then (requireCapability (up_cancelTransfer up) ''cancelTransfer'') (\<lambda>cancel.
            and_then (cancel rid (contextFrom req claims)) (\<lambda>_.
              answer 200 (JObj [(''cancelled'', JBool True)]))))
      else ret None)"

text \<open>
  The path below the mount point. The left summand of the handler is the exception its promise rejects
  with: only the \<open>URIError\<close> of route matching, which happens outside the \<open>try\<close>.
\<close>

definition route_path :: "'w broker_options \<Rightarrow> request \<Rightarrow> string" where
  "route_path opts req =
     (let p = drop (length (basePath opts)) (rq_pathname req) in if p = [] then ''/'' else p)"

definition handle :: "hmac \<Rightarrow> 'w broker_options \<Rightarrow> request \<Rightarrow> 'w \<Rightarrow> (unit + response option) \<times> 'w" where
  "handle hmac opts req w =
     (if \<not> starts_with (basePath opts) (rq_pathname req) then (Inr None, w)
      else if rq_method req = ''OPTIONS'' then
        (Inr (Some \<lparr>rs_status = 204, rs_headers = corsHeaders opts req, rs_body = No_body\<rparr>), w)
      else (case matchRoute (rq_method req) (route_path opts req) of
              Inl _ \<Rightarrow> (Inl (), w)
            | Inr None \<Rightarrow> (Inr None, w)
            | Inr (Some (name, rid)) \<Rightarrow>
                (case route_effect hmac opts req name rid w of
                   (Inr r, w') \<Rightarrow> (Inr r, w')
                 | (Inl e, w') \<Rightarrow> (let (r, w'') = failure opts req e w' in (Inr (Some r), w'')))))"

subsection \<open>Lemmas\<close>

lemma and_then_simps [simp]:
  "and_then (fail_with e) f w = (Inl e, w)" "and_then (ret a) f w = f a w"
  by (simp_all add: and_then_def fail_with_def ret_def)

lemma and_then_Inr:
  "and_then m f w = (Inr b, w') \<longleftrightarrow> (\<exists>a w1. m w = (Inr a, w1) \<and> f a w1 = (Inr b, w'))"
  by (auto simp: and_then_def split: prod.splits sum.splits)

lemma and_then_hit [simp]: "m w = (Inr a, w1) \<Longrightarrow> and_then m f w = f a w1"
  by (simp add: and_then_def)

lemma and_then_miss: "m w = (Inl e, w1) \<Longrightarrow> and_then m f w = (Inl e, w1)"
  by (simp add: and_then_def)

lemmas effect_simps = ret_def fail_with_def requireCapability_def

lemma split_slash [simp]: "split_on (CHR ''/'') (CHR ''/'' # s) = [] # split_on (CHR ''/'') s"
  by simp

lemma match_pattern_slash: "match_pattern ps (CHR ''/'' # s) = match_segments ps (split_on (CHR ''/'') s) None"
  by (simp add: match_pattern_def)

lemma starts_with_drop: "starts_with p s \<Longrightarrow> s = p @ drop (length p) s"
  by (metis append_take_drop_id starts_with_def)

text \<open>The request shapes of the routes with an identifier.\<close>

lemma split_rooms: "CHR ''/'' \<notin> set seg \<Longrightarrow>
    split_on (CHR ''/'') (''rooms/'' @ seg) = [''rooms'', seg]"
  using split_on_append_sep [of "CHR ''/''" "''rooms''" seg] by (simp add: split_on_no_sep)

lemma split_transfers: "CHR ''/'' \<notin> set seg \<Longrightarrow>
    split_on (CHR ''/'') (''transfers/'' @ seg) = [''transfers'', seg]"
  using split_on_append_sep [of "CHR ''/''" "''transfers''" seg] by (simp add: split_on_no_sep)

lemma split_transfers_tail:
  assumes "CHR ''/'' \<notin> set seg" and "CHR ''/'' \<notin> set tail"
  shows "split_on (CHR ''/'') (''transfers/'' @ seg @ CHR ''/'' # tail) = [''transfers'', seg, tail]"
  using assms split_on_append_sep [of "CHR ''/''" "''transfers''" "seg @ CHR ''/'' # tail"]
    split_on_append_sep [of "CHR ''/''" seg tail] by (simp add: split_on_no_sep)

lemma matchRoute_rooms_get:
  assumes "CHR ''/'' \<notin> set seg" and "seg \<noteq> []"
  shows "matchRoute ''GET'' (''/rooms/'' @ seg) =
    (case decodeURIComponent seg of None \<Rightarrow> Inl () | Some rid \<Rightarrow> Inr (Some (''rooms.get'', rid)))"
  using split_rooms [OF assms(1)] assms(2)
  by (simp add: matchRoute_def ROUTES_def match_pattern_slash del: split_on.simps)

text \<open>
  Routing recovers the identifier a client put into the path: for every non-empty identifier in
  well-formed UTF-8, slashes and percent signs included, the encoded path of each route with a
  parameter is matched by that route, with that identifier.
\<close>

theorem route_round_trip:
  assumes "utf8_ok rid" and "rid \<noteq> []"
  shows "matchRoute ''GET'' (''/rooms/'' @ encodeURIComponent rid) = Inr (Some (''rooms.get'', rid))
    \<and> matchRoute ''GET'' (''/transfers/'' @ encodeURIComponent rid) = Inr (Some (''transfers.get'', rid))
    \<and> matchRoute ''GET'' (''/transfers/'' @ encodeURIComponent rid @ ''/events'')
        = Inr (Some (''transfers.events'', rid))
    \<and> matchRoute ''POST'' (''/transfers/'' @ encodeURIComponent rid @ ''/cancel'')
        = Inr (Some (''transfers.cancel'', rid))"
proof -
  let ?seg = "encodeURIComponent rid"
  note seg = encode_no_slash [of rid] assms(2) decode_encode [OF assms(1)]
  have "CHR ''/'' \<notin> set ''events''" "CHR ''/'' \<notin> set ''cancel''" by simp_all
  note tails = split_transfers_tail [OF seg(1) this(1)] split_transfers_tail [OF seg(1) this(2)]
  show ?thesis
    using tails split_transfers [OF seg(1)] seg matchRoute_rooms_get [OF seg(1)]
    by (simp add: matchRoute_def ROUTES_def match_pattern_slash del: split_on.simps)
qed

theorem route_round_trip_witness:
  "matchRoute ''GET'' (''/rooms/'' @ encodeURIComponent ''a/b 50%'') = Inr (Some (''rooms.get'', ''a/b 50%''))"
  using route_round_trip [of "''a/b 50%''"] by simp

text \<open>
  An identifier segment that is not valid percent-encoded UTF-8 makes the handler's promise reject:
  the route is matched before the \<open>try\<close>, so the exception of \<open>decodeURIComponent\<close> is not turned into a
  response and is not reported to \<open>onError\<close>.
\<close>

theorem handle_malformed_id_rejects:
  assumes "CHR ''/'' \<notin> set seg" and "seg \<noteq> []" and "decodeURIComponent seg = None"
    and "rq_pathname req = basePath opts @ ''/rooms/'' @ seg" and "rq_method req = ''GET''"
  shows "handle hmac opts req w = (Inl (), w)"
  using matchRoute_rooms_get [OF assms(1,2)] assms(3-) by (simp add: handle_def route_path_def)

definition demo_upstream :: "'w upstream" where
  "demo_upstream = \<lparr>up_createRoom = None, up_getRoom = None, up_createTransfer = None, up_getTransfer = None,
     up_cancelTransfer = None, up_listTransfers = None,
     up_watchTransfer = Some (\<lambda>tid ctx w. (([JObj [(''id'', JStr tid)]], Some (From_other ''lost'')), w))\<rparr>"

definition demo_session :: authorized_session where
  "demo_session = \<lparr>as_subject = Some ''u'', as_organizationId = None,
     as_scopes = [''room:read'', ''transfers:read''], as_ttlSeconds = None\<rparr>"

definition demo_broker :: "int broker_options" where
  "demo_broker = \<lparr>bo_secret = replicate 32 (CHR ''k''), bo_authorize = (\<lambda>req w. (Inr (Some demo_session), w)),
     bo_upstream = demo_upstream, bo_basePath = Some ''/api/beam/'', bo_ttlSeconds = None,
     bo_allowedOrigins = None, bo_issuer = None, bo_audience = None, bo_onError = None, bo_clock = (\<lambda>w. w),
     bo_randomUUID = (\<lambda>w. ''id'')\<rparr>"

definition demo_request :: request where
  "demo_request = \<lparr>rq_method = ''GET'', rq_pathname = ''/api/beam/rooms/%zz'', rq_query = [],
     rq_headers = [], rq_body = Some ''{}''\<rparr>"

theorem handle_malformed_id_rejects_witness:
  "handle demo_hmac demo_broker demo_request 0 = (Inl (), 0)"
proof (rule handle_malformed_id_rejects [of "''%zz''"])
  show "decodeURIComponent ''%zz'' = None"
    by (simp add: decodeURIComponent_def hex_value_def Let_def)
  show "rq_pathname demo_request = basePath demo_broker @ ''/rooms/'' @ ''%zz''"
    by (simp add: demo_request_def demo_broker_def basePath_def strip_trailing_slashes_def)
  show "rq_method demo_request = ''GET''" by (simp add: demo_request_def)
qed simp_all

subsection \<open>Authorization\<close>

definition required_scope :: "string \<Rightarrow> string" where
  "required_scope name =
     (if name = ''rooms.create'' then ''rooms:create'' else if name = ''rooms.get'' then ''room:read''
      else if name = ''transfers.create'' then ''transfers:create''
      else if name = ''transfers.cancel'' then ''transfers:cancel'' else ''transfers:read'')"

lemma match_routes_name:
  "match_routes rs meth path = Inr (Some (name, rid)) \<Longrightarrow> name \<in> fst ` set rs"
  by (induction rs meth path rule: match_routes.induct) (auto split: if_splits option.splits)

lemma matchRoute_name:
  "matchRoute meth path = Inr (Some (name, rid)) \<Longrightarrow>
     name \<in> {''token'', ''rooms.create'', ''rooms.get'', ''transfers.create'', ''transfers.list'',
       ''transfers.events'', ''transfers.cancel'', ''transfers.get''}"
  using match_routes_name [of ROUTES meth path name rid] unfolding matchRoute_def by (simp add: ROUTES_def)

lemma authenticated_fails:
  "verify hmac opts req required w = Inl e \<Longrightarrow>
     and_then (authenticated hmac opts req required) f w = (Inl (From_token e), w)"
  by (simp add: and_then_def authenticated_def)

lemma route_effect_unverified:
  assumes "matchRoute meth path = Inr (Some (name, rid))" and "name \<noteq> ''token''"
    and "verify hmac opts req [required_scope name] w = Inl e"
  shows "route_effect hmac opts req name rid w = (Inl (From_token e), w)"
  using matchRoute_name [OF assms(1)] assms(2,3)
  by (elim insertE emptyE)
    (simp_all add: route_effect_def required_scope_def authenticated_fails Let_def)

text \<open>
  C38. Every route but the token endpoint is guarded by its own scope: when the request does not carry a
  valid token of this broker with that scope, the answer is 401, or 403 when only the scope is missing,
  and the world is exactly as before, so neither the upstream nor anything else was called. (The one
  remaining case is a signed payload \<open>null\<close>, which is answered 500 and reported.)
\<close>

theorem routes_guarded_by_scope:
  assumes "starts_with (basePath opts) (rq_pathname req)" and "rq_method req \<noteq> ''OPTIONS''"
    and "matchRoute (rq_method req) (route_path opts req) = Inr (Some (name, rid))" and "name \<noteq> ''token''"
    and "verify hmac opts req [required_scope name] w = Inl e"
  shows "\<exists>r. handle hmac opts req w
      = (Inr (Some r), if e = Type_error then report opts (From_token e) req w else w)
    \<and> rs_status r = (case e of Type_error \<Rightarrow> 500
        | Token_error _ c \<Rightarrow> if c = ''insufficient_scope'' then 403 else 401)"
  using route_effect_unverified [OF assms(3-5)] assms(1-3)
  by (cases e) (simp_all add: handle_def failure_def json_response_def)

definition list_request :: request where
  "list_request = demo_request\<lparr>rq_pathname := ''/api/beam/transfers''\<rparr>"

lemma demo_base [simp]: "basePath demo_broker = ''/api/beam''"
  by (simp add: basePath_def demo_broker_def strip_trailing_slashes_def)

theorem routes_guarded_by_scope_witness:
  "\<exists>r. handle demo_hmac demo_broker list_request 7 = (Inr (Some r), 7) \<and> rs_status r = 401"
proof -
  have v: "verify demo_hmac demo_broker list_request [required_scope ''transfers.list''] 7
      = Inl (Token_error ''Missing bearer token.'' ''unauthenticated'')"
    by (simp add: verify_def list_request_def demo_request_def header_get_def starts_with_def)
  have m: "matchRoute (rq_method list_request) (route_path demo_broker list_request)
      = Inr (Some (''transfers.list'', []))"
    by (simp add: list_request_def demo_request_def route_path_def matchRoute_def ROUTES_def match_pattern_def)
  have "starts_with (basePath demo_broker) (rq_pathname list_request)" "rq_method list_request \<noteq> ''OPTIONS''"
    by (simp_all add: list_request_def demo_request_def starts_with_def)
  from routes_guarded_by_scope [OF this m _ v] show ?thesis by simp
qed

subsection \<open>Token issue\<close>

lemma mint_effect_Inr: "mint_effect hmac opts mo w = (Inr r, w') \<longleftrightarrow>
    w' = w \<and> mintToken hmac (bo_randomUUID opts w) (bo_clock opts w) mo = Inr r"
  by (auto simp: mint_effect_def split: sum.splits)

lemma handleToken_Inr:
  assumes "handleToken hmac opts req w = (Inr resp, w')"
  obtains session body token claims ttl where
    "bo_authorize opts req w = (Inr (Some session), w')" "readJson req = Inr body"
    "mintToken hmac (bo_randomUUID opts w') (bo_clock opts w')
       (token_mint_options opts req session (granted_scopes session body)) = Inr (token, claims, ttl)"
    "resp = json_response opts req (token_json opts token ttl claims) 200"
proof -
  from assms obtain s w1 where a: "bo_authorize opts req w = (Inr s, w1)"
    by (auto simp: handleToken_def and_then_Inr)
  with assms obtain session where s: "s = Some session"
    by (cases s) (auto simp: handleToken_def fail_with_def)
  from assms a s obtain body where b: "readJson req = Inr body"
    by (cases "readJson req") (auto simp: handleToken_def and_then_Inr read_body_def)
  show thesis
    using assms a s b that
    by (auto simp: handleToken_def read_body_def and_then_Inr fail_with_def ret_def mint_effect_Inr Let_def
        split: if_splits)
qed

lemma granted_subset: "set (granted_scopes session body) \<subseteq> set (as_scopes session)"
  by (auto simp: granted_scopes_def split: option.splits)

lemma granted_requested:
  "as_arr (jget body ''scopes'') = Some requested \<Longrightarrow> JStr ` set (granted_scopes session body) \<subseteq> set requested"
  by (auto simp: granted_scopes_def)

text \<open>
  The token endpoint only narrows. Whatever the request body says, a token is issued only for a
  session \<open>authorize\<close> returned; its scopes are among those the session may hold and, when the body
  lists scopes, among the listed ones; its lifetime is at most 300 seconds; it names the session's
  subject and the request's origin.
\<close>

theorem token_endpoint_narrows:
  assumes "handleToken hmac opts req w = (Inr resp, w')"
  shows "\<exists>session body token claims ttl.
    bo_authorize opts req w = (Inr (Some session), w') \<and> readJson req = Inr body
    \<and> rs_status resp = 200 \<and> rs_body resp = Text_body (stringify (token_json opts token ttl claims))
    \<and> set (c_scopes claims) \<subseteq> set (as_scopes session) \<and> c_scopes claims \<noteq> []
    \<and> (\<forall>requested. as_arr (jget body ''scopes'') = Some requested \<longrightarrow>
         JStr ` set (c_scopes claims) \<subseteq> set requested)
    \<and> 15 \<le> ttl \<and> ttl \<le> 300 \<and> c_sub claims = as_subject session \<and> c_origin claims = origin_of req"
proof -
  obtain session body token claims ttl where a: "bo_authorize opts req w = (Inr (Some session), w')"
    "readJson req = Inr body"
    "mintToken hmac (bo_randomUUID opts w') (bo_clock opts w')
       (token_mint_options opts req session (granted_scopes session body)) = Inr (token, claims, ttl)"
    "resp = json_response opts req (token_json opts token ttl claims) 200"
    by (rule handleToken_Inr [OF assms])
  note m = mintToken_Inr [OF a(3)]
  have scopes: "set (c_scopes claims) = set (granted_scopes session body)"
    using m(2) by (simp add: token_mint_options_def)
  have "rs_status resp = 200" "rs_body resp = Text_body (stringify (token_json opts token ttl claims))"
    using a(4) by (simp_all add: json_response_def)
  moreover have "c_sub claims = as_subject session" "c_origin claims = origin_of req"
    using m(10,11) by (simp_all add: token_mint_options_def)
  moreover have "set (c_scopes claims) \<subseteq> set (as_scopes session)"
    unfolding scopes by (rule granted_subset)
  moreover have "JStr ` set (c_scopes claims) \<subseteq> set requested"
    if "as_arr (jget body ''scopes'') = Some requested" for requested
    unfolding scopes using that by (rule granted_requested)
  ultimately show ?thesis
    using a(1,2) m(3,5,6) by blast
qed

definition token_request :: request where
  "token_request = \<lparr>rq_method = ''POST'', rq_pathname = ''/api/beam/token'', rq_query = [], rq_headers = [],
     rq_body = Some (stringify (JObj [(''scopes'', JArr [JStr ''room:read'', JStr ''rooms:create''])]))\<rparr>"

lemma demo_token_scopes: "granted_scopes demo_session (JObj [(''scopes'', JArr [JStr ''room:read'', JStr ''rooms:create''])])
    = [''room:read'']"
  by (simp add: granted_scopes_def demo_session_def)

lemma demo_token_body:
  "readJson token_request = Inr (JObj [(''scopes'', JArr [JStr ''room:read'', JStr ''rooms:create''])])"
proof -
  have "stringify (JObj [(''scopes'', JArr [JStr ''room:read'', JStr ''rooms:create''])]) \<noteq> []" by simp
  then show ?thesis
    by (simp only: readJson_def token_request_def request.simps option.case if_False parse_stringify
        is_object.simps if_True)
qed

lemma demo_token_mint:
  "\<exists>token claims. mintToken demo_hmac ''id'' 5000
     (token_mint_options demo_broker token_request demo_session [''room:read'']) = Inr (token, claims, 120)
     \<and> c_iat claims = 5 \<and> c_exp claims = 125 \<and> c_scopes claims = [''room:read''] \<and> c_origin claims = None"
  by (simp add: mintToken_def token_mint_options_def demo_broker_def demo_session_def Let_def
      assertUsableSecret_def BEAM_SCOPES_def dedup_def DEFAULT_TTL_SECONDS_def MAX_TTL_SECONDS_def
      MIN_TTL_SECONDS_def origin_of_def header_get_def token_request_def)

lemma demo_token_issue: "\<exists>resp. handleToken demo_hmac demo_broker token_request 5000 = (Inr resp, 5000)"
proof -
  obtain token claims where "mintToken demo_hmac ''id'' 5000
     (token_mint_options demo_broker token_request demo_session [''room:read'']) = Inr (token, claims, 120)"
    using demo_token_mint by blast
  moreover have "bo_authorize demo_broker token_request 5000 = (Inr (Some demo_session), 5000)"
    "bo_randomUUID demo_broker 5000 = ''id''" "bo_clock demo_broker 5000 = 5000"
    by (simp_all add: demo_broker_def)
  ultimately show ?thesis
    by (simp add: handleToken_def and_then_def read_body_def demo_token_body demo_token_scopes mint_effect_def
        ret_def Let_def)
qed

theorem token_endpoint_narrows_witness:
  "\<exists>resp (claims :: token_claims). handleToken demo_hmac demo_broker token_request 5000 = (Inr resp, 5000)
     \<and> set (c_scopes claims) \<subseteq> {''room:read''} \<and> c_scopes claims \<noteq> []"
proof -
  obtain resp where r: "handleToken demo_hmac demo_broker token_request 5000 = (Inr resp, 5000)"
    using demo_token_issue by blast
  from token_endpoint_narrows [OF r] obtain claims :: token_claims where
    "c_scopes claims \<noteq> []" "set (c_scopes claims) \<subseteq> set (as_scopes demo_session)"
    "JStr ` set (c_scopes claims) \<subseteq> set [JStr ''room:read'', JStr ''rooms:create'']"
    by (auto simp: demo_broker_def demo_token_body)
  then have "set (c_scopes claims) \<subseteq> {''room:read''}" by (auto simp: demo_session_def)
  with r \<open>c_scopes claims \<noteq> []\<close> show ?thesis by blast
qed

text \<open>A request that presents a token.\<close>

definition bearer_request :: "request \<Rightarrow> string \<Rightarrow> bool" where
  "bearer_request req token \<longleftrightarrow> header_get (rq_headers req) ''authorization'' = Some (''Bearer '' @ token)"

lemma verify_bearer:
  assumes "bearer_request req token" and "\<forall>c \<in> set token. \<not> is_space c"
  shows "verify hmac opts req required w =
    (case verifyToken hmac (verify_options_of opts req) (bo_clock opts w) token of
       Inl e \<Rightarrow> Inl e
     | Inr claims \<Rightarrow> (case assertScopes claims required of Some e \<Rightarrow> Inl e | None \<Rightarrow> Inr claims))"
  using assms by (simp add: verify_def bearer_request_def trim_no_space starts_with_def)

lemma minted_token_no_space:
  assumes "mintToken hmac jti now_ms options = Inr (token, claims, ttl)"
  shows "\<forall>c \<in> set token. \<not> is_space c"
  unfolding mintToken_Inr(13) [OF assms]
  using b64url_encode_not_space by (auto simp: sign_def BWT_PREFIX_def is_space_def)

lemma minted_verifies:
  assumes "mintToken hmac jti now_ms options = Inr (token, claims, ttl)"
    and "v_secret vopts = m_secret options"
  shows "verifyToken hmac vopts later_ms token = check_claims vopts later_ms (claims_json claims)"
  unfolding mintToken_Inr(13) [OF assms(1)] using mintToken_Inr(1) [OF assms(1)] assms(2)
  by (metis verifyToken_signed)

lemma claim_scopes_minted [simp]: "claim_scopes (claims_json c) = map JStr (c_scopes c)"
  by (simp add: claim_scopes_def)

text \<open>
  What the token endpoint issues, the broker accepts: a request that presents the token, from the
  same origin or when either side has none, at any time until the expiry plus 30 seconds of tolerance
  (and not more than that before the issue), for scopes the token carries, is verified with exactly the
  claims that were minted.
\<close>

theorem issued_token_verifies:
  assumes "handleToken hmac opts req w = (Inr resp, w1)"
  shows "\<exists>token claims ttl. rs_body resp = Text_body (stringify (token_json opts token ttl claims))
    \<and> 15 \<le> ttl \<and> c_iat claims = bo_clock opts w1 div 1000
    \<and> (\<forall>req2 w2 required.
        bearer_request req2 token
        \<and> (origin_of req2 = None \<or> origin_of req = None \<or> origin_of req2 = origin_of req)
        \<and> c_iat claims - 30 \<le> bo_clock opts w2 div 1000 \<and> bo_clock opts w2 div 1000 < c_iat claims + ttl + 30
        \<and> set required \<subseteq> set (c_scopes claims)
        \<longrightarrow> verify hmac opts req2 required w2 = Inr (claims_json claims))"
proof -
  obtain session body token claims ttl where
    "bo_authorize opts req w = (Inr (Some session), w1)" "readJson req = Inr body" and
    mint: "mintToken hmac (bo_randomUUID opts w1) (bo_clock opts w1)
       (token_mint_options opts req session (granted_scopes session body)) = Inr (token, claims, ttl)"
    and resp: "resp = json_response opts req (token_json opts token ttl claims) 200"
    by (rule handleToken_Inr [OF assms])
  note m = mintToken_Inr [OF mint]
  have claims: "c_aud claims = audience opts" "c_origin claims = origin_of req"
    using m(9,10) by (simp_all add: token_mint_options_def)
  have "verify hmac opts req2 required w2 = Inr (claims_json claims)"
    if "bearer_request req2 token"
      and "origin_of req2 = None \<or> origin_of req = None \<or> origin_of req2 = origin_of req"
      and "c_iat claims - 30 \<le> bo_clock opts w2 div 1000"
      and "bo_clock opts w2 div 1000 < c_iat claims + ttl + 30"
      and "set required \<subseteq> set (c_scopes claims)" for req2 w2 required
  proof -
    have "verifyToken hmac (verify_options_of opts req2) (bo_clock opts w2) token
        = check_claims (verify_options_of opts req2) (bo_clock opts w2) (claims_json claims)"
      using minted_verifies [OF mint] by (simp add: verify_options_of_def token_mint_options_def)
    also have "\<dots> = Inr (claims_json claims)"
    proof -
      have "list_all isBeamScope (map JStr (c_scopes claims))" using m(4) by (auto simp: list_all_iff)
      then show ?thesis
        using that(2-4) m(5-8) claims
        by (auto simp: check_claims_def verify_options_of_def Let_def MAX_TTL_SECONDS_def split: option.splits)
    qed
    finally show ?thesis
      using that(5) assertScopes_None [of "claims_json claims" required]
      by (auto simp: verify_bearer [OF that(1) minted_token_no_space [OF mint]])
  qed
  moreover have "rs_body resp = Text_body (stringify (token_json opts token ttl claims))"
    using resp by (simp add: json_response_def)
  ultimately show ?thesis using m(5,7) by blast
qed

definition presenting :: "string \<Rightarrow> request" where
  "presenting token = demo_request\<lparr>rq_headers := [(''authorization'', ''Bearer '' @ token)]\<rparr>"

theorem issued_token_verifies_witness:
  "\<exists>resp token (claims :: token_claims) ttl.
     handleToken demo_hmac demo_broker token_request 5000 = (Inr resp, 5000)
     \<and> rs_body resp = Text_body (stringify (token_json demo_broker token ttl claims))
     \<and> verify demo_hmac demo_broker (presenting token) [] 15000 = Inr (claims_json claims)"
proof -
  obtain resp where r: "handleToken demo_hmac demo_broker token_request 5000 = (Inr resp, 5000)"
    using demo_token_issue by blast
  from issued_token_verifies [OF r] obtain token claims ttl where
    t: "rs_body resp = Text_body (stringify (token_json demo_broker token ttl claims))" "15 \<le> ttl"
      "c_iat claims = bo_clock demo_broker 5000 div 1000"
    and v: "\<forall>req2 w2 required.
        bearer_request req2 token
        \<and> (origin_of req2 = None \<or> origin_of token_request = None \<or> origin_of req2 = origin_of token_request)
        \<and> c_iat claims - 30 \<le> bo_clock demo_broker w2 div 1000
        \<and> bo_clock demo_broker w2 div 1000 < c_iat claims + ttl + 30
        \<and> set required \<subseteq> set (c_scopes claims)
        \<longrightarrow> verify demo_hmac demo_broker req2 required w2 = Inr (claims_json claims)"
    by blast
  have "bearer_request (presenting token) token" "origin_of token_request = None"
    by (simp_all add: bearer_request_def presenting_def header_get_def to_lower_def to_lower_char_def
        origin_of_def token_request_def)
  moreover have "c_iat claims - 30 \<le> bo_clock demo_broker 15000 div 1000"
    "bo_clock demo_broker 15000 div 1000 < c_iat claims + ttl + 30"
    using t(2,3) by (simp_all add: demo_broker_def)
  ultimately have "verify demo_hmac demo_broker (presenting token) [] 15000 = Inr (claims_json claims)"
    using v by simp
  with r t(1) show ?thesis by blast
qed

subsection \<open>The event stream through the browser's parser\<close>

lemma split_frames_line:
  assumes "LF \<notin> set l"
  shows "split_frames (l @ t) =
    (case split_frames t of ([], r) \<Rightarrow> ([], l @ r) | (f # fs, r) \<Rightarrow> ((l @ f) # fs, r))"
  using assms
proof (induction l)
  case Nil
  show ?case by (simp split: prod.split list.split)
next
  case (Cons c l)
  have c: "c \<noteq> LF" using Cons.prems by auto
  have one: "split_frames (c # s) = (case split_frames s of ([], r) \<Rightarrow> ([], c # r) | (f # fs, r) \<Rightarrow> ((c # f) # fs, r))" for s
    using c by (cases s) simp_all
  show ?case
    using Cons by (simp add: one split: prod.splits list.splits)
qed

lemma split_frames_LF:
  "x \<noteq> LF \<Longrightarrow> split_frames (LF # x # s) =
     (case split_frames (x # s) of ([], r) \<Rightarrow> ([], LF # r) | (f # fs, r) \<Rightarrow> ((LF # f) # fs, r))"
  by simp

lemma split_frames_end: "split_frames (LF # LF # s) = (case split_frames s of (fs, r) \<Rightarrow> ([] # fs, r))"
  by simp

text \<open>A frame of two or three lines in front of other frames.\<close>

lemma frame_two:
  assumes "LF \<notin> set a" "LF \<notin> set b" "b \<noteq> []"
  shows "split_frames (a @ LF # b @ LF # LF # s) =
    (case split_frames s of (fs, r) \<Rightarrow> ((a @ LF # b) # fs, r))"
proof -
  obtain b0 bs where b: "b = b0 # bs" "b0 \<noteq> LF" using assms(2,3) by (cases b) auto
  have "split_frames (b @ LF # LF # s) = (case split_frames s of (fs, r) \<Rightarrow> (b # fs, r))"
    by (simp add: split_frames_line [OF assms(2)] split_frames_end split: prod.split)
  then show ?thesis
    using assms(2) by (simp add: split_frames_line [OF assms(1)] b split_frames_LF split: prod.split)
qed

lemma frame_three:
  assumes "LF \<notin> set a" "LF \<notin> set b" "b \<noteq> []" "LF \<notin> set c" "c \<noteq> []"
  shows "split_frames (a @ LF # b @ LF # c @ LF # LF # s) =
    (case split_frames s of (fs, r) \<Rightarrow> ((a @ LF # b @ LF # c) # fs, r))"
proof -
  obtain b0 bs where b: "b = b0 # bs" "b0 \<noteq> LF" using assms(2,3) by (cases b) auto
  show ?thesis
    using assms(2) frame_two [OF assms(2,4,5), of s]
    by (simp add: split_frames_line [OF assms(1)] b split_frames_LF split: prod.split)
qed

lemma show_nat_no_break: "LF \<notin> set (show_nat n)" "CR \<notin> set (show_nat n)"
  using printable_show_nat [of n] by (auto simp: printable_def)

lemma parse_transfer_frame:
  "parseFrame (''id: '' @ show_nat n @ LF # ''event: transfer'' @ LF # ''data: '' @ stringify r)
     = Some \<lparr>ev_type = ''transfer'', ev_data = stringify r, ev_id = Some (show_nat n)\<rparr>"
proof -
  have l: "LF \<notin> set (''id: '' @ show_nat n)" "LF \<notin> set ''event: transfer''" "LF \<notin> set (''data: '' @ stringify r)"
    using show_nat_no_break(1) [of n] stringify_no_break(1) [of r] by simp_all
  have "split_on LF (''id: '' @ show_nat n @ LF # ''event: transfer'' @ LF # ''data: '' @ stringify r)
      = [''id: '' @ show_nat n, ''event: transfer'', ''data: '' @ stringify r]"
    using split_on_append_sep [OF l(1)] split_on_append_sep [OF l(2)] split_on_no_sep [OF l(3)]
    by (simp del: split_on.simps)
  then show ?thesis
    unfolding parseFrame_def by (simp add: frame_line_def line_field_def line_value_def starts_with_def)
qed

definition error_event :: sse_event where
  "error_event = \<lparr>ev_type = ''error'', ev_data = stringify (JObj [(''error'', JStr ''stream_failed'')]), ev_id = None\<rparr>"

lemma parse_error_frame:
  "parseFrame (''event: error'' @ LF # ''data: '' @ stringify (JObj [(''error'', JStr ''stream_failed'')]))
     = Some error_event"
proof -
  let ?j = "JObj [(''error'', JStr ''stream_failed'')]"
  have l: "LF \<notin> set ''event: error''" "LF \<notin> set (''data: '' @ stringify ?j)"
    using stringify_no_break(1) [of ?j] by (simp_all del: stringify.simps)
  have "split_on LF (''event: error'' @ LF # ''data: '' @ stringify ?j) = [''event: error'', ''data: '' @ stringify ?j]"
    using split_on_append_sep [OF l(1)] split_on_no_sep [OF l(2)] by (simp del: split_on.simps stringify.simps)
  then show ?thesis
    unfolding parseFrame_def
    by (simp add: frame_line_def line_field_def line_value_def starts_with_def error_event_def del: stringify.simps)
qed

text \<open>The events the browser should see.\<close>

fun transfer_events :: "nat \<Rightarrow> json list \<Rightarrow> sse_event list" where
  "transfer_events n [] = []"
| "transfer_events n (r # rs) =
     \<lparr>ev_type = ''transfer'', ev_data = stringify r, ev_id = Some (show_nat (n + 1))\<rparr> # transfer_events (n + 1) rs"

lemma map_filter_Cons: "List.map_filter f (x # xs) = (case f x of None \<Rightarrow> List.map_filter f xs | Some y \<Rightarrow> y # List.map_filter f xs)"
  by (simp add: List.map_filter_def split: option.split)

lemma frames_parse:
  assumes "split_frames rest = (fs, r)"
  shows "\<exists>gs. split_frames (transfer_frames n rs @ rest) = (gs, r)
    \<and> List.map_filter parseFrame gs = transfer_events n rs @ List.map_filter parseFrame fs"
proof (induction rs arbitrary: n)
  case Nil
  show ?case using assms by simp
next
  case (Cons j rs)
  obtain gs where gs: "split_frames (transfer_frames (n + 1) rs @ rest) = (gs, r)"
    "List.map_filter parseFrame gs = transfer_events (n + 1) rs @ List.map_filter parseFrame fs"
    using Cons by blast
  let ?a = "''id: '' @ show_nat (n + 1)" and ?c = "''data: '' @ stringify j"
  have nl: "LF \<notin> set ?a" "LF \<notin> set ''event: transfer''" "''event: transfer'' \<noteq> []" "LF \<notin> set ?c" "?c \<noteq> []"
    using show_nat_no_break(1) [of "n + 1"] stringify_no_break(1) [of j] by simp_all
  have "split_frames (transfer_frames n (j # rs) @ rest) = ((?a @ LF # ''event: transfer'' @ LF # ?c) # gs, r)"
    using frame_three [OF nl, of "transfer_frames (n + 1) rs @ rest"] gs(1)
    by (simp add: transfer_frame_def)
  then show ?case
    using gs(2) parse_transfer_frame [of "n + 1" j]
    by (auto simp: map_filter_Cons intro!: exI)
qed

lemma error_frame_splits:
  "split_frames error_frame = ([''event: error'' @ LF # ''data: '' @ stringify (JObj [(''error'', JStr ''stream_failed'')])], [])"
proof -
  let ?j = "JObj [(''error'', JStr ''stream_failed'')]"
  have nl: "LF \<notin> set ''event: error''" "LF \<notin> set (''data: '' @ stringify ?j)" "''data: '' @ stringify ?j \<noteq> []"
    using stringify_no_break(1) [of ?j] by (simp_all del: stringify.simps)
  from frame_two [OF nl, of "[]"] show ?thesis by (simp add: error_frame_def del: stringify.simps)
qed

lemma frames_no_CR: "CR \<notin> set (transfer_frames n rs)" "CR \<notin> set error_frame"
proof -
  show "CR \<notin> set (transfer_frames n rs)"
    using show_nat_no_break(2) stringify_no_break(2)
    by (induction rs arbitrary: n) (simp_all add: transfer_frame_def)
  show "CR \<notin> set error_frame"
    using stringify_no_break(2) [of "JObj [(''error'', JStr ''stream_failed'')]"]
    by (simp add: error_frame_def del: stringify.simps)
qed

text \<open>
  The broker's event stream is what the browser's parser reads: for every upstream outcome of a
  watch, and however the text is cut into chunks on the way, the parser yields one \<open>transfer\<close> event per
  record the upstream produced, numbered from one, whose data parses back to that record, then an
  \<open>error\<close> event exactly when the upstream threw; nothing is left in the parser's buffer.
\<close>

theorem event_stream_reaches_browser:
  assumes "up_watchTransfer (bo_upstream opts) = Some watch" and "watch tid ctx w = ((records, threw), w1)"
    and "handleTransferEvents opts req tid ctx w = (Inr resp, w2)" and "rs_body resp = Event_stream (concat chunks)"
  shows "push_all [] chunks = (transfer_events 0 records @ (if threw = None then [] else [error_event]), [])
    \<and> map (\<lambda>e. parse_json (ev_data e)) (transfer_events 0 records) = map Some records"
proof -
  let ?tail = "case threw of None \<Rightarrow> [] | Some _ \<Rightarrow> error_frame"
  have written: "concat chunks = transfer_frames 0 records @ ?tail"
    using assms by (auto simp: handleTransferEvents_def requireCapability_def ret_def and_then_def Let_def)
  have tail: "\<exists>fs. split_frames ?tail = (fs, []) \<and> List.map_filter parseFrame fs
      = (if threw = None then [] else [error_event])"
    using error_frame_splits parse_error_frame
    by (cases threw) (auto simp: map_filter_Cons List.map_filter_def simp del: stringify.simps)
  then obtain fs where fs: "split_frames ?tail = (fs, [])"
    "List.map_filter parseFrame fs = (if threw = None then [] else [error_event])" by blast
  obtain gs where gs: "split_frames (transfer_frames 0 records @ ?tail) = (gs, [])"
    "List.map_filter parseFrame gs = transfer_events 0 records @ List.map_filter parseFrame fs"
    using frames_parse [OF fs(1), of 0 records] by blast
  have noCR: "CR \<notin> set (concat chunks)"
    using frames_no_CR(1) [of 0 records] frames_no_CR(2) unfolding written
    by (auto split: option.split)
  have push: "push [] (concat chunks)
      = (transfer_events 0 records @ (if threw = None then [] else [error_event]), [])"
    using gs fs(2) normalize_no_CR [OF noCR] by (simp add: push_def written)
  have all: "push_all [] chunks = push [] (concat chunks)"
  proof (cases "chunks = []")
    case True
    then show ?thesis by (simp add: push_def List.map_filter_def)
  next
    case False
    have "\<forall>c \<in> set chunks. c \<noteq> [] \<longrightarrow> last c \<noteq> CR" using noCR last_in_set by fastforce
    then show ?thesis using False by (intro push_all_concat) simp_all
  qed
  have "map (\<lambda>e. parse_json (ev_data e)) (transfer_events n rs) = map Some rs" for n rs
    by (induction rs arbitrary: n) (simp_all add: parse_stringify)
  then show ?thesis using all push by simp
qed

lemma demo_watch:
  "\<exists>text resp. handleTransferEvents demo_broker demo_request ''tr'' ctx 3 = (Inr resp, 3)
     \<and> rs_body resp = Event_stream text"
  by (simp add: handleTransferEvents_def requireCapability_def ret_def and_then_def Let_def demo_broker_def
      demo_upstream_def report_def)

theorem event_stream_reaches_browser_witness:
  "\<exists>text. push_all [] (map (\<lambda>c. [c]) text)
     = (transfer_events 0 [JObj [(''id'', JStr ''tr'')]] @ [error_event], [])"
proof -
  let ?ctx = "contextFrom demo_request JNull"
  obtain body resp where r: "handleTransferEvents demo_broker demo_request ''tr'' ?ctx 3 = (Inr resp, 3)"
    and b: "rs_body resp = Event_stream body" using demo_watch by blast
  have w: "up_watchTransfer (bo_upstream demo_broker)
      = Some (\<lambda>tid ctx w. (([JObj [(''id'', JStr tid)]], Some (From_other ''lost'')), w))"
    by (simp add: demo_broker_def demo_upstream_def)
  have "concat (map (\<lambda>c. [c]) body) = body" by (induction body) simp_all
  with b have "rs_body resp = Event_stream (concat (map (\<lambda>c. [c]) body))" by simp
  from event_stream_reaches_browser [OF w refl r this] show ?thesis by auto
qed

end
