(* ===== verification/BrokerMemory.thy ===== *)
theory BrokerMemory
  imports Broker
begin

text \<open>
  The in-process upstream as the broker sees it: \<open>memoryUpstream(options)\<close> returns an object of the
  \<open>BeamUpstream\<close> interface over its own store (\<open>upstreams/memory.ts\<close>). The contract of a room store is
  stated once as a locale, what the broker's two room routes then do is proved inside it, and the
  in-process upstream is shown to keep the contract.
\<close>

subsection \<open>The contract of a room store\<close>

locale room_store =
  fixes create :: "create_room_input \<Rightarrow> session_context \<Rightarrow> ('w, json) effect"
    and get :: "string \<Rightarrow> session_context \<Rightarrow> ('w, json) effect"
    and key :: "json \<Rightarrow> string"
    and ok :: "'w \<Rightarrow> bool"
  assumes create_get: "ok w \<Longrightarrow> \<exists>room w'. create input ctx w = (Inr room, w') \<and> ok w' \<and> key room \<noteq> []
      \<and> utf8_ok (key room) \<and> (\<forall>ctx'. get (key room) ctx' w' = (Inr room, w'))"
    and create_keeps: "ok w \<Longrightarrow> create input ctx w = (Inr room, w') \<Longrightarrow> get rid ctx1 w = (Inr r, w)
      \<Longrightarrow> get rid ctx1 w' = (Inr r, w')"
begin

lemma get_route:
  assumes "up_getRoom (bo_upstream opts) = Some get" and "rq_method req = ''GET''"
    and "rq_pathname req = basePath opts @ ''/rooms/'' @ encodeURIComponent rid"
    and "rid \<noteq> []" and "utf8_ok rid" and "verify hmac opts req [''room:read''] w = Inr claims"
    and "get rid (contextFrom req claims) w = (Inr room, w)"
  shows "handle hmac opts req w = (Inr (Some (json_response opts req room 200)), w)"
proof -
  have m: "matchRoute ''GET'' (''/rooms/'' @ encodeURIComponent rid) = Inr (Some (''rooms.get'', rid))"
    using matchRoute_rooms_get [of "encodeURIComponent rid"] assms(4,5) by (simp add: decode_encode)
  have "route_effect hmac opts req ''rooms.get'' rid w = (Inr (Some (json_response opts req room 200)), w)"
    using assms(1,6,7)
    by (simp add: route_effect_def requireCapability_def authenticated_def and_then_def ret_def Let_def)
  then show ?thesis using m assms(2,3) by (simp add: handle_def route_path_def)
qed

lemma create_route:
  assumes "up_createRoom (bo_upstream opts) = Some create" and "rq_method req = ''POST''"
    and "rq_pathname req = basePath opts @ ''/rooms''"
    and "verify hmac opts req [''rooms:create''] w = Inr claims" and "readJson req = Inr body"
    and "create (room_input body) (contextFrom req claims) w = (Inr room, w')"
  shows "handle hmac opts req w = (Inr (Some (json_response opts req room 201)), w')"
proof -
  have m: "matchRoute ''POST'' ''/rooms'' = Inr (Some (''rooms.create'', []))"
    by (simp add: matchRoute_def ROUTES_def match_pattern_def)
  have "route_effect hmac opts req ''rooms.create'' [] w = (Inr (Some (json_response opts req room 201)), w')"
    using assms(1,4,5,6)
    by (simp add: route_effect_def requireCapability_def authenticated_def and_then_def ret_def read_body_def Let_def)
  then show ?thesis using m assms(2,3) by (simp add: handle_def route_path_def)
qed

lemma created_room_served:
  assumes "up_createRoom (bo_upstream opts) = Some create" "up_getRoom (bo_upstream opts) = Some get"
    and "ok w" and "rq_method req = ''POST''" and "rq_pathname req = basePath opts @ ''/rooms''"
    and "verify hmac opts req [''rooms:create''] w = Inr claims" and "readJson req = Inr body"
  shows "\<exists>room w'. handle hmac opts req w = (Inr (Some (json_response opts req room 201)), w') \<and> ok w'
    \<and> (\<forall>req2 claims2. rq_method req2 = ''GET''
         \<and> rq_pathname req2 = basePath opts @ ''/rooms/'' @ encodeURIComponent (key room)
         \<and> verify hmac opts req2 [''room:read''] w' = Inr claims2
         \<longrightarrow> handle hmac opts req2 w' = (Inr (Some (json_response opts req2 room 200)), w'))"
proof -
  from create_get [OF assms(3)] obtain room w' where
    c: "create (room_input body) (contextFrom req claims) w = (Inr room, w')" "ok w'"
      "key room \<noteq> []" "utf8_ok (key room)" "\<forall>ctx'. get (key room) ctx' w' = (Inr room, w')"
    by blast
  have "handle hmac opts req w = (Inr (Some (json_response opts req room 201)), w')"
    by (rule create_route [OF assms(1,4,5,6,7) c(1)])
  moreover have "handle hmac opts req2 w' = (Inr (Some (json_response opts req2 room 200)), w')"
    if "rq_method req2 = ''GET'' \<and> rq_pathname req2 = basePath opts @ ''/rooms/'' @ encodeURIComponent (key room)
      \<and> verify hmac opts req2 [''room:read''] w' = Inr claims2" for req2 claims2
    using that c(3,4,5) by (intro get_route [OF assms(2)]) auto
  ultimately show ?thesis using c(2) by blast
qed

end

subsection \<open>The in-process upstream\<close>

record memory_world =
  mw_store :: memory
  mw_now :: int
  mw_turns :: "turn list"

definition as_effect :: "(memory \<Rightarrow> (broker_error + 'a) \<times> memory) \<Rightarrow> ('a \<Rightarrow> 'b) \<Rightarrow> (memory_world, 'b) effect" where
  "as_effect f g w =
     (case f (mw_store w) of
        (Inl e, m) \<Rightarrow> (Inl (From_broker e), w\<lparr>mw_store := m\<rparr>)
      | (Inr a, m) \<Rightarrow> (Inr (g a), w\<lparr>mw_store := m\<rparr>))"

definition mem_createRoom :: "memory_options \<Rightarrow> create_room_input \<Rightarrow> session_context \<Rightarrow> (memory_world, json) effect" where
  "mem_createRoom opts input ctx w =
     as_effect (\<lambda>m. case createRoom opts (mw_now w) input m of (r, m') \<Rightarrow> (Inr r, m')) room_json w"

definition mem_getRoom :: "string \<Rightarrow> session_context \<Rightarrow> (memory_world, json) effect" where
  "mem_getRoom rid ctx = as_effect (\<lambda>m. (getRoom rid m, m)) room_json"

definition mem_createTransfer ::
  "memory_options \<Rightarrow> create_transfer_input \<Rightarrow> session_context \<Rightarrow> (memory_world, json) effect" where
  "mem_createTransfer opts input ctx w =
     as_effect (\<lambda>m. case createTransfer opts (mw_now w) input m of (r, m') \<Rightarrow> (Inr r, m')) transfer_json w"

definition mem_watch ::
  "memory_options \<Rightarrow> string \<Rightarrow> session_context \<Rightarrow> memory_world \<Rightarrow> (json list \<times> failure_cause option) \<times> memory_world" where
  "mem_watch opts tid ctx w =
     (case watchTransfer opts tid (mw_turns w) (mw_store w) of
        (Inl e, m) \<Rightarrow> (([], Some (From_broker e)), w\<lparr>mw_store := m\<rparr>)
      | (Inr (rs, returned), m) \<Rightarrow> ((map transfer_json rs, None), w\<lparr>mw_store := m, mw_turns := []\<rparr>))"

definition memoryUpstream :: "memory_options \<Rightarrow> memory_world upstream" where
  "memoryUpstream opts =
     \<lparr>up_createRoom = Some (mem_createRoom opts),
      up_getRoom = Some mem_getRoom,
      up_createTransfer = Some (mem_createTransfer opts),
      up_getTransfer = Some (\<lambda>tid ctx. as_effect (\<lambda>m. (getTransfer tid m, m)) transfer_json),
      up_cancelTransfer = Some (\<lambda>tid ctx. as_effect (cancelTransfer tid) (\<lambda>_. ())),
      up_listTransfers = Some (\<lambda>o' ctx. as_effect
        (\<lambda>m. (Inr (listTransfers (map_option floor (lo_limit o')) m), m)) (map transfer_json)),
      up_watchTransfer = Some (mem_watch opts)\<rparr>"

definition room_key :: "json \<Rightarrow> string" where
  "room_key room = coalesce (as_str (jget room ''id'')) []"

lemma room_key_json [simp]: "room_key (room_json r) = room_id r"
  by (simp add: room_key_def room_json_def member_def map_add_def split: option.split)

lemma utf8_ascii: "\<forall>c \<in> set s. (of_char c :: nat) < 128 \<Longrightarrow> utf8_ok s"
  by (induction s) (simp_all add: Let_def)

lemma digit_ascii: "digit_val c \<noteq> None \<Longrightarrow> (of_char c :: nat) < 128"
  by (simp add: digit_val_def Let_def split: if_splits)

lemma nextId_ascii: "utf8_ok (fst (nextId ''room'' m))" "fst (nextId ''room'' m) \<noteq> []"
proof -
  have "\<forall>c \<in> set (show_nat n). (of_char c :: nat) < 128" for n
    using show_nat_all_digits digit_ascii by blast
  then show "utf8_ok (fst (nextId ''room'' m))"
    by (intro utf8_ascii) (auto simp: nextId_fst pad_start_def)
  show "fst (nextId ''room'' m) \<noteq> []" by (simp add: nextId_fst)
qed

definition store_ok :: "memory_options \<Rightarrow> memory_world \<Rightarrow> bool" where
  "store_ok opts w \<longleftrightarrow> (\<exists>ws. mem_ok opts (mw_store w) ws)"

lemma mem_createRoom_eq:
  "\<exists>room. mem_createRoom opts input ctx w
     = (Inr (room_json room), w\<lparr>mw_store := (snd (nextId ''room'' (mw_store w)))
          \<lparr>mem_rooms := amap_set (room_id room) room (mem_rooms (mw_store w))\<rparr>\<rparr>)
   \<and> room_id room = fst (nextId ''room'' (mw_store w))
   \<and> createRoom opts (mw_now w) input (mw_store w) = (room, (snd (nextId ''room'' (mw_store w)))
          \<lparr>mem_rooms := amap_set (room_id room) room (mem_rooms (mw_store w))\<rparr>)"
  using createRoom_eq [of opts "mw_now w" input "mw_store w"]
  by (auto simp: mem_createRoom_def as_effect_def)

interpretation memory_rooms: room_store "mem_createRoom opts" mem_getRoom room_key "store_ok opts" for opts
proof
  fix w input ctx
  assume ok: "store_ok opts w"
  obtain room where r: "mem_createRoom opts input ctx w
     = (Inr (room_json room), w\<lparr>mw_store := (snd (nextId ''room'' (mw_store w)))
          \<lparr>mem_rooms := amap_set (room_id room) room (mem_rooms (mw_store w))\<rparr>\<rparr>)"
    and i: "room_id room = fst (nextId ''room'' (mw_store w))"
    and c: "createRoom opts (mw_now w) input (mw_store w) = (room, (snd (nextId ''room'' (mw_store w)))
          \<lparr>mem_rooms := amap_set (room_id room) room (mem_rooms (mw_store w))\<rparr>)"
    using mem_createRoom_eq by blast
  from ok obtain ws where "mem_ok opts (mw_store w) ws" by (auto simp: store_ok_def)
  from mem_ok_room [OF this, of "mw_now w" input]
  have "store_ok opts (w\<lparr>mw_store := (snd (nextId ''room'' (mw_store w)))
          \<lparr>mem_rooms := amap_set (room_id room) room (mem_rooms (mw_store w))\<rparr>\<rparr>)"
    unfolding c by (auto simp: store_ok_def)
  then show "\<exists>room w'. mem_createRoom opts input ctx w = (Inr room, w') \<and> store_ok opts w' \<and> room_key room \<noteq> []
      \<and> utf8_ok (room_key room) \<and> (\<forall>ctx'. mem_getRoom (room_key room) ctx' w' = (Inr room, w'))"
    using r i nextId_ascii by (intro exI conjI) (auto simp: mem_getRoom_def as_effect_def getRoom_def)
next
  fix w input ctx room w' rid ctx1 r
  assume ok: "store_ok opts w" and c: "mem_createRoom opts input ctx w = (Inr room, w')"
    and g: "mem_getRoom rid ctx1 w = (Inr r, w)"
  obtain room0 where r: "mem_createRoom opts input ctx w
     = (Inr (room_json room0), w\<lparr>mw_store := (snd (nextId ''room'' (mw_store w)))
          \<lparr>mem_rooms := amap_set (room_id room0) room0 (mem_rooms (mw_store w))\<rparr>\<rparr>)"
    and c0: "createRoom opts (mw_now w) input (mw_store w) = (room0, (snd (nextId ''room'' (mw_store w)))
          \<lparr>mem_rooms := amap_set (room_id room0) room0 (mem_rooms (mw_store w))\<rparr>)"
    using mem_createRoom_eq by blast
  from ok obtain ws where "mem_ok opts (mw_store w) ws" by (auto simp: store_ok_def)
  from fresh_ids(1) [OF this, of "mw_now w" input] have "map_of (mem_rooms (mw_store w)) (room_id room0) = None"
    by (simp add: c0)
  moreover obtain r0 where "map_of (mem_rooms (mw_store w)) rid = Some r0" "r = room_json r0"
    using g by (auto simp: mem_getRoom_def as_effect_def getRoom_def split: option.splits)
  ultimately show "mem_getRoom rid ctx1 w' = (Inr r, w')"
    using r c by (auto simp: mem_getRoom_def as_effect_def getRoom_def)
qed

text \<open>
  A room created through the broker over the in-process upstream is served by it: the create route
  answers 201 with the room, and from then on the get route, at the path of the room's encoded
  identifier and for any verified reader, answers 200 with the same body and changes nothing.
\<close>

theorem created_room_is_served:
  assumes "bo_upstream opts = memoryUpstream mopts" and "store_ok mopts w"
    and "rq_method req = ''POST''" and "rq_pathname req = basePath opts @ ''/rooms''"
    and "verify hmac opts req [''rooms:create''] w = Inr claims" and "readJson req = Inr body"
  shows "\<exists>room w'. handle hmac opts req w = (Inr (Some (json_response opts req room 201)), w') \<and> store_ok mopts w'
    \<and> (\<forall>req2 claims2. rq_method req2 = ''GET''
         \<and> rq_pathname req2 = basePath opts @ ''/rooms/'' @ encodeURIComponent (room_key room)
         \<and> verify hmac opts req2 [''room:read''] w' = Inr claims2
         \<longrightarrow> handle hmac opts req2 w' = (Inr (Some (json_response opts req2 room 200)), w'))"
  using assms by (intro memory_rooms.created_room_served) (simp_all add: memoryUpstream_def)

definition memory_broker :: "memory_world broker_options" where
  "memory_broker = \<lparr>bo_secret = replicate 32 (CHR ''k''), bo_authorize = (\<lambda>req w. (Inr None, w)),
     bo_upstream = memoryUpstream demo_memory_options, bo_basePath = None, bo_ttlSeconds = None,
     bo_allowedOrigins = None, bo_issuer = None, bo_audience = None, bo_onError = None, bo_clock = mw_now,
     bo_randomUUID = (\<lambda>w. ''id'')\<rparr>"

definition memory_start :: memory_world where
  "memory_start = \<lparr>mw_store = new_memory, mw_now = 5000, mw_turns = []\<rparr>"

definition creator :: mint_options where
  "creator = demo_mint\<lparr>m_scopes := [''rooms:create'']\<rparr>"

definition create_request :: "string \<Rightarrow> request" where
  "create_request token = \<lparr>rq_method = ''POST'', rq_pathname = ''/api/beam/rooms'', rq_query = [],
     rq_headers = [(''authorization'', ''Bearer '' @ token)], rq_body = Some []\<rparr>"

lemma creator_token: "\<exists>token claims. mintToken demo_hmac ''id'' 5000 creator = Inr (token, claims, 120)"
  by (simp add: creator_def demo_mint_def mintToken_def Let_def assertUsableSecret_def BEAM_SCOPES_def dedup_def
      DEFAULT_TTL_SECONDS_def MAX_TTL_SECONDS_def MIN_TTL_SECONDS_def)

lemma creator_verifies:
  assumes "mintToken demo_hmac ''id'' 5000 creator = Inr (token, claims, 120)"
  shows "verify demo_hmac memory_broker (create_request token) [''rooms:create''] memory_start = Inr (claims_json claims)"
proof -
  note m = mintToken_Inr [OF assms]
  have b: "bearer_request (create_request token) token"
    by (simp add: bearer_request_def create_request_def header_get_def to_lower_def to_lower_char_def)
  have o: "origin_of (create_request token) = None"
    by (simp add: origin_of_def create_request_def header_get_def to_lower_def to_lower_char_def)
  have scopes: "c_scopes claims = [''rooms:create'']"
    using m(2) by (simp add: creator_def dedup_def)
  have aud: "c_aud claims = audience memory_broker"
    using m(9) by (simp add: creator_def demo_mint_def audience_def memory_broker_def)
  have "check_claims (verify_options_of memory_broker (create_request token)) 5000 (claims_json claims)
      = Inr (claims_json claims)"
    using m(5-8) o aud scopes
    by (simp add: check_claims_def verify_options_of_def Let_def MAX_TTL_SECONDS_def BEAM_SCOPES_def
        split: option.split)
  moreover have "v_secret (verify_options_of memory_broker (create_request token)) = m_secret creator"
    by (simp add: verify_options_of_def memory_broker_def creator_def demo_mint_def)
  ultimately have "verifyToken demo_hmac (verify_options_of memory_broker (create_request token)) 5000 token
      = Inr (claims_json claims)"
    using minted_verifies [OF assms] by simp
  moreover have "assertScopes (claims_json claims) [''rooms:create''] = None"
    using assertScopes_None [of "claims_json claims" "[''rooms:create'']"] scopes by simp
  moreover have "bo_clock memory_broker memory_start = 5000" by (simp add: memory_broker_def memory_start_def)
  ultimately show ?thesis by (simp only: verify_bearer [OF b minted_token_no_space [OF assms]] sum.case option.case)
qed

theorem created_room_is_served_witness:
  "\<exists>token room w'. handle demo_hmac memory_broker (create_request token) memory_start
     = (Inr (Some (json_response memory_broker (create_request token) room 201)), w')
     \<and> store_ok demo_memory_options w'"
proof -
  obtain token claims where t: "mintToken demo_hmac ''id'' 5000 creator = Inr (token, claims, 120)"
    using creator_token by blast
  have u: "bo_upstream memory_broker = memoryUpstream demo_memory_options" by (simp add: memory_broker_def)
  have "mem_ok demo_memory_options new_memory []" by (simp add: mem_ok_def new_memory_def)
  then have ok: "store_ok demo_memory_options memory_start" by (auto simp: store_ok_def memory_start_def)
  have b: "readJson (create_request token) = Inr (JObj [])" by (simp add: readJson_def create_request_def)
  have p: "rq_method (create_request token) = ''POST''"
    "rq_pathname (create_request token) = basePath memory_broker @ ''/rooms''"
    by (simp_all add: create_request_def basePath_def memory_broker_def strip_trailing_slashes_def)
  from created_room_is_served [OF u ok p creator_verifies [OF t] b] show ?thesis by blast
qed

end
