(* ===== verification/TransferId.thy ===== *)
theory TransferId
  imports Prelude "HOL-Library.Word"
begin

text \<open>
  Transfer and request identifiers (\<open>packages/cre/workflows/transfer-receipts/transfer-id.ts\<close>): the
  derivation of a transfer's UUID from a client and a request, and the two textual forms of an
  identifier, the UUID and the contract's \<open>bytes16\<close>. The digest is a parameter: a function from a
  string to the list of its bytes. A thrown \<open>Error\<close> is the left summand, its message.
\<close>

type_synonym 'a result = "string + 'a"

unbundle bit_operations_syntax

definition lower_hex :: "char \<Rightarrow> bool" where
  "lower_hex c = (let n = of_char c :: nat in 48 \<le> n \<and> n \<le> 57 \<or> 97 \<le> n \<and> n \<le> 102)"

definition hex_text :: "nat \<Rightarrow> string \<Rightarrow> bool" where
  "hex_text n s = (length s = n \<and> list_all lower_hex s)"

text \<open>\<open>/^0x[0-9a-f]{n}$/\<close>.\<close>

definition hex_pattern :: "nat \<Rightarrow> string \<Rightarrow> bool" where
  "hex_pattern n s = (take 2 s = ''0x'' \<and> hex_text n (drop 2 s))"

definition BYTES16_PATTERN :: "string \<Rightarrow> bool" where
  "BYTES16_PATTERN s = hex_pattern 32 s"

definition BYTES32_PATTERN :: "string \<Rightarrow> bool" where
  "BYTES32_PATTERN s = hex_pattern 64 s"

definition UUID_PATTERN :: "string \<Rightarrow> bool" where
  "UUID_PATTERN s =
     (case split_on (CHR ''-'') s of
        [a, b, c, d, e] \<Rightarrow> hex_text 8 a \<and> hex_text 4 b \<and> hex_text 4 c \<and> hex_text 4 d \<and> hex_text 12 e
      | _ \<Rightarrow> False)"

text \<open>\<open>/^0x0+$/\<close>.\<close>

definition all_zero :: "string \<Rightarrow> bool" where
  "all_zero s = (take 2 s = ''0x'' \<and> drop 2 s \<noteq> [] \<and> list_all (\<lambda>c. c = CHR ''0'') (drop 2 s))"

definition normalizeRequestId :: "string \<Rightarrow> string result" where
  "normalizeRequestId requestId =
     (let value = to_lower requestId in
      if \<not> BYTES32_PATTERN value \<or> all_zero value then Inl (''Invalid request id: '' @ requestId) else Inr value)"

definition normalizeTransferId :: "string \<Rightarrow> string result" where
  "normalizeTransferId transferId =
     (let value = to_lower transferId in
      if \<not> UUID_PATTERN value then Inl (''Invalid transfer id: '' @ transferId) else Inr value)"

definition idempotencyKeyForRequest :: "string \<Rightarrow> string result" where
  "idempotencyKeyForRequest requestId = normalizeRequestId requestId"

definition uuid_form :: "string \<Rightarrow> string" where
  "uuid_form h =
     take 8 h @ ''-'' @ take 4 (drop 8 h) @ ''-'' @ take 4 (drop 12 h) @ ''-'' @ take 4 (drop 16 h) @ ''-'' @ drop 20 h"

definition hex_byte :: "8 word \<Rightarrow> string" where
  "hex_byte b =
     (let digit = (\<lambda>n :: nat. char_of (if n < 10 then 48 + n else 87 + n)) in
      [digit (unat b div 16), digit (unat b mod 16)])"

definition bytesToHex :: "8 word list \<Rightarrow> string" where
  "bytesToHex bs = concat (map hex_byte bs)"

text \<open>The version nibble and the variant bits.\<close>

definition mark_uuid :: "8 word list \<Rightarrow> 8 word list" where
  "mark_uuid bs =
     (let bs1 = bs[6 := (bs ! 6 AND 0x0F) OR 0x50] in bs1[8 := (bs1 ! 8 AND 0x3F) OR 0x80])"

definition transferIdForIdempotencyKey :: "(string \<Rightarrow> 8 word list) \<Rightarrow> string \<Rightarrow> string \<Rightarrow> string result" where
  "transferIdForIdempotencyKey sha256 clientId idempotencyKey =
     (let key = trim idempotencyKey in
      if clientId = [] \<or> key = [] then
        Inl ''A client id and an idempotency key are required to derive a transfer id''
      else
        Inr (uuid_form (bytesToHex (mark_uuid
          (take 16 (sha256 (''beam-transfer:'' @ clientId @ '':'' @ key)))))))"

definition transferIdForRequest :: "(string \<Rightarrow> 8 word list) \<Rightarrow> string \<Rightarrow> string \<Rightarrow> string result" where
  "transferIdForRequest sha256 clientId requestId =
     (case idempotencyKeyForRequest requestId of
        Inl e \<Rightarrow> Inl e
      | Inr key \<Rightarrow> transferIdForIdempotencyKey sha256 clientId key)"

definition transferIdToBytes16 :: "string \<Rightarrow> string result" where
  "transferIdToBytes16 transferId =
     (case normalizeTransferId transferId of
        Inl e \<Rightarrow> Inl e
      | Inr v \<Rightarrow> Inr (''0x'' @ filter (\<lambda>c. c \<noteq> CHR ''-'') v))"

definition bytes16ToTransferId :: "string \<Rightarrow> string result" where
  "bytes16ToTransferId value =
     (let hex = to_lower value in
      if \<not> BYTES16_PATTERN hex then Inl (''Invalid bytes16 transfer id: '' @ value)
      else Inr (uuid_form (drop 2 hex)))"

subsection \<open>Lemmas\<close>

lemma lower_hex_not_dash [simp]: "lower_hex (CHR ''-'') = False"
  by (simp add: lower_hex_def)

lemma hex_text_no_dash: "hex_text n s \<Longrightarrow> CHR ''-'' \<notin> set s"
  by (auto simp: hex_text_def list_all_iff)

lemma filter_hex: "hex_text n s \<Longrightarrow> filter (\<lambda>c. c \<noteq> CHR ''-'') s = s"
  using hex_text_no_dash [of n s] by (auto simp: filter_id_conv)

lemma lower_hex_to_lower: "lower_hex c \<Longrightarrow> to_lower_char c = c"
  by (auto simp: lower_hex_def to_lower_char_def Let_def)

lemma to_lower_id: "list_all lower_hex s \<Longrightarrow> to_lower s = s"
  by (induction s) (simp_all add: to_lower_def lower_hex_to_lower)

lemma to_lower_append [simp]: "to_lower (s @ t) = to_lower s @ to_lower t"
  by (simp add: to_lower_def)

lemma to_lower_Cons [simp]: "to_lower (c # s) = to_lower_char c # to_lower s"
  by (simp add: to_lower_def)

lemma to_lower_dash [simp]: "to_lower_char (CHR ''-'') = CHR ''-''"
  by (simp add: to_lower_char_def)

lemma hex_text_append: "hex_text m s \<Longrightarrow> hex_text n t \<Longrightarrow> hex_text (m + n) (s @ t)"
  by (simp add: hex_text_def)

text \<open>A UUID is five groups joined by dashes.\<close>

lemma UUID_parts:
  assumes "UUID_PATTERN u"
  obtains a b c d e where "u = a @ ''-'' @ b @ ''-'' @ c @ ''-'' @ d @ ''-'' @ e"
    "hex_text 8 a" "hex_text 4 b" "hex_text 4 c" "hex_text 4 d" "hex_text 12 e"
proof -
  obtain a b c d e where s: "split_on (CHR ''-'') u = [a, b, c, d, e]"
    and h: "hex_text 8 a" "hex_text 4 b" "hex_text 4 c" "hex_text 4 d" "hex_text 12 e"
    using assms by (auto simp: UUID_PATTERN_def split: list.splits)
  have "u = a @ ''-'' @ b @ ''-'' @ c @ ''-'' @ d @ ''-'' @ e"
    using join_split_on [of "CHR ''-''" u] by (simp add: s)
  with h that show thesis by blast
qed

lemma UUID_join:
  assumes "hex_text 8 a" "hex_text 4 b" "hex_text 4 c" "hex_text 4 d" "hex_text 12 e"
  shows "UUID_PATTERN (a @ ''-'' @ b @ ''-'' @ c @ ''-'' @ d @ ''-'' @ e)"
proof -
  have "split_on (CHR ''-'') (a @ CHR ''-'' # b @ CHR ''-'' # c @ CHR ''-'' # d @ CHR ''-'' # e) = [a, b, c, d, e]"
    using assms [THEN hex_text_no_dash] by (simp add: split_on_append_sep split_on_no_sep del: split_on.simps)
  with assms show ?thesis by (simp add: UUID_PATTERN_def)
qed

lemma hex_text_take: "hex_text n s \<Longrightarrow> k \<le> n \<Longrightarrow> hex_text k (take k s)"
  by (auto simp: hex_text_def list_all_iff dest: in_set_takeD)

lemma hex_text_drop: "hex_text n s \<Longrightarrow> hex_text (n - k) (drop k s)"
  by (auto simp: hex_text_def list_all_iff dest: in_set_dropD)

lemma uuid_form_pattern: "hex_text 32 h \<Longrightarrow> UUID_PATTERN (uuid_form h)"
  unfolding uuid_form_def
  using hex_text_take [of 32 h 8] hex_text_drop [of 32 h 8] hex_text_drop [of 32 h 12] hex_text_drop [of 32 h 16]
    hex_text_drop [of 32 h 20] hex_text_take [of 24 "drop 8 h" 4] hex_text_take [of 20 "drop 12 h" 4]
    hex_text_take [of 16 "drop 16 h" 4]
  by (intro UUID_join) simp_all

lemma uuid_form_strip:
  assumes "hex_text 32 h"
  shows "filter (\<lambda>c. c \<noteq> CHR ''-'') (uuid_form h) = h"
proof -
  have nd: "CHR ''-'' \<notin> set h" using assms by (rule hex_text_no_dash)
  have f: "filter (\<lambda>c. c \<noteq> CHR ''-'') xs = xs" if "set xs \<subseteq> set h" for xs
    using that nd by (auto simp: filter_id_conv)
  have t: "filter (\<lambda>c. c \<noteq> CHR ''-'') (take m (drop k h)) = take m (drop k h)" for m k
    by (rule f) (auto dest: in_set_takeD in_set_dropD)
  have d: "filter (\<lambda>c. c \<noteq> CHR ''-'') (drop k h) = drop k h" for k
    by (rule f) (auto dest: in_set_dropD)
  have "filter (\<lambda>c. c \<noteq> CHR ''-'') (uuid_form h)
      = take 8 h @ take 4 (drop 8 h) @ take 4 (drop 12 h) @ take 4 (drop 16 h) @ drop 20 h"
    by (simp only: uuid_form_def filter_append t t [of 8 0, unfolded drop_0] d) simp
  also have "\<dots> = h"
  proof -
    have step: "take n (drop k h) @ drop (n + k) h = drop k h" for n k
      by (metis append_take_drop_id drop_drop)
    show ?thesis
      using step [of 4 16] step [of 4 12] step [of 4 8] append_take_drop_id [of 8 h] by simp
  qed
  finally show ?thesis .
qed

lemma uuid_form_join:
  assumes "hex_text 8 a" "hex_text 4 b" "hex_text 4 c" "hex_text 4 d" "hex_text 12 e"
  shows "uuid_form (a @ b @ c @ d @ e) = a @ ''-'' @ b @ ''-'' @ c @ ''-'' @ d @ ''-'' @ e"
  using assms by (simp add: uuid_form_def hex_text_def)

lemma UUID_lower: "UUID_PATTERN u \<Longrightarrow> to_lower u = u"
proof -
  assume "UUID_PATTERN u"
  then obtain a b c d e where u: "u = a @ ''-'' @ b @ ''-'' @ c @ ''-'' @ d @ ''-'' @ e"
    and h: "hex_text 8 a" "hex_text 4 b" "hex_text 4 c" "hex_text 4 d" "hex_text 12 e"
    by (rule UUID_parts)
  then show ?thesis by (simp add: u hex_text_def to_lower_id)
qed

lemma UUID_strip_form:
  assumes "UUID_PATTERN u"
  shows "uuid_form (filter (\<lambda>c. c \<noteq> CHR ''-'') u) = u" "hex_text 32 (filter (\<lambda>c. c \<noteq> CHR ''-'') u)"
proof -
  obtain a b c d e where u: "u = a @ ''-'' @ b @ ''-'' @ c @ ''-'' @ d @ ''-'' @ e"
    and h: "hex_text 8 a" "hex_text 4 b" "hex_text 4 c" "hex_text 4 d" "hex_text 12 e"
    using assms by (rule UUID_parts)
  have f: "filter (\<lambda>c. c \<noteq> CHR ''-'') u = a @ b @ c @ d @ e" by (simp add: u h [THEN filter_hex])
  then show "uuid_form (filter (\<lambda>c. c \<noteq> CHR ''-'') u) = u" using h by (simp add: uuid_form_join u)
  show "hex_text 32 (filter (\<lambda>c. c \<noteq> CHR ''-'') u)"
    using h by (simp add: f hex_text_def)
qed

lemma hex_pattern_0x: "hex_text n h \<Longrightarrow> hex_pattern n (''0x'' @ h)"
  by (simp add: hex_pattern_def)

lemma lower_0x: "list_all lower_hex h \<Longrightarrow> to_lower (''0x'' @ h) = ''0x'' @ h"
  by (simp add: to_lower_id to_lower_char_def)

lemma hex_pattern_split: "hex_pattern n s \<Longrightarrow> s = ''0x'' @ drop 2 s"
  by (metis append_take_drop_id hex_pattern_def)

subsection \<open>Properties\<close>

text \<open>
  The two forms of a transfer identifier determine each other: a UUID, in any letter case, survives
  the trip through \<open>bytes16\<close> up to case, and a \<open>bytes16\<close> value the trip through a UUID; each conversion
  rejects exactly the texts that are not of its form.
\<close>

theorem transfer_id_round_trip:
  "(case transferIdToBytes16 u of
      Inl _ \<Rightarrow> \<not> UUID_PATTERN (to_lower u)
    | Inr b \<Rightarrow> UUID_PATTERN (to_lower u) \<and> BYTES16_PATTERN b \<and> bytes16ToTransferId b = Inr (to_lower u))
   \<and> (case bytes16ToTransferId v of
      Inl _ \<Rightarrow> \<not> BYTES16_PATTERN (to_lower v)
    | Inr t \<Rightarrow> BYTES16_PATTERN (to_lower v) \<and> UUID_PATTERN t \<and> transferIdToBytes16 t = Inr (to_lower v))"
proof
  show "case transferIdToBytes16 u of
      Inl _ \<Rightarrow> \<not> UUID_PATTERN (to_lower u)
    | Inr b \<Rightarrow> UUID_PATTERN (to_lower u) \<and> BYTES16_PATTERN b \<and> bytes16ToTransferId b = Inr (to_lower u)"
  proof (cases "UUID_PATTERN (to_lower u)")
    case True
    note s = UUID_strip_form [OF True]
    have "list_all lower_hex (filter (\<lambda>c. c \<noteq> CHR ''-'') (to_lower u))" using s(2) by (simp add: hex_text_def)
    note low = lower_0x [OF this]
    show ?thesis
      using True s hex_pattern_0x [OF s(2)] low
      by (simp add: transferIdToBytes16_def normalizeTransferId_def bytes16ToTransferId_def BYTES16_PATTERN_def Let_def)
  qed (simp add: transferIdToBytes16_def normalizeTransferId_def Let_def)
  show "case bytes16ToTransferId v of
      Inl _ \<Rightarrow> \<not> BYTES16_PATTERN (to_lower v)
    | Inr t \<Rightarrow> BYTES16_PATTERN (to_lower v) \<and> UUID_PATTERN t \<and> transferIdToBytes16 t = Inr (to_lower v)"
  proof (cases "BYTES16_PATTERN (to_lower v)")
    case True
    then have h: "hex_text 32 (drop 2 (to_lower v))" by (simp add: BYTES16_PATTERN_def hex_pattern_def)
    have v: "to_lower v = ''0x'' @ drop 2 (to_lower v)"
      using True by (intro hex_pattern_split) (simp add: BYTES16_PATTERN_def)
    note u = uuid_form_pattern [OF h]
    show ?thesis
      using True u uuid_form_strip [OF h] UUID_lower [OF u] v
      by (simp add: transferIdToBytes16_def normalizeTransferId_def bytes16ToTransferId_def Let_def)
  qed (simp add: bytes16ToTransferId_def Let_def)
qed

lemma unat_byte: "unat (b :: 8 word) < 256"
  using unsigned_less [of b] by simp

lemma lower_hex_digit: "n < 16 \<Longrightarrow> lower_hex (char_of (if n < 10 then 48 + n else 87 + n :: nat))"
  by (simp add: lower_hex_def Let_def)

lemma hex_byte_text: "hex_text 2 (hex_byte b)"
proof -
  have "unat b div 16 < 16" "unat b mod 16 < 16" using unat_byte [of b] by simp_all
  then show ?thesis by (simp add: hex_byte_def hex_text_def Let_def lower_hex_digit del: if_split)
qed

lemma bytesToHex_text: "hex_text (2 * length bs) (bytesToHex bs)"
  by (induction bs) (use hex_byte_text in \<open>simp_all add: bytesToHex_def hex_text_def\<close>)

lemma bytesToHex_nth: "k < length bs \<Longrightarrow> take 2 (drop (2 * k) (bytesToHex bs)) = hex_byte (bs ! k)"
proof (induction bs arbitrary: k)
  case (Cons b bs)
  have l: "length (hex_byte b) = 2" by (simp add: hex_byte_def Let_def)
  show ?case
    using Cons l by (cases k) (simp_all add: bytesToHex_def)
qed simp

lemma version_digit: "unat (((b :: 8 word) AND 0x0F) OR 0x50) div 16 = 5"
proof -
  have "drop_bit 4 ((b AND 0x0F) OR 0x50) = (5 :: 8 word)"
    by (simp only: drop_bit_or drop_bit_and) simp
  then have "unat (drop_bit 4 ((b AND 0x0F) OR 0x50)) = 5" by (simp only: unat_numeral) simp
  then show ?thesis by (simp add: drop_bit_eq_div unat_div)
qed
lemma variant_digit: "unat (((b :: 8 word) AND 0x3F) OR 0x80) div 16 \<in> {8, 9, 10, 11}"
proof -
  let ?x = "drop_bit 4 b AND 3"
  have "?x \<le> 3" by (rule word_and_le1)
  then have "unat ?x \<le> 3" by (simp add: word_le_nat_alt)
  then have "unat ?x = 0 \<or> unat ?x = 1 \<or> unat ?x = 2 \<or> unat ?x = 3" by linarith
  then have "?x = 0 \<or> ?x = 1 \<or> ?x = 2 \<or> ?x = 3" by (auto simp: word_unat_eq_iff)
  then have "?x OR 8 \<in> {8, 9, 10, 11}" by auto
  moreover have "drop_bit 4 ((b AND 0x3F) OR 0x80) = ?x OR 8"
    by (simp only: drop_bit_or drop_bit_and) simp
  ultimately have "drop_bit 4 ((b AND 0x3F) OR 0x80) \<in> {8, 9, 10, 11}" by (simp only:)
  then have "unat (drop_bit 4 ((b AND 0x3F) OR 0x80)) \<in> {8, 9, 10, 11}" by auto
  then show ?thesis by (simp add: drop_bit_eq_div unat_div)
qed
lemma hex_digits: "char_of (53 :: nat) = CHR ''5''" "char_of (56 :: nat) = CHR ''8''" "char_of (57 :: nat) = CHR ''9''"
    "char_of (97 :: nat) = CHR ''a''" "char_of (98 :: nat) = CHR ''b''"
  by (simp_all add: char_of_def bit_iff_odd)

text \<open>
  A derived transfer identifier is always a version 5, RFC 4122 UUID and depends on the request only
  up to letter case: for a digest of at least 16 bytes, a client and a valid request id give a UUID whose
  version digit is 5 and whose variant digit is 8, 9, a or b, and a request id in other letter case gives
  the same one; an invalid or zero request id, or an empty client, is refused.
\<close>

theorem derived_id_is_uuid5:
  assumes "\<forall>m. 16 \<le> length (sha256 m)"
  shows "case transferIdForRequest sha256 clientId requestId of
      Inl _ \<Rightarrow> clientId = [] \<or> \<not> BYTES32_PATTERN (to_lower requestId) \<or> all_zero (to_lower requestId)
    | Inr u \<Rightarrow> UUID_PATTERN u \<and> u ! 14 = CHR ''5'' \<and> u ! 19 \<in> {CHR ''8'', CHR ''9'', CHR ''a'', CHR ''b''}
        \<and> transferIdForRequest sha256 clientId (to_lower requestId) = Inr u"
proof (cases "clientId = [] \<or> \<not> BYTES32_PATTERN (to_lower requestId) \<or> all_zero (to_lower requestId)")
  case True
  then show ?thesis
    by (auto simp: transferIdForRequest_def idempotencyKeyForRequest_def normalizeRequestId_def
        transferIdForIdempotencyKey_def Let_def)
next
  case False
  let ?k = "to_lower requestId"
  have hx: "hex_text 64 (drop 2 ?k)" "?k = ''0x'' @ drop 2 ?k"
    using False hex_pattern_split [of 64 ?k] by (simp_all add: BYTES32_PATTERN_def hex_pattern_def)
  have "\<forall>c \<in> set ?k. \<not> is_space c"
  proof -
    have "\<forall>c \<in> set (''0x'' @ drop 2 ?k). \<not> is_space c"
      using hx(1) by (auto simp: hex_text_def list_all_iff lower_hex_def is_space_def Let_def)
    then show ?thesis by (simp only: hx(2) [symmetric])
  qed
  then have tr: "trim ?k = ?k" by (rule trim_no_space)
  have ne: "?k \<noteq> []" using hx(2) by auto
  define bs where "bs = take 16 (sha256 (''beam-transfer:'' @ clientId @ '':'' @ ?k))"
  have len: "length bs = 16" using assms by (simp add: bs_def)
  define h where "h = bytesToHex (mark_uuid bs)"
  have ht: "hex_text 32 h" using bytesToHex_text [of "mark_uuid bs"] len by (simp add: h_def mark_uuid_def Let_def)
  have res: "transferIdForRequest sha256 clientId r = Inr (uuid_form h)" if "to_lower r = ?k" for r
    using False that tr ne
    by (simp add: transferIdForRequest_def idempotencyKeyForRequest_def normalizeRequestId_def
        transferIdForIdempotencyKey_def h_def bs_def Let_def)
  have b6: "take 2 (drop 12 h) = hex_byte ((bs ! 6 AND 0x0F) OR 0x50)"
    using bytesToHex_nth [of 6 "mark_uuid bs"] len by (simp add: h_def mark_uuid_def Let_def)
  have b8: "take 2 (drop 16 h) = hex_byte ((bs ! 8 AND 0x3F) OR 0x80)"
    using bytesToHex_nth [of 8 "mark_uuid bs"] len by (simp add: h_def mark_uuid_def Let_def)
  have l: "length h = 32" using ht by (simp add: hex_text_def)
  have "h ! 12 = (take 2 (drop 12 h)) ! 0" "h ! 16 = (take 2 (drop 16 h)) ! 0" using l by simp_all
  then have d: "h ! 12 = hex_byte ((bs ! 6 AND 0x0F) OR 0x50) ! 0" "h ! 16 = hex_byte ((bs ! 8 AND 0x3F) OR 0x80) ! 0"
    by (simp_all only: b6 b8)
  have pos: "uuid_form h ! 14 = h ! 12" "uuid_form h ! 19 = h ! 16"
    using l by (simp_all add: uuid_form_def nth_append)
  have v5: "u ! 14 = CHR ''5''" and v8: "u ! 19 \<in> {CHR ''8'', CHR ''9'', CHR ''a'', CHR ''b''}"
    if "u = uuid_form h" for u
    unfolding that pos d using version_digit [of "bs ! 6"] variant_digit [of "bs ! 8"]
    by (auto simp: hex_byte_def Let_def hex_digits)
  show ?thesis
    using res [of requestId] res [of ?k] v5 v8 uuid_form_pattern [OF ht] by simp
qed

theorem derived_id_is_uuid5_witness:
  "\<exists>u. transferIdForRequest (\<lambda>m. replicate 16 255) ''user'' (''0x'' @ replicate 64 (CHR ''A'')) = Inr u
     \<and> UUID_PATTERN u \<and> u ! 14 = CHR ''5''"
proof -
  let ?r = "''0x'' @ replicate 64 (CHR ''A'')"
  have valid: "BYTES32_PATTERN (to_lower ?r)" "\<not> all_zero (to_lower ?r)" by code_simp+
  from derived_id_is_uuid5 [of "\<lambda>m. replicate 16 255" "''user''" ?r] valid show ?thesis
    by (auto split: sum.splits)
qed

end
