(* ===== verification/Receipts.thy ===== *)
theory Receipts
  imports TransferId
begin

text \<open>
  Receipt reports (\<open>packages/cre/workflows/transfer-receipts/receipts.ts\<close>): the codes of the contract,
  the four kinds of report entries, the evidence levels and the size-checked report encoding. Keccak and
  the ABI coder are a library's: they are a parameter, the record \<open>codec\<close>. Hex values are text with the
  prefix \<open>0x\<close>; \<open>bigint\<close>s are integers.
\<close>

definition RequestKind_Transfer :: int where "RequestKind_Transfer = 1"
definition RequestKind_Receipt :: int where "RequestKind_Receipt = 2"
definition RequestKind_RoomReceipt :: int where "RequestKind_RoomReceipt = 3"

definition TransferKind_Standard :: int where "TransferKind_Standard = 1"
definition TransferKind_RoomDelivery :: int where "TransferKind_RoomDelivery = 2"
definition TransferKind_Job :: int where "TransferKind_Job = 3"

definition ReceiptStatus_Completed :: int where "ReceiptStatus_Completed = 1"
definition ReceiptStatus_Failed :: int where "ReceiptStatus_Failed = 2"
definition ReceiptStatus_Cancelled :: int where "ReceiptStatus_Cancelled = 3"
definition ReceiptStatus_Partial :: int where "ReceiptStatus_Partial = 4"

definition BeamReported :: int where "BeamReported = 1"
definition TargetSigned :: int where "TargetSigned = 2"
definition DonAttested :: int where "DonAttested = 4"

record receipt_levels =
  lv_standard :: int
  lv_room :: int
  lv_roomSigned :: int

definition receiptLevels :: "bool \<Rightarrow> receipt_levels" where
  "receiptLevels donAttested =
     (let attestation = (if donAttested then DonAttested else 0) in
      \<lparr>lv_standard = BeamReported OR attestation, lv_room = BeamReported OR attestation,
       lv_roomSigned = (BeamReported OR TargetSigned) OR attestation\<rparr>)"

definition BucketOnlyPublication :: int where "BucketOnlyPublication = 1"
definition REPORT_VERSION :: int where "REPORT_VERSION = 2"
definition MAX_REPORT_BYTES :: nat where "MAX_REPORT_BYTES = 50 * 1024"

record standard_entry =
  se_transferId :: string
  se_requestId :: string
  se_status :: int
  se_totalBytes :: int
  se_bytesTransferred :: int
  se_completedAtMs :: int
  se_planFingerprint :: string
  se_coordinateChecksum :: string
  se_level :: int

record room_entry =
  re_room :: string
  re_channel :: string
  re_publication :: string
  re_requestId :: string
  re_status :: int
  re_fileSizeBytes :: int
  re_manifestSha256 :: string
  re_targetCount :: int
  re_evidenceSha256 :: string
  re_assignmentsSha256 :: string
  re_evidenceVersion :: int
  re_level :: int

record closure_entry =
  ce_key :: string
  ce_reason :: int
  ce_transferId :: string

record job_entry =
  je_requestId :: string
  je_inputRoomKey :: string
  je_outputRoomKey :: string
  je_computeMember :: string

record decoded_report =
  dr_standard :: "standard_entry list"
  dr_rooms :: "room_entry list"
  dr_closures :: "closure_entry list"
  dr_jobs :: "job_entry list"

record codec =
  cd_keccak256 :: "string \<Rightarrow> string"
  cd_encodeStrings :: "string list \<Rightarrow> string"
  cd_encodeRequest :: "int \<Rightarrow> string \<Rightarrow> string"
  cd_encodeReport :: "int \<times> decoded_report \<Rightarrow> string"
  cd_decodeReport :: "string \<Rightarrow> (int \<times> decoded_report) option"

definition roomReceiptKey :: "codec \<Rightarrow> string \<Rightarrow> string \<Rightarrow> string \<Rightarrow> string" where
  "roomReceiptKey cd room channel publication = cd_keccak256 cd (cd_encodeStrings cd [room, channel, publication])"

definition roomRequestKey :: "codec \<Rightarrow> string \<Rightarrow> string" where
  "roomRequestKey cd roomKey = cd_keccak256 cd (cd_encodeRequest cd RequestKind_RoomReceipt roomKey)"

definition encodeReport ::
  "codec \<Rightarrow> standard_entry list \<Rightarrow> room_entry list \<Rightarrow> closure_entry list \<Rightarrow> job_entry list \<Rightarrow> string result" where
  "encodeReport cd standard rooms closures jobs =
     (let report = cd_encodeReport cd (REPORT_VERSION,
            \<lparr>dr_standard = standard, dr_rooms = rooms, dr_closures = closures, dr_jobs = jobs\<rparr>);
          size = (length report - 2) div 2 in
      if size > MAX_REPORT_BYTES then
        Inl (''Report is '' @ show_nat size @ '' bytes, above the '' @ show_nat MAX_REPORT_BYTES
          @ ''-byte CRE report limit'')
      else Inr report)"

text \<open>The library's decoder throws on text that is not an encoding.\<close>

definition decodeReport :: "codec \<Rightarrow> string \<Rightarrow> decoded_report result" where
  "decodeReport cd report =
     (case cd_decodeReport cd report of
        None \<Rightarrow> Inl ''AbiDecodingError''
      | Some (version, r) \<Rightarrow>
          if version \<noteq> REPORT_VERSION then Inl (''Unsupported report version '' @ show_int version) else Inr r)"

text \<open>For evaluation, the size is compared as an integer.\<close>

lemma encodeReport_code [code]:
  "encodeReport cd standard rooms closures jobs =
     (let report = cd_encodeReport cd (REPORT_VERSION,
            \<lparr>dr_standard = standard, dr_rooms = rooms, dr_closures = closures, dr_jobs = jobs\<rparr>);
          size = (length report - 2) div 2 in
      if int size > 51200 then
        Inl (''Report is '' @ show_nat size @ '' bytes, above the '' @ ''51200'' @ ''-byte CRE report limit'')
      else Inr report)"
proof -
  have "show_nat MAX_REPORT_BYTES = ''51200''" by (simp add: MAX_REPORT_BYTES_def show_nat.simps char_of_def bit_0)
  then show ?thesis unfolding encodeReport_def by (simp add: MAX_REPORT_BYTES_def Let_def)
qed

text \<open>The documented behaviour of the ABI coder: decoding undoes encoding.\<close>

definition codec_inverse :: "codec \<Rightarrow> bool" where
  "codec_inverse cd \<longleftrightarrow> (\<forall>r. cd_decodeReport cd (cd_encodeReport cd r) = Some r)"

lemma report_round_trip:
  assumes "codec_inverse cd" and "encodeReport cd standard rooms closures jobs = Inr report"
  shows "decodeReport cd report
      = Inr \<lparr>dr_standard = standard, dr_rooms = rooms, dr_closures = closures, dr_jobs = jobs\<rparr>"
  using assms by (auto simp: encodeReport_def decodeReport_def codec_inverse_def Let_def split: if_splits)

lemma encodeReport_size:
  "encodeReport cd standard rooms closures jobs = Inr report \<Longrightarrow> (length report - 2) div 2 \<le> 51200"
  by (auto simp: encodeReport_def MAX_REPORT_BYTES_def Let_def split: if_splits)

end
