(* ===== verification/BeamProject.thy ===== *)
theory BeamProject
  imports Receipts WebPlatform "HOL-Library.List_Lexorder" "HOL-Library.Char_ord"
begin

text \<open>
  What Beam's answers mean (\<open>packages/cre/workflows/transfer-receipts/beam.ts\<close>): the projection of a
  status code and a body onto a fixed observation, for transfers, Room receipts, publication lookups and
  identities. A body is its bytes, read as JSON text; numbers in it are integers. The digest is a
  parameter.
\<close>

datatype observation =
  Obs_unavailable | Obs_absent | Obs_pending | Obs_error int | Obs_invalid string | Obs_not_room string
| Obs_transfer (ot_status: int) (ot_totalBytes: string) (ot_bytesTransferred: string) (ot_completedAtMs: string)
    (ot_planFingerprint: string) (ot_coordinateChecksum: string)
| Obs_room (or_status: int) (or_fileSizeBytes: string) (or_manifestSha256: string) (or_targetCount: int)
    (or_targetSigned: bool) (or_evidenceSha256: string) (or_assignmentsSha256: string) (or_evidenceVersion: int)

datatype publication_lookup =
  Lookup_unavailable | Lookup_absent | Lookup_error int | Lookup_invalid string | Lookup_found string

definition ZERO_BYTES32 :: string where "ZERO_BYTES32 = ''0x'' @ replicate 64 (CHR ''0'')"
definition ZERO_BYTES16 :: string where "ZERO_BYTES16 = ''0x'' @ replicate 32 (CHR ''0'')"
definition MAX_UINT64 :: int where "MAX_UINT64 = 2 ^ 64 - 1"
definition MAX_SAFE_INTEGER :: int where "MAX_SAFE_INTEGER = 2 ^ 53 - 1"

definition STANDARD_TERMINAL :: "(string \<times> int) list" where
  "STANDARD_TERMINAL =
     [(''completed'', ReceiptStatus_Completed), (''failed'', ReceiptStatus_Failed),
      (''cancelled'', ReceiptStatus_Cancelled)]"

definition ROOM_TERMINAL :: "(string \<times> int) list" where
  "ROOM_TERMINAL =
     [(''completed'', ReceiptStatus_Completed), (''partial'', ReceiptStatus_Partial),
      (''failed'', ReceiptStatus_Failed), (''cancelled'', ReceiptStatus_Cancelled)]"

record evidence_version =
  evv_version :: int
  evv_domain :: string
  evv_envelopeFields :: "string list"
  evv_targetFields :: "string list"

definition ROOM_EVIDENCE_VERSIONS :: "(string \<times> evidence_version) list" where
  "ROOM_EVIDENCE_VERSIONS =
     [(''beam-room-receipt-evidence/v1'',
       \<lparr>evv_version = 1, evv_domain = ''beam:room-receipt-evidence:v1'' @ [CHR 0x00],
        evv_envelopeFields =
          [''assignment_count'', ''assignments_sha256'', ''channel_id'', ''chunk_count'', ''chunk_size_bytes'',
           ''evidence_version'', ''file_size_bytes'', ''manifest_sha256'', ''protection'', ''publication_id'',
           ''room_id'', ''status'', ''targets'', ''transfer_id''],
        evv_targetFields = [''final_receipt'', ''kind'', ''member_id'', ''storage_finalization'', ''verification_basis'']\<rparr>)]"

subsection \<open>Readers of a field\<close>

text \<open>\<open>new TextDecoder().decode\<close> drops a byte order mark; \<open>JSON.parse\<close> failing is \<open>undefined\<close>.\<close>

definition text_decode :: "string \<Rightarrow> string" where
  "text_decode body =
     (if starts_with [char_of (0xEF :: nat), char_of (0xBB :: nat), char_of (0xBF :: nat)] body then drop 3 body else body)"

definition parseBody :: "string \<Rightarrow> json option" where
  "parseBody body = parse_json (text_decode body)"


text \<open>\<open>isRecord\<close>: an object that is not an array.\<close>

fun isRecord :: "json option \<Rightarrow> bool" where
  "isRecord (Some (JObj _)) = True"
| "isRecord _ = False"

definition safeUint :: "json option \<Rightarrow> string option" where
  "safeUint value =
     (case as_num value of
        Some n \<Rightarrow> if \<bar>n\<bar> \<le> MAX_SAFE_INTEGER \<and> 0 \<le> n then Some (show_int n) else None
      | None \<Rightarrow> None)"

text \<open>\<open>/^(0|[1-9][0-9]*)$/\<close>.\<close>

definition decimal_text :: "string \<Rightarrow> bool" where
  "decimal_text s = (s \<noteq> [] \<and> (\<forall>c \<in> set s. digit_val c \<noteq> None) \<and> (s = ''0'' \<or> hd s \<noteq> CHR ''0''))"

definition decimal_value :: "string \<Rightarrow> int" where
  "decimal_value s = int (fst (read_digits 0 s))"

definition uint64String :: "json option \<Rightarrow> string option" where
  "uint64String value =
     (case as_str value of
        Some s \<Rightarrow> if decimal_text s \<and> decimal_value s \<le> MAX_UINT64 then Some s else None
      | None \<Rightarrow> None)"

definition timestampMs :: "json option \<Rightarrow> string option" where
  "timestampMs value =
     (case value of
        None \<Rightarrow> Some ''0''
      | Some JNull \<Rightarrow> Some ''0''
      | Some (JStr s) \<Rightarrow>
          (case date_parse s of
             Some ms \<Rightarrow> if \<bar>ms\<bar> \<le> MAX_SAFE_INTEGER \<and> 0 \<le> ms then Some (show_int ms) else None
           | None \<Rightarrow> None)
      | _ \<Rightarrow> None)"

definition sha256Hex :: "json option \<Rightarrow> string option" where
  "sha256Hex value =
     (case as_str value of Some s \<Rightarrow> if hex_text 64 s then Some (''0x'' @ s) else None | None \<Rightarrow> None)"

definition sha256HexOrZero :: "json option \<Rightarrow> string" where
  "sha256HexOrZero value = coalesce (sha256Hex value) ZERO_BYTES32"

definition object_keys :: "json \<Rightarrow> string list" where
  "object_keys j = (case j of JObj kvs \<Rightarrow> remdups (map fst kvs) | _ \<Rightarrow> [])"

definition hasExactly :: "json \<Rightarrow> string list \<Rightarrow> bool" where
  "hasExactly j names = (sort (object_keys j) = names)"

subsection \<open>Projections\<close>

text \<open>\<open>/^btr_pub_[a-z2-7]{26}$/\<close>.\<close>

definition base32_char :: "char \<Rightarrow> bool" where
  "base32_char c = (let n = of_char c :: nat in 97 \<le> n \<and> n \<le> 122 \<or> 50 \<le> n \<and> n \<le> 55)"

definition PUBLICATION_ID :: "string \<Rightarrow> bool" where
  "PUBLICATION_ID s = (starts_with ''btr_pub_'' s \<and> length s = 34 \<and> list_all base32_char (drop 8 s))"

definition projectPublicationLookup :: "int \<Rightarrow> string \<Rightarrow> publication_lookup" where
  "projectPublicationLookup statusCode body =
     (if statusCode = 404 then Lookup_absent
      else if statusCode \<noteq> 200 then Lookup_error statusCode
      else
        (let reply = parseBody body;
             pid = (if isRecord reply then as_str (jget (the reply) ''publication_id'') else None) in
         case pid of
           Some p \<Rightarrow>
             if PUBLICATION_ID p then Lookup_found p
             else Lookup_invalid ''publication_id is not a publication id''
         | None \<Rightarrow> Lookup_invalid ''publication_id is not a publication id''))"

definition projectClientId :: "int \<Rightarrow> string \<Rightarrow> string option \<times> int" where
  "projectClientId statusCode body =
     (if statusCode \<noteq> 200 then (None, statusCode)
      else
        (let identity = parseBody body in
         (if isRecord identity then as_str (jget (the identity) ''user_id'') else None, statusCode)))"

definition projectTransfer :: "int \<Rightarrow> string \<Rightarrow> string \<Rightarrow> observation" where
  "projectTransfer statusCode body transferId =
     (if statusCode = 404 then Obs_absent
      else if statusCode \<noteq> 200 then Obs_error statusCode
      else
        (let parsed = parseBody body; transfer = the parsed in
         if \<not> isRecord parsed then Obs_invalid ''body is not a JSON object''
         else if jget transfer ''id'' \<noteq> Some (JStr transferId) then
           Obs_invalid ''id does not match the requested transfer''
         else (case (case as_str (jget transfer ''status'') of
                   Some s \<Rightarrow> map_of STANDARD_TERMINAL s | None \<Rightarrow> None) of
             None \<Rightarrow> Obs_pending
           | Some status \<Rightarrow>
               (case (safeUint (jget transfer ''total_bytes''), safeUint (jget transfer ''bytes_transferred'')) of
                  (Some totalBytes, Some bytesTransferred) \<Rightarrow>
                    (case timestampMs (jget transfer ''completed_at'') of
                       None \<Rightarrow> Obs_invalid ''completed_at is not an ISO 8601 timestamp''
                     | Some ms \<Rightarrow> Obs_transfer status totalBytes bytesTransferred ms
                         (sha256HexOrZero (jget transfer ''plan_fingerprint''))
                         (sha256HexOrZero (jget transfer ''coordinate_checksum'')))
                | _ \<Rightarrow> Obs_invalid ''byte counts are not safe integers''))))"

definition projectRoomConflict :: "string \<Rightarrow> observation" where
  "projectRoomConflict body =
     (let error = parseBody body;
          cde = (if isRecord error then jget (the error) ''code'' else None) in
      if cde = Some (JStr ''not_terminal'') then Obs_pending
      else if cde = Some (JStr ''bucket_only_publication'') then
        (let tid = (if isRecord error
              then to_lower (coalesce (as_str (jget (the error) ''transfer_id'')) []) else []) in
         Obs_not_room (if UUID_PATTERN tid then tid else []))
      else Obs_error 409)"

record room_lookup =
  rl_room :: string
  rl_channel :: string
  rl_publication :: string

definition target_kinds_ok :: "json list \<Rightarrow> bool" where
  "target_kinds_ok targets =
     (\<forall>t \<in> set targets. jget t ''kind'' = Some (JStr ''agent'') \<or> jget t ''kind'' = Some (JStr ''object_storage''))"

definition all_target_signed :: "json list \<Rightarrow> bool" where
  "all_target_signed targets =
     (targets \<noteq> [] \<and> (\<forall>t \<in> set targets. jget t ''kind'' = Some (JStr ''agent'') \<and> isRecord (jget t ''final_receipt'')))"

text \<open>The checks on an envelope whose evidence version is known, in the order of the code.\<close>

definition project_envelope ::
  "(string \<Rightarrow> 8 word list) \<Rightarrow> string \<Rightarrow> json \<Rightarrow> evidence_version \<Rightarrow> room_lookup \<Rightarrow> observation" where
  "project_envelope sha256 body envelope evidence lookup =
     (let manifest = (if jget envelope ''manifest_sha256'' = Some JNull then Some ZERO_BYTES32
            else sha256Hex (jget envelope ''manifest_sha256''));
          targets = as_arr (jget envelope ''targets'') in
      if \<not> hasExactly envelope (evv_envelopeFields evidence) then
        Obs_invalid ''envelope fields do not match the evidence version''
      else if jget envelope ''room_id'' \<noteq> Some (JStr (rl_room lookup))
          \<or> jget envelope ''channel_id'' \<noteq> Some (JStr (rl_channel lookup))
          \<or> jget envelope ''publication_id'' \<noteq> Some (JStr (rl_publication lookup)) then
        Obs_invalid ''envelope does not match the requested publication''
      else (case (case as_str (jget envelope ''status'') of Some s \<Rightarrow> map_of ROOM_TERMINAL s | None \<Rightarrow> None) of
          None \<Rightarrow> Obs_invalid ''status is not terminal''
        | Some status \<Rightarrow>
      (case uint64String (jget envelope ''file_size_bytes'') of
          None \<Rightarrow> Obs_invalid ''file_size_bytes is not a uint64 decimal string''
        | Some fileSize \<Rightarrow>
      (case (manifest, sha256Hex (jget envelope ''assignments_sha256'')) of
          (Some m, Some a) \<Rightarrow>
            (case targets of
               None \<Rightarrow> Obs_invalid ''targets is not a list''
             | Some ts \<Rightarrow>
                 if \<not> list_all (\<lambda>t. isRecord (Some t) \<and> hasExactly t (evv_targetFields evidence)) ts then
                   Obs_invalid ''target fields do not match the evidence version''
                 else if \<not> target_kinds_ok ts then Obs_invalid ''unknown target kind''
                 else Obs_room status fileSize m (int (length ts)) (all_target_signed ts)
                   (''0x'' @ bytesToHex (sha256 (evv_domain evidence @ body))) a (evv_version evidence))
        | _ \<Rightarrow> Obs_invalid ''a sha256 field is not lowercase hex''))))"

definition projectRoomReceipt ::
  "(string \<Rightarrow> 8 word list) \<Rightarrow> int \<Rightarrow> string \<Rightarrow> room_lookup \<Rightarrow> observation" where
  "projectRoomReceipt sha256 statusCode body lookup =
     (if statusCode = 409 then projectRoomConflict body
      else if statusCode = 404 then Obs_absent
      else if statusCode \<noteq> 200 then Obs_error statusCode
      else
        (let parsed = parseBody body; envelope = the parsed in
         if \<not> isRecord parsed then Obs_invalid ''body is not a JSON object''
         else (case (case as_str (jget envelope ''evidence_version'') of
                   Some v \<Rightarrow> map_of ROOM_EVIDENCE_VERSIONS v | None \<Rightarrow> None) of
             None \<Rightarrow> Obs_invalid ''unsupported evidence_version''
           | Some evidence \<Rightarrow> project_envelope sha256 body envelope evidence lookup)))"

subsection \<open>What a Room observation rests on\<close>

lemma map_of_terminal_range:
  "map_of STANDARD_TERMINAL s = Some n \<Longrightarrow> n \<in> {1, 2, 3}" "map_of ROOM_TERMINAL s = Some n \<Longrightarrow> n \<in> {1, 2, 3, 4}"
  by (auto simp: STANDARD_TERMINAL_def ROOM_TERMINAL_def ReceiptStatus_Completed_def ReceiptStatus_Failed_def
      ReceiptStatus_Cancelled_def ReceiptStatus_Partial_def split: if_splits)

lemma room_observation_sound:
  assumes "projectRoomReceipt sha256 statusCode body lookup = Obs_room status fileSize m n targetSigned ev asg ver"
  shows "statusCode = 200 \<and> status \<in> {1, 2, 3, 4}
    \<and> (\<exists>envelope targets. parseBody body = Some envelope
        \<and> jget envelope ''room_id'' = Some (JStr (rl_room lookup))
        \<and> jget envelope ''channel_id'' = Some (JStr (rl_channel lookup))
        \<and> jget envelope ''publication_id'' = Some (JStr (rl_publication lookup))
        \<and> jget envelope ''targets'' = Some (JArr targets) \<and> n = int (length targets)
        \<and> (targetSigned \<longleftrightarrow> targets \<noteq> [] \<and> (\<forall>t \<in> set targets.
              jget t ''kind'' = Some (JStr ''agent'') \<and> isRecord (jget t ''final_receipt''))))
    \<and> decimal_value fileSize \<le> 2 ^ 64 - 1
    \<and> ev = ''0x'' @ bytesToHex (sha256 (''beam:room-receipt-evidence:v1'' @ CHR 0x00 # body))"
proof -
  have code: "statusCode = 200"
    using assms by (auto simp: projectRoomReceipt_def projectRoomConflict_def Let_def split: if_splits)
  then obtain envelope evidence where p: "parseBody body = Some envelope"
    and e: "evidence = snd (hd ROOM_EVIDENCE_VERSIONS)"
    and r: "project_envelope sha256 body envelope evidence lookup = Obs_room status fileSize m n targetSigned ev asg ver"
    using assms
    by (cases "parseBody body")
      (auto simp: projectRoomReceipt_def Let_def ROOM_EVIDENCE_VERSIONS_def split: if_splits option.splits)
  from r obtain targets where t: "as_arr (jget envelope ''targets'') = Some targets" "n = int (length targets)"
    "targetSigned = all_target_signed targets" "jget envelope ''room_id'' = Some (JStr (rl_room lookup))"
    "jget envelope ''channel_id'' = Some (JStr (rl_channel lookup))"
    "jget envelope ''publication_id'' = Some (JStr (rl_publication lookup))"
    "ev = ''0x'' @ bytesToHex (sha256 (evv_domain evidence @ body))"
    and f: "uint64String (jget envelope ''file_size_bytes'') = Some fileSize"
    and s: "\<exists>txt. map_of ROOM_TERMINAL txt = Some status"
    by (auto simp: project_envelope_def Let_def split: if_splits option.splits)
  have "jget envelope ''targets'' = Some (JArr targets)" using t(1) by (auto elim: as_arr.elims)
  moreover have "decimal_value fileSize \<le> 2 ^ 64 - 1"
    using f by (auto simp: uint64String_def MAX_UINT64_def split: option.splits if_splits)
  moreover have "status \<in> {1, 2, 3, 4}" using s map_of_terminal_range(2) by blast
  moreover have "ev = ''0x'' @ bytesToHex (sha256 (''beam:room-receipt-evidence:v1'' @ CHR 0x00 # body))"
    using t(7) by (simp add: e ROOM_EVIDENCE_VERSIONS_def)
  ultimately show ?thesis using code p t by (auto simp: all_target_signed_def)
qed

definition sample_envelope :: json where
  "sample_envelope =
     JObj [(''assignment_count'', JNum 1), (''assignments_sha256'', JStr (replicate 64 CHR ''a'')),
       (''channel_id'', JStr ''c''), (''chunk_count'', JNum 1), (''chunk_size_bytes'', JStr ''1''),
       (''evidence_version'', JStr ''beam-room-receipt-evidence/v1''), (''file_size_bytes'', JStr ''5''),
       (''manifest_sha256'', JNull), (''protection'', JNull), (''publication_id'', JStr ''p''), (''room_id'', JStr ''r''),
       (''status'', JStr ''completed''),
       (''targets'', JArr [JObj [(''final_receipt'', JNull), (''kind'', JStr ''object_storage''), (''member_id'', JStr ''m''),
          (''storage_finalization'', JNull), (''verification_basis'', JNull)]]), (''transfer_id'', JStr ''t'')]"

lemma parseBody_object [js_simps]: "parseBody (stringify (JObj kvs)) = Some (JObj kvs)"
proof -
  have "\<not> starts_with [char_of (0xEF :: nat), char_of (0xBB :: nat), char_of (0xBF :: nat)] (stringify (JObj kvs))"
  proof -
    have "CHR ''{'' \<noteq> char_of (0xEF :: nat)" by code_simp
    then show ?thesis by (simp add: starts_with_def)
  qed
  then show ?thesis unfolding parseBody_def text_decode_def by (simp only: if_False parse_stringify)
qed

lemma sample_envelope_projected:
  "projectRoomReceipt (\<lambda>_. []) 200 (stringify sample_envelope) \<lparr>rl_room = ''r'', rl_channel = ''c'', rl_publication = ''p''\<rparr>
     = Obs_room 1 ''5'' ZERO_BYTES32 1 False ''0x'' (''0x'' @ replicate 64 CHR ''a'') 1"
proof -
  have p: "parseBody (stringify sample_envelope) = Some sample_envelope"
    unfolding sample_envelope_def by (rule parseBody_object)
  have e: "map_of ROOM_EVIDENCE_VERSIONS ''beam-room-receipt-evidence/v1'' = Some (snd (hd ROOM_EVIDENCE_VERSIONS))"
    by (simp add: ROOM_EVIDENCE_VERSIONS_def)
  have "project_envelope (\<lambda>_. []) body sample_envelope (snd (hd ROOM_EVIDENCE_VERSIONS))
      \<lparr>rl_room = ''r'', rl_channel = ''c'', rl_publication = ''p''\<rparr>
     = Obs_room 1 ''5'' ZERO_BYTES32 1 False ''0x'' (''0x'' @ replicate 64 CHR ''a'') 1" for body
    by code_simp
  then show ?thesis by (simp add: projectRoomReceipt_def p e) (simp add: sample_envelope_def e)
qed

end
