(* ===== verification/Subjects.thy ===== *)
theory Subjects
  imports BeamProject
begin

text \<open>
  What the CRE workflow and the relay look up at Beam and what an observation adds to a report
  (\<open>packages/cre/workflows/transfer-receipts/subjects.ts\<close> and \<open>attestations.ts\<close>). A subject is a tagged union; its
  request id is absent where the code has \<open>null\<close>. The functions that call the id conversions of \<open>TransferId\<close>
  return a result, as those throw.
\<close>

datatype subject =
  Transfer_subject string "string option"
| Room_subject string string string "string option"
| RoomRequest_subject string string string string
| Job_subject string string string string string string

record room_route =
  rr_room :: string
  rr_channel :: string
  rr_publisherMemberId :: string

record job_route =
  jr_channel :: string
  jr_computeMemberId :: string

record deployment_routes =
  dr_roomDelivery :: "room_route option"
  dr_jobOutput :: "job_route option"

record open_request =
  or_key :: string
  or_kind :: int
  or_transferKind :: int
  or_requester :: string
  or_openedAt :: int
  or_requestId :: string
  or_transferId :: string
  or_room :: string
  or_channel :: string
  or_publication :: string

fun subject_requestId :: "subject \<Rightarrow> string option" where
  "subject_requestId (Transfer_subject _ r) = r"
| "subject_requestId (Room_subject _ _ _ r) = r"
| "subject_requestId (RoomRequest_subject _ _ _ r) = Some r"
| "subject_requestId (Job_subject _ _ _ _ _ r) = Some r"

definition roomRequestPublicationKey :: "string \<Rightarrow> string result" where
  "roomRequestPublicationKey requestId =
     (case normalizeRequestId requestId of Inl e \<Rightarrow> Inl e | Inr r \<Rightarrow> Inr (''request:'' @ r))"

fun subjectKey :: "subject \<Rightarrow> string" where
  "subjectKey (Transfer_subject transferId _) = ''transfer:'' @ transferId"
| "subjectKey (Room_subject room channel publication _) =
     ''room:'' @ stringify (JArr [JStr room, JStr channel, JStr publication])"
| "subjectKey (RoomRequest_subject _ _ _ requestId) = ''roomRequest:'' @ requestId"
| "subjectKey (Job_subject _ _ _ _ _ requestId) = ''job:'' @ requestId"

text \<open>
  Both places that collect subjects under their keys keep a first copy unless it has no request id and a
  later one has. \<open>keep_item\<close> is that step, over items that carry a subject.
\<close>

definition has_request :: "subject \<Rightarrow> bool" where
  "has_request s = (case subject_requestId s of Some (c # cs) \<Rightarrow> True | _ \<Rightarrow> False)"

definition keep_item :: "('a \<Rightarrow> subject) \<Rightarrow> (string \<times> 'a) list \<Rightarrow> 'a \<Rightarrow> (string \<times> 'a) list" where
  "keep_item subj m item =
     (let key = subjectKey (subj item) in
      case map_of m key of
        None \<Rightarrow> amap_set key item m
      | Some existing \<Rightarrow>
          if \<not> has_request (subj existing) \<and> has_request (subj item) then amap_set key item m else m)"

definition uniqueSubjects :: "subject list \<Rightarrow> subject list" where
  "uniqueSubjects subjects = map snd (foldl (keep_item (\<lambda>s. s)) [] subjects)"

definition subjectForOpenRequest ::
  "(string \<Rightarrow> 8 word list) \<Rightarrow> string \<Rightarrow> deployment_routes \<Rightarrow> open_request \<Rightarrow> subject option result" where
  "subjectForOpenRequest sha256 clientId routes request =
     (if or_kind request = RequestKind_Transfer then
        (if or_transferKind request = TransferKind_RoomDelivery then
           (case dr_roomDelivery routes of
              None \<Rightarrow> Inr None
            | Some rd \<Rightarrow> Inr (Some (RoomRequest_subject (rr_room rd) (rr_channel rd) (rr_publisherMemberId rd)
                (or_requestId request))))
         else if or_transferKind request = TransferKind_Job then
           (case (dr_roomDelivery routes, dr_jobOutput routes) of
              (Some rd, Some jo) \<Rightarrow>
                Inr (Some (Job_subject (rr_room rd) (rr_channel rd) (rr_publisherMemberId rd) (jr_channel jo)
                  (jr_computeMemberId jo) (or_requestId request)))
            | _ \<Rightarrow> Inr None)
         else if or_transferKind request \<noteq> TransferKind_Standard then Inr None
         else (case transferIdForRequest sha256 clientId (or_requestId request) of
             Inl e \<Rightarrow> Inl e
           | Inr t \<Rightarrow> Inr (Some (Transfer_subject t (Some (or_requestId request))))))
      else if or_kind request = RequestKind_Receipt then
        (case bytes16ToTransferId (or_transferId request) of
           Inl e \<Rightarrow> Inl e
         | Inr t \<Rightarrow> Inr (Some (Transfer_subject t None)))
      else Inr (Some (Room_subject (or_room request) (or_channel request) (or_publication request) None)))"

fun roomSubjectForLookup :: "subject \<Rightarrow> publication_lookup \<Rightarrow> subject option" where
  "roomSubjectForLookup (RoomRequest_subject room channel publisher requestId) (Lookup_found publicationId) =
     Some (Room_subject room channel publicationId (Some requestId))"
| "roomSubjectForLookup _ _ = None"

fun describePublicationLookup :: "publication_lookup \<Rightarrow> string" where
  "describePublicationLookup Lookup_absent = ''no publication under its key yet''"
| "describePublicationLookup (Lookup_error httpStatus) =
     (if httpStatus = 401 \<or> httpStatus = 403 then
        ''Beam refused the key (HTTP '' @ show_int httpStatus
          @ ''); it needs room:objects:read for the room's organization''
      else ''the coordinator answered HTTP '' @ show_int httpStatus)"
| "describePublicationLookup (Lookup_invalid reason) = ''unexpected response: '' @ reason"
| "describePublicationLookup Lookup_unavailable =
     ''no usable answer: CRE nodes did not agree, or the coordinator was unreachable''"
| "describePublicationLookup (Lookup_found _) = ''found''"

datatype report_entry =
  Entry_standard standard_entry | Entry_room room_entry | Entry_closure closure_entry | Entry_job job_entry

fun jobLookups :: "subject \<Rightarrow> (subject \<times> subject) option" where
  "jobLookups (Job_subject room inputChannel sourceMemberId outputChannel computeMemberId requestId) =
     Some (RoomRequest_subject room inputChannel sourceMemberId requestId,
           RoomRequest_subject room outputChannel computeMemberId requestId)"
| "jobLookups _ = None"

fun reportEntryFor :: "codec \<Rightarrow> subject \<Rightarrow> observation \<Rightarrow> receipt_levels \<Rightarrow> report_entry option result" where
  "reportEntryFor cd (Transfer_subject transferId requestId)
       (Obs_transfer status totalBytes bytesTransferred completedAtMs planFingerprint coordinateChecksum) levels =
     (case transferIdToBytes16 transferId of
        Inl e \<Rightarrow> Inl e
      | Inr t \<Rightarrow> Inr (Some (Entry_standard
          \<lparr>se_transferId = t, se_requestId = coalesce requestId ZERO_BYTES32, se_status = status,
           se_totalBytes = decimal_value totalBytes, se_bytesTransferred = decimal_value bytesTransferred,
           se_completedAtMs = decimal_value completedAtMs, se_planFingerprint = planFingerprint,
           se_coordinateChecksum = coordinateChecksum, se_level = lv_standard levels\<rparr>)))"
| "reportEntryFor cd (Room_subject room channel publication requestId)
       (Obs_room status fileSizeBytes manifestSha256 targetCount targetSigned evidenceSha256 assignmentsSha256
          evidenceVersion) levels =
     Inr (Some (Entry_room
       \<lparr>re_room = room, re_channel = channel, re_publication = publication,
        re_requestId = coalesce requestId ZERO_BYTES32, re_status = status,
        re_fileSizeBytes = decimal_value fileSizeBytes, re_manifestSha256 = manifestSha256,
        re_targetCount = targetCount, re_evidenceSha256 = evidenceSha256,
        re_assignmentsSha256 = assignmentsSha256, re_evidenceVersion = evidenceVersion,
        re_level = (if targetSigned then lv_roomSigned levels else lv_room levels)\<rparr>))"
| "reportEntryFor cd (Room_subject room channel publication requestId) (Obs_not_room transferId) levels =
     (case (if transferId \<noteq> [] then transferIdToBytes16 transferId else Inr ZERO_BYTES16) of
        Inl e \<Rightarrow> Inl e
      | Inr t \<Rightarrow> Inr (Some (Entry_closure
          \<lparr>ce_key = roomRequestKey cd (roomReceiptKey cd room channel publication),
           ce_reason = BucketOnlyPublication, ce_transferId = t\<rparr>)))"
| "reportEntryFor cd _ _ _ = Inr None"

definition jobEntriesFor ::
  "codec \<Rightarrow> subject \<Rightarrow> string \<times> string \<Rightarrow> observation \<times> observation \<Rightarrow> receipt_levels
     \<Rightarrow> report_entry list option result" where
  "jobEntriesFor cd subject publications observations levels =
     (case subject of
        Job_subject room inputChannel sourceMemberId outputChannel computeMemberId requestId \<Rightarrow>
          (case reportEntryFor cd (Room_subject room inputChannel (fst publications) None) (fst observations) levels of
             Inl e \<Rightarrow> Inl e
           | Inr inputEntry \<Rightarrow>
          (case reportEntryFor cd (Room_subject room outputChannel (snd publications) None) (snd observations) levels of
             Inl e \<Rightarrow> Inl e
           | Inr outputEntry \<Rightarrow>
               (case (inputEntry, outputEntry) of
                  (Some (Entry_room i), Some (Entry_room out)) \<Rightarrow>
                    Inr (Some [Entry_room i, Entry_room out, Entry_job
                      \<lparr>je_requestId = requestId,
                       je_inputRoomKey = roomReceiptKey cd room inputChannel (fst publications),
                       je_outputRoomKey = roomReceiptKey cd room outputChannel (snd publications),
                       je_computeMember = computeMemberId\<rparr>])
                | _ \<Rightarrow> Inr None)))
      | _ \<Rightarrow> Inr None)"

fun describeObservation :: "observation \<Rightarrow> string" where
  "describeObservation (Obs_error httpStatus) =
     (if httpStatus = 401 \<or> httpStatus = 403 then
        ''Beam refused the key (HTTP '' @ show_int httpStatus @ ''); check its scopes''
      else ''Beam answered HTTP '' @ show_int httpStatus)"
| "describeObservation (Obs_invalid reason) = ''unexpected response: '' @ reason"
| "describeObservation (Obs_not_room transferId) =
     ''bucket-only publication with no Room receipt; closing its Room receipt request (standard transfer ''
       @ (if transferId \<noteq> [] then transferId else ''not given'') @ '')''"
| "describeObservation Obs_unavailable = ''no usable answer: CRE nodes did not agree, or Beam was unreachable''"
| "describeObservation Obs_absent = ''absent''"
| "describeObservation Obs_pending = ''pending''"
| "describeObservation (Obs_transfer _ _ _ _ _ _) = ''transfer''"
| "describeObservation (Obs_room _ _ _ _ _ _ _ _) = ''room''"

text \<open>The four lists of a report, as the callers split its entries.\<close>

definition entries_standard :: "report_entry list \<Rightarrow> standard_entry list" where
  "entries_standard es = concat (map (\<lambda>e. case e of Entry_standard s \<Rightarrow> [s] | _ \<Rightarrow> []) es)"

definition entries_rooms :: "report_entry list \<Rightarrow> room_entry list" where
  "entries_rooms es = concat (map (\<lambda>e. case e of Entry_room s \<Rightarrow> [s] | _ \<Rightarrow> []) es)"

definition entries_closures :: "report_entry list \<Rightarrow> closure_entry list" where
  "entries_closures es = concat (map (\<lambda>e. case e of Entry_closure s \<Rightarrow> [s] | _ \<Rightarrow> []) es)"

definition entries_jobs :: "report_entry list \<Rightarrow> job_entry list" where
  "entries_jobs es = concat (map (\<lambda>e. case e of Entry_job s \<Rightarrow> [s] | _ \<Rightarrow> []) es)"

definition encodeEntries :: "codec \<Rightarrow> report_entry list \<Rightarrow> string result" where
  "encodeEntries cd es = encodeReport cd (entries_standard es) (entries_rooms es) (entries_closures es) (entries_jobs es)"

subsection \<open>Attestations\<close>

datatype attestation = Attest_transfer string | Attest_room string string string

definition MAX_ATTESTATIONS :: nat where "MAX_ATTESTATIONS = 7"

fun attestationSubject :: "attestation \<Rightarrow> subject result" where
  "attestationSubject (Attest_transfer transferId) =
     (case normalizeTransferId transferId of Inl e \<Rightarrow> Inl e | Inr t \<Rightarrow> Inr (Transfer_subject t None))"
| "attestationSubject (Attest_room room channel publication) = Inr (Room_subject room channel publication None)"

record report_submission =
  rs_report :: string
  rs_context :: string
  rs_signatures :: "string list"

definition reportSubmission :: "8 word list \<Rightarrow> 8 word list \<Rightarrow> 8 word list list \<Rightarrow> report_submission" where
  "reportSubmission rawReport reportContext signatures =
     \<lparr>rs_report = bytesToHex rawReport, rs_context = bytesToHex reportContext, rs_signatures = map bytesToHex signatures\<rparr>"

definition answerFor :: "codec \<Rightarrow> attestation \<Rightarrow> decoded_report \<Rightarrow> report_entry option result" where
  "answerFor cd attestation report =
     (case attestation of
        Attest_transfer t \<Rightarrow>
          (case transferIdToBytes16 t of
             Inl e \<Rightarrow> Inl e
           | Inr transferId \<Rightarrow>
               Inr (map_option Entry_standard
                 (find (\<lambda>c. to_lower (se_transferId c) = transferId) (dr_standard report))))
      | Attest_room room channel publication \<Rightarrow>
          (case find (\<lambda>c. re_room c = room \<and> re_channel c = channel \<and> re_publication c = publication) (dr_rooms report) of
             Some entry \<Rightarrow> Inr (Some (Entry_room entry))
           | None \<Rightarrow>
               (let closureKey = roomRequestKey cd (roomReceiptKey cd room channel publication) in
                Inr (map_option Entry_closure (find (\<lambda>c. to_lower (ce_key c) = closureKey) (dr_closures report))))))"

subsection \<open>Keys\<close>

text \<open>What two subjects that share a key have in common.\<close>

fun same_target :: "subject \<Rightarrow> subject \<Rightarrow> bool" where
  "same_target (Transfer_subject t _) (Transfer_subject t' _) = (t = t')"
| "same_target (Room_subject r c p _) (Room_subject r' c' p' _) = (r = r' \<and> c = c' \<and> p = p')"
| "same_target (RoomRequest_subject _ _ _ q) (RoomRequest_subject _ _ _ q') = (q = q')"
| "same_target (Job_subject _ _ _ _ _ q) (Job_subject _ _ _ _ _ q') = (q = q')"
| "same_target _ _ = False"

lemma stringify_inject: "stringify a = stringify b \<longleftrightarrow> a = b"
  by (metis parse_stringify option.inject)

text \<open>
  The key under which lookups are collected is injective on what is looked up: two subjects share it
  exactly when they are the same transfer, the same publication of the same channel and room, or the same
  request of the same kind. No room, channel or publication name can be chosen to collide with another.
\<close>

theorem subject_key_injective: "subjectKey s = subjectKey t \<longleftrightarrow> same_target s t"
  by (cases s; cases t) (simp_all add: stringify_inject del: stringify.simps)

lemma keep_item_keys: "fst ` set (keep_item subj m item) = insert (subjectKey (subj item)) (fst ` set m)"
  by (auto simp: keep_item_def Let_def keys_amap_set split: option.splits dest: map_of_SomeD intro: rev_image_eqI)

lemma keep_item_distinct: "distinct (map fst m) \<Longrightarrow> distinct (map fst (keep_item subj m item))"
  by (auto simp: keep_item_def Let_def split: option.splits)

text \<open>Every entry stands under its own key, and comes from the items seen.\<close>

definition kept_ok :: "('a \<Rightarrow> subject) \<Rightarrow> 'a list \<Rightarrow> (string \<times> 'a) list \<Rightarrow> bool" where
  "kept_ok subj items m \<longleftrightarrow>
     distinct (map fst m) \<and> fst ` set m = (\<lambda>i. subjectKey (subj i)) ` set items
     \<and> (\<forall>k i. map_of m k = Some i \<longrightarrow> i \<in> set items \<and> subjectKey (subj i) = k
          \<and> (has_request (subj i) \<or> (\<forall>j \<in> set items. subjectKey (subj j) = k \<longrightarrow> \<not> has_request (subj j))))"

lemma kept_ok_step:
  assumes "kept_ok subj items m"
  shows "kept_ok subj (items @ [item]) (keep_item subj m item)"
proof -
  let ?k = "subjectKey (subj item)"
  have d: "distinct (map fst (keep_item subj m item))"
    using assms by (simp add: kept_ok_def keep_item_distinct)
  have f: "fst ` set (keep_item subj m item) = (\<lambda>i. subjectKey (subj i)) ` set (items @ [item])"
    using assms by (auto simp: kept_ok_def keep_item_keys)
  have inst: "i \<in> set items \<and> subjectKey (subj i) = k
      \<and> (has_request (subj i) \<or> (\<forall>j \<in> set items. subjectKey (subj j) = k \<longrightarrow> \<not> has_request (subj j)))"
    if "map_of m k = Some i" for k i
    using assms that by (simp only: kept_ok_def)
  have e: "i \<in> set (items @ [item]) \<and> subjectKey (subj i) = k
      \<and> (has_request (subj i) \<or> (\<forall>j \<in> set (items @ [item]). subjectKey (subj j) = k \<longrightarrow> \<not> has_request (subj j)))"
    if g: "map_of (keep_item subj m item) k = Some i" for k i
  proof (cases "k = ?k")
    case False
    then have "map_of m k = Some i"
      using g by (simp add: keep_item_def Let_def del: map_of_eq_Some_iff split: option.splits if_splits)
    from inst [OF this] False show ?thesis by auto
  next
    case True
    show ?thesis
    proof (cases "map_of m ?k")
      case None
      then have "?k \<notin> fst ` set m" by (simp only: map_of_eq_None_iff not_False_eq_True)
      moreover have "fst ` set m = (\<lambda>i. subjectKey (subj i)) ` set items" using assms by (simp only: kept_ok_def)
      ultimately have "subjectKey (subj j) \<noteq> ?k" if "j \<in> set items" for j
        using that by (metis image_eqI)
      with None g True show ?thesis by (auto simp: keep_item_def Let_def)
    next
      case (Some existing)
      from inst [OF this] Some g True show ?thesis by (auto simp: keep_item_def Let_def split: if_splits)
    qed
  qed
  from d f e show ?thesis unfolding kept_ok_def by blast
qed

lemma kept_ok_foldl: "kept_ok subj items (foldl (keep_item subj) [] items)"
proof (induction items rule: rev_induct)
  case Nil
  show ?case by (simp add: kept_ok_def)
next
  case (snoc item items)
  then show ?case using kept_ok_step by simp
qed

lemma mset_map_of: "distinct (map fst m) \<Longrightarrow> v \<in> snd ` set m \<longleftrightarrow> (\<exists>k. map_of m k = Some v)"
  by (force simp: map_of_eq_Some_iff)

text \<open>
  Dropping repeats loses no lookup: the kept subjects have distinct keys, exactly the keys that were
  asked for, each is one of those given, and a key one of whose copies carries a request id keeps a copy
  that does, so that recording the receipt answers the request.
\<close>

theorem unique_subjects_complete:
  "distinct (map subjectKey (uniqueSubjects subjects))
   \<and> subjectKey ` set (uniqueSubjects subjects) = subjectKey ` set subjects
   \<and> set (uniqueSubjects subjects) \<subseteq> set subjects
   \<and> (\<forall>s \<in> set subjects. has_request s \<longrightarrow>
        (\<exists>kept \<in> set (uniqueSubjects subjects). subjectKey kept = subjectKey s \<and> has_request kept))"
proof -
  let ?m = "foldl (keep_item (\<lambda>s. s)) [] subjects"
  have ok: "kept_ok (\<lambda>s. s) subjects ?m" by (rule kept_ok_foldl)
  then have d: "distinct (map fst ?m)" by (simp add: kept_ok_def)
  have v: "map_of ?m k = Some i \<Longrightarrow> i \<in> set subjects \<and> subjectKey i = k
      \<and> (has_request i \<or> (\<forall>j \<in> set subjects. subjectKey j = k \<longrightarrow> \<not> has_request j))" for k i
    using ok by (simp add: kept_ok_def)
  have keys: "map subjectKey (map snd ?m) = map fst ?m"
    using d v by (auto simp: map_of_eq_Some_iff)
  have s: "\<exists>i. map_of ?m (subjectKey s) = Some i" if "s \<in> set subjects" for s
  proof -
    have "subjectKey s \<in> fst ` set ?m" using ok that by (auto simp: kept_ok_def)
    then show ?thesis by (metis map_of_eq_None_iff option.exhaust)
  qed
  have "distinct (map subjectKey (uniqueSubjects subjects))"
    unfolding uniqueSubjects_def keys by (rule d)
  moreover have "subjectKey ` set (uniqueSubjects subjects) = subjectKey ` set subjects"
    using ok keys unfolding uniqueSubjects_def kept_ok_def by (metis list.set_map)
  moreover have "set (uniqueSubjects subjects) \<subseteq> set subjects"
    using d v by (auto simp: uniqueSubjects_def map_of_eq_Some_iff)
  moreover have "\<exists>kept \<in> set (uniqueSubjects subjects). subjectKey kept = subjectKey s \<and> has_request kept"
    if a: "s \<in> set subjects" "has_request s" for s
  proof -
    obtain i where i: "map_of ?m (subjectKey s) = Some i" using s [OF a(1)] by blast
    have "i \<in> set (uniqueSubjects subjects)"
      using map_of_SomeD [OF i] by (force simp: uniqueSubjects_def)
    then show ?thesis using v [OF i] a by blast
  qed
  ultimately show ?thesis by blast
qed

theorem unique_subjects_complete_witness:
  "\<exists>kept \<in> set (uniqueSubjects [Transfer_subject ''t'' None, Transfer_subject ''t'' (Some ''r'')]).
     subjectKey kept = ''transfer:t'' \<and> has_request kept"
  using unique_subjects_complete [of "[Transfer_subject ''t'' None, Transfer_subject ''t'' (Some ''r'')]"]
  by (auto simp: has_request_def)

subsection \<open>What a recorded Room receipt rests on\<close>

lemma reportEntryFor_roomE:
  assumes "reportEntryFor cd (Room_subject room channel publication q) obs levels = Inr (Some (Entry_room e))"
  obtains status size m n signed_all ev asg ver where "obs = Obs_room status size m n signed_all ev asg ver"
    "re_status e = status" "re_fileSizeBytes e = decimal_value size" "re_targetCount e = n" "re_evidenceSha256 e = ev"
    "re_level e = (if signed_all then lv_roomSigned levels else lv_room levels)"
    "re_room e = room" "re_channel e = channel" "re_publication e = publication" "re_requestId e = coalesce q ZERO_BYTES32"
  using assms by (cases obs) (auto split: sum.splits if_splits)

lemma signed_bit: "(lv_roomSigned (receiptLevels d) AND TargetSigned) = 2" "(lv_room (receiptLevels d) AND TargetSigned) = 0"
  by (cases d; simp add: receiptLevels_def BeamReported_def TargetSigned_def DonAttested_def)+

text \<open>
  From Beam's answer to the contract's entry: a Room receipt is recorded only for a terminal envelope
  of that very publication; its size fits the contract's 64 bits; its evidence digest is that of the
  received bytes under the domain tag; and its level carries the target-signed bit exactly when there is a
  target and every target is an agent with a final receipt.
\<close>

theorem recorded_room_receipt_sound:
  assumes "reportEntryFor cd (Room_subject room channel publication q)
      (projectRoomReceipt sha256 statusCode body \<lparr>rl_room = room, rl_channel = channel, rl_publication = publication\<rparr>)
      (receiptLevels donAttested) = Inr (Some (Entry_room e))"
  shows "statusCode = 200 \<and> re_status e \<in> {1, 2, 3, 4} \<and> 0 \<le> re_fileSizeBytes e \<and> re_fileSizeBytes e < 2 ^ 64
    \<and> re_evidenceSha256 e = ''0x'' @ bytesToHex (sha256 (''beam:room-receipt-evidence:v1'' @ CHR 0x00 # body))
    \<and> (\<exists>envelope targets. parseBody body = Some envelope
        \<and> map (jget envelope) [''room_id'', ''channel_id'', ''publication_id''] = map (Some \<circ> JStr) [room, channel, publication]
        \<and> jget envelope ''targets'' = Some (JArr targets) \<and> re_targetCount e = int (length targets)
        \<and> (re_level e AND TargetSigned \<noteq> 0 \<longleftrightarrow> targets \<noteq> [] \<and> (\<forall>t \<in> set targets.
              jget t ''kind'' = Some (JStr ''agent'') \<and> isRecord (jget t ''final_receipt''))))"
proof -
  from reportEntryFor_roomE [OF assms] obtain status size m n signed_all ev asg ver
    where o: "projectRoomReceipt sha256 statusCode body
        \<lparr>rl_room = room, rl_channel = channel, rl_publication = publication\<rparr> = Obs_room status size m n signed_all ev asg ver"
      and e: "re_status e = status" "re_fileSizeBytes e = decimal_value size" "re_targetCount e = n"
        "re_evidenceSha256 e = ev"
        "re_level e = (if signed_all then lv_roomSigned (receiptLevels donAttested) else lv_room (receiptLevels donAttested))"
    by metis
  have lv: "re_level e AND TargetSigned \<noteq> 0 \<longleftrightarrow> signed_all" using e(5) signed_bit by simp
  have "0 \<le> decimal_value size" by (simp add: decimal_value_def)
  with room_observation_sound [OF o] show ?thesis by (auto simp: e(1-4) lv)
qed

theorem recorded_room_receipt_sound_witness:
  "\<exists>e. reportEntryFor \<lparr>cd_keccak256 = id, cd_encodeStrings = concat, cd_encodeRequest = (\<lambda>_. id),
          cd_encodeReport = (\<lambda>_. []), cd_decodeReport = (\<lambda>_. None)\<rparr> (Room_subject ''r'' ''c'' ''p'' None)
        (projectRoomReceipt (\<lambda>_. []) 200 (stringify sample_envelope)
           \<lparr>rl_room = ''r'', rl_channel = ''c'', rl_publication = ''p''\<rparr>)
        (receiptLevels False) = Inr (Some (Entry_room e))
      \<and> re_status e \<in> {1, 2, 3, 4} \<and> re_level e = 1"
proof -
  let ?cd = "\<lparr>cd_keccak256 = id, cd_encodeStrings = concat, cd_encodeRequest = (\<lambda>_. id),
          cd_encodeReport = (\<lambda>_. []), cd_decodeReport = (\<lambda>_. None)\<rparr>"
  have "\<exists>e. reportEntryFor ?cd (Room_subject ''r'' ''c'' ''p'' None)
        (projectRoomReceipt (\<lambda>_. []) 200 (stringify sample_envelope)
           \<lparr>rl_room = ''r'', rl_channel = ''c'', rl_publication = ''p''\<rparr>)
        (receiptLevels False) = Inr (Some (Entry_room e)) \<and> re_level e = lv_room (receiptLevels False)"
    unfolding sample_envelope_projected by simp
  moreover have "lv_room (receiptLevels False) = 1" by (simp add: receiptLevels_def BeamReported_def)
  ultimately show ?thesis using recorded_room_receipt_sound by metis
qed

subsection \<open>An attestation finds its answer\<close>

lemma normalize_twice: "normalizeTransferId t = Inr u \<Longrightarrow> normalizeTransferId u = Inr u"
  by (auto simp: normalizeTransferId_def Let_def UUID_lower split: if_splits)

lemma bytes16_lower:
  assumes "transferIdToBytes16 t = Inr b"
  shows "to_lower b = b"
proof -
  from assms obtain v where v: "UUID_PATTERN v" "b = ''0x'' @ filter (\<lambda>c. c \<noteq> CHR ''-'') v"
    by (auto simp: transferIdToBytes16_def normalizeTransferId_def Let_def split: if_splits sum.splits)
  obtain c d e f g where p: "v = c @ ''-'' @ d @ ''-'' @ e @ ''-'' @ f @ ''-'' @ g"
    and h: "hex_text 8 c" "hex_text 4 d" "hex_text 4 e" "hex_text 4 f" "hex_text 12 g"
    using v(1) by (rule UUID_parts)
  have b: "b = ''0x'' @ c @ d @ e @ f @ g" using h by (simp add: v(2) p filter_hex)
  have "to_lower_char (CHR ''0'') = CHR ''0''" "to_lower_char (CHR ''x'') = CHR ''x''" by code_simp+
  with h show ?thesis unfolding b by (simp add: hex_text_def to_lower_id)
qed

text \<open>
  What a bridge asked for, it finds in the report it gets back: whatever observation makes an entry for
  an attestation's subject, the report encoded from that one entry decodes, and looking the attestation up
  in it returns that entry, a closure included. It rests on the ABI decoder undoing the encoder and on the
  hash being printed in lower case.
\<close>

theorem attestation_finds_its_answer:
  assumes "codec_inverse cd" and "\<And>x. to_lower (cd_keccak256 cd x) = cd_keccak256 cd x"
    and "attestationSubject a = Inr s" and "reportEntryFor cd s obs levels = Inr (Some entry)"
    and "encodeEntries cd [entry] = Inr report"
  shows "\<exists>decoded. decodeReport cd report = Inr decoded \<and> answerFor cd a decoded = Inr (Some entry)"
proof -
  have d: "decodeReport cd report = Inr \<lparr>dr_standard = entries_standard [entry], dr_rooms = entries_rooms [entry],
      dr_closures = entries_closures [entry], dr_jobs = entries_jobs [entry]\<rparr>"
    using report_round_trip [OF assms(1)] assms(5) by (simp add: encodeEntries_def)
  show ?thesis
  proof (cases a)
    case (Attest_transfer t)
    then obtain u where u: "normalizeTransferId t = Inr u" "s = Transfer_subject u None"
      using assms(3) by (auto split: sum.splits)
    from assms(4) u(2) obtain e b where e: "entry = Entry_standard e" "se_transferId e = b" "transferIdToBytes16 u = Inr b"
      by (cases obs) (auto split: sum.splits)
    have "transferIdToBytes16 t = Inr b"
      using e(3) u(1) normalize_twice [OF u(1)] by (simp add: transferIdToBytes16_def)
    then show ?thesis using d e bytes16_lower [OF e(3)]
      by (simp add: answerFor_def Attest_transfer entries_standard_def)
  next
    case (Attest_room room channel publication)
    then have s: "s = Room_subject room channel publication None" using assms(3) by simp
    consider (room) e where "entry = Entry_room e" "re_room e = room" "re_channel e = channel" "re_publication e = publication"
      | (closure) e where "entry = Entry_closure e" "ce_key e = roomRequestKey cd (roomReceiptKey cd room channel publication)"
      using assms(4) s by (cases obs) (auto split: sum.splits)
    then show ?thesis
    proof cases
      case room
      then show ?thesis using d by (simp add: answerFor_def Attest_room entries_rooms_def)
    next
      case closure
      then show ?thesis using d assms(2)
        by (simp add: answerFor_def Attest_room entries_rooms_def entries_closures_def Let_def roomRequestKey_def)
    qed
  qed
qed

subsection \<open>A codec\<close>

text \<open>A concrete codec that meets the documented laws: reports printed as JSON.\<close>

definition jitem :: "json \<Rightarrow> nat \<Rightarrow> json" where
  "jitem j n = (case j of JArr xs \<Rightarrow> xs ! n | _ \<Rightarrow> JNull)"

definition jtext :: "json \<Rightarrow> nat \<Rightarrow> string" where
  "jtext j n = coalesce (as_str (Some (jitem j n))) []"

definition jint :: "json \<Rightarrow> nat \<Rightarrow> int" where
  "jint j n = coalesce (as_num (Some (jitem j n))) 0"

definition jlist :: "json \<Rightarrow> nat \<Rightarrow> json list" where
  "jlist j n = coalesce (as_arr (Some (jitem j n))) []"

definition report_json :: "int \<times> decoded_report \<Rightarrow> json" where
  "report_json = (\<lambda>(v, r). JArr [JNum v,
     JArr (map (\<lambda>s. JArr [JStr (se_transferId s), JStr (se_requestId s), JNum (se_status s), JNum (se_totalBytes s),
        JNum (se_bytesTransferred s), JNum (se_completedAtMs s), JStr (se_planFingerprint s),
        JStr (se_coordinateChecksum s), JNum (se_level s)]) (dr_standard r)),
     JArr (map (\<lambda>e. JArr [JStr (re_room e), JStr (re_channel e), JStr (re_publication e), JStr (re_requestId e),
        JNum (re_status e), JNum (re_fileSizeBytes e), JStr (re_manifestSha256 e), JNum (re_targetCount e),
        JStr (re_evidenceSha256 e), JStr (re_assignmentsSha256 e), JNum (re_evidenceVersion e), JNum (re_level e)])
        (dr_rooms r)),
     JArr (map (\<lambda>c. JArr [JStr (ce_key c), JNum (ce_reason c), JStr (ce_transferId c)]) (dr_closures r)),
     JArr (map (\<lambda>j. JArr [JStr (je_requestId j), JStr (je_inputRoomKey j), JStr (je_outputRoomKey j),
        JStr (je_computeMember j)]) (dr_jobs r))])"

definition json_report :: "json \<Rightarrow> int \<times> decoded_report" where
  "json_report j = (jint j 0,
     \<lparr>dr_standard = map (\<lambda>i. \<lparr>se_transferId = jtext i 0, se_requestId = jtext i 1, se_status = jint i 2,
        se_totalBytes = jint i 3, se_bytesTransferred = jint i 4, se_completedAtMs = jint i 5,
        se_planFingerprint = jtext i 6, se_coordinateChecksum = jtext i 7, se_level = jint i 8\<rparr>) (jlist j 1),
      dr_rooms = map (\<lambda>i. \<lparr>re_room = jtext i 0, re_channel = jtext i 1, re_publication = jtext i 2,
        re_requestId = jtext i 3, re_status = jint i 4, re_fileSizeBytes = jint i 5, re_manifestSha256 = jtext i 6,
        re_targetCount = jint i 7, re_evidenceSha256 = jtext i 8, re_assignmentsSha256 = jtext i 9,
        re_evidenceVersion = jint i 10, re_level = jint i 11\<rparr>) (jlist j 2),
      dr_closures = map (\<lambda>i. \<lparr>ce_key = jtext i 0, ce_reason = jint i 1, ce_transferId = jtext i 2\<rparr>) (jlist j 3),
      dr_jobs = map (\<lambda>i. \<lparr>je_requestId = jtext i 0, je_inputRoomKey = jtext i 1, je_outputRoomKey = jtext i 2,
        je_computeMember = jtext i 3\<rparr>) (jlist j 4)\<rparr>)"

definition json_codec :: codec where
  "json_codec = \<lparr>cd_keccak256 = to_lower, cd_encodeStrings = (\<lambda>ss. stringify (JArr (map JStr ss))),
     cd_encodeRequest = (\<lambda>n s. stringify (JArr [JNum n, JStr s])),
     cd_encodeReport = (\<lambda>r. ''0x'' @ stringify (report_json r)),
     cd_decodeReport = (\<lambda>s. map_option json_report (parse_json (drop 2 s)))\<rparr>"

lemma json_report_report_json: "json_report (report_json r) = r"
  by (cases r)
    (auto simp: json_report_def report_json_def jlist_def jint_def jtext_def jitem_def comp_def
       intro!: decoded_report.equality standard_entry.equality room_entry.equality closure_entry.equality
         job_entry.equality map_idI)

lemma json_codec_inverse: "codec_inverse json_codec"
  by (simp add: codec_inverse_def json_codec_def parse_stringify json_report_report_json del: stringify.simps)

lemma to_lower_twice: "to_lower (to_lower s) = to_lower s"
  by (induction s) (auto simp: to_lower_def to_lower_char_def Let_def)

lemma json_codec_lower: "to_lower (cd_keccak256 json_codec x) = cd_keccak256 json_codec x"
  by (simp add: json_codec_def to_lower_twice)

text \<open>A closure asked for by publication, whose report is found again.\<close>

theorem attestation_finds_its_answer_witness:
  "\<exists>report entry decoded. reportEntryFor json_codec (Room_subject ''r'' ''c'' ''p'' None) (Obs_not_room [])
        (receiptLevels True) = Inr (Some (Entry_closure entry))
     \<and> encodeEntries json_codec [Entry_closure entry] = Inr report \<and> decodeReport json_codec report = Inr decoded
     \<and> answerFor json_codec (Attest_room ''r'' ''c'' ''p'') decoded = Inr (Some (Entry_closure entry))"
proof -
  let ?entry = "\<lparr>ce_key = roomRequestKey json_codec (roomReceiptKey json_codec ''r'' ''c'' ''p''),
      ce_reason = BucketOnlyPublication, ce_transferId = ZERO_BYTES16\<rparr>"
  have e: "reportEntryFor json_codec (Room_subject ''r'' ''c'' ''p'' None) (Obs_not_room []) (receiptLevels True)
      = Inr (Some (Entry_closure ?entry))" by simp
  have "length (cd_encodeReport json_codec (REPORT_VERSION, \<lparr>dr_standard = [], dr_rooms = [],
      dr_closures = [?entry], dr_jobs = []\<rparr>)) \<le> 400" by code_simp
  then have "\<exists>report. encodeEntries json_codec [Entry_closure ?entry] = Inr report"
    by (simp add: encodeEntries_def encodeReport_def Let_def MAX_REPORT_BYTES_def entries_standard_def
        entries_rooms_def entries_closures_def entries_jobs_def)
  then obtain report where r: "encodeEntries json_codec [Entry_closure ?entry] = Inr report" ..
  have s: "attestationSubject (Attest_room ''r'' ''c'' ''p'') = Inr (Room_subject ''r'' ''c'' ''p'' None)" by simp
  show ?thesis
    using attestation_finds_its_answer [OF json_codec_inverse json_codec_lower s e r] e r by blast
qed

end
