(* ===== verification/Effects.thy ===== *)
theory Effects
  imports Prelude
begin

text \<open>
  Asynchronous programs that call an outside world: a state of the world, opaque, and the trace of the
  calls made so far with their answers. An action yields a value or the text of what it threw. The outside
  operations are parameters of the programs; every call records one event.
\<close>

type_synonym ('w, 'e, 'a) act = "'w \<times> 'e list \<Rightarrow> (string + 'a) \<times> ('w \<times> 'e list)"

definition return_a :: "'a \<Rightarrow> ('w, 'e, 'a) act" where
  "return_a a s = (Inr a, s)"

definition bind_a :: "('w, 'e, 'a) act \<Rightarrow> ('a \<Rightarrow> ('w, 'e, 'b) act) \<Rightarrow> ('w, 'e, 'b) act" where
  "bind_a m f s = (case m s of (Inl e, s') \<Rightarrow> (Inl e, s') | (Inr a, s') \<Rightarrow> f a s')"

text \<open>\<open>try { ... } catch\<close>: what was thrown becomes a value.\<close>

definition attempt :: "('w, 'e, 'a) act \<Rightarrow> ('w, 'e, string + 'a) act" where
  "attempt m s = (case m s of (r, s') \<Rightarrow> (Inr r, s'))"

text \<open>A pure step that may throw.\<close>

definition lift_a :: "string + 'a \<Rightarrow> ('w, 'e, 'a) act" where
  "lift_a r s = (r, s)"

definition call :: "(string + 'a \<Rightarrow> 'e) \<Rightarrow> ('w \<Rightarrow> (string + 'a) \<times> 'w) \<Rightarrow> ('w, 'e, 'a) act" where
  "call ev f s = (case f (fst s) of (r, w') \<Rightarrow> (r, (w', snd s @ [ev r])))"

fun fold_a :: "('c \<Rightarrow> 'b \<Rightarrow> ('w, 'e, 'c) act) \<Rightarrow> 'c \<Rightarrow> 'b list \<Rightarrow> ('w, 'e, 'c) act" where
  "fold_a f acc [] = return_a acc"
| "fold_a f acc (x # xs) = bind_a (f acc x) (\<lambda>acc'. fold_a f acc' xs)"

text \<open>
  \<open>spec P m Q E\<close>: from a trace with \<open>P\<close>, whatever the world does, \<open>m\<close> ends in a value and a trace with \<open>Q\<close> or
  throws in a trace with \<open>E\<close>.
\<close>

definition spec ::
  "('e list \<Rightarrow> bool) \<Rightarrow> ('w, 'e, 'a) act \<Rightarrow> ('a \<Rightarrow> 'e list \<Rightarrow> bool) \<Rightarrow> ('e list \<Rightarrow> bool) \<Rightarrow> bool" where
  "spec P m Q E \<longleftrightarrow>
     (\<forall>w l. P l \<longrightarrow> (case m (w, l) of (Inl e, (w', l')) \<Rightarrow> E l' | (Inr a, (w', l')) \<Rightarrow> Q a l'))"

named_theorems spec_rules \<open>rules of the trace logic, one per construct\<close>

lemma spec_return [spec_rules]: "(\<And>l. P l \<Longrightarrow> Q a l) \<Longrightarrow> spec P (return_a a) Q E"
  by (simp add: spec_def return_a_def)

lemma spec_lift: "(\<And>l a. P l \<Longrightarrow> r = Inr a \<Longrightarrow> Q a l) \<Longrightarrow> (\<And>l. P l \<Longrightarrow> E l) \<Longrightarrow> spec P (lift_a r) Q E"
  by (auto simp: spec_def lift_a_def split: sum.splits)

lemma spec_bind:
  assumes "spec P m R E" and "\<And>a. spec (R a) (f a) Q E"
  shows "spec P (bind_a m f) Q E"
  unfolding spec_def
proof (intro allI impI)
  fix w l assume "P l"
  with assms(1) have m: "case m (w, l) of (Inl e, (w', l')) \<Rightarrow> E l' | (Inr a, (w', l')) \<Rightarrow> R a l'"
    by (simp add: spec_def)
  obtain r w' l' where s: "m (w, l) = (r, (w', l'))" by (cases "m (w, l)") auto
  show "case bind_a m f (w, l) of (Inl e, (w', l')) \<Rightarrow> E l' | (Inr a, (w', l')) \<Rightarrow> Q a l'"
  proof (cases r)
    case (Inl e)
    with m s show ?thesis by (simp add: bind_a_def)
  next
    case (Inr a)
    with m s have "R a l'" by simp
    with assms(2) [of a] s Inr show ?thesis by (simp add: bind_a_def spec_def)
  qed
qed

lemma spec_attempt:
  assumes "spec P m (\<lambda>a. Q (Inr a)) (\<lambda>l. \<forall>e. Q (Inl e) l)"
  shows "spec P (attempt m) Q E"
  unfolding spec_def
proof (intro allI impI)
  fix w l assume "P l"
  with assms have m: "case m (w, l) of (Inl e, (w', l')) \<Rightarrow> \<forall>e. Q (Inl e) l' | (Inr a, (w', l')) \<Rightarrow> Q (Inr a) l'"
    by (simp add: spec_def)
  obtain r w' l' where s: "m (w, l) = (r, (w', l'))" by (cases "m (w, l)") auto
  from m s show "case attempt m (w, l) of (Inl e, (w', l')) \<Rightarrow> E l' | (Inr a, (w', l')) \<Rightarrow> Q a l'"
    by (cases r) (simp_all add: attempt_def)
qed

text \<open>A call may return any value the operation can answer, or throw.\<close>

lemma spec_call:
  assumes "\<And>l a w w'. P l \<Longrightarrow> f w = (Inr a, w') \<Longrightarrow> Q a (l @ [ev (Inr a)])"
    and "\<And>l e. P l \<Longrightarrow> E (l @ [ev (Inl e)])"
  shows "spec P (call ev f) Q E"
  unfolding spec_def
proof (intro allI impI)
  fix w l assume p: "P l"
  obtain r w' where s: "f w = (r, w')" by (cases "f w") auto
  show "case call ev f (w, l) of (Inl e, (w', l')) \<Rightarrow> E l' | (Inr a, (w', l')) \<Rightarrow> Q a l'"
    using assms(1) [OF p] assms(2) [OF p] s by (cases r) (auto simp: call_def)
qed

lemma spec_weaken:
  assumes "spec P' m Q' E'" and "\<And>l. P l \<Longrightarrow> P' l" and "\<And>a l. Q' a l \<Longrightarrow> Q a l" and "\<And>l. E' l \<Longrightarrow> E l"
  shows "spec P m Q E"
  unfolding spec_def
proof (intro allI impI)
  fix w l assume "P l"
  then have "P' l" by (rule assms(2))
  with assms(1) have m: "case m (w, l) of (Inl e, (w', l')) \<Rightarrow> E' l' | (Inr a, (w', l')) \<Rightarrow> Q' a l'"
    by (simp add: spec_def)
  obtain r w' l' where s: "m (w, l) = (r, (w', l'))" by (cases "m (w, l)") auto
  from m s assms(3,4) show "case m (w, l) of (Inl e, (w', l')) \<Rightarrow> E l' | (Inr a, (w', l')) \<Rightarrow> Q a l'"
    by (cases r) simp_all
qed

lemma spec_fold:
  assumes "\<And>acc x. x \<in> set xs \<Longrightarrow> spec (I acc) (f acc x) I E"
  shows "spec (I acc) (fold_a f acc xs) I E"
  using assms
proof (induction xs arbitrary: acc)
  case Nil
  show ?case by (simp add: spec_return)
next
  case (Cons x xs)
  have "spec (I acc) (f acc x) I E" by (rule Cons.prems) simp
  moreover have "spec (I acc') (fold_a f acc' xs) I E" for acc' by (rule Cons.IH) (simp add: Cons.prems)
  ultimately show ?case by (simp add: spec_bind)
qed

lemma spec_result:
  assumes "spec P m Q E" and "P l" and "m (w, l) = (r, (w', l'))"
  shows "case r of Inl e \<Rightarrow> E l' | Inr a \<Rightarrow> Q a l'"
proof -
  from assms(1,2) have "case m (w, l) of (Inl e, (w', l')) \<Rightarrow> E l' | (Inr a, (w', l')) \<Rightarrow> Q a l'"
    by (simp add: spec_def)
  with assms(3) show ?thesis by (cases r) simp_all
qed

text \<open>
  A property of traces that looks at every moment an event happens: \<open>each D l\<close> holds when every event of \<open>l\<close>
  is allowed by \<open>D\<close> after the part of the trace before it.
\<close>

definition each :: "('e list \<Rightarrow> 'e \<Rightarrow> bool) \<Rightarrow> 'e list \<Rightarrow> bool" where
  "each D l \<longleftrightarrow> (\<forall>pre ev post. l = pre @ ev # post \<longrightarrow> D pre ev)"

lemma each_Nil [simp]: "each D []"
  by (simp add: each_def)

lemma each_snoc [simp]: "each D (l @ [ev]) \<longleftrightarrow> each D l \<and> D l ev"
proof
  assume a: "each D (l @ [ev])"
  have "D l ev" using a unfolding each_def by (metis)
  moreover have "each D l" unfolding each_def
  proof (intro allI impI)
    fix pre e post assume "l = pre @ e # post"
    then have "l @ [ev] = pre @ e # (post @ [ev])" by simp
    with a show "D pre e" unfolding each_def by blast
  qed
  ultimately show "each D l \<and> D l ev" by simp
next
  assume a: "each D l \<and> D l ev"
  show "each D (l @ [ev])" unfolding each_def
  proof (intro allI impI)
    fix pre e post assume s: "l @ [ev] = pre @ e # post"
    show "D pre e"
    proof (cases post rule: rev_cases)
      case Nil
      with s a show ?thesis by simp
    next
      case (snoc post' x)
      with s have "l = pre @ e # post'" by simp
      with a show ?thesis unfolding each_def by blast
    qed
  qed
qed

lemma each_mono: "each D l \<Longrightarrow> (\<And>pre ev. D pre ev \<Longrightarrow> D' pre ev) \<Longrightarrow> each D' l"
  unfolding each_def by blast

lemma eachD: "each D l \<Longrightarrow> l = pre @ ev # post \<Longrightarrow> D pre ev"
  unfolding each_def by blast

subsection \<open>Derived rules\<close>

lemma spec_then_return: "spec P m (\<lambda>_. I) E \<Longrightarrow> spec P (bind_a m (\<lambda>a. return_a (g a))) (\<lambda>_. I) E"
  by (erule spec_bind) (rule spec_return)

text \<open>A pure step: the rest of the program knows its outcome.\<close>

lemma spec_bind_lift:
  "(\<And>a. r = Inr a \<Longrightarrow> spec P (f a) Q E) \<Longrightarrow> (\<And>l. P l \<Longrightarrow> E l) \<Longrightarrow> spec P (bind_a (lift_a r) f) Q E"
  by (cases r) (auto simp: spec_def bind_a_def lift_a_def)

lemma spec_pre: "spec P m Q E \<Longrightarrow> (\<And>l. P' l \<Longrightarrow> P l) \<Longrightarrow> spec P' m Q E"
  by (auto intro: spec_weaken)

lemma spec_given: "(F \<Longrightarrow> spec P m Q E) \<Longrightarrow> spec (\<lambda>l. P l \<and> F) m Q E"
  by (cases F) (simp_all add: spec_def)

text \<open>A call after which an invariant still holds, whatever it answered.\<close>

lemma spec_call_inv:
  "(\<And>l r. I l \<Longrightarrow> I (l @ [ev r])) \<Longrightarrow> (\<And>l. I l \<Longrightarrow> E l) \<Longrightarrow> spec I (call ev f) (\<lambda>_. I) E"
  by (rule spec_call) auto

text \<open>An invariant that speaks of the items already handled.\<close>

lemma spec_fold_prefix:
  assumes "\<And>pre x acc. x \<in> set xs \<Longrightarrow> spec (I pre acc) (f acc x) (I (pre @ [x])) E"
  shows "spec (I pre acc) (fold_a f acc xs) (I (pre @ xs)) E"
  using assms
proof (induction xs arbitrary: pre acc)
  case Nil
  show ?case by (simp add: spec_return)
next
  case (Cons x xs)
  have "spec (I pre acc) (f acc x) (I (pre @ [x])) E" by (rule Cons.prems) simp
  moreover have "spec (I (pre @ [x]) acc') (fold_a f acc' xs) (I (pre @ x # xs)) E" for acc'
    using Cons.IH [of "pre @ [x]" acc'] Cons.prems by simp
  ultimately show ?case by (simp add: spec_bind)
qed

subsection \<open>Counting calls\<close>

text \<open>\<open>costs p c m\<close>: however the world answers, \<open>m\<close> makes at most \<open>c\<close> calls of the kind \<open>p\<close>.\<close>

definition costs :: "('e \<Rightarrow> bool) \<Rightarrow> nat \<Rightarrow> ('w, 'e, 'a) act \<Rightarrow> bool" where
  "costs p c m \<longleftrightarrow> (\<forall>s. length (filter p (snd (snd (m s)))) \<le> length (filter p (snd s)) + c)"

named_theorems costs_rules \<open>how much each construct costs\<close>

lemma costs_return [costs_rules]: "costs p c (return_a a)"
  by (simp add: costs_def return_a_def)

lemma costs_lift [costs_rules]: "costs p c (lift_a r)"
  by (simp add: costs_def lift_a_def)

lemma costs_call: "(\<And>r. p (ev r)) \<Longrightarrow> costs p 1 (call ev f)"
  by (auto simp: costs_def call_def split: prod.splits)

lemma costs_free_call: "(\<And>r. \<not> p (ev r)) \<Longrightarrow> costs p c (call ev f)"
  by (auto simp: costs_def call_def split: prod.splits)

lemma costs_bind [costs_rules]:
  assumes "costs p c m" and "\<And>a. costs p d (f a)"
  shows "costs p (c + d) (bind_a m f)"
  unfolding costs_def
proof
  fix s
  obtain r t where m: "m s = (r, t)" by (cases "m s")
  have c: "length (filter p (snd t)) \<le> length (filter p (snd s)) + c"
    using assms(1) m unfolding costs_def by (metis snd_conv)
  show "length (filter p (snd (snd (bind_a m f s)))) \<le> length (filter p (snd s)) + (c + d)"
  proof (cases r)
    case (Inl e)
    with m c show ?thesis by (simp add: bind_a_def)
  next
    case (Inr a)
    have "length (filter p (snd (snd (f a t)))) \<le> length (filter p (snd t)) + d"
      using assms(2) unfolding costs_def by blast
    with m c Inr show ?thesis by (simp add: bind_a_def)
  qed
qed

text \<open>A pure step: the rest of the program knows its outcome.\<close>

lemma costs_bind_lift: "(\<And>a. r = Inr a \<Longrightarrow> costs p c (f a)) \<Longrightarrow> costs p c (bind_a (lift_a r) f)"
  by (cases r) (auto simp: costs_def bind_a_def lift_a_def)

lemma costs_le: "costs p c m \<Longrightarrow> c \<le> d \<Longrightarrow> costs p d m"
  unfolding costs_def by (meson add_left_mono order_trans)

lemma costs_fold: "(\<And>acc x. x \<in> set xs \<Longrightarrow> costs p (g x) (f acc x)) \<Longrightarrow> costs p (sum_list (map g xs)) (fold_a f acc xs)"
proof (induction xs arbitrary: acc)
  case Nil
  show ?case by (simp add: costs_return)
next
  case (Cons x xs)
  show ?case by (simp, rule costs_bind) (simp_all add: Cons)
qed

lemma costs_run: "costs p c m \<Longrightarrow> length (filter p (snd (snd (m (w, []))))) \<le> c"
  unfolding costs_def by (metis add_0 filter.simps(1) list.size(3) snd_conv)

subsection \<open>State kept between calls\<close>

text \<open>
  A program that keeps a mutable object of its own beside the world runs on pairs of the two. A change made
  before an exception stays made.
\<close>

definition on_world :: "('w, 'e, 'a) act \<Rightarrow> ('w \<times> 's, 'e, 'a) act" where
  "on_world m s = (case m (fst (fst s), snd s) of (r, (w', l')) \<Rightarrow> (r, ((w', snd (fst s)), l')))"

definition get_state :: "('w \<times> 's, 'e, 's) act" where
  "get_state s = (Inr (snd (fst s)), s)"

definition modify_state :: "('s \<Rightarrow> 's) \<Rightarrow> ('w \<times> 's, 'e, unit) act" where
  "modify_state f s = (Inr (), ((fst (fst s), f (snd (fst s))), snd s))"

text \<open>The same logic with assertions that also read the object kept.\<close>

definition hoare ::
  "('s \<Rightarrow> 'e list \<Rightarrow> bool) \<Rightarrow> ('w \<times> 's, 'e, 'a) act \<Rightarrow> ('a \<Rightarrow> 's \<Rightarrow> 'e list \<Rightarrow> bool) \<Rightarrow> ('s \<Rightarrow> 'e list \<Rightarrow> bool) \<Rightarrow> bool" where
  "hoare P m Q E \<longleftrightarrow>
     (\<forall>w s l r w' s' l'. P s l \<longrightarrow> m ((w, s), l) = (r, ((w', s'), l')) \<longrightarrow>
        (case r of Inl e \<Rightarrow> E s' l' | Inr a \<Rightarrow> Q a s' l'))"

lemma hoareI:
  "(\<And>w s l r w' s' l'. P s l \<Longrightarrow> m ((w, s), l) = (r, ((w', s'), l')) \<Longrightarrow> (case r of Inl e \<Rightarrow> E s' l' | Inr a \<Rightarrow> Q a s' l'))
     \<Longrightarrow> hoare P m Q E"
  unfolding hoare_def by blast

lemma hoareD:
  "hoare P m Q E \<Longrightarrow> P s l \<Longrightarrow> m ((w, s), l) = (r, ((w', s'), l')) \<Longrightarrow> (case r of Inl e \<Rightarrow> E s' l' | Inr a \<Rightarrow> Q a s' l')"
  unfolding hoare_def by blast

lemma hoare_return: "(\<And>s l. P s l \<Longrightarrow> Q a s l) \<Longrightarrow> hoare P (return_a a) Q E"
  by (rule hoareI) (auto simp: return_a_def)

lemma hoare_get: "(\<And>s l. P s l \<Longrightarrow> Q s s l) \<Longrightarrow> hoare P get_state Q E"
  by (rule hoareI) (auto simp: get_state_def)

lemma hoare_modify: "(\<And>s l. P s l \<Longrightarrow> Q () (f s) l) \<Longrightarrow> hoare P (modify_state f) Q E"
  by (rule hoareI) (auto simp: modify_state_def)

lemma hoare_call:
  assumes "\<And>s l a w w'. P s l \<Longrightarrow> f w = (Inr a, w') \<Longrightarrow> Q a s (l @ [ev (Inr a)])"
    and "\<And>s l e w w'. P s l \<Longrightarrow> f w = (Inl e, w') \<Longrightarrow> E s (l @ [ev (Inl e)])"
  shows "hoare P (on_world (call ev f)) Q E"
proof (rule hoareI)
  fix w s l r w' s' l'
  assume p: "P s l" and run: "on_world (call ev f) ((w, s), l) = (r, ((w', s'), l'))"
  from run have "s' = s" "l' = l @ [ev r]" "f w = (r, w')"
    by (auto simp: on_world_def call_def split: prod.splits)
  with assms(1,2) [OF p] show "case r of Inl e \<Rightarrow> E s' l' | Inr a \<Rightarrow> Q a s' l'" by (cases r) simp_all
qed

lemma hoare_bind:
  assumes "hoare P m R E" and "\<And>a. hoare (R a) (f a) Q E"
  shows "hoare P (bind_a m f) Q E"
proof (rule hoareI)
  fix w s l r w' s' l'
  assume p: "P s l" and run: "bind_a m f ((w, s), l) = (r, ((w', s'), l'))"
  obtain q v t k where m: "m ((w, s), l) = (q, ((v, t), k))" by (metis prod.exhaust)
  note step = hoareD [OF assms(1) p m]
  show "case r of Inl e \<Rightarrow> E s' l' | Inr a \<Rightarrow> Q a s' l'"
  proof (cases q)
    case (Inl e)
    with run m step show ?thesis by (auto simp: bind_a_def)
  next
    case (Inr a)
    with run m have "f a ((v, t), k) = (r, ((w', s'), l'))" by (simp add: bind_a_def)
    with hoareD [OF assms(2)] step Inr show ?thesis by auto
  qed
qed

lemma hoare_attempt:
  assumes "hoare P m (\<lambda>a. Q (Inr a)) (\<lambda>s l. \<forall>e. Q (Inl e) s l)"
  shows "hoare P (attempt m) Q E"
proof (rule hoareI)
  fix w s l r w' s' l'
  assume p: "P s l" and run: "attempt m ((w, s), l) = (r, ((w', s'), l'))"
  obtain q v t k where m: "m ((w, s), l) = (q, ((v, t), k))" by (metis prod.exhaust)
  from hoareD [OF assms p m] run m show "case r of Inl e \<Rightarrow> E s' l' | Inr a \<Rightarrow> Q a s' l'"
    by (cases q) (auto simp: attempt_def)
qed

lemma hoare_fold:
  assumes "\<And>acc x. x \<in> set xs \<Longrightarrow> hoare (I acc) (f acc x) I E"
  shows "hoare (I acc) (fold_a f acc xs) I E"
  using assms
proof (induction xs arbitrary: acc)
  case Nil
  show ?case by (simp add: hoare_return)
next
  case (Cons x xs)
  have "hoare (I acc) (f acc x) I E" by (rule Cons.prems) simp
  moreover have "hoare (I acc') (fold_a f acc' xs) I E" for acc' by (rule Cons.IH) (simp add: Cons.prems)
  ultimately show ?case by (simp add: hoare_bind)
qed

lemma hoare_pre: "hoare P m Q E \<Longrightarrow> (\<And>s l. P' s l \<Longrightarrow> P s l) \<Longrightarrow> hoare P' m Q E"
  unfolding hoare_def by blast

end
