(* ===== verification/Observe.thy ===== *)
theory Observe
  imports Subjects Effects WebPlatform
begin

text \<open>
  The Beam lookups each CRE node runs (\<open>packages/cre/workflows/transfer-receipts/observe.ts\<close>). A node's request is
  a \<open>GET\<close> with headers; how it is sent is a parameter. The projections cross the consensus as JSON text that is
  read back as it was written; the model carries their value.
\<close>

record http_get =
  hg_url :: string
  hg_headers :: "(string \<times> string) list"

type_synonym 'w sender = "http_get \<Rightarrow> 'w \<Rightarrow> (string + int \<times> string) \<times> 'w"

record transfer_lookup =
  tl_baseUrl :: string
  tl_apiKey :: string
  tl_transferId :: string

record room_receipt_lookup = room_lookup +
  rl_baseUrl :: string
  rl_apiKey :: string
  rl_organizationId :: string

record identity_lookup =
  il_baseUrl :: string
  il_apiKey :: string

record publication_key_lookup =
  pk_baseUrl :: string
  pk_apiKey :: string
  pk_organizationId :: string
  pk_room :: string
  pk_channel :: string
  pk_publisherMemberId :: string
  pk_key :: string

text \<open>A sent request, its answer projected.\<close>

definition sent :: "'w sender \<Rightarrow> http_get \<Rightarrow> (int \<Rightarrow> string \<Rightarrow> 'a) \<Rightarrow> 'w \<Rightarrow> (string + 'a) \<times> 'w" where
  "sent send request project w =
     (case send request w of
        (Inl e, w') \<Rightarrow> (Inl e, w')
      | (Inr (statusCode, body), w') \<Rightarrow> (Inr (project statusCode body), w'))"

definition key_headers :: "string \<Rightarrow> (string \<times> string) list" where
  "key_headers apiKey = [(''accept'', ''application/json''), (''x-api-key'', apiKey)]"

definition bearer_headers :: "string \<Rightarrow> string \<Rightarrow> (string \<times> string) list" where
  "bearer_headers apiKey organizationId =
     [(''accept'', ''application/json''), (''authorization'', ''Bearer '' @ apiKey),
      (''x-beam-organization-id'', organizationId)]"

definition transfer_get :: "transfer_lookup \<Rightarrow> http_get" where
  "transfer_get lookup =
     \<lparr>hg_url = tl_baseUrl lookup @ ''/transfers/'' @ tl_transferId lookup @ ''/receipt'',
      hg_headers = key_headers (tl_apiKey lookup)\<rparr>"

definition observeTransfer :: "'w sender \<Rightarrow> transfer_lookup \<Rightarrow> 'w \<Rightarrow> (string + observation) \<times> 'w" where
  "observeTransfer send lookup =
     sent send (transfer_get lookup) (\<lambda>statusCode body. projectTransfer statusCode body (tl_transferId lookup))"

definition room_receipt_get :: "room_receipt_lookup \<Rightarrow> http_get" where
  "room_receipt_get lookup =
     \<lparr>hg_url = rl_baseUrl lookup @ ''/'' @ join_with ''/''
        [''studio/v1/rooms'', encodeURIComponent (rl_room lookup), ''channels'', encodeURIComponent (rl_channel lookup),
         ''objects'', encodeURIComponent (rl_publication lookup), ''receipt''],
      hg_headers = bearer_headers (rl_apiKey lookup) (rl_organizationId lookup)\<rparr>"

definition observeRoomReceipt ::
  "(string \<Rightarrow> 8 word list) \<Rightarrow> 'w sender \<Rightarrow> room_receipt_lookup \<Rightarrow> 'w \<Rightarrow> (string + observation) \<times> 'w" where
  "observeRoomReceipt sha256 send lookup =
     sent send (room_receipt_get lookup)
       (\<lambda>statusCode body. projectRoomReceipt sha256 statusCode body (room_lookup.truncate lookup))"

definition identity_get :: "identity_lookup \<Rightarrow> http_get" where
  "identity_get lookup = \<lparr>hg_url = il_baseUrl lookup @ ''/auth/me'', hg_headers = key_headers (il_apiKey lookup)\<rparr>"

definition observeClientId :: "'w sender \<Rightarrow> identity_lookup \<Rightarrow> 'w \<Rightarrow> (string + string option \<times> int) \<times> 'w" where
  "observeClientId send lookup = sent send (identity_get lookup) projectClientId"

definition publication_get :: "publication_key_lookup \<Rightarrow> http_get" where
  "publication_get lookup =
     \<lparr>hg_url = pk_baseUrl lookup @ ''/'' @ join_with ''/''
        [''studio/v1/rooms'', encodeURIComponent (pk_room lookup), ''channels'', encodeURIComponent (pk_channel lookup),
         ''publications/by-key''] @ ''?publisher='' @ encodeURIComponent (pk_publisherMemberId lookup)
        @ ''&key='' @ encodeURIComponent (pk_key lookup),
      hg_headers = bearer_headers (pk_apiKey lookup) (pk_organizationId lookup)\<rparr>"

definition observePublicationByKey ::
  "'w sender \<Rightarrow> publication_key_lookup \<Rightarrow> 'w \<Rightarrow> (string + publication_lookup) \<times> 'w" where
  "observePublicationByKey send lookup = sent send (publication_get lookup) projectPublicationLookup"

end
