(* ===== verification/ReceiptWorkflow.thy ===== *)
theory ReceiptWorkflow
  imports Observe "HOL-Library.Signed_Division"
begin

text \<open>
  The CRE receipts workflow (\<open>packages/cre/workflows/transfer-receipts/workflow.ts\<close>): its configuration, its
  three triggers and what they record. The runtime's capabilities (secrets, HTTP under identical consensus,
  reading and writing the contract, signing a report, the clock) are operations of the parameter
  \<open>runtime_io\<close>, each call of which is one event; the log lines are left out.
\<close>

subsection \<open>Configuration\<close>

definition MAX_SUBJECTS :: nat where "MAX_SUBJECTS = 14"

fun subjectCost :: "subject \<Rightarrow> nat" where
  "subjectCost (Transfer_subject _ _) = 1"
| "subjectCost (Room_subject _ _ _ _) = 1"
| "subjectCost (RoomRequest_subject _ _ _ _) = 2"
| "subjectCost (Job_subject _ _ _ _ _ _) = 4"

record workflow_config =
  cf_chainSelectorName :: string
  cf_receiptsAddress :: string
  cf_gasLimit :: string
  cf_beamApiBaseUrl :: string
  cf_roomApiBaseUrl :: string
  cf_beamClientId :: string
  cf_reconcileIntervalMinutes :: int
  cf_reconcileBatchSize :: int
  cf_roomDelivery :: "room_route option"
  cf_jobOutput :: "job_route option"
  cf_attestationReplyUrl :: "string option"

text \<open>The numeric checks of the schema and its two refinements.\<close>

definition config_ok :: "workflow_config \<Rightarrow> bool" where
  "config_ok cf \<longleftrightarrow>
     1 \<le> cf_reconcileIntervalMinutes cf \<and> cf_reconcileIntervalMinutes cf \<le> 60 \<and> 60 mod cf_reconcileIntervalMinutes cf = 0
     \<and> 1 \<le> cf_reconcileBatchSize cf \<and> cf_reconcileBatchSize cf \<le> int MAX_SUBJECTS
     \<and> (cf_jobOutput cf = None \<or> cf_roomDelivery cf \<noteq> None)
     \<and> cf_reconcileBatchSize cf
         * (if cf_jobOutput cf \<noteq> None then 4 else if cf_roomDelivery cf \<noteq> None then 2 else 1) \<le> int MAX_SUBJECTS"

subsection \<open>The runtime\<close>

datatype view_call = Call_openRequestCount | Call_openRequests int int

record write_reply =
  wr_success :: bool
  wr_statusName :: string
  wr_reverted :: bool
  wr_errorMessage :: "string option"
  wr_txHash :: "8 word list option"

datatype workflow_event =
  Wf_getSecrets "string list" "string + (string \<times> string) list"
| Wf_observeTransfer transfer_lookup "string + observation"
| Wf_observeRoom room_receipt_lookup "string + observation"
| Wf_observePublication publication_key_lookup "string + publication_lookup"
| Wf_observeClientId identity_lookup "string + string option \<times> int option"
| Wf_deliverReport string string "string + int"
| Wf_callContract string view_call "string + string"
| Wf_report string "string + string"
| Wf_writeReport string string string "string + write_reply"
| Wf_now "string + int"

text \<open>
  \<open>rt_network\<close> is the SDK's table of networks, \<open>rt_count\<close> and \<open>rt_requests\<close> are the ABI decoders of the two
  views. An HTTP operation answers the default of its aggregation when the nodes do not agree.
\<close>

record 'w runtime_io =
  rt_network :: "string \<Rightarrow> string option"
  rt_count :: "string \<Rightarrow> string + int"
  rt_requests :: "string \<Rightarrow> string + open_request list"
  rt_getSecrets :: "string list \<Rightarrow> 'w \<Rightarrow> (string + (string \<times> string) list) \<times> 'w"
  rt_observeTransfer :: "transfer_lookup \<Rightarrow> 'w \<Rightarrow> (string + observation) \<times> 'w"
  rt_observeRoom :: "room_receipt_lookup \<Rightarrow> 'w \<Rightarrow> (string + observation) \<times> 'w"
  rt_observePublication :: "publication_key_lookup \<Rightarrow> 'w \<Rightarrow> (string + publication_lookup) \<times> 'w"
  rt_observeClientId :: "identity_lookup \<Rightarrow> 'w \<Rightarrow> (string + string option \<times> int option) \<times> 'w"
  rt_deliverReport :: "string \<Rightarrow> string \<Rightarrow> 'w \<Rightarrow> (string + int) \<times> 'w"
  rt_callContract :: "string \<Rightarrow> view_call \<Rightarrow> 'w \<Rightarrow> (string + string) \<times> 'w"
  rt_report :: "string \<Rightarrow> 'w \<Rightarrow> (string + string) \<times> 'w"
  rt_writeReport :: "string \<Rightarrow> string \<Rightarrow> string \<Rightarrow> 'w \<Rightarrow> (string + write_reply) \<times> 'w"
  rt_now :: "'w \<Rightarrow> (string + int) \<times> 'w"

type_synonym ('w, 'a) wact = "('w, workflow_event, 'a) act"

definition throw_a :: "string \<Rightarrow> ('w, 'a) wact" where
  "throw_a e = lift_a (Inl e)"

record credentials =
  cx_apiKey :: string
  cx_organizationId :: string

definition API_KEY_SECRET :: string where "API_KEY_SECRET = ''BEAM_API_KEY''"
definition ORG_ID_SECRET :: string where "ORG_ID_SECRET = ''BEAM_ORG_ID''"

text \<open>A CRE workflow writes DON-signed reports.\<close>

definition LEVELS :: receipt_levels where "LEVELS = receiptLevels True"

subsection \<open>The contract\<close>

definition evmClientFor :: "'w runtime_io \<Rightarrow> string \<Rightarrow> string + string" where
  "evmClientFor io chainSelectorName =
     (case rt_network io chainSelectorName of
        None \<Rightarrow> Inl (''Network not found: '' @ chainSelectorName) | Some selector \<Rightarrow> Inr selector)"

definition callView :: "'w runtime_io \<Rightarrow> string \<Rightarrow> view_call \<Rightarrow> ('w, string) wact" where
  "callView io to data =
     bind_a (call (Wf_callContract to data) (rt_callContract io to data)) (\<lambda>result.
       if result = ''0x'' then throw_a (''No BeamTransferReceipts contract answered at '' @ to) else return_a result)"

definition readOpenRequestCount :: "'w runtime_io \<Rightarrow> string \<Rightarrow> ('w, int) wact" where
  "readOpenRequestCount io to = bind_a (callView io to Call_openRequestCount) (\<lambda>data. lift_a (rt_count io data))"

definition readOpenRequests :: "'w runtime_io \<Rightarrow> string \<Rightarrow> int \<Rightarrow> int \<Rightarrow> ('w, open_request list) wact" where
  "readOpenRequests io to offset limit =
     bind_a (callView io to (Call_openRequests offset limit)) (\<lambda>data. lift_a (rt_requests io data))"

definition writeReceiptReport :: "'w runtime_io \<Rightarrow> workflow_config \<Rightarrow> string \<Rightarrow> ('w, string) wact" where
  "writeReceiptReport io cf encoded =
     bind_a (call (Wf_report encoded) (rt_report io encoded)) (\<lambda>report.
     bind_a (lift_a (evmClientFor io (cf_chainSelectorName cf))) (\<lambda>client.
     bind_a (call (Wf_writeReport (cf_receiptsAddress cf) report (cf_gasLimit cf))
         (rt_writeReport io (cf_receiptsAddress cf) report (cf_gasLimit cf))) (\<lambda>reply.
       if \<not> wr_success reply then
         throw_a (''Receipt write failed: '' @ coalesce (wr_errorMessage reply) (wr_statusName reply))
       else if wr_reverted reply then
         throw_a (''BeamTransferReceipts reverted the report: '' @ coalesce (wr_errorMessage reply) ''no reason given'')
       else return_a (''0x'' @ bytesToHex (coalesce (wr_txHash reply) (replicate 32 0))))))"

subsection \<open>Looking subjects up and recording what is finished\<close>

definition observeSubject ::
  "'w runtime_io \<Rightarrow> workflow_config \<Rightarrow> credentials \<Rightarrow> subject \<Rightarrow> ('w, observation) wact" where
  "observeSubject io cf cx subject =
     (case subject of
        Transfer_subject transferId _ \<Rightarrow>
          (let lookup = \<lparr>tl_baseUrl = cf_beamApiBaseUrl cf, tl_apiKey = cx_apiKey cx, tl_transferId = transferId\<rparr> in
           call (Wf_observeTransfer lookup) (rt_observeTransfer io lookup))
      | Room_subject room channel publication _ \<Rightarrow>
          (let lookup = \<lparr>rl_room = room, rl_channel = channel, rl_publication = publication,
                rl_baseUrl = cf_roomApiBaseUrl cf, rl_apiKey = cx_apiKey cx, rl_organizationId = cx_organizationId cx\<rparr> in
           call (Wf_observeRoom lookup) (rt_observeRoom io lookup))
      | _ \<Rightarrow> throw_a ''TypeError'')"

text \<open>The typed code calls it with a Room request only.\<close>

definition lookUp :: "'w runtime_io \<Rightarrow> workflow_config \<Rightarrow> credentials \<Rightarrow> subject \<Rightarrow> ('w, publication_lookup) wact" where
  "lookUp io cf cx subject =
     (case subject of
        RoomRequest_subject room channel publisherMemberId requestId \<Rightarrow>
          bind_a (lift_a (roomRequestPublicationKey requestId)) (\<lambda>key.
            let lookup = \<lparr>pk_baseUrl = cf_roomApiBaseUrl cf, pk_apiKey = cx_apiKey cx, pk_organizationId = cx_organizationId cx,
                  pk_room = room, pk_channel = channel, pk_publisherMemberId = publisherMemberId, pk_key = key\<rparr> in
            call (Wf_observePublication lookup) (rt_observePublication io lookup))
      | _ \<Rightarrow> throw_a ''TypeError'')"

definition confirmClientId :: "'w runtime_io \<Rightarrow> workflow_config \<Rightarrow> string \<Rightarrow> ('w, bool) wact" where
  "confirmClientId io cf apiKey =
     (let lookup = \<lparr>il_baseUrl = cf_beamApiBaseUrl cf, il_apiKey = apiKey\<rparr> in
      bind_a (call (Wf_observeClientId lookup) (rt_observeClientId io lookup)) (\<lambda>identity.
        return_a (fst identity = Some (cf_beamClientId cf))))"

definition secret :: "(string \<times> string) list \<Rightarrow> string \<Rightarrow> string + string" where
  "secret secrets name = (case map_of secrets name of None \<Rightarrow> Inl ''TypeError'' | Some v \<Rightarrow> Inr v)"

definition read_credentials :: "'w runtime_io \<Rightarrow> bool \<Rightarrow> ('w, credentials) wact" where
  "read_credentials io needsRoom =
     (let names = (if needsRoom then [API_KEY_SECRET, ORG_ID_SECRET] else [API_KEY_SECRET]) in
      bind_a (call (Wf_getSecrets names) (rt_getSecrets io names)) (\<lambda>secrets.
      bind_a (lift_a (secret secrets API_KEY_SECRET)) (\<lambda>apiKey.
      bind_a (if needsRoom then lift_a (secret secrets ORG_ID_SECRET) else return_a []) (\<lambda>organizationId.
        return_a \<lparr>cx_apiKey = apiKey, cx_organizationId = organizationId\<rparr>))))"

definition record_observed ::
  "codec \<Rightarrow> 'w runtime_io \<Rightarrow> workflow_config \<Rightarrow> credentials \<Rightarrow> bool \<Rightarrow> report_entry list \<Rightarrow> subject
     \<Rightarrow> ('w, report_entry list) wact" where
  "record_observed cd io cf cx clientIdConfirmed entries subject =
     (if (case subject of Transfer_subject _ (Some _) \<Rightarrow> \<not> clientIdConfirmed | _ \<Rightarrow> False) then return_a entries
      else
        bind_a (observeSubject io cf cx subject) (\<lambda>observation.
        bind_a (lift_a (reportEntryFor cd subject observation LEVELS)) (\<lambda>entry.
          return_a (case entry of None \<Rightarrow> entries | Some e \<Rightarrow> entries @ [e]))))"

definition record_job ::
  "codec \<Rightarrow> 'w runtime_io \<Rightarrow> workflow_config \<Rightarrow> credentials \<Rightarrow> report_entry list \<Rightarrow> subject \<Rightarrow> subject \<times> subject
     \<Rightarrow> ('w, report_entry list) wact" where
  "record_job cd io cf cx entries subject lookups =
     bind_a (lookUp io cf cx (fst lookups)) (\<lambda>input.
       case input of
         Lookup_found inputId \<Rightarrow>
           bind_a (lookUp io cf cx (snd lookups)) (\<lambda>out.
             case (subject, out) of
               (Job_subject room inputChannel _ outputChannel _ _, Lookup_found outputId) \<Rightarrow>
                 bind_a (observeSubject io cf cx (Room_subject room inputChannel inputId None)) (\<lambda>i.
                 bind_a (observeSubject io cf cx (Room_subject room outputChannel outputId None)) (\<lambda>out'.
                 bind_a (lift_a (jobEntriesFor cd subject (inputId, outputId) (i, out') LEVELS)) (\<lambda>jobEntries.
                   return_a (entries @ coalesce jobEntries []))))
             | _ \<Rightarrow> return_a entries)
       | _ \<Rightarrow> return_a entries)"

definition record_one ::
  "codec \<Rightarrow> 'w runtime_io \<Rightarrow> workflow_config \<Rightarrow> credentials \<Rightarrow> bool \<Rightarrow> report_entry list \<Rightarrow> subject
     \<Rightarrow> ('w, report_entry list) wact" where
  "record_one cd io cf cx clientIdConfirmed entries subject =
     (case jobLookups subject of
        Some lookups \<Rightarrow> record_job cd io cf cx entries subject lookups
      | None \<Rightarrow>
          (case subject of
             RoomRequest_subject _ _ _ _ \<Rightarrow>
               bind_a (lookUp io cf cx subject) (\<lambda>lookup.
                 case roomSubjectForLookup subject lookup of
                   None \<Rightarrow> return_a entries
                 | Some found \<Rightarrow> record_observed cd io cf cx clientIdConfirmed entries found)
           | _ \<Rightarrow> record_observed cd io cf cx clientIdConfirmed entries subject))"

definition derives_id :: "subject \<Rightarrow> bool" where
  "derives_id s = (case s of Transfer_subject _ (Some _) \<Rightarrow> True | _ \<Rightarrow> False)"

definition is_transfer :: "subject \<Rightarrow> bool" where
  "is_transfer s = (case s of Transfer_subject _ _ \<Rightarrow> True | _ \<Rightarrow> False)"

definition recorded_text :: "string \<Rightarrow> nat \<Rightarrow> report_entry list \<Rightarrow> string \<Rightarrow> string" where
  "recorded_text source checked entries txHash =
     source @ '': checked '' @ show_nat checked @ '', reported ''
       @ show_nat (length (entries_standard entries) + length (entries_rooms entries)) @ '' receipts, ''
       @ show_nat (length (entries_jobs entries)) @ '' jobs and '' @ show_nat (length (entries_closures entries))
       @ '' closures in '' @ txHash"

definition recordReceipts ::
  "codec \<Rightarrow> 'w runtime_io \<Rightarrow> workflow_config \<Rightarrow> subject list \<Rightarrow> string \<Rightarrow> ('w, string) wact" where
  "recordReceipts cd io cf requested source =
     (let subjects = uniqueSubjects requested in
      if sum_list (map subjectCost subjects) > MAX_SUBJECTS then
        throw_a (''At most '' @ show_nat MAX_SUBJECTS @ '' lookups per execution'')
      else
        bind_a (read_credentials io (\<exists>s \<in> set subjects. \<not> is_transfer s)) (\<lambda>cx.
        bind_a (if \<exists>s \<in> set subjects. derives_id s then confirmClientId io cf (cx_apiKey cx) else return_a False)
          (\<lambda>clientIdConfirmed.
        bind_a (fold_a (record_one cd io cf cx clientIdConfirmed) [] subjects) (\<lambda>entries.
          if entries = [] then
            return_a (source @ '': checked '' @ show_nat (length subjects) @ '', nothing finished yet'')
          else
            bind_a (lift_a (encodeEntries cd entries)) (\<lambda>report.
            bind_a (writeReceiptReport io cf report) (\<lambda>txHash.
              return_a (recorded_text source (length subjects) entries txHash)))))))"

subsection \<open>Answering attestation requests\<close>

record attest_state =
  at_answered :: "report_entry list"
  at_delivered :: nat

definition attest_one ::
  "codec \<Rightarrow> 'w runtime_io \<Rightarrow> workflow_config \<Rightarrow> credentials \<Rightarrow> string \<Rightarrow> attest_state \<Rightarrow> subject \<Rightarrow> ('w, attest_state) wact" where
  "attest_one cd io cf cx replyUrl st subject =
     bind_a (observeSubject io cf cx subject) (\<lambda>observation.
     bind_a (lift_a (reportEntryFor cd subject observation LEVELS)) (\<lambda>entry.
       case entry of
         None \<Rightarrow> return_a st
       | Some e \<Rightarrow>
           bind_a (lift_a (encodeEntries cd [e])) (\<lambda>encoded.
           bind_a (call (Wf_report encoded) (rt_report io encoded)) (\<lambda>report.
           bind_a (call (Wf_deliverReport replyUrl report) (rt_deliverReport io replyUrl report)) (\<lambda>status.
             return_a \<lparr>at_answered = at_answered st @ [e],
               at_delivered = at_delivered st + (if 200 \<le> status \<and> status < 300 then 1 else 0)\<rparr>)))))"

fun collect :: "('a \<Rightarrow> string + 'b) \<Rightarrow> 'a list \<Rightarrow> string + 'b list" where
  "collect f [] = Inr []"
| "collect f (x # xs) =
     (case f x of Inl e \<Rightarrow> Inl e | Inr y \<Rightarrow> (case collect f xs of Inl e \<Rightarrow> Inl e | Inr ys \<Rightarrow> Inr (y # ys)))"

definition answerAttestations ::
  "codec \<Rightarrow> 'w runtime_io \<Rightarrow> workflow_config \<Rightarrow> attestation list \<Rightarrow> bool \<Rightarrow> ('w, string) wact" where
  "answerAttestations cd io cf attest publishOnchain =
     (case cf_attestationReplyUrl cf of
        None \<Rightarrow> throw_a ''Set attestationReplyUrl to answer attestation requests''
      | Some replyUrl \<Rightarrow>
          bind_a (lift_a (collect attestationSubject attest)) (\<lambda>asked.
            let subjects = uniqueSubjects asked in
            bind_a (read_credentials io (\<exists>s \<in> set subjects. \<not> is_transfer s)) (\<lambda>cx.
            bind_a (fold_a (attest_one cd io cf cx replyUrl) \<lparr>at_answered = [], at_delivered = 0\<rparr> subjects) (\<lambda>st.
              let summary = ''attest: checked '' @ show_nat (length subjects) @ '', delivered '' @ show_nat (at_delivered st)
                    @ '' of '' @ show_nat (length (at_answered st)) @ '' reports'' in
              if \<not> publishOnchain \<or> at_answered st = [] then return_a summary
              else
                bind_a (lift_a (encodeEntries cd (at_answered st))) (\<lambda>report.
                bind_a (writeReceiptReport io cf report) (\<lambda>txHash.
                  return_a (summary @ '', recorded onchain in '' @ txHash)))))))"

subsection \<open>The triggers\<close>

text \<open>A log of the contract, decoded by the ABI library.\<close>

datatype contract_log =
  Log_removed
| Log_ReceiptRequested string
| Log_RoomReceiptRequested string string string

definition onReceiptRequested ::
  "codec \<Rightarrow> 'w runtime_io \<Rightarrow> workflow_config \<Rightarrow> contract_log \<Rightarrow> ('w, string) wact" where
  "onReceiptRequested cd io cf ev =
     (case ev of
        Log_removed \<Rightarrow> return_a ''Ignored a request log removed by a reorg''
      | Log_ReceiptRequested transferId \<Rightarrow>
          bind_a (lift_a (bytes16ToTransferId transferId)) (\<lambda>t.
            recordReceipts cd io cf [Transfer_subject t None] ''log'')
      | Log_RoomReceiptRequested room channel publication \<Rightarrow>
          recordReceipts cd io cf [Room_subject room channel publication None] ''log'')"

definition window_size :: "int \<Rightarrow> int \<Rightarrow> int" where
  "window_size count batch = (if count < batch then count else batch)"

definition window_start :: "workflow_config \<Rightarrow> int \<Rightarrow> int \<Rightarrow> int" where
  "window_start cf count scheduledSeconds =
     ((scheduledSeconds sdiv (cf_reconcileIntervalMinutes cf * 60)) * cf_reconcileBatchSize cf) smod count"

definition read_window :: "'w runtime_io \<Rightarrow> string \<Rightarrow> int \<Rightarrow> int \<Rightarrow> ('w, open_request list) wact" where
  "read_window io receipts start limit =
     bind_a (readOpenRequests io receipts start limit) (\<lambda>page.
       if int (length page) < limit then
         bind_a (readOpenRequests io receipts 0 (limit - int (length page))) (\<lambda>more. return_a (page @ more))
       else return_a page)"

definition scheduled_seconds :: "'w runtime_io \<Rightarrow> int option \<Rightarrow> ('w, int) wact" where
  "scheduled_seconds io scheduled =
     (case scheduled of
        Some s \<Rightarrow> return_a s
      | None \<Rightarrow> bind_a (call Wf_now (rt_now io)) (\<lambda>ms. return_a (ms div 1000)))"

definition open_subjects ::
  "(string \<Rightarrow> 8 word list) \<Rightarrow> workflow_config \<Rightarrow> open_request list \<Rightarrow> string + subject list" where
  "open_subjects sha256 cf page =
     (case collect (subjectForOpenRequest sha256 (cf_beamClientId cf)
              \<lparr>dr_roomDelivery = cf_roomDelivery cf, dr_jobOutput = cf_jobOutput cf\<rparr>) page of
        Inl e \<Rightarrow> Inl e
      | Inr found \<Rightarrow> Inr (List.map_filter (\<lambda>s. s) found))"

definition reconcile_page ::
  "'w runtime_io \<Rightarrow> workflow_config \<Rightarrow> int \<Rightarrow> int \<Rightarrow> ('w, open_request list) wact" where
  "reconcile_page io cf count seconds =
     read_window io (cf_receiptsAddress cf) (window_start cf count seconds) (window_size count (cf_reconcileBatchSize cf))"

definition onReconcile ::
  "codec \<Rightarrow> (string \<Rightarrow> 8 word list) \<Rightarrow> 'w runtime_io \<Rightarrow> workflow_config \<Rightarrow> int option \<Rightarrow> ('w, string) wact" where
  "onReconcile cd sha256 io cf scheduled =
     bind_a (lift_a (evmClientFor io (cf_chainSelectorName cf))) (\<lambda>client.
     bind_a (readOpenRequestCount io (cf_receiptsAddress cf)) (\<lambda>count.
       if count = 0 then return_a ''reconcile: no open requests''
       else
         bind_a (scheduled_seconds io scheduled) (\<lambda>seconds.
         bind_a (reconcile_page io cf count seconds) (\<lambda>page.
         bind_a (lift_a (open_subjects sha256 cf page)) (\<lambda>subjects.
           recordReceipts cd io cf subjects ''reconcile'')))))"

text \<open>
  The two bodies of the HTTP trigger, as the schemas accept them. A string's length is that of its UTF-16 form,
  counted here on its UTF-8 bytes.
\<close>

definition utf16_length :: "string \<Rightarrow> nat" where
  "utf16_length s =
     sum_list (map (\<lambda>c. let n = of_char c :: nat in if 128 \<le> n \<and> n < 192 then 0 else if 240 \<le> n then 2 else 1) s)"

definition roomId :: "json option \<Rightarrow> string option" where
  "roomId j = (case as_str j of Some s \<Rightarrow> if 1 \<le> utf16_length s \<and> utf16_length s \<le> 128 then Some s else None | None \<Rightarrow> None)"

datatype push_transfer = Push_request string | Push_transfer string

definition parse_push_transfer :: "json \<Rightarrow> push_transfer option" where
  "parse_push_transfer j =
     (case j of
        JObj _ \<Rightarrow>
          (case (as_str (jget j ''requestId''), as_str (jget j ''transferId'')) of
             (Some r, _) \<Rightarrow> if hasExactly j [''requestId''] then Some (Push_request r) else None
           | (None, Some t) \<Rightarrow> if hasExactly j [''transferId''] then Some (Push_transfer t) else None
           | _ \<Rightarrow> None)
      | _ \<Rightarrow> None)"

definition parse_push_room :: "json \<Rightarrow> (string \<times> string \<times> string \<times> string option) option" where
  "parse_push_room j =
     (case (roomId (jget j ''room''), roomId (jget j ''channel''), roomId (jget j ''publication'')) of
        (Some r, Some c, Some p) \<Rightarrow>
          (case jget j ''requestId'' of
             None \<Rightarrow> if hasExactly j [''channel'', ''publication'', ''room''] then Some (r, c, p, None) else None
           | Some (JStr q) \<Rightarrow>
               if hasExactly j [''channel'', ''publication'', ''requestId'', ''room''] then Some (r, c, p, Some q) else None
           | Some _ \<Rightarrow> None)
      | _ \<Rightarrow> None)"

fun parse_all :: "(json \<Rightarrow> 'a option) \<Rightarrow> json list \<Rightarrow> 'a list option" where
  "parse_all f [] = Some []"
| "parse_all f (j # js) =
     (case f j of None \<Rightarrow> None | Some x \<Rightarrow> (case parse_all f js of None \<Rightarrow> None | Some xs \<Rightarrow> Some (x # xs)))"

definition default_list :: "(json \<Rightarrow> 'a option) \<Rightarrow> json option \<Rightarrow> 'a list option" where
  "default_list f j = (case j of None \<Rightarrow> Some [] | Some (JArr js) \<Rightarrow> parse_all f js | Some _ \<Rightarrow> None)"

definition pushSchema ::
  "json \<Rightarrow> (push_transfer list \<times> (string \<times> string \<times> string \<times> string option) list) option" where
  "pushSchema j =
     (case j of
        JObj _ \<Rightarrow>
          (case (default_list parse_push_transfer (jget j ''transfers''), default_list parse_push_room (jget j ''rooms'')) of
             (Some ts, Some rs) \<Rightarrow> if set (object_keys j) \<subseteq> {''transfers'', ''rooms''} then Some (ts, rs) else None
           | _ \<Rightarrow> None)
      | _ \<Rightarrow> None)"

definition parse_attestation :: "json \<Rightarrow> attestation option" where
  "parse_attestation j =
     (case as_str (jget j ''op'') of
        Some opn \<Rightarrow>
          if opn = ''attest_transfer'' then
            (case as_str (jget j ''transferId'') of
               Some t \<Rightarrow> if hasExactly j [''op'', ''transferId''] then Some (Attest_transfer t) else None
             | None \<Rightarrow> None)
          else if opn = ''attest_room_publication'' then
            (case (roomId (jget j ''room''), roomId (jget j ''channel''), roomId (jget j ''publication'')) of
               (Some r, Some c, Some p) \<Rightarrow>
                 if hasExactly j [''channel'', ''op'', ''publication'', ''room''] then Some (Attest_room r c p) else None
             | _ \<Rightarrow> None)
          else None
      | None \<Rightarrow> None)"

definition attestSchema :: "json \<Rightarrow> (attestation list \<times> bool) option" where
  "attestSchema j =
     (case jget j ''attest'' of
        Some (JArr js) \<Rightarrow>
          (case (parse_all parse_attestation js,
                 (case jget j ''publishOnchain'' of None \<Rightarrow> Some False | Some (JBool b) \<Rightarrow> Some b | Some _ \<Rightarrow> None)) of
             (Some attest, Some publishOnchain) \<Rightarrow>
               if 1 \<le> length attest \<and> length attest \<le> MAX_ATTESTATIONS
                  \<and> set (object_keys j) \<subseteq> {''attest'', ''publishOnchain''} then Some (attest, publishOnchain) else None
           | _ \<Rightarrow> None)
      | _ \<Rightarrow> None)"

fun pushed_transfer ::
  "(string \<Rightarrow> 8 word list) \<Rightarrow> workflow_config \<Rightarrow> push_transfer \<Rightarrow> string + subject" where
  "pushed_transfer sha256 cf (Push_request r) =
     (case normalizeRequestId r of
        Inl e \<Rightarrow> Inl e
      | Inr requestId \<Rightarrow>
          (case transferIdForRequest sha256 (cf_beamClientId cf) requestId of
             Inl e \<Rightarrow> Inl e | Inr t \<Rightarrow> Inr (Transfer_subject t (Some requestId))))"
| "pushed_transfer sha256 cf (Push_transfer t) =
     (case normalizeTransferId t of Inl e \<Rightarrow> Inl e | Inr t' \<Rightarrow> Inr (Transfer_subject t' None))"

fun pushed_room :: "string \<times> string \<times> string \<times> string option \<Rightarrow> string + subject" where
  "pushed_room (room, channel, publication, None) = Inr (Room_subject room channel publication None)"
| "pushed_room (room, channel, publication, Some r) =
     (case normalizeRequestId r of Inl e \<Rightarrow> Inl e | Inr requestId \<Rightarrow> Inr (Room_subject room channel publication (Some requestId)))"

definition onReceiptPush ::
  "codec \<Rightarrow> (string \<Rightarrow> 8 word list) \<Rightarrow> 'w runtime_io \<Rightarrow> workflow_config \<Rightarrow> json \<Rightarrow> ('w, string) wact" where
  "onReceiptPush cd sha256 io cf body =
     (if (case body of JObj _ \<Rightarrow> jget body ''attest'' \<noteq> None | _ \<Rightarrow> False) then
        (case attestSchema body of
           None \<Rightarrow> throw_a ''ZodError''
         | Some (attest, publishOnchain) \<Rightarrow> answerAttestations cd io cf attest publishOnchain)
      else
        (case pushSchema body of
           None \<Rightarrow> throw_a ''ZodError''
         | Some (transfers, rooms) \<Rightarrow>
             bind_a (lift_a (collect (pushed_transfer sha256 cf) transfers)) (\<lambda>ts.
             bind_a (lift_a (collect pushed_room rooms)) (\<lambda>rs.
               let subjects = ts @ rs in
               if subjects = [] then throw_a ''The push names no transfers or rooms''
               else if length subjects > MAX_SUBJECTS then
                 throw_a (''A push names at most '' @ show_nat MAX_SUBJECTS @ '' receipts'')
               else recordReceipts cd io cf subjects ''push''))))"

definition reconcileSchedule :: "int \<Rightarrow> string" where
  "reconcileSchedule minutes = (if minutes = 60 then ''0 0 * * * *'' else ''0 */'' @ show_int minutes @ '' * * * *'')"

end
