(* ===== verification/ReceiptRuns.thy ===== *)
theory ReceiptRuns
  imports ReceiptWorkflow
begin

text \<open>
  What holds of the executions of the CRE receipts workflow: the HTTP requests one spends, the lookups a
  reconcile run plans, the open requests its window reaches, and what a report it writes rests on.
\<close>

subsection \<open>The budget of HTTP requests\<close>

text \<open>What CRE counts: the lookups and the deliveries the nodes run.\<close>

fun is_http :: "workflow_event \<Rightarrow> bool" where
  "is_http (Wf_observeTransfer _ _) = True"
| "is_http (Wf_observeRoom _ _) = True"
| "is_http (Wf_observePublication _ _) = True"
| "is_http (Wf_observeClientId _ _) = True"
| "is_http (Wf_deliverReport _ _ _) = True"
| "is_http _ = False"

abbreviation http_cost :: "nat \<Rightarrow> ('w, 'a) wact \<Rightarrow> bool" where
  "http_cost \<equiv> costs is_http"

declare One_nat_def [simp del]

lemma cost_throw: "http_cost c (throw_a e)"
  by (simp add: throw_a_def costs_lift)

lemma cost_observeSubject: "http_cost 1 (observeSubject io cf cx s)"
proof (cases s)
  case (Transfer_subject t r)
  show ?thesis unfolding Transfer_subject observeSubject_def subject.case Let_def by (rule costs_call) simp
next
  case (Room_subject a b c r)
  show ?thesis unfolding Room_subject observeSubject_def subject.case Let_def by (rule costs_call) simp
qed (simp_all add: observeSubject_def cost_throw)

lemma cost_lookUp: "http_cost 1 (lookUp io cf cx s)"
proof (cases s)
  case (RoomRequest_subject room channel publisher q)
  have "http_cost (0 + 1) (lookUp io cf cx s)"
    unfolding RoomRequest_subject lookUp_def subject.case Let_def
    by (rule costs_bind [OF costs_lift], rule costs_call) simp
  then show ?thesis by simp
qed (simp_all add: lookUp_def cost_throw)

lemma cost_confirm: "http_cost 1 (confirmClientId io cf k)"
proof -
  have "http_cost (1 + 0) (confirmClientId io cf k)"
    unfolding confirmClientId_def Let_def by (rule costs_bind [OF costs_call costs_return]) simp
  then show ?thesis by simp
qed

lemma cost_credentials: "http_cost 0 (read_credentials io b)"
proof -
  have "http_cost (0 + (0 + (0 + 0))) (read_credentials io b)"
    unfolding read_credentials_def Let_def
    by (intro costs_bind costs_free_call costs_lift costs_return) (auto intro: costs_lift costs_return)
  then show ?thesis by simp
qed

lemma cost_write: "http_cost 0 (writeReceiptReport io cf r)"
proof -
  have "http_cost (0 + (0 + (0 + 0))) (writeReceiptReport io cf r)"
    unfolding writeReceiptReport_def
    by (intro costs_bind costs_free_call costs_lift) (auto intro: costs_return cost_throw)
  then show ?thesis by simp
qed

lemma cost_observed: "http_cost 1 (record_observed cd io cf cx c es s)"
proof -
  have "http_cost (1 + (0 + 0)) (bind_a (observeSubject io cf cx s) (\<lambda>observation.
        bind_a (lift_a (reportEntryFor cd s observation LEVELS)) (\<lambda>entry.
          return_a (case entry of None \<Rightarrow> es | Some e \<Rightarrow> es @ [e]))))"
    by (intro costs_bind cost_observeSubject costs_lift costs_return)
  then show ?thesis by (simp add: record_observed_def costs_return)
qed

lemma cost_job: "http_cost 4 (record_job cd io cf cx es s ls)"
proof -
  have entries: "http_cost (1 + (1 + (0 + 0))) (bind_a (observeSubject io cf cx a) (\<lambda>i. bind_a (observeSubject io cf cx b) (\<lambda>out'.
      bind_a (lift_a (r i out')) (\<lambda>js. return_a (es @ coalesce js [])))))" for a b r
    by (intro costs_bind cost_observeSubject costs_lift costs_return)
  have outcome: "http_cost (1 + (1 + (0 + 0)))
      (case (s, out) of
         (Job_subject room inputChannel _ outputChannel _ _, Lookup_found outputId) \<Rightarrow>
           bind_a (observeSubject io cf cx (Room_subject room inputChannel inputId None)) (\<lambda>i.
           bind_a (observeSubject io cf cx (Room_subject room outputChannel outputId None)) (\<lambda>out'.
           bind_a (lift_a (jobEntriesFor cd s (inputId, outputId) (i, out') LEVELS)) (\<lambda>jobEntries.
             return_a (es @ coalesce jobEntries []))))
       | _ \<Rightarrow> return_a es)" for out inputId
    by (cases s; cases out) (simp_all only: prod.case subject.case publication_lookup.case entries costs_return)
  have both: "http_cost (1 + (1 + (1 + (0 + 0)))) (case input of Lookup_found i \<Rightarrow> bind_a (lookUp io cf cx (snd ls)) (g i) | _ \<Rightarrow> return_a es)"
    if "\<And>i out. http_cost (1 + (1 + (0 + 0))) (g i out)" for input g
    using costs_bind [OF cost_lookUp that] by (cases input) (simp_all only: publication_lookup.case costs_return)
  have "http_cost (1 + (1 + (1 + (1 + (0 + 0))))) (record_job cd io cf cx es s ls)"
    unfolding record_job_def by (rule costs_bind [OF cost_lookUp both [OF outcome]])
  then show ?thesis by (simp add: eval_nat_numeral One_nat_def)
qed

lemma cost_record_one: "http_cost (subjectCost s) (record_one cd io cf cx c es s)"
proof (cases s)
  case (RoomRequest_subject room channel publisher q)
  have rest: "http_cost 1 (case found of None \<Rightarrow> return_a es | Some f \<Rightarrow> record_observed cd io cf cx c es f)" for found
    by (cases found) (simp_all add: cost_observed costs_return)
  have "http_cost (1 + 1) (record_one cd io cf cx c es s)"
    unfolding RoomRequest_subject record_one_def jobLookups.simps option.case subject.case
    by (rule costs_bind [OF cost_lookUp rest])
  then show ?thesis by (simp add: RoomRequest_subject)
next
  case (Job_subject a b d e f g)
  then show ?thesis by (simp add: record_one_def cost_job)
qed (simp_all add: record_one_def cost_observed)

lemma cost_recordReceipts: "http_cost 15 (recordReceipts cd io cf requested source)"
proof (cases "sum_list (map subjectCost (uniqueSubjects requested)) > MAX_SUBJECTS")
  case True
  then show ?thesis by (simp add: recordReceipts_def Let_def cost_throw)
next
  case False
  let ?ss = "uniqueSubjects requested"
  have confirm: "http_cost 1 (if b then confirmClientId io cf k else return_a False)" for b k
    by (simp add: cost_confirm costs_return)
  have outcome: "http_cost (0 + (0 + 0)) (if es = [] then return_a a else bind_a (lift_a (encodeEntries cd es)) (\<lambda>report.
      bind_a (writeReceiptReport io cf report) (\<lambda>tx. return_a (g tx))))" for es a g
  proof (cases "es = []")
    case False
    show ?thesis unfolding if_not_P [OF False] by (intro costs_bind costs_lift cost_write costs_return)
  qed (simp add: costs_return)
  have "http_cost (0 + (1 + (sum_list (map subjectCost ?ss) + (0 + (0 + 0))))) (recordReceipts cd io cf requested source)"
    unfolding recordReceipts_def Let_def if_not_P [OF False]
    by (rule costs_bind [OF cost_credentials], rule costs_bind [OF confirm],
        rule costs_bind [OF costs_fold outcome], rule cost_record_one)
  with False show ?thesis by (auto simp: MAX_SUBJECTS_def elim: costs_le)
qed


lemma keep_item_length: "length (keep_item subj m i) \<le> length m + 1"
proof -
  have "length (amap_set k v n) \<le> length n + 1" for k :: string and v :: 'a and n
    by (induction n) auto
  then show ?thesis by (auto simp: keep_item_def Let_def split: option.split)
qed

lemma uniqueSubjects_length: "length (uniqueSubjects ss) \<le> length ss"
proof -
  have "length (foldl (keep_item subj) m is) \<le> length m + length is" for subj :: "'a \<Rightarrow> subject" and m "is"
  proof (induction "is" arbitrary: m)
    case (Cons i "is")
    from Cons.IH [of "keep_item subj m i"] keep_item_length [of subj m i] show ?case by simp
  qed simp
  from this [of "\<lambda>s. s" "[]" ss] show ?thesis by (simp add: uniqueSubjects_def)
qed

lemma uniqueSubjects_subset: "set (uniqueSubjects ss) \<subseteq> set ss"
proof
  fix s assume "s \<in> set (uniqueSubjects ss)"
  then have "s \<in> snd ` set (foldl (keep_item (\<lambda>s. s)) [] ss)" by (simp add: uniqueSubjects_def)
  moreover have k: "kept_ok (\<lambda>s. s) ss (foldl (keep_item (\<lambda>s. s)) [] ss)" by (rule kept_ok_foldl)
  moreover have "distinct (map fst (foldl (keep_item (\<lambda>s. s)) [] ss))" using k by (simp only: kept_ok_def)
  ultimately show "s \<in> set ss" using mset_map_of [of _ s] unfolding kept_ok_def by blast
qed

lemma collect_length: "collect f xs = Inr ys \<Longrightarrow> length ys = length xs"
  by (induction xs arbitrary: ys) (auto split: sum.splits)

lemma collect_set: "collect f xs = Inr ys \<Longrightarrow> y \<in> set ys \<Longrightarrow> \<exists>x \<in> set xs. f x = Inr y"
  by (induction xs arbitrary: ys) (auto split: sum.splits)

lemma cost_deliver:
  "http_cost 1 (bind_a (lift_a r) (\<lambda>encoded. bind_a (call (Wf_report encoded) (f encoded)) (\<lambda>report.
     bind_a (call (Wf_deliverReport url report) (g report)) (\<lambda>status. return_a (h status)))))"
proof -
  have send: "http_cost (1 + 0) (bind_a (call (Wf_deliverReport url report) (g report)) (\<lambda>status. return_a (h status)))" for report
    by (rule costs_bind [OF costs_call costs_return]) simp
  have sign: "http_cost (0 + (1 + 0)) (bind_a (call (Wf_report encoded) (f encoded)) (\<lambda>report.
     bind_a (call (Wf_deliverReport url report) (g report)) (\<lambda>status. return_a (h status))))" for encoded
    by (rule costs_bind [OF costs_free_call send]) simp
  from costs_bind [OF costs_lift sign, where c = 0] show ?thesis by simp
qed

lemma cost_attest_one: "http_cost 2 (attest_one cd io cf cx url st s)"
proof -
  have "http_cost (1 + (0 + 1)) (attest_one cd io cf cx url st s)"
    unfolding attest_one_def
    by (rule costs_bind [OF cost_observeSubject], rule costs_bind [OF costs_lift])
      (simp add: cost_deliver costs_return split: option.split)
  then show ?thesis by (simp add: eval_nat_numeral One_nat_def)
qed

lemma cost_answerAttestations:
  assumes "length attest \<le> MAX_ATTESTATIONS"
  shows "http_cost 15 (answerAttestations cd io cf attest publishOnchain)"
proof (cases "cf_attestationReplyUrl cf")
  case None
  then show ?thesis by (simp add: answerAttestations_def cost_throw)
next
  case (Some url)
  have each_two: "http_cost 14 (fold_a (attest_one cd io cf cx url) st (uniqueSubjects asked))"
    if "collect attestationSubject attest = Inr asked" for cx st asked
  proof (rule costs_le [OF costs_fold [where g = "\<lambda>_. 2"]])
    have "length (uniqueSubjects asked) \<le> 7"
      using uniqueSubjects_length [of asked] collect_length [OF that] assms by (simp add: MAX_ATTESTATIONS_def)
    then show "sum_list (map (\<lambda>_. 2) (uniqueSubjects asked)) \<le> (14 :: nat)" by (simp add: sum_list_triv)
  qed (rule cost_attest_one)
  have publish: "http_cost 0 (if b then return_a t else bind_a (lift_a r) (\<lambda>report.
      bind_a (writeReceiptReport io cf report) (\<lambda>tx. return_a (h tx))))" for b t r and h :: "string \<Rightarrow> string"
  proof (cases b)
    case False
    have "http_cost (0 + (0 + 0)) (bind_a (lift_a r) (\<lambda>report. bind_a (writeReceiptReport io cf report) (\<lambda>tx. return_a (h tx))))"
      by (intro costs_bind costs_lift cost_write costs_return)
    with False show ?thesis by simp
  qed (simp add: costs_return)
  show ?thesis unfolding answerAttestations_def Some option.case Let_def
    by (rule costs_bind_lift, rule costs_le, rule costs_bind [OF cost_credentials],
        rule costs_bind [OF each_two publish], assumption, simp)
qed

text \<open>
  No execution of the workflow spends more than the fifteen HTTP requests CRE allows one: however the
  nodes, the contract and the clock answer and wherever it stops, the log trigger, the cron trigger and the
  HTTP trigger, whatever body they are given, look up and deliver at most fifteen times, the check of the client
  id included.
\<close>

theorem execution_http_budget:
  "length (filter is_http (snd (snd (onReceiptRequested cd io cf ev (w, []))))) \<le> 15
   \<and> length (filter is_http (snd (snd (onReconcile cd sha256 io cf scheduled (w, []))))) \<le> 15
   \<and> length (filter is_http (snd (snd (onReceiptPush cd sha256 io cf body (w, []))))) \<le> 15"
proof (intro conjI costs_run)
  have "http_cost (0 + 15) (bind_a (lift_a r) (\<lambda>t. recordReceipts cd io cf (g t) source))"
    for r :: "string + string" and g source
    by (rule costs_bind [OF costs_lift cost_recordReceipts])
  then show "http_cost 15 (onReceiptRequested cd io cf ev)"
    unfolding onReceiptRequested_def by (cases ev) (simp_all add: costs_return cost_recordReceipts)
  have view: "http_cost 0 (callView io to data)" for to data
  proof -
    have "http_cost (0 + 0) (callView io to data)"
      unfolding callView_def by (rule costs_bind [OF costs_free_call]) (simp_all add: cost_throw costs_return)
    then show ?thesis by simp
  qed
  have count: "http_cost (0 + 0) (readOpenRequestCount io to)" for to
    unfolding readOpenRequestCount_def by (rule costs_bind [OF view costs_lift])
  have requests: "http_cost (0 + 0) (readOpenRequests io to offset limit)" for to offset limit
    unfolding readOpenRequests_def by (rule costs_bind [OF view costs_lift])
  have more: "http_cost (0 + 0 + 0) (if b then bind_a (readOpenRequests io to offset limit) (\<lambda>more. return_a (page @ more)) else return_a page)"
    for b to offset limit page
    by (cases b) (simp_all only: if_True if_False costs_return costs_bind [OF requests costs_return])
  have page: "http_cost (0 + 0 + (0 + 0 + 0)) (reconcile_page io cf n t)" for n t
    unfolding reconcile_page_def read_window_def by (rule costs_bind [OF requests more])
  have seconds: "http_cost 0 (scheduled_seconds io s)" for s
  proof (cases s)
    case None
    have "http_cost (0 + 0) (bind_a (call Wf_now (rt_now io)) (\<lambda>ms. return_a (ms div 1000)))"
      by (rule costs_bind [OF costs_free_call costs_return]) simp
    with None show ?thesis by (simp add: scheduled_seconds_def)
  qed (simp add: scheduled_seconds_def costs_return)
  have run: "http_cost (0 + (0 + 0 + (0 + 0 + 0) + 15)) (bind_a (scheduled_seconds io s) (\<lambda>t. bind_a (reconcile_page io cf n t) (\<lambda>page.
      bind_a (lift_a (open_subjects sha256 cf page)) (\<lambda>subjects. recordReceipts cd io cf subjects source))))" for n s source
    by (rule costs_bind [OF seconds], rule costs_bind [OF page], rule costs_bind_lift, rule cost_recordReceipts)
  have "http_cost (0 + (0 + 0 + 15)) (onReconcile cd sha256 io cf scheduled)"
    unfolding onReconcile_def
    by (rule costs_bind [OF costs_lift], rule costs_bind [OF count]) (use run in \<open>simp add: costs_return\<close>)
  then show "http_cost 15 (onReconcile cd sha256 io cf scheduled)" by simp
  have push: "http_cost (0 + (0 + 15)) (bind_a (lift_a r) (\<lambda>ts. bind_a (lift_a q) (\<lambda>rs.
      let subjects = ts @ rs in if subjects = [] then throw_a a else if length subjects > m then throw_a b
      else recordReceipts cd io cf subjects source)))" for r q a b m source
    unfolding Let_def
    by (rule costs_bind [OF costs_lift], rule costs_bind [OF costs_lift]) (simp add: cost_throw cost_recordReceipts)
  have attest: "http_cost 15 (answerAttestations cd io cf attest publish)" if "attestSchema body = Some (attest, publish)" for attest publish
    by (rule cost_answerAttestations)
      (use that in \<open>auto simp: attestSchema_def split: option.splits json.splits if_splits\<close>)
  show "http_cost 15 (onReceiptPush cd sha256 io cf body)"
    unfolding onReceiptPush_def using push attest
    by (simp add: cost_throw split: option.split prod.split)
qed

subsection \<open>What a reconcile run looks up\<close>

definition worst_cost :: "workflow_config \<Rightarrow> nat" where
  "worst_cost cf = (if cf_jobOutput cf \<noteq> None then 4 else if cf_roomDelivery cf \<noteq> None then 2 else 1)"

lemma open_request_cost:
  assumes "subjectForOpenRequest sha256 client \<lparr>dr_roomDelivery = cf_roomDelivery cf, dr_jobOutput = cf_jobOutput cf\<rparr> request
      = Inr (Some s)" and "config_ok cf"
  shows "subjectCost s \<le> worst_cost cf"
  using assms by (auto simp: subjectForOpenRequest_def worst_cost_def config_ok_def split: if_splits option.splits sum.splits)

lemma open_subjects_found:
  assumes "open_subjects sha256 cf page = Inr subjects"
  shows "length subjects \<le> length page"
    and "s \<in> set subjects \<Longrightarrow> \<exists>request \<in> set page. subjectForOpenRequest sha256 (cf_beamClientId cf)
       \<lparr>dr_roomDelivery = cf_roomDelivery cf, dr_jobOutput = cf_jobOutput cf\<rparr> request = Inr (Some s)"
proof -
  obtain found where c: "collect (subjectForOpenRequest sha256 (cf_beamClientId cf)
      \<lparr>dr_roomDelivery = cf_roomDelivery cf, dr_jobOutput = cf_jobOutput cf\<rparr>) page = Inr found"
    and subjects: "subjects = List.map_filter (\<lambda>s. s) found"
    using assms by (auto simp: open_subjects_def split: sum.splits)
  have "length subjects \<le> length found" unfolding subjects by (simp add: List.map_filter_def)
  with collect_length [OF c] show "length subjects \<le> length page" by simp
  assume "s \<in> set subjects"
  then have "Some s \<in> set found" unfolding subjects by (auto simp: List.map_filter_def)
  from collect_set [OF c this] show "\<exists>request \<in> set page. subjectForOpenRequest sha256 (cf_beamClientId cf)
       \<lparr>dr_roomDelivery = cf_roomDelivery cf, dr_jobOutput = cf_jobOutput cf\<rparr> request = Inr (Some s)" .
qed

lemma sum_list_bound: "(\<And>x. x \<in> set xs \<Longrightarrow> f x \<le> c) \<Longrightarrow> sum_list (map f xs) \<le> length xs * (c :: nat)"
  by (induction xs) (auto intro: add_mono)

text \<open>
  A reconcile run is never refused for its lookups: with a configuration the schema accepts, the subjects
  of a window of at most \<open>reconcileBatchSize\<close> open requests cost at most the fourteen lookups of an execution,
  whatever kinds the requests have, so \<open>recordReceipts\<close> always goes on to look them up.
\<close>

theorem reconcile_fits_budget:
  assumes "config_ok cf" and "int (length page) \<le> cf_reconcileBatchSize cf"
    and "open_subjects sha256 cf page = Inr subjects"
  shows "sum_list (map subjectCost (uniqueSubjects subjects)) \<le> MAX_SUBJECTS"
proof -
  let ?ss = "uniqueSubjects subjects"
  have "subjectCost s \<le> worst_cost cf" if "s \<in> set ?ss" for s
    using open_subjects_found(2) [OF assms(3)] uniqueSubjects_subset that open_request_cost [OF _ assms(1)] by blast
  then have "sum_list (map subjectCost ?ss) \<le> length ?ss * worst_cost cf" by (rule sum_list_bound)
  also have "\<dots> \<le> length page * worst_cost cf"
    using uniqueSubjects_length [of subjects] open_subjects_found(1) [OF assms(3)] by (intro mult_le_mono1) simp
  also have "int \<dots> \<le> cf_reconcileBatchSize cf * int (worst_cost cf)"
    using assms(2) by (simp add: mult_right_mono)
  moreover have "cf_reconcileBatchSize cf * int (worst_cost cf) \<le> int MAX_SUBJECTS"
    using assms(1) by (auto simp: config_ok_def worst_cost_def split: if_splits)
  ultimately show ?thesis by linarith
qed

definition demo_config :: workflow_config where
  "demo_config = \<lparr>cf_chainSelectorName = ''base'', cf_receiptsAddress = ''0xC'', cf_gasLimit = ''1'',
     cf_beamApiBaseUrl = ''https://api'', cf_roomApiBaseUrl = ''https://rooms'', cf_beamClientId = ''client'',
     cf_reconcileIntervalMinutes = 5, cf_reconcileBatchSize = 3,
     cf_roomDelivery = Some \<lparr>rr_room = ''r'', rr_channel = ''in'', rr_publisherMemberId = ''m''\<rparr>,
     cf_jobOutput = Some \<lparr>jr_channel = ''out'', jr_computeMemberId = ''c''\<rparr>, cf_attestationReplyUrl = None\<rparr>"

definition open_job :: "string \<Rightarrow> open_request" where
  "open_job requestId = \<lparr>or_key = requestId, or_kind = 1, or_transferKind = 3, or_requester = ''0xA'', or_openedAt = 0,
     or_requestId = requestId, or_transferId = [], or_room = [], or_channel = [], or_publication = []\<rparr>"

theorem reconcile_fits_budget_witness:
  "\<exists>subjects. open_subjects (\<lambda>_. []) demo_config [open_job ''1'', open_job ''2'', open_job ''3''] = Inr subjects
     \<and> sum_list (map subjectCost (uniqueSubjects subjects)) = 12
     \<and> sum_list (map subjectCost (uniqueSubjects subjects)) \<le> MAX_SUBJECTS"
proof -
  let ?job = "\<lambda>q. Job_subject ''r'' ''in'' ''m'' ''out'' ''c'' q"
  have s: "open_subjects (\<lambda>_. []) demo_config [open_job ''1'', open_job ''2'', open_job ''3'']
      = Inr [?job ''1'', ?job ''2'', ?job ''3'']" by code_simp
  have c: "config_ok demo_config" by (simp add: config_ok_def demo_config_def MAX_SUBJECTS_def)
  have l: "int (length [open_job ''1'', open_job ''2'', open_job ''3'']) \<le> cf_reconcileBatchSize demo_config"
    by (simp add: demo_config_def)
  have t: "sum_list (map subjectCost (uniqueSubjects [?job ''1'', ?job ''2'', ?job ''3''])) = 12" by code_simp
  from reconcile_fits_budget [OF c l s] s t show ?thesis by blast
qed

subsection \<open>The window of a reconcile run\<close>

text \<open>The contract answers the two views from the requests that are open.\<close>

definition serves :: "'w runtime_io \<Rightarrow> string \<Rightarrow> open_request list \<Rightarrow> bool" where
  "serves io to queue \<longleftrightarrow>
     (\<forall>offset limit w. 0 \<le> offset \<and> 0 \<le> limit \<longrightarrow>
        (\<exists>data w'. rt_callContract io to (Call_openRequests offset limit) w = (Inr data, w') \<and> data \<noteq> ''0x''
           \<and> rt_requests io data = Inr (take (nat limit) (drop (nat offset) queue))))"

definition window :: "'a list \<Rightarrow> nat \<Rightarrow> nat \<Rightarrow> 'a list" where
  "window xs start n = take n (drop start xs) @ take (n - length (take n (drop start xs))) xs"

lemma read_served:
  assumes "serves io to queue" and "0 \<le> offset" and "0 \<le> limit"
  obtains t where "readOpenRequests io to offset limit s = (Inr (take (nat limit) (drop (nat offset) queue)), t)"
proof -
  obtain data w' where "rt_callContract io to (Call_openRequests offset limit) (fst s) = (Inr data, w')" "data \<noteq> ''0x''"
      "rt_requests io data = Inr (take (nat limit) (drop (nat offset) queue))"
    using assms unfolding serves_def by blast
  then show ?thesis
    using that by (simp add: readOpenRequests_def callView_def bind_a_def call_def lift_a_def return_a_def)
qed

lemma read_window_served:
  assumes "serves io to queue" and "0 \<le> start" and "0 \<le> n"
  shows "fst (read_window io to start n s) = Inr (window queue (nat start) (nat n))"
proof -
  let ?page = "take (nat n) (drop (nat start) queue)"
  obtain t where first: "readOpenRequests io to start n s = (Inr ?page, t)"
    using read_served [OF assms] by blast
  show ?thesis
  proof (cases "int (length ?page) < n")
    case True
    then have "0 \<le> n - int (length ?page)" by simp
    from read_served [OF assms(1) _ this, of 0 t] obtain u where
      "readOpenRequests io to 0 (n - int (length ?page)) t = (Inr (take (nat (n - int (length ?page))) queue), u)"
      by auto
    then show ?thesis using first True
      by (simp add: read_window_def bind_a_def return_a_def window_def nat_diff_distrib' del: length_take)
  next
    case False
    then have "nat n - length ?page = 0" by linarith
    with first False show ?thesis
      by (simp add: read_window_def bind_a_def return_a_def window_def del: length_take)
  qed
qed

lemma window_holds:
  assumes "start < length xs" and "r < n" and "n \<le> length xs"
  shows "xs ! ((start + r) mod length xs) \<in> set (window xs start n)"
proof (cases "start + r < length xs")
  case True
  have "take n (drop start xs) ! r = xs ! (start + r)" "r < length (take n (drop start xs))" using True assms(2) by auto
  then have "xs ! (start + r) \<in> set (take n (drop start xs))" by (metis nth_mem)
  with True show ?thesis by (simp add: window_def)
next
  case False
  let ?i = "start + r - length xs" and ?m = "n - length (take n (drop start xs))"
  have small: "start + r - length xs < length xs" using False assms by linarith
  then have i: "(start + r) mod length xs = ?i" using False by (simp add: mod_if [of "start + r"])
  have "length (take n (drop start xs)) = length xs - start" using False assms by simp
  with False assms small have "?i < ?m" "?i < length xs" by linarith+
  then have "take ?m xs ! ?i = xs ! ?i" "?i < length (take ?m xs)" by simp_all
  then have "xs ! ?i \<in> set (take ?m xs)" by (metis nth_mem)
  with i show ?thesis by (simp add: window_def)
qed

lemma sdiv_nonneg: "0 \<le> a \<Longrightarrow> 0 < b \<Longrightarrow> a sdiv b = a div b" for a b :: int
  by (cases "a = 0") (simp_all add: signed_divide_int_def)

lemma smod_nonneg: "0 \<le> a \<Longrightarrow> 0 < b \<Longrightarrow> a smod b = a mod b" for a b :: int
  by (cases "a = 0") (simp_all add: signed_modulo_int_def)

lemma window_start_eq:
  assumes "config_ok cf" and "0 \<le> t" and "0 < n"
  shows "window_start cf (int n) (t + int k * (cf_reconcileIntervalMinutes cf * 60))
    = int ((nat (t div (cf_reconcileIntervalMinutes cf * 60)) + k) * nat (cf_reconcileBatchSize cf) mod n)"
proof -
  define i where "i = cf_reconcileIntervalMinutes cf * 60"
  define b where "b = cf_reconcileBatchSize cf"
  define q where "q = t div i + int k"
  have i: "0 < i" and b: "0 < b" using assms(1) by (simp_all add: config_ok_def i_def b_def)
  have q: "0 \<le> q" using i assms(2) by (simp add: q_def pos_imp_zdiv_nonneg_iff)
  have "0 \<le> t + int k * i" using i assms(2) by simp
  from sdiv_nonneg [OF this i] have "(t + int k * i) sdiv i = q" using i by (simp add: q_def)
  then have "window_start cf (int n) (t + int k * i) = (q * b) smod int n"
    by (simp add: window_start_def i_def b_def)
  also have "\<dots> = (q * b) mod int n"
    using q b assms(3) by (intro smod_nonneg) simp_all
  also have "q * b = int ((nat (t div i) + k) * nat b)"
    using i b assms(2) by (simp add: q_def pos_imp_zdiv_nonneg_iff)
  finally show ?thesis by (simp add: i_def b_def zmod_int)
qed

text \<open>
  Every open request is checked within every \<open>ceil(open / batch)\<close> runs: while the contract's set of open
  requests stays as it is, for each of them and from any time on, one of the next that many scheduled runs reads
  a page that contains it, wherever the window stands and however it wraps around the set.
\<close>

theorem reconcile_checks_every_request:
  assumes "config_ok cf" and "serves io (cf_receiptsAddress cf) queue" and "request \<in> set queue" and "0 \<le> t"
  shows "\<exists>k page. k < (length queue + nat (cf_reconcileBatchSize cf) - 1) div nat (cf_reconcileBatchSize cf)
    \<and> fst (reconcile_page io cf (int (length queue)) (t + int k * (cf_reconcileIntervalMinutes cf * 60)) s) = Inr page
    \<and> request \<in> set page"
proof -
  define n where "n = length queue"
  define b where "b = nat (cf_reconcileBatchSize cf)"
  define a where "a = nat (t div (cf_reconcileIntervalMinutes cf * 60)) * b mod n"
  obtain i where i: "i < n" "queue ! i = request" using assms(3) by (auto simp: in_set_conv_nth n_def)
  have n: "0 < n" and b: "0 < b" using i assms(1) by (auto simp: config_ok_def b_def)
  define d where "d = (i + (n - a)) mod n"
  have a: "a < n" and d: "d < n" using n by (simp_all add: a_def d_def)
  define k where "k = d div b"
  define start where "start = (nat (t div (cf_reconcileIntervalMinutes cf * 60)) + k) * b mod n"
  have reach: "(start + d mod b) mod n = i"
  proof -
    have "(start + d mod b) mod n = (a + (k * b + d mod b)) mod n"
      by (simp add: start_def a_def distrib_right mod_simps add.assoc)
    also have "k * b + d mod b = d" by (simp add: k_def)
    also have "(a + d) mod n = (a + (i + (n - a))) mod n" unfolding d_def by (simp add: mod_simps)
    also have "a + (i + (n - a)) = i + n" using a by simp
    finally show ?thesis using i by simp
  qed
  have size: "d mod b < min n b" using b d le_less_trans [OF mod_less_eq_dividend] by auto
  have start: "start < n" using n by (simp add: start_def)
  have held: "request \<in> set (window queue start (min n b))"
    using window_holds [of start queue "d mod b" "min n b"] start size reach i by (simp add: n_def)
  have "window_start cf (int n) (t + int k * (cf_reconcileIntervalMinutes cf * 60)) = int start"
    using window_start_eq [OF assms(1,4) n, of k] by (simp add: start_def b_def)
  moreover have "window_size (int n) (cf_reconcileBatchSize cf) = int (min n b)"
    using assms(1) by (auto simp: window_size_def b_def config_ok_def)
  ultimately have page: "fst (reconcile_page io cf (int n) (t + int k * (cf_reconcileIntervalMinutes cf * 60)) s)
      = Inr (window queue start (min n b))"
    using read_window_served [OF assms(2), of "int start" "int (min n b)" s] by (simp add: reconcile_page_def)
  have "k < (n + b - 1) div b"
  proof -
    have "d div b \<le> (n - 1) div b" using d by (intro div_le_mono) simp
    moreover have "(n + b - 1) div b = (n - 1) div b + 1"
      using n b by (metis Nat.add_diff_assoc2 One_nat_def Suc_leI add.commute div_add_self2 less_numeral_extra(3) neq0_conv)
    ultimately show ?thesis by (simp add: k_def)
  qed
  with page held show ?thesis unfolding n_def b_def by blast
qed

definition demo_queue :: "open_request list" where
  "demo_queue = map open_job [''1'', ''2'', ''3'', ''4'', ''5'']"

text \<open>A contract whose two views answer from \<open>demo_queue\<close>, and nodes that agree that a transfer is finished.\<close>

definition demo_runtime :: "unit runtime_io" where
  "demo_runtime = \<lparr>rt_network = (\<lambda>_. Some ''1''), rt_count = (\<lambda>_. Inr 5),
     rt_requests = (\<lambda>data. case parse_json data of
         Some (JArr [JNum offset, JNum limit]) \<Rightarrow> Inr (take (nat limit) (drop (nat offset) demo_queue)) | _ \<Rightarrow> Inl ''data''),
     rt_getSecrets = (\<lambda>names w. (Inr (map (\<lambda>n. (n, ''secret'')) names), w)),
     rt_observeTransfer = (\<lambda>_ w. (Inr (Obs_transfer 1 ''5'' ''5'' ''9'' ZERO_BYTES32 ZERO_BYTES32), w)),
     rt_observeRoom = (\<lambda>_ w. (Inr Obs_unavailable, w)),
     rt_observePublication = (\<lambda>_ w. (Inr Lookup_unavailable, w)),
     rt_observeClientId = (\<lambda>_ w. (Inr (Some ''client'', Some 200), w)),
     rt_deliverReport = (\<lambda>_ _ w. (Inr 200, w)),
     rt_callContract = (\<lambda>_ data w. (Inr (case data of Call_openRequestCount \<Rightarrow> ''5''
         | Call_openRequests offset limit \<Rightarrow> stringify (JArr [JNum offset, JNum limit])), w)),
     rt_report = (\<lambda>encoded w. (Inr encoded, w)),
     rt_writeReport = (\<lambda>_ _ _ w. (Inr \<lparr>wr_success = True, wr_statusName = ''SUCCESS'', wr_reverted = False,
         wr_errorMessage = None, wr_txHash = None\<rparr>, w)),
     rt_now = (\<lambda>w. (Inr 0, w))\<rparr>"

lemma demo_serves: "serves demo_runtime to demo_queue"
proof -
  have "stringify (JArr [JNum offset, JNum limit]) \<noteq> ''0x''" for offset limit by simp
  then show ?thesis by (simp add: serves_def demo_runtime_def parse_stringify del: stringify.simps)
qed

theorem reconcile_checks_every_request_witness:
  "\<exists>k page. k < 2 \<and> fst (reconcile_page demo_runtime demo_config 5 (900 + int k * 300) ((), [])) = Inr page
     \<and> open_job ''5'' \<in> set page"
proof -
  have c: "config_ok demo_config" by (simp add: config_ok_def demo_config_def MAX_SUBJECTS_def)
  have m: "open_job ''5'' \<in> set demo_queue" by (simp add: demo_queue_def)
  have t: "(0 :: int) \<le> 900" by simp
  have n: "length demo_queue = 5" "(5 + nat (cf_reconcileBatchSize demo_config) - 1) div nat (cf_reconcileBatchSize demo_config) = 2"
    "cf_reconcileIntervalMinutes demo_config * 60 = 300" by (simp_all add: demo_queue_def demo_config_def)
  from reconcile_checks_every_request [OF c demo_serves m t, of "((), [])"] show ?thesis
    by (simp only: n of_nat_numeral)
qed

subsection \<open>What a written report rests on\<close>

definition saw :: "workflow_config \<Rightarrow> subject \<Rightarrow> observation \<Rightarrow> workflow_event list \<Rightarrow> bool" where
  "saw cf s observation l =
     (case s of
        Transfer_subject t _ \<Rightarrow>
          (\<exists>lookup. tl_transferId lookup = t \<and> tl_baseUrl lookup = cf_beamApiBaseUrl cf
             \<and> Wf_observeTransfer lookup (Inr observation) \<in> set l)
      | Room_subject room channel publication _ \<Rightarrow>
          (\<exists>lookup. rl_room lookup = room \<and> rl_channel lookup = channel \<and> rl_publication lookup = publication
             \<and> rl_baseUrl lookup = cf_roomApiBaseUrl cf \<and> Wf_observeRoom lookup (Inr observation) \<in> set l)
      | _ \<Rightarrow> False)"

definition client_confirmed :: "workflow_config \<Rightarrow> workflow_event list \<Rightarrow> bool" where
  "client_confirmed cf l \<longleftrightarrow>
     (\<exists>lookup status. Wf_observeClientId lookup (Inr (Some (cf_beamClientId cf), status)) \<in> set l)"

text \<open>
  An entry is what Beam's answer for its subject adds to a report, and where the subject's id derives from the
  client id, that id was confirmed. A job result follows the Room receipts of its input and its output.
\<close>

definition backed :: "codec \<Rightarrow> workflow_config \<Rightarrow> workflow_event list \<Rightarrow> report_entry \<Rightarrow> bool" where
  "backed cd cf l e \<longleftrightarrow>
     (\<exists>s observation. saw cf s observation l \<and> reportEntryFor cd s observation LEVELS = Inr (Some e)
        \<and> (derives_id s \<longrightarrow> client_confirmed cf l))"

definition entry_ok :: "codec \<Rightarrow> workflow_config \<Rightarrow> workflow_event list \<Rightarrow> report_entry list \<Rightarrow> report_entry \<Rightarrow> bool" where
  "entry_ok cd cf l pre e =
     (case e of
        Entry_job j \<Rightarrow>
          (\<exists>i out. Entry_room i \<in> set pre \<and> Entry_room out \<in> set pre
             \<and> je_inputRoomKey j = roomReceiptKey cd (re_room i) (re_channel i) (re_publication i)
             \<and> je_outputRoomKey j = roomReceiptKey cd (re_room out) (re_channel out) (re_publication out))
      | _ \<Rightarrow> backed cd cf l e)"

definition report_written_ok :: "codec \<Rightarrow> workflow_config \<Rightarrow> workflow_event list \<Rightarrow> workflow_event \<Rightarrow> bool" where
  "report_written_ok cd cf pre ev =
     (case ev of
        Wf_writeReport receiver report _ _ \<Rightarrow>
          receiver = cf_receiptsAddress cf
          \<and> (\<exists>entries encoded. Wf_report encoded (Inr report) \<in> set pre \<and> encodeEntries cd entries = Inr encoded
               \<and> entries \<noteq> [] \<and> length entries \<le> 14 \<and> each (entry_ok cd cf pre) entries)
      | _ \<Rightarrow> True)"

definition run_ok :: "codec \<Rightarrow> workflow_config \<Rightarrow> workflow_event list \<Rightarrow> bool" where
  "run_ok cd cf l \<longleftrightarrow> each (report_written_ok cd cf) l"

definition entries_inv ::
  "codec \<Rightarrow> workflow_config \<Rightarrow> bool \<Rightarrow> nat \<Rightarrow> report_entry list \<Rightarrow> workflow_event list \<Rightarrow> bool" where
  "entries_inv cd cf confirmed n entries l \<longleftrightarrow>
     run_ok cd cf l \<and> each (entry_ok cd cf l) entries \<and> length entries \<le> n \<and> (confirmed \<longrightarrow> client_confirmed cf l)"

lemma saw_grows: "saw cf s observation l \<Longrightarrow> saw cf s observation (l @ l')"
  unfolding saw_def by (auto split: subject.splits)

lemma confirmed_grows: "client_confirmed cf l \<Longrightarrow> client_confirmed cf (l @ l')"
  unfolding client_confirmed_def by auto

lemma backed_grows: "backed cd cf l e \<Longrightarrow> backed cd cf (l @ l') e"
  unfolding backed_def using saw_grows confirmed_grows by blast

lemma entry_ok_grows: "entry_ok cd cf l pre e \<Longrightarrow> entry_ok cd cf (l @ l') pre e"
  unfolding entry_ok_def by (auto split: report_entry.splits intro: backed_grows)

lemma entries_inv_event:
  "entries_inv cd cf c n es l \<Longrightarrow> report_written_ok cd cf l ev \<Longrightarrow> entries_inv cd cf c n es (l @ [ev])"
  unfolding entries_inv_def run_ok_def using each_mono [OF _ entry_ok_grows] confirmed_grows by auto

lemma entries_inv_run: "entries_inv cd cf c n es l \<Longrightarrow> run_ok cd cf l"
  by (simp add: entries_inv_def)

lemma saw_transfer:
  "Wf_observeTransfer lookup (Inr observation) \<in> set l \<Longrightarrow> tl_transferId lookup = t
     \<Longrightarrow> tl_baseUrl lookup = cf_beamApiBaseUrl cf \<Longrightarrow> saw cf (Transfer_subject t r) observation l"
  by (auto simp: saw_def)

lemma saw_room:
  "Wf_observeRoom lookup (Inr observation) \<in> set l \<Longrightarrow> rl_room lookup = a \<Longrightarrow> rl_channel lookup = b
     \<Longrightarrow> rl_publication lookup = d \<Longrightarrow> rl_baseUrl lookup = cf_roomApiBaseUrl cf \<Longrightarrow> saw cf (Room_subject a b d r) observation l"
  by (auto simp: saw_def)

text \<open>What was known before an observation is still known after it.\<close>

lemma observeSubject_spec_frame:
  assumes F: "\<And>l ev. F l \<Longrightarrow> F (l @ [ev])"
  shows "spec (\<lambda>l. entries_inv cd cf c n es l \<and> F l) (observeSubject io cf cx s)
     (\<lambda>observation l. entries_inv cd cf c n es l \<and> F l \<and> saw cf s observation l) (run_ok cd cf)"
proof -
  have keep: "entries_inv cd cf c n es (l @ [ev])" if "entries_inv cd cf c n es l" "\<And>a b d r. ev \<noteq> Wf_writeReport a b d r" for l ev
    using that by (auto intro!: entries_inv_event simp: report_written_ok_def split: workflow_event.split)
  show ?thesis
  proof (cases s)
    case (Transfer_subject t r)
    show ?thesis unfolding Transfer_subject observeSubject_def subject.case Let_def
      by (rule spec_call) (auto intro: keep entries_inv_run [OF keep] saw_transfer F)
  next
    case (Room_subject a b d r)
    show ?thesis unfolding Room_subject observeSubject_def subject.case Let_def
      by (rule spec_call) (auto intro: keep entries_inv_run [OF keep] saw_room F)
  qed (auto simp: observeSubject_def throw_a_def entries_inv_run intro!: spec_lift)
qed

lemma observeSubject_spec:
  "spec (entries_inv cd cf c n es) (observeSubject io cf cx s)
     (\<lambda>observation l. entries_inv cd cf c n es l \<and> saw cf s observation l) (run_ok cd cf)"
  using observeSubject_spec_frame [of "\<lambda>_. True"] by simp

lemma lookUp_spec:
  "spec (entries_inv cd cf c n es) (lookUp io cf cx s) (\<lambda>_. entries_inv cd cf c n es) (run_ok cd cf)"
proof (cases s)
  case (RoomRequest_subject room channel publisher q)
  show ?thesis unfolding RoomRequest_subject lookUp_def subject.case Let_def
    by (rule spec_bind_lift, rule spec_call)
      (auto intro!: entries_inv_event entries_inv_run [OF entries_inv_event] simp: report_written_ok_def entries_inv_run)
qed (auto simp: lookUp_def throw_a_def entries_inv_run intro!: spec_lift)

lemma entries_inv_snoc:
  assumes "entries_inv cd cf c n es l" and "entry_ok cd cf l es e"
  shows "entries_inv cd cf c (n + 1) (es @ [e]) l"
  using assms by (simp add: entries_inv_def)

lemma entries_inv_mono: "entries_inv cd cf c n es l \<Longrightarrow> n \<le> m \<Longrightarrow> entries_inv cd cf c m es l"
  by (simp add: entries_inv_def)

lemma backed_not_job: "reportEntryFor cd s observation lv = Inr (Some e) \<Longrightarrow> e \<noteq> Entry_job j"
  by (induction cd s observation lv rule: reportEntryFor.induct) (auto split: sum.splits)

lemma record_observed_spec:
  "spec (entries_inv cd cf c n es) (record_observed cd io cf cx c es s) (entries_inv cd cf c (n + 1)) (run_ok cd cf)"
proof (cases "case s of Transfer_subject _ (Some _) \<Rightarrow> \<not> c | _ \<Rightarrow> False")
  case True
  then show ?thesis unfolding record_observed_def by (auto intro!: spec_return elim: entries_inv_mono)
next
  case False
  have confirmed: "derives_id s \<longrightarrow> c" using False by (auto simp: derives_id_def split: subject.splits option.splits)
  have added: "entries_inv cd cf c (n + 1) (case entry of None \<Rightarrow> es | Some e \<Rightarrow> es @ [e]) l"
    if "entries_inv cd cf c n es l" "saw cf s observation l" "reportEntryFor cd s observation LEVELS = Inr entry"
    for l observation entry
  proof (cases entry)
    case None
    with that show ?thesis by (auto elim: entries_inv_mono)
  next
    case (Some e)
    have "backed cd cf l e" using that confirmed Some unfolding backed_def entries_inv_def by blast
    moreover have "e \<noteq> Entry_job j" for j using backed_not_job that(3) Some by blast
    ultimately have "entry_ok cd cf l es e" by (cases e) (auto simp: entry_ok_def)
    with that(1) Some show ?thesis by (simp add: entries_inv_snoc)
  qed
  show ?thesis unfolding record_observed_def if_not_P [OF False]
    by (rule spec_bind [OF observeSubject_spec], rule spec_bind_lift, rule spec_return)
      (auto intro: added simp: entries_inv_run)
qed

lemma jobEntriesForE:
  assumes "jobEntriesFor cd s (inputId, outputId) (i, out') LEVELS = Inr (Some es)"
  obtains room inputChannel source outputChannel member q a b j where
    "s = Job_subject room inputChannel source outputChannel member q"
    "reportEntryFor cd (Room_subject room inputChannel inputId None) i LEVELS = Inr (Some (Entry_room a))"
    "reportEntryFor cd (Room_subject room outputChannel outputId None) out' LEVELS = Inr (Some (Entry_room b))"
    "es = [Entry_room a, Entry_room b, Entry_job j]"
    "je_inputRoomKey j = roomReceiptKey cd (re_room a) (re_channel a) (re_publication a)"
    "je_outputRoomKey j = roomReceiptKey cd (re_room b) (re_channel b) (re_publication b)"
proof -
  obtain room inputChannel source outputChannel member q where s: "s = Job_subject room inputChannel source outputChannel member q"
    using assms by (cases s) (simp_all add: jobEntriesFor_def)
  obtain a b where r: "reportEntryFor cd (Room_subject room inputChannel inputId None) i LEVELS = Inr (Some (Entry_room a))"
      "reportEntryFor cd (Room_subject room outputChannel outputId None) out' LEVELS = Inr (Some (Entry_room b))"
    using assms unfolding s jobEntriesFor_def subject.case fst_conv snd_conv
    by (auto split: sum.splits option.splits report_entry.splits)
  have keys: "re_room a = room" "re_channel a = inputChannel" "re_publication a = inputId"
      "re_room b = room" "re_channel b = outputChannel" "re_publication b = outputId"
    using r by (cases i; cases out'; auto split: sum.splits if_splits)+
  from assms have "es = [Entry_room a, Entry_room b, Entry_job
      \<lparr>je_requestId = q, je_inputRoomKey = roomReceiptKey cd room inputChannel inputId,
       je_outputRoomKey = roomReceiptKey cd room outputChannel outputId, je_computeMember = member\<rparr>]"
    unfolding s jobEntriesFor_def subject.case fst_conv snd_conv r by simp
  from that [OF s r this] show ?thesis by (simp add: keys)
qed

lemma job_entries_added:
  assumes "entries_inv cd cf c n es l" and "jobEntriesFor cd s (inputId, outputId) (i, out') LEVELS = Inr js"
    and "s = Job_subject room inputChannel source outputChannel member q"
    and "saw cf (Room_subject room inputChannel inputId None) i l" and "saw cf (Room_subject room outputChannel outputId None) out' l"
  shows "entries_inv cd cf c (n + 4) (es @ coalesce js []) l"
proof (cases js)
  case None
  with assms(1) show ?thesis by (auto elim: entries_inv_mono)
next
  case (Some jes)
  with assms(2) have "jobEntriesFor cd s (inputId, outputId) (i, out') LEVELS = Inr (Some jes)" by simp
  from jobEntriesForE [OF this] assms(3) obtain a b j where
    r: "reportEntryFor cd (Room_subject room inputChannel inputId None) i LEVELS = Inr (Some (Entry_room a))"
      "reportEntryFor cd (Room_subject room outputChannel outputId None) out' LEVELS = Inr (Some (Entry_room b))"
    and jes: "jes = [Entry_room a, Entry_room b, Entry_job j]"
    and keys: "je_inputRoomKey j = roomReceiptKey cd (re_room a) (re_channel a) (re_publication a)"
      "je_outputRoomKey j = roomReceiptKey cd (re_room b) (re_channel b) (re_publication b)"
    by (metis subject.inject(4))
  have "backed cd cf l (Entry_room a)" unfolding backed_def using assms(4) r(1) by (fastforce simp: derives_id_def)
  moreover have "backed cd cf l (Entry_room b)" unfolding backed_def using assms(5) r(2) by (fastforce simp: derives_id_def)
  moreover have "entry_ok cd cf l ((es @ [Entry_room a]) @ [Entry_room b]) (Entry_job j)"
    using keys by (auto simp: entry_ok_def)
  ultimately have "entries_inv cd cf c (n + 1) (es @ [Entry_room a]) l"
      "entry_ok cd cf l (es @ [Entry_room a]) (Entry_room b)"
      "entry_ok cd cf l ((es @ [Entry_room a]) @ [Entry_room b]) (Entry_job j)"
    using entries_inv_snoc [OF assms(1), of "Entry_room a"] by (simp_all add: entry_ok_def)
  then have "entries_inv cd cf c (n + 1 + 1 + 1) (((es @ [Entry_room a]) @ [Entry_room b]) @ [Entry_job j]) l"
    by (metis entries_inv_snoc)
  then show ?thesis using Some jes by (auto elim: entries_inv_mono)
qed

lemma unchanged_spec: "n \<le> m \<Longrightarrow> spec (entries_inv cd cf c n es) (return_a es) (entries_inv cd cf c m) (run_ok cd cf)"
  by (rule spec_return) (rule entries_inv_mono)

lemma record_job_spec:
  "spec (entries_inv cd cf c n es) (record_job cd io cf cx es s ls) (entries_inv cd cf c (n + 4)) (run_ok cd cf)"
proof -
  let ?I = "entries_inv cd cf c n es" and ?Q = "entries_inv cd cf c (n + 4)"
  have both: "spec ?I
      (bind_a (observeSubject io cf cx (Room_subject room inputChannel inputId None)) (\<lambda>i.
       bind_a (observeSubject io cf cx (Room_subject room outputChannel outputId None)) (\<lambda>out'.
       bind_a (lift_a (jobEntriesFor cd s (inputId, outputId) (i, out') LEVELS)) (\<lambda>jobEntries.
         return_a (es @ coalesce jobEntries []))))) ?Q (run_ok cd cf)"
    if s: "s = Job_subject room inputChannel source outputChannel member q"
    for room inputChannel inputId source outputChannel outputId member q
    by (rule spec_bind [OF observeSubject_spec],
        rule spec_bind [OF observeSubject_spec_frame], rule saw_grows, assumption,
        rule spec_bind_lift, rule spec_return)
      (auto intro: job_entries_added [OF _ _ s] simp: entries_inv_run)
  have outcome: "spec ?I
      (case (s, out) of
         (Job_subject room inputChannel _ outputChannel _ _, Lookup_found outputId) \<Rightarrow>
           bind_a (observeSubject io cf cx (Room_subject room inputChannel inputId None)) (\<lambda>i.
           bind_a (observeSubject io cf cx (Room_subject room outputChannel outputId None)) (\<lambda>out'.
           bind_a (lift_a (jobEntriesFor cd s (inputId, outputId) (i, out') LEVELS)) (\<lambda>jobEntries.
             return_a (es @ coalesce jobEntries []))))
       | _ \<Rightarrow> return_a es) ?Q (run_ok cd cf)" for out inputId
  proof (cases s)
    case (Job_subject a b d e f g)
    show ?thesis
    proof (cases out)
      case (Lookup_found i)
      show ?thesis using both [OF Job_subject]
        unfolding Job_subject Lookup_found prod.case subject.case publication_lookup.case by blast
    qed (unfold Job_subject prod.case subject.case, auto intro: unchanged_spec)
  qed (unfold prod.case, auto intro: unchanged_spec)
  have found: "spec ?I (case input of Lookup_found i \<Rightarrow> bind_a (lookUp io cf cx (snd ls)) (g i) | _ \<Rightarrow> return_a es) ?Q (run_ok cd cf)"
    if "\<And>i out. spec ?I (g i out) ?Q (run_ok cd cf)" for input g
  proof (cases input)
    case (Lookup_found i)
    show ?thesis unfolding Lookup_found publication_lookup.case by (rule spec_bind [OF lookUp_spec that])
  qed (auto intro: unchanged_spec)
  show ?thesis unfolding record_job_def by (rule spec_bind [OF lookUp_spec found [OF outcome]])
qed

lemma record_one_spec:
  "spec (entries_inv cd cf c n es) (record_one cd io cf cx c es s) (entries_inv cd cf c (n + subjectCost s)) (run_ok cd cf)"
proof (cases s)
  case (RoomRequest_subject room channel publisher q)
  have rest: "spec (entries_inv cd cf c n es) (case found of None \<Rightarrow> return_a es | Some f \<Rightarrow> record_observed cd io cf cx c es f)
      (entries_inv cd cf c (n + 2)) (run_ok cd cf)" for found
  proof (cases found)
    case (Some f)
    show ?thesis unfolding Some option.case
      by (rule spec_weaken [OF record_observed_spec]) (auto elim: entries_inv_mono)
  qed (auto intro!: spec_return elim: entries_inv_mono)
  have "spec (entries_inv cd cf c n es) (record_one cd io cf cx c es s) (entries_inv cd cf c (n + 2)) (run_ok cd cf)"
    unfolding RoomRequest_subject record_one_def jobLookups.simps option.case subject.case
    by (rule spec_bind [OF lookUp_spec rest])
  then show ?thesis by (simp add: RoomRequest_subject)
next
  case (Job_subject a b d e f g)
  then show ?thesis by (simp add: record_one_def record_job_spec)
qed (simp_all add: record_one_def record_observed_spec)

lemma run_ok_event: "run_ok cd cf l \<Longrightarrow> report_written_ok cd cf l ev \<Longrightarrow> run_ok cd cf (l @ [ev])"
  by (simp add: run_ok_def)

lemma credentials_spec: "spec (run_ok cd cf) (read_credentials io b) (\<lambda>_. run_ok cd cf) (run_ok cd cf)"
proof -
  have secrets: "spec (run_ok cd cf) (call (Wf_getSecrets names) f) (\<lambda>_. run_ok cd cf) (run_ok cd cf)" for names f
    by (rule spec_call_inv) (auto intro: run_ok_event simp: report_written_ok_def)
  have org: "spec (run_ok cd cf) (if b then lift_a r else return_a []) (\<lambda>_. run_ok cd cf) (run_ok cd cf)" for r :: "string + string"
    by (auto intro: spec_lift spec_return)
  show ?thesis unfolding read_credentials_def Let_def
    by (rule spec_bind [OF secrets], rule spec_bind_lift, rule spec_bind [OF org], rule spec_return)
qed

lemma confirm_spec:
  "spec (run_ok cd cf) (if b then confirmClientId io cf k else return_a False)
     (\<lambda>c. entries_inv cd cf c 0 []) (run_ok cd cf)"
proof -
  have asked: "spec (run_ok cd cf) (call (Wf_observeClientId lookup) f)
      (\<lambda>identity. entries_inv cd cf (fst identity = Some (cf_beamClientId cf)) 0 []) (run_ok cd cf)" for lookup f
    by (rule spec_call) (auto simp: entries_inv_def client_confirmed_def report_written_ok_def prod_eq_iff intro: run_ok_event)
  have "spec (run_ok cd cf) (confirmClientId io cf k) (\<lambda>c. entries_inv cd cf c 0 []) (run_ok cd cf)"
    unfolding confirmClientId_def Let_def by (rule spec_bind [OF asked]) (rule spec_return)
  then show ?thesis by (auto intro: spec_return simp: entries_inv_def)
qed

lemma write_spec:
  assumes "encodeEntries cd es = Inr encoded" and "es \<noteq> []"
  shows "spec (entries_inv cd cf c 14 es) (writeReceiptReport io cf encoded) (\<lambda>_. run_ok cd cf) (run_ok cd cf)"
proof -
  have signed: "spec (entries_inv cd cf c 14 es) (call (Wf_report encoded) (rt_report io encoded))
      (\<lambda>report l. entries_inv cd cf c 14 es l \<and> Wf_report encoded (Inr report) \<in> set l) (run_ok cd cf)"
    by (rule spec_call) (auto intro!: entries_inv_event entries_inv_run [OF entries_inv_event] simp: report_written_ok_def)
  have written: "spec (\<lambda>l. entries_inv cd cf c 14 es l \<and> Wf_report encoded (Inr report) \<in> set l)
      (call (Wf_writeReport (cf_receiptsAddress cf) report gas) f) (\<lambda>_. run_ok cd cf) (run_ok cd cf)" for report gas f
  proof -
    have ok: "run_ok cd cf (l @ [Wf_writeReport (cf_receiptsAddress cf) report gas r])"
      if "entries_inv cd cf c 14 es l" "Wf_report encoded (Inr report) \<in> set l" for l r
    proof (rule run_ok_event)
      show "report_written_ok cd cf l (Wf_writeReport (cf_receiptsAddress cf) report gas r)"
        unfolding report_written_ok_def workflow_event.case using that assms unfolding entries_inv_def by blast
    qed (use that(1) in \<open>rule entries_inv_run\<close>)
    show ?thesis by (rule spec_call) (use ok in auto)
  qed
  show ?thesis unfolding writeReceiptReport_def
    by (rule spec_bind [OF signed], rule spec_bind_lift, rule spec_bind [OF written])
      (auto simp: throw_a_def entries_inv_run intro!: spec_return spec_lift)
qed

lemma recordReceipts_spec:
  "spec (run_ok cd cf) (recordReceipts cd io cf requested source) (\<lambda>_. run_ok cd cf) (run_ok cd cf)"
proof (cases "sum_list (map subjectCost (uniqueSubjects requested)) > MAX_SUBJECTS")
  case True
  then show ?thesis by (auto simp: recordReceipts_def Let_def throw_a_def intro!: spec_lift)
next
  case False
  let ?ss = "uniqueSubjects requested"
  have fold: "spec (entries_inv cd cf c (0 + sum_list (map subjectCost [])) [])
      (fold_a (record_one cd io cf cx c) [] ?ss) (\<lambda>es. entries_inv cd cf c (0 + sum_list (map subjectCost ([] @ ?ss))) es) (run_ok cd cf)" for c cx
    by (rule spec_fold_prefix [where I = "\<lambda>pre es. entries_inv cd cf c (0 + sum_list (map subjectCost pre)) es"])
      (use record_one_spec in \<open>simp add: add.assoc\<close>)
  have small: "entries_inv cd cf c (0 + sum_list (map subjectCost ([] @ ?ss))) es l \<Longrightarrow> entries_inv cd cf c 14 es l" for c es l
    using False by (auto simp: MAX_SUBJECTS_def elim: entries_inv_mono)
  have finish: "spec (entries_inv cd cf c (0 + sum_list (map subjectCost ([] @ ?ss))) es)
      (if es = [] then return_a a else bind_a (lift_a (encodeEntries cd es)) (\<lambda>report.
         bind_a (writeReceiptReport io cf report) (\<lambda>tx. return_a (g tx)))) (\<lambda>_. run_ok cd cf) (run_ok cd cf)"
    for c es and a :: string and g :: "string \<Rightarrow> string"
  proof (cases "es = []")
    case True
    then show ?thesis by (auto intro!: spec_return simp: entries_inv_run)
  next
    case False
    show ?thesis unfolding if_not_P [OF False]
      by (rule spec_pre [where P = "entries_inv cd cf c 14 es"], rule spec_bind_lift, rule spec_then_return [OF write_spec])
        (use False small entries_inv_run in auto)
  qed
  show ?thesis unfolding recordReceipts_def Let_def if_not_P [OF False]
    by (rule spec_bind [OF credentials_spec], rule spec_bind [OF confirm_spec],
        rule spec_bind [OF fold [simplified] finish [simplified]])
qed

text \<open>An attestation adds what Beam's answer gives, and signs and delivers that entry on its own.\<close>

lemma attest_one_spec:
  assumes "\<not> derives_id s"
  shows "spec (entries_inv cd cf c n (at_answered st)) (attest_one cd io cf cx url st s)
     (\<lambda>st'. entries_inv cd cf c (n + 1) (at_answered st')) (run_ok cd cf)"
  unfolding attest_one_def
proof (rule spec_bind [OF observeSubject_spec], rule spec_bind_lift)
  fix observation entry
  assume e: "reportEntryFor cd s observation LEVELS = Inr entry"
  let ?es = "at_answered st"
  let ?J = "\<lambda>l. entries_inv cd cf c n ?es l \<and> saw cf s observation l"
  show "spec ?J (case entry of
         None \<Rightarrow> return_a st
       | Some e \<Rightarrow>
           bind_a (lift_a (encodeEntries cd [e])) (\<lambda>encoded.
           bind_a (call (Wf_report encoded) (rt_report io encoded)) (\<lambda>report.
           bind_a (call (Wf_deliverReport url report) (rt_deliverReport io url report)) (\<lambda>status.
             return_a \<lparr>at_answered = ?es @ [e], at_delivered = at_delivered st + (if 200 \<le> status \<and> status < 300 then 1 else 0)\<rparr>))))
       (\<lambda>st'. entries_inv cd cf c (n + 1) (at_answered st')) (run_ok cd cf)"
  proof (cases entry)
    case None
    then show ?thesis by (auto intro!: spec_return elim: entries_inv_mono)
  next
    case (Some e1)
    let ?I = "entries_inv cd cf c (n + 1) (?es @ [e1])"
    have new: "?I l" if "?J l" for l
    proof (rule entries_inv_snoc)
      have "e1 \<noteq> Entry_job j" for j using backed_not_job e Some by blast
      moreover have "backed cd cf l e1" unfolding backed_def using that assms e Some by blast
      ultimately show "entry_ok cd cf l ?es e1" by (cases e1) (auto simp: entry_ok_def)
    qed (use that in blast)
    have keep: "?I (l @ [ev])" if "?I l" "\<And>a b d r. ev \<noteq> Wf_writeReport a b d r" for l ev
      using that by (auto intro!: entries_inv_event simp: report_written_ok_def split: workflow_event.split)
    have signed: "spec ?I (call (Wf_report encoded) f) (\<lambda>_. ?I) (run_ok cd cf)" for encoded f
      by (rule spec_call_inv) (auto intro: keep entries_inv_run)
    have delivered: "spec ?I (call (Wf_deliverReport url report) f) (\<lambda>_. ?I) (run_ok cd cf)" for report f
      by (rule spec_call_inv) (auto intro: keep entries_inv_run)
    have "spec ?I (bind_a (lift_a (encodeEntries cd [e1])) (\<lambda>encoded.
           bind_a (call (Wf_report encoded) (rt_report io encoded)) (\<lambda>report.
           bind_a (call (Wf_deliverReport url report) (rt_deliverReport io url report)) (\<lambda>status.
             return_a \<lparr>at_answered = ?es @ [e1], at_delivered = at_delivered st + (if 200 \<le> status \<and> status < 300 then 1 else 0)\<rparr>))))
       (\<lambda>st'. entries_inv cd cf c (n + 1) (at_answered st')) (run_ok cd cf)"
      by (rule spec_bind_lift, rule spec_bind [OF signed], rule spec_bind [OF delivered], rule spec_return)
        (simp_all add: entries_inv_run)
    then show ?thesis unfolding Some option.case by (rule spec_pre) (rule new)
  qed
qed (auto simp: entries_inv_run)

lemma answerAttestations_spec:
  assumes "length attest \<le> MAX_ATTESTATIONS"
  shows "spec (run_ok cd cf) (answerAttestations cd io cf attest publishOnchain) (\<lambda>_. run_ok cd cf) (run_ok cd cf)"
proof (cases "cf_attestationReplyUrl cf")
  case None
  then show ?thesis by (auto simp: answerAttestations_def throw_a_def intro!: spec_lift)
next
  case (Some url)
  have run: "spec (run_ok cd cf) (fold_a (attest_one cd io cf cx url) \<lparr>at_answered = [], at_delivered = 0\<rparr> (uniqueSubjects asked))
      (\<lambda>st. entries_inv cd cf False 14 (at_answered st)) (run_ok cd cf)"
    if asked: "collect attestationSubject attest = Inr asked" for cx asked
  proof -
    let ?ss = "uniqueSubjects asked"
    have plain: "\<not> derives_id s" if "s \<in> set ?ss" for s
    proof -
      have "s \<in> set asked" using uniqueSubjects_subset [of asked] that by blast
      from collect_set [OF asked this] obtain a where "attestationSubject a = Inr s" by blast
      then show ?thesis by (cases a) (auto simp: derives_id_def split: sum.splits)
    qed
    have few: "length ?ss \<le> 14"
      using uniqueSubjects_length [of asked] collect_length [OF asked] assms by (simp add: MAX_ATTESTATIONS_def)
    have "spec (entries_inv cd cf False (length ([] :: subject list)) (at_answered \<lparr>at_answered = [], at_delivered = 0\<rparr>))
        (fold_a (attest_one cd io cf cx url) \<lparr>at_answered = [], at_delivered = 0\<rparr> ?ss)
        (\<lambda>st. entries_inv cd cf False (length ([] @ ?ss)) (at_answered st)) (run_ok cd cf)"
      by (rule spec_fold_prefix [where I = "\<lambda>(pre :: subject list) st. entries_inv cd cf False (length pre) (at_answered st)" and pre = "[]"])
        (use attest_one_spec [OF plain, where c = False, folded Suc_eq_plus1] in simp)
    then show ?thesis
      by (rule spec_weaken) (use few in \<open>auto simp: entries_inv_def\<close>)
  qed
  have publish: "spec (entries_inv cd cf False 14 es)
      (if \<not> b \<or> es = [] then return_a a else bind_a (lift_a (encodeEntries cd es)) (\<lambda>report.
         bind_a (writeReceiptReport io cf report) (\<lambda>tx. return_a (g tx)))) (\<lambda>_. run_ok cd cf) (run_ok cd cf)"
    for es b and a :: string and g :: "string \<Rightarrow> string"
  proof (cases "\<not> b \<or> es = []")
    case True
    then show ?thesis by (auto intro!: spec_return simp: entries_inv_run)
  next
    case False
    show ?thesis unfolding if_not_P [OF False]
      by (rule spec_bind_lift, rule spec_then_return [OF write_spec]) (use False entries_inv_run in auto)
  qed
  show ?thesis unfolding answerAttestations_def Some option.case Let_def
    by (rule spec_bind_lift, rule spec_bind [OF credentials_spec], rule spec_bind [OF run publish]) simp_all
qed

subsection \<open>The executions of the workflow\<close>

datatype trigger = Log_trigger contract_log | Cron_trigger "int option" | Http_trigger json

definition execution ::
  "codec \<Rightarrow> (string \<Rightarrow> 8 word list) \<Rightarrow> 'w runtime_io \<Rightarrow> workflow_config \<Rightarrow> trigger \<Rightarrow> ('w, string) wact" where
  "execution cd sha256 io cf t =
     (case t of
        Log_trigger ev \<Rightarrow> onReceiptRequested cd io cf ev
      | Cron_trigger scheduled \<Rightarrow> onReconcile cd sha256 io cf scheduled
      | Http_trigger body \<Rightarrow> onReceiptPush cd sha256 io cf body)"

lemma reads_spec:
  shows "spec (run_ok cd cf) (readOpenRequestCount io to) (\<lambda>_. run_ok cd cf) (run_ok cd cf)"
    and "spec (run_ok cd cf) (reconcile_page io cf n t) (\<lambda>_. run_ok cd cf) (run_ok cd cf)"
    and "spec (run_ok cd cf) (scheduled_seconds io scheduled) (\<lambda>_. run_ok cd cf) (run_ok cd cf)"
proof -
  have view: "spec (run_ok cd cf) (callView io to data) (\<lambda>_. run_ok cd cf) (run_ok cd cf)" for to data
    unfolding callView_def
    by (rule spec_bind [OF spec_call_inv])
      (auto intro: run_ok_event spec_return spec_lift simp: report_written_ok_def throw_a_def)
  show "spec (run_ok cd cf) (readOpenRequestCount io to) (\<lambda>_. run_ok cd cf) (run_ok cd cf)" for to
    unfolding readOpenRequestCount_def by (rule spec_bind [OF view]) (auto intro: spec_lift)
  have requests: "spec (run_ok cd cf) (readOpenRequests io to offset limit) (\<lambda>_. run_ok cd cf) (run_ok cd cf)" for to offset limit
    unfolding readOpenRequests_def by (rule spec_bind [OF view]) (auto intro: spec_lift)
  show "spec (run_ok cd cf) (reconcile_page io cf n t) (\<lambda>_. run_ok cd cf) (run_ok cd cf)"
    unfolding reconcile_page_def read_window_def
    by (rule spec_bind [OF requests]) (auto intro!: spec_then_return requests spec_return)
  show "spec (run_ok cd cf) (scheduled_seconds io scheduled) (\<lambda>_. run_ok cd cf) (run_ok cd cf)"
    by (cases scheduled)
      (auto simp: scheduled_seconds_def report_written_ok_def intro!: spec_return spec_then_return spec_call_inv run_ok_event)
qed

lemma execution_spec: "spec (run_ok cd cf) (execution cd sha256 io cf t) (\<lambda>_. run_ok cd cf) (run_ok cd cf)"
proof (cases t)
  case (Log_trigger ev)
  show ?thesis unfolding Log_trigger execution_def trigger.case onReceiptRequested_def
    by (cases ev) (auto intro!: spec_return spec_bind_lift recordReceipts_spec)
next
  case (Cron_trigger scheduled)
  show ?thesis unfolding Cron_trigger execution_def trigger.case onReconcile_def
    by (rule spec_bind_lift, rule spec_bind [OF reads_spec(1)])
      (auto intro!: spec_return spec_bind [OF reads_spec(3)] spec_bind [OF reads_spec(2)] spec_bind_lift recordReceipts_spec)
next
  case (Http_trigger body)
  have attest: "spec (run_ok cd cf) (answerAttestations cd io cf attest publish) (\<lambda>_. run_ok cd cf) (run_ok cd cf)"
    if "attestSchema body = Some (attest, publish)" for attest publish
    by (rule answerAttestations_spec)
      (use that in \<open>auto simp: attestSchema_def split: option.splits json.splits if_splits\<close>)
  have throws: "spec (run_ok cd cf) (throw_a e) (\<lambda>_. run_ok cd cf) (run_ok cd cf)" for e
    by (auto simp: throw_a_def intro: spec_lift)
  show ?thesis unfolding Http_trigger execution_def trigger.case onReceiptPush_def
    using attest throws recordReceipts_spec
    by (auto intro!: spec_bind_lift simp: Let_def split: option.split prod.split)
qed

text \<open>
  C36. What the workflow writes rests on Beam's answers. Whatever trigger starts it, the contract's log, the schedule or a push, which
  may ask for receipts or for attestations to be published, and whatever the nodes and the contract answer, a report is
  sent to the configured contract only after the runtime signed it, it encodes between one and fourteen entries,
  each of them is what an answer of Beam read in this execution adds to a report, an entry whose transfer id
  derives from the client id only once \<open>GET /auth/me\<close> confirmed that id, and a job's result stands after the
  receipts of its input and its output.
\<close>

theorem written_report_from_beam:
  assumes "execution cd sha256 io cf t (w, []) = (r, (w', l))"
    and "l = before @ Wf_writeReport receiver report gas answer # after"
  shows "receiver = cf_receiptsAddress cf
    \<and> (\<exists>entries encoded. Wf_report encoded (Inr report) \<in> set before \<and> encodeEntries cd entries = Inr encoded
         \<and> entries \<noteq> [] \<and> length entries \<le> 14
         \<and> (\<forall>pre e post. entries = pre @ e # post \<longrightarrow> entry_ok cd cf before pre e))"
proof -
  have "run_ok cd cf []" by (simp add: run_ok_def)
  from spec_result [OF execution_spec this assms(1)] have "each (report_written_ok cd cf) l"
    by (simp add: run_ok_def split: sum.splits)
  from eachD [OF this assms(2)] show ?thesis by (auto simp: report_written_ok_def each_def)
qed

abbreviation demo_record :: "(string + string) \<times> (unit \<times> workflow_event list)" where
  "demo_record \<equiv> execution json_codec (\<lambda>_. []) demo_runtime demo_config
     (Log_trigger (Log_ReceiptRequested (''0x'' @ replicate 32 (CHR ''1'')))) ((), [])"

lemma demo_record_trace:
  "\<exists>before report answer. snd (snd demo_record) = before @ Wf_writeReport ''0xC'' report ''1'' answer # []"
proof -
  have "snd (snd demo_record) \<noteq> []
      \<and> (case last (snd (snd demo_record)) of Wf_writeReport receiver _ gas _ \<Rightarrow> receiver = ''0xC'' \<and> gas = ''1'' | _ \<Rightarrow> False)"
    by code_simp
  then obtain report answer where "last (snd (snd demo_record)) = Wf_writeReport ''0xC'' report ''1'' answer" "snd (snd demo_record) \<noteq> []"
    by (auto split: workflow_event.splits)
  then show ?thesis by (metis append_butlast_last_id)
qed

theorem written_report_from_beam_witness:
  "\<exists>before report gas answer entries encoded.
     snd (snd demo_record) = before @ [Wf_writeReport ''0xC'' report gas answer]
     \<and> Wf_report encoded (Inr report) \<in> set before \<and> encodeEntries json_codec entries = Inr encoded \<and> entries \<noteq> []"
proof -
  obtain before report answer where t: "snd (snd demo_record) = before @ Wf_writeReport ''0xC'' report ''1'' answer # []"
    using demo_record_trace by blast
  have run: "demo_record = (fst demo_record, ((), snd (snd demo_record)))" by (simp add: prod_eq_iff)
  from written_report_from_beam [OF run t] t show ?thesis by blast
qed

end
