(* ===== verification/Studio.thy ===== *)
theory Studio
  imports Subjects Base64Url
begin

text \<open>
  Starting a transfer through a Studio webhook (\<open>packages/cre/workflows/start-transfer/studio.ts\<close>): the body
  posted, its signature, standard base64, and what the nodes agree on of Studio's answer. The keyed hash
  is a parameter.
\<close>

definition webhookBody :: "string \<Rightarrow> string \<Rightarrow> string \<Rightarrow> string" where
  "webhookBody requestId requester input =
     stringify (JObj [(''requestId'', JStr requestId), (''requester'', JStr (to_lower requester)), (''input'', JStr input)])"

definition webhookSignature :: "(string \<Rightarrow> string \<Rightarrow> 8 word list) \<Rightarrow> string \<Rightarrow> int \<Rightarrow> string \<Rightarrow> string" where
  "webhookSignature hmac_sha256 secret timestampSeconds body =
     ''v1='' @ bytesToHex (hmac_sha256 secret (''v1:'' @ show_int timestampSeconds @ '':'' @ body))"

definition BASE64_ALPHABET :: string where
  "BASE64_ALPHABET = ''ABCDEFGHIJKLMNOPQRSTUVWXYZabcdefghijklmnopqrstuvwxyz0123456789+/''"

definition sextet :: "nat \<Rightarrow> nat \<Rightarrow> char" where
  "sextet triple shift = BASE64_ALPHABET ! (triple div 2 ^ shift mod 64)"

fun toBase64 :: "8 word list \<Rightarrow> string" where
  "toBase64 [] = []"
| "toBase64 [a] =
     (let triple = unat a * 65536 in [sextet triple 18, sextet triple 12, CHR ''='', CHR ''=''])"
| "toBase64 [a, b] =
     (let triple = unat a * 65536 + unat b * 256 in [sextet triple 18, sextet triple 12, sextet triple 6, CHR ''=''])"
| "toBase64 (a # b # c # bytes) =
     (let triple = unat a * 65536 + unat b * 256 + unat c in
      [sextet triple 18, sextet triple 12, sextet triple 6, sextet triple 0] @ toBase64 bytes)"

datatype studio_outcome =
  Studio_accepted "string option" | Studio_refused int "string option" | Studio_unavailable int

definition projectStudioResponse :: "int \<Rightarrow> string \<Rightarrow> studio_outcome" where
  "projectStudioResponse statusCode body =
     (let reply = parseBody body in
      if (statusCode = 200 \<or> statusCode = 202) \<and> isRecord reply \<and> jget (the reply) ''accepted'' = Some (JBool True) then
        Studio_accepted (as_str (jget (the reply) ''runId''))
      else if statusCode = 401 \<or> statusCode = 404 then
        (let details = (if isRecord reply \<and> isRecord (jget (the reply) ''details'')
               then jget (the reply) ''details'' else None) in
         Studio_refused statusCode (case details of None \<Rightarrow> None | Some d \<Rightarrow> as_str (jget d ''reason'')))
      else Studio_unavailable statusCode)"

subsection \<open>Base64\<close>

fun alphabet_index :: "string \<Rightarrow> char \<Rightarrow> nat \<Rightarrow> nat option" where
  "alphabet_index [] c n = None"
| "alphabet_index (a # as) c n = (if a = c then Some n else alphabet_index as c (n + 1))"

definition sextet_value :: "char \<Rightarrow> nat option" where
  "sextet_value c = alphabet_index BASE64_ALPHABET c 0"

text \<open>A reader of standard base64, for comparison.\<close>

fun fromBase64 :: "string \<Rightarrow> 8 word list option" where
  "fromBase64 [] = Some []"
| "fromBase64 (p # q # r # s # rest) =
     (case (sextet_value p, sextet_value q) of
        (Some x, Some y) \<Rightarrow>
          if r = CHR ''='' then (if s = CHR ''='' \<and> rest = [] then Some [word_of_nat (x * 4 + y div 16)] else None)
          else (case sextet_value r of
              None \<Rightarrow> None
            | Some z \<Rightarrow>
                if s = CHR ''='' then
                  (if rest = [] then Some [word_of_nat (x * 4 + y div 16), word_of_nat (y mod 16 * 16 + z div 4)] else None)
                else (case (sextet_value s, fromBase64 rest) of
                    (Some u, Some bs) \<Rightarrow>
                      Some (word_of_nat (x * 4 + y div 16) # word_of_nat (y mod 16 * 16 + z div 4)
                        # word_of_nat (z mod 4 * 64 + u) # bs)
                  | _ \<Rightarrow> None))
      | _ \<Rightarrow> None)"
| "fromBase64 _ = None"

lemma sextet_index:
  assumes "n < 64"
  shows "sextet_value (BASE64_ALPHABET ! n) = Some n" "BASE64_ALPHABET ! n \<noteq> CHR ''=''"
proof -
  have "\<forall>n \<in> set [0..<64]. sextet_value (BASE64_ALPHABET ! n) = Some n \<and> BASE64_ALPHABET ! n \<noteq> CHR ''=''"
    by code_simp
  with assms show "sextet_value (BASE64_ALPHABET ! n) = Some n" "BASE64_ALPHABET ! n \<noteq> CHR ''=''" by auto
qed

lemma sextet_sextet: "sextet_value (sextet t k) = Some (t div 2 ^ k mod 64)" "sextet t k \<noteq> CHR ''=''"
  using sextet_index [of "t div 2 ^ k mod 64"] by (simp_all add: sextet_def)

lemma sextet_digits:
  fixes x y z u :: nat
  assumes "x < 64" "y < 64" "z < 64" "u < 64"
  defines "t \<equiv> ((x * 64 + y) * 64 + z) * 64 + u"
  shows "t div 262144 mod 64 = x" "t div 4096 mod 64 = y" "t div 64 mod 64 = z" "t mod 64 = u"
proof -
  have d: "(v * 64 + w) div 64 = v" "(v * 64 + w) mod 64 = w" if "w < 64" for v w :: nat using that by simp_all
  have t1: "t div 64 = (x * 64 + y) * 64 + z" unfolding t_def by (rule d(1) [OF assms(4)])
  have t2: "t div 4096 = x * 64 + y" using d(1) [OF assms(3), of "x * 64 + y"] t1 div_mult2_eq [of t 64 64] by simp
  have t3: "t div 262144 = x" using d(1) [OF assms(2), of x] t2 div_mult2_eq [of t 4096 64] by simp
  show "t div 262144 mod 64 = x" using t3 assms(1) by simp
  show "t div 4096 mod 64 = y" unfolding t2 by (rule d(2) [OF assms(2)])
  show "t div 64 mod 64 = z" unfolding t1 by (rule d(2) [OF assms(3)])
  show "t mod 64 = u" unfolding t_def by (rule d(2) [OF assms(4)])
qed

lemma triple_regroup:
  "(a1 * 4 + a2) * 65536 + (b1 * 16 + b2) * 256 + (c1 * 64 + c2)
    = ((a1 * 64 + (a2 * 16 + b1)) * 64 + (b2 * 4 + c1)) * 64 + (c2 :: nat)"
  by simp

lemma triple_bytes:
  fixes a b c :: nat
  assumes "a < 256" "b < 256" "c < 256"
  defines "t \<equiv> a * 65536 + b * 256 + c"
  shows "t div 262144 mod 64 * 4 + t div 4096 mod 64 div 16 = a"
    "t div 4096 mod 64 mod 16 * 16 + t div 64 mod 64 div 4 = b" "t div 64 mod 64 mod 4 * 64 + t mod 64 = c"
proof -
  have q: "a div 4 < 64" "b div 16 < 16" "c div 64 < 4" using assms(1-3) by (simp_all add: div_less_iff_less_mult)
  have l: "a mod 4 * 16 + b div 16 < 64" "b mod 16 * 4 + c div 64 < 64"
    using q by (auto intro: glue_bound [of _ 4] glue_bound [of _ 16])
  have t: "t = ((a div 4 * 64 + (a mod 4 * 16 + b div 16)) * 64 + (b mod 16 * 4 + c div 64)) * 64 + c mod 64"
    unfolding t_def triple_regroup [symmetric] div_mult_mod_eq by (rule refl)
  note s = sextet_digits [OF q(1) l, of "c mod 64", folded t]
  have m: "c mod 64 < 64" by simp
  show "t div 262144 mod 64 * 4 + t div 4096 mod 64 div 16 = a"
    "t div 4096 mod 64 mod 16 * 16 + t div 64 mod 64 div 4 = b" "t div 64 mod 64 mod 4 * 64 + t mod 64 = c"
    unfolding s [OF m] using glue_div [OF q(2), of "a mod 4"] glue_mod [OF q(2), of "a mod 4"]
      glue_div [OF q(3), of "b mod 16"] glue_mod [OF q(3), of "b mod 16"] by simp_all
qed

lemma sextet_values:
  "sextet_value (sextet t 18) = Some (t div 262144 mod 64)" "sextet_value (sextet t 12) = Some (t div 4096 mod 64)"
  "sextet_value (sextet t 6) = Some (t div 64 mod 64)" "sextet_value (sextet t 0) = Some (t mod 64)"
  using sextet_sextet(1) [of t 18] sextet_sextet(1) [of t 12] sextet_sextet(1) [of t 6] sextet_sextet(1) [of t 0]
  by simp_all

text \<open>What four, three or two characters and padding decode to, in terms of the three bytes.\<close>

lemma read_chunk:
  fixes a b c :: nat
  assumes "a < 256" "b < 256" "c < 256"
  defines "t \<equiv> a * 65536 + b * 256 + c"
  shows "fromBase64 (sextet t 18 # sextet t 12 # sextet t 6 # sextet t 0 # rest)
      = (case fromBase64 rest of None \<Rightarrow> None | Some bs \<Rightarrow> Some (word_of_nat a # word_of_nat b # word_of_nat c # bs))"
    "fromBase64 [sextet t 18, sextet t 12, sextet t 6, CHR ''=''] = Some [word_of_nat a, word_of_nat b]"
    "fromBase64 [sextet t 18, sextet t 12, CHR ''='', CHR ''=''] = Some [word_of_nat a]"
  using assms(1-3)
  by (simp_all only: fromBase64.simps sextet_values sextet_sextet(2) option.case prod.case if_False if_True simp_thms
      triple_bytes t_def split: option.splits)

text \<open>
  The hand-written base64 of the WASM runtime, which has none of its own, is standard padded base64:
  reading it back gives the bytes, whatever their number.
\<close>

theorem toBase64_round_trip: "fromBase64 (toBase64 bytes) = Some bytes"
proof (induction bytes rule: toBase64.induct)
  case 1
  show ?case by simp
next
  case (2 a)
  then show ?case using read_chunk(3) [of "unat a" 0 0] unat_byte [of a] by (simp add: Let_def del: fromBase64.simps)
next
  case (3 a b)
  then show ?case using read_chunk(2) [of "unat a" "unat b" 0] unat_byte [of a] unat_byte [of b]
    by (simp add: Let_def del: fromBase64.simps)
next
  case (4 a b c bytes)
  then show ?case using read_chunk(1) [of "unat a" "unat b" "unat c" "toBase64 bytes"]
      unat_byte [of a] unat_byte [of b] unat_byte [of c]
    by (simp add: Let_def del: fromBase64.simps)
qed

end
