(* ===== verification/Customers.thy ===== *)
theory Customers
  imports Studio
begin

text \<open>
  Customers mode of the relay (\<open>packages/cre/relay/customers.ts\<close>): who an organization is, which of its
  transfers are owed a receipt, where its listing continues, and what the website answered for a charge.
  Times are milliseconds since the epoch. A listed transfer and a registry account have passed the schema,
  so their times are ISO timestamps and \<open>Date.parse\<close> of them is a number; a cursor comes from a file and may
  be anything.
\<close>

type_synonym reader = "(string \<times> string) option"

datatype via = Via_every_transfer string | Via_requester string

record customer_reader =
  cr_apiKey :: string
  cr_organizationId :: string

datatype owner = Beam_owner | Customer_owner string customer_reader via

datatype requester_status = Requester_PENDING | Requester_APPROVED | Requester_REVOKED
datatype allowlist_status = Allowlist_NONE | Allowlist_ALLOWED | Allowlist_REMOVED

record requester =
  rq_id :: string
  rq_address :: string
  rq_status :: requester_status
  rq_allowlist :: allowlist_status

record period =
  pd_startedAt :: int
  pd_endedAt :: "int option"

record registry_account =
  ra_organizationId :: string
  ra_apiKeyId :: string
  ra_sealedApiKey :: string
  ra_everyTransfer :: bool
  ra_periods :: "(string \<times> string option) list"
  ra_requesters :: "requester list"

record customer =
  cu_organizationId :: string
  cu_reader :: customer_reader
  cu_periods :: "period list"
  cu_requesters :: "requester list"

definition time_of :: "string \<Rightarrow> int" where
  "time_of s = coalesce (date_parse s) 0"

definition sealedKeyContext :: "string \<Rightarrow> string \<Rightarrow> string" where
  "sealedKeyContext organizationId apiKeyId = ''onchain-receipts:'' @ organizationId @ '':'' @ apiKeyId"

definition toCustomer :: "registry_account \<Rightarrow> string \<Rightarrow> customer" where
  "toCustomer account apiKey =
     \<lparr>cu_organizationId = ra_organizationId account,
      cu_reader = \<lparr>cr_apiKey = apiKey, cr_organizationId = ra_organizationId account\<rparr>,
      cu_periods = map (\<lambda>(s, e). \<lparr>pd_startedAt = time_of s, pd_endedAt = map_option time_of e\<rparr>) (ra_periods account),
      cu_requesters = ra_requesters account\<rparr>"

definition TRAILING_LISTING_MS :: int where "TRAILING_LISTING_MS = 7 * 24 * 60 * 60 * 1000"

definition listsTransfers :: "customer \<Rightarrow> int \<Rightarrow> bool" where
  "listsTransfers customer now =
     list_ex (\<lambda>p. case pd_endedAt p of None \<Rightarrow> True | Some e \<Rightarrow> now - e < TRAILING_LISTING_MS) (cu_periods customer)"

definition createdDuringPeriods :: "int \<Rightarrow> period list \<Rightarrow> bool" where
  "createdDuringPeriods createdAtMs periods =
     list_ex (\<lambda>p. createdAtMs \<ge> pd_startedAt p
       \<and> (case pd_endedAt p of None \<Rightarrow> True | Some e \<Rightarrow> createdAtMs < e)) periods"

text \<open>\<open>Math.min\<close> and \<open>Math.max\<close> of at least one number.\<close>

fun math_min :: "int list \<Rightarrow> int" where
  "math_min [] = 0"
| "math_min [x] = x"
| "math_min (x # y # xs) = min x (math_min (y # xs))"

fun math_max :: "int list \<Rightarrow> int" where
  "math_max [] = 0"
| "math_max [x] = x"
| "math_max (x # y # xs) = max x (math_max (y # xs))"

definition initialTransferCursor :: "customer \<Rightarrow> string" where
  "initialTransferCursor customer = toISOString (math_min (map pd_startedAt (cu_periods customer)) - 1)"

record listed_transfer =
  lt_id :: string
  lt_createdAt :: string
  lt_completedAt :: string
  lt_observation :: observation

definition or_null :: "json option \<Rightarrow> json" where
  "or_null v = coalesce v JNull"

text \<open>A member that is \<open>undefined\<close> is left out when the receipt is printed.\<close>

definition opt_field :: "string \<Rightarrow> json option \<Rightarrow> (string \<times> json) list" where
  "opt_field k v = (case v of None \<Rightarrow> [] | Some j \<Rightarrow> [(k, j)])"

definition listedReceipt :: "json \<Rightarrow> json" where
  "listedReceipt row =
     (let metadata = (case jget row ''metadata'' of Some m \<Rightarrow> if is_object m then m else JObj [] | None \<Rightarrow> JObj []) in
      JObj (opt_field ''id'' (jget row ''id'') @ opt_field ''status'' (jget row ''status'')
        @ opt_field ''total_bytes'' (jget row ''total_bytes'')
        @ opt_field ''bytes_transferred'' (jget row ''bytes_transferred'')
        @ opt_field ''completed_at'' (jget row ''completed_at'')
        @ [(''plan_fingerprint'', or_null (jget metadata ''plan_fingerprint'')),
           (''coordinate_checksum'', or_null (jget metadata ''coordinate_checksum''))]))"

definition iso_datetime :: "json option \<Rightarrow> string option" where
  "iso_datetime v = (case as_str v of Some s \<Rightarrow> (case date_parse s of Some _ \<Rightarrow> Some s | None \<Rightarrow> None) | None \<Rightarrow> None)"

definition projectListedTransfer :: "json \<Rightarrow> listed_transfer option" where
  "projectListedTransfer row =
     (if \<not> isRecord (Some row) then None
      else (case (as_str (jget row ''id''), iso_datetime (jget row ''created_at''), iso_datetime (jget row ''completed_at'')) of
          (Some i, Some created, Some completed) \<Rightarrow>
            Some \<lparr>lt_id = i, lt_createdAt = created, lt_completedAt = completed,
              lt_observation = projectTransfer 200 (stringify (listedReceipt row)) i\<rparr>
        | _ \<Rightarrow> None))"

text \<open>\<open>new Date(NaN).toISOString()\<close> throws.\<close>

definition nextTransferCursor :: "string \<Rightarrow> (string \<times> bool) list \<Rightarrow> string result" where
  "nextTransferCursor cursor listed =
     (let pending = map (time_of \<circ> fst) (filter (\<lambda>(_, d). \<not> d) listed);
          newest = map (time_of \<circ> fst) listed in
      if pending \<noteq> [] then
        (case date_parse cursor of
           None \<Rightarrow> Inl ''RangeError: Invalid time value''
         | Some c \<Rightarrow> Inr (toISOString (max c (math_min pending - 1))))
      else if newest \<noteq> [] then
        (case date_parse cursor of
           None \<Rightarrow> Inl ''RangeError: Invalid time value''
         | Some c \<Rightarrow> Inr (toISOString (math_max (c # newest))))
      else Inr cursor)"

datatype charge_subject = Charge_transfer string | Charge_room string | Charge_request string

datatype charge_outcome =
  Charge_held | Charge_charged | Charge_released | Charge_refused int string | Charge_unavailable int

definition projectCharge :: "int \<Rightarrow> string \<Rightarrow> charge_outcome" where
  "projectCharge status body =
     (let reply = (case parseBody body of Some j \<Rightarrow> if is_object j then j else JObj [] | None \<Rightarrow> JObj []) in
      if status \<ge> 500 \<or> status = 0 then Charge_unavailable status
      else if status \<noteq> 200 then
        Charge_refused status
          (case as_str (jget reply ''reason'') of
             Some r \<Rightarrow> r
           | None \<Rightarrow> (case as_str (jget reply ''error'') of Some e \<Rightarrow> e | None \<Rightarrow> ''HTTP '' @ show_int status))
      else
        (let operation = coalesce (jget reply ''operation'') (JObj []);
             s = jget operation ''status'' in
         if s = Some (JStr ''RESERVED'') then Charge_held
         else if s = Some (JStr ''COMMITTED'') then Charge_charged
         else if (s = Some (JStr ''CANCELED'') \<or> s = Some (JStr ''FAILED''))
             \<and> jget operation ''releaseReason'' = Some (JStr ''expired'') then Charge_held
         else Charge_released))"

subsection \<open>The listing cursor\<close>

lemma math_min_least: "xs \<noteq> [] \<Longrightarrow> math_min xs \<in> set xs \<and> (\<forall>x \<in> set xs. math_min xs \<le> x)"
  by (induction xs rule: math_min.induct) (auto simp: min_def)

lemma math_max_greatest: "xs \<noteq> [] \<Longrightarrow> math_max xs \<in> set xs \<and> (\<forall>x \<in> set xs. x \<le> math_max xs)"
  by (induction xs rule: math_max.induct) (auto simp: max_def)

text \<open>
  The listing cursor never moves back and never skips what is unfinished: when the cursor is a time and
  every listed completion is, the next cursor is a time not before it, strictly before the completion of
  every listed transfer not done that lies after it, so that the exclusive listing returns that one again;
  and when all are done it has reached the newest completion.
\<close>

theorem next_cursor_keeps_pending:
  assumes "date_parse cursor = Some c" and "nextTransferCursor cursor listed = Inr next"
    and "\<And>t. t \<in> set (c # map (time_of \<circ> fst) listed) \<Longrightarrow> four_digit_year t \<and> four_digit_year (t - 1)"
  shows "\<exists>n. date_parse next = Some n \<and> c \<le> n
    \<and> (\<forall>(s, d) \<in> set listed. \<not> d \<and> c < time_of s \<longrightarrow> n < time_of s)
    \<and> ((\<forall>(s, d) \<in> set listed. d) \<longrightarrow> (\<forall>(s, d) \<in> set listed. time_of s \<le> n))"
proof -
  let ?pending = "map (time_of \<circ> fst) (filter (\<lambda>(_, d). \<not> d) listed)"
  let ?newest = "map (time_of \<circ> fst) listed"
  consider (pending) "?pending \<noteq> []" | (all_done) "?pending = []" "listed \<noteq> []" | (none) "listed = []" by auto
  then show ?thesis
  proof cases
    case pending
    let ?m = "math_min ?pending"
    let ?n = "max c (?m - 1)"
    have m: "?m \<in> set ?pending" "\<forall>x \<in> set ?pending. ?m \<le> x" using math_min_least [OF pending] by blast+
    have "?m \<in> set (c # ?newest)" using m(1) by auto
    then have y: "four_digit_year ?n" using assms(3) [of ?m] assms(3) [of c] by (auto simp: max_def)
    have next_is: "next = toISOString ?n"
      using assms(1,2) pending by (simp add: nextTransferCursor_def Let_def del: filter_empty_conv)
    have before: "?n < time_of s" if "(s, d) \<in> set listed" "\<not> d" "c < time_of s" for s d
    proof -
      have "time_of s \<in> set ?pending" using that by force
      then show ?thesis using m(2) that(3) by fastforce
    qed
    have "\<not> (\<forall>(s, d) \<in> set listed. d)" using pending by (auto simp: filter_empty_conv)
    with before next_is date_parse_toISOString [OF y] show ?thesis by (intro exI [of _ ?n]) auto
  next
    case all_done
    let ?n = "math_max (c # ?newest)"
    have m: "?n \<in> set (c # ?newest)" "\<forall>x \<in> set (c # ?newest). x \<le> ?n"
      using math_max_greatest [of "c # ?newest"] by blast+
    have y: "four_digit_year ?n" using assms(3) [OF m(1)] ..
    have next_is: "next = toISOString ?n"
      using assms(1,2) all_done by (simp add: nextTransferCursor_def Let_def del: math_max.simps)
    have alld: "d" if "(s, d) \<in> set listed" for s d using all_done(1) that by (force simp: filter_empty_conv)
    show ?thesis
    proof (intro exI [of _ ?n] conjI)
      show "date_parse next = Some ?n" unfolding next_is by (rule date_parse_toISOString [OF y])
      show "c \<le> ?n" using m(2) by simp
      show "\<forall>(s, d) \<in> set listed. \<not> d \<and> c < time_of s \<longrightarrow> ?n < time_of s" using alld by blast
      have "time_of s \<le> ?n" if "(s, d) \<in> set listed" for s d using m(2) that by force
      then show "(\<forall>(s, d) \<in> set listed. d) \<longrightarrow> (\<forall>(s, d) \<in> set listed. time_of s \<le> ?n)" by blast
    qed
  next
    case none
    then show ?thesis using assms(1,2) by (simp add: nextTransferCursor_def)
  qed
qed


theorem next_cursor_keeps_pending_witness:
  "\<exists>n. date_parse (toISOString 4) = Some n \<and> 0 \<le> n \<and> n < time_of ''1970-01-01T00:00:00.005Z''"
proof -
  have c: "date_parse ''1970-01-01T00:00:00.000Z'' = Some 0" by code_simp
  have t: "time_of ''1970-01-01T00:00:00.005Z'' = 5" "time_of ''1970-01-01T00:00:00.009Z'' = 9" by code_simp+
  have n: "nextTransferCursor ''1970-01-01T00:00:00.000Z''
      [(''1970-01-01T00:00:00.005Z'', False), (''1970-01-01T00:00:00.009Z'', True)] = Inr (toISOString 4)"
    using c t by (simp add: nextTransferCursor_def Let_def)
  have y: "\<forall>t \<in> {0, 5, 9}. four_digit_year t \<and> four_digit_year (t - 1)" by code_simp
  show ?thesis
    using next_cursor_keeps_pending [OF c n] y t by auto
qed

end
