(* ===== verification/Relay.thy ===== *)
theory Relay
  imports Effects Customers "HOL-Library.Product_Lexorder"
begin

text \<open>
  The relay (\<open>packages/cre/relay/relay.ts\<close>): it starts the requested transfers, records receipts, charges
  customers for theirs and closes what it will never answer. Everything outside its own logic is the record
  \<open>relay_io\<close>, as in the code; each call is an event of the trace with its answer. Log lines are left out.
  \<open>out of fuel\<close> is the value \<open>None\<close>.
\<close>

record request_log =
  tl_requestId :: string
  tl_requester :: string
  tl_kind :: int
  tl_input :: string
  tl_blockNumber :: int
  tl_logIndex :: int
  tl_transactionHash :: string

datatype workflow = Wf_transfer | Wf_room

datatype relay_event =
  Ev_finalizedBlock "string + int"
| Ev_readCursor "string + int option"
| Ev_transferRequests int int "string + request_log list"
| Ev_deliver request_log workflow "string + studio_outcome"
| Ev_saveCursor int "string + unit"
| Ev_openRequests "string + open_request list"
| Ev_findPublication subject "customer_reader option" "string + publication_lookup"
| Ev_observe subject "customer_reader option" "string + observation"
| Ev_writeReport string "string + string \<times> string list"
| Ev_customers "string + customer list"
| Ev_setRequester string bool "string + string"
| Ev_cancelRequest string "string + string"
| Ev_reportAllowlist string bool string "string + unit"
| Ev_finishedTransfers customer_reader string "string + listed_transfer list"
| Ev_reserveCharge charge_subject string via "string + charge_outcome"
| Ev_commitCharge charge_subject "string + charge_outcome"
| Ev_readTransferCursors "string + (string \<times> string) list"
| Ev_saveTransferCursors "(string \<times> string) list" "string + unit"

record 'w relay_io =
  io_finalizedBlock :: "'w \<Rightarrow> (string + int) \<times> 'w"
  io_readCursor :: "'w \<Rightarrow> (string + int option) \<times> 'w"
  io_transferRequests :: "int \<Rightarrow> int \<Rightarrow> 'w \<Rightarrow> (string + request_log list) \<times> 'w"
  io_deliver :: "request_log \<Rightarrow> workflow \<Rightarrow> 'w \<Rightarrow> (string + studio_outcome) \<times> 'w"
  io_saveCursor :: "int \<Rightarrow> 'w \<Rightarrow> (string + unit) \<times> 'w"
  io_openRequests :: "'w \<Rightarrow> (string + open_request list) \<times> 'w"
  io_findPublication :: "subject \<Rightarrow> customer_reader option \<Rightarrow> 'w \<Rightarrow> (string + publication_lookup) \<times> 'w"
  io_observe :: "subject \<Rightarrow> customer_reader option \<Rightarrow> 'w \<Rightarrow> (string + observation) \<times> 'w"
  io_writeReport :: "string \<Rightarrow> 'w \<Rightarrow> (string + string \<times> string list) \<times> 'w"
  io_customers :: "'w \<Rightarrow> (string + customer list) \<times> 'w"
  io_setRequester :: "string \<Rightarrow> bool \<Rightarrow> 'w \<Rightarrow> (string + string) \<times> 'w"
  io_cancelRequest :: "string \<Rightarrow> 'w \<Rightarrow> (string + string) \<times> 'w"
  io_reportAllowlist :: "string \<Rightarrow> bool \<Rightarrow> string \<Rightarrow> 'w \<Rightarrow> (string + unit) \<times> 'w"
  io_finishedTransfers :: "customer_reader \<Rightarrow> string \<Rightarrow> 'w \<Rightarrow> (string + listed_transfer list) \<times> 'w"
  io_reserveCharge :: "charge_subject \<Rightarrow> string \<Rightarrow> via \<Rightarrow> 'w \<Rightarrow> (string + charge_outcome) \<times> 'w"
  io_commitCharge :: "charge_subject \<Rightarrow> 'w \<Rightarrow> (string + charge_outcome) \<times> 'w"
  io_readTransferCursors :: "'w \<Rightarrow> (string + (string \<times> string) list) \<times> 'w"
  io_saveTransferCursors :: "(string \<times> string) list \<Rightarrow> 'w \<Rightarrow> (string + unit) \<times> 'w"

record relay_settings =
  st_startBlock :: int
  st_logRangeBlocks :: int
  st_clientId :: string
  st_levels :: receipt_levels
  st_routes :: deployment_routes
  st_starts :: bool
  st_relayAccount :: string
  st_maxPerOrganization :: "nat option"

text \<open>\<open>uncommittedCloses\<close>: the organization charged, by request key.\<close>

type_synonym relay_state = "(string \<times> string) list"

definition createRelayState :: relay_state where "createRelayState = []"

definition MAX_ENTRIES_PER_REPORT :: nat where "MAX_ENTRIES_PER_REPORT = 14"
definition ABSENT_GRACE_MS :: int where "ABSENT_GRACE_MS = 60 * 60 * 1000"

type_synonym ('w, 'a) ract = "('w, relay_event, 'a) act"

subsection \<open>Starts\<close>

definition workflow_of :: "relay_settings \<Rightarrow> request_log \<Rightarrow> workflow option" where
  "workflow_of settings request =
     (let rd = dr_roomDelivery (st_routes settings); jo = dr_jobOutput (st_routes settings) in
      if tl_kind request = TransferKind_Standard then Some Wf_transfer
      else if tl_kind request = TransferKind_RoomDelivery \<and> rd \<noteq> None
          \<or> tl_kind request = TransferKind_Job \<and> rd \<noteq> None \<and> jo \<noteq> None then Some Wf_room
      else None)"

text \<open>The requests of one range, in order. The flag tells that Studio was unavailable and the pass returns.\<close>

fun deliver_logs :: "'w relay_io \<Rightarrow> relay_settings \<Rightarrow> nat \<Rightarrow> request_log list \<Rightarrow> ('w, nat \<times> bool) ract" where
  "deliver_logs io settings delivered [] = return_a (delivered, False)"
| "deliver_logs io settings delivered (request # rest) =
     (case workflow_of settings request of
        None \<Rightarrow> deliver_logs io settings delivered rest
      | Some workflow \<Rightarrow>
          bind_a (call (Ev_deliver request workflow) (io_deliver io request workflow)) (\<lambda>outcome.
            case outcome of
              Studio_unavailable _ \<Rightarrow>
                bind_a (call (Ev_saveCursor (tl_blockNumber request)) (io_saveCursor io (tl_blockNumber request)))
                  (\<lambda>_. return_a (delivered, True))
            | Studio_refused _ _ \<Rightarrow> deliver_logs io settings delivered rest
            | Studio_accepted _ \<Rightarrow> deliver_logs io settings (delivered + 1) rest))"

definition range_end :: "relay_settings \<Rightarrow> int \<Rightarrow> int \<Rightarrow> int" where
  "range_end settings finalized next =
     (if next + st_logRangeBlocks settings - 1 < finalized then next + st_logRangeBlocks settings - 1 else finalized)"

fun starts_loop :: "nat \<Rightarrow> 'w relay_io \<Rightarrow> relay_settings \<Rightarrow> int \<Rightarrow> int \<Rightarrow> nat \<Rightarrow> ('w, nat option) ract" where
  "starts_loop fuel io settings finalized next delivered =
     (if next > finalized then return_a (Some delivered)
      else (case fuel of
          0 \<Rightarrow> return_a None
        | Suc fuel' \<Rightarrow>
            bind_a (call (Ev_transferRequests next (range_end settings finalized next))
                (io_transferRequests io next (range_end settings finalized next))) (\<lambda>logs.
            bind_a (deliver_logs io settings delivered (sort_key (\<lambda>r. (tl_blockNumber r, tl_logIndex r)) logs))
              (\<lambda>(delivered', stopped).
              if stopped then return_a (Some delivered')
              else
                bind_a (call (Ev_saveCursor (range_end settings finalized next + 1))
                    (io_saveCursor io (range_end settings finalized next + 1))) (\<lambda>_.
                starts_loop fuel' io settings finalized (range_end settings finalized next + 1) delivered')))))"

declare starts_loop.simps [simp del]

definition runStarts :: "'w relay_io \<Rightarrow> relay_settings \<Rightarrow> int \<Rightarrow> ('w, nat option) ract" where
  "runStarts io settings finalized =
     bind_a (call Ev_readCursor (io_readCursor io)) (\<lambda>cursor.
       let next = coalesce cursor (st_startBlock settings) in
       starts_loop (nat (finalized - next + 1)) io settings finalized next 0)"

subsection \<open>The allowlist\<close>

definition requester_pairs :: "customer list \<Rightarrow> (customer \<times> requester) list" where
  "requester_pairs customers = concat (map (\<lambda>c. map (Pair c) (cu_requesters c)) customers)"

definition sync_requester :: "'w relay_io \<Rightarrow> nat \<Rightarrow> customer \<times> requester \<Rightarrow> ('w, nat) ract" where
  "sync_requester io changed cr =
     (let requester = snd cr;
          allow = (rq_status requester = Requester_APPROVED \<and> rq_allowlist requester \<noteq> Allowlist_ALLOWED);
          remove = (rq_status requester = Requester_REVOKED \<and> rq_allowlist requester = Allowlist_ALLOWED) in
      if \<not> allow \<and> \<not> remove then return_a changed
      else
        bind_a (attempt
          (bind_a (call (Ev_setRequester (rq_address requester) allow) (io_setRequester io (rq_address requester) allow)) (\<lambda>hash.
             call (Ev_reportAllowlist (rq_id requester) allow hash) (io_reportAllowlist io (rq_id requester) allow hash))))
          (\<lambda>r. return_a (case r of Inr _ \<Rightarrow> changed + 1 | Inl _ \<Rightarrow> changed)))"

definition syncAllowlist :: "'w relay_io \<Rightarrow> customer list \<Rightarrow> ('w, nat) ract" where
  "syncAllowlist io customers = fold_a (sync_requester io) 0 (requester_pairs customers)"

subsection \<open>The cursor never passes a request that was not delivered\<close>

definition answered_by_studio :: "request_log \<Rightarrow> relay_event list \<Rightarrow> bool" where
  "answered_by_studio r l \<longleftrightarrow>
     (\<exists>w outcome. Ev_deliver r w (Inr outcome) \<in> set l \<and> (\<forall>n. outcome \<noteq> Studio_unavailable n))"

text \<open>The requests of a chain that this deployment starts, in the blocks from one up to another.\<close>

definition startable :: "relay_settings \<Rightarrow> request_log set \<Rightarrow> int \<Rightarrow> int \<Rightarrow> request_log set" where
  "startable settings chain from next =
     {r \<in> chain. from \<le> tl_blockNumber r \<and> tl_blockNumber r < next \<and> workflow_of settings r \<noteq> None}"

definition cursor_event_ok :: "relay_settings \<Rightarrow> request_log set \<Rightarrow> int \<Rightarrow> relay_event list \<Rightarrow> relay_event \<Rightarrow> bool" where
  "cursor_event_ok settings chain from pre ev =
     (case ev of Ev_saveCursor n _ \<Rightarrow> \<forall>r \<in> startable settings chain from n. answered_by_studio r pre | _ \<Rightarrow> True)"

abbreviation cursor_safe :: "relay_settings \<Rightarrow> request_log set \<Rightarrow> int \<Rightarrow> relay_event list \<Rightarrow> bool" where
  "cursor_safe settings chain from \<equiv> each (cursor_event_ok settings chain from)"

definition starts_inv :: "relay_settings \<Rightarrow> request_log set \<Rightarrow> int \<Rightarrow> int \<Rightarrow> relay_event list \<Rightarrow> bool" where
  "starts_inv settings chain from next l \<longleftrightarrow>
     cursor_safe settings chain from l \<and> (\<forall>r \<in> startable settings chain from next. answered_by_studio r l)"

lemma answered_grows: "answered_by_studio r l \<Longrightarrow> answered_by_studio r (l @ l')"
  unfolding answered_by_studio_def by auto

lemma starts_inv_event:
  "starts_inv settings chain from next l \<Longrightarrow> (\<And>n r. ev \<noteq> Ev_saveCursor n r) \<Longrightarrow> starts_inv settings chain from next (l @ [ev])"
  by (auto simp: starts_inv_def cursor_event_ok_def answered_grows split: relay_event.split)

text \<open>Inside a range: what is neither answered nor left to do is not startable.\<close>

definition range_inv ::
  "relay_settings \<Rightarrow> request_log set \<Rightarrow> int \<Rightarrow> int \<Rightarrow> request_log list \<Rightarrow> relay_event list \<Rightarrow> bool" where
  "range_inv settings chain from next rest l \<longleftrightarrow>
     cursor_safe settings chain from l
     \<and> (\<forall>r \<in> startable settings chain from next. answered_by_studio r l \<or> r \<in> set rest)"

lemma range_inv_event:
  "range_inv settings chain from next rest l \<Longrightarrow> (\<And>n r. ev \<noteq> Ev_saveCursor n r)
     \<Longrightarrow> range_inv settings chain from next rest (l @ [ev])"
  by (auto simp: range_inv_def cursor_event_ok_def answered_grows split: relay_event.split)

lemma deliver_logs_spec:
  assumes "sorted (map tl_blockNumber rs)" and "\<forall>r \<in> set rs. tl_blockNumber r < next"
  shows "spec (range_inv settings chain from next rs) (deliver_logs io settings delivered rs)
    (\<lambda>(d, stopped) l. cursor_safe settings chain from l \<and> (\<not> stopped \<longrightarrow> starts_inv settings chain from next l))
    (cursor_safe settings chain from)"
  using assms
proof (induction rs arbitrary: delivered)
  case Nil
  show ?case by (auto intro!: spec_return simp: range_inv_def starts_inv_def)
next
  case (Cons r rs)
  have rest: "sorted (map tl_blockNumber rs)" "\<forall>r \<in> set rs. tl_blockNumber r < next"
    and least: "\<And>q. q \<in> set rs \<Longrightarrow> tl_blockNumber r \<le> tl_blockNumber q"
    using Cons.prems by auto
  note IH = Cons.IH [OF rest]
  show ?case
  proof (cases "workflow_of settings r")
    case None
    have "range_inv settings chain from next rs l" if "range_inv settings chain from next (r # rs) l" for l
      using that None by (auto simp: range_inv_def startable_def)
    with None show ?thesis by (auto intro!: spec_weaken [OF IH])
  next
    case (Some w)
    have answered: "range_inv settings chain from next rs (l @ [Ev_deliver r w (Inr outcome)])"
      if "range_inv settings chain from next (r # rs) l" "\<And>n. outcome \<noteq> Studio_unavailable n" for l outcome
    proof -
      have "answered_by_studio r (l @ [Ev_deliver r w (Inr outcome)])"
        using that(2) unfolding answered_by_studio_def by auto
      with range_inv_event [OF that(1), of "Ev_deliver r w (Inr outcome)"] show ?thesis
        by (auto simp: range_inv_def)
    qed
    have stopped: "cursor_safe settings chain from (l @ [Ev_saveCursor (tl_blockNumber r) ans])"
      if "range_inv settings chain from next (r # rs) l" for l ans
    proof -
      have "answered_by_studio q l" if q: "q \<in> startable settings chain from (tl_blockNumber r)" for q
      proof -
        have "q \<in> startable settings chain from next" using q Cons.prems(2) by (auto simp: startable_def)
        moreover have "q \<notin> set (r # rs)" using q least [of q] by (auto simp: startable_def)
        ultimately show ?thesis using \<open>range_inv settings chain from next (r # rs) l\<close> by (auto simp: range_inv_def)
      qed
      then show ?thesis using that by (simp add: range_inv_def cursor_event_ok_def)
    qed
    let ?R = "\<lambda>outcome l. case outcome of
        Studio_unavailable _ \<Rightarrow> range_inv settings chain from next (r # rs) l
      | _ \<Rightarrow> range_inv settings chain from next rs l"
    have dl: "spec (range_inv settings chain from next (r # rs)) (call (Ev_deliver r w) (io_deliver io r w)) ?R
        (cursor_safe settings chain from)"
    proof (rule spec_call)
      fix l outcome assume i: "range_inv settings chain from next (r # rs) l"
      show "?R outcome (l @ [Ev_deliver r w (Inr outcome)])"
        by (cases outcome) (simp_all add: answered [OF i] range_inv_event [OF i])
    qed (simp add: range_inv_def cursor_event_ok_def)
    have ct: "spec (?R outcome) (case outcome of
              Studio_unavailable _ \<Rightarrow>
                bind_a (call (Ev_saveCursor (tl_blockNumber r)) (io_saveCursor io (tl_blockNumber r)))
                  (\<lambda>_. return_a (delivered, True))
            | Studio_refused _ _ \<Rightarrow> deliver_logs io settings delivered rs
            | Studio_accepted _ \<Rightarrow> deliver_logs io settings (delivered + 1) rs)
         (\<lambda>(d, stopped) l. cursor_safe settings chain from l \<and> (\<not> stopped \<longrightarrow> starts_inv settings chain from next l))
         (cursor_safe settings chain from)" for outcome
    proof (cases outcome)
      case (Studio_unavailable n)
      have "spec (?R outcome) (bind_a (call (Ev_saveCursor (tl_blockNumber r)) (io_saveCursor io (tl_blockNumber r)))
             (\<lambda>_. return_a (delivered, True)))
         (\<lambda>(d, stopped) l. cursor_safe settings chain from l \<and> (\<not> stopped \<longrightarrow> starts_inv settings chain from next l))
         (cursor_safe settings chain from)"
        by (rule spec_bind [where R = "\<lambda>_. cursor_safe settings chain from"])
          (auto intro!: spec_call spec_return stopped simp: Studio_unavailable)
      then show ?thesis by (simp add: Studio_unavailable)
    qed (simp_all add: IH)
    show ?thesis unfolding deliver_logs.simps(2) Some option.case by (rule spec_bind [OF dl ct])
  qed
qed

text \<open>The chain answers a range of finalized blocks with exactly its requests there.\<close>

definition reads_chain :: "'w relay_io \<Rightarrow> request_log set \<Rightarrow> bool" where
  "reads_chain io chain \<longleftrightarrow>
     (\<forall>f t w ls w'. io_transferRequests io f t w = (Inr ls, w') \<longrightarrow>
        set ls = {r \<in> chain. f \<le> tl_blockNumber r \<and> tl_blockNumber r \<le> t})"

lemma sorted_blocks: "sorted (map tl_blockNumber (sort_key (\<lambda>r. (tl_blockNumber r, tl_logIndex r)) ls))"
proof -
  have "sorted (map (\<lambda>r. (tl_blockNumber r, tl_logIndex r)) (sort_key (\<lambda>r. (tl_blockNumber r, tl_logIndex r)) ls))"
    by (rule sorted_sort_key)
  then show ?thesis unfolding sorted_map by (rule sorted_wrt_mono_rel [rotated]) (auto simp: less_eq_prod_def)
qed

lemma starts_loop_spec:
  assumes "reads_chain io chain"
  shows "spec (starts_inv settings chain from next) (starts_loop fuel io settings finalized next delivered)
    (\<lambda>_. cursor_safe settings chain from) (cursor_safe settings chain from)"
proof (induction fuel arbitrary: "next" delivered)
  case 0
  show ?case by (subst starts_loop.simps) (auto intro!: spec_return simp: starts_inv_def)
next
  case (Suc fuel)
  show ?case
  proof (cases "next > finalized")
    case True
    then show ?thesis by (subst starts_loop.simps) (auto intro!: spec_return simp: starts_inv_def)
  next
    case False
    let ?to = "range_end settings finalized next"
    let ?sort = "sort_key (\<lambda>r. (tl_blockNumber r, tl_logIndex r))"
    let ?in = "\<lambda>ls. \<forall>r \<in> set ls. tl_blockNumber r < ?to + 1"
    have list: "spec (starts_inv settings chain from next)
        (call (Ev_transferRequests next ?to) (io_transferRequests io next ?to))
        (\<lambda>ls l. ?in ls \<and> range_inv settings chain from (?to + 1) (?sort ls) l) (cursor_safe settings chain from)"
    proof (rule spec_call)
      fix l a w w' assume i: "starts_inv settings chain from next l"
        and c: "io_transferRequests io next ?to w = (Inr a, w')"
      have a: "set a = {r \<in> chain. next \<le> tl_blockNumber r \<and> tl_blockNumber r \<le> ?to}"
        using assms c unfolding reads_chain_def by blast
      have "answered_by_studio r l \<or> r \<in> set a" if "r \<in> startable settings chain from (?to + 1)" for r
        using that i a by (cases "tl_blockNumber r < next") (auto simp: starts_inv_def startable_def)
      then have "range_inv settings chain from (?to + 1) (?sort a) l" using i by (auto simp: range_inv_def starts_inv_def)
      then show "?in a \<and> range_inv settings chain from (?to + 1) (?sort a) (l @ [Ev_transferRequests next ?to (Inr a)])"
        using a range_inv_event by auto
    next
      fix l e assume i: "starts_inv settings chain from next l"
      show "cursor_safe settings chain from (l @ [Ev_transferRequests next ?to (Inl e)])"
        using i by (simp add: starts_inv_def cursor_event_ok_def)
    qed
    have save: "spec (starts_inv settings chain from (?to + 1)) (call (Ev_saveCursor (?to + 1)) (io_saveCursor io (?to + 1)))
        (\<lambda>_. starts_inv settings chain from (?to + 1)) (cursor_safe settings chain from)"
      by (rule spec_call) (auto simp: starts_inv_def cursor_event_ok_def answered_grows)
    have tail: "spec (\<lambda>l. cursor_safe settings chain from l \<and> (\<not> stopped \<longrightarrow> starts_inv settings chain from (?to + 1) l))
        (if stopped then return_a (Some d)
         else bind_a (call (Ev_saveCursor (?to + 1)) (io_saveCursor io (?to + 1)))
           (\<lambda>_. starts_loop fuel io settings finalized (?to + 1) d))
        (\<lambda>_. cursor_safe settings chain from) (cursor_safe settings chain from)" for d stopped
    proof (cases stopped)
      case False
      have "spec (starts_inv settings chain from (?to + 1)) (bind_a (call (Ev_saveCursor (?to + 1)) (io_saveCursor io (?to + 1)))
           (\<lambda>_. starts_loop fuel io settings finalized (?to + 1) d))
        (\<lambda>_. cursor_safe settings chain from) (cursor_safe settings chain from)"
        by (rule spec_bind [OF save Suc.IH])
      then show ?thesis using False by (auto elim: spec_weaken)
    qed (auto intro!: spec_return)
    have body: "spec (\<lambda>l. ?in ls \<and> range_inv settings chain from (?to + 1) (?sort ls) l)
        (bind_a (deliver_logs io settings delivered (?sort ls)) (\<lambda>(d, stopped).
           if stopped then return_a (Some d)
           else bind_a (call (Ev_saveCursor (?to + 1)) (io_saveCursor io (?to + 1)))
             (\<lambda>_. starts_loop fuel io settings finalized (?to + 1) d)))
        (\<lambda>_. cursor_safe settings chain from) (cursor_safe settings chain from)" for ls
    proof (cases "?in ls")
      case True
      then have inset: "\<forall>r \<in> set (?sort ls). tl_blockNumber r < ?to + 1" by simp
      have d: "spec (range_inv settings chain from (?to + 1) (?sort ls)) (bind_a (deliver_logs io settings delivered (?sort ls))
         (\<lambda>(d, stopped).
           if stopped then return_a (Some d)
           else bind_a (call (Ev_saveCursor (?to + 1)) (io_saveCursor io (?to + 1)))
             (\<lambda>_. starts_loop fuel io settings finalized (?to + 1) d)))
        (\<lambda>_. cursor_safe settings chain from) (cursor_safe settings chain from)"
      proof (rule spec_bind [OF deliver_logs_spec [OF sorted_blocks inset]])
        fix ds :: "nat \<times> bool"
        show "spec ((\<lambda>(d, stopped) l. cursor_safe settings chain from l
              \<and> (\<not> stopped \<longrightarrow> starts_inv settings chain from (?to + 1) l)) ds)
          ((\<lambda>(d, stopped).
             if stopped then return_a (Some d)
             else bind_a (call (Ev_saveCursor (?to + 1)) (io_saveCursor io (?to + 1)))
               (\<lambda>_. starts_loop fuel io settings finalized (?to + 1) d)) ds)
          (\<lambda>_. cursor_safe settings chain from) (cursor_safe settings chain from)"
          unfolding case_prod_beta by (rule tail)
      qed
      then show ?thesis by (rule spec_weaken) simp_all
    next
      case False
      then show ?thesis by (simp only: spec_def simp_thms False)
    qed
    show ?thesis
      by (subst starts_loop.simps) (use False spec_bind [OF list body] in simp)
  qed
qed

text \<open>
  The start cursor never passes a request that was not delivered. On a chain whose finalized blocks
  answer a range with exactly its requests, however Studio and the cursor file behave and wherever an operation throws, every cursor the pass saves has behind it, from the block the pass started at, only
  requests that Studio had accepted or refused before that save, or that this deployment does not start.
\<close>

theorem starts_cursor_safe:
  assumes "reads_chain io chain" and "io_readCursor io w = (Inr cursor, w1)"
    and "runStarts io settings finalized (w, []) = (r, (w', l))"
    and "l = pre @ Ev_saveCursor n saved # post"
  shows "\<forall>q \<in> startable settings chain (coalesce cursor (st_startBlock settings)) n. answered_by_studio q pre"
proof -
  let ?from = "coalesce cursor (st_startBlock settings)"
  have run: "starts_loop (nat (finalized - ?from + 1)) io settings finalized ?from 0 (w1, [] @ [Ev_readCursor (Inr cursor)])
      = (r, (w', l))"
    using assms(2,3) by (simp add: runStarts_def bind_a_def call_def Let_def)
  have "starts_inv settings chain ?from ?from ([] @ [Ev_readCursor (Inr cursor)])"
    unfolding starts_inv_def each_snoc by (auto simp: startable_def cursor_event_ok_def)
  from spec_result [OF starts_loop_spec [OF assms(1)] this run]
  have "cursor_safe settings chain ?from l" by (simp split: sum.splits)
  from eachD [OF this assms(4)] show ?thesis by (simp add: cursor_event_ok_def)
qed

text \<open>An outside that does nothing, on which the examples build.\<close>

definition quiet_relay :: "unit relay_io" where
  "quiet_relay =
     \<lparr>io_finalizedBlock = (\<lambda>w. (Inr 0, w)), io_readCursor = (\<lambda>w. (Inr None, w)),
      io_transferRequests = (\<lambda>_ _ w. (Inr [], w)), io_deliver = (\<lambda>_ _ w. (Inr (Studio_unavailable 0), w)),
      io_saveCursor = (\<lambda>_ w. (Inr (), w)), io_openRequests = (\<lambda>w. (Inr [], w)),
      io_findPublication = (\<lambda>_ _ w. (Inr Lookup_unavailable, w)), io_observe = (\<lambda>_ _ w. (Inr Obs_unavailable, w)),
      io_writeReport = (\<lambda>_ w. (Inr (''0x1'', []), w)), io_customers = (\<lambda>w. (Inr [], w)),
      io_setRequester = (\<lambda>_ _ w. (Inr ''0x2'', w)), io_cancelRequest = (\<lambda>_ w. (Inr ''0x3'', w)),
      io_reportAllowlist = (\<lambda>_ _ _ w. (Inr (), w)), io_finishedTransfers = (\<lambda>_ _ w. (Inr [], w)),
      io_reserveCharge = (\<lambda>_ _ _ w. (Inr Charge_held, w)), io_commitCharge = (\<lambda>_ w. (Inr Charge_charged, w)),
      io_readTransferCursors = (\<lambda>w. (Inr [], w)), io_saveTransferCursors = (\<lambda>_ w. (Inr (), w))\<rparr>"

definition demo_settings :: relay_settings where
  "demo_settings =
     \<lparr>st_startBlock = 1, st_logRangeBlocks = 2, st_clientId = ''c'', st_levels = receiptLevels False,
      st_routes = \<lparr>dr_roomDelivery = None, dr_jobOutput = None\<rparr>, st_starts = True, st_relayAccount = ''0xb'',
      st_maxPerOrganization = None\<rparr>"

definition demo_log :: "int \<Rightarrow> int \<Rightarrow> request_log" where
  "demo_log block kind =
     \<lparr>tl_requestId = ''0x1'', tl_requester = ''0xa'', tl_kind = kind, tl_input = [], tl_blockNumber = block,
      tl_logIndex = 0, tl_transactionHash = ''0x''\<rparr>"

definition demo_chain :: "request_log list" where
  "demo_chain = [demo_log 3 1, demo_log 1 1, demo_log 2 2]"

text \<open>Studio accepts the request of block 1 and is away for the one of block 3.\<close>

definition demo_relay :: "unit relay_io" where
  "demo_relay = quiet_relay
     \<lparr>io_transferRequests := (\<lambda>f t w. (Inr (filter (\<lambda>r. f \<le> tl_blockNumber r \<and> tl_blockNumber r \<le> t) demo_chain), w)),
      io_deliver := (\<lambda>r _ w. (Inr (if tl_blockNumber r = 1 then Studio_accepted None else Studio_unavailable 503), w))\<rparr>"

theorem starts_cursor_safe_witness:
  "\<exists>pre. snd (snd (runStarts demo_relay demo_settings 4 ((), []))) = pre @ [Ev_saveCursor 3 (Inr ())]
     \<and> answered_by_studio (demo_log 1 1) pre"
proof -
  let ?l = "snd (snd (runStarts demo_relay demo_settings 4 ((), [])))"
  let ?pre = "butlast ?l"
  have c: "reads_chain demo_relay (set demo_chain)" by (auto simp: reads_chain_def demo_relay_def)
  have rc: "io_readCursor demo_relay () = (Inr None, ())" by (simp add: demo_relay_def quiet_relay_def)
  have run: "runStarts demo_relay demo_settings 4 ((), []) = (fst (runStarts demo_relay demo_settings 4 ((), [])), ((), ?l))"
    by (simp add: prod_eq_iff)
  have last: "?l = ?pre @ Ev_saveCursor 3 (Inr ()) # []" by code_simp
  have "demo_log 1 1 \<in> startable demo_settings (set demo_chain) 1 3"
    by (simp add: startable_def demo_chain_def demo_log_def workflow_of_def TransferKind_Standard_def Let_def)
  then show ?thesis
    using starts_cursor_safe [OF c rc run last] last by (auto simp: demo_settings_def)
qed

text \<open>
  The start loop ends: with a range of at least one block, a pass covers what was finalized when it
  began and returns or throws; the fuel, one turn per block, is never exhausted.
\<close>

theorem runStarts_terminates:
  assumes "1 \<le> st_logRangeBlocks settings"
  shows "fst (runStarts io settings finalized s) \<noteq> Inr None"
proof -
  have loop: "spec (\<lambda>_. True) (starts_loop fuel io settings finalized next delivered) (\<lambda>a _. \<exists>n. a = Some n) (\<lambda>_. True)"
    if "finalized - next < int fuel" for fuel "next" delivered
    using that
  proof (induction fuel arbitrary: "next" delivered)
    case 0
    then show ?case by (subst starts_loop.simps) (auto intro: spec_return)
  next
    case (Suc fuel)
    let ?to = "range_end settings finalized next"
    have "finalized - (?to + 1) < int fuel \<or> next > finalized"
      using Suc.prems assms by (auto simp: range_end_def)
    then show ?case
    proof
      assume less: "finalized - (?to + 1) < int fuel"
      have any: "spec (\<lambda>_. True) m (\<lambda>_ _. True) (\<lambda>_. True)" for m :: "('a, 'b) ract"
        by (auto simp: spec_def split: prod.split sum.split)
      show ?thesis
        by (subst starts_loop.simps)
          (auto intro!: spec_return spec_bind [OF any] Suc.IH [OF less] split: prod.split)
    qed (subst starts_loop.simps, auto intro: spec_return)
  qed
  obtain a w where rc: "io_readCursor io (fst s) = (a, w)" by (cases "io_readCursor io (fst s)") auto
  show ?thesis
  proof (cases a)
    case (Inr cursor)
    let ?next = "coalesce cursor (st_startBlock settings)"
    obtain r w' l' where run: "starts_loop (nat (finalized - ?next + 1)) io settings finalized ?next 0
        (w, snd s @ [Ev_readCursor (Inr cursor)]) = (r, (w', l'))" by (metis prod.exhaust)
    have "finalized - ?next < int (nat (finalized - ?next + 1))" by simp
    from spec_result [OF loop [OF this] _ run] have "r \<noteq> Inr None" by (auto split: sum.splits)
    then show ?thesis using run rc Inr by (simp add: runStarts_def bind_a_def call_def Let_def)
  qed (use rc in \<open>simp add: runStarts_def bind_a_def call_def\<close>)
qed

theorem runStarts_terminates_witness: "fst (runStarts demo_relay demo_settings 4 ((), [])) \<noteq> Inr None"
  by (rule runStarts_terminates) (simp add: demo_settings_def)

end
