(* ===== verification/RelayReceipts.thy ===== *)
theory RelayReceipts
  imports Relay
begin

text \<open>
  The receipt pass of the relay (\<open>runReceipts\<close> of \<open>packages/cre/relay/relay.ts\<close>), with what holds of the charges it
  makes.
\<close>

record pending_item =
  pi_subject :: subject
  pi_owner :: owner
  pi_observation :: "observation option"
  pi_request :: "open_request option"

record planned_item =
  pl_entry :: report_entry
  pl_owner :: owner
  pl_key :: string

record unanswerable_item =
  ua_request :: open_request
  ua_organizationId :: string
  ua_reason :: string

definition recordedKey :: "charge_subject \<Rightarrow> string" where
  "recordedKey subject =
     (case subject of
        Charge_transfer t \<Rightarrow> ''transfer:'' @ to_lower t
      | Charge_room k \<Rightarrow> ''room:'' @ to_lower k
      | Charge_request k \<Rightarrow> ''room:'' @ to_lower k)"

fun chargeSubjectOf :: "codec \<Rightarrow> report_entry \<Rightarrow> string + charge_subject option" where
  "chargeSubjectOf cd (Entry_standard e) =
     (case bytes16ToTransferId (se_transferId e) of Inl err \<Rightarrow> Inl err | Inr t \<Rightarrow> Inr (Some (Charge_transfer t)))"
| "chargeSubjectOf cd (Entry_room e) =
     Inr (Some (Charge_room (roomReceiptKey cd (re_room e) (re_channel e) (re_publication e))))"
| "chargeSubjectOf cd _ = Inr None"

fun readerOf :: "owner \<Rightarrow> customer_reader option" where
  "readerOf Beam_owner = None"
| "readerOf (Customer_owner _ r _) = Some r"

subsection \<open>What is open\<close>

text \<open>A later organization with the same address takes it over, as in a \<open>Map\<close>.\<close>

definition by_address :: "requester_status \<Rightarrow> customer list \<Rightarrow> (string \<times> customer) list" where
  "by_address status customers =
     foldl (\<lambda>m (c, r). if rq_status r = status then amap_set (rq_address r) c m else m) [] (requester_pairs customers)"

datatype request_class =
  Unanswerable string string | Stranger | Owned owner

definition classify :: "relay_settings \<Rightarrow> customer list \<Rightarrow> open_request \<Rightarrow> request_class" where
  "classify settings customers request =
     (let requester = to_lower (or_requester request) in
      if st_maxPerOrganization settings \<noteq> None \<and> requester \<noteq> to_lower (st_relayAccount settings) then
        (case map_of (by_address Requester_APPROVED customers) requester of
           None \<Rightarrow>
             (case map_of (by_address Requester_REVOKED customers) requester of
                Some revoked \<Rightarrow> Unanswerable (cu_organizationId revoked) ''its address is no longer approved''
              | None \<Rightarrow> Stranger)
         | Some customer \<Rightarrow>
             if or_kind request = RequestKind_Transfer then
               Unanswerable (cu_organizationId customer) ''it asks to start a transfer, which this relay never does''
             else Owned (Customer_owner (cu_organizationId customer) (cu_reader customer)
               (Via_requester (or_requester request))))
      else Owned Beam_owner)"

type_synonym pending_map = "(string \<times> pending_item) list"

definition add_open ::
  "(string \<Rightarrow> 8 word list) \<Rightarrow> relay_settings \<Rightarrow> customer list \<Rightarrow> pending_map \<times> unanswerable_item list \<Rightarrow> open_request
     \<Rightarrow> string + pending_map \<times> unanswerable_item list" where
  "add_open sha256 settings customers st request =
     (case classify settings customers request of
        Unanswerable org reason \<Rightarrow>
          Inr (fst st, snd st @ [\<lparr>ua_request = request, ua_organizationId = org, ua_reason = reason\<rparr>])
      | Stranger \<Rightarrow> Inr st
      | Owned owner \<Rightarrow>
          (case subjectForOpenRequest sha256 (st_clientId settings) (st_routes settings) request of
             Inl e \<Rightarrow> Inl e
           | Inr None \<Rightarrow> Inr st
           | Inr (Some subject) \<Rightarrow>
               Inr (keep_item pi_subject (fst st)
                   \<lparr>pi_subject = subject, pi_owner = owner, pi_observation = None,
                    pi_request = (if owner = Beam_owner then None else Some request)\<rparr>, snd st)))"

fun add_all_open ::
  "(string \<Rightarrow> 8 word list) \<Rightarrow> relay_settings \<Rightarrow> customer list \<Rightarrow> pending_map \<times> unanswerable_item list
     \<Rightarrow> open_request list \<Rightarrow> string + pending_map \<times> unanswerable_item list" where
  "add_all_open sha256 settings customers st [] = Inr st"
| "add_all_open sha256 settings customers st (r # rs) =
     (case add_open sha256 settings customers st r of
        Inl e \<Rightarrow> Inl e | Inr st' \<Rightarrow> add_all_open sha256 settings customers st' rs)"

text \<open>\<open>unseen\<close>: a customer's request for something its key cannot see, once given time to appear.\<close>

definition unseen :: "int \<Rightarrow> pending_item \<Rightarrow> unanswerable_item list \<Rightarrow> unanswerable_item list" where
  "unseen now item us =
     (case (pi_owner item, pi_request item) of
        (Customer_owner org _ _, Some request) \<Rightarrow>
          if now - or_openedAt request * 1000 < ABSENT_GRACE_MS then us
          else us @ [\<lparr>ua_request = request, ua_organizationId = org,
            ua_reason = ''its key cannot see '' @ subjectKey (pi_subject item)\<rparr>]
      | _ \<Rightarrow> us)"

subsection \<open>What organizations finished\<close>

record listing =
  ls_customer :: customer
  ls_cursor :: string
  ls_transfers :: "(listed_transfer \<times> bool) list"

definition owed_transfers :: "nat \<Rightarrow> customer \<Rightarrow> listed_transfer list \<Rightarrow> (listed_transfer \<times> bool) list" where
  "owed_transfers limit customer listed =
     map (\<lambda>t. (t, createdDuringPeriods (time_of (lt_createdAt t)) (cu_periods customer)))
       (take limit (sort_key (\<lambda>t. time_of (lt_completedAt t)) listed))"

definition listed_item :: "customer \<Rightarrow> listed_transfer \<Rightarrow> pending_item" where
  "listed_item customer t =
     \<lparr>pi_subject = Transfer_subject (lt_id t) None,
      pi_owner = Customer_owner (cu_organizationId customer) (cu_reader customer) (Via_every_transfer (lt_createdAt t)),
      pi_observation = Some (lt_observation t), pi_request = None\<rparr>"

definition add_listing ::
  "nat \<Rightarrow> customer \<Rightarrow> string \<Rightarrow> pending_map \<times> listing list \<Rightarrow> listed_transfer list \<Rightarrow> pending_map \<times> listing list" where
  "add_listing limit customer cursor st listed =
     (let transfers = owed_transfers limit customer listed in
      (foldl (keep_item pi_subject) (fst st) (map (listed_item customer \<circ> fst) (filter snd transfers)),
       snd st @ [\<lparr>ls_customer = customer, ls_cursor = cursor, ls_transfers = transfers\<rparr>]))"

definition list_customer ::
  "'w relay_io \<Rightarrow> nat \<Rightarrow> int \<Rightarrow> (string \<times> string) list \<Rightarrow> pending_map \<times> listing list \<Rightarrow> customer
     \<Rightarrow> ('w, pending_map \<times> listing list) ract" where
  "list_customer io limit now cursors st customer =
     (if cu_periods customer = [] \<or> \<not> listsTransfers customer now then return_a st
      else
        (let cursor = coalesce (map_of cursors (cu_organizationId customer)) (initialTransferCursor customer) in
         bind_a (attempt (call (Ev_finishedTransfers (cu_reader customer) cursor)
             (io_finishedTransfers io (cu_reader customer) cursor))) (\<lambda>r.
           return_a (case r of Inl _ \<Rightarrow> st | Inr listed \<Rightarrow> add_listing limit customer cursor st listed))))"

subsection \<open>Looking up and holding credits\<close>

record lookup_state =
  lk_planned :: "planned_item list"
  lk_settled :: "string list"
  lk_unanswerable :: "unanswerable_item list"

definition find_publication :: "'w relay_io \<Rightarrow> subject \<Rightarrow> customer_reader option \<Rightarrow> ('w, publication_lookup) ract" where
  "find_publication io subject reader = call (Ev_findPublication subject reader) (io_findPublication io subject reader)"

definition observe :: "'w relay_io \<Rightarrow> subject \<Rightarrow> customer_reader option \<Rightarrow> ('w, observation) ract" where
  "observe io subject reader = call (Ev_observe subject reader) (io_observe io subject reader)"

definition look_up_job ::
  "codec \<Rightarrow> 'w relay_io \<Rightarrow> relay_settings \<Rightarrow> pending_item \<Rightarrow> subject \<times> subject \<Rightarrow> lookup_state
     \<Rightarrow> ('w, lookup_state) ract" where
  "look_up_job cd io settings item lookups st =
     (let reader = readerOf (pi_owner item);
          room_of = (\<lambda>lookup publication. case lookup of
             RoomRequest_subject room channel _ _ \<Rightarrow> Room_subject room channel publication None | s \<Rightarrow> s) in
      bind_a (find_publication io (fst lookups) reader) (\<lambda>input.
      bind_a (case input of Lookup_found _ \<Rightarrow> find_publication io (snd lookups) reader | _ \<Rightarrow> return_a input) (\<lambda>output.
        case (input, output) of
          (Lookup_found inputId, Lookup_found outputId) \<Rightarrow>
            bind_a (observe io (room_of (fst lookups) inputId) reader) (\<lambda>observedInput.
            bind_a (observe io (room_of (snd lookups) outputId) reader) (\<lambda>observedOutput.
            bind_a (lift_a (jobEntriesFor cd (pi_subject item) (inputId, outputId) (observedInput, observedOutput)
                (st_levels settings))) (\<lambda>entries.
              return_a (case entries of
                  None \<Rightarrow> st
                | Some es \<Rightarrow> st\<lparr>lk_planned := lk_planned st
                    @ map (\<lambda>e. \<lparr>pl_entry = e, pl_owner = pi_owner item, pl_key = subjectKey (pi_subject item)\<rparr>) es\<rparr>))))
        | _ \<Rightarrow> return_a st)))"

definition hold_and_plan ::
  "codec \<Rightarrow> 'w relay_io \<Rightarrow> owner \<Rightarrow> subject \<Rightarrow> report_entry \<Rightarrow> lookup_state \<Rightarrow> ('w, lookup_state) ract" where
  "hold_and_plan cd io owner subject entry st =
     (let plan = st\<lparr>lk_planned := lk_planned st
            @ [\<lparr>pl_entry = entry, pl_owner = owner, pl_key = subjectKey subject\<rparr>]\<rparr> in
      case owner of
        Beam_owner \<Rightarrow> return_a plan
      | Customer_owner org _ via \<Rightarrow>
          bind_a (lift_a (chargeSubjectOf cd entry)) (\<lambda>charge.
            case charge of
              None \<Rightarrow> return_a plan
            | Some c \<Rightarrow>
                bind_a (call (Ev_reserveCharge c org via) (io_reserveCharge io c org via)) (\<lambda>held.
                  return_a (case held of
                      Charge_held \<Rightarrow> plan
                    | Charge_charged \<Rightarrow> st\<lparr>lk_settled := subjectKey subject # lk_settled st\<rparr>
                    | Charge_released \<Rightarrow> st\<lparr>lk_settled := subjectKey subject # lk_settled st\<rparr>
                    | _ \<Rightarrow> st))))"

definition observe_and_plan ::
  "codec \<Rightarrow> 'w relay_io \<Rightarrow> relay_settings \<Rightarrow> int \<Rightarrow> pending_item \<Rightarrow> subject \<Rightarrow> lookup_state
     \<Rightarrow> ('w, lookup_state) ract" where
  "observe_and_plan cd io settings now item subject st =
     bind_a (case pi_observation item of
         Some o1 \<Rightarrow> return_a o1 | None \<Rightarrow> observe io subject (readerOf (pi_owner item))) (\<lambda>observation.
     bind_a (lift_a (reportEntryFor cd subject observation (st_levels settings))) (\<lambda>entry.
       case entry of
         Some e \<Rightarrow> hold_and_plan cd io (pi_owner item) subject e st
       | None \<Rightarrow>
           return_a
             (if observation = Obs_absent then st\<lparr>lk_unanswerable := unseen now item (lk_unanswerable st)\<rparr>
              else if observation \<noteq> Obs_pending \<and> pi_observation item \<noteq> None then
                st\<lparr>lk_settled := subjectKey subject # lk_settled st\<rparr>
              else st)))"

definition look_up ::
  "codec \<Rightarrow> 'w relay_io \<Rightarrow> relay_settings \<Rightarrow> int \<Rightarrow> lookup_state \<Rightarrow> pending_item \<Rightarrow> ('w, lookup_state) ract" where
  "look_up cd io settings now st item =
     (case pi_subject item of
        Job_subject _ _ _ _ _ _ \<Rightarrow> look_up_job cd io settings item (the (jobLookups (pi_subject item))) st
      | RoomRequest_subject _ _ _ _ \<Rightarrow>
          bind_a (find_publication io (pi_subject item) (readerOf (pi_owner item))) (\<lambda>lookup.
            case roomSubjectForLookup (pi_subject item) lookup of
              None \<Rightarrow>
                return_a (if lookup = Lookup_absent
                  then st\<lparr>lk_unanswerable := unseen now item (lk_unanswerable st)\<rparr> else st)
            | Some found \<Rightarrow> observe_and_plan cd io settings now item found st)
      | s \<Rightarrow> observe_and_plan cd io settings now item s st)"

subsection \<open>Writing and settling\<close>

function batches :: "'a list \<Rightarrow> 'a list list" where
  "batches xs = (if xs = [] then [] else take MAX_ENTRIES_PER_REPORT xs # batches (drop MAX_ENTRIES_PER_REPORT xs))"
  by pat_completeness auto
termination by (relation "measure length") (auto simp: MAX_ENTRIES_PER_REPORT_def)

declare batches.simps [simp del]

definition commit_planned ::
  "codec \<Rightarrow> 'w relay_io \<Rightarrow> string list \<Rightarrow> planned_item \<Rightarrow> ('w, string list) ract" where
  "commit_planned cd io settled p =
     (case pl_owner p of
        Beam_owner \<Rightarrow> return_a settled
      | Customer_owner _ _ _ \<Rightarrow>
          bind_a (lift_a (chargeSubjectOf cd (pl_entry p))) (\<lambda>charge.
            case charge of
              None \<Rightarrow> return_a settled
            | Some c \<Rightarrow>
                bind_a (call (Ev_commitCharge c) (io_commitCharge io c)) (\<lambda>committed.
                  return_a (if committed = Charge_charged then pl_key p # settled else settled))))"

fun write_batches ::
  "codec \<Rightarrow> 'w relay_io \<Rightarrow> nat \<times> string list \<Rightarrow> planned_item list list \<Rightarrow> ('w, nat \<times> string list) ract" where
  "write_batches cd io st [] = return_a st"
| "write_batches cd io st (batch # rest) =
     bind_a (attempt (bind_a (lift_a (encodeEntries cd (map pl_entry batch))) (\<lambda>report.
         call (Ev_writeReport report) (io_writeReport io report)))) (\<lambda>written.
       case written of
         Inl _ \<Rightarrow> return_a st
       | Inr _ \<Rightarrow>
           bind_a (fold_a (commit_planned cd io) (snd st) batch) (\<lambda>settled.
             write_batches cd io (fst st + length batch, settled) rest))"

definition transfer_done :: "string list \<Rightarrow> listed_transfer \<times> bool \<Rightarrow> string \<times> bool" where
  "transfer_done settled = (\<lambda>(t, owed). (lt_completedAt t,
     \<not> owed \<or> subjectKey (Transfer_subject (lt_id t) None) \<in> set settled))"

fun move_cursors :: "string list \<Rightarrow> (string \<times> string) list \<Rightarrow> listing list \<Rightarrow> string + (string \<times> string) list" where
  "move_cursors settled cursors [] = Inr cursors"
| "move_cursors settled cursors (l # rest) =
     (case nextTransferCursor (ls_cursor l) (map (transfer_done settled) (ls_transfers l)) of
        Inl e \<Rightarrow> Inl e
      | Inr c \<Rightarrow> move_cursors settled (amap_set (cu_organizationId (ls_customer l)) c cursors) rest)"

definition save_cursors ::
  "'w relay_io \<Rightarrow> string list \<Rightarrow> (string \<times> string) list \<Rightarrow> listing list \<Rightarrow> ('w, unit) ract" where
  "save_cursors io settled cursors listings =
     (if listings = [] then return_a ()
      else bind_a (lift_a (move_cursors settled cursors listings)) (\<lambda>moved.
        call (Ev_saveTransferCursors moved) (io_saveTransferCursors io moved)))"

definition write_phase ::
  "codec \<Rightarrow> 'w relay_io \<Rightarrow> (string \<times> string) list \<Rightarrow> listing list \<Rightarrow> lookup_state
     \<Rightarrow> ('w, nat \<times> unanswerable_item list) ract" where
  "write_phase cd io cursors listings st =
     bind_a (write_batches cd io (0, lk_settled st) (batches (lk_planned st))) (\<lambda>(recorded, settled).
     bind_a (save_cursors io settled cursors listings) (\<lambda>_. return_a (recorded, lk_unanswerable st)))"

definition list_phase ::
  "'w relay_io \<Rightarrow> relay_settings \<Rightarrow> customer list \<Rightarrow> int \<Rightarrow> (string \<times> string) list \<Rightarrow> pending_map
     \<Rightarrow> ('w, pending_map \<times> listing list) ract" where
  "list_phase io settings customers now cursors pending =
     (case st_maxPerOrganization settings of
        None \<Rightarrow> return_a (pending, [])
      | Some limit \<Rightarrow> fold_a (list_customer io limit now cursors) (pending, []) customers)"

definition read_cursors :: "'w relay_io \<Rightarrow> relay_settings \<Rightarrow> ('w, (string \<times> string) list) ract" where
  "read_cursors io settings =
     (case st_maxPerOrganization settings of
        None \<Rightarrow> return_a [] | Some _ \<Rightarrow> call Ev_readTransferCursors (io_readTransferCursors io))"

definition runReceipts ::
  "codec \<Rightarrow> (string \<Rightarrow> 8 word list) \<Rightarrow> 'w relay_io \<Rightarrow> relay_settings \<Rightarrow> customer list \<Rightarrow> int
     \<Rightarrow> ('w, nat \<times> unanswerable_item list) ract" where
  "runReceipts cd sha256 io settings customers now =
     bind_a (call Ev_openRequests (io_openRequests io)) (\<lambda>requests.
     bind_a (lift_a (add_all_open sha256 settings customers ([], []) requests)) (\<lambda>opened.
     bind_a (read_cursors io settings) (\<lambda>cursors.
     bind_a (list_phase io settings customers now cursors (fst opened)) (\<lambda>listed.
     bind_a (fold_a (look_up cd io settings now)
         \<lparr>lk_planned = [], lk_settled = [], lk_unanswerable = snd opened\<rparr> (map snd (fst listed))) (\<lambda>st.
       write_phase cd io cursors (snd listed) st)))))"

subsection \<open>What a charge rests on\<close>

definition held :: "charge_subject \<Rightarrow> relay_event list \<Rightarrow> bool" where
  "held c l \<longleftrightarrow> (\<exists>org via. Ev_reserveCharge c org via (Inr Charge_held) \<in> set l)"

text \<open>A report that was mined, of at most fourteen entries, one of which records the receipt charged for.\<close>

definition recorded_by :: "codec \<Rightarrow> charge_subject \<Rightarrow> relay_event list \<Rightarrow> bool" where
  "recorded_by cd c l \<longleftrightarrow>
     (\<exists>entries report written pre post. l = pre @ Ev_writeReport report (Inr written) # post
        \<and> encodeEntries cd entries = Inr report \<and> length entries \<le> 14
        \<and> (\<exists>e \<in> set entries. chargeSubjectOf cd e = Inr (Some c)) \<and> held c pre)"

text \<open>The parameter \<open>paid\<close> says for which subject, organization and \<open>via\<close> a credit may be held.\<close>

type_synonym charge_basis = "charge_subject \<Rightarrow> string \<Rightarrow> via \<Rightarrow> bool"

definition receipt_event_ok :: "codec \<Rightarrow> charge_basis \<Rightarrow> relay_event list \<Rightarrow> relay_event \<Rightarrow> bool" where
  "receipt_event_ok cd paid pre ev =
     (case ev of
        Ev_commitCharge c _ \<Rightarrow> recorded_by cd c pre
      | Ev_reserveCharge c org via _ \<Rightarrow> paid c org via
      | Ev_writeReport report _ \<Rightarrow> \<exists>entries. encodeEntries cd entries = Inr report \<and> length entries \<le> 14
      | Ev_cancelRequest _ _ \<Rightarrow> False
      | _ \<Rightarrow> True)"

abbreviation receipts_ok :: "codec \<Rightarrow> charge_basis \<Rightarrow> relay_event list \<Rightarrow> bool" where
  "receipts_ok cd paid \<equiv> each (receipt_event_ok cd paid)"

lemma held_grows: "held c l \<Longrightarrow> held c (l @ l')"
  unfolding held_def by auto

lemma recorded_grows: "recorded_by cd c l \<Longrightarrow> recorded_by cd c (l @ l')"
  unfolding recorded_by_def by fastforce

lemma batches_length: "b \<in> set (batches xs) \<Longrightarrow> length b \<le> 14 \<and> set b \<subseteq> set xs"
proof (induction xs rule: batches.induct)
  case (1 xs)
  then show ?case
    by (subst (asm) (2) batches.simps) (auto simp: MAX_ENTRIES_PER_REPORT_def split: if_splits dest: in_set_takeD in_set_dropD)
qed

text \<open>A planned entry of a customer that is charged for has its credit held.\<close>

definition plan_held :: "codec \<Rightarrow> planned_item list \<Rightarrow> relay_event list \<Rightarrow> bool" where
  "plan_held cd ps l \<longleftrightarrow>
     (\<forall>p \<in> set ps. \<forall>c. pl_owner p \<noteq> Beam_owner \<and> chargeSubjectOf cd (pl_entry p) = Inr (Some c) \<longrightarrow> held c l)"

lemma plan_held_grows: "plan_held cd ps l \<Longrightarrow> plan_held cd ps (l @ l')"
  unfolding plan_held_def using held_grows by blast

definition commit_inv ::
  "codec \<Rightarrow> charge_basis \<Rightarrow> planned_item list \<Rightarrow> planned_item list \<Rightarrow> relay_event list \<Rightarrow> bool" where
  "commit_inv cd paid ps batch l \<longleftrightarrow>
     receipts_ok cd paid l \<and> plan_held cd ps l
     \<and> (\<forall>q \<in> set batch. \<forall>c. pl_owner q \<noteq> Beam_owner \<and> chargeSubjectOf cd (pl_entry q) = Inr (Some c)
          \<longrightarrow> recorded_by cd c l)"

lemma commit_inv_event:
  "commit_inv cd paid ps batch l \<Longrightarrow> receipt_event_ok cd paid l ev \<Longrightarrow> commit_inv cd paid ps batch (l @ [ev])"
  by (auto simp: commit_inv_def plan_held_grows recorded_grows)

lemma commit_planned_spec:
  assumes "p \<in> set batch"
  shows "spec (commit_inv cd paid ps batch) (commit_planned cd io settled p) (\<lambda>_. commit_inv cd paid ps batch)
    (receipts_ok cd paid)"
proof (cases "pl_owner p")
  case Beam_owner
  then show ?thesis by (simp add: commit_planned_def spec_return)
next
  case (Customer_owner org reader via)
  show ?thesis unfolding commit_planned_def Customer_owner owner.case
  proof (rule spec_bind_lift)
    fix charge assume ch: "chargeSubjectOf cd (pl_entry p) = Inr charge"
    show "spec (commit_inv cd paid ps batch)
       (case charge of None \<Rightarrow> return_a settled
        | Some c \<Rightarrow> bind_a (call (Ev_commitCharge c) (io_commitCharge io c)) (\<lambda>committed.
              return_a (if committed = Charge_charged then pl_key p # settled else settled)))
       (\<lambda>_. commit_inv cd paid ps batch) (receipts_ok cd paid)"
    proof (cases charge)
      case (Some c)
      have ev: "commit_inv cd paid ps batch (l @ [Ev_commitCharge c r])" if "commit_inv cd paid ps batch l" for l r
        by (rule commit_inv_event [OF that])
          (use that ch Some assms Customer_owner in \<open>auto simp: commit_inv_def receipt_event_ok_def\<close>)
      show ?thesis unfolding Some option.case
        by (intro spec_then_return spec_call_inv ev) (simp_all add: commit_inv_def)
    qed (simp add: spec_return)
  qed (simp add: commit_inv_def)
qed

text \<open>Writing: every batch goes into one report, and its charges commit only after it.\<close>

lemma write_batches_spec:
  assumes "\<And>b. b \<in> set bs \<Longrightarrow> length b \<le> 14 \<and> set b \<subseteq> set ps"
  shows "spec (\<lambda>l. receipts_ok cd paid l \<and> plan_held cd ps l) (write_batches cd io st bs)
    (\<lambda>_. receipts_ok cd paid) (receipts_ok cd paid)"
  using assms
proof (induction bs arbitrary: st)
  case Nil
  show ?case by (auto intro!: spec_return)
next
  case (Cons b bs)
  let ?I = "\<lambda>l. receipts_ok cd paid l \<and> plan_held cd ps l"
  let ?send = "bind_a (lift_a (encodeEntries cd (map pl_entry b))) (\<lambda>report.
         call (Ev_writeReport report) (io_writeReport io report))"
  have b: "length b \<le> 14" "set b \<subseteq> set ps" using Cons.prems [of b] by simp_all
  have rest: "spec ?I (write_batches cd io st' bs) (\<lambda>_. receipts_ok cd paid) (receipts_ok cd paid)" for st'
    using Cons.IH Cons.prems by simp
  have ok: "receipt_event_ok cd paid l (Ev_writeReport report r)" if "encodeEntries cd (map pl_entry b) = Inr report" for l report r
    unfolding receipt_event_ok_def relay_event.case using that b(1) by (intro exI [of _ "map pl_entry b"]) simp
  have mined: "commit_inv cd paid ps b (l @ [Ev_writeReport report (Inr w)])"
    if i: "?I l" and enc: "encodeEntries cd (map pl_entry b) = Inr report" for l report w
  proof -
    have "recorded_by cd c (l @ [Ev_writeReport report (Inr w)])"
      if q: "q \<in> set b" "pl_owner q \<noteq> Beam_owner" "chargeSubjectOf cd (pl_entry q) = Inr (Some c)" for q c
    proof -
      have "held c l" using i q b(2) unfolding plan_held_def by blast
      then show ?thesis unfolding recorded_by_def using enc b(1) q
        by (intro exI [of _ "map pl_entry b"] exI [of _ report] exI [of _ w] exI [of _ l] exI [of _ "[]"]) auto
    qed
    then show ?thesis using i ok [OF enc] by (auto simp: commit_inv_def plan_held_grows)
  qed
  have written: "spec ?I (attempt ?send)
      (\<lambda>r l. case r of Inl _ \<Rightarrow> receipts_ok cd paid l | Inr _ \<Rightarrow> commit_inv cd paid ps b l) (receipts_ok cd paid)"
    by (rule spec_attempt, rule spec_bind_lift, rule spec_call) (use mined ok in auto)
  have tail: "spec (commit_inv cd paid ps b) (bind_a (fold_a (commit_planned cd io) (snd st) b) (\<lambda>settled.
             write_batches cd io (fst st + length b, settled) bs)) (\<lambda>_. receipts_ok cd paid) (receipts_ok cd paid)"
  proof (rule spec_bind)
    show "spec (commit_inv cd paid ps b) (fold_a (commit_planned cd io) (snd st) b) (\<lambda>_. commit_inv cd paid ps b)
        (receipts_ok cd paid)"
      by (rule spec_fold) (rule commit_planned_spec)
    show "spec (commit_inv cd paid ps b) (write_batches cd io (fst st + length b, settled) bs)
        (\<lambda>_. receipts_ok cd paid) (receipts_ok cd paid)" for settled
      by (rule spec_pre [OF rest]) (simp add: commit_inv_def)
  qed
  show ?case unfolding write_batches.simps
  proof (rule spec_bind [OF written])
    fix r :: "string + string \<times> string list"
    show "spec (\<lambda>l. case r of Inl _ \<Rightarrow> receipts_ok cd paid l | Inr _ \<Rightarrow> commit_inv cd paid ps b l)
       (case r of Inl _ \<Rightarrow> return_a st
        | Inr _ \<Rightarrow> bind_a (fold_a (commit_planned cd io) (snd st) b) (\<lambda>settled.
             write_batches cd io (fst st + length b, settled) bs)) (\<lambda>_. receipts_ok cd paid) (receipts_ok cd paid)"
      by (cases r) (simp_all add: spec_return tail)
  qed
qed

text \<open>Looking up: an item's owner is a customer of the pass or Beam, and a job is Beam's own.\<close>

fun is_job :: "subject \<Rightarrow> bool" where
  "is_job (Job_subject _ _ _ _ _ _) = True"
| "is_job _ = False"

text \<open>The charges that recording a subject can make: a room request is observed as the room it was found in.\<close>

definition charges_of :: "codec \<Rightarrow> receipt_levels \<Rightarrow> subject \<Rightarrow> charge_subject \<Rightarrow> bool" where
  "charges_of cd levels s c \<longleftrightarrow>
     (\<exists>observed observation entry. (observed = s \<or> (\<exists>lookup. roomSubjectForLookup s lookup = Some observed))
        \<and> reportEntryFor cd observed observation levels = Inr (Some entry) \<and> chargeSubjectOf cd entry = Inr (Some c))"

type_synonym owning = "subject \<Rightarrow> string \<Rightarrow> via \<Rightarrow> bool"

definition item_ok :: "owning \<Rightarrow> pending_item \<Rightarrow> bool" where
  "item_ok owned item \<longleftrightarrow>
     (case pi_owner item of
        Beam_owner \<Rightarrow> True
      | Customer_owner org _ via \<Rightarrow> owned (pi_subject item) org via \<and> \<not> is_job (pi_subject item))"

definition look_inv :: "codec \<Rightarrow> charge_basis \<Rightarrow> lookup_state \<Rightarrow> relay_event list \<Rightarrow> bool" where
  "look_inv cd paid st l \<longleftrightarrow> receipts_ok cd paid l \<and> plan_held cd (lk_planned st) l"

lemma look_inv_event:
  "look_inv cd paid st l \<Longrightarrow> receipt_event_ok cd paid l ev \<Longrightarrow> look_inv cd paid st (l @ [ev])"
  by (auto simp: look_inv_def plan_held_grows)

lemma look_inv_plan:
  "look_inv cd paid (st\<lparr>lk_settled := x\<rparr>) l = look_inv cd paid st l"
  "look_inv cd paid (st\<lparr>lk_unanswerable := y\<rparr>) l = look_inv cd paid st l"
  by (simp_all add: look_inv_def)

lemma look_inv_planned:
  "look_inv cd paid st l \<Longrightarrow> plan_held cd ps l \<Longrightarrow> look_inv cd paid (st\<lparr>lk_planned := lk_planned st @ ps\<rparr>) l"
  by (auto simp: look_inv_def plan_held_def)

lemma look_inv_ok: "look_inv cd paid st l \<Longrightarrow> receipts_ok cd paid l"
  by (simp add: look_inv_def)

lemma find_publication_spec:
  "spec (look_inv cd paid st) (find_publication io s reader) (\<lambda>_. look_inv cd paid st) (receipts_ok cd paid)"
  unfolding find_publication_def
  by (rule spec_call_inv) (auto intro: look_inv_event look_inv_ok simp: receipt_event_ok_def)

lemma observe_spec:
  "spec (look_inv cd paid st) (observe io s reader) (\<lambda>_. look_inv cd paid st) (receipts_ok cd paid)"
  unfolding observe_def
  by (rule spec_call_inv) (auto intro: look_inv_event look_inv_ok simp: receipt_event_ok_def)

lemma hold_and_plan_spec:
  assumes "\<And>c org reader via. owner = Customer_owner org reader via \<Longrightarrow> chargeSubjectOf cd entry = Inr (Some c) \<Longrightarrow> paid c org via"
  shows "spec (look_inv cd paid st) (hold_and_plan cd io owner subject entry st) (look_inv cd paid) (receipts_ok cd paid)"
proof (cases owner)
  case Beam_owner
  then show ?thesis
    by (auto simp: hold_and_plan_def Let_def plan_held_def intro!: spec_return look_inv_planned)
next
  case (Customer_owner org reader via)
  let ?plan = "st\<lparr>lk_planned := lk_planned st @ [\<lparr>pl_entry = entry, pl_owner = owner, pl_key = subjectKey subject\<rparr>]\<rparr>"
  let ?next = "\<lambda>held. case held of
      Charge_held \<Rightarrow> ?plan
    | Charge_charged \<Rightarrow> st\<lparr>lk_settled := subjectKey subject # lk_settled st\<rparr>
    | Charge_released \<Rightarrow> st\<lparr>lk_settled := subjectKey subject # lk_settled st\<rparr>
    | _ \<Rightarrow> st"
  have step: "look_inv cd paid (?next a) (l @ [Ev_reserveCharge c org via (Inr a)])"
    if i: "look_inv cd paid st l" and ch: "chargeSubjectOf cd entry = Inr (Some c)" for l c a
  proof -
    have i': "look_inv cd paid st (l @ [Ev_reserveCharge c org via (Inr a)])"
      by (rule look_inv_event [OF i]) (use assms [OF Customer_owner ch] in \<open>simp add: receipt_event_ok_def\<close>)
    show ?thesis
    proof (cases a)
      case Charge_held
      have "held c (l @ [Ev_reserveCharge c org via (Inr Charge_held)])" unfolding held_def by auto
      then show ?thesis using i' ch by (auto simp: Charge_held plan_held_def intro!: look_inv_planned)
    qed (use i' in \<open>simp_all add: look_inv_plan\<close>)
  qed
  show ?thesis unfolding hold_and_plan_def Let_def Customer_owner owner.case
  proof (rule spec_bind_lift)
    fix charge assume ch: "chargeSubjectOf cd entry = Inr charge"
    show "spec (look_inv cd paid st)
       (case charge of None \<Rightarrow> return_a (st\<lparr>lk_planned := lk_planned st
            @ [\<lparr>pl_entry = entry, pl_owner = Customer_owner org reader via, pl_key = subjectKey subject\<rparr>]\<rparr>)
        | Some c \<Rightarrow> bind_a (call (Ev_reserveCharge c org via) (io_reserveCharge io c org via)) (\<lambda>held.
            return_a (case held of
                Charge_held \<Rightarrow> st\<lparr>lk_planned := lk_planned st
                  @ [\<lparr>pl_entry = entry, pl_owner = Customer_owner org reader via, pl_key = subjectKey subject\<rparr>]\<rparr>
              | Charge_charged \<Rightarrow> st\<lparr>lk_settled := subjectKey subject # lk_settled st\<rparr>
              | Charge_released \<Rightarrow> st\<lparr>lk_settled := subjectKey subject # lk_settled st\<rparr>
              | _ \<Rightarrow> st)))
       (look_inv cd paid) (receipts_ok cd paid)"
    proof (cases charge)
      case None
      then show ?thesis using ch by (auto simp: plan_held_def intro!: spec_return look_inv_planned)
    next
      case (Some c)
      have "spec (look_inv cd paid st) (call (Ev_reserveCharge c org via) (io_reserveCharge io c org via))
          (\<lambda>a. look_inv cd paid (?next a)) (receipts_ok cd paid)"
        by (rule spec_call)
          (use step ch Some assms [OF Customer_owner] in \<open>auto simp: look_inv_def receipt_event_ok_def\<close>)
      then show ?thesis unfolding Some option.case Customer_owner by (rule spec_bind) (rule spec_return)
    qed
  qed (rule look_inv_ok)
qed

lemma observe_and_plan_spec:
  assumes "\<And>c org reader via. pi_owner item = Customer_owner org reader via \<Longrightarrow> charges_of cd (st_levels settings) subject c
    \<Longrightarrow> paid c org via"
  shows "spec (look_inv cd paid st) (observe_and_plan cd io settings now item subject st) (look_inv cd paid)
    (receipts_ok cd paid)"
  unfolding observe_and_plan_def
proof (rule spec_bind)
  show "spec (look_inv cd paid st) (case pi_observation item of
         Some o1 \<Rightarrow> return_a o1 | None \<Rightarrow> observe io subject (readerOf (pi_owner item))) (\<lambda>_. look_inv cd paid st)
     (receipts_ok cd paid)"
    by (cases "pi_observation item") (simp_all add: observe_spec spec_return)
  fix observation
  show "spec (look_inv cd paid st)
     (bind_a (lift_a (reportEntryFor cd subject observation (st_levels settings))) (\<lambda>entry.
       case entry of
         Some e \<Rightarrow> hold_and_plan cd io (pi_owner item) subject e st
       | None \<Rightarrow>
           return_a
             (if observation = Obs_absent then st\<lparr>lk_unanswerable := unseen now item (lk_unanswerable st)\<rparr>
              else if observation \<noteq> Obs_pending \<and> pi_observation item \<noteq> None then
                st\<lparr>lk_settled := subjectKey subject # lk_settled st\<rparr>
              else st))) (look_inv cd paid) (receipts_ok cd paid)"
  proof (rule spec_bind_lift)
    fix entry assume e: "reportEntryFor cd subject observation (st_levels settings) = Inr entry"
    have "paid c org via" if "pi_owner item = Customer_owner org reader via" "entry = Some e1" "chargeSubjectOf cd e1 = Inr (Some c)"
      for c org reader via e1
      by (rule assms [OF that(1)]) (use e that in \<open>auto simp: charges_of_def\<close>)
    then show "spec (look_inv cd paid st) (case entry of
         Some e \<Rightarrow> hold_and_plan cd io (pi_owner item) subject e st
       | None \<Rightarrow>
           return_a
             (if observation = Obs_absent then st\<lparr>lk_unanswerable := unseen now item (lk_unanswerable st)\<rparr>
              else if observation \<noteq> Obs_pending \<and> pi_observation item \<noteq> None then
                st\<lparr>lk_settled := subjectKey subject # lk_settled st\<rparr>
              else st)) (look_inv cd paid) (receipts_ok cd paid)"
      by (cases entry) (auto simp: look_inv_plan intro!: hold_and_plan_spec spec_return)
  qed (rule look_inv_ok)
qed

lemma look_up_job_spec:
  assumes "pi_owner item = Beam_owner"
  shows "spec (look_inv cd paid st) (look_up_job cd io settings item lookups st) (look_inv cd paid) (receipts_ok cd paid)"
proof -
  have planned: "look_inv cd paid (st\<lparr>lk_planned := lk_planned st
        @ map (\<lambda>e. \<lparr>pl_entry = e, pl_owner = pi_owner item, pl_key = subjectKey (pi_subject item)\<rparr>) es\<rparr>) l"
    if "look_inv cd paid st l" for es l
    by (rule look_inv_planned [OF that]) (simp add: plan_held_def assms)
  have read: "spec (look_inv cd paid st)
      (bind_a (observe io a reader) (\<lambda>observedInput.
       bind_a (observe io b reader) (\<lambda>observedOutput.
       bind_a (lift_a (f observedInput observedOutput)) (\<lambda>entries.
         return_a (case entries of
             None \<Rightarrow> st
           | Some es \<Rightarrow> st\<lparr>lk_planned := lk_planned st
               @ map (\<lambda>e. \<lparr>pl_entry = e, pl_owner = pi_owner item, pl_key = subjectKey (pi_subject item)\<rparr>) es\<rparr>)))))
      (look_inv cd paid) (receipts_ok cd paid)" for a b reader f
    by (intro spec_bind [OF observe_spec] spec_bind_lift spec_return)
      (auto intro: planned look_inv_ok split: option.split)
  show ?thesis unfolding look_up_job_def Let_def
  proof (rule spec_bind [OF find_publication_spec], rule spec_bind)
    fix input
    show "spec (look_inv cd paid st) (case input of
         Lookup_found _ \<Rightarrow> find_publication io (snd lookups) (readerOf (pi_owner item)) | _ \<Rightarrow> return_a input)
       (\<lambda>_. look_inv cd paid st) (receipts_ok cd paid)"
      by (cases input) (simp_all add: find_publication_spec spec_return)
  qed (auto intro!: read spec_return split: publication_lookup.split)
qed

lemma charges_of_found:
  "roomSubjectForLookup s lookup = Some found \<Longrightarrow> charges_of cd levels found c \<Longrightarrow> charges_of cd levels s c"
proof (cases "(s, lookup)" rule: roomSubjectForLookup.cases)
  case (1 room channel publisher requestId publicationId)
  assume "roomSubjectForLookup s lookup = Some found" and c: "charges_of cd levels found c"
  moreover from this 1 have "roomSubjectForLookup found l = None" for l by auto
  ultimately show ?thesis unfolding charges_of_def by (metis option.distinct(1))
qed simp_all

lemma look_up_spec:
  assumes "item_ok owned item"
    and basis: "\<And>s c org via. owned s org via \<Longrightarrow> charges_of cd (st_levels settings) s c \<Longrightarrow> paid c org via"
  shows "spec (look_inv cd paid st) (look_up cd io settings now st item) (look_inv cd paid) (receipts_ok cd paid)"
proof -
  have paid: "paid c org via" if "pi_owner item = Customer_owner org reader via" "charges_of cd (st_levels settings) (pi_subject item) c"
    for c org reader via
    using assms(1) that basis by (auto simp: item_ok_def)
  note plan = observe_and_plan_spec [OF paid]
  show ?thesis
  proof (cases "pi_subject item")
    case (RoomRequest_subject room channel publisher requestId)
    show ?thesis unfolding look_up_def RoomRequest_subject subject.case
      by (rule spec_bind [OF find_publication_spec])
        (auto intro!: plan spec_return simp: look_inv_plan RoomRequest_subject dest: charges_of_found split: option.split)
  next
    case (Job_subject a b c d e f)
    then have "pi_owner item = Beam_owner" using assms(1) by (auto simp: item_ok_def split: owner.splits)
    then show ?thesis by (simp add: look_up_def Job_subject look_up_job_spec)
  qed (simp_all add: look_up_def plan)
qed

text \<open>The items collected are all of that kind.\<close>

definition pending_ok :: "owning \<Rightarrow> pending_map \<Rightarrow> bool" where
  "pending_ok owned m \<longleftrightarrow> (\<forall>i \<in> snd ` set m. item_ok owned i)"

lemma amap_set_values: "snd ` set (amap_set k v m) \<subseteq> insert v (snd ` set m)"
  by (induction k v m rule: amap_set.induct) auto

lemma keep_item_values: "snd ` set (keep_item subj m i) \<subseteq> insert i (snd ` set m)"
  unfolding keep_item_def Let_def using amap_set_values [of "subjectKey (subj i)" i m]
  by (cases "map_of m (subjectKey (subj i))") (auto simp del: map_of_eq_Some_iff)

lemma pending_ok_keep: "pending_ok owned m \<Longrightarrow> item_ok owned i \<Longrightarrow> pending_ok owned (keep_item subj m i)"
  using keep_item_values [of subj m i] unfolding pending_ok_def by blast

text \<open>
  What may be charged for: in customers mode, a receipt some approved requester asked for, never the relay itself, or a
  transfer created while the organization records all of its transfers.
\<close>

definition chargeable ::
  "(string \<Rightarrow> 8 word list) \<Rightarrow> relay_settings \<Rightarrow> customer list \<Rightarrow> open_request list \<Rightarrow> subject \<Rightarrow> string \<Rightarrow> via \<Rightarrow> bool"
where
  "chargeable sha256 settings customers requests s org via \<longleftrightarrow>
     st_maxPerOrganization settings \<noteq> None
     \<and> (\<exists>customer \<in> set customers. cu_organizationId customer = org
          \<and> (case via of
               Via_requester a \<Rightarrow>
                 to_lower a \<noteq> to_lower (st_relayAccount settings)
                 \<and> (\<exists>r \<in> set (cu_requesters customer). rq_status r = Requester_APPROVED \<and> rq_address r = to_lower a)
                 \<and> (\<exists>request \<in> set requests. or_requester request = a \<and> or_kind request \<noteq> RequestKind_Transfer
                      \<and> subjectForOpenRequest sha256 (st_clientId settings) (st_routes settings) request = Inr (Some s))
             | Via_every_transfer created \<Rightarrow>
                 cu_periods customer \<noteq> [] \<and> createdDuringPeriods (time_of created) (cu_periods customer)
                 \<and> (\<exists>t. s = Transfer_subject t None)))"

definition chargeable_for ::
  "codec \<Rightarrow> (string \<Rightarrow> 8 word list) \<Rightarrow> relay_settings \<Rightarrow> customer list \<Rightarrow> open_request list \<Rightarrow> charge_basis" where
  "chargeable_for cd sha256 settings customers requests c org via \<longleftrightarrow>
     (\<exists>s. chargeable sha256 settings customers requests s org via \<and> charges_of cd (st_levels settings) s c)"

lemma amap_set_subset: "set (amap_set k v m) \<subseteq> insert (k, v) (set m)"
  by (induction k v m rule: amap_set.induct) auto

lemma by_address_from:
  assumes "map_of (by_address status customers) a = Some c"
  shows "c \<in> set customers \<and> (\<exists>r \<in> set (cu_requesters c). rq_status r = status \<and> rq_address r = a)"
proof -
  let ?step = "\<lambda>m (c, r). if rq_status r = status then amap_set (rq_address r) c m else m"
  let ?of = "\<lambda>ps. {(rq_address r, c) | c r. (c, r) \<in> set ps \<and> rq_status r = status}"
  have "set (foldl ?step m ps) \<subseteq> ?of ps \<union> set m" for m and ps :: "(customer \<times> requester) list"
  proof (induction ps arbitrary: m)
    case (Cons p ps)
    have "set (?step m p) \<subseteq> ?of [p] \<union> set m"
      using amap_set_subset [of "rq_address (snd p)" "fst p" m] by (cases p) auto
    with Cons.IH [of "?step m p"] show ?case by (simp del: split_paired_All) blast
  qed simp
  from this [of "[]" "requester_pairs customers"] map_of_SomeD [OF assms]
  have "(a, c) \<in> ?of (requester_pairs customers)" by (simp add: by_address_def) blast
  then show ?thesis by (auto simp: requester_pairs_def)
qed

lemma subject_not_job:
  "subjectForOpenRequest sha256 clientId routes request = Inr (Some s) \<Longrightarrow> or_kind request \<noteq> RequestKind_Transfer
     \<Longrightarrow> \<not> is_job s"
  by (auto simp: subjectForOpenRequest_def split: if_splits sum.splits)

lemma add_open_ok:
  assumes "pending_ok (chargeable sha256 settings customers requests) (fst st)" (is "pending_ok ?owned _")
    and "add_open sha256 settings customers st r = Inr st'" and "r \<in> set requests"
  shows "pending_ok (chargeable sha256 settings customers requests) (fst st')"
proof (cases "classify settings customers r")
  case (Owned owner)
  have "item_ok ?owned \<lparr>pi_subject = s, pi_owner = owner, pi_observation = None,
      pi_request = (if owner = Beam_owner then None else Some r)\<rparr>"
    if s: "subjectForOpenRequest sha256 (st_clientId settings) (st_routes settings) r = Inr (Some s)" for s
  proof (cases owner)
    case (Customer_owner org reader via)
    then show ?thesis using Owned subject_not_job [OF s] s assms(3)
      by (fastforce simp: item_ok_def classify_def Let_def chargeable_def split: if_splits option.splits
          dest!: by_address_from)
  qed (simp add: item_ok_def)
  then show ?thesis using assms(1,2) Owned
    by (auto simp: add_open_def intro!: pending_ok_keep split: sum.splits option.splits)
qed (use assms in \<open>auto simp: add_open_def\<close>)

lemma add_all_open_ok:
  "pending_ok (chargeable sha256 settings customers requests) (fst st)
     \<Longrightarrow> add_all_open sha256 settings customers st rs = Inr st' \<Longrightarrow> set rs \<subseteq> set requests
     \<Longrightarrow> pending_ok (chargeable sha256 settings customers requests) (fst st')"
  by (induction rs arbitrary: st) (auto split: sum.splits dest: add_open_ok)

text \<open>An organization that records all of its transfers owns those created in one of its periods.\<close>

definition owns_listed :: "owning \<Rightarrow> customer \<Rightarrow> bool" where
  "owns_listed owned customer \<longleftrightarrow>
     (cu_periods customer \<noteq> [] \<longrightarrow>
        (\<forall>id created. createdDuringPeriods (time_of created) (cu_periods customer)
           \<longrightarrow> owned (Transfer_subject id None) (cu_organizationId customer) (Via_every_transfer created)))"

lemma listed_item_ok:
  "owns_listed owned customer \<Longrightarrow> cu_periods customer \<noteq> []
     \<Longrightarrow> createdDuringPeriods (time_of (lt_createdAt t)) (cu_periods customer) \<Longrightarrow> item_ok owned (listed_item customer t)"
  by (simp add: item_ok_def listed_item_def owns_listed_def)

lemma pending_ok_foldl:
  "pending_ok owned m \<Longrightarrow> \<forall>i \<in> set is. item_ok owned i \<Longrightarrow> pending_ok owned (foldl (keep_item subj) m is)"
  by (induction "is" arbitrary: m) (simp_all add: pending_ok_keep)

definition list_inv :: "codec \<Rightarrow> charge_basis \<Rightarrow> owning \<Rightarrow> pending_map \<times> listing list \<Rightarrow> relay_event list \<Rightarrow> bool" where
  "list_inv cd paid owned st l \<longleftrightarrow> receipts_ok cd paid l \<and> pending_ok owned (fst st)"

lemma list_inv_ok: "list_inv cd paid owned st l \<Longrightarrow> receipts_ok cd paid l"
  by (simp add: list_inv_def)

lemma list_inv_event: "list_inv cd paid owned st l \<Longrightarrow> receipt_event_ok cd paid l ev \<Longrightarrow> list_inv cd paid owned st (l @ [ev])"
  by (simp add: list_inv_def)

lemma list_customer_spec:
  assumes "owns_listed owned customer"
  shows "spec (list_inv cd paid owned st) (list_customer io limit now cursors st customer) (list_inv cd paid owned) (receipts_ok cd paid)"
proof -
  have added: "list_inv cd paid owned (add_listing limit customer cursor st listed) l" if "list_inv cd paid owned st l" "cu_periods customer \<noteq> []"
    for cursor listed l
    using that assms
    by (auto simp: add_listing_def Let_def list_inv_def owed_transfers_def intro!: pending_ok_foldl listed_item_ok)
  have list: "spec (list_inv cd paid owned st) (attempt (call (Ev_finishedTransfers reader cursor) f)) (\<lambda>_. list_inv cd paid owned st)
      (receipts_ok cd paid)" for reader cursor and f :: "'a \<Rightarrow> (string + listed_transfer list) \<times> 'a"
    by (rule spec_attempt, rule spec_call) (auto simp: receipt_event_ok_def intro: list_inv_event)
  show ?thesis unfolding list_customer_def Let_def
    by (cases "cu_periods customer = [] \<or> \<not> listsTransfers customer now")
      (auto intro!: spec_return spec_bind [OF list] added split: sum.split)
qed

lemma list_phase_spec:
  assumes "pending_ok owned pending" and "\<And>customer. customer \<in> set customers \<Longrightarrow> st_maxPerOrganization settings \<noteq> None
    \<Longrightarrow> owns_listed owned customer"
  shows "spec (receipts_ok cd paid) (list_phase io settings customers now cursors pending) (list_inv cd paid owned)
     (receipts_ok cd paid)"
proof (cases "st_maxPerOrganization settings")
  case (Some limit)
  have "spec (list_inv cd paid owned st) (fold_a (list_customer io limit now cursors) st customers) (list_inv cd paid owned)
      (receipts_ok cd paid)" for st
    by (rule spec_fold, rule list_customer_spec) (simp add: assms(2) Some)
  then have "spec (receipts_ok cd paid) (fold_a (list_customer io limit now cursors) (pending, []) customers)
      (list_inv cd paid owned) (receipts_ok cd paid)"
    by (rule spec_pre) (simp add: list_inv_def assms(1))
  then show ?thesis by (simp add: list_phase_def Some)
qed (use assms(1) in \<open>auto simp: list_phase_def list_inv_def intro!: spec_return\<close>)

lemma write_phase_spec:
  "spec (look_inv cd paid st) (write_phase cd io cursors listings st) (\<lambda>_. receipts_ok cd paid) (receipts_ok cd paid)"
  unfolding write_phase_def
proof (rule spec_bind)
  show "spec (look_inv cd paid st) (write_batches cd io (0, lk_settled st) (batches (lk_planned st)))
      (\<lambda>_. receipts_ok cd paid) (receipts_ok cd paid)"
    by (rule spec_pre [OF write_batches_spec [where ps = "lk_planned st"]]) (auto simp: look_inv_def dest: batches_length)
  show "spec (receipts_ok cd paid) (case w of (recorded, settled) \<Rightarrow>
      bind_a (save_cursors io settled cursors listings) (\<lambda>_. return_a (recorded, lk_unanswerable st)))
      (\<lambda>_. receipts_ok cd paid) (receipts_ok cd paid)" for w
    unfolding save_cursors_def case_prod_beta
    by (cases "listings = []")
      (auto intro!: spec_then_return spec_bind_lift spec_return spec_call_inv simp: receipt_event_ok_def)
qed

lemma look_phase_spec:
  assumes "pending_ok owned pending"
    and basis: "\<And>s c org via. owned s org via \<Longrightarrow> charges_of cd (st_levels settings) s c \<Longrightarrow> paid c org via"
  shows "spec (receipts_ok cd paid) (fold_a (look_up cd io settings now)
       \<lparr>lk_planned = [], lk_settled = [], lk_unanswerable = u\<rparr> (map snd pending)) (look_inv cd paid) (receipts_ok cd paid)"
proof -
  have "spec (look_inv cd paid st) (fold_a (look_up cd io settings now) st (map snd pending)) (look_inv cd paid)
      (receipts_ok cd paid)" for st
    by (rule spec_fold, rule look_up_spec [OF _ basis]) (use assms(1) in \<open>auto simp: pending_ok_def\<close>)
  then show ?thesis by (rule spec_pre) (simp add: look_inv_def plan_held_def)
qed

text \<open>The pass after it read the open requests.\<close>

lemma after_requests_spec:
  fixes cd sha256 settings customers requests
  defines "paid \<equiv> chargeable_for cd sha256 settings customers requests"
    and "owned \<equiv> chargeable sha256 settings customers requests"
  shows "spec (receipts_ok cd paid)
     (bind_a (lift_a (add_all_open sha256 settings customers ([], []) requests)) (\<lambda>opened.
      bind_a (read_cursors io settings) (\<lambda>cursors.
      bind_a (list_phase io settings customers now cursors (fst opened)) (\<lambda>listed.
      bind_a (fold_a (look_up cd io settings now)
          \<lparr>lk_planned = [], lk_settled = [], lk_unanswerable = snd opened\<rparr> (map snd (fst listed))) (\<lambda>st.
        write_phase cd io cursors (snd listed) st)))))
     (\<lambda>_. receipts_ok cd paid) (receipts_ok cd paid)"
proof -
  have cursors: "spec (receipts_ok cd paid) (read_cursors io settings) (\<lambda>_. receipts_ok cd paid) (receipts_ok cd paid)"
    unfolding read_cursors_def
    by (cases "st_maxPerOrganization settings") (auto intro!: spec_return spec_call_inv simp: receipt_event_ok_def)
  have basis: "paid c org via" if "owned s org via" "charges_of cd (st_levels settings) s c" for s c org via
    using that by (auto simp: paid_def owned_def chargeable_for_def)
  have rest: "spec (list_inv cd paid owned listed)
     (bind_a (fold_a (look_up cd io settings now)
         \<lparr>lk_planned = [], lk_settled = [], lk_unanswerable = u\<rparr> (map snd (fst listed)))
       (write_phase cd io cursors (snd listed))) (\<lambda>_. receipts_ok cd paid) (receipts_ok cd paid)" for listed u cursors
    unfolding list_inv_def by (rule spec_given, rule spec_bind [OF look_phase_spec [OF _ basis] write_phase_spec])
  have listing: "owns_listed owned customer" if "customer \<in> set customers" "st_maxPerOrganization settings \<noteq> None" for customer
    using that by (auto simp: owns_listed_def owned_def chargeable_def)
  have opened: "pending_ok owned (fst opened)" if "add_all_open sha256 settings customers ([], []) requests = Inr opened" for opened
    unfolding owned_def by (rule add_all_open_ok [OF _ that]) (simp_all add: pending_ok_def)
  show ?thesis
    by (rule spec_bind_lift, rule spec_bind [OF cursors], rule spec_bind [OF list_phase_spec [OF opened listing] rest]) simp_all
qed

lemma runReceipts_charges:
  assumes "runReceipts cd sha256 io settings customers now (w, []) = (r, (w', l))"
  shows "\<exists>requests. receipts_ok cd (chargeable_for cd sha256 settings customers requests) l
    \<and> (fst (io_openRequests io w) = Inr requests \<or> l = [Ev_openRequests (fst (io_openRequests io w))])"
proof (cases "io_openRequests io w")
  case (Pair answer w1)
  show ?thesis
  proof (cases answer)
    case (Inl e)
    then show ?thesis using assms
      using each_snoc [of "receipt_event_ok cd (chargeable_for cd sha256 settings customers [])" "[]" "Ev_openRequests (Inl e)"]
      by (auto simp: runReceipts_def bind_a_def call_def Pair receipt_event_ok_def intro!: exI [of _ "[]"] split: prod.splits)
  next
    case (Inr requests)
    let ?paid = "chargeable_for cd sha256 settings customers requests"
    note run = assms [unfolded runReceipts_def, unfolded bind_a_def [of "call Ev_openRequests (io_openRequests io)"]
        call_def fst_conv snd_conv Pair Inr prod.case sum.case append_Nil]
    have "receipts_ok cd ?paid [Ev_openRequests (Inr requests)]"
      using each_snoc [of "receipt_event_ok cd ?paid" "[]" "Ev_openRequests (Inr requests)"] by (simp add: receipt_event_ok_def)
    from spec_result [OF after_requests_spec this run] have "receipts_ok cd ?paid l" by (simp split: sum.splits)
    then show ?thesis using Inr Pair by auto
  qed
qed

text \<open>
  C1. A customer is charged only for a receipt that was recorded. Whatever the chain, Beam and the website
  answer and wherever they fail, each charge the receipt pass commits comes after a report that was mined,
  of at most fourteen entries, one of which records that very receipt, and the credit had been held before
  that report was sent.
\<close>

theorem charged_only_after_recorded:
  assumes "runReceipts cd sha256 io settings customers now (w, []) = (r, (w', l))"
    and "l = before @ Ev_commitCharge c answer # after"
  shows "\<exists>entries report written pre post org via.
    before = pre @ Ev_writeReport report (Inr written) # post \<and> encodeEntries cd entries = Inr report
    \<and> length entries \<le> 14 \<and> (\<exists>e \<in> set entries. chargeSubjectOf cd e = Inr (Some c))
    \<and> Ev_reserveCharge c org via (Inr Charge_held) \<in> set pre"
proof -
  from runReceipts_charges [OF assms(1)]
  obtain requests where "receipts_ok cd (chargeable_for cd sha256 settings customers requests) l" by blast
  from eachD [OF this assms(2)] show ?thesis by (simp add: receipt_event_ok_def recorded_by_def held_def)
qed


definition demo_request :: open_request where
  "demo_request =
     \<lparr>or_key = ''0x5'', or_kind = 2, or_transferKind = 0, or_requester = ''0xA'', or_openedAt = 0, or_requestId = [],
      or_transferId = ''0x'' @ replicate 32 CHR ''1'', or_room = [], or_channel = [], or_publication = []\<rparr>"

definition demo_customer :: customer where
  "demo_customer =
     \<lparr>cu_organizationId = ''acme'', cu_reader = \<lparr>cr_apiKey = ''k'', cr_organizationId = ''acme''\<rparr>, cu_periods = [],
      cu_requesters = [\<lparr>rq_id = ''1'', rq_address = ''0xa'', rq_status = Requester_APPROVED, rq_allowlist = Allowlist_ALLOWED\<rparr>]\<rparr>"

definition demo_receipts :: "unit relay_io" where
  "demo_receipts = quiet_relay
     \<lparr>io_openRequests := (\<lambda>w. (Inr [demo_request], w)),
      io_observe := (\<lambda>_ _ w. (Inr (Obs_transfer 1 ''5'' ''5'' ''9'' ZERO_BYTES32 ZERO_BYTES32), w))\<rparr>"

definition demo_customers_mode :: relay_settings where
  "demo_customers_mode = demo_settings\<lparr>st_maxPerOrganization := Some 10\<rparr>"

abbreviation demo_run :: "(string + nat \<times> unanswerable_item list) \<times> (unit \<times> relay_event list)" where
  "demo_run \<equiv> runReceipts json_codec (\<lambda>_. []) demo_receipts demo_customers_mode [demo_customer] 0 ((), [])"

lemma demo_run_trace:
  "\<exists>report. snd (snd demo_run) =
     [Ev_openRequests (Inr [demo_request]), Ev_readTransferCursors (Inr []),
      Ev_observe (Transfer_subject ''11111111-1111-1111-1111-111111111111'' None) (Some (cu_reader demo_customer))
        (Inr (Obs_transfer 1 ''5'' ''5'' ''9'' ZERO_BYTES32 ZERO_BYTES32)),
      Ev_reserveCharge (Charge_transfer ''11111111-1111-1111-1111-111111111111'') ''acme'' (Via_requester ''0xA'') (Inr Charge_held),
      Ev_writeReport report (Inr (''0x1'', []))] @
      Ev_commitCharge (Charge_transfer ''11111111-1111-1111-1111-111111111111'') (Inr Charge_charged) # []"
proof -
  let ?report = "(case snd (snd demo_run) ! 4 of Ev_writeReport t _ \<Rightarrow> t | _ \<Rightarrow> [])"
  have "snd (snd demo_run) =
     [Ev_openRequests (Inr [demo_request]), Ev_readTransferCursors (Inr []),
      Ev_observe (Transfer_subject ''11111111-1111-1111-1111-111111111111'' None) (Some (cu_reader demo_customer))
        (Inr (Obs_transfer 1 ''5'' ''5'' ''9'' ZERO_BYTES32 ZERO_BYTES32)),
      Ev_reserveCharge (Charge_transfer ''11111111-1111-1111-1111-111111111111'') ''acme'' (Via_requester ''0xA'') (Inr Charge_held),
      Ev_writeReport ?report (Inr (''0x1'', []))] @
      Ev_commitCharge (Charge_transfer ''11111111-1111-1111-1111-111111111111'') (Inr Charge_charged) # []"
    by code_simp
  then show ?thesis by blast
qed

theorem charged_only_after_recorded_witness:
  "\<exists>l report written. snd (snd demo_run) = l \<and> Ev_writeReport report (Inr written) \<in> set l
     \<and> Ev_commitCharge (Charge_transfer ''11111111-1111-1111-1111-111111111111'') (Inr Charge_charged) \<in> set l"
proof -
  obtain report where t: "snd (snd demo_run) =
     [Ev_openRequests (Inr [demo_request]), Ev_readTransferCursors (Inr []),
      Ev_observe (Transfer_subject ''11111111-1111-1111-1111-111111111111'' None) (Some (cu_reader demo_customer))
        (Inr (Obs_transfer 1 ''5'' ''5'' ''9'' ZERO_BYTES32 ZERO_BYTES32)),
      Ev_reserveCharge (Charge_transfer ''11111111-1111-1111-1111-111111111111'') ''acme'' (Via_requester ''0xA'') (Inr Charge_held),
      Ev_writeReport report (Inr (''0x1'', []))] @
      Ev_commitCharge (Charge_transfer ''11111111-1111-1111-1111-111111111111'') (Inr Charge_charged) # []"
    using demo_run_trace by blast
  have run: "demo_run = (fst demo_run, ((), snd (snd demo_run)))" by (simp add: prod_eq_iff)
  from charged_only_after_recorded [OF run t] show ?thesis using t by auto
qed


end
