(* ===== verification/RelayClose.thy ===== *)
theory RelayClose
  imports RelayReceipts
begin

text \<open>
  The last part of a relay pass (\<open>packages/cre/relay/relay.ts\<close>): closing the requests that are never answered
  (\<open>closeUnanswerable\<close>), whose unsettled charges the relay keeps in memory between passes, and the whole pass
  (\<open>runOnce\<close>). The memory is the state kept beside the world, so what was recorded in it before an exception
  stays there.
\<close>

type_synonym ('w, 'a) cact = "('w \<times> relay_state, relay_event, 'a) act"

definition commit_close :: "'w relay_io \<Rightarrow> string \<times> string \<Rightarrow> ('w, unit) cact" where
  "commit_close io close =
     bind_a (on_world (call (Ev_commitCharge (Charge_request (fst close))) (io_commitCharge io (Charge_request (fst close)))))
       (\<lambda>committed. case committed of
            Charge_unavailable _ \<Rightarrow> return_a ()
          | _ \<Rightarrow> modify_state (amap_delete (fst close)))"

record close_state =
  cs_closed :: nat
  cs_seen :: "string list"

definition close_one :: "'w relay_io \<Rightarrow> close_state \<Rightarrow> unanswerable_item \<Rightarrow> ('w, close_state) cact" where
  "close_one io st u =
     (let key = or_key (ua_request u); subject = Charge_request key; seen = st\<lparr>cs_seen := key # cs_seen st\<rparr> in
      if key \<in> set (cs_seen st) then return_a st
      else
        bind_a (on_world (call (Ev_reserveCharge subject (ua_organizationId u) (Via_requester (or_requester (ua_request u))))
            (io_reserveCharge io subject (ua_organizationId u) (Via_requester (or_requester (ua_request u)))))) (\<lambda>held.
          if held \<noteq> Charge_held then return_a seen
          else
            bind_a (attempt (on_world (call (Ev_cancelRequest key) (io_cancelRequest io key)))) (\<lambda>cancelled.
              case cancelled of
                Inl _ \<Rightarrow> return_a seen
              | Inr _ \<Rightarrow>
                  bind_a (on_world (call (Ev_commitCharge subject) (io_commitCharge io subject))) (\<lambda>committed.
                    bind_a (if committed = Charge_charged then return_a ()
                            else modify_state (amap_set key (ua_organizationId u))) (\<lambda>_.
                      return_a (seen\<lparr>cs_closed := cs_closed st + 1\<rparr>))))))"

definition closeUnanswerable :: "'w relay_io \<Rightarrow> unanswerable_item list \<Rightarrow> ('w, nat) cact" where
  "closeUnanswerable io unanswerable =
     bind_a get_state (\<lambda>uncommitted.
     bind_a (fold_a (\<lambda>_. commit_close io) () uncommitted) (\<lambda>_.
     bind_a (fold_a (close_one io) \<lparr>cs_closed = 0, cs_seen = []\<rparr> unanswerable) (\<lambda>st.
       return_a (cs_closed st))))"

record pass_result =
  ps_finalized :: int
  ps_started :: nat
  ps_allowlisted :: nat
  ps_recorded :: nat
  ps_closed :: nat

text \<open>The answer is \<open>None\<close> exactly where the starts loop was not given the steps it needs.\<close>

definition runOnce ::
  "codec \<Rightarrow> (string \<Rightarrow> 8 word list) \<Rightarrow> 'w relay_io \<Rightarrow> relay_settings \<Rightarrow> int \<Rightarrow> ('w, pass_result option) cact" where
  "runOnce cd sha256 io settings now =
     bind_a (on_world (call Ev_finalizedBlock (io_finalizedBlock io))) (\<lambda>finalized.
     bind_a (if st_starts settings then on_world (runStarts io settings finalized) else return_a (Some 0)) (\<lambda>started.
       case started of
         None \<Rightarrow> return_a None
       | Some n \<Rightarrow>
           (let mode = st_maxPerOrganization settings \<noteq> None in
     bind_a (if mode then on_world (call Ev_customers (io_customers io)) else return_a []) (\<lambda>customers.
     bind_a (if mode then on_world (syncAllowlist io customers) else return_a 0) (\<lambda>allowlisted.
     bind_a (on_world (runReceipts cd sha256 io settings customers now)) (\<lambda>(recorded, unanswerable).
     bind_a (if mode then closeUnanswerable io unanswerable else return_a 0) (\<lambda>closed.
       return_a (Some \<lparr>ps_finalized = finalized, ps_started = n, ps_allowlisted = allowlisted,
         ps_recorded = recorded, ps_closed = closed\<rparr>))))))))"

subsection \<open>What closing a request rests on\<close>

text \<open>
  A request is cancelled only once in a pass and only with its credit held; a charge is committed only for a
  request of the memory or one cancelled before.
\<close>

definition close_event_ok :: "string list \<Rightarrow> relay_event list \<Rightarrow> relay_event \<Rightarrow> bool" where
  "close_event_ok old pre ev =
     (case ev of
        Ev_cancelRequest key _ \<Rightarrow>
          held (Charge_request key) pre \<and> (\<forall>answer. Ev_cancelRequest key answer \<notin> set pre)
      | Ev_commitCharge c _ \<Rightarrow>
          (\<exists>key. c = Charge_request key
             \<and> (key \<in> set old \<or> (\<exists>hash. Ev_cancelRequest key (Inr hash) \<in> set pre)))
      | Ev_reserveCharge c _ _ _ \<Rightarrow> (\<exists>key. c = Charge_request key)
      | _ \<Rightarrow> False)"

text \<open>A cancelled request is charged, or its charge is in the memory, or the commit itself threw.\<close>

definition settled_or_kept :: "relay_state \<Rightarrow> relay_event list \<Rightarrow> string \<Rightarrow> bool" where
  "settled_or_kept s l key \<longleftrightarrow>
     key \<in> fst ` set s \<or> (\<exists>a e. (a = Inr Charge_charged \<or> a = Inl e) \<and> Ev_commitCharge (Charge_request key) a \<in> set l)"

text \<open>A request of the memory stays in it until the website answers its charge.\<close>

definition answered_or_kept :: "relay_state \<Rightarrow> relay_event list \<Rightarrow> string \<Rightarrow> bool" where
  "answered_or_kept s l key \<longleftrightarrow>
     key \<in> fst ` set s \<or> (\<exists>a. (\<forall>n. a \<noteq> Charge_unavailable n) \<and> Ev_commitCharge (Charge_request key) (Inr a) \<in> set l)"

definition close_inv :: "string list \<Rightarrow> string set \<Rightarrow> relay_state \<Rightarrow> relay_event list \<Rightarrow> bool" where
  "close_inv old open_keys s l \<longleftrightarrow>
     each (close_event_ok old) l
     \<and> (\<forall>key hash. key \<notin> open_keys \<and> Ev_cancelRequest key (Inr hash) \<in> set l \<longrightarrow> settled_or_kept s l key)
     \<and> (\<forall>key \<in> set old. answered_or_kept s l key)"

lemma keys_amap_delete: "fst ` set (amap_delete k m) = fst ` set m - {k}"
  unfolding amap_delete_def by force

lemma settled_grows: "settled_or_kept s l key \<Longrightarrow> settled_or_kept s (l @ l') key"
  unfolding settled_or_kept_def by auto

lemma answer_grows: "answered_or_kept s l key \<Longrightarrow> answered_or_kept s (l @ l') key"
  unfolding answered_or_kept_def by auto

text \<open>An allowed event that cancels nothing keeps the invariant.\<close>

lemma close_inv_event:
  assumes "close_inv old X s l" and "close_event_ok old l ev" and "\<And>key hash. ev = Ev_cancelRequest key (Inr hash) \<Longrightarrow> key \<in> X"
  shows "close_inv old X s (l @ [ev])"
proof -
  have "settled_or_kept s (l @ [ev]) key" if k: "key \<notin> X" "Ev_cancelRequest key (Inr hash) \<in> set (l @ [ev])" for key hash
  proof -
    from k assms(3) have "Ev_cancelRequest key (Inr hash) \<in> set l" by auto
    with k assms(1) show ?thesis by (auto simp: close_inv_def intro: settled_grows)
  qed
  moreover have "answered_or_kept s (l @ [ev]) key" if "key \<in> set old" for key
    using that assms(1) by (auto simp: close_inv_def intro: answer_grows)
  moreover have "each (close_event_ok old) (l @ [ev])" using assms(1,2) by (simp add: close_inv_def)
  ultimately show ?thesis unfolding close_inv_def by blast
qed

lemma close_inv_open: "close_inv old {} s l \<Longrightarrow> close_inv old X s l"
  unfolding close_inv_def by simp

lemma close_inv_close:
  "close_inv old {key} s l \<Longrightarrow> settled_or_kept s l key \<Longrightarrow> close_inv old {} s l"
  unfolding close_inv_def by auto

lemma close_inv_set: "close_inv old X s l \<Longrightarrow> close_inv old X (amap_set k org s) l"
  unfolding close_inv_def settled_or_kept_def answered_or_kept_def by (auto simp: keys_amap_set)

lemma close_inv_delete:
  assumes "close_inv old {} s l" and "\<And>hash. Ev_cancelRequest k (Inr hash) \<notin> set l"
    and "\<forall>n. a \<noteq> Charge_unavailable n" and "Ev_commitCharge (Charge_request k) (Inr a) \<in> set l"
  shows "close_inv old {} (amap_delete k s) l"
proof -
  have "settled_or_kept (amap_delete k s) l key" if c: "Ev_cancelRequest key (Inr hash) \<in> set l" for key hash
  proof -
    from c assms(2) have "key \<noteq> k" by auto
    moreover from c assms(1) have "settled_or_kept s l key" by (auto simp: close_inv_def)
    ultimately show ?thesis by (auto simp: settled_or_kept_def keys_amap_delete)
  qed
  moreover have "answered_or_kept (amap_delete k s) l key" if o: "key \<in> set old" for key
  proof (cases "key = k")
    case True
    with assms(3,4) show ?thesis by (auto simp: answered_or_kept_def)
  next
    case False
    with o assms(1) show ?thesis by (auto simp: close_inv_def answered_or_kept_def keys_amap_delete)
  qed
  ultimately show ?thesis using assms(1) by (auto simp: close_inv_def)
qed

abbreviation uncancelled :: "string list \<Rightarrow> relay_state \<Rightarrow> relay_event list \<Rightarrow> bool" where
  "uncancelled old s l \<equiv> close_inv old {} s l \<and> (\<forall>key answer. Ev_cancelRequest key answer \<notin> set l)"

lemma commit_close_hoare:
  assumes "fst c \<in> set old"
  shows "hoare (uncancelled old) (commit_close io c) (\<lambda>_. uncancelled old) (close_inv old {})"
proof -
  have event: "uncancelled old s (l @ [Ev_commitCharge (Charge_request (fst c)) r])" if "uncancelled old s l" for s l r
    using that assms by (auto intro!: close_inv_event simp: close_event_ok_def)
  have called: "hoare (uncancelled old) (on_world (call (Ev_commitCharge (Charge_request (fst c))) (io_commitCharge io (Charge_request (fst c)))))
      (\<lambda>a s l. uncancelled old s l \<and> Ev_commitCharge (Charge_request (fst c)) (Inr a) \<in> set l) (close_inv old {})"
    by (rule hoare_call) (use event in auto)
  have rest: "hoare (\<lambda>s l. uncancelled old s l \<and> Ev_commitCharge (Charge_request (fst c)) (Inr a) \<in> set l)
      (case a of Charge_unavailable _ \<Rightarrow> return_a () | _ \<Rightarrow> modify_state (amap_delete (fst c)))
      (\<lambda>_. uncancelled old) (close_inv old {})" for a
    by (cases a) (auto intro!: hoare_return hoare_modify close_inv_delete [where a = a])
  show ?thesis unfolding commit_close_def by (rule hoare_bind [OF called rest])
qed

definition seen_inv :: "string list \<Rightarrow> close_state \<Rightarrow> relay_state \<Rightarrow> relay_event list \<Rightarrow> bool" where
  "seen_inv old st s l \<longleftrightarrow>
     close_inv old {} s l \<and> (\<forall>key answer. Ev_cancelRequest key answer \<in> set l \<longrightarrow> key \<in> set (cs_seen st))"

text \<open>After \<open>key\<close> was cancelled and before its charge is settled.\<close>

definition cancelled_inv :: "string list \<Rightarrow> close_state \<Rightarrow> string \<Rightarrow> relay_state \<Rightarrow> relay_event list \<Rightarrow> bool" where
  "cancelled_inv old st key s l \<longleftrightarrow>
     close_inv old {key} s l \<and> (\<forall>k answer. Ev_cancelRequest k answer \<in> set l \<longrightarrow> k \<in> set (cs_seen st))
     \<and> (\<exists>hash. Ev_cancelRequest key (Inr hash) \<in> set l)"

lemma seen_inv_mono: "seen_inv old st s l \<Longrightarrow> set (cs_seen st) \<subseteq> set (cs_seen st') \<Longrightarrow> seen_inv old st' s l"
  unfolding seen_inv_def by blast

lemma reserve_hoare:
  "hoare (seen_inv old st) (on_world (call (Ev_reserveCharge (Charge_request key) org v) f))
     (\<lambda>a s l. seen_inv old st s l \<and> (a = Charge_held \<longrightarrow> held (Charge_request key) l)) (close_inv old {})"
  by (rule hoare_call) (auto simp: seen_inv_def held_def close_event_ok_def intro!: close_inv_event)

lemma cancel_ok:
  "seen_inv old st s l \<Longrightarrow> held (Charge_request key) l \<Longrightarrow> key \<notin> set (cs_seen st)
     \<Longrightarrow> close_event_ok old l (Ev_cancelRequest key r)"
  unfolding close_event_ok_def seen_inv_def by auto

lemma cancel_hoare:
  assumes "key \<notin> set (cs_seen st)" and "cs_seen st' = key # cs_seen st"
  shows "hoare (\<lambda>s l. seen_inv old st s l \<and> held (Charge_request key) l)
     (attempt (on_world (call (Ev_cancelRequest key) f)))
     (\<lambda>r s l. case r of Inl _ \<Rightarrow> seen_inv old st' s l | Inr _ \<Rightarrow> cancelled_inv old st' key s l) (close_inv old {})"
proof (rule hoare_attempt, rule hoare_call)
  fix s l
  { fix a assume h: "seen_inv old st s l \<and> held (Charge_request key) l"
    then have "close_inv old {key} s (l @ [Ev_cancelRequest key (Inr a)])"
      using cancel_ok assms(1) by (intro close_inv_event) (auto simp: seen_inv_def intro: close_inv_open)
    with h assms(2) show "case Inr a of Inl _ \<Rightarrow> seen_inv old st' s (l @ [Ev_cancelRequest key (Inr a)])
        | Inr _ \<Rightarrow> cancelled_inv old st' key s (l @ [Ev_cancelRequest key (Inr a)])"
      by (auto simp: seen_inv_def cancelled_inv_def) }
  fix e assume h: "seen_inv old st s l \<and> held (Charge_request key) l"
  then have "close_inv old {} s (l @ [Ev_cancelRequest key (Inl e)])"
    using cancel_ok assms(1) by (intro close_inv_event) (auto simp: seen_inv_def)
  with h assms(2) show "\<forall>e'. case Inl e' of Inl _ \<Rightarrow> seen_inv old st' s (l @ [Ev_cancelRequest key (Inl e)])
        | Inr _ \<Rightarrow> cancelled_inv old st' key s (l @ [Ev_cancelRequest key (Inl e)])"
    by (auto simp: seen_inv_def)
qed

lemma commit_hoare:
  "hoare (cancelled_inv old st key) (on_world (call (Ev_commitCharge (Charge_request key)) f))
     (\<lambda>a s l. cancelled_inv old st key s l \<and> Ev_commitCharge (Charge_request key) (Inr a) \<in> set l) (close_inv old {})"
proof (rule hoare_call)
  have ok: "close_inv old {key} s (l @ [Ev_commitCharge (Charge_request key) r])" if "cancelled_inv old st key s l" for s l r
    using that by (intro close_inv_event) (auto simp: cancelled_inv_def close_event_ok_def)
  fix s l
  show "cancelled_inv old st key s (l @ [Ev_commitCharge (Charge_request key) (Inr a)])
      \<and> Ev_commitCharge (Charge_request key) (Inr a) \<in> set (l @ [Ev_commitCharge (Charge_request key) (Inr a)])"
    if "cancelled_inv old st key s l" for a
    using ok [OF that] that by (auto simp: cancelled_inv_def)
  show "close_inv old {} s (l @ [Ev_commitCharge (Charge_request key) (Inl e)])" if "cancelled_inv old st key s l" for e
    by (rule close_inv_close [OF ok [OF that]]) (auto simp: settled_or_kept_def)
qed

lemma keep_hoare:
  "hoare (\<lambda>s l. cancelled_inv old st key s l \<and> Ev_commitCharge (Charge_request key) (Inr a) \<in> set l)
     (if a = Charge_charged then return_a () else modify_state (amap_set key org))
     (\<lambda>_. seen_inv old st) (close_inv old {})"
proof -
  have charged: "seen_inv old st s l"
    if "cancelled_inv old st key s l" "Ev_commitCharge (Charge_request key) (Inr Charge_charged) \<in> set l" for s l
    using that close_inv_close [of old key s l] by (auto simp: seen_inv_def cancelled_inv_def settled_or_kept_def)
  have kept: "seen_inv old st (amap_set key org s) l" if "cancelled_inv old st key s l" for s l
    using that close_inv_close [of old key "amap_set key org s" l] close_inv_set [of old "{key}" s l key org]
    by (auto simp: seen_inv_def cancelled_inv_def settled_or_kept_def keys_amap_set)
  show ?thesis using charged kept by (auto intro: hoare_return hoare_modify)
qed

lemma settle_hoare:
  "hoare (cancelled_inv old st key)
     (bind_a (on_world (call (Ev_commitCharge (Charge_request key)) f)) (\<lambda>committed.
        bind_a (if committed = Charge_charged then return_a () else modify_state (amap_set key org)) (\<lambda>_.
          return_a (st\<lparr>cs_closed := n\<rparr>)))) (seen_inv old) (close_inv old {})"
  by (rule hoare_bind [OF commit_hoare], rule hoare_bind [OF keep_hoare], rule hoare_return) (simp add: seen_inv_def)

lemma close_one_hoare: "hoare (seen_inv old st) (close_one io st u) (seen_inv old) (close_inv old {})"
proof (cases "or_key (ua_request u) \<in> set (cs_seen st)")
  case True
  then show ?thesis by (auto simp: close_one_def Let_def intro: hoare_return)
next
  case False
  define key where "key = or_key (ua_request u)"
  define seen where "seen = st\<lparr>cs_seen := key # cs_seen st\<rparr>"
  have new: "key \<notin> set (cs_seen st)" and seen: "cs_seen seen = key # cs_seen st"
    using False by (simp_all add: key_def seen_def)
  let ?settle = "\<lambda>f org. bind_a (on_world (call (Ev_commitCharge (Charge_request key)) f)) (\<lambda>committed.
        bind_a (if committed = Charge_charged then return_a () else modify_state (amap_set key org)) (\<lambda>_.
          return_a (seen\<lparr>cs_closed := cs_closed st + 1\<rparr>)))"
  have outcome: "hoare (\<lambda>s l. case r of Inl _ \<Rightarrow> seen_inv old seen s l | Inr _ \<Rightarrow> cancelled_inv old seen key s l)
      (case r of Inl _ \<Rightarrow> return_a seen | Inr _ \<Rightarrow> ?settle f org) (seen_inv old) (close_inv old {})"
    for r :: "string + string" and f org
    by (cases r) (auto intro: hoare_return settle_hoare)
  have rest: "hoare (\<lambda>s l. seen_inv old st s l \<and> (a = Charge_held \<longrightarrow> held (Charge_request key) l))
      (if a \<noteq> Charge_held then return_a seen
       else bind_a (attempt (on_world (call (Ev_cancelRequest key) g)))
         (\<lambda>r. case r of Inl _ \<Rightarrow> return_a seen | Inr _ \<Rightarrow> ?settle f org)) (seen_inv old) (close_inv old {})" for a g f org
  proof (cases "a = Charge_held")
    case True
    show ?thesis unfolding True
      by (simp only: simp_thms if_False) (rule hoare_bind [OF cancel_hoare [OF new seen] outcome])
  next
    case False
    then show ?thesis using seen by (auto intro!: hoare_return elim!: seen_inv_mono)
  qed
  from hoare_bind [OF reserve_hoare rest] False show ?thesis
    by (simp only: close_one_def Let_def key_def seen_def if_False)
qed

lemma closeUnanswerable_hoare:
  "hoare (\<lambda>s l. s = s0 \<and> l = []) (closeUnanswerable io us) (\<lambda>_. close_inv (map fst s0) {}) (close_inv (map fst s0) {})"
proof -
  let ?old = "map fst s0"
  have start: "hoare (\<lambda>s l. s = s0 \<and> l = []) get_state (\<lambda>a s l. a = s0 \<and> uncancelled ?old s l) (close_inv ?old {})"
    by (rule hoare_get) (simp add: close_inv_def answered_or_kept_def)
  have commits: "hoare (uncancelled ?old) (fold_a (\<lambda>_. commit_close io) () s0) (\<lambda>_. uncancelled ?old) (close_inv ?old {})"
    by (rule hoare_fold) (simp add: commit_close_hoare)
  have closes: "hoare (seen_inv ?old \<lparr>cs_closed = 0, cs_seen = []\<rparr>)
      (fold_a (close_one io) \<lparr>cs_closed = 0, cs_seen = []\<rparr> us) (seen_inv ?old) (close_inv ?old {})"
    by (rule hoare_fold) (rule close_one_hoare)
  have closes': "hoare (uncancelled ?old)
      (bind_a (fold_a (close_one io) \<lparr>cs_closed = 0, cs_seen = []\<rparr> us) (\<lambda>st. return_a (cs_closed st)))
      (\<lambda>_. close_inv ?old {}) (close_inv ?old {})"
    by (rule hoare_bind [OF hoare_pre [OF closes]], simp add: seen_inv_def)
      (rule hoare_return, simp add: seen_inv_def)
  have rest: "hoare (\<lambda>s l. a = s0 \<and> uncancelled ?old s l)
      (bind_a (fold_a (\<lambda>_. commit_close io) () a) (\<lambda>_.
        bind_a (fold_a (close_one io) \<lparr>cs_closed = 0, cs_seen = []\<rparr> us) (\<lambda>st. return_a (cs_closed st))))
      (\<lambda>_. close_inv ?old {}) (close_inv ?old {})" for a
  proof (cases "a = s0")
    case True
    with hoare_bind [OF commits closes'] show ?thesis by simp
  qed (simp add: hoare_def)
  show ?thesis unfolding closeUnanswerable_def by (rule hoare_bind [OF start rest])
qed

lemma close_inv_run:
  assumes "closeUnanswerable io us ((w, s0), []) = (r, ((w', s), l))"
  shows "close_inv (map fst s0) {} s l"
  using hoareD [OF closeUnanswerable_hoare _ assms, of s0] by (cases r) simp_all

text \<open>
  C34. No charge for closing a request is ever lost. Whatever the chain and the website answer and wherever the
  pass ends, a request the pass cancelled is charged, or its charge is in the memory the next pass retries, or
  the very call that commits it threw; and a charge that was in the memory is still there unless the website
  answered its commit.
\<close>

theorem close_charges_never_lost:
  assumes "closeUnanswerable io us ((w, s0), []) = (r, ((w', s), l))"
  shows "(\<forall>key hash. Ev_cancelRequest key (Inr hash) \<in> set l \<longrightarrow>
      key \<in> fst ` set s \<or> Ev_commitCharge (Charge_request key) (Inr Charge_charged) \<in> set l
      \<or> (\<exists>e. Ev_commitCharge (Charge_request key) (Inl e) \<in> set l))
    \<and> (\<forall>key \<in> fst ` set s0. key \<in> fst ` set s
      \<or> (\<exists>answer. (\<forall>n. answer \<noteq> Charge_unavailable n) \<and> Ev_commitCharge (Charge_request key) (Inr answer) \<in> set l))"
  using close_inv_run [OF assms] unfolding close_inv_def settled_or_kept_def answered_or_kept_def by auto

text \<open>
  A request is closed only with its credit held, and charged only once it is closed: a cancel is sent only
  after the website held the charge for that very request, at most once in a pass, and a charge is committed
  only for a request cancelled before in this pass or left over from an earlier one.
\<close>

theorem close_only_with_hold:
  assumes "closeUnanswerable io us ((w, s0), []) = (r, ((w', s), l))" and "l = before @ ev # after"
  shows "(\<forall>key answer. ev = Ev_cancelRequest key answer \<longrightarrow>
      (\<exists>org via. Ev_reserveCharge (Charge_request key) org via (Inr Charge_held) \<in> set before)
      \<and> (\<forall>earlier. Ev_cancelRequest key earlier \<notin> set before))
    \<and> (\<forall>c answer. ev = Ev_commitCharge c answer \<longrightarrow>
      (\<exists>key. c = Charge_request key
        \<and> (key \<in> fst ` set s0 \<or> (\<exists>hash. Ev_cancelRequest key (Inr hash) \<in> set before))))"
proof -
  from close_inv_run [OF assms(1)] have "each (close_event_ok (map fst s0)) l" by (simp add: close_inv_def)
  from eachD [OF this assms(2)] show ?thesis by (auto simp: close_event_ok_def held_def)
qed

definition demo_close :: unanswerable_item where
  "demo_close = \<lparr>ua_request = demo_request, ua_organizationId = ''acme'', ua_reason = []\<rparr>"

text \<open>A website that holds every charge and cannot be reached for the commits.\<close>

definition demo_offline :: "unit relay_io" where
  "demo_offline = quiet_relay\<lparr>io_commitCharge := (\<lambda>_ w. (Inr (Charge_unavailable 0), w))\<rparr>"

lemma demo_offline_run:
  "closeUnanswerable demo_offline [demo_close, demo_close] (((), [(''0x4'', ''acme'')]), [])
     = (Inr 1, (((), [(''0x4'', ''acme''), (''0x5'', ''acme'')]),
        [Ev_commitCharge (Charge_request ''0x4'') (Inr (Charge_unavailable 0)),
         Ev_reserveCharge (Charge_request ''0x5'') ''acme'' (Via_requester ''0xA'') (Inr Charge_held),
         Ev_cancelRequest ''0x5'' (Inr ''0x3''),
         Ev_commitCharge (Charge_request ''0x5'') (Inr (Charge_unavailable 0))]))"
  by code_simp

theorem close_charges_never_lost_witness:
  "\<exists>s l. snd (closeUnanswerable demo_offline [demo_close, demo_close] (((), [(''0x4'', ''acme'')]), [])) = (((), s), l)
     \<and> Ev_cancelRequest ''0x5'' (Inr ''0x3'') \<in> set l \<and> ''0x5'' \<in> fst ` set s \<and> ''0x4'' \<in> fst ` set s"
  using close_charges_never_lost [OF demo_offline_run] by (simp add: demo_offline_run)

theorem close_only_with_hold_witness:
  "\<exists>before after. snd (snd (closeUnanswerable demo_offline [demo_close, demo_close] (((), [(''0x4'', ''acme'')]), [])))
       = before @ Ev_cancelRequest ''0x5'' (Inr ''0x3'') # after
     \<and> (\<exists>org via. Ev_reserveCharge (Charge_request ''0x5'') org via (Inr Charge_held) \<in> set before)"
proof -
  let ?before = "[Ev_commitCharge (Charge_request ''0x4'') (Inr (Charge_unavailable 0)),
         Ev_reserveCharge (Charge_request ''0x5'') ''acme'' (Via_requester ''0xA'') (Inr Charge_held)]"
  let ?after = "[Ev_commitCharge (Charge_request ''0x5'') (Inr (Charge_unavailable 0))]"
  have l: "snd (snd (closeUnanswerable demo_offline [demo_close, demo_close] (((), [(''0x4'', ''acme'')]), [])))
       = ?before @ Ev_cancelRequest ''0x5'' (Inr ''0x3'') # ?after" by (simp add: demo_offline_run)
  have "\<exists>org via. Ev_reserveCharge (Charge_request ''0x5'') org via (Inr Charge_held) \<in> set ?before"
    using close_only_with_hold [OF demo_offline_run, of ?before "Ev_cancelRequest ''0x5'' (Inr ''0x3'')" ?after]
    by simp
  with l show ?thesis by blast
qed

end
