(* ===== verification/StartWorkflow.thy ===== *)
theory StartWorkflow
  imports Studio Effects
begin

text \<open>
  The CRE workflow that starts transfers (\<open>packages/cre/workflows/start-transfer/workflow.ts\<close>): one Studio
  webhook post per \<open>TransferRequested\<close> log. Secrets, the clock and the posts of the nodes under identical
  consensus are operations of a parameter. Text is its UTF-8 bytes.
\<close>

record webhook_secrets =
  ws_url :: string
  ws_signingSecret :: string

definition TRANSFER_WEBHOOK :: webhook_secrets where
  "TRANSFER_WEBHOOK = \<lparr>ws_url = ''STUDIO_WEBHOOK_URL'', ws_signingSecret = ''STUDIO_WEBHOOK_SIGNING_SECRET''\<rparr>"

definition ROOM_WEBHOOK :: webhook_secrets where
  "ROOM_WEBHOOK = \<lparr>ws_url = ''STUDIO_ROOM_WEBHOOK_URL'', ws_signingSecret = ''STUDIO_ROOM_WEBHOOK_SIGNING_SECRET''\<rparr>"

record start_config =
  sc_chainSelectorName :: string
  sc_receiptsAddress :: string
  sc_signDeliveries :: bool
  sc_startRoomDeliveries :: bool
  sc_startJobs :: bool

definition webhookSecretsFor :: "int \<Rightarrow> start_config \<Rightarrow> webhook_secrets option" where
  "webhookSecretsFor kind starts =
     (if kind = TransferKind_Standard then Some TRANSFER_WEBHOOK
      else if (kind = TransferKind_RoomDelivery \<and> sc_startRoomDeliveries starts) \<or> (kind = TransferKind_Job \<and> sc_startJobs starts)
        then Some ROOM_WEBHOOK
      else None)"

record webhook_delivery =
  wd_url :: string
  wd_requestId :: string
  wd_body :: string
  wd_timestampSeconds :: int
  wd_signature :: "string option"

text \<open>A decoded \<open>TransferRequested\<close> log.\<close>

record transfer_requested =
  tq_removed :: bool
  tq_requestId :: string
  tq_requester :: string
  tq_kind :: int
  tq_input :: string

record http_post =
  hp_url :: string
  hp_headers :: "(string \<times> string) list"
  hp_body :: string

definition bytes_of :: "string \<Rightarrow> 8 word list" where
  "bytes_of s = map (\<lambda>c. word_of_nat (of_char c)) s"

text \<open>What each node posts: the capability takes the body in base64 and sends its bytes.\<close>

definition studio_post :: "webhook_delivery \<Rightarrow> http_post" where
  "studio_post delivery =
     \<lparr>hp_url = wd_url delivery,
      hp_headers = [(''content-type'', ''application/json''), (''idempotency-key'', wd_requestId delivery)]
        @ (case wd_signature delivery of
             None \<Rightarrow> []
           | Some signature \<Rightarrow>
               if signature = [] then []
               else [(''x-beam-timestamp'', show_int (wd_timestampSeconds delivery)), (''x-beam-signature'', signature)]),
      hp_body = toBase64 (bytes_of (wd_body delivery))\<rparr>"

definition postToStudio ::
  "(http_post \<Rightarrow> 'w \<Rightarrow> (string + int \<times> string) \<times> 'w) \<Rightarrow> webhook_delivery \<Rightarrow> 'w \<Rightarrow> (string + studio_outcome) \<times> 'w" where
  "postToStudio send delivery w =
     (case send (studio_post delivery) w of
        (Inl e, w') \<Rightarrow> (Inl e, w')
      | (Inr (statusCode, body), w') \<Rightarrow> (Inr (projectStudioResponse statusCode body), w'))"

definition describeOutcome :: "string \<Rightarrow> studio_outcome \<Rightarrow> string + string" where
  "describeOutcome requestId outcome =
     (case outcome of
        Studio_accepted runId \<Rightarrow>
          Inr (case runId of
             Some (c # cs) \<Rightarrow> ''start: '' @ requestId @ '' accepted as Studio run '' @ c # cs
           | _ \<Rightarrow> ''start: '' @ requestId @ '' accepted into a coalescing window'')
      | Studio_refused status reason \<Rightarrow>
          Inl (''Studio refused '' @ requestId @ '' with HTTP '' @ show_int status
            @ (case reason of Some (c # cs) \<Rightarrow> '' ('' @ c # cs @ '')'' | _ \<Rightarrow> []))
      | Studio_unavailable status \<Rightarrow>
          Inl (''Studio was unavailable for '' @ requestId @ '' (HTTP ''
            @ (if status = 0 then ''none'' else show_int status) @ '')''))"

definition delivery_of ::
  "(string \<Rightarrow> string \<Rightarrow> 8 word list) \<Rightarrow> string \<Rightarrow> string \<Rightarrow> string \<Rightarrow> string \<Rightarrow> string option \<Rightarrow> int \<Rightarrow> webhook_delivery" where
  "delivery_of hmac_sha256 requestId requester input url signingSecret ms =
     (let body = webhookBody requestId requester input; timestampSeconds = ms div 1000 in
      \<lparr>wd_url = url, wd_requestId = requestId, wd_body = body, wd_timestampSeconds = timestampSeconds,
       wd_signature = map_option (\<lambda>s. webhookSignature hmac_sha256 s timestampSeconds body) signingSecret\<rparr>)"

datatype start_event =
  St_getSecrets "string list" "string + (string \<times> string) list"
| St_now "string + int"
| St_post webhook_delivery "string + studio_outcome"

record 'w start_io =
  si_getSecrets :: "string list \<Rightarrow> 'w \<Rightarrow> (string + (string \<times> string) list) \<times> 'w"
  si_now :: "'w \<Rightarrow> (string + int) \<times> 'w"
  si_post :: "webhook_delivery \<Rightarrow> 'w \<Rightarrow> (string + studio_outcome) \<times> 'w"

definition secret_value :: "(string \<times> string) list \<Rightarrow> string \<Rightarrow> string + string" where
  "secret_value secrets name = (case map_of secrets name of None \<Rightarrow> Inl ''TypeError'' | Some v \<Rightarrow> Inr v)"

definition onTransferRequested ::
  "(string \<Rightarrow> string \<Rightarrow> 8 word list) \<Rightarrow> 'w start_io \<Rightarrow> start_config \<Rightarrow> transfer_requested \<Rightarrow> ('w, start_event, string) act" where
  "onTransferRequested hmac_sha256 io cf ev =
     (if tq_removed ev then return_a ''Ignored a request log removed by a reorg''
      else
        bind_a (lift_a (normalizeRequestId (tq_requestId ev))) (\<lambda>requestId.
          case webhookSecretsFor (tq_kind ev) cf of
            None \<Rightarrow> return_a (''start: '' @ requestId @ '' is a kind '' @ show_int (tq_kind ev)
                @ '' request, which this deployment does not start'')
          | Some webhook \<Rightarrow>
              (let names = (if sc_signDeliveries cf then [ws_url webhook, ws_signingSecret webhook] else [ws_url webhook]) in
               bind_a (call (St_getSecrets names) (si_getSecrets io names)) (\<lambda>secrets.
               bind_a (call St_now (si_now io)) (\<lambda>ms.
               bind_a (lift_a (secret_value secrets (ws_url webhook))) (\<lambda>url.
               bind_a (if sc_signDeliveries cf then bind_a (lift_a (secret_value secrets (ws_signingSecret webhook))) (\<lambda>s. return_a (Some s))
                       else return_a None) (\<lambda>signingSecret.
                 let delivery = delivery_of hmac_sha256 requestId (tq_requester ev) (tq_input ev) url signingSecret ms in
                 bind_a (call (St_post delivery) (si_post io delivery)) (\<lambda>outcome.
                   lift_a (describeOutcome requestId outcome)))))))))"

end
