(* ===== verification/RelayIO.thy ===== *)
theory RelayIO
  imports RelayClose Observe StartWorkflow
begin

text \<open>
  The relay's outside (\<open>packages/cre/relay/io.ts\<close>): how each operation of \<open>relay_io\<close> is done with the network, the
  chain library, the file system and the clock. Those are the parameter \<open>services\<close>; an operation may throw.
  Opening a sealed key is a parameter too (\<open>sealed-box.ts\<close>, cryptography).
\<close>

subsection \<open>Operations that may throw\<close>

type_synonym ('w, 'a) op = "'w \<Rightarrow> (string + 'a) \<times> 'w"

definition return_w :: "'a \<Rightarrow> ('w, 'a) op" where
  "return_w a w = (Inr a, w)"

definition throw_w :: "string \<Rightarrow> ('w, 'a) op" where
  "throw_w e w = (Inl e, w)"

definition lift_w :: "string + 'a \<Rightarrow> ('w, 'a) op" where
  "lift_w r w = (r, w)"

definition bind_w :: "('w, 'a) op \<Rightarrow> ('a \<Rightarrow> ('w, 'b) op) \<Rightarrow> ('w, 'b) op" where
  "bind_w m f w = (case m w of (Inl e, w') \<Rightarrow> (Inl e, w') | (Inr a, w') \<Rightarrow> f a w')"

lemma bind_w_simps [simp, js_simps]:
  "m w = (Inl e, w') \<Longrightarrow> bind_w m f w = (Inl e, w')"
  "m w = (Inr a, w') \<Longrightarrow> bind_w m f w = f a w'"
  by (simp_all add: bind_w_def)

subsection \<open>Configuration and services\<close>

record relay_config =
  rc_chainId :: int
  rc_receiptsAddress :: string
  rc_beamApiBaseUrl :: string
  rc_roomApiBaseUrl :: string
  rc_beamClientId :: string
  rc_cursorPath :: string
  rc_customers :: "(string \<times> string) option"

text \<open>A secret the environment does not set is absent.\<close>

record relay_secrets =
  rs_beamApiKey :: string
  rs_beamOrgId :: "string option"
  rs_studioWebhookUrl :: "string option"
  rs_studioSigningSecret :: "string option"
  rs_studioRoomWebhookUrl :: "string option"
  rs_studioRoomSigningSecret :: "string option"
  rs_onchainRelaySecret :: "string option"
  rs_sealingPrivateKey :: string

record http_call =
  hc_method :: string
  hc_url :: string
  hc_headers :: "(string \<times> string) list"
  hc_body :: "string option"

datatype contract_write = Write_onReport string | Write_setRequester string bool | Write_cancelRequest string

text \<open>The two events a mined report may carry, with the contract that emitted them.\<close>

datatype receipt_event = Ev_ReceiptRecorded string | Ev_RoomReceiptRecorded string

datatype file_answer = File_missing | File_failed string | File_text string

record 'w services =
  sv_fetch :: "http_call \<Rightarrow> ('w, int \<times> string) op"
  sv_now :: "'w \<Rightarrow> int \<times> 'w"
  sv_finalized :: "('w, int) op"
  sv_getLogs :: "string \<Rightarrow> int \<Rightarrow> int \<Rightarrow> ('w, request_log list) op"
  sv_openRequestCount :: "string \<Rightarrow> ('w, int) op"
  sv_openRequests :: "string \<Rightarrow> int \<Rightarrow> int \<Rightarrow> ('w, open_request list) op"
  sv_writeContract :: "string \<Rightarrow> contract_write \<Rightarrow> ('w, string) op"
  sv_waitForReceipt :: "string \<Rightarrow> ('w, bool \<times> (string \<times> receipt_event) list) op"
  sv_readFile :: "string \<Rightarrow> 'w \<Rightarrow> file_answer \<times> 'w"
  sv_writeFile :: "string \<Rightarrow> string \<Rightarrow> ('w, unit) op"
  sv_rename :: "string \<Rightarrow> string \<Rightarrow> ('w, unit) op"
  sv_openSealed :: "string \<Rightarrow> string \<Rightarrow> string \<Rightarrow> string + string"
  sv_hmac :: "string \<Rightarrow> string \<Rightarrow> 8 word list"

definition fetchBytes :: "'w services \<Rightarrow> http_call \<Rightarrow> ('w, (int \<times> string) option) op" where
  "fetchBytes sv request w =
     (case sv_fetch sv request w of (Inl _, w') \<Rightarrow> (Inr None, w') | (Inr response, w') \<Rightarrow> (Inr (Some response), w'))"

definition get_call :: "http_get \<Rightarrow> http_call" where
  "get_call g = \<lparr>hc_method = ''GET'', hc_url = hg_url g, hc_headers = hg_headers g, hc_body = None\<rparr>"

definition readerKey :: "relay_secrets \<Rightarrow> customer_reader option \<Rightarrow> string \<times> string option" where
  "readerKey secrets reader =
     (case reader of
        Some r \<Rightarrow> (cr_apiKey r, Some (cr_organizationId r))
      | None \<Rightarrow> (rs_beamApiKey secrets, rs_beamOrgId secrets))"

definition given :: "string option \<Rightarrow> string option" where
  "given s = (case s of Some (c # cs) \<Rightarrow> Some (c # cs) | _ \<Rightarrow> None)"

definition registry ::
  "'w services \<Rightarrow> relay_config \<Rightarrow> relay_secrets \<Rightarrow> string \<Rightarrow> string \<Rightarrow> json option \<Rightarrow> ('w, (int \<times> string) option) op" where
  "registry sv cf secrets meth path body =
     fetchBytes sv
       \<lparr>hc_method = meth,
        hc_url = (case rc_customers cf of None \<Rightarrow> [] | Some c \<Rightarrow> fst c) @ ''/api/onchain-receipts/'' @ path,
        hc_headers = [(''accept'', ''application/json''), (''x-onchain-relay-secret'', coalesce (rs_onchainRelaySecret secrets) [])]
          @ (case body of None \<Rightarrow> [] | Some _ \<Rightarrow> [(''content-type'', ''application/json'')]),
        hc_body = map_option stringify body\<rparr>"

subsection \<open>The chain\<close>

definition normalize_log :: "request_log \<Rightarrow> string + request_log" where
  "normalize_log l = (case normalizeRequestId (tl_requestId l) of Inl e \<Rightarrow> Inl e | Inr r \<Rightarrow> Inr (l\<lparr>tl_requestId := r\<rparr>))"

fun map_r :: "('a \<Rightarrow> string + 'b) \<Rightarrow> 'a list \<Rightarrow> string + 'b list" where
  "map_r f [] = Inr []"
| "map_r f (x # xs) =
     (case f x of Inl e \<Rightarrow> Inl e | Inr y \<Rightarrow> (case map_r f xs of Inl e \<Rightarrow> Inl e | Inr ys \<Rightarrow> Inr (y # ys)))"

definition transferRequests :: "'w services \<Rightarrow> relay_config \<Rightarrow> int \<Rightarrow> int \<Rightarrow> ('w, request_log list) op" where
  "transferRequests sv cf fromBlock toBlock =
     bind_w (sv_getLogs sv (rc_receiptsAddress cf) fromBlock toBlock) (\<lambda>logs. lift_w (map_r normalize_log logs))"

definition OPEN_REQUEST_PAGE :: int where "OPEN_REQUEST_PAGE = 50"

function request_pages :: "'w services \<Rightarrow> relay_config \<Rightarrow> int \<Rightarrow> int \<Rightarrow> open_request list \<Rightarrow> ('w, open_request list) op" where
  "request_pages sv cf count offset requests =
     (if offset < count then
        bind_w (sv_openRequests sv (rc_receiptsAddress cf) offset OPEN_REQUEST_PAGE) (\<lambda>page.
          request_pages sv cf count (offset + OPEN_REQUEST_PAGE) (requests @ page))
      else return_w requests)"
  by auto
termination
  by (relation "measure (\<lambda>(sv, cf, count, offset, requests). nat (count - offset))") (auto simp: OPEN_REQUEST_PAGE_def)

declare request_pages.simps [simp del]

definition openRequests :: "'w services \<Rightarrow> relay_config \<Rightarrow> ('w, open_request list) op" where
  "openRequests sv cf =
     bind_w (sv_openRequestCount sv (rc_receiptsAddress cf)) (\<lambda>count. request_pages sv cf count 0 [])"

text \<open>A write that is mined and did not revert.\<close>

definition written ::
  "'w services \<Rightarrow> relay_config \<Rightarrow> string \<Rightarrow> contract_write \<Rightarrow> ('w, string \<times> (string \<times> receipt_event) list) op" where
  "written sv cf name c =
     bind_w (sv_writeContract sv (rc_receiptsAddress cf) c) (\<lambda>hash.
     bind_w (sv_waitForReceipt sv hash) (\<lambda>(success, events).
       if success then return_w (hash, events) else throw_w (name @ '' reverted in '' @ hash)))"

definition event_key :: "receipt_event \<Rightarrow> string + string" where
  "event_key ev =
     (case ev of
        Ev_ReceiptRecorded transferId \<Rightarrow>
          (case bytes16ToTransferId transferId of Inl e \<Rightarrow> Inl e | Inr t \<Rightarrow> Inr (recordedKey (Charge_transfer t)))
      | Ev_RoomReceiptRecorded roomKey \<Rightarrow> Inr (recordedKey (Charge_room roomKey)))"

definition writeReport :: "'w services \<Rightarrow> relay_config \<Rightarrow> string \<Rightarrow> ('w, string \<times> string list) op" where
  "writeReport sv cf report =
     bind_w (written sv cf ''onReport'' (Write_onReport report)) (\<lambda>(hash, events).
     bind_w (lift_w (map_r event_key
         (map snd (filter (\<lambda>(address, _). to_lower address = to_lower (rc_receiptsAddress cf)) events)))) (\<lambda>keys.
       return_w (hash, remdups keys)))"

definition setRequester :: "'w services \<Rightarrow> relay_config \<Rightarrow> string \<Rightarrow> bool \<Rightarrow> ('w, string) op" where
  "setRequester sv cf address allowed =
     bind_w (written sv cf ''setRequester'' (Write_setRequester address allowed)) (\<lambda>(hash, _). return_w hash)"

definition cancelRequest :: "'w services \<Rightarrow> relay_config \<Rightarrow> string \<Rightarrow> ('w, string) op" where
  "cancelRequest sv cf key =
     bind_w (written sv cf ''cancelRequest'' (Write_cancelRequest key)) (\<lambda>(hash, _). return_w hash)"

subsection \<open>Studio\<close>

definition deliver :: "'w services \<Rightarrow> relay_secrets \<Rightarrow> request_log \<Rightarrow> workflow \<Rightarrow> ('w, studio_outcome) op" where
  "deliver sv secrets request workflow w =
     (let url = (case workflow of Wf_room \<Rightarrow> rs_studioRoomWebhookUrl secrets | Wf_transfer \<Rightarrow> rs_studioWebhookUrl secrets);
          signingSecret = (case workflow of Wf_room \<Rightarrow> rs_studioRoomSigningSecret secrets
             | Wf_transfer \<Rightarrow> rs_studioSigningSecret secrets);
          name = (case workflow of Wf_room \<Rightarrow> ''room'' | Wf_transfer \<Rightarrow> ''transfer'') in
      case given url of
        None \<Rightarrow> (Inr (Studio_refused 0 (Some (''no '' @ name @ '' workflow webhook is configured''))), w)
      | Some url \<Rightarrow>
          (let body = webhookBody (tl_requestId request) (tl_requester request) (tl_input request) in
           case sv_now sv w of (ms, w1) \<Rightarrow>
             (let timestamp = ms div 1000;
                  headers = [(''content-type'', ''application/json''), (''idempotency-key'', tl_requestId request)]
                    @ (case given signingSecret of
                         None \<Rightarrow> []
                       | Some s \<Rightarrow> [(''x-beam-timestamp'', show_int timestamp),
                           (''x-beam-signature'', webhookSignature (sv_hmac sv) s timestamp body)]) in
              bind_w (fetchBytes sv \<lparr>hc_method = ''POST'', hc_url = url, hc_headers = headers, hc_body = Some body\<rparr>)
                (\<lambda>response. return_w (case response of
                     Some (status, answer) \<Rightarrow> projectStudioResponse status answer
                   | None \<Rightarrow> Studio_unavailable 0)) w1)))"

subsection \<open>Beam\<close>

definition findPublication ::
  "'w services \<Rightarrow> relay_config \<Rightarrow> relay_secrets \<Rightarrow> subject \<Rightarrow> customer_reader option \<Rightarrow> ('w, publication_lookup) op" where
  "findPublication sv cf secrets subject reader =
     (let key = readerKey secrets reader in
      case given (snd key) of
        None \<Rightarrow> return_w (Lookup_invalid ''BEAM_ORG_ID is not set, so Room publications cannot be looked up'')
      | Some organizationId \<Rightarrow>
          (case subject of
             RoomRequest_subject room channel publisherMemberId requestId \<Rightarrow>
               bind_w (lift_w (roomRequestPublicationKey requestId)) (\<lambda>publicationKey.
                 let path = ''studio/v1/rooms/'' @ encodeURIComponent room @ ''/channels/'' @ encodeURIComponent channel
                       @ ''/publications/by-key'';
                     query = ''publisher='' @ encodeURIComponent publisherMemberId @ ''&key='' @ encodeURIComponent publicationKey in
                 bind_w (fetchBytes sv
                     \<lparr>hc_method = ''GET'', hc_url = rc_roomApiBaseUrl cf @ ''/'' @ path @ ''?'' @ query,
                      hc_headers = [(''accept'', ''application/json''), (''authorization'', ''Bearer '' @ fst key),
                        (''x-beam-organization-id'', organizationId)], hc_body = None\<rparr>) (\<lambda>response.
                   return_w (case response of
                       Some (status, body) \<Rightarrow> projectPublicationLookup status body | None \<Rightarrow> Lookup_unavailable)))
           | _ \<Rightarrow> throw_w ''TypeError''))"

text \<open>The path's odd parts are escaped.\<close>

fun escape_odd :: "bool \<Rightarrow> string list \<Rightarrow> string list" where
  "escape_odd esc [] = []"
| "escape_odd esc (part # parts) = (if esc then encodeURIComponent part else part) # escape_odd (\<not> esc) parts"

definition observe_io ::
  "(string \<Rightarrow> 8 word list) \<Rightarrow> 'w services \<Rightarrow> relay_config \<Rightarrow> relay_secrets \<Rightarrow> subject \<Rightarrow> customer_reader option \<Rightarrow> ('w, observation) op" where
  "observe_io sha256 sv cf secrets subject reader =
     (let key = readerKey secrets reader in
      case subject of
        Transfer_subject transferId _ \<Rightarrow>
          bind_w (fetchBytes sv
              \<lparr>hc_method = ''GET'', hc_url = rc_beamApiBaseUrl cf @ ''/transfers/'' @ transferId @ ''/receipt'',
               hc_headers = [(''accept'', ''application/json''), (''x-api-key'', fst key)], hc_body = None\<rparr>) (\<lambda>response.
            return_w (case response of Some (status, body) \<Rightarrow> projectTransfer status body transferId | None \<Rightarrow> Obs_unavailable))
      | Room_subject room channel publication _ \<Rightarrow>
          (case given (snd key) of
             None \<Rightarrow> return_w (Obs_invalid ''BEAM_ORG_ID is not set, so Room receipts cannot be read'')
           | Some organizationId \<Rightarrow>
               (let path = join_with ''/'' (escape_odd False
                      [''studio/v1/rooms'', room, ''channels'', channel, ''objects'', publication, ''receipt'']) in
                bind_w (fetchBytes sv
                    \<lparr>hc_method = ''GET'', hc_url = rc_roomApiBaseUrl cf @ ''/'' @ path,
                     hc_headers = [(''accept'', ''application/json''), (''authorization'', ''Bearer '' @ fst key),
                       (''x-beam-organization-id'', organizationId)], hc_body = None\<rparr>) (\<lambda>response.
                  return_w (case response of
                      Some (status, body) \<Rightarrow>
                        projectRoomReceipt sha256 status body \<lparr>rl_room = room, rl_channel = channel, rl_publication = publication\<rparr>
                    | None \<Rightarrow> Obs_unavailable))))
      | _ \<Rightarrow> throw_w ''TypeError'')"

definition TRANSFER_PAGE :: nat where "TRANSFER_PAGE = 100"
definition MAX_TRANSFER_PAGES :: nat where "MAX_TRANSFER_PAGES = 10"

text \<open>\<open>(JSON.parse(...)).transfers ?? []\<close>, which the code then walks as an array.\<close>

definition listed_rows :: "string \<Rightarrow> string + json list" where
  "listed_rows body =
     (case parse_json (text_decode body) of
        None \<Rightarrow> Inl ''SyntaxError''
      | Some JNull \<Rightarrow> Inl ''TypeError''
      | Some j \<Rightarrow>
          (case jget j ''transfers'' of
             None \<Rightarrow> Inr [] | Some JNull \<Rightarrow> Inr [] | Some (JArr rows) \<Rightarrow> Inr rows | Some _ \<Rightarrow> Inl ''TypeError''))"

text \<open>The body of a \<open>200\<close>.\<close>

definition ok_body :: "(int \<times> string) option \<Rightarrow> string option" where
  "ok_body response = (case response of Some (status, body) \<Rightarrow> if status = 200 then Some body else None | None \<Rightarrow> None)"

definition http_text :: "(int \<times> string) option \<Rightarrow> string" where
  "http_text response = (case response of None \<Rightarrow> ''nothing'' | Some (status, _) \<Rightarrow> ''HTTP '' @ show_int status)"

definition transfer_page ::
  "'w services \<Rightarrow> relay_config \<Rightarrow> customer_reader \<Rightarrow> string \<Rightarrow> nat \<Rightarrow> ('w, json list) op" where
  "transfer_page sv cf reader completedAfter page =
     (let query = ''order_by=completed_at&completed_after='' @ encodeURIComponent completedAfter
            @ ''&limit='' @ show_nat TRANSFER_PAGE @ ''&offset='' @ show_nat (page * TRANSFER_PAGE) in
      bind_w (fetchBytes sv
          \<lparr>hc_method = ''GET'', hc_url = rc_beamApiBaseUrl cf @ ''/transfers?'' @ query,
           hc_headers = [(''accept'', ''application/json''), (''x-api-key'', cr_apiKey reader)], hc_body = None\<rparr>) (\<lambda>response.
        case ok_body response of
          Some body \<Rightarrow> lift_w (listed_rows body)
        | None \<Rightarrow> throw_w (''GET /transfers answered '' @ http_text response)))"

fun transfer_pages ::
  "nat \<Rightarrow> 'w services \<Rightarrow> relay_config \<Rightarrow> customer_reader \<Rightarrow> string \<Rightarrow> nat \<Rightarrow> listed_transfer list \<Rightarrow> ('w, listed_transfer list) op" where
  "transfer_pages 0 sv cf reader completedAfter page transfers = return_w transfers"
| "transfer_pages (Suc n) sv cf reader completedAfter page transfers =
     bind_w (transfer_page sv cf reader completedAfter page) (\<lambda>rows.
       let transfers' = transfers @ List.map_filter projectListedTransfer rows in
       if length rows < TRANSFER_PAGE then return_w transfers'
       else transfer_pages n sv cf reader completedAfter (page + 1) transfers')"

definition finishedTransfers ::
  "'w services \<Rightarrow> relay_config \<Rightarrow> customer_reader \<Rightarrow> string \<Rightarrow> ('w, listed_transfer list) op" where
  "finishedTransfers sv cf reader completedAfter = transfer_pages MAX_TRANSFER_PAGES sv cf reader completedAfter 0 []"

subsection \<open>The website\<close>

definition subject_json :: "charge_subject \<Rightarrow> json" where
  "subject_json subject =
     (case subject of
        Charge_transfer t \<Rightarrow> JObj [(''kind'', JStr ''transfer''), (''transferId'', JStr t)]
      | Charge_room k \<Rightarrow> JObj [(''kind'', JStr ''room''), (''roomKey'', JStr k)]
      | Charge_request k \<Rightarrow> JObj [(''kind'', JStr ''request''), (''requestKey'', JStr k)])"

definition via_json :: "via \<Rightarrow> json" where
  "via_json v =
     (case v of
        Via_every_transfer created \<Rightarrow> JObj [(''kind'', JStr ''every_transfer''), (''transferCreatedAt'', JStr created)]
      | Via_requester address \<Rightarrow> JObj [(''kind'', JStr ''requester''), (''address'', JStr address)])"

definition chargeBody :: "relay_config \<Rightarrow> charge_subject \<Rightarrow> (string \<times> json) list" where
  "chargeBody cf subject =
     [(''chainId'', JNum (rc_chainId cf)), (''contract'', JStr (rc_receiptsAddress cf)), (''subject'', subject_json subject)]"

definition charge_answer :: "(int \<times> string) option \<Rightarrow> charge_outcome" where
  "charge_answer response = (case response of Some (status, body) \<Rightarrow> projectCharge status body | None \<Rightarrow> Charge_unavailable 0)"

definition reserveCharge ::
  "'w services \<Rightarrow> relay_config \<Rightarrow> relay_secrets \<Rightarrow> charge_subject \<Rightarrow> string \<Rightarrow> via \<Rightarrow> ('w, charge_outcome) op" where
  "reserveCharge sv cf secrets subject organizationId v =
     bind_w (registry sv cf secrets ''POST'' ''charges/reserve''
         (Some (JObj (chargeBody cf subject @ [(''organizationId'', JStr organizationId), (''via'', via_json v)]))))
       (\<lambda>response. return_w (charge_answer response))"

definition commitCharge :: "'w services \<Rightarrow> relay_config \<Rightarrow> relay_secrets \<Rightarrow> charge_subject \<Rightarrow> ('w, charge_outcome) op" where
  "commitCharge sv cf secrets subject =
     bind_w (registry sv cf secrets ''POST'' ''charges/commit'' (Some (JObj (chargeBody cf subject))))
       (\<lambda>response. return_w (charge_answer response))"

definition reportAllowlist ::
  "'w services \<Rightarrow> relay_config \<Rightarrow> relay_secrets \<Rightarrow> string \<Rightarrow> bool \<Rightarrow> string \<Rightarrow> ('w, unit) op" where
  "reportAllowlist sv cf secrets requesterId allowed txHash =
     bind_w (registry sv cf secrets ''POST'' (''requesters/'' @ encodeURIComponent requesterId @ ''/allowlist'')
         (Some (JObj [(''allowed'', JBool allowed), (''txHash'', JStr txHash)]))) (\<lambda>response.
       case ok_body response of
         Some _ \<Rightarrow> return_w ()
       | None \<Rightarrow> throw_w (''reporting '' @ txHash @ '' answered '' @ http_text response))"

subsection \<open>The registry of customers\<close>

definition nonempty :: "json option \<Rightarrow> string option" where
  "nonempty j = given (as_str j)"

definition parse_period :: "json \<Rightarrow> (string \<times> string option) option" where
  "parse_period j =
     (case (iso_datetime (jget j ''startedAt''), jget j ''endedAt'') of
        (Some s, Some JNull) \<Rightarrow> Some (s, None)
      | (Some s, e) \<Rightarrow> (case iso_datetime e of Some e' \<Rightarrow> Some (s, Some e') | None \<Rightarrow> None)
      | _ \<Rightarrow> None)"

definition parse_requester :: "json \<Rightarrow> requester option" where
  "parse_requester j =
     (case (nonempty (jget j ''id''), as_str (jget j ''address''),
            map_of [(''PENDING'', Requester_PENDING), (''APPROVED'', Requester_APPROVED), (''REVOKED'', Requester_REVOKED)]
              (coalesce (as_str (jget j ''status'')) []),
            map_of [(''NONE'', Allowlist_NONE), (''ALLOWED'', Allowlist_ALLOWED), (''REMOVED'', Allowlist_REMOVED)]
              (coalesce (as_str (jget j ''allowlist'')) [])) of
        (Some i, Some a, Some s, Some al) \<Rightarrow>
          if hex_pattern 40 a then Some \<lparr>rq_id = i, rq_address = a, rq_status = s, rq_allowlist = al\<rparr> else None
      | _ \<Rightarrow> None)"

fun parse_list :: "(json \<Rightarrow> 'a option) \<Rightarrow> json list \<Rightarrow> 'a list option" where
  "parse_list f [] = Some []"
| "parse_list f (j # js) =
     (case f j of None \<Rightarrow> None | Some x \<Rightarrow> (case parse_list f js of None \<Rightarrow> None | Some xs \<Rightarrow> Some (x # xs)))"

definition parse_array :: "(json \<Rightarrow> 'a option) \<Rightarrow> json option \<Rightarrow> 'a list option" where
  "parse_array f j = (case j of Some (JArr js) \<Rightarrow> parse_list f js | _ \<Rightarrow> None)"

definition registryAccountSchema :: "json \<Rightarrow> registry_account option" where
  "registryAccountSchema j =
     (case (nonempty (jget j ''organizationId''), nonempty (jget j ''apiKeyId''), nonempty (jget j ''sealedApiKey''),
            jget j ''everyTransfer'', parse_array parse_period (jget j ''periods''),
            parse_array parse_requester (jget j ''requesters'')) of
        (Some org, Some key, Some sealed, Some (JBool every), Some periods, Some requesters) \<Rightarrow>
          Some \<lparr>ra_organizationId = org, ra_apiKeyId = key, ra_sealedApiKey = sealed, ra_everyTransfer = every,
            ra_periods = periods, ra_requesters = requesters\<rparr>
      | _ \<Rightarrow> None)"

definition registrySchema :: "json \<Rightarrow> registry_account list option" where
  "registrySchema j = parse_array registryAccountSchema (jget j ''accounts'')"

definition open_account :: "'w services \<Rightarrow> relay_secrets \<Rightarrow> registry_account \<Rightarrow> customer option" where
  "open_account sv secrets account =
     (case sv_openSealed sv (rs_sealingPrivateKey secrets) (ra_sealedApiKey account)
             (sealedKeyContext (ra_organizationId account) (ra_apiKeyId account)) of
        Inl _ \<Rightarrow> None | Inr apiKey \<Rightarrow> Some (toCustomer account apiKey))"

definition customers_io :: "'w services \<Rightarrow> relay_config \<Rightarrow> relay_secrets \<Rightarrow> ('w, customer list) op" where
  "customers_io sv cf secrets =
     bind_w (registry sv cf secrets ''GET'' (''accounts?chainId='' @ show_int (rc_chainId cf)) None) (\<lambda>response.
       case ok_body response of
         Some body \<Rightarrow>
           (case parse_json (text_decode body) of
              None \<Rightarrow> throw_w ''SyntaxError''
            | Some j \<Rightarrow>
                (case registrySchema j of
                   None \<Rightarrow> throw_w ''ZodError''
                 | Some accounts \<Rightarrow> return_w (List.map_filter (open_account sv secrets) accounts)))
       | None \<Rightarrow> throw_w (''the onchain receipts registry answered '' @ http_text response))"

subsection \<open>The cursor files\<close>

definition read_text :: "'w services \<Rightarrow> string \<Rightarrow> ('w, string option) op" where
  "read_text sv path w =
     (case sv_readFile sv path w of
        (File_missing, w') \<Rightarrow> (Inr None, w')
      | (File_failed e, w') \<Rightarrow> (Inl e, w')
      | (File_text t, w') \<Rightarrow> (Inr (Some t), w'))"

text \<open>\<open>BigInt\<close> of a decimal text; the code only reads back what it wrote.\<close>

definition bigint_of :: "string \<Rightarrow> string + int" where
  "bigint_of s =
     (let negative = s \<noteq> [] \<and> hd s = CHR ''-''; ds = (if negative then tl s else s) in
      if ds \<noteq> [] \<and> list_all (\<lambda>c. digit_val c \<noteq> None) ds
      then Inr (if negative then - decimal_value ds else decimal_value ds)
      else Inl ''SyntaxError'')"

definition parse_cursor :: "string \<Rightarrow> string + int option" where
  "parse_cursor text =
     (case parse_json text of
        None \<Rightarrow> Inl ''SyntaxError''
      | Some JNull \<Rightarrow> Inl ''TypeError''
      | Some saved \<Rightarrow>
          (case jget saved ''nextBlock'' of
             None \<Rightarrow> Inr None
           | Some (JStr s) \<Rightarrow> (case bigint_of s of Inl e \<Rightarrow> Inl e | Inr n \<Rightarrow> Inr (Some n))
           | Some (JNum n) \<Rightarrow> Inr (Some n)
           | Some _ \<Rightarrow> Inl ''SyntaxError''))"

definition cursor_text :: "int \<Rightarrow> string" where
  "cursor_text nextBlock = stringify (JObj [(''nextBlock'', JStr (show_int nextBlock))]) @ [CHR 0x0A]"

text \<open>A file replaced by renaming a new one over it.\<close>

definition replace_file :: "'w services \<Rightarrow> string \<Rightarrow> string \<Rightarrow> ('w, unit) op" where
  "replace_file sv path text =
     bind_w (sv_writeFile sv (path @ ''.tmp'') text) (\<lambda>_. sv_rename sv (path @ ''.tmp'') path)"

definition readCursor :: "'w services \<Rightarrow> relay_config \<Rightarrow> ('w, int option) op" where
  "readCursor sv cf =
     bind_w (read_text sv (rc_cursorPath cf)) (\<lambda>text.
       case text of None \<Rightarrow> return_w None | Some t \<Rightarrow> lift_w (parse_cursor t))"

definition saveCursor :: "'w services \<Rightarrow> relay_config \<Rightarrow> int \<Rightarrow> ('w, unit) op" where
  "saveCursor sv cf nextBlock = replace_file sv (rc_cursorPath cf) (cursor_text nextBlock)"

text \<open>The map of listing cursors is read as the code trusts it to be, an object of texts.\<close>

definition cursors_of :: "json \<Rightarrow> (string \<times> string) list" where
  "cursors_of j = (case j of JObj kvs \<Rightarrow> List.map_filter (\<lambda>(k, v). case v of JStr s \<Rightarrow> Some (k, s) | _ \<Rightarrow> None) kvs | _ \<Rightarrow> [])"

definition readTransferCursors :: "'w services \<Rightarrow> relay_config \<Rightarrow> ('w, (string \<times> string) list) op" where
  "readTransferCursors sv cf =
     (case rc_customers cf of
        None \<Rightarrow> return_w []
      | Some c \<Rightarrow>
          bind_w (read_text sv (snd c)) (\<lambda>text.
            case text of
              None \<Rightarrow> return_w []
            | Some t \<Rightarrow> (case parse_json t of None \<Rightarrow> throw_w ''SyntaxError'' | Some j \<Rightarrow> return_w (cursors_of j))))"

text \<open>\<open>JSON.stringify(cursors, null, 2)\<close> of an object of texts.\<close>

definition pretty :: "(string \<times> string) list \<Rightarrow> string" where
  "pretty m =
     (if m = [] then ''{}''
      else ''{'' @ [CHR 0x0A]
        @ join_with ('','' @ [CHR 0x0A]) (map (\<lambda>(k, v). ''  '' @ stringify (JStr k) @ '': '' @ stringify (JStr v)) m)
        @ [CHR 0x0A] @ ''}'')"

definition saveTransferCursors :: "'w services \<Rightarrow> relay_config \<Rightarrow> (string \<times> string) list \<Rightarrow> ('w, unit) op" where
  "saveTransferCursors sv cf cursors =
     (case rc_customers cf of
        None \<Rightarrow> return_w ()
      | Some c \<Rightarrow> replace_file sv (snd c) (pretty cursors @ [CHR 0x0A]))"

subsection \<open>The operations together\<close>

definition createRelayIO ::
  "(string \<Rightarrow> 8 word list) \<Rightarrow> 'w services \<Rightarrow> relay_config \<Rightarrow> relay_secrets \<Rightarrow> 'w relay_io" where
  "createRelayIO sha256 sv cf secrets =
     \<lparr>io_finalizedBlock = sv_finalized sv, io_readCursor = readCursor sv cf,
      io_transferRequests = transferRequests sv cf, io_deliver = deliver sv secrets, io_saveCursor = saveCursor sv cf,
      io_openRequests = openRequests sv cf, io_findPublication = findPublication sv cf secrets,
      io_observe = observe_io sha256 sv cf secrets, io_writeReport = writeReport sv cf,
      io_customers = customers_io sv cf secrets, io_setRequester = setRequester sv cf, io_cancelRequest = cancelRequest sv cf,
      io_reportAllowlist = reportAllowlist sv cf secrets, io_finishedTransfers = finishedTransfers sv cf,
      io_reserveCharge = reserveCharge sv cf secrets, io_commitCharge = commitCharge sv cf secrets,
      io_readTransferCursors = readTransferCursors sv cf, io_saveTransferCursors = saveTransferCursors sv cf\<rparr>"

subsection \<open>Properties\<close>

definition node_sender :: "'w services \<Rightarrow> 'w sender" where
  "node_sender sv g = sv_fetch sv (get_call g)"

definition or_default :: "'a \<Rightarrow> (string + 'a) \<times> 'w \<Rightarrow> (string + 'a) \<times> 'w" where
  "or_default d r = (case r of (Inl _, w) \<Rightarrow> (Inr d, w) | (Inr a, w) \<Rightarrow> (Inr a, w))"

lemma fetched:
  "bind_w (fetchBytes sv (get_call g)) (\<lambda>response. return_w (case response of Some (status, body) \<Rightarrow> f status body | None \<Rightarrow> d)) w
     = or_default d (sent (node_sender sv) g f w)"
proof (cases "sv_fetch sv (get_call g) w")
  case (Pair r w')
  then show ?thesis
    by (cases r) (auto simp: bind_w_def fetchBytes_def sent_def node_sender_def or_default_def return_w_def)
qed

text \<open>
  The relay reads Beam as a CRE node does. With its own key, the relay's lookup of a transfer, of a Room
  receipt and of a publication by its key sends the very request of \<open>observe.ts\<close>, the same URL and the same
  headers in the same order, and judges the answer by the same projection; where the node's call fails, the relay
  answers \<open>unavailable\<close>, the default of the nodes' consensus.
\<close>

theorem relay_reads_as_nodes:
  assumes "rs_beamOrgId secrets = Some org" and "org \<noteq> []" and "roomRequestPublicationKey q = Inr key"
  shows "io_observe (createRelayIO sha256 sv cf secrets) (Transfer_subject t r) None w
      = or_default Obs_unavailable (observeTransfer (node_sender sv)
          \<lparr>tl_baseUrl = rc_beamApiBaseUrl cf, tl_apiKey = rs_beamApiKey secrets, tl_transferId = t\<rparr> w)
    \<and> io_observe (createRelayIO sha256 sv cf secrets) (Room_subject room channel publication r) None w
      = or_default Obs_unavailable (observeRoomReceipt sha256 (node_sender sv)
          \<lparr>rl_room = room, rl_channel = channel, rl_publication = publication, rl_baseUrl = rc_roomApiBaseUrl cf,
           rl_apiKey = rs_beamApiKey secrets, rl_organizationId = org\<rparr> w)
    \<and> io_findPublication (createRelayIO sha256 sv cf secrets) (RoomRequest_subject room channel publisher q) None w
      = or_default Lookup_unavailable (observePublicationByKey (node_sender sv)
          \<lparr>pk_baseUrl = rc_roomApiBaseUrl cf, pk_apiKey = rs_beamApiKey secrets, pk_organizationId = org,
           pk_room = room, pk_channel = channel, pk_publisherMemberId = publisher, pk_key = key\<rparr> w)"
proof (intro conjI)
  have org: "given (rs_beamOrgId secrets) = Some org" using assms by (cases org) (simp_all add: given_def)
  show "io_observe (createRelayIO sha256 sv cf secrets) (Transfer_subject t r) None w
      = or_default Obs_unavailable (observeTransfer (node_sender sv)
          \<lparr>tl_baseUrl = rc_beamApiBaseUrl cf, tl_apiKey = rs_beamApiKey secrets, tl_transferId = t\<rparr> w)"
    unfolding observeTransfer_def fetched [symmetric]
    by (simp add: createRelayIO_def observe_io_def readerKey_def transfer_get_def get_call_def key_headers_def
        cong: option.case_cong)
  show "io_observe (createRelayIO sha256 sv cf secrets) (Room_subject room channel publication r) None w
      = or_default Obs_unavailable (observeRoomReceipt sha256 (node_sender sv)
          \<lparr>rl_room = room, rl_channel = channel, rl_publication = publication, rl_baseUrl = rc_roomApiBaseUrl cf,
           rl_apiKey = rs_beamApiKey secrets, rl_organizationId = org\<rparr> w)"
    unfolding observeRoomReceipt_def fetched [symmetric]
    by (simp add: createRelayIO_def observe_io_def readerKey_def org room_receipt_get_def get_call_def bearer_headers_def
        room_lookup.truncate_def cong: option.case_cong)
  show "io_findPublication (createRelayIO sha256 sv cf secrets) (RoomRequest_subject room channel publisher q) None w
      = or_default Lookup_unavailable (observePublicationByKey (node_sender sv)
          \<lparr>pk_baseUrl = rc_roomApiBaseUrl cf, pk_apiKey = rs_beamApiKey secrets, pk_organizationId = org,
           pk_room = room, pk_channel = channel, pk_publisherMemberId = publisher, pk_key = key\<rparr> w)"
    unfolding observePublicationByKey_def fetched [symmetric]
    by (simp add: createRelayIO_def findPublication_def readerKey_def org publication_get_def get_call_def bearer_headers_def
        assms(3) bind_w_simps(2) [of "lift_w (Inr key)"] lift_w_def Let_def)
qed

definition silent_services :: "unit services" where
  "silent_services =
     \<lparr>sv_fetch = (\<lambda>_ w. (Inr (404, []), w)), sv_now = (\<lambda>w. (1000, w)), sv_finalized = (\<lambda>w. (Inr 0, w)),
      sv_getLogs = (\<lambda>_ _ _ w. (Inr [], w)), sv_openRequestCount = (\<lambda>_ w. (Inr 0, w)),
      sv_openRequests = (\<lambda>_ _ _ w. (Inr [], w)), sv_writeContract = (\<lambda>_ _ w. (Inr ''0x7'', w)),
      sv_waitForReceipt = (\<lambda>_ w. (Inr (True, []), w)), sv_readFile = (\<lambda>_ w. (File_missing, w)),
      sv_writeFile = (\<lambda>_ _ w. (Inr (), w)), sv_rename = (\<lambda>_ _ w. (Inr (), w)),
      sv_openSealed = (\<lambda>_ _ _. Inr ''key''), sv_hmac = (\<lambda>_ _. [])\<rparr>"

definition demo_relay_config :: relay_config where
  "demo_relay_config = \<lparr>rc_chainId = 1, rc_receiptsAddress = ''0xC'', rc_beamApiBaseUrl = ''https://api'',
     rc_roomApiBaseUrl = ''https://rooms'', rc_beamClientId = ''client'', rc_cursorPath = ''cursor'', rc_customers = None\<rparr>"

definition demo_secrets :: relay_secrets where
  "demo_secrets = \<lparr>rs_beamApiKey = ''k'', rs_beamOrgId = Some ''org'', rs_studioWebhookUrl = Some ''https://studio'',
     rs_studioSigningSecret = Some ''s'', rs_studioRoomWebhookUrl = None, rs_studioRoomSigningSecret = None,
     rs_onchainRelaySecret = None, rs_sealingPrivateKey = []\<rparr>"

theorem relay_reads_as_nodes_witness:
  "io_observe (createRelayIO (\<lambda>_. []) silent_services demo_relay_config demo_secrets) (Transfer_subject ''t'' None) None ()
     = (Inr Obs_absent, ())"
proof -
  have key: "roomRequestPublicationKey (''0x'' @ replicate 64 CHR ''1'') = Inr (''request:0x'' @ replicate 64 CHR ''1'')"
    by code_simp
  have org: "rs_beamOrgId demo_secrets = Some ''org''" by (simp add: demo_secrets_def)
  have "io_observe (createRelayIO (\<lambda>_. []) silent_services demo_relay_config demo_secrets) (Transfer_subject ''t'' None) None ()
      = or_default Obs_unavailable (observeTransfer (node_sender silent_services)
          \<lparr>tl_baseUrl = rc_beamApiBaseUrl demo_relay_config, tl_apiKey = rs_beamApiKey demo_secrets, tl_transferId = ''t''\<rparr> ())"
    by (rule conjunct1 [OF relay_reads_as_nodes [OF org list.distinct(2) key]])
  also have "\<dots> = (Inr Obs_absent, ())" by code_simp
  finally show ?thesis .
qed

text \<open>The capability sends the bytes its base64 body stands for.\<close>

definition text_of :: "8 word list \<Rightarrow> string" where
  "text_of bs = map (\<lambda>b. char_of (unat b)) bs"

lemma text_of_bytes_of: "text_of (bytes_of s) = s"
proof -
  have "char_of (unat (word_of_nat (of_char c) :: 8 word)) = c" for c
  proof -
    have "of_char c < (256 :: nat)" by simp
    then have "unat (word_of_nat (of_char c) :: 8 word) = of_char c" by (simp add: unat_of_nat)
    then show ?thesis by simp
  qed
  then show ?thesis by (simp add: text_of_def bytes_of_def comp_def)
qed

definition capability :: "'w services \<Rightarrow> http_post \<Rightarrow> ('w, int \<times> string) op" where
  "capability sv p =
     sv_fetch sv \<lparr>hc_method = ''POST'', hc_url = hp_url p, hc_headers = hp_headers p,
       hc_body = map_option text_of (fromBase64 (hp_body p))\<rparr>"

text \<open>
  The relay posts to Studio what the CRE workflow posts. For the same request at the same time, with the
  webhook's URL and signing secret, a relay delivery is byte for byte the post the workflow's nodes make through
  a capability that decodes base64: URL, idempotency key, timestamp, signature and body; and it reads Studio's
  answer by the same projection, an unreachable Studio being \<open>unavailable\<close>. Without a URL it posts nothing.
\<close>

theorem relay_posts_as_workflow:
  "deliver sv secrets request wfl w =
     (let url = (case wfl of Wf_room \<Rightarrow> rs_studioRoomWebhookUrl secrets | Wf_transfer \<Rightarrow> rs_studioWebhookUrl secrets);
          signing = given (case wfl of Wf_room \<Rightarrow> rs_studioRoomSigningSecret secrets | Wf_transfer \<Rightarrow> rs_studioSigningSecret secrets) in
      case given url of
        None \<Rightarrow> (Inr (Studio_refused 0 (Some (''no '' @ (case wfl of Wf_room \<Rightarrow> ''room'' | Wf_transfer \<Rightarrow> ''transfer'')
            @ '' workflow webhook is configured''))), w)
      | Some u \<Rightarrow>
          (case sv_now sv w of (ms, w1) \<Rightarrow>
             or_default (Studio_unavailable 0) (postToStudio (capability sv)
               (delivery_of (sv_hmac sv) (tl_requestId request) (tl_requester request) (tl_input request) u signing ms) w1)))"
proof -
  have post: "bind_w (fetchBytes sv \<lparr>hc_method = ''POST'', hc_url = u,
        hc_headers = [(''content-type'', ''application/json''), (''idempotency-key'', tl_requestId request)]
          @ (case signing of None \<Rightarrow> []
             | Some s \<Rightarrow> [(''x-beam-timestamp'', show_int (ms div 1000)), (''x-beam-signature'',
                 webhookSignature (sv_hmac sv) s (ms div 1000) (webhookBody (tl_requestId request) (tl_requester request) (tl_input request)))]),
        hc_body = Some (webhookBody (tl_requestId request) (tl_requester request) (tl_input request))\<rparr>)
      (\<lambda>response. return_w (case response of Some (status, answer) \<Rightarrow> projectStudioResponse status answer | None \<Rightarrow> Studio_unavailable 0)) w1
    = or_default (Studio_unavailable 0) (postToStudio (capability sv)
        (delivery_of (sv_hmac sv) (tl_requestId request) (tl_requester request) (tl_input request) u signing ms) w1)"
    (is "bind_w (fetchBytes sv ?c) _ w1 = _") for u signing ms w1
  proof -
    have "capability sv (studio_post (delivery_of (sv_hmac sv) (tl_requestId request) (tl_requester request) (tl_input request) u signing ms)) w1
        = sv_fetch sv ?c w1"
      by (cases signing)
        (simp_all add: capability_def studio_post_def delivery_of_def Let_def toBase64_round_trip text_of_bytes_of webhookSignature_def)
    then show ?thesis
      by (cases "sv_fetch sv ?c w1"; cases "fst (sv_fetch sv ?c w1)")
        (auto simp: postToStudio_def or_default_def bind_w_def fetchBytes_def return_w_def)
  qed
  show ?thesis unfolding deliver_def Let_def
    by (cases wfl; simp only: workflow.case post cong: option.case_cong prod.case_cong)
qed

lemma request_pages_complete:
  assumes pages: "\<And>offset w. 0 \<le> offset \<Longrightarrow>
      fst (sv_openRequests sv (rc_receiptsAddress cf) offset OPEN_REQUEST_PAGE w) = Inr (take 50 (drop (nat offset) queue))"
  shows "0 \<le> offset \<Longrightarrow> acc = take (nat offset) queue
     \<Longrightarrow> fst (request_pages sv cf (int (length queue)) offset acc w) = Inr queue"
proof (induction "nat (int (length queue) - offset)" arbitrary: offset acc w rule: less_induct)
  case less
  show ?case
  proof (cases "offset < int (length queue)")
    case False
    with less.prems show ?thesis by (simp add: request_pages.simps return_w_def)
  next
    case True
    obtain w' where page: "sv_openRequests sv (rc_receiptsAddress cf) offset OPEN_REQUEST_PAGE w
        = (Inr (take 50 (drop (nat offset) queue)), w')"
      using pages [OF less.prems(1), of w] by (metis prod.collapse)
    have acc: "acc @ take 50 (drop (nat offset) queue) = take (nat (offset + OPEN_REQUEST_PAGE)) queue"
      using less.prems by (simp add: take_add [symmetric] nat_add_distrib OPEN_REQUEST_PAGE_def)
    have "fst (request_pages sv cf (int (length queue)) (offset + OPEN_REQUEST_PAGE) (acc @ take 50 (drop (nat offset) queue)) w') = Inr queue"
      by (rule less.hyps) (use True less.prems(1) acc in \<open>auto simp: OPEN_REQUEST_PAGE_def\<close>)
    with True page show ?thesis by (simp add: request_pages.simps [of sv cf _ offset])
  qed
qed

text \<open>
  The paging of the open requests is complete: when the contract answers its two views from the requests that
  are open, the relay reads exactly those, in order, however many pages that takes.
\<close>

theorem open_requests_complete:
  assumes "\<And>w. fst (sv_openRequestCount sv (rc_receiptsAddress cf) w) = Inr (int (length queue))"
    and "\<And>offset w. 0 \<le> offset \<Longrightarrow>
      fst (sv_openRequests sv (rc_receiptsAddress cf) offset OPEN_REQUEST_PAGE w) = Inr (take 50 (drop (nat offset) queue))"
  shows "fst (openRequests sv cf w) = Inr queue"
proof -
  obtain w' where "sv_openRequestCount sv (rc_receiptsAddress cf) w = (Inr (int (length queue)), w')"
    using assms(1) [of w] by (metis prod.collapse)
  then show ?thesis using request_pages_complete [OF assms(2), where offset = 0 and acc = "[]"]
    by (simp add: openRequests_def)
qed

definition paged_services :: "open_request list \<Rightarrow> unit services" where
  "paged_services queue = silent_services
     \<lparr>sv_openRequestCount := (\<lambda>_ w. (Inr (int (length queue)), w)),
      sv_openRequests := (\<lambda>_ offset limit w. (Inr (take (nat limit) (drop (nat offset) queue)), w))\<rparr>"

theorem open_requests_complete_witness:
  "fst (openRequests (paged_services (replicate 120 demo_request)) demo_relay_config ()) = Inr (replicate 120 demo_request)"
  by (rule open_requests_complete) (simp_all add: paged_services_def OPEN_REQUEST_PAGE_def)

lemma charge_calls_return:
  "io_commitCharge (createRelayIO sha256 sv cf secrets) c w \<noteq> (Inl e, w')"
  "io_reserveCharge (createRelayIO sha256 sv cf secrets) c org v w \<noteq> (Inl e, w')"
proof -
  have "bind_w (registry sv cf secrets meth path body) (\<lambda>response. return_w (charge_answer response)) w \<noteq> (Inl e, w')"
    for meth path body
    by (cases "registry sv cf secrets meth path body w"; cases "fst (registry sv cf secrets meth path body w)")
      (auto simp: bind_w_def return_w_def registry_def fetchBytes_def split: prod.splits sum.splits)
  then show "io_commitCharge (createRelayIO sha256 sv cf secrets) c w \<noteq> (Inl e, w')"
    "io_reserveCharge (createRelayIO sha256 sv cf secrets) c org v w \<noteq> (Inl e, w')"
    by (simp_all add: createRelayIO_def commitCharge_def reserveCharge_def)
qed

definition commits_returned :: "relay_event list \<Rightarrow> bool" where
  "commits_returned l \<longleftrightarrow> (\<forall>c e. Ev_commitCharge c (Inl e) \<notin> set l)"

lemma closing_returns:
  fixes sha256 :: "string \<Rightarrow> 8 word list" and sv :: "'w services" and cf :: relay_config and secrets :: relay_secrets
  defines "io \<equiv> createRelayIO sha256 sv cf secrets"
  shows "hoare (\<lambda>_. commits_returned) (closeUnanswerable io us) (\<lambda>_ _. commits_returned) (\<lambda>_ _. False)"
proof -
  let ?N = "\<lambda>_ :: relay_state. commits_returned"
  have commit: "hoare ?N (on_world (call (Ev_commitCharge c) (io_commitCharge io c))) (\<lambda>_. ?N) (\<lambda>_ _. False)" for c
    by (rule hoare_call) (auto simp: commits_returned_def io_def charge_calls_return)
  have reserve: "hoare ?N (on_world (call (Ev_reserveCharge c org v) (io_reserveCharge io c org v))) (\<lambda>_. ?N) (\<lambda>_ _. False)" for c org v
    by (rule hoare_call) (auto simp: commits_returned_def io_def charge_calls_return)
  have cancel: "hoare ?N (attempt (on_world (call (Ev_cancelRequest key) (io_cancelRequest io key)))) (\<lambda>_. ?N) (\<lambda>_ _. False)" for key
    by (rule hoare_attempt, rule hoare_call) (auto simp: commits_returned_def)
  have old: "hoare ?N (commit_close io close) (\<lambda>_. ?N) (\<lambda>_ _. False)" for close
    unfolding commit_close_def by (rule hoare_bind [OF commit])
      (auto split: charge_outcome.split intro!: hoare_return hoare_modify)
  have settle: "hoare ?N (bind_a (on_world (call (Ev_commitCharge c) (io_commitCharge io c))) (\<lambda>committed.
      bind_a (if committed = Charge_charged then return_a () else modify_state (amap_set key org)) (\<lambda>_. return_a st)))
      (\<lambda>_. ?N) (\<lambda>_ _. False)" for c key org and st :: close_state
    by (rule hoare_bind [OF commit], rule hoare_bind [where R = "\<lambda>_. ?N"])
      (auto intro!: hoare_return hoare_modify)
  have outcome: "hoare ?N (case r of Inl _ \<Rightarrow> return_a st' | Inr _ \<Rightarrow> bind_a (on_world (call (Ev_commitCharge c) (io_commitCharge io c))) (\<lambda>committed.
      bind_a (if committed = Charge_charged then return_a () else modify_state (amap_set key org)) (\<lambda>_. return_a st)))
      (\<lambda>_. ?N) (\<lambda>_ _. False)" for r :: "string + string" and c key org and st st' :: close_state
    using settle by (cases r) (auto intro: hoare_return)
  have one: "hoare ?N (close_one io st u) (\<lambda>_. ?N) (\<lambda>_ _. False)" for st u
  proof (cases "or_key (ua_request u) \<in> set (cs_seen st)")
    case False
    show ?thesis unfolding close_one_def Let_def if_not_P [OF False]
      by (rule hoare_bind [OF reserve])
        (use hoare_bind [OF cancel outcome] in \<open>auto intro: hoare_return\<close>)
  qed (auto simp: close_one_def Let_def intro: hoare_return)
  show ?thesis unfolding closeUnanswerable_def
    by (rule hoare_bind [OF hoare_get], assumption, rule hoare_bind [OF hoare_fold [where I = "\<lambda>_. ?N"]], rule old,
        rule hoare_bind [OF hoare_fold [where I = "\<lambda>_. ?N"]], rule one, rule hoare_return)
qed

text \<open>
  C35. With its real input and output the relay never loses the charge of a request it closed: the website's
  answers never make the closing step throw, whatever they are, so the step always returns, and afterwards each
  request it cancelled is either charged or in the memory that the next pass retries.
\<close>

theorem relay_keeps_every_close:
  assumes "closeUnanswerable (createRelayIO sha256 sv cf secrets) us ((w, s0), []) = (r, ((w', s), l))"
  shows "(\<exists>n. r = Inr n) \<and> (\<forall>key hash. Ev_cancelRequest key (Inr hash) \<in> set l \<longrightarrow>
      key \<in> fst ` set s \<or> Ev_commitCharge (Charge_request key) (Inr Charge_charged) \<in> set l)"
proof -
  have "commits_returned []" by (simp add: commits_returned_def)
  from hoareD [OF closing_returns this assms] obtain n where "r = Inr n" "commits_returned l" by (cases r) auto
  moreover have "close_inv (map fst s0) {} s l" by (rule close_inv_run [OF assms])
  ultimately show ?thesis unfolding close_inv_def settled_or_kept_def commits_returned_def by auto
qed

theorem relay_keeps_every_close_witness:
  "\<exists>s l. snd (closeUnanswerable (createRelayIO (\<lambda>_. []) silent_services demo_relay_config demo_secrets) [demo_close] (((), []), []))
       = (((), s), l) \<and> (\<exists>org via answer. Ev_reserveCharge (Charge_request ''0x5'') org via answer \<in> set l)
     \<and> (\<exists>n. fst (closeUnanswerable (createRelayIO (\<lambda>_. []) silent_services demo_relay_config demo_secrets) [demo_close] (((), []), [])) = Inr n)"
proof -
  let ?run = "closeUnanswerable (createRelayIO (\<lambda>_. []) silent_services demo_relay_config demo_secrets) [demo_close] (((), []), [])"
  have run: "?run = (fst ?run, (((), snd (fst (snd ?run))), snd (snd ?run)))" by (simp add: prod_eq_iff)
  have "hd (snd (snd ?run)) = Ev_reserveCharge (Charge_request ''0x5'') ''acme'' (Via_requester ''0xA'') (Inr (Charge_refused 404 ''HTTP 404''))
      \<and> snd (snd ?run) \<noteq> []"
    by code_simp
  then have "Ev_reserveCharge (Charge_request ''0x5'') ''acme'' (Via_requester ''0xA'') (Inr (Charge_refused 404 ''HTTP 404'')) \<in> set (snd (snd ?run))"
    by (metis list.set_sel(1))
  moreover have "\<exists>n. fst ?run = Inr n" using relay_keeps_every_close [OF run] by blast
  moreover have "snd ?run = (((), snd (fst (snd ?run))), snd (snd ?run))" by (simp add: prod_eq_iff)
  ultimately show ?thesis by blast
qed

lemma parse_line: "parse_json (stringify j @ [CHR 0x0A]) = Some j"
proof -
  have "num_end [CHR 0x0A]" by (simp add: num_end_def no_digit_def digit_val_def)
  moreover have "need j \<le> Suc (length (stringify j @ [CHR 0x0A]))" using need_le_length [of j] by simp
  ultimately have "parse_value (Suc (length (stringify j @ [CHR 0x0A]))) (stringify j @ [CHR 0x0A]) = Some (j, [CHR 0x0A])"
    using reads_backD [OF reads_back_all] by blast
  then show ?thesis by (simp add: parse_json_def skip_ws_def json_ws_def del: stringify.simps)
qed

text \<open>
  The block cursor survives its file: reading back what \<open>saveCursor\<close> wrote gives the block that was saved,
  whatever its size or sign.
\<close>

theorem cursor_round_trip: "parse_cursor (cursor_text n) = Inr (Some n)"
proof -
  have digits: "list_all (\<lambda>c. digit_val c \<noteq> None) (show_nat k)" for k
    using show_nat_all_digits by (auto simp: list_all_iff)
  have read: "decimal_value (show_nat k) = int k" for k
    using read_show_nat [of "[]" k] by (simp add: decimal_value_def no_digit_def)
  obtain c cs where c: "show_nat (nat n) = c # cs" "digit_val c \<noteq> None" using show_nat_digits by blast
  have minus: "c \<noteq> CHR ''-''" using c(2) by (auto simp: digit_val_def)
  have "bigint_of (show_int n) = Inr n"
  proof (cases "n < 0")
    case True
    then show ?thesis using digits read by (simp add: bigint_of_def show_int_def show_nat_not_Nil)
  next
    case False
    then show ?thesis using digits [of "nat n"] read [of "nat n"] c(1) minus
      by (simp add: bigint_of_def show_int_def)
  qed
  moreover have "parse_json (cursor_text n) = Some (JObj [(''nextBlock'', JStr (show_int n))])"
    unfolding cursor_text_def by (rule parse_line)
  ultimately show ?thesis by (simp add: parse_cursor_def)
qed

end
