(* ===== verification/RelayAllowlist.thy ===== *)
theory RelayAllowlist
  imports RelayReceipts
begin

text \<open>
  What the allowlist step of a relay pass (\<open>syncAllowlist\<close> of \<open>packages/cre/relay/relay.ts\<close>) sends to the receipts
  contract and reports to the website.
\<close>

fun change_of :: "requester \<Rightarrow> (string \<times> bool) list" where
  "change_of rq =
     (if rq_status rq = Requester_APPROVED \<and> rq_allowlist rq \<noteq> Allowlist_ALLOWED then [(rq_address rq, True)]
      else if rq_status rq = Requester_REVOKED \<and> rq_allowlist rq = Allowlist_ALLOWED then [(rq_address rq, False)]
      else [])"

definition changes :: "(customer \<times> requester) list \<Rightarrow> (string \<times> bool) list" where
  "changes pairs = concat (map (change_of \<circ> snd) pairs)"

fun set_call :: "relay_event \<Rightarrow> (string \<times> bool) list" where
  "set_call (Ev_setRequester address allowed _) = [(address, allowed)]"
| "set_call _ = []"

definition set_calls :: "relay_event list \<Rightarrow> (string \<times> bool) list" where
  "set_calls l = concat (map set_call l)"

lemma set_calls_snoc [simp]: "set_calls (l @ [ev]) = set_calls l @ set_call ev"
  by (simp add: set_calls_def)

text \<open>A report names the transaction of the change it reports.\<close>

definition report_ok :: "(customer \<times> requester) list \<Rightarrow> relay_event list \<Rightarrow> relay_event \<Rightarrow> bool" where
  "report_ok pairs pre ev =
     (case ev of
        Ev_reportAllowlist rid allowed hash _ \<Rightarrow>
          (\<exists>c rq. (c, rq) \<in> set pairs \<and> rq_id rq = rid \<and> Ev_setRequester (rq_address rq) allowed (Inr hash) \<in> set pre)
      | Ev_setRequester _ _ _ \<Rightarrow> True
      | _ \<Rightarrow> False)"

lemma change_spec:
  assumes "(c, rq) \<in> set pairs"
  shows "spec (\<lambda>l. set_calls l = pre \<and> each (report_ok pairs) l)
     (bind_a (call (Ev_setRequester (rq_address rq) allow) f) (\<lambda>hash. call (Ev_reportAllowlist (rq_id rq) allow hash) (g hash)))
     (\<lambda>_ l. set_calls l = pre @ [(rq_address rq, allow)] \<and> each (report_ok pairs) l)
     (\<lambda>l. set_calls l = pre @ [(rq_address rq, allow)] \<and> each (report_ok pairs) l)"
proof -
  let ?done = "\<lambda>l. set_calls l = pre @ [(rq_address rq, allow)] \<and> each (report_ok pairs) l"
  have called: "spec (\<lambda>l. set_calls l = pre \<and> each (report_ok pairs) l)
      (call (Ev_setRequester (rq_address rq) allow) f)
      (\<lambda>hash l. ?done l \<and> Ev_setRequester (rq_address rq) allow (Inr hash) \<in> set l) ?done"
    by (rule spec_call) (auto simp: report_ok_def)
  have reported: "spec (\<lambda>l. ?done l \<and> Ev_setRequester (rq_address rq) allow (Inr hash) \<in> set l)
      (call (Ev_reportAllowlist (rq_id rq) allow hash) (g hash)) (\<lambda>_. ?done) ?done" for hash
    by (rule spec_call) (use assms in \<open>auto simp: report_ok_def\<close>)
  show ?thesis by (rule spec_bind [OF called reported])
qed

lemma sync_requester_spec:
  assumes "p \<in> set pairs"
  shows "spec (\<lambda>l. set_calls l = pre \<and> each (report_ok pairs) l) (sync_requester io n p)
     (\<lambda>_ l. set_calls l = pre @ change_of (snd p) \<and> each (report_ok pairs) l) (\<lambda>_. False)"
proof (cases "change_of (snd p)")
  case Nil
  then show ?thesis by (auto simp: sync_requester_def Let_def split: if_splits intro: spec_return)
next
  case (Cons d ds)
  obtain c rq where p: "p = (c, rq)" by (cases p)
  define allow where "allow = (rq_status rq = Requester_APPROVED \<and> rq_allowlist rq \<noteq> Allowlist_ALLOWED)"
  have change: "change_of rq = [(rq_address rq, allow)]" "allow \<or> rq_status rq = Requester_REVOKED \<and> rq_allowlist rq = Allowlist_ALLOWED"
    using Cons p by (auto simp: allow_def split: if_splits)
  have "spec (\<lambda>l. set_calls l = pre \<and> each (report_ok pairs) l)
      (attempt (bind_a (call (Ev_setRequester (rq_address rq) allow) f) (\<lambda>hash. call (Ev_reportAllowlist (rq_id rq) allow hash) (g hash))))
      (\<lambda>_ l. set_calls l = pre @ change_of rq \<and> each (report_ok pairs) l) (\<lambda>_. False)" for f g
    unfolding change(1) by (rule spec_attempt, rule spec_weaken [OF change_spec]) (use assms p in auto)
  note step = spec_then_return [OF this]
  from change(2) have "\<not> (\<not> allow \<and> \<not> (rq_status rq = Requester_REVOKED \<and> rq_allowlist rq = Allowlist_ALLOWED))" by blast
  then show ?thesis unfolding sync_requester_def Let_def p snd_conv allow_def [symmetric]
    by (simp only: if_False) (rule step)
qed

lemma sync_spec:
  assumes "set xs \<subseteq> set pairs"
  shows "spec (\<lambda>l. set_calls l = pre \<and> each (report_ok pairs) l) (fold_a (sync_requester io) n xs)
     (\<lambda>_ l. set_calls l = pre @ changes xs \<and> each (report_ok pairs) l) (\<lambda>_. False)"
  using assms
proof (induction xs arbitrary: n pre)
  case Nil
  show ?case by (simp add: spec_return changes_def)
next
  case (Cons x xs)
  have first: "spec (\<lambda>l. set_calls l = pre \<and> each (report_ok pairs) l) (sync_requester io n x)
      (\<lambda>_ l. set_calls l = pre @ change_of (snd x) \<and> each (report_ok pairs) l) (\<lambda>_. False)"
    by (rule sync_requester_spec) (use Cons.prems in simp)
  have rest: "spec (\<lambda>l. set_calls l = pre @ change_of (snd x) \<and> each (report_ok pairs) l) (fold_a (sync_requester io) m xs)
      (\<lambda>_ l. set_calls l = pre @ changes (x # xs) \<and> each (report_ok pairs) l) (\<lambda>_. False)" for m
    using Cons.IH [of "pre @ change_of (snd x)" m] Cons.prems by (simp add: changes_def)
  show ?case using spec_bind [OF first rest] by simp
qed

text \<open>
  C37. The allowlist follows the registry exactly. A pass calls \<open>setRequester\<close> once for each address that is
  approved and not allowed yet, to allow it, and once for each that is revoked and still allowed, to remove it,
  in the registry's order, and for no other; it goes on whatever fails, and it reports a change only with the
  hash of the transaction that made it.
\<close>

theorem syncAllowlist_exact:
  assumes "syncAllowlist io customers (w, []) = (r, (w', l))"
  shows "(\<exists>n. r = Inr n) \<and> set_calls l = changes (requester_pairs customers)
    \<and> (\<forall>before rid allowed hash answer after. l = before @ Ev_reportAllowlist rid allowed hash answer # after \<longrightarrow>
        (\<exists>customer \<in> set customers. \<exists>rq \<in> set (cu_requesters customer).
           rq_id rq = rid \<and> Ev_setRequester (rq_address rq) allowed (Inr hash) \<in> set before))"
proof -
  let ?pairs = "requester_pairs customers"
  have "spec (\<lambda>l. set_calls l = [] \<and> each (report_ok ?pairs) l) (syncAllowlist io customers)
      (\<lambda>_ l. set_calls l = [] @ changes ?pairs \<and> each (report_ok ?pairs) l) (\<lambda>_. False)"
    unfolding syncAllowlist_def by (rule sync_spec) simp
  from spec_result [OF this _ assms] have run: "\<exists>n. r = Inr n" "set_calls l = changes ?pairs" and ok: "each (report_ok ?pairs) l"
    by (auto simp: set_calls_def split: sum.splits)
  have "\<exists>customer \<in> set customers. \<exists>rq \<in> set (cu_requesters customer).
      rq_id rq = rid \<and> Ev_setRequester (rq_address rq) allowed (Inr hash) \<in> set before"
    if l: "l = before @ Ev_reportAllowlist rid allowed hash answer # after" for before rid allowed hash answer after
  proof -
    from eachD [OF ok l] obtain c rq where "(c, rq) \<in> set ?pairs" "rq_id rq = rid"
        "Ev_setRequester (rq_address rq) allowed (Inr hash) \<in> set before"
      by (auto simp: report_ok_def)
    then show ?thesis by (auto simp: requester_pairs_def)
  qed
  with run show ?thesis by blast
qed

definition demo_registry :: "customer list" where
  "demo_registry = [demo_customer
     \<lparr>cu_requesters := [\<lparr>rq_id = ''1'', rq_address = ''0xa'', rq_status = Requester_APPROVED, rq_allowlist = Allowlist_NONE\<rparr>,
        \<lparr>rq_id = ''2'', rq_address = ''0xb'', rq_status = Requester_REVOKED, rq_allowlist = Allowlist_ALLOWED\<rparr>,
        \<lparr>rq_id = ''3'', rq_address = ''0xc'', rq_status = Requester_PENDING, rq_allowlist = Allowlist_NONE\<rparr>]\<rparr>]"

theorem syncAllowlist_exact_witness:
  "fst (syncAllowlist quiet_relay demo_registry ((), [])) = Inr 2
   \<and> set_calls (snd (snd (syncAllowlist quiet_relay demo_registry ((), [])))) = [(''0xa'', True), (''0xb'', False)]"
proof -
  let ?run = "syncAllowlist quiet_relay demo_registry ((), [])"
  have run: "?run = (fst ?run, ((), snd (snd ?run)))" by (simp add: prod_eq_iff)
  have "set_calls (snd (snd ?run)) = changes (requester_pairs demo_registry)"
    using syncAllowlist_exact [OF run] by blast
  moreover have "changes (requester_pairs demo_registry) = [(''0xa'', True), (''0xb'', False)]" by code_simp
  moreover have "fst ?run = Inr 2" by code_simp
  ultimately show ?thesis by simp
qed

end
