(* ===== verification/BridgeWebhook.thy ===== *)
theory BridgeWebhook
  imports Subjects Studio WebPlatform
begin

text \<open>
  The Room webhook side of the bridge (\<open>packages/cre/bridge/webhook.ts\<close>): the host agent's signed deliveries and
  polls, and what a Room member's message asks for. HMAC-SHA256 is a parameter; a body is its bytes.
\<close>

subsection \<open>Signatures\<close>

definition SIGNATURE_TOLERANCE_SECONDS :: int where "SIGNATURE_TOLERANCE_SECONDS = 300"

text \<open>\<open>Buffer.from(text, "hex")\<close>: reading stops at the first pair that is not hex.\<close>

fun hex_bytes :: "string \<Rightarrow> 8 word list" where
  "hex_bytes (a # b # r) =
     (case (hex_value a, hex_value b) of
        (Some x, Some y) \<Rightarrow> word_of_nat (16 * x + y) # hex_bytes r
      | _ \<Rightarrow> [])"
| "hex_bytes _ = []"

text \<open>\<open>/^[0-9]{1,12}$/\<close>.\<close>

definition timestamp_text :: "string \<Rightarrow> bool" where
  "timestamp_text s \<longleftrightarrow> s \<noteq> [] \<and> length s \<le> 12 \<and> list_all (\<lambda>c. digit_val c \<noteq> None) s"

definition given_signatures :: "string \<Rightarrow> 8 word list list" where
  "given_signatures header =
     map hex_bytes (filter (hex_text 64) (map (drop 3) (filter (starts_with ''v1='') (map trim (split_on (CHR '','') header)))))"

text \<open>Two digests are both of 32 bytes, so that comparing them in constant time does not throw.\<close>

definition verifyWebhookSignature ::
  "(string \<Rightarrow> string \<Rightarrow> 8 word list) \<Rightarrow> string list \<Rightarrow> string option \<Rightarrow> string option \<Rightarrow> string \<Rightarrow> int \<Rightarrow> bool" where
  "verifyWebhookSignature hmac_sha256 secrets timestamp signatureHeader body nowSeconds =
     (case (truthy timestamp, truthy signatureHeader) of
        (Some ts, Some header) \<Rightarrow>
          if \<not> timestamp_text ts then False
          else if \<bar>nowSeconds - decimal_value ts\<bar> > SIGNATURE_TOLERANCE_SECONDS then False
          else
            (let given = given_signatures header in
             list_ex (\<lambda>secret.
               let expected = hmac_sha256 secret (''v1:'' @ ts @ '':'' @ body) in
               list_ex (\<lambda>signature. signature = expected) given) secrets)
      | _ \<Rightarrow> False)"

subsection \<open>Envelopes\<close>

record envelope =
  en_type :: string
  en_room_id :: string
  en_channel_id :: string
  en_publication_id :: string
  en_publisher_member_id :: string
  en_webhook_member_id :: string
  en_hop :: int
  en_text :: "string option"

definition isRecord :: "json \<Rightarrow> bool" where
  "isRecord j = (case j of JObj _ \<Rightarrow> True | _ \<Rightarrow> False)"

definition parseEnvelope :: "string \<Rightarrow> envelope option" where
  "parseEnvelope body =
     (case parse_json (text_decode body) of
        None \<Rightarrow> None
      | Some j \<Rightarrow>
          if \<not> isRecord j then None
          else
            (case (as_str (jget j ''type''), as_str (jget j ''room_id''), as_str (jget j ''channel_id''),
                   as_str (jget j ''publication_id''), as_str (jget j ''publisher_member_id''),
                   as_str (jget j ''webhook_member_id''), as_num (jget j ''hop'')) of
               (Some ty, Some room, Some channel, Some publication, Some publisher, Some webhook, Some hop) \<Rightarrow>
                 Some \<lparr>en_type = ty, en_room_id = room, en_channel_id = channel, en_publication_id = publication,
                   en_publisher_member_id = publisher, en_webhook_member_id = webhook, en_hop = hop,
                   en_text = as_str (jget j ''text'')\<rparr>
             | _ \<Rightarrow> None))"

subsection \<open>Requests\<close>

record attestation_policy =
  ap_rooms :: "(string \<times> string list) list"
  ap_allowTransferAttestations :: bool

datatype room_request = Rr_ignore | Rr_refuse string string | Rr_attest attestation bool

text \<open>\<open>/^btr_pub_[a-z2-7]{26}$/\<close>.\<close>

definition base32_char :: "char \<Rightarrow> bool" where
  "base32_char c = (let n = of_char c :: nat in 97 \<le> n \<and> n \<le> 122 \<or> 50 \<le> n \<and> n \<le> 55)"

definition PUBLICATION_ID :: "string \<Rightarrow> bool" where
  "PUBLICATION_ID s \<longleftrightarrow> starts_with ''btr_pub_'' s \<and> length (drop 8 s) = 26 \<and> list_all base32_char (drop 8 s)"

text \<open>
  Reading a key of a plain object finds the members of \<open>Object.prototype\<close> too. None of them is one of the code's
  values: what is read there has no \<open>channels\<close>.
\<close>

definition object_prototype :: "string list" where
  "object_prototype =
     [''constructor'', ''__defineGetter__'', ''__defineSetter__'', ''hasOwnProperty'', ''__lookupGetter__'',
      ''__lookupSetter__'', ''isPrototypeOf'', ''propertyIsEnumerable'', ''toString'', ''valueOf'', ''__proto__'',
      ''toLocaleString'']"

definition room_channels :: "attestation_policy \<Rightarrow> string \<Rightarrow> string + string list option" where
  "room_channels policy room =
     (case map_of (ap_rooms policy) room of
        Some channels \<Rightarrow> Inr (Some channels)
      | None \<Rightarrow> if List.member object_prototype room then Inl ''TypeError'' else Inr None)"

definition hasOnly :: "json \<Rightarrow> string list \<Rightarrow> bool" where
  "hasOnly j allowed = (case j of JObj kvs \<Rightarrow> list_all (\<lambda>(k, _). List.member allowed k) kvs | _ \<Rightarrow> True)"

definition ELLIPSIS :: string where
  "ELLIPSIS = map char_of [226, 128, 166 :: nat]"

definition ask_publication :: "json \<Rightarrow> string \<Rightarrow> attestation_policy \<Rightarrow> bool \<Rightarrow> string + room_request" where
  "ask_publication body room policy publishOnchain =
     (if \<not> hasOnly body [''op'', ''channel'', ''publication'', ''publish_onchain''] then
        Inr (Rr_refuse ''invalid_request''
          ''attest_room_publication takes `channel`, `publication` and `publish_onchain`.'')
      else
        (case (as_str (jget body ''channel''), as_str (jget body ''publication'')) of
           (Some channel, Some publication) \<Rightarrow>
             if \<not> PUBLICATION_ID publication then
               Inr (Rr_refuse ''invalid_request''
                 (''Name the object `channel` and the `publication` id (btr_pub_'' @ ELLIPSIS @ '').''))
             else
               (case room_channels policy room of
                  Inl e \<Rightarrow> Inl e
                | Inr (Some channels) \<Rightarrow>
                    if List.member channels channel then Inr (Rr_attest (Attest_room room channel publication) publishOnchain)
                    else Inr (Rr_refuse ''channel_not_attestable''
                      ''This bridge does not attest publications of that channel in this Room.'')
                | Inr None \<Rightarrow> Inr (Rr_refuse ''channel_not_attestable''
                      ''This bridge does not attest publications of that channel in this Room.''))
         | _ \<Rightarrow> Inr (Rr_refuse ''invalid_request''
             (''Name the object `channel` and the `publication` id (btr_pub_'' @ ELLIPSIS @ '').''))))"

definition ask_transfer :: "json \<Rightarrow> attestation_policy \<Rightarrow> bool \<Rightarrow> room_request" where
  "ask_transfer body policy publishOnchain =
     (if \<not> hasOnly body [''op'', ''transfer_id'', ''publish_onchain''] then
        Rr_refuse ''invalid_request'' ''attest_transfer takes `transfer_id` and `publish_onchain`.''
      else if \<not> ap_allowTransferAttestations policy then
        Rr_refuse ''transfer_attestations_disabled'' ''This bridge does not attest standard transfers.''
      else
        (case normalizeTransferId (coalesce (as_str (jget body ''transfer_id'')) []) of
           Inl _ \<Rightarrow> Rr_refuse ''invalid_request'' ''`transfer_id` must be a transfer UUID.''
         | Inr transferId \<Rightarrow> Rr_attest (Attest_transfer transferId) publishOnchain))"

text \<open>\<open>body.publish_onchain ?? false\<close>.\<close>

definition publish_onchain :: "json \<Rightarrow> bool option" where
  "publish_onchain body =
     (case jget body ''publish_onchain'' of
        None \<Rightarrow> Some False | Some JNull \<Rightarrow> Some False | Some (JBool b) \<Rightarrow> Some b | Some _ \<Rightarrow> None)"

definition parseRoomRequest :: "envelope \<Rightarrow> attestation_policy \<Rightarrow> string + room_request" where
  "parseRoomRequest ev policy =
     (case en_text ev of
        None \<Rightarrow> Inr Rr_ignore
      | Some text \<Rightarrow>
          if en_type ev \<noteq> ''message'' then Inr Rr_ignore
          else
            (case parse_json text of
               None \<Rightarrow> Inr Rr_ignore
             | Some body \<Rightarrow>
                 (case (isRecord body, as_str (jget body ''op'')) of
                    (True, Some op) \<Rightarrow>
                      (case publish_onchain body of
                         None \<Rightarrow> Inr (Rr_refuse ''invalid_request'' ''`publish_onchain` must be true or false.'')
                       | Some publishOnchain \<Rightarrow>
                           if op = ''attest_room_publication'' then ask_publication body (en_room_id ev) policy publishOnchain
                           else if op = ''attest_transfer'' then Inr (ask_transfer body policy publishOnchain)
                           else if op = ''submit_result_for_attestation'' then
                             Inr (Rr_refuse ''not_attestable''
                               ''The DON attests only what it reads from Beam. Publish the result as a Room transfer, then ask attest_room_publication.'')
                           else
                             Inr (Rr_refuse ''not_an_attestation''
                               ''This bridge only forwards attest_room_publication and attest_transfer. Other Room messages need no Chainlink verification.''))
                  | _ \<Rightarrow> Inr Rr_ignore)))"

subsection \<open>Bytes and their hex text\<close>

lemma unat_word_small: "n < 256 \<Longrightarrow> unat (word_of_nat n :: 8 word) = n"
  by (simp add: unat_of_nat)

lemma hex_byte_eq: "hex_byte b = [hex_digit (unat b div 16), hex_digit (unat b mod 16)]"
  by (simp add: hex_byte_def hex_digit_def Let_def)

lemma hex_bytes_hex_byte: "hex_bytes (hex_byte b @ r) = b # hex_bytes r"
proof -
  have "unat b < 256" by (rule unat_byte)
  then have "unat b div 16 < 16" "unat b mod 16 < 16" by auto
  moreover have "16 * (unat b div 16) + unat b mod 16 = unat b" by simp
  ultimately show ?thesis by (simp add: hex_byte_eq hex_value_digit)
qed

lemma hex_bytes_bytesToHex [simp]: "hex_bytes (bytesToHex bs) = bs"
  by (induction bs) (simp_all add: bytesToHex_def hex_bytes_hex_byte)

lemma hex_digit_value:
  assumes "lower_hex c"
  shows "\<exists>x < 16. hex_value c = Some x \<and> hex_digit x = c"
proof -
  have "char_of (of_char c :: nat) = c" by simp
  with assms show ?thesis
    by (auto simp: lower_hex_def hex_value_def hex_digit_def Let_def)
qed

lemma bytesToHex_hex_bytes: "list_all lower_hex s \<Longrightarrow> even (length s) \<Longrightarrow> bytesToHex (hex_bytes s) = s"
proof (induction s rule: hex_bytes.induct)
  case (1 a b r)
  obtain x y where "x < 16" "hex_value a = Some x" "hex_digit x = a" "y < 16" "hex_value b = Some y" "hex_digit y = b"
    using hex_digit_value [of a] hex_digit_value [of b] 1 by auto
  moreover have "bytesToHex (hex_bytes r) = r"
  proof -
    have "bytesToHex (hex_bytes r) = r" if "hex_value a = Some x" "hex_value b = Some y" for x y
      using 1 that by (cases "(hex_value a, hex_value b)") auto
    with calculation show ?thesis by blast
  qed
  ultimately show ?case
    using unat_word_small [of "16 * x + y"] by (simp add: bytesToHex_def hex_byte_eq)
qed (auto simp: bytesToHex_def)

lemma length_hex_bytes: "list_all lower_hex s \<Longrightarrow> even (length s) \<Longrightarrow> 2 * length (hex_bytes s) = length s"
  using bytesToHex_text [of "hex_bytes s"] bytesToHex_hex_bytes [of s] by (simp add: hex_text_def)

subsection \<open>What a signature shows\<close>

lemma given_signature_iff:
  "\<delta> \<in> set (given_signatures header)
     \<longleftrightarrow> (\<exists>part \<in> set (split_on (CHR '','') header). \<exists>h. trim part = ''v1='' @ h \<and> hex_text 64 h \<and> \<delta> = hex_bytes h)"
proof
  assume "\<delta> \<in> set (given_signatures header)"
  then obtain part where part: "part \<in> set (split_on (CHR '','') header)" "starts_with ''v1='' (trim part)"
      "hex_text 64 (drop 3 (trim part))" "\<delta> = hex_bytes (drop 3 (trim part))"
    by (auto simp: given_signatures_def)
  obtain r where r: "trim part = ''v1='' @ r" using part(2) unfolding starts_with_prefix by (rule prefixE)
  then have "drop 3 (trim part) = r" by simp
  with r have "trim part = ''v1='' @ drop 3 (trim part)" by simp
  with part show "\<exists>part \<in> set (split_on (CHR '','') header). \<exists>h. trim part = ''v1='' @ h \<and> hex_text 64 h \<and> \<delta> = hex_bytes h"
    by blast
next
  assume "\<exists>part \<in> set (split_on (CHR '','') header). \<exists>h. trim part = ''v1='' @ h \<and> hex_text 64 h \<and> \<delta> = hex_bytes h"
  then obtain part h where part: "part \<in> set (split_on (CHR '','') header)" "trim part = ''v1='' @ h" "hex_text 64 h" "\<delta> = hex_bytes h"
    by blast
  let ?ys = "filter (starts_with ''v1='') (map trim (split_on (CHR '','') header))"
  have "trim part \<in> set ?ys" using imageI [OF part(1), of trim] part(2) by (simp add: starts_with_def)
  then have "drop 3 (trim part) \<in> set (map (drop 3) ?ys)" unfolding set_map by (rule imageI)
  moreover have "drop 3 (trim part) = h" by (simp add: part(2))
  ultimately have "h \<in> set (filter (hex_text 64) (map (drop 3) ?ys))" using part(3) by (simp del: set_map)
  then show "\<delta> \<in> set (given_signatures header)"
    unfolding given_signatures_def set_map [of hex_bytes] part(4) by (rule imageI)
qed

text \<open>
  A signed request is accepted exactly when it is signed. With digests of 32 bytes, a delivery or poll
  passes if and only if its timestamp is one to twelve digits within 300 seconds of the clock and one of the
  comma-separated parts of its signature header is \<open>v1=\<close> and the lowercase hex of the HMAC, under one of the
  current secrets, of this very timestamp and this very body.
\<close>

theorem webhook_signature_exact:
  assumes "\<And>secret m. length (hmac secret m) = 32"
  shows "verifyWebhookSignature hmac secrets timestamp signatureHeader body now
    \<longleftrightarrow> (\<exists>ts header. timestamp = Some ts \<and> signatureHeader = Some header \<and> timestamp_text ts
          \<and> \<bar>now - decimal_value ts\<bar> \<le> 300
          \<and> (\<exists>secret \<in> set secrets. \<exists>part \<in> set (split_on (CHR '','') header).
                trim part = ''v1='' @ bytesToHex (hmac secret (''v1:'' @ ts @ '':'' @ body))))"
proof -
  have same: "(\<exists>h. trim part = ''v1='' @ h \<and> hex_text 64 h \<and> hmac secret m = hex_bytes h)
      \<longleftrightarrow> trim part = ''v1='' @ bytesToHex (hmac secret m)" for part secret m
    using bytesToHex_text [of "hmac secret m"] assms [of secret m] by (auto simp: hex_text_def bytesToHex_hex_bytes)
  have member: "hmac secret m \<in> set (given_signatures header)
      \<longleftrightarrow> (\<exists>part \<in> set (split_on (CHR '','') header). trim part = ''v1='' @ bytesToHex (hmac secret m))" for secret m header
    by (simp only: given_signature_iff same)
  have empty: "hmac secret m \<notin> set (given_signatures [])" for secret m
    unfolding member by (simp add: trim_def)
  have ts: "timestamp_text ts \<Longrightarrow> truthy (Some ts) = Some ts" for ts by (cases ts) (simp_all add: timestamp_text_def)
  show ?thesis
  proof (cases "timestamp = None \<or> signatureHeader = None")
    case False
    then obtain ts header where [simp]: "timestamp = Some ts" "signatureHeader = Some header" by auto
    show ?thesis
      by (cases ts; cases header; use empty member in
        \<open>auto simp: verifyWebhookSignature_def SIGNATURE_TOLERANCE_SECONDS_def list_ex_iff Let_def timestamp_text_def trim_def\<close>)
  qed (auto simp: verifyWebhookSignature_def split: option.splits)
qed

theorem webhook_signature_exact_witness:
  "verifyWebhookSignature (\<lambda>_ _. replicate 32 0) [''k''] (Some ''17'')
     (Some (''v0=1, v1='' @ replicate 64 (CHR ''0''))) ''body'' 317"
proof -
  let ?part = "''v1='' @ replicate 64 (CHR ''0'')"
  have "trim ('' '' @ ?part) = ''v1='' @ bytesToHex (replicate 32 0)"
    "'' '' @ ?part \<in> set (split_on (CHR '','') (''v0=1, v1='' @ replicate 64 (CHR ''0'')))"
    "timestamp_text ''17''" "decimal_value ''17'' = 17"
    by code_simp+
  then show ?thesis
    by (subst webhook_signature_exact) (simp, force)
qed

text \<open>What the operator's policy lets a message of a Room ask for.\<close>

fun attestation_allowed :: "attestation_policy \<Rightarrow> string \<Rightarrow> attestation \<Rightarrow> bool" where
  "attestation_allowed policy room (Attest_room r channel publication) \<longleftrightarrow>
     r = room \<and> PUBLICATION_ID publication
     \<and> (\<exists>channels. map_of (ap_rooms policy) room = Some channels \<and> channel \<in> set channels)"
| "attestation_allowed policy room (Attest_transfer t) \<longleftrightarrow>
     ap_allowTransferAttestations policy \<and> normalizeTransferId t = Inr t"

text \<open>A message gets an attestation only within the policy of its own Room.\<close>

lemma parsed_request_allowed:
  assumes "parseRoomRequest ev policy = Inr (Rr_attest a p)"
  shows "attestation_allowed policy (en_room_id ev) a"
proof -
  have publication: "ask_publication body room policy b = Inr (Rr_attest a p) \<Longrightarrow> attestation_allowed policy room a" for body room b
    by (auto simp: ask_publication_def room_channels_def split: if_splits option.splits sum.splits)
  have transfer: "ask_transfer body policy b = Rr_attest a p \<Longrightarrow> attestation_allowed policy room a" for body room b
    by (auto simp: ask_transfer_def intro: normalize_twice split: if_splits sum.splits)
  obtain msg where msg: "en_text ev = Some msg" "en_type ev = ''message''"
    using assms by (cases "en_text ev") (auto simp: parseRoomRequest_def split: if_splits)
  obtain body where body: "parse_json msg = Some body"
    using assms msg by (cases "parse_json msg") (simp_all add: parseRoomRequest_def)
  obtain op where op: "isRecord body" "as_str (jget body ''op'') = Some op"
    using assms msg body by (cases "isRecord body"; cases "as_str (jget body ''op'')") (simp_all add: parseRoomRequest_def)
  obtain b where "publish_onchain body = Some b"
    using assms msg body op by (cases "publish_onchain body") (simp_all add: parseRoomRequest_def)
  then have "ask_publication body (en_room_id ev) policy b = Inr (Rr_attest a p) \<or> ask_transfer body policy b = Rr_attest a p"
    using assms msg body op by (simp add: parseRoomRequest_def split: if_splits)
  then show ?thesis using publication transfer by blast
qed

end
