(* ===== verification/BridgeReport.thy ===== *)
theory BridgeReport
  imports BridgeWebhook
begin

text \<open>
  CRE reports received over HTTP (\<open>packages/cre/bridge/report.ts\<close>): their metadata header, the DON's signatures
  over them, and the DON's signers as the Capability Registry answers them. Keccak-256 over hex text, the
  recovery of a signature's address and the registry's calls are parameters.
\<close>

subsection \<open>Reports\<close>

definition REPORT_HEADER_BYTES :: nat where "REPORT_HEADER_BYTES = 109"

record report_header =
  rh_version :: int
  rh_executionId :: string
  rh_timestamp :: int
  rh_donId :: int
  rh_donConfigVersion :: int
  rh_workflowId :: string
  rh_workflowName :: string
  rh_workflowOwner :: string
  rh_reportId :: string

record signed_report =
  sg_rawReport :: "8 word list"
  sg_context :: "8 word list"
  sg_signatures :: "8 word list list"

text \<open>An even number of hex digits, of either case.\<close>

definition hex_field :: "json \<Rightarrow> 8 word list option" where
  "hex_field j =
     (case j of
        JStr s \<Rightarrow> if even (length s) \<and> list_all lower_hex (to_lower s) then Some (hex_bytes s) else None
      | _ \<Rightarrow> None)"

fun all_fields :: "json list \<Rightarrow> 8 word list list option" where
  "all_fields [] = Some []"
| "all_fields (j # js) =
     (case (hex_field j, all_fields js) of (Some b, Some bs) \<Rightarrow> Some (b # bs) | _ \<Rightarrow> None)"

definition parseSubmission :: "json \<Rightarrow> signed_report option" where
  "parseSubmission j =
     (case (Option.bind (jget j ''report'') hex_field, Option.bind (jget j ''context'') hex_field, as_arr (jget j ''signatures'')) of
        (Some rawReport, Some context, Some signatures) \<Rightarrow>
          if length signatures > 64 then None
          else map_option (\<lambda>sigs. \<lparr>sg_rawReport = rawReport, sg_context = context, sg_signatures = sigs\<rparr>) (all_fields signatures)
      | _ \<Rightarrow> None)"

definition subarray :: "nat \<Rightarrow> nat \<Rightarrow> 'a list \<Rightarrow> 'a list" where
  "subarray lo hi bs = take (hi - lo) (drop lo bs)"

text \<open>Big-endian.\<close>

definition be_value :: "8 word list \<Rightarrow> int" where
  "be_value bs = foldl (\<lambda>n b. 256 * n + uint b) 0 bs"

definition parseHeader :: "8 word list \<Rightarrow> string + report_header" where
  "parseHeader rawReport =
     (if length rawReport < REPORT_HEADER_BYTES then
        Inl (''The report is '' @ show_nat (length rawReport) @ '' bytes, shorter than its '' @ show_nat REPORT_HEADER_BYTES
          @ ''-byte header'')
      else
        Inr \<lparr>rh_version = uint (rawReport ! 0), rh_executionId = bytesToHex (subarray 1 33 rawReport),
          rh_timestamp = be_value (subarray 33 37 rawReport), rh_donId = be_value (subarray 37 41 rawReport),
          rh_donConfigVersion = be_value (subarray 41 45 rawReport), rh_workflowId = bytesToHex (subarray 45 77 rawReport),
          rh_workflowName = bytesToHex (subarray 77 87 rawReport), rh_workflowOwner = bytesToHex (subarray 87 107 rawReport),
          rh_reportId = bytesToHex (subarray 107 109 rawReport)\<rparr>)"

definition toHex :: "8 word list \<Rightarrow> string" where
  "toHex bs = ''0x'' @ bytesToHex bs"

definition reportBody :: "8 word list \<Rightarrow> string" where
  "reportBody rawReport = toHex (drop REPORT_HEADER_BYTES rawReport)"

text \<open>Concatenating two hex texts keeps one \<open>0x\<close>.\<close>

definition reportDigest :: "(string \<Rightarrow> string) \<Rightarrow> 8 word list \<Rightarrow> 8 word list \<Rightarrow> string" where
  "reportDigest keccak256 rawReport context = keccak256 (keccak256 (toHex rawReport) @ bytesToHex context)"

subsection \<open>Signatures\<close>

record signer_set =
  ss_f :: int
  ss_signers :: "string list"

text \<open>A recovery id of 27 or more is brought down by 27.\<close>

definition normalized_signature :: "8 word list \<Rightarrow> 8 word list" where
  "normalized_signature signature = (if uint (signature ! 64) \<ge> 27 then signature[64 := signature ! 64 - 27] else signature)"

fun accept_signatures ::
  "(string \<Rightarrow> string \<Rightarrow> string + string) \<Rightarrow> string \<Rightarrow> signer_set \<Rightarrow> 8 word list list \<Rightarrow> string list \<Rightarrow> string list" where
  "accept_signatures recoverAddress digest set_of [] accepted = accepted"
| "accept_signatures recoverAddress digest set_of (signature # rest) accepted =
     (if int (length accepted) = ss_f set_of + 1 then accepted
      else if length signature \<noteq> 65 then accept_signatures recoverAddress digest set_of rest accepted
      else
        (case recoverAddress digest (toHex (normalized_signature signature)) of
           Inl _ \<Rightarrow> accept_signatures recoverAddress digest set_of rest accepted
         | Inr address \<Rightarrow>
             (let signer = to_lower address in
              accept_signatures recoverAddress digest set_of rest
                (if List.member (ss_signers set_of) signer \<and> \<not> List.member accepted signer then accepted @ [signer]
                 else accepted))))"

definition verifyReportSignatures ::
  "(string \<Rightarrow> string) \<Rightarrow> (string \<Rightarrow> string \<Rightarrow> string + string) \<Rightarrow> signed_report \<Rightarrow> signer_set \<Rightarrow> string + string list" where
  "verifyReportSignatures keccak256 recoverAddress report set_of =
     (let accepted = accept_signatures recoverAddress (reportDigest keccak256 (sg_rawReport report) (sg_context report)) set_of
            (sg_signatures report) [] in
      if int (length accepted) < ss_f set_of + 1 then
        Inl (''The report has '' @ show_nat (length accepted) @ '' valid signatures from distinct DON signers; it needs ''
          @ show_int (ss_f set_of + 1))
      else Inr accepted)"

subsection \<open>The Capability Registry\<close>

definition GET_DON :: string where "GET_DON = ''0x23537405''"
definition GET_NODES_BY_P2P_IDS :: string where "GET_NODES_BY_P2P_IDS = ''0x05a51966''"
definition NODE_INFO_HEAD_BYTES :: int where "NODE_INFO_HEAD_BYTES = 288"

text \<open>A call: the contract's address and the call data to the answer's hex text.\<close>

type_synonym 'w eth_call = "string \<Rightarrow> string \<Rightarrow> 'w \<Rightarrow> (string + string) \<times> 'w"

definition SHORT_ANSWER :: string where
  "SHORT_ANSWER = ''Capability Registry answer is shorter than expected''"

definition slice :: "int \<Rightarrow> int \<Rightarrow> 8 word list \<Rightarrow> 8 word list" where
  "slice lo hi bs = subarray (nat lo) (nat hi) bs"

text \<open>A word of the answer, when it is there and a safe integer. Offsets are never negative.\<close>

definition word_at :: "8 word list \<Rightarrow> int \<Rightarrow> string + int" where
  "word_at bs offset =
     (if offset + 32 > int (length bs) then Inl SHORT_ANSWER
      else
        (let v = be_value (slice offset (offset + 32) bs) in
         if v > MAX_SAFE_INTEGER then Inl ''Capability Registry answer has an out-of-range word'' else Inr v))"

fun nat_hex :: "nat \<Rightarrow> string" where
  "nat_hex n = (if n < 16 then [hex_digit n] else nat_hex (n div 16) @ [hex_digit (n mod 16)])"

declare nat_hex.simps [simp del]

definition uint256 :: "int \<Rightarrow> string" where
  "uint256 v = pad_start 64 (CHR ''0'') (nat_hex (nat v))"

function p2p_ids :: "8 word list \<Rightarrow> int \<Rightarrow> int \<Rightarrow> int \<Rightarrow> string list \<Rightarrow> string + string list" where
  "p2p_ids don idsOffset count i ids =
     (if i < count then
        (let start = idsOffset + 32 + i * 32 in
         if start + 32 > int (length don) then Inl SHORT_ANSWER
         else p2p_ids don idsOffset count (i + 1) (ids @ [bytesToHex (slice start (start + 32) don)]))
      else Inr ids)"
  by auto
termination
  by (relation "measure (\<lambda>(don, idsOffset, count, i, ids). nat (count - i))") auto

declare p2p_ids.simps [simp del]

text \<open>\<open>getAddress\<close> only sets the case of an address of 20 bytes, which is then lowered.\<close>

function node_signers :: "8 word list \<Rightarrow> int \<Rightarrow> int \<Rightarrow> int \<Rightarrow> string list \<Rightarrow> string + string list" where
  "node_signers nodes outer returned i signers =
     (if i < returned then
        (case word_at nodes (outer + 32 + i * 32) of
           Inl e \<Rightarrow> Inl e
         | Inr position \<Rightarrow>
             (let tuple = outer + 32 + position in
              if tuple + NODE_INFO_HEAD_BYTES > int (length nodes) then Inl SHORT_ANSWER
              else
                (let signer = toHex (slice (tuple + 96) (tuple + 116) nodes) in
                 node_signers nodes outer returned (i + 1)
                   (if List.member signers signer then signers else signers @ [signer]))))
      else Inr signers)"
  by auto
termination
  by (relation "measure (\<lambda>(nodes, outer, returned, i, signers). nat (returned - i))") auto

declare node_signers.simps [simp del]

definition parse_don :: "8 word list \<Rightarrow> string + int \<times> string list" where
  "parse_don don =
     (case word_at don 96 of
        Inl e \<Rightarrow> Inl e
      | Inr f \<Rightarrow>
          (case word_at don 192 of
             Inl e \<Rightarrow> Inl e
           | Inr position \<Rightarrow>
               (let idsOffset = 32 + position in
                case word_at don idsOffset of
                  Inl e \<Rightarrow> Inl e
                | Inr count \<Rightarrow>
                    (case p2p_ids don idsOffset count 0 [] of Inl e \<Rightarrow> Inl e | Inr ids \<Rightarrow> Inr (f, ids)))))"

definition parse_nodes :: "8 word list \<Rightarrow> string + string list" where
  "parse_nodes nodes =
     (case word_at nodes 0 of
        Inl e \<Rightarrow> Inl e
      | Inr outer \<Rightarrow>
          (case word_at nodes outer of
             Inl e \<Rightarrow> Inl e
           | Inr returned \<Rightarrow> node_signers nodes outer returned 0 []))"

definition readDonSigners :: "'w eth_call \<Rightarrow> string \<Rightarrow> int \<Rightarrow> 'w \<Rightarrow> (string + signer_set) \<times> 'w" where
  "readDonSigners ask registry donId w =
     (case ask registry (GET_DON @ uint256 donId) w of
        (Inl e, w1) \<Rightarrow> (Inl e, w1)
      | (Inr answer, w1) \<Rightarrow>
          (case parse_don (hex_bytes (drop 2 answer)) of
             Inl e \<Rightarrow> (Inl e, w1)
           | Inr (f, ids) \<Rightarrow>
               if ids = [] then (Inr \<lparr>ss_f = f, ss_signers = []\<rparr>, w1)
               else
                 (case ask registry (GET_NODES_BY_P2P_IDS @ uint256 32 @ uint256 (int (length ids)) @ concat ids) w1 of
                    (Inl e, w2) \<Rightarrow> (Inl e, w2)
                  | (Inr answer', w2) \<Rightarrow>
                      (case parse_nodes (hex_bytes (drop 2 answer')) of
                         Inl e \<Rightarrow> (Inl e, w2)
                       | Inr signers \<Rightarrow> (Inr \<lparr>ss_f = f, ss_signers = signers\<rparr>, w2)))))"

subsection \<open>Signatures and signers\<close>

text \<open>The member of the set a signature recovers to.\<close>

definition signer_of :: "(string \<Rightarrow> string \<Rightarrow> string + string) \<Rightarrow> string \<Rightarrow> signer_set \<Rightarrow> 8 word list \<Rightarrow> string option" where
  "signer_of recoverAddress digest set_of signature =
     (if length signature \<noteq> 65 then None
      else
        (case recoverAddress digest (toHex (normalized_signature signature)) of
           Inl _ \<Rightarrow> None
         | Inr address \<Rightarrow> if to_lower address \<in> set (ss_signers set_of) then Some (to_lower address) else None))"

definition found_signers ::
  "(string \<Rightarrow> string \<Rightarrow> string + string) \<Rightarrow> string \<Rightarrow> signer_set \<Rightarrow> 8 word list list \<Rightarrow> string set" where
  "found_signers recoverAddress digest set_of sigs = {s. \<exists>signature \<in> set sigs. signer_of recoverAddress digest set_of signature = Some s}"

lemma accept_step:
  "accept_signatures recover digest S (signature # rest) accepted =
     (if int (length accepted) = ss_f S + 1 then accepted
      else accept_signatures recover digest S rest
        (case signer_of recover digest S signature of
           None \<Rightarrow> accepted | Some s \<Rightarrow> if s \<in> set accepted then accepted else accepted @ [s]))"
  by (auto simp: signer_of_def Let_def split: sum.splits)

declare accept_signatures.simps(2) [simp del]

lemma found_Cons:
  "found_signers recover digest S (signature # rest)
     = set_option (signer_of recover digest S signature) \<union> found_signers recover digest S rest"
  by (auto simp: found_signers_def)

lemma signer_of_member: "signer_of recover digest S signature = Some s \<Longrightarrow> s \<in> set (ss_signers S)"
  by (cases "recover digest (toHex (normalized_signature signature))") (auto simp: signer_of_def split: if_splits)

lemma found_subset: "found_signers recover digest S sigs \<subseteq> set (ss_signers S)"
  using signer_of_member by (fastforce simp: found_signers_def)

lemma accept_exact:
  assumes "distinct accepted" and "int (length accepted) \<le> ss_f S + 1"
  shows "let R = accept_signatures recover digest S sigs accepted in distinct R \<and> int (length R) \<le> ss_f S + 1 \<and> set R \<subseteq> set accepted \<union> found_signers recover digest S sigs
    \<and> (int (length R) = ss_f S + 1 \<or> set R = set accepted \<union> found_signers recover digest S sigs)"
  using assms unfolding Let_def
proof (induction sigs arbitrary: accepted)
  case Nil
  then show ?case by (simp add: found_signers_def)
next
  case (Cons signature rest)
  show ?case
  proof (cases "int (length accepted) = ss_f S + 1")
    case True
    with Cons.prems show ?thesis by (auto simp: accept_step)
  next
    case False
    let ?accepted = "case signer_of recover digest S signature of
        None \<Rightarrow> accepted | Some s \<Rightarrow> if s \<in> set accepted then accepted else accepted @ [s]"
    have "distinct ?accepted \<and> int (length ?accepted) \<le> ss_f S + 1
        \<and> set ?accepted = set accepted \<union> set_option (signer_of recover digest S signature)"
      using Cons.prems False by (auto split: option.splits)
    with Cons.IH [of ?accepted] False show ?thesis by (auto simp: accept_step found_Cons)
  qed
qed

text \<open>
  A DON report is accepted exactly on \<open>f + 1\<close> distinct signers of its DON. When the check succeeds it returns
  \<open>f + 1\<close> distinct members of the signer set, each recovered from one of the report's 65-byte signatures over the
  digest of that report and context; it fails only when the signatures recover to at most \<open>f\<close> distinct members.
\<close>

theorem report_signatures_exact:
  assumes "0 \<le> ss_f S"
  shows "case verifyReportSignatures keccak recover report S of
      Inr accepted \<Rightarrow> distinct accepted \<and> int (length accepted) = ss_f S + 1 \<and> set accepted \<subseteq> set (ss_signers S)
        \<and> set accepted \<subseteq> found_signers recover (reportDigest keccak (sg_rawReport report) (sg_context report)) S (sg_signatures report)
    | Inl _ \<Rightarrow>
        int (card (found_signers recover (reportDigest keccak (sg_rawReport report) (sg_context report)) S (sg_signatures report)))
          \<le> ss_f S"
proof -
  let ?d = "reportDigest keccak (sg_rawReport report) (sg_context report)"
  let ?R = "accept_signatures recover ?d S (sg_signatures report) []"
  have R: "distinct ?R" "int (length ?R) \<le> ss_f S + 1" "set ?R \<subseteq> found_signers recover ?d S (sg_signatures report)"
      "int (length ?R) = ss_f S + 1 \<or> set ?R = found_signers recover ?d S (sg_signatures report)"
    using accept_exact [of "[]" S recover ?d "sg_signatures report"] assms by (auto simp: Let_def)
  show ?thesis
  proof (cases "int (length ?R) = ss_f S + 1")
    case True
    with R found_subset [of recover ?d S] show ?thesis by (auto simp: verifyReportSignatures_def)
  next
    case False
    with R have "int (card (found_signers recover ?d S (sg_signatures report))) \<le> ss_f S"
      using distinct_card [OF R(1)] by auto
    with False R(2) show ?thesis by (auto simp: verifyReportSignatures_def)
  qed
qed

definition demo_recover :: "string \<Rightarrow> string \<Rightarrow> string + string" where
  "demo_recover digest signature = Inr ''0x03''"

theorem report_signatures_exact_witness:
  "verifyReportSignatures (\<lambda>s. s) demo_recover
       \<lparr>sg_rawReport = [1], sg_context = [2], sg_signatures = [replicate 64 3, replicate 65 3]\<rparr>
       \<lparr>ss_f = 0, ss_signers = [''0x03'', ''0x04'']\<rparr> = Inr [''0x03'']
   \<and> set [''0x03''] \<subseteq> {''0x03'', ''0x04''}"
proof -
  let ?r = "\<lparr>sg_rawReport = [1], sg_context = [2], sg_signatures = [replicate 64 3, replicate 65 3]\<rparr>"
  let ?S = "\<lparr>ss_f = 0, ss_signers = [''0x03'', ''0x04'']\<rparr>"
  have lower: "to_lower ''0x03'' = ''0x03''" by code_simp
  have run: "verifyReportSignatures (\<lambda>s. s) demo_recover ?r ?S = Inr [''0x03'']"
    by (simp add: verifyReportSignatures_def accept_step signer_of_def demo_recover_def lower del: to_lower_Cons)
  show ?thesis
    using report_signatures_exact [where S = ?S and keccak = "\<lambda>s. s" and recover = demo_recover and report = ?r]
    unfolding run by simp
qed

subsection \<open>The submission format\<close>

definition submission_json :: "report_submission \<Rightarrow> json" where
  "submission_json r =
     JObj [(''report'', JStr (rs_report r)), (''context'', JStr (rs_context r)),
       (''signatures'', JArr (map JStr (rs_signatures r)))]"

lemma hex_field_bytesToHex: "hex_field (JStr (bytesToHex bs)) = Some bs"
proof -
  have "list_all lower_hex (bytesToHex bs)" "even (length (bytesToHex bs))"
    using bytesToHex_text [of bs] by (simp_all add: hex_text_def)
  moreover from this have "to_lower (bytesToHex bs) = bytesToHex bs"
    by (intro to_lower_id)
  ultimately show ?thesis by (simp add: hex_field_def)
qed

lemma all_fields_bytesToHex: "all_fields (map JStr (map bytesToHex sigs)) = Some sigs"
  by (induction sigs) (simp_all add: hex_field_bytesToHex)

lemma parse_submission_of:
  "length sigs \<le> 64 \<Longrightarrow> parseSubmission (submission_json (reportSubmission rawReport context sigs))
     = Some \<lparr>sg_rawReport = rawReport, sg_context = context, sg_signatures = sigs\<rparr>"
  using all_fields_bytesToHex [of sigs]
  by (simp add: parseSubmission_def submission_json_def reportSubmission_def hex_field_bytesToHex)

text \<open>
  What the workflow submits, the bridge reads back: the report, its context and its signatures, up to 64 of
  them, come out of their hex submission as the bytes that went in.
\<close>

theorem submission_round_trip:
  assumes "length sigs \<le> 64"
  shows "parseSubmission (submission_json (reportSubmission rawReport context sigs))
    = Some \<lparr>sg_rawReport = rawReport, sg_context = context, sg_signatures = sigs\<rparr>"
  using assms by (rule parse_submission_of)

theorem submission_round_trip_witness:
  "parseSubmission (submission_json (reportSubmission [1, 255] [16] [[2], [3, 4]]))
    = Some \<lparr>sg_rawReport = [1, 255], sg_context = [16], sg_signatures = [[2], [3, 4]]\<rparr>"
  by (rule submission_round_trip) simp

end
