(* ===== verification/Bridge.thy ===== *)
theory Bridge
  imports BridgeReport
begin

text \<open>
  The bridge between a Room and Beam's receipts (\<open>packages/cre/bridge/bridge.ts\<close>): Room members ask in a message,
  the bridge gets the answer from a Chainlink DON's signed reports or from a receipts contract, and it becomes the
  reply the Room host polls for. Each handler is cut at its awaits into the steps that run without interruption.
  The ABI coder, Keccak-256, the recovery of addresses, HMAC, the clock and the links to CRE and to the chain are
  parameters; log lines are left out.
\<close>

subsection \<open>State\<close>

datatype request_view = View_transfer string | View_room string string string

text \<open>An answer's view is a JSON object.\<close>

type_synonym answer_view = "(string \<times> json) list"

record signatures_view =
  gv_verified :: bool
  gv_source :: string
  gv_f :: "int option"
  gv_signers :: "string list"

record workflow_view =
  wv_id :: string
  wv_owner :: string
  wv_name :: string
  wv_execution_id :: string
  wv_don_id :: int
  wv_timestamp :: int

record chain_view =
  cv_chain_id :: int
  cv_contract :: string
  cv_don_attested :: bool
  cv_transaction :: "string option"
  cv_block :: "string option"

datatype bridge_reply =
  Reply_attested request_view answer_view signatures_view workflow_view report_submission string
| Reply_recorded request_view answer_view chain_view string
| Reply_other string string "request_view option" string string

record bridge_request =
  br_id :: string
  br_room :: string
  br_channel :: string
  br_publisher :: string
  br_receivedAt :: int
  br_attestation :: attestation
  br_publishOnchain :: bool
  br_attempts :: int
  br_forwardedAt :: "int option"
  br_requestedBlock :: "string option"
  br_reply :: "bridge_reply option"
  br_answeredAt :: "int option"

text \<open>
  The requests, in the order their keys were set. (A JavaScript object lists keys that are decimal integers
  first; a publication id is none.)
\<close>

record bridge_state =
  bs_requests :: "(string \<times> bridge_request) list"
  bs_reports :: "string list"

definition emptyState :: bridge_state where
  "emptyState = \<lparr>bs_requests = [], bs_reports = []\<rparr>"

record bridge = bridge_state +
  bg_nextRunAt :: int

record cre_answers =
  ca_workflowId :: string
  ca_workflowOwner :: string
  ca_paceSeconds :: int
  ca_retrySeconds :: int
  ca_maxAttempts :: int

record contract_answers =
  ct_pollSeconds :: int
  ct_answerWithinSeconds :: int

datatype answers_config = From_cre cre_answers | From_contract contract_answers

record bridge_config =
  bc_policy :: attestation_policy
  bc_answers :: answers_config

definition CRE_REPLY :: string where "CRE_REPLY = ''beam.cre.attestation.v1''"
definition CHAIN_REPLY :: string where "CHAIN_REPLY = ''beam.chain.receipt.v1''"

definition replyType :: "bridge_config \<Rightarrow> string" where
  "replyType cf = (case bc_answers cf of From_cre _ \<Rightarrow> CRE_REPLY | From_contract _ \<Rightarrow> CHAIN_REPLY)"

definition ATTESTATION_CLAIM :: string where
  "ATTESTATION_CLAIM =
     ''Each signing Chainlink node read this answer from Beam and signed the same report. It shows what Beam reported, ''
     @ ''not that Beam is right: the DON does not check Beam's evidence independently.''"

definition RELAY_RECORD_CLAIM :: string where
  "RELAY_RECORD_CLAIM =
     ''A relay operator read this answer from Beam and recorded it on this contract, where anyone can read it. It is ''
     @ ''Beam-reported: no Chainlink DON or other independent party attests it.''"

definition DON_RECORD_CLAIM :: string where
  "DON_RECORD_CLAIM =
     ''Chainlink's forwarder checked the DON's signatures before this answer was recorded on this contract, where anyone ''
     @ ''can read it. It shows what Beam reported, not that Beam is right.''"

definition RETENTION_SECONDS :: int where "RETENTION_SECONDS = 25 * 3600"
definition POLL_RETRY_SECONDS :: nat where "POLL_RETRY_SECONDS = 15"
definition MAX_CHAIN_FAILURES :: int where "MAX_CHAIN_FAILURES = 5"
definition MAX_REPLY_BYTES :: int where "MAX_REPLY_BYTES = 64 * 1024"
definition MAX_REMEMBERED_REPORTS :: nat where "MAX_REMEMBERED_REPORTS = 1000"

subsection \<open>Views\<close>

definition describe :: "attestation \<Rightarrow> string" where
  "describe a =
     (case a of
        Attest_transfer t \<Rightarrow> ''transfer '' @ t
      | Attest_room room channel publication \<Rightarrow> ''publication '' @ room @ ''/'' @ channel @ ''/'' @ publication)"

definition requestView :: "attestation \<Rightarrow> request_view" where
  "requestView a =
     (case a of
        Attest_transfer t \<Rightarrow> View_transfer t
      | Attest_room room channel publication \<Rightarrow> View_room room channel publication)"

definition status_name :: "int \<Rightarrow> string" where
  "status_name status =
     coalesce (map_of [(ReceiptStatus_Completed, ''completed''), (ReceiptStatus_Failed, ''failed''),
       (ReceiptStatus_Cancelled, ''cancelled''), (ReceiptStatus_Partial, ''partial'')] status) (show_int status)"

definition levelNames :: "int \<Rightarrow> string list" where
  "levelNames level =
     map snd (filter (\<lambda>(bit, _). level AND bit \<noteq> 0)
       [(BeamReported, ''beam_reported''), (TargetSigned, ''target_signed''), (DonAttested, ''don_attested'')])"

definition level_json :: "int \<Rightarrow> json" where
  "level_json level = JArr (map JStr (levelNames level))"

definition answerView :: "report_entry \<Rightarrow> string + answer_view" where
  "answerView a =
     (case a of
        Entry_standard e \<Rightarrow>
          (case bytes16ToTransferId (se_transferId e) of
             Inl err \<Rightarrow> Inl err
           | Inr t \<Rightarrow> Inr
               [(''kind'', JStr ''transfer''), (''transfer_id'', JStr t), (''status'', JStr (status_name (se_status e))),
                (''total_bytes'', JStr (show_int (se_totalBytes e))),
                (''bytes_transferred'', JStr (show_int (se_bytesTransferred e))),
                (''completed_at_ms'', JStr (show_int (se_completedAtMs e))),
                (''plan_fingerprint'', JStr (se_planFingerprint e)),
                (''coordinate_checksum'', JStr (se_coordinateChecksum e)), (''level'', JNum (se_level e)),
                (''level_names'', level_json (se_level e))])
      | Entry_room e \<Rightarrow> Inr
          [(''kind'', JStr ''room_publication''), (''room'', JStr (re_room e)), (''channel'', JStr (re_channel e)),
           (''publication'', JStr (re_publication e)), (''status'', JStr (status_name (re_status e))),
           (''file_size_bytes'', JStr (show_int (re_fileSizeBytes e))), (''manifest_sha256'', JStr (re_manifestSha256 e)),
           (''target_count'', JNum (re_targetCount e)), (''evidence_sha256'', JStr (re_evidenceSha256 e)),
           (''assignments_sha256'', JStr (re_assignmentsSha256 e)), (''evidence_version'', JNum (re_evidenceVersion e)),
           (''level'', JNum (re_level e)), (''level_names'', level_json (re_level e))]
      | Entry_closure e \<Rightarrow>
          (if all_zero (ce_transferId e) then
             Inr [(''kind'', JStr ''bucket_only_publication''), (''standard_transfer_id'', JNull)]
           else
             (case bytes16ToTransferId (ce_transferId e) of
                Inl err \<Rightarrow> Inl err
              | Inr t \<Rightarrow> Inr [(''kind'', JStr ''bucket_only_publication''), (''standard_transfer_id'', JStr t)]))
      | Entry_job _ \<Rightarrow> Inl ''TypeError'')"

definition request_json :: "request_view \<Rightarrow> json" where
  "request_json v =
     (case v of
        View_transfer t \<Rightarrow> JObj [(''op'', JStr ''attest_transfer''), (''transfer_id'', JStr t)]
      | View_room room channel publication \<Rightarrow>
          JObj [(''op'', JStr ''attest_room_publication''), (''room'', JStr room), (''channel'', JStr channel),
            (''publication'', JStr publication)])"

definition nullable :: "('a \<Rightarrow> json) \<Rightarrow> 'a option \<Rightarrow> json" where
  "nullable f v = (case v of None \<Rightarrow> JNull | Some x \<Rightarrow> f x)"

definition reply_json :: "bridge_reply \<Rightarrow> json" where
  "reply_json r =
     (case r of
        Reply_attested request answer sigs wflow report claim \<Rightarrow>
          JObj [(''type'', JStr CRE_REPLY), (''outcome'', JStr ''attested''), (''request'', request_json request),
            (''answer'', JObj answer),
            (''signatures'', JObj [(''verified'', JBool (gv_verified sigs)), (''source'', JStr (gv_source sigs)),
               (''f'', nullable JNum (gv_f sigs)), (''signers'', JArr (map JStr (gv_signers sigs)))]),
            (''workflow'', JObj [(''id'', JStr (wv_id wflow)), (''owner'', JStr (wv_owner wflow)), (''name'', JStr (wv_name wflow)),
               (''execution_id'', JStr (wv_execution_id wflow)), (''don_id'', JNum (wv_don_id wflow)),
               (''timestamp'', JNum (wv_timestamp wflow))]),
            (''report'', submission_json report), (''claim'', JStr claim)]
      | Reply_recorded request answer chain claim \<Rightarrow>
          JObj [(''type'', JStr CHAIN_REPLY), (''outcome'', JStr ''recorded''), (''request'', request_json request),
            (''answer'', JObj answer),
            (''chain'', JObj [(''chain_id'', JNum (cv_chain_id chain)), (''contract'', JStr (cv_contract chain)),
               (''don_attested'', JBool (cv_don_attested chain)), (''transaction'', nullable JStr (cv_transaction chain)),
               (''block'', nullable JStr (cv_block chain))]),
            (''claim'', JStr claim)]
      | Reply_other ty outcome request reason message \<Rightarrow>
          JObj [(''type'', JStr ty), (''outcome'', JStr outcome), (''request'', nullable request_json request),
            (''reason'', JStr reason), (''message'', JStr message)])"

definition unanswered_reply :: "string \<Rightarrow> bridge_request \<Rightarrow> string \<Rightarrow> string \<Rightarrow> bridge_reply" where
  "unanswered_reply ty pending reason message =
     Reply_other ty (if ty = CRE_REPLY then ''not_attested'' else ''not_recorded'')
       (Some (requestView (br_attestation pending))) reason message"

text \<open>The length of a string in UTF-16 units, which is what \<open>length\<close> counts.\<close>

definition utf16_length :: "string \<Rightarrow> int" where
  "utf16_length s =
     sum_list (map (\<lambda>c. let n = of_char c :: nat in if 128 \<le> n \<and> n < 192 then 0 else if n \<ge> 240 then 2 else 1) s)"

subsection \<open>Responses\<close>

record hook_response =
  hr_status :: int
  hr_headers :: headers
  hr_body :: "json option"

definition bare :: "int \<Rightarrow> hook_response" where
  "bare status = \<lparr>hr_status = status, hr_headers = [], hr_body = None\<rparr>"

definition json_response :: "int \<Rightarrow> json \<Rightarrow> hook_response" where
  "json_response status body = \<lparr>hr_status = status, hr_headers = [(''content-type'', ''application/json'')], hr_body = Some body\<rparr>"

definition reply_response :: "bridge_reply \<Rightarrow> hook_response" where
  "reply_response r =
     \<lparr>hr_status = 200, hr_headers = [(''content-type'', ''application/json''), (''x-beam-reply'', ''v1'')],
      hr_body = Some (reply_json r)\<rparr>"

definition error_json :: "string \<Rightarrow> json" where
  "error_json e = JObj [(''error'', JStr e)]"

subsection \<open>Deliveries and polls\<close>

definition request_signed ::
  "(string \<Rightarrow> string \<Rightarrow> 8 word list) \<Rightarrow> string list \<Rightarrow> headers \<Rightarrow> string \<Rightarrow> int \<Rightarrow> bool" where
  "request_signed hmac secrets headers body now =
     verifyWebhookSignature hmac secrets (header_get headers ''x-beam-timestamp'') (header_get headers ''x-beam-signature'') body now"

definition new_request :: "envelope \<Rightarrow> attestation \<Rightarrow> bool \<Rightarrow> int \<Rightarrow> bridge_request" where
  "new_request ev a publishOnchain received =
     \<lparr>br_id = en_publication_id ev, br_room = en_room_id ev, br_channel = en_channel_id ev,
      br_publisher = en_publisher_member_id ev, br_receivedAt = received, br_attestation = a,
      br_publishOnchain = publishOnchain, br_attempts = 0, br_forwardedAt = None, br_requestedBlock = None,
      br_reply = None, br_answeredAt = None\<rparr>"

text \<open>
  The step of a delivery whose body has been read; the flag says that the state is saved before the answer. The
  clock is read for the signature and again for a new request. An id that names a member of \<open>Object.prototype\<close>
  reads as present.
\<close>

definition handleDelivery ::
  "(string \<Rightarrow> string \<Rightarrow> 8 word list) \<Rightarrow> string list \<Rightarrow> bridge_config \<Rightarrow> headers \<Rightarrow> string \<Rightarrow> int \<Rightarrow> int
     \<Rightarrow> 'z bridge_state_scheme \<Rightarrow> (string + hook_response) \<times> bool \<times> 'z bridge_state_scheme" where
  "handleDelivery hmac secrets cf headers body now received st =
     (if \<not> request_signed hmac secrets headers body now then (Inr (bare 401), False, st)
      else if \<not> starts_with ''application/json'' (coalesce (header_get headers ''content-type'') []) then (Inr (bare 204), False, st)
      else
        (case parseEnvelope body of
           None \<Rightarrow> (Inr (bare 204), False, st)
         | Some ev \<Rightarrow>
             (case parseRoomRequest ev (bc_policy cf) of
                Inl e \<Rightarrow> (Inl e, False, st)
              | Inr Rr_ignore \<Rightarrow> (Inr (bare 204), False, st)
              | Inr (Rr_refuse reason message) \<Rightarrow>
                  (Inr (reply_response (Reply_other (replyType cf) ''refused'' None reason message)), False, st)
              | Inr (Rr_attest a publishOnchain) \<Rightarrow>
                  (let key = en_publication_id ev;
                       answer = \<lparr>hr_status = 202,
                         hr_headers = [(''x-beam-reply'', ''v1''), (''location'', ''replies/'' @ encodeURIComponent key),
                           (''retry-after'', show_nat POLL_RETRY_SECONDS)], hr_body = None\<rparr> in
                   if map_of (bs_requests st) key = None \<and> \<not> List.member object_prototype key then
                     (Inr answer, True,
                      st\<lparr>bs_requests := bs_requests st @ [(key, new_request ev a publishOnchain received)]\<rparr>)
                   else (Inr answer, False, st)))))"

definition handlePoll ::
  "(string \<Rightarrow> string \<Rightarrow> 8 word list) \<Rightarrow> string list \<Rightarrow> string \<Rightarrow> headers \<Rightarrow> int \<Rightarrow> 'z bridge_state_scheme \<Rightarrow> hook_response" where
  "handlePoll hmac secrets key headers now st =
     (if \<not> request_signed hmac secrets headers [] now then bare 401
      else
        (case map_of (bs_requests st) key of
           None \<Rightarrow> bare 404
         | Some pending \<Rightarrow>
             if header_get headers ''x-beam-publication'' \<noteq> Some (br_id pending)
                \<or> header_get headers ''x-beam-room'' \<noteq> Some (br_room pending) then bare 404
             else
               (case br_reply pending of
                  None \<Rightarrow> \<lparr>hr_status = 202,
                    hr_headers = [(''x-beam-reply'', ''v1''), (''retry-after'', show_nat POLL_RETRY_SECONDS)], hr_body = None\<rparr>
                | Some r \<Rightarrow> reply_response r)))"

subsection \<open>Reports\<close>

record report_check =
  rc_signed :: signed_report
  rc_digest :: string
  rc_header :: report_header
  rc_decoded :: decoded_report

text \<open>What is checked before the DON's signers are asked for: an answer, or a report to go on with.\<close>

definition result_start ::
  "codec \<Rightarrow> bridge_config \<Rightarrow> string \<Rightarrow> 'z bridge_state_scheme \<Rightarrow> hook_response + report_check" where
  "result_start cd cf body st =
     (case bc_answers cf of
        From_contract _ \<Rightarrow> Inl (bare 404)
      | From_cre answers \<Rightarrow>
          (case parse_json (text_decode body) of
             None \<Rightarrow> Inl (json_response 400 (error_json ''invalid_report''))
           | Some submitted \<Rightarrow>
               (case parseSubmission submitted of
                  None \<Rightarrow> Inl (json_response 400 (error_json ''invalid_report''))
                | Some sg \<Rightarrow>
                    (let digest = cd_keccak256 cd (toHex (sg_rawReport sg)) in
                     if List.member (bs_reports st) digest then
                       Inl (json_response 200 (JObj [(''accepted'', JBool True), (''duplicate'', JBool True)]))
                     else
                       (case (parseHeader (sg_rawReport sg), decodeReport cd (reportBody (sg_rawReport sg))) of
                          (Inl e, _) \<Rightarrow> Inl (json_response 400 (JObj [(''error'', JStr ''invalid_report''), (''message'', JStr e)]))
                        | (_, Inl e) \<Rightarrow> Inl (json_response 400 (JObj [(''error'', JStr ''invalid_report''), (''message'', JStr e)]))
                        | (Inr header, Inr decoded) \<Rightarrow>
                            if rh_workflowId header \<noteq> ca_workflowId answers
                               \<or> ''0x'' @ rh_workflowOwner header \<noteq> ca_workflowOwner answers then
                              Inl (json_response 403 (error_json ''unexpected_workflow''))
                            else
                              Inr \<lparr>rc_signed = sg, rc_digest = digest, rc_header = header, rc_decoded = decoded\<rparr>)))))"

text \<open>
  The signers are asked for, and once more when the report does not verify against the first answer: an answer to
  the sender, or the set the report was accepted against (none in the simulator) and the accepted signers.
\<close>

definition signers_unavailable :: hook_response where
  "signers_unavailable = json_response 503 (error_json ''signers_unavailable'')"

definition accept_report ::
  "codec \<Rightarrow> (string \<Rightarrow> string \<Rightarrow> string + string) \<Rightarrow> signed_report \<Rightarrow> string + signer_set option
     \<Rightarrow> string + signer_set option \<Rightarrow> hook_response + (signer_set option \<times> string list)" where
  "accept_report cd recoverAddress sg first again =
     (case first of
        Inl _ \<Rightarrow> Inl signers_unavailable
      | Inr None \<Rightarrow> Inr (None, [])
      | Inr (Some S) \<Rightarrow>
          (case verifyReportSignatures (cd_keccak256 cd) recoverAddress sg S of
             Inr accepted \<Rightarrow> Inr (Some S, accepted)
           | Inl _ \<Rightarrow>
               (case again of
                  Inl _ \<Rightarrow> Inl signers_unavailable
                | Inr None \<Rightarrow> Inr (None, [])
                | Inr (Some S') \<Rightarrow>
                    (case verifyReportSignatures (cd_keccak256 cd) recoverAddress sg S' of
                       Inr accepted \<Rightarrow> Inr (Some S', accepted)
                     | Inl _ \<Rightarrow> Inl (json_response 403 (error_json ''invalid_signatures''))))))"

text \<open>Whether the second answer is needed.\<close>

definition asks_again ::
  "codec \<Rightarrow> (string \<Rightarrow> string \<Rightarrow> string + string) \<Rightarrow> signed_report \<Rightarrow> string + signer_set option \<Rightarrow> bool" where
  "asks_again cd recoverAddress sg first =
     (case first of
        Inr (Some S) \<Rightarrow> (case verifyReportSignatures (cd_keccak256 cd) recoverAddress sg S of Inl _ \<Rightarrow> True | Inr _ \<Rightarrow> False)
      | _ \<Rightarrow> False)"

definition attested_reply ::
  "report_check \<Rightarrow> signer_set option \<Rightarrow> string list \<Rightarrow> bridge_request \<Rightarrow> answer_view \<Rightarrow> bridge_reply" where
  "attested_reply chk signers accepted pending answer =
     Reply_attested (requestView (br_attestation pending)) answer
       \<lparr>gv_verified = (signers \<noteq> None), gv_source = (if signers = None then ''unverified'' else ''registry''),
        gv_f = map_option ss_f signers, gv_signers = accepted\<rparr>
       \<lparr>wv_id = rh_workflowId (rc_header chk), wv_owner = ''0x'' @ rh_workflowOwner (rc_header chk),
        wv_name = rh_workflowName (rc_header chk), wv_execution_id = rh_executionId (rc_header chk),
        wv_don_id = rh_donId (rc_header chk), wv_timestamp = rh_timestamp (rc_header chk)\<rparr>
       (reportSubmission (sg_rawReport (rc_signed chk)) (sg_context (rc_signed chk)) (sg_signatures (rc_signed chk)))
       ATTESTATION_CLAIM"

definition answered_with :: "bridge_reply \<Rightarrow> int \<Rightarrow> bridge_request \<Rightarrow> bridge_request" where
  "answered_with r now pending = pending\<lparr>br_reply := Some r, br_answeredAt := Some now\<rparr>"

text \<open>What a report makes of one request: nothing, a reply, or an exception.\<close>

definition reply_for ::
  "codec \<Rightarrow> string \<Rightarrow> report_check \<Rightarrow> signer_set option \<Rightarrow> string list \<Rightarrow> bridge_request \<Rightarrow> string + bridge_reply option" where
  "reply_for cd ty chk signers accepted pending =
     (if br_reply pending \<noteq> None then Inr None
      else
        (case answerFor cd (br_attestation pending) (rc_decoded chk) of
           Inl e \<Rightarrow> Inl e
         | Inr None \<Rightarrow> Inr None
         | Inr (Some a) \<Rightarrow>
             (case answerView a of
                Inl e \<Rightarrow> Inl e
              | Inr view \<Rightarrow>
                  (let attested = attested_reply chk signers accepted pending view in
                   if utf16_length (stringify (reply_json attested)) > MAX_REPLY_BYTES then
                     Inr (Some (unanswered_reply ty pending ''reply_too_large'' ''The signed report does not fit in a Room reply.''))
                   else Inr (Some attested)))))"

fun answer_all ::
  "codec \<Rightarrow> string \<Rightarrow> report_check \<Rightarrow> signer_set option \<Rightarrow> string list \<Rightarrow> int \<Rightarrow> (string \<times> bridge_request) list
     \<Rightarrow> (string + int) \<times> (string \<times> bridge_request) list" where
  "answer_all cd ty chk signers accepted now [] = (Inr 0, [])"
| "answer_all cd ty chk signers accepted now ((key, pending) # rest) =
     (case reply_for cd ty chk signers accepted pending of
        Inl e \<Rightarrow> (Inl e, (key, pending) # rest)
      | Inr None \<Rightarrow>
          (case answer_all cd ty chk signers accepted now rest of (n, rest') \<Rightarrow> (n, (key, pending) # rest'))
      | Inr (Some r) \<Rightarrow>
          (case answer_all cd ty chk signers accepted now rest of
             (n, rest') \<Rightarrow> (map_sum (\<lambda>e. e) (\<lambda>k. k + 1) n, (key, answered_with r now pending) # rest')))"

text \<open>The last step; an exception leaves the report unremembered and the state unsaved.\<close>

definition result_finish ::
  "codec \<Rightarrow> bridge_config \<Rightarrow> report_check \<Rightarrow> signer_set option \<Rightarrow> string list \<Rightarrow> int \<Rightarrow> 'z bridge_state_scheme
     \<Rightarrow> (string + hook_response) \<times> 'z bridge_state_scheme" where
  "result_finish cd cf chk signers accepted now st =
     (case answer_all cd (replyType cf) chk signers accepted now (bs_requests st) of
        (Inl e, requests) \<Rightarrow> (Inl e, st\<lparr>bs_requests := requests\<rparr>)
      | (Inr answered, requests) \<Rightarrow>
          (let reports = bs_reports st @ [rc_digest chk] in
           (Inr (json_response 200 (JObj [(''accepted'', JBool True), (''answered'', JNum answered)])),
            st\<lparr>bs_requests := requests, bs_reports := drop (length reports - MAX_REMEMBERED_REPORTS) reports\<rparr>)))"

text \<open>The handler run without interruption.\<close>

definition handleResult ::
  "codec \<Rightarrow> (string \<Rightarrow> string \<Rightarrow> string + string) \<Rightarrow> bridge_config
     \<Rightarrow> (int \<Rightarrow> bool \<Rightarrow> 'w \<Rightarrow> (string + signer_set option) \<times> 'w) \<Rightarrow> string \<Rightarrow> int \<Rightarrow> 'z bridge_state_scheme \<Rightarrow> 'w
     \<Rightarrow> (string + hook_response) \<times> 'z bridge_state_scheme \<times> 'w" where
  "handleResult cd recoverAddress cf signers body now st w =
     (case result_start cd cf body st of
        Inl response \<Rightarrow> (Inr response, st, w)
      | Inr chk \<Rightarrow>
          (let don = rh_donId (rc_header chk) in
           case signers don False w of
             (first, w1) \<Rightarrow>
               (case (if asks_again cd recoverAddress (rc_signed chk) first then signers don True w1 else (first, w1)) of
                  (again, w2) \<Rightarrow>
                    (case accept_report cd recoverAddress (rc_signed chk) first again of
                       Inl response \<Rightarrow> (Inr response, st, w2)
                     | Inr (set_of, accepted) \<Rightarrow>
                         (case result_finish cd cf chk set_of accepted now st of
                            (response, st') \<Rightarrow> (response, st', w2))))))"

subsection \<open>The pump\<close>

definition unanswered :: "'z bridge_state_scheme \<Rightarrow> bridge_request list" where
  "unanswered st = sort_key br_receivedAt (filter (\<lambda>p. br_reply p = None) (map snd (bs_requests st)))"

definition expired :: "int \<Rightarrow> bridge_request \<Rightarrow> bool" where
  "expired now pending \<longleftrightarrow> now - br_receivedAt pending > RETENTION_SECONDS"

text \<open>The requests that remain, and whether one was dropped.\<close>

definition dropExpired :: "int \<Rightarrow> (string \<times> bridge_request) list \<Rightarrow> bool \<times> (string \<times> bridge_request) list" where
  "dropExpired now requests =
     (list_ex (\<lambda>(_, p). expired now p) requests, filter (\<lambda>(_, p). \<not> expired now p) requests)"

text \<open>Every unanswered request that has waited long enough gets the reply.\<close>

definition give_up ::
  "(bridge_request \<Rightarrow> bool) \<Rightarrow> (bridge_request \<Rightarrow> bridge_reply) \<Rightarrow> int \<Rightarrow> (string \<times> bridge_request) list
     \<Rightarrow> bool \<times> (string \<times> bridge_request) list" where
  "give_up due r now requests =
     (list_ex (\<lambda>(_, p). br_reply p = None \<and> due p) requests,
      map (\<lambda>(key, p). (key, if br_reply p = None \<and> due p then answered_with (r p) now p else p)) requests)"

definition update_request :: "string \<Rightarrow> (bridge_request \<Rightarrow> bridge_request) \<Rightarrow> (string \<times> bridge_request) list \<Rightarrow> (string \<times> bridge_request) list" where
  "update_request key f requests = map (\<lambda>(k, p). (k, if k = key then f p else p)) requests"

subsubsection \<open>Answers from CRE\<close>

definition retry_due :: "cre_answers \<Rightarrow> int \<Rightarrow> bridge_request \<Rightarrow> bool" where
  "retry_due answers now pending = (case br_forwardedAt pending of None \<Rightarrow> False | Some t \<Rightarrow> t + ca_retrySeconds answers \<le> now)"

definition exhausted :: "cre_answers \<Rightarrow> int \<Rightarrow> bridge_request \<Rightarrow> bool" where
  "exhausted answers now pending \<longleftrightarrow> br_attempts pending \<ge> ca_maxAttempts answers \<and> retry_due answers now pending"

definition not_attested :: "bridge_request \<Rightarrow> bridge_reply" where
  "not_attested pending =
     unanswered_reply CRE_REPLY pending ''no_finished_receipt''
       (''No DON-signed report came back after '' @ show_int (br_attempts pending)
        @ '' requests: Beam reported nothing finished for it, or the workflow could not be reached.'')"

definition forward_due :: "cre_answers \<Rightarrow> int \<Rightarrow> bridge_request \<Rightarrow> bool" where
  "forward_due answers now pending \<longleftrightarrow>
     br_attempts pending < ca_maxAttempts answers \<and> (br_forwardedAt pending = None \<or> retry_due answers now pending)"

text \<open>
  The batch: the requests of the oldest one's kind, while their attestations, told apart by their description, are
  at most \<open>MAX_ATTESTATIONS\<close>.
\<close>

fun take_batch ::
  "bool \<Rightarrow> bridge_request list \<Rightarrow> (string \<times> attestation) list \<Rightarrow> bridge_request list \<Rightarrow> (string \<times> attestation) list \<times> bridge_request list" where
  "take_batch onchain [] attest batch = (attest, batch)"
| "take_batch onchain (p # ps) attest batch =
     (let key = describe (br_attestation p) in
      if br_publishOnchain p \<noteq> onchain then take_batch onchain ps attest batch
      else if map_of attest key = None \<and> length attest = MAX_ATTESTATIONS then take_batch onchain ps attest batch
      else take_batch onchain ps (amap_set key (br_attestation p) attest) (batch @ [p]))"

record forward =
  fw_attest :: "attestation list"
  fw_publishOnchain :: bool
  fw_batch :: "string list"
  fw_now :: int

text \<open>
  Up to the call of the workflow: the new state, whether it is saved here, and what to forward. The clock's
  reading is taken once for the replies of one step.
\<close>

definition cre_begin :: "cre_answers \<Rightarrow> int \<Rightarrow> bridge \<Rightarrow> bridge \<times> bool \<times> forward option" where
  "cre_begin answers now b =
     (case dropExpired now (bs_requests b) of
        (dropped, requests1) \<Rightarrow>
          (case give_up (exhausted answers now) not_attested now requests1 of
             (gave_up, requests2) \<Rightarrow>
               (let b' = b\<lparr>bs_requests := requests2\<rparr>;
                    due = (if now < bg_nextRunAt b then [] else filter (forward_due answers now) (unanswered b')) in
                case due of
                  [] \<Rightarrow> (b', dropped \<or> gave_up, None)
                | oldest # _ \<Rightarrow>
                    (case take_batch (br_publishOnchain oldest) due [] [] of
                       (attest, batch) \<Rightarrow>
                         (b'\<lparr>bg_nextRunAt := now + ca_paceSeconds answers\<rparr>, False,
                          Some \<lparr>fw_attest = map snd attest, fw_publishOnchain = br_publishOnchain oldest,
                            fw_batch = map br_id batch, fw_now = now\<rparr>)))))"

definition forwarded_at :: "int \<Rightarrow> bridge_request \<Rightarrow> bridge_request" where
  "forwarded_at now pending = pending\<lparr>br_attempts := br_attempts pending + 1, br_forwardedAt := Some now\<rparr>"

text \<open>Once the call has come back, accepted or not; the batch counts it. A call that throws ends the pass instead.\<close>

definition cre_end :: "forward \<Rightarrow> bridge \<Rightarrow> bridge" where
  "cre_end fw b =
     b\<lparr>bs_requests := map (\<lambda>(key, p). (key, if List.member (fw_batch fw) key then forwarded_at (fw_now fw) p else p)) (bs_requests b)\<rparr>"

subsubsection \<open>Answers from a contract\<close>

record deployment =
  dp_chainId :: int
  dp_contract :: string
  dp_donAttested :: bool

record chain_answer =
  an_answer :: report_entry
  an_transaction :: "string option"
  an_block :: "int option"

record opened_request =
  op_transaction :: string
  op_block :: int

definition recordedReply :: "deployment \<Rightarrow> bridge_request \<Rightarrow> chain_answer \<Rightarrow> string + bridge_reply" where
  "recordedReply dp pending found =
     map_sum (\<lambda>e. e) (\<lambda>view.
       Reply_recorded (requestView (br_attestation pending)) view
         \<lparr>cv_chain_id = dp_chainId dp, cv_contract = dp_contract dp, cv_don_attested = dp_donAttested dp,
          cv_transaction = an_transaction found, cv_block = map_option show_int (an_block found)\<rparr>
         (if dp_donAttested dp then DON_RECORD_CLAIM else RELAY_RECORD_CLAIM)) (answerView (an_answer found))"

definition overdue :: "contract_answers \<Rightarrow> int \<Rightarrow> bridge_request \<Rightarrow> bool" where
  "overdue answers now pending =
     (case br_forwardedAt pending of None \<Rightarrow> False | Some t \<Rightarrow> now - t > ct_answerWithinSeconds answers)"

definition not_recorded :: "contract_answers \<Rightarrow> bridge_request \<Rightarrow> bridge_reply" where
  "not_recorded answers pending =
     unanswered_reply CHAIN_REPLY pending ''not_recorded''
       (''No receipt was recorded within '' @ show_int (ct_answerWithinSeconds answers)
        @ '' seconds: Beam reported nothing finished for it, or the relay is not running.'')"

text \<open>Up to the first read of the contract; the requests to look at, if it is time, and whether anything changed.\<close>

definition contract_begin :: "contract_answers \<Rightarrow> int \<Rightarrow> bridge \<Rightarrow> bridge \<times> bool \<times> string list option" where
  "contract_begin answers now b =
     (case dropExpired now (bs_requests b) of
        (dropped, requests1) \<Rightarrow>
          (case give_up (overdue answers now) (not_recorded answers) now requests1 of
             (gave_up, requests2) \<Rightarrow>
               (let b' = b\<lparr>bs_requests := requests2\<rparr> in
                if now < bg_nextRunAt b then (b', dropped \<or> gave_up, None)
                else (b'\<lparr>bg_nextRunAt := now + ct_pollSeconds answers\<rparr>, dropped \<or> gave_up,
                      Some (map br_id (unanswered b'))))))"

text \<open>A call of the contract failed, or its answer could not be used.\<close>

definition chain_failed :: "int \<Rightarrow> bridge_request \<Rightarrow> bridge_request" where
  "chain_failed now pending =
     (let p = pending\<lparr>br_attempts := br_attempts pending + 1\<rparr> in
      if br_attempts p \<ge> MAX_CHAIN_FAILURES then
        answered_with (unanswered_reply CHAIN_REPLY p ''chain_unavailable''
          ''The receipts contract could not be read or asked for this receipt.'') now p
      else p)"

text \<open>\<open>BigInt\<close> of what the bridge itself saved, a decimal text.\<close>

definition since_block :: "bridge_request \<Rightarrow> string + int option" where
  "since_block pending =
     (case br_requestedBlock pending of
        None \<Rightarrow> Inr None
      | Some s \<Rightarrow> if s \<noteq> [] \<and> list_all (\<lambda>c. digit_val c \<noteq> None) s then Inr (Some (decimal_value s)) else Inl ''SyntaxError'')"

text \<open>
  One request of a pass: it is looked up, and opened on the contract when it was not, once per description and
  pass. The calls' answers are given; \<open>reopened\<close> holds what this pass opened.
\<close>

definition contract_item ::
  "deployment \<Rightarrow> int \<Rightarrow> (string + chain_answer option) \<Rightarrow> (string + opened_request) \<Rightarrow> (string \<times> opened_request) list \<Rightarrow> bridge_request
     \<Rightarrow> bool \<times> (string \<times> opened_request) list \<times> bridge_request" where
  "contract_item dp now found asked opened pending =
     (case found of
        Inl _ \<Rightarrow> (True, opened, chain_failed now pending)
      | Inr (Some answer) \<Rightarrow>
          (case recordedReply dp pending answer of
             Inl _ \<Rightarrow> (True, opened, chain_failed now pending)
           | Inr r \<Rightarrow> (True, opened, answered_with r now pending))
      | Inr None \<Rightarrow>
          if br_forwardedAt pending \<noteq> None then (False, opened, pending)
          else
            (let key = describe (br_attestation pending);
                 forwarded = (\<lambda>op. pending\<lparr>br_forwardedAt := Some now, br_requestedBlock := Some (show_int (op_block op))\<rparr>) in
             case map_of opened key of
               Some op \<Rightarrow> (True, opened, forwarded op)
             | None \<Rightarrow>
                 (case asked of
                    Inl _ \<Rightarrow> (True, opened, chain_failed now pending)
                  | Inr op \<Rightarrow> (True, amap_set key op opened, forwarded op))))"

text \<open>Whether the request is opened on the contract by this call.\<close>

definition opens :: "(string + chain_answer option) \<Rightarrow> (string \<times> opened_request) list \<Rightarrow> bridge_request \<Rightarrow> bool" where
  "opens found opened pending \<longleftrightarrow>
     found = Inr None \<and> br_forwardedAt pending = None \<and> map_of opened (describe (br_attestation pending)) = None"

record 'w chain_io =
  ci_deployment :: deployment
  ci_lookup :: "attestation \<Rightarrow> int option \<Rightarrow> 'w \<Rightarrow> (string + chain_answer option) \<times> 'w"
  ci_request :: "attestation \<Rightarrow> 'w \<Rightarrow> (string + opened_request) \<times> 'w"

fun contract_items ::
  "'w chain_io \<Rightarrow> int \<Rightarrow> string list \<Rightarrow> bool \<Rightarrow> (string \<times> opened_request) list \<Rightarrow> bridge \<Rightarrow> 'w \<Rightarrow> bool \<times> bridge \<times> 'w" where
  "contract_items io now [] changed opened b w = (changed, b, w)"
| "contract_items io now (key # keys) changed opened b w =
     (case map_of (bs_requests b) key of
        None \<Rightarrow> contract_items io now keys changed opened b w
      | Some pending \<Rightarrow>
          (case (case since_block pending of Inl e \<Rightarrow> (Inl e, w) | Inr since \<Rightarrow> ci_lookup io (br_attestation pending) since w) of
             (found, w1) \<Rightarrow>
               (case (if opens found opened pending then ci_request io (br_attestation pending) w1 else (Inl [], w1)) of
                  (asked, w2) \<Rightarrow>
                    (case contract_item (ci_deployment io) now found asked opened pending of
                       (c, opened', pending') \<Rightarrow>
                         contract_items io now keys (changed \<or> c) opened'
                           (b\<lparr>bs_requests := update_request key (\<lambda>_. pending') (bs_requests b)\<rparr>) w2))))"

subsection \<open>A pass without interruption\<close>

text \<open>The state after the pass, and whether it was saved at the end.\<close>

definition pumpCre ::
  "cre_answers \<Rightarrow> (forward \<Rightarrow> 'w \<Rightarrow> (string + bool) \<times> 'w) \<Rightarrow> int \<Rightarrow> bridge \<Rightarrow> 'w \<Rightarrow> (string + bool) \<times> bridge \<times> 'w" where
  "pumpCre answers forward_to now b w =
     (case cre_begin answers now b of
        (b', saved, None) \<Rightarrow> (Inr saved, b', w)
      | (b', _, Some fw) \<Rightarrow>
          (case forward_to fw w of
             (Inl e, w') \<Rightarrow> (Inl e, b', w')
           | (Inr _, w') \<Rightarrow> (Inr True, cre_end fw b', w')))"

definition pumpContract :: "contract_answers \<Rightarrow> 'w chain_io \<Rightarrow> int \<Rightarrow> bridge \<Rightarrow> 'w \<Rightarrow> bool \<times> bridge \<times> 'w" where
  "pumpContract answers io now b w =
     (case contract_begin answers now b of
        (b', changed, None) \<Rightarrow> (changed, b', w)
      | (b', changed, Some keys) \<Rightarrow> contract_items io now keys changed [] b' w)"

end
