(* ===== verification/BridgeRuns.thy ===== *)
theory BridgeRuns
  imports Bridge
begin

text \<open>
  The bridge as a state machine: its handlers and its pump run interleaved, each between two awaits without
  interruption. The invariant of the reachable states gives what a reply shows, who is told it, and how often a
  request is forwarded.
\<close>

subsection \<open>The steps\<close>

text \<open>
  What stays the same during a run: the parameters of the code, the signer sets the registry may answer for a DON,
  and the answers the contract may give for an attestation.
\<close>

record bridge_env =
  be_codec :: codec
  be_recover :: "string \<Rightarrow> string \<Rightarrow> string + string"
  be_hmac :: "string \<Rightarrow> string \<Rightarrow> 8 word list"
  be_secrets :: "string list"
  be_config :: bridge_config
  be_deployment :: deployment
  be_registry :: "int \<Rightarrow> signer_set \<Rightarrow> bool"
  be_holds :: "attestation \<Rightarrow> chain_answer \<Rightarrow> bool"

text \<open>The clock's last reading, the bridge, the reports whose signers are being asked for, the call of the workflow and the pass over the contract.\<close>

record bridge_sys =
  sy_clock :: int
  sy_bridge :: bridge
  sy_checks :: "report_check list"
  sy_forward :: "forward option"
  sy_pass :: "(int \<times> string list \<times> (string \<times> opened_request) list) option"

definition bridge_init :: bridge_sys where
  "bridge_init =
     \<lparr>sy_clock = 0, sy_bridge = \<lparr>bs_requests = bs_requests emptyState, bs_reports = bs_reports emptyState, bg_nextRunAt = 0\<rparr>, sy_checks = [], sy_forward = None, sy_pass = None\<rparr>"

inductive bridge_step :: "bridge_env \<Rightarrow> bridge_sys \<Rightarrow> bridge_sys \<Rightarrow> bool" for E :: bridge_env where
  delivery:
    "handleDelivery (be_hmac E) (be_secrets E) (be_config E) headers body now received (sy_bridge s) = (response, saved, b')
     \<Longrightarrow> bridge_step E s (s\<lparr>sy_clock := received, sy_bridge := b'\<rparr>)"
| report_begins:
    "result_start (be_codec E) (be_config E) body (sy_bridge s) = Inr chk
     \<Longrightarrow> bridge_step E s (s\<lparr>sy_checks := chk # sy_checks s\<rparr>)"
| report_refused:
    "chk \<in> set (sy_checks s) \<Longrightarrow> bridge_step E s (s\<lparr>sy_checks := remove1 chk (sy_checks s)\<rparr>)"
| report_ends:
    "chk \<in> set (sy_checks s)
     \<Longrightarrow> (\<And>S. first = Inr (Some S) \<Longrightarrow> be_registry E (rh_donId (rc_header chk)) S)
     \<Longrightarrow> (\<And>S. again = Inr (Some S) \<Longrightarrow> be_registry E (rh_donId (rc_header chk)) S)
     \<Longrightarrow> accept_report (be_codec E) (be_recover E) (rc_signed chk) first again = Inr (signers, accepted)
     \<Longrightarrow> result_finish (be_codec E) (be_config E) chk signers accepted now (sy_bridge s) = (response, b')
     \<Longrightarrow> bridge_step E s (s\<lparr>sy_clock := now, sy_bridge := b', sy_checks := remove1 chk (sy_checks s)\<rparr>)"
| cre_begins:
    "bc_answers (be_config E) = From_cre answers \<Longrightarrow> sy_forward s = None
     \<Longrightarrow> cre_begin answers now (sy_bridge s) = (b', saved, fw)
     \<Longrightarrow> bridge_step E s (s\<lparr>sy_clock := now, sy_bridge := b', sy_forward := fw\<rparr>)"
| cre_ends:
    "sy_forward s = Some fw \<Longrightarrow> bridge_step E s (s\<lparr>sy_bridge := cre_end fw (sy_bridge s), sy_forward := None\<rparr>)"
| cre_throws:
    "sy_forward s = Some fw \<Longrightarrow> bridge_step E s (s\<lparr>sy_forward := None\<rparr>)"
| contract_begins:
    "bc_answers (be_config E) = From_contract answers \<Longrightarrow> sy_pass s = None
     \<Longrightarrow> contract_begin answers now (sy_bridge s) = (b', changed, keys)
     \<Longrightarrow> bridge_step E s (s\<lparr>sy_clock := now, sy_bridge := b', sy_pass := map_option (\<lambda>ks. (now, ks, [])) keys\<rparr>)"
| contract_looks:
    "sy_pass s = Some (now, key # keys, opened)
     \<Longrightarrow> map_of (bs_requests (sy_bridge s)) key = Some pending
     \<Longrightarrow> (\<And>answer. found = Inr (Some answer) \<Longrightarrow> be_holds E (br_attestation pending) answer)
     \<Longrightarrow> contract_item (be_deployment E) now found asked opened pending = (changed, opened', pending')
     \<Longrightarrow> bridge_step E s
          (s\<lparr>sy_bridge := sy_bridge s\<lparr>bs_requests := update_request key (\<lambda>_. pending') (bs_requests (sy_bridge s))\<rparr>,
             sy_pass := Some (now, keys, opened')\<rparr>)"
| contract_ends:
    "sy_pass s = Some (now, [], opened) \<Longrightarrow> bridge_step E s (s\<lparr>sy_pass := None\<rparr>)"

inductive bridge_reach :: "bridge_env \<Rightarrow> bridge_sys \<Rightarrow> bool" for E :: bridge_env where
  start: "bridge_reach E bridge_init"
| more: "bridge_reach E s \<Longrightarrow> bridge_step E s s' \<Longrightarrow> bridge_reach E s'"

subsection \<open>What a reply rests on\<close>

text \<open>A report the bridge goes on with comes from the configured workflow and was read as it says.\<close>

definition check_ok :: "bridge_env \<Rightarrow> report_check \<Rightarrow> bool" where
  "check_ok E chk \<longleftrightarrow>
     (\<exists>answers. bc_answers (be_config E) = From_cre answers
        \<and> rh_workflowId (rc_header chk) = ca_workflowId answers
        \<and> ''0x'' @ rh_workflowOwner (rc_header chk) = ca_workflowOwner answers)
     \<and> length (sg_signatures (rc_signed chk)) \<le> 64
     \<and> parseHeader (sg_rawReport (rc_signed chk)) = Inr (rc_header chk)
     \<and> decodeReport (be_codec E) (reportBody (sg_rawReport (rc_signed chk))) = Inr (rc_decoded chk)"

definition attested_by ::
  "bridge_env \<Rightarrow> attestation \<Rightarrow> request_view \<Rightarrow> answer_view \<Rightarrow> signatures_view \<Rightarrow> report_submission \<Rightarrow> report_check \<Rightarrow> bool" where
  "attested_by E a view answer sigs report chk \<longleftrightarrow>
     view = requestView a \<and> check_ok E chk
     \<and> (\<exists>entry. answerFor (be_codec E) a (rc_decoded chk) = Inr (Some entry) \<and> answerView entry = Inr answer)
     \<and> report = reportSubmission (sg_rawReport (rc_signed chk)) (sg_context (rc_signed chk)) (sg_signatures (rc_signed chk))
     \<and> (gv_verified sigs \<longrightarrow>
          (\<exists>S. be_registry E (rh_donId (rc_header chk)) S
             \<and> verifyReportSignatures (cd_keccak256 (be_codec E)) (be_recover E) (rc_signed chk) S = Inr (gv_signers sigs)))"

definition recorded_by :: "bridge_env \<Rightarrow> attestation \<Rightarrow> request_view \<Rightarrow> answer_view \<Rightarrow> bool" where
  "recorded_by E a view answer \<longleftrightarrow>
     view = requestView a \<and> (\<exists>found. be_holds E a found \<and> answerView (an_answer found) = Inr answer)"

definition reply_backed :: "bridge_env \<Rightarrow> attestation \<Rightarrow> bridge_reply \<Rightarrow> bool" where
  "reply_backed E a r =
     (case r of
        Reply_attested view answer sigs _ report _ \<Rightarrow> \<exists>chk. attested_by E a view answer sigs report chk
      | Reply_recorded view answer _ _ \<Rightarrow> recorded_by E a view answer
      | Reply_other ty outcome view _ _ \<Rightarrow>
          view = Some (requestView a) \<and> outcome = (if ty = CRE_REPLY then ''not_attested'' else ''not_recorded''))"

definition request_ok :: "bridge_env \<Rightarrow> string \<Rightarrow> bridge_request \<Rightarrow> bool" where
  "request_ok E key p \<longleftrightarrow>
     br_id p = key
     \<and> attestation_allowed (bc_policy (be_config E)) (br_room p) (br_attestation p)
     \<and> (\<forall>r. br_reply p = Some r \<longrightarrow> reply_backed E (br_attestation p) r)"

definition requests_ok :: "bridge_env \<Rightarrow> (string \<times> bridge_request) list \<Rightarrow> bool" where
  "requests_ok E requests \<longleftrightarrow> distinct (map fst requests) \<and> (\<forall>(key, p) \<in> set requests. request_ok E key p)"

text \<open>The pass has only unanswered requests before it, each once, and only a contract's answers are looked up.\<close>

definition pass_ok :: "bridge_sys \<Rightarrow> bool" where
  "pass_ok s =
     (case sy_pass s of
        None \<Rightarrow> True
      | Some (now, keys, opened) \<Rightarrow>
          distinct keys
          \<and> (\<forall>key \<in> set keys. \<exists>p. map_of (bs_requests (sy_bridge s)) key = Some p \<and> br_reply p = None))"

definition mode_ok :: "bridge_env \<Rightarrow> bridge_sys \<Rightarrow> bool" where
  "mode_ok E s =
     (case bc_answers (be_config E) of
        From_cre _ \<Rightarrow> sy_pass s = None
      | From_contract _ \<Rightarrow> sy_checks s = [] \<and> sy_forward s = None)"

definition sys_ok :: "bridge_env \<Rightarrow> bridge_sys \<Rightarrow> bool" where
  "sys_ok E s \<longleftrightarrow>
     requests_ok E (bs_requests (sy_bridge s)) \<and> (\<forall>chk \<in> set (sy_checks s). check_ok E chk) \<and> pass_ok s \<and> mode_ok E s"

subsection \<open>How the requests change\<close>

text \<open>One request over a step: who asked what stays, and so does a reply; a new reply is backed.\<close>

definition request_step :: "bridge_env \<Rightarrow> bridge_request \<Rightarrow> bridge_request \<Rightarrow> bool" where
  "request_step E p p' \<longleftrightarrow>
     br_id p' = br_id p \<and> br_room p' = br_room p \<and> br_attestation p' = br_attestation p \<and> br_receivedAt p' = br_receivedAt p
     \<and> (\<forall>r. br_reply p = Some r \<longrightarrow> br_reply p' = Some r)
     \<and> (\<forall>r. br_reply p' = Some r \<longrightarrow> br_reply p = Some r \<or> reply_backed E (br_attestation p) r)"

lemma request_step_refl [simp]: "request_step E p p"
  by (simp add: request_step_def)

lemma request_step_trans: "request_step E p q \<Longrightarrow> request_step E q r \<Longrightarrow> request_step E p r"
  by (auto simp: request_step_def)

lemma request_step_ok: "request_step E p p' \<Longrightarrow> request_ok E key p \<Longrightarrow> request_ok E key p'"
  by (auto simp: request_step_def request_ok_def)

lemma request_step_answered:
  "br_reply p = None \<Longrightarrow> reply_backed E (br_attestation p) r \<Longrightarrow> request_step E p (answered_with r now p)"
  by (simp add: request_step_def answered_with_def)

lemma unanswered_backed [simp]: "reply_backed E (br_attestation p) (unanswered_reply ty p reason message)"
  by (simp add: reply_backed_def unanswered_reply_def)

text \<open>All requests over a step that neither adds nor drops one.\<close>

definition requests_step :: "bridge_env \<Rightarrow> (string \<times> bridge_request) list \<Rightarrow> (string \<times> bridge_request) list \<Rightarrow> bool" where
  "requests_step E = list_all2 (\<lambda>(key, p) (key', p'). key' = key \<and> request_step E p p')"

lemma requests_step_refl [simp]: "requests_step E rs rs"
  by (auto simp: requests_step_def intro: list.rel_refl)

lemma requests_step_keys: "requests_step E rs rs' \<Longrightarrow> map fst rs' = map fst rs"
  unfolding requests_step_def by (induction rule: list_all2_induct) auto

lemma requests_step_map:
  "(\<And>key p. (key, p) \<in> set rs \<Longrightarrow> request_step E p (f key p)) \<Longrightarrow> requests_step E rs (map (\<lambda>(key, p). (key, f key p)) rs)"
  by (induction rs) (auto simp: requests_step_def)

lemma requests_step_all: "requests_step E rs rs' \<Longrightarrow> \<forall>(key, p) \<in> set rs. request_ok E key p \<Longrightarrow> \<forall>(key, p) \<in> set rs'. request_ok E key p"
  unfolding requests_step_def by (induction rule: list_all2_induct) (auto intro: request_step_ok)

lemma requests_step_ok: "requests_step E rs rs' \<Longrightarrow> requests_ok E rs \<Longrightarrow> requests_ok E rs'"
  using requests_step_keys [of E rs rs'] requests_step_all [of E rs rs'] by (simp add: requests_ok_def)

lemma requests_step_lookup:
  "requests_step E rs rs' \<Longrightarrow> map_of rs key = Some p \<Longrightarrow> \<exists>p'. map_of rs' key = Some p' \<and> request_step E p p'"
  unfolding requests_step_def by (induction rule: list_all2_induct) (auto split: if_splits)

lemma dropped_ok: "requests_ok E rs \<Longrightarrow> requests_ok E (snd (dropExpired now rs))"
  by (auto simp: requests_ok_def dropExpired_def distinct_map_filter)

lemma dropped_lookup:
  "distinct (map fst rs) \<Longrightarrow> map_of (snd (dropExpired now rs)) key
     = (case map_of rs key of None \<Rightarrow> None | Some p \<Rightarrow> if expired now p then None else Some p)"
proof (induction rs)
  case (Cons kp rs)
  then have "fst kp \<notin> fst ` set rs" by simp
  then have "map_of rs (fst kp) = None" by (simp add: map_of_eq_None_iff)
  with Cons show ?case by (cases kp) (auto simp: dropExpired_def map_of_eq_None_iff split: option.splits)
qed (simp add: dropExpired_def)

lemma requests_ok_lookup: "requests_ok E rs \<Longrightarrow> map_of rs key = Some p \<Longrightarrow> request_ok E key p"
  by (auto simp: requests_ok_def dest: map_of_SomeD)

lemma requests_ok_snoc:
  "requests_ok E rs \<Longrightarrow> map_of rs key = None \<Longrightarrow> request_ok E key p \<Longrightarrow> requests_ok E (rs @ [(key, p)])"
  by (auto simp: requests_ok_def map_of_eq_None_iff)

subsection \<open>What each operation does to the requests\<close>

lemma delivery_requests:
  assumes "handleDelivery hmac secrets cf headers body now received st = (response, saved, st')"
  shows "bs_requests st' = bs_requests st
    \<or> (\<exists>ev a p. bs_requests st' = bs_requests st @ [(en_publication_id ev, new_request ev a p received)]
          \<and> map_of (bs_requests st) (en_publication_id ev) = None
          \<and> parseRoomRequest ev (bc_policy cf) = Inr (Rr_attest a p))"
  using assms by (auto simp: handleDelivery_def Let_def split: if_splits option.splits sum.splits room_request.splits) (metis option.distinct(1))

lemma give_up_step:
  "(\<And>p. reply_backed E (br_attestation p) (r p)) \<Longrightarrow> requests_step E rs (snd (give_up due r now rs))"
  unfolding give_up_def snd_conv by (rule requests_step_map) (simp add: request_step_answered)

lemma forwarded_step [simp]: "request_step E p (forwarded_at now p)"
  by (simp add: request_step_def forwarded_at_def)

lemma cre_end_step: "requests_step E (bs_requests b) (bs_requests (cre_end fw b))"
  unfolding cre_end_def by (simp, rule requests_step_map) simp

lemma cre_begin_step:
  assumes "cre_begin answers now b = (b', saved, fw)"
  shows "requests_step E (snd (dropExpired now (bs_requests b))) (bs_requests b')"
proof -
  have "bs_requests b' = snd (give_up (exhausted answers now) not_attested now (snd (dropExpired now (bs_requests b))))"
    using assms by (auto simp: cre_begin_def Let_def split: prod.splits list.splits)
  then show ?thesis by (simp add: give_up_step not_attested_def)
qed

lemma contract_begin_step:
  assumes "contract_begin answers now b = (b', changed, keys)"
  shows "requests_step E (snd (dropExpired now (bs_requests b))) (bs_requests b')"
proof -
  have "bs_requests b' = snd (give_up (overdue answers now) (not_recorded answers) now (snd (dropExpired now (bs_requests b))))"
    using assms by (auto simp: contract_begin_def Let_def split: prod.splits if_splits)
  then show ?thesis by (simp add: give_up_step not_recorded_def)
qed

lemma chain_failed_step: "br_reply p = None \<Longrightarrow> request_step E p (chain_failed now p)"
  by (simp add: chain_failed_def Let_def request_step_def answered_with_def reply_backed_def unanswered_reply_def)

lemma contract_item_step:
  assumes item: "contract_item dp now found asked opened p = (changed, opened', p')" and "br_reply p = None"
    and holds: "\<And>answer. found = Inr (Some answer) \<Longrightarrow> be_holds E (br_attestation p) answer"
  shows "request_step E p p'"
proof (cases found)
  case (Inl e)
  with assms show ?thesis by (auto simp: contract_item_def intro: chain_failed_step)
next
  case (Inr looked)
  show ?thesis
  proof (cases looked)
    case None
    with Inr assms show ?thesis
      by (auto simp: contract_item_def Let_def chain_failed_step request_step_def [of E p "p\<lparr>br_forwardedAt := _\<rparr>"]
          split: if_splits option.splits sum.splits) (auto simp: request_step_def)
  next
    case (Some answer)
    with Inr assms show ?thesis
      by (cases "answerView (an_answer answer)")
        (auto simp: contract_item_def recordedReply_def chain_failed_step reply_backed_def recorded_by_def
          intro!: request_step_answered)
  qed
qed

lemma update_request_step:
  assumes "map_of rs key = Some p" and "request_step E p p'" and "distinct (map fst rs)"
  shows "requests_step E rs (update_request key (\<lambda>_. p') rs)"
  unfolding update_request_def
proof (rule requests_step_map)
  fix k q assume "(k, q) \<in> set rs"
  then have "map_of rs k = Some q" using assms(3) by simp
  then show "request_step E q (if k = key then p' else q)" using assms(1,2) by auto
qed

lemma result_start_checked:
  assumes "result_start cd cf body st = Inr chk" and "be_config E = cf" and "be_codec E = cd"
  shows "check_ok E chk"
proof -
  obtain answers where answers: "bc_answers cf = From_cre answers"
    using assms(1) by (cases "bc_answers cf") (simp_all add: result_start_def)
  obtain j where j: "parse_json (text_decode body) = Some j"
    using assms(1) answers by (cases "parse_json (text_decode body)") (simp_all add: result_start_def)
  obtain sg where sg: "parseSubmission j = Some sg"
    using assms(1) answers j by (cases "parseSubmission j") (simp_all add: result_start_def)
  have few: "length (sg_signatures sg) \<le> 64"
  proof -
    have "all_fields js = Some bs \<Longrightarrow> length bs = length js" for js bs
      by (induction js arbitrary: bs) (auto split: option.splits)
    with sg show ?thesis by (auto simp: parseSubmission_def split: option.splits if_splits)
  qed
  show ?thesis
    using assms answers j sg few
    by (auto simp: result_start_def check_ok_def Let_def split: if_splits sum.splits)
qed

lemma accept_report_verified:
  assumes "accept_report cd recover sg first again = Inr (signers, accepted)"
  shows "signers = None
    \<or> (\<exists>S. signers = Some S \<and> (first = Inr (Some S) \<or> again = Inr (Some S))
          \<and> verifyReportSignatures (cd_keccak256 cd) recover sg S = Inr accepted)"
  using assms by (auto simp: accept_report_def split: sum.splits option.splits)

text \<open>What an accepted report answers a request with rests on that report.\<close>

definition accepted_ok :: "bridge_env \<Rightarrow> report_check \<Rightarrow> signer_set option \<Rightarrow> string list \<Rightarrow> bool" where
  "accepted_ok E chk signers accepted \<longleftrightarrow>
     check_ok E chk
     \<and> (\<forall>S. signers = Some S \<longrightarrow> be_registry E (rh_donId (rc_header chk)) S
          \<and> verifyReportSignatures (cd_keccak256 (be_codec E)) (be_recover E) (rc_signed chk) S = Inr accepted)"

lemma reply_for_backed:
  assumes "reply_for (be_codec E) ty chk signers accepted p = Inr (Some r)" and "accepted_ok E chk signers accepted"
  shows "br_reply p = None \<and> reply_backed E (br_attestation p) r"
proof -
  have none: "br_reply p = None" using assms(1) by (cases "br_reply p") (simp_all add: reply_for_def)
  obtain entry where entry: "answerFor (be_codec E) (br_attestation p) (rc_decoded chk) = Inr (Some entry)"
    using assms(1) none by (auto simp: reply_for_def split: sum.splits option.splits)
  obtain view where view: "answerView entry = Inr view"
    using assms(1) none entry by (cases "answerView entry") (simp_all add: reply_for_def)
  have attested: "reply_backed E (br_attestation p) (attested_reply chk signers accepted p view)"
    unfolding reply_backed_def attested_reply_def bridge_reply.case
    by (rule exI [of _ chk]) (use assms(2) entry view in \<open>auto simp: attested_by_def accepted_ok_def\<close>)
  show ?thesis
    using assms(1) none entry view attested by (auto simp: reply_for_def Let_def split: if_splits)
qed

lemma answer_all_step:
  assumes "accepted_ok E chk signers accepted"
  shows "requests_step E rs (snd (answer_all (be_codec E) ty chk signers accepted now rs))"
proof (induction rs)
  case (Cons kp rs)
  obtain key p where kp: "kp = (key, p)" by (cases kp)
  show ?case
  proof (cases "reply_for (be_codec E) ty chk signers accepted p")
    case (Inl e)
    then show ?thesis by (simp add: kp)
  next
    case (Inr r)
    then show ?thesis
      using Cons.IH reply_for_backed [OF _ assms, of ty p]
      by (cases r) (auto simp: kp requests_step_def request_step_answered split: prod.splits)
  qed
qed simp

lemma result_finish_step:
  assumes "result_finish (be_codec E) cf chk signers accepted now st = (response, st')" and "accepted_ok E chk signers accepted"
  shows "requests_step E (bs_requests st) (bs_requests st')"
proof -
  have "bs_requests st' = snd (answer_all (be_codec E) (replyType cf) chk signers accepted now (bs_requests st))"
    using assms(1) by (auto simp: result_finish_def Let_def split: prod.splits sum.splits)
  then show ?thesis using answer_all_step [OF assms(2)] by simp
qed

lemma report_end_accepted:
  assumes "check_ok E chk"
    and "\<And>S. first = Inr (Some S) \<Longrightarrow> be_registry E (rh_donId (rc_header chk)) S"
    and "\<And>S. again = Inr (Some S) \<Longrightarrow> be_registry E (rh_donId (rc_header chk)) S"
    and "accept_report (be_codec E) (be_recover E) (rc_signed chk) first again = Inr (signers, accepted)"
  shows "accepted_ok E chk signers accepted"
  using accept_report_verified [OF assms(4)] assms(1-3) by (auto simp: accepted_ok_def)

subsection \<open>The invariant\<close>

text \<open>A step adds an unanswered request the policy allows, or changes the requests in place, or drops expired ones too.\<close>

lemma bridge_step_requests:
  assumes "bridge_step E s s'" and "sys_ok E s"
  shows "(\<exists>ev a p received.
            bs_requests (sy_bridge s') = bs_requests (sy_bridge s) @ [(en_publication_id ev, new_request ev a p received)]
            \<and> map_of (bs_requests (sy_bridge s)) (en_publication_id ev) = None
            \<and> parseRoomRequest ev (bc_policy (be_config E)) = Inr (Rr_attest a p) \<and> sy_pass s' = sy_pass s)
    \<or> requests_step E (bs_requests (sy_bridge s)) (bs_requests (sy_bridge s'))
    \<or> requests_step E (snd (dropExpired (sy_clock s') (bs_requests (sy_bridge s)))) (bs_requests (sy_bridge s'))"
  using assms
proof (induction rule: bridge_step.induct)
  case (delivery headers body now received s response saved b')
  from delivery_requests [OF delivery(1)] show ?case by fastforce
next
  case (report_ends chk s first again signers accepted now response b')
  then have "accepted_ok E chk signers accepted"
    using report_end_accepted by (metis sys_ok_def)
  from result_finish_step [OF report_ends(5) this] show ?case by simp
next
  case (cre_begins answers s now b' saved fw)
  from cre_begin_step [OF cre_begins(3), of E] show ?case by simp
next
  case (cre_ends s fw)
  then show ?case using cre_end_step [of E "sy_bridge s" fw] by simp
next
  case (contract_begins answers s now b' changed keys)
  from contract_begin_step [OF contract_begins(3), of E] show ?case by simp
next
  case (contract_looks s now key keys opened pending found asked changed opened' pending')
  have "br_reply pending = None" "distinct (map fst (bs_requests (sy_bridge s)))"
    using contract_looks by (auto simp: sys_ok_def pass_ok_def requests_ok_def)
  with contract_looks have "request_step E pending pending'" by (intro contract_item_step) auto
  with update_request_step contract_looks(2) \<open>distinct _\<close> show ?case by simp
qed simp_all

lemma new_request_ok:
  "parseRoomRequest ev (bc_policy (be_config E)) = Inr (Rr_attest a p)
   \<Longrightarrow> request_ok E (en_publication_id ev) (new_request ev a p received)"
  using parsed_request_allowed [of ev "bc_policy (be_config E)" a p] by (simp add: request_ok_def new_request_def)

lemma step_requests_ok:
  assumes "bridge_step E s s'" and "sys_ok E s"
  shows "requests_ok E (bs_requests (sy_bridge s'))"
proof -
  have ok: "requests_ok E (bs_requests (sy_bridge s))" using assms(2) by (simp add: sys_ok_def)
  from bridge_step_requests [OF assms] show ?thesis
  proof (elim disjE exE conjE)
    fix ev a p received
    assume "bs_requests (sy_bridge s') = bs_requests (sy_bridge s) @ [(en_publication_id ev, new_request ev a p received)]"
      "map_of (bs_requests (sy_bridge s)) (en_publication_id ev) = None"
      "parseRoomRequest ev (bc_policy (be_config E)) = Inr (Rr_attest a p)"
    with ok new_request_ok show ?thesis by (simp add: requests_ok_snoc)
  next
    assume "requests_step E (bs_requests (sy_bridge s)) (bs_requests (sy_bridge s'))"
    with ok show ?thesis by (blast intro: requests_step_ok)
  next
    assume "requests_step E (snd (dropExpired (sy_clock s') (bs_requests (sy_bridge s)))) (bs_requests (sy_bridge s'))"
    with ok show ?thesis by (blast intro: requests_step_ok dropped_ok)
  qed
qed

lemma unanswered_keys:
  assumes "requests_ok E (bs_requests st)"
  shows "distinct (map br_id (unanswered st))"
    and "key \<in> set (map br_id (unanswered st)) \<Longrightarrow> \<exists>p. map_of (bs_requests st) key = Some p \<and> br_reply p = None"
proof -
  have ids: "map br_id (map snd (bs_requests st)) = map fst (bs_requests st)"
    using assms by (auto simp: requests_ok_def request_ok_def)
  then have "distinct (map br_id (filter (\<lambda>p. br_reply p = None) (map snd (bs_requests st))))"
    using assms by (intro distinct_map_filter) (simp only: requests_ok_def)
  then show "distinct (map br_id (unanswered st))" by (simp add: unanswered_def distinct_map)
  assume "key \<in> set (map br_id (unanswered st))"
  then obtain k p where "(k, p) \<in> set (bs_requests st)" "br_reply p = None" "key = br_id p"
    by (auto simp: unanswered_def)
  moreover from this have "k = br_id p" "map_of (bs_requests st) k = Some p"
    using assms by (auto simp: requests_ok_def request_ok_def)
  ultimately show "\<exists>p. map_of (bs_requests st) key = Some p \<and> br_reply p = None" by auto
qed

lemma contract_begin_pass:
  assumes "contract_begin answers now b = (b', changed, Some keys)" and "requests_ok E (bs_requests b')"
  shows "distinct keys \<and> (\<forall>key \<in> set keys. \<exists>p. map_of (bs_requests b') key = Some p \<and> br_reply p = None)"
proof -
  have "keys = map br_id (unanswered b')"
    using assms(1) by (auto simp: contract_begin_def Let_def unanswered_def split: prod.splits if_splits)
  with unanswered_keys [OF assms(2)] show ?thesis by blast
qed

lemma map_of_update_other: "k \<noteq> key \<Longrightarrow> map_of (update_request key f rs) k = map_of rs k"
  by (induction rs) (auto simp: update_request_def)

lemma step_pass_ok:
  assumes "bridge_step E s s'" and "sys_ok E s"
  shows "pass_ok s'"
  using assms(1) step_requests_ok [OF assms] assms(2)
proof cases
  case (delivery headers body now received response saved b')
  show ?thesis
  proof (cases "sy_pass s")
    case None
    then show ?thesis using delivery by (simp add: pass_ok_def)
  next
    case (Some pass)
    with assms(2) delivery_requests [OF delivery(2)] delivery(1) show ?thesis
      by (fastforce simp: pass_ok_def sys_ok_def split: prod.splits)
  qed
next
  case (report_ends chk first again signers accepted now response b')
  then have "sy_pass s = None" using assms(2) by (auto simp: sys_ok_def mode_ok_def split: answers_config.splits)
  then show ?thesis using report_ends by (simp add: pass_ok_def)
next
  case (cre_begins answers now b' saved fw)
  then have "sy_pass s = None" using assms(2) by (auto simp: sys_ok_def mode_ok_def)
  then show ?thesis using cre_begins by (simp add: pass_ok_def)
next
  case (cre_ends fw)
  then have "sy_pass s = None" using assms(2) by (auto simp: sys_ok_def mode_ok_def split: answers_config.splits)
  then show ?thesis using cre_ends by (simp add: pass_ok_def)
next
  case (contract_begins answers now b' changed keys)
  then show ?thesis
    using contract_begin_pass [OF _ step_requests_ok [OF assms]] by (cases keys) (simp_all add: pass_ok_def)
next
  case (contract_looks now key keys opened pending found asked changed opened' pending')
  then have "distinct (key # keys)"
      and "\<forall>k \<in> set keys. \<exists>p. map_of (bs_requests (sy_bridge s)) k = Some p \<and> br_reply p = None"
    using assms(2) by (auto simp: sys_ok_def pass_ok_def)
  moreover from this(1) have "map_of (update_request key (\<lambda>_. pending') (bs_requests (sy_bridge s))) k
      = map_of (bs_requests (sy_bridge s)) k" if "k \<in> set keys" for k
    using that by (intro map_of_update_other) auto
  ultimately show ?thesis using contract_looks(1) by (simp add: pass_ok_def)
qed (use assms(2) in \<open>auto simp: sys_ok_def pass_ok_def split: option.splits\<close>)

lemma step_mode_ok:
  assumes "bridge_step E s s'" and "sys_ok E s"
  shows "mode_ok E s' \<and> (\<forall>chk \<in> set (sy_checks s'). check_ok E chk)"
proof -
  have m: "mode_ok E s" "\<forall>chk \<in> set (sy_checks s). check_ok E chk" using assms(2) by (simp_all add: sys_ok_def)
  show ?thesis
    using assms(1)
  proof cases
    case (report_begins body chk)
    have "bc_answers (be_config E) = From_contract a \<Longrightarrow> False" for a
      using report_begins(2) by (simp add: result_start_def)
    then show ?thesis
      using m report_begins result_start_checked [OF report_begins(2) refl refl]
      by (auto simp: mode_ok_def split: answers_config.splits)
  qed (use m in \<open>auto simp: mode_ok_def dest: notin_set_remove1 set_remove1_subset [THEN subsetD] split: answers_config.splits\<close>)
qed

lemma bridge_step_ok: "bridge_step E s s' \<Longrightarrow> sys_ok E s \<Longrightarrow> sys_ok E s'"
  using step_requests_ok step_pass_ok step_mode_ok by (auto simp: sys_ok_def)

lemma bridge_init_ok: "sys_ok E bridge_init"
  by (simp add: sys_ok_def bridge_init_def emptyState_def requests_ok_def pass_ok_def mode_ok_def
      split: answers_config.split)

lemma bridge_reach_ok: "bridge_reach E s \<Longrightarrow> sys_ok E s"
  by (induction rule: bridge_reach.induct) (auto intro: bridge_init_ok bridge_step_ok)

subsection \<open>Who is told what\<close>

text \<open>
  C4. A reply is told only in the Room that asked. Whenever a poll of a reachable bridge is answered with a status
  200, it was signed by the host, its \<open>x-beam-room\<close> header names the Room whose message asked and its
  \<open>x-beam-publication\<close> header that message, the operator's policy lets that Room ask for what the reply answers, and
  the reply is about the attestation that was asked for. What it says is backed: a reply \<open>attested\<close> rests on a report that
  was checked, a reply \<open>recorded\<close> on what the contract holds, and every other reply is the bridge's own word that no answer
  came (\<open>not_attested\<close>, or \<open>not_recorded\<close> where the contract answers) and carries none.
\<close>

theorem poll_serves_own_room:
  assumes "bridge_reach E s"
    and "hr_status (handlePoll hmac secrets key headers now (sy_bridge s)) = 200"
  shows "\<exists>p r. map_of (bs_requests (sy_bridge s)) key = Some p \<and> br_reply p = Some r
      \<and> handlePoll hmac secrets key headers now (sy_bridge s) = reply_response r
      \<and> request_signed hmac secrets headers [] now
      \<and> header_get headers ''x-beam-publication'' = Some key \<and> header_get headers ''x-beam-room'' = Some (br_room p)
      \<and> attestation_allowed (bc_policy (be_config E)) (br_room p) (br_attestation p)
      \<and> reply_backed E (br_attestation p) r"
proof -
  obtain p where p: "map_of (bs_requests (sy_bridge s)) key = Some p"
    using assms(2) by (cases "map_of (bs_requests (sy_bridge s)) key") (auto simp: handlePoll_def bare_def split: if_splits)
  obtain r where r: "br_reply p = Some r"
    using assms(2) p by (cases "br_reply p") (auto simp: handlePoll_def bare_def split: if_splits)
  have "request_ok E key p"
    using bridge_reach_ok [OF assms(1)] p by (auto simp: sys_ok_def intro: requests_ok_lookup)
  then show ?thesis
    using assms(2) p r by (auto simp: handlePoll_def bare_def request_ok_def split: if_splits)
qed

text \<open>
  C5. A reply is final. Once a request of a reachable bridge has a reply, every step keeps the request, its Room,
  its attestation and that very reply, except that a step whose clock reads more than 25 hours after the request
  came in may drop the request.
\<close>

theorem reply_is_final:
  assumes "bridge_reach E s" and "bridge_step E s s'"
    and "map_of (bs_requests (sy_bridge s)) key = Some p" and "br_reply p = Some r"
  shows "(\<exists>p'. map_of (bs_requests (sy_bridge s')) key = Some p' \<and> br_reply p' = Some r
          \<and> br_room p' = br_room p \<and> br_attestation p' = br_attestation p)
    \<or> map_of (bs_requests (sy_bridge s')) key = None \<and> sy_clock s' - br_receivedAt p > 25 * 3600"
proof -
  have ok: "sys_ok E s" using assms(1) by (rule bridge_reach_ok)
  then have d: "distinct (map fst (bs_requests (sy_bridge s)))" by (simp add: sys_ok_def requests_ok_def)
  have kept: "request_step E p p' \<Longrightarrow> br_reply p' = Some r \<and> br_room p' = br_room p \<and> br_attestation p' = br_attestation p" for p'
    using assms(4) by (simp add: request_step_def)
  from bridge_step_requests [OF assms(2) ok] show ?thesis
  proof (elim disjE exE conjE)
    fix ev a b received
    assume "bs_requests (sy_bridge s') = bs_requests (sy_bridge s) @ [(en_publication_id ev, new_request ev a b received)]"
    with assms(3,4) show ?thesis by auto
  next
    assume "requests_step E (bs_requests (sy_bridge s)) (bs_requests (sy_bridge s'))"
    from requests_step_lookup [OF this assms(3)] kept show ?thesis by blast
  next
    let ?kept = "snd (dropExpired (sy_clock s') (bs_requests (sy_bridge s)))"
    assume dropped: "requests_step E ?kept (bs_requests (sy_bridge s'))"
    show ?thesis
    proof (cases "expired (sy_clock s') p")
      case False
      with assms(3) have "map_of ?kept key = Some p"
        using dropped_lookup [OF d, of "sy_clock s'" key] by simp
      from requests_step_lookup [OF dropped this] kept show ?thesis by blast
    next
      case True
      with assms(3) have "map_of ?kept key = None"
        using dropped_lookup [OF d, of "sy_clock s'" key] by simp
      then have "map_of (bs_requests (sy_bridge s')) key = None"
        using requests_step_keys [OF dropped] by (metis map_of_eq_None_iff set_map)
      with True show ?thesis by (simp add: expired_def RETENTION_SECONDS_def)
    qed
  qed
qed

subsection \<open>What is forwarded\<close>

definition batch_ok :: "(string \<times> attestation) list \<Rightarrow> bool" where
  "batch_ok attest \<longleftrightarrow> distinct (map fst attest) \<and> length attest \<le> MAX_ATTESTATIONS \<and> (\<forall>(key, a) \<in> set attest. describe a = key)"

lemma length_amap_set: "length (amap_set k v m) = (if map_of m k = None then Suc (length m) else length m)"
  by (induction m) auto

lemma amap_set_members: "(k', v') \<in> set (amap_set k v m) \<Longrightarrow> (k', v') \<in> set m \<or> k' = k \<and> v' = v"
  by (induction m) (auto split: if_splits)

lemma batch_ok_set:
  assumes "batch_ok attest" and "\<not> (map_of attest (describe a) = None \<and> length attest = MAX_ATTESTATIONS)"
  shows "batch_ok (amap_set (describe a) a attest)"
  using assms by (auto simp: batch_ok_def length_amap_set dest: amap_set_members split: if_splits)

lemma take_batch_sound:
  assumes "take_batch onchain ps attest batch = (attest', batch')" and "batch_ok attest"
    and "\<forall>p \<in> set batch. map_of attest (describe (br_attestation p)) \<noteq> None"
  shows "batch_ok attest' \<and> set batch \<subseteq> set batch'
    \<and> (\<forall>p \<in> set batch'. map_of attest' (describe (br_attestation p)) \<noteq> None)
    \<and> (\<forall>p \<in> set batch' - set batch. p \<in> set ps \<and> br_publishOnchain p = onchain)"
  using assms
proof (induction ps arbitrary: attest batch)
  case (Cons p ps)
  let ?a = "amap_set (describe (br_attestation p)) (br_attestation p) attest"
  show ?case
  proof (cases "br_publishOnchain p \<noteq> onchain \<or> map_of attest (describe (br_attestation p)) = None \<and> length attest = MAX_ATTESTATIONS")
    case True
    with Cons.prems(1) have "take_batch onchain ps attest batch = (attest', batch')"
      by (auto simp: Let_def split: if_splits)
    from Cons.IH [OF this Cons.prems(2,3)] show ?thesis by auto
  next
    case False
    with Cons.prems(1) have run: "take_batch onchain ps ?a (batch @ [p]) = (attest', batch')"
      by (auto simp: Let_def)
    have "batch_ok ?a" using Cons.prems(2) False by (intro batch_ok_set) auto
    moreover have "\<forall>q \<in> set (batch @ [p]). map_of ?a (describe (br_attestation q)) \<noteq> None"
      using Cons.prems(3) by auto
    ultimately show ?thesis using Cons.IH [OF run] False by auto
  qed
qed auto

text \<open>
  What one call of the workflow is asked. A call is made only when its pace allows, and the next one waits
  \<open>paceSeconds\<close>; it asks for one to seven attestations with different descriptions and one \<open>publishOnchain\<close>; every
  request it counts is unanswered, due, of that kind, and described by one of them; and the oldest due request is
  among them.
\<close>

theorem forward_batch_sound:
  assumes "cre_begin answers now b = (b', saved, Some fw)"
  shows "bg_nextRunAt b \<le> now \<and> bg_nextRunAt b' = now + ca_paceSeconds answers
    \<and> fw_attest fw \<noteq> [] \<and> length (fw_attest fw) \<le> 7 \<and> distinct (map describe (fw_attest fw))
    \<and> (\<forall>key \<in> set (fw_batch fw). \<exists>p \<in> set (unanswered b'). br_id p = key \<and> forward_due answers now p
          \<and> br_publishOnchain p = fw_publishOnchain fw \<and> describe (br_attestation p) \<in> set (map describe (fw_attest fw)))
    \<and> (\<exists>oldest rest. filter (forward_due answers now) (unanswered b') = oldest # rest \<and> br_id oldest \<in> set (fw_batch fw))"
proof -
  have same: "unanswered (b1\<lparr>bg_nextRunAt := n\<rparr>) = unanswered b1" for b1 :: bridge and n by (simp add: unanswered_def)
  obtain oldest rest attest batch where run:
      "now \<ge> bg_nextRunAt b" "filter (forward_due answers now) (unanswered b') = oldest # rest"
      "take_batch (br_publishOnchain oldest) (oldest # rest) [] [] = (attest, batch)"
      "fw = \<lparr>fw_attest = map snd attest, fw_publishOnchain = br_publishOnchain oldest, fw_batch = map br_id batch, fw_now = now\<rparr>"
      "bg_nextRunAt b' = now + ca_paceSeconds answers"
    using assms by (auto simp: cre_begin_def Let_def same split: prod.splits list.splits if_splits)
  have empty: "batch_ok []" by (simp add: batch_ok_def)
  have sound: "batch_ok attest" "\<forall>p \<in> set batch. map_of attest (describe (br_attestation p)) \<noteq> None"
      "\<forall>p \<in> set batch. p \<in> set (oldest # rest) \<and> br_publishOnchain p = br_publishOnchain oldest"
    using take_batch_sound [OF run(3) empty] by auto
  have "oldest \<in> set batch"
  proof -
    let ?a = "[(describe (br_attestation oldest), br_attestation oldest)]"
    have step: "take_batch (br_publishOnchain oldest) rest ?a [oldest] = (attest, batch)"
      using run(3) by (simp add: MAX_ATTESTATIONS_def)
    have "batch_ok ?a" by (simp add: batch_ok_def MAX_ATTESTATIONS_def)
    from take_batch_sound [OF step this] show ?thesis by simp
  qed
  then have some: "attest \<noteq> []" using sound(2) by force
  have keys: "map describe (map snd attest) = map fst attest" using sound(1) by (auto simp: batch_ok_def)
  have described: "describe (br_attestation p) \<in> set (map describe (map snd attest))" if "p \<in> set batch" for p
    using sound(2) that unfolding keys by (metis map_of_eq_None_iff set_map)
  have due: "p \<in> set (unanswered b') \<and> forward_due answers now p" if "p \<in> set batch" for p
    
  proof -
    have "p \<in> set (filter (forward_due answers now) (unanswered b'))" using sound(3) that run(2) by simp
    then show ?thesis by simp
  qed
  have fw: "fw_attest fw = map snd attest" "fw_batch fw = map br_id batch" "fw_publishOnchain fw = br_publishOnchain oldest"
    using run(4) by simp_all
  show ?thesis
  proof (intro conjI ballI)
    show "bg_nextRunAt b \<le> now" "bg_nextRunAt b' = now + ca_paceSeconds answers" by (fact run)+
    show "fw_attest fw \<noteq> []" "length (fw_attest fw) \<le> 7" "distinct (map describe (fw_attest fw))"
      unfolding fw keys using some sound(1) by (simp_all add: batch_ok_def MAX_ATTESTATIONS_def)
    show "\<exists>oldest rest. filter (forward_due answers now) (unanswered b') = oldest # rest \<and> br_id oldest \<in> set (fw_batch fw)"
      using run(2) \<open>oldest \<in> set batch\<close> by (simp add: fw)
    fix key assume "key \<in> set (fw_batch fw)"
    then obtain p where "p \<in> set batch" "br_id p = key" by (auto simp: fw)
    with due described sound(3) show "\<exists>p \<in> set (unanswered b'). br_id p = key \<and> forward_due answers now p
        \<and> br_publishOnchain p = fw_publishOnchain fw \<and> describe (br_attestation p) \<in> set (map describe (fw_attest fw))"
      unfolding fw by blast
  qed
qed

definition demo_pending :: bridge_request where
  "demo_pending =
     \<lparr>br_id = ''p1'', br_room = ''r'', br_channel = ''m'', br_publisher = ''u'', br_receivedAt = 10,
      br_attestation = Attest_transfer ''t'', br_publishOnchain = False, br_attempts = 0, br_forwardedAt = None,
      br_requestedBlock = None, br_reply = None, br_answeredAt = None\<rparr>"

definition demo_bridge :: bridge where
  "demo_bridge = \<lparr>bs_requests = [(''p1'', demo_pending)], bs_reports = [], bg_nextRunAt = 0\<rparr>"

definition demo_answers :: cre_answers where
  "demo_answers = \<lparr>ca_workflowId = replicate 64 (CHR ''0''), ca_workflowOwner = ''0x'' @ replicate 40 (CHR ''0''),
     ca_paceSeconds = 30, ca_retrySeconds = 60, ca_maxAttempts = 1\<rparr>"

theorem forward_batch_sound_witness:
  "\<exists>b' fw. cre_begin demo_answers 100 demo_bridge = (b', False, Some fw) \<and> bg_nextRunAt b' = 130 \<and> fw_batch fw = [''p1'']"
proof -
  let ?b = "demo_bridge\<lparr>bg_nextRunAt := 130\<rparr>"
  let ?fw = "\<lparr>fw_attest = [Attest_transfer ''t''], fw_publishOnchain = False, fw_batch = [''p1''], fw_now = 100\<rparr>"
  have run: "cre_begin demo_answers 100 demo_bridge = (?b, False, Some ?fw)" by code_simp
  have "bg_nextRunAt ?b = 100 + ca_paceSeconds demo_answers" using forward_batch_sound [OF run] by blast
  with run show ?thesis by (simp add: demo_answers_def)
qed

subsection \<open>A run\<close>

definition demo_uuid :: string where
  "demo_uuid = ''0e4c57f8-7e67-5852-95f5-418bba42563d''"

definition demo_message :: json where
  "demo_message = JObj [(''op'', JStr ''attest_transfer''), (''transfer_id'', JStr demo_uuid)]"

definition demo_delivery :: json where
  "demo_delivery =
     JObj [(''type'', JStr ''message''), (''room_id'', JStr ''r''), (''channel_id'', JStr ''m''), (''publication_id'', JStr ''p1''),
       (''publisher_member_id'', JStr ''u''), (''webhook_member_id'', JStr ''w''), (''hop'', JNum 0),
       (''text'', JStr (stringify demo_message))]"

definition demo_hook_headers :: headers where
  "demo_hook_headers =
     [(''content-type'', ''application/json''), (''x-beam-timestamp'', ''17''),
      (''x-beam-signature'', ''v1='' @ replicate 64 (CHR ''0'')), (''x-beam-room'', ''r''), (''x-beam-publication'', ''p1'')]"

definition demo_ask :: bridge_request where
  "demo_ask =
     \<lparr>br_id = ''p1'', br_room = ''r'', br_channel = ''m'', br_publisher = ''u'', br_receivedAt = 17,
      br_attestation = Attest_transfer demo_uuid, br_publishOnchain = False, br_attempts = 0, br_forwardedAt = None,
      br_requestedBlock = None, br_reply = None, br_answeredAt = None\<rparr>"

definition demo_env :: "answers_config \<Rightarrow> codec \<Rightarrow> bridge_env" where
  "demo_env answers cd =
     \<lparr>be_codec = cd, be_recover = demo_recover, be_hmac = (\<lambda>_ _. replicate 32 0), be_secrets = [''k''],
      be_config = \<lparr>bc_policy = \<lparr>ap_rooms = [], ap_allowTransferAttestations = True\<rparr>, bc_answers = answers\<rparr>,
      be_deployment = \<lparr>dp_chainId = 1, dp_contract = ''0xC'', dp_donAttested = False\<rparr>,
      be_registry = (\<lambda>_ S. S = \<lparr>ss_f = 0, ss_signers = [''0x03'', ''0x04'']\<rparr>), be_holds = (\<lambda>_ _. True)\<rparr>"

lemma demo_signed: "request_signed (\<lambda>_ _. replicate 32 0) [''k''] demo_hook_headers body 17"
proof -
  have get: "header_get demo_hook_headers ''x-beam-timestamp'' = Some ''17''"
    "header_get demo_hook_headers ''x-beam-signature'' = Some (''v1='' @ replicate 64 (CHR ''0''))" by code_simp+
  have "given_signatures (''v1='' @ replicate 64 (CHR ''0'')) = [replicate 32 0]" "timestamp_text ''17''" "decimal_value ''17'' = 17"
    by code_simp+
  then show ?thesis unfolding request_signed_def get
    by (simp add: verifyWebhookSignature_def SIGNATURE_TOLERANCE_SECONDS_def Let_def)
qed

lemma demo_asks:
  "handleDelivery (\<lambda>_ _. replicate 32 0) [''k''] (be_config (demo_env answers cd)) demo_hook_headers (stringify demo_delivery) 17 17
     (sy_bridge bridge_init)
   = (Inr \<lparr>hr_status = 202, hr_headers = [(''x-beam-reply'', ''v1''), (''location'', ''replies/p1''), (''retry-after'', ''15'')], hr_body = None\<rparr>,
      True, (sy_bridge bridge_init)\<lparr>bs_requests := [(''p1'', demo_ask)]\<rparr>)"
proof -
  let ?ev = "\<lparr>en_type = ''message'', en_room_id = ''r'', en_channel_id = ''m'', en_publication_id = ''p1'',
    en_publisher_member_id = ''u'', en_webhook_member_id = ''w'', en_hop = 0, en_text = Some (stringify demo_message)\<rparr>"
  have "parse_json (text_decode (stringify demo_delivery)) = Some demo_delivery"
    using parseBody_object unfolding parseBody_def demo_delivery_def by blast
  then have ev: "parseEnvelope (stringify demo_delivery) = Some ?ev"
    unfolding parseEnvelope_def by simp (simp add: demo_delivery_def isRecord_def)
  have uuid: "normalizeTransferId demo_uuid = Inr demo_uuid" by code_simp
  have asked: "parseRoomRequest ?ev (bc_policy (be_config (demo_env answers cd))) = Inr (Rr_attest (Attest_transfer demo_uuid) False)"
    unfolding parseRoomRequest_def
    by (simp add: parse_stringify) (simp add: demo_message_def isRecord_def publish_onchain_def ask_transfer_def hasOnly_def demo_env_def uuid)
  have get: "starts_with ''application/json'' (coalesce (header_get demo_hook_headers ''content-type'') [])" by code_simp
  have texts: "encodeURIComponent ''p1'' = ''p1''" "show_nat POLL_RETRY_SECONDS = ''15''" "\<not> List.member object_prototype ''p1''"
    by code_simp+
  show ?thesis
    unfolding handleDelivery_def ev asked
    using demo_signed get texts
    by (simp add: asked new_request_def demo_ask_def bridge_init_def emptyState_def Let_def)
qed

definition demo_contract :: contract_answers where
  "demo_contract = \<lparr>ct_pollSeconds = 30, ct_answerWithinSeconds = 600\<rparr>"

definition demo_found :: chain_answer where
  "demo_found =
     \<lparr>an_answer = Entry_standard \<lparr>se_transferId = ''0x0e4c57f87e67585295f5418bba42563d'', se_requestId = ''0x0'', se_status = 1,
        se_totalBytes = 10, se_bytesTransferred = 10, se_completedAtMs = 7, se_planFingerprint = ''0x0'',
        se_coordinateChecksum = ''0x0'', se_level = 1\<rparr>, an_transaction = None, an_block = Some 3\<rparr>"

text \<open>The bridge of the run: asked, in its first pass, and having found the receipt.\<close>

definition demo_asked :: bridge_sys where
  "demo_asked = \<lparr>sy_clock = 17, sy_bridge = \<lparr>bs_requests = [(''p1'', demo_ask)], bs_reports = [], bg_nextRunAt = 0\<rparr>,
     sy_checks = [], sy_forward = None, sy_pass = None\<rparr>"

definition demo_looking :: bridge_sys where
  "demo_looking = demo_asked\<lparr>sy_clock := 20, sy_bridge := (sy_bridge demo_asked)\<lparr>bg_nextRunAt := 50\<rparr>, sy_pass := Some (20, [''p1''], [])\<rparr>"

definition demo_recorded :: "bridge_reply \<Rightarrow> bridge_sys" where
  "demo_recorded r = demo_looking\<lparr>sy_bridge := (sy_bridge demo_looking)\<lparr>bs_requests := [(''p1'', answered_with r 20 demo_ask)]\<rparr>,
     sy_pass := Some (20, [], [])\<rparr>"

lemma demo_asked_reach: "bridge_reach (demo_env answers cd) demo_asked"
proof -
  have "demo_asked = bridge_init\<lparr>sy_clock := 17, sy_bridge := (sy_bridge bridge_init)\<lparr>bs_requests := [(''p1'', demo_ask)]\<rparr>\<rparr>"
    by (simp add: demo_asked_def bridge_init_def emptyState_def)
  then have "bridge_step (demo_env answers cd) bridge_init demo_asked"
    using bridge_step.delivery [of "demo_env answers cd" demo_hook_headers "stringify demo_delivery" 17 17 bridge_init]
      demo_asks [of answers cd] by (simp add: demo_env_def)
  then show ?thesis by (blast intro: bridge_reach.intros)
qed

lemma demo_recorded_reach:
  "\<exists>r. bridge_reach (demo_env (From_contract demo_contract) cd) (demo_recorded r)
     \<and> (\<exists>view chain claim. r = Reply_recorded (View_transfer demo_uuid) view chain claim)"
proof -
  let ?E = "demo_env (From_contract demo_contract) cd"
  have begun: "contract_begin demo_contract 20 (sy_bridge demo_asked) = (sy_bridge demo_looking, False, Some [''p1''])" by code_simp
  have "bridge_step ?E demo_asked (demo_asked\<lparr>sy_clock := 20, sy_bridge := sy_bridge demo_looking,
      sy_pass := map_option (\<lambda>ks. (20, ks, [])) (Some [''p1''])\<rparr>)"
    by (rule bridge_step.contract_begins [OF _ _ begun]) (simp_all add: demo_env_def demo_asked_def)
  then have "bridge_step ?E demo_asked demo_looking" by (simp add: demo_looking_def demo_asked_def)
  then have looking: "bridge_reach ?E demo_looking" by (blast intro: bridge_reach.more demo_asked_reach)
  have uuid: "bytes16ToTransferId ''0x0e4c57f87e67585295f5418bba42563d'' = Inr demo_uuid" by code_simp
  obtain r where r: "recordedReply (be_deployment ?E) demo_ask demo_found = Inr r"
      "\<exists>view chain claim. r = Reply_recorded (View_transfer demo_uuid) view chain claim"
    by (simp add: recordedReply_def demo_found_def answerView_def uuid demo_ask_def requestView_def)
  have item: "contract_item (be_deployment ?E) 20 (Inr (Some demo_found)) (Inl []) [] demo_ask = (True, [], answered_with r 20 demo_ask)"
    by (simp add: contract_item_def r(1))
  have "bridge_step ?E demo_looking (demo_looking\<lparr>sy_bridge := (sy_bridge demo_looking)\<lparr>bs_requests :=
        update_request ''p1'' (\<lambda>_. answered_with r 20 demo_ask) (bs_requests (sy_bridge demo_looking))\<rparr>, sy_pass := Some (20, [], [])\<rparr>)"
    by (rule bridge_step.contract_looks [OF _ _ _ item]) (simp_all add: demo_looking_def demo_asked_def demo_env_def)
  then have "bridge_step ?E demo_looking (demo_recorded r)"
    by (simp add: demo_recorded_def demo_looking_def demo_asked_def update_request_def)
  with looking r(2) show ?thesis by (blast intro: bridge_reach.more)
qed

theorem poll_serves_own_room_witness:
  "\<exists>r. hr_status (handlePoll (\<lambda>_ _. replicate 32 0) [''k''] ''p1'' demo_hook_headers 17 (sy_bridge (demo_recorded r))) = 200
     \<and> header_get demo_hook_headers ''x-beam-room'' = Some (br_room demo_ask)"
proof -
  obtain r where r: "bridge_reach (demo_env (From_contract demo_contract) json_codec) (demo_recorded r)"
    using demo_recorded_reach by blast
  have heads: "header_get demo_hook_headers ''x-beam-publication'' = Some ''p1''" "header_get demo_hook_headers ''x-beam-room'' = Some ''r''"
    by code_simp+
  have status: "hr_status (handlePoll (\<lambda>_ _. replicate 32 0) [''k''] ''p1'' demo_hook_headers 17 (sy_bridge (demo_recorded r))) = 200"
    using demo_signed [of "[]"] heads
    by (simp add: handlePoll_def demo_recorded_def demo_looking_def answered_with_def demo_ask_def reply_response_def)
  from poll_serves_own_room [OF r status] have "header_get demo_hook_headers ''x-beam-room'' = Some (br_room demo_ask)"
    by (auto simp: demo_recorded_def answered_with_def)
  with status show ?thesis by blast
qed

theorem reply_is_final_witness:
  "\<exists>r s'. bridge_step (demo_env (From_contract demo_contract) json_codec) (demo_recorded r) s'
     \<and> (\<exists>p'. map_of (bs_requests (sy_bridge s')) ''p1'' = Some p' \<and> br_reply p' = Some r)"
proof -
  obtain r where r: "bridge_reach (demo_env (From_contract demo_contract) json_codec) (demo_recorded r)"
    using demo_recorded_reach by blast
  let ?s = "(demo_recorded r)\<lparr>sy_pass := None\<rparr>"
  have step: "bridge_step (demo_env (From_contract demo_contract) json_codec) (demo_recorded r) ?s"
    by (rule bridge_step.contract_ends) (simp add: demo_recorded_def)
  have p: "map_of (bs_requests (sy_bridge (demo_recorded r))) ''p1'' = Some (answered_with r 20 demo_ask)"
    by (simp add: demo_recorded_def)
  have reply: "br_reply (answered_with r 20 demo_ask) = Some r" by (simp add: answered_with_def)
  have "map_of (bs_requests (sy_bridge ?s)) ''p1'' \<noteq> None" by (simp add: demo_recorded_def)
  with reply_is_final [OF r step p reply]
  have "\<exists>p'. map_of (bs_requests (sy_bridge ?s)) ''p1'' = Some p' \<and> br_reply p' = Some r" by blast
  with step show ?thesis by blast
qed

end
