(* ===== verification/BridgeLive.thy ===== *)
theory BridgeLive
  imports BridgeRuns
begin

text \<open>
  Every request to a bridge of CRE answers ends with a reply: when no report ever comes, after as many spaced
  passes of the pump as there are forwards left, and one more.
\<close>

subsection \<open>What is left to spend\<close>

definition left_of :: "cre_answers \<Rightarrow> bridge_request \<Rightarrow> nat" where
  "left_of answers p = (if br_reply p = None then nat (ca_maxAttempts answers - br_attempts p) else 0)"

definition budget :: "cre_answers \<Rightarrow> (string \<times> bridge_request) list \<Rightarrow> nat" where
  "budget answers rs = sum_list (map (\<lambda>(key, p). left_of answers p) rs)"

text \<open>A forwarded request has the time of its last forward, none of them later than the last pass.\<close>

definition forwards_ok :: "int \<Rightarrow> string \<times> bridge_request \<Rightarrow> bool" where
  "forwards_ok t kp \<longleftrightarrow>
     br_id (snd kp) = fst kp
     \<and> (br_forwardedAt (snd kp) = None \<longrightarrow> br_attempts (snd kp) \<le> 0)
     \<and> (\<forall>f. br_forwardedAt (snd kp) = Some f \<longrightarrow> f \<le> t)"

definition live_ok :: "cre_answers \<Rightarrow> int \<Rightarrow> bridge \<Rightarrow> bool" where
  "live_ok answers t b \<longleftrightarrow> list_all (forwards_ok t) (bs_requests b) \<and> bg_nextRunAt b \<le> t + ca_paceSeconds answers"

text \<open>Passes far enough apart: each at least the pace and the retry time after the one before.\<close>

fun spaced :: "cre_answers \<Rightarrow> int \<Rightarrow> int list \<Rightarrow> bool" where
  "spaced answers t [] = True"
| "spaced answers t (u # us) \<longleftrightarrow>
     0 \<le> ca_paceSeconds answers \<and> t + ca_paceSeconds answers \<le> u \<and> t + ca_retrySeconds answers \<le> u \<and> spaced answers u us"

fun passes :: "cre_answers \<Rightarrow> (forward \<Rightarrow> 'w \<Rightarrow> (string + bool) \<times> 'w) \<Rightarrow> int list \<Rightarrow> bridge \<Rightarrow> 'w \<Rightarrow> bridge \<times> 'w" where
  "passes answers forward_to [] b w = (b, w)"
| "passes answers forward_to (now # later) b w =
     (case pumpCre answers forward_to now b w of (_, b', w') \<Rightarrow> passes answers forward_to later b' w')"

text \<open>The call of the workflow comes back, accepted or not.\<close>

definition always_returns :: "(forward \<Rightarrow> 'w \<Rightarrow> (string + bool) \<times> 'w) \<Rightarrow> bool" where
  "always_returns forward_to \<longleftrightarrow> (\<forall>fw w. \<exists>a w'. forward_to fw w = (Inr a, w'))"

subsection \<open>One pass\<close>

lemma budget_filter: "budget answers (filter Q rs) \<le> budget answers rs"
  by (induction rs) (auto simp: budget_def)

lemma budget_give_up: "budget answers (snd (give_up due r now rs)) \<le> budget answers rs"
  by (induction rs) (auto simp: budget_def give_up_def left_of_def answered_with_def)

lemma forwards_ok_filter: "list_all (forwards_ok t) rs \<Longrightarrow> list_all (forwards_ok t) (filter Q rs)"
  by (induction rs) auto

lemma forwards_ok_give_up: "list_all (forwards_ok t) rs \<Longrightarrow> list_all (forwards_ok t) (snd (give_up due r now rs))"
  by (induction rs) (auto simp: give_up_def forwards_ok_def answered_with_def split: if_splits)

lemma forwards_ok_later: "t \<le> u \<Longrightarrow> list_all (forwards_ok t) rs \<Longrightarrow> list_all (forwards_ok u) rs"
  by (induction rs) (auto simp: forwards_ok_def)

lemma budget_zero:
  "budget answers rs = 0 \<longleftrightarrow> (\<forall>(key, p) \<in> set rs. br_reply p = None \<longrightarrow> ca_maxAttempts answers \<le> br_attempts p)"
  by (induction rs) (auto simp: budget_def left_of_def)

lemma cre_end_requests:
  "bs_requests (cre_end fw b)
     = map (\<lambda>(key, p). (key, if List.member (fw_batch fw) key then forwarded_at (fw_now fw) p else p)) (bs_requests b)"
  by (simp add: cre_end_def)

lemma budget_forwarded: "left_of answers (forwarded_at now p) \<le> left_of answers p"
  by (auto simp: left_of_def forwarded_at_def intro: nat_mono)

lemma budget_map_less:
  assumes "(key, p) \<in> set rs" and "left_of answers (f key p) < left_of answers p"
    and "\<And>k q. left_of answers (f k q) \<le> left_of answers q"
  shows "budget answers (map (\<lambda>(k, q). (k, f k q)) rs) < budget answers rs"
  using assms(1)
proof (induction rs)
  case (Cons kq rs)
  obtain k q where kq: "kq = (k, q)" by (cases kq)
  have le: "budget answers (map (\<lambda>(k, q). (k, f k q)) rs) \<le> budget answers rs"
    unfolding budget_def map_map by (rule sum_list_mono) (use assms(3) in auto)
  show ?case
  proof (cases "kq = (key, p)")
    case True
    with le assms(2) show ?thesis by (auto simp: budget_def)
  next
    case False
    with Cons have "budget answers (map (\<lambda>(k, q). (k, f k q)) rs) < budget answers rs" by auto
    with assms(3) [of k q] show ?thesis by (simp add: kq budget_def add_le_less_mono)
  qed
qed simp

lemma unanswered_member: "p \<in> set (unanswered st) \<longleftrightarrow> (\<exists>key. (key, p) \<in> set (bs_requests st)) \<and> br_reply p = None"
  by (force simp: unanswered_def)

lemma cre_begin_requests:
  assumes "cre_begin answers now b = (b', saved, fw)"
  shows "bs_requests b' = snd (give_up (exhausted answers now) not_attested now (snd (dropExpired now (bs_requests b))))"
  using assms by (auto simp: cre_begin_def Let_def split: prod.splits list.splits)

lemma cre_begin_idle:
  assumes "cre_begin answers now b = (b', saved, None)" and "bg_nextRunAt b \<le> now"
  shows "filter (forward_due answers now) (unanswered b') = [] \<and> bg_nextRunAt b' = bg_nextRunAt b"
  using assms by (auto simp: cre_begin_def Let_def split: prod.splits list.splits if_splits)

lemma exhausted_answered:
  assumes "(key, p) \<in> set (snd (give_up due r now rs))" and "br_reply p = None"
  shows "(key, p) \<in> set rs \<and> \<not> due p"
  using assms by (auto simp: give_up_def answered_with_def split: if_splits)

lemma cre_begin_live:
  assumes run: "cre_begin answers now b = (b', saved, fw)" and live: "live_ok answers t b" and "spaced answers t [now]"
    and "0 < ca_maxAttempts answers"
  shows "list_all (forwards_ok now) (bs_requests b') \<and> budget answers (bs_requests b') \<le> budget answers (bs_requests b)
    \<and> (\<forall>p \<in> set (unanswered b'). forward_due answers now p) \<and> bg_nextRunAt b \<le> now"
proof -
  have next_run: "bg_nextRunAt b \<le> now" and retry: "t + ca_retrySeconds answers \<le> now" and "t \<le> now"
    using live assms(3) by (auto simp: live_ok_def)
  have dropped: "list_all (forwards_ok t) (snd (dropExpired now (bs_requests b)))"
    using live unfolding live_ok_def dropExpired_def snd_conv by (simp add: forwards_ok_filter)
  have b': "bs_requests b' = snd (give_up (exhausted answers now) not_attested now (snd (dropExpired now (bs_requests b))))"
    by (rule cre_begin_requests [OF run])
  have "forward_due answers now p" if "p \<in> set (unanswered b')" for p
  proof -
    from that obtain key where "(key, p) \<in> set (bs_requests b')" and none: "br_reply p = None"
      by (auto simp: unanswered_member)
    then have p: "(key, p) \<in> set (snd (dropExpired now (bs_requests b)))" "\<not> exhausted answers now p"
      unfolding b' by (auto dest: exhausted_answered)
    then have "forwards_ok t (key, p)" using dropped by (auto simp: list_all_iff)
    then show ?thesis
      using p(2) retry assms(4)
      by (cases "br_forwardedAt p") (auto simp: exhausted_def forward_due_def retry_due_def forwards_ok_def)
  qed
  moreover have "budget answers (bs_requests b') \<le> budget answers (bs_requests b)"
    unfolding b' using budget_give_up budget_filter unfolding dropExpired_def snd_conv by (rule order_trans)
  moreover have "list_all (forwards_ok now) (bs_requests b')"
    unfolding b' using dropped \<open>t \<le> now\<close> by (blast intro: forwards_ok_give_up forwards_ok_later)
  ultimately show ?thesis using next_run by blast
qed

lemma pass_live:
  assumes live: "live_ok answers t b" and "spaced answers t [now]" and "0 < ca_maxAttempts answers"
    and returns: "always_returns forward_to"
  shows "\<exists>r b' w'. pumpCre answers forward_to now b w = (r, b', w') \<and> live_ok answers now b'
    \<and> (budget answers (bs_requests b') < budget answers (bs_requests b) \<or> unanswered b' = [])"
proof -
  obtain b1 saved fw where run: "cre_begin answers now b = (b1, saved, fw)" by (metis prod_cases3)
  note begun = cre_begin_live [OF run live assms(2,3)]
  show ?thesis
  proof (cases fw)
    case None
    with run begun have "unanswered b1 = []" "bg_nextRunAt b1 = bg_nextRunAt b"
      using cre_begin_idle [of answers now b b1 saved] by (auto simp: filter_empty_conv)
    with run None begun assms(2) show ?thesis by (simp add: pumpCre_def live_ok_def)
  next
    case (Some f)
    obtain a w' where call: "forward_to f w = (Inr a, w')" using returns unfolding always_returns_def by blast
    have pump: "pumpCre answers forward_to now b w = (Inr True, cre_end f b1, w')"
      using run Some call by (simp add: pumpCre_def)
    have f: "bg_nextRunAt b1 = now + ca_paceSeconds answers" "fw_now f = now"
      using run Some by (auto simp: cre_begin_def Let_def split: prod.splits list.splits)
    obtain oldest where oldest: "oldest \<in> set (unanswered b1)" "forward_due answers now oldest" "br_id oldest \<in> set (fw_batch f)"
      using forward_batch_sound [of answers now b b1 saved f] run Some by (metis filter_eq_Cons_iff in_set_conv_decomp)
    then obtain key where key: "(key, oldest) \<in> set (bs_requests b1)" and none: "br_reply oldest = None"
      by (auto simp: unanswered_member)
    then have "br_id oldest = key" using begun by (auto simp: list_all_iff forwards_ok_def)
    with oldest key none have "budget answers (bs_requests (cre_end f b1)) < budget answers (bs_requests b1)"
      unfolding cre_end_requests
      by (intro budget_map_less [OF key])
        (auto simp: left_of_def forwarded_at_def forward_due_def)
    moreover have "list_all (forwards_ok now) (bs_requests (cre_end f b1))"
    proof -
      have "forwards_ok now (k, p) \<Longrightarrow> forwards_ok now (k, forwarded_at now p)" for k p
        by (simp add: forwards_ok_def forwarded_at_def)
      with begun show ?thesis unfolding cre_end_requests list_all_iff by (auto simp: f(2))
    qed
    moreover have "bg_nextRunAt (cre_end f b1) = now + ca_paceSeconds answers" by (simp add: cre_end_def f(1))
    ultimately show ?thesis using pump begun by (auto simp: live_ok_def)
  qed
qed

lemma answered_stays:
  assumes "live_ok answers t b" and "spaced answers t ts" and "0 < ca_maxAttempts answers"
    and returns: "always_returns forward_to" and "unanswered b = []"
  shows "unanswered (fst (passes answers forward_to ts b w)) = []"
  using assms(1,2,5)
proof (induction ts arbitrary: t b w)
  case (Cons now ts)
  obtain b1 saved fw where run: "cre_begin answers now b = (b1, saved, fw)" by (metis prod_cases3)
  have "p \<notin> set (unanswered b1)" for p
  proof
    assume "p \<in> set (unanswered b1)"
    then obtain key where "(key, p) \<in> set (bs_requests b1)" "br_reply p = None" by (auto simp: unanswered_member)
    then have "(key, p) \<in> set (snd (dropExpired now (bs_requests b)))"
      unfolding cre_begin_requests [OF run] by (auto dest: exhausted_answered)
    then have "p \<in> set (unanswered b)" using \<open>br_reply p = None\<close> by (auto simp: dropExpired_def unanswered_member)
    with Cons.prems(3) show False by simp
  qed
  then have none: "unanswered b1 = []" by (metis list.set_intros(1) neq_Nil_conv)
  have "fw = None"
    using forward_batch_sound [of answers now b b1 saved] run none by (cases fw) fastforce+
  with run have "pumpCre answers forward_to now b w = (Inr saved, b1, w)" by (simp add: pumpCre_def)
  moreover from this pass_live [OF Cons.prems(1) _ assms(3) returns, of now, where w = w] Cons.prems(2) have "live_ok answers now b1"
    by auto
  ultimately show ?case using Cons.IH [of now b1 w] Cons.prems(2) none by simp
qed simp

lemma none_unanswered:
  assumes "0 < ca_maxAttempts answers" and "live_ok answers t b" and "spaced answers t ts"
    and "budget answers (bs_requests b) < length ts"
    and "always_returns forward_to"
  shows "unanswered (fst (passes answers forward_to ts b w)) = []"
  using assms(2-4)
proof (induction ts arbitrary: t b w)
  case (Cons now ts)
  from Cons.prems(2) have "spaced answers t [now]" by simp
  from pass_live [OF Cons.prems(1) this assms(1,5), where w = w] obtain r b' w'
    where pass: "pumpCre answers forward_to now b w = (r, b', w')" "live_ok answers now b'"
      "budget answers (bs_requests b') < budget answers (bs_requests b) \<or> unanswered b' = []" by blast
  from Cons.prems(2) have spaced: "spaced answers now ts" by simp
  show ?case
  proof (cases "unanswered b' = []")
    case True
    with pass(1) answered_stays [OF pass(2) spaced assms(1,5), where w = w'] show ?thesis by simp
  next
    case False
    with pass(3) Cons.prems(3) have "budget answers (bs_requests b') < length ts" by simp
    from Cons.IH [OF pass(2) spaced this, of w'] pass(1) show ?thesis by simp
  qed
qed simp

subsection \<open>What a pass keeps\<close>

text \<open>A pass drops no request before its 25 hours are over.\<close>

lemma pump_keeps:
  assumes "pumpCre answers forward_to now b w = (r, b', w')" and "(key, p) \<in> set (bs_requests b)" and "\<not> expired now p"
  shows "\<exists>p'. (key, p') \<in> set (bs_requests b') \<and> br_receivedAt p' = br_receivedAt p"
proof -
  obtain b1 saved fw where run: "cre_begin answers now b = (b1, saved, fw)" by (metis prod_cases3)
  from assms(2,3) have "(key, p) \<in> set (snd (dropExpired now (bs_requests b)))" by (simp add: dropExpired_def)
  then have "\<exists>p1. (key, p1) \<in> set (bs_requests b1) \<and> br_receivedAt p1 = br_receivedAt p"
    unfolding cre_begin_requests [OF run] by (force simp: give_up_def answered_with_def)
  moreover have "b' = b1 \<or> (\<exists>f. b' = cre_end f b1)"
    using assms(1) run by (auto simp: pumpCre_def split: option.splits prod.splits sum.splits)
  ultimately show ?thesis by (force simp: cre_end_requests forwarded_at_def)
qed

lemma passes_keep:
  "(key, p) \<in> set (bs_requests b) \<Longrightarrow> list_all (\<lambda>u. \<not> expired u p) ts
     \<Longrightarrow> \<exists>p'. (key, p') \<in> set (bs_requests (fst (passes answers forward_to ts b w)))"
proof (induction ts arbitrary: b w p)
  case (Cons now ts)
  obtain r b' w' where pump: "pumpCre answers forward_to now b w = (r, b', w')" by (metis prod_cases3)
  with pump_keeps [OF pump Cons.prems(1)] Cons.prems(2)
  obtain p' where "(key, p') \<in> set (bs_requests b')" "br_receivedAt p' = br_receivedAt p" by auto
  with Cons.IH [of p' b' w'] Cons.prems(2) pump show ?case by (simp add: expired_def)
qed auto

text \<open>
  C6. No request waits for ever. When the calls of the workflow return but no report ever comes, every request of a
  bridge of CRE answers is settled after more passes than the forwards its unanswered requests have left, spaced by the
  pace and the retry time: none is still there without a reply, and each request that no pass found more than 25 hours old
  is there with one. A request the bridge keeps for more than 25 hours is dropped instead, answered or not; when the
  attempts and the retry time allow for longer than that, it may never have had a reply.
\<close>

theorem every_request_is_answered:
  assumes "0 < ca_maxAttempts answers" and "live_ok answers t b" and "spaced answers t ts"
    and "budget answers (bs_requests b) < length ts"
    and "always_returns forward_to"
  shows "unanswered (fst (passes answers forward_to ts b w)) = []
    \<and> (\<forall>key p. (key, p) \<in> set (bs_requests b) \<and> (\<forall>u \<in> set ts. u - br_receivedAt p \<le> 25 * 3600)
         \<longrightarrow> (\<exists>p'. (key, p') \<in> set (bs_requests (fst (passes answers forward_to ts b w))) \<and> br_reply p' \<noteq> None))"
proof -
  let ?final = "fst (passes answers forward_to ts b w)"
  have settled: "unanswered ?final = []" by (rule none_unanswered [OF assms])
  have "\<exists>p'. (key, p') \<in> set (bs_requests ?final) \<and> br_reply p' \<noteq> None"
    if "(key, p) \<in> set (bs_requests b)" "\<forall>u \<in> set ts. u - br_receivedAt p \<le> 25 * 3600" for key p
  proof -
    have "list_all (\<lambda>u. \<not> expired u p) ts" using that(2) by (auto simp: list_all_iff expired_def RETENTION_SECONDS_def)
    from passes_keep [OF that(1) this, where answers = answers and forward_to = forward_to and w = w] obtain p' where p': "(key, p') \<in> set (bs_requests ?final)" by blast
    moreover have "p' \<notin> set (unanswered ?final)" using settled by simp
    ultimately show ?thesis unfolding unanswered_member by blast
  qed
  with settled show ?thesis by blast
qed

theorem every_request_is_answered_witness:
  "unanswered (fst (passes demo_answers (\<lambda>_ w. (Inr False, w)) [100, 200] demo_bridge ())) = []
   \<and> (\<exists>p'. (''p1'', p') \<in> set (bs_requests (fst (passes demo_answers (\<lambda>_ w. (Inr False, w)) [100, 200] demo_bridge ())))
        \<and> br_reply p' \<noteq> None)"
proof -
  have hyps: "0 < ca_maxAttempts demo_answers" "spaced demo_answers 0 [100, 200]"
      "budget demo_answers (bs_requests demo_bridge) < length [100, 200 :: int]" by code_simp+
  have live: "live_ok demo_answers 0 demo_bridge"
    by (simp add: live_ok_def demo_bridge_def demo_answers_def forwards_ok_def demo_pending_def)
  have returns: "always_returns (\<lambda>_ w. (Inr False, w))" by (auto simp: always_returns_def)
  from every_request_is_answered [OF hyps(1) live hyps(2,3) returns, of "()"] show ?thesis
    by (auto simp: demo_bridge_def demo_pending_def)
qed

end
