(* ===== verification/BridgeChain.thy ===== *)
theory BridgeChain
  imports BridgeRuns RelayIO
begin

text \<open>
  A receipts contract as the bridge and its offline check read it, and how the bridge opens requests on it
  (\<open>packages/cre/bridge/chain.ts\<close>). The chain library's calls are the operations of \<open>contract_client\<close>, one client per
  contract address.
\<close>

record standard_receipt =
  sr_requestId :: string
  sr_planFingerprint :: string
  sr_coordinateChecksum :: string
  sr_totalBytes :: int
  sr_bytesTransferred :: int
  sr_completedAtMs :: int
  sr_status :: int
  sr_level :: int

record room_receipt =
  rr_manifestSha256 :: string
  rr_evidenceSha256 :: string
  rr_assignmentsSha256 :: string
  rr_fileSizeBytes :: int
  rr_targetCount :: int
  rr_evidenceVersion :: int
  rr_status :: int
  rr_level :: int

text \<open>The three events a search looks for, by their indexed argument; a closure's other arguments come with its log.\<close>

datatype log_filter = Log_ReceiptRecorded string | Log_RoomReceiptRecorded string | Log_RequestClosed string

record chain_log =
  cl_transactionHash :: string
  cl_blockNumber :: int
  cl_reason :: int
  cl_transferId :: string

record 'w contract_client =
  cc_chainId :: "('w, int) op"
  cc_hasCode :: "('w, bool) op"
  cc_donAttested :: "('w, bool) op"
  cc_owner :: "('w, string) op"
  cc_isRequester :: "string \<Rightarrow> ('w, bool) op"
  cc_getReceipt :: "string \<Rightarrow> ('w, standard_receipt) op"
  cc_getRoomReceipt :: "string \<Rightarrow> ('w, room_receipt) op"
  cc_blockNumber :: "('w, int) op"
  cc_getLogs :: "log_filter \<Rightarrow> int \<Rightarrow> int \<Rightarrow> ('w, chain_log list) op"
  cc_requestReceipt :: "string \<Rightarrow> ('w, string) op"
  cc_requestRoomReceipt :: "string \<Rightarrow> string \<Rightarrow> string \<Rightarrow> ('w, string) op"
  cc_waitForReceipt :: "string \<Rightarrow> ('w, bool \<times> int) op"

subsection \<open>Reading\<close>

definition readReceipt :: "codec \<Rightarrow> 'w contract_client \<Rightarrow> attestation \<Rightarrow> ('w, report_entry option) op" where
  "readReceipt cd client a =
     (case a of
        Attest_transfer t \<Rightarrow>
          bind_w (lift_w (transferIdToBytes16 t)) (\<lambda>transferId.
          bind_w (cc_getReceipt client transferId) (\<lambda>r.
            return_w (if sr_status r = 0 then None
              else Some (Entry_standard \<lparr>se_transferId = transferId, se_requestId = sr_requestId r, se_status = sr_status r,
                se_totalBytes = sr_totalBytes r, se_bytesTransferred = sr_bytesTransferred r,
                se_completedAtMs = sr_completedAtMs r, se_planFingerprint = sr_planFingerprint r,
                se_coordinateChecksum = sr_coordinateChecksum r, se_level = sr_level r\<rparr>))))
      | Attest_room room channel publication \<Rightarrow>
          bind_w (cc_getRoomReceipt client (roomReceiptKey cd room channel publication)) (\<lambda>r.
            return_w (if rr_status r = 0 then None
              else Some (Entry_room \<lparr>re_room = room, re_channel = channel, re_publication = publication,
                re_requestId = ZERO_BYTES32, re_status = rr_status r, re_fileSizeBytes = rr_fileSizeBytes r,
                re_manifestSha256 = rr_manifestSha256 r, re_targetCount = rr_targetCount r,
                re_evidenceSha256 = rr_evidenceSha256 r, re_assignmentsSha256 = rr_assignmentsSha256 r,
                re_evidenceVersion = rr_evidenceVersion r, re_level = rr_level r\<rparr>))))"

text \<open>
  The search in windows of \<open>logRangeBlocks\<close>, at least one by the configuration's schema. (With none the code would
  search the same window for ever; the model finds nothing.)
\<close>

function log_windows :: "'w contract_client \<Rightarrow> int \<Rightarrow> log_filter \<Rightarrow> int \<Rightarrow> int \<Rightarrow> ('w, chain_log option) op" where
  "log_windows client width fl latest lo =
     (if lo \<le> latest \<and> 0 < width then
        bind_w (cc_getLogs client fl lo (if lo + width - 1 < latest then lo + width - 1 else latest)) (\<lambda>logs.
          if logs \<noteq> [] then return_w (Some (hd logs)) else log_windows client width fl latest (lo + width))
      else return_w None)"
  by auto
termination
  by (relation "measure (\<lambda>(client, width, fl, latest, lo). nat (latest - lo + 1))") auto

declare log_windows.simps [simp del]

definition firstLog :: "'w contract_client \<Rightarrow> int \<Rightarrow> log_filter \<Rightarrow> int \<Rightarrow> ('w, chain_log option) op" where
  "firstLog client width fl since =
     bind_w (cc_blockNumber client) (\<lambda>latest. log_windows client width fl latest since)"

definition found_in :: "report_entry \<Rightarrow> chain_log option \<Rightarrow> chain_answer" where
  "found_in answer l =
     \<lparr>an_answer = answer, an_transaction = map_option cl_transactionHash l, an_block = map_option cl_blockNumber l\<rparr>"

definition recorded_filter :: "codec \<Rightarrow> report_entry \<Rightarrow> log_filter" where
  "recorded_filter cd answer =
     (case answer of
        Entry_standard e \<Rightarrow> Log_ReceiptRecorded (se_transferId e)
      | Entry_room e \<Rightarrow> Log_RoomReceiptRecorded (roomReceiptKey cd (re_room e) (re_channel e) (re_publication e))
      | _ \<Rightarrow> Log_RequestClosed [])"

definition lookup_closure :: "codec \<Rightarrow> 'w contract_client \<Rightarrow> int \<Rightarrow> attestation \<Rightarrow> int option \<Rightarrow> ('w, chain_answer option) op" where
  "lookup_closure cd client width a since =
     (case (a, since) of
        (Attest_room room channel publication, Some lo) \<Rightarrow>
          (let key = roomRequestKey cd (roomReceiptKey cd room channel publication) in
           bind_w (firstLog client width (Log_RequestClosed key) lo) (\<lambda>closed.
             return_w (case closed of
                 None \<Rightarrow> None
               | Some l \<Rightarrow>
                   Some (found_in (Entry_closure \<lparr>ce_key = key, ce_reason = cl_reason l, ce_transferId = cl_transferId l\<rparr>) (Some l)))))
      | _ \<Rightarrow> return_w None)"

definition chain_lookup :: "codec \<Rightarrow> 'w contract_client \<Rightarrow> int \<Rightarrow> attestation \<Rightarrow> int option \<Rightarrow> ('w, chain_answer option) op" where
  "chain_lookup cd client width a since =
     bind_w (readReceipt cd client a) (\<lambda>answer.
       case answer of
         Some entry \<Rightarrow>
           (case since of
              None \<Rightarrow> return_w (Some (found_in entry None))
            | Some lo \<Rightarrow>
                bind_w (firstLog client width (recorded_filter cd entry) lo) (\<lambda>l. return_w (Some (found_in entry l))))
       | None \<Rightarrow> lookup_closure cd client width a since)"

subsection \<open>Requesting\<close>

definition chain_request :: "'w contract_client \<Rightarrow> attestation \<Rightarrow> ('w, opened_request) op" where
  "chain_request client a =
     bind_w
       (case a of
          Attest_transfer t \<Rightarrow> bind_w (lift_w (transferIdToBytes16 t)) (\<lambda>transferId. cc_requestReceipt client transferId)
        | Attest_room room channel publication \<Rightarrow> cc_requestRoomReceipt client room channel publication) (\<lambda>hash.
     bind_w (cc_waitForReceipt client hash) (\<lambda>(success, block).
       if success then return_w \<lparr>op_transaction = hash, op_block = block\<rparr>
       else throw_w (''The request transaction '' @ hash @ '' reverted'')))"

subsection \<open>Connecting\<close>

definition connectContract :: "codec \<Rightarrow> 'w contract_client \<Rightarrow> int \<Rightarrow> string \<Rightarrow> int \<Rightarrow> string \<Rightarrow> ('w, 'w chain_io) op" where
  "connectContract cd client expectedChain contract width account =
     bind_w (cc_chainId client) (\<lambda>chainId.
     if chainId \<noteq> expectedChain then
       throw_w (''The RPC serves chain '' @ show_int chainId @ '', not '' @ show_int expectedChain)
     else
       bind_w (cc_hasCode client) (\<lambda>code.
       if \<not> code then throw_w (''No contract at '' @ contract)
       else
         bind_w (cc_donAttested client) (\<lambda>donAttested.
         bind_w (cc_owner client) (\<lambda>owner.
         bind_w (cc_isRequester client account) (\<lambda>requester.
           if \<not> requester \<and> to_lower owner \<noteq> to_lower account then
             throw_w (account @ '' may not open requests on '' @ contract @ ''; the owner must call setRequester'')
           else
             return_w \<lparr>ci_deployment = \<lparr>dp_chainId = expectedChain, dp_contract = contract, dp_donAttested = donAttested\<rparr>,
               ci_lookup = chain_lookup cd client width, ci_request = chain_request client\<rparr>)))))"

subsection \<open>The search\<close>

text \<open>The chain's matching logs, in the order of their blocks, as \<open>getLogs\<close> answers a window of them.\<close>

definition serves_logs :: "'w contract_client \<Rightarrow> log_filter \<Rightarrow> chain_log list \<Rightarrow> bool" where
  "serves_logs client fl logs \<longleftrightarrow>
     (\<forall>lo hi w. \<exists>w'. cc_getLogs client fl lo hi w = (Inr (filter (\<lambda>l. lo \<le> cl_blockNumber l \<and> cl_blockNumber l \<le> hi) logs), w'))"

lemma filter_nonempty_find: "filter Q xs \<noteq> [] \<Longrightarrow> find Q xs = Some (hd (filter Q xs))"
  by (induction xs) auto

lemma sorted_find_window:
  assumes "sorted (map cl_blockNumber logs)" and "filter (\<lambda>l. lo \<le> cl_blockNumber l \<and> cl_blockNumber l \<le> hi) logs = x # xs"
    and "hi \<le> latest"
  shows "find (\<lambda>l. lo \<le> cl_blockNumber l \<and> cl_blockNumber l \<le> latest) logs = Some x"
  using assms(1,2)
proof (induction logs)
  case (Cons l logs)
  show ?case
  proof (cases "lo \<le> cl_blockNumber l")
    case True
    have "x \<in> set (l # logs)" "cl_blockNumber x \<le> hi"
    proof -
      have "x \<in> set (filter (\<lambda>l. lo \<le> cl_blockNumber l \<and> cl_blockNumber l \<le> hi) (l # logs))" using Cons.prems(2) by simp
      then show "x \<in> set (l # logs)" "cl_blockNumber x \<le> hi" unfolding set_filter by simp_all
    qed
    with Cons.prems(1) have "cl_blockNumber l \<le> hi" by auto
    with True Cons.prems(2) assms(3) show ?thesis by simp
  next
    case False
    with Cons show ?thesis by simp
  qed
qed simp

lemma log_windows_first:
  assumes "serves_logs client fl logs" and "sorted (map cl_blockNumber logs)" and "0 < width"
  shows "fst (log_windows client width fl latest lo w)
    = Inr (find (\<lambda>l. lo \<le> cl_blockNumber l \<and> cl_blockNumber l \<le> latest) logs)"
proof (induction "nat (latest - lo + 1)" arbitrary: lo w rule: less_induct)
  case less
  show ?case
  proof (cases "lo \<le> latest")
    case False
    then have "find (\<lambda>l. lo \<le> cl_blockNumber l \<and> cl_blockNumber l \<le> latest) logs = None"
      by (auto simp: find_None_iff)
    with False show ?thesis by (simp add: log_windows.simps return_w_def)
  next
    case True
    let ?hi = "if lo + width - 1 < latest then lo + width - 1 else latest"
    obtain w' where page: "cc_getLogs client fl lo ?hi w
        = (Inr (filter (\<lambda>l. lo \<le> cl_blockNumber l \<and> cl_blockNumber l \<le> ?hi) logs), w')"
      using assms(1) unfolding serves_logs_def by blast
    show ?thesis
    proof (cases "filter (\<lambda>l. lo \<le> cl_blockNumber l \<and> cl_blockNumber l \<le> ?hi) logs")
      case (Cons x xs)
      then have "find (\<lambda>l. lo \<le> cl_blockNumber l \<and> cl_blockNumber l \<le> latest) logs = Some x"
        using sorted_find_window [OF assms(2)] by (auto split: if_splits)
      with page Cons True assms(3) show ?thesis by (simp add: log_windows.simps [of client width] return_w_def)
    next
      case Nil
      have "find (\<lambda>l. lo \<le> cl_blockNumber l \<and> cl_blockNumber l \<le> latest) logs
          = find (\<lambda>l. lo + width \<le> cl_blockNumber l \<and> cl_blockNumber l \<le> latest) logs"
      proof (rule find_cong [OF refl])
        fix l assume "l \<in> set logs"
        with Nil have "\<not> (lo \<le> cl_blockNumber l \<and> cl_blockNumber l \<le> ?hi)" by (auto simp: filter_empty_conv)
        then show "(lo \<le> cl_blockNumber l \<and> cl_blockNumber l \<le> latest) = (lo + width \<le> cl_blockNumber l \<and> cl_blockNumber l \<le> latest)"
          using assms(3) by (auto split: if_splits)
      qed
      moreover have "fst (log_windows client width fl latest (lo + width) w')
          = Inr (find (\<lambda>l. lo + width \<le> cl_blockNumber l \<and> cl_blockNumber l \<le> latest) logs)"
        by (rule less.hyps) (use True assms(3) in auto)
      ultimately show ?thesis using page Nil True assms(3) by (simp add: log_windows.simps [of client width])
    qed
  qed
qed

text \<open>
  The search in windows finds what one search would. When the node answers every window with the chain's
  matching logs in it, \<open>firstLog\<close> returns the first matching log from the given block to the latest one, whatever the
  window size, and nothing when there is none.
\<close>

theorem first_log_exact:
  assumes "serves_logs client fl logs" and "sorted (map cl_blockNumber logs)" and "0 < width"
    and "cc_blockNumber client w = (Inr latest, w1)"
  shows "fst (firstLog client width fl since w)
    = Inr (find (\<lambda>l. since \<le> cl_blockNumber l \<and> cl_blockNumber l \<le> latest) logs)"
  using log_windows_first [OF assms(1-3)] assms(4) by (simp add: firstLog_def)

definition demo_log :: "int \<Rightarrow> chain_log" where
  "demo_log block = \<lparr>cl_transactionHash = ''0x'', cl_blockNumber = block, cl_reason = 0, cl_transferId = []\<rparr>"

definition demo_client :: "chain_log list \<Rightarrow> unit contract_client" where
  "demo_client logs =
     \<lparr>cc_chainId = return_w 1, cc_hasCode = return_w True, cc_donAttested = return_w False, cc_owner = return_w ''0xA'',
      cc_isRequester = (\<lambda>_. return_w True),
      cc_getReceipt = (\<lambda>_. return_w \<lparr>sr_requestId = ''0x0'', sr_planFingerprint = ''0x0'', sr_coordinateChecksum = ''0x0'',
        sr_totalBytes = 10, sr_bytesTransferred = 10, sr_completedAtMs = 7, sr_status = 1, sr_level = 1\<rparr>),
      cc_getRoomReceipt = (\<lambda>_. return_w \<lparr>rr_manifestSha256 = ''0x1'', rr_evidenceSha256 = ''0x2'', rr_assignmentsSha256 = ''0x3'',
        rr_fileSizeBytes = 10, rr_targetCount = 2, rr_evidenceVersion = 1, rr_status = 1, rr_level = 1\<rparr>),
      cc_blockNumber = return_w 20,
      cc_getLogs = (\<lambda>_ lo hi. return_w (filter (\<lambda>l. lo \<le> cl_blockNumber l \<and> cl_blockNumber l \<le> hi) logs)),
      cc_requestReceipt = (\<lambda>_. return_w ''0x9''), cc_requestRoomReceipt = (\<lambda>_ _ _. return_w ''0x9''),
      cc_waitForReceipt = (\<lambda>_. return_w (True, 3))\<rparr>"

theorem first_log_exact_witness:
  "fst (firstLog (demo_client [demo_log 3, demo_log 12, demo_log 14]) 5 (Log_RequestClosed ''k'') 4 ()) = Inr (Some (demo_log 12))"
proof -
  let ?logs = "[demo_log 3, demo_log 12, demo_log 14]"
  have "serves_logs (demo_client ?logs) (Log_RequestClosed ''k'') ?logs" "cc_blockNumber (demo_client ?logs) () = (Inr 20, ())"
    by (simp_all add: serves_logs_def demo_client_def return_w_def)
  from first_log_exact [OF this(1) _ _ this(2), of 5 4] show ?thesis by (simp add: demo_log_def)
qed

end
