(* ===== verification/BridgeVerify.thy ===== *)
theory BridgeVerify
  imports BridgeChain
begin

text \<open>
  The offline check of a reply (\<open>packages/cre/bridge/verify.ts\<close>): a recorded reply against the contract, an attested
  one against the signed report it carries and the DON's signers. What the bridge replies passes it. The program's
  arguments and its printing are left out; \<open>process.exit\<close> after a message is an exception with that message.
\<close>

record verify_args =
  va_rpcUrl :: "string option"
  va_workflowId :: "string option"
  va_owner :: "string option"
  va_skipSignatures :: bool

datatype verdict = Matches_contract answer_view | Not_checked report_entry | Signed_by "string list" int report_entry

text \<open>\<open>String(value)\<close> of a field that may be absent.\<close>

definition string_of :: "json option \<Rightarrow> string" where
  "string_of j = (case j of None \<Rightarrow> ''undefined'' | Some v \<Rightarrow> js_string v)"

definition field :: "json option \<Rightarrow> string \<Rightarrow> json option" where
  "field j name = Option.bind j (\<lambda>v. jget v name)"

definition asked_attestation :: "json \<Rightarrow> attestation" where
  "asked_attestation reply =
     (let request = jget reply ''request'' in
      if field request ''op'' = Some (JStr ''attest_transfer'') then Attest_transfer (string_of (field request ''transfer_id''))
      else Attest_room (string_of (field request ''room'')) (string_of (field request ''channel''))
        (string_of (field request ''publication'')))"

definition differing :: "answer_view \<Rightarrow> json option \<Rightarrow> string list" where
  "differing expected given_answer =
     map fst (filter (\<lambda>(key, v). map_option stringify (field given_answer key) \<noteq> Some (stringify v)) expected)"

definition verify_recorded ::
  "codec \<Rightarrow> (string \<Rightarrow> 'w contract_client) \<Rightarrow> verify_args \<Rightarrow> json \<Rightarrow> ('w, verdict) op" where
  "verify_recorded cd client args reply =
     (case given (va_rpcUrl args) of
        None \<Rightarrow> throw_w ''usage''
      | Some _ \<Rightarrow>
          (let contract = string_of (field (jget reply ''chain'') ''contract'') in
           bind_w (cc_chainId (client contract)) (\<lambda>chainId.
             if field (jget reply ''chain'') ''chain_id'' \<noteq> Some (JNum chainId) then
               throw_w (''the RPC serves chain '' @ show_int chainId @ '', the reply names ''
                 @ string_of (field (jget reply ''chain'') ''chain_id''))
             else
               bind_w (readReceipt cd (client contract) (asked_attestation reply)) (\<lambda>onchain.
                 case onchain of
                   None \<Rightarrow> throw_w ''the contract holds no receipt for the request''
                 | Some entry \<Rightarrow>
                     bind_w (lift_w (answerView entry)) (\<lambda>expected.
                       if differing expected (jget reply ''answer'') \<noteq> [] then
                         throw_w (''the reply differs from the contract in '' @ join_with '', '' (differing expected (jget reply ''answer'')))
                       else return_w (Matches_contract expected))))))"

definition verify_attested ::
  "codec \<Rightarrow> (string \<Rightarrow> string \<Rightarrow> string + string) \<Rightarrow> (int \<Rightarrow> ('w, signer_set) op) \<Rightarrow> verify_args \<Rightarrow> json \<Rightarrow> ('w, verdict) op" where
  "verify_attested cd recoverAddress don_signers args reply =
     (if \<not> va_skipSignatures args
         \<and> (given (va_rpcUrl args) = None \<or> given (va_workflowId args) = None \<or> given (va_owner args) = None) then throw_w ''usage''
      else
        (case Option.bind (jget reply ''report'') parseSubmission of
           None \<Rightarrow> throw_w ''the reply carries no well-formed report''
         | Some sg \<Rightarrow>
             bind_w (lift_w (parseHeader (sg_rawReport sg))) (\<lambda>header.
             bind_w (lift_w (decodeReport cd (reportBody (sg_rawReport sg)))) (\<lambda>decoded.
             bind_w (lift_w (answerFor cd (asked_attestation reply) decoded)) (\<lambda>answer.
               case answer of
                 None \<Rightarrow> throw_w ''the signed report does not answer the request''
               | Some entry \<Rightarrow>
                   if va_skipSignatures args then return_w (Not_checked entry)
                   else if Some (rh_workflowId header) \<noteq> va_workflowId args then
                     throw_w (''the report comes from workflow '' @ rh_workflowId header)
                   else if Some (''0x'' @ rh_workflowOwner header) \<noteq> va_owner args then
                     throw_w (''the report comes from a workflow of 0x'' @ rh_workflowOwner header)
                   else
                     bind_w (don_signers (rh_donId header)) (\<lambda>S.
                     bind_w (lift_w (verifyReportSignatures (cd_keccak256 cd) recoverAddress sg S)) (\<lambda>accepted.
                       return_w (Signed_by accepted (ss_f S) entry))))))))"

definition verifyReply ::
  "codec \<Rightarrow> (string \<Rightarrow> string \<Rightarrow> string + string) \<Rightarrow> (string \<Rightarrow> 'w contract_client) \<Rightarrow> (int \<Rightarrow> ('w, signer_set) op) \<Rightarrow> verify_args
     \<Rightarrow> json \<Rightarrow> ('w, verdict) op" where
  "verifyReply cd recoverAddress client don_signers args reply =
     (if jget reply ''type'' = Some (JStr CHAIN_REPLY) \<and> jget reply ''outcome'' = Some (JStr ''recorded'') then
        verify_recorded cd client args reply
      else if jget reply ''type'' \<noteq> Some (JStr CRE_REPLY) \<or> jget reply ''outcome'' \<noteq> Some (JStr ''attested'') then
        throw_w ''not an attested or recorded bridge reply''
      else verify_attested cd recoverAddress don_signers args reply)"

subsection \<open>What the bridge replies, verifies\<close>

lemma bind_lift [simp]: "bind_w (lift_w (Inr a)) f = f a"
  by (rule ext) (simp add: lift_w_def)

lemma asked_request_json:
  "jget reply ''request'' = Some (request_json (requestView a)) \<Longrightarrow> asked_attestation reply = a"
  by (cases a) (simp_all add: asked_attestation_def field_def request_json_def requestView_def string_of_def)

lemma attested_json:
  fixes view answer sigs wflow report claim
  defines "j \<equiv> reply_json (Reply_attested view answer sigs wflow report claim)"
  shows "jget j ''type'' = Some (JStr CRE_REPLY)" and "jget j ''outcome'' = Some (JStr ''attested'')"
    and "jget j ''request'' = Some (request_json view)" and "jget j ''report'' = Some (submission_json report)"
  by (simp_all add: j_def reply_json_def)

lemma recorded_json:
  fixes view answer chain claim
  defines "j \<equiv> reply_json (Reply_recorded view answer chain claim)"
  shows "jget j ''type'' = Some (JStr CHAIN_REPLY)" and "jget j ''outcome'' = Some (JStr ''recorded'')"
    and "jget j ''request'' = Some (request_json view)" and "jget j ''answer'' = Some (JObj answer)"
    and "field (jget j ''chain'') ''chain_id'' = Some (JNum (cv_chain_id chain))"
    and "field (jget j ''chain'') ''contract'' = Some (JStr (cv_contract chain))"
  by (simp_all add: j_def reply_json_def field_def)

lemma reply_types [simp]: "CRE_REPLY \<noteq> CHAIN_REPLY" "CHAIN_REPLY \<noteq> CRE_REPLY"
  by (simp_all add: CRE_REPLY_def CHAIN_REPLY_def)

text \<open>
  C3. An attested reply can be checked without trusting the bridge. For every attested reply of a reachable bridge,
  the offline check, given the workflow the bridge was configured for and a registry that still answers the
  signer sets it answered then, succeeds: for a reply that says its signatures were verified it reports the very
  signers the reply names, and the signed report answers the request with the reply's answer.
\<close>

theorem attested_reply_verifies:
  assumes "bridge_reach E s" and "map_of (bs_requests (sy_bridge s)) key = Some p"
    and "br_reply p = Some (Reply_attested view answer sigs wflow report claim)"
    and "bc_answers (be_config E) = From_cre answers" and "ca_workflowId answers \<noteq> []"
    and "\<And>don S v. be_registry E don S \<Longrightarrow> \<exists>v'. don_signers don v = (Inr S, v')"
    and "args = \<lparr>va_rpcUrl = Some ''rpc'', va_workflowId = Some (ca_workflowId answers),
          va_owner = Some (ca_workflowOwner answers), va_skipSignatures = (\<not> gv_verified sigs)\<rparr>"
  shows "\<exists>entry f. answerView entry = Inr answer
    \<and> fst (verifyReply (be_codec E) (be_recover E) client don_signers args
        (reply_json (Reply_attested view answer sigs wflow report claim)) w)
      = Inr (if gv_verified sigs then Signed_by (gv_signers sigs) f entry else Not_checked entry)"
proof -
  let ?j = "reply_json (Reply_attested view answer sigs wflow report claim)"
  have "request_ok E key p"
    using bridge_reach_ok [OF assms(1)] assms(2) by (auto simp: sys_ok_def intro: requests_ok_lookup)
  then obtain chk where att: "attested_by E (br_attestation p) view answer sigs report chk"
    using assms(3) by (auto simp: request_ok_def reply_backed_def)
  let ?sg = "rc_signed chk"
  have ok: "check_ok E chk" and view: "view = requestView (br_attestation p)"
    and report: "report = reportSubmission (sg_rawReport ?sg) (sg_context ?sg) (sg_signatures ?sg)"
    using att by (simp_all add: attested_by_def)
  obtain entry where entry: "answerFor (be_codec E) (br_attestation p) (rc_decoded chk) = Inr (Some entry)" "answerView entry = Inr answer"
    using att by (auto simp: attested_by_def)
  have parsed: "Option.bind (jget ?j ''report'') parseSubmission = Some ?sg"
    using parse_submission_of [of "sg_signatures ?sg" "sg_rawReport ?sg" "sg_context ?sg"] ok
    by (simp add: attested_json report check_ok_def)
  have asked: "asked_attestation ?j = br_attestation p"
    by (rule asked_request_json) (simp add: attested_json view)
  have owner: "given (Some (ca_workflowOwner answers)) \<noteq> None" "given (Some (ca_workflowId answers)) \<noteq> None"
    using ok assms(4,5) by (auto simp: check_ok_def given_def split: list.splits)
  have head: "verifyReply (be_codec E) (be_recover E) client don_signers args ?j w
      = verify_attested (be_codec E) (be_recover E) don_signers args ?j w"
    by (simp add: verifyReply_def attested_json)
  have steps: "parseHeader (sg_rawReport ?sg) = Inr (rc_header chk)"
      "decodeReport (be_codec E) (reportBody (sg_rawReport ?sg)) = Inr (rc_decoded chk)"
      "answerFor (be_codec E) (asked_attestation ?j) (rc_decoded chk) = Inr (Some entry)"
      "rh_workflowId (rc_header chk) = ca_workflowId answers" "''0x'' @ rh_workflowOwner (rc_header chk) = ca_workflowOwner answers"
    using ok entry(1) assms(4) by (simp_all add: check_ok_def asked)
  have args: "va_rpcUrl args = Some ''rpc''" "va_workflowId args = Some (ca_workflowId answers)"
      "va_owner args = Some (ca_workflowOwner answers)" "va_skipSignatures args = (\<not> gv_verified sigs)"
    by (simp_all add: assms(7))
  show ?thesis
  proof (cases "gv_verified sigs")
    case False
    have "verify_attested (be_codec E) (be_recover E) don_signers args ?j w = (Inr (Not_checked entry), w)"
      by (simp add: verify_attested_def parsed steps args False return_w_def)
    with entry(2) False show ?thesis unfolding head by auto
  next
    case True
    then obtain S where S: "be_registry E (rh_donId (rc_header chk)) S"
        "verifyReportSignatures (cd_keccak256 (be_codec E)) (be_recover E) ?sg S = Inr (gv_signers sigs)"
      using att by (auto simp: attested_by_def)
    obtain w' where signers: "don_signers (rh_donId (rc_header chk)) w = (Inr S, w')" using assms(6) [OF S(1)] by blast
    have "given (Some ''rpc'') \<noteq> None" by (simp add: given_def)
    with owner have "verify_attested (be_codec E) (be_recover E) don_signers args ?j w
        = (Inr (Signed_by (gv_signers sigs) (ss_f S) entry), w')"
      unfolding verify_attested_def parsed args option.case steps sum.case bind_lift
      by (auto simp: steps True signers S(2) return_w_def)
    with entry(2) True show ?thesis unfolding head by auto
  qed
qed

lemma answer_view_keys: "answerView entry = Inr view \<Longrightarrow> distinct (map fst view)"
  by (cases entry) (auto simp: answerView_def split: sum.splits if_splits)

lemma field_of_view: "distinct (map fst view) \<Longrightarrow> (key, v) \<in> set view \<Longrightarrow> field (Some (JObj view)) key = Some v"
  by (simp add: field_def) (rule map_of_is_SomeI, simp_all add: rev_map [symmetric])

lemma differing_same: "distinct (map fst view) \<Longrightarrow> differing view (Some (JObj view)) = []"
  by (auto simp: differing_def filter_empty_conv field_of_view)

text \<open>What a lookup finds is what the contract holds, unless it is a closure.\<close>

lemma lookup_reads:
  assumes "chain_lookup cd client width a since w = (Inr (Some found), w')" and "\<nexists>c. an_answer found = Entry_closure c"
  shows "fst (readReceipt cd client a w) = Inr (Some (an_answer found))"
proof -
  obtain r w1 where read: "readReceipt cd client a w = (r, w1)" by fastforce
  show ?thesis
  proof (cases r)
    case (Inl e)
    with read assms(1) show ?thesis by (simp add: chain_lookup_def)
  next
    case (Inr answer)
    show ?thesis
    proof (cases answer)
      case None
      have "lookup_closure cd client width a since w1 = (Inr (Some found), w')"
        using assms(1) read Inr None by (simp add: chain_lookup_def)
      then have "\<exists>c. an_answer found = Entry_closure c"
        by (auto simp: lookup_closure_def found_in_def bind_w_def return_w_def Let_def split: attestation.splits option.splits prod.splits sum.splits)
      with assms(2) show ?thesis by blast
    next
      case (Some entry)
      then show ?thesis
        using assms(1) read Inr
        by (auto simp: chain_lookup_def found_in_def bind_w_def [of "firstLog _ _ _ _"] return_w_def split: option.splits prod.splits sum.splits)
    qed
  qed
qed

text \<open>
  C7. A recorded reply can be checked against the contract. What the bridge replies from a lookup that found a
  receipt passes the offline check: while the contract keeps the receipt, the check reads the same receipt from the
  contract the reply names and finds no field that differs.
\<close>

theorem recorded_reply_verifies:
  assumes "chain_lookup cd (client (dp_contract dp)) width (br_attestation p) since w = (Inr (Some found), w')"
    and "recordedReply dp p found = Inr r" and "\<nexists>c. an_answer found = Entry_closure c"
    and "\<And>u v. fst (readReceipt cd (client (dp_contract dp)) (br_attestation p) u)
           = fst (readReceipt cd (client (dp_contract dp)) (br_attestation p) v)"
    and "\<And>v. \<exists>v'. cc_chainId (client (dp_contract dp)) v = (Inr (dp_chainId dp), v')"
    and "va_rpcUrl args = Some ''rpc''"
  shows "\<exists>view. answerView (an_answer found) = Inr view
    \<and> fst (verifyReply cd recover client don_signers args (reply_json r) u) = Inr (Matches_contract view)"
proof -
  obtain view where view: "answerView (an_answer found) = Inr view"
    using assms(2) by (cases "answerView (an_answer found)") (simp_all add: recordedReply_def)
  obtain chain claim where r: "r = Reply_recorded (requestView (br_attestation p)) view chain claim"
      "cv_chain_id chain = dp_chainId dp" "cv_contract chain = dp_contract dp"
    using assms(2) view by (simp add: recordedReply_def) (metis chain_view.select_convs(1,2))
  have asked: "asked_attestation (reply_json r) = br_attestation p"
    by (rule asked_request_json) (simp add: r recorded_json)
  obtain v1 where chain: "cc_chainId (client (dp_contract dp)) u = (Inr (dp_chainId dp), v1)" using assms(5) by blast
  have "fst (readReceipt cd (client (dp_contract dp)) (br_attestation p) v1) = Inr (Some (an_answer found))"
    using lookup_reads [OF assms(1,3)] assms(4) by metis
  then obtain v2 where read: "readReceipt cd (client (dp_contract dp)) (br_attestation p) v1 = (Inr (Some (an_answer found)), v2)"
    by (metis fst_conv surj_pair)
  have "given (Some ''rpc'') = Some ''rpc''" by (simp add: given_def)
  moreover have "string_of (Some (JStr (dp_contract dp))) = dp_contract dp" by (simp add: string_of_def)
  moreover have "differing view (Some (JObj view)) = []" by (rule differing_same [OF answer_view_keys [OF view]])
  ultimately have "verify_recorded cd client args (reply_json r) u = (Inr (Matches_contract view), v2)"
    using asked chain read view unfolding verify_recorded_def assms(6) r(1) recorded_json
    by (simp add: r(2,3) return_w_def Let_def)
  moreover have "verifyReply cd recover client don_signers args (reply_json r) u = verify_recorded cd client args (reply_json r) u"
    by (simp add: verifyReply_def r(1) recorded_json)
  ultimately show ?thesis using view by simp
qed

text \<open>
  A closure is answered from a log, and the offline check reads receipts only: the reply that a publication ran as a
  standard transfer is refused by the check.
\<close>

lemma closure_reply_not_verified:
  assumes "recordedReply dp p found = Inr r" and "va_rpcUrl args = Some ''rpc''"
    and "cc_chainId (client (dp_contract dp)) u = (Inr (dp_chainId dp), v1)"
    and "readReceipt cd (client (dp_contract dp)) (br_attestation p) v1 = (Inr None, v2)"
  shows "verifyReply cd recover client don_signers args (reply_json r) u
    = (Inl ''the contract holds no receipt for the request'', v2)"
proof -
  obtain view where view: "answerView (an_answer found) = Inr view"
    using assms(1) by (cases "answerView (an_answer found)") (simp_all add: recordedReply_def)
  obtain chain claim where r: "r = Reply_recorded (requestView (br_attestation p)) view chain claim"
      "cv_chain_id chain = dp_chainId dp" "cv_contract chain = dp_contract dp"
    using assms(1) view by (simp add: recordedReply_def) (metis chain_view.select_convs(1,2))
  have asked: "asked_attestation (reply_json r) = br_attestation p"
    by (rule asked_request_json) (simp add: r recorded_json)
  have "given (Some ''rpc'') = Some ''rpc''" by (simp add: given_def)
  moreover have "string_of (Some (JStr (dp_contract dp))) = dp_contract dp" by (simp add: string_of_def)
  ultimately have "verify_recorded cd client args (reply_json r) u = (Inl ''the contract holds no receipt for the request'', v2)"
    using asked assms(3,4) unfolding verify_recorded_def assms(2) r(1) recorded_json
    by (simp add: r(2,3) throw_w_def Let_def)
  then show ?thesis by (simp add: verifyReply_def r(1) recorded_json)
qed

subsection \<open>A run with a signed report\<close>

definition demo_decoded :: decoded_report where
  "demo_decoded =
     \<lparr>dr_standard = [\<lparr>se_transferId = ''0x0e4c57f87e67585295f5418bba42563d'', se_requestId = ''0x0'', se_status = 1,
        se_totalBytes = 10, se_bytesTransferred = 10, se_completedAtMs = 7, se_planFingerprint = ''0x0'',
        se_coordinateChecksum = ''0x0'', se_level = 0\<rparr>], dr_rooms = [], dr_closures = [], dr_jobs = []\<rparr>"

definition demo_codec :: codec where
  "demo_codec = json_codec\<lparr>cd_decodeReport := (\<lambda>_. Some (REPORT_VERSION, demo_decoded))\<rparr>"

definition demo_signed_report :: signed_report where
  "demo_signed_report = \<lparr>sg_rawReport = replicate 109 0, sg_context = [0], sg_signatures = [replicate 65 0]\<rparr>"

definition demo_header :: report_header where
  "demo_header =
     \<lparr>rh_version = 0, rh_executionId = replicate 64 (CHR ''0''), rh_timestamp = 0, rh_donId = 0, rh_donConfigVersion = 0,
      rh_workflowId = replicate 64 (CHR ''0''), rh_workflowName = replicate 20 (CHR ''0''),
      rh_workflowOwner = replicate 40 (CHR ''0''), rh_reportId = replicate 4 (CHR ''0'')\<rparr>"

lemma zero_hex: "bytesToHex (replicate n 0) = replicate (2 * n) (CHR ''0'')"
proof (induction n)
  case (Suc n)
  have "hex_byte 0 = [CHR ''0'', CHR ''0'']" by code_simp
  with Suc show ?case by (simp add: bytesToHex_def)
qed (simp add: bytesToHex_def)

lemma zero_value: "be_value (replicate n 0) = 0"
proof -
  have "foldl (\<lambda>v b. 256 * v + uint b) 0 (replicate n (0 :: 8 word)) = 0" by (induction n) simp_all
  then show ?thesis by (simp add: be_value_def)
qed

lemma demo_header_read: "parseHeader (replicate 109 0) = Inr demo_header"
  by (simp add: parseHeader_def REPORT_HEADER_BYTES_def subarray_def zero_hex zero_value demo_header_def)

definition demo_chk :: report_check where
  "demo_chk =
     \<lparr>rc_signed = demo_signed_report, rc_digest = cd_keccak256 demo_codec (toHex (replicate 109 0)), rc_header = demo_header,
      rc_decoded = demo_decoded\<rparr>"

abbreviation demo_cre :: bridge_env where
  "demo_cre \<equiv> demo_env (From_cre demo_answers) demo_codec"

definition demo_body :: string where
  "demo_body = stringify (submission_json (reportSubmission (replicate 109 0) [0] [replicate 65 0]))"

lemma demo_report_begins:
  "result_start demo_codec (be_config demo_cre) demo_body (sy_bridge demo_asked) = Inr demo_chk"
proof -
  have read: "parse_json (text_decode demo_body) = Some (submission_json (reportSubmission (replicate 109 0) [0] [replicate 65 0]))"
    using parseBody_object unfolding parseBody_def demo_body_def submission_json_def by blast
  have "parseSubmission (submission_json (reportSubmission (replicate 109 0) [0] [replicate 65 0])) = Some demo_signed_report"
    unfolding demo_signed_report_def by (rule parse_submission_of) simp
  then show ?thesis
    by (simp add: result_start_def demo_env_def read demo_signed_report_def demo_header_read decodeReport_def demo_codec_def
        demo_chk_def demo_asked_def demo_answers_def demo_header_def Let_def)
qed

definition demo_view :: answer_view where
  "demo_view =
     [(''kind'', JStr ''transfer''), (''transfer_id'', JStr demo_uuid), (''status'', JStr ''completed''),
      (''total_bytes'', JStr ''10''), (''bytes_transferred'', JStr ''10''), (''completed_at_ms'', JStr ''7''),
      (''plan_fingerprint'', JStr ''0x0''), (''coordinate_checksum'', JStr ''0x0''), (''level'', JNum 0),
      (''level_names'', JArr [])]"

definition demo_signers :: signer_set where
  "demo_signers = \<lparr>ss_f = 0, ss_signers = [''0x03'', ''0x04'']\<rparr>"

definition demo_attested :: bridge_reply where
  "demo_attested = attested_reply demo_chk (Some demo_signers) [''0x03''] demo_ask demo_view"

text \<open>A bound on the text of a JSON value: a character is at most six.\<close>

fun json_bound :: "json \<Rightarrow> nat" where
  "json_bound JNull = 4"
| "json_bound (JBool b) = 5"
| "json_bound (JNum n) = length (show_int n)"
| "json_bound (JStr s) = 6 * length s + 2"
| "json_bound (JArr js) = sum_list (map (\<lambda>j. json_bound j + 1) js) + 2"
| "json_bound (JObj kvs) = sum_list (map (\<lambda>(k, j). 6 * length k + json_bound j + 4) kvs) + 2"

lemma length_quote_bound: "length (quote s) \<le> 6 * length s + 2"
proof -
  have "length (escape_char c) \<le> 6" for c by (simp add: escape_char_def Let_def)
  then have "length (concat (map escape_char s)) \<le> 6 * length s"
    by (induction s) (simp_all, smt (verit) add_mono)
  then show ?thesis by (simp add: quote_def)
qed

lemma length_stringify_bound: "length (stringify j) \<le> json_bound j"
proof (induction j)
  case (JArr js)
  have "length (join_with '','' (map stringify js)) \<le> sum_list (map (\<lambda>j. json_bound j + 1) js)"
    using JArr
  proof (induction js rule: induct_list012)
    case (3 x y zs)
    then have "length (stringify x) \<le> json_bound x" by simp
    with 3 show ?case by force
  qed auto
  then show ?case by simp
next
  case (JObj kvs)
  have "length (join_with '','' (map (\<lambda>(k, v). quote k @ '':'' @ stringify v) kvs))
      \<le> sum_list (map (\<lambda>(k, j). 6 * length k + json_bound j + 4) kvs)"
    using JObj
  proof (induction kvs rule: induct_list012)
    case (2 kv)
    then show ?case using length_quote_bound [of "fst kv"] by (cases kv) force
  next
    case (3 kv kv' kvs)
    then show ?case using length_quote_bound [of "fst kv"] by (cases kv) force
  qed simp
  then show ?case by simp
qed (use length_quote_bound in simp_all)

lemma utf16_length_bound: "utf16_length s \<le> 2 * int (length s)"
  by (induction s) (auto simp: utf16_length_def Let_def)

lemma demo_attested_fits: "utf16_length (stringify (reply_json demo_attested)) \<le> MAX_REPLY_BYTES"
proof -
  have json: "reply_json demo_attested =
      JObj [(''type'', JStr CRE_REPLY), (''outcome'', JStr ''attested''),
        (''request'', JObj [(''op'', JStr ''attest_transfer''), (''transfer_id'', JStr demo_uuid)]), (''answer'', JObj demo_view),
        (''signatures'', JObj [(''verified'', JBool True), (''source'', JStr ''registry''), (''f'', JNum 0),
           (''signers'', JArr [JStr ''0x03''])]),
        (''workflow'', JObj [(''id'', JStr (replicate 64 (CHR ''0''))), (''owner'', JStr (''0x'' @ replicate 40 (CHR ''0''))),
           (''name'', JStr (replicate 20 (CHR ''0''))), (''execution_id'', JStr (replicate 64 (CHR ''0''))), (''don_id'', JNum 0),
           (''timestamp'', JNum 0)]),
        (''report'', JObj [(''report'', JStr (replicate 218 (CHR ''0''))), (''context'', JStr (replicate 2 (CHR ''0''))),
           (''signatures'', JArr [JStr (replicate 130 (CHR ''0''))])]),
        (''claim'', JStr ATTESTATION_CLAIM)]"
    using zero_hex [of 1]
    by (simp add: demo_attested_def attested_reply_def reply_json_def demo_signers_def demo_chk_def demo_header_def demo_signed_report_def
        reportSubmission_def submission_json_def zero_hex demo_ask_def requestView_def request_json_def nullable_def)
  have "json_bound (reply_json demo_attested) \<le> 20000"
  proof -
    have zero: "show_nat 0 = ''0''" by code_simp
    show ?thesis unfolding json by (simp add: demo_view_def demo_uuid_def ATTESTATION_CLAIM_def CRE_REPLY_def show_int_def zero)
  qed
  then show ?thesis
    using length_stringify_bound [of "reply_json demo_attested"] utf16_length_bound [of "stringify (reply_json demo_attested)"]
    by (simp add: MAX_REPLY_BYTES_def)
qed

lemma demo_accepted:
  "accept_report demo_codec demo_recover demo_signed_report (Inr (Some demo_signers)) (Inl []) = Inr (Some demo_signers, [''0x03''])"
proof -
  have lower: "to_lower ''0x03'' = ''0x03''" by code_simp
  have "verifyReportSignatures keccak demo_recover demo_signed_report demo_signers = Inr [''0x03'']" for keccak
    by (simp add: verifyReportSignatures_def demo_signed_report_def demo_signers_def accept_step signer_of_def demo_recover_def lower
        del: to_lower_Cons)
  then show ?thesis by (simp add: accept_report_def)
qed

lemma demo_report_ends:
  "\<exists>response. result_finish demo_codec (be_config demo_cre) demo_chk (Some demo_signers) [''0x03''] 20 (sy_bridge demo_asked)
     = (response, (sy_bridge demo_asked)\<lparr>bs_requests := [(''p1'', answered_with demo_attested 20 demo_ask)],
         bs_reports := [rc_digest demo_chk]\<rparr>)"
proof -
  have uuid: "transferIdToBytes16 demo_uuid = Inr ''0x0e4c57f87e67585295f5418bba42563d''"
      "bytes16ToTransferId ''0x0e4c57f87e67585295f5418bba42563d'' = Inr demo_uuid"
      "to_lower ''0x0e4c57f87e67585295f5418bba42563d'' = ''0x0e4c57f87e67585295f5418bba42563d''"
      "status_name 1 = ''completed''" "show_int 10 = ''10''" "show_int 7 = ''7''" by code_simp+
  have levels: "level_json 0 = JArr []" by (simp add: level_json_def levelNames_def)
  have "answerFor demo_codec (br_attestation demo_ask) (rc_decoded demo_chk) = Inr (Some (Entry_standard (hd (dr_standard demo_decoded))))"
    by (simp add: answerFor_def demo_ask_def uuid demo_chk_def demo_decoded_def del: to_lower_Cons)
  moreover have "answerView (Entry_standard (hd (dr_standard demo_decoded))) = Inr demo_view"
    by (simp add: answerView_def demo_decoded_def uuid demo_view_def levels)
  ultimately have "reply_for demo_codec ty demo_chk (Some demo_signers) [''0x03''] demo_ask = Inr (Some demo_attested)" for ty
    using demo_attested_fits by (simp add: reply_for_def demo_attested_def [symmetric] Let_def) (simp add: demo_ask_def)
  then show ?thesis
    by (simp add: result_finish_def demo_asked_def MAX_REMEMBERED_REPORTS_def)
qed

definition demo_answered :: bridge_sys where
  "demo_answered = demo_asked\<lparr>sy_clock := 20, sy_bridge := (sy_bridge demo_asked)\<lparr>bs_requests :=
     [(''p1'', answered_with demo_attested 20 demo_ask)], bs_reports := [rc_digest demo_chk]\<rparr>\<rparr>"

lemma demo_answered_reach: "bridge_reach demo_cre demo_answered"
proof -
  obtain response where finish: "result_finish (be_codec demo_cre) (be_config demo_cre) demo_chk (Some demo_signers) [''0x03''] 20
      (sy_bridge (demo_asked\<lparr>sy_checks := [demo_chk]\<rparr>))
    = (response, (sy_bridge demo_asked)\<lparr>bs_requests := [(''p1'', answered_with demo_attested 20 demo_ask)], bs_reports := [rc_digest demo_chk]\<rparr>)"
    using demo_report_ends by (auto simp: demo_env_def)
  have codec: "be_codec demo_cre = demo_codec" "be_recover demo_cre = demo_recover" by (simp_all add: demo_env_def)
  have one: "bridge_step demo_cre demo_asked (demo_asked\<lparr>sy_checks := demo_chk # sy_checks demo_asked\<rparr>)"
    by (rule bridge_step.report_begins [where body = demo_body]) (simp only: codec demo_report_begins)
  then have one': "bridge_step demo_cre demo_asked (demo_asked\<lparr>sy_checks := [demo_chk]\<rparr>)" by (simp add: demo_asked_def)
  have two: "bridge_step demo_cre (demo_asked\<lparr>sy_checks := [demo_chk]\<rparr>)
     ((demo_asked\<lparr>sy_checks := [demo_chk]\<rparr>)\<lparr>sy_clock := 20, sy_bridge := (sy_bridge demo_asked)\<lparr>bs_requests :=
        [(''p1'', answered_with demo_attested 20 demo_ask)], bs_reports := [rc_digest demo_chk]\<rparr>,
        sy_checks := remove1 demo_chk (sy_checks (demo_asked\<lparr>sy_checks := [demo_chk]\<rparr>))\<rparr>)"
    by (rule bridge_step.report_ends [OF _ _ _ _ finish, where first = "Inr (Some demo_signers)" and again = "Inl []"])
      (simp_all add: codec demo_chk_def demo_accepted demo_env_def demo_signers_def [symmetric] demo_accepted [unfolded demo_signers_def])
  then have "bridge_step demo_cre (demo_asked\<lparr>sy_checks := [demo_chk]\<rparr>) demo_answered"
    by (simp add: demo_answered_def demo_asked_def)
  with one' show ?thesis by (blast intro: bridge_reach.more demo_asked_reach)
qed


theorem attested_reply_verifies_witness:
  "\<exists>view answer sigs wflow report claim entry f.
     demo_attested = Reply_attested view answer sigs wflow report claim
     \<and> fst (verifyReply demo_codec demo_recover (\<lambda>_. demo_client []) (\<lambda>_. return_w demo_signers)
          \<lparr>va_rpcUrl = Some ''rpc'', va_workflowId = Some (ca_workflowId demo_answers), va_owner = Some (ca_workflowOwner demo_answers),
           va_skipSignatures = False\<rparr> (reply_json demo_attested) ())
       = Inr (Signed_by [''0x03''] f entry)"
proof -
  obtain view answer sigs wflow report claim where reply: "demo_attested = Reply_attested view answer sigs wflow report claim"
      "gv_verified sigs" "gv_signers sigs = [''0x03'']"
    by (simp add: demo_attested_def attested_reply_def)
  have codec: "be_codec demo_cre = demo_codec" "be_recover demo_cre = demo_recover" "bc_answers (be_config demo_cre) = From_cre demo_answers"
    by (simp_all add: demo_env_def)
  have p: "map_of (bs_requests (sy_bridge demo_answered)) ''p1'' = Some (answered_with demo_attested 20 demo_ask)"
    by (simp add: demo_answered_def)
  have r: "br_reply (answered_with demo_attested 20 demo_ask) = Some (Reply_attested view answer sigs wflow report claim)"
    by (simp add: answered_with_def reply(1))
  have set: "ca_workflowId demo_answers \<noteq> []" by (simp add: demo_answers_def)
  have "\<exists>entry f. answerView entry = Inr answer
    \<and> fst (verifyReply (be_codec demo_cre) (be_recover demo_cre) (\<lambda>_. demo_client []) (\<lambda>_. return_w demo_signers)
        \<lparr>va_rpcUrl = Some ''rpc'', va_workflowId = Some (ca_workflowId demo_answers), va_owner = Some (ca_workflowOwner demo_answers),
         va_skipSignatures = (\<not> gv_verified sigs)\<rparr>
        (reply_json (Reply_attested view answer sigs wflow report claim)) ())
      = Inr (if gv_verified sigs then Signed_by (gv_signers sigs) f entry else Not_checked entry)"
  proof (rule attested_reply_verifies [OF demo_answered_reach p r codec(3) set _ refl])
    fix don S and v :: unit
    assume "be_registry demo_cre don S"
    then show "\<exists>v'. return_w demo_signers v = (Inr S, v')"
      by (simp add: demo_env_def demo_signers_def return_w_def)
  qed
  then obtain entry f where "fst (verifyReply demo_codec demo_recover (\<lambda>_. demo_client []) (\<lambda>_. return_w demo_signers)
          \<lparr>va_rpcUrl = Some ''rpc'', va_workflowId = Some (ca_workflowId demo_answers), va_owner = Some (ca_workflowOwner demo_answers),
           va_skipSignatures = False\<rparr> (reply_json demo_attested) ())
       = Inr (Signed_by [''0x03''] f entry)"
    unfolding codec using reply by auto
  with reply(1) show ?thesis by blast
qed

theorem recorded_reply_verifies_witness:
  "\<exists>found r view. recordedReply (be_deployment demo_cre) demo_ask found = Inr r
     \<and> fst (verifyReply json_codec demo_recover (\<lambda>_. demo_client []) (\<lambda>_. return_w demo_signers)
          \<lparr>va_rpcUrl = Some ''rpc'', va_workflowId = None, va_owner = None, va_skipSignatures = False\<rparr> (reply_json r) ())
       = Inr (Matches_contract view)"
proof -
  have uuid: "transferIdToBytes16 demo_uuid = Inr ''0x0e4c57f87e67585295f5418bba42563d''"
      "bytes16ToTransferId ''0x0e4c57f87e67585295f5418bba42563d'' = Inr demo_uuid" by code_simp+
  let ?entry = "Entry_standard \<lparr>se_transferId = ''0x0e4c57f87e67585295f5418bba42563d'', se_requestId = ''0x0'', se_status = 1,
    se_totalBytes = 10, se_bytesTransferred = 10, se_completedAtMs = 7, se_planFingerprint = ''0x0'',
    se_coordinateChecksum = ''0x0'', se_level = 1\<rparr>"
  have read: "readReceipt json_codec (demo_client []) (br_attestation demo_ask) u = (Inr (Some ?entry), ())" for u
    by (simp add: readReceipt_def demo_ask_def uuid demo_client_def return_w_def bind_w_def)
  then have found: "chain_lookup json_codec (demo_client []) 5 (br_attestation demo_ask) None () = (Inr (Some (found_in ?entry None)), ())"
    by (simp add: chain_lookup_def return_w_def)
  obtain r where r: "recordedReply (be_deployment demo_cre) demo_ask (found_in ?entry None) = Inr r"
    by (simp add: recordedReply_def found_in_def answerView_def uuid)
  let ?args = "\<lparr>va_rpcUrl = Some ''rpc'', va_workflowId = None, va_owner = None, va_skipSignatures = False\<rparr>"
  have "\<exists>view. answerView (an_answer (found_in ?entry None)) = Inr view
      \<and> fst (verifyReply json_codec demo_recover (\<lambda>_. demo_client []) (\<lambda>_. return_w demo_signers) ?args (reply_json r) ()) = Inr (Matches_contract view)"
    by (rule recorded_reply_verifies [OF found r])
      (simp_all add: found_in_def read demo_client_def demo_env_def return_w_def)
  with r show ?thesis by blast
qed

end
