(* ===== verification/SdkPlan.thy ===== *)
theory SdkPlan
  imports WebPlatform Json
begin

text \<open>
  The plan of a transfer as the TypeScript SDK reads it (\<open>sdks/typescript/src/client.ts\<close>, \<open>multipart-limits.ts\<close>): what
  BeamCore sends is a compact descriptor, and the SDK computes every chunk, part number and delivery index from it.
  The numbers of a descriptor are whole; its identifiers are not names of members of \<open>Object.prototype\<close>.
\<close>

subsection \<open>Limits of a multipart upload\<close>

definition MULTIPART_MAX_PART_NUMBER :: int where "MULTIPART_MAX_PART_NUMBER = 10000"
definition MULTIPART_ATTEMPT_SLOT_COUNT :: int where "MULTIPART_ATTEMPT_SLOT_COUNT = 1"
definition MULTIPART_MAX_SOURCE_CHUNKS :: int where
  "MULTIPART_MAX_SOURCE_CHUNKS = MULTIPART_MAX_PART_NUMBER div MULTIPART_ATTEMPT_SLOT_COUNT"

lemma max_source_chunks: "MULTIPART_MAX_SOURCE_CHUNKS = 10000"
  by (simp add: MULTIPART_MAX_SOURCE_CHUNKS_def MULTIPART_MAX_PART_NUMBER_def MULTIPART_ATTEMPT_SLOT_COUNT_def)

definition multipartPartNumber :: "int \<Rightarrow> int \<Rightarrow> string + int" where
  "multipartPartNumber chunkIndex attemptSlot =
     (if chunkIndex < 0 then Inl ''source_chunk_index must be a non-negative integer''
      else if chunkIndex \<ge> MULTIPART_MAX_SOURCE_CHUNKS then
        Inl (''source_chunk_index must be less than '' @ show_int MULTIPART_MAX_SOURCE_CHUNKS)
      else if attemptSlot < 0 \<or> attemptSlot \<ge> MULTIPART_ATTEMPT_SLOT_COUNT then
        Inl ''attempt_slot must be 0 for consecutive multipart uploads''
      else Inr (chunkIndex + 1))"

definition positiveInteger :: "int \<Rightarrow> string \<Rightarrow> string + int" where
  "positiveInteger value label = (if value < 1 then Inl (label @ '' must be a positive integer.'') else Inr value)"

definition multipartMaxPartNumber :: "int \<Rightarrow> string + int" where
  "multipartMaxPartNumber chunkCount =
     (case positiveInteger chunkCount ''source chunk_count'' of
        Inl e \<Rightarrow> Inl e | Inr n \<Rightarrow> multipartPartNumber (n - 1) 0)"

text \<open>\<open>for (let marker = 0; marker < maxPartNumber; marker += 1_000)\<close>.\<close>

function list_markers :: "int \<Rightarrow> int \<Rightarrow> int list" where
  "list_markers marker maxPartNumber =
     (if marker < maxPartNumber then marker # list_markers (marker + 1000) maxPartNumber else [])"
  by auto
termination by (relation "measure (\<lambda>(marker, m). nat (m - marker))") auto

declare list_markers.simps [simp del]

definition multipartListPageMarkers :: "int \<Rightarrow> int list" where
  "multipartListPageMarkers maxPartNumber = list_markers 0 maxPartNumber"

definition multipartListPageIndex :: "int \<Rightarrow> int" where
  "multipartListPageIndex partNumber = (partNumber - 1) div 1000"

lemma list_markers_eq: "list_markers a m = map (\<lambda>i. a + 1000 * int i) [0..<nat ((m - a + 999) div 1000)]"
proof (induction a m rule: list_markers.induct)
  case (1 a m)
  show ?case
  proof (cases "a < m")
    case True
    define k where "k = nat ((m - a + 999) div 1000)"
    have k: "k = Suc (nat ((m - (a + 1000) + 999) div 1000))" using True by (simp add: k_def)
    have shift: "[0..<k] = 0 # map Suc [0..<nat ((m - (a + 1000) + 999) div 1000)]"
      unfolding k by (simp add: upt_conv_Cons map_Suc_upt del: upt_Suc)
    show ?thesis
      using "1.IH" [OF True] True unfolding k_def [symmetric] shift
      by (simp add: list_markers.simps [of a m] comp_def algebra_simps)
  next
    case False
    then show ?thesis by (simp add: list_markers.simps [of a m])
  qed
qed

lemma list_pages:
  "multipartListPageMarkers m = map (\<lambda>i. 1000 * int i) [0..<nat ((m + 999) div 1000)]"
  by (simp add: multipartListPageMarkers_def list_markers_eq)

subsection \<open>The descriptor\<close>

record plan_source =
  ps_source_id :: string
  ps_url :: string
  ps_size :: int
  ps_metadata :: "(string \<times> json) list option"
  ps_global_chunk_start :: int
  ps_chunk_count :: int

record plan_destination =
  pd_destination_id :: string
  pd_provider :: string
  pd_metadata :: "(string \<times> json) list option"
  pd_destination_index :: int
  pd_final_object_keys :: "(string \<times> string) list"

record plan_descriptor =
  pl_plan_nonce :: string
  pl_chunk_size :: int
  pl_sources :: "plan_source list"
  pl_destinations :: "plan_destination list"
  pl_logical_chunk_count :: int
  pl_delivery_route_count :: int

definition COMPACT_TRANSFER_PLAN_KEYS :: "string list" where
  "COMPACT_TRANSFER_PLAN_KEYS =
     [''version'', ''plan_nonce'', ''chunk_size'', ''sources'', ''destinations'', ''logical_chunk_count'',
      ''delivery_route_count'', ''multipart_attempt_slots'', ''formulas'']"

definition COMPACT_TRANSFER_PLAN_FORMULAS :: "(string \<times> string) list" where
  "COMPACT_TRANSFER_PLAN_FORMULAS =
     [(''source_offset'', ''source_chunk_index * chunk_size''),
      (''delivery_index'', ''chunk_index * destination_count + destination_index''),
      (''part_number'', ''source_chunk_index + 1''),
      (''route_generation_id'', ''initial-{chunk_index}-{destination_id}'')]"

text \<open>\<open>Object.keys\<close> of a decoded object, whose keys are distinct.\<close>

fun object_keys :: "json \<Rightarrow> string list" where
  "object_keys (JObj kvs) = map fst kvs"
| "object_keys _ = []"

text \<open>The check of a descriptor as it came over the wire.\<close>

definition validateCompactTransferPlan :: "json \<Rightarrow> string option \<Rightarrow> string + unit" where
  "validateCompactTransferPlan descriptor signedUrlFlow =
     (let keys = object_keys descriptor; formulas = (case jget descriptor ''formulas'' of None \<Rightarrow> JNull | Some f \<Rightarrow> f) in
      if signedUrlFlow \<noteq> Some ''signed_url'' then
        Inl (''BeamCore returned unsupported signed_url_flow: '' @ coalesce signedUrlFlow ''undefined'')
      else if length keys \<noteq> length COMPACT_TRANSFER_PLAN_KEYS \<or> list_ex (\<lambda>k. \<not> List.member COMPACT_TRANSFER_PLAN_KEYS k) keys then
        Inl ''BeamCore returned invalid compact transfer plan fields''
      else if jget descriptor ''version'' \<noteq> Some (JStr ''compact-transfer-plan/v1'') then
        Inl (''BeamCore returned unsupported plan version: ''
          @ (case jget descriptor ''version'' of None \<Rightarrow> ''undefined'' | Some v \<Rightarrow> js_string v))
      else if jget descriptor ''multipart_attempt_slots'' \<noteq> Some (JNum 1) then
        Inl ''BeamCore returned unsupported multipart attempt slot count''
      else if length (object_keys formulas) \<noteq> length COMPACT_TRANSFER_PLAN_FORMULAS
          \<or> list_ex (\<lambda>(key, value). jget formulas key \<noteq> Some (JStr value)) COMPACT_TRANSFER_PLAN_FORMULAS then
        Inl ''BeamCore returned unsupported compact transfer plan formulas''
      else Inr ())"

subsection \<open>Chunks\<close>

record signing_target =
  tg_destination_id :: string
  tg_provider :: string
  tg_object_key :: string
  tg_metadata :: "(string \<times> json) list"

record chunk_item =
  ch_chunk_index :: int
  ch_source_id :: string
  ch_source_chunk_index :: int
  ch_source_offset :: int
  ch_chunk_size :: int
  ch_source_url :: string
  ch_destinations :: "signing_target list"

text \<open>Setting the properties of an object literal after a spread, in order.\<close>

fun obj_put :: "(string \<times> json) list \<Rightarrow> (string \<times> json) list \<Rightarrow> (string \<times> json) list" where
  "obj_put base [] = base"
| "obj_put base ((k, v) # rest) = obj_put (amap_set k v base) rest"

text \<open>\<open>final_object_keys[id]\<close>, which an empty string does not satisfy.\<close>

definition final_key :: "plan_destination \<Rightarrow> string \<Rightarrow> string option" where
  "final_key destination sourceId = truthy (map_of (pd_final_object_keys destination) sourceId)"

definition delivery_index_of :: "plan_descriptor \<Rightarrow> int \<Rightarrow> plan_destination \<Rightarrow> int" where
  "delivery_index_of d chunkIndex destination = chunkIndex * int (length (pl_destinations d)) + pd_destination_index destination"

definition plan_target :: "plan_descriptor \<Rightarrow> string \<Rightarrow> int \<Rightarrow> int \<Rightarrow> plan_destination \<Rightarrow> string + signing_target" where
  "plan_target d sourceId chunkIndex sourceChunkIndex destination =
     (case final_key destination sourceId of
        None \<Rightarrow> Inl (''plan final object key not found: '' @ sourceId @ '':'' @ pd_destination_id destination)
      | Some finalObjectKey \<Rightarrow>
          (case multipartPartNumber sourceChunkIndex 0 of
             Inl e \<Rightarrow> Inl e
           | Inr partNumber \<Rightarrow>
               Inr \<lparr>tg_destination_id = pd_destination_id destination, tg_provider = pd_provider destination,
                 tg_object_key =
                   (if to_lower (pd_provider destination) = ''hippius'' then
                      finalObjectKey @ ''/'' @ pl_plan_nonce d @ ''/chunk-'' @ pad_start 6 (CHR ''0'') (show_int sourceChunkIndex)
                    else finalObjectKey),
                 tg_metadata = obj_put (coalesce (pd_metadata destination) [])
                   [(''final_object_key'', JStr finalObjectKey), (''part_number'', JNum partNumber),
                    (''logical_attempt_index'', JNum 0), (''attempt_slot'', JNum 0),
                    (''route_generation_id'', JStr (''initial-'' @ show_int chunkIndex @ ''-'' @ pd_destination_id destination)),
                    (''delivery_index'', JNum (delivery_index_of d chunkIndex destination))]\<rparr>))"

text \<open>\<open>array.map\<close> with a function that may throw.\<close>

fun map_result :: "('a \<Rightarrow> string + 'b) \<Rightarrow> 'a list \<Rightarrow> string + 'b list" where
  "map_result f [] = Inr []"
| "map_result f (x # xs) =
     (case f x of Inl e \<Rightarrow> Inl e
      | Inr y \<Rightarrow> (case map_result f xs of Inl e \<Rightarrow> Inl e | Inr ys \<Rightarrow> Inr (y # ys)))"

definition materializePlanChunk :: "plan_descriptor \<Rightarrow> string \<Rightarrow> int \<Rightarrow> string + chunk_item" where
  "materializePlanChunk d sourceId chunkIndex =
     (case find (\<lambda>s. ps_source_id s = sourceId) (pl_sources d) of
        None \<Rightarrow> Inl (''plan source not found: '' @ sourceId)
      | Some source \<Rightarrow>
          (let i = chunkIndex - ps_global_chunk_start source; offset = i * pl_chunk_size d in
           if i < 0 \<or> i \<ge> ps_chunk_count source then
             Inl (''plan chunk is outside source range: '' @ sourceId @ '':'' @ show_int chunkIndex)
           else
             (case map_result (plan_target d sourceId chunkIndex i) (pl_destinations d) of
                Inl e \<Rightarrow> Inl e
              | Inr targets \<Rightarrow>
                  Inr \<lparr>ch_chunk_index = chunkIndex, ch_source_id = sourceId, ch_source_chunk_index = i,
                    ch_source_offset = offset, ch_chunk_size = min (pl_chunk_size d) (ps_size source - offset),
                    ch_source_url = ps_url source, ch_destinations = targets\<rparr>)))"

text \<open>What the generator yields, in order; a consumer stops at the first exception.\<close>

definition source_chunks :: "plan_descriptor \<Rightarrow> plan_source \<Rightarrow> (string + chunk_item) list" where
  "source_chunks d source =
     map (\<lambda>i. materializePlanChunk d (ps_source_id source) (ps_global_chunk_start source + int i)) [0..<nat (ps_chunk_count source)]"

definition materializePlanChunks :: "plan_descriptor \<Rightarrow> (string + chunk_item) list" where
  "materializePlanChunks d = concat (map (source_chunks d) (pl_sources d))"

definition plannedSourcePin :: "plan_descriptor \<Rightarrow> string \<Rightarrow> string option \<times> string option" where
  "plannedSourcePin d sourceId =
     (let metadata = (case find (\<lambda>s. ps_source_id s = sourceId) (pl_sources d) of
                        None \<Rightarrow> [] | Some s \<Rightarrow> coalesce (ps_metadata s) []);
          text_of = (\<lambda>k. as_str (map_of metadata k)) in
      (text_of ''etag'', text_of ''version_id''))"


subsection \<open>Plans that are whole\<close>

text \<open>
  The plans the properties below speak of. \<open>models.ts\<close> documents the formulas for offsets, delivery indices and part numbers;
  that BeamCore fills a descriptor so that they come out right is an assumption on BeamCore: a positive \<open>chunk_size\<close>; source ids that
  differ; sources of a positive size, each with as many chunks as its size fills, at most the allowed number, numbered after the
  chunks of the sources before it; destinations whose \<open>destination_index\<close> is their place, each with a final key for every source;
  and the two declared counts. \<open>validateCompactTransferPlan\<close> checks none of it: it looks at the keys of the descriptor, its version,
  its attempt slots and the texts of the formulas.
\<close>

definition chunks_of :: "plan_descriptor \<Rightarrow> plan_source \<Rightarrow> int" where
  "chunks_of d source = (ps_size source + pl_chunk_size d - 1) div pl_chunk_size d"

fun numbered :: "plan_descriptor \<Rightarrow> int \<Rightarrow> plan_source list \<Rightarrow> bool" where
  "numbered d start [] = True"
| "numbered d start (s # ss) \<longleftrightarrow>
     0 < ps_size s \<and> ps_global_chunk_start s = start \<and> ps_chunk_count s = chunks_of d s
     \<and> ps_chunk_count s \<le> MULTIPART_MAX_SOURCE_CHUNKS \<and> numbered d (start + ps_chunk_count s) ss"

definition plan_ok :: "plan_descriptor \<Rightarrow> bool" where
  "plan_ok d \<longleftrightarrow> 0 < pl_chunk_size d \<and> distinct (map ps_source_id (pl_sources d)) \<and> numbered d 0 (pl_sources d)
     \<and> map pd_destination_index (pl_destinations d) = map int [0..<length (pl_destinations d)]
     \<and> list_all (\<lambda>p. list_all (\<lambda>s. final_key p (ps_source_id s) \<noteq> None) (pl_sources d)) (pl_destinations d)
     \<and> pl_logical_chunk_count d = sum_list (map ps_chunk_count (pl_sources d))
     \<and> pl_delivery_route_count d = pl_logical_chunk_count d * int (length (pl_destinations d))"

lemma numbered_member:
  "numbered d start ss \<Longrightarrow> s \<in> set ss \<Longrightarrow>
     0 < ps_size s \<and> ps_chunk_count s = chunks_of d s \<and> ps_chunk_count s \<le> MULTIPART_MAX_SOURCE_CHUNKS"
  by (induction ss arbitrary: start) auto

lemma find_source: "distinct (map ps_source_id ss) \<Longrightarrow> s \<in> set ss \<Longrightarrow> find (\<lambda>x. ps_source_id x = ps_source_id s) ss = Some s"
  by (induction ss) (auto simp: image_iff)

lemma map_result_map: "(\<And>x. x \<in> set xs \<Longrightarrow> f x = Inr (g x)) \<Longrightarrow> map_result f xs = Inr (map g xs)"
  by (induction xs) auto

lemma chunks_of_pos: "0 < pl_chunk_size d \<Longrightarrow> 0 < ps_size s \<Longrightarrow> 0 < chunks_of d s"
  by (simp add: chunks_of_def pos_imp_zdiv_pos_iff)

text \<open>The last chunk ends where the source does, and every one before it is full.\<close>

lemma chunk_spans:
  fixes c n i :: int
  assumes "0 < c" and "0 < n" and "0 \<le> i" and "i < (n + c - 1) div c"
  shows "0 < min c (n - i * c)"
    and "i + 1 < (n + c - 1) div c \<Longrightarrow> min c (n - i * c) = c"
    and "i + 1 = (n + c - 1) div c \<Longrightarrow> i * c + min c (n - i * c) = n"
proof -
  define q r where "q = (n + c - 1) div c" and "r = (n + c - 1) mod c"
  have split: "n + c - 1 = q * c + r" "0 \<le> r" "r < c"
    using assms(1) by (simp_all add: q_def r_def)
  have i: "i + 1 \<le> q" using assms(4) by (simp add: q_def)
  then have "(i + 1) * c \<le> q * c" using assms(1) by (intro mult_right_mono) auto
  then have low: "i * c < n" using split by (simp add: algebra_simps)
  then show "0 < min c (n - i * c)" using assms(1) by simp
  show "min c (n - i * c) = c" if "i + 1 < (n + c - 1) div c"
  proof -
    have "(i + 2) * c \<le> q * c" using assms(1) that by (intro mult_right_mono) (auto simp: q_def)
    then show ?thesis using split by (simp add: algebra_simps min_def)
  qed
  show "i * c + min c (n - i * c) = n" if "i + 1 = (n + c - 1) div c"
  proof -
    have "(i + 1) * c = q * c" using that by (simp add: q_def)
    then show ?thesis using split low by (simp add: algebra_simps min_def)
  qed
qed


subsection \<open>The chunks of a plan\<close>

definition planned_chunk :: "plan_descriptor \<Rightarrow> plan_source \<Rightarrow> int \<Rightarrow> chunk_item" where
  "planned_chunk d s i =
     \<lparr>ch_chunk_index = ps_global_chunk_start s + i, ch_source_id = ps_source_id s, ch_source_chunk_index = i,
      ch_source_offset = i * pl_chunk_size d, ch_chunk_size = min (pl_chunk_size d) (ps_size s - i * pl_chunk_size d),
      ch_source_url = ps_url s,
      ch_destinations = map (\<lambda>p. projr (plan_target d (ps_source_id s) (ps_global_chunk_start s + i) i p)) (pl_destinations d)\<rparr>"

lemma plan_target_ok:
  assumes "plan_ok d" and "s \<in> set (pl_sources d)" and "p \<in> set (pl_destinations d)" and "0 \<le> i" and "i < ps_chunk_count s"
  shows "\<exists>t. plan_target d (ps_source_id s) k i p = Inr t \<and> tg_destination_id t = pd_destination_id p
    \<and> map_of (tg_metadata t) ''delivery_index'' = Some (JNum (delivery_index_of d k p))
    \<and> map_of (tg_metadata t) ''part_number'' = Some (JNum (i + 1))"
proof -
  have "final_key p (ps_source_id s) \<noteq> None" using assms(1-3) by (simp add: plan_ok_def list_all_iff)
  moreover have "multipartPartNumber i 0 = Inr (i + 1)"
    using numbered_member [of d 0 "pl_sources d" s] assms
    by (auto simp: plan_ok_def multipartPartNumber_def max_source_chunks MULTIPART_ATTEMPT_SLOT_COUNT_def)
  ultimately show ?thesis by (auto simp: plan_target_def)
qed

lemma materialize_ok:
  assumes "plan_ok d" and "s \<in> set (pl_sources d)" and "0 \<le> i" and "i < ps_chunk_count s"
  shows "materializePlanChunk d (ps_source_id s) (ps_global_chunk_start s + i) = Inr (planned_chunk d s i)"
proof -
  let ?k = "ps_global_chunk_start s + i"
  have "plan_target d (ps_source_id s) ?k i p = Inr (projr (plan_target d (ps_source_id s) ?k i p))" if "p \<in> set (pl_destinations d)" for p
    using plan_target_ok [OF assms(1,2) that assms(3,4), of ?k] by auto
  then have "map_result (plan_target d (ps_source_id s) ?k i) (pl_destinations d)
      = Inr (map (\<lambda>p. projr (plan_target d (ps_source_id s) ?k i p)) (pl_destinations d))"
    by (rule map_result_map)
  then show ?thesis
    using assms find_source [of "pl_sources d" s]
    by (simp add: materializePlanChunk_def Let_def planned_chunk_def plan_ok_def)
qed

definition chunks_of_source :: "plan_descriptor \<Rightarrow> plan_source \<Rightarrow> chunk_item list" where
  "chunks_of_source d s = map (\<lambda>i. planned_chunk d s (int i)) [0..<nat (ps_chunk_count s)]"

lemma source_chunks_ok: "plan_ok d \<Longrightarrow> s \<in> set (pl_sources d) \<Longrightarrow> source_chunks d s = map Inr (chunks_of_source d s)"
  by (auto simp: source_chunks_def chunks_of_source_def materialize_ok zless_nat_eq_int_zless)

lemma plan_chunks_ok: "plan_ok d \<Longrightarrow> materializePlanChunks d = map Inr (concat (map (chunks_of_source d) (pl_sources d)))"
  by (simp add: materializePlanChunks_def map_concat comp_def source_chunks_ok cong: map_cong)

text \<open>Consecutive ranges, none empty, from one offset to another.\<close>

fun tiles :: "int \<Rightarrow> chunk_item list \<Rightarrow> int \<Rightarrow> bool" where
  "tiles a [] b \<longleftrightarrow> a = b"
| "tiles a (c # cs) b \<longleftrightarrow> ch_source_offset c = a \<and> 0 < ch_chunk_size c \<and> tiles (a + ch_chunk_size c) cs b"

lemma tiles_append: "tiles a (xs @ ys) c \<longleftrightarrow> (\<exists>b. tiles a xs b \<and> tiles b ys c)"
  by (induction xs arbitrary: a) auto

lemma chunks_tile:
  assumes "plan_ok d" and "s \<in> set (pl_sources d)"
  shows "tiles 0 (chunks_of_source d s) (ps_size s)"
proof -
  have s: "0 < pl_chunk_size d" "0 < ps_size s" "ps_chunk_count s = chunks_of d s"
    using assms numbered_member [of d 0 "pl_sources d" s] by (auto simp: plan_ok_def)
  let ?c = "pl_chunk_size d"
  have full: "tiles 0 (map (\<lambda>i. planned_chunk d s (int i)) [0..<m]) (int m * ?c)" if "int m < chunks_of d s" for m
    using that
  proof (induction m)
    case (Suc m)
    have "min ?c (ps_size s - int m * ?c) = ?c"
      using chunk_spans(2) [OF s(1,2), of "int m"] Suc.prems by (simp add: chunks_of_def)
    moreover have "tiles 0 (map (\<lambda>i. planned_chunk d s (int i)) [0..<m]) (int m * ?c)" using Suc by simp
    ultimately show ?case using s(1) by (auto simp: tiles_append planned_chunk_def algebra_simps)
  qed simp
  obtain m where m: "nat (chunks_of d s) = Suc m"
    using chunks_of_pos [OF s(1,2)] by (metis gr0_implies_Suc zero_less_nat_eq)
  then have im: "int m + 1 = chunks_of d s" by linarith
  have "int m * ?c + min ?c (ps_size s - int m * ?c) = ps_size s"
    using chunk_spans(3) [OF s(1,2), of "int m"] im by (simp add: chunks_of_def)
  moreover have "0 < min ?c (ps_size s - int m * ?c)"
    using chunk_spans(1) [OF s(1,2), of "int m"] im by (simp add: chunks_of_def)
  ultimately show ?thesis
    using full [of m] im by (auto simp: chunks_of_source_def s(3) m tiles_append planned_chunk_def)
qed

lemma source_of_chunks: "c \<in> set (chunks_of_source d s) \<Longrightarrow> ch_source_id c = ps_source_id s"
  by (auto simp: chunks_of_source_def planned_chunk_def)

lemma chunks_by_source:
  "distinct (map ps_source_id ss) \<Longrightarrow> s \<in> set ss \<Longrightarrow>
     filter (\<lambda>c. ch_source_id c = ps_source_id s) (concat (map (chunks_of_source d) ss)) = chunks_of_source d s"
proof (induction ss)
  case (Cons x ss)
  have own: "filter (\<lambda>c. ch_source_id c = ps_source_id y) (chunks_of_source d y) = chunks_of_source d y" for y
    by (simp add: filter_id_conv source_of_chunks)
  have other: "filter (\<lambda>c. ch_source_id c = ps_source_id s) (chunks_of_source d y) = []" if "ps_source_id y \<noteq> ps_source_id s" for y
    using that by (auto simp: filter_empty_conv dest: source_of_chunks)
  have rest: "filter (\<lambda>c. ch_source_id c = ps_source_id x) (concat (map (chunks_of_source d) ss)) = []"
    unfolding filter_empty_conv
  proof
    fix c assume "c \<in> set (concat (map (chunks_of_source d) ss))"
    then obtain y where "y \<in> set ss" "c \<in> set (chunks_of_source d y)" by auto
    then have "ch_source_id c \<in> ps_source_id ` set ss" by (auto simp: source_of_chunks)
    then show "ch_source_id c \<noteq> ps_source_id x" using Cons.prems(1) by auto
  qed
  show ?case
  proof (cases "s = x")
    case True
    then show ?thesis using own [of x] rest by simp
  next
    case False
    then have "s \<in> set ss" "ps_source_id x \<noteq> ps_source_id s" using Cons.prems by auto
    then show ?thesis using Cons other [of x] by simp
  qed
qed simp


text \<open>
  C30. The chunks of a plan cover each source once. From a descriptor that BeamCore filled as \<open>plan_ok\<close> says (sources of a positive size,
  each with \<open>ceil(size / chunk_size)\<close> chunks that start where those of the source before it end, and what else it lists), every chunk is
  materialized, and the chunks of each source are consecutive non-empty ranges from its first byte to its last.
\<close>

theorem plan_tiles_sources:
  assumes "plan_ok d"
  shows "\<exists>items. materializePlanChunks d = map Inr items
    \<and> (\<forall>s \<in> set (pl_sources d). tiles 0 (filter (\<lambda>c. ch_source_id c = ps_source_id s) items) (ps_size s))"
proof (intro exI conjI ballI)
  show "materializePlanChunks d = map Inr (concat (map (chunks_of_source d) (pl_sources d)))" using assms by (rule plan_chunks_ok)
  fix s assume "s \<in> set (pl_sources d)"
  then show "tiles 0 (filter (\<lambda>c. ch_source_id c = ps_source_id s) (concat (map (chunks_of_source d) (pl_sources d)))) (ps_size s)"
    using assms chunks_tile by (simp add: chunks_by_source plan_ok_def)
qed

definition demo_plan :: plan_descriptor where
  "demo_plan =
     \<lparr>pl_plan_nonce = ''n'', pl_chunk_size = 4,
      pl_sources = [\<lparr>ps_source_id = ''a'', ps_url = ''u'', ps_size = 10, ps_metadata = None, ps_global_chunk_start = 0, ps_chunk_count = 3\<rparr>,
        \<lparr>ps_source_id = ''b'', ps_url = ''v'', ps_size = 4, ps_metadata = None, ps_global_chunk_start = 3, ps_chunk_count = 1\<rparr>],
      pl_destinations = [\<lparr>pd_destination_id = ''x'', pd_provider = ''s3'', pd_metadata = None, pd_destination_index = 0,
          pd_final_object_keys = [(''a'', ''ka''), (''b'', ''kb'')]\<rparr>,
        \<lparr>pd_destination_id = ''y'', pd_provider = ''r2'', pd_metadata = None, pd_destination_index = 1,
          pd_final_object_keys = [(''a'', ''la''), (''b'', ''lb'')]\<rparr>],
      pl_logical_chunk_count = 4, pl_delivery_route_count = 8\<rparr>"

lemma demo_plan_ok: "plan_ok demo_plan"
  by (simp add: plan_ok_def demo_plan_def chunks_of_def max_source_chunks final_key_def truthy_def)

theorem plan_tiles_sources_witness:
  "\<exists>items. materializePlanChunks demo_plan = map Inr items
    \<and> tiles 0 (filter (\<lambda>c. ch_source_id c = ''a'') items) 10 \<and> tiles 0 (filter (\<lambda>c. ch_source_id c = ''b'') items) 4"
  using plan_tiles_sources [OF demo_plan_ok] by (auto simp: demo_plan_def)

subsection \<open>Delivery indices\<close>

definition target_delivery :: "signing_target \<Rightarrow> json option" where
  "target_delivery t = map_of (tg_metadata t) ''delivery_index''"

lemma concat_rows: "concat (map (\<lambda>i. map (\<lambda>j. (a + i) * w + j) [0..<w]) [0..<n]) = [a * w..<(a + n) * (w :: nat)]"
proof (induction n)
  case (Suc n)
  have "[a * w..<(a + Suc n) * w] = [a * w..<(a + n) * w] @ [(a + n) * w..<(a + n) * w + w]"
    using upt_add_eq_append [of "a * w" "(a + n) * w" w] by (simp add: algebra_simps)
  moreover have "map (\<lambda>j. (a + n) * w + j) [0..<w] = [(a + n) * w..<(a + n) * w + w]"
    by (simp add: map_add_upt [symmetric] add.commute)
  ultimately show ?case using Suc by simp
qed simp

lemma chunk_deliveries:
  assumes "plan_ok d" and "s \<in> set (pl_sources d)" and "ps_global_chunk_start s = int a"
  shows "map (\<lambda>c. map target_delivery (ch_destinations c)) (chunks_of_source d s)
    = map (\<lambda>i. map (\<lambda>j. Some (JNum (int ((a + i) * length (pl_destinations d) + j)))) [0..<length (pl_destinations d)])
        [0..<nat (ps_chunk_count s)]"
proof -
  let ?D = "length (pl_destinations d)"
  have index: "map pd_destination_index (pl_destinations d) = map int [0..<?D]" using assms(1) by (simp add: plan_ok_def)
  have row: "map target_delivery (ch_destinations (planned_chunk d s (int i)))
      = map (\<lambda>j. Some (JNum (int ((a + i) * ?D + j)))) [0..<?D]" if "i < nat (ps_chunk_count s)" for i
  proof -
    have "map target_delivery (ch_destinations (planned_chunk d s (int i)))
        = map (\<lambda>p. Some (JNum (delivery_index_of d (int a + int i) p))) (pl_destinations d)"
      using plan_target_ok [OF assms(1,2), of _ "int i" "int a + int i"] that assms(3)
      by (force simp: planned_chunk_def target_delivery_def zless_nat_eq_int_zless)
    also have "\<dots> = map (\<lambda>j. Some (JNum (int ((a + i) * ?D) + j))) (map pd_destination_index (pl_destinations d))"
      by (simp add: delivery_index_of_def)
    finally show ?thesis unfolding index by simp
  qed
  then show ?thesis by (simp add: chunks_of_source_def)
qed

lemma chunk_counts_nonneg:
  "plan_ok d \<Longrightarrow> set ss \<subseteq> set (pl_sources d) \<Longrightarrow> 0 \<le> sum_list (map ps_chunk_count ss)"
proof (rule sum_list_nonneg)
  fix k assume "plan_ok d" "set ss \<subseteq> set (pl_sources d)" "k \<in> set (map ps_chunk_count ss)"
  then obtain s where s: "s \<in> set (pl_sources d)" "k = ps_chunk_count s" and d: "plan_ok d" by auto
  then show "0 \<le> k"
    using numbered_member [of d 0 "pl_sources d" s] chunks_of_pos [of d s] by (simp add: plan_ok_def)
qed

lemma numbered_deliveries:
  assumes "plan_ok d"
  shows "numbered d (int a) ss \<Longrightarrow> set ss \<subseteq> set (pl_sources d) \<Longrightarrow>
    concat (map (\<lambda>c. map target_delivery (ch_destinations c)) (concat (map (chunks_of_source d) ss)))
      = map (\<lambda>k. Some (JNum (int k)))
          [a * length (pl_destinations d)..<(a + nat (sum_list (map ps_chunk_count ss))) * length (pl_destinations d)]"
proof (induction ss arbitrary: a)
  case (Cons s ss)
  let ?D = "length (pl_destinations d)" and ?n = "nat (ps_chunk_count s)" and ?m = "nat (sum_list (map ps_chunk_count ss))"
  have pos: "0 \<le> ps_chunk_count s" "0 \<le> sum_list (map ps_chunk_count ss)"
    using chunk_counts_nonneg [OF assms, of "[s]"] chunk_counts_nonneg [OF assms, of ss] Cons.prems(2) by simp_all
  have sums: "nat (sum_list (map ps_chunk_count (s # ss))) = ?n + ?m" using pos by (simp add: nat_add_distrib)
  have n: "int (a + ?n) = int a + ps_chunk_count s" using pos by simp
  have s: "ps_global_chunk_start s = int a" "s \<in> set (pl_sources d)" "numbered d (int (a + ?n)) ss"
    unfolding n using Cons.prems by auto
  have "concat (map (\<lambda>c. map target_delivery (ch_destinations c)) (chunks_of_source d s))
      = map (\<lambda>k. Some (JNum (int k))) (concat (map (\<lambda>i. map (\<lambda>j. (a + i) * ?D + j) [0..<?D]) [0..<?n]))"
    unfolding chunk_deliveries [OF assms s(2,1)] by (simp add: map_concat comp_def)
  then have first: "concat (map (\<lambda>c. map target_delivery (ch_destinations c)) (chunks_of_source d s))
      = map (\<lambda>k. Some (JNum (int k))) [a * ?D..<(a + ?n) * ?D]" by (simp only: concat_rows)
  have "[a * ?D..<(a + (?n + ?m)) * ?D] = [a * ?D..<(a + ?n) * ?D] @ [(a + ?n) * ?D..<(a + ?n + ?m) * ?D]"
    using upt_add_eq_append [of "a * ?D" "(a + ?n) * ?D" "?m * ?D"] by (simp add: algebra_simps)
  then show ?case unfolding sums using Cons.IH [OF s(3)] Cons.prems(2) first by simp
qed simp

text \<open>
  C29. A whole plan names every delivery route exactly once. Take a descriptor that BeamCore filled as \<open>plan_ok\<close> says, which the SDK does
  not check: a positive chunk size; different source ids; sources of a positive size, each with \<open>ceil(size / chunk_size)\<close> chunks, within the
  allowed number, that start where those of the source before it end; destinations whose \<open>destination_index\<close> is their place, each
  with a final key for every source; a chunk count that is their sum and a route count that is chunks times destinations. Then every chunk is
  materialized, and over all chunks in that order and the destinations of each, the delivery indices are 0, 1, 2, up to the declared
  route count, none missing and none twice.
\<close>

theorem plan_delivers_each_route_once:
  assumes "plan_ok d"
  shows "\<exists>items. materializePlanChunks d = map Inr items
    \<and> concat (map (\<lambda>c. map target_delivery (ch_destinations c)) items)
        = map (\<lambda>k. Some (JNum (int k))) [0..<nat (pl_delivery_route_count d)]"
proof (intro exI conjI)
  show "materializePlanChunks d = map Inr (concat (map (chunks_of_source d) (pl_sources d)))" using assms by (rule plan_chunks_ok)
  have "numbered d (int 0) (pl_sources d)" using assms by (simp add: plan_ok_def)
  from numbered_deliveries [OF assms this subset_refl]
  show "concat (map (\<lambda>c. map target_delivery (ch_destinations c)) (concat (map (chunks_of_source d) (pl_sources d))))
      = map (\<lambda>k. Some (JNum (int k))) [0..<nat (pl_delivery_route_count d)]"
    using assms chunk_counts_nonneg [OF assms subset_refl] by (simp add: plan_ok_def nat_mult_distrib)
qed

theorem plan_delivers_each_route_once_witness:
  "\<exists>items. materializePlanChunks demo_plan = map Inr items
    \<and> concat (map (\<lambda>c. map target_delivery (ch_destinations c)) items) = map (\<lambda>k. Some (JNum (int k))) [0..<8]"
  using plan_delivers_each_route_once [OF demo_plan_ok] by (simp add: demo_plan_def)

end
