(* ===== verification/SdkRoutes.thy ===== *)
theory SdkRoutes
  imports SdkPlan
begin

text \<open>
  Signed routes on their way to the runtime (\<open>sdks/typescript/src/nats-control.ts\<close>): the compact form of a batch, in
  which routes that read one source range share it, and the cut of a list of routes into batches the broker accepts.
  The length of a message's MessagePack encoding is a parameter.
\<close>

subsection \<open>Routes\<close>

record signed_route =
  rt_source_id :: string
  rt_destination_id :: string
  rt_chunk_index :: int
  rt_delivery_index :: "int option"
  rt_source_url :: string
  rt_dest_url :: string
  rt_source_offset :: int
  rt_chunk_size :: int
  rt_expires_at :: "string option"
  rt_headers :: "(string \<times> string) list option"
  rt_dest_headers :: "(string \<times> string) list option"
  rt_metadata :: "(string \<times> json) list option"

record source_chunk =
  sc_source_ref :: int
  sc_source_id :: string
  sc_chunk_index :: int
  sc_source_url :: string
  sc_source_offset :: int
  sc_chunk_size :: int
  sc_expires_at :: "string option"
  sc_headers :: "(string \<times> string) list option"

record compact_route =
  co_source_ref :: int
  co_destination_id :: string
  co_delivery_index :: int
  co_dest_url :: string
  co_expires_at :: "string option"
  co_dest_headers :: "(string \<times> string) list option"
  co_multipart_group_id :: "string option"
  co_metadata :: "(string \<times> json) list option"

record compact_batch =
  cb_source_chunks :: "source_chunk list"
  cb_routes :: "compact_route list"

definition ROUTE_ATTEMPT_METADATA_KEYS :: "string list" where
  "ROUTE_ATTEMPT_METADATA_KEYS = [''part_number'', ''logical_attempt_index'', ''attempt_slot'', ''etag_required'', ''route_generation_id'']"

definition ROUTE_IDENTITY_METADATA_KEYS :: "string list" where
  "ROUTE_IDENTITY_METADATA_KEYS = [''source_id'', ''destination_id'', ''chunk_index'', ''route_chunk_index'', ''delivery_index'']"

text \<open>\<open>Number(value)\<close> of a value that may be absent, and whether it is a whole number.\<close>

definition to_number :: "json option \<Rightarrow> rat option" where
  "to_number v =
     (case v of
        None \<Rightarrow> None
      | Some JNull \<Rightarrow> Some 0
      | Some (JBool b) \<Rightarrow> Some (if b then 1 else 0)
      | Some (JNum n) \<Rightarrow> Some (of_int n)
      | Some (JStr s) \<Rightarrow> js_number s
      | Some (JArr xs) \<Rightarrow> js_number (js_string (JArr xs))
      | Some (JObj kvs) \<Rightarrow> None)"

definition nonNegativeInteger :: "json option \<Rightarrow> int option" where
  "nonNegativeInteger value =
     (case to_number value of
        None \<Rightarrow> None
      | Some q \<Rightarrow> if of_int \<lfloor>q\<rfloor> = q \<and> 0 \<le> q then Some \<lfloor>q\<rfloor> else None)"

definition headers_json :: "(string \<times> string) list \<Rightarrow> json" where
  "headers_json hs = JObj (map (\<lambda>(k, v). (k, JStr v)) hs)"

definition or_null :: "('a \<Rightarrow> json) \<Rightarrow> 'a option \<Rightarrow> json" where
  "or_null f x = (case x of None \<Rightarrow> JNull | Some v \<Rightarrow> f v)"

definition source_key :: "signed_route \<Rightarrow> string" where
  "source_key r = stringify (JArr [JStr (rt_source_id r), JNum (rt_chunk_index r), JStr (rt_source_url r),
     JNum (rt_source_offset r), JNum (rt_chunk_size r), or_null JStr (rt_expires_at r), or_null headers_json (rt_headers r)])"

definition source_chunk_of :: "int \<Rightarrow> signed_route \<Rightarrow> source_chunk" where
  "source_chunk_of ref r =
     \<lparr>sc_source_ref = ref, sc_source_id = rt_source_id r, sc_chunk_index = rt_chunk_index r, sc_source_url = rt_source_url r,
      sc_source_offset = rt_source_offset r, sc_chunk_size = rt_chunk_size r, sc_expires_at = rt_expires_at r, sc_headers = rt_headers r\<rparr>"

text \<open>The metadata of a route without its identity, and of a multipart route only what tells its attempts apart.\<close>

definition compact_metadata :: "(string \<times> json) list \<Rightarrow> string option \<times> (string \<times> json) list" where
  "compact_metadata metadata =
     (let rest = filter (\<lambda>(k, _). \<not> List.member ROUTE_IDENTITY_METADATA_KEYS k) metadata;
          group = as_str (map_of rest ''multipart_group_id'') in
      (group, if truthy group = None then rest else filter (\<lambda>(k, _). List.member ROUTE_ATTEMPT_METADATA_KEYS k) rest))"

definition compact_route_of :: "int \<Rightarrow> nat \<Rightarrow> signed_route \<Rightarrow> compact_route" where
  "compact_route_of ref routeIndex r =
     (let metadata = coalesce (rt_metadata r) [];
          group_rest = compact_metadata metadata in
      \<lparr>co_source_ref = ref, co_destination_id = rt_destination_id r,
       co_delivery_index = coalesce (or_else (rt_delivery_index r) (nonNegativeInteger (map_of metadata ''delivery_index''))) (int routeIndex),
       co_dest_url = rt_dest_url r, co_expires_at = rt_expires_at r, co_dest_headers = rt_dest_headers r,
       co_multipart_group_id = fst group_rest,
       co_metadata = (if snd group_rest = [] then None else Some (snd group_rest))\<rparr>)"

record compacting =
  cp_source_chunks :: "source_chunk list"
  cp_sourceRefs :: "(string \<times> int) list"
  cp_routes :: "compact_route list"

definition compact_step :: "compacting \<Rightarrow> signed_route \<Rightarrow> compacting" where
  "compact_step st r =
     (let add = (\<lambda>ref s. s\<lparr>cp_routes := cp_routes s @ [compact_route_of ref (length (cp_routes s)) r]\<rparr>) in
      case map_of (cp_sourceRefs st) (source_key r) of
        Some ref \<Rightarrow> add ref st
      | None \<Rightarrow>
          (let ref = int (length (cp_source_chunks st)) in
           add ref (st\<lparr>cp_source_chunks := cp_source_chunks st @ [source_chunk_of ref r],
             cp_sourceRefs := amap_set (source_key r) ref (cp_sourceRefs st)\<rparr>)))"

definition compactSignedRoutes :: "signed_route list \<Rightarrow> compact_batch" where
  "compactSignedRoutes routes =
     (let st = foldl compact_step \<lparr>cp_source_chunks = [], cp_sourceRefs = [], cp_routes = []\<rparr> routes in
      \<lparr>cb_source_chunks = cp_source_chunks st, cb_routes = cp_routes st\<rparr>)"

subsection \<open>A batch loses nothing\<close>

text \<open>What a route reads, and what a shared source chunk says it reads.\<close>

definition reads_of :: "signed_route \<Rightarrow> source_chunk" where
  "reads_of r = source_chunk_of 0 r"

definition shared_reads :: "source_chunk \<Rightarrow> source_chunk" where
  "shared_reads s = s\<lparr>sc_source_ref := 0\<rparr>"

lemma headers_json_inj: "headers_json hs = headers_json hs' \<Longrightarrow> hs = hs'"
  by (simp add: headers_json_def inj_def map_injective split: prod.splits)

lemma or_null_inj:
  "(\<And>a b. f a = f b \<Longrightarrow> a = b) \<Longrightarrow> (\<And>a. f a \<noteq> JNull) \<Longrightarrow> or_null f x = or_null f y \<Longrightarrow> x = y"
  unfolding or_null_def by (cases x; cases y) (simp_all, metis)

lemma source_key_inj: "source_key r = source_key r' \<longleftrightarrow> reads_of r = reads_of r'"
proof
  assume "source_key r = source_key r'"
  then have "JArr [JStr (rt_source_id r), JNum (rt_chunk_index r), JStr (rt_source_url r),
     JNum (rt_source_offset r), JNum (rt_chunk_size r), or_null JStr (rt_expires_at r), or_null headers_json (rt_headers r)]
    = JArr [JStr (rt_source_id r'), JNum (rt_chunk_index r'), JStr (rt_source_url r'),
     JNum (rt_source_offset r'), JNum (rt_chunk_size r'), or_null JStr (rt_expires_at r'), or_null headers_json (rt_headers r')]"
    unfolding source_key_def by (rule stringify_inj)
  moreover have "or_null JStr x = or_null JStr y \<Longrightarrow> x = y" for x y by (erule or_null_inj [rotated 2]) auto
  moreover have "or_null headers_json x = or_null headers_json y \<Longrightarrow> x = y" for x y
    by (erule or_null_inj [rotated 2]) (auto simp: headers_json_inj headers_json_def)
  ultimately show "reads_of r = reads_of r'" by (simp add: reads_of_def source_chunk_of_def)
qed (simp add: source_key_def reads_of_def source_chunk_of_def)


definition compacted :: "compacting \<Rightarrow> signed_route list \<Rightarrow> bool" where
  "compacted st rs \<longleftrightarrow>
     length (cp_routes st) = length rs
     \<and> (\<forall>j < length (cp_source_chunks st). sc_source_ref (cp_source_chunks st ! j) = int j)
     \<and> distinct (map shared_reads (cp_source_chunks st))
     \<and> set (map shared_reads (cp_source_chunks st)) = reads_of ` set rs
     \<and> (\<forall>r ref. map_of (cp_sourceRefs st) (source_key r) = Some ref \<longleftrightarrow>
          (\<exists>j < length (cp_source_chunks st). ref = int j \<and> shared_reads (cp_source_chunks st ! j) = reads_of r))
     \<and> (\<forall>i < length rs. \<exists>j < length (cp_source_chunks st). cp_routes st ! i = compact_route_of (int j) i (rs ! i)
          \<and> shared_reads (cp_source_chunks st ! j) = reads_of (rs ! i))"

lemma shared_of [simp]: "shared_reads (source_chunk_of ref r) = reads_of r"
  by (simp add: shared_reads_def reads_of_def source_chunk_of_def)

lemma ref_of [simp]: "sc_source_ref (source_chunk_of ref r) = ref"
  by (simp add: source_chunk_of_def)

lemma compacted_step:
  assumes "compacted st rs"
  shows "compacted (compact_step st r) (rs @ [r])"
proof (cases "map_of (cp_sourceRefs st) (source_key r)")
  case (Some ref)
  then obtain j where j: "j < length (cp_source_chunks st)" "ref = int j" "shared_reads (cp_source_chunks st ! j) = reads_of r"
    using assms by (auto simp: compacted_def)
  then have "reads_of r \<in> set (map shared_reads (cp_source_chunks st))" by (metis length_map nth_map nth_mem)
  then have known: "reads_of ` set (rs @ [r]) = set (map shared_reads (cp_source_chunks st))"
    using assms by (auto simp: compacted_def)
  have run: "compact_step st r = st\<lparr>cp_routes := cp_routes st @ [compact_route_of ref (length (cp_routes st)) r]\<rparr>"
    using Some by (simp add: compact_step_def)
  show ?thesis
    unfolding compacted_def run known using assms j by (auto simp: compacted_def nth_append less_Suc_eq)
next
  case None
  let ?n = "length (cp_source_chunks st)"
  have fresh: "shared_reads (cp_source_chunks st ! j) \<noteq> reads_of r" if "j < ?n" for j
  proof
    assume "shared_reads (cp_source_chunks st ! j) = reads_of r"
    then have "map_of (cp_sourceRefs st) (source_key r) = Some (int j)" using assms that by (auto simp: compacted_def)
    then show False using None by simp
  qed
  then have new: "reads_of r \<notin> set (map shared_reads (cp_source_chunks st))"
  proof -
    have "shared_reads s \<noteq> reads_of r" if "s \<in> set (cp_source_chunks st)" for s
      using that fresh by (metis in_set_conv_nth)
    then show ?thesis by force
  qed
  have refs: "map_of (amap_set (source_key r) (int ?n) (cp_sourceRefs st)) (source_key q) = Some ref \<longleftrightarrow>
      (\<exists>j < Suc ?n. ref = int j \<and> shared_reads ((cp_source_chunks st @ [source_chunk_of (int ?n) r]) ! j) = reads_of q)" for q ref
  proof (cases "source_key q = source_key r")
    case True
    then have "reads_of q = reads_of r" by (simp add: source_key_inj)
    then show ?thesis using True fresh by (auto simp: nth_append less_Suc_eq)
  next
    case False
    then have "reads_of q \<noteq> reads_of r" by (simp add: source_key_inj)
    then show ?thesis using False assms by (auto simp: compacted_def nth_append less_Suc_eq)
  qed
  show ?thesis
    unfolding compacted_def
  proof (intro conjI)
    show "\<forall>q ref. map_of (cp_sourceRefs (compact_step st r)) (source_key q) = Some ref \<longleftrightarrow>
        (\<exists>j < length (cp_source_chunks (compact_step st r)).
           ref = int j \<and> shared_reads (cp_source_chunks (compact_step st r) ! j) = reads_of q)"
      using None refs by (simp add: compact_step_def Let_def)
    show "\<forall>i < length (rs @ [r]). \<exists>j < length (cp_source_chunks (compact_step st r)).
        cp_routes (compact_step st r) ! i = compact_route_of (int j) i ((rs @ [r]) ! i)
        \<and> shared_reads (cp_source_chunks (compact_step st r) ! j) = reads_of ((rs @ [r]) ! i)"
    proof (intro allI impI)
      fix i assume i: "i < length (rs @ [r])"
      show "\<exists>j < length (cp_source_chunks (compact_step st r)).
        cp_routes (compact_step st r) ! i = compact_route_of (int j) i ((rs @ [r]) ! i)
        \<and> shared_reads (cp_source_chunks (compact_step st r) ! j) = reads_of ((rs @ [r]) ! i)"
      proof (cases "i < length rs")
        case True
        then obtain j where "j < ?n" "cp_routes st ! i = compact_route_of (int j) i (rs ! i)"
            "shared_reads (cp_source_chunks st ! j) = reads_of (rs ! i)"
          using assms by (auto simp: compacted_def)
        then show ?thesis
          using True assms None by (intro exI [of _ j]) (simp add: compact_step_def Let_def nth_append compacted_def)
      next
        case False
        then have "i = length rs" using i by simp
        then show ?thesis
          using assms None by (intro exI [of _ ?n]) (simp add: compact_step_def Let_def nth_append compacted_def)
      qed
    qed
  qed (use assms None new in \<open>auto simp: compacted_def compact_step_def Let_def nth_append less_Suc_eq\<close>)
qed

lemma compacted_fold: "compacted st rs \<Longrightarrow> compacted (foldl compact_step st qs) (rs @ qs)"
  by (induction qs arbitrary: st rs) (use compacted_step in force)+

lemma compacted_all:
  "compacted (foldl compact_step \<lparr>cp_source_chunks = [], cp_sourceRefs = [], cp_routes = []\<rparr> routes) routes"
  using compacted_fold [of "\<lparr>cp_source_chunks = [], cp_sourceRefs = [], cp_routes = []\<rparr>" "[]" routes]
  by (simp add: compacted_def)

text \<open>
  C32. The compact form of a batch loses no route and shares every source range. It has one entry per route, in
  order; the entry points at a source chunk with exactly the range, address, expiry and headers the route reads, and
  keeps the route's destination, address, expiry, headers and delivery index; and the source chunks are the
  distinct ranges the routes read, each once.
\<close>

theorem compact_routes_lossless:
  "length (cb_routes (compactSignedRoutes routes)) = length routes
   \<and> distinct (map shared_reads (cb_source_chunks (compactSignedRoutes routes)))
   \<and> shared_reads ` set (cb_source_chunks (compactSignedRoutes routes)) = reads_of ` set routes
   \<and> (\<forall>i < length routes. \<exists>s.
        let c = cb_routes (compactSignedRoutes routes) ! i; r = routes ! i in
        s = cb_source_chunks (compactSignedRoutes routes) ! nat (co_source_ref c)
        \<and> s \<in> set (cb_source_chunks (compactSignedRoutes routes)) \<and> sc_source_ref s = co_source_ref c \<and> shared_reads s = reads_of r
        \<and> co_destination_id c = rt_destination_id r \<and> co_dest_url c = rt_dest_url r \<and> co_expires_at c = rt_expires_at r
        \<and> co_dest_headers c = rt_dest_headers r
        \<and> (rt_delivery_index r \<noteq> None \<longrightarrow> Some (co_delivery_index c) = rt_delivery_index r))"
proof -
  let ?st = "foldl compact_step \<lparr>cp_source_chunks = [], cp_sourceRefs = [], cp_routes = []\<rparr> routes"
  have ok: "compacted ?st routes" by (rule compacted_all)
  have "\<exists>s. s = cp_source_chunks ?st ! nat (co_source_ref (cp_routes ?st ! i))
        \<and> s \<in> set (cp_source_chunks ?st) \<and> sc_source_ref s = co_source_ref (cp_routes ?st ! i) \<and> shared_reads s = reads_of (routes ! i)
        \<and> co_destination_id (cp_routes ?st ! i) = rt_destination_id (routes ! i) \<and> co_dest_url (cp_routes ?st ! i) = rt_dest_url (routes ! i)
        \<and> co_expires_at (cp_routes ?st ! i) = rt_expires_at (routes ! i)
        \<and> co_dest_headers (cp_routes ?st ! i) = rt_dest_headers (routes ! i)
        \<and> (rt_delivery_index (routes ! i) \<noteq> None \<longrightarrow> Some (co_delivery_index (cp_routes ?st ! i)) = rt_delivery_index (routes ! i))"
    if i: "i < length routes" for i
  proof -
    obtain j where j: "j < length (cp_source_chunks ?st)" "cp_routes ?st ! i = compact_route_of (int j) i (routes ! i)"
        "shared_reads (cp_source_chunks ?st ! j) = reads_of (routes ! i)"
      using ok i by (auto simp: compacted_def)
    have "sc_source_ref (cp_source_chunks ?st ! j) = int j" using ok j(1) by (simp add: compacted_def)
    then show ?thesis using j by (auto simp: compact_route_of_def Let_def)
  qed
  then show ?thesis
    using ok by (simp add: compactSignedRoutes_def Let_def compacted_def)
qed

definition demo_route :: "string \<Rightarrow> int \<Rightarrow> signed_route" where
  "demo_route dest index =
     \<lparr>rt_source_id = ''a'', rt_destination_id = dest, rt_chunk_index = 0, rt_delivery_index = Some index, rt_source_url = ''u'',
      rt_dest_url = dest, rt_source_offset = 0, rt_chunk_size = 4, rt_expires_at = None, rt_headers = None,
      rt_dest_headers = None, rt_metadata = None\<rparr>"

theorem compact_routes_lossless_witness:
  "length (cb_routes (compactSignedRoutes [demo_route ''x'' 0, demo_route ''y'' 1])) = 2
   \<and> card (set (cb_source_chunks (compactSignedRoutes [demo_route ''x'' 0, demo_route ''y'' 1]))) = 1
   \<and> co_dest_url (cb_routes (compactSignedRoutes [demo_route ''x'' 0, demo_route ''y'' 1]) ! 1) = ''y''"
proof -
  let ?routes = "[demo_route ''x'' 0, demo_route ''y'' 1]"
  have same: "reads_of (demo_route ''x'' 0) = reads_of (demo_route ''y'' 1)"
    by (simp add: reads_of_def source_chunk_of_def demo_route_def)
  note lossless = compact_routes_lossless [of ?routes]
  have "distinct (map shared_reads (cb_source_chunks (compactSignedRoutes ?routes)))" using lossless by blast
  then have "card (set (cb_source_chunks (compactSignedRoutes ?routes))) = card (shared_reads ` set (cb_source_chunks (compactSignedRoutes ?routes)))"
    by (simp add: card_image distinct_map)
  also have "\<dots> = 1" using lossless same by simp
  finally show ?thesis
    using lossless by (auto simp: Let_def demo_route_def numeral_2_eq_2)
qed


subsection \<open>Batches the broker accepts\<close>

definition BEAM_DEFAULT_MAX_PAYLOAD_BYTES :: int where "BEAM_DEFAULT_MAX_PAYLOAD_BYTES = 8 * 1024 * 1024"
definition BEAM_ROUTE_TARGET_PAYLOAD_BYTES :: int where "BEAM_ROUTE_TARGET_PAYLOAD_BYTES = 4 * 1024 * 1024"
definition ROUTE_BATCH_AUTH_TOKEN_ESTIMATE_BYTES :: int where "ROUTE_BATCH_AUTH_TOKEN_ESTIMATE_BYTES = 64 * 1024"

definition TRANSFER_CLIENT_CONTROL_SCHEMA_VERSION :: string where
  "TRANSFER_CLIENT_CONTROL_SCHEMA_VERSION = ''transfer-client-control/v7''"

text \<open>An object without the properties that are undefined.\<close>

definition compact :: "(string \<times> json option) list \<Rightarrow> (string \<times> json) list" where
  "compact kvs = concat (map (\<lambda>(k, v). case v of None \<Rightarrow> [] | Some j \<Rightarrow> [(k, j)]) kvs)"

definition source_chunk_json :: "source_chunk \<Rightarrow> json" where
  "source_chunk_json s = JObj (compact
     [(''source_ref'', Some (JNum (sc_source_ref s))), (''source_id'', Some (JStr (sc_source_id s))),
      (''chunk_index'', Some (JNum (sc_chunk_index s))), (''source_url'', Some (JStr (sc_source_url s))),
      (''source_offset'', Some (JNum (sc_source_offset s))), (''chunk_size'', Some (JNum (sc_chunk_size s))),
      (''expires_at'', map_option JStr (sc_expires_at s)), (''headers'', map_option headers_json (sc_headers s))])"

definition compact_route_json :: "compact_route \<Rightarrow> json" where
  "compact_route_json c = JObj (compact
     [(''source_ref'', Some (JNum (co_source_ref c))), (''destination_id'', Some (JStr (co_destination_id c))),
      (''delivery_index'', Some (JNum (co_delivery_index c))), (''dest_url'', Some (JStr (co_dest_url c))),
      (''expires_at'', map_option JStr (co_expires_at c)), (''dest_headers'', map_option headers_json (co_dest_headers c)),
      (''multipart_group_id'', map_option JStr (co_multipart_group_id c)), (''metadata'', map_option JObj (co_metadata c))])"

definition compact_batch_json :: "compact_batch \<Rightarrow> json" where
  "compact_batch_json b =
     JObj [(''source_chunks'', JArr (map source_chunk_json (cb_source_chunks b))), (''routes'', JArr (map compact_route_json (cb_routes b)))]"

record control_identity =
  ci_environment :: string
  ci_keyPrefix :: string
  ci_maxPayloadBytes :: int

definition authTokenEstimateBytes :: "control_identity \<Rightarrow> int" where
  "authTokenEstimateBytes c =
     min ROUTE_BATCH_AUTH_TOKEN_ESTIMATE_BYTES (max 512 (ci_maxPayloadBytes c div 128))"

definition estimate_envelope :: "control_identity \<Rightarrow> string \<Rightarrow> string \<Rightarrow> (string \<times> json) list \<Rightarrow> signed_route list \<Rightarrow> json" where
  "estimate_envelope c occurredAt messageType basePayload candidate =
     JObj [(''schema_version'', JStr TRANSFER_CLIENT_CONTROL_SCHEMA_VERSION), (''environment'', JStr (ci_environment c)),
       (''key_prefix'', JStr (ci_keyPrefix c)), (''shard_id'', JNum 0), (''message_type'', JStr messageType),
       (''request_id'', JStr ''00000000-0000-4000-8000-000000000000''),
       (''auth_token'', JStr (replicate (nat (authTokenEstimateBytes c)) (CHR ''x''))), (''occurred_at'', JStr occurredAt),
       (''producer'', JStr ''sdk''),
       (''payload'', JObj (obj_put basePayload [(''route_batch'', compact_batch_json (compactSignedRoutes candidate))]))]"

definition targetPayloadBytes :: "control_identity \<Rightarrow> int" where
  "targetPayloadBytes c = min (ci_maxPayloadBytes c) BEAM_ROUTE_TARGET_PAYLOAD_BYTES"

text \<open>The inner loop: the search for the largest count whose batch fits the target.\<close>

function bisect :: "(int \<Rightarrow> bool) \<Rightarrow> int \<Rightarrow> int \<Rightarrow> int \<Rightarrow> int" where
  "bisect fits low high accepted =
     (if low \<le> high then
        (let count = (low + high) div 2 in
         if fits count then bisect fits (count + 1) high count else bisect fits low (count - 1) accepted)
      else accepted)"
  by auto
termination by (relation "measure (\<lambda>(f, low, high, a). nat (high + 1 - low))") auto

declare bisect.simps [simp del]

text \<open>The outer loop. The instant stamped on an estimate is the same for all of them: only its length counts.\<close>

function split_from ::
  "(signed_route list \<Rightarrow> int) \<Rightarrow> int \<Rightarrow> int \<Rightarrow> signed_route list \<Rightarrow> string + signed_route list list" where
  "split_from encodedBytes target maxPayload routes =
     (if routes = [] then Inr []
      else
        (let found = bisect (\<lambda>count. encodedBytes (take (nat count) routes) \<le> target) 1 (int (length routes)) 0;
             bytes = encodedBytes (take 1 routes);
             accepted = max 1 (nat found) in
         if found = 0 \<and> bytes > maxPayload then
           Inl (''single signed route is '' @ show_int bytes @ '' bytes, above maxPayloadBytes='' @ show_int maxPayload)
         else
           (case split_from encodedBytes target maxPayload (drop accepted routes) of
              Inl e \<Rightarrow> Inl e | Inr rest \<Rightarrow> Inr (take accepted routes # rest))))"
  by auto
termination by (relation "measure (\<lambda>(f, t, m, routes). length routes)") auto

declare split_from.simps [simp del]

definition splitRoutesForPayload ::
  "(json \<Rightarrow> int) \<Rightarrow> control_identity \<Rightarrow> string \<Rightarrow> string \<Rightarrow> (string \<times> json) list \<Rightarrow> signed_route list \<Rightarrow> string + signed_route list list" where
  "splitRoutesForPayload msgpack_size c occurredAt messageType basePayload routes =
     split_from (\<lambda>candidate. msgpack_size (estimate_envelope c occurredAt messageType basePayload candidate))
       (targetPayloadBytes c) (ci_maxPayloadBytes c) routes"

text \<open>The search returns what it was given or a count in its range that fits, and the largest one when fitting is downward closed.\<close>

lemma bisect_sound:
  "bisect fits low high accepted = accepted \<or> (low \<le> bisect fits low high accepted \<and> bisect fits low high accepted \<le> high
     \<and> fits (bisect fits low high accepted))"
proof (induction fits low high accepted rule: bisect.induct)
  case (1 fits low high accepted)
  show ?case
  proof (cases "low \<le> high")
    case True
    define count where "count = (low + high) div 2"
    have range: "low \<le> count" "count \<le> high" using True by (auto simp: count_def)
    show ?thesis
    proof (cases "fits count")
      case fit: True
      with 1(1) [OF True count_def] range show ?thesis
        using True by (subst (1 2 3 4) bisect.simps) (auto simp: Let_def count_def [symmetric])
    next
      case False
      with 1(2) [OF True count_def] range show ?thesis
        using True by (subst (1 2 3 4) bisect.simps) (auto simp: Let_def count_def [symmetric])
    qed
  qed (simp add: bisect.simps)
qed

lemma bisect_maximal:
  assumes "\<And>m n. 0 < m \<Longrightarrow> m \<le> n \<Longrightarrow> fits n \<Longrightarrow> fits m"
  shows "0 < low \<Longrightarrow> low \<le> n \<Longrightarrow> n \<le> high \<Longrightarrow> fits n \<Longrightarrow> n \<le> bisect fits low high accepted"
  using assms
proof (induction fits low high accepted arbitrary: n rule: bisect.induct)
  case (1 fits low high accepted)
  define count where "count = (low + high) div 2"
  have go: "low \<le> high" using 1 by simp
  then have range: "low \<le> count" "count \<le> high" by (auto simp: count_def)
  show ?case
  proof (cases "fits count")
    case True
    have "n \<le> bisect fits (count + 1) high count"
    proof (cases "n \<le> count")
      case le: True
      have "count \<le> bisect fits (count + 1) high count"
        using bisect_sound [of fits "count + 1" high count] by auto
      with le show ?thesis by simp
    next
      case False
      then show ?thesis using 1(1) [OF go count_def True, of n] 1(3-) range by simp
    qed
    then show ?thesis using go True by (subst bisect.simps) (simp add: Let_def count_def [symmetric])
  next
    case False
    then have "n < count" using 1(6) 1(7) [of count n] range 1(3) by force
    then have "n \<le> bisect fits low (count - 1) accepted"
      using 1(2) [OF go count_def False, of n] 1(3-) by simp
    then show ?thesis using go False by (subst bisect.simps) (simp add: Let_def count_def [symmetric])
  qed
qed


definition batch_fits :: "(signed_route list \<Rightarrow> int) \<Rightarrow> int \<Rightarrow> int \<Rightarrow> signed_route list \<Rightarrow> bool" where
  "batch_fits encodedBytes target maxPayload b \<longleftrightarrow>
     b \<noteq> [] \<and> (encodedBytes b \<le> target \<or> length b = 1 \<and> encodedBytes b \<le> maxPayload)"

lemma split_from_sound:
  fixes encodedBytes :: "signed_route list \<Rightarrow> int"
  shows "case split_from encodedBytes target maxPayload routes of
     Inr chunks \<Rightarrow> concat chunks = routes \<and> (\<forall>b \<in> set chunks. batch_fits encodedBytes target maxPayload b)
   | Inl _ \<Rightarrow> \<exists>r \<in> set routes. encodedBytes [r] > maxPayload"
proof (induction encodedBytes target maxPayload routes rule: split_from.induct)
  case (1 encodedBytes target maxPayload routes)
  show ?case
  proof (cases "routes = []")
    case False
    define found where "found = bisect (\<lambda>count. encodedBytes (take (nat count) routes) \<le> target) 1 (int (length routes)) 0"
    define accepted where "accepted = max 1 (nat found)"
    have one: "take 1 routes = [hd routes]" using False by (cases routes) auto
    note run = split_from.simps [of encodedBytes target maxPayload routes]
    show ?thesis
    proof (cases "found = 0 \<and> encodedBytes (take 1 routes) > maxPayload")
      case True
      then show ?thesis using False one hd_in_set [OF False] by (subst run) (auto simp: found_def Let_def)
    next
      case ok: False
      have fits: "batch_fits encodedBytes target maxPayload (take accepted routes)"
      proof (cases "found = 0")
        case True
        then show ?thesis using ok one False by (simp add: batch_fits_def accepted_def)
      next
        case False
        then have "1 \<le> found \<and> encodedBytes (take (nat found) routes) \<le> target"
          using bisect_sound [of "\<lambda>count. encodedBytes (take (nat count) routes) \<le> target" 1 "int (length routes)" 0]
          by (auto simp: found_def [symmetric])
        then show ?thesis using \<open>routes \<noteq> []\<close> by (auto simp: batch_fits_def accepted_def max_def)
      qed
      have "case split_from encodedBytes target maxPayload (drop accepted routes) of
          Inr chunks \<Rightarrow> concat chunks = drop accepted routes \<and> (\<forall>b \<in> set chunks. batch_fits encodedBytes target maxPayload b)
        | Inl _ \<Rightarrow> \<exists>r \<in> set (drop accepted routes). encodedBytes [r] > maxPayload"
        using 1 [OF False found_def refl accepted_def ok] .
      moreover have "split_from encodedBytes target maxPayload routes
          = (case split_from encodedBytes target maxPayload (drop accepted routes) of
               Inl e \<Rightarrow> Inl e | Inr rest \<Rightarrow> Inr (take accepted routes # rest))"
        by (subst run) (simp only: Let_def found_def [symmetric] accepted_def [symmetric] False ok if_False)
      ultimately show ?thesis using fits by (auto split: sum.splits dest: in_set_dropD)
    qed
  qed (simp add: split_from.simps)
qed

text \<open>Where one more route never makes a batch smaller, no batch could have taken the first route of the next one.\<close>

lemma split_from_greedy:
  fixes encodedBytes :: "signed_route list \<Rightarrow> int"
  shows "split_from encodedBytes target maxPayload routes = Inr chunks \<Longrightarrow> \<forall>xs ys. encodedBytes xs \<le> encodedBytes (xs @ ys)
     \<Longrightarrow> successively (\<lambda>b b'. target < encodedBytes (b @ [hd b'])) chunks"
proof (induction encodedBytes target maxPayload routes arbitrary: chunks rule: split_from.induct)
  case (1 encodedBytes target maxPayload routes)
  show ?case
  proof (cases "routes = []")
    case True
    with 1(2) show ?thesis by (simp add: split_from.simps)
  next
    case False
    define fits where "fits = (\<lambda>count. encodedBytes (take (nat count) routes) \<le> target)"
    define found where "found = bisect fits 1 (int (length routes)) 0"
    define accepted where "accepted = max 1 (nat found)"
    note run = split_from.simps [of encodedBytes target maxPayload routes]
    have ok: "\<not> (found = 0 \<and> encodedBytes (take 1 routes) > maxPayload)"
      using 1(2) False by (subst (asm) run) (auto simp: found_def fits_def Let_def)
    then obtain rest where rest: "split_from encodedBytes target maxPayload (drop accepted routes) = Inr rest"
      and chunks: "chunks = take accepted routes # rest"
      using 1(2) False by (subst (asm) run) (auto simp: found_def fits_def accepted_def Let_def split: sum.splits if_splits)
    have ih: "successively (\<lambda>b b'. target < encodedBytes (b @ [hd b'])) rest"
      by (rule 1(1) [OF False _ refl _ _ rest 1(3)]) (use ok in \<open>simp_all add: found_def fits_def accepted_def\<close>)
    show ?thesis
    proof (cases rest)
      case Nil
      then show ?thesis by (simp add: chunks)
    next
      case (Cons b' bs)
      from split_from_sound [where encodedBytes = encodedBytes and target = target and maxPayload = maxPayload and routes = "drop accepted routes"] rest
      have "concat rest = drop accepted routes" "b' \<noteq> []" by (auto simp: Cons batch_fits_def)
      then have rest_routes: "drop accepted routes = hd b' # tl b' @ concat bs" using Cons by (cases b') auto
      then have inside: "accepted < length routes" by (metis drop_all list.distinct(1) not_le)
      have first: "hd b' = routes ! accepted" using hd_drop_conv_nth [OF inside] by (simp add: rest_routes)
      have grow: "fits m" if "0 < m" "m \<le> n" "fits n" for m n
      proof -
        have "take (nat n) routes = take (nat m) routes @ drop (nat m) (take (nat n) routes)"
          using that by (metis append_take_drop_id min.absorb1 nat_mono take_take)
        then have "encodedBytes (take (nat m) routes) \<le> encodedBytes (take (nat n) routes)" using 1(3) by metis
        with that(3) show ?thesis by (simp add: fits_def)
      qed
      have "\<not> fits (int (Suc accepted))"
      proof
        assume more: "fits (int (Suc accepted))"
        have "int (Suc accepted) \<le> found" unfolding found_def
          by (rule bisect_maximal [where fits = fits]) (use grow inside more in auto)
        then show False by (simp add: accepted_def)
      qed
      then have "target < encodedBytes (take accepted routes @ [hd b'])"
        unfolding fits_def nat_int take_Suc_conv_app_nth [OF inside] by (simp add: first)
      with ih show ?thesis by (simp add: chunks Cons)
    qed
  qed
qed

text \<open>
  C31. Batches carry every route and fit the splitter's own estimate. The estimate of a batch is the size of an envelope whose
  payload holds the compact batch and whose token is a placeholder of \<open>min 64 KiB (max 512 (maxPayloadBytes / 128))\<close> bytes; the target is
  the smaller of \<open>maxPayloadBytes\<close> and 4 MiB. The cut of a list of routes always ends: either in batches that, put together, are the
  routes in their order, none of them empty, each estimated at most at the target unless it is a single route within
  \<open>maxPayloadBytes\<close>, and, where one more route never makes the estimate smaller, none that could have taken the next route as well; or in
  an error, and then some single route is estimated over \<open>maxPayloadBytes\<close>. That is the estimate, not the message: what is sent has a
  message id, the stream's own fields and the live token, and is measured again by \<open>request\<close>; the reserve makes up for them
  only while they need no more than the placeholder does.
\<close>

theorem split_routes_sound:
  "let size = (\<lambda>b. msgpack_size (estimate_envelope c occurredAt messageType basePayload b));
       target = min (ci_maxPayloadBytes c) (4 * 1024 * 1024) in
   (case splitRoutesForPayload msgpack_size c occurredAt messageType basePayload routes of
     Inr chunks \<Rightarrow> concat chunks = routes
       \<and> (\<forall>b \<in> set chunks. b \<noteq> [] \<and> (size b \<le> target \<or> length b = 1 \<and> size b \<le> ci_maxPayloadBytes c))
       \<and> ((\<forall>xs ys. size xs \<le> size (xs @ ys)) \<longrightarrow> successively (\<lambda>b b'. target < size (b @ [hd b'])) chunks)
   | Inl _ \<Rightarrow> \<exists>r \<in> set routes. size [r] > ci_maxPayloadBytes c)
   \<and> (\<exists>envelope. estimate_envelope c occurredAt messageType basePayload b = JObj envelope
        \<and> map_of envelope ''auth_token''
            = Some (JStr (replicate (nat (min (64 * 1024) (max 512 (ci_maxPayloadBytes c div 128)))) (CHR ''x'')))
        \<and> map_of envelope ''payload''
            = Some (JObj (obj_put basePayload [(''route_batch'', compact_batch_json (compactSignedRoutes b))])))"
proof -
  let ?size = "\<lambda>b. msgpack_size (estimate_envelope c occurredAt messageType basePayload b)"
  have target: "targetPayloadBytes c = min (ci_maxPayloadBytes c) (4 * 1024 * 1024)"
    by (simp add: targetPayloadBytes_def BEAM_ROUTE_TARGET_PAYLOAD_BYTES_def)
  have greedy: "successively (\<lambda>b b'. targetPayloadBytes c < ?size (b @ [hd b'])) chunks"
    if "splitRoutesForPayload msgpack_size c occurredAt messageType basePayload routes = Inr chunks"
      "\<forall>xs ys. ?size xs \<le> ?size (xs @ ys)" for chunks
    using split_from_greedy [where encodedBytes = ?size] that by (simp add: splitRoutesForPayload_def)
  have "case splitRoutesForPayload msgpack_size c occurredAt messageType basePayload routes of
     Inr chunks \<Rightarrow> concat chunks = routes \<and> (\<forall>b \<in> set chunks. batch_fits ?size (targetPayloadBytes c) (ci_maxPayloadBytes c) b)
   | Inl _ \<Rightarrow> \<exists>r \<in> set routes. ?size [r] > ci_maxPayloadBytes c"
    using split_from_sound [where encodedBytes = ?size] unfolding splitRoutesForPayload_def .
  then show ?thesis unfolding Let_def target [symmetric]
    using greedy
    by (auto simp: batch_fits_def estimate_envelope_def authTokenEstimateBytes_def ROUTE_BATCH_AUTH_TOKEN_ESTIMATE_BYTES_def
        split: sum.splits)
qed

definition demo_control :: control_identity where
  "demo_control = \<lparr>ci_environment = ''prod'', ci_keyPrefix = ''key'', ci_maxPayloadBytes = 1000\<rparr>"

theorem split_routes_sound_witness:
  "\<exists>chunks. splitRoutesForPayload (\<lambda>_. 10) demo_control ''now'' ''transfer.route_stream.batch'' [] [demo_route ''x'' 0, demo_route ''y'' 1] = Inr chunks
     \<and> concat chunks = [demo_route ''x'' 0, demo_route ''y'' 1]"
  using split_routes_sound [where msgpack_size = "\<lambda>_. 10" and c = demo_control and occurredAt = "''now''"
      and messageType = "''transfer.route_stream.batch''" and basePayload = "[]" and routes = "[demo_route ''x'' 0, demo_route ''y'' 1]" and b = "[]", unfolded Let_def, THEN conjunct1]
  by (auto simp: demo_control_def split: sum.splits)

text \<open>
  With a small limit the target leaves the message no room beyond the placeholder of 512 bytes: the message id and a live token
  that need more go over the limit.
\<close>

lemma small_payload_reserve:
  "ci_maxPayloadBytes c = 65536 \<Longrightarrow> targetPayloadBytes c = 65536 \<and> authTokenEstimateBytes c = 512"
  by (simp add: targetPayloadBytes_def authTokenEstimateBytes_def BEAM_ROUTE_TARGET_PAYLOAD_BYTES_def
      ROUTE_BATCH_AUTH_TOKEN_ESTIMATE_BYTES_def)

end
