(* ===== verification/SdkProviders.thy ===== *)
theory SdkProviders
  imports SdkRoutes Effects
begin

text \<open>
  Signing for the storage providers (\<open>sdks/typescript/src/provider-signing.ts\<close>): which provider a configuration names, how
  its client is set up, the commands that are presigned, the grants for ranges of sources and destinations, and the
  expiry a grant may claim. A configuration is the JSON object the caller gave. Presigning, the calls to the providers,
  the query of a URL and the clock are parameters; every presigned command is one event.
\<close>

subsection \<open>Providers\<close>

definition has_key :: "json \<Rightarrow> string \<Rightarrow> bool" where
  "has_key config k \<longleftrightarrow> jget config k \<noteq> None"

definition hasText :: "json option \<Rightarrow> bool" where
  "hasText value = (case value of Some (JStr s) \<Rightarrow> trim s \<noteq> [] | _ \<Rightarrow> False)"

text \<open>A text of the configuration that its type makes present.\<close>

definition config_text :: "json \<Rightarrow> string \<Rightarrow> string" where
  "config_text config k = coalesce (as_str (jget config k)) ''undefined''"

definition isS3CompatibleProvider :: "json \<Rightarrow> bool" where
  "isS3CompatibleProvider config \<longleftrightarrow>
     jget config ''provider'' = Some (JStr ''s3'') \<or> jget config ''provider'' = Some (JStr ''r2'')
     \<or> jget config ''driver'' = Some (JStr ''s3-compatible'')
     \<or> has_key config ''access_key_id'' \<and> has_key config ''secret_access_key''"

definition isHippiusProvider :: "json \<Rightarrow> bool" where
  "isHippiusProvider config \<longleftrightarrow> jget config ''provider'' = Some (JStr ''hippius'') \<and> has_key config ''api_token''"

definition isHuggingFaceProvider :: "json \<Rightarrow> bool" where
  "isHuggingFaceProvider config \<longleftrightarrow> jget config ''provider'' = Some (JStr ''huggingface'') \<and> has_key config ''repo_id''"

text \<open>\<open>isDirectPutDestination\<close> of \<open>client.ts\<close>.\<close>

definition isDirectPutDestination :: "json \<Rightarrow> bool" where
  "isDirectPutDestination destination \<longleftrightarrow> isHippiusProvider destination \<or> isHuggingFaceProvider destination"

definition unsupportedProviderConfig :: "json \<Rightarrow> string" where
  "unsupportedProviderConfig value = ''Unsupported provider config: '' @ stringify value"

definition s3CompatibleEndpoint :: "json \<Rightarrow> string + string option" where
  "s3CompatibleEndpoint source =
     (if hasText (jget source ''endpoint_url'') then Inr (as_str (jget source ''endpoint_url''))
      else if jget source ''provider'' = Some (JStr ''r2'') then
        (if hasText (jget source ''account_id'') then
           Inr (Some (''https://'' @ config_text source ''account_id'' @ ''.r2.cloudflarestorage.com''))
         else Inl ''r2 config requires account_id or endpoint_url.'')
      else if jget source ''provider'' \<noteq> Some (JStr ''s3'') then
        Inl (config_text source ''provider'' @ '' config requires endpoint_url.'')
      else Inr None)"

definition s3CompatibleRegion :: "json \<Rightarrow> string" where
  "s3CompatibleRegion source =
     (if hasText (jget source ''region'') then config_text source ''region''
      else if jget source ''provider'' = Some (JStr ''r2'') then ''auto'' else ''us-east-1'')"

definition s3CompatibleForcePathStyle :: "json \<Rightarrow> string option \<Rightarrow> bool option" where
  "s3CompatibleForcePathStyle source endpoint =
     (case jget source ''force_path_style'' of
        Some (JBool b) \<Rightarrow> Some b
      | _ \<Rightarrow> if jget source ''provider'' = Some (JStr ''s3'') then None else Some (truthy endpoint \<noteq> None))"

definition compactMetadata :: "(string \<times> json option) list \<Rightarrow> (string \<times> json) list" where
  "compactMetadata input = concat (map (\<lambda>(k, v). case v of None \<Rightarrow> [] | Some j \<Rightarrow> [(k, j)]) input)"

definition s3CompatibleMetadata :: "json \<Rightarrow> string option \<Rightarrow> (string \<times> json) list" where
  "s3CompatibleMetadata source endpoint = compactMetadata
     [(''driver'', Some (JStr ''s3-compatible'')), (''bucket'', jget source ''bucket''), (''key'', jget source ''key''),
      (''region'', Some (JStr (s3CompatibleRegion source))), (''storage_location'', jget source ''storage_location''),
      (''endpoint_url'', map_option JStr endpoint), (''account_id'', jget source ''account_id'')]"

text \<open>A client is reused only for a configuration whose key has not changed.\<close>

definition s3ClientCacheKey :: "json \<Rightarrow> string option \<Rightarrow> string" where
  "s3ClientCacheKey source endpoint = stringify (JObj (compactMetadata
     [(''provider'', jget source ''provider''), (''endpoint'', map_option JStr endpoint),
      (''region'', Some (JStr (s3CompatibleRegion source))),
      (''forcePathStyle'', map_option JBool (s3CompatibleForcePathStyle source endpoint)),
      (''accessKeyId'', jget source ''access_key_id''), (''secretAccessKey'', jget source ''secret_access_key''),
      (''sessionToken'', jget source ''session_token'')]))"

text \<open>\<open>filename\<close>: the last part of a key that is not empty.\<close>

definition filename_of :: "string \<Rightarrow> string" where
  "filename_of key = (case filter (\<lambda>s. s \<noteq> []) (split_on (CHR ''/'') key) of [] \<Rightarrow> key | parts \<Rightarrow> last parts)"

text \<open>What the S3 client of a cached entry sees: the setup of the client it was made for.\<close>

definition client_setup :: "json \<Rightarrow> string + string" where
  "client_setup config =
     (case s3CompatibleEndpoint config of Inl e \<Rightarrow> Inl e | Inr endpoint \<Rightarrow> Inr (s3ClientCacheKey config endpoint))"

text \<open>\<open>createS3CompatibleClient\<close> with its cache: for each configuration object, the identity its client was made with.\<close>

definition createS3CompatibleClient ::
  "(nat \<times> string) list \<Rightarrow> nat \<Rightarrow> json \<Rightarrow> string + string \<times> (nat \<times> string) list" where
  "createS3CompatibleClient cache source_object config =
     (case client_setup config of
        Inl e \<Rightarrow> Inl e
      | Inr identity \<Rightarrow>
          if map_of cache source_object = Some identity then Inr (identity, cache)
          else Inr (identity, amap_set source_object identity cache))"

subsection \<open>The lifetime a grant claims\<close>

text \<open>
  Times are milliseconds since the epoch. \<open>sign_query\<close> is the query of a URL, in order; \<open>URLSearchParams.get\<close> takes the
  first value of a name.
\<close>

definition amz_date :: "string \<Rightarrow> bool" where
  "amz_date s \<longleftrightarrow> length s = 16 \<and> s ! 8 = CHR ''T'' \<and> s ! 15 = CHR ''Z''
     \<and> list_all (\<lambda>c. digit_val c \<noteq> None) (take 8 s @ take 6 (drop 9 s))"

definition amz_start :: "string \<Rightarrow> int option" where
  "amz_start s = date_parse (take 4 s @ ''-'' @ take 2 (drop 4 s) @ ''-'' @ take 2 (drop 6 s) @ ''T''
     @ take 2 (drop 9 s) @ '':'' @ take 2 (drop 11 s) @ '':'' @ take 2 (drop 13 s) @ ''Z'')"

text \<open>The end of the lifetime the provider's parameters state, when they state one.\<close>

definition provider_expiry :: "(string \<times> string) list \<Rightarrow> string \<Rightarrow> rat option" where
  "provider_expiry query family =
     (case (truthy (map_of query (family @ ''-Date'')), map_of query (family @ ''-Expires'')) of
        (Some date, Some expires) \<Rightarrow>
          (case (amz_date date, js_number expires, amz_start date) of
             (True, Some duration, Some start) \<Rightarrow> if duration > 0 then Some (of_int start + duration * 1000) else None
           | _ \<Rightarrow> None)
      | _ \<Rightarrow> None)"

definition epoch_expiry :: "(string \<times> string) list \<Rightarrow> rat option" where
  "epoch_expiry query =
     (case map_of query ''Expires'' of
        None \<Rightarrow> None
      | Some shown \<Rightarrow> (case js_number shown of None \<Rightarrow> None | Some q \<Rightarrow> if q > 0 then Some (q * 1000) else None))"

definition stated_expiries :: "(string \<times> string) list \<Rightarrow> rat list" where
  "stated_expiries query = concat (map (\<lambda>e. case e of None \<Rightarrow> [] | Some t \<Rightarrow> [t])
     [provider_expiry query ''X-Amz'', provider_expiry query ''X-Goog'', epoch_expiry query])"

text \<open>\<open>new Date(t).toISOString()\<close>: the time is cut to whole milliseconds; one out of range throws.\<close>

definition trunc_time :: "rat \<Rightarrow> int" where
  "trunc_time t = (if t \<ge> 0 then \<lfloor>t\<rfloor> else \<lceil>t\<rceil>)"

definition iso_time :: "rat \<Rightarrow> string + string" where
  "iso_time t = (if \<bar>trunc_time t\<bar> > 8640000000000000 then Inl ''Invalid time value'' else Inr (toISOString (trunc_time t)))"

definition bounded_expiry :: "(string \<times> string) list \<Rightarrow> int \<Rightarrow> rat" where
  "bounded_expiry query upper = foldl min (of_int upper) (stated_expiries query)"

definition boundedGrantExpiry :: "(string \<Rightarrow> string + (string \<times> string) list) \<Rightarrow> string \<Rightarrow> string \<Rightarrow> string + string" where
  "boundedGrantExpiry sign_query url upperBound =
     (case sign_query url of
        Inl e \<Rightarrow> Inl e
      | Inr query \<Rightarrow>
          (case date_parse upperBound of
             None \<Rightarrow> Inl ''Invalid time value''
           | Some upper \<Rightarrow> iso_time (bounded_expiry query upper)))"

lemma foldl_min_le: "foldl min (a :: rat) xs \<le> a \<and> (\<forall>x \<in> set xs. foldl min a xs \<le> x)"
proof (induction xs arbitrary: a)
  case (Cons x xs)
  from Cons [of "min a x"] show ?case by auto
qed simp

lemma foldl_min_mem: "foldl min (a :: rat) xs \<in> set (a # xs)"
proof (induction xs arbitrary: a)
  case (Cons x xs)
  from Cons [of "min a x"] show ?case by (auto simp: min_def split: if_splits)
qed simp

text \<open>
  The ends of life a URL states, read off its parameters: a signing date of S3 or of Google, \<open>YYYYMMDDTHHMMSSZ\<close>, with a positive number
  of seconds after it, or a positive \<open>Expires\<close> in seconds since the epoch.
\<close>

definition url_states :: "(string \<times> string) list \<Rightarrow> rat \<Rightarrow> bool" where
  "url_states query t \<longleftrightarrow>
     (\<exists>family date expires start seconds. (family = ''X-Amz'' \<or> family = ''X-Goog'')
        \<and> map_of query (family @ ''-Date'') = Some date \<and> amz_date date \<and> amz_start date = Some start
        \<and> map_of query (family @ ''-Expires'') = Some expires \<and> js_number expires = Some seconds \<and> 0 < seconds
        \<and> t = of_int start + seconds * 1000)
     \<or> (\<exists>expires seconds. map_of query ''Expires'' = Some expires \<and> js_number expires = Some seconds \<and> 0 < seconds
          \<and> t = seconds * 1000)"

lemma provider_expiry_states:
  "provider_expiry query family = Some t \<longleftrightarrow>
     (\<exists>date expires start seconds. map_of query (family @ ''-Date'') = Some date \<and> amz_date date \<and> amz_start date = Some start
        \<and> map_of query (family @ ''-Expires'') = Some expires \<and> js_number expires = Some seconds \<and> 0 < seconds
        \<and> t = of_int start + seconds * 1000)"
proof (cases "map_of query (family @ ''-Date'')")
  case (Some date)
  have "amz_date date \<Longrightarrow> date \<noteq> []" by (auto simp: amz_date_def)
  then show ?thesis
    by (cases date) (auto simp: Some provider_expiry_def truthy_def simp del: map_of_eq_Some_iff split: option.splits bool.splits)
qed (auto simp: provider_expiry_def truthy_def simp del: map_of_eq_Some_iff)

lemma epoch_expiry_states:
  "epoch_expiry query = Some t \<longleftrightarrow>
     (\<exists>expires seconds. map_of query ''Expires'' = Some expires \<and> js_number expires = Some seconds \<and> 0 < seconds \<and> t = seconds * 1000)"
  by (auto simp: epoch_expiry_def simp del: map_of_eq_Some_iff split: option.splits)

lemma stated_expiries_states: "t \<in> set (stated_expiries query) \<longleftrightarrow> url_states query t"
proof -
  have "t \<in> set (stated_expiries query) \<longleftrightarrow> provider_expiry query ''X-Amz'' = Some t \<or> provider_expiry query ''X-Goog'' = Some t
      \<or> epoch_expiry query = Some t"
    by (auto simp: stated_expiries_def split: option.splits)
  then show ?thesis unfolding provider_expiry_states epoch_expiry_states url_states_def by blast
qed

text \<open>
  C21. A grant never claims a longer life than its URL has. The expiry it advertises is at most the bound it was asked for and
  at most every end of life the parameters of the URL state: for S3 and for Google the signing date plus the seconds after it, and the
  \<open>Expires\<close> of a plain signed URL; and it is one of those times, cut to the millisecond.
\<close>

theorem grant_expiry_bounded:
  assumes "boundedGrantExpiry sign_query url upperBound = Inr expiry"
  shows "\<exists>query upper t. sign_query url = Inr query \<and> date_parse upperBound = Some upper
    \<and> expiry = toISOString (trunc_time t) \<and> t \<le> of_int upper \<and> (\<forall>stated. url_states query stated \<longrightarrow> t \<le> stated)
    \<and> (t = of_int upper \<or> url_states query t)"
proof -
  from assms obtain query upper where q: "sign_query url = Inr query" "date_parse upperBound = Some upper"
    and e: "iso_time (bounded_expiry query upper) = Inr expiry"
    by (auto simp: boundedGrantExpiry_def split: sum.splits option.splits)
  let ?t = "bounded_expiry query upper"
  from e have "expiry = toISOString (trunc_time ?t)" by (simp add: iso_time_def split: if_splits)
  moreover have "?t \<le> of_int upper" "\<forall>stated. url_states query stated \<longrightarrow> ?t \<le> stated"
    using foldl_min_le [of "of_int upper" "stated_expiries query"] by (simp_all add: bounded_expiry_def stated_expiries_states)
  moreover have "?t = of_int upper \<or> url_states query ?t"
    using foldl_min_mem [of "of_int upper" "stated_expiries query"] by (auto simp: bounded_expiry_def stated_expiries_states)
  ultimately show ?thesis using q by blast
qed

theorem grant_expiry_bounded_witness:
  "boundedGrantExpiry (\<lambda>_. Inr [(''X-Amz-Date'', ''20260101T000000Z''), (''X-Amz-Expires'', ''60'')]) ''u'' ''2026-01-01T01:00:00.000Z''
     = Inr ''2026-01-01T00:01:00.000Z''
   \<and> (\<exists>query upper t. Inr [(''X-Amz-Date'', ''20260101T000000Z''), (''X-Amz-Expires'', ''60'')] = (Inr query :: string + (string \<times> string) list)
       \<and> date_parse ''2026-01-01T01:00:00.000Z'' = Some upper
       \<and> ''2026-01-01T00:01:00.000Z'' = toISOString (trunc_time t) \<and> t \<le> of_int upper
       \<and> (t = of_int upper \<or> url_states query t))"
proof -
  have run: "boundedGrantExpiry (\<lambda>_. Inr [(''X-Amz-Date'', ''20260101T000000Z''), (''X-Amz-Expires'', ''60'')]) ''u'' ''2026-01-01T01:00:00.000Z''
     = Inr ''2026-01-01T00:01:00.000Z''" by code_simp
  from run grant_expiry_bounded [OF run] show ?thesis by blast
qed

subsection \<open>Ranges\<close>

definition rangeHeaderForRange :: "int \<Rightarrow> int \<Rightarrow> string" where
  "rangeHeaderForRange sourceOffset chunkSize =
     (let start = max 0 sourceOffset; psize = max 1 chunkSize in
      ''bytes='' @ show_int start @ ''-'' @ show_int (start + psize - 1))"

definition rangeHeaderForChunk :: "chunk_item \<Rightarrow> string" where
  "rangeHeaderForChunk chunk = rangeHeaderForRange (ch_source_offset chunk) (ch_chunk_size chunk)"

subsection \<open>Presigned requests\<close>

text \<open>The commands of the S3 client that are presigned: bucket, key and the parameters that are set.\<close>

datatype storage_command =
  Get_object string string string "string option" "string option"
| Put_object string string "string option"
| Head_object string string
| Upload_part string string string int "string option"
| Upload_part_copy string string string int string "string option"
| Delete_object string string
| List_objects string string "string option"
| Complete_upload string string string
| Abort_upload string string string
| List_parts string string string "int option" "string option"

datatype signing_event =
  Ev_presign json storage_command int "string + string"
| Ev_hippius string string string string int "string + (int \<times> json)"
| Ev_hub json "string + (string \<times> int \<times> string option \<times> string option)"
| Ev_created json string "string + string option"
| Ev_aborted json string string "string + unit"
| Ev_group_ready string "string + unit"
| Ev_group_failed string
| Ev_cancel "string + bool \<times> string option"

record 'w signing_env =
  sn_presign :: "json \<Rightarrow> storage_command \<Rightarrow> int \<Rightarrow> 'w \<Rightarrow> (string + string) \<times> 'w"
  sn_hippius :: "string \<Rightarrow> string \<Rightarrow> string \<Rightarrow> string \<Rightarrow> int \<Rightarrow> string \<Rightarrow> 'w \<Rightarrow> (string + (int \<times> json)) \<times> 'w"
  sn_hub_file :: "json \<Rightarrow> 'w \<Rightarrow> (string + (string \<times> int \<times> string option \<times> string option)) \<times> 'w"
  sn_create_upload :: "json \<Rightarrow> string \<Rightarrow> (string \<times> string) list \<Rightarrow> 'w \<Rightarrow> (string + string option) \<times> 'w"
  sn_abort_upload :: "json \<Rightarrow> string \<Rightarrow> string \<Rightarrow> 'w \<Rightarrow> (string + unit) \<times> 'w"
  sn_query :: "string \<Rightarrow> string + (string \<times> string) list"
  sn_now :: "'w \<Rightarrow> int"
  sn_aborted :: "'w \<Rightarrow> bool"

type_synonym ('w, 'a) sgn = "('w, signing_event, 'a) act"

definition throw_a :: "string \<Rightarrow> ('w, 'a) sgn" where
  "throw_a e = lift_a (Inl e)"

definition clock_a :: "'w signing_env \<Rightarrow> ('w, int) sgn" where
  "clock_a env s = (Inr (sn_now env (fst s)), s)"

definition expiresAtIso :: "'w signing_env \<Rightarrow> int \<Rightarrow> ('w, string) sgn" where
  "expiresAtIso env expiresIn = bind_a (clock_a env) (\<lambda>now. return_a (toISOString ((now div 1000 + expiresIn) * 1000)))"

text \<open>\<open>createS3CompatibleClient\<close> throws for a configuration without an endpoint; then the command is presigned.\<close>

definition presign :: "'w signing_env \<Rightarrow> json \<Rightarrow> storage_command \<Rightarrow> int \<Rightarrow> ('w, string) sgn" where
  "presign env config command expiresIn =
     bind_a (lift_a (s3CompatibleEndpoint config)) (\<lambda>_.
       call (Ev_presign config command expiresIn) (sn_presign env config command expiresIn))"

text \<open>The Hippius service signs for a token; its answer carries the URL. An answer that is not a success throws.\<close>

definition hippiusPresign ::
  "'w signing_env \<Rightarrow> string \<Rightarrow> string \<Rightarrow> string \<Rightarrow> string \<Rightarrow> string \<Rightarrow> int \<Rightarrow> ('w, string) sgn" where
  "hippiusPresign env baseUrl token bucket key action expiresIn =
     bind_a (call (Ev_hippius baseUrl bucket key action expiresIn) (sn_hippius env baseUrl bucket key action expiresIn token)) (\<lambda>(status, payload).
       if 200 \<le> status \<and> status \<le> 299 then
         return_a (case jget payload ''url'' of None \<Rightarrow> ''undefined'' | Some u \<Rightarrow> js_string u)
       else throw_a (''Hippius presigned URL failed status='' @ show_int status))"

definition hippius_url :: "'w signing_env \<Rightarrow> json \<Rightarrow> string \<Rightarrow> string \<Rightarrow> int \<Rightarrow> ('w, string) sgn" where
  "hippius_url env config key action expiresIn =
     hippiusPresign env (coalesce (as_str (jget config ''base_url'')) ''https://api.hippius.com'') (config_text config ''api_token'')
       (config_text config ''bucket'') key action expiresIn"

definition hub_url :: "'w signing_env \<Rightarrow> json \<Rightarrow> ('w, string) sgn" where
  "hub_url env config = bind_a (call (Ev_hub config) (sn_hub_file env config)) (\<lambda>(url, _). return_a url)"

definition range_headers :: "string \<Rightarrow> string option \<Rightarrow> (string \<times> string) list" where
  "range_headers rng ifMatch = (''Range'', rng)
     # (case truthy ifMatch of None \<Rightarrow> [] | Some m \<Rightarrow> [(''If-Match'', m)])"

definition signSourceReadRange ::
  "'w signing_env \<Rightarrow> json \<Rightarrow> string option \<Rightarrow> string option \<Rightarrow> int \<Rightarrow> int \<Rightarrow> int \<Rightarrow> ('w, string \<times> (string \<times> string) list) sgn" where
  "signSourceReadRange env source ifMatch versionId offset len expiresIn =
     (let rng = rangeHeaderForRange offset len in
      if isS3CompatibleProvider source then
        bind_a (presign env source (Get_object (config_text source ''bucket'') (config_text source ''key'') rng ifMatch versionId) expiresIn)
          (\<lambda>url. return_a (url, range_headers rng ifMatch))
      else if truthy ifMatch \<noteq> None \<or> truthy versionId \<noteq> None then throw_a ''conditional source ranges require S3-compatible storage''
      else if isHippiusProvider source then
        bind_a (hippius_url env source (config_text source ''key'') ''get'' expiresIn) (\<lambda>url. return_a (url, [(''Range'', rng)]))
      else if isHuggingFaceProvider source then bind_a (hub_url env source) (\<lambda>url. return_a (url, [(''Range'', rng)]))
      else throw_a (unsupportedProviderConfig source))"

definition signDestinationReadRange ::
  "'w signing_env \<Rightarrow> json \<Rightarrow> string \<Rightarrow> string option \<Rightarrow> int \<Rightarrow> int \<Rightarrow> int \<Rightarrow> ('w, string \<times> (string \<times> string) list) sgn" where
  "signDestinationReadRange env destination objectKey ifMatch offset len expiresIn =
     (let rng = rangeHeaderForRange offset len in
      if isS3CompatibleProvider destination then
        bind_a (presign env destination (Get_object (config_text destination ''bucket'') objectKey rng ifMatch None) expiresIn)
          (\<lambda>url. return_a (url, range_headers rng ifMatch))
      else if truthy ifMatch \<noteq> None then throw_a ''conditional destination ranges require S3-compatible storage''
      else if isHippiusProvider destination then
        bind_a (hippius_url env destination objectKey ''get'' expiresIn) (\<lambda>url. return_a (url, [(''Range'', rng)]))
      else if isHuggingFaceProvider destination then
        bind_a (hub_url env (case destination of JObj kvs \<Rightarrow> JObj (amap_set ''path'' (JStr objectKey) kvs) | _ \<Rightarrow> destination))
          (\<lambda>url. return_a (url, [(''Range'', rng)]))
      else throw_a (unsupportedProviderConfig destination))"

definition signSourceRoute ::
  "'w signing_env \<Rightarrow> json option \<Rightarrow> string \<Rightarrow> chunk_item \<Rightarrow> string option \<Rightarrow> string option \<Rightarrow> int
   \<Rightarrow> ('w, string \<times> (string \<times> string) list) sgn" where
  "signSourceRoute env source fallbackUrl chunk ifMatch versionId expiresIn =
     (let rng = rangeHeaderForChunk chunk in
      case source of
        None \<Rightarrow> return_a (fallbackUrl, [(''Range'', rng)])
      | Some config \<Rightarrow>
          if isS3CompatibleProvider config then
            bind_a (presign env config (Get_object (config_text config ''bucket'') (config_text config ''key'') rng ifMatch versionId) expiresIn)
              (\<lambda>url. return_a (url, range_headers rng ifMatch))
          else if isHippiusProvider config then
            bind_a (hippius_url env config (config_text config ''key'') ''get'' expiresIn) (\<lambda>url. return_a (url, [(''Range'', rng)]))
          else if isHuggingFaceProvider config then bind_a (hub_url env config) (\<lambda>url. return_a (url, [(''Range'', rng)]))
          else throw_a (unsupportedProviderConfig config))"

record source_grant =
  gr_url :: string
  gr_headers :: "(string \<times> string) list"
  gr_expiresAt :: string

definition signSourceChunk ::
  "'w signing_env \<Rightarrow> json option \<Rightarrow> string \<Rightarrow> chunk_item \<Rightarrow> string option \<Rightarrow> string option \<Rightarrow> int \<Rightarrow> ('w, source_grant) sgn" where
  "signSourceChunk env source fallbackUrl chunk ifMatch versionId expiresIn =
     bind_a (expiresAtIso env expiresIn) (\<lambda>expiresAt.
     bind_a (signSourceRoute env source fallbackUrl chunk ifMatch versionId expiresIn) (\<lambda>(url, headers).
     bind_a (lift_a (boundedGrantExpiry (sn_query env) url expiresAt)) (\<lambda>bounded.
       return_a \<lparr>gr_url = url, gr_headers = headers, gr_expiresAt = bounded\<rparr>)))"

definition signDestinationUrl ::
  "'w signing_env \<Rightarrow> string option \<Rightarrow> json \<Rightarrow> string \<Rightarrow> string option \<Rightarrow> int option \<Rightarrow> int \<Rightarrow> ('w, string) sgn" where
  "signDestinationUrl env contentMd5 destination objectKey uploadId partNumber expiresIn =
     (if isS3CompatibleProvider destination then
        (case (truthy uploadId, partNumber) of
           (Some upload, Some part) \<Rightarrow>
             if part \<noteq> 0 then presign env destination (Upload_part (config_text destination ''bucket'') objectKey upload part contentMd5) expiresIn
             else presign env destination (Put_object (config_text destination ''bucket'') objectKey contentMd5) expiresIn
         | _ \<Rightarrow> presign env destination (Put_object (config_text destination ''bucket'') objectKey contentMd5) expiresIn)
      else if truthy contentMd5 \<noteq> None then throw_a ''checksum-bound uploads require S3-compatible storage''
      else if isHippiusProvider destination then hippius_url env destination objectKey ''put'' expiresIn
      else throw_a (unsupportedProviderConfig destination))"

text \<open>The control URLs of an upload.\<close>

definition sign_control :: "'w signing_env \<Rightarrow> string \<Rightarrow> json \<Rightarrow> storage_command \<Rightarrow> int \<Rightarrow> ('w, string) sgn" where
  "sign_control env what destination command expiresIn =
     (if isS3CompatibleProvider destination then presign env destination command expiresIn
      else throw_a (what @ '' is not supported for '' @ config_text destination ''provider''))"

definition createMultipartUpload :: "'w signing_env \<Rightarrow> json \<Rightarrow> string \<Rightarrow> (string \<times> string) list \<Rightarrow> ('w, string) sgn" where
  "createMultipartUpload env destination objectKey metadata =
     (if isS3CompatibleProvider destination then
        bind_a (lift_a (s3CompatibleEndpoint destination)) (\<lambda>_.
        bind_a (call (Ev_created destination objectKey) (sn_create_upload env destination objectKey metadata)) (\<lambda>uploadId.
          case truthy uploadId of
            None \<Rightarrow> throw_a (''provider did not return UploadId for '' @ objectKey)
          | Some u \<Rightarrow> return_a u))
      else throw_a (''multipart upload is not supported for '' @ config_text destination ''provider''))"

definition abortMultipartUpload :: "'w signing_env \<Rightarrow> json \<Rightarrow> string \<Rightarrow> string \<Rightarrow> ('w, unit) sgn" where
  "abortMultipartUpload env destination objectKey uploadId =
     (if isS3CompatibleProvider destination then
        bind_a (lift_a (s3CompatibleEndpoint destination)) (\<lambda>_.
          call (Ev_aborted destination objectKey uploadId) (sn_abort_upload env destination objectKey uploadId))
      else throw_a (''multipart abort is not supported for '' @ config_text destination ''provider''))"

definition signFinalObjectHead :: "'w signing_env \<Rightarrow> json \<Rightarrow> string \<Rightarrow> int \<Rightarrow> ('w, string) sgn" where
  "signFinalObjectHead env destination objectKey expiresIn =
     sign_control env ''final object HEAD signing'' destination (Head_object (config_text destination ''bucket'') objectKey) expiresIn"

definition signCompleteMultipartUpload :: "'w signing_env \<Rightarrow> json \<Rightarrow> string \<Rightarrow> string \<Rightarrow> int \<Rightarrow> ('w, string) sgn" where
  "signCompleteMultipartUpload env destination objectKey uploadId expiresIn =
     sign_control env ''multipart completion'' destination (Complete_upload (config_text destination ''bucket'') objectKey uploadId) expiresIn"

definition signAbortMultipartUpload :: "'w signing_env \<Rightarrow> json \<Rightarrow> string \<Rightarrow> string \<Rightarrow> int \<Rightarrow> ('w, string) sgn" where
  "signAbortMultipartUpload env destination objectKey uploadId expiresIn =
     sign_control env ''multipart abort'' destination (Abort_upload (config_text destination ''bucket'') objectKey uploadId) expiresIn"

definition signListMultipartUpload ::
  "'w signing_env \<Rightarrow> json \<Rightarrow> string \<Rightarrow> string \<Rightarrow> int \<Rightarrow> int option \<Rightarrow> int option \<Rightarrow> ('w, string) sgn" where
  "signListMultipartUpload env destination objectKey uploadId expiresIn maxParts partNumberMarker =
     sign_control env ''multipart list-parts'' destination
       (List_parts (config_text destination ''bucket'') objectKey uploadId maxParts (map_option show_int partNumberMarker)) expiresIn"

subsection \<open>Signed routes\<close>

record route_signing =
  rs_chunk :: chunk_item
  rs_target :: signing_target
  rs_source :: "json option"
  rs_sourceGrant :: "(string + source_grant) option"
  rs_destination :: json
  rs_expiresIn :: int
  rs_destUrl :: "string option"
  rs_uploadId :: "string option"
  rs_partNumber :: "int option"
  rs_urls :: "(string \<times> string option) list"
  rs_finalObjectKey :: "string option"
  rs_sizes :: "(string \<times> int option) list"
  rs_finalObjectMetadata :: "(string \<times> string) list option"
  rs_multipartGroupId :: "string option"

text \<open>
  The metadata of a signed route: that of the target, and what the multipart upload adds, present values only.
  \<open>rs_urls\<close> are the control URLs by their metadata keys in the code's order, \<open>rs_sizes\<close> the counts.
\<close>

definition text_entries :: "(string \<times> string option) list \<Rightarrow> (string \<times> json) list" where
  "text_entries kvs = concat (map (\<lambda>(k, v). case truthy v of None \<Rightarrow> [] | Some s \<Rightarrow> [(k, JStr s)]) kvs)"

definition signed_metadata :: "route_signing \<Rightarrow> (string \<times> json) list" where
  "signed_metadata input = obj_put (tg_metadata (rs_target input))
     (text_entries ([(''multipart_group_id'', rs_multipartGroupId input), (''upload_id'', rs_uploadId input)] @ rs_urls input
        @ [(''final_object_key'', rs_finalObjectKey input)])
      @ concat (map (\<lambda>(k, v). case v of None \<Rightarrow> [] | Some n \<Rightarrow> [(k, JNum n)]) (rs_sizes input))
      @ (case rs_finalObjectMetadata input of None \<Rightarrow> []
         | Some kvs \<Rightarrow> [(''final_object_metadata'', JObj (map (\<lambda>(k, v). (k, JStr v)) kvs))])
      @ (case rs_partNumber input of None \<Rightarrow> [] | Some n \<Rightarrow> if n = 0 then [] else [(''part_number'', JNum n)]))"

definition source_grant_of :: "'w signing_env \<Rightarrow> route_signing \<Rightarrow> ('w, source_grant) sgn" where
  "source_grant_of env input =
     (case rs_sourceGrant input of
        Some grant \<Rightarrow> lift_a grant
      | None \<Rightarrow> signSourceChunk env (rs_source input) (ch_source_url (rs_chunk input)) (rs_chunk input) None None (rs_expiresIn input))"

definition earlier_iso :: "string \<Rightarrow> string \<Rightarrow> string + string" where
  "earlier_iso a b = (case (date_parse a, date_parse b) of
      (Some x, Some y) \<Rightarrow> iso_time (of_int (min x y)) | _ \<Rightarrow> Inl ''Invalid time value'')"

definition signDestinationRoute :: "'w signing_env \<Rightarrow> route_signing \<Rightarrow> ('w, signed_route) sgn" where
  "signDestinationRoute env input =
     (let chunk = rs_chunk input; target = rs_target input in
      if tg_object_key target = [] then throw_a ''destination signing target is missing object_key''
      else
        bind_a (expiresAtIso env (rs_expiresIn input)) (\<lambda>destinationExpiresAt.
        bind_a (case rs_destUrl input of
            Some url \<Rightarrow> return_a url
          | None \<Rightarrow> signDestinationUrl env None (rs_destination input) (tg_object_key target) (rs_uploadId input)
              (rs_partNumber input) (rs_expiresIn input)) (\<lambda>destUrl.
        bind_a (source_grant_of env input) (\<lambda>grant.
        bind_a (lift_a (earlier_iso destinationExpiresAt (gr_expiresAt grant))) (\<lambda>upper.
        bind_a (lift_a (boundedGrantExpiry (sn_query env) destUrl upper)) (\<lambda>expires.
          return_a \<lparr>rt_source_id = ch_source_id chunk, rt_destination_id = tg_destination_id target,
            rt_chunk_index = ch_chunk_index chunk, rt_delivery_index = None, rt_source_url = gr_url grant,
            rt_dest_url = destUrl, rt_source_offset = ch_source_offset chunk, rt_chunk_size = ch_chunk_size chunk,
            rt_expires_at = Some expires, rt_headers = Some (gr_headers grant), rt_dest_headers = None,
            rt_metadata = Some (signed_metadata input)\<rparr>))))))"

subsection \<open>Grants for the recovery of a multipart upload\<close>

datatype recovery_operation = Op_upload | Op_controls | Op_list | Op_delete | Op_renew

record recovery_request =
  rq_operation :: recovery_operation
  rq_direct :: bool
  rq_attempt_id :: string
  rq_object_key :: "string option"
  rq_etag :: "string option"
  rq_continuation_token :: "string option"

record recovery_chunk =
  rc_recovery :: "recovery_request option"
  rc_source_id :: string
  rc_destination_id :: string
  rc_chunk_index :: int
  rc_delivery_index :: int
  rc_source_offset :: int
  rc_chunk_size :: int
  rc_logical_attempt_index :: int
  rc_attempt_slot :: int
  rc_part_number :: int
  rc_route_generation_id :: string
  rc_multipart_group_id :: string
  rc_final_object_key :: string
  rc_upload_id :: string
  rc_destination_metadata :: "(string \<times> json) list option"

definition obj_drop :: "string \<Rightarrow> (string \<times> json) list \<Rightarrow> (string \<times> json) list" where
  "obj_drop k kvs = filter (\<lambda>(k', _). k' \<noteq> k) kvs"

definition route_metadata :: "signed_route \<Rightarrow> (string \<times> json) list" where
  "route_metadata r = coalesce (rt_metadata r) []"

definition put_metadata :: "(string \<times> json) list \<Rightarrow> signed_route \<Rightarrow> signed_route" where
  "put_metadata kvs r = r\<lparr>rt_metadata := Some kvs\<rparr>"

text \<open>\<open>encodeURIComponent\<close> with the five characters it leaves alone escaped as well.\<close>

definition escape_byte :: "char \<Rightarrow> string" where
  "escape_byte c = [CHR ''%'', hex_upper (of_char c div 16), hex_upper (of_char c mod 16)]"

definition STRICT_ESCAPED :: string where
  "STRICT_ESCAPED = [CHR ''!'', CHR 0x27, CHR ''('', CHR '')'', CHR ''*'']"

definition strict_encode :: "string \<Rightarrow> string" where
  "strict_encode s = concat (map (\<lambda>c. if List.member STRICT_ESCAPED c then escape_byte c else [c]) (encodeURIComponent s))"

definition staging_prefix :: "string \<Rightarrow> recovery_chunk \<Rightarrow> string" where
  "staging_prefix transferId r =
     rc_final_object_key r @ ''.beam-recovery/'' @ transferId @ ''/'' @ strict_encode (rc_multipart_group_id r) @ ''/''"

definition staging_key :: "string \<Rightarrow> recovery_chunk \<Rightarrow> string \<Rightarrow> string" where
  "staging_key transferId r attemptId = staging_prefix transferId r @ show_int (rc_part_number r) @ ''/'' @ attemptId"

definition copy_source :: "string \<Rightarrow> string \<Rightarrow> string" where
  "copy_source bucket objectKey =
     encodeURIComponent bucket @ ''/'' @ join_with ''/'' (map encodeURIComponent (split_on (CHR ''/'') objectKey))"

definition strip_quotes :: "string \<Rightarrow> string" where
  "strip_quotes s =
     (let s1 = (case s of c # r \<Rightarrow> if c = CHR 34 then r else s | [] \<Rightarrow> []) in
      if s1 \<noteq> [] \<and> last s1 = CHR 34 then butlast s1 else s1)"

fun list_pages_from :: "'w signing_env \<Rightarrow> json \<Rightarrow> recovery_chunk \<Rightarrow> int \<Rightarrow> nat \<Rightarrow> nat \<Rightarrow> ('w, string list) sgn" where
  "list_pages_from env destination r expiresIn i 0 = return_a []"
| "list_pages_from env destination r expiresIn i (Suc n) =
     bind_a (signListMultipartUpload env destination (rc_final_object_key r) (rc_upload_id r) expiresIn (Some 1000) (Some (int i * 1000)))
       (\<lambda>url. bind_a (list_pages_from env destination r expiresIn (i + 1) n) (\<lambda>urls. return_a (url # urls)))"

definition renew_controls :: "'w signing_env \<Rightarrow> json \<Rightarrow> recovery_chunk \<Rightarrow> signed_route \<Rightarrow> int \<Rightarrow> ('w, signed_route) sgn" where
  "renew_controls env destination r route expiresIn =
     (case to_number (map_of (route_metadata route) ''expected_part_count'') of
        None \<Rightarrow> throw_a ''invalid multipart count''
      | Some q \<Rightarrow>
          if of_int \<lfloor>q\<rfloor> \<noteq> q \<or> q < 1 \<or> q > 10000 then throw_a ''invalid multipart count''
          else
            bind_a (signCompleteMultipartUpload env destination (rc_final_object_key r) (rc_upload_id r) expiresIn) (\<lambda>complete.
            bind_a (signAbortMultipartUpload env destination (rc_final_object_key r) (rc_upload_id r) expiresIn) (\<lambda>abort.
            bind_a (signFinalObjectHead env destination (rc_final_object_key r) expiresIn) (\<lambda>head.
            bind_a (list_pages_from env destination r expiresIn 0 (nat ((\<lfloor>q\<rfloor> + 999) div 1000))) (\<lambda>pages.
            bind_a (expiresAtIso env expiresIn) (\<lambda>expires.
              let i = (rc_part_number r - 1) div 1000 in
              return_a (put_metadata (obj_put (route_metadata route)
                ([(''complete_url'', JStr complete), (''abort_url'', JStr abort), (''final_head_url'', JStr head),
                  (''list_page_urls'', JArr (map JStr pages))]
                 @ (if 0 \<le> i \<and> nat i < length pages then [(''list_page_url'', JStr (pages ! nat i))] else [])
                 @ [(''control_urls_expires_at'', JStr expires)])) route)))))))"

definition signMultipartRecovery ::
  "'w signing_env \<Rightarrow> json \<Rightarrow> string \<Rightarrow> recovery_chunk \<Rightarrow> signed_route \<Rightarrow> int \<Rightarrow> ('w, signed_route) sgn" where
  "signMultipartRecovery env destination transferId r route expiresIn =
     (let bucket = config_text destination ''bucket''; kept = obj_drop ''recovery_staging'' (route_metadata route) in
      case rc_recovery r of
        None \<Rightarrow> return_a (put_metadata kept route)
      | Some request \<Rightarrow>
          if rq_operation request = Op_renew then renew_controls env destination r route expiresIn
          else if rq_direct request then return_a (put_metadata kept route)
          else if \<not> isS3CompatibleProvider destination then throw_a ''multipart recovery requires an S3-compatible destination''
          else
            (let prefix_key = staging_prefix transferId r; objectKey = staging_key transferId r (rq_attempt_id request) in
             if truthy (rq_object_key request) \<noteq> None \<and> rq_object_key request \<noteq> Some objectKey then
               throw_a ''recovery staging identity mismatch''
             else
               (case rq_operation request of
                  Op_list \<Rightarrow>
                    bind_a (presign env destination (List_objects bucket prefix_key (rq_continuation_token request)) expiresIn) (\<lambda>url.
                      return_a (put_metadata (amap_set ''recovery_listing'' (JObj [(''prefix'', JStr prefix_key), (''url'', JStr url)]) kept) route))
                | Op_delete \<Rightarrow>
                    bind_a (presign env destination (Delete_object bucket objectKey) expiresIn) (\<lambda>url.
                      return_a (put_metadata (amap_set ''recovery_delete'' (JObj [(''object_key'', JStr objectKey), (''url'', JStr url)]) kept) route))
                | operation \<Rightarrow>
                    (let copySource = copy_source bucket objectKey;
                         condition = (if jget destination ''provider'' = Some (JStr ''s3'')
                                      then map_option (\<lambda>e. CHR 34 # strip_quotes e @ [CHR 34]) (truthy (rq_etag request)) else None) in
                     bind_a (presign env destination (Head_object bucket objectKey) expiresIn) (\<lambda>head.
                     bind_a (presign env destination (Upload_part_copy bucket (rc_final_object_key r) (rc_upload_id r)
                       (rc_part_number r) copySource condition) expiresIn) (\<lambda>copy.
                     bind_a (presign env destination (Delete_object bucket objectKey) expiresIn) (\<lambda>remove.
                     bind_a (expiresAtIso env expiresIn) (\<lambda>expires.
                     (let staged = put_metadata (amap_set ''recovery_staging'' (JObj
                            [(''object_key'', JStr objectKey), (''attempt_id'', JStr (rq_attempt_id request)), (''head_url'', JStr head),
                             (''copy_url'', JStr copy), (''delete_url'', JStr remove),
                             (''copy_headers'', JObj ((''x-amz-copy-source'', JStr copySource)
                               # (case condition of None \<Rightarrow> [] | Some c \<Rightarrow> [(''x-amz-copy-source-if-match'', JStr c)]))),
                             (''expires_at'', JStr expires)]) kept) route in
                      if operation = Op_upload then
                        bind_a (presign env destination (Put_object bucket objectKey None) expiresIn) (\<lambda>put.
                          return_a (staged\<lparr>rt_dest_url := put\<rparr>))
                      else return_a staged)))))))))"

subsection \<open>Staging objects\<close>

lemma escape_byte_decode: "percent_decode (escape_byte c @ s) = map_option (\<lambda>t. c # t) (percent_decode s)"
proof -
  have "(of_char c :: nat) div 16 < 16" by (rule less_mult_imp_div_less) simp
  then show ?thesis by (simp add: escape_byte_def char_split)
qed

lemma escape_byte_no_slash: "CHR ''/'' \<notin> set (escape_byte c)"
proof -
  have "(of_char c :: nat) div 16 < 16" by (rule less_mult_imp_div_less) simp
  then show ?thesis by (simp add: escape_byte_def hex_upper_not_slash [symmetric])
qed

lemma hex_upper_not_escaped: "n < 16 \<Longrightarrow> hex_upper n \<notin> set STRICT_ESCAPED"
proof
  assume n: "n < 16" and "hex_upper n \<in> set STRICT_ESCAPED"
  then have "hex_value (hex_upper n) = None" by (auto simp: STRICT_ESCAPED_def hex_value_def)
  with n show False by simp
qed

lemma strict_char:
  "concat (map (\<lambda>c. if List.member STRICT_ESCAPED c then escape_byte c else [c]) (percent_char c)) =
   (if List.member STRICT_ESCAPED c then escape_byte c else percent_char c)"
proof (cases "unreserved c")
  case True
  then show ?thesis by (simp add: percent_char_def)
next
  case False
  then have "\<not> List.member STRICT_ESCAPED c" by (auto simp: STRICT_ESCAPED_def unreserved_def)
  moreover have "(of_char c :: nat) div 16 < 16" by (rule less_mult_imp_div_less) simp
  moreover have "\<not> List.member STRICT_ESCAPED (CHR ''%'')" by (simp add: STRICT_ESCAPED_def)
  ultimately show ?thesis using False by (simp add: percent_char_def hex_upper_not_escaped)
qed

lemma strict_encode_simps:
  "strict_encode [] = []"
  "strict_encode (c # s) = (if List.member STRICT_ESCAPED c then escape_byte c else percent_char c) @ strict_encode s"
  using strict_char [of c] by (simp_all add: strict_encode_def encodeURIComponent_def)

lemma strict_decode: "percent_decode (strict_encode s) = Some s"
  by (induction s) (simp_all add: strict_encode_simps escape_byte_decode percent_decode_char)

lemma strict_no_slash: "CHR ''/'' \<notin> set (strict_encode s)"
  by (induction s) (simp_all add: strict_encode_simps escape_byte_no_slash percent_char_no_slash)

text \<open>Two texts that go on after a slash are equal only part by part, when the parts hold no slash.\<close>

lemma slash_parts:
  assumes "a @ CHR ''/'' # b = a' @ CHR ''/'' # b'" and "CHR ''/'' \<notin> set a" and "CHR ''/'' \<notin> set a'"
  shows "a = a' \<and> b = b'"
  using assms
proof (induction a arbitrary: a')
  case Nil
  then show ?case by (cases a') auto
next
  case (Cons x a)
  then show ?case by (cases a') auto
qed

lemma show_int_no_slash: "CHR ''/'' \<notin> set (show_int n)"
proof
  assume "CHR ''/'' \<in> set (show_int n)"
  then have "\<exists>m. CHR ''/'' \<in> set (show_nat m)" by (auto simp: show_int_def split: if_splits)
  then have "digit_val (CHR ''/'') \<noteq> None" using show_nat_all_digits by blast
  then show False by (simp add: digit_val_def)
qed

lemma show_int_inj: "show_int m = show_int n \<Longrightarrow> m = n"
proof -
  have minus: "show_nat k \<noteq> CHR ''-'' # s" for s k
  proof
    assume "show_nat k = CHR ''-'' # s"
    then have "CHR ''-'' \<in> set (show_nat k)" by simp
    then have "digit_val (CHR ''-'') \<noteq> None" by (rule show_nat_all_digits)
    then show False by (simp add: digit_val_def)
  qed
  assume "show_int m = show_int n"
  then show "m = n"
    by (cases "m < 0"; cases "n < 0") (auto simp: show_int_def minus minus [symmetric] dest: show_nat_inj)
qed

text \<open>
  Two recoveries share a staging object only when they are one attempt. For one final object, the key under which a
  recovered part is staged tells the transfer, the multipart group, the part and the attempt apart, so no recovery can
  overwrite, copy or delete what another one staged.
\<close>

theorem staging_keys_tell_attempts_apart:
  assumes "rc_final_object_key r = rc_final_object_key r'" and "CHR ''/'' \<notin> set t" and "CHR ''/'' \<notin> set t'"
  shows "staging_key t r attemptId = staging_key t' r' attemptId' \<longleftrightarrow>
    t = t' \<and> rc_multipart_group_id r = rc_multipart_group_id r' \<and> rc_part_number r = rc_part_number r' \<and> attemptId = attemptId'"
proof
  assume "staging_key t r attemptId = staging_key t' r' attemptId'"
  then have "t @ CHR ''/'' # strict_encode (rc_multipart_group_id r) @ CHR ''/'' # show_int (rc_part_number r) @ CHR ''/'' # attemptId
      = t' @ CHR ''/'' # strict_encode (rc_multipart_group_id r') @ CHR ''/'' # show_int (rc_part_number r') @ CHR ''/'' # attemptId'"
    using assms(1) by (simp add: staging_key_def staging_prefix_def)
  from slash_parts [OF this assms(2,3)] have t: "t = t'" and rest: "strict_encode (rc_multipart_group_id r) @ CHR ''/'' # show_int (rc_part_number r) @ CHR ''/'' # attemptId
      = strict_encode (rc_multipart_group_id r') @ CHR ''/'' # show_int (rc_part_number r') @ CHR ''/'' # attemptId'" by simp_all
  from slash_parts [OF rest strict_no_slash strict_no_slash] have g: "strict_encode (rc_multipart_group_id r) = strict_encode (rc_multipart_group_id r')"
    and tail: "show_int (rc_part_number r) @ CHR ''/'' # attemptId = show_int (rc_part_number r') @ CHR ''/'' # attemptId'" by blast+
  from g have "Some (rc_multipart_group_id r) = Some (rc_multipart_group_id r')"
    using strict_decode by (metis (no_types))
  then have "rc_multipart_group_id r = rc_multipart_group_id r'" by simp
  moreover from slash_parts [OF tail show_int_no_slash show_int_no_slash]
  have "show_int (rc_part_number r) = show_int (rc_part_number r')" and "attemptId = attemptId'" by simp_all
  moreover from this(1) have "rc_part_number r = rc_part_number r'" by (rule show_int_inj)
  ultimately show "t = t' \<and> rc_multipart_group_id r = rc_multipart_group_id r' \<and> rc_part_number r = rc_part_number r' \<and> attemptId = attemptId'"
    using t by simp
qed (use assms(1) in \<open>simp add: staging_key_def staging_prefix_def\<close>)

definition demo_recovery :: recovery_chunk where
  "demo_recovery = \<lparr>rc_recovery = None, rc_source_id = ''s1'', rc_destination_id = ''d1'', rc_chunk_index = 0, rc_delivery_index = 0,
     rc_source_offset = 0, rc_chunk_size = 8, rc_logical_attempt_index = 1, rc_attempt_slot = 0, rc_part_number = 1,
     rc_route_generation_id = ''g1'', rc_multipart_group_id = ''t1:d1:s1:k'', rc_final_object_key = ''k'', rc_upload_id = ''u1'',
     rc_destination_metadata = None\<rparr>"

theorem staging_keys_tell_attempts_apart_witness:
  "staging_key ''t1'' demo_recovery ''a1'' \<noteq> staging_key ''t1'' demo_recovery ''a2''"
proof -
  have "staging_key ''t1'' demo_recovery ''a1'' = staging_key ''t1'' demo_recovery ''a2'' \<longleftrightarrow>
    ''t1'' = ''t1'' \<and> rc_multipart_group_id demo_recovery = rc_multipart_group_id demo_recovery
    \<and> rc_part_number demo_recovery = rc_part_number demo_recovery \<and> ''a1'' = ''a2''"
    by (rule staging_keys_tell_attempts_apart) simp_all
  then show ?thesis by simp
qed

end
