(* ===== verification/SdkManifest.thy ===== *)
theory SdkManifest
  imports SdkProviders
begin

text \<open>
  The multipart uploads of a transfer (\<open>sdks/typescript/src/client.ts\<close>): the manifest of each source and destination,
  how it is created and checked, and what happens to the uploads when a transfer fails. Groups are set up by workers that
  run concurrently and touch only their own group; the model sets them up in the order of the list. The providers are
  those of \<open>SdkProviders\<close>; an upload is kept in a map by its group.
\<close>

subsection \<open>Manifests\<close>

record group_manifest =
  gm_multipart_group_id :: string
  gm_source_id :: string
  gm_destination_id :: string
  gm_final_object_key :: string
  gm_upload_id :: string
  gm_expected_object_size :: int
  gm_expected_part_count :: int
  gm_max_part_number :: int
  gm_complete_url :: string
  gm_abort_url :: string
  gm_list_page_urls :: "string list"
  gm_final_head_url :: string
  gm_final_object_metadata :: "(string \<times> string) list"
  gm_urls_expires_at :: string

definition manifest_json :: "group_manifest \<Rightarrow> json" where
  "manifest_json g = JObj
     [(''multipart_group_id'', JStr (gm_multipart_group_id g)), (''source_id'', JStr (gm_source_id g)),
      (''destination_id'', JStr (gm_destination_id g)), (''final_object_key'', JStr (gm_final_object_key g)),
      (''upload_id'', JStr (gm_upload_id g)), (''expected_object_size'', JNum (gm_expected_object_size g)),
      (''expected_part_count'', JNum (gm_expected_part_count g)), (''max_part_number'', JNum (gm_max_part_number g)),
      (''complete_url'', JStr (gm_complete_url g)), (''abort_url'', JStr (gm_abort_url g)),
      (''list_page_urls'', JArr (map JStr (gm_list_page_urls g))), (''final_head_url'', JStr (gm_final_head_url g)),
      (''final_object_metadata'', JObj (map (\<lambda>(k, v). (k, JStr v)) (gm_final_object_metadata g))),
      (''urls_expires_at'', JStr (gm_urls_expires_at g))]"

definition MULTIPART_GROUP_MANIFEST_KEYS :: "string list" where
  "MULTIPART_GROUP_MANIFEST_KEYS =
     [''multipart_group_id'', ''source_id'', ''destination_id'', ''final_object_key'', ''upload_id'', ''expected_object_size'',
      ''expected_part_count'', ''max_part_number'', ''complete_url'', ''abort_url'', ''list_page_urls'', ''final_head_url'',
      ''final_object_metadata'', ''urls_expires_at'']"

definition REQUIRED_TEXTS :: "string list" where
  "REQUIRED_TEXTS = [''source_id'', ''destination_id'', ''final_object_key'', ''upload_id'', ''complete_url'', ''abort_url'',
     ''final_head_url'', ''urls_expires_at'']"

definition shown_text :: "json option \<Rightarrow> string" where
  "shown_text v = (case v of None \<Rightarrow> ''undefined'' | Some j \<Rightarrow> js_string j)"

text \<open>One group, after the ids of those before it. A value is falsy when it is absent, null, false, 0 or empty.\<close>

fun falsy :: "json option \<Rightarrow> bool" where
  "falsy None \<longleftrightarrow> True"
| "falsy (Some JNull) \<longleftrightarrow> True"
| "falsy (Some (JBool b)) \<longleftrightarrow> \<not> b"
| "falsy (Some (JNum n)) \<longleftrightarrow> n = 0"
| "falsy (Some (JStr s)) \<longleftrightarrow> s = []"
| "falsy (Some (JArr _)) \<longleftrightarrow> False"
| "falsy (Some (JObj _)) \<longleftrightarrow> False"

definition text_present :: "json option \<Rightarrow> bool" where
  "text_present v \<longleftrightarrow> (\<exists>c s. v = Some (JStr (c # s)))"

lemma text_present_code [code]: "text_present v = (case v of Some (JStr (c # s)) \<Rightarrow> True | _ \<Rightarrow> False)"
  by (auto simp: text_present_def split: option.splits json.splits list.splits)

definition list_page_count :: "int \<Rightarrow> int" where
  "list_page_count maxPartNumber = (maxPartNumber + 999) div 1000"

definition pages_ok :: "json option \<Rightarrow> int \<Rightarrow> bool" where
  "pages_ok urls expected \<longleftrightarrow> (case as_arr urls of
      None \<Rightarrow> False
    | Some us \<Rightarrow> int (length us) = expected \<and> int (length (remdups us)) = expected \<and> list_all (\<lambda>u. text_present (Some u)) us)"

definition validate_group :: "string \<Rightarrow> json list \<Rightarrow> json \<Rightarrow> string + json" where
  "validate_group transferId seen grp =
     (let keys = object_keys grp; gid = jget grp ''multipart_group_id''; named = ''multipart group '' @ shown_text gid;
          parts = as_num (jget grp ''expected_part_count''); top = as_num (jget grp ''max_part_number'');
          osize = as_num (jget grp ''expected_object_size''); metadata = jget grp ''final_object_metadata'' in
      if length keys \<noteq> length MULTIPART_GROUP_MANIFEST_KEYS \<or> list_ex (\<lambda>k. \<not> List.member MULTIPART_GROUP_MANIFEST_KEYS k) keys then
        Inl (''multipart group '' @ (if falsy gid then ''<unknown>'' else shown_text gid) @ '' has invalid manifest fields'')
      else if falsy gid \<or> List.member seen (the gid) then
        Inl (''multipart_group_id must be non-empty and unique: '' @ shown_text gid)
      else
        (case find (\<lambda>field. \<not> text_present (jget grp field)) REQUIRED_TEXTS of
           Some field \<Rightarrow> Inl (named @ '' requires '' @ field)
         | None \<Rightarrow>
             if (case parts of None \<Rightarrow> True | Some n \<Rightarrow> n < 1 \<or> n > 10000) then Inl (named @ '' has invalid expected_part_count'')
             else if top \<noteq> parts then Inl (named @ '' has invalid max_part_number'')
             else if (case osize of None \<Rightarrow> True | Some n \<Rightarrow> n \<le> 0 \<or> n > 2 ^ 53 - 1) then Inl (named @ '' has invalid expected_object_size'')
             else if \<not> pages_ok (jget grp ''list_page_urls'') (list_page_count (the top)) then
               Inl (named @ '' requires '' @ show_int (list_page_count (the top)) @ '' unique list_page_urls'')
             else if metadata = None \<or> metadata = Some JNull then Inl ''Cannot convert undefined or null to object''
             else if length (object_keys (the metadata)) \<noteq> 1 \<or> jget (the metadata) ''beam-transfer-id'' \<noteq> Some (JStr transferId) then
               Inl (named @ '' has invalid final_object_metadata'')
             else Inr (the gid)))"

fun validate_groups :: "string \<Rightarrow> json list \<Rightarrow> json list \<Rightarrow> string + unit" where
  "validate_groups transferId seen [] = Inr ()"
| "validate_groups transferId seen (g # gs) =
     (case validate_group transferId seen g of Inl e \<Rightarrow> Inl e | Inr gid \<Rightarrow> validate_groups transferId (seen @ [gid]) gs)"

definition validateMultipartGroupManifest :: "json list \<Rightarrow> string \<Rightarrow> string + unit" where
  "validateMultipartGroupManifest manifest transferId = validate_groups transferId [] manifest"

definition validateMultipartPartNumber :: "int \<Rightarrow> group_manifest \<Rightarrow> string + unit" where
  "validateMultipartPartNumber partNumber g =
     (if partNumber < 1 \<or> partNumber > gm_max_part_number g then
        Inl (''multipart part_number '' @ show_int partNumber @ '' is outside group '' @ gm_multipart_group_id g
          @ '' range 1-'' @ show_int (gm_max_part_number g))
      else Inr ())"

text \<open>A route signed for a multipart upload against the manifest of its group; the last group of an id counts.\<close>

definition validate_route_contract :: "group_manifest list \<Rightarrow> signed_route \<Rightarrow> string + unit" where
  "validate_route_contract manifest r =
     (let meta = map_of (route_metadata r); uploadId = as_str (meta ''upload_id''); groupId = as_str (meta ''multipart_group_id'') in
      if truthy uploadId \<noteq> None \<and> truthy groupId = None then
        Inl (''signed multipart route '' @ rt_source_id r @ '':'' @ rt_destination_id r @ '':'' @ show_int (rt_chunk_index r)
          @ '' is missing multipart_group_id'')
      else
        (case truthy groupId of
           None \<Rightarrow> Inr ()
         | Some gid \<Rightarrow>
             (case map_of (rev (map (\<lambda>g. (gm_multipart_group_id g, g)) manifest)) gid of
                None \<Rightarrow> Inl (''signed route references unknown multipart group '' @ gid)
              | Some g \<Rightarrow>
                  if rt_source_id r \<noteq> gm_source_id g \<or> rt_destination_id r \<noteq> gm_destination_id g then
                    Inl (''signed route identity does not match multipart group '' @ gid)
                  else if uploadId \<noteq> Some (gm_upload_id g) \<or> meta ''final_object_key'' \<noteq> Some (JStr (gm_final_object_key g)) then
                    Inl (''signed route upload identity does not match multipart group '' @ gid)
                  else
                    (case as_num (meta ''part_number'') of
                       None \<Rightarrow> Inl (''signed route for multipart group '' @ gid @ '' is missing part_number'')
                     | Some n \<Rightarrow> validateMultipartPartNumber n g))))"

definition validateSignedRouteManifestContract :: "signed_route list \<Rightarrow> group_manifest list \<Rightarrow> string + unit" where
  "validateSignedRouteManifestContract routes manifest =
     (case map_result (validate_route_contract manifest) routes of Inl e \<Rightarrow> Inl e | Inr _ \<Rightarrow> Inr ())"

definition multipartGroupStateKey :: "string \<Rightarrow> string \<Rightarrow> string \<Rightarrow> string \<Rightarrow> string" where
  "multipartGroupStateKey transferId destinationId sourceId finalObjectKey =
     transferId @ '':'' @ destinationId @ '':'' @ sourceId @ '':'' @ finalObjectKey"

definition PART_ROUTE_METADATA_KEYS :: "string list" where
  "PART_ROUTE_METADATA_KEYS =
     [''part_number'', ''logical_attempt_index'', ''attempt_slot'', ''route_generation_id'', ''delivery_index'', ''etag_required'']"

definition partRouteMetadata :: "(string \<times> json) list \<Rightarrow> (string \<times> json) list" where
  "partRouteMetadata metadata = filter (\<lambda>(k, _). List.member PART_ROUTE_METADATA_KEYS k) metadata"

definition directPutRouteMetadata :: "(string \<times> json) list \<Rightarrow> (string \<times> json) list" where
  "directPutRouteMetadata metadata = obj_drop ''part_number'' (partRouteMetadata metadata)"

subsection \<open>Creating the groups\<close>

record prepared_transfer =
  pr_transfer_id :: string
  pr_route_generation_id :: string
  pr_plan :: plan_descriptor

record upload_state =
  us_destination :: json
  us_objectKey :: string
  us_uploadId :: string
  us_manifest :: "group_manifest option"

type_synonym uploads = "(string \<times> upload_state) list"
type_synonym ('w, 'a) mst = "('w \<times> uploads, signing_event, 'a) act"

text \<open>What the environment of the setup does: a group that is ready is announced and may be refused.\<close>

record 'w manifest_env =
  me_signing :: "'w signing_env"
  me_ready :: "group_manifest \<Rightarrow> 'w \<Rightarrow> (string + unit) \<times> 'w"
  me_cancel :: "'w \<Rightarrow> (string + bool \<times> string option) \<times> 'w"

definition throw_m :: "string \<Rightarrow> ('w, 'a) mst" where
  "throw_m e = lift_a (Inl e)"

definition aborted_m :: "'w manifest_env \<Rightarrow> ('w, bool) mst" where
  "aborted_m env s = (Inr (sn_aborted (me_signing env) (fst (fst s))), s)"

definition throwIfAborted :: "'w manifest_env \<Rightarrow> ('w, unit) mst" where
  "throwIfAborted env = bind_a (aborted_m env) (\<lambda>a. if a then throw_m ''This operation was aborted'' else return_a ())"

fun sign_pages :: "'w signing_env \<Rightarrow> json \<Rightarrow> string \<Rightarrow> string \<Rightarrow> int \<Rightarrow> int list \<Rightarrow> ('w, string list) sgn" where
  "sign_pages env destination key uploadId expiresIn [] = return_a []"
| "sign_pages env destination key uploadId expiresIn (m # ms) =
     bind_a (signListMultipartUpload env destination key uploadId expiresIn (Some 1000) (if m = 0 then None else Some m)) (\<lambda>url.
     bind_a (sign_pages env destination key uploadId expiresIn ms) (\<lambda>urls. return_a (url # urls)))"

text \<open>The control URLs of one upload and its manifest.\<close>

definition build_manifest ::
  "'w signing_env \<Rightarrow> string \<Rightarrow> string \<Rightarrow> plan_source \<Rightarrow> string \<Rightarrow> json \<Rightarrow> string \<Rightarrow> string \<Rightarrow> int \<Rightarrow> ('w, group_manifest) sgn" where
  "build_manifest env transferId groupId source destinationId config key uploadId expiresIn =
     bind_a (expiresAtIso env expiresIn) (\<lambda>urlsExpiresAt.
     bind_a (lift_a (multipartMaxPartNumber (ps_chunk_count source))) (\<lambda>maxPartNumber.
     bind_a (signCompleteMultipartUpload env config key uploadId expiresIn) (\<lambda>complete.
     bind_a (signAbortMultipartUpload env config key uploadId expiresIn) (\<lambda>abort.
     bind_a (sign_pages env config key uploadId expiresIn (multipartListPageMarkers maxPartNumber)) (\<lambda>pages.
     bind_a (signFinalObjectHead env config key expiresIn) (\<lambda>head.
       return_a \<lparr>gm_multipart_group_id = groupId, gm_source_id = ps_source_id source, gm_destination_id = destinationId,
         gm_final_object_key = key, gm_upload_id = uploadId, gm_expected_object_size = ps_size source,
         gm_expected_part_count = ps_chunk_count source, gm_max_part_number = maxPartNumber, gm_complete_url = complete,
         gm_abort_url = abort, gm_list_page_urls = pages, gm_final_head_url = head,
         gm_final_object_metadata = [(''beam-transfer-id'', transferId)], gm_urls_expires_at = urlsExpiresAt\<rparr>))))))"

definition put_upload :: "string \<Rightarrow> upload_state \<Rightarrow> ('w, unit) mst" where
  "put_upload groupId u = modify_state (amap_set groupId u)"

definition finish_group ::
  "'w manifest_env \<Rightarrow> string \<Rightarrow> string \<Rightarrow> plan_source \<Rightarrow> string \<Rightarrow> json \<Rightarrow> string \<Rightarrow> string \<Rightarrow> int \<Rightarrow> ('w, group_manifest) mst" where
  "finish_group env transferId groupId source destinationId config key uploadId expiresIn =
     bind_a (on_world (build_manifest (me_signing env) transferId groupId source destinationId config key uploadId expiresIn)) (\<lambda>manifest.
     bind_a (put_upload groupId \<lparr>us_destination = config, us_objectKey = key, us_uploadId = uploadId, us_manifest = Some manifest\<rparr>) (\<lambda>_.
     bind_a (on_world (call (Ev_group_ready groupId) (me_ready env manifest))) (\<lambda>_.
       return_a manifest)))"

text \<open>A setup that fails takes back an upload it created itself, unless the client was told to stop.\<close>

definition take_back :: "'w manifest_env \<Rightarrow> string \<Rightarrow> json \<Rightarrow> string \<Rightarrow> string \<Rightarrow> ('w, unit) mst" where
  "take_back env groupId config key uploadId =
     bind_a (aborted_m env) (\<lambda>stopped.
       if stopped then return_a ()
       else
         bind_a (attempt (on_world (abortMultipartUpload (me_signing env) config key uploadId))) (\<lambda>r.
           case r of
             Inl _ \<Rightarrow> throw_m (''multipart group setup and cleanup failed for '' @ groupId)
           | Inr _ \<Rightarrow> modify_state (amap_delete groupId)))"

definition set_up_group ::
  "'w manifest_env \<Rightarrow> string \<Rightarrow> string \<Rightarrow> plan_source \<Rightarrow> string \<Rightarrow> json \<Rightarrow> string \<Rightarrow> int \<Rightarrow> ('w, group_manifest) mst" where
  "set_up_group env transferId groupId source destinationId config key expiresIn =
     bind_a (throwIfAborted env) (\<lambda>_.
     bind_a get_state (\<lambda>uploads.
     case map_of uploads groupId of
       Some retained \<Rightarrow>
         finish_group env transferId groupId source destinationId config key (us_uploadId retained) expiresIn
     | None \<Rightarrow>
         bind_a (on_world (createMultipartUpload (me_signing env) config key [(''beam-transfer-id'', transferId)])) (\<lambda>uploadId.
         bind_a (put_upload groupId \<lparr>us_destination = config, us_objectKey = key, us_uploadId = uploadId, us_manifest = None\<rparr>) (\<lambda>_.
         bind_a (attempt (finish_group env transferId groupId source destinationId config key uploadId expiresIn)) (\<lambda>r.
           case r of
             Inr manifest \<Rightarrow> return_a manifest
           | Inl e \<Rightarrow> bind_a (take_back env groupId config key uploadId) (\<lambda>_. throw_m e))))))"

text \<open>One source and destination: a manifest, none for a destination that takes plain uploads, or what was thrown.\<close>

definition create_group ::
  "'w manifest_env \<Rightarrow> prepared_transfer \<Rightarrow> (string \<times> json) list \<Rightarrow> int \<Rightarrow> plan_source \<times> plan_destination
   \<Rightarrow> ('w, string + group_manifest option) mst" where
  "create_group env prepared destinationsById expiresIn sd =
     (let source = fst sd; destination = snd sd; destId = pd_destination_id destination in
      case map_of destinationsById destId of
        None \<Rightarrow> return_a (Inl (''BeamCore returned unknown destination_id: '' @ destId))
      | Some config \<Rightarrow>
          if isDirectPutDestination config then return_a (Inr None)
          else
            (case final_key destination (ps_source_id source) of
               None \<Rightarrow> return_a (Inl (''plan final object key not found: '' @ ps_source_id source @ '':'' @ destId))
             | Some key \<Rightarrow>
                 (let groupId = multipartGroupStateKey (pr_transfer_id prepared) destId (ps_source_id source) key in
                  bind_a (attempt (set_up_group env (pr_transfer_id prepared) groupId source destId config key expiresIn)) (\<lambda>r.
                    case r of
                      Inr manifest \<Rightarrow> return_a (Inr (Some manifest))
                    | Inl e \<Rightarrow> bind_a (on_world (call (\<lambda>_. Ev_group_failed groupId) (\<lambda>w. (Inr (), w)))) (\<lambda>_. return_a (Inl e))))))"

definition plan_groups :: "plan_descriptor \<Rightarrow> (plan_source \<times> plan_destination) list" where
  "plan_groups d = concat (map (\<lambda>s. map (\<lambda>t. (s, t)) (pl_destinations d)) (pl_sources d))"

definition createMultipartGroupManifest ::
  "'w manifest_env \<Rightarrow> prepared_transfer \<Rightarrow> (string \<times> json) list \<Rightarrow> int \<Rightarrow> ('w, group_manifest list) mst" where
  "createMultipartGroupManifest env prepared destinationsById expiresIn =
     bind_a (fold_a (\<lambda>results sd. bind_a (create_group env prepared destinationsById expiresIn sd) (\<lambda>r. return_a (results @ [r])))
       [] (plan_groups (pr_plan prepared))) (\<lambda>results.
       case find (\<lambda>r. case r of Inl _ \<Rightarrow> True | Inr _ \<Rightarrow> False) results of
         Some (Inl e) \<Rightarrow> throw_m e
       | _ \<Rightarrow> return_a (concat (map (\<lambda>r. case r of Inr (Some m) \<Rightarrow> [m] | _ \<Rightarrow> []) results)))"

subsection \<open>When a transfer fails\<close>

text \<open>An error object as far as its code is told: its name, its code and the two places of a status.\<close>

record error_info =
  ei_name :: string
  ei_code :: "json option"
  ei_status :: "json option"
  ei_statusCode :: "json option"

definition code_char :: "char \<Rightarrow> bool" where
  "code_char c \<longleftrightarrow> (let n = of_char c :: nat in
     65 \<le> n \<and> n \<le> 90 \<or> 97 \<le> n \<and> n \<le> 122 \<or> 48 \<le> n \<and> n \<le> 57 \<or> c = CHR ''_'' \<or> c = CHR ''.'' \<or> c = CHR ''-'')"

definition http_status :: "json option \<Rightarrow> int option" where
  "http_status v = (case v of Some (JNum n) \<Rightarrow> if 100 \<le> n \<and> n \<le> 599 then Some n else None | _ \<Rightarrow> None)"

definition safeErrorCode :: "error_info option \<Rightarrow> string" where
  "safeErrorCode error = (case error of
      None \<Rightarrow> ''UnknownError''
    | Some e \<Rightarrow>
        (let code = (case ei_code e of
               Some (JStr c) \<Rightarrow> if c \<noteq> [] \<and> length c \<le> 64 \<and> list_all code_char c then c else ei_name e
             | _ \<Rightarrow> ei_name e) in
         case or_else (http_status (ei_status e)) (http_status (ei_statusCode e)) of
           None \<Rightarrow> code
         | Some status \<Rightarrow> code @ '':status='' @ show_int status))"

text \<open>Uploads to abort are those with an id at a destination that has multipart uploads; each that is aborted is forgotten.\<close>

definition abortable :: "upload_state \<Rightarrow> bool" where
  "abortable u \<longleftrightarrow> us_uploadId u \<noteq> [] \<and> \<not> isHippiusProvider (us_destination u)"

definition abort_one :: "'w manifest_env \<Rightarrow> string \<times> upload_state \<Rightarrow> ('w, string option) mst" where
  "abort_one env gu =
     bind_a (attempt (on_world (abortMultipartUpload (me_signing env) (us_destination (snd gu)) (us_objectKey (snd gu)) (us_uploadId (snd gu)))))
       (\<lambda>r. case r of
          Inl e \<Rightarrow> return_a (Some e)
        | Inr _ \<Rightarrow> bind_a (modify_state (amap_delete (fst gu))) (\<lambda>_. return_a None))"

definition abortCreatedUploads :: "'w manifest_env \<Rightarrow> ('w, unit) mst" where
  "abortCreatedUploads env =
     bind_a get_state (\<lambda>uploads.
     bind_a (fold_a (\<lambda>failures gu. bind_a (abort_one env gu) (\<lambda>r. return_a (case r of None \<Rightarrow> failures | Some e \<Rightarrow> failures @ [e])))
       [] (filter (\<lambda>gu. abortable (snd gu)) uploads)) (\<lambda>failures.
       if failures \<noteq> [] then throw_m (''failed to abort '' @ show_nat (length failures) @ '' multipart upload(s)'') else return_a ()))"

definition cancelTransferAfterProviderFailure ::
  "'w manifest_env \<Rightarrow> (string \<Rightarrow> error_info option) \<Rightarrow> string \<Rightarrow> error_info option \<Rightarrow> ('w, unit) mst" where
  "cancelTransferAfterProviderFailure env error_of transferId cause =
     (let failed = (\<lambda>cancelError. throw_m (''provider transfer failed ('' @ safeErrorCode cause
          @ '') and transfer cancellation failed ('' @ safeErrorCode cancelError @ '')'')) in
      bind_a (attempt (on_world (call Ev_cancel (me_cancel env)))) (\<lambda>r.
        case r of
          Inl e \<Rightarrow> failed (error_of e)
        | Inr (success, message) \<Rightarrow>
            if success then return_a ()
            else failed (error_of (coalesce message (''Beam rejected cancellation for '' @ transferId)))))"

text \<open>\<open>BeamProviderTransferError\<close>, which is what always ends a failed transfer.\<close>

record provider_failure =
  pf_transferId :: string
  pf_cause :: "error_info option"
  pf_cancelError :: "string option"
  pf_cleanupError :: "string option"

definition transferCancelled :: "provider_failure \<Rightarrow> bool" where
  "transferCancelled f \<longleftrightarrow> pf_cancelError f = None"

definition multipartCleanupComplete :: "provider_failure \<Rightarrow> bool" where
  "multipartCleanupComplete f \<longleftrightarrow> pf_cleanupError f = None"

definition provider_failure_message :: "provider_failure \<Rightarrow> string" where
  "provider_failure_message f = ''provider transfer failed for '' @ pf_transferId f @ '' (transfer_cancelled=''
     @ (if transferCancelled f then ''true'' else ''false'') @ '', multipart_cleanup_complete=''
     @ (if multipartCleanupComplete f then ''true'' else ''false'') @ '')''"

definition outcome_error :: "string + 'a \<Rightarrow> string option" where
  "outcome_error r = (case r of Inl e \<Rightarrow> Some e | Inr _ \<Rightarrow> None)"

definition cancelAndAbortProviderFailure ::
  "'w manifest_env \<Rightarrow> (string \<Rightarrow> error_info option) \<Rightarrow> string \<Rightarrow> error_info option \<Rightarrow> bool \<Rightarrow> ('w, provider_failure) mst" where
  "cancelAndAbortProviderFailure env error_of transferId cause abortBeforeCancel =
     bind_a (if abortBeforeCancel then bind_a (attempt (abortCreatedUploads env)) (\<lambda>r. return_a (outcome_error r))
             else return_a None) (\<lambda>early.
     bind_a (attempt (cancelTransferAfterProviderFailure env error_of transferId cause)) (\<lambda>cancelled.
     bind_a (if \<not> abortBeforeCancel \<or> early \<noteq> None
             then bind_a (attempt (abortCreatedUploads env)) (\<lambda>r. return_a (outcome_error r))
             else return_a None) (\<lambda>cleanup.
       return_a \<lparr>pf_transferId = transferId, pf_cause = cause, pf_cancelError = outcome_error cancelled,
         pf_cleanupError = cleanup\<rparr>)))"

end
