(* ===== verification/SdkUploads.thy ===== *)
theory SdkUploads
  imports SdkManifest
begin

text \<open>
  Who answers for a multipart upload (\<open>sdks/typescript/src/client.ts\<close>): a ledger of the uploads the provider created, kept by
  the setup of \<open>SdkManifest\<close> and by the cleanup after a failure, and the uploads a restarted client takes over from
  stored identities.
\<close>

subsection \<open>Taking over uploads\<close>

record multipart_identity =
  mi_transferId :: string
  mi_multipartGroupId :: string
  mi_sourceId :: string
  mi_destinationId :: string
  mi_objectKey :: string
  mi_uploadId :: string
  mi_expectedObjectSize :: int
  mi_expectedPartCount :: int
  mi_expiresAt :: string

definition multipartGroupIdentity :: "string \<Rightarrow> group_manifest \<Rightarrow> multipart_identity" where
  "multipartGroupIdentity transferId m = \<lparr>mi_transferId = transferId, mi_multipartGroupId = gm_multipart_group_id m,
     mi_sourceId = gm_source_id m, mi_destinationId = gm_destination_id m, mi_objectKey = gm_final_object_key m,
     mi_uploadId = gm_upload_id m, mi_expectedObjectSize = gm_expected_object_size m,
     mi_expectedPartCount = gm_expected_part_count m, mi_expiresAt = gm_urls_expires_at m\<rparr>"

record expected_group =
  eg_destination :: json
  eg_objectKey :: string
  eg_source :: plan_source
  eg_destinationId :: string

text \<open>The groups the plan asks for, a later one of the same id in the place of the earlier.\<close>

fun expected_groups ::
  "prepared_transfer \<Rightarrow> (string \<times> json) list \<Rightarrow> (string \<times> expected_group) list \<Rightarrow> (plan_source \<times> plan_destination) list
   \<Rightarrow> string + (string \<times> expected_group) list" where
  "expected_groups prepared destinations acc [] = Inr acc"
| "expected_groups prepared destinations acc ((source, target) # rest) =
     (case map_of destinations (pd_destination_id target) of
        None \<Rightarrow> Inl ''provider_multipart_recovery_destination_invalid''
      | Some destination \<Rightarrow>
          if isDirectPutDestination destination then expected_groups prepared destinations acc rest
          else
            (case final_key target (ps_source_id source) of
               None \<Rightarrow> Inl ''provider_multipart_recovery_object_invalid''
             | Some key \<Rightarrow>
                 expected_groups prepared destinations
                   (amap_set (multipartGroupStateKey (pr_transfer_id prepared) (pd_destination_id target) (ps_source_id source) key)
                     \<lparr>eg_destination = destination, eg_objectKey = key, eg_source = source, eg_destinationId = pd_destination_id target\<rparr> acc) rest))"

definition identity_matches :: "prepared_transfer \<Rightarrow> multipart_identity \<Rightarrow> expected_group \<Rightarrow> bool" where
  "identity_matches prepared identity grp \<longleftrightarrow>
     mi_transferId identity = pr_transfer_id prepared \<and> mi_sourceId identity = ps_source_id (eg_source grp)
     \<and> mi_destinationId identity = eg_destinationId grp \<and> mi_objectKey identity = eg_objectKey grp
     \<and> mi_expectedObjectSize identity = ps_size (eg_source grp) \<and> mi_expectedPartCount identity = ps_chunk_count (eg_source grp)
     \<and> trim (mi_uploadId identity) \<noteq> []"

fun restore_each ::
  "prepared_transfer \<Rightarrow> (string \<times> expected_group) list \<Rightarrow> multipart_identity list \<Rightarrow> uploads \<Rightarrow> (string + unit) \<times> uploads" where
  "restore_each prepared expected [] uploads = (Inr (), uploads)"
| "restore_each prepared expected (identity # rest) uploads =
     (let gid = mi_multipartGroupId identity in
      case map_of expected gid of
        None \<Rightarrow> (Inl ''provider_multipart_recovery_identity_invalid'', uploads)
      | Some grp \<Rightarrow>
          if map_of uploads gid \<noteq> None \<or> \<not> identity_matches prepared identity grp then
            (Inl ''provider_multipart_recovery_identity_invalid'', uploads)
          else
            restore_each prepared expected rest
              (amap_set gid \<lparr>us_destination = eg_destination grp, us_objectKey = eg_objectKey grp,
                 us_uploadId = mi_uploadId identity, us_manifest = None\<rparr> uploads))"

text \<open>Nothing stands for identities that are no array. An error leaves the uploads restored before it.\<close>

definition restoreProviderMultipartIdentities ::
  "prepared_transfer \<Rightarrow> (string \<times> json) list \<Rightarrow> multipart_identity list option \<Rightarrow> uploads \<Rightarrow> (string + unit) \<times> uploads" where
  "restoreProviderMultipartIdentities prepared destinations identities uploads =
     (case identities of
        None \<Rightarrow> (Inl ''provider_multipart_recovery_identity_required'', uploads)
      | Some ids \<Rightarrow>
          (case expected_groups prepared destinations [] (plan_groups (pr_plan prepared)) of
             Inl e \<Rightarrow> (Inl e, uploads)
           | Inr expected \<Rightarrow>
               if length expected \<noteq> length ids then (Inl ''provider_multipart_recovery_incomplete'', uploads)
               else restore_each prepared expected ids uploads))"

subsection \<open>What was created, what was taken back\<close>

text \<open>The group a source and a destination of the plan make: its id, and the configuration and key its upload has.\<close>

definition group_of :: "(string \<times> json) list \<Rightarrow> prepared_transfer \<Rightarrow> plan_source \<times> plan_destination \<Rightarrow> (string \<times> json \<times> string) option" where
  "group_of dests prepared sd =
     (case map_of dests (pd_destination_id (snd sd)) of
        None \<Rightarrow> None
      | Some config \<Rightarrow>
          if isDirectPutDestination config then None
          else map_option (\<lambda>key. (multipartGroupStateKey (pr_transfer_id prepared) (pd_destination_id (snd sd)) (ps_source_id (fst sd)) key, config, key))
                 (final_key (snd sd) (ps_source_id (fst sd))))"

definition named_apart :: "(string \<times> json) list \<Rightarrow> prepared_transfer \<Rightarrow> bool" where
  "named_apart dests prepared \<longleftrightarrow>
     (\<forall>x \<in> set (plan_groups (pr_plan prepared)). \<forall>y \<in> set (plan_groups (pr_plan prepared)). \<forall>g c c'.
        group_of dests prepared x = Some (g, c) \<longrightarrow> group_of dests prepared y = Some (g, c') \<longrightarrow> c = c')"

definition owned :: "(string \<times> json) list \<Rightarrow> prepared_transfer \<Rightarrow> uploads \<Rightarrow> bool" where
  "owned dests prepared m \<longleftrightarrow> distinct (map fst m) \<and>
     (\<forall>g u. map_of m g = Some u \<longrightarrow>
        (\<exists>x \<in> set (plan_groups (pr_plan prepared)). group_of dests prepared x = Some (g, us_destination u, us_objectKey u)))"

definition aborted_in :: "signing_event list \<Rightarrow> json \<Rightarrow> string \<Rightarrow> string \<Rightarrow> bool" where
  "aborted_in l config key u \<longleftrightarrow> Ev_aborted config key u (Inr ()) \<in> set l"

definition created_in :: "signing_event list \<Rightarrow> json \<Rightarrow> string \<Rightarrow> string \<Rightarrow> bool" where
  "created_in l config key u \<longleftrightarrow> u \<noteq> [] \<and> Ev_created config key (Inr (Some u)) \<in> set l"

definition cancelled_in :: "signing_event list \<Rightarrow> bool" where
  "cancelled_in l \<longleftrightarrow> (\<exists>message. Ev_cancel (Inr (True, message)) \<in> set l)"

definition holds_upload :: "json \<Rightarrow> string \<Rightarrow> string \<Rightarrow> upload_state option \<Rightarrow> bool" where
  "holds_upload config key u v \<longleftrightarrow> (\<exists>w. v = Some w \<and> us_destination w = config \<and> us_objectKey w = key \<and> us_uploadId w = u)"

definition kept_in :: "uploads \<Rightarrow> json \<Rightarrow> string \<Rightarrow> string \<Rightarrow> bool" where
  "kept_in m config key u \<longleftrightarrow> (\<exists>g. holds_upload config key u (map_of m g))"

text \<open>Every upload the provider created is still in the map, or was aborted.\<close>

definition tracked :: "uploads \<Rightarrow> signing_event list \<Rightarrow> bool" where
  "tracked m l \<longleftrightarrow> (\<forall>config key u. created_in l config key u \<longrightarrow>
     \<not> isDirectPutDestination config \<and> (kept_in m config key u \<or> aborted_in l config key u))"

definition ledger :: "(string \<times> json) list \<Rightarrow> prepared_transfer \<Rightarrow> bool \<Rightarrow> uploads \<Rightarrow> signing_event list \<Rightarrow> bool" where
  "ledger dests prepared c m l \<longleftrightarrow> owned dests prepared m \<and> tracked m l \<and> (cancelled_in l \<longleftrightarrow> c)"

definition clean :: "signing_event list \<Rightarrow> bool" where
  "clean l \<longleftrightarrow> (\<forall>config key u. created_in l config key u \<longrightarrow> aborted_in l config key u)"


subsection \<open>Steps that create nothing\<close>

definition loud :: "signing_event \<Rightarrow> bool" where
  "loud e \<longleftrightarrow> (case e of Ev_created _ _ (Inr (Some u)) \<Rightarrow> u \<noteq> [] | Ev_cancel (Inr (b, _)) \<Rightarrow> b | _ \<Rightarrow> False)"

definition quiet :: "('w, 'a) sgn \<Rightarrow> bool" where
  "quiet m \<longleftrightarrow> (\<forall>w l. \<exists>es. snd (snd (m (w, l))) = l @ es \<and> list_all (\<lambda>e. \<not> loud e) es)"

named_theorems quiet_rules \<open>steps that create no upload and cancel nothing\<close>

lemma quiet_return [quiet_rules]: "quiet (return_a a)"
  by (simp add: quiet_def return_a_def)

lemma quiet_lift [quiet_rules]: "quiet (lift_a r)"
  by (simp add: quiet_def lift_a_def)

lemma quiet_throw [quiet_rules]: "quiet (throw_a e)"
  by (simp add: throw_a_def quiet_lift)

lemma quiet_clock [quiet_rules]: "quiet (clock_a env)"
  by (simp add: quiet_def clock_a_def)

lemma quiet_call: "(\<And>r. \<not> loud (ev r)) \<Longrightarrow> quiet (call ev f)"
  by (auto simp: quiet_def call_def split: prod.splits)

lemma quiet_bind [quiet_rules]:
  assumes "quiet m" and "\<And>a. quiet (f a)"
  shows "quiet (bind_a m f)"
  unfolding quiet_def
proof (intro allI)
  fix w l
  obtain r w' l' where m: "m (w, l) = (r, (w', l'))" by (metis prod.exhaust)
  from assms(1) m obtain es where es: "l' = l @ es" "list_all (\<lambda>e. \<not> loud e) es"
    unfolding quiet_def by (metis snd_conv)
  show "\<exists>es. snd (snd (bind_a m f (w, l))) = l @ es \<and> list_all (\<lambda>e. \<not> loud e) es"
  proof (cases r)
    case (Inl e)
    with m es show ?thesis by (simp add: bind_a_def)
  next
    case (Inr a)
    from assms(2) obtain fs where "snd (snd (f a (w', l'))) = l' @ fs" "list_all (\<lambda>e. \<not> loud e) fs"
      unfolding quiet_def by blast
    with m es Inr show ?thesis by (auto simp: bind_a_def intro!: exI [of _ "es @ fs"])
  qed
qed

lemma quiet_presign [quiet_rules]: "quiet (presign env config command expiresIn)"
  unfolding presign_def by (intro quiet_rules quiet_call) (simp add: loud_def)

lemma quiet_control [quiet_rules]: "quiet (sign_control env what destination command expiresIn)"
  unfolding sign_control_def by (auto intro: quiet_rules)

lemmas control_defs = signFinalObjectHead_def signCompleteMultipartUpload_def signAbortMultipartUpload_def
  signListMultipartUpload_def expiresAtIso_def

lemma quiet_pages: "quiet (sign_pages env destination key uploadId expiresIn ms)"
  by (induction ms) (auto simp: control_defs intro!: quiet_rules)

lemma quiet_manifest: "quiet (build_manifest env transferId groupId source destinationId config key uploadId expiresIn)"
  unfolding build_manifest_def control_defs by (intro quiet_rules quiet_pages)

lemma quiet_abort: "quiet (abortMultipartUpload env destination key uploadId)"
  unfolding abortMultipartUpload_def by (auto intro!: quiet_rules quiet_call simp: loud_def)

text \<open>Events that create nothing keep the ledger, and what is clean stays clean.\<close>

lemma created_in_append: "created_in (l @ es) config key u \<longleftrightarrow> created_in l config key u \<or> created_in es config key u"
  by (auto simp: created_in_def)

lemma aborted_in_append: "aborted_in (l @ es) config key u \<longleftrightarrow> aborted_in l config key u \<or> aborted_in es config key u"
  by (auto simp: aborted_in_def)

lemma cancelled_in_append: "cancelled_in (l @ es) \<longleftrightarrow> cancelled_in l \<or> cancelled_in es"
  by (auto simp: cancelled_in_def)

lemmas trace_append = created_in_append aborted_in_append cancelled_in_append

lemma quiet_events:
  assumes "list_all (\<lambda>e. \<not> loud e) es"
  shows "\<not> created_in es config key u" and "\<not> cancelled_in es"
  using assms by (fastforce simp: created_in_def cancelled_in_def list_all_iff loud_def)+

lemma ledger_quiet: "ledger dests prepared c m l \<Longrightarrow> list_all (\<lambda>e. \<not> loud e) es \<Longrightarrow> ledger dests prepared c m (l @ es)"
  by (auto simp: ledger_def tracked_def trace_append quiet_events)

lemma clean_quiet: "clean l \<Longrightarrow> list_all (\<lambda>e. \<not> loud e) es \<Longrightarrow> clean (l @ es)"
  by (auto simp: clean_def trace_append quiet_events)

lemma hoare_quiet:
  assumes "quiet m" and "\<And>s l es. P s l \<Longrightarrow> list_all (\<lambda>e. \<not> loud e) es \<Longrightarrow> P s (l @ es)"
  shows "hoare P (on_world m) (\<lambda>_. P) P"
proof (rule hoareI)
  fix w s l r w' s' l'
  assume p: "P s l" and run: "on_world m ((w, s), l) = (r, ((w', s'), l'))"
  then have s': "s' = s" "l' = snd (snd (m (w, l)))" by (auto simp: on_world_def split: prod.splits)
  with assms(1) obtain es where "l' = l @ es" "list_all (\<lambda>e. \<not> loud e) es" unfolding quiet_def by metis
  then have "P s' l'" using s'(1) assms(2) [OF p] by blast
  then show "case r of Inl e \<Rightarrow> P s' l' | Inr a \<Rightarrow> P s' l'" by (cases r) simp_all
qed


lemma hoare_abort:
  assumes "\<And>s l es. P s l \<Longrightarrow> list_all (\<lambda>e. \<not> loud e) es \<Longrightarrow> P s (l @ es)"
    and "\<And>s l. P s l \<Longrightarrow> Q () s (l @ [Ev_aborted config key u (Inr ())])"
  shows "hoare P (on_world (abortMultipartUpload env config key u)) Q P"
proof (rule hoareI)
  fix w s l r w' s' l'
  assume p: "P s l" and run: "on_world (abortMultipartUpload env config key u) ((w, s), l) = (r, ((w', s'), l'))"
  obtain q v where f: "sn_abort_upload env config key u w = (q, v)" by (cases "sn_abort_upload env config key u w")
  have err: "P s (l @ [Ev_aborted config key u (Inl e)])" for e using assms(1) [OF p, of "[Ev_aborted config key u (Inl e)]"] by (simp add: loud_def)
  show "case r of Inl e \<Rightarrow> P s' l' | Inr a \<Rightarrow> Q a s' l'"
    using run p err assms(2) [OF p] f
    by (auto simp: abortMultipartUpload_def on_world_def throw_a_def bind_a_def lift_a_def call_def split: if_splits sum.splits prod.splits)
qed

subsection \<open>The setup keeps every upload it created\<close>

text \<open>The map holds an upload of this group, and of no other.\<close>

definition holding :: "(string \<times> json) list \<Rightarrow> prepared_transfer \<Rightarrow> bool \<Rightarrow> string \<Rightarrow> json \<Rightarrow> string \<Rightarrow> string \<Rightarrow> uploads \<Rightarrow> signing_event list \<Rightarrow> bool" where
  "holding dests prepared c g config key u m l \<longleftrightarrow> ledger dests prepared c m l \<and> holds_upload config key u (map_of m g)"

lemma holds_upload_same: "holds_upload config key u v \<Longrightarrow> holds_upload config' key' u' v \<longleftrightarrow> config' = config \<and> key' = key \<and> u' = u"
  by (auto simp: holds_upload_def)

lemma kept_in_set:
  assumes "holds_upload config key u (map_of m g)"
  shows "kept_in (amap_set g \<lparr>us_destination = config, us_objectKey = key, us_uploadId = u, us_manifest = x\<rparr> m) config' key' u'
     \<longleftrightarrow> kept_in m config' key' u'"
proof -
  let ?new = "\<lparr>us_destination = config, us_objectKey = key, us_uploadId = u, us_manifest = x\<rparr>"
  have "holds_upload config key u (Some ?new)" by (simp add: holds_upload_def)
  then have "holds_upload config' key' u' (((map_of m)(g \<mapsto> ?new)) g') \<longleftrightarrow> holds_upload config' key' u' (map_of m g')" for g'
    by (simp add: holds_upload_same [OF assms] holds_upload_same [of config key u "Some ?new"])
  then show ?thesis by (simp add: kept_in_def)
qed

lemma kept_in_delete:
  assumes "holds_upload config key u (map_of m g)" and "kept_in m config' key' u'"
  shows "kept_in (amap_delete g m) config' key' u' \<or> config' = config \<and> key' = key \<and> u' = u"
proof -
  from assms(2) obtain g' where g': "holds_upload config' key' u' (map_of m g')" by (auto simp: kept_in_def)
  show ?thesis
  proof (cases "g' = g")
    case True
    with g' holds_upload_same [OF assms(1)] show ?thesis by simp
  next
    case False
    with g' have "holds_upload config' key' u' (map_of (amap_delete g m) g')" by simp
    then show ?thesis unfolding kept_in_def by blast
  qed
qed

lemma owned_set:
  "owned dests prepared m \<Longrightarrow> x \<in> set (plan_groups (pr_plan prepared)) \<Longrightarrow> group_of dests prepared x = Some (g, config, key)
     \<Longrightarrow> owned dests prepared (amap_set g \<lparr>us_destination = config, us_objectKey = key, us_uploadId = u, us_manifest = v\<rparr> m)"
  by (auto simp: owned_def)

lemma owned_delete: "owned dests prepared m \<Longrightarrow> owned dests prepared (amap_delete g m)"
  by (auto simp: owned_def split: if_splits)

lemma holding_set:
  assumes "holding dests prepared c g config key u m l"
  shows "holding dests prepared c g config key u (amap_set g \<lparr>us_destination = config, us_objectKey = key, us_uploadId = u, us_manifest = v\<rparr> m) l"
proof -
  from assms have h: "holds_upload config key u (map_of m g)" and led: "ledger dests prepared c m l" by (simp_all add: holding_def)
  from h led obtain x where "x \<in> set (plan_groups (pr_plan prepared))" "group_of dests prepared x = Some (g, config, key)"
    unfolding ledger_def owned_def holds_upload_def by blast
  with led have "owned dests prepared (amap_set g \<lparr>us_destination = config, us_objectKey = key, us_uploadId = u, us_manifest = v\<rparr> m)"
    by (simp add: ledger_def owned_set)
  with led show ?thesis by (simp add: holding_def ledger_def tracked_def kept_in_set [OF h] holds_upload_def)
qed

lemma holding_quiet:
  "holding dests prepared c g config key u m l \<Longrightarrow> list_all (\<lambda>e. \<not> loud e) es \<Longrightarrow> holding dests prepared c g config key u m (l @ es)"
  by (simp add: holding_def ledger_quiet)

lemma hoare_finish:
  "hoare (holding dests prepared c g config key u) (finish_group env tid g source destId config key u expiresIn)
     (\<lambda>_. holding dests prepared c g config key u) (holding dests prepared c g config key u)"
  unfolding finish_group_def put_upload_def
  by (intro hoare_bind [where R = "\<lambda>_. holding dests prepared c g config key u"] hoare_quiet quiet_manifest quiet_call
      hoare_return hoare_modify holding_set holding_quiet) (auto simp: loud_def)

lemma hoare_aborted_m: "hoare P (aborted_m env) (\<lambda>_. P) P"
  by (rule hoareI) (auto simp: aborted_m_def)

lemma hoare_throw: "(\<And>s l. P s l \<Longrightarrow> E s l) \<Longrightarrow> hoare P (throw_m e) Q E"
  by (rule hoareI) (auto simp: throw_m_def lift_a_def)

lemma hoare_throwIfAborted: "hoare P (throwIfAborted env) (\<lambda>_. P) P"
  unfolding throwIfAborted_def
  by (rule hoare_bind [OF hoare_aborted_m]) (auto intro: hoare_throw hoare_return)

lemma ledger_aborted:
  assumes "holding dests prepared c g config key u m l" and "aborted_in l config key u"
  shows "ledger dests prepared c (amap_delete g m) l"
proof -
  from assms(1) have led: "ledger dests prepared c m l" and h: "holds_upload config key u (map_of m g)" by (simp_all add: holding_def)
  have "tracked (amap_delete g m) l"
    using led kept_in_delete [OF h] assms(2) unfolding ledger_def tracked_def by blast
  with led show ?thesis by (simp add: ledger_def owned_delete)
qed

lemma hoare_take_back:
  "hoare (holding dests prepared c g config key u) (take_back env g config key u)
     (\<lambda>_. ledger dests prepared c) (ledger dests prepared c)"
  unfolding take_back_def
proof (rule hoare_bind [where R = "\<lambda>_. holding dests prepared c g config key u"])
  show "hoare (holding dests prepared c g config key u) (aborted_m env) (\<lambda>_. holding dests prepared c g config key u) (ledger dests prepared c)"
    by (rule hoareI) (auto simp: aborted_m_def holding_def)
  let ?R = "\<lambda>r m l. case r of Inl _ \<Rightarrow> holding dests prepared c g config key u m l
    | Inr _ \<Rightarrow> holding dests prepared c g config key u m l \<and> aborted_in l config key u"
  fix stopped
  have "hoare (holding dests prepared c g config key u) (attempt (on_world (abortMultipartUpload (me_signing env) config key u))) ?R (ledger dests prepared c)"
    by (rule hoare_attempt, simp, rule hoare_abort) (auto simp: aborted_in_def loud_def intro!: holding_quiet)
  moreover have "hoare (?R r) (case r of Inl _ \<Rightarrow> throw_m (''multipart group setup and cleanup failed for '' @ g) | Inr _ \<Rightarrow> modify_state (amap_delete g))
      (\<lambda>_. ledger dests prepared c) (ledger dests prepared c)" for r :: "string + unit"
    by (cases r) (auto intro!: hoare_throw hoare_modify intro: ledger_aborted simp: holding_def)
  ultimately show "hoare (holding dests prepared c g config key u)
      (if stopped then return_a () else bind_a (attempt (on_world (abortMultipartUpload (me_signing env) config key u)))
        (\<lambda>r. case r of Inl _ \<Rightarrow> throw_m (''multipart group setup and cleanup failed for '' @ g) | Inr _ \<Rightarrow> modify_state (amap_delete g)))
      (\<lambda>_. ledger dests prepared c) (ledger dests prepared c)"
    by (auto intro!: hoare_return simp: holding_def intro: hoare_bind)
qed


text \<open>Between the provider's answer and the entry in the map, one upload is known to neither.\<close>

definition pending :: "(string \<times> json) list \<Rightarrow> prepared_transfer \<Rightarrow> bool \<Rightarrow> string \<Rightarrow> json \<Rightarrow> string \<Rightarrow> string \<Rightarrow> uploads \<Rightarrow> signing_event list \<Rightarrow> bool" where
  "pending dests prepared c g config key u m l \<longleftrightarrow> owned dests prepared m \<and> map_of m g = None \<and> (cancelled_in l \<longleftrightarrow> c) \<and>
     (\<forall>config' key' u'. created_in l config' key' u' \<longrightarrow> \<not> isDirectPutDestination config' \<and>
        (kept_in m config' key' u' \<or> aborted_in l config' key' u' \<or> config' = config \<and> key' = key \<and> u' = u))"

lemma kept_in_fresh: "map_of m g = None \<Longrightarrow> kept_in m config key u \<Longrightarrow> kept_in (amap_set g v m) config key u"
  unfolding kept_in_def holds_upload_def by (metis fun_upd_other map_of_amap_set option.distinct(1))

lemma pending_put:
  assumes "pending dests prepared c g config key u m l"
    and "x \<in> set (plan_groups (pr_plan prepared))" and "group_of dests prepared x = Some (g, config, key)"
  shows "holding dests prepared c g config key u (amap_set g \<lparr>us_destination = config, us_objectKey = key, us_uploadId = u, us_manifest = v\<rparr> m) l"
proof -
  let ?m = "amap_set g \<lparr>us_destination = config, us_objectKey = key, us_uploadId = u, us_manifest = v\<rparr> m"
  from assms have own: "owned dests prepared ?m" by (simp add: pending_def owned_set)
  have here: "holds_upload config key u (map_of ?m g)" by (simp add: holds_upload_def)
  then have "kept_in ?m config key u" unfolding kept_in_def by blast
  moreover have "kept_in m config' key' u' \<Longrightarrow> kept_in ?m config' key' u'" for config' key' u'
    using assms(1) by (simp add: pending_def kept_in_fresh)
  ultimately have "tracked ?m l" using assms(1) unfolding pending_def tracked_def by blast
  with own here assms(1) show ?thesis by (simp add: holding_def ledger_def pending_def)
qed

lemma hoare_create_upload:
  assumes "group_of dests prepared x = Some (g, config, key)"
  shows "hoare (\<lambda>m l. ledger dests prepared c m l \<and> map_of m g = None) (on_world (createMultipartUpload env config key metadata))
     (\<lambda>u. pending dests prepared c g config key u) (ledger dests prepared c)"
proof (rule hoareI)
  fix w m l r w' m' l'
  assume p: "ledger dests prepared c m l \<and> map_of m g = None"
    and run: "on_world (createMultipartUpload env config key metadata) ((w, m), l) = (r, ((w', m'), l'))"
  from assms have direct: "\<not> isDirectPutDestination config" by (auto simp: group_of_def split: option.splits if_splits)
  obtain q v where f: "sn_create_upload env config key metadata w = (q, v)" by (cases "sn_create_upload env config key metadata w")
  have quietly: "ledger dests prepared c m (l @ [Ev_created config key q])" if "\<not> loud (Ev_created config key q)"
    using that p by (intro ledger_quiet) simp_all
  have made: "pending dests prepared c g config key u m (l @ [Ev_created config key (Inr (Some u))])" for u
    using p direct by (auto simp: pending_def ledger_def tracked_def trace_append created_in_def [of "[_]"] cancelled_in_def [of "[_]"])
  show "case r of Inl e \<Rightarrow> ledger dests prepared c m' l' | Inr u \<Rightarrow> pending dests prepared c g config key u m' l'"
    using run p f quietly made
    by (auto simp: createMultipartUpload_def on_world_def throw_a_def return_a_def bind_a_def lift_a_def call_def loud_def truthy_def
        split: if_splits sum.splits prod.splits option.splits list.splits)
qed

lemma hoare_set_up:
  assumes "named_apart dests prepared" and x: "x \<in> set (plan_groups (pr_plan prepared))" "group_of dests prepared x = Some (g, config, key)"
  shows "hoare (ledger dests prepared c) (set_up_group env tid g source destId config key expiresIn)
     (\<lambda>_. ledger dests prepared c) (ledger dests prepared c)"
  unfolding set_up_group_def
proof (rule hoare_bind [OF hoare_throwIfAborted], rule hoare_bind [OF hoare_get [where Q = "\<lambda>a m l. a = m \<and> ledger dests prepared c m l"]])
  let ?I = "ledger dests prepared c"
  let ?H = "\<lambda>u. holding dests prepared c g config key u"
  have H: "?H u m l \<Longrightarrow> ?I m l" for u m l by (simp add: holding_def)
  fix uploads
  show "hoare (\<lambda>m l. uploads = m \<and> ?I m l)
      (case map_of uploads g of
         Some retained \<Rightarrow> finish_group env tid g source destId config key (us_uploadId retained) expiresIn
       | None \<Rightarrow> bind_a (on_world (createMultipartUpload (me_signing env) config key [(''beam-transfer-id'', tid)])) (\<lambda>uploadId.
           bind_a (put_upload g \<lparr>us_destination = config, us_objectKey = key, us_uploadId = uploadId, us_manifest = None\<rparr>) (\<lambda>_.
           bind_a (attempt (finish_group env tid g source destId config key uploadId expiresIn)) (\<lambda>r. case r of
             Inr manifest \<Rightarrow> return_a manifest | Inl e \<Rightarrow> bind_a (take_back env g config key uploadId) (\<lambda>_. throw_m e))))) (\<lambda>_. ?I) ?I"
  proof (cases "map_of uploads g")
    case (Some ret)
    have "hoare (?H (us_uploadId ret)) (finish_group env tid g source destId config key (us_uploadId ret) expiresIn) (\<lambda>_. ?I) ?I"
      using hoare_finish [of dests prepared c g config key "us_uploadId ret" env tid source destId expiresIn] H
      unfolding hoare_def by (force split: sum.splits)
    moreover have "?H (us_uploadId ret) m l" if "uploads = m \<and> ?I m l" for m l
    proof -
      from that Some obtain y where "y \<in> set (plan_groups (pr_plan prepared))"
        "group_of dests prepared y = Some (g, us_destination ret, us_objectKey ret)" unfolding ledger_def owned_def by blast
      with assms have "us_destination ret = config \<and> us_objectKey ret = key" unfolding named_apart_def by blast
      with that Some show ?thesis by (auto simp: holding_def holds_upload_def)
    qed
    ultimately show ?thesis using Some by (auto intro: hoare_pre)
  next
    case None
    have handled: "hoare (?H u) (case r of Inr manifest \<Rightarrow> return_a manifest | Inl e \<Rightarrow> bind_a (take_back env g config key u) (\<lambda>_. throw_m e)) (\<lambda>_. ?I) ?I"
      for u and r :: "string + group_manifest"
      by (cases r) (auto intro!: hoare_return hoare_bind [OF hoare_take_back] hoare_throw simp: H)
    have finished: "hoare (?H u) (bind_a (attempt (finish_group env tid g source destId config key u expiresIn)) (\<lambda>r. case r of
        Inr manifest \<Rightarrow> return_a manifest | Inl e \<Rightarrow> bind_a (take_back env g config key u) (\<lambda>_. throw_m e))) (\<lambda>_. ?I) ?I" for u
      by (rule hoare_bind [OF hoare_attempt handled]) (simp add: hoare_finish)
    have stored: "hoare (\<lambda>m. pending dests prepared c g config key u m)
        (put_upload g \<lparr>us_destination = config, us_objectKey = key, us_uploadId = u, us_manifest = None\<rparr>) (\<lambda>_. ?H u) ?I" for u
      unfolding put_upload_def by (rule hoare_modify) (rule pending_put [OF _ x])
    have "hoare (\<lambda>m l. ?I m l \<and> map_of m g = None)
      (bind_a (on_world (createMultipartUpload (me_signing env) config key [(''beam-transfer-id'', tid)])) (\<lambda>uploadId.
           bind_a (put_upload g \<lparr>us_destination = config, us_objectKey = key, us_uploadId = uploadId, us_manifest = None\<rparr>) (\<lambda>_.
           bind_a (attempt (finish_group env tid g source destId config key uploadId expiresIn)) (\<lambda>r. case r of
             Inr manifest \<Rightarrow> return_a manifest | Inl e \<Rightarrow> bind_a (take_back env g config key uploadId) (\<lambda>_. throw_m e))))) (\<lambda>_. ?I) ?I"
      by (rule hoare_bind [OF hoare_create_upload [OF x(2)]], rule hoare_bind [OF stored]) (rule finished)
    with None show ?thesis by (auto intro: hoare_pre)
  qed
qed simp


lemma hoare_create_group:
  assumes "named_apart dests prepared" and "sd \<in> set (plan_groups (pr_plan prepared))"
  shows "hoare (ledger dests prepared c) (create_group env prepared dests expiresIn sd) (\<lambda>_. ledger dests prepared c) (ledger dests prepared c)"
proof (cases "group_of dests prepared sd")
  case None
  then show ?thesis
    by (auto simp: create_group_def group_of_def Let_def intro!: hoare_return split: option.splits if_splits)
next
  case (Some gck)
  obtain g config key where gck: "gck = (g, config, key)" by (cases gck)
  with Some have gid: "g = multipartGroupStateKey (pr_transfer_id prepared) (pd_destination_id (snd sd)) (ps_source_id (fst sd)) key"
    and config: "map_of dests (pd_destination_id (snd sd)) = Some config" "\<not> isDirectPutDestination config"
    and key: "final_key (snd sd) (ps_source_id (fst sd)) = Some key"
    by (auto simp: group_of_def split: option.splits if_splits)
  let ?I = "ledger dests prepared c"
  have set_up: "hoare ?I (attempt (set_up_group env (pr_transfer_id prepared) g (fst sd) (pd_destination_id (snd sd)) config key expiresIn)) (\<lambda>_. ?I) ?I"
    by (rule hoare_attempt) (simp add: hoare_set_up [OF assms(1,2) Some [unfolded gck]])
  have failed: "hoare ?I (bind_a (on_world (call (\<lambda>_. Ev_group_failed g) (\<lambda>w. (Inr (), w)))) (\<lambda>_. return_a r)) (\<lambda>_. ?I) ?I"
    for r :: "string + group_manifest option"
    by (intro hoare_bind [where R = "\<lambda>_. ?I"] hoare_quiet quiet_call hoare_return) (auto simp: loud_def ledger_quiet)
  show ?thesis
    unfolding create_group_def Let_def config(1) key option.case if_not_P [OF config(2)]
    by (rule hoare_bind [OF set_up [unfolded gid]]) (auto simp: gid [symmetric] intro!: hoare_return failed split: sum.splits)
qed

lemma hoare_create_manifest:
  assumes "named_apart dests prepared"
  shows "hoare (ledger dests prepared c) (createMultipartGroupManifest env prepared dests expiresIn) (\<lambda>_. ledger dests prepared c) (ledger dests prepared c)"
proof -
  let ?I = "ledger dests prepared c"
  have "hoare ?I (fold_a (\<lambda>results sd. bind_a (create_group env prepared dests expiresIn sd) (\<lambda>r. return_a (results @ [r])))
       [] (plan_groups (pr_plan prepared))) (\<lambda>_. ?I) ?I"
    by (rule hoare_fold [where I = "\<lambda>_. ?I"], rule hoare_bind [OF hoare_create_group [OF assms]]) (auto intro: hoare_return)
  then show ?thesis
    unfolding createMultipartGroupManifest_def
    by (rule hoare_bind) (auto intro!: hoare_return hoare_throw split: option.splits sum.splits)
qed

subsection \<open>A failure takes every upload back\<close>

lemma hoare_fold_prefix:
  assumes "\<And>pre x acc. x \<in> set xs \<Longrightarrow> hoare (I pre acc) (f acc x) (I (pre @ [x])) E"
  shows "hoare (I pre acc) (fold_a f acc xs) (I (pre @ xs)) E"
  using assms
proof (induction xs arbitrary: pre acc)
  case Nil
  show ?case by (simp add: hoare_return)
next
  case (Cons x xs)
  have "hoare (I pre acc) (f acc x) (I (pre @ [x])) E" by (rule Cons.prems) simp
  moreover have "hoare (I (pre @ [x]) acc') (fold_a f acc' xs) (I (pre @ x # xs)) E" for acc'
    using Cons.IH [of "pre @ [x]" acc'] Cons.prems by simp
  ultimately show ?case by (simp add: hoare_bind)
qed

text \<open>While the uploads of a snapshot are aborted, the map only shrinks; with no failure the uploads already met are gone.\<close>

definition aborting :: "(string \<times> json) list \<Rightarrow> prepared_transfer \<Rightarrow> bool \<Rightarrow> uploads \<Rightarrow> (string \<times> upload_state) list \<Rightarrow> string list
   \<Rightarrow> uploads \<Rightarrow> signing_event list \<Rightarrow> bool" where
  "aborting dests prepared c m0 pre failures m l \<longleftrightarrow> ledger dests prepared c m l
     \<and> (\<forall>g u. map_of m g = Some u \<longrightarrow> map_of m0 g = Some u)
     \<and> (failures = [] \<longrightarrow> (\<forall>gu \<in> set pre. map_of m (fst gu) = None))"

lemma aborting_quiet:
  "aborting dests prepared c m0 pre failures m l \<Longrightarrow> list_all (\<lambda>e. \<not> loud e) es \<Longrightarrow> aborting dests prepared c m0 pre failures m (l @ es)"
  by (simp add: aborting_def ledger_quiet)

lemma aborting_done:
  assumes "aborting dests prepared c m0 pre failures m l" and "map_of m0 g = Some u"
    and "aborted_in l (us_destination u) (us_objectKey u) (us_uploadId u)"
  shows "aborting dests prepared c m0 (pre @ [(g, u)]) failures (amap_delete g m) l"
proof -
  have "ledger dests prepared c (amap_delete g m) l"
  proof (cases "map_of m g")
    case None
    then have "amap_delete g m = m" by (induction m) (auto simp: amap_delete_def split: if_splits)
    with assms(1) show ?thesis by (simp add: aborting_def)
  next
    case (Some v)
    with assms(1,2) have "v = u" by (auto simp: aborting_def)
    with Some assms(1) have "holding dests prepared c g (us_destination u) (us_objectKey u) (us_uploadId u) m l"
      by (simp add: holding_def holds_upload_def aborting_def)
    then show ?thesis by (rule ledger_aborted) (rule assms(3))
  qed
  moreover have "map_of m0 g' = Some v" if "map_of (amap_delete g m) g' = Some v" for g' v
    using that assms(1) unfolding aborting_def map_of_amap_delete by (metis fun_upd_apply option.distinct(1))
  moreover have "failures = [] \<longrightarrow> (\<forall>gu \<in> set (pre @ [(g, u)]). map_of (amap_delete g m) (fst gu) = None)"
    using assms(1) unfolding aborting_def by simp
  ultimately show ?thesis unfolding aborting_def by blast
qed

lemma hoare_abort_one:
  assumes "map_of m0 g = Some u"
  shows "hoare (aborting dests prepared c m0 pre failures)
     (bind_a (abort_one env (g, u)) (\<lambda>r. return_a (case r of None \<Rightarrow> failures | Some e \<Rightarrow> failures @ [e])))
     (aborting dests prepared c m0 (pre @ [(g, u)])) (ledger dests prepared c)"
proof -
  let ?A = "aborting dests prepared c m0 pre failures"
  let ?R = "\<lambda>r m l. case r of Inl _ \<Rightarrow> ?A m l
    | Inr _ \<Rightarrow> ?A m l \<and> aborted_in l (us_destination u) (us_objectKey u) (us_uploadId u)"
  let ?S = "\<lambda>r m l. case r of Some e \<Rightarrow> ?A m l | None \<Rightarrow> aborting dests prepared c m0 (pre @ [(g, u)]) failures m l"
  have tried: "hoare ?A (attempt (on_world (abortMultipartUpload (me_signing env) (us_destination u) (us_objectKey u) (us_uploadId u)))) ?R (ledger dests prepared c)"
    by (rule hoare_attempt, simp, rule hoare_abort) (auto simp: aborted_in_def loud_def intro!: aborting_quiet)
  have handled: "hoare (?R r) (case r of Inl e \<Rightarrow> return_a (Some e) | Inr _ \<Rightarrow> bind_a (modify_state (amap_delete g)) (\<lambda>_. return_a None))
      ?S (ledger dests prepared c)" for r :: "string + unit"
    by (cases r) (auto intro!: hoare_return hoare_bind [OF hoare_modify [where Q = "\<lambda>_. aborting dests prepared c m0 (pre @ [(g, u)]) failures"]]
      aborting_done [OF _ assms])
  have one: "hoare ?A (abort_one env (g, u)) ?S (ledger dests prepared c)"
    unfolding abort_one_def fst_conv snd_conv by (rule hoare_bind [OF tried handled])
  show ?thesis
    by (rule hoare_bind [OF one], rule hoare_return) (auto simp: aborting_def split: option.splits)
qed


lemma aborting_clean:
  assumes "aborting dests prepared c m0 (filter (\<lambda>gu. abortable (snd gu)) m0) [] m l"
  shows "clean l"
  unfolding clean_def
proof (intro allI impI)
  fix config key u assume made: "created_in l config key u"
  from assms made have "\<not> isDirectPutDestination config" and kept: "kept_in m config key u \<or> aborted_in l config key u"
    by (auto simp: aborting_def ledger_def tracked_def)
  have "\<not> kept_in m config key u"
  proof
    assume "kept_in m config key u"
    then obtain g w where w: "map_of m g = Some w" "us_destination w = config" "us_uploadId w = u"
      by (auto simp: kept_in_def holds_upload_def simp del: map_of_eq_Some_iff)
    with assms have "(g, w) \<in> set m0" unfolding aborting_def by (meson map_of_SomeD)
    moreover have "abortable w"
      using w made \<open>\<not> isDirectPutDestination config\<close> by (auto simp: abortable_def created_in_def isDirectPutDestination_def)
    ultimately have "map_of m g = None" using assms unfolding aborting_def by force
    with w show False by simp
  qed
  with kept show "aborted_in l config key u" by simp
qed

lemma hoare_abort_all:
  "hoare (ledger dests prepared c) (abortCreatedUploads env) (\<lambda>_ m l. ledger dests prepared c m l \<and> clean l) (ledger dests prepared c)"
  unfolding abortCreatedUploads_def
proof (rule hoare_bind [OF hoare_get [where Q = "\<lambda>a m l. a = m \<and> ledger dests prepared c m l"]])
  fix m0 :: uploads
  let ?us = "filter (\<lambda>gu. abortable (snd gu)) m0"
  show "hoare (\<lambda>m l. m0 = m \<and> ledger dests prepared c m l)
     (bind_a (fold_a (\<lambda>failures gu. bind_a (abort_one env gu) (\<lambda>r. return_a (case r of None \<Rightarrow> failures | Some e \<Rightarrow> failures @ [e]))) [] ?us)
       (\<lambda>failures. if failures \<noteq> [] then throw_m (''failed to abort '' @ show_nat (length failures) @ '' multipart upload(s)'') else return_a ()))
     (\<lambda>_ m l. ledger dests prepared c m l \<and> clean l) (ledger dests prepared c)"
  proof (cases "distinct (map fst m0)")
    case False
    then show ?thesis by (auto simp: hoare_def ledger_def owned_def)
  next
    case True
    have one: "hoare (aborting dests prepared c m0 pre failures)
        (bind_a (abort_one env gu) (\<lambda>r. return_a (case r of None \<Rightarrow> failures | Some e \<Rightarrow> failures @ [e])))
        (aborting dests prepared c m0 (pre @ [gu])) (ledger dests prepared c)" if "gu \<in> set ?us" for pre gu failures
    proof -
      obtain g u where gu: "gu = (g, u)" by (cases gu)
      with that True have "map_of m0 g = Some u" by (auto intro: map_of_is_SomeI)
      then show ?thesis unfolding gu by (rule hoare_abort_one)
    qed
    have all: "hoare (aborting dests prepared c m0 [] [])
        (fold_a (\<lambda>failures gu. bind_a (abort_one env gu) (\<lambda>r. return_a (case r of None \<Rightarrow> failures | Some e \<Rightarrow> failures @ [e]))) [] ?us)
        (aborting dests prepared c m0 ?us) (ledger dests prepared c)"
      using hoare_fold_prefix [where I = "aborting dests prepared c m0" and pre = "[]" and acc = "[]" and xs = ?us, OF one] by simp
    have finish: "hoare (aborting dests prepared c m0 ?us failures)
        (if failures \<noteq> [] then throw_m (''failed to abort '' @ show_nat (length failures) @ '' multipart upload(s)'') else return_a ())
        (\<lambda>_ m l. ledger dests prepared c m l \<and> clean l) (ledger dests prepared c)" for failures
      using aborting_clean [of dests prepared c m0] by (auto intro!: hoare_throw hoare_return simp: aborting_def)
    show ?thesis by (rule hoare_pre [OF hoare_bind [OF all finish]]) (auto simp: aborting_def)
  qed
qed simp

text \<open>The cancellation is recorded when, and only when, Beam answered that it succeeded.\<close>

lemma hoare_cancel:
  "hoare (\<lambda>m l. ledger dests prepared False m l \<and> (X \<longrightarrow> clean l)) (cancelTransferAfterProviderFailure env error_of tid cause)
     (\<lambda>_ m l. ledger dests prepared True m l \<and> (X \<longrightarrow> clean l)) (\<lambda>m l. ledger dests prepared False m l \<and> (X \<longrightarrow> clean l))"
proof (rule hoareI)
  fix w m l r w' m' l'
  assume p: "ledger dests prepared False m l \<and> (X \<longrightarrow> clean l)"
    and run: "cancelTransferAfterProviderFailure env error_of tid cause ((w, m), l) = (r, ((w', m'), l'))"
  obtain q v where f: "me_cancel env w = (q, v)" by (cases "me_cancel env w")
  have shape: "m' = m \<and> l' = l @ [Ev_cancel q] \<and> (\<exists>message. q = Inr (True, message)) = (\<exists>a. r = Inr a)"
    using run f
    by (auto simp: cancelTransferAfterProviderFailure_def Let_def bind_a_def attempt_def on_world_def call_def throw_m_def lift_a_def
        return_a_def split: sum.splits prod.splits if_splits)
  have more: "ledger dests prepared (\<exists>a. r = Inr a) m' l'"
    using p shape by (auto simp: ledger_def tracked_def trace_append created_in_def [of "[_]"] aborted_in_def [of "[_]"] cancelled_in_def [of "[_]"])
  moreover have "X \<longrightarrow> clean l'"
    using p shape by (auto simp: clean_def trace_append created_in_def [of "[_]"])
  ultimately show "case r of Inl e \<Rightarrow> ledger dests prepared False m' l' \<and> (X \<longrightarrow> clean l')
      | Inr a \<Rightarrow> ledger dests prepared True m' l' \<and> (X \<longrightarrow> clean l')"
    by (cases r) simp_all
qed

lemma hoare_abort_outcome:
  "hoare (\<lambda>m l. ledger dests prepared c m l \<and> (\<not> P \<longrightarrow> clean l))
     (if P then bind_a (attempt (abortCreatedUploads env)) (\<lambda>r. return_a (outcome_error r)) else return_a None)
     (\<lambda>e m l. ledger dests prepared c m l \<and> (e = None \<longrightarrow> clean l)) E"
proof (cases P)
  case True
  have "hoare (ledger dests prepared c) (attempt (abortCreatedUploads env))
      (\<lambda>r m l. ledger dests prepared c m l \<and> (outcome_error r = None \<longrightarrow> clean l)) E"
    by (rule hoare_attempt) (rule hoareI, drule (1) hoareD [OF hoare_abort_all], auto simp: outcome_error_def split: sum.splits)
  then have "hoare (ledger dests prepared c) (bind_a (attempt (abortCreatedUploads env)) (\<lambda>r. return_a (outcome_error r)))
      (\<lambda>e m l. ledger dests prepared c m l \<and> (e = None \<longrightarrow> clean l)) E"
    by (rule hoare_bind) (rule hoare_return)
  with True show ?thesis by simp
qed (auto intro: hoare_return)

lemma hoare_failure:
  "hoare (ledger dests prepared False) (cancelAndAbortProviderFailure env error_of tid cause first)
     (\<lambda>f m l. ledger dests prepared (transferCancelled f) m l \<and> (multipartCleanupComplete f \<longrightarrow> clean l)) (\<lambda>_ _. False)"
proof -
  let ?A = "bind_a (attempt (abortCreatedUploads env)) (\<lambda>r. return_a (outcome_error r))"
  have early: "hoare (ledger dests prepared False) (if first then ?A else return_a None)
      (\<lambda>e m l. ledger dests prepared False m l \<and> (first \<and> e = None \<longrightarrow> clean l)) (\<lambda>_ _. False)"
  proof (cases first)
    case True
    with hoare_abort_outcome [of dests prepared False first env "\<lambda>_ _. False"] show ?thesis by simp
  qed (auto intro: hoare_return)
  have cancelled: "hoare (\<lambda>m l. ledger dests prepared False m l \<and> (X \<longrightarrow> clean l))
      (attempt (cancelTransferAfterProviderFailure env error_of tid cause))
      (\<lambda>r m l. ledger dests prepared (outcome_error r = None) m l \<and> (X \<longrightarrow> clean l)) (\<lambda>_ _. False)" for X
    by (rule hoare_attempt) (rule hoareI, drule (1) hoareD [OF hoare_cancel], auto simp: outcome_error_def split: sum.splits)
  have late: "hoare (\<lambda>m l. ledger dests prepared (outcome_error r = None) m l \<and> (first \<and> e = None \<longrightarrow> clean l))
      (if \<not> first \<or> e \<noteq> None then ?A else return_a None)
      (\<lambda>k m l. ledger dests prepared (outcome_error r = None) m l \<and> (k = None \<longrightarrow> clean l)) (\<lambda>_ _. False)" for e and r :: "string + unit"
    using hoare_abort_outcome [where P = "\<not> first \<or> e \<noteq> None" and env = env and E = "\<lambda>_ _. False"] by simp
  show ?thesis
    unfolding cancelAndAbortProviderFailure_def
    by (rule hoare_bind [OF early], rule hoare_bind [OF cancelled], rule hoare_bind [OF late], rule hoare_return)
      (simp add: transferCancelled_def multipartCleanupComplete_def)
qed


text \<open>
  C8. A failed transfer leaves no upload behind unnoticed. Set the multipart groups up, for a plan whose group ids name one
  object each, with or without uploads taken over from a client before, and then end the transfer as failed, aborting first
  or cancelling first. However the provider, Beam and the stop signal behave, the failure is reported, not thrown away; when
  it says that the cleanup is complete, every upload the provider ever created was aborted at its own destination and object;
  it says that the transfer was cancelled when, and only when, Beam answered that it was. An upload that was not aborted is
  still in the map, where a later cleanup finds it.
\<close>

theorem failed_transfer_accounts_for_uploads:
  assumes "named_apart dests prepared" and "owned dests prepared retained"
    and "createMultipartGroupManifest env prepared dests expiresIn ((w0, retained), []) = (r, ((w1, m1), l1))"
    and "cancelAndAbortProviderFailure env error_of tid cause abortFirst ((w1, m1), l1) = (outcome, ((w2, m2), l2))"
  shows "\<exists>f. outcome = Inr f
    \<and> (multipartCleanupComplete f \<longrightarrow> (\<forall>config key u. created_in l2 config key u \<longrightarrow> aborted_in l2 config key u))
    \<and> (transferCancelled f \<longleftrightarrow> cancelled_in l2)
    \<and> (\<forall>config key u. created_in l2 config key u \<longrightarrow> kept_in m2 config key u \<or> aborted_in l2 config key u)"
proof -
  have "ledger dests prepared False retained []"
    using assms(2) by (simp add: ledger_def tracked_def created_in_def cancelled_in_def)
  from hoareD [OF hoare_create_manifest [OF assms(1)] this assms(3)] have "ledger dests prepared False m1 l1"
    by (simp split: sum.splits)
  from hoareD [OF hoare_failure this assms(4)] show ?thesis
    by (cases outcome) (auto simp: ledger_def tracked_def clean_def)
qed

text \<open>One source to one destination: the group is refused by whoever is told of it, its upload aborted, the transfer cancelled.\<close>

definition demo_dests :: "(string \<times> json) list" where
  "demo_dests = [(''d'', JObj [(''provider'', JStr ''s3''), (''bucket'', JStr ''b'')])]"

definition demo_prepared :: prepared_transfer where
  "demo_prepared = \<lparr>pr_transfer_id = ''t'', pr_route_generation_id = ''r'', pr_plan =
     \<lparr>pl_plan_nonce = ''n'', pl_chunk_size = 5,
      pl_sources = [\<lparr>ps_source_id = ''s'', ps_url = [], ps_size = 5, ps_metadata = None, ps_global_chunk_start = 0, ps_chunk_count = 1\<rparr>],
      pl_destinations = [\<lparr>pd_destination_id = ''d'', pd_provider = ''s3'', pd_metadata = None, pd_destination_index = 0,
        pd_final_object_keys = [(''s'', ''k'')]\<rparr>],
      pl_logical_chunk_count = 1, pl_delivery_route_count = 1\<rparr>\<rparr>"

definition demo_env :: "unit manifest_env" where
  "demo_env = \<lparr>me_signing = \<lparr>sn_presign = \<lambda>_ _ _ w. (Inr ''u'', w), sn_hippius = \<lambda>_ _ _ _ _ _ w. (Inl ''no'', w), sn_hub_file = \<lambda>_ w. (Inl ''no'', w),
       sn_create_upload = \<lambda>_ _ _ w. (Inr (Some ''up''), w), sn_abort_upload = \<lambda>_ _ _ w. (Inr (), w), sn_query = \<lambda>_. Inr [],
       sn_now = \<lambda>_. 0, sn_aborted = \<lambda>_. False\<rparr>,
     me_ready = \<lambda>_ w. (Inr (), w), me_cancel = \<lambda>w. (Inr (True, None), w)\<rparr>"

definition demo_trace :: "signing_event list" where
  "demo_trace = snd (snd (createMultipartGroupManifest demo_env demo_prepared demo_dests 60 (((), []), [])))"

definition demo_uploads :: uploads where
  "demo_uploads = snd (fst (snd (createMultipartGroupManifest demo_env demo_prepared demo_dests 60 (((), []), []))))"

lemma demo_named_apart: "named_apart demo_dests demo_prepared"
  by (auto simp: named_apart_def plan_groups_def demo_prepared_def)

theorem failed_transfer_accounts_for_uploads_witness:
  "\<exists>f m2 l2. cancelAndAbortProviderFailure demo_env (\<lambda>_. None) ''t'' None True (((), demo_uploads), demo_trace) = (Inr f, (((), m2), l2))
    \<and> (multipartCleanupComplete f \<longrightarrow> (\<forall>config key u. created_in l2 config key u \<longrightarrow> aborted_in l2 config key u))
    \<and> (transferCancelled f \<longleftrightarrow> cancelled_in l2)
    \<and> (\<forall>config key u. created_in l2 config key u \<longrightarrow> kept_in m2 config key u \<or> aborted_in l2 config key u)"
proof -
  obtain r w1 m1 l1 where run: "createMultipartGroupManifest demo_env demo_prepared demo_dests 60 (((), []), []) = (r, ((w1, m1), l1))"
    by (metis prod.exhaust)
  then have state: "w1 = ()" "m1 = demo_uploads" "l1 = demo_trace" by (simp_all add: demo_trace_def demo_uploads_def)
  obtain outcome w2 m2 l2 where failure:
    "cancelAndAbortProviderFailure demo_env (\<lambda>_. None) ''t'' None True (((), demo_uploads), demo_trace) = (outcome, ((w2, m2), l2))"
    by (metis prod.exhaust)
  from failed_transfer_accounts_for_uploads [OF demo_named_apart _ run, of "\<lambda>_. None" "''t''" None True outcome w2 m2 l2]
  show ?thesis using failure state by (auto simp: owned_def)
qed

lemma demo_trace_creates: "created_in demo_trace (JObj [(''provider'', JStr ''s3''), (''bucket'', JStr ''b'')]) ''k'' ''up''"
  unfolding created_in_def demo_trace_def by code_simp

subsection \<open>Uploads taken over\<close>

text \<open>What is expected are the groups of the plan, every one of them.\<close>

lemma expected_groups_plan:
  assumes "expected_groups prepared dests acc groups = Inr expected" and "distinct (map fst acc)"
  shows "distinct (map fst expected)
    \<and> fst ` set expected = fst ` set acc \<union> {g. \<exists>sd \<in> set groups. \<exists>c. group_of dests prepared sd = Some (g, c)}
    \<and> (\<forall>g e. map_of expected g = Some e \<longrightarrow> map_of acc g = Some e
         \<or> (\<exists>sd \<in> set groups. group_of dests prepared sd = Some (g, eg_destination e, eg_objectKey e)))"
  using assms
proof (induction prepared dests acc groups rule: expected_groups.induct)
  case (1 prepared destinations acc)
  then show ?case by simp
next
  case (2 prepared dests acc source target rest)
  show ?case
  proof (cases "group_of dests prepared (source, target)")
    case None
    with "2.prems"(1) have same: "expected_groups prepared dests acc rest = Inr expected"
      by (auto simp: group_of_def split: option.splits if_splits)
    from None "2.prems" obtain config where config: "map_of dests (pd_destination_id target) = Some config" "isDirectPutDestination config"
      by (auto simp: group_of_def split: option.splits if_splits)
    from "2.IH"(1) [OF config same "2.prems"(2)] None show ?thesis by auto
  next
    case (Some gck)
    obtain g config key where gck: "gck = (g, config, key)" by (cases gck)
    let ?e = "\<lparr>eg_destination = config, eg_objectKey = key, eg_source = source, eg_destinationId = pd_destination_id target\<rparr>"
    from Some gck have config: "map_of dests (pd_destination_id target) = Some config" "\<not> isDirectPutDestination config"
      "final_key target (ps_source_id source) = Some key"
      and g: "g = multipartGroupStateKey (pr_transfer_id prepared) (pd_destination_id target) (ps_source_id source) key"
      by (auto simp: group_of_def split: option.splits if_splits)
    from "2.prems"(1) config g have step: "expected_groups prepared dests (amap_set g ?e acc) rest = Inr expected" by simp
    have "distinct (map fst (amap_set g ?e acc))" using "2.prems"(2) by simp
    from "2.IH"(2) [OF config(1,2,3) step [unfolded g] this [unfolded g], folded g]
    have ih: "distinct (map fst expected)"
      "fst ` set expected = fst ` set (amap_set g ?e acc) \<union> {g. \<exists>sd \<in> set rest. \<exists>c. group_of dests prepared sd = Some (g, c)}"
      "\<And>g' e. map_of expected g' = Some e \<Longrightarrow> map_of (amap_set g ?e acc) g' = Some e
         \<or> (\<exists>sd \<in> set rest. group_of dests prepared sd = Some (g', eg_destination e, eg_objectKey e))" by blast+
    have "map_of acc g' = Some e \<or> (\<exists>sd \<in> set ((source, target) # rest). group_of dests prepared sd = Some (g', eg_destination e, eg_objectKey e))"
      if "map_of expected g' = Some e" for g' e
      using ih(3) [OF that] Some gck by (cases "g' = g") auto
    moreover have "fst ` set expected = fst ` set acc \<union> {g. \<exists>sd \<in> set ((source, target) # rest). \<exists>c. group_of dests prepared sd = Some (g, c)}"
      using ih(2) Some gck by (auto simp: keys_amap_set)
    ultimately show ?thesis using ih(1) by blast
  qed
qed


lemma restore_each_sound:
  assumes "restore_each prepared expected ids m = (Inr (), m')" and "distinct (map fst m)"
    and "fst ` set m \<subseteq> fst ` set expected"
  shows "distinct (map fst m') \<and> fst ` set m' \<subseteq> fst ` set expected \<and> length m' = length m + length ids
    \<and> (\<forall>g u. map_of m' g = Some u \<longrightarrow> map_of m g = Some u \<or>
        (\<exists>identity \<in> set ids. \<exists>e. mi_multipartGroupId identity = g \<and> map_of expected g = Some e \<and> identity_matches prepared identity e
           \<and> u = \<lparr>us_destination = eg_destination e, us_objectKey = eg_objectKey e, us_uploadId = mi_uploadId identity, us_manifest = None\<rparr>))"
  using assms
proof (induction ids arbitrary: m)
  case Nil
  then show ?case by simp
next
  case (Cons identity ids)
  let ?g = "mi_multipartGroupId identity"
  from Cons.prems(1) obtain e where e: "map_of expected ?g = Some e" "identity_matches prepared identity e" and fresh: "map_of m ?g = None"
    by (auto simp: Let_def split: option.splits if_splits simp del: map_of_eq_Some_iff)
  let ?u = "\<lparr>us_destination = eg_destination e, us_objectKey = eg_objectKey e, us_uploadId = mi_uploadId identity, us_manifest = None\<rparr>"
  from Cons.prems(1) e fresh have step: "restore_each prepared expected ids (amap_set ?g ?u m) = (Inr (), m')"
    by (simp add: Let_def del: map_of_eq_Some_iff)
  have dist: "distinct (map fst (amap_set ?g ?u m))" using Cons.prems(2) by simp
  have "?g \<in> fst ` set expected" using e(1) by (metis domI dom_map_of_conv_image_fst)
  then have keys: "fst ` set (amap_set ?g ?u m) \<subseteq> fst ` set expected" using Cons.prems(3) by (simp add: keys_amap_set)
  have len: "length (amap_set ?g ?u m) = Suc (length m)" using fresh by (induction m) (auto split: if_splits)
  note ih = Cons.IH [OF step dist keys]
  have "map_of m g = Some u \<or> (\<exists>i \<in> set (identity # ids). \<exists>e. mi_multipartGroupId i = g \<and> map_of expected g = Some e \<and> identity_matches prepared i e
           \<and> u = \<lparr>us_destination = eg_destination e, us_objectKey = eg_objectKey e, us_uploadId = mi_uploadId i, us_manifest = None\<rparr>)"
    if g: "map_of m' g = Some u" for g u
  proof -
    from ih g consider "map_of (amap_set ?g ?u m) g = Some u"
      | "\<exists>i \<in> set ids. \<exists>e. mi_multipartGroupId i = g \<and> map_of expected g = Some e \<and> identity_matches prepared i e
           \<and> u = \<lparr>us_destination = eg_destination e, us_objectKey = eg_objectKey e, us_uploadId = mi_uploadId i, us_manifest = None\<rparr>" by blast
    then show ?thesis
    proof cases
      case 1
      show ?thesis
      proof (cases "g = ?g")
        case True
        with 1 have "u = ?u" by (simp del: map_of_eq_Some_iff)
        with True e show ?thesis by auto
      next
        case False
        with 1 have "map_of m g = Some u" by (simp del: map_of_eq_Some_iff)
        then show ?thesis by simp
      qed
    qed auto
  qed
  with ih len show ?case by auto
qed

text \<open>
  C18. A restarted client takes over the uploads of its transfer whole or not at all. When the stored identities are accepted, the
  uploads are exactly one for each group of the plan, each at the destination and object key the plan gives that group and with
  the upload id of an accepted identity, which is not blank; so the setup finds every one of them and creates none again.
\<close>

theorem restored_uploads_match_plan:
  assumes "restoreProviderMultipartIdentities prepared dests (Some ids) [] = (Inr (), m)"
  shows "owned dests prepared m
    \<and> (\<forall>sd \<in> set (plan_groups (pr_plan prepared)). \<forall>g c. group_of dests prepared sd = Some (g, c) \<longrightarrow> map_of m g \<noteq> None)
    \<and> (\<forall>g u. map_of m g = Some u \<longrightarrow> (\<exists>identity \<in> set ids. mi_multipartGroupId identity = g \<and> mi_transferId identity = pr_transfer_id prepared
         \<and> us_uploadId u = mi_uploadId identity \<and> trim (us_uploadId u) \<noteq> []))"
proof -
  from assms obtain expected where e: "expected_groups prepared dests [] (plan_groups (pr_plan prepared)) = Inr expected"
    and len: "length expected = length ids" and each: "restore_each prepared expected ids [] = (Inr (), m)"
    by (auto simp: restoreProviderMultipartIdentities_def split: sum.splits if_splits)
  note plan = expected_groups_plan [OF e, simplified]
  note sound = restore_each_sound [OF each, simplified]
  have "fst ` set m = fst ` set expected"
  proof (rule card_subset_eq)
    have "card (fst ` set m) = length m" using sound by (metis distinct_card length_map list.set_map)
    moreover have "card (fst ` set expected) = length expected" using plan by (metis distinct_card length_map list.set_map)
    ultimately show "card (fst ` set m) = card (fst ` set expected)" using sound len by simp
  qed (use sound in simp_all)
  with plan have keys: "fst ` set m = {g. \<exists>sd \<in> set (plan_groups (pr_plan prepared)). \<exists>c. group_of dests prepared sd = Some (g, c)}" by simp
  have origin: "\<exists>identity \<in> set ids. \<exists>e. mi_multipartGroupId identity = g \<and> map_of expected g = Some e \<and> identity_matches prepared identity e
      \<and> us_destination u = eg_destination e \<and> us_objectKey u = eg_objectKey e \<and> us_uploadId u = mi_uploadId identity"
    if "map_of m g = Some u" for g u
    using sound that by (metis upload_state.select_convs(1,2,3))
  have "\<exists>sd \<in> set (plan_groups (pr_plan prepared)). group_of dests prepared sd = Some (g, us_destination u, us_objectKey u)"
    if "map_of m g = Some u" for g u
    using origin [OF that] plan by metis
  with sound have "owned dests prepared m" unfolding owned_def by blast
  moreover have "map_of m g \<noteq> None" if "sd \<in> set (plan_groups (pr_plan prepared))" "group_of dests prepared sd = Some (g, c)" for sd g c
    using keys that unfolding map_of_eq_None_iff by blast
  moreover have "\<exists>identity \<in> set ids. mi_multipartGroupId identity = g \<and> mi_transferId identity = pr_transfer_id prepared
         \<and> us_uploadId u = mi_uploadId identity \<and> trim (us_uploadId u) \<noteq> []" if "map_of m g = Some u" for g u
    using origin [OF that] unfolding identity_matches_def by metis
  ultimately show ?thesis by blast
qed

definition demo_identity :: multipart_identity where
  "demo_identity = \<lparr>mi_transferId = ''t'', mi_multipartGroupId = ''t:d:s:k'', mi_sourceId = ''s'', mi_destinationId = ''d'', mi_objectKey = ''k'',
     mi_uploadId = ''up'', mi_expectedObjectSize = 5, mi_expectedPartCount = 1, mi_expiresAt = []\<rparr>"

theorem restored_uploads_match_plan_witness:
  "\<exists>m. restoreProviderMultipartIdentities demo_prepared demo_dests (Some [demo_identity]) [] = (Inr (), m)
    \<and> owned demo_dests demo_prepared m"
proof -
  have run: "restoreProviderMultipartIdentities demo_prepared demo_dests (Some [demo_identity]) [] =
      (Inr (), [(''t:d:s:k'', \<lparr>us_destination = JObj [(''provider'', JStr ''s3''), (''bucket'', JStr ''b'')], us_objectKey = ''k'',
         us_uploadId = ''up'', us_manifest = None\<rparr>)])" by code_simp
  from restored_uploads_match_plan [OF run] run show ?thesis by blast
qed

end
