(* ===== verification/SdkHuggingFace.thy ===== *)
theory SdkHuggingFace
  imports SdkManifest Base64Url
begin

text \<open>
  Uploads to the Hugging Face Hub (\<open>sdks/typescript/src/huggingface.ts\<close> and the negotiation and the commit of
  \<open>client.ts\<close>): the addresses of a file, the metadata of a source, the plan the LFS batch hands back, the hash of a
  source with the ETag of every part, the check that BeamCore took the Hub's parts over, and the commit. Requests are
  events; the hash functions and the parsing of URLs are parameters. A hash that runs beside the transfer is read where
  it is started, and what it threw is kept until it is awaited.
\<close>

subsection \<open>Addresses\<close>

definition HUGGINGFACE_DEFAULT_ENDPOINT :: string where "HUGGINGFACE_DEFAULT_ENDPOINT = ''https://huggingface.co''"
definition HUGGINGFACE_DEFAULT_REVISION :: string where "HUGGINGFACE_DEFAULT_REVISION = ''main''"
definition HUGGINGFACE_DEFAULT_REPO_TYPE :: string where "HUGGINGFACE_DEFAULT_REPO_TYPE = ''model''"
definition LFS_CONTENT_TYPE :: string where "LFS_CONTENT_TYPE = ''application/vnd.git-lfs+json''"

definition REPO_TYPE_URL_PREFIXES :: "(string \<times> string) list" where
  "REPO_TYPE_URL_PREFIXES = [(''model'', []), (''dataset'', ''datasets/''), (''space'', ''spaces/''), (''kernel'', ''kernels/''),
     (''bucket'', ''buckets/'')]"

definition config_or :: "json \<Rightarrow> string \<Rightarrow> string \<Rightarrow> string" where
  "config_or config k default_text = coalesce (as_str (jget config k)) default_text"

definition huggingFaceEndpoint :: "json \<Rightarrow> string" where
  "huggingFaceEndpoint config = strip_trailing_slashes (config_or config ''endpoint'' HUGGINGFACE_DEFAULT_ENDPOINT)"

definition huggingFaceRepoType :: "json \<Rightarrow> string" where
  "huggingFaceRepoType config = config_or config ''repo_type'' HUGGINGFACE_DEFAULT_REPO_TYPE"

definition huggingFaceRevision :: "json \<Rightarrow> string" where
  "huggingFaceRevision config = config_or config ''revision'' HUGGINGFACE_DEFAULT_REVISION"

definition repo_prefix :: "json \<Rightarrow> string" where
  "repo_prefix config = coalesce (map_of REPO_TYPE_URL_PREFIXES (huggingFaceRepoType config)) ''undefined''"

definition encodePath :: "string \<Rightarrow> string" where
  "encodePath path = join_with ''/'' (map encodeURIComponent (split_on (CHR ''/'') path))"

definition huggingFaceResolveUrl :: "json \<Rightarrow> string" where
  "huggingFaceResolveUrl config =
     (let root = huggingFaceEndpoint config @ ''/'' @ repo_prefix config @ config_text config ''repo_id'' @ ''/resolve/'' in
      if huggingFaceRepoType config = ''bucket'' then root @ encodeURIComponent (config_text config ''path'')
      else root @ encodeURIComponent (huggingFaceRevision config) @ ''/'' @ encodePath (config_text config ''path''))"

definition huggingFaceApiBase :: "json \<Rightarrow> string" where
  "huggingFaceApiBase config = huggingFaceEndpoint config @ ''/api/'' @ huggingFaceRepoType config @ ''s/'' @ config_text config ''repo_id''"

definition huggingFaceLfsBatchUrl :: "json \<Rightarrow> string" where
  "huggingFaceLfsBatchUrl config =
     huggingFaceEndpoint config @ ''/'' @ repo_prefix config @ config_text config ''repo_id'' @ ''.git/info/lfs/objects/batch''"

definition describe :: "json \<Rightarrow> string" where
  "describe config = huggingFaceRepoType config @ '' '' @ config_text config ''repo_id'' @ ''@'' @ huggingFaceRevision config @ ''/''
     @ config_text config ''path''"

subsection \<open>Requests\<close>

record hub_request =
  hq_method :: string
  hq_url :: string
  hq_headers :: "(string \<times> string) list"
  hq_body :: string

text \<open>A response: its text and its JSON may fail to be read; its body is a sequence of pieces and how it ends.\<close>

record hub_response =
  hp_status :: int
  hp_headers :: headers
  hp_text :: "string option"
  hp_json :: "string + json"
  hp_body :: "(string list \<times> string option) option"

datatype hub_event = Hub_fetched hub_request "string + hub_response"

record 'w hub_env =
  hb_fetch :: "hub_request \<Rightarrow> 'w \<Rightarrow> (string + hub_response) \<times> 'w"
  hb_host :: "string \<Rightarrow> string \<Rightarrow> string option"
  hb_md5 :: "string \<Rightarrow> string"
  hb_sha256 :: "string \<Rightarrow> string"

type_synonym ('w, 'a) hub = "('w, hub_event, 'a) act"

definition hub_throw :: "string \<Rightarrow> ('w, 'a) hub" where
  "hub_throw e = lift_a (Inl e)"

definition hub_fetch :: "'w hub_env \<Rightarrow> string \<Rightarrow> string \<Rightarrow> (string \<times> string) list \<Rightarrow> string \<Rightarrow> ('w, hub_response) hub" where
  "hub_fetch env verb url hdrs content =
     (let q = \<lparr>hq_method = verb, hq_url = url, hq_headers = hdrs, hq_body = content\<rparr> in call (Hub_fetched q) (hb_fetch env q))"

definition response_ok :: "hub_response \<Rightarrow> bool" where
  "response_ok r \<longleftrightarrow> 200 \<le> hp_status r \<and> hp_status r \<le> 299"

text \<open>\<open>slice(0, n)\<close> counts UTF-16 units; a character cut in two is left out.\<close>

fun utf16_prefix :: "nat \<Rightarrow> string \<Rightarrow> string" where
  "utf16_prefix n [] = []"
| "utf16_prefix n (c # s) =
     (if cont_byte c then c # utf16_prefix n s
      else (let units = (if (of_char c :: nat) \<ge> 240 then 2 else 1) in
            if units > n then [] else c # utf16_prefix (n - units) s))"

definition assertOk :: "hub_response \<Rightarrow> string \<Rightarrow> json \<Rightarrow> string + unit" where
  "assertOk response step config =
     (if response_ok response then Inr ()
      else
        (let detail = utf16_prefix 512 (coalesce (hp_text response) []) in
         Inl (''Hugging Face '' @ step @ '' failed status='' @ show_int (hp_status response) @ '' for '' @ describe config
           @ (if detail = [] then [] else '': '' @ detail))))"

definition readJson :: "hub_response \<Rightarrow> string \<Rightarrow> json \<Rightarrow> string + json" where
  "readJson response step config = (case assertOk response step config of Inl e \<Rightarrow> Inl e | Inr _ \<Rightarrow> hp_json response)"

definition bearer :: "json \<Rightarrow> string \<times> string" where
  "bearer config = (''Authorization'', ''Bearer '' @ config_text config ''token'')"

definition jsonHeaders :: "json \<Rightarrow> (string \<times> string) list" where
  "jsonHeaders config = [bearer config, (''Content-Type'', ''application/json'')]"

text \<open>\<open>sameHost\<close>: an address that cannot be read counts as the Hub's own.\<close>

definition sameHost :: "'w hub_env \<Rightarrow> string \<Rightarrow> string \<Rightarrow> bool" where
  "sameHost env left right =
     (case (hb_host env left left, hb_host env left right) of (Some a, Some b) \<Rightarrow> a = b | _ \<Rightarrow> True)"

definition normalizeEtag :: "string option \<Rightarrow> string option" where
  "normalizeEtag etag = (case truthy etag of
      None \<Rightarrow> None
    | Some e \<Rightarrow> Some (strip_quotes (if starts_with ''W/'' e then drop 2 e else e)))"

record file_metadata =
  fm_url :: string
  fm_size :: rat
  fm_etag :: "string option"
  fm_commitHash :: "string option"

definition no_redirect :: "json \<Rightarrow> string" where
  "no_redirect config = ''Hugging Face did not redirect '' @ describe config @ '' to a presigned CDN URL. ''
     @ ''Beam reads this file over plain HTTP without forwarding your token, and the Hub only ''
     @ ''redirects for large-file (LFS or Xet) content. A small regular file is served inline ''
     @ ''from the Hub instead and cannot be transferred.''"

definition file_metadata_of :: "'w hub_env \<Rightarrow> json \<Rightarrow> string \<Rightarrow> hub_response \<Rightarrow> string + file_metadata" where
  "file_metadata_of env config resolveUrl response =
     (if hp_status response \<ge> 400 then
        Inl (''Hugging Face file lookup failed status='' @ show_int (hp_status response) @ '' for '' @ describe config)
      else
        (case truthy (header_get (hp_headers response) ''location'') of
           None \<Rightarrow> Inl (no_redirect config)
         | Some location \<Rightarrow>
             if sameHost env resolveUrl location then Inl (no_redirect config)
             else
               (case or_else (header_get (hp_headers response) ''x-linked-size'') (header_get (hp_headers response) ''content-length'') of
                  None \<Rightarrow> Inl (''Hugging Face did not report a size for '' @ describe config)
                | Some shown \<Rightarrow>
                    (case js_number shown of
                       None \<Rightarrow> Inl (''Hugging Face did not report a size for '' @ describe config)
                     | Some osize \<Rightarrow>
                         if osize \<le> 0 then Inl (''Hugging Face did not report a size for '' @ describe config)
                         else Inr \<lparr>fm_url = location, fm_size = osize,
                           fm_etag = normalizeEtag (or_else (header_get (hp_headers response) ''x-linked-etag'') (header_get (hp_headers response) ''etag'')),
                           fm_commitHash = header_get (hp_headers response) ''x-repo-commit''\<rparr>))))"

definition huggingFaceFileMetadata :: "'w hub_env \<Rightarrow> json \<Rightarrow> ('w, file_metadata) hub" where
  "huggingFaceFileMetadata env config =
     (let resolveUrl = huggingFaceResolveUrl config in
      bind_a (hub_fetch env ''HEAD'' resolveUrl [bearer config, (''Accept-Encoding'', ''identity'')] []) (\<lambda>response.
        lift_a (file_metadata_of env config resolveUrl response)))"

subsection \<open>Negotiating an upload\<close>

definition api_url :: "json \<Rightarrow> string \<Rightarrow> string" where
  "api_url config what = huggingFaceApiBase config @ ''/'' @ what @ ''/'' @ encodeURIComponent (huggingFaceRevision config)
     @ (if falsy (jget config ''create_pr'') then [] else ''?create_pr=1'')"

definition first_of :: "json option \<Rightarrow> json option" where
  "first_of v = (case as_arr v of Some (x # _) \<Rightarrow> if falsy (Some x) then None else Some x | _ \<Rightarrow> None)"

record preupload_answer =
  pa_uploadMode :: string
  pa_shouldIgnore :: bool
  pa_oid :: "string option"

definition preupload_of :: "json \<Rightarrow> json \<Rightarrow> string + preupload_answer" where
  "preupload_of config payload =
     (let malformed = Inl (''Hugging Face preupload returned a malformed response for '' @ describe config) in
      case first_of (jget payload ''files'') of
        None \<Rightarrow> malformed
      | Some file \<Rightarrow>
          (case as_str (jget file ''uploadMode'') of
             None \<Rightarrow> malformed
           | Some mode \<Rightarrow>
               if mode \<noteq> ''lfs'' \<and> mode \<noteq> ''regular'' then malformed
               else Inr \<lparr>pa_uploadMode = mode, pa_shouldIgnore = (\<not> falsy (jget file ''shouldIgnore'')), pa_oid = as_str (jget file ''oid'')\<rparr>))"

definition huggingFacePreupload :: "'w hub_env \<Rightarrow> json \<Rightarrow> int \<Rightarrow> string \<Rightarrow> ('w, preupload_answer) hub" where
  "huggingFacePreupload env config osize sample =
     bind_a (hub_fetch env ''POST'' (api_url config ''preupload'') (jsonHeaders config)
       (stringify (JObj [(''files'', JArr [JObj [(''path'', JStr (config_text config ''path'')), (''sample'', JStr sample), (''size'', JNum osize)]])])))
       (\<lambda>response.
     bind_a (lift_a (readJson response ''preupload'' config)) (\<lambda>payload. lift_a (preupload_of config payload)))"

record lfs_upload =
  lu_href :: string
  lu_chunkSize :: "int option"
  lu_partUrls :: "json list"

record lfs_plan =
  lp_oid :: string
  lp_size :: int
  lp_upload :: "lfs_upload option"
  lp_verifyHref :: "string option"

text \<open>
  \<open>Object.entries\<close> lists the keys that are array indices first, in their order; the stable sort by number follows. The
  entries are those of a decoded object, whose keys are distinct.
\<close>

definition digits_only :: "string \<Rightarrow> bool" where
  "digits_only k \<longleftrightarrow> k \<noteq> [] \<and> list_all (\<lambda>c. digit_val c \<noteq> None) k"

definition part_number_of :: "string \<Rightarrow> nat" where
  "part_number_of k = fst (read_digits 0 k)"

definition index_key :: "string \<Rightarrow> bool" where
  "index_key k \<longleftrightarrow> show_nat (part_number_of k) = k \<and> part_number_of k < 4294967295"

definition part_urls :: "(string \<times> json) list \<Rightarrow> json list" where
  "part_urls entries =
     (let digits = filter (\<lambda>(k, _). digits_only k) entries in
      map snd (sort_key (\<lambda>(k, _). part_number_of k) (filter (\<lambda>(k, _). index_key k) digits @ filter (\<lambda>(k, _). \<not> index_key k) digits)))"

fun json_entries :: "json option \<Rightarrow> (string \<times> json) list" where
  "json_entries (Some (JObj kvs)) = kvs"
| "json_entries _ = []"

definition ceil_div :: "int \<Rightarrow> int \<Rightarrow> int" where
  "ceil_div a b = (a + b - 1) div b"

definition chunk_size_of :: "json \<Rightarrow> json option \<Rightarrow> string + int option" where
  "chunk_size_of config raw =
     (case raw of
        None \<Rightarrow> Inr None
      | Some v \<Rightarrow>
          (case to_number (Some v) of
             Some q \<Rightarrow>
               if of_int \<lfloor>q\<rfloor> = q \<and> q > 0 then Inr (Some \<lfloor>q\<rfloor>)
               else Inl (''Hugging Face LFS batch returned a malformed chunk_size '' @ [CHR 0x27] @ js_string v @ [CHR 0x27] @ '' for '' @ describe config)
           | None \<Rightarrow> Inl (''Hugging Face LFS batch returned a malformed chunk_size '' @ [CHR 0x27] @ js_string v @ [CHR 0x27] @ '' for '' @ describe config)))"

definition text_or :: "json option \<Rightarrow> string \<Rightarrow> string" where
  "text_or v other = (case v of None \<Rightarrow> other | Some JNull \<Rightarrow> other | Some j \<Rightarrow> js_string j)"

definition lfs_plan_of :: "json \<Rightarrow> int \<Rightarrow> json \<Rightarrow> string + lfs_plan" where
  "lfs_plan_of config osize payload =
     (case first_of (jget payload ''objects'') of
        None \<Rightarrow> Inl (''Hugging Face LFS batch returned a malformed response for '' @ describe config)
      | Some obj \<Rightarrow>
          (case as_str (jget obj ''oid'') of
             None \<Rightarrow> Inl (''Hugging Face LFS batch returned a malformed response for '' @ describe config)
           | Some oid \<Rightarrow>
               (let failure = jget obj ''error''; actions = coalesce (jget obj ''actions'') JNull; upload = jget actions ''upload'' in
                if \<not> falsy failure then
                  Inl (''Hugging Face LFS batch rejected '' @ describe config @ '': '' @ text_or (jget (the failure) ''message'') ''unknown error'')
                else if falsy upload then Inr \<lparr>lp_oid = oid, lp_size = osize, lp_upload = None, lp_verifyHref = None\<rparr>
                else
                  (case as_str (jget (the upload) ''href'') of
                     None \<Rightarrow> Inl (''Hugging Face LFS batch returned no upload href for '' @ describe config)
                   | Some href \<Rightarrow>
                       (let header = jget (the upload) ''header''; urls = part_urls (json_entries header) in
                        case chunk_size_of config (case header of None \<Rightarrow> None | Some h \<Rightarrow> jget h ''chunk_size'') of
                          Inl e \<Rightarrow> Inl e
                        | Inr chunkSize \<Rightarrow>
                            if (case chunkSize of None \<Rightarrow> False | Some n \<Rightarrow> int (length urls) \<noteq> ceil_div osize n) then
                              Inl (''Hugging Face returned '' @ show_nat (length urls) @ '' part URLs for '' @ describe config @ '', expected ''
                                @ show_int (ceil_div osize (the chunkSize)) @ '' at chunk_size '' @ show_int (the chunkSize))
                            else
                              Inr \<lparr>lp_oid = oid, lp_size = osize,
                                lp_upload = Some \<lparr>lu_href = href, lu_chunkSize = chunkSize, lu_partUrls = urls\<rparr>,
                                lp_verifyHref = as_str (jget (coalesce (jget actions ''verify'') JNull) ''href'')\<rparr>)))))"

definition lfs_headers :: "(string \<times> string) list" where
  "lfs_headers = [(''Accept'', LFS_CONTENT_TYPE), (''Content-Type'', LFS_CONTENT_TYPE)]"

definition huggingFaceLfsBatch :: "'w hub_env \<Rightarrow> json \<Rightarrow> string \<Rightarrow> int \<Rightarrow> ('w, lfs_plan) hub" where
  "huggingFaceLfsBatch env config oid osize =
     bind_a (hub_fetch env ''POST'' (huggingFaceLfsBatchUrl config) (bearer config # lfs_headers)
       (stringify (JObj [(''operation'', JStr ''upload''), (''transfers'', JArr [JStr ''basic'', JStr ''multipart'']), (''hash_algo'', JStr ''sha256''),
         (''ref'', JObj [(''name'', JStr (huggingFaceRevision config))]), (''objects'', JArr [JObj [(''oid'', JStr oid), (''size'', JNum osize)]])])))
       (\<lambda>response.
     bind_a (lift_a (readJson response ''LFS batch'' config)) (\<lambda>payload. lift_a (lfs_plan_of config osize payload)))"


subsection \<open>Reading the source\<close>

definition standard_char :: "char \<Rightarrow> char" where
  "standard_char c = (if c = CHR ''-'' then CHR ''+'' else if c = CHR ''_'' then CHR ''/'' else c)"

definition base64 :: "string \<Rightarrow> string" where
  "base64 bytes = (let s = map standard_char (b64url_encode bytes) in s @ replicate ((4 - length s mod 4) mod 4) (CHR ''=''))"

definition readSourceSample :: "'w hub_env \<Rightarrow> string \<Rightarrow> int \<Rightarrow> ('w, string) hub" where
  "readSourceSample env url len =
     bind_a (hub_fetch env ''GET'' url [(''Range'', ''bytes=0-'' @ show_int (len - 1))] []) (\<lambda>response.
       if \<not> response_ok response then hub_throw (''source sample read failed status='' @ show_int (hp_status response))
       else
         (case hp_body response of
            None \<Rightarrow> return_a (base64 [])
          | Some (pieces, None) \<Rightarrow> return_a (base64 (concat pieces))
          | Some (_, Some e) \<Rightarrow> hub_throw e))"

text \<open>
  The bytes of the part under way and the ETags of the parts before it. One piece of the body may end several parts;
  a part size of 0 asks for no parts.
\<close>

function cut_piece :: "(string \<Rightarrow> string) \<Rightarrow> nat \<Rightarrow> string \<Rightarrow> string list \<Rightarrow> string \<Rightarrow> string \<times> string list" where
  "cut_piece md5 partSize part etags chunk =
     (if partSize = 0 \<or> chunk = [] then (part, etags)
      else
        (let room = partSize - length part in
         if length chunk < room then (part @ chunk, etags)
         else cut_piece md5 partSize [] (etags @ [md5 (part @ take room chunk)]) (drop room chunk)))"
  by pat_completeness auto
termination
  by (relation "measures [\<lambda>(md5, n, part, etags, chunk). length chunk, \<lambda>(md5, n, part, etags, chunk). length part]") auto

declare cut_piece.simps [simp del]

record hashed_source =
  hs_sha256 :: "string option"
  hs_partEtags :: "string list"

definition hash_pieces :: "(string \<Rightarrow> string) \<Rightarrow> nat \<Rightarrow> string list \<Rightarrow> string \<times> string list" where
  "hash_pieces md5 partSize pieces = foldl (\<lambda>(part, etags) chunk. cut_piece md5 partSize part etags chunk) ([], []) pieces"

definition part_etags :: "(string \<Rightarrow> string) \<Rightarrow> nat \<Rightarrow> string list \<Rightarrow> string list" where
  "part_etags md5 partSize pieces =
     (let (part, etags) = hash_pieces md5 partSize pieces in
      if partSize \<noteq> 0 \<and> part \<noteq> [] then etags @ [md5 part] else etags)"

definition hashSourceStream :: "'w hub_env \<Rightarrow> string \<Rightarrow> nat \<Rightarrow> bool \<Rightarrow> ('w, hashed_source) hub" where
  "hashSourceStream env url partSize sha256 =
     bind_a (hub_fetch env ''GET'' url [] []) (\<lambda>response.
       case (response_ok response, hp_body response) of
         (True, Some (pieces, failure)) \<Rightarrow>
           (case failure of
              Some e \<Rightarrow> hub_throw e
            | None \<Rightarrow> return_a \<lparr>hs_sha256 = (if sha256 then Some (hb_sha256 env (concat pieces)) else None),
                hs_partEtags = part_etags (hb_md5 env) partSize pieces\<rparr>)
       | _ \<Rightarrow> hub_throw (''source hash read failed status='' @ show_int (hp_status response)))"

subsection \<open>The uploads of a transfer\<close>

text \<open>\<open>HuggingFaceUploadState\<close>; the promise of the ETags is what it settles to.\<close>

record hub_upload =
  hu_destination :: json
  hu_destinationId :: string
  hu_sourceId :: string
  hu_oid :: string
  hu_size :: int
  hu_chunkSize :: "int option"
  hu_partUrls :: "json list"
  hu_uploadHref :: "string option"
  hu_verifyHref :: "string option"
  hu_partEtags :: "string + string list"

record prepared_source =
  pp_source_id :: string
  pp_url :: string
  pp_size :: int
  pp_filename :: "string option"
  pp_metadata :: "(string \<times> json) list"

definition huggingFaceTargetPath :: "json \<Rightarrow> string option \<Rightarrow> string + string" where
  "huggingFaceTargetPath destination sourceFilename =
     (let path = strip_leading_slashes (config_text destination ''path'') in
      if path = [] \<or> last path \<noteq> CHR ''/'' then Inr path
      else
        (case truthy sourceFilename of
           None \<Rightarrow> Inl (''huggingface path '' @ config_text destination ''path'' @ '' is a folder and the source has no filename'')
         | Some name \<Rightarrow> Inr (path @ name)))"

definition with_path :: "json \<Rightarrow> string \<Rightarrow> json" where
  "with_path destination path = (case destination of JObj kvs \<Rightarrow> JObj (amap_set ''path'' (JStr path) kvs) | _ \<Rightarrow> destination)"

definition bucket_refused :: "json \<Rightarrow> string" where
  "bucket_refused destination = config_text destination ''repo_id'' @ '' is a Hugging Face bucket, which Beam cannot write to. Buckets ''
     @ ''expose no LFS batch endpoint; their only upload path is the Hub'' @ [CHR 0x27] @ ''s Xet CAS client, ''
     @ ''which cannot be expressed as presigned URLs for Beam'' @ [CHR 0x27] @ ''s workers. Buckets do work as ''
     @ ''a transfer source. Use `hf sync` to write to a bucket.''"

definition source_oid :: "'w hub_env \<Rightarrow> json \<Rightarrow> json \<Rightarrow> prepared_source \<Rightarrow> string option \<Rightarrow> ('w, string) hub" where
  "source_oid env destination config source published =
     (case truthy published of
        Some oid \<Rightarrow> return_a oid
      | None \<Rightarrow>
          if falsy (jget destination ''allow_source_rehash'') then
            hub_throw (''uploading to '' @ describe config @ '' needs the source sha256, which the Hub requires ''
              @ ''before it issues upload URLs. The SDK must read the source once to compute it; set ''
              @ ''allow_source_rehash: true to opt in.'')
          else
            bind_a (hashSourceStream env (pp_url source) 0 True) (\<lambda>hashed. return_a (coalesce (hs_sha256 hashed) ''undefined'')))"

text \<open>One destination; the part size agreed on so far goes in and comes out.\<close>

definition plan_upload ::
  "'w hub_env \<Rightarrow> prepared_source \<Rightarrow> string option \<Rightarrow> int option \<Rightarrow> json \<Rightarrow> string \<Rightarrow> ('w, hub_upload \<times> int option) hub" where
  "plan_upload env source published providerPartSize destination destinationId =
     (if huggingFaceRepoType destination = ''bucket'' then hub_throw (bucket_refused destination)
      else
        bind_a (lift_a (huggingFaceTargetPath destination (pp_filename source))) (\<lambda>path.
          let config = with_path destination path in
          bind_a (source_oid env destination config source published) (\<lambda>oid.
          bind_a (readSourceSample env (pp_url source) 512) (\<lambda>sample.
          bind_a (huggingFacePreupload env config (pp_size source) sample) (\<lambda>preupload.
            if pa_shouldIgnore preupload then
              hub_throw (describe config @ '' is excluded by the repo'' @ [CHR 0x27] @ ''s .gitignore'')
            else if pa_uploadMode preupload \<noteq> ''lfs'' then
              hub_throw (describe config @ '' would be committed as a regular git blob, not an LFS blob. ''
                @ ''Beam uploads through the LFS protocol only; add the path to .gitattributes as LFS.'')
            else
              bind_a (huggingFaceLfsBatch env config oid (pp_size source)) (\<lambda>plan.
                let upload = lp_upload plan; chunkSize = (case upload of None \<Rightarrow> None | Some u \<Rightarrow> lu_chunkSize u) in
                if chunkSize \<noteq> None \<and> providerPartSize \<noteq> None \<and> providerPartSize \<noteq> chunkSize then
                  hub_throw (''huggingface destinations disagree on part size ('' @ show_int (the providerPartSize) @ '' vs ''
                    @ show_int (the chunkSize) @ ''); the plan carries a single chunk size'')
                else
                  bind_a (case chunkSize of
                      None \<Rightarrow> return_a (Inr [])
                    | Some n \<Rightarrow> bind_a (attempt (hashSourceStream env (pp_url source) (nat n) False)) (\<lambda>r.
                        return_a (case r of Inl e \<Rightarrow> Inl e | Inr hashed \<Rightarrow> Inr (hs_partEtags hashed)))) (\<lambda>partEtags.
                    return_a (\<lparr>hu_destination = config, hu_destinationId = destinationId, hu_sourceId = pp_source_id source,
                      hu_oid = oid, hu_size = pp_size source, hu_chunkSize = chunkSize,
                      hu_partUrls = (case upload of None \<Rightarrow> [] | Some u \<Rightarrow> lu_partUrls u),
                      hu_uploadHref = map_option lu_href upload, hu_verifyHref = lp_verifyHref plan, hu_partEtags = partEtags\<rparr>,
                      or_else chunkSize providerPartSize))))))))"

definition planHuggingFaceUploads ::
  "'w hub_env \<Rightarrow> json list \<Rightarrow> prepared_source list \<Rightarrow> (json \<times> string) list \<Rightarrow> ('w, hub_upload list \<times> int option) hub" where
  "planHuggingFaceUploads env sources preparedSources destinations =
     (let targets = filter (\<lambda>(destination, _). isHuggingFaceProvider destination) destinations in
      if targets = [] then return_a ([], None)
      else
        (case (preparedSources, sources) of
           ([source], sourceConfig # _) \<Rightarrow>
             (let published = (if isHuggingFaceProvider sourceConfig then as_str (map_of (pp_metadata source) ''sha256'') else None) in
              fold_a (\<lambda>(states, providerPartSize) (destination, destinationId).
                  bind_a (plan_upload env source published providerPartSize destination destinationId) (\<lambda>(state, providerPartSize').
                    return_a (states @ [state], providerPartSize')))
                ([], None) targets)
         | _ \<Rightarrow> hub_throw (''a huggingface destination requires exactly one source: the Hub dictates the part size ''
             @ ''and the plan carries a single chunk size, but '' @ show_nat (length preparedSources) @ '' sources were given'')))"

text \<open>Whether BeamCore's plan took over the parts of one upload.\<close>

definition assert_upload :: "plan_descriptor \<Rightarrow> hub_upload \<Rightarrow> string + unit" where
  "assert_upload d state =
     (case (find (\<lambda>p. pd_destination_id p = hu_destinationId state) (pl_destinations d),
            find (\<lambda>s. ps_source_id s = hu_sourceId state) (pl_sources d)) of
        (Some planDestination, Some planSource) \<Rightarrow>
          (let key = map_of (pd_final_object_keys planDestination) (hu_sourceId state);
               path = config_text (hu_destination state) ''path'' in
           if key \<noteq> Some path then
             Inl (''BeamCore planned '' @ coalesce key ''undefined'' @ '' but the Hub upload was negotiated for '' @ path)
           else
             (case hu_chunkSize state of
                None \<Rightarrow>
                  if ps_chunk_count planSource \<noteq> 1 then
                    Inl (describe (hu_destination state) @ '' was issued a single-part upload, but the plan has ''
                      @ show_int (ps_chunk_count planSource) @ '' chunks'')
                  else Inr ()
              | Some n \<Rightarrow>
                  if pl_chunk_size d \<noteq> n then
                    Inl (''the Hub requires '' @ show_int n @ ''-byte parts for '' @ describe (hu_destination state)
                      @ '', but BeamCore planned '' @ show_int (pl_chunk_size d) @ ''-byte chunks'')
                  else if ps_chunk_count planSource \<noteq> int (length (hu_partUrls state)) then
                    Inl (''the Hub issued '' @ show_nat (length (hu_partUrls state)) @ '' part URLs for '' @ describe (hu_destination state)
                      @ '', but the plan has '' @ show_int (ps_chunk_count planSource) @ '' chunks'')
                  else Inr ()))
      | _ \<Rightarrow> Inl (''BeamCore plan is missing the huggingface coordinate '' @ hu_sourceId state @ '':'' @ hu_destinationId state))"

definition assertHuggingFacePlan :: "plan_descriptor \<Rightarrow> hub_upload list \<Rightarrow> string + unit" where
  "assertHuggingFacePlan d states = (case map_result (assert_upload d) states of Inl e \<Rightarrow> Inl e | Inr _ \<Rightarrow> Inr ())"

subsection \<open>Closing the uploads\<close>

definition completion_body :: "string \<Rightarrow> string list \<Rightarrow> string" where
  "completion_body oid etags = stringify (JObj [(''oid'', JStr oid),
     (''parts'', JArr (map (\<lambda>(i, etag). JObj [(''partNumber'', JNum (int i + 1)), (''etag'', JStr etag)]) (enumerate 0 etags)))])"

definition huggingFaceCompleteLfsUpload :: "'w hub_env \<Rightarrow> json \<Rightarrow> string \<Rightarrow> string \<Rightarrow> string list \<Rightarrow> ('w, unit) hub" where
  "huggingFaceCompleteLfsUpload env config href oid etags =
     bind_a (hub_fetch env ''POST'' href lfs_headers (completion_body oid etags)) (\<lambda>response.
       lift_a (assertOk response ''LFS completion'' config))"

definition huggingFaceVerifyLfsUpload :: "'w hub_env \<Rightarrow> json \<Rightarrow> string \<Rightarrow> string \<Rightarrow> int \<Rightarrow> ('w, unit) hub" where
  "huggingFaceVerifyLfsUpload env config href oid osize =
     bind_a (hub_fetch env ''POST'' href (jsonHeaders config) (stringify (JObj [(''oid'', JStr oid), (''size'', JNum osize)]))) (\<lambda>response.
       lift_a (assertOk response ''LFS verify'' config))"

definition commit_lines :: "json \<Rightarrow> string \<Rightarrow> int \<Rightarrow> string" where
  "commit_lines config oid osize = join_with [CHR 10]
     [stringify (JObj [(''key'', JStr ''header''), (''value'', JObj
        [(''summary'', JStr (config_or config ''commit_message'' (''Upload '' @ config_text config ''path'' @ '' with Beam''))),
         (''description'', JStr (config_or config ''commit_description'' []))])]),
      stringify (JObj [(''key'', JStr ''lfsFile''), (''value'', JObj
        [(''path'', JStr (config_text config ''path'')), (''algo'', JStr ''sha256''), (''oid'', JStr oid), (''size'', JNum osize)])])]"

definition huggingFaceCommit :: "'w hub_env \<Rightarrow> json \<Rightarrow> string \<Rightarrow> int \<Rightarrow> ('w, string option \<times> string option) hub" where
  "huggingFaceCommit env config oid osize =
     bind_a (hub_fetch env ''POST'' (api_url config ''commit'') [bearer config, (''Content-Type'', ''application/x-ndjson'')]
       (commit_lines config oid osize)) (\<lambda>response.
     bind_a (lift_a (readJson response ''commit'' config)) (\<lambda>payload.
       return_a (as_str (jget payload ''commitOid''), as_str (jget payload ''pullRequestUrl''))))"

definition finish_upload :: "'w hub_env \<Rightarrow> hub_upload \<Rightarrow> ('w, unit) hub" where
  "finish_upload env state =
     bind_a (case (truthy (hu_uploadHref state), hu_chunkSize state) of
         (Some href, Some _) \<Rightarrow>
           bind_a (lift_a (hu_partEtags state)) (\<lambda>etags.
             if length etags \<noteq> length (hu_partUrls state) then
               hub_throw (''computed '' @ show_nat (length etags) @ '' part ETags for '' @ describe (hu_destination state) @ '', ''
                 @ ''expected '' @ show_nat (length (hu_partUrls state)))
             else huggingFaceCompleteLfsUpload env (hu_destination state) href (hu_oid state) etags)
       | _ \<Rightarrow> return_a ()) (\<lambda>_.
     bind_a (case truthy (hu_verifyHref state) of
         Some href \<Rightarrow> huggingFaceVerifyLfsUpload env (hu_destination state) href (hu_oid state) (hu_size state)
       | None \<Rightarrow> return_a ()) (\<lambda>_.
     bind_a (huggingFaceCommit env (hu_destination state) (hu_oid state) (hu_size state)) (\<lambda>_. return_a ())))"

text \<open>The uploads kept by transfer are forgotten before the first of them is closed.\<close>

definition finalizeHuggingFaceUploads ::
  "'w hub_env \<Rightarrow> string \<Rightarrow> ('w \<times> (string \<times> hub_upload list) list, hub_event, unit) act" where
  "finalizeHuggingFaceUploads env transferId =
     bind_a get_state (\<lambda>kept.
       case map_of kept transferId of
         Some (state # states) \<Rightarrow>
           bind_a (modify_state (amap_delete transferId)) (\<lambda>_.
             on_world (fold_a (\<lambda>_ s. finish_upload env s) () (state # states)))
       | _ \<Rightarrow> return_a ())"

subsection \<open>The ETags are those of the parts\<close>

fun blocks :: "nat \<Rightarrow> 'a list \<Rightarrow> 'a list list" where
  "blocks n xs = (if n = 0 \<or> xs = [] then [] else take n xs # blocks n (drop n xs))"

declare blocks.simps [simp del]

lemma blocks_simps: "blocks n [] = []" "0 < n \<Longrightarrow> xs \<noteq> [] \<Longrightarrow> blocks n xs = take n xs # blocks n (drop n xs)"
  by (subst blocks.simps, simp)+

lemma blocks_short: "length xs < n \<Longrightarrow> blocks n xs = (if xs = [] then [] else [xs])"
  by (cases "xs = []") (simp_all add: blocks_simps)

lemma blocks_nth:
  assumes "0 < n" and "i * n < length xs"
  shows "i < length (blocks n xs) \<and> blocks n xs ! i = take n (drop (i * n) xs)"
  using assms
proof (induction i arbitrary: xs)
  case 0
  then show ?case by (auto simp: blocks_simps)
next
  case (Suc i)
  then have "xs \<noteq> []" and "i * n < length (drop n xs)" by auto
  with Suc.IH [of "drop n xs"] Suc.prems(1) show ?case by (simp add: blocks_simps add.commute)
qed

lemma cut_piece_blocks:
  assumes "0 < n" and "length part < n"
  shows "\<exists>rest new. cut_piece md5 n part etags chunk = (rest, etags @ new) \<and> length rest < n
    \<and> (\<forall>more_bytes. map md5 (blocks n (part @ chunk @ more_bytes)) = new @ map md5 (blocks n (rest @ more_bytes)))"
  using assms
proof (induction md5 n part etags chunk rule: cut_piece.induct)
  case (1 md5 n part etags chunk)
  consider "chunk = []" | "chunk \<noteq> []" "length chunk < n - length part" | "chunk \<noteq> []" "\<not> length chunk < n - length part" by blast
  then show ?case
  proof cases
    case 1
    with "1.prems" show ?thesis by (subst cut_piece.simps) (auto intro!: exI [of _ "[]"])
  next
    case 2
    with "1.prems" show ?thesis by (subst cut_piece.simps) (auto simp: Let_def intro!: exI [of _ "[]"])
  next
    case 3
    let ?room = "n - length part"
    let ?full = "part @ take ?room chunk"
    from "1.IH" [of ?room] 3 "1.prems" obtain rest new where
      cut: "cut_piece md5 n [] (etags @ [md5 ?full]) (drop ?room chunk) = (rest, (etags @ [md5 ?full]) @ new)" and rest: "length rest < n"
      and new: "\<And>t. map md5 (blocks n (drop ?room chunk @ t)) = new @ map md5 (blocks n (rest @ t))" by auto
    from 3 "1.prems" have step: "cut_piece md5 n part etags chunk = cut_piece md5 n [] (etags @ [md5 ?full]) (drop ?room chunk)"
      by (subst cut_piece.simps) (simp add: Let_def)
    have "map md5 (blocks n (part @ chunk @ t)) = (md5 ?full # new) @ map md5 (blocks n (rest @ t))" for t
    proof -
      have "take n (part @ chunk @ t) = ?full" "drop n (part @ chunk @ t) = drop ?room chunk @ t"
        using 3 "1.prems" by simp_all
      moreover have "part @ chunk @ t \<noteq> []" using 3 by simp
      ultimately show ?thesis using new [of t] "1.prems"(1) by (simp add: blocks_simps)
    qed
    then show ?thesis using cut step rest by auto
  qed
qed

lemma hash_pieces_blocks:
  assumes "0 < n"
  shows "\<exists>rest new. hash_pieces md5 n pieces = (rest, new) \<and> length rest < n
    \<and> (\<forall>t. map md5 (blocks n (concat pieces @ t)) = new @ map md5 (blocks n (rest @ t)))"
proof (induction pieces rule: rev_induct)
  case Nil
  then show ?case using assms by (simp add: hash_pieces_def)
next
  case (snoc chunk pieces)
  then obtain rest new where ih: "hash_pieces md5 n pieces = (rest, new)" "length rest < n"
    "\<And>t. map md5 (blocks n (concat pieces @ t)) = new @ map md5 (blocks n (rest @ t))" by blast
  from cut_piece_blocks [OF assms ih(2), of md5 new chunk] obtain rest' new' where
    "cut_piece md5 n rest new chunk = (rest', new @ new')" "length rest' < n"
    "\<And>t. map md5 (blocks n (rest @ chunk @ t)) = new' @ map md5 (blocks n (rest' @ t))" by blast
  with ih show ?case by (simp add: hash_pieces_def)
qed

lemma part_etags_blocks:
  assumes "0 < n"
  shows "part_etags md5 n pieces = map md5 (blocks n (concat pieces))"
proof -
  from hash_pieces_blocks [OF assms, of md5 pieces] obtain rest new where h: "hash_pieces md5 n pieces = (rest, new)" "length rest < n"
    "\<And>t. map md5 (blocks n (concat pieces @ t)) = new @ map md5 (blocks n (rest @ t))" by blast
  from h(3) [of "[]"] have "map md5 (blocks n (concat pieces)) = new @ (if rest = [] then [] else [md5 rest])"
    using h(2) by (simp add: blocks_short)
  with h(1) assms show ?thesis by (simp add: part_etags_def)
qed

text \<open>
  C16. The ETags of an upload do not depend on how the network cut the source. For every positive part size and every sequence of
  pieces, the hash of the stream yields the digests of the consecutive parts of the whole content, in order, the last one
  being what is left over.
\<close>

theorem part_etags_are_of_parts:
  assumes "0 < n"
  shows "part_etags md5 n pieces = map md5 (blocks n (concat pieces))"
  by (rule part_etags_blocks [OF assms])

theorem part_etags_are_of_parts_witness:
  "part_etags (\<lambda>s. s) 3 [''ab'', [], ''cdefg''] = [''abc'', ''def'', ''g'']"
proof -
  have "part_etags (\<lambda>s. s) 3 [''ab'', [], ''cdefg''] = map (\<lambda>s. s) (blocks 3 (concat [''ab'', [], ''cdefg'']))"
    by (rule part_etags_are_of_parts) simp
  then show ?thesis by (simp add: blocks_simps)
qed

lemma etag_of_block:
  "0 < n \<Longrightarrow> i * n < length (concat pieces) \<Longrightarrow> part_etags md5 n pieces ! i = md5 (take n (drop (i * n) (concat pieces)))"
  using blocks_nth [of n i "concat pieces"] by (simp add: part_etags_blocks)

subsection \<open>The parts are the chunks of the plan\<close>

text \<open>The URL a chunk is sent to: the one of its part, or the only one there is.\<close>

definition hub_dest_url :: "hub_upload \<Rightarrow> int \<Rightarrow> string + json" where
  "hub_dest_url state sourceChunkIndex =
     (let destUrl = (case hu_chunkSize state of
            None \<Rightarrow> map_option JStr (hu_uploadHref state)
          | Some _ \<Rightarrow> if 0 \<le> sourceChunkIndex \<and> nat sourceChunkIndex < length (hu_partUrls state)
                     then Some (hu_partUrls state ! nat sourceChunkIndex) else None) in
      if falsy destUrl then
        Inl (''the Hub issued no upload URL for chunk '' @ show_int sourceChunkIndex @ '' of '' @ describe (hu_destination state))
      else Inr (the destUrl))"

text \<open>
  C15. What the SDK quotes to the Hub for a part is the digest of exactly the bytes that chunk moves. Once BeamCore's plan passed the
  SDK's check for an upload in parts, take any chunk the SDK makes from the plan for that source, as long as it holds at least a byte,
  and any way the source's content, of the length the plan has for it, came over the network when it was hashed: the part of that
  chunk exists among the Hub's URLs, and the ETag in its place is the digest of the chunk's own range of the content. Nothing else is
  assumed of the plan. The length of the content and the chunk's byte are assumed: the check compares neither.
\<close>

theorem part_etags_match_plan:
  assumes "assert_upload d state = Inr ()" and "hu_chunkSize state = Some n"
    and "find (\<lambda>x. ps_source_id x = hu_sourceId state) (pl_sources d) = Some s" and "int (length (concat pieces)) = ps_size s"
    and "materializePlanChunk d (hu_sourceId state) chunkIndex = Inr chunk" and "0 < ch_chunk_size chunk"
  shows "nat (ch_source_chunk_index chunk) < length (hu_partUrls state)
    \<and> part_etags md5 (nat n) pieces ! nat (ch_source_chunk_index chunk)
        = md5 (take (nat (ch_chunk_size chunk)) (drop (nat (ch_source_offset chunk)) (concat pieces)))"
proof -
  from assms(1-3) have n: "pl_chunk_size d = n" and count: "ps_chunk_count s = int (length (hu_partUrls state))"
    by (auto simp: assert_upload_def Let_def split: option.splits if_splits)
  let ?i = "ch_source_chunk_index chunk"
  from assms(5,3) have i: "0 \<le> ?i" "?i < ps_chunk_count s"
    and at_offset: "ch_source_offset chunk = ?i * n" and bytes: "ch_chunk_size chunk = min n (ps_size s - ?i * n)"
    by (auto simp: materializePlanChunk_def Let_def n split: if_splits sum.splits)
  from assms(6) bytes have c: "0 < n" and low: "?i * n < ps_size s" by (simp_all add: min_def split: if_splits)
  define k where "k = nat ?i"
  have k: "?i = int k" using i(1) by (simp add: k_def)
  have nn: "n = int (nat n)" using c by simp
  have "int (k * nat n) < int (length (concat pieces))" using low assms(4) k nn by (metis of_nat_mult)
  then have inside: "k * nat n < length (concat pieces)" by linarith
  have "nat (ch_source_offset chunk) = k * nat n" using at_offset k nn by (metis nat_int of_nat_mult)
  moreover have "take (nat (ch_chunk_size chunk)) (drop (k * nat n) (concat pieces)) = take (nat n) (drop (k * nat n) (concat pieces))"
  proof -
    have "int k * n = int (k * nat n)" using nn by (metis of_nat_mult)
    then have "ps_size s - ?i * n = int (length (concat pieces) - k * nat n)" using assms(4) k inside by simp
    then have "ch_chunk_size chunk = int (min (nat n) (length (concat pieces) - k * nat n))" using bytes c by (simp add: of_nat_min)
    then have "nat (ch_chunk_size chunk) = min (nat n) (length (concat pieces) - k * nat n)" by simp
    then show ?thesis by (simp add: min_def)
  qed
  moreover have "0 < nat n" using c by simp
  moreover have "k < length (hu_partUrls state)" using i(2) k count by simp
  ultimately show ?thesis using etag_of_block [OF _ inside, of md5] by (simp add: k)
qed

definition demo_hub_upload :: hub_upload where
  "demo_hub_upload = \<lparr>hu_destination = JObj [(''provider'', JStr ''huggingface''), (''repo_id'', JStr ''o/r''), (''path'', JStr ''k'')],
     hu_destinationId = ''d1'', hu_sourceId = ''s1'', hu_oid = ''oid'', hu_size = 5, hu_chunkSize = Some 3,
     hu_partUrls = [JStr ''u1'', JStr ''u2''], hu_uploadHref = Some ''done'', hu_verifyHref = None, hu_partEtags = Inr [''e1'', ''e2'']\<rparr>"

definition demo_hub_plan :: plan_descriptor where
  "demo_hub_plan = \<lparr>pl_plan_nonce = ''n'', pl_chunk_size = 3,
      pl_sources = [\<lparr>ps_source_id = ''s1'', ps_url = [], ps_size = 5, ps_metadata = None, ps_global_chunk_start = 0, ps_chunk_count = 2\<rparr>],
      pl_destinations = [\<lparr>pd_destination_id = ''d1'', pd_provider = ''huggingface'', pd_metadata = None, pd_destination_index = 0,
        pd_final_object_keys = [(''s1'', ''k'')]\<rparr>],
      pl_logical_chunk_count = 2, pl_delivery_route_count = 2\<rparr>"

theorem part_etags_match_plan_witness:
  "\<exists>chunk. materializePlanChunk demo_hub_plan ''s1'' 1 = Inr chunk \<and> nat (ch_source_chunk_index chunk) < length (hu_partUrls demo_hub_upload)
    \<and> part_etags (\<lambda>s. s) (nat 3) [''ab'', ''cde''] ! nat (ch_source_chunk_index chunk)
        = take (nat (ch_chunk_size chunk)) (drop (nat (ch_source_offset chunk)) ''abcde'')"
proof -
  have accepted: "assert_upload demo_hub_plan demo_hub_upload = Inr ()" by code_simp
  have "\<exists>chunk. materializePlanChunk demo_hub_plan (hu_sourceId demo_hub_upload) 1 = Inr chunk"
    by (simp add: materializePlanChunk_def demo_hub_plan_def demo_hub_upload_def plan_target_def final_key_def truthy_def multipartPartNumber_def
        max_source_chunks MULTIPART_ATTEMPT_SLOT_COUNT_def Let_def)
  then obtain chunk where chunk: "materializePlanChunk demo_hub_plan (hu_sourceId demo_hub_upload) 1 = Inr chunk" by blast
  have source: "find (\<lambda>x. ps_source_id x = hu_sourceId demo_hub_upload) (pl_sources demo_hub_plan) = Some (hd (pl_sources demo_hub_plan))"
    by (simp add: demo_hub_plan_def demo_hub_upload_def)
  have byte: "0 < ch_chunk_size chunk"
    using chunk by (auto simp: materializePlanChunk_def demo_hub_plan_def demo_hub_upload_def Let_def split: sum.splits)
  show ?thesis
    using part_etags_match_plan [OF accepted _ source _ chunk byte, of 3 "[''ab'', ''cde'']" "\<lambda>s. s"] chunk
    by (auto simp: demo_hub_upload_def demo_hub_plan_def)
qed

text \<open>
  Content the Hub already has: the batch hands back no upload, and no chunk of any plan has a URL then, although only the
  commit would be left to do.
\<close>

lemma stored_content_has_no_url:
  assumes "lp_upload plan = None" and "hu_chunkSize state = None" and "hu_uploadHref state = map_option lu_href (lp_upload plan)"
  shows "hub_dest_url state i = Inl (''the Hub issued no upload URL for chunk '' @ show_int i @ '' of '' @ describe (hu_destination state))"
  using assms by (simp add: hub_dest_url_def)

subsection \<open>What is handed out, and when a file is committed\<close>

text \<open>
  The address Beam's workers are given for a file of the Hub is never the Hub's own, where the customer's token would be
  needed: a source is accepted only when the Hub redirected to another host, and no address that cannot be read passes.
\<close>

theorem hub_source_is_redirected:
  "spec (\<lambda>_. True) (huggingFaceFileMetadata env config)
     (\<lambda>m _. fm_size m > 0 \<and> (\<exists>own other. hb_host env (huggingFaceResolveUrl config) (huggingFaceResolveUrl config) = Some own
        \<and> hb_host env (huggingFaceResolveUrl config) (fm_url m) = Some other \<and> own \<noteq> other)) (\<lambda>_. True)"
proof -
  have good: "fm_size m > 0 \<and> (\<exists>own other. hb_host env (huggingFaceResolveUrl config) (huggingFaceResolveUrl config) = Some own
        \<and> hb_host env (huggingFaceResolveUrl config) (fm_url m) = Some other \<and> own \<noteq> other)"
    if "file_metadata_of env config (huggingFaceResolveUrl config) response = Inr m" for response m
    using that by (auto simp: file_metadata_of_def sameHost_def split: if_splits option.splits)
  show ?thesis
    unfolding huggingFaceFileMetadata_def Let_def hub_fetch_def
    by (rule spec_bind [where R = "\<lambda>_ _. True"]) (auto intro!: spec_call spec_lift dest: good)
qed

definition is_commit :: "hub_request \<Rightarrow> bool" where
  "is_commit q \<longleftrightarrow> (''Content-Type'', ''application/x-ndjson'') \<in> set (hq_headers q)"

text \<open>A request that was answered with success.\<close>

definition answered_ok :: "hub_event list \<Rightarrow> hub_request \<Rightarrow> bool" where
  "answered_ok l q \<longleftrightarrow> (\<exists>response. Hub_fetched q (Inr response) \<in> set l \<and> response_ok response)"

definition closed_upload :: "hub_upload \<Rightarrow> hub_event list \<Rightarrow> bool" where
  "closed_upload state l \<longleftrightarrow>
     (\<forall>href n. truthy (hu_uploadHref state) = Some href \<longrightarrow> hu_chunkSize state = Some n \<longrightarrow>
        (\<exists>etags. hu_partEtags state = Inr etags \<and> length etags = length (hu_partUrls state)
           \<and> answered_ok l \<lparr>hq_method = ''POST'', hq_url = href, hq_headers = lfs_headers, hq_body = completion_body (hu_oid state) etags\<rparr>))
     \<and> (\<forall>href. truthy (hu_verifyHref state) = Some href \<longrightarrow>
        answered_ok l \<lparr>hq_method = ''POST'', hq_url = href, hq_headers = jsonHeaders (hu_destination state),
          hq_body = stringify (JObj [(''oid'', JStr (hu_oid state)), (''size'', JNum (hu_size state))])\<rparr>)"

definition commit_allowed :: "hub_upload list \<Rightarrow> hub_event list \<Rightarrow> hub_event \<Rightarrow> bool" where
  "commit_allowed states l ev = (case ev of Hub_fetched q _ \<Rightarrow> is_commit q \<longrightarrow>
     (\<exists>state \<in> set states. hq_body q = commit_lines (hu_destination state) (hu_oid state) (hu_size state) \<and> closed_upload state l))"

lemma answered_ok_append: "answered_ok l q \<Longrightarrow> answered_ok (l @ k) q"
  by (auto simp: answered_ok_def)

lemma not_commit [simp]: "\<not> is_commit \<lparr>hq_method = m, hq_url = u, hq_headers = lfs_headers, hq_body = b\<rparr>"
  "\<not> is_commit \<lparr>hq_method = m, hq_url = u, hq_headers = jsonHeaders config, hq_body = b\<rparr>"
  by (simp_all add: is_commit_def lfs_headers_def LFS_CONTENT_TYPE_def jsonHeaders_def bearer_def)

lemma assertOk_ok: "assertOk response step config = Inr () \<Longrightarrow> response_ok response"
  by (auto simp: assertOk_def Let_def split: if_splits)

text \<open>A post that is no commit keeps what holds, and its success is on record.\<close>

lemma spec_post:
  fixes states :: "hub_upload list"
  assumes "\<not> is_commit \<lparr>hq_method = ''POST'', hq_url = href, hq_headers = hdrs, hq_body = content\<rparr>"
    and "\<And>l k. P l \<Longrightarrow> P (l @ k)"
  shows "spec (\<lambda>l. each (commit_allowed states) l \<and> P l)
     (bind_a (hub_fetch env ''POST'' href hdrs content) (\<lambda>response. lift_a (assertOk response step config)))
     (\<lambda>_ l. each (commit_allowed states) l \<and> P l \<and> answered_ok l \<lparr>hq_method = ''POST'', hq_url = href, hq_headers = hdrs, hq_body = content\<rparr>)
     (each (commit_allowed states))"
proof (rule spec_bind)
  let ?q = "\<lparr>hq_method = ''POST'', hq_url = href, hq_headers = hdrs, hq_body = content\<rparr>"
  let ?R = "\<lambda>response l. each (commit_allowed states) l \<and> P l \<and> Hub_fetched ?q (Inr response) \<in> set l"
  show "spec (\<lambda>l. each (commit_allowed states) l \<and> P l) (hub_fetch env ''POST'' href hdrs content) ?R (each (commit_allowed states))"
    unfolding hub_fetch_def Let_def
    by (rule spec_call) (use assms in \<open>auto simp: commit_allowed_def\<close>)
  fix response
  show "spec (?R response) (lift_a (assertOk response step config))
     (\<lambda>_ l. each (commit_allowed states) l \<and> P l \<and> answered_ok l ?q) (each (commit_allowed states))"
    by (rule spec_lift) (auto simp: answered_ok_def dest: assertOk_ok)
qed

text \<open>The first half of \<^const>\<open>closed_upload\<close>: the parts are complete.\<close>

definition parts_closed :: "hub_upload \<Rightarrow> hub_event list \<Rightarrow> bool" where
  "parts_closed state l \<longleftrightarrow>
     (\<forall>href n. truthy (hu_uploadHref state) = Some href \<longrightarrow> hu_chunkSize state = Some n \<longrightarrow>
        (\<exists>etags. hu_partEtags state = Inr etags \<and> length etags = length (hu_partUrls state)
           \<and> answered_ok l \<lparr>hq_method = ''POST'', hq_url = href, hq_headers = lfs_headers, hq_body = completion_body (hu_oid state) etags\<rparr>))"

lemma parts_closed_append: "parts_closed state l \<Longrightarrow> parts_closed state (l @ k)"
  unfolding parts_closed_def by (meson answered_ok_append)

lemma spec_complete:
  "spec (each (commit_allowed states))
     (case (truthy (hu_uploadHref state), hu_chunkSize state) of
         (Some href, Some _) \<Rightarrow>
           bind_a (lift_a (hu_partEtags state)) (\<lambda>etags.
             if length etags \<noteq> length (hu_partUrls state) then
               hub_throw (''computed '' @ show_nat (length etags) @ '' part ETags for '' @ describe (hu_destination state) @ '', ''
                 @ ''expected '' @ show_nat (length (hu_partUrls state)))
             else huggingFaceCompleteLfsUpload env (hu_destination state) href (hu_oid state) etags)
       | _ \<Rightarrow> return_a ())
     (\<lambda>_ l. each (commit_allowed states) l \<and> parts_closed state l) (each (commit_allowed states))"
proof (cases "truthy (hu_uploadHref state)")
  case None
  then show ?thesis by (auto simp: parts_closed_def intro: spec_return)
next
  case href: (Some href)
  show ?thesis
  proof (cases "hu_chunkSize state")
    case None
    then show ?thesis using href by (auto simp: parts_closed_def intro: spec_return)
  next
    case (Some n)
    have closes: "spec (each (commit_allowed states)) (huggingFaceCompleteLfsUpload env (hu_destination state) href (hu_oid state) etags)
        (\<lambda>_ l. each (commit_allowed states) l \<and> parts_closed state l) (each (commit_allowed states))"
      if "hu_partEtags state = Inr etags" "length etags = length (hu_partUrls state)" for etags
      unfolding huggingFaceCompleteLfsUpload_def
      by (rule spec_weaken [OF spec_post [where P = "\<lambda>_. True"]]) (use that href Some in \<open>auto simp: parts_closed_def\<close>)
    show ?thesis
      unfolding href Some option.case prod.case
      by (rule spec_bind_lift) (auto intro: closes simp: hub_throw_def intro!: spec_lift)
  qed
qed

lemma spec_verify:
  "spec (\<lambda>l. each (commit_allowed states) l \<and> parts_closed state l)
     (case truthy (hu_verifyHref state) of
        Some href \<Rightarrow> huggingFaceVerifyLfsUpload env (hu_destination state) href (hu_oid state) (hu_size state)
      | None \<Rightarrow> return_a ())
     (\<lambda>_ l. each (commit_allowed states) l \<and> closed_upload state l) (each (commit_allowed states))"
proof (cases "truthy (hu_verifyHref state)")
  case None
  then show ?thesis by (auto simp: parts_closed_def closed_upload_def intro: spec_return)
next
  case (Some href)
  show ?thesis
    unfolding Some option.case huggingFaceVerifyLfsUpload_def
    by (rule spec_weaken [OF spec_post [where P = "parts_closed state"]])
      (use Some in \<open>auto simp: parts_closed_def closed_upload_def intro: parts_closed_append [unfolded parts_closed_def, rule_format]\<close>)
qed

lemma spec_commit:
  assumes "state \<in> set states"
  shows "spec (\<lambda>l. each (commit_allowed states) l \<and> closed_upload state l)
     (huggingFaceCommit env (hu_destination state) (hu_oid state) (hu_size state))
     (\<lambda>_. each (commit_allowed states)) (each (commit_allowed states))"
  unfolding huggingFaceCommit_def hub_fetch_def Let_def
proof (rule spec_bind [where R = "\<lambda>_. each (commit_allowed states)"])
  show "spec (\<lambda>l. each (commit_allowed states) l \<and> closed_upload state l)
      (call (Hub_fetched \<lparr>hq_method = ''POST'', hq_url = api_url (hu_destination state) ''commit'',
          hq_headers = [bearer (hu_destination state), (''Content-Type'', ''application/x-ndjson'')],
          hq_body = commit_lines (hu_destination state) (hu_oid state) (hu_size state)\<rparr>)
        (hb_fetch env \<lparr>hq_method = ''POST'', hq_url = api_url (hu_destination state) ''commit'',
          hq_headers = [bearer (hu_destination state), (''Content-Type'', ''application/x-ndjson'')],
          hq_body = commit_lines (hu_destination state) (hu_oid state) (hu_size state)\<rparr>))
      (\<lambda>_. each (commit_allowed states)) (each (commit_allowed states))"
    by (rule spec_call) (use assms in \<open>auto simp: commit_allowed_def\<close>)
qed (auto intro!: spec_bind_lift spec_return)

lemma spec_finish:
  assumes "state \<in> set states"
  shows "spec (each (commit_allowed states)) (finish_upload env state) (\<lambda>_. each (commit_allowed states)) (each (commit_allowed states))"
  unfolding finish_upload_def
  by (rule spec_bind [OF spec_complete], rule spec_bind [OF spec_verify], rule spec_bind [OF spec_commit [OF assms]], rule spec_return)

text \<open>
  C17. A file appears in a repository only after its upload was closed. Whatever the Hub answers, every commit the SDK posts when
  it finalizes a transfer names the content of one of that transfer's uploads, and at that moment the Hub had accepted
  the completion of that upload with exactly one ETag for each part it had issued a URL for, and its verification, where
  there are any. The uploads are given up in any case: a second finalization sends nothing.
\<close>

theorem commit_follows_completion:
  "each (commit_allowed (coalesce (map_of kept transferId) [])) (snd (snd (finalizeHuggingFaceUploads env transferId ((w, kept), []))))
   \<and> map_of (snd (fst (snd (finalizeHuggingFaceUploads env transferId ((w, kept), []))))) transferId \<in> {None, Some []}"
proof (cases "coalesce (map_of kept transferId) []")
  case Nil
  then have "finalizeHuggingFaceUploads env transferId ((w, kept), []) = (Inr (), ((w, kept), []))"
    by (auto simp: finalizeHuggingFaceUploads_def bind_a_def get_state_def return_a_def coalesce_def split: option.splits list.splits)
  with Nil show ?thesis by (auto simp: coalesce_def split: option.splits)
next
  case (Cons state states)
  then have kept: "map_of kept transferId = Some (state # states)" by (auto simp: coalesce_def split: option.splits)
  let ?all = "state # states"
  let ?run = "fold_a (\<lambda>_ s. finish_upload env s) () ?all"
  obtain r w' l' where run: "?run (w, []) = (r, (w', l'))" by (metis prod.exhaust)
  have "spec (each (commit_allowed ?all)) ?run (\<lambda>_. each (commit_allowed ?all)) (each (commit_allowed ?all))"
    by (rule spec_fold) (rule spec_finish)
  from spec_result [OF this _ run] have "each (commit_allowed ?all) l'" by (simp split: sum.splits)
  moreover have "finalizeHuggingFaceUploads env transferId ((w, kept), []) = (r, ((w', amap_delete transferId kept), l'))"
    using kept run by (simp add: finalizeHuggingFaceUploads_def bind_a_def get_state_def modify_state_def on_world_def del: map_of_eq_Some_iff fold_a.simps)
  ultimately show ?thesis using Cons by simp
qed

end
