(* ===== verification/SdkSigning.thy ===== *)
theory SdkSigning
  imports SdkUploads SdkHuggingFace
begin

text \<open>
  What a client signs while its transfer runs (\<open>sdks/typescript/src/client.ts\<close>): the route of one chunk to one destination,
  the routes the runtime asks for again when it recovers, and the grants for the ranges of an integrity audit. Chunks are
  signed by workers; the model signs them in order and stops at the first that fails. The source grants of a request
  are shared between its chunks, and a grant that failed stays failed.
\<close>

subsection \<open>One route\<close>

record provider_route =
  pv_chunk :: chunk_item
  pv_target :: signing_target
  pv_source :: json
  pv_sourceGrant :: "(string + source_grant) option"
  pv_destination :: json
  pv_expiresIn :: int
  pv_upload :: "(upload_state \<times> group_manifest) option"
  pv_hub :: "hub_upload option"
  pv_finalObjectKey :: string
  pv_signedUrlFlow :: string
  pv_partNumber :: int

definition plain_signing :: "provider_route \<Rightarrow> signing_target \<Rightarrow> route_signing" where
  "plain_signing input target = \<lparr>rs_chunk = pv_chunk input, rs_target = target, rs_source = Some (pv_source input),
     rs_sourceGrant = pv_sourceGrant input, rs_destination = pv_destination input, rs_expiresIn = pv_expiresIn input,
     rs_destUrl = None, rs_uploadId = None, rs_partNumber = None, rs_urls = [], rs_finalObjectKey = None, rs_sizes = [],
     rs_finalObjectMetadata = None, rs_multipartGroupId = None\<rparr>"

definition part_signing :: "provider_route \<Rightarrow> upload_state \<Rightarrow> group_manifest \<Rightarrow> route_signing" where
  "part_signing input upload manifest =
     (let target = pv_target input; page = multipartListPageIndex (pv_partNumber input); pages = gm_list_page_urls manifest in
      (plain_signing input (target\<lparr>tg_object_key := pv_finalObjectKey input, tg_metadata := partRouteMetadata (tg_metadata target)\<rparr>))
        \<lparr>rs_uploadId := Some (us_uploadId upload), rs_partNumber := Some (pv_partNumber input),
         rs_urls := [(''complete_url'', Some (gm_complete_url manifest)), (''abort_url'', Some (gm_abort_url manifest)),
           (''list_page_url'', if 0 \<le> page \<and> nat page < length pages then Some (pages ! nat page) else None),
           (''final_head_url'', Some (gm_final_head_url manifest))],
         rs_finalObjectKey := Some (pv_finalObjectKey input),
         rs_sizes := [(''expected_object_size'', Some (gm_expected_object_size manifest)),
           (''expected_part_count'', Some (gm_expected_part_count manifest)), (''max_part_number'', Some (gm_max_part_number manifest))],
         rs_finalObjectMetadata := Some (gm_final_object_metadata manifest),
         rs_multipartGroupId := Some (gm_multipart_group_id manifest)\<rparr>)"

definition signProviderRoute :: "'w signing_env \<Rightarrow> provider_route \<Rightarrow> ('w, signed_route) sgn" where
  "signProviderRoute env input =
     (let target = pv_target input in
      if isHuggingFaceProvider (pv_destination input) then
        (case pv_hub input of
           None \<Rightarrow> throw_a (''huggingface upload state is missing for '' @ tg_destination_id target)
         | Some state \<Rightarrow>
             bind_a (lift_a (hub_dest_url state (ch_source_chunk_index (pv_chunk input)))) (\<lambda>destUrl.
               signDestinationRoute env
                 ((plain_signing input (target\<lparr>tg_object_key := pv_finalObjectKey input,
                     tg_metadata := directPutRouteMetadata (tg_metadata target)\<rparr>))\<lparr>rs_destUrl := Some (js_string destUrl)\<rparr>)))
      else if isHippiusProvider (pv_destination input) then
        signDestinationRoute env (plain_signing input (target\<lparr>tg_metadata := partRouteMetadata (tg_metadata target)\<rparr>))
      else
        (case pv_upload input of
           None \<Rightarrow> throw_a (pv_signedUrlFlow input @ '' route is missing its multipart upload'')
         | Some (upload, manifest) \<Rightarrow>
             bind_a (lift_a (validateMultipartPartNumber (pv_partNumber input) manifest)) (\<lambda>_.
               signDestinationRoute env (part_signing input upload manifest))))"

subsection \<open>Recovering routes\<close>

record signing_setup =
  su_prepared :: prepared_transfer
  su_sources :: "(string \<times> json) list"
  su_destinations :: "(string \<times> json) list"
  su_hub :: "hub_upload list"
  su_expiresIn :: int

record recovery_payload =
  ry_transfer_id :: string
  ry_route_generation_id :: string
  ry_chunks :: "recovery_chunk list"

record recovery_reply =
  rr_transfer_id :: string
  rr_route_generation_id :: string
  rr_signed_at :: string
  rr_chunk_routes :: "signed_route list"

text \<open>The chunk and the target of the plan that a requested chunk names; it must name them exactly.\<close>

definition planned_target :: "chunk_item \<Rightarrow> string \<Rightarrow> int \<Rightarrow> signing_target option" where
  "planned_target chunk destinationId deliveryIndex =
     find (\<lambda>t. tg_destination_id t = destinationId \<and> to_number (map_of (tg_metadata t) ''delivery_index'') = Some (of_int deliveryIndex))
       (ch_destinations chunk)"

definition check_recovery :: "plan_descriptor \<Rightarrow> string \<Rightarrow> recovery_chunk \<Rightarrow> string + chunk_item \<times> signing_target" where
  "check_recovery d generation r =
     (if rc_route_generation_id r \<noteq> generation then Inl ''route recovery chunk generation mismatch''
      else
        (case materializePlanChunk d (rc_source_id r) (rc_chunk_index r) of
           Inl e \<Rightarrow> Inl e
         | Inr chunk \<Rightarrow>
             (case multipartPartNumber (ch_source_chunk_index chunk) (rc_attempt_slot r) of
                Inl e \<Rightarrow> Inl e
              | Inr partNumber \<Rightarrow>
                  if rc_part_number r \<noteq> partNumber then Inl ''route recovery multipart slot mapping mismatch''
                  else if ch_source_offset chunk \<noteq> rc_source_offset r \<or> ch_chunk_size chunk \<noteq> rc_chunk_size r then
                    Inl ''route recovery source coordinate mismatch''
                  else
                    (case planned_target chunk (rc_destination_id r) (rc_delivery_index r) of
                       None \<Rightarrow> Inl ''route recovery destination coordinate mismatch''
                     | Some target \<Rightarrow> Inr (chunk, target)))))"

text \<open>The upload a recovered part belongs to: the one on record, which must be the one asked for, or one built from the request.\<close>

definition recovery_manifest ::
  "'w signing_env \<Rightarrow> signing_setup \<Rightarrow> plan_source \<Rightarrow> json \<Rightarrow> recovery_chunk \<Rightarrow> ('w, group_manifest) sgn" where
  "recovery_manifest env setup source destination r =
     (let key = rc_final_object_key r; uploadId = rc_upload_id r; expiresIn = su_expiresIn setup in
      bind_a (lift_a (multipartMaxPartNumber (ps_chunk_count source))) (\<lambda>maxPartNumber.
      bind_a (signCompleteMultipartUpload env destination key uploadId expiresIn) (\<lambda>complete.
      bind_a (signAbortMultipartUpload env destination key uploadId expiresIn) (\<lambda>abort.
      bind_a (sign_pages env destination key uploadId expiresIn (multipartListPageMarkers maxPartNumber)) (\<lambda>pages.
      bind_a (signFinalObjectHead env destination key expiresIn) (\<lambda>head.
      bind_a (expiresAtIso env expiresIn) (\<lambda>urlsExpiresAt.
        return_a \<lparr>gm_multipart_group_id = rc_multipart_group_id r, gm_source_id = rc_source_id r, gm_destination_id = rc_destination_id r,
          gm_final_object_key = key, gm_upload_id = uploadId, gm_expected_object_size = ps_size source,
          gm_expected_part_count = ps_chunk_count source, gm_max_part_number = maxPartNumber, gm_complete_url = complete,
          gm_abort_url = abort, gm_list_page_urls = pages, gm_final_head_url = head,
          gm_final_object_metadata = [(''beam-transfer-id'', pr_transfer_id (su_prepared setup))], gm_urls_expires_at = urlsExpiresAt\<rparr>)))))))"

definition recoveryMultipartUploadState ::
  "'w signing_env \<Rightarrow> signing_setup \<Rightarrow> json \<Rightarrow> recovery_chunk \<Rightarrow> ('w, upload_state \<times> group_manifest) mst" where
  "recoveryMultipartUploadState env setup destination r =
     bind_a get_state (\<lambda>uploads.
     case map_of uploads (rc_multipart_group_id r) of
       Some existing \<Rightarrow>
         (case us_manifest existing of
            None \<Rightarrow> throw_m ''Cannot read properties of undefined''
          | Some manifest \<Rightarrow>
              if us_uploadId existing \<noteq> rc_upload_id r \<or> us_objectKey existing \<noteq> rc_final_object_key r
                \<or> gm_source_id manifest \<noteq> rc_source_id r \<or> gm_destination_id manifest \<noteq> rc_destination_id r then
                throw_m ''route recovery multipart identity mismatch''
              else return_a (existing, manifest))
     | None \<Rightarrow>
         if rc_upload_id r = [] then throw_m ''route recovery multipart upload id is required''
         else
           (case find (\<lambda>s. ps_source_id s = rc_source_id r) (pl_sources (pr_plan (su_prepared setup))) of
              None \<Rightarrow> throw_m ''route recovery source plan is unavailable''
            | Some source \<Rightarrow>
                if rc_multipart_group_id r \<noteq> multipartGroupStateKey (pr_transfer_id (su_prepared setup)) (rc_destination_id r)
                    (rc_source_id r) (rc_final_object_key r) then
                  throw_m ''route recovery multipart group identity mismatch''
                else
                  bind_a (on_world (recovery_manifest env setup source destination r)) (\<lambda>manifest.
                  bind_a (lift_a (validateMultipartGroupManifest [manifest_json manifest] (pr_transfer_id (su_prepared setup)))) (\<lambda>_.
                    let state = \<lparr>us_destination = destination, us_objectKey = rc_final_object_key r, us_uploadId = rc_upload_id r,
                      us_manifest = Some manifest\<rparr> in
                    bind_a (put_upload (rc_multipart_group_id r) state) (\<lambda>_. return_a (state, manifest))))))"

type_synonym grants = "(string \<times> (string + source_grant)) list"

definition grant_for ::
  "'w signing_env \<Rightarrow> signing_setup \<Rightarrow> grants \<Rightarrow> json \<Rightarrow> chunk_item \<Rightarrow> ('w, (string + source_grant) \<times> grants) sgn" where
  "grant_for env setup grants source chunk =
     (let sourceKey = stringify (JArr [JStr (ch_source_id chunk), JNum (ch_chunk_index chunk)]);
          pin = plannedSourcePin (pr_plan (su_prepared setup)) (ch_source_id chunk) in
      case map_of grants sourceKey of
        Some grant \<Rightarrow> return_a (grant, grants)
      | None \<Rightarrow>
          bind_a (attempt (signSourceChunk env (Some source) (ch_source_url chunk) chunk (fst pin) (snd pin) (su_expiresIn setup))) (\<lambda>grant.
            return_a (grant, amap_set sourceKey grant grants)))"

definition recovery_metadata :: "signing_setup \<Rightarrow> signing_target \<Rightarrow> recovery_chunk \<Rightarrow> (string \<times> json) list" where
  "recovery_metadata setup target r =
     obj_put (obj_put (tg_metadata target) (coalesce (rc_destination_metadata r) []))
       [(''transfer_id'', JStr (pr_transfer_id (su_prepared setup))), (''final_object_key'', JStr (rc_final_object_key r)),
        (''upload_id'', JStr (rc_upload_id r)), (''multipart_group_id'', JStr (rc_multipart_group_id r)),
        (''delivery_index'', JNum (rc_delivery_index r)), (''part_number'', JNum (rc_part_number r)),
        (''logical_attempt_index'', JNum (rc_logical_attempt_index r)), (''attempt_slot'', JNum (rc_attempt_slot r)),
        (''route_generation_id'', JStr (rc_route_generation_id r))]"

definition stop_check :: "'w signing_env \<Rightarrow> ('w, unit) sgn" where
  "stop_check env s = (if sn_aborted env (fst s) then (Inl ''This operation was aborted'', s) else (Inr (), s))"

definition sign_recovery_chunk ::
  "'w signing_env \<Rightarrow> signing_setup \<Rightarrow> string \<Rightarrow> grants \<Rightarrow> recovery_chunk \<Rightarrow> ('w, signed_route \<times> grants) mst" where
  "sign_recovery_chunk env setup generation grants r =
     bind_a (on_world (stop_check env)) (\<lambda>_.
     bind_a (lift_a (check_recovery (pr_plan (su_prepared setup)) generation r)) (\<lambda>(chunk, target).
     case (map_of (su_sources setup) (rc_source_id r), map_of (su_destinations setup) (rc_destination_id r)) of
       (Some source, Some destination) \<Rightarrow>
         (let direct = isDirectPutDestination destination in
          bind_a (if direct then return_a None
                  else bind_a (recoveryMultipartUploadState env setup destination r) (\<lambda>upload. return_a (Some upload))) (\<lambda>upload.
          bind_a (on_world (grant_for env setup grants source chunk)) (\<lambda>(grant, grants').
          bind_a (on_world (signProviderRoute env \<lparr>pv_chunk = chunk,
              pv_target = target\<lparr>tg_object_key := (if direct then tg_object_key target else rc_final_object_key r),
                tg_metadata := recovery_metadata setup target r\<rparr>,
              pv_source = source, pv_sourceGrant = Some grant, pv_destination = destination, pv_expiresIn = su_expiresIn setup,
              pv_upload = upload, pv_hub = find (\<lambda>h. hu_destinationId h = rc_destination_id r) (su_hub setup),
              pv_finalObjectKey = rc_final_object_key r, pv_signedUrlFlow = ''signed_url'', pv_partNumber = rc_part_number r\<rparr>)) (\<lambda>route.
          bind_a (on_world (signMultipartRecovery env destination (pr_transfer_id (su_prepared setup)) r route (su_expiresIn setup)))
            (\<lambda>signed_route. return_a (signed_route, grants'))))))
     | _ \<Rightarrow> throw_m ''route recovery provider configuration is unavailable''))"

definition sign_route_recovery :: "'w signing_env \<Rightarrow> signing_setup \<Rightarrow> recovery_payload \<Rightarrow> ('w, recovery_reply) mst" where
  "sign_route_recovery env setup payload =
     bind_a (on_world (stop_check env)) (\<lambda>_.
       if ry_route_generation_id payload = [] then throw_m ''route recovery generation is required''
       else
         bind_a (fold_a (\<lambda>(grants, routes) r.
             bind_a (sign_recovery_chunk env setup (ry_route_generation_id payload) grants r) (\<lambda>(route, grants').
               return_a (grants', routes @ [route]))) ([], []) (ry_chunks payload)) (\<lambda>(_, routes).
         bind_a (on_world (clock_a env)) (\<lambda>now.
           return_a \<lparr>rr_transfer_id = ry_transfer_id payload, rr_route_generation_id = ry_route_generation_id payload,
             rr_signed_at = toISOString now, rr_chunk_routes = routes\<rparr>)))"

subsection \<open>What is returned\<close>

text \<open>\<open>yields m P\<close>: whatever the world does, a value that \<open>m\<close> returns satisfies \<open>P\<close>.\<close>

definition yields :: "('s \<Rightarrow> (string + 'a) \<times> 's) \<Rightarrow> ('a \<Rightarrow> bool) \<Rightarrow> bool" where
  "yields m P \<longleftrightarrow> (\<forall>s a t. m s = (Inr a, t) \<longrightarrow> P a)"

lemma yieldsD: "yields m P \<Longrightarrow> m s = (Inr a, t) \<Longrightarrow> P a"
  unfolding yields_def by blast

lemma yields_any: "yields m (\<lambda>_. True)"
  by (simp add: yields_def)

lemma yields_return: "P a \<Longrightarrow> yields (return_a a) P"
  by (simp add: yields_def return_a_def)

lemma yields_lift: "(\<And>a. r = Inr a \<Longrightarrow> P a) \<Longrightarrow> yields (lift_a r) P"
  by (simp add: yields_def lift_a_def)

lemma yields_throw: "yields (throw_a e) P" "yields (throw_m e) P"
  by (simp_all add: yields_def throw_a_def throw_m_def lift_a_def)

lemma yields_bind:
  assumes "yields m Q" and "\<And>a. Q a \<Longrightarrow> yields (f a) P"
  shows "yields (bind_a m f) P"
  unfolding yields_def
proof (intro allI impI)
  fix s b t assume "bind_a m f s = (Inr b, t)"
  then obtain a u where "m s = (Inr a, u)" "f a u = (Inr b, t)" by (auto simp: bind_a_def split: prod.splits sum.splits)
  with assms show "P b" by (metis yieldsD)
qed

lemmas yields_then = yields_bind [OF yields_any]

lemma yields_on_world: "yields m P \<Longrightarrow> yields (on_world m) P"
  unfolding yields_def on_world_def by (auto split: prod.splits) blast

lemma yields_attempt: "yields m P \<Longrightarrow> yields (attempt m) (\<lambda>r. \<forall>a. r = Inr a \<longrightarrow> P a)"
  unfolding yields_def attempt_def by (auto split: prod.splits) blast

lemma yields_weaken: "yields m Q \<Longrightarrow> (\<And>a. Q a \<Longrightarrow> P a) \<Longrightarrow> yields m P"
  unfolding yields_def by blast

lemma yields_if: "(b \<Longrightarrow> yields m P) \<Longrightarrow> (\<not> b \<Longrightarrow> yields n P) \<Longrightarrow> yields (if b then m else n) P"
  by simp

lemma yields_fold:
  assumes "\<And>pre x acc. x \<in> set xs \<Longrightarrow> I pre acc \<Longrightarrow> yields (f acc x) (I (pre @ [x]))" and "I pre acc"
  shows "yields (fold_a f acc xs) (I (pre @ xs))"
  using assms
proof (induction xs arbitrary: pre acc)
  case Nil
  then show ?case by (simp add: yields_return)
next
  case (Cons x xs)
  have "yields (f acc x) (I (pre @ [x]))" by (rule Cons.prems) (simp_all add: Cons.prems)
  moreover have "yields (fold_a f acc' xs) (I (pre @ x # xs))" if "I (pre @ [x]) acc'" for acc'
    using Cons.IH [of "pre @ [x]" acc'] Cons.prems(1) that by simp
  ultimately show ?case by (simp add: yields_bind)
qed

text \<open>A grant reads the range of its chunk; a route carries the range of its grant, and the coordinates of its chunk.\<close>

definition reads_range :: "string \<Rightarrow> (string \<times> string) list \<Rightarrow> bool" where
  "reads_range rng hdrs \<longleftrightarrow> map_of hdrs ''Range'' = Some rng"

lemma reads_range_simps [simp]: "reads_range rng [(''Range'', rng)]" "reads_range rng (range_headers rng ifMatch)"
  by (simp_all add: reads_range_def range_headers_def)

lemma yields_source_route: "yields (signSourceRoute env source url chunk ifMatch versionId n) (\<lambda>(_, h). reads_range (rangeHeaderForChunk chunk) h)"
  unfolding signSourceRoute_def Let_def
  by (auto intro!: yields_return yields_throw yields_then split: option.splits)

lemma yields_source_chunk:
  "yields (signSourceChunk env source url chunk ifMatch versionId n) (\<lambda>g. reads_range (rangeHeaderForChunk chunk) (gr_headers g))"
  unfolding signSourceChunk_def
  by (rule yields_then, rule yields_bind [OF yields_source_route]) (auto intro!: yields_then yields_return)

definition route_at :: "chunk_item \<Rightarrow> string \<Rightarrow> signed_route \<Rightarrow> bool" where
  "route_at chunk destinationId route \<longleftrightarrow>
     rt_source_id route = ch_source_id chunk \<and> rt_chunk_index route = ch_chunk_index chunk \<and> rt_destination_id route = destinationId
     \<and> rt_source_offset route = ch_source_offset chunk \<and> rt_chunk_size route = ch_chunk_size chunk
     \<and> (\<exists>h. rt_headers route = Some h \<and> reads_range (rangeHeaderForChunk chunk) h)"

definition granted :: "chunk_item \<Rightarrow> (string + source_grant) option \<Rightarrow> bool" where
  "granted chunk g \<longleftrightarrow> (\<exists>r. g = Some r \<and> (\<forall>grant. r = Inr grant \<longrightarrow> reads_range (rangeHeaderForChunk chunk) (gr_headers grant)))"

lemma route_metadata_simps [simp]:
  "route_metadata (put_metadata kvs route) = kvs" "route_metadata (route\<lparr>rt_dest_url := u\<rparr>) = route_metadata route"
  by (simp_all add: route_metadata_def put_metadata_def)

lemma yields_destination_route:
  assumes "granted (rs_chunk input) (rs_sourceGrant input)"
  shows "yields (signDestinationRoute env input) (\<lambda>route. route_at (rs_chunk input) (tg_destination_id (rs_target input)) route
     \<and> route_metadata route = signed_metadata input)"
proof -
  from assms obtain r where r: "rs_sourceGrant input = Some r"
    "\<And>grant. r = Inr grant \<Longrightarrow> reads_range (rangeHeaderForChunk (rs_chunk input)) (gr_headers grant)" by (auto simp: granted_def)
  have "yields (source_grant_of env input) (\<lambda>g. reads_range (rangeHeaderForChunk (rs_chunk input)) (gr_headers g))"
    by (simp add: source_grant_of_def r(1)) (rule yields_lift, rule r(2))
  then show ?thesis
    unfolding signDestinationRoute_def Let_def
    by (auto intro!: yields_throw yields_then yields_return simp: route_at_def route_metadata_def elim!: yields_bind)
qed

text \<open>
  The numbers a route carries: its delivery index and, unless it goes to the Hub, where a chunk has a URL of its own, its
  part number.
\<close>

definition carries_numbers :: "bool \<Rightarrow> int \<Rightarrow> int \<Rightarrow> (string \<times> json) list \<Rightarrow> bool" where
  "carries_numbers hub deliveryIndex partNumber kvs \<longleftrightarrow>
     map_of kvs ''delivery_index'' = Some (JNum deliveryIndex)
     \<and> map_of kvs ''part_number'' = (if hub then None else Some (JNum partNumber))"

lemma map_of_kept_keys: "map_of (filter (\<lambda>(k, _). Q k) kvs) k = (if Q k then map_of kvs k else None)"
  by (induction kvs) auto

lemma obj_put_other: "k \<notin> fst ` set kvs \<Longrightarrow> map_of (obj_put base kvs) k = map_of base k"
  by (induction base kvs rule: obj_put.induct) auto

lemma obj_put_last: "map_of (obj_put base (kvs @ [(k, v)])) k = Some v"
  by (induction base kvs rule: obj_put.induct) auto

lemma text_entries_keys: "fst ` set (text_entries kvs) \<subseteq> fst ` set kvs"
  by (force simp: text_entries_def split: option.splits)

lemma numbered_parts: "carries_numbers False i n kvs \<Longrightarrow> carries_numbers False i n (partRouteMetadata kvs)"
  by (simp add: carries_numbers_def partRouteMetadata_def map_of_kept_keys PART_ROUTE_METADATA_KEYS_def)

lemma numbered_direct: "carries_numbers False i n kvs \<Longrightarrow> carries_numbers True i n (directPutRouteMetadata kvs)"
  by (simp add: carries_numbers_def directPutRouteMetadata_def partRouteMetadata_def obj_drop_def map_of_kept_keys PART_ROUTE_METADATA_KEYS_def del: filter_filter)

lemma signed_plain:
  "signed_metadata (plain_signing input target) = tg_metadata target"
  "signed_metadata ((plain_signing input target)\<lparr>rs_destUrl := u\<rparr>) = tg_metadata target"
  by (simp_all add: signed_metadata_def plain_signing_def text_entries_def truthy_def)

lemma signed_part:
  assumes "carries_numbers False i (pv_partNumber input) (tg_metadata (pv_target input))"
  shows "carries_numbers False i (pv_partNumber input) (signed_metadata (part_signing input upload manifest))"
proof -
  let ?rs = "part_signing input upload manifest" and ?n = "pv_partNumber input"
  let ?kvs = "text_entries ([(''multipart_group_id'', rs_multipartGroupId ?rs), (''upload_id'', rs_uploadId ?rs)] @ rs_urls ?rs
        @ [(''final_object_key'', rs_finalObjectKey ?rs)])
      @ concat (map (\<lambda>(k, v). case v of None \<Rightarrow> [] | Some n \<Rightarrow> [(k, JNum n)]) (rs_sizes ?rs))
      @ (case rs_finalObjectMetadata ?rs of None \<Rightarrow> []
         | Some kvs \<Rightarrow> [(''final_object_metadata'', JObj (map (\<lambda>(k, v). (k, JStr v)) kvs))])"
  have base: "carries_numbers False i ?n (tg_metadata (rs_target ?rs))"
    using numbered_parts [OF assms] by (simp add: part_signing_def plain_signing_def Let_def)
  let ?K = "{''multipart_group_id'', ''upload_id'', ''complete_url'', ''abort_url'', ''list_page_url'', ''final_head_url'',
      ''final_object_key'', ''expected_object_size'', ''expected_part_count'', ''max_part_number'', ''final_object_metadata''}"
  note input = part_signing_def plain_signing_def Let_def
  have "fst ` set (text_entries ([(''multipart_group_id'', rs_multipartGroupId ?rs), (''upload_id'', rs_uploadId ?rs)] @ rs_urls ?rs
        @ [(''final_object_key'', rs_finalObjectKey ?rs)])) \<subseteq> ?K"
    by (rule order_trans [OF text_entries_keys]) (simp add: input)
  moreover have "fst ` set (concat (map (\<lambda>(k, v). case v of None \<Rightarrow> [] | Some n \<Rightarrow> [(k, JNum n)]) (rs_sizes ?rs))) \<subseteq> ?K"
    by (simp add: input)
  moreover have "fst ` set (case rs_finalObjectMetadata ?rs of None \<Rightarrow> []
         | Some kvs \<Rightarrow> [(''final_object_metadata'', JObj (map (\<lambda>(k, v). (k, JStr v)) kvs))]) \<subseteq> ?K"
    by (simp add: input)
  ultimately have keys: "fst ` set ?kvs \<subseteq> ?K" by (simp only: set_append image_Un Un_subset_iff)
  have other: "''delivery_index'' \<notin> fst ` set ?kvs" "''part_number'' \<notin> fst ` set ?kvs"
    by (rule notI, drule subsetD [OF keys], simp)+
  have meta: "signed_metadata ?rs = obj_put (tg_metadata (rs_target ?rs)) (?kvs @ (if ?n = 0 then [] else [(''part_number'', JNum ?n)]))"
    by (simp add: signed_metadata_def) (simp add: part_signing_def plain_signing_def Let_def)
  have "map_of (signed_metadata ?rs) ''delivery_index'' = map_of (tg_metadata (rs_target ?rs)) ''delivery_index''"
    unfolding meta by (rule obj_put_other) (use other in auto)
  moreover have "map_of (signed_metadata ?rs) ''part_number'' = Some (JNum ?n)"
  proof (cases "?n = 0")
    case True
    then show ?thesis unfolding meta using obj_put_other [OF other(2)] base by (simp add: carries_numbers_def)
  qed (simp only: meta if_False obj_put_last)
  ultimately show ?thesis using base by (simp add: carries_numbers_def)
qed

lemma yields_numbered_route:
  assumes "granted (pv_chunk input) (pv_sourceGrant input)"
  shows "yields (signProviderRoute env input) (\<lambda>route. route_at (pv_chunk input) (tg_destination_id (pv_target input)) route
     \<and> (\<forall>i. carries_numbers False i (pv_partNumber input) (tg_metadata (pv_target input))
          \<longrightarrow> carries_numbers (isHuggingFaceProvider (pv_destination input)) i (pv_partNumber input) (route_metadata route)))"
  (is "yields _ ?P")
proof -
  have signs: "yields (signDestinationRoute env rs) ?P"
    if "rs_chunk rs = pv_chunk input" "rs_sourceGrant rs = pv_sourceGrant input" "tg_destination_id (rs_target rs) = tg_destination_id (pv_target input)"
      and "\<And>i. carries_numbers False i (pv_partNumber input) (tg_metadata (pv_target input))
        \<Longrightarrow> carries_numbers (isHuggingFaceProvider (pv_destination input)) i (pv_partNumber input) (signed_metadata rs)" for rs
    using yields_destination_route [of rs env] that assms by (auto intro: yields_weaken)
  have plain: "rs_chunk (plain_signing input t) = pv_chunk input" "rs_sourceGrant (plain_signing input t) = pv_sourceGrant input"
    "rs_target (plain_signing input t) = t" for t by (simp_all add: plain_signing_def)
  have part: "rs_chunk (part_signing input u m) = pv_chunk input" "rs_sourceGrant (part_signing input u m) = pv_sourceGrant input"
    "tg_destination_id (rs_target (part_signing input u m)) = tg_destination_id (pv_target input)" for u m
    by (simp_all add: part_signing_def plain_signing_def Let_def)
  show ?thesis
    unfolding signProviderRoute_def Let_def
  proof (rule yields_if)
    assume hub: "isHuggingFaceProvider (pv_destination input)"
    show "yields (case pv_hub input of
           None \<Rightarrow> throw_a (''huggingface upload state is missing for '' @ tg_destination_id (pv_target input))
         | Some state \<Rightarrow>
             bind_a (lift_a (hub_dest_url state (ch_source_chunk_index (pv_chunk input)))) (\<lambda>destUrl.
               signDestinationRoute env
                 ((plain_signing input ((pv_target input)\<lparr>tg_object_key := pv_finalObjectKey input,
                     tg_metadata := directPutRouteMetadata (tg_metadata (pv_target input))\<rparr>))\<lparr>rs_destUrl := Some (js_string destUrl)\<rparr>))) ?P"
    proof (cases "pv_hub input")
      case (Some state)
      show ?thesis unfolding Some option.case
        by (rule yields_then, rule signs) (simp_all add: plain signed_plain numbered_direct hub)
    qed (simp add: yields_throw)
  next
    assume other: "\<not> isHuggingFaceProvider (pv_destination input)"
    have direct: "yields (signDestinationRoute env
        (plain_signing input ((pv_target input)\<lparr>tg_metadata := partRouteMetadata (tg_metadata (pv_target input))\<rparr>))) ?P"
      by (rule signs) (simp_all add: plain signed_plain numbered_parts other)
    have parts: "yields (case pv_upload input of
           None \<Rightarrow> throw_a (pv_signedUrlFlow input @ '' route is missing its multipart upload'')
         | Some (upload, manifest) \<Rightarrow>
             bind_a (lift_a (validateMultipartPartNumber (pv_partNumber input) manifest)) (\<lambda>_.
               signDestinationRoute env (part_signing input upload manifest))) ?P"
    proof (cases "pv_upload input")
      case (Some um)
      show ?thesis unfolding Some option.case case_prod_beta
        by (rule yields_then, rule signs) (simp_all add: part signed_part other)
    qed (simp add: yields_throw)
    show "yields (if isHippiusProvider (pv_destination input) then
        signDestinationRoute env
          (plain_signing input ((pv_target input)\<lparr>tg_metadata := partRouteMetadata (tg_metadata (pv_target input))\<rparr>))
      else
        (case pv_upload input of
           None \<Rightarrow> throw_a (pv_signedUrlFlow input @ '' route is missing its multipart upload'')
         | Some (upload, manifest) \<Rightarrow>
             bind_a (lift_a (validateMultipartPartNumber (pv_partNumber input) manifest)) (\<lambda>_.
               signDestinationRoute env (part_signing input upload manifest)))) ?P"
      by (rule yields_if [OF direct parts])
  qed
qed

lemma yields_provider_route:
  "granted (pv_chunk input) (pv_sourceGrant input)
     \<Longrightarrow> yields (signProviderRoute env input) (route_at (pv_chunk input) (tg_destination_id (pv_target input)))"
  by (rule yields_weaken [OF yields_numbered_route]) simp_all

lemma route_at_kept [simp]:
  "route_at chunk destinationId (put_metadata kvs route) \<longleftrightarrow> route_at chunk destinationId route"
  "route_at chunk destinationId (route\<lparr>rt_dest_url := u\<rparr>) \<longleftrightarrow> route_at chunk destinationId route"
  by (simp_all add: route_at_def put_metadata_def)

text \<open>What the recovery of a multipart upload adds to a route leaves its place and its numbers alone.\<close>

definition route_for :: "chunk_item \<Rightarrow> string \<Rightarrow> bool \<times> int \<times> int \<Rightarrow> signed_route \<Rightarrow> bool" where
  "route_for chunk destinationId n route \<longleftrightarrow>
     route_at chunk destinationId route \<and> (case n of (hub, i, part) \<Rightarrow> carries_numbers hub i part (route_metadata route))"

lemma numbered_kept [simp]:
  "k \<notin> {''delivery_index'', ''part_number''} \<Longrightarrow> carries_numbers hub i n (amap_set k v kvs) \<longleftrightarrow> carries_numbers hub i n kvs"
  "k \<notin> {''delivery_index'', ''part_number''} \<Longrightarrow> carries_numbers hub i n (obj_drop k kvs) \<longleftrightarrow> carries_numbers hub i n kvs"
  by (auto simp: carries_numbers_def obj_drop_def map_of_kept_keys)

lemma numbered_put:
  "fst ` set new \<inter> {''delivery_index'', ''part_number''} = {} \<Longrightarrow> carries_numbers hub i n (obj_put kvs new) \<longleftrightarrow> carries_numbers hub i n kvs"
  unfolding carries_numbers_def by (subst (1 2) obj_put_other) auto

lemma route_for_kept [simp]:
  "route_for chunk destinationId n (route\<lparr>rt_dest_url := u\<rparr>) \<longleftrightarrow> route_for chunk destinationId n route"
  by (simp add: route_for_def)

lemma route_for_put [simp]:
  "route_for chunk destinationId n route \<Longrightarrow> k \<notin> {''delivery_index'', ''part_number''}
     \<Longrightarrow> route_for chunk destinationId n (put_metadata (amap_set k v (obj_drop ''recovery_staging'' (route_metadata route))) route)"
  "route_for chunk destinationId n route
     \<Longrightarrow> route_for chunk destinationId n (put_metadata (obj_drop ''recovery_staging'' (route_metadata route)) route)"
  by (auto simp: route_for_def split: prod.splits)

lemma yields_renew:
  assumes "route_for chunk destinationId n route"
  shows "yields (renew_controls env destination r route expiresIn) (route_for chunk destinationId n)"
proof (cases "to_number (map_of (route_metadata route) ''expected_part_count'')")
  case None
  then show ?thesis unfolding renew_controls_def by (simp add: yields_throw)
next
  case (Some q)
  have put: "route_for chunk destinationId n (put_metadata (obj_put (route_metadata route) new) route)"
    if "fst ` set new \<inter> {''delivery_index'', ''part_number''} = {}" for new
    using assms numbered_put [OF that] by (auto simp: route_for_def split: prod.splits)
  show ?thesis unfolding renew_controls_def Some option.case Let_def
    by (intro yields_if yields_throw yields_then yields_return put) auto
qed

lemma yields_multipart_recovery:
  assumes "route_for chunk destinationId n route"
  shows "yields (signMultipartRecovery env destination transferId r route expiresIn) (route_for chunk destinationId n)"
proof (cases "rc_recovery r")
  case None
  with assms show ?thesis unfolding signMultipartRecovery_def Let_def by (simp add: yields_return)
next
  case (Some request)
  note parts = signMultipartRecovery_def Let_def Some option.case
  show ?thesis
    by (cases "rq_operation request"; unfold parts; simp only: recovery_operation.case)
      (intro yields_if yields_throw yields_then yields_return yields_renew; simp add: assms)+
qed

definition grant_key :: "string \<Rightarrow> int \<Rightarrow> string" where
  "grant_key sourceId chunkIndex = stringify (JArr [JStr sourceId, JNum chunkIndex])"

lemma grant_key_inj: "grant_key s i = grant_key s' i' \<longleftrightarrow> s = s' \<and> i = i'"
  unfolding grant_key_def by (auto dest!: stringify_inj simp del: stringify.simps)

text \<open>A grant kept for a chunk reads the range of that chunk.\<close>

definition grants_ok :: "plan_descriptor \<Rightarrow> grants \<Rightarrow> bool" where
  "grants_ok d grants \<longleftrightarrow> (\<forall>s i chunk grant. materializePlanChunk d s i = Inr chunk \<longrightarrow> map_of grants (grant_key s i) = Some (Inr grant)
     \<longrightarrow> reads_range (rangeHeaderForChunk chunk) (gr_headers grant))"

lemma materialize_chunk: "materializePlanChunk d s i = Inr chunk \<Longrightarrow> ch_source_id chunk = s \<and> ch_chunk_index chunk = i"
  by (auto simp: materializePlanChunk_def Let_def split: option.splits if_splits sum.splits)

lemma yields_grant_for:
  assumes "grants_ok (pr_plan (su_prepared setup)) grants" and "materializePlanChunk (pr_plan (su_prepared setup)) s i = Inr chunk"
  shows "yields (grant_for env setup grants source chunk)
     (\<lambda>(g, grants'). granted chunk (Some g) \<and> grants_ok (pr_plan (su_prepared setup)) grants')"
proof -
  let ?d = "pr_plan (su_prepared setup)"
  have key: "stringify (JArr [JStr (ch_source_id chunk), JNum (ch_chunk_index chunk)]) = grant_key s i"
    using materialize_chunk [OF assms(2)] by (simp add: grant_key_def)
  show ?thesis
  proof (cases "map_of grants (grant_key s i)")
    case (Some g)
    with assms have "granted chunk (Some g)" unfolding granted_def grants_ok_def by blast
    with Some assms(1) show ?thesis unfolding grant_for_def Let_def key by (simp add: yields_return del: map_of_eq_Some_iff)
  next
    case None
    have "grants_ok ?d (amap_set (grant_key s i) g grants)"
      if "\<forall>grant. g = Inr grant \<longrightarrow> reads_range (rangeHeaderForChunk chunk) (gr_headers grant)" for g
      using that assms by (auto simp: grants_ok_def grant_key_inj simp del: map_of_eq_Some_iff)
    with None show ?thesis unfolding grant_for_def Let_def key
      by (auto intro!: yields_bind [OF yields_attempt [OF yields_source_chunk]] yields_return simp: granted_def)
  qed
qed

text \<open>A request for one chunk and the route that answered it.\<close>

definition answers_request :: "signing_setup \<Rightarrow> string \<Rightarrow> recovery_chunk \<Rightarrow> signed_route \<Rightarrow> bool" where
  "answers_request setup generation r route \<longleftrightarrow> rc_route_generation_id r = generation \<and>
     (\<exists>chunk target destination. materializePlanChunk (pr_plan (su_prepared setup)) (rc_source_id r) (rc_chunk_index r) = Inr chunk
        \<and> target \<in> set (ch_destinations chunk) \<and> tg_destination_id target = rc_destination_id r
        \<and> to_number (map_of (tg_metadata target) ''delivery_index'') = Some (of_int (rc_delivery_index r))
        \<and> multipartPartNumber (ch_source_chunk_index chunk) (rc_attempt_slot r) = Inr (rc_part_number r)
        \<and> map_of (su_destinations setup) (rc_destination_id r) = Some destination
        \<and> route_for chunk (rc_destination_id r)
            (isHuggingFaceProvider destination, rc_delivery_index r, rc_part_number r) route)"

lemma check_recovery_planned:
  assumes "check_recovery d generation r = Inr (chunk, target)"
  shows "rc_route_generation_id r = generation" and "materializePlanChunk d (rc_source_id r) (rc_chunk_index r) = Inr chunk"
    and "target \<in> set (ch_destinations chunk)" and "tg_destination_id target = rc_destination_id r"
    and "to_number (map_of (tg_metadata target) ''delivery_index'') = Some (of_int (rc_delivery_index r))"
    and "multipartPartNumber (ch_source_chunk_index chunk) (rc_attempt_slot r) = Inr (rc_part_number r)"
  using assms by (auto simp: check_recovery_def planned_target_def find_Some_iff split: if_splits sum.splits option.splits intro: nth_mem)

lemma yields_recovery_chunk:
  assumes "grants_ok (pr_plan (su_prepared setup)) grants"
  shows "yields (sign_recovery_chunk env setup generation grants r)
     (\<lambda>(route, grants'). answers_request setup generation r route \<and> grants_ok (pr_plan (su_prepared setup)) grants')"
proof -
  let ?d = "pr_plan (su_prepared setup)"
  let ?P = "\<lambda>(route, grants'). answers_request setup generation r route \<and> grants_ok ?d grants'"
  have signs: "yields (case (map_of (su_sources setup) (rc_source_id r), map_of (su_destinations setup) (rc_destination_id r)) of
       (Some source, Some destination) \<Rightarrow>
         (let direct = isDirectPutDestination destination in
          bind_a (if direct then return_a None
                  else bind_a (recoveryMultipartUploadState env setup destination r) (\<lambda>upload. return_a (Some upload))) (\<lambda>upload.
          bind_a (on_world (grant_for env setup grants source chunk)) (\<lambda>(grant, grants').
          bind_a (on_world (signProviderRoute env \<lparr>pv_chunk = chunk,
              pv_target = target\<lparr>tg_object_key := (if direct then tg_object_key target else rc_final_object_key r),
                tg_metadata := recovery_metadata setup target r\<rparr>,
              pv_source = source, pv_sourceGrant = Some grant, pv_destination = destination, pv_expiresIn = su_expiresIn setup,
              pv_upload = upload, pv_hub = find (\<lambda>h. hu_destinationId h = rc_destination_id r) (su_hub setup),
              pv_finalObjectKey = rc_final_object_key r, pv_signedUrlFlow = ''signed_url'', pv_partNumber = rc_part_number r\<rparr>)) (\<lambda>route.
          bind_a (on_world (signMultipartRecovery env destination (pr_transfer_id (su_prepared setup)) r route (su_expiresIn setup)))
            (\<lambda>signed_route. return_a (signed_route, grants'))))))
     | _ \<Rightarrow> throw_m ''route recovery provider configuration is unavailable'') ?P"
    if check: "check_recovery ?d generation r = Inr (chunk, target)" for chunk target
  proof (cases "map_of (su_sources setup) (rc_source_id r) = None \<or> map_of (su_destinations setup) (rc_destination_id r) = None")
    case True
    then show ?thesis by (auto intro: yields_throw split: option.splits)
  next
    case False
    then obtain source destination where cfg: "map_of (su_sources setup) (rc_source_id r) = Some source"
      "map_of (su_destinations setup) (rc_destination_id r) = Some destination" by auto
    note planned = check_recovery_planned [OF check]
    let ?n = "(isHuggingFaceProvider destination, rc_delivery_index r, rc_part_number r)"
    have answered: "answers_request setup generation r route" if "route_for chunk (rc_destination_id r) ?n route" for route
      using planned cfg that unfolding answers_request_def by blast
    show ?thesis
      unfolding cfg option.case prod.case Let_def
    proof (rule yields_then, rule yields_bind [OF yields_on_world [OF yields_grant_for [OF assms planned(2)]]], clarify)
      fix upload grant grants'
      assume g: "granted chunk (Some grant)" "grants_ok ?d grants'"
      let ?input = "\<lparr>pv_chunk = chunk,
              pv_target = target\<lparr>tg_object_key := (if isDirectPutDestination destination then tg_object_key target else rc_final_object_key r),
                tg_metadata := recovery_metadata setup target r\<rparr>,
              pv_source = source, pv_sourceGrant = Some grant, pv_destination = destination, pv_expiresIn = su_expiresIn setup,
              pv_upload = upload, pv_hub = find (\<lambda>h. hu_destinationId h = rc_destination_id r) (su_hub setup),
              pv_finalObjectKey = rc_final_object_key r, pv_signedUrlFlow = ''signed_url'', pv_partNumber = rc_part_number r\<rparr>"
      have "carries_numbers False (rc_delivery_index r) (rc_part_number r) (recovery_metadata setup target r)"
        by (simp add: carries_numbers_def recovery_metadata_def)
      then have route: "yields (signProviderRoute env ?input) (route_for chunk (rc_destination_id r) ?n)"
        using yields_numbered_route [of ?input env] g(1) planned(4) by (auto simp: route_for_def intro: yields_weaken)
      show "yields (bind_a (on_world (signProviderRoute env ?input)) (\<lambda>route.
          bind_a (on_world (signMultipartRecovery env destination (pr_transfer_id (su_prepared setup)) r route (su_expiresIn setup)))
            (\<lambda>signed_route. return_a (signed_route, grants')))) ?P"
        by (rule yields_bind [OF yields_on_world [OF route]], rule yields_bind [OF yields_on_world [OF yields_multipart_recovery]], assumption,
            rule yields_return) (simp add: answered g(2))
    qed
  qed
  show ?thesis
    unfolding sign_recovery_chunk_def
    by (rule yields_then, rule yields_bind [OF yields_lift [where P = "\<lambda>ct. check_recovery ?d generation r = Inr ct"]], assumption)
      (split prod.split, intro allI impI, rule signs, simp)
qed


text \<open>
  The object a recovered part is written to is the one the request names. When no upload is on record for the group, nothing
  compares it with the plan: a request for another key of the bucket is signed, as long as its group id is made of that key.
\<close>

lemma recovery_check_ignores_key:
  "check_recovery d generation (r\<lparr>rc_final_object_key := key\<rparr>) = check_recovery d generation r"
  by (auto simp: check_recovery_def split: sum.split option.split)

subsection \<open>Integrity audits\<close>

text \<open>The range of a chunk an audit asks for; \<open>ac_fields\<close> is the whole object it came as.\<close>

record audit_chunk =
  ac_source_id :: string
  ac_destination_id :: string
  ac_route_chunk_index :: int
  ac_delivery_index :: int
  ac_source_offset :: int
  ac_destination_offset :: int
  ac_range_length :: int
  ac_final_object_key :: string
  ac_final_object_etag :: "string option"
  ac_fields :: "(string \<times> json) list"

record audit_challenge =
  ah_audit_id :: string
  ah_transfer_id :: string
  ah_chunks :: "audit_chunk list"

record range_grant =
  rg_url :: string
  rg_headers :: "(string \<times> string) list"
  rg_expires_at :: string

record audit_grant =
  ag_fields :: "(string \<times> json) list"
  ag_source :: range_grant
  ag_destination :: range_grant

record audit_grants =
  at_transfer_id :: string
  at_audit_id :: string
  at_submitted_at :: string
  at_chunks :: "audit_grant list"

definition check_audit :: "plan_descriptor \<Rightarrow> audit_chunk \<Rightarrow> string + chunk_item \<times> signing_target" where
  "check_audit d q =
     (case materializePlanChunk d (ac_source_id q) (ac_route_chunk_index q) of
        Inl e \<Rightarrow> Inl e
      | Inr chunk \<Rightarrow>
          if ac_source_offset q < ch_source_offset chunk
            \<or> ac_source_offset q + ac_range_length q > ch_source_offset chunk + ch_chunk_size chunk then
            Inl ''integrity audit source range is outside the planned chunk''
          else
            (case planned_target chunk (ac_destination_id q) (ac_delivery_index q) of
               None \<Rightarrow> Inl ''integrity audit destination coordinate mismatch''
             | Some target \<Rightarrow>
                 if map_of (tg_metadata target) ''final_object_key'' \<noteq> Some (JStr (ac_final_object_key q)) then
                   Inl ''integrity audit destination coordinate mismatch''
                 else if ac_destination_offset q \<noteq> ac_source_offset q then Inl ''integrity audit destination range mismatch''
                 else Inr (chunk, target)))"

definition AUDIT_HIDDEN :: "string list" where
  "AUDIT_HIDDEN = [''orchestrator_id'', ''orchestrator_hotkey'', ''worker_id'']"

definition range_grant_of :: "'w signing_env \<Rightarrow> string \<Rightarrow> string \<times> (string \<times> string) list \<Rightarrow> ('w, range_grant) sgn" where
  "range_grant_of env grantExpiresAt grant =
     bind_a (lift_a (boundedGrantExpiry (sn_query env) (fst grant) grantExpiresAt)) (\<lambda>expires.
       return_a \<lparr>rg_url = fst grant, rg_headers = snd grant, rg_expires_at = expires\<rparr>)"

definition audit_chunk_grant :: "'w signing_env \<Rightarrow> signing_setup \<Rightarrow> audit_chunk \<Rightarrow> ('w, audit_grant) sgn" where
  "audit_chunk_grant env setup q =
     bind_a (lift_a (check_audit (pr_plan (su_prepared setup)) q)) (\<lambda>_.
     case (map_of (su_sources setup) (ac_source_id q), map_of (su_destinations setup) (ac_destination_id q)) of
       (Some source, Some destination) \<Rightarrow>
         (let pin = plannedSourcePin (pr_plan (su_prepared setup)) (ac_source_id q); expiresIn = su_expiresIn setup in
          bind_a (expiresAtIso env expiresIn) (\<lambda>grantExpiresAt.
          bind_a (signSourceReadRange env source (fst pin) (snd pin) (ac_source_offset q) (ac_range_length q) expiresIn) (\<lambda>sourceGrant.
          bind_a (signDestinationReadRange env destination (ac_final_object_key q) (truthy (ac_final_object_etag q))
            (ac_destination_offset q) (ac_range_length q) expiresIn) (\<lambda>destinationGrant.
          bind_a (range_grant_of env grantExpiresAt sourceGrant) (\<lambda>read.
          bind_a (range_grant_of env grantExpiresAt destinationGrant) (\<lambda>readBack.
            return_a \<lparr>ag_fields = filter (\<lambda>(k, _). \<not> List.member AUDIT_HIDDEN k) (ac_fields q), ag_source = read,
              ag_destination = readBack\<rparr>))))))
     | _ \<Rightarrow> throw_a ''integrity audit provider configuration is unavailable'')"

definition buildProviderIntegrityAuditGrants :: "'w signing_env \<Rightarrow> signing_setup \<Rightarrow> audit_challenge \<Rightarrow> ('w, audit_grants) sgn" where
  "buildProviderIntegrityAuditGrants env setup challenge =
     (if ah_transfer_id challenge \<noteq> pr_transfer_id (su_prepared setup) then throw_a ''integrity audit challenge transfer mismatch''
      else
        bind_a (clock_a env) (\<lambda>now.
        bind_a (fold_a (\<lambda>grants q. bind_a (audit_chunk_grant env setup q) (\<lambda>g. return_a (grants @ [g]))) [] (ah_chunks challenge)) (\<lambda>grants.
          return_a \<lparr>at_transfer_id = ah_transfer_id challenge, at_audit_id = ah_audit_id challenge,
            at_submitted_at = toISOString now, at_chunks = grants\<rparr>)))"

text \<open>What a grant of an audit may read: the range asked for, of the planned chunk at the source and of the planned object.\<close>

definition audit_planned :: "plan_descriptor \<Rightarrow> audit_chunk \<Rightarrow> audit_grant \<Rightarrow> bool" where
  "audit_planned d q g \<longleftrightarrow>
     (\<exists>chunk target. materializePlanChunk d (ac_source_id q) (ac_route_chunk_index q) = Inr chunk \<and> target \<in> set (ch_destinations chunk)
        \<and> tg_destination_id target = ac_destination_id q
        \<and> to_number (map_of (tg_metadata target) ''delivery_index'') = Some (of_int (ac_delivery_index q))
        \<and> map_of (tg_metadata target) ''final_object_key'' = Some (JStr (ac_final_object_key q))
        \<and> ch_source_offset chunk \<le> ac_source_offset q
        \<and> ac_source_offset q + ac_range_length q \<le> ch_source_offset chunk + ch_chunk_size chunk
        \<and> (0 < ac_range_length q \<longrightarrow> {ac_source_offset q..<ac_source_offset q + ac_range_length q}
              \<subseteq> {ch_source_offset chunk..<ch_source_offset chunk + ch_chunk_size chunk}))
     \<and> ac_destination_offset q = ac_source_offset q
     \<and> reads_range (rangeHeaderForRange (ac_source_offset q) (ac_range_length q)) (rg_headers (ag_source g))
     \<and> reads_range (rangeHeaderForRange (ac_source_offset q) (ac_range_length q)) (rg_headers (ag_destination g))
     \<and> (\<forall>k \<in> set AUDIT_HIDDEN. k \<notin> fst ` set (ag_fields g))"

lemma check_audit_planned:
  assumes "check_audit d q = Inr (chunk, target)"
  shows "materializePlanChunk d (ac_source_id q) (ac_route_chunk_index q) = Inr chunk" and "target \<in> set (ch_destinations chunk)"
    and "tg_destination_id target = ac_destination_id q" and "map_of (tg_metadata target) ''final_object_key'' = Some (JStr (ac_final_object_key q))"
    and "ch_source_offset chunk \<le> ac_source_offset q"
    and "ac_source_offset q + ac_range_length q \<le> ch_source_offset chunk + ch_chunk_size chunk"
    and "ac_destination_offset q = ac_source_offset q"
    and "to_number (map_of (tg_metadata target) ''delivery_index'') = Some (of_int (ac_delivery_index q))"
  using assms by (auto simp: check_audit_def planned_target_def find_Some_iff simp del: map_of_eq_Some_iff
      split: if_splits sum.splits option.splits intro: nth_mem)

lemma yields_source_range: "yields (signSourceReadRange env source im vid off len n) (\<lambda>g. reads_range (rangeHeaderForRange off len) (snd g))"
  unfolding signSourceReadRange_def Let_def
  by (intro yields_if yields_throw yields_then) (auto intro!: yields_return)

lemma yields_destination_range:
  "yields (signDestinationReadRange env destination key im off len n) (\<lambda>g. reads_range (rangeHeaderForRange off len) (snd g))"
  unfolding signDestinationReadRange_def Let_def
  by (intro yields_if yields_throw yields_then) (auto intro!: yields_return)

lemma yields_range_grant: "reads_range rng (snd g) \<Longrightarrow> yields (range_grant_of env t g) (\<lambda>r. reads_range rng (rg_headers r))"
  unfolding range_grant_of_def by (rule yields_then, rule yields_return) simp

lemma yields_audit_chunk: "yields (audit_chunk_grant env setup q) (audit_planned (pr_plan (su_prepared setup)) q)"
proof -
  let ?d = "pr_plan (su_prepared setup)"
  have planned: "yields (case (map_of (su_sources setup) (ac_source_id q), map_of (su_destinations setup) (ac_destination_id q)) of
       (Some source, Some destination) \<Rightarrow>
         (let pin = plannedSourcePin (pr_plan (su_prepared setup)) (ac_source_id q); expiresIn = su_expiresIn setup in
          bind_a (expiresAtIso env expiresIn) (\<lambda>grantExpiresAt.
          bind_a (signSourceReadRange env source (fst pin) (snd pin) (ac_source_offset q) (ac_range_length q) expiresIn) (\<lambda>sourceGrant.
          bind_a (signDestinationReadRange env destination (ac_final_object_key q) (truthy (ac_final_object_etag q))
            (ac_destination_offset q) (ac_range_length q) expiresIn) (\<lambda>destinationGrant.
          bind_a (range_grant_of env grantExpiresAt sourceGrant) (\<lambda>read.
          bind_a (range_grant_of env grantExpiresAt destinationGrant) (\<lambda>readBack.
            return_a \<lparr>ag_fields = filter (\<lambda>(k, _). \<not> List.member AUDIT_HIDDEN k) (ac_fields q), ag_source = read,
              ag_destination = readBack\<rparr>))))))
     | _ \<Rightarrow> throw_a ''integrity audit provider configuration is unavailable'') (audit_planned ?d q)"
    if check: "check_audit ?d q = Inr (chunk, target)" for chunk target
  proof (cases "map_of (su_sources setup) (ac_source_id q) = None \<or> map_of (su_destinations setup) (ac_destination_id q) = None")
    case True
    then show ?thesis by (auto intro: yields_throw split: option.splits)
  next
    case False
    then obtain source destination where cfg: "map_of (su_sources setup) (ac_source_id q) = Some source"
      "map_of (su_destinations setup) (ac_destination_id q) = Some destination" by auto
    let ?rng = "rangeHeaderForRange (ac_source_offset q) (ac_range_length q)"
    have fine: "audit_planned ?d q \<lparr>ag_fields = filter (\<lambda>(k, _). \<not> List.member AUDIT_HIDDEN k) (ac_fields q), ag_source = a, ag_destination = b\<rparr>"
      if "reads_range ?rng (rg_headers a)" "reads_range ?rng (rg_headers b)" for a b
      using check_audit_planned [OF check] that unfolding audit_planned_def by (auto simp del: map_of_eq_Some_iff)
    show ?thesis
      unfolding cfg option.case prod.case Let_def check_audit_planned(7) [OF check]
      by (rule yields_then, rule yields_bind [OF yields_source_range], rule yields_bind [OF yields_destination_range],
          rule yields_bind [OF yields_range_grant], assumption, rule yields_bind [OF yields_range_grant], assumption,
          rule yields_return, rule fine)
  qed
  show ?thesis
    unfolding audit_chunk_grant_def
    by (rule yields_bind [OF yields_lift [where P = "\<lambda>ct. check_audit ?d q = Inr ct"]], assumption, metis planned surj_pair)
qed


text \<open>
  The length is not checked, and a range of no length still reads a byte: with a length below zero the start may lie
  anywhere after the chunk, and the byte there is granted.
\<close>

definition demo_audit :: audit_chunk where
  "demo_audit = \<lparr>ac_source_id = ''s'', ac_destination_id = ''d'', ac_route_chunk_index = 0, ac_delivery_index = 0, ac_source_offset = 1000,
     ac_destination_offset = 1000, ac_range_length = -1000, ac_final_object_key = ''k'', ac_final_object_etag = None, ac_fields = []\<rparr>"

lemma audit_range_may_escape:
  "\<exists>chunk target. check_audit (pr_plan demo_prepared) demo_audit = Inr (chunk, target)
     \<and> ch_source_offset chunk + ch_chunk_size chunk = 5
     \<and> rangeHeaderForRange (ac_source_offset demo_audit) (ac_range_length demo_audit) = ''bytes=1000-1000''"
proof -
  have "case check_audit (pr_plan demo_prepared) demo_audit of Inl _ \<Rightarrow> False
      | Inr (chunk, _) \<Rightarrow> ch_source_offset chunk + ch_chunk_size chunk = 5" by code_simp
  moreover have "rangeHeaderForRange (ac_source_offset demo_audit) (ac_range_length demo_audit) = ''bytes=1000-1000''" by code_simp
  ultimately show ?thesis by (auto split: sum.splits)
qed

subsection \<open>The grants kept for an audit\<close>

text \<open>
  Grants under way or made, by audit id. A payload is known by the number of its start; until it settles it counts as
  valid for ever, and then for as long as its earliest expiry, which may be no time at all.
\<close>

datatype grant_expiry = For_ever | Until int | No_time

record grant_entry =
  ge_payload :: nat
  ge_transferId :: string
  ge_fingerprint :: string
  ge_expiresAt :: grant_expiry

record grant_state =
  gs_cache :: "(string \<times> grant_entry) list"
  gs_submissions :: "(string \<times> nat) list"
  gs_signers :: "string list"
  gs_started :: "(nat \<times> string) list"

definition new_grants :: "string list \<Rightarrow> grant_state" where
  "new_grants signers = \<lparr>gs_cache = [], gs_submissions = [], gs_signers = signers, gs_started = []\<rparr>"

definition valid_beyond :: "int \<Rightarrow> grant_expiry \<Rightarrow> bool" where
  "valid_beyond t e \<longleftrightarrow> (case e of For_ever \<Rightarrow> True | Until u \<Rightarrow> u > t | No_time \<Rightarrow> False)"

definition start_grants :: "string \<Rightarrow> string \<Rightarrow> string \<Rightarrow> grant_state \<Rightarrow> (string + nat) \<times> grant_state" where
  "start_grants auditId transferId fingerprint st =
     (if \<not> List.member (gs_signers st) transferId then (Inl ''integrity audit signer unavailable'', st)
      else
        (let n = length (gs_started st) in
         (Inr n, st\<lparr>gs_submissions := amap_delete auditId (gs_submissions st), gs_started := gs_started st @ [(n, fingerprint)],
            gs_cache := amap_set auditId \<lparr>ge_payload = n, ge_transferId = transferId, ge_fingerprint = fingerprint,
              ge_expiresAt = For_ever\<rparr> (gs_cache st)\<rparr>)))"

definition signedIntegrityGrants :: "int \<Rightarrow> string \<Rightarrow> string \<Rightarrow> string \<Rightarrow> grant_state \<Rightarrow> (string + nat) \<times> grant_state" where
  "signedIntegrityGrants now auditId transferId fingerprint st =
     (case map_of (gs_cache st) auditId of
        Some cached \<Rightarrow>
          if ge_fingerprint cached \<noteq> fingerprint then (Inl ''integrity audit identity changed'', st)
          else if valid_beyond (now + 30000) (ge_expiresAt cached) then (Inr (ge_payload cached), st)
          else start_grants auditId transferId fingerprint st
      | None \<Rightarrow>
          if length (gs_cache st) \<ge> 1024 then (Inl ''integrity signer capacity unavailable'', st)
          else start_grants auditId transferId fingerprint st)"

text \<open>A payload settles: with the expiry of its chunks, or it failed and is forgotten, when it is still the one kept.\<close>

definition earliest :: "int option list \<Rightarrow> grant_expiry" where
  "earliest ts = (if list_ex (\<lambda>t. t = None) ts then No_time
     else if ts = [] then For_ever else Until (Min (set (map the ts))))"

definition grants_settled :: "string \<Rightarrow> nat \<Rightarrow> string + int option list \<Rightarrow> grant_state \<Rightarrow> grant_state" where
  "grants_settled auditId n outcome st =
     (case map_of (gs_cache st) auditId of
        None \<Rightarrow> st
      | Some entry \<Rightarrow>
          if ge_payload entry \<noteq> n then st
          else
            (case outcome of
               Inl _ \<Rightarrow> st\<lparr>gs_cache := amap_delete auditId (gs_cache st)\<rparr>
             | Inr ts \<Rightarrow> st\<lparr>gs_cache := amap_set auditId (entry\<lparr>ge_expiresAt := earliest ts\<rparr>) (gs_cache st)\<rparr>))"

text \<open>The part of \<open>stopRecoverySigner\<close> that concerns the grants of a transfer.\<close>

definition stop_grants :: "string \<Rightarrow> grant_state \<Rightarrow> grant_state" where
  "stop_grants transferId st =
     (let stopped = map fst (filter (\<lambda>(_, e). ge_transferId e = transferId) (gs_cache st)) in
      st\<lparr>gs_signers := filter (\<lambda>t. t \<noteq> transferId) (gs_signers st),
         gs_cache := filter (\<lambda>(_, e). ge_transferId e \<noteq> transferId) (gs_cache st),
         gs_submissions := filter (\<lambda>(a, _). \<not> List.member stopped a) (gs_submissions st)\<rparr>)"

datatype grant_call = Sign int string string string | Settle string nat "string + int option list" | Stop string

fun grant_step :: "grant_call \<Rightarrow> grant_state \<Rightarrow> grant_state" where
  "grant_step (Sign now auditId transferId fingerprint) st = snd (signedIntegrityGrants now auditId transferId fingerprint st)"
| "grant_step (Settle auditId n outcome) st = grants_settled auditId n outcome st"
| "grant_step (Stop transferId) st = stop_grants transferId st"

text \<open>The cache holds one entry for an audit, at most 1024, each of a payload that was started for that very challenge.\<close>

definition grants_kept :: "grant_state \<Rightarrow> bool" where
  "grants_kept st \<longleftrightarrow> distinct (map fst (gs_cache st)) \<and> length (gs_cache st) \<le> 1024
     \<and> map fst (gs_started st) = [0..<length (gs_started st)]
     \<and> (\<forall>(a, e) \<in> set (gs_cache st). (ge_payload e, ge_fingerprint e) \<in> set (gs_started st))"

lemma amap_set_entries: "e \<in> set (amap_set k v m) \<Longrightarrow> e \<in> set m \<or> e = (k, v)"
  by (induction k v m rule: amap_set.induct) (auto split: if_splits)

lemma amap_set_size: "length (amap_set k v m) = (if map_of m k = None then Suc (length m) else length m)"
  by (induction k v m rule: amap_set.induct) auto

lemma start_grants_kept:
  assumes "grants_kept st" and "map_of (gs_cache st) auditId = None \<Longrightarrow> length (gs_cache st) < 1024"
  shows "grants_kept (snd (start_grants auditId transferId fingerprint st))"
  using assms by (fastforce simp: grants_kept_def start_grants_def Let_def amap_set_size simp del: map_of_eq_Some_iff dest: amap_set_entries)

lemma grant_step_kept: "grants_kept st \<Longrightarrow> grants_kept (grant_step gc st)"
proof (cases gc)
  case (Sign now auditId transferId fingerprint)
  moreover assume "grants_kept st"
  ultimately show ?thesis
    by (auto simp: signedIntegrityGrants_def intro: start_grants_kept simp del: map_of_eq_Some_iff split: option.splits)
next
  case (Settle auditId n outcome)
  assume kept: "grants_kept st"
  have "grants_kept (grants_settled auditId n outcome st)"
  proof (cases "map_of (gs_cache st) auditId")
    case None
    with kept show ?thesis by (simp add: grants_settled_def del: map_of_eq_Some_iff)
  next
    case (Some entry)
    then have entry: "(auditId, entry) \<in> set (gs_cache st)" by (rule map_of_SomeD)
    have "grants_kept (st\<lparr>gs_cache := amap_delete auditId (gs_cache st)\<rparr>)"
      using kept by (auto simp: grants_kept_def amap_delete_def distinct_map_filter intro: order_trans [OF length_filter_le])
    moreover have "grants_kept (st\<lparr>gs_cache := amap_set auditId (entry\<lparr>ge_expiresAt := x\<rparr>) (gs_cache st)\<rparr>)" for x
      using kept entry Some by (auto simp: grants_kept_def amap_set_size simp del: map_of_eq_Some_iff dest!: amap_set_entries)
    ultimately show ?thesis using kept Some by (simp add: grants_settled_def del: map_of_eq_Some_iff split: sum.split)
  qed
  with Settle show ?thesis by simp
next
  case (Stop transferId)
  moreover assume "grants_kept st"
  ultimately show ?thesis
    by (auto simp: stop_grants_def grants_kept_def Let_def distinct_map_filter intro: order_trans [OF length_filter_le])
qed

text \<open>
  What an audit is answered with was signed for the challenge it sent: however requests, settlements and stops of signers
  follow each other, the payload handed out was started for this challenge, and no more than 1024 are kept.
\<close>

lemma audit_answered_for_own_challenge:
  assumes "signedIntegrityGrants now auditId transferId fingerprint (fold grant_step calls (new_grants signers)) = (Inr n, st)"
  shows "map_of (gs_started st) n = Some fingerprint \<and> length (gs_cache st) \<le> 1024"
proof -
  let ?st = "fold grant_step calls (new_grants signers)"
  have "grants_kept (fold grant_step calls st0)" if "grants_kept st0" for st0
    using that by (induction calls arbitrary: st0) (simp_all add: grant_step_kept)
  then have kept: "grants_kept ?st" by (simp add: new_grants_def grants_kept_def)
  then have kept': "grants_kept st"
    using grant_step_kept [OF kept, of "Sign now auditId transferId fingerprint"] assms by simp
  have "(n, fingerprint) \<in> set (gs_started st)"
    using assms kept
    by (fastforce simp: signedIntegrityGrants_def start_grants_def Let_def grants_kept_def simp del: map_of_eq_Some_iff
        dest: map_of_SomeD split: option.splits if_splits)
  moreover have "distinct (map fst (gs_started st))" using kept' by (simp add: grants_kept_def)
  ultimately show ?thesis using kept' by (simp add: grants_kept_def)
qed

end
