(* ===== verification/SdkControl.thy ===== *)
theory SdkControl
  imports SdkRoutes TransferId Base64Url
begin

unbundle bit_operations_syntax

text \<open>
  The SDK's lifecycle control (\<open>BeamTransferControl\<close> in \<open>sdks/typescript/src/nats-control.ts\<close>): requests to the transfer
  runtime with their retries, the authentication token behind them, and the recovery leases of the transfers a
  client owns. The NATS connection, MessagePack, SHA-256, random identifiers and the clock are parameters. A
  transfer id is ASCII.
\<close>

subsection \<open>Identifiers and subjects\<close>

definition BEAM_DEFAULT_NATS_URL :: string where "BEAM_DEFAULT_NATS_URL = ''tls://orch-gateway.b1m.ai:4222''"
definition AUTH_TOKEN_REFRESH_SAFETY_SECONDS :: int where "AUTH_TOKEN_REFRESH_SAFETY_SECONDS = 30"
definition LIFECYCLE_REQUEST_MAX_ATTEMPTS :: nat where "LIFECYCLE_REQUEST_MAX_ATTEMPTS = 3"
definition LIFECYCLE_REQUEST_RETRY_DELAYS_MS :: "int list" where "LIFECYCLE_REQUEST_RETRY_DELAYS_MS = [150, 500]"

text \<open>FNV-1a on 32 bits: \<open>Math.imul(hash, 16777619) >>> 0\<close> of the hash with the next code mixed in.\<close>

definition fnv_step :: "32 word \<Rightarrow> char \<Rightarrow> 32 word" where
  "fnv_step hash c = (hash XOR word_of_nat (of_char c)) * 16777619"

definition transferShardId :: "string \<Rightarrow> int \<Rightarrow> int" where
  "transferShardId transferId shardCount = uint (foldl fnv_step 2166136261 transferId) mod shardCount"

definition normalizeSubjectPrefix :: "string \<Rightarrow> string" where
  "normalizeSubjectPrefix value =
     rev (dropWhile (\<lambda>c. c = CHR ''.'') (rev (dropWhile (\<lambda>c. c = CHR ''.'') value)))"

definition base64UrlDecode :: "string \<Rightarrow> string" where
  "base64UrlDecode value = b64url_decode value"

definition decodeJwtPayload :: "string \<Rightarrow> string + json" where
  "decodeJwtPayload jwt =
     (case split_on (CHR ''.'') jwt of
        _ # payload # _ \<Rightarrow>
          (case parse_json (base64UrlDecode payload) of None \<Rightarrow> Inl ''invalid JSON'' | Some j \<Rightarrow> Inr j)
      | _ \<Rightarrow> Inl ''invalid JWT'')"

record control_options =
  co_apiKey :: string
  co_natsUrl :: "string option"
  co_natsWsUrl :: "string option"
  co_environment :: "string option"
  co_subjectPrefix :: "string option"
  co_shardCount :: "int option"
  co_maxPayloadBytes :: "int option"

record control_config = control_identity +
  cg_subjectPrefix :: string
  cg_shardCount :: int
  cg_natsUrl :: string

definition starts_ci :: "string \<Rightarrow> string \<Rightarrow> bool" where
  "starts_ci p s = starts_with p (to_lower s)"

definition new_control :: "control_options \<Rightarrow> string + control_config" where
  "new_control o1 =
     (let url = coalesce (or_else (co_natsUrl o1) (co_natsWsUrl o1)) BEAM_DEFAULT_NATS_URL;
          shards = coalesce (co_shardCount o1) 1 in
      if starts_ci ''http://'' url \<or> starts_ci ''https://'' url
         \<or> (starts_ci ''ws://'' url \<or> starts_ci ''wss://'' url) \<and> truthy (co_natsWsUrl o1) = None then
        Inl ''Beam SDK lifecycle endpoint must be nats://, tls://, or configured as natsWsUrl.''
      else if shards < 1 then Inl ''transferRuntimeShardCount must be a positive integer.''
      else Inr \<lparr>ci_environment = coalesce (co_environment o1) ''prod'', ci_keyPrefix = take 12 (co_apiKey o1),
        ci_maxPayloadBytes = coalesce (co_maxPayloadBytes o1) BEAM_DEFAULT_MAX_PAYLOAD_BYTES,
        cg_subjectPrefix = normalizeSubjectPrefix (coalesce (co_subjectPrefix o1) ''beam.transfer.client''),
        cg_shardCount = shards, cg_natsUrl = url\<rparr>)"

definition subject_base :: "control_config \<Rightarrow> string" where
  "subject_base cf = cg_subjectPrefix cf @ ''.'' @ ci_environment cf @ ''.''"

definition authSubject :: "control_config \<Rightarrow> string" where
  "authSubject cf = subject_base cf @ ''auth.'' @ ci_keyPrefix cf @ ''.resolve''"

definition requestSubject :: "control_config \<Rightarrow> string \<Rightarrow> int \<Rightarrow> string" where
  "requestSubject cf messageType shardId =
     subject_base cf @ ''sdk.'' @ ci_keyPrefix cf @ ''.shard.'' @ show_int shardId @ ''.''
     @ map (\<lambda>c. if c = CHR ''.'' then CHR ''_'' else c) messageType"

definition routeRecoverySignSubject :: "control_config \<Rightarrow> string \<Rightarrow> string" where
  "routeRecoverySignSubject cf transferId =
     subject_base cf @ ''sdk.'' @ ci_keyPrefix cf @ ''.transfer.'' @ transferId @ ''.route_recovery_sign''"

definition terminalSubject :: "control_config \<Rightarrow> string \<Rightarrow> string" where
  "terminalSubject cf transferId = subject_base cf @ ''events.'' @ ci_keyPrefix cf @ ''.'' @ transferId @ ''.terminal''"

subsection \<open>Errors\<close>

text \<open>What a request may throw: the runtime's refusal with its status, or anything else by its code and message.\<close>

datatype lifecycle_error = Refused int string | Other_error string string

definition isRetryableLifecycleStatus :: "int \<Rightarrow> bool" where
  "isRetryableLifecycleStatus status \<longleftrightarrow> status = 408 \<or> status = 425 \<or> status = 429 \<or> status \<ge> 500"

definition RETRYABLE_TOKENS :: "string list" where
  "RETRYABLE_TOKENS = [''timeout'', ''no responders'', ''connection closed'', ''disconnected'', ''econnreset'', ''econnrefused'',
     ''etimedout'', ''fetch failed'', ''socket'', ''network'']"

fun occurs_in :: "string \<Rightarrow> string \<Rightarrow> bool" where
  "occurs_in p [] \<longleftrightarrow> p = []"
| "occurs_in p (c # s) \<longleftrightarrow> starts_with p (c # s) \<or> occurs_in p s"

fun isRetryableLifecycleError :: "lifecycle_error \<Rightarrow> bool" where
  "isRetryableLifecycleError (Refused status _) = isRetryableLifecycleStatus status"
| "isRetryableLifecycleError (Other_error code message) =
     list_ex (\<lambda>token. occurs_in token (to_lower (code @ '' '' @ message))) RETRYABLE_TOKENS"

text \<open>\<open>isRecoverableRouteStreamError\<close>; an error of another kind may carry a status of its own.\<close>

fun isRecoverableRouteStreamError :: "lifecycle_error \<Rightarrow> int option \<Rightarrow> bool" where
  "isRecoverableRouteStreamError (Refused status m) _ \<longleftrightarrow>
     isRetryableLifecycleError (Refused status m) \<or> status = 404 \<or> status = 409"
| "isRecoverableRouteStreamError (Other_error code m) own \<longleftrightarrow>
     isRetryableLifecycleError (Other_error code m) \<or> own = Some 404 \<or> own = Some 409"

end
