(* ===== verification/SdkRecovery.thy ===== *)
theory SdkRecovery
  imports SdkControl
begin

text \<open>
  The recovery leases of \<open>BeamTransferControl\<close> (\<open>sdks/typescript/src/nats-control.ts\<close>): which owner holds a transfer,
  the loop that resumes it after the runtime restarts, and the hand-over between owners. Every \<open>await\<close> of the loop is a
  point where any other event may happen, so the state records where each running loop stands, and the events are what
  the outside does: an answer to a resume request, the end of a replay, of a sleep, of the loop itself, a reply that
  shows a new runtime epoch, and the calls of the client. A lease is an object: \<open>ls_owner\<close> is its identity.
\<close>

subsection \<open>State\<close>

record lease =
  ls_owner :: nat
  ls_transferId :: string
  ls_planFingerprint :: string
  ls_coordinateChecksum :: string

text \<open>
  Where a loop waits: for the answer to the resume request it sent (with the epoch it read and the random route
  generation it drew), for the replay of the routes, for the end of a sleep; or it has returned and its \<open>finally\<close>
  has not run, with the value of \<open>replaced\<close>.
\<close>

datatype phase = Resuming "string option" nat nat | Replaying "string option" nat nat | Sleeping nat | Finished bool

record lifecycle =
  lc_closed :: bool
  lc_leases :: "(string \<times> lease) list"
  lc_operations :: "(lease \<times> phase) list"
  lc_requestedEpoch :: "(string \<times> string) list"
  lc_runtimeEpochs :: "(int \<times> string \<times> string) list"
  lc_capabilities :: "(int \<times> int \<times> string list) list"
  lc_authToken :: "string option"
  lc_authTokenExpiresAt :: int
  lc_helloTimer :: bool
  lc_disposed :: "lease list"
  lc_randoms :: nat

definition new_lifecycle :: lifecycle where
  "new_lifecycle = \<lparr>lc_closed = False, lc_leases = [], lc_operations = [], lc_requestedEpoch = [], lc_runtimeEpochs = [],
     lc_capabilities = [], lc_authToken = None, lc_authTokenExpiresAt = 0, lc_helloTimer = False, lc_disposed = [],
     lc_randoms = 0\<rparr>"

definition lease_of :: "lifecycle \<Rightarrow> string \<Rightarrow> lease option" where
  "lease_of st = map_of (lc_leases st)"

definition owns :: "lifecycle \<Rightarrow> lease \<Rightarrow> bool" where
  "owns st l \<longleftrightarrow> \<not> lc_closed st \<and> lease_of st (ls_transferId l) = Some l"

subsection \<open>The recovery loop\<close>

text \<open>The head of the \<open>while\<close>: with the lease still registered the next resume request goes out.\<close>

definition loop_top :: "lease \<Rightarrow> nat \<Rightarrow> lifecycle \<Rightarrow> lifecycle" where
  "loop_top l att st =
     (if owns st l then
        st\<lparr>lc_operations := amap_set l (Resuming (map_of (lc_requestedEpoch st) (ls_transferId l)) (lc_randoms st) att)
             (lc_operations st), lc_randoms := lc_randoms st + 1\<rparr>
      else st\<lparr>lc_operations := amap_set l (Finished (\<not> lc_closed st)) (lc_operations st)\<rparr>)"

definition recoverLease :: "lease \<Rightarrow> lifecycle \<Rightarrow> lifecycle" where
  "recoverLease l st = (if map_of (lc_operations st) l \<noteq> None then st else loop_top l 0 st)"

definition dispose :: "lease \<Rightarrow> lifecycle \<Rightarrow> lifecycle" where
  "dispose l st = st\<lparr>lc_disposed := lc_disposed st @ [l]\<rparr>"

definition registerRecoveryLease :: "lease \<Rightarrow> lifecycle \<Rightarrow> string + lifecycle" where
  "registerRecoveryLease l st =
     (if lc_closed st then Inl ''NATS lifecycle control is closed''
      else
        (let st1 = (case lease_of st (ls_transferId l) of
                      None \<Rightarrow> st
                    | Some previous \<Rightarrow> if previous \<noteq> l then dispose previous st else st) in
         Inr (st1\<lparr>lc_leases := amap_set (ls_transferId l) l (lc_leases st1), lc_helloTimer := True\<rparr>)))"

definition releaseRecoveryLease :: "string \<Rightarrow> lease option \<Rightarrow> lifecycle \<Rightarrow> lifecycle" where
  "releaseRecoveryLease transferId owner st =
     (case lease_of st transferId of
        None \<Rightarrow> st
      | Some l \<Rightarrow>
          if owner \<noteq> None \<and> owner \<noteq> Some l then st
          else
            (let leases = amap_delete transferId (lc_leases st) in
             dispose l (st\<lparr>lc_leases := leases, lc_requestedEpoch := amap_delete transferId (lc_requestedEpoch st),
               lc_helloTimer := lc_helloTimer st \<and> leases \<noteq> []\<rparr>)))"

definition continueRecoveryLease ::
  "control_config \<Rightarrow> (nat \<Rightarrow> string) \<Rightarrow> string \<Rightarrow> lease option \<Rightarrow> lifecycle \<Rightarrow> lifecycle" where
  "continueRecoveryLease cf randomId transferId owner st =
     (case lease_of st transferId of
        None \<Rightarrow> st
      | Some l \<Rightarrow>
          if lc_closed st \<or> owner \<noteq> None \<and> owner \<noteq> Some l then st
          else
            (case map_of (lc_runtimeEpochs st) (transferShardId transferId (cg_shardCount cf)) of
               Some (runtimeEpoch, transportEpoch) \<Rightarrow>
                 recoverLease l (st\<lparr>lc_requestedEpoch :=
                   amap_set transferId (runtimeEpoch @ '':'' @ transportEpoch) (lc_requestedEpoch st)\<rparr>)
             | None \<Rightarrow>
                 recoverLease l (st\<lparr>lc_randoms := lc_randoms st + 1, lc_requestedEpoch :=
                   amap_set transferId (''foreground:'' @ randomId (lc_randoms st)) (lc_requestedEpoch st)\<rparr>)))"

definition request_recovery :: "string \<Rightarrow> lease \<Rightarrow> lifecycle \<Rightarrow> lifecycle" where
  "request_recovery epoch l st =
     recoverLease l (st\<lparr>lc_requestedEpoch := amap_set (ls_transferId l) epoch (lc_requestedEpoch st)\<rparr>)"

definition observeRuntimeEpoch :: "control_config \<Rightarrow> int \<Rightarrow> string \<Rightarrow> string \<Rightarrow> lifecycle \<Rightarrow> lifecycle" where
  "observeRuntimeEpoch cf shardId runtimeEpoch transportEpoch st =
     (if runtimeEpoch = [] \<or> transportEpoch = [] then st
      else
        (let st1 = st\<lparr>lc_runtimeEpochs := amap_set shardId (runtimeEpoch, transportEpoch) (lc_runtimeEpochs st)\<rparr> in
         case map_of (lc_runtimeEpochs st) shardId of
           None \<Rightarrow> st1
         | Some previous \<Rightarrow>
             if previous = (runtimeEpoch, transportEpoch) then st1
             else
               (let st2 = st1\<lparr>lc_capabilities := amap_delete shardId (lc_capabilities st1)\<rparr>;
                    st3 = (if fst previous \<noteq> runtimeEpoch then st2\<lparr>lc_authToken := None, lc_authTokenExpiresAt := 0\<rparr> else st2) in
                fold (\<lambda>l st. if transferShardId (ls_transferId l) (cg_shardCount cf) = shardId
                        then request_recovery (runtimeEpoch @ '':'' @ transportEpoch) l st else st)
                  (map snd (lc_leases st3)) st3)))"

definition set_phase :: "lease \<Rightarrow> phase \<Rightarrow> lifecycle \<Rightarrow> lifecycle" where
  "set_phase l ph st = st\<lparr>lc_operations := amap_set l ph (lc_operations st)\<rparr>"

text \<open>After a reconciliation or a replay: has another recovery been requested meanwhile?\<close>

definition check_again :: "lease \<Rightarrow> string option \<Rightarrow> lifecycle \<Rightarrow> lifecycle" where
  "check_again l requestedEpoch st =
     (if map_of (lc_requestedEpoch st) (ls_transferId l) \<noteq> requestedEpoch then loop_top l 0 st
      else set_phase l (Finished False) st)"

text \<open>The \<open>catch\<close> of the loop.\<close>

definition recovery_failed :: "lease \<Rightarrow> nat \<Rightarrow> lifecycle_error \<Rightarrow> lifecycle \<Rightarrow> lifecycle" where
  "recovery_failed l att e st =
     (if \<not> owns st l then set_phase l (Finished True) st
      else if \<not> isRetryableLifecycleError e then
        set_phase l (Finished False) (releaseRecoveryLease (ls_transferId l) (Some l) st)
      else set_phase l (Sleeping (att + 1)) st)"

definition recovery_delay :: "nat \<Rightarrow> int" where
  "recovery_delay att = min 30000 (500 * 2 ^ min att 6)"

text \<open>The answer to \<open>transfer.resume\<close>: its \<open>recovery\<close> and whether it says \<open>route_replay_required\<close>.\<close>

definition resume_answered :: "lease \<Rightarrow> lifecycle_error + string \<times> bool \<Rightarrow> lifecycle \<Rightarrow> lifecycle" where
  "resume_answered l answer st =
     (case map_of (lc_operations st) l of
        Some (Resuming epoch gen att) \<Rightarrow>
          (case answer of
             Inl e \<Rightarrow> recovery_failed l att e st
           | Inr (recovery, route_replay_required) \<Rightarrow>
               if \<not> owns st l then set_phase l (Finished True) st
               else if recovery = ''terminal'' then
                 set_phase l (Finished False) (releaseRecoveryLease (ls_transferId l) (Some l) st)
               else if route_replay_required \<or> recovery = ''route_replay_required'' then
                 set_phase l (Replaying epoch gen att) st
               else check_again l epoch st)
      | _ \<Rightarrow> st)"

definition replay_ended :: "lease \<Rightarrow> lifecycle_error + unit \<Rightarrow> lifecycle \<Rightarrow> lifecycle" where
  "replay_ended l answer st =
     (case map_of (lc_operations st) l of
        Some (Replaying epoch gen att) \<Rightarrow>
          (case answer of
             Inl e \<Rightarrow> recovery_failed l att e st
           | Inr _ \<Rightarrow> if \<not> owns st l then set_phase l (Finished True) st else check_again l epoch st)
      | _ \<Rightarrow> st)"

definition slept :: "lease \<Rightarrow> lifecycle \<Rightarrow> lifecycle" where
  "slept l st =
     (case map_of (lc_operations st) l of Some (Sleeping att) \<Rightarrow> loop_top l att st | _ \<Rightarrow> st)"

text \<open>The \<open>finally\<close> of the loop, with the hand-over to the lease that replaced this one.\<close>

definition settled :: "lease \<Rightarrow> lifecycle \<Rightarrow> lifecycle" where
  "settled l st =
     (case map_of (lc_operations st) l of
        Some (Finished replaced) \<Rightarrow>
          (let st1 = st\<lparr>lc_operations := amap_delete l (lc_operations st)\<rparr> in
           if \<not> replaced \<or> lc_closed st1 then st1
           else
             (case lease_of st1 (ls_transferId l) of
                None \<Rightarrow> st1
              | Some current \<Rightarrow> if current \<noteq> l then recoverLease current st1 else st1))
      | _ \<Rightarrow> st)"

definition close_control :: "lifecycle \<Rightarrow> lifecycle" where
  "close_control st =
     fold dispose (map snd (lc_leases st))
       (st\<lparr>lc_closed := True, lc_helloTimer := False, lc_leases := [], lc_requestedEpoch := []\<rparr>)"

subsection \<open>Events and runs\<close>

datatype lifecycle_event =
  Register lease
| Release string "lease option"
| Continue string "lease option"
| Epoch_seen int string string
| Resume_answered lease "lifecycle_error + string \<times> bool"
| Replay_ended lease "lifecycle_error + unit"
| Slept lease
| Settled lease
| Close_control

fun lifecycle_step :: "control_config \<Rightarrow> (nat \<Rightarrow> string) \<Rightarrow> lifecycle_event \<Rightarrow> lifecycle \<Rightarrow> lifecycle" where
  "lifecycle_step cf randomId (Register l) st = (case registerRecoveryLease l st of Inl _ \<Rightarrow> st | Inr st' \<Rightarrow> st')"
| "lifecycle_step cf randomId (Release t owner) st = releaseRecoveryLease t owner st"
| "lifecycle_step cf randomId (Continue t owner) st = continueRecoveryLease cf randomId t owner st"
| "lifecycle_step cf randomId (Epoch_seen shard re te) st = observeRuntimeEpoch cf shard re te st"
| "lifecycle_step cf randomId (Resume_answered l a) st = resume_answered l a st"
| "lifecycle_step cf randomId (Replay_ended l a) st = replay_ended l a st"
| "lifecycle_step cf randomId (Slept l) st = slept l st"
| "lifecycle_step cf randomId (Settled l) st = settled l st"
| "lifecycle_step cf randomId Close_control st = close_control st"

subsection \<open>What the loop leaves alone\<close>

text \<open>The loop changes nothing but the running loops and the supply of random identifiers.\<close>

definition same_leases :: "lifecycle \<Rightarrow> lifecycle \<Rightarrow> bool" where
  "same_leases st st' \<longleftrightarrow> lc_closed st' = lc_closed st \<and> lc_leases st' = lc_leases st
     \<and> lc_requestedEpoch st' = lc_requestedEpoch st \<and> lc_helloTimer st' = lc_helloTimer st
     \<and> lc_disposed st' = lc_disposed st"

named_theorems loop_facts \<open>what the steps of the recovery loop keep\<close>

lemma same_leases_refl [simp]: "same_leases st st"
  by (simp add: same_leases_def)

lemma same_leases_owns: "same_leases st st' \<Longrightarrow> owns st' l = owns st l"
  by (simp add: same_leases_def owns_def lease_of_def)

lemma same_leases_trans: "same_leases st st1 \<Longrightarrow> same_leases st1 st2 \<Longrightarrow> same_leases st st2"
  by (simp add: same_leases_def)

lemma same_leases_loop_top [loop_facts]: "same_leases st (loop_top l att st)"
  by (simp add: same_leases_def loop_top_def)

lemma same_leases_recoverLease [loop_facts]: "same_leases st (recoverLease l st)"
  by (simp add: recoverLease_def loop_facts)

lemma same_leases_set_phase [loop_facts]: "same_leases st (set_phase l ph st)"
  by (simp add: same_leases_def set_phase_def)

lemma same_leases_check_again [loop_facts]: "same_leases st (check_again l epoch st)"
  by (simp add: check_again_def loop_facts)

lemma same_leases_slept [loop_facts]: "same_leases st (slept l st)"
  by (simp add: slept_def loop_facts split: option.splits phase.splits)

lemma same_leases_settled [loop_facts]: "same_leases st (settled l st)"
proof -
  let ?st = "st\<lparr>lc_operations := amap_delete l (lc_operations st)\<rparr>"
  have "same_leases st ?st" by (simp add: same_leases_def)
  moreover have "same_leases ?st (recoverLease c ?st)" for c by (rule loop_facts)
  ultimately have "same_leases st (recoverLease c ?st)" for c by (blast intro: same_leases_trans)
  with \<open>same_leases st ?st\<close> show ?thesis
    by (auto simp: settled_def Let_def split: option.splits phase.splits)
qed

text \<open>What a fenced-off owner does, and what the rest does for it.\<close>

lemma same_leases_recovery_failed: "\<not> owns st l \<Longrightarrow> same_leases st (recovery_failed l att e st)"
  by (simp add: recovery_failed_def loop_facts)

lemma same_leases_resume_answered: "\<not> owns st l \<Longrightarrow> same_leases st (resume_answered l a st)"
  by (simp add: resume_answered_def same_leases_recovery_failed loop_facts split: option.splits phase.splits sum.splits prod.splits)

lemma same_leases_replay_ended: "\<not> owns st l \<Longrightarrow> same_leases st (replay_ended l a st)"
  by (simp add: replay_ended_def same_leases_recovery_failed loop_facts split: option.splits phase.splits sum.splits)

lemma same_leases_release: "lease_of st t \<noteq> Some l \<Longrightarrow> same_leases st (releaseRecoveryLease t (Some l) st)"
  by (auto simp: releaseRecoveryLease_def split: option.splits)

lemma same_leases_continue: "lease_of st t \<noteq> Some l \<Longrightarrow> continueRecoveryLease cf rnd t (Some l) st = st"
  by (auto simp: continueRecoveryLease_def split: option.splits)

text \<open>The events an owner causes: the steps of its loop, and the calls of its client that name it.\<close>

fun caused_by :: "lease \<Rightarrow> lifecycle_event \<Rightarrow> bool" where
  "caused_by l (Release t owner) \<longleftrightarrow> owner = Some l \<and> t = ls_transferId l"
| "caused_by l (Continue t owner) \<longleftrightarrow> owner = Some l \<and> t = ls_transferId l"
| "caused_by l (Resume_answered l' _) \<longleftrightarrow> l' = l"
| "caused_by l (Replay_ended l' _) \<longleftrightarrow> l' = l"
| "caused_by l (Slept l') \<longleftrightarrow> l' = l"
| "caused_by l (Settled l') \<longleftrightarrow> l' = l"
| "caused_by l _ \<longleftrightarrow> False"

text \<open>
  C27. A fenced-off owner is harmless. Once another lease is registered for its transfer, or none, nothing an owner
  causes (its loop's answers, failures, replays and ends, its client's releases and continuations) removes or replaces
  a lease, wipes its secrets, changes the recovery requested for a transfer or stops the monitor.
\<close>

theorem fenced_owner_harmless:
  assumes "lease_of st (ls_transferId l) \<noteq> Some l" and "caused_by l ev"
  shows "same_leases st (lifecycle_step cf rnd ev st)"
proof -
  from assms(1) have "\<not> owns st l" by (simp add: owns_def)
  with assms show ?thesis
    by (cases ev) (auto simp: same_leases_release same_leases_continue same_leases_resume_answered same_leases_replay_ended loop_facts)
qed

definition demo_lease :: "nat \<Rightarrow> lease" where
  "demo_lease n = \<lparr>ls_owner = n, ls_transferId = ''t1'', ls_planFingerprint = ''fp'', ls_coordinateChecksum = ''cs''\<rparr>"

definition demo_config :: control_config where
  "demo_config = \<lparr>ci_environment = ''prod'', ci_keyPrefix = ''b1m_live_abc'', ci_maxPayloadBytes = 1048576,
     cg_subjectPrefix = ''beam.transfer.client'', cg_shardCount = 1, cg_natsUrl = ''tls://gateway:4222''\<rparr>"

definition demo_run :: "lifecycle_event list \<Rightarrow> lifecycle" where
  "demo_run es = fold (lifecycle_step demo_config (\<lambda>n. ''r'')) es new_lifecycle"

theorem fenced_owner_harmless_witness:
  "let st = demo_run [Register (demo_lease 1), Continue ''t1'' None, Register (demo_lease 2)] in
   lease_of st ''t1'' = Some (demo_lease 2) \<and> same_leases st (lifecycle_step demo_config (\<lambda>n. ''r'')
     (Resume_answered (demo_lease 1) (Inr (''terminal'', False))) st)"
proof -
  let ?st = "demo_run [Register (demo_lease 1), Continue ''t1'' None, Register (demo_lease 2)]"
  have st: "lease_of ?st ''t1'' = Some (demo_lease 2)" by code_simp
  have "same_leases ?st (lifecycle_step demo_config (\<lambda>n. ''r'') (Resume_answered (demo_lease 1) (Inr (''terminal'', False))) ?st)"
  proof (rule fenced_owner_harmless)
    from st show "lease_of ?st (ls_transferId (demo_lease 1)) \<noteq> Some (demo_lease 1)" by (simp add: demo_lease_def)
  qed simp
  with st show ?thesis by (simp add: Let_def)
qed

subsection \<open>Every run keeps the leases in order\<close>

text \<open>
  A client registers a lease it has not had wiped. The registrations a run accepted are those made before it was closed.
\<close>

fun admissible :: "lifecycle \<Rightarrow> lifecycle_event \<Rightarrow> bool" where
  "admissible st (Register l) \<longleftrightarrow> l \<notin> set (lc_disposed st)"
| "admissible st _ \<longleftrightarrow> True"

inductive reaches :: "control_config \<Rightarrow> (nat \<Rightarrow> string) \<Rightarrow> lifecycle_event list \<Rightarrow> lifecycle \<Rightarrow> bool"
  for cf :: control_config and randomId :: "nat \<Rightarrow> string" where
  start: "reaches cf randomId [] new_lifecycle"
| event: "reaches cf randomId es st \<Longrightarrow> admissible st ev \<Longrightarrow>
    reaches cf randomId (es @ [ev]) (lifecycle_step cf randomId ev st)"

fun registered_in :: "lifecycle_event list \<Rightarrow> lease list" where
  "registered_in [] = []"
| "registered_in (Close_control # es) = []"
| "registered_in (Register l # es) = l # registered_in es"
| "registered_in (ev # es) = registered_in es"

lemma registered_in_snoc:
  "registered_in (es @ [ev]) = registered_in es
    @ (if Close_control \<in> set es then [] else case ev of Register l \<Rightarrow> [l] | _ \<Rightarrow> [])"
  by (induction es rule: registered_in.induct) (simp_all split: lifecycle_event.splits)

text \<open>
  The shape of the state: keys are unique, a lease stands under its own transfer, a recovery is requested only for a
  transfer with a lease, the monitor runs exactly while there is a lease to watch, and a closed control has none.
\<close>

definition lifecycle_wf :: "lifecycle \<Rightarrow> bool" where
  "lifecycle_wf st \<longleftrightarrow> distinct (map fst (lc_leases st)) \<and> distinct (map fst (lc_requestedEpoch st))
     \<and> distinct (map fst (lc_operations st))
     \<and> (\<forall>t l. lease_of st t = Some l \<longrightarrow> ls_transferId l = t)
     \<and> dom (map_of (lc_requestedEpoch st)) \<subseteq> dom (lease_of st)
     \<and> (lc_helloTimer st \<longleftrightarrow> lc_leases st \<noteq> [])
     \<and> (lc_closed st \<longrightarrow> lc_leases st = [])"

text \<open>Which leases are held and which are wiped, against those a run accepted.\<close>

definition held :: "lifecycle \<Rightarrow> lease set" where
  "held st = ran (lease_of st)"

definition accounted :: "lease set \<Rightarrow> lifecycle \<Rightarrow> bool" where
  "accounted L st \<longleftrightarrow> held st \<inter> set (lc_disposed st) = {} \<and> held st \<union> set (lc_disposed st) = L"

text \<open>The keys of the running loops stay unique.\<close>

lemma loop_top_operations: "distinct (map fst (lc_operations st)) \<Longrightarrow> distinct (map fst (lc_operations (loop_top l att st)))"
  by (simp add: loop_top_def)

lemma recoverLease_operations: "distinct (map fst (lc_operations st)) \<Longrightarrow> distinct (map fst (lc_operations (recoverLease l st)))"
  by (simp add: recoverLease_def loop_top_operations)

lemma set_phase_operations [simp]:
  "distinct (map fst (lc_operations st)) \<Longrightarrow> distinct (map fst (lc_operations (set_phase l ph st)))"
  by (simp add: set_phase_def)

lemma check_again_operations: "distinct (map fst (lc_operations st)) \<Longrightarrow> distinct (map fst (lc_operations (check_again l ep st)))"
  by (simp add: check_again_def loop_top_operations)

lemma same_leases_wf:
  "same_leases st st' \<Longrightarrow> distinct (map fst (lc_operations st')) \<Longrightarrow> lifecycle_wf st \<Longrightarrow> lifecycle_wf st'"
  by (simp add: same_leases_def lifecycle_wf_def lease_of_def)

lemma same_leases_accounted: "same_leases st st' \<Longrightarrow> accounted L st \<Longrightarrow> accounted L st'"
  by (simp add: same_leases_def accounted_def held_def lease_of_def)

lemma amap_set_not_Nil [simp]: "amap_set k v m \<noteq> []"
  by (cases m) (auto simp: prod.case_eq_if split: prod.splits if_splits)

lemma ran_upd_None:
  assumes "\<And>t l. m t = Some l \<Longrightarrow> f l = t" and "m t = Some l"
  shows "ran (m(t := None)) = ran m - {l}"
proof (intro set_eqI iffI)
  fix x assume "x \<in> ran (m(t := None))"
  then obtain a where a: "m a = Some x" "a \<noteq> t" by (auto simp: ran_def split: if_splits)
  with assms(1) [OF a(1)] assms(1) [OF assms(2)] show "x \<in> ran m - {l}" by (auto simp: ran_def)
next
  fix x assume "x \<in> ran m - {l}"
  then obtain a where "m a = Some x" "x \<noteq> l" by (auto simp: ran_def)
  with assms(2) have "(m(t := None)) a = Some x" by auto
  then show "x \<in> ran (m(t := None))" by (rule ranI)
qed

lemma amap_delete_Nil [simp]: "amap_delete k [] = []"
  by (simp add: amap_delete_def)

lemma held_iff: "lifecycle_wf st \<Longrightarrow> l \<in> held st \<longleftrightarrow> lease_of st (ls_transferId l) = Some l"
  by (auto simp: held_def lifecycle_wf_def ran_def)

text \<open>Releasing a lease.\<close>

lemma lease_of_release:
  assumes "lease_of st t = Some l" and "owner = None \<or> owner = Some l"
  shows "lease_of (releaseRecoveryLease t owner st) = (lease_of st)(t := None)"
  using assms by (auto simp: releaseRecoveryLease_def lease_of_def dispose_def Let_def)

lemma release_wf:
  assumes "lifecycle_wf st"
  shows "lifecycle_wf (releaseRecoveryLease t owner st)"
proof (cases "lease_of st t = None \<or> owner \<noteq> None \<and> owner \<noteq> lease_of st t")
  case True
  then have "releaseRecoveryLease t owner st = st" by (auto simp: releaseRecoveryLease_def split: option.splits)
  with assms show ?thesis by simp
next
  case False
  then obtain l where l: "lease_of st t = Some l" "owner = None \<or> owner = Some l" by (auto simp: not_None_eq)
  with assms show ?thesis
    unfolding lifecycle_wf_def lease_of_release [OF l]
    by (auto simp: releaseRecoveryLease_def dispose_def Let_def)
qed

lemma held_release:
  assumes "lifecycle_wf st" and "lease_of st t = Some l" and "owner = None \<or> owner = Some l"
  shows "held (releaseRecoveryLease t owner st) = held st - {l}"
  unfolding held_def lease_of_release [OF assms(2,3)]
  by (rule ran_upd_None [where f = ls_transferId]) (use assms(1,2) in \<open>auto simp: lifecycle_wf_def\<close>)

lemma release_accounted:
  assumes "lifecycle_wf st" and "accounted L st"
  shows "accounted L (releaseRecoveryLease t owner st)"
proof (cases "lease_of st t = None \<or> owner \<noteq> None \<and> owner \<noteq> lease_of st t")
  case True
  then have "releaseRecoveryLease t owner st = st" by (auto simp: releaseRecoveryLease_def split: option.splits)
  with assms show ?thesis by simp
next
  case False
  then obtain l where l: "lease_of st t = Some l" "owner = None \<or> owner = Some l" by (auto simp: not_None_eq)
  then have "l \<in> held st" by (auto simp: held_def ran_def)
  moreover from l have "lc_disposed (releaseRecoveryLease t owner st) = lc_disposed st @ [l]"
    by (auto simp: releaseRecoveryLease_def dispose_def Let_def)
  ultimately show ?thesis using assms(2) held_release [OF assms(1) l]
    by (auto simp: accounted_def)
qed

text \<open>Registering, requesting a recovery, observing an epoch, closing.\<close>

lemma register_cases:
  assumes "registerRecoveryLease l st = Inr st'" and "lifecycle_wf st" and "l \<notin> set (lc_disposed st)" and "accounted L st"
  shows "lifecycle_wf st' \<and> accounted (insert l L) st'"
proof -
  define D where "D = (case lease_of st (ls_transferId l) of None \<Rightarrow> [] | Some p \<Rightarrow> if p \<noteq> l then [p] else [])"
  from assms(1) have open_: "\<not> lc_closed st" and st': "st' = st\<lparr>lc_disposed := lc_disposed st @ D,
      lc_leases := amap_set (ls_transferId l) l (lc_leases st), lc_helloTimer := True\<rparr>"
    by (auto simp: registerRecoveryLease_def dispose_def Let_def D_def split: if_splits option.splits)
  have leases: "lease_of st' = (lease_of st)(ls_transferId l \<mapsto> l)" by (simp add: st' lease_of_def)
  from assms(2) open_ have wf: "lifecycle_wf st'"
    unfolding lifecycle_wf_def leases by (auto simp: st')
  have gone: "set (lc_disposed st') = set (lc_disposed st) \<union> ({p. lease_of st (ls_transferId l) = Some p} - {l})"
    by (auto simp: st' D_def split: option.splits)
  have now: "held st' = insert l (held st - {p. lease_of st (ls_transferId l) = Some p})"
  proof (rule set_eqI)
    fix x
    from assms(2) have "ls_transferId p = ls_transferId l" if "lease_of st (ls_transferId l) = Some p" for p
      using that by (auto simp: lifecycle_wf_def)
    then show "x \<in> held st' \<longleftrightarrow> x \<in> insert l (held st - {p. lease_of st (ls_transferId l) = Some p})"
      by (cases "ls_transferId x = ls_transferId l") (auto simp: held_iff [OF wf] held_iff [OF assms(2)] leases)
  qed
  have "{p. lease_of st (ls_transferId l) = Some p} \<subseteq> held st" by (auto simp: held_def ran_def)
  then have "accounted (insert l L) st'"
    using assms(3,4) unfolding accounted_def now gone by blast
  with wf show ?thesis ..
qed

lemma recoverLease_wf: "lifecycle_wf st \<Longrightarrow> lifecycle_wf (recoverLease l st)"
  by (rule same_leases_wf [OF same_leases_recoverLease recoverLease_operations]) (simp_all add: lifecycle_wf_def)

lemma recoverLease_accounted: "accounted L st \<Longrightarrow> accounted L (recoverLease l st)"
  by (rule same_leases_accounted [OF same_leases_recoverLease])

lemma request_wf:
  assumes "lifecycle_wf st" and "lease_of st t \<noteq> None" and "accounted L st"
  shows "lifecycle_wf (recoverLease l (st\<lparr>lc_requestedEpoch := amap_set t e (lc_requestedEpoch st)\<rparr>))
    \<and> accounted L (recoverLease l (st\<lparr>lc_requestedEpoch := amap_set t e (lc_requestedEpoch st)\<rparr>))"
proof -
  let ?st = "st\<lparr>lc_requestedEpoch := amap_set t e (lc_requestedEpoch st)\<rparr>"
  from assms(1,2) have "lifecycle_wf ?st" by (auto simp: lifecycle_wf_def lease_of_def)
  moreover from assms(3) have "accounted L ?st" by (simp add: accounted_def held_def lease_of_def)
  ultimately show ?thesis by (simp add: recoverLease_wf recoverLease_accounted)
qed

lemma lc_leases_request [simp]: "lc_leases (request_recovery e l st) = lc_leases st"
  using same_leases_recoverLease [of "st\<lparr>lc_requestedEpoch := amap_set (ls_transferId l) e (lc_requestedEpoch st)\<rparr>" l]
  by (simp add: request_recovery_def same_leases_def)

lemma observe_wf:
  assumes "lifecycle_wf st" and "accounted L st"
  shows "lifecycle_wf (observeRuntimeEpoch cf shard re te st) \<and> accounted L (observeRuntimeEpoch cf shard re te st)"
proof -
  let ?f = "\<lambda>l st. if transferShardId (ls_transferId l) (cg_shardCount cf) = shard
                   then request_recovery (re @ '':'' @ te) l st else st"
  have run: "lifecycle_wf st0 \<Longrightarrow> accounted L st0 \<Longrightarrow> \<forall>l \<in> set ls. lease_of st0 (ls_transferId l) \<noteq> None \<Longrightarrow>
    lifecycle_wf (fold ?f ls st0) \<and> accounted L (fold ?f ls st0)" for ls st0
  proof (induction ls arbitrary: st0)
    case (Cons l ls)
    then have "lifecycle_wf (?f l st0) \<and> accounted L (?f l st0)"
      using request_wf [of st0 "ls_transferId l" L l] by (simp add: request_recovery_def)
    moreover from Cons.prems(3) have "\<forall>l' \<in> set ls. lease_of (?f l st0) (ls_transferId l') \<noteq> None"
      by (simp add: lease_of_def)
    ultimately show ?case using Cons.IH by simp
  qed simp
  have upd: "lifecycle_wf (st\<lparr>lc_runtimeEpochs := m, lc_capabilities := c, lc_authToken := a, lc_authTokenExpiresAt := x\<rparr>)
      \<and> accounted L (st\<lparr>lc_runtimeEpochs := m, lc_capabilities := c, lc_authToken := a, lc_authTokenExpiresAt := x\<rparr>)" for m c a x
    using assms by (simp add: lifecycle_wf_def accounted_def held_def lease_of_def)
  have all: "\<forall>l \<in> set (map snd (lc_leases st)). lease_of st (ls_transferId l) \<noteq> None"
    using assms(1) by (auto simp: lifecycle_wf_def lease_of_def map_of_eq_None_iff intro!: rev_image_eqI)
  show ?thesis
    unfolding observeRuntimeEpoch_def Let_def
    using assms upd [where m = "amap_set shard (re, te) (lc_runtimeEpochs st)" and c = "lc_capabilities st"
        and a = "lc_authToken st" and x = "lc_authTokenExpiresAt st"]
      upd [where m = "amap_set shard (re, te) (lc_runtimeEpochs st)" and c = "amap_delete shard (lc_capabilities st)"
        and a = "lc_authToken st" and x = "lc_authTokenExpiresAt st"]
      upd [where m = "amap_set shard (re, te) (lc_runtimeEpochs st)" and c = "amap_delete shard (lc_capabilities st)"
        and a = None and x = 0]
    by (auto split: option.splits intro!: run [THEN conjunct1] run [THEN conjunct2] simp: lease_of_def)
      (use all in \<open>force simp: lease_of_def\<close>)+
qed

lemma continue_wf:
  assumes "lifecycle_wf st" and "accounted L st"
  shows "lifecycle_wf (continueRecoveryLease cf rnd t owner st) \<and> accounted L (continueRecoveryLease cf rnd t owner st)"
proof (cases "lease_of st t")
  case None
  with assms show ?thesis by (simp add: continueRecoveryLease_def)
next
  case (Some l)
  have "lifecycle_wf (st\<lparr>lc_randoms := n\<rparr>) \<and> accounted L (st\<lparr>lc_randoms := n\<rparr>) \<and> lease_of (st\<lparr>lc_randoms := n\<rparr>) t = Some l" for n
    using assms Some by (simp add: lifecycle_wf_def accounted_def held_def lease_of_def)
  then have "lifecycle_wf (recoverLease l (st\<lparr>lc_randoms := n, lc_requestedEpoch := amap_set t e (lc_requestedEpoch st)\<rparr>))
      \<and> accounted L (recoverLease l (st\<lparr>lc_randoms := n, lc_requestedEpoch := amap_set t e (lc_requestedEpoch st)\<rparr>))" for e n
    using request_wf [of "st\<lparr>lc_randoms := n\<rparr>" t L l e] by simp
  moreover have "st\<lparr>lc_randoms := lc_randoms st\<rparr> = st" by simp
  ultimately show ?thesis using assms Some request_wf [OF assms(1) _ assms(2), of t l]
    by (simp add: continueRecoveryLease_def split: option.splits)
qed

lemma close_wf:
  assumes "lifecycle_wf st" and "accounted L st"
  shows "lifecycle_wf (close_control st) \<and> accounted L (close_control st)"
proof -
  have "fold dispose ls st0 = st0\<lparr>lc_disposed := lc_disposed st0 @ ls\<rparr>" for ls st0
    by (induction ls arbitrary: st0) (simp_all add: dispose_def)
  then have close: "close_control st = st\<lparr>lc_closed := True, lc_helloTimer := False, lc_leases := [], lc_requestedEpoch := [],
      lc_disposed := lc_disposed st @ map snd (lc_leases st)\<rparr>" by (simp add: close_control_def)
  from assms(1) have "held st = snd ` set (lc_leases st)"
    by (auto simp: held_def lease_of_def lifecycle_wf_def ran_distinct)
  with assms show ?thesis by (auto simp: close lifecycle_wf_def accounted_def held_def lease_of_def)
qed

text \<open>The loop's own steps.\<close>

lemma slept_wf: "lifecycle_wf st \<Longrightarrow> lifecycle_wf (slept l st)"
  by (rule same_leases_wf [OF same_leases_slept])
    (auto simp: slept_def lifecycle_wf_def loop_top_operations split: option.splits phase.splits)

lemma settled_wf: "lifecycle_wf st \<Longrightarrow> lifecycle_wf (settled l st)"
  by (rule same_leases_wf [OF same_leases_settled])
    (auto simp: settled_def Let_def lifecycle_wf_def recoverLease_operations split: option.splits phase.splits)

lemma set_phase_wf: "lifecycle_wf st \<Longrightarrow> lifecycle_wf (set_phase l ph st)"
  by (rule same_leases_wf [OF same_leases_set_phase]) (simp_all add: lifecycle_wf_def)

lemma check_again_wf: "lifecycle_wf st \<Longrightarrow> lifecycle_wf (check_again l ep st)"
  by (rule same_leases_wf [OF same_leases_check_again check_again_operations]) (simp_all add: lifecycle_wf_def)

lemma failed_wf:
  "lifecycle_wf st \<Longrightarrow> accounted L st \<Longrightarrow>
   lifecycle_wf (recovery_failed l att e st) \<and> accounted L (recovery_failed l att e st)"
  by (auto simp: recovery_failed_def intro!: set_phase_wf release_wf release_accounted same_leases_accounted [OF same_leases_set_phase])

lemma answered_wf:
  "lifecycle_wf st \<Longrightarrow> accounted L st \<Longrightarrow>
   lifecycle_wf (resume_answered l a st) \<and> accounted L (resume_answered l a st)"
  by (auto simp: resume_answered_def failed_wf intro!: set_phase_wf release_wf check_again_wf release_accounted
      same_leases_accounted [OF same_leases_set_phase] same_leases_accounted [OF same_leases_check_again]
      split: option.splits phase.splits sum.splits)

lemma replayed_wf:
  "lifecycle_wf st \<Longrightarrow> accounted L st \<Longrightarrow>
   lifecycle_wf (replay_ended l a st) \<and> accounted L (replay_ended l a st)"
  by (auto simp: replay_ended_def failed_wf intro!: set_phase_wf check_again_wf
      same_leases_accounted [OF same_leases_set_phase] same_leases_accounted [OF same_leases_check_again]
      split: option.splits phase.splits sum.splits)

text \<open>Only closing closes.\<close>

lemma lc_closed_recoverLease [simp]: "lc_closed (recoverLease l st) = lc_closed st"
  using same_leases_recoverLease [of st l] by (simp add: same_leases_def)

lemma lc_closed_loop [simp]:
  "lc_closed (loop_top l att st) = lc_closed st" "lc_closed (set_phase l ph st) = lc_closed st"
  "lc_closed (check_again l ep st) = lc_closed st" "lc_closed (releaseRecoveryLease t owner st) = lc_closed st"
  "lc_closed (dispose l st) = lc_closed st" "lc_closed (request_recovery e l st) = lc_closed st"
  by (simp_all add: loop_top_def set_phase_def check_again_def releaseRecoveryLease_def dispose_def request_recovery_def Let_def
      split: option.splits)

lemma lc_closed_observe [simp]: "lc_closed (observeRuntimeEpoch cf shard re te st) = lc_closed st"
proof -
  have "lc_closed (fold (\<lambda>l st. if P l then request_recovery e l st else st) ls st0) = lc_closed st0" for P e ls st0
    by (induction ls arbitrary: st0) simp_all
  then show ?thesis by (simp add: observeRuntimeEpoch_def Let_def split: option.splits)
qed

lemma lc_closed_close [simp]: "lc_closed (close_control st)"
proof -
  have "lc_closed (fold dispose ls st0) = lc_closed st0" for ls st0 by (induction ls arbitrary: st0) simp_all
  then show ?thesis by (simp add: close_control_def)
qed

lemma step_closed: "lc_closed (lifecycle_step cf rnd ev st) \<longleftrightarrow> lc_closed st \<or> ev = Close_control"
  by (cases ev) (auto simp: registerRecoveryLease_def continueRecoveryLease_def resume_answered_def replay_ended_def recovery_failed_def
      slept_def settled_def Let_def dispose_def split: option.splits phase.splits sum.splits)

lemma step_wf:
  assumes "lifecycle_wf st" and "accounted L st" and "admissible st ev"
  shows "lifecycle_wf (lifecycle_step cf rnd ev st)
    \<and> accounted (L \<union> (if lc_closed st then {} else case ev of Register l \<Rightarrow> {l} | _ \<Rightarrow> {})) (lifecycle_step cf rnd ev st)"
proof (cases ev)
  case (Register l)
  show ?thesis
  proof (cases "registerRecoveryLease l st")
    case (Inl e)
    then have "lc_closed st" by (auto simp: registerRecoveryLease_def Let_def split: if_splits)
    with assms Register Inl show ?thesis by simp
  next
    case (Inr st')
    then have "\<not> lc_closed st" by (auto simp: registerRecoveryLease_def)
    with register_cases [OF Inr assms(1) _ assms(2)] assms(3) Register Inr show ?thesis by simp
  qed
qed (use assms in \<open>simp_all add: release_wf release_accounted continue_wf observe_wf answered_wf replayed_wf slept_wf settled_wf close_wf
      same_leases_accounted [OF same_leases_slept] same_leases_accounted [OF same_leases_settled]\<close>)

lemma reaches_inv:
  assumes "reaches cf rnd es st"
  shows "lifecycle_wf st \<and> accounted (set (registered_in es)) st \<and> (lc_closed st \<longleftrightarrow> Close_control \<in> set es)"
  using assms
proof (induction rule: reaches.induct)
  case start
  show ?case by (simp add: new_lifecycle_def lifecycle_wf_def accounted_def held_def lease_of_def)
next
  case (event es st ev)
  then have wf: "lifecycle_wf st" and acc: "accounted (set (registered_in es)) st" and cl: "lc_closed st \<longleftrightarrow> Close_control \<in> set es"
    by simp_all
  have "set (registered_in es) \<union> (if lc_closed st then {} else case ev of Register l \<Rightarrow> {l} | _ \<Rightarrow> {}) = set (registered_in (es @ [ev]))"
    by (simp add: registered_in_snoc cl split: lifecycle_event.splits)
  with step_wf [OF wf acc event.hyps(2), of cf rnd] cl show ?case by (auto simp: step_closed)
qed

text \<open>
  C26. A client's secrets live exactly as long as its registration. After any run every lease a client ever registered is
  either the one held for its transfer or has had its secrets wiped, never both and never neither; after closing, all
  are wiped.
\<close>

theorem secrets_live_while_registered:
  assumes "reaches cf rnd es st" and "l \<in> set (registered_in es)"
  shows "(lease_of st (ls_transferId l) = Some l) \<noteq> (l \<in> set (lc_disposed st))
    \<and> (Close_control \<in> set es \<longrightarrow> l \<in> set (lc_disposed st))"
proof -
  from reaches_inv [OF assms(1)] have wf: "lifecycle_wf st" and acc: "accounted (set (registered_in es)) st"
    and cl: "Close_control \<in> set es \<Longrightarrow> lc_leases st = []" by (auto simp: lifecycle_wf_def)
  from acc assms(2) have "(l \<in> held st) \<noteq> (l \<in> set (lc_disposed st))" by (auto simp: accounted_def)
  with cl show ?thesis by (auto simp: held_iff [OF wf] lease_of_def)
qed

text \<open>
  C33. The control's state has its shape in every run: keys are unique, a lease stands under its own transfer, a recovery is
  requested only for a transfer with a lease, the monitor of the runtime runs exactly while there is a lease to watch,
  and a closed control holds none.
\<close>

theorem lifecycle_state_well_formed:
  assumes "reaches cf rnd es st"
  shows "lifecycle_wf st"
  using reaches_inv [OF assms] by blast

lemma demo_reaches:
  "reaches demo_config (\<lambda>n. ''r'') es (demo_run es) \<Longrightarrow> admissible (demo_run es) ev \<Longrightarrow>
   reaches demo_config (\<lambda>n. ''r'') (es @ [ev]) (demo_run (es @ [ev]))"
  using reaches.event [of demo_config "\<lambda>n. ''r''" es "demo_run es" ev] by (simp add: demo_run_def)

lemma demo_reaches_two:
  "reaches demo_config (\<lambda>n. ''r'') [Register (demo_lease 1), Register (demo_lease 2)]
     (demo_run [Register (demo_lease 1), Register (demo_lease 2)])"
proof -
  have "reaches demo_config (\<lambda>n. ''r'') [] (demo_run [])" using reaches.start by (simp add: demo_run_def)
  from demo_reaches [OF this, of "Register (demo_lease 1)"]
  have "reaches demo_config (\<lambda>n. ''r'') [Register (demo_lease 1)] (demo_run [Register (demo_lease 1)])"
    by (simp add: demo_run_def new_lifecycle_def)
  moreover have "admissible (demo_run [Register (demo_lease 1)]) (Register (demo_lease 2))" by code_simp
  ultimately show ?thesis
    using demo_reaches [of "[Register (demo_lease 1)]" "Register (demo_lease 2)"] by simp
qed

theorem lifecycle_state_well_formed_witness:
  "lifecycle_wf (demo_run [Register (demo_lease 1), Register (demo_lease 2)])"
  by (rule lifecycle_state_well_formed [OF demo_reaches_two])

theorem secrets_live_while_registered_witness:
  "let st = demo_run [Register (demo_lease 1), Register (demo_lease 2)] in
   demo_lease 1 \<in> set (lc_disposed st)
   \<and> (lease_of st ''t1'' = Some (demo_lease 2)) \<noteq> (demo_lease 2 \<in> set (lc_disposed st))"
proof -
  let ?es = "[Register (demo_lease 1), Register (demo_lease 2)]"
  have "(lease_of (demo_run ?es) (ls_transferId (demo_lease 2)) = Some (demo_lease 2)) \<noteq> (demo_lease 2 \<in> set (lc_disposed (demo_run ?es)))"
    using secrets_live_while_registered [OF demo_reaches_two, of "demo_lease 2"] by simp
  moreover have "demo_lease 1 \<in> set (lc_disposed (demo_run ?es))" by code_simp
  ultimately show ?thesis by (simp add: Let_def demo_lease_def)
qed

subsection \<open>A requested recovery is driven\<close>

text \<open>A loop at work, the epoch it read when it sent its resume request, and what it does with a request.\<close>

fun at_work :: "phase \<Rightarrow> bool" where
  "at_work (Finished _) \<longleftrightarrow> False"
| "at_work _ \<longleftrightarrow> True"

fun read_epoch :: "phase \<Rightarrow> string option option" where
  "read_epoch (Resuming epoch _ _) = Some epoch"
| "read_epoch (Replaying epoch _ _) = Some epoch"
| "read_epoch _ = None"

definition phase_of :: "lifecycle \<Rightarrow> lease \<Rightarrow> phase option" where
  "phase_of st l = map_of (lc_operations st) l"

text \<open>The runtime's answers that are no reason to stop: reconciling, or a replay to do.\<close>

fun carries_on :: "lifecycle_event \<Rightarrow> bool" where
  "carries_on (Resume_answered _ (Inr (recovery, _))) \<longleftrightarrow> recovery \<noteq> ''terminal''"
| "carries_on (Resume_answered _ (Inl e)) \<longleftrightarrow> isRetryableLifecycleError e"
| "carries_on (Replay_ended _ (Inl e)) \<longleftrightarrow> isRetryableLifecycleError e"
| "carries_on _ \<longleftrightarrow> True"

lemma phase_of_set_phase [simp]: "phase_of (set_phase l ph st) = (phase_of st)(l \<mapsto> ph)"
  by (simp add: phase_of_def set_phase_def fun_eq_iff)

lemma phase_of_loop_top:
  "phase_of (loop_top l att st) = (phase_of st)(l \<mapsto> if owns st l
     then Resuming (map_of (lc_requestedEpoch st) (ls_transferId l)) (lc_randoms st) att else Finished (\<not> lc_closed st))"
  by (simp add: phase_of_def loop_top_def fun_eq_iff)

lemma phase_of_check_again:
  "owns st l \<Longrightarrow> phase_of (check_again l epoch st) l =
     Some (if map_of (lc_requestedEpoch st) (ls_transferId l) \<noteq> epoch
           then Resuming (map_of (lc_requestedEpoch st) (ls_transferId l)) (lc_randoms st) 0 else Finished False)"
  by (simp add: check_again_def phase_of_loop_top)

text \<open>
  C28. A loop never stops on a stale epoch. While its lease is held, a loop at work that gets an answer, ends a replay or
  wakes up stays at work, or it stops because the recovery that is requested at that moment is the one it has just
  carried out (the epoch it read before its resume request). Only a terminal transfer or a permanent error ends it
  otherwise.
\<close>

theorem recovery_follows_last_request:
  assumes "owns st l" and "phase_of st l = Some ph" and "at_work ph" and "caused_by l ev" and "carries_on ev"
    and "\<forall>t owner. ev \<noteq> Release t owner"
  shows "\<exists>ph'. phase_of (lifecycle_step cf rnd ev st) l = Some ph'
    \<and> (at_work ph' \<or> ph' = Finished False \<and> read_epoch ph = Some (map_of (lc_requestedEpoch st) (ls_transferId l)))"
proof (cases ev)
  case (Continue t owner)
  from assms(2) have "map_of (lc_operations st) l = Some ph" by (simp add: phase_of_def)
  moreover from assms(1) have "lease_of st (ls_transferId l) = Some l" by (simp add: owns_def)
  ultimately have "phase_of (lifecycle_step cf rnd ev st) l = Some ph"
    using Continue assms(4)
    by (auto simp: continueRecoveryLease_def recoverLease_def phase_of_def split: option.splits)
  with assms(3) show ?thesis by blast
next
  case (Resume_answered l' a)
  with assms(4) have "l' = l" by simp
  with assms(1,2,3,5) Resume_answered show ?thesis
    by (cases ph; cases a) (auto simp: resume_answered_def recovery_failed_def phase_of_check_again simp flip: phase_of_def)
next
  case (Replay_ended l' a)
  with assms(4) have "l' = l" by simp
  with assms(1,2,3,5) Replay_ended show ?thesis
    by (cases ph; cases a) (auto simp: replay_ended_def recovery_failed_def phase_of_check_again simp flip: phase_of_def)
next
  case (Slept l')
  with assms(4) have "l' = l" by simp
  with assms(1,2,3) Slept show ?thesis
    by (cases ph) (auto simp: slept_def phase_of_loop_top simp flip: phase_of_def)
next
  case (Settled l')
  with assms(4) have "l' = l" by simp
  with assms(2,3) Settled show ?thesis
    by (cases ph) (auto simp: settled_def simp flip: phase_of_def)
qed (use assms in auto)

theorem recovery_follows_last_request_witness:
  "let st = demo_run [Register (demo_lease 1), Continue ''t1'' None, Continue ''t1'' None] in
   \<exists>ph'. phase_of (lifecycle_step demo_config (\<lambda>n. ''r'') (Resume_answered (demo_lease 1) (Inr (''reconciling'', False))) st)
       (demo_lease 1) = Some ph'
     \<and> (at_work ph' \<or> ph' = Finished False
          \<and> read_epoch (Resuming (Some ''foreground:r'') 1 0) = Some (map_of (lc_requestedEpoch st) (ls_transferId (demo_lease 1))))"
proof -
  let ?st = "demo_run [Register (demo_lease 1), Continue ''t1'' None, Continue ''t1'' None]"
  have o: "owns ?st (demo_lease 1)" by code_simp
  have p: "phase_of ?st (demo_lease 1) = Some (Resuming (Some ''foreground:r'') 1 0)" by code_simp
  have "\<exists>ph'. phase_of (lifecycle_step demo_config (\<lambda>n. ''r'') (Resume_answered (demo_lease 1) (Inr (''reconciling'', False))) ?st)
       (demo_lease 1) = Some ph'
     \<and> (at_work ph' \<or> ph' = Finished False
          \<and> read_epoch (Resuming (Some ''foreground:r'') 1 0) = Some (map_of (lc_requestedEpoch ?st) (ls_transferId (demo_lease 1))))"
    by (rule recovery_follows_last_request [OF o p]) simp_all
  then show ?thesis by (simp add: Let_def)
qed

text \<open>
  The recovery of a fenced-off owner is handed over. When its loop ends because another lease took the transfer, and the
  control is not closed, the lease now held has a loop, one that starts with the epoch requested now if it had none.
\<close>

theorem replaced_owner_hands_over:
  assumes "phase_of st l = Some (Finished True)" and "\<not> lc_closed st"
    and "lease_of st (ls_transferId l) = Some c" and "c \<noteq> l" and "ls_transferId c = ls_transferId l"
  shows "phase_of (settled l st) l = None
    \<and> phase_of (settled l st) c = (case phase_of st c of
        Some ph \<Rightarrow> Some ph
      | None \<Rightarrow> Some (Resuming (map_of (lc_requestedEpoch st) (ls_transferId l)) (lc_randoms st) 0))"
proof -
  from assms(1) have "map_of (lc_operations st) l = Some (Finished True)" by (simp add: phase_of_def)
  moreover have "lease_of (st\<lparr>lc_operations := m\<rparr>) = lease_of st" for m by (simp add: lease_of_def)
  ultimately show ?thesis
    using assms(2-5) unfolding settled_def
    by (auto simp: Let_def recoverLease_def loop_top_def owns_def phase_of_def split: option.splits)
qed

theorem replaced_owner_hands_over_witness:
  "let st = demo_run [Register (demo_lease 1), Continue ''t1'' None, Register (demo_lease 2),
      Resume_answered (demo_lease 1) (Inr (''reconciling'', False))] in
   phase_of (settled (demo_lease 1) st) (demo_lease 1) = None
   \<and> phase_of (settled (demo_lease 1) st) (demo_lease 2) = (case phase_of st (demo_lease 2) of
        Some ph \<Rightarrow> Some ph
      | None \<Rightarrow> Some (Resuming (map_of (lc_requestedEpoch st) (ls_transferId (demo_lease 1))) (lc_randoms st) 0))"
proof -
  let ?st = "demo_run [Register (demo_lease 1), Continue ''t1'' None, Register (demo_lease 2),
      Resume_answered (demo_lease 1) (Inr (''reconciling'', False))]"
  have p: "phase_of ?st (demo_lease 1) = Some (Finished True)" by code_simp
  have c: "\<not> lc_closed ?st" by code_simp
  have l: "lease_of ?st (ls_transferId (demo_lease 1)) = Some (demo_lease 2)" by code_simp
  have d: "demo_lease 2 \<noteq> demo_lease 1" "ls_transferId (demo_lease 2) = ls_transferId (demo_lease 1)" by (simp_all add: demo_lease_def)
  from replaced_owner_hands_over [OF p c l d] show ?thesis by (simp only: Let_def)
qed

text \<open>
  The moment between a loop's return and its \<open>finally\<close>: a recovery requested then finds the loop still listed and starts
  none, and the \<open>finally\<close> of a loop that was not replaced starts none either. The request is kept, and nothing drives it.
\<close>

theorem late_request_is_dropped:
  "let st = demo_run [Register (demo_lease 1), Epoch_seen 0 ''e1'' ''x'', Epoch_seen 0 ''e2'' ''x'',
      Resume_answered (demo_lease 1) (Inr (''reconciling'', False)),
      Epoch_seen 0 ''e3'' ''x'', Settled (demo_lease 1)] in
   lease_of st ''t1'' = Some (demo_lease 1) \<and> map_of (lc_requestedEpoch st) ''t1'' = Some ''e3:x'' \<and> lc_operations st = []"
  by code_simp

text \<open>The waits between attempts.\<close>

lemma recovery_delay_bounds: "500 \<le> recovery_delay att \<and> recovery_delay att \<le> 30000"
proof -
  have "(1 :: int) \<le> 2 ^ min att 6" by simp
  then show ?thesis by (simp add: recovery_delay_def)
qed

end
