(* ===== verification/SdkRequest.thy ===== *)
theory SdkRequest
  imports SdkRecovery
begin

text \<open>
  A request of the SDK to the transfer runtime (\<open>BeamTransferControl.request\<close> and what it calls in
  \<open>sdks/typescript/src/nats-control.ts\<close>): the token it carries, the envelope, the retries. NATS, MessagePack, the clock
  and random identifiers are parameters; at every \<open>await\<close> any events of the control may happen, \<open>ce_meanwhile\<close> of the
  world says which. A request waits for the token on its own: callers that share a pending resolution get its answer.
\<close>

subsection \<open>The outside\<close>

record reply =
  rp_ok :: bool
  rp_status :: int
  rp_payload :: "json option"
  rp_error :: "json option"
  rp_runtime_epoch :: string
  rp_transport_epoch :: string

record 'w control_env =
  ce_connect :: "'w \<Rightarrow> (lifecycle_error + unit) \<times> 'w"
  ce_isClosed :: "'w \<Rightarrow> bool"
  ce_request :: "string \<Rightarrow> json \<Rightarrow> 'w \<Rightarrow> (lifecycle_error + reply) \<times> 'w"
  ce_resolve :: "string \<Rightarrow> 'w \<Rightarrow> (lifecycle_error + string) \<times> 'w"
  ce_now_ms :: "'w \<Rightarrow> int"
  ce_iso_now :: "'w \<Rightarrow> string"
  ce_random :: "'w \<Rightarrow> rat"
  ce_sleep :: "int \<Rightarrow> 'w \<Rightarrow> 'w"
  ce_meanwhile :: "'w \<Rightarrow> lifecycle_event list"
  ce_msgpack_size :: "json \<Rightarrow> int"
  ce_sha256 :: "string \<Rightarrow> 8 word list"
  ce_randomId :: "nat \<Rightarrow> string"

text \<open>\<open>cr_nc\<close>: a connection is held; \<open>cr_sent\<close>: what went out on the lifecycle subjects, with the answers.\<close>

record 'w control_run =
  cr_world :: 'w
  cr_control :: lifecycle
  cr_nc :: bool
  cr_sent :: "(string \<times> json \<times> (lifecycle_error + reply)) list"

definition after_await :: "'w control_env \<Rightarrow> control_config \<Rightarrow> 'w \<Rightarrow> 'w control_run \<Rightarrow> 'w control_run" where
  "after_await env cf w cs = cs\<lparr>cr_world := w,
     cr_control := fold (lifecycle_step cf (ce_randomId env)) (ce_meanwhile env w) (cr_control cs)\<rparr>"

text \<open>The wait of \<open>sleepWithJitter\<close>, for a random number of the unit interval, without the rounding of floats.\<close>

definition sleep_ms :: "int \<Rightarrow> rat \<Rightarrow> int" where
  "sleep_ms baseMs random = max 1 (baseMs + \<lfloor>rat_of_int baseMs * (random * (2 / 5) - 1 / 5)\<rfloor>)"

definition sleepWithJitter :: "'w control_env \<Rightarrow> control_config \<Rightarrow> int \<Rightarrow> 'w control_run \<Rightarrow> 'w control_run" where
  "sleepWithJitter env cf baseMs cs = after_await env cf (ce_sleep env (sleep_ms baseMs (ce_random env (cr_world cs))) (cr_world cs)) cs"

text \<open>The wait after attempt number \<open>att\<close>.\<close>

definition retry_delay :: "nat \<Rightarrow> int" where
  "retry_delay att = (if att < length LIFECYCLE_REQUEST_RETRY_DELAYS_MS then LIFECYCLE_REQUEST_RETRY_DELAYS_MS ! att else 1000)"

definition control_closed :: lifecycle_error where
  "control_closed = Other_error [] ''NATS lifecycle control is closed''"

definition connection :: "'w control_env \<Rightarrow> control_config \<Rightarrow> 'w control_run \<Rightarrow> (lifecycle_error + unit) \<times> 'w control_run" where
  "connection env cf cs =
     (if lc_closed (cr_control cs) then (Inl control_closed, cs)
      else if cr_nc cs \<and> \<not> ce_isClosed env (cr_world cs) then (Inr (), cs)
      else
        (case ce_connect env (cr_world cs) of
           (Inl e, w) \<Rightarrow> (Inl e, after_await env cf w cs)
         | (Inr _, w) \<Rightarrow>
             (let cs' = after_await env cf w cs in
              if lc_closed (cr_control cs') then (Inl control_closed, cs') else (Inr (), cs'\<lparr>cr_nc := True\<rparr>))))"

text \<open>\<open>if (this.nc?.isClosed()) this.nc = null\<close>\<close>

definition drop_closed :: "'w control_env \<Rightarrow> 'w control_run \<Rightarrow> 'w control_run" where
  "drop_closed env cs = (if cr_nc cs \<and> ce_isClosed env (cr_world cs) then cs\<lparr>cr_nc := False\<rparr> else cs)"

subsection \<open>The authentication token\<close>

text \<open>
  The body of one attempt. A reply without a numeric expiry gives a token that is never fresh enough to be used again,
  like one that expired at 0.
\<close>

definition read_auth_reply :: "string \<Rightarrow> lifecycle_error + string \<times> int" where
  "read_auth_reply body =
     (case parse_json body of
        None \<Rightarrow> Inl (Other_error [] ''invalid JSON'')
      | Some parsed \<Rightarrow>
          (case (jget parsed ''ok'', truthy (as_str (jget parsed ''token''))) of
             (Some (JBool True), Some token) \<Rightarrow>
               (case decodeJwtPayload token of
                  Inl e \<Rightarrow> Inl (Other_error [] e)
                | Inr claims \<Rightarrow> Inr (token, coalesce (as_num (jget claims ''exp'')) 0))
           | _ \<Rightarrow> Inl (Other_error [] (''Beam SDK NATS auth resolve failed: ''
               @ coalesce (as_str (jget parsed ''error'')) ''unknown_error''))))"

definition resolve_once :: "'w control_env \<Rightarrow> control_config \<Rightarrow> 'w control_run \<Rightarrow> (lifecycle_error + string) \<times> 'w control_run" where
  "resolve_once env cf cs =
     (case connection env cf cs of
        (Inl e, cs) \<Rightarrow> (Inl e, cs)
      | (Inr _, cs) \<Rightarrow>
          (case ce_resolve env (authSubject cf) (cr_world cs) of
             (Inl e, w) \<Rightarrow> (Inl e, after_await env cf w cs)
           | (Inr body, w) \<Rightarrow>
               (let cs' = after_await env cf w cs in
                case read_auth_reply body of
                  Inl e \<Rightarrow> (Inl e, cs')
                | Inr (token, expires) \<Rightarrow>
                    (Inr token, cs'\<lparr>cr_control := (cr_control cs')\<lparr>lc_authToken := Some token, lc_authTokenExpiresAt := expires\<rparr>\<rparr>))))"

fun resolveAuthTokenFresh ::
  "'w control_env \<Rightarrow> control_config \<Rightarrow> nat \<Rightarrow> 'w control_run \<Rightarrow> (lifecycle_error + string) \<times> 'w control_run" where
  "resolveAuthTokenFresh env cf 0 cs = (Inl (Other_error [] ''Beam SDK NATS auth resolve failed after retries''), cs)"
| "resolveAuthTokenFresh env cf (Suc left) cs =
     (case resolve_once env cf cs of
        (Inr token, cs) \<Rightarrow> (Inr token, cs)
      | (Inl e, cs) \<Rightarrow>
          if \<not> isRetryableLifecycleError e \<or> left = 0 then (Inl e, cs)
          else resolveAuthTokenFresh env cf left
            (sleepWithJitter env cf (retry_delay (LIFECYCLE_REQUEST_MAX_ATTEMPTS - Suc left)) (drop_closed env cs)))"

definition resolveAuthToken :: "'w control_env \<Rightarrow> control_config \<Rightarrow> 'w control_run \<Rightarrow> (lifecycle_error + string) \<times> 'w control_run" where
  "resolveAuthToken env cf cs =
     (let now = ce_now_ms env (cr_world cs) div 1000 in
      case truthy (lc_authToken (cr_control cs)) of
        Some token \<Rightarrow>
          if lc_authTokenExpiresAt (cr_control cs) - AUTH_TOKEN_REFRESH_SAFETY_SECONDS > now then (Inr token, cs)
          else resolveAuthTokenFresh env cf LIFECYCLE_REQUEST_MAX_ATTEMPTS cs
      | None \<Rightarrow> resolveAuthTokenFresh env cf LIFECYCLE_REQUEST_MAX_ATTEMPTS cs)"

subsection \<open>The request\<close>

definition envelope :: "control_config \<Rightarrow> string \<Rightarrow> int \<Rightarrow> string \<Rightarrow> string \<Rightarrow> (string \<times> json) list \<Rightarrow> string \<Rightarrow> json" where
  "envelope cf messageType shardId requestId occurredAt payload authToken = JObj
     [(''message_id'', JStr (TRANSFER_CLIENT_CONTROL_SCHEMA_VERSION @ '':'' @ ci_environment cf @ '':'' @ ci_keyPrefix cf
        @ '':'' @ messageType @ '':'' @ requestId)),
      (''schema_version'', JStr TRANSFER_CLIENT_CONTROL_SCHEMA_VERSION), (''environment'', JStr (ci_environment cf)),
      (''key_prefix'', JStr (ci_keyPrefix cf)), (''shard_id'', JNum shardId), (''message_type'', JStr messageType),
      (''request_id'', JStr requestId), (''auth_token'', JStr authToken), (''occurred_at'', JStr occurredAt),
      (''producer'', JStr ''sdk''), (''payload'', JObj payload)]"

definition stableRequestId :: "(string \<Rightarrow> 8 word list) \<Rightarrow> string \<Rightarrow> string" where
  "stableRequestId sha256 identity = ''idempotent-'' @ bytesToHex (sha256 identity)"

definition isExpiredAuthTokenReply :: "reply \<Rightarrow> bool" where
  "isExpiredAuthTokenReply r \<longleftrightarrow> rp_status r = 401
     \<and> (case rp_error r of None \<Rightarrow> False | Some e \<Rightarrow> jget e ''code'' = Some (JStr ''auth_token_expired''))"

definition refusal :: "reply \<Rightarrow> lifecycle_error" where
  "refusal r = Refused (rp_status r) (''Beam lifecycle request failed with '' @ show_int (rp_status r) @ '': ''
     @ stringify (coalesce (rp_error r) (JObj [])))"

text \<open>One attempt up to the decoded reply.\<close>

definition request_once ::
  "'w control_env \<Rightarrow> control_config \<Rightarrow> string \<Rightarrow> int \<Rightarrow> (string \<Rightarrow> json) \<Rightarrow> 'w control_run
   \<Rightarrow> (lifecycle_error + reply) \<times> 'w control_run" where
  "request_once env cf subject shardId enveloped cs =
     (case resolveAuthToken env cf cs of
        (Inl e, cs) \<Rightarrow> (Inl e, cs)
      | (Inr authToken, cs) \<Rightarrow>
          (let bytes = ce_msgpack_size env (enveloped authToken) in
           if bytes > ci_maxPayloadBytes cf then
             (Inl (Other_error [] (''NATS lifecycle request is '' @ show_int bytes @ '' bytes, above maxPayloadBytes=''
               @ show_int (ci_maxPayloadBytes cf))), cs)
           else
             (case connection env cf cs of
                (Inl e, cs) \<Rightarrow> (Inl e, cs)
              | (Inr _, cs) \<Rightarrow>
                  (case ce_request env subject (enveloped authToken) (cr_world cs) of
                     (answer, w) \<Rightarrow>
                       (let cs' = after_await env cf w (cs\<lparr>cr_sent := cr_sent cs @ [(subject, enveloped authToken, answer)]\<rparr>) in
                        case answer of
                          Inl e \<Rightarrow> (Inl e, cs')
                        | Inr r \<Rightarrow> (Inr r, cs'\<lparr>cr_control :=
                            observeRuntimeEpoch cf shardId (rp_runtime_epoch r) (rp_transport_epoch r) (cr_control cs')\<rparr>))))))"

fun request_loop ::
  "'w control_env \<Rightarrow> control_config \<Rightarrow> string \<Rightarrow> int \<Rightarrow> (string \<Rightarrow> json) \<Rightarrow> nat \<Rightarrow> 'w control_run
   \<Rightarrow> (lifecycle_error + json) \<times> 'w control_run" where
  "request_loop env cf subject shardId enveloped 0 cs = (Inl (Other_error [] ''Beam lifecycle request failed after retries''), cs)"
| "request_loop env cf subject shardId enveloped (Suc left) cs =
     (let delay = retry_delay (LIFECYCLE_REQUEST_MAX_ATTEMPTS - Suc left) in
      case request_once env cf subject shardId enveloped cs of
        (Inr r, cs) \<Rightarrow>
          if rp_ok r then (Inr (coalesce (rp_payload r) (JObj [])), cs)
          else if isExpiredAuthTokenReply r \<and> left \<noteq> 0 then
            request_loop env cf subject shardId enveloped left (sleepWithJitter env cf delay
              (cs\<lparr>cr_control := (cr_control cs)\<lparr>lc_authToken := None, lc_authTokenExpiresAt := 0\<rparr>\<rparr>))
          else if \<not> isRetryableLifecycleStatus (rp_status r) \<or> left = 0 then (Inl (refusal r), cs)
          else request_loop env cf subject shardId enveloped left (sleepWithJitter env cf delay cs)
      | (Inl e, cs) \<Rightarrow>
          if \<not> isRetryableLifecycleError e \<or> left = 0 then (Inl e, cs)
          else request_loop env cf subject shardId enveloped left (sleepWithJitter env cf delay (drop_closed env cs)))"

record request_options =
  ro_transferId :: "string option"
  ro_idempotencyKey :: "string option"
  ro_shardId :: "int option"

definition request_shard :: "control_config \<Rightarrow> request_options \<Rightarrow> int" where
  "request_shard cf o1 = (case ro_shardId o1 of
      Some shard \<Rightarrow> shard
    | None \<Rightarrow> (case truthy (ro_transferId o1) of None \<Rightarrow> 0 | Some t \<Rightarrow> transferShardId t (cg_shardCount cf)))"

definition request_id :: "'w control_env \<Rightarrow> string \<Rightarrow> request_options \<Rightarrow> lifecycle \<Rightarrow> string \<times> lifecycle" where
  "request_id env messageType o1 st = (case truthy (ro_idempotencyKey o1) of
      Some key \<Rightarrow> (stableRequestId (ce_sha256 env) (messageType @ '':'' @ key), st)
    | None \<Rightarrow> (ce_randomId env (lc_randoms st), st\<lparr>lc_randoms := lc_randoms st + 1\<rparr>))"

definition sdk_request ::
  "'w control_env \<Rightarrow> control_config \<Rightarrow> string \<Rightarrow> (string \<times> json) list \<Rightarrow> request_options \<Rightarrow> 'w control_run
   \<Rightarrow> (lifecycle_error + json) \<times> 'w control_run" where
  "sdk_request env cf messageType payload o1 cs =
     (let shardId = request_shard cf o1;
          (requestId, st) = request_id env messageType o1 (cr_control cs);
          occurredAt = ce_iso_now env (cr_world cs) in
      request_loop env cf (requestSubject cf messageType shardId) shardId
        (envelope cf messageType shardId requestId occurredAt payload) LIFECYCLE_REQUEST_MAX_ATTEMPTS (cs\<lparr>cr_control := st\<rparr>))"

subsection \<open>What a request sends\<close>

lemma cr_sent_after_await [simp]: "cr_sent (after_await env cf w cs) = cr_sent cs"
  by (simp add: after_await_def)

lemma cr_sent_sleep [simp]: "cr_sent (sleepWithJitter env cf ms cs) = cr_sent cs"
  by (simp add: sleepWithJitter_def)

lemma cr_sent_drop [simp]: "cr_sent (drop_closed env cs) = cr_sent cs"
  by (simp add: drop_closed_def)

lemma cr_sent_connection: "connection env cf cs = (r, cs') \<Longrightarrow> cr_sent cs' = cr_sent cs"
  by (auto simp: connection_def Let_def split: if_splits prod.splits sum.splits)

lemma cr_sent_resolve_once: "resolve_once env cf cs = (r, cs') \<Longrightarrow> cr_sent cs' = cr_sent cs"
  by (auto simp: resolve_once_def Let_def dest!: cr_sent_connection split: prod.splits sum.splits)

lemma cr_sent_fresh: "resolveAuthTokenFresh env cf n cs = (r, cs') \<Longrightarrow> cr_sent cs' = cr_sent cs"
proof (induction n arbitrary: cs)
  case (Suc n)
  obtain r1 cs1 where once: "resolve_once env cf cs = (r1, cs1)" by force
  then have s: "cr_sent cs1 = cr_sent cs" by (rule cr_sent_resolve_once)
  from Suc.prems once show ?case
    by (cases r1) (auto simp: s simp flip: s split: if_splits dest!: Suc.IH)
qed simp

lemma cr_sent_token: "resolveAuthToken env cf cs = (r, cs') \<Longrightarrow> cr_sent cs' = cr_sent cs"
  by (auto simp: resolveAuthToken_def Let_def dest: cr_sent_fresh split: option.splits if_splits)

lemma request_once_sends:
  assumes "request_once env cf subject shardId enveloped cs = (r, cs')"
  shows "cr_sent cs' = cr_sent cs \<and> (\<exists>e. r = Inl e)
    \<or> (\<exists>token. cr_sent cs' = cr_sent cs @ [(subject, enveloped token, r)]
        \<and> ce_msgpack_size env (enveloped token) \<le> ci_maxPayloadBytes cf)"
proof -
  obtain t cs1 where tok: "resolveAuthToken env cf cs = (t, cs1)" by force
  show ?thesis
  proof (cases t)
    case (Inl e)
    with assms tok cr_sent_token [OF tok] show ?thesis by (auto simp: request_once_def)
  next
    case (Inr token)
    obtain c cs2 where conn: "connection env cf cs1 = (c, cs2)" by force
    from cr_sent_token [OF tok] cr_sent_connection [OF conn] have s: "cr_sent cs1 = cr_sent cs" "cr_sent cs2 = cr_sent cs" by simp_all
    show ?thesis
    proof (cases "ce_msgpack_size env (enveloped token) > ci_maxPayloadBytes cf")
      case True
      with assms tok Inr s show ?thesis by (auto simp: request_once_def)
    next
      case False
      with assms tok Inr conn s show ?thesis
        by (cases c) (auto simp: request_once_def Let_def split: prod.splits sum.splits)
    qed
  qed
qed

text \<open>An answer after which a request may go out again.\<close>

fun may_resend :: "lifecycle_error + reply \<Rightarrow> bool" where
  "may_resend (Inl e) \<longleftrightarrow> isRetryableLifecycleError e"
| "may_resend (Inr r) \<longleftrightarrow> \<not> rp_ok r \<and> (isRetryableLifecycleStatus (rp_status r) \<or> isExpiredAuthTokenReply r)"

definition sends_safely ::
  "'w control_env \<Rightarrow> control_config \<Rightarrow> string \<Rightarrow> (string \<Rightarrow> json) \<Rightarrow> nat \<Rightarrow> (string \<times> json \<times> (lifecycle_error + reply)) list
   \<Rightarrow> lifecycle_error + json \<Rightarrow> bool" where
  "sends_safely env cf subject enveloped n sent r \<longleftrightarrow> length sent \<le> n
     \<and> list_all (\<lambda>(s, e, _). s = subject \<and> e \<in> range enveloped \<and> ce_msgpack_size env e \<le> ci_maxPayloadBytes cf) sent
     \<and> list_all (\<lambda>(_, _, answer). may_resend answer) (butlast sent)
     \<and> (case r of Inl _ \<Rightarrow> True
        | Inr j \<Rightarrow> sent \<noteq> [] \<and> (case snd (snd (last sent)) of Inl _ \<Rightarrow> False
            | Inr rep \<Rightarrow> rp_ok rep \<and> j = coalesce (rp_payload rep) (JObj [])))"

lemma sends_safely_Cons:
  "may_resend answer \<Longrightarrow> ce_msgpack_size env (enveloped token) \<le> ci_maxPayloadBytes cf \<Longrightarrow>
   sends_safely env cf subject enveloped n sent r \<Longrightarrow>
   sends_safely env cf subject enveloped (Suc n) ((subject, enveloped token, answer) # sent) r"
  by (auto simp: sends_safely_def split: sum.splits)

lemma sends_safely_Suc: "sends_safely env cf subject enveloped n sent r \<Longrightarrow> sends_safely env cf subject enveloped (Suc n) sent r"
  by (simp add: sends_safely_def)

lemma request_loop_sends:
  assumes "request_loop env cf subject shardId enveloped n cs = (r, cs')"
  shows "\<exists>sent. cr_sent cs' = cr_sent cs @ sent \<and> sends_safely env cf subject enveloped n sent r"
  using assms
proof (induction n arbitrary: cs)
  case 0
  then show ?case by (auto simp: sends_safely_def)
next
  case (Suc n)
  let ?slept = "sleepWithJitter env cf (retry_delay (LIFECYCLE_REQUEST_MAX_ATTEMPTS - Suc n))"
  obtain answer cs1 where once: "request_once env cf subject shardId enveloped cs = (answer, cs1)" by force
  from request_once_sends [OF this] consider
    (unsent) e where "answer = Inl e" "cr_sent cs1 = cr_sent cs"
  | (sent) token where "cr_sent cs1 = cr_sent cs @ [(subject, enveloped token, answer)]"
      "ce_msgpack_size env (enveloped token) \<le> ci_maxPayloadBytes cf" by blast
  then show ?case
  proof cases
    case unsent
    show ?thesis
    proof (cases "\<not> isRetryableLifecycleError e \<or> n = 0")
      case True
      with Suc.prems once unsent show ?thesis by (auto simp: sends_safely_def Let_def)
    next
      case False
      with Suc.prems once unsent Suc.IH [of "?slept (drop_closed env cs1)"]
      obtain sent where "cr_sent cs' = cr_sent cs @ sent" "sends_safely env cf subject enveloped n sent r" by (auto simp: Let_def)
      then show ?thesis by (blast intro: sends_safely_Suc)
    qed
  next
    case sent
    have last_one: "\<exists>sent. cr_sent cs' = cr_sent cs @ sent \<and> sends_safely env cf subject enveloped (Suc n) sent r"
      if "cr_sent cs' = cr_sent cs1"
        and "case r of Inl _ \<Rightarrow> True | Inr j \<Rightarrow> (case answer of Inl _ \<Rightarrow> False | Inr rep \<Rightarrow> rp_ok rep \<and> j = coalesce (rp_payload rep) (JObj []))"
      by (rule exI [of _ "[(subject, enveloped token, answer)]"])
        (use that sent in \<open>auto simp: sends_safely_def split: sum.splits\<close>)
    have again: "\<exists>sent. cr_sent cs' = cr_sent cs @ sent \<and> sends_safely env cf subject enveloped (Suc n) sent r"
      if "request_loop env cf subject shardId enveloped n cs2 = (r, cs')" "cr_sent cs2 = cr_sent cs1" "may_resend answer" for cs2
    proof -
      from Suc.IH [OF that(1)] obtain rest where "cr_sent cs' = cr_sent cs2 @ rest" "sends_safely env cf subject enveloped n rest r" by blast
      then show ?thesis
        using that(2,3) sent by (intro exI [of _ "(subject, enveloped token, answer) # rest"]) (simp add: sends_safely_Cons)
    qed
    show ?thesis
    proof (cases answer)
      case (Inl e)
      show ?thesis
      proof (cases "\<not> isRetryableLifecycleError e \<or> n = 0")
        case True
        with Suc.prems once Inl show ?thesis by (intro last_one) (auto simp: Let_def)
      next
        case False
        with Suc.prems once Inl show ?thesis
          by (intro again [of "?slept (drop_closed env cs1)"])
            (auto simp: Let_def)
      qed
    next
      case (Inr rep)
      consider "rp_ok rep" | "\<not> rp_ok rep" "isExpiredAuthTokenReply rep" "n \<noteq> 0"
        | "\<not> rp_ok rep" "\<not> (isExpiredAuthTokenReply rep \<and> n \<noteq> 0)" "\<not> isRetryableLifecycleStatus (rp_status rep) \<or> n = 0"
        | "\<not> rp_ok rep" "\<not> (isExpiredAuthTokenReply rep \<and> n \<noteq> 0)" "isRetryableLifecycleStatus (rp_status rep)" "n \<noteq> 0" by blast
      then show ?thesis
      proof cases
        case 1
        with Suc.prems once Inr show ?thesis by (intro last_one) (auto simp: Let_def)
      next
        case 2
        with Suc.prems once Inr show ?thesis
          by (intro again [of "?slept (cs1\<lparr>cr_control := (cr_control cs1)\<lparr>lc_authToken := None, lc_authTokenExpiresAt := 0\<rparr>\<rparr>)"])
            (auto simp: Let_def)
      next
        case 3
        with Suc.prems once Inr show ?thesis by (intro last_one) (auto simp: Let_def)
      next
        case 4
        with Suc.prems once Inr show ?thesis by (intro again [of "?slept cs1"]) (auto simp: Let_def)
      qed
    qed
  qed
qed

text \<open>
  C25. A request retries safely. Whatever the connection, the runtime and the other activity of the control do, one request
  goes out at most three times, always on one subject, with one message id, request id, time and payload (only the
  token may differ), never larger than the payload limit; it goes out again only after a retryable answer or an expired
  token; and it returns a payload only when the last answer was an accepting one with that payload.
\<close>

theorem request_retries_safely:
  assumes "sdk_request env cf messageType payload o1 cs = (r, cs')"
  shows "\<exists>sent. cr_sent cs' = cr_sent cs @ sent
    \<and> sends_safely env cf (requestSubject cf messageType (request_shard cf o1))
        (envelope cf messageType (request_shard cf o1) (fst (request_id env messageType o1 (cr_control cs)))
          (ce_iso_now env (cr_world cs)) payload) 3 sent r"
  using assms request_loop_sends [of env cf _ _ _ LIFECYCLE_REQUEST_MAX_ATTEMPTS]
  by (fastforce simp: sdk_request_def Let_def LIFECYCLE_REQUEST_MAX_ATTEMPTS_def split: prod.splits)

text \<open>A world that answers 503 first, then accepts; a token is held.\<close>

definition demo_reply :: "nat \<Rightarrow> reply" where
  "demo_reply n = (if n = 0
     then \<lparr>rp_ok = False, rp_status = 503, rp_payload = None, rp_error = None, rp_runtime_epoch = ''e1'', rp_transport_epoch = ''x''\<rparr>
     else \<lparr>rp_ok = True, rp_status = 200, rp_payload = Some (JBool True), rp_error = None, rp_runtime_epoch = ''e1'', rp_transport_epoch = ''x''\<rparr>)"

definition demo_control_env :: "nat control_env" where
  "demo_control_env = \<lparr>ce_connect = \<lambda>w. (Inr (), w), ce_isClosed = \<lambda>_. False, ce_request = \<lambda>_ _ w. (Inr (demo_reply w), w + 1),
     ce_resolve = \<lambda>_ w. (Inl (Other_error [] ''timeout''), w), ce_now_ms = \<lambda>_. 0, ce_iso_now = \<lambda>_. ''2026-01-01T00:00:00.000Z'',
     ce_random = \<lambda>_. 0, ce_sleep = \<lambda>_ w. w, ce_meanwhile = \<lambda>_. [], ce_msgpack_size = \<lambda>_. 100, ce_sha256 = \<lambda>_. [], ce_randomId = \<lambda>_. ''r''\<rparr>"

definition demo_control_run :: "nat control_run" where
  "demo_control_run = \<lparr>cr_world = 0, cr_control = new_lifecycle\<lparr>lc_authToken := Some ''tok'', lc_authTokenExpiresAt := 3600\<rparr>,
     cr_nc = True, cr_sent = []\<rparr>"

definition demo_request_options :: request_options where
  "demo_request_options = \<lparr>ro_transferId = Some ''t1'', ro_idempotencyKey = None, ro_shardId = None\<rparr>"

theorem request_retries_safely_witness:
  "let (r, cs) = sdk_request demo_control_env demo_config ''transfer.status'' [] demo_request_options demo_control_run in
   r = Inr (JBool True) \<and> length (cr_sent cs) = 2
   \<and> (\<exists>sent. cr_sent cs = [] @ sent
        \<and> sends_safely demo_control_env demo_config (requestSubject demo_config ''transfer.status'' (request_shard demo_config demo_request_options))
            (envelope demo_config ''transfer.status'' (request_shard demo_config demo_request_options)
              (fst (request_id demo_control_env ''transfer.status'' demo_request_options (cr_control demo_control_run)))
              (ce_iso_now demo_control_env (cr_world demo_control_run)) []) 3 sent r)"
proof -
  obtain r cs where run: "sdk_request demo_control_env demo_config ''transfer.status'' [] demo_request_options demo_control_run = (r, cs)"
    by force
  have "fst (sdk_request demo_control_env demo_config ''transfer.status'' [] demo_request_options demo_control_run) = Inr (JBool True)"
    and "length (cr_sent (snd (sdk_request demo_control_env demo_config ''transfer.status'' [] demo_request_options demo_control_run))) = 2"
    by code_simp+
  with run request_retries_safely [OF run] show ?thesis by (simp add: demo_control_run_def)
qed

end
