(* ===== verification/SdkSignals.thy ===== *)
theory SdkSignals
  imports SdkRequest
begin

text \<open>
  What the runtime tells the SDK on its own (\<open>sdks/typescript/src/nats-control.ts\<close>): the event that ends a transfer, as
  the waiter of \<open>openTerminalSignalWaiter\<close> hands it out, the requests for recovery routes and for integrity signatures
  that the two signers serve, and the hello that shows a runtime's epoch and capabilities. A waiter and a signer are
  state machines whose events are messages, timers and calls.
\<close>

subsection \<open>Terminal events\<close>

definition parseTerminalEvent :: "json \<Rightarrow> string \<Rightarrow> string + json" where
  "parseTerminalEvent value transferId =
     (if \<not> is_object value then Inl ''invalid transfer terminal event''
      else if jget value ''schema_version'' \<noteq> Some (JStr TRANSFER_CLIENT_CONTROL_SCHEMA_VERSION)
          \<or> jget value ''producer'' \<noteq> Some (JStr ''transfer-runtime'')
          \<or> jget value ''transfer_id'' \<noteq> Some (JStr transferId)
          \<or> \<not> List.member [''completed'', ''failed'', ''cancelled''] (case jget value ''status'' of None \<Rightarrow> ''undefined'' | Some v \<Rightarrow> js_string v)
          \<or> as_str (jget value ''occurred_at'') = None then
        Inl ''invalid transfer terminal event''
      else Inr value)"

text \<open>
  The waiter: whether it is closed, the error that ended it, the event kept for the next wait, and the wait under way.
  Waits are numbered in the order they begin; what each returned is recorded.
\<close>

datatype wait_result = Got json | Timed_out | Failed_with string

record waiter =
  wt_closed :: bool
  wt_error :: "string option"
  wt_pending :: "json list"
  wt_active :: "nat option"
  wt_begun :: nat
  wt_results :: "(nat \<times> wait_result) list"
  wt_subscribed :: bool

definition new_waiter :: waiter where
  "new_waiter = \<lparr>wt_closed = False, wt_error = None, wt_pending = [], wt_active = None, wt_begun = 0, wt_results = [],
     wt_subscribed = True\<rparr>"

definition settleActive :: "wait_result \<Rightarrow> waiter \<Rightarrow> waiter" where
  "settleActive r w =
     (case wt_active w of None \<Rightarrow> w | Some n \<Rightarrow> w\<lparr>wt_active := None, wt_results := wt_results w @ [(n, r)]\<rparr>)"

definition waiter_failed :: "string \<Rightarrow> waiter \<Rightarrow> waiter" where
  "waiter_failed e w = settleActive (Failed_with e) (w\<lparr>wt_error := Some e, wt_subscribed := False\<rparr>)"

text \<open>The subscription's callback: an error of the connection, or a message that decodes to a value or not.\<close>

definition waiter_message :: "string \<Rightarrow> string + (string + json) \<Rightarrow> waiter \<Rightarrow> waiter" where
  "waiter_message transferId message w =
     (case message of
        Inl e \<Rightarrow> waiter_failed e w
      | Inr (Inl e) \<Rightarrow> waiter_failed e w
      | Inr (Inr value) \<Rightarrow>
          (case parseTerminalEvent value transferId of
             Inl e \<Rightarrow> waiter_failed e w
           | Inr event \<Rightarrow>
               if wt_active w \<noteq> None then settleActive (Got event) w
               else if wt_pending w = [] then w\<lparr>wt_pending := [event]\<rparr> else w))"

definition waiter_close :: "waiter \<Rightarrow> waiter" where
  "waiter_close w = (if wt_closed w then w else settleActive Timed_out (w\<lparr>wt_closed := True, wt_subscribed := False\<rparr>))"

text \<open>\<open>wait\<close>: throws, or answers at once, or leaves a wait under way; a timeout is a number of milliseconds.\<close>

definition waiter_wait :: "rat option \<Rightarrow> waiter \<Rightarrow> (string + json option) option \<times> waiter" where
  "waiter_wait timeoutMs w =
     (case timeoutMs of
        None \<Rightarrow> (Some (Inl ''timeoutMs must be a positive number.''), w)
      | Some ms \<Rightarrow>
          if ms \<le> 0 then (Some (Inl ''timeoutMs must be a positive number.''), w)
          else if wt_closed w then (Some (Inr None), w)
          else
            (case wt_error w of
               Some e \<Rightarrow> (Some (Inl e), w)
             | None \<Rightarrow>
                 (case wt_pending w of
                    event # rest \<Rightarrow> (Some (Inr (Some event)), w\<lparr>wt_pending := rest\<rparr>)
                  | [] \<Rightarrow>
                      if wt_active w \<noteq> None then (Some (Inl ''terminal signal waiter already has an active wait''), w)
                      else (None, w\<lparr>wt_active := Some (wt_begun w), wt_begun := wt_begun w + 1\<rparr>))))"

datatype waiter_event = Message "string + (string + json)" | Wait "rat option" | Timer | Close_waiter

fun waiter_step :: "string \<Rightarrow> waiter_event \<Rightarrow> waiter \<Rightarrow> waiter" where
  "waiter_step transferId (Message m) w = (if wt_subscribed w then waiter_message transferId m w else w)"
| "waiter_step transferId (Wait ms) w = snd (waiter_wait ms w)"
| "waiter_step transferId Timer w = settleActive Timed_out w"
| "waiter_step transferId Close_waiter w = waiter_close w"

inductive waiter_reaches :: "string \<Rightarrow> waiter \<Rightarrow> bool" for transferId :: string where
  opened: "waiter_reaches transferId new_waiter"
| stepped: "waiter_reaches transferId w \<Longrightarrow> waiter_reaches transferId (waiter_step transferId ev w)"

text \<open>An event of the transfer's own.\<close>

definition terminal_of :: "string \<Rightarrow> json \<Rightarrow> bool" where
  "terminal_of transferId event \<longleftrightarrow> parseTerminalEvent event transferId = Inr event"

definition waiter_ok :: "string \<Rightarrow> waiter \<Rightarrow> bool" where
  "waiter_ok transferId w \<longleftrightarrow>
     map fst (wt_results w) @ (case wt_active w of None \<Rightarrow> [] | Some n \<Rightarrow> [n]) = [0..<wt_begun w]
     \<and> length (wt_pending w) \<le> 1 \<and> list_all (terminal_of transferId) (wt_pending w)
     \<and> list_all (\<lambda>(_, r). case r of Got event \<Rightarrow> terminal_of transferId event | _ \<Rightarrow> True) (wt_results w)
     \<and> (wt_subscribed w \<longleftrightarrow> \<not> wt_closed w \<and> wt_error w = None)
     \<and> (\<not> wt_subscribed w \<longrightarrow> wt_active w = None)
     \<and> (wt_active w \<noteq> None \<longrightarrow> wt_pending w = [])"

lemma parse_terminal: "parseTerminalEvent value transferId = Inr event \<Longrightarrow> terminal_of transferId event"
  by (auto simp: terminal_of_def parseTerminalEvent_def split: if_splits)

text \<open>
  A terminal waiter hands out ends of its own transfer only, and settles every wait. In every state it can reach, each
  wait it began has settled exactly once, in order, but for the one under way; what a wait or the next wait returns is a
  terminal event of this very transfer; nothing is under way once it failed or was closed, and no event is kept back
  while a wait is under way.
\<close>

theorem waiter_settles_each_wait:
  assumes "waiter_reaches transferId w"
  shows "waiter_ok transferId w"
  using assms
proof (induction rule: waiter_reaches.induct)
  case opened
  show ?case by (simp add: waiter_ok_def new_waiter_def)
next
  case (stepped w ev)
  show ?case
  proof (cases ev)
    case (Message m)
    with stepped.IH show ?thesis
      by (auto simp: waiter_ok_def waiter_message_def waiter_failed_def settleActive_def dest: parse_terminal
          split: sum.splits option.splits)
  next
    case (Wait ms)
    with stepped.IH show ?thesis
      by (auto simp: waiter_ok_def waiter_wait_def split: option.splits list.splits)
  next
    case Timer
    with stepped.IH show ?thesis by (auto simp: waiter_ok_def settleActive_def split: option.splits)
  next
    case Close_waiter
    with stepped.IH show ?thesis by (auto simp: waiter_ok_def waiter_close_def settleActive_def split: option.splits)
  qed
qed

definition demo_terminal :: json where
  "demo_terminal = JObj [(''schema_version'', JStr TRANSFER_CLIENT_CONTROL_SCHEMA_VERSION), (''producer'', JStr ''transfer-runtime''),
     (''transfer_id'', JStr ''t1''), (''status'', JStr ''completed''), (''occurred_at'', JStr ''2026-01-01T00:00:00.000Z'')]"

theorem waiter_settles_each_wait_witness:
  "let w = fold (waiter_step ''t1'') [Wait (Some 100), Timer, Wait (Some 100), Message (Inr (Inr demo_terminal))] new_waiter in
   waiter_ok ''t1'' w \<and> wt_results w = [(0, Timed_out), (1, Got demo_terminal)]"
proof -
  let ?w = "fold (waiter_step ''t1'') [Wait (Some 100), Timer, Wait (Some 100), Message (Inr (Inr demo_terminal))] new_waiter"
  have "waiter_reaches ''t1'' (waiter_step ''t1'' (Message (Inr (Inr demo_terminal))) (waiter_step ''t1'' (Wait (Some 100))
      (waiter_step ''t1'' Timer (waiter_step ''t1'' (Wait (Some 100)) new_waiter))))"
    by (intro waiter_reaches.stepped waiter_reaches.opened)
  then have "waiter_reaches ''t1'' ?w" by simp
  then have "waiter_ok ''t1'' ?w" by (rule waiter_settles_each_wait)
  moreover have "wt_results ?w = [(0, Timed_out), (1, Got demo_terminal)]" by code_simp
  ultimately show ?thesis by (simp only: Let_def)
qed

subsection \<open>The route recovery signer\<close>

definition ROUTE_RECOVERY_SIGN_MESSAGE_TYPE :: string where "ROUTE_RECOVERY_SIGN_MESSAGE_TYPE = ''transfer.route_recovery.sign''"

text \<open>
  The checks of a decoded request, in order; reading a member of \<open>undefined\<close> or \<open>null\<close> throws. The text of such an
  exception is the engine's and is abbreviated.
\<close>

definition type_error :: string where "type_error = ''Cannot read properties of undefined''"

definition no_members :: "json option \<Rightarrow> bool" where
  "no_members v \<longleftrightarrow> v = None \<or> v = Some JNull"

definition empty_length :: "json option \<Rightarrow> bool" where
  "empty_length v \<longleftrightarrow> v = Some (JStr []) \<or> v = Some (JArr [])"

definition route_recovery_request :: "control_config \<Rightarrow> string \<Rightarrow> json \<Rightarrow> string + json" where
  "route_recovery_request cf transferId request =
     (let mismatch = ''route recovery request envelope mismatch''; payload = jget request ''payload'' in
      if request = JNull then Inl type_error
      else if jget request ''schema_version'' \<noteq> Some (JStr TRANSFER_CLIENT_CONTROL_SCHEMA_VERSION)
          \<or> jget request ''environment'' \<noteq> Some (JStr (ci_environment cf))
          \<or> jget request ''key_prefix'' \<noteq> Some (JStr (ci_keyPrefix cf))
          \<or> jget request ''transfer_id'' \<noteq> Some (JStr transferId)
          \<or> jget request ''message_type'' \<noteq> Some (JStr ROUTE_RECOVERY_SIGN_MESSAGE_TYPE)
          \<or> jget request ''producer'' \<noteq> Some (JStr ''transfer-runtime'') then Inl mismatch
      else if no_members payload then Inl type_error
      else if jget (the payload) ''transfer_id'' \<noteq> Some (JStr transferId) then Inl mismatch
      else if no_members (jget (the payload) ''route_generation_id'') then Inl type_error
      else if empty_length (jget (the payload) ''route_generation_id'') then Inl mismatch
      else
        (case as_arr (jget (the payload) ''chunks'') of
           Some (_ # _) \<Rightarrow> Inr (the payload)
         | _ \<Rightarrow> Inl mismatch))"

definition buildRouteRecoveryReply ::
  "control_config \<Rightarrow> string \<Rightarrow> json \<Rightarrow> bool \<Rightarrow> int \<Rightarrow> json option \<Rightarrow> json option \<Rightarrow> json" where
  "buildRouteRecoveryReply cf occurredAt request okay status payload failure = JObj (compact
     [(''message_id'', jget request ''message_id''), (''schema_version'', Some (JStr TRANSFER_CLIENT_CONTROL_SCHEMA_VERSION)),
      (''environment'', Some (JStr (ci_environment cf))), (''key_prefix'', Some (JStr (ci_keyPrefix cf))),
      (''transfer_id'', jget request ''transfer_id''), (''message_type'', Some (JStr ROUTE_RECOVERY_SIGN_MESSAGE_TYPE)),
      (''request_id'', jget request ''request_id''), (''occurred_at'', Some (JStr occurredAt)),
      (''producer'', Some (JStr ''sdk'')), (''ok'', Some (JBool okay)), (''status'', Some (JNum status)),
      (''payload'', payload), (''error'', failure)])"

text \<open>What the callback answers to a message, decoded or not; the handler signs a payload.\<close>

definition unknown_request :: "string \<Rightarrow> json" where
  "unknown_request transferId = JObj [(''message_id'', JStr ''unknown''), (''request_id'', JStr ''unknown''), (''transfer_id'', JStr transferId)]"

definition answer_route_recovery ::
  "control_config \<Rightarrow> string \<Rightarrow> (json \<Rightarrow> 'w \<Rightarrow> (string + json) \<times> 'w) \<Rightarrow> string \<Rightarrow> string + json \<Rightarrow> 'w \<Rightarrow> json \<times> 'w" where
  "answer_route_recovery cf transferId handler occurredAt decoded w =
     (let failure = (\<lambda>request message. buildRouteRecoveryReply cf occurredAt request False 500 None
          (Some (JObj [(''code'', JStr ''route_recovery_sign_failed''), (''message'', JStr message)]))) in
      case decoded of
        Inl e \<Rightarrow> (failure (unknown_request transferId) e, w)
      | Inr request \<Rightarrow>
          (let asked = (if request = JNull then unknown_request transferId else request) in
           case route_recovery_request cf transferId request of
             Inl e \<Rightarrow> (failure asked e, w)
           | Inr payload \<Rightarrow>
               (case handler payload w of
                  (Inl e, w') \<Rightarrow> (failure asked e, w')
                | (Inr routes, w') \<Rightarrow> (buildRouteRecoveryReply cf occurredAt request True 200 (Some routes) None, w'))))"

text \<open>A request of the runtime for this client and this transfer, with what it asks to be signed.\<close>

definition own_recovery_request :: "control_config \<Rightarrow> string \<Rightarrow> json \<Rightarrow> json \<Rightarrow> bool" where
  "own_recovery_request cf transferId request payload \<longleftrightarrow>
     jget request ''environment'' = Some (JStr (ci_environment cf)) \<and> jget request ''key_prefix'' = Some (JStr (ci_keyPrefix cf))
     \<and> jget request ''producer'' = Some (JStr ''transfer-runtime'') \<and> jget request ''transfer_id'' = Some (JStr transferId)
     \<and> jget request ''payload'' = Some payload \<and> jget payload ''transfer_id'' = Some (JStr transferId)"

lemma route_recovery_request_own:
  "route_recovery_request cf transferId request = Inr payload \<Longrightarrow> own_recovery_request cf transferId request payload"
  by (auto simp: route_recovery_request_def own_recovery_request_def Let_def no_members_def split: if_splits option.splits list.splits)

lemma jget_reply:
  "jget (buildRouteRecoveryReply cf occurredAt request okay status payload failure) ''ok'' = Some (JBool okay)"
  "jget (buildRouteRecoveryReply cf occurredAt request okay status payload failure) ''status'' = Some (JNum status)"
  "jget (buildRouteRecoveryReply cf occurredAt request okay status payload failure) ''payload'' = payload"
  by (simp_all add: buildRouteRecoveryReply_def compact_def split: option.splits)

text \<open>
  C19. Recovery routes are signed only on the runtime's request for this client and this transfer. Either the message
  names this environment, this key and this transfer in its envelope and its payload, signing what it asks for succeeds,
  and the reply is the success with those routes under the request's own identifiers; or the reply is the failure with
  status 500 and no routes, and nothing was signed but, at most, such a request in vain.
\<close>

theorem recovery_signed_only_for_own_transfer:
  "let (r, w') = answer_route_recovery cf transferId handler occurredAt decoded w in
   (\<exists>request payload routes. decoded = Inr request \<and> own_recovery_request cf transferId request payload
      \<and> handler payload w = (Inr routes, w') \<and> r = buildRouteRecoveryReply cf occurredAt request True 200 (Some routes) None)
   \<or> (jget r ''ok'' = Some (JBool False) \<and> jget r ''status'' = Some (JNum 500) \<and> jget r ''payload'' = None
      \<and> (w' = w \<or> (\<exists>request payload e. decoded = Inr request \<and> own_recovery_request cf transferId request payload
           \<and> handler payload w = (Inl e, w'))))"
proof (cases decoded)
  case (Inl e)
  then show ?thesis by (simp add: answer_route_recovery_def jget_reply Let_def)
next
  case (Inr request)
  show ?thesis
  proof (cases "route_recovery_request cf transferId request")
    case (Inl e)
    with Inr show ?thesis by (simp add: answer_route_recovery_def jget_reply Let_def)
  next
    case own: (Inr payload)
    then have nn: "request \<noteq> JNull" by (auto simp: route_recovery_request_def Let_def)
    obtain h w' where h: "handler payload w = (h, w')" by force
    from route_recovery_request_own [OF own] own Inr h nn show ?thesis
      by (cases h) (auto simp: answer_route_recovery_def jget_reply Let_def)
  qed
qed

subsection \<open>The integrity signer\<close>

text \<open>
  One audit at a time: requests for the challenge being signed share its signature. A message comes with its decoded
  request, or with what reading it threw; messages without a reply address are not for the signer.
\<close>

record integrity_signer =
  sg_active :: bool
  sg_pending :: "json option"
  sg_auditId :: "json option"
  sg_fingerprint :: string
  sg_awaiting :: "json list"
  sg_replies :: "(json \<times> json option) list"
  sg_signed :: "(json \<times> json) list"

definition new_signer :: integrity_signer where
  "new_signer = \<lparr>sg_active = True, sg_pending = None, sg_auditId = None, sg_fingerprint = [], sg_awaiting = [], sg_replies = [], sg_signed = []\<rparr>"

definition MAX_AWAITING :: nat where "MAX_AWAITING = 32"

definition integrity_request :: "control_config \<Rightarrow> string \<Rightarrow> json \<Rightarrow> json option" where
  "integrity_request cf transferId request =
     (if jget request ''schema_version'' \<noteq> Some (JStr TRANSFER_CLIENT_CONTROL_SCHEMA_VERSION)
        \<or> jget request ''capability'' \<noteq> Some (JStr ''integrity-signing/v1'')
        \<or> jget request ''producer'' \<noteq> Some (JStr ''transfer-runtime'')
        \<or> jget request ''environment'' \<noteq> Some (JStr (ci_environment cf))
        \<or> jget request ''key_prefix'' \<noteq> Some (JStr (ci_keyPrefix cf))
        \<or> jget request ''transfer_id'' \<noteq> Some (JStr transferId)
        \<or> as_str (jget request ''request_id'') = None then None
      else (case jget request ''challenge'' of
              None \<Rightarrow> None
            | Some challenge \<Rightarrow> if jget challenge ''transfer_id'' \<noteq> Some (JStr transferId) then None else Some challenge))"

text \<open>A reply without a payload is \<open>{"retry":true}\<close>.\<close>

definition integrity_message :: "control_config \<Rightarrow> string \<Rightarrow> string + json \<Rightarrow> integrity_signer \<Rightarrow> integrity_signer" where
  "integrity_message cf transferId decoded s =
     (let retry = (\<lambda>request. s\<lparr>sg_replies := sg_replies s @ [(request, None)]\<rparr>) in
      if \<not> sg_active s then s
      else if length (sg_awaiting s) \<ge> MAX_AWAITING then retry (case decoded of Inl _ \<Rightarrow> JNull | Inr request \<Rightarrow> request)
      else
        (case decoded of
           Inl _ \<Rightarrow> retry JNull
         | Inr request \<Rightarrow>
             (case integrity_request cf transferId request of
                None \<Rightarrow> retry request
              | Some challenge \<Rightarrow>
                  if sg_pending s \<noteq> None
                     \<and> (sg_auditId s \<noteq> jget challenge ''audit_id'' \<or> sg_fingerprint s \<noteq> stringify challenge) then retry request
                  else if sg_pending s \<noteq> None then s\<lparr>sg_awaiting := sg_awaiting s @ [request]\<rparr>
                  else s\<lparr>sg_auditId := jget challenge ''audit_id'', sg_fingerprint := stringify challenge,
                    sg_pending := Some challenge, sg_awaiting := sg_awaiting s @ [request]\<rparr>)))"

text \<open>The handler settles: with a signature the requests are answered unless the signer was stopped; with an error they retry.\<close>

definition integrity_signed :: "string + json \<Rightarrow> integrity_signer \<Rightarrow> integrity_signer" where
  "integrity_signed answer s =
     (case sg_pending s of
        None \<Rightarrow> s
      | Some challenge \<Rightarrow>
          (case answer of
             Inl _ \<Rightarrow> s\<lparr>sg_pending := None, sg_awaiting := [], sg_replies := sg_replies s @ map (\<lambda>request. (request, None)) (sg_awaiting s)\<rparr>
           | Inr payload \<Rightarrow> s\<lparr>sg_pending := None, sg_awaiting := [], sg_signed := sg_signed s @ [(challenge, payload)],
               sg_replies := sg_replies s @ (if sg_active s then map (\<lambda>request. (request, Some payload)) (sg_awaiting s) else [])\<rparr>))"

definition integrity_stop :: "integrity_signer \<Rightarrow> integrity_signer" where
  "integrity_stop s = s\<lparr>sg_active := False\<rparr>"

inductive signer_reaches :: "control_config \<Rightarrow> string \<Rightarrow> integrity_signer \<Rightarrow> bool" for cf :: control_config and transferId :: string where
  serving: "signer_reaches cf transferId new_signer"
| message: "signer_reaches cf transferId s \<Longrightarrow> signer_reaches cf transferId (integrity_message cf transferId decoded s)"
| handled: "signer_reaches cf transferId s \<Longrightarrow> signer_reaches cf transferId (integrity_signed answer s)"
| stopped: "signer_reaches cf transferId s \<Longrightarrow> signer_reaches cf transferId (integrity_stop s)"

definition own_signature :: "control_config \<Rightarrow> string \<Rightarrow> (json \<times> json) list \<Rightarrow> json \<times> json option \<Rightarrow> bool" where
  "own_signature cf transferId made entry \<longleftrightarrow>
     (\<forall>payload. snd entry = Some payload \<longrightarrow>
        (\<exists>challenge. integrity_request cf transferId (fst entry) = Some challenge \<and> (challenge, payload) \<in> set made))"

lemma own_signature_None [simp]: "own_signature cf transferId made (request, None)"
  by (simp add: own_signature_def)

lemma own_signature_more: "own_signature cf transferId made entry \<Longrightarrow> own_signature cf transferId (made @ later) entry"
  by (auto simp: own_signature_def)

definition signer_ok :: "control_config \<Rightarrow> string \<Rightarrow> integrity_signer \<Rightarrow> bool" where
  "signer_ok cf transferId s \<longleftrightarrow> length (sg_awaiting s) \<le> MAX_AWAITING
     \<and> (case sg_pending s of
          None \<Rightarrow> sg_awaiting s = []
        | Some challenge \<Rightarrow> sg_fingerprint s = stringify challenge
            \<and> list_all (\<lambda>request. integrity_request cf transferId request = Some challenge) (sg_awaiting s))
     \<and> list_all (own_signature cf transferId (sg_signed s)) (sg_replies s)"

text \<open>
  C20. An integrity signature answers the challenge it was made for. In every state the signer can reach, a reply with a
  signature goes to a request of the runtime for this client and this transfer, and the signature was made for that
  request's own challenge, also where requests shared one signing; the requests that wait are at most 32 and all ask for
  the challenge being signed.
\<close>

theorem integrity_signature_answers_own_challenge:
  assumes "signer_reaches cf transferId s"
  shows "signer_ok cf transferId s"
  using assms
proof (induction rule: signer_reaches.induct)
  case serving
  show ?case by (simp add: signer_ok_def new_signer_def)
next
  case (message s decoded)
  then show ?case
    by (auto simp: signer_ok_def integrity_message_def Let_def dest: stringify_inj split: option.splits sum.splits)
next
  case (handled s answer)
  then show ?case
    by (auto simp: signer_ok_def integrity_signed_def list_all_iff own_signature_more split: option.splits sum.splits)
      (auto simp: own_signature_def)
next
  case (stopped s)
  then show ?case by (simp add: signer_ok_def integrity_stop_def split: option.splits)
qed

definition demo_challenge :: json where
  "demo_challenge = JObj [(''transfer_id'', JStr ''t1''), (''audit_id'', JStr ''a1'')]"

definition demo_integrity_request :: "string \<Rightarrow> json" where
  "demo_integrity_request requestId = JObj [(''schema_version'', JStr TRANSFER_CLIENT_CONTROL_SCHEMA_VERSION),
     (''capability'', JStr ''integrity-signing/v1''), (''producer'', JStr ''transfer-runtime''), (''environment'', JStr ''prod''),
     (''key_prefix'', JStr ''b1m_live_abc''), (''transfer_id'', JStr ''t1''), (''request_id'', JStr requestId),
     (''challenge'', demo_challenge)]"

theorem integrity_signature_answers_own_challenge_witness:
  "let s = integrity_signed (Inr (JStr ''sig'')) (integrity_message demo_config ''t1'' (Inr (demo_integrity_request ''r2''))
       (integrity_message demo_config ''t1'' (Inr (demo_integrity_request ''r1'')) new_signer)) in
   signer_ok demo_config ''t1'' s
   \<and> sg_replies s = [(demo_integrity_request ''r1'', Some (JStr ''sig'')), (demo_integrity_request ''r2'', Some (JStr ''sig''))]"
proof -
  let ?s = "integrity_signed (Inr (JStr ''sig'')) (integrity_message demo_config ''t1'' (Inr (demo_integrity_request ''r2''))
       (integrity_message demo_config ''t1'' (Inr (demo_integrity_request ''r1'')) new_signer))"
  have "signer_reaches demo_config ''t1'' ?s"
    by (intro signer_reaches.handled signer_reaches.message signer_reaches.serving)
  then have "signer_ok demo_config ''t1'' ?s" by (rule integrity_signature_answers_own_challenge)
  moreover have "sg_replies ?s = [(demo_integrity_request ''r1'', Some (JStr ''sig'')), (demo_integrity_request ''r2'', Some (JStr ''sig''))]"
    by code_simp
  ultimately show ?thesis by (simp only: Let_def)
qed

subsection \<open>The hello of a runtime\<close>

text \<open>\<open>pollRuntimeHello\<close>: the capabilities a runtime told count for 15 seconds; without them it is asked as before.\<close>

definition hello_options :: "int \<Rightarrow> string \<Rightarrow> request_options" where
  "hello_options shardId key = \<lparr>ro_transferId = None, ro_idempotencyKey = Some key, ro_shardId = Some shardId\<rparr>"

definition hello_capabilities :: "json \<Rightarrow> string list" where
  "hello_capabilities hello = (case as_arr (jget hello ''capabilities'') of
      None \<Rightarrow> [] | Some cs \<Rightarrow> concat (map (\<lambda>c. case c of JStr s \<Rightarrow> [s] | _ \<Rightarrow> []) cs))"

definition pollRuntimeHello :: "'w control_env \<Rightarrow> control_config \<Rightarrow> int \<Rightarrow> 'w control_run \<Rightarrow> 'w control_run" where
  "pollRuntimeHello env cf shardId cs =
     (case sdk_request env cf ''runtime.hello'' [(''capabilities'', JArr [JStr ''integrity-signing/v1'', JStr ''sdk-performance/v2''])]
         (hello_options shardId (''runtime:hello:'' @ show_int shardId @ '':integrity-signing'')) cs of
        (Inr hello, cs') \<Rightarrow> cs'\<lparr>cr_control := (cr_control cs')\<lparr>lc_capabilities :=
            amap_set shardId (ce_now_ms env (cr_world cs') + 15000, hello_capabilities hello) (lc_capabilities (cr_control cs'))\<rparr>\<rparr>
      | (Inl _, cs') \<Rightarrow> snd (sdk_request env cf ''runtime.hello'' []
            (hello_options shardId (''runtime:hello:'' @ show_int shardId)) cs'))"

definition supportsPerformanceV2 :: "control_config \<Rightarrow> lifecycle \<Rightarrow> int \<Rightarrow> string \<Rightarrow> bool" where
  "supportsPerformanceV2 cf st now transferId =
     (case map_of (lc_capabilities st) (transferShardId transferId (cg_shardCount cf)) of
        None \<Rightarrow> False
      | Some (until, capabilities) \<Rightarrow> until > now \<and> List.member capabilities ''sdk-performance/v2'')"

text \<open>The shards the monitor asks, each once.\<close>

definition monitored_shards :: "control_config \<Rightarrow> lifecycle \<Rightarrow> int list" where
  "monitored_shards cf st = dedup (map (\<lambda>(t, _). transferShardId t (cg_shardCount cf)) (lc_leases st))"

definition hello_tick :: "'w control_env \<Rightarrow> control_config \<Rightarrow> 'w control_run \<Rightarrow> 'w control_run" where
  "hello_tick env cf cs = fold (pollRuntimeHello env cf) (monitored_shards cf (cr_control cs)) cs"

lemma shard_in_range: "0 < shardCount \<Longrightarrow> 0 \<le> transferShardId t shardCount \<and> transferShardId t shardCount < shardCount"
  by (simp add: transferShardId_def)

end
