(* ===== verification/SdkClient.thy ===== *)
theory SdkClient
  imports SdkSigning SdkSignals
begin

text \<open>
  The client of the SDK, \<open>BeamClient\<close> of \<open>client.ts\<close>: the identifiers it derives, the requests of its operations,
  the signers it keeps for the transfers it owns, the status of a transfer with the audit it may ask for, and the wait
  for its end. A client runs on the control of \<open>SdkRequest\<close>, whose state holds the leases, and on an outside world:
  the connection, the terminal signal waiter, the Hub, the clock. What else happens to the leases while a call is
  under way is the control's \<open>ce_meanwhile\<close>; the client's own registers change only in its own calls.
\<close>

subsection \<open>Identifiers and errors\<close>

definition validateId :: "string \<Rightarrow> string \<Rightarrow> string + unit" where
  "validateId value what =
     (if value = [] \<or> List.member value (CHR ''/'') \<or> occurs_in ''..'' value then Inl (what @ '' is invalid'') else Inr ())"

definition stableUuidFromIdentity :: "(string \<Rightarrow> 8 word list) \<Rightarrow> string \<Rightarrow> string" where
  "stableUuidFromIdentity sha256 identity = uuid_form (bytesToHex (mark_uuid (take 16 (sha256 identity))))"

definition routeGenerationIdForPrepareIdempotencyKey :: "(string \<Rightarrow> 8 word list) \<Rightarrow> string \<Rightarrow> string" where
  "routeGenerationIdForPrepareIdempotencyKey sha256 key = stableUuidFromIdentity sha256 (''beam-route-generation:'' @ trim key)"

text \<open>What a call of the client throws.\<close>

datatype client_error = Control lifecycle_error | Thrown string
  | Transfer_failed string "string option" | Storage_access string string string

definition STORAGE_ACCESS_ERROR_CODES :: "string list" where
  "STORAGE_ACCESS_ERROR_CODES = [''source_access_denied'', ''destination_access_denied'']"

definition storageAccessErrorCode :: "string \<Rightarrow> string option" where
  "storageAccessErrorCode errorMessage =
     (let prefix = trim (takeWhile (\<lambda>c. c \<noteq> CHR '':'') errorMessage) in
      find (\<lambda>code. code = prefix) STORAGE_ACCESS_ERROR_CODES)"

definition transferFailedError :: "string \<Rightarrow> string option \<Rightarrow> client_error" where
  "transferFailedError transferId errorMessage =
     (case errorMessage of
        None \<Rightarrow> Transfer_failed transferId None
      | Some m \<Rightarrow> (case storageAccessErrorCode m of
          Some code \<Rightarrow> Storage_access transferId m code
        | None \<Rightarrow> Transfer_failed transferId (Some m)))"

definition error_text :: "string \<Rightarrow> string option \<Rightarrow> string" where
  "error_text transferId errorMessage = ''Transfer '' @ transferId @ '' failed: '' @ coalesce errorMessage ''unknown error''"

definition SECRET_WORDS :: "string list" where
  "SECRET_WORDS = [''http://'', ''https://'', ''x-amz'', ''password'', ''secret'', ''token'', ''authorization'', ''credential'']"

definition integrityAuditErrorSummary :: "string \<Rightarrow> string \<Rightarrow> string" where
  "integrityAuditErrorSummary ename emessage =
     (let message = trim emessage in
      if message = [] \<or> list_ex (\<lambda>w. occurs_in w (to_lower message)) SECRET_WORDS
      then coalesce (truthy (Some ename)) ''unknown_error'' else utf16_prefix 200 message)"

subsection \<open>The state of a client\<close>

text \<open>
  A registered recovery signer: the lease that owns it, the number of its start, and whether its \<open>stop\<close> also ends the
  subscription of the integrity signer.
\<close>

record registration =
  rg_owner :: lease
  rg_serial :: nat
  rg_integrity :: bool

datatype client_event = Status_read "client_error + json" int | Waiter_opened | Waited int int | Slept_for int int | Waiter_closed
  | Uploads_finalized

text \<open>
  \<open>cl_open\<close> are the subscriptions that are served: \<open>(n, False)\<close> the recovery signer and \<open>(n, True)\<close> the integrity signer
  of start \<open>n\<close>. \<open>cl_flushing\<close> are those the control has made while it awaits the flush of the connection. When that
  rejects, the subscription stays, and no \<open>stop\<close> of it was ever handed out. \<open>cl_log\<close> records what a wait did.
\<close>

record 'w client =
  cl_run :: "'w control_run"
  cl_signers :: "(string \<times> registration) list"
  cl_grants :: grant_state
  cl_open :: "(nat \<times> bool) list"
  cl_flushing :: "(nat \<times> bool) list"
  cl_starts :: nat
  cl_uploads :: "(string \<times> hub_upload list) list"
  cl_hub_log :: "hub_event list"
  cl_log :: "client_event list"

record 'w client_env =
  cn_control :: "'w control_env"
  cn_hub :: "'w hub_env"
  cn_open :: "string \<Rightarrow> 'w \<Rightarrow> (string + unit) \<times> 'w"
  cn_wait :: "int \<Rightarrow> 'w \<Rightarrow> (string + json option) \<times> 'w"
  cn_close :: "'w \<Rightarrow> (string + unit) \<times> 'w"
  cn_submission :: "string \<Rightarrow> 'w \<Rightarrow> (string \<times> string + unit) \<times> 'w"
  cn_payload :: "nat \<Rightarrow> 'w \<Rightarrow> (string \<times> string + (json \<times> int option list)) \<times> 'w"
  cn_errorName :: "lifecycle_error \<Rightarrow> string"

definition client_now :: "'w client_env \<Rightarrow> 'w client \<Rightarrow> int" where
  "client_now env cl = ce_now_ms (cn_control env) (cr_world (cl_run cl))"

text \<open>An await on something outside: the world moves on, and the leases may.\<close>

definition outside :: "'w client_env \<Rightarrow> control_config \<Rightarrow> ('w \<Rightarrow> 'a \<times> 'w) \<Rightarrow> 'w client \<Rightarrow> 'a \<times> 'w client" where
  "outside env cf f cl = (case f (cr_world (cl_run cl)) of
     (a, w) \<Rightarrow> (a, cl\<lparr>cl_run := after_await (cn_control env) cf w (cl_run cl)\<rparr>))"

definition client_request ::
  "'w client_env \<Rightarrow> control_config \<Rightarrow> string \<Rightarrow> (string \<times> json) list \<Rightarrow> request_options \<Rightarrow> 'w client
   \<Rightarrow> (client_error + json) \<times> 'w client" where
  "client_request env cf messageType payload o1 cl =
     (case sdk_request (cn_control env) cf messageType payload o1 (cl_run cl) of
        (r, cs) \<Rightarrow> (map_sum Control (\<lambda>j. j) r, cl\<lparr>cl_run := cs\<rparr>))"

definition on_control :: "(lifecycle \<Rightarrow> lifecycle) \<Rightarrow> 'w client \<Rightarrow> 'w client" where
  "on_control f cl = cl\<lparr>cl_run := (cl_run cl)\<lparr>cr_control := f (cr_control (cl_run cl))\<rparr>\<rparr>"

definition cl_control :: "'w client \<Rightarrow> lifecycle" where
  "cl_control cl = cr_control (cl_run cl)"

definition randomUuid :: "'w client_env \<Rightarrow> 'w client \<Rightarrow> string \<times> 'w client" where
  "randomUuid env cl = (ce_randomId (cn_control env) (lc_randoms (cl_control cl)), on_control (\<lambda>st. st\<lparr>lc_randoms := lc_randoms st + 1\<rparr>) cl)"

definition transferIdFor :: "'w client_env \<Rightarrow> string option \<Rightarrow> 'w client \<Rightarrow> string \<times> 'w client" where
  "transferIdFor env idempotencyKey cl =
     (case truthy (map_option trim idempotencyKey) of
        None \<Rightarrow> randomUuid env cl
      | Some key \<Rightarrow> (stableUuidFromIdentity (ce_sha256 (cn_control env)) (''beam-transfer:'' @ key), cl))"

subsection \<open>Signers of the transfers the client owns\<close>

text \<open>\<open>signer.stop()\<close>.\<close>

definition stop_registration :: "registration \<Rightarrow> 'w client \<Rightarrow> 'w client" where
  "stop_registration r cl = cl\<lparr>cl_open := filter (\<lambda>(n, i). \<not> (n = rg_serial r \<and> (i \<longrightarrow> rg_integrity r))) (cl_open cl)\<rparr>"

definition stopRecoverySigner :: "string \<Rightarrow> lease option \<Rightarrow> 'w client \<Rightarrow> 'w client" where
  "stopRecoverySigner transferId owner cl =
     (let signer = map_of (cl_signers cl) transferId in
      if owner \<noteq> None \<and> map_option rg_owner signer \<noteq> owner then cl
      else
        (let cl1 = (case signer of
             None \<Rightarrow> cl
           | Some r \<Rightarrow> (stop_registration r cl)\<lparr>cl_signers := amap_delete transferId (cl_signers cl)\<rparr>) in
         cl1\<lparr>cl_grants := stop_grants transferId (cl_grants cl1)\<rparr>))"

definition stopAllRecoverySigners :: "'w client \<Rightarrow> 'w client" where
  "stopAllRecoverySigners cl = fold (\<lambda>t. stopRecoverySigner t None) (map fst (cl_signers cl)) cl"

definition close_client :: "'w client \<Rightarrow> 'w client" where
  "close_client cl = on_control close_control (stopAllRecoverySigners cl)"

text \<open>
  \<open>startProviderRouteRecoverySigner\<close>, cut at its awaits, which are those of \<open>serveRouteRecoverySigner\<close> and
  \<open>serveIntegritySigner\<close>: each connects, subscribes, and then awaits the flush of the connection before it hands out the
  \<open>stop\<close>. The number of a start is that of its subscription. A recovery subscription whose connection or flush rejects
  ends the start with that error and no step of the client.
\<close>

definition signer_begin :: "string \<Rightarrow> 'w client \<Rightarrow> 'w client" where
  "signer_begin transferId cl = stopRecoverySigner transferId None cl"

definition signer_subscribed :: "'w client \<Rightarrow> 'w client" where
  "signer_subscribed cl = cl\<lparr>cl_starts := cl_starts cl + 1, cl_flushing := cl_flushing cl @ [(cl_starts cl, False)]\<rparr>"

definition integrity_subscribed :: "nat \<Rightarrow> 'w client \<Rightarrow> 'w client" where
  "integrity_subscribed n cl = cl\<lparr>cl_flushing := cl_flushing cl @ [(n, True)]\<rparr>"

text \<open>The flush came back: the subscription is served, and its \<open>stop\<close> is known.\<close>

definition flushed :: "nat \<times> bool \<Rightarrow> 'w client \<Rightarrow> 'w client" where
  "flushed x cl = cl\<lparr>cl_flushing := filter (\<lambda>y. y \<noteq> x) (cl_flushing cl), cl_open := cl_open cl @ [x]\<rparr>"

definition signer_served :: "string \<Rightarrow> lease \<Rightarrow> nat \<Rightarrow> bool \<Rightarrow> 'w client \<Rightarrow> 'w client" where
  "signer_served transferId owner n aborted cl0 =
     (let cl = flushed (n, False) cl0 in
      if aborted then cl\<lparr>cl_open := filter (\<lambda>x. x \<noteq> (n, False)) (cl_open cl)\<rparr>
      else
        (let cl1 = stopRecoverySigner transferId None cl in
         cl1\<lparr>cl_grants := (cl_grants cl1)\<lparr>gs_signers := gs_signers (cl_grants cl1) @ [transferId]\<rparr>,
            cl_signers := amap_set transferId \<lparr>rg_owner = owner, rg_serial = n, rg_integrity = False\<rparr> (cl_signers cl1)\<rparr>))"

text \<open>The integrity subscription is served, or its connection or its flush rejected, which is caught.\<close>

definition integrity_served :: "string \<Rightarrow> lease \<Rightarrow> nat \<Rightarrow> bool \<Rightarrow> bool \<Rightarrow> 'w client \<Rightarrow> 'w client" where
  "integrity_served transferId owner n served aborted cl0 =
     (if served then
        (let cl = flushed (n, True) cl0; r = map_of (cl_signers cl) transferId in
         if aborted \<or> map_option rg_serial r \<noteq> Some n then
           cl\<lparr>cl_open := filter (\<lambda>(m, _). m \<noteq> n) (cl_open cl)\<rparr>
         else (case r of
             None \<Rightarrow> cl
           | Some reg \<Rightarrow> cl\<lparr>cl_signers := amap_set transferId (reg\<lparr>rg_integrity := True\<rparr>) (cl_signers cl)\<rparr>))
      else if aborted then stopRecoverySigner transferId (Some owner) cl0 else cl0)"


subsection \<open>Operations\<close>

record raw_input =
  ri_sources :: json
  ri_destinations :: json
  ri_totalSize :: json
  ri_name :: "string option"
  ri_merkleRoot :: "string option"
  ri_chunkHashes :: "json option"
  ri_callbacks :: "json option"
  ri_progressiveMode :: bool
  ri_signedUrlFlow :: "string option"
  ri_idempotencyKey :: "string option"

definition transfer_options :: "string \<Rightarrow> string option \<Rightarrow> request_options" where
  "transfer_options transferId key = \<lparr>ro_transferId = Some transferId, ro_idempotencyKey = key, ro_shardId = None\<rparr>"

definition transfer_key :: "string \<Rightarrow> string \<Rightarrow> string" where
  "transfer_key transferId step = ''transfer:'' @ transferId @ '':'' @ step"

definition raw_payload :: "string \<Rightarrow> raw_input \<Rightarrow> (string \<times> json) list" where
  "raw_payload transferId i = compact
     [(''transfer_id'', Some (JStr transferId)), (''sources'', Some (ri_sources i)), (''destinations'', Some (ri_destinations i)),
      (''total_size'', Some (ri_totalSize i)), (''name'', map_option JStr (ri_name i)),
      (''merkle_root'', map_option JStr (ri_merkleRoot i)), (''chunk_hashes'', ri_chunkHashes i), (''callbacks'', ri_callbacks i),
      (''progressive_mode'', if ri_progressiveMode i then Some (JBool True) else None),
      (''signed_url_flow'', Some (JStr (coalesce (ri_signedUrlFlow i) ''signed_url'')))]"

definition createRawTransfer ::
  "'w client_env \<Rightarrow> control_config \<Rightarrow> raw_input \<Rightarrow> 'w client \<Rightarrow> (client_error + json) \<times> 'w client" where
  "createRawTransfer env cf i cl0 =
     (let (transferId, cl) = transferIdFor env (ri_idempotencyKey i) cl0 in
      client_request env cf ''transfer.create'' (raw_payload transferId i)
        (transfer_options transferId (Some (transfer_key transferId ''create''))) cl)"

definition distributeTransfer ::
  "'w client_env \<Rightarrow> control_config \<Rightarrow> string \<Rightarrow> 'w client \<Rightarrow> (client_error + json) \<times> 'w client" where
  "distributeTransfer env cf transferId cl =
     (case validateId transferId ''transferId'' of
        Inl e \<Rightarrow> (Inl (Thrown e), cl)
      | Inr _ \<Rightarrow> client_request env cf ''transfer.distribute'' [(''transfer_id'', JStr transferId)]
          (transfer_options transferId (Some (transfer_key transferId ''distribute''))) cl)"

definition requestTransferCancellation ::
  "'w client_env \<Rightarrow> control_config \<Rightarrow> string \<Rightarrow> 'w client \<Rightarrow> (client_error + json) \<times> 'w client" where
  "requestTransferCancellation env cf transferId cl =
     (case validateId transferId ''transferId'' of
        Inl e \<Rightarrow> (Inl (Thrown e), cl)
      | Inr _ \<Rightarrow> client_request env cf ''transfer.cancel'' [(''transfer_id'', JStr transferId)]
          (transfer_options transferId (Some (transfer_key transferId ''cancel''))) cl)"

text \<open>What a transfer that has ended gives up: its lease and its signers.\<close>

definition let_go :: "string \<Rightarrow> 'w client \<Rightarrow> 'w client" where
  "let_go transferId cl = stopRecoverySigner transferId None (on_control (releaseRecoveryLease transferId None) cl)"

definition cancelTransfer ::
  "'w client_env \<Rightarrow> control_config \<Rightarrow> string \<Rightarrow> 'w client \<Rightarrow> (client_error + json) \<times> 'w client" where
  "cancelTransfer env cf transferId cl0 =
     (case requestTransferCancellation env cf transferId cl0 of
        (Inl e, cl) \<Rightarrow> (Inl e, cl)
      | (Inr result, cl) \<Rightarrow> (Inr result, let_go transferId cl))"

definition createAndDistribute ::
  "'w client_env \<Rightarrow> control_config \<Rightarrow> raw_input \<Rightarrow> 'w client \<Rightarrow> (client_error + json) \<times> 'w client" where
  "createAndDistribute env cf i cl0 =
     (case createRawTransfer env cf i cl0 of
        (Inl e, cl) \<Rightarrow> (Inl e, cl)
      | (Inr transfer, cl) \<Rightarrow>
          if falsy (jget transfer ''success'') then (Inr transfer, cl)
          else (case distributeTransfer env cf (coalesce (as_str (jget transfer ''transfer_id'')) []) cl of
              (Inl e, cl) \<Rightarrow> (Inl e, cl)
            | (Inr _, cl) \<Rightarrow> (Inr transfer, cl)))"

record prepare_input =
  pi_transferId :: "string option"
  pi_sources :: json
  pi_destinations :: json
  pi_name :: "string option"
  pi_urlsExpiresAt :: "string option"
  pi_signedUrlFlow :: "string option"
  pi_idempotencyKey :: "string option"
  pi_routeGenerationId :: "string option"

text \<open>A successful answer must hold a plan of the supported form.\<close>

definition checked_plan :: "(client_error + json) \<times> 'w client \<Rightarrow> (client_error + json) \<times> 'w client" where
  "checked_plan answer =
     (case answer of
        (Inr result, cl) \<Rightarrow>
          if falsy (jget result ''success'') then (Inr result, cl)
          else (case validateCompactTransferPlan (coalesce (jget result ''plan_descriptor'') JNull) (as_str (jget result ''signed_url_flow'')) of
              Inl e \<Rightarrow> (Inl (Thrown e), cl)
            | Inr _ \<Rightarrow> (Inr result, cl))
      | (Inl e, cl) \<Rightarrow> (Inl e, cl))"

definition planTransfer ::
  "'w client_env \<Rightarrow> control_config \<Rightarrow> prepare_input \<Rightarrow> 'w client \<Rightarrow> (client_error + json) \<times> 'w client" where
  "planTransfer env cf i cl = checked_plan (client_request env cf ''transfer.plan''
     (compact [(''sources'', Some (pi_sources i)), (''destinations'', Some (pi_destinations i)), (''name'', map_option JStr (pi_name i)),
        (''urls_expires_at'', map_option JStr (pi_urlsExpiresAt i)),
        (''signed_url_flow'', Some (JStr (coalesce (pi_signedUrlFlow i) ''signed_url'')))])
     \<lparr>ro_transferId = None, ro_idempotencyKey = None, ro_shardId = None\<rparr> cl)"

definition prepareTransferWithRequestKey ::
  "'w client_env \<Rightarrow> control_config \<Rightarrow> prepare_input \<Rightarrow> string option \<Rightarrow> int option \<Rightarrow> 'w client
   \<Rightarrow> (client_error + json) \<times> 'w client" where
  "prepareTransferWithRequestKey env cf i requestKey providerPartSize cl0 =
     (let (transferId, cl) = (case pi_transferId i of Some t \<Rightarrow> (t, cl0) | None \<Rightarrow> transferIdFor env (pi_idempotencyKey i) cl0) in
      case validateId transferId ''transferId'' of
        Inl e \<Rightarrow> (Inl (Thrown e), cl)
      | Inr _ \<Rightarrow>
          (let prepareIdempotencyKey = coalesce requestKey (transfer_key transferId ''prepare'');
               routeGenerationId = coalesce (pi_routeGenerationId i)
                 (routeGenerationIdForPrepareIdempotencyKey (ce_sha256 (cn_control env)) prepareIdempotencyKey) in
           checked_plan (client_request env cf ''transfer.prepare''
             (compact [(''transfer_id'', Some (JStr transferId)), (''route_generation_id'', Some (JStr routeGenerationId)),
                (''sources'', Some (pi_sources i)), (''destinations'', Some (pi_destinations i)),
                (''name'', map_option JStr (pi_name i)), (''provider_part_size'', map_option JNum providerPartSize),
                (''urls_expires_at'', map_option JStr (pi_urlsExpiresAt i)),
                (''signed_url_flow'', Some (JStr (coalesce (pi_signedUrlFlow i) ''signed_url'')))])
             (transfer_options transferId (Some prepareIdempotencyKey)) cl)))"

subsection \<open>The status of a transfer\<close>

definition status_is :: "json \<Rightarrow> string \<Rightarrow> bool" where
  "status_is status s \<longleftrightarrow> jget status ''status'' = Some (JStr s)"

definition ended :: "json \<Rightarrow> bool" where
  "ended status \<longleftrightarrow> list_ex (status_is status) [''completed'', ''failed'', ''cancelled'']"

fun error_parts :: "(lifecycle_error \<Rightarrow> string) \<Rightarrow> client_error \<Rightarrow> string \<times> string" where
  "error_parts ename (Control (Refused status m)) = (ename (Refused status m), m)"
| "error_parts ename (Control (Other_error code m)) = (ename (Other_error code m), m)"
| "error_parts ename (Thrown m) = (''Error'', m)"
| "error_parts ename (Transfer_failed t m) = (''BeamTransferFailedError'', error_text t m)"
| "error_parts ename (Storage_access t m code) = (''BeamStorageAccessError'', error_text t (Some m))"

fun put_key :: "string \<Rightarrow> json \<Rightarrow> json \<Rightarrow> json" where
  "put_key k v (JObj kvs) = JObj (amap_set k v kvs)"
| "put_key k v j = j"

definition forget_submission :: "string \<Rightarrow> nat \<Rightarrow> 'w client \<Rightarrow> 'w client" where
  "forget_submission auditId n cl = cl\<lparr>cl_grants := (cl_grants cl)\<lparr>gs_submissions :=
     filter (\<lambda>(a, m). \<not> (a = auditId \<and> m = n)) (gs_submissions (cl_grants cl))\<rparr>\<rparr>"

text \<open>
  The payload of the grants settles: the entry of the cache learns of it once. \<open>string \<times> string\<close> is the name and the
  message of an error.
\<close>

definition settle_pending :: "string \<Rightarrow> nat \<Rightarrow> string + int option list \<Rightarrow> 'w client \<Rightarrow> 'w client" where
  "settle_pending auditId n outcome cl =
     (case map_of (gs_cache (cl_grants cl)) auditId of
        None \<Rightarrow> cl
      | Some entry \<Rightarrow> if ge_expiresAt entry = For_ever then cl\<lparr>cl_grants := grants_settled auditId n outcome (cl_grants cl)\<rparr> else cl)"

text \<open>The submission itself: the payload goes out and must be published.\<close>

definition deliver_grants ::
  "'w client_env \<Rightarrow> control_config \<Rightarrow> string \<Rightarrow> string \<Rightarrow> string + nat \<Rightarrow> 'w client \<Rightarrow> (string \<times> string + unit) \<times> 'w client" where
  "deliver_grants env cf transferId auditId made cl0 =
     (case made of
        Inl e \<Rightarrow> (Inl (''Error'', e), cl0)
      | Inr n \<Rightarrow>
          (case outside env cf (cn_payload env n) cl0 of
             (Inl e, cl) \<Rightarrow> (Inl e, settle_pending auditId n (Inl (snd e)) cl)
           | (Inr (payload, expiries), cl) \<Rightarrow>
               (case client_request env cf ''transfer.integrity_audit_grants'' (json_entries (Some payload))
                  (transfer_options transferId (Some (transfer_key transferId (''integrity-audit:'' @ auditId @ '':''
                     @ js_string (coalesce (jget payload ''submitted_at'') JNull)))))
                  (settle_pending auditId n (Inr expiries) cl) of
                  (Inl e, cl) \<Rightarrow> (Inl (error_parts (cn_errorName env) e), cl)
                | (Inr result, cl) \<Rightarrow>
                    if jget result ''published'' \<noteq> Some (JBool True) then (Inl (''Error'', ''integrity audit delivery unavailable''), cl)
                    else (Inr (), cl))))"

definition submit_grants ::
  "'w client_env \<Rightarrow> control_config \<Rightarrow> string \<Rightarrow> string \<Rightarrow> json \<Rightarrow> 'w client \<Rightarrow> (string \<times> string + unit) \<times> 'w client" where
  "submit_grants env cf transferId auditId challenge cl0 =
     (let n = cl_starts cl0;
          (made, g) = signedIntegrityGrants (client_now env cl0) auditId transferId (stringify challenge) (cl_grants cl0);
          cl1 = cl0\<lparr>cl_starts := n + 1, cl_grants := g\<lparr>gs_submissions := amap_set auditId n (gs_submissions g)\<rparr>\<rparr> in
      case deliver_grants env cf transferId auditId made cl1 of
        (Inr _, cl) \<Rightarrow> (Inr (), cl)
      | (Inl e, cl) \<Rightarrow> (Inl e, forget_submission auditId n cl))"

definition submitIntegrityAuditGrantsIfPresent ::
  "'w client_env \<Rightarrow> control_config \<Rightarrow> json \<Rightarrow> 'w client \<Rightarrow> (string \<times> string + unit) \<times> 'w client" where
  "submitIntegrityAuditGrantsIfPresent env cf status cl =
     (case jget status ''integrity_audit_challenge'' of
        None \<Rightarrow> (Inr (), cl)
      | Some challenge \<Rightarrow>
          (let transferId = coalesce (as_str (jget challenge ''transfer_id'')) []; auditId = coalesce (as_str (jget challenge ''audit_id'')) [];
               g = cl_grants cl; cached = map_of (gs_cache g) auditId in
           if falsy (Some challenge) then (Inr (), cl)
           else if \<not> List.member (gs_signers g) transferId then (Inl (''Error'', ''integrity audit signer unavailable''), cl)
           else if (case cached of None \<Rightarrow> False | Some entry \<Rightarrow> ge_fingerprint entry \<noteq> stringify challenge) then
             (Inl (''Error'', ''integrity audit identity changed''), cl)
           else if map_of (gs_submissions g) auditId \<noteq> None
               \<and> (case cached of None \<Rightarrow> False | Some entry \<Rightarrow> valid_beyond (client_now env cl + 30000) (ge_expiresAt entry)) then
             outside env cf (cn_submission env auditId) cl
           else submit_grants env cf transferId auditId challenge cl))"

definition transferStatus ::
  "'w client_env \<Rightarrow> control_config \<Rightarrow> string \<Rightarrow> 'w client \<Rightarrow> (client_error + json) \<times> 'w client" where
  "transferStatus env cf transferId cl0 =
     (case validateId transferId ''transferId'' of
        Inl e \<Rightarrow> (Inl (Thrown e), cl0)
      | Inr _ \<Rightarrow>
          (case client_request env cf ''transfer.status'' [(''transfer_id'', JStr transferId)] (transfer_options transferId None) cl0 of
             (Inl e, cl) \<Rightarrow> (Inl e, cl)
           | (Inr answer, cl) \<Rightarrow>
               (let (status, cl') =
                  (if falsy (jget answer ''integrity_audit_challenge'') then (answer, cl)
                   else (case submitIntegrityAuditGrantsIfPresent env cf answer cl of
                       (Inr _, cl') \<Rightarrow> (answer, cl')
                     | (Inl (ename, emessage), cl') \<Rightarrow>
                         (put_key ''integrity_audit_submission_error'' (JStr (integrityAuditErrorSummary ename emessage)) answer, cl'))) in
                (Inr status, if ended status then let_go transferId cl' else cl'))))"


subsection \<open>Waiting for the end of a transfer\<close>

text \<open>The options, the times as whole milliseconds.\<close>

record wait_options =
  wo_timeoutMs :: "int option"
  wo_pollIntervalMs :: "int option"
  wo_maxPollIntervalMs :: "int option"

record wait_plan =
  wp_timeoutMs :: int
  wp_pollMs :: int
  wp_maxMs :: int

definition wait_plan_of :: "wait_options \<Rightarrow> string + wait_plan" where
  "wait_plan_of o1 =
     (let timeoutMs = coalesce (wo_timeoutMs o1) 300000; pollIntervalMs = coalesce (wo_pollIntervalMs o1) 15000;
          configured = coalesce (wo_maxPollIntervalMs o1) 30000 in
      if timeoutMs \<le> 0 then Inl ''timeoutMs must be a positive number.''
      else if pollIntervalMs \<le> 0 then Inl ''pollIntervalMs must be a positive number.''
      else if configured \<le> 0 then Inl ''maxPollIntervalMs must be a positive number.''
      else Inr \<lparr>wp_timeoutMs = timeoutMs, wp_pollMs = pollIntervalMs, wp_maxMs = max pollIntervalMs configured\<rparr>)"

text \<open>\<open>Math.round\<close> of the interval times a factor between 0.8 and 1.2, for a random number of the unit interval.\<close>

definition jitteredDelay :: "int \<Rightarrow> rat \<Rightarrow> int" where
  "jitteredDelay baseMs random = max 1 \<lfloor>rat_of_int baseMs * (4 / 5 + random * (2 / 5)) + 1 / 2\<rfloor>"

definition next_interval :: "wait_plan \<Rightarrow> int \<Rightarrow> int" where
  "next_interval wp interval = min (wp_maxMs wp) \<lceil>rat_of_int interval * (3 / 2)\<rceil>"

text \<open>\<open>pl_waiter\<close>: a terminal signal waiter is held.\<close>

record poll =
  pl_waiter :: bool
  pl_interval :: int

definition note_event :: "client_event \<Rightarrow> 'w client \<Rightarrow> 'w client" where
  "note_event ev cl = cl\<lparr>cl_log := cl_log cl @ [ev]\<rparr>"

definition sleep_for :: "'w client_env \<Rightarrow> control_config \<Rightarrow> int \<Rightarrow> 'w client \<Rightarrow> 'w client" where
  "sleep_for env cf ms cl =
     snd (outside env cf (\<lambda>w. ((), ce_sleep (cn_control env) ms w)) (note_event (Slept_for ms (client_now env cl)) cl))"

definition close_waiter :: "'w client_env \<Rightarrow> control_config \<Rightarrow> 'w client \<Rightarrow> 'w client" where
  "close_waiter env cf cl = snd (outside env cf (cn_close env) (note_event Waiter_closed cl))"

definition finalize_uploads :: "'w client_env \<Rightarrow> control_config \<Rightarrow> string \<Rightarrow> 'w client \<Rightarrow> (string + unit) \<times> 'w client" where
  "finalize_uploads env cf transferId cl =
     (case finalizeHuggingFaceUploads (cn_hub env) transferId ((cr_world (cl_run cl), cl_uploads cl), cl_hub_log cl) of
        (r, ((w, uploads), l)) \<Rightarrow>
          (r, cl\<lparr>cl_run := after_await (cn_control env) cf w (cl_run cl), cl_uploads := uploads, cl_hub_log := l\<rparr>))"

text \<open>The first half of a round: the status decides, or the time is up, or the wait goes on.\<close>

definition poll_status ::
  "'w client_env \<Rightarrow> control_config \<Rightarrow> string \<Rightarrow> wait_plan \<Rightarrow> int \<Rightarrow> 'w client \<Rightarrow> (client_error + json) option \<times> 'w client" where
  "poll_status env cf transferId wp startedAt cl0 =
     (case transferStatus env cf transferId cl0 of
        (r, cl1) \<Rightarrow>
          (let t = client_now env cl1; cl = note_event (Status_read r t) cl1 in
           case r of
             Inl e \<Rightarrow> (Some (Inl e), cl)
           | Inr status \<Rightarrow>
               if status_is status ''completed'' then
                 (case finalize_uploads env cf transferId cl of
                    (Inl e, cl) \<Rightarrow> (Some (Inl (Thrown e)), cl)
                  | (Inr _, cl) \<Rightarrow> (Some (Inr status), note_event Uploads_finalized cl))
               else if status_is status ''failed'' then
                 (Some (Inl (transferFailedError transferId (as_str (jget status ''error_message'')))), cl)
               else if status_is status ''cancelled'' then (Some (Inl (Thrown ''Transfer cancelled'')), cl)
               else if t - startedAt \<ge> wp_timeoutMs wp then
                 (Some (Inl (Thrown (''Transfer '' @ transferId @ '' did not complete within '' @ show_int (wp_timeoutMs wp) @ ''ms''))), cl)
               else (None, cl)))"

text \<open>The second half: wait for a terminal event or sleep. A waiter that fails is given up, and what is left is slept.\<close>

definition poll_pause ::
  "'w client_env \<Rightarrow> control_config \<Rightarrow> wait_plan \<Rightarrow> int \<Rightarrow> poll \<Rightarrow> 'w client \<Rightarrow> poll \<times> 'w client" where
  "poll_pause env cf wp startedAt p cl =
     (let t = client_now env cl; remainingMs = wp_timeoutMs wp - (t - startedAt);
          waitMs = min (max 1 remainingMs) (jitteredDelay (pl_interval p) (ce_random (cn_control env) (cr_world (cl_run cl))));
          slower = next_interval wp (pl_interval p) in
      if pl_waiter p then
        (case outside env cf (cn_wait env waitMs) (note_event (Waited waitMs t) cl) of
           (Inr ev, cl1) \<Rightarrow> (p\<lparr>pl_interval := if ev \<noteq> None then wp_pollMs wp else slower\<rparr>, cl1)
         | (Inl _, cl1) \<Rightarrow>
             (let cl2 = close_waiter env cf cl1; remainingWaitMs = max 0 (waitMs - (client_now env cl2 - t)) in
              (\<lparr>pl_waiter = False, pl_interval = slower\<rparr>, if remainingWaitMs > 0 then sleep_for env cf remainingWaitMs cl2 else cl2)))
      else (p\<lparr>pl_interval := slower\<rparr>, sleep_for env cf waitMs cl))"

text \<open>The loop with a bound on its rounds: \<open>None\<close> while it is still polling.\<close>

fun poll_loop ::
  "'w client_env \<Rightarrow> control_config \<Rightarrow> string \<Rightarrow> wait_plan \<Rightarrow> int \<Rightarrow> nat \<Rightarrow> poll \<Rightarrow> 'w client
   \<Rightarrow> (client_error + json) option \<times> poll \<times> 'w client" where
  "poll_loop env cf transferId wp startedAt 0 p cl = (None, p, cl)"
| "poll_loop env cf transferId wp startedAt (Suc n) p cl =
     (case poll_status env cf transferId wp startedAt cl of
        (Some r, cl1) \<Rightarrow> (Some r, p, cl1)
      | (None, cl1) \<Rightarrow> (case poll_pause env cf wp startedAt p cl1 of
          (p', cl2) \<Rightarrow> poll_loop env cf transferId wp startedAt n p' cl2))"

definition openTransferTerminalWaiter ::
  "'w client_env \<Rightarrow> control_config \<Rightarrow> string \<Rightarrow> 'w client \<Rightarrow> (string + unit) \<times> 'w client" where
  "openTransferTerminalWaiter env cf transferId cl =
     (case validateId transferId ''transferId'' of
        Inl e \<Rightarrow> (Inl e, cl)
      | Inr _ \<Rightarrow> outside env cf (cn_open env transferId) cl)"

definition waitForTransfer ::
  "'w client_env \<Rightarrow> control_config \<Rightarrow> nat \<Rightarrow> string \<Rightarrow> wait_options \<Rightarrow> 'w client \<Rightarrow> (client_error + json) option \<times> 'w client" where
  "waitForTransfer env cf rounds transferId o1 cl =
     (case wait_plan_of o1 of
        Inl e \<Rightarrow> (Some (Inl (Thrown e)), cl)
      | Inr wp \<Rightarrow>
          (let startedAt = client_now env cl;
               (p, cl1) = (case openTransferTerminalWaiter env cf transferId cl of
                   (Inl _, cl1) \<Rightarrow> (\<lparr>pl_waiter = False, pl_interval = wp_pollMs wp\<rparr>, cl1)
                 | (Inr _, cl1) \<Rightarrow> (\<lparr>pl_waiter = True, pl_interval = wp_pollMs wp\<rparr>, note_event Waiter_opened cl1)) in
           case poll_loop env cf transferId wp startedAt rounds p cl1 of
             (r, p', cl2) \<Rightarrow> (r, if r \<noteq> None \<and> pl_waiter p' then close_waiter env cf cl2 else cl2)))"

subsection \<open>Signers and their subscriptions\<close>

datatype signer_event = Signer_begin string | Signer_subscribed | Signer_served string lease nat bool
  | Integrity_subscribed nat | Integrity_served string lease nat bool bool | Signer_stop string "lease option" | Client_closed

fun signer_step :: "signer_event \<Rightarrow> 'w client \<Rightarrow> 'w client" where
  "signer_step (Signer_begin t) cl = signer_begin t cl"
| "signer_step Signer_subscribed cl = signer_subscribed cl"
| "signer_step (Signer_served t owner n aborted) cl = signer_served t owner n aborted cl"
| "signer_step (Integrity_subscribed n) cl = integrity_subscribed n cl"
| "signer_step (Integrity_served t owner n served aborted) cl = integrity_served t owner n served aborted cl"
| "signer_step (Signer_stop t owner) cl = stopRecoverySigner t owner cl"
| "signer_step Client_closed cl = close_client cl"

definition new_client :: "'w control_run \<Rightarrow> 'w client" where
  "new_client cs = \<lparr>cl_run = cs, cl_signers = [], cl_grants = new_grants [], cl_open = [], cl_flushing = [],
     cl_starts = 0, cl_uploads = [],
     cl_hub_log = [], cl_log = []\<rparr>"

definition covers :: "registration \<Rightarrow> nat \<times> bool \<Rightarrow> bool" where
  "covers r x \<longleftrightarrow> fst x = rg_serial r \<and> (snd x \<longrightarrow> rg_integrity r)"

definition signer_of :: "'w client \<Rightarrow> string \<Rightarrow> registration option" where
  "signer_of cl = map_of (cl_signers cl)"

text \<open>The subscriptions that are served, their flush done, for no registered signer.\<close>

definition stray :: "'w client \<Rightarrow> (nat \<times> bool) set" where
  "stray cl = {x \<in> set (cl_open cl). \<nexists>t r. signer_of cl t = Some r \<and> covers r x}"

lemma strayI: "x \<in> set (cl_open cl) \<Longrightarrow> (\<And>t r. signer_of cl t = Some r \<Longrightarrow> \<not> covers r x) \<Longrightarrow> x \<in> stray cl"
  by (auto simp: stray_def)

lemma strayD: "x \<in> stray cl \<Longrightarrow> x \<in> set (cl_open cl)" "x \<in> stray cl \<Longrightarrow> signer_of cl t = Some r \<Longrightarrow> \<not> covers r x"
  by (auto simp: stray_def)

lemma stray_on_control [simp]: "stray (on_control f cl) = stray cl"
  by (simp add: stray_def on_control_def signer_of_def)

lemma signer_of_stop:
  "signer_of (stopRecoverySigner t owner cl) =
     (if owner \<noteq> None \<and> map_option rg_owner (signer_of cl t) \<noteq> owner then signer_of cl else (signer_of cl)(t := None))"
  by (auto simp: signer_of_def stopRecoverySigner_def stop_registration_def Let_def fun_upd_idem simp del: map_of_eq_Some_iff
      split: option.split)

lemma open_stop:
  "x \<in> set (cl_open (stopRecoverySigner t owner cl)) \<Longrightarrow> x \<in> set (cl_open cl)
     \<and> (\<forall>r. signer_of cl t = Some r \<longrightarrow> owner = None \<or> owner = Some (rg_owner r) \<longrightarrow> \<not> covers r x)"
  by (auto simp: signer_of_def stopRecoverySigner_def stop_registration_def Let_def covers_def simp del: map_of_eq_Some_iff
      split: option.splits if_splits)

lemma stray_stop: "stray (stopRecoverySigner t owner cl) \<subseteq> stray cl"
proof
  fix x assume x: "x \<in> stray (stopRecoverySigner t owner cl)"
  show "x \<in> stray cl"
  proof (rule strayI)
    show "x \<in> set (cl_open cl)" using open_stop [OF strayD(1) [OF x]] by blast
  next
    fix t' r assume r: "signer_of cl t' = Some r"
    show "\<not> covers r x"
    proof (cases "signer_of (stopRecoverySigner t owner cl) t' = Some r")
      case True
      then show ?thesis by (rule strayD(2) [OF x])
    next
      case False
      with r have "t' = t" "owner = None \<or> owner = Some (rg_owner r)" by (auto simp: signer_of_stop split: if_splits)
      with r open_stop [OF strayD(1) [OF x]] show ?thesis by blast
    qed
  qed
qed

lemma stop_forgets: "signer_of (stopRecoverySigner t None cl) t = None"
  by (simp add: signer_of_stop)

lemma stop_all_stray: "stray (stopAllRecoverySigners cl) \<subseteq> stray cl"
proof -
  have "stray (fold (\<lambda>t. stopRecoverySigner t None) ts cl) \<subseteq> stray cl" for ts
  proof (induction ts arbitrary: cl)
    case (Cons t ts)
    from Cons.IH [of "stopRecoverySigner t None cl"] stray_stop [of t None cl] show ?case by auto
  qed simp
  then show ?thesis by (simp add: stopAllRecoverySigners_def)
qed

text \<open>Registering a signer for a transfer that has none, or giving its signer a wider stop.\<close>

lemma stray_register:
  assumes "signer_of cl' = (signer_of cl)(t \<mapsto> r)" and "\<And>x. x \<in> set (cl_open cl') \<Longrightarrow> x \<in> set (cl_open cl) \<or> covers r x"
    and "\<And>r' x. signer_of cl t = Some r' \<Longrightarrow> covers r' x \<Longrightarrow> covers r x"
  shows "stray cl' \<subseteq> stray cl"
proof
  fix x assume x: "x \<in> stray cl'"
  have r: "\<not> covers r x" by (rule strayD(2) [OF x, of t]) (simp add: assms(1))
  show "x \<in> stray cl"
  proof (rule strayI)
    show "x \<in> set (cl_open cl)" using assms(2) [OF strayD(1) [OF x]] r by blast
  next
    fix t' r' assume r': "signer_of cl t' = Some r'"
    show "\<not> covers r' x"
    proof (cases "t' = t")
      case True
      with assms(3) r' r show ?thesis by blast
    next
      case False
      with r' show ?thesis by (intro strayD(2) [OF x, of t']) (simp add: assms(1))
    qed
  qed
qed

lemma stray_served: "stray (signer_served t owner n aborted cl) \<subseteq> stray cl"
proof (cases aborted)
  case True
  then show ?thesis by (auto simp: signer_served_def flushed_def Let_def stray_def signer_of_def simp del: map_of_eq_Some_iff)
next
  case False
  define cl0 where "cl0 = flushed (n, False) cl"
  define cl1 where "cl1 = stopRecoverySigner t None cl0"
  define r where "r = \<lparr>rg_owner = owner, rg_serial = n, rg_integrity = False\<rparr>"
  have none: "signer_of cl1 t = None" unfolding cl1_def by (rule stop_forgets)
  have stray1: "stray cl1 \<subseteq> stray cl \<union> {(n, False)}"
    using stray_stop [of t None cl0] by (auto simp: cl1_def cl0_def flushed_def stray_def signer_of_def)
  have eq: "signer_served t owner n aborted cl = cl1\<lparr>cl_grants := (cl_grants cl1)\<lparr>gs_signers := gs_signers (cl_grants cl1) @ [t]\<rparr>,
      cl_signers := amap_set t r (cl_signers cl1)\<rparr>"
    using False by (simp add: signer_served_def Let_def cl1_def cl0_def r_def)
  have reg: "signer_of (signer_served t owner n aborted cl) = (signer_of cl1)(t \<mapsto> r)" by (simp add: eq signer_of_def)
  have "stray (signer_served t owner n aborted cl) \<subseteq> stray cl1"
    by (rule stray_register [OF reg]) (auto simp: eq none)
  moreover have "(n, False) \<notin> stray (signer_served t owner n aborted cl)"
  proof
    assume "(n, False) \<in> stray (signer_served t owner n aborted cl)"
    from strayD(2) [OF this, of t r] show False by (simp add: reg covers_def r_def)
  qed
  ultimately show ?thesis using stray1 by blast
qed

lemma stray_integrity: "stray (integrity_served t owner n served aborted cl) \<subseteq> stray cl"
proof (cases "served \<and> \<not> aborted \<and> map_option rg_serial (signer_of cl t) = Some n")
  case True
  then obtain r where r: "signer_of cl t = Some r" "rg_serial r = n" by auto
  have eq: "integrity_served t owner n served aborted cl = (flushed (n, True) cl)
      \<lparr>cl_signers := amap_set t (r\<lparr>rg_integrity := True\<rparr>) (cl_signers cl)\<rparr>"
    using True r by (simp add: integrity_served_def flushed_def Let_def signer_of_def del: map_of_eq_Some_iff)
  show ?thesis
    by (rule stray_register [of _ _ t "r\<lparr>rg_integrity := True\<rparr>"])
      (use r in \<open>auto simp: eq flushed_def signer_of_def covers_def simp del: map_of_eq_Some_iff\<close>)
next
  case False
  then consider "served" "aborted \<or> map_option rg_serial (signer_of cl t) \<noteq> Some n" | "\<not> served" by blast
  then show ?thesis
  proof cases
    case 1
    then show ?thesis
      by (auto simp: integrity_served_def flushed_def Let_def stray_def signer_of_def simp del: map_of_eq_Some_iff)
  next
    case 2
    then show ?thesis using stray_stop [of t "Some owner" cl] by (simp add: integrity_served_def)
  qed
qed

lemma signer_step_stray: "stray (signer_step ev cl) \<subseteq> stray cl"
proof (cases ev)
  case (Signer_served t owner n aborted)
  then show ?thesis using stray_served [of t owner n aborted cl] by simp
next
  case (Integrity_served t owner n served aborted)
  then show ?thesis using stray_integrity [of t owner n served aborted cl] by simp
next
  case Signer_subscribed
  then show ?thesis by (simp add: signer_subscribed_def stray_def signer_of_def)
next
  case (Integrity_subscribed n)
  then show ?thesis by (simp add: integrity_subscribed_def stray_def signer_of_def)
qed (use stray_stop stop_all_stray [of cl] in \<open>auto simp: signer_begin_def close_client_def\<close>)

text \<open>Which subscription an event makes, and which one's flush it brings back.\<close>

fun subscription_of :: "'w client \<Rightarrow> signer_event \<Rightarrow> (nat \<times> bool) option" where
  "subscription_of cl Signer_subscribed = Some (cl_starts cl, False)"
| "subscription_of cl (Integrity_subscribed n) = Some (n, True)"
| "subscription_of cl _ = None"

fun flushed_by :: "signer_event \<Rightarrow> (nat \<times> bool) option" where
  "flushed_by (Signer_served t owner n aborted) = Some (n, False)"
| "flushed_by (Integrity_served t owner n served aborted) = (if served then Some (n, True) else None)"
| "flushed_by _ = None"

lemma stop_flushing [simp]: "cl_flushing (stopRecoverySigner t owner cl) = cl_flushing cl"
  by (simp add: stopRecoverySigner_def stop_registration_def Let_def split: option.split)

lemma stop_all_flushing: "cl_flushing (stopAllRecoverySigners cl) = cl_flushing cl"
proof -
  have "cl_flushing (fold (\<lambda>t. stopRecoverySigner t None) ts cl) = cl_flushing cl" for ts
    by (induction ts arbitrary: cl) simp_all
  then show ?thesis by (simp add: stopAllRecoverySigners_def)
qed

lemma signer_step_flushing:
  "set (cl_flushing (signer_step ev cl)) = (set (cl_flushing cl) - {x. flushed_by ev = Some x}) \<union> {x. subscription_of cl ev = Some x}"
proof (cases ev)
  case (Signer_served t owner n aborted)
  then show ?thesis by (auto simp: signer_served_def flushed_def Let_def)
next
  case (Integrity_served t owner n served aborted)
  then show ?thesis by (auto simp: integrity_served_def flushed_def Let_def split: option.split)
qed (auto simp: signer_begin_def signer_subscribed_def integrity_subscribed_def close_client_def on_control_def stop_all_flushing)

text \<open>The subscriptions that were made and whose flush never came back: it is still under way, or it rejected.\<close>

definition never_flushed :: "'w control_run \<Rightarrow> signer_event list \<Rightarrow> (nat \<times> bool) set" where
  "never_flushed cs es = {x. \<exists>pre ev post. es = pre @ ev # post
     \<and> subscription_of (fold signer_step pre (new_client cs)) ev = Some x \<and> list_all (\<lambda>later. flushed_by later \<noteq> Some x) post}"

lemma flushing_never_flushed: "set (cl_flushing (fold signer_step es (new_client cs))) \<subseteq> never_flushed cs es"
proof (induction es rule: rev_induct)
  case (snoc ev es)
  show ?case
  proof
    fix x assume "x \<in> set (cl_flushing (fold signer_step (es @ [ev]) (new_client cs)))"
    then consider "subscription_of (fold signer_step es (new_client cs)) ev = Some x"
      | "x \<in> set (cl_flushing (fold signer_step es (new_client cs)))" "flushed_by ev \<noteq> Some x"
      by (auto simp: signer_step_flushing)
    then show "x \<in> never_flushed cs (es @ [ev])"
    proof cases
      case 1
      then show ?thesis unfolding never_flushed_def by fastforce
    next
      case 2
      with snoc.IH obtain pre e post where "es = pre @ e # post" "subscription_of (fold signer_step pre (new_client cs)) e = Some x"
        "list_all (\<lambda>later. flushed_by later \<noteq> Some x) (post @ [ev])" by (auto simp: never_flushed_def)
      then show ?thesis unfolding never_flushed_def by fastforce
    qed
  qed
qed (simp add: new_client_def)

text \<open>
  A flush that rejects leaves its subscription behind: whatever starts, stops or aborts come after it, the subscription
  stays, on the subject of the transfer, until the connection itself is drained.
\<close>

lemma rejected_flush_stays:
  "x \<in> set (cl_flushing cl) \<Longrightarrow> list_all (\<lambda>ev. flushed_by ev \<noteq> Some x) es \<Longrightarrow> x \<in> set (cl_flushing (fold signer_step es cl))"
  by (induction es arbitrary: cl) (auto simp: signer_step_flushing)

text \<open>The live subscriptions, served or not yet flushed, that no registered signer's \<open>stop\<close> ends.\<close>

definition unowned :: "'w client \<Rightarrow> (nat \<times> bool) set" where
  "unowned cl = {x \<in> set (cl_open cl) \<union> set (cl_flushing cl). \<nexists>t r. signer_of cl t = Some r \<and> covers r x}"

lemma former_owner_stops_nothing:
  "map_option rg_owner (signer_of cl t) \<noteq> Some l \<Longrightarrow> stopRecoverySigner t (Some l) cl = cl"
  by (simp add: stopRecoverySigner_def signer_of_def del: map_of_eq_Some_iff)

text \<open>
  C14. A subscription outlives its signer only when its flush fails. However starts of signers, their awaits, aborts, stops and the
  closing of the client interleave, every live subscription of a signer is that of the signer registered for its transfer (the integrity
  subscription only when that signer's stop will end it), so that stopping the signer ends it, except those whose flush, after the
  subscription was made, is still under way or was rejected; and a stop by an owner that is not the registered one changes
  nothing.
\<close>

theorem no_stray_subscriptions:
  "unowned (fold signer_step es (new_client cs)) \<subseteq> never_flushed cs es
   \<and> (let cl = fold signer_step es (new_client cs) in
      map_option rg_owner (signer_of cl t) = Some l \<or> stopRecoverySigner t (Some l) cl = cl)"
proof -
  let ?cl = "fold signer_step es (new_client cs)"
  have "stray (fold signer_step es cl) \<subseteq> stray cl" for cl :: "'w client"
  proof (induction es arbitrary: cl)
    case (Cons ev es)
    from Cons.IH [of "signer_step ev cl"] signer_step_stray [of ev cl] show ?case by auto
  qed simp
  from this [of "new_client cs"] have "stray ?cl = {}"
    by (auto simp: stray_def new_client_def)
  then have "unowned ?cl \<subseteq> set (cl_flushing ?cl)" by (auto simp: unowned_def stray_def)
  then have "unowned ?cl \<subseteq> never_flushed cs es" using flushing_never_flushed by blast
  then show ?thesis using former_owner_stops_nothing [of ?cl t l] by (auto simp: Let_def)
qed

subsection \<open>What a terminal status lets go of\<close>

lemma released_lease: "lease_of (releaseRecoveryLease transferId None st) transferId = None"
  by (auto simp: releaseRecoveryLease_def lease_of_def dispose_def Let_def simp del: map_of_eq_Some_iff split: option.split)

lemma control_stop [simp]: "cl_control (stopRecoverySigner t owner cl) = cl_control cl"
  by (simp add: stopRecoverySigner_def stop_registration_def cl_control_def Let_def split: option.split)

lemma stop_grants_signers: "transferId \<notin> set (gs_signers (stop_grants transferId g))"
  by (simp add: stop_grants_def Let_def)

lemma grants_stop: "gs_signers (cl_grants (stopRecoverySigner t None cl)) = filter (\<lambda>t'. t' \<noteq> t) (gs_signers (cl_grants cl))"
  by (simp add: stopRecoverySigner_def stop_registration_def stop_grants_def Let_def split: option.split)

text \<open>Nothing of the transfer is held: no lease, no signer, no audit signer, and nothing served for it.\<close>

definition let_gone :: "string \<Rightarrow> 'w client \<Rightarrow> bool" where
  "let_gone t cl \<longleftrightarrow> lease_of (cl_control cl) t = None \<and> signer_of cl t = None \<and> t \<notin> set (gs_signers (cl_grants cl))"

lemma let_go_lets_go: "let_gone t (let_go t cl)"
  by (simp add: let_gone_def let_go_def stop_forgets grants_stop) (simp add: cl_control_def on_control_def released_lease)

text \<open>
  C13. An ended transfer holds nothing. When the status of a transfer is read as completed, failed or cancelled, or its cancellation
  is accepted, the client keeps no lease of it, no recovery signer and no audit signer, whoever owned them; and an audit the
  status asks for never makes reading it fail: only an invalid id or the request for the status itself does.
\<close>

theorem ended_transfer_holds_nothing:
  "(case transferStatus env cf t cl of
      (Inl e, cl') \<Rightarrow> e = Thrown ''transferId is invalid'' \<or> (\<exists>e'. e = Control e'
        \<and> fst (client_request env cf ''transfer.status'' [(''transfer_id'', JStr t)] (transfer_options t None) cl) = Inl e)
    | (Inr status, cl') \<Rightarrow> ended status \<longrightarrow> let_gone t cl')
   \<and> (case cancelTransfer env cf t cl of (Inl e, cl') \<Rightarrow> True | (Inr result, cl') \<Rightarrow> let_gone t cl')"
proof -
  have "case transferStatus env cf t cl of
      (Inl e, cl') \<Rightarrow> e = Thrown ''transferId is invalid'' \<or> (\<exists>e'. e = Control e'
        \<and> fst (client_request env cf ''transfer.status'' [(''transfer_id'', JStr t)] (transfer_options t None) cl) = Inl e)
    | (Inr status, cl') \<Rightarrow> ended status \<longrightarrow> let_gone t cl'"
    by (auto simp: transferStatus_def validateId_def client_request_def let_go_lets_go Let_def map_sum_def split: prod.split sum.split)
  moreover have "case cancelTransfer env cf t cl of (Inl e, cl') \<Rightarrow> True | (Inr result, cl') \<Rightarrow> let_gone t cl'"
    by (auto simp: cancelTransfer_def let_go_lets_go split: prod.split sum.split)
  ultimately show ?thesis ..
qed


subsection \<open>What a wait records\<close>

lemma log_on_control [simp]: "cl_log (on_control f cl) = cl_log cl"
  by (simp add: on_control_def)

lemma log_stop [simp]: "cl_log (stopRecoverySigner t owner cl) = cl_log cl"
  by (simp add: stopRecoverySigner_def stop_registration_def Let_def split: option.split)

lemma log_let_go [simp]: "cl_log (let_go t cl) = cl_log cl"
  by (simp add: let_go_def)

lemma log_outside: "outside env cf f cl = (a, cl') \<Longrightarrow> cl_log cl' = cl_log cl"
  by (auto simp: outside_def split: prod.splits)

lemma log_snd_outside [simp]: "cl_log (snd (outside env cf f cl)) = cl_log cl"
  by (simp add: outside_def split: prod.split)

lemma log_request: "client_request env cf m payload o1 cl = (r, cl') \<Longrightarrow> cl_log cl' = cl_log cl"
  by (auto simp: client_request_def split: prod.splits)

lemma log_settle [simp]: "cl_log (settle_pending a n outcome cl) = cl_log cl"
  by (simp add: settle_pending_def split: option.split)

lemma log_deliver: "deliver_grants env cf t a made cl = (r, cl') \<Longrightarrow> cl_log cl' = cl_log cl"
  by (auto simp: deliver_grants_def dest!: log_outside log_request split: sum.splits prod.splits if_splits)

lemma log_submit: "submitIntegrityAuditGrantsIfPresent env cf status cl = (r, cl') \<Longrightarrow> cl_log cl' = cl_log cl"
  by (auto simp: submitIntegrityAuditGrantsIfPresent_def submit_grants_def forget_submission_def Let_def
      dest!: log_outside log_deliver split: option.splits sum.splits prod.splits if_splits)

lemma log_status: "transferStatus env cf t cl = (r, cl') \<Longrightarrow> cl_log cl' = cl_log cl"
  by (auto simp: transferStatus_def Let_def dest!: log_request log_submit split: sum.splits prod.splits if_splits)

lemma log_finalize: "finalize_uploads env cf t cl = (r, cl') \<Longrightarrow> cl_log cl' = cl_log cl"
  by (auto simp: finalize_uploads_def split: prod.splits)

lemma log_open: "openTransferTerminalWaiter env cf t cl = (r, cl') \<Longrightarrow> cl_log cl' = cl_log cl"
  by (auto simp: openTransferTerminalWaiter_def dest!: log_outside split: sum.splits)

lemma log_note [simp]: "cl_log (note_event ev cl) = cl_log cl @ [ev]"
  by (simp add: note_event_def)

lemma log_sleep [simp]: "cl_log (sleep_for env cf ms cl) = cl_log cl @ [Slept_for ms (client_now env cl)]"
  by (simp add: sleep_for_def)

lemma log_close_waiter [simp]: "cl_log (close_waiter env cf cl) = cl_log cl @ [Waiter_closed]"
  by (simp add: close_waiter_def)

text \<open>The statuses read, with the times.\<close>

definition reads :: "client_event list \<Rightarrow> ((client_error + json) \<times> int) list" where
  "reads l = concat (map (\<lambda>ev. case ev of Status_read r t \<Rightarrow> [(r, t)] | _ \<Rightarrow> []) l)"

lemma reads_simps [simp]:
  "reads [] = []" "reads (l @ l') = reads l @ reads l'" "reads (Status_read r t # l) = (r, t) # reads l"
  "reads (Waiter_opened # l) = reads l" "reads (Waiter_closed # l) = reads l" "reads (Waited ms t # l) = reads l"
  "reads (Slept_for ms t # l) = reads l" "reads (Uploads_finalized # l) = reads l"
  by (simp_all add: reads_def)

text \<open>
  Whether a waiter is held, along the record: it is opened at most once at a time, waited on only while it is held, and
  the client sleeps only without one. \<open>None\<close> when the record breaks this.
\<close>

fun hold_step :: "bool option \<Rightarrow> client_event \<Rightarrow> bool option" where
  "hold_step (Some False) Waiter_opened = Some True"
| "hold_step (Some True) (Waited _ _) = Some True"
| "hold_step (Some True) Waiter_closed = Some False"
| "hold_step (Some False) (Slept_for _ _) = Some False"
| "hold_step h (Status_read _ _) = h"
| "hold_step h Uploads_finalized = h"
| "hold_step _ _ = None"

lemma hold_status [simp]: "hold_step h (Status_read r t) = h" "hold_step h Uploads_finalized = h"
  by (cases h; simp; cases "the h"; simp)+

text \<open>A status that lets the wait go on, and what one that ends it decides.\<close>

fun goes_on :: "wait_plan \<Rightarrow> int \<Rightarrow> (client_error + json) \<times> int \<Rightarrow> bool" where
  "goes_on wp startedAt (Inl e, t) \<longleftrightarrow> False"
| "goes_on wp startedAt (Inr status, t) \<longleftrightarrow> \<not> ended status \<and> t - startedAt < wp_timeoutMs wp"

fun decided :: "string \<Rightarrow> wait_plan \<Rightarrow> int \<Rightarrow> (client_error + json) \<times> int \<Rightarrow> client_error + json \<Rightarrow> bool" where
  "decided transferId wp startedAt (Inl e, t) r \<longleftrightarrow> r = Inl e"
| "decided transferId wp startedAt (Inr status, t) r \<longleftrightarrow>
     (if status_is status ''completed'' then r = Inr status \<or> (\<exists>e. r = Inl (Thrown e))
      else if status_is status ''failed'' then r = Inl (transferFailedError transferId (as_str (jget status ''error_message'')))
      else if status_is status ''cancelled'' then r = Inl (Thrown ''Transfer cancelled'')
      else wp_timeoutMs wp \<le> t - startedAt
        \<and> r = Inl (Thrown (''Transfer '' @ transferId @ '' did not complete within '' @ show_int (wp_timeoutMs wp) @ ''ms'')))"

definition verdict :: "string \<Rightarrow> wait_plan \<Rightarrow> int \<Rightarrow> client_event list \<Rightarrow> client_error + json \<Rightarrow> bool" where
  "verdict transferId wp startedAt l r \<longleftrightarrow>
     (\<exists>earlier latest. reads l = earlier @ [latest] \<and> (\<forall>x \<in> set earlier. goes_on wp startedAt x)
        \<and> decided transferId wp startedAt latest r \<and> (Uploads_finalized \<in> set l \<longleftrightarrow> (\<exists>status. r = Inr status)))"

lemma poll_status_log:
  assumes "poll_status env cf t wp startedAt cl = (res, cl')"
  shows "\<exists>l. cl_log cl' = cl_log cl @ l \<and> foldl hold_step h l = h
    \<and> (case res of None \<Rightarrow> (\<forall>x \<in> set (reads l). goes_on wp startedAt x) \<and> Uploads_finalized \<notin> set l | Some r \<Rightarrow> verdict t wp startedAt l r)"
proof -
  obtain r cl1 where st: "transferStatus env cf t cl = (r, cl1)" by force
  let ?t = "client_now env cl1"
  let ?cl = "note_event (Status_read r ?t) cl1"
  have log: "cl_log ?cl = cl_log cl @ [Status_read r ?t]" using log_status [OF st] by simp
  have stop: ?thesis if "res = Some a" "cl' = ?cl" "decided t wp startedAt (r, ?t) a" "\<nexists>status. a = Inr status" for a
    using that log by (intro exI [of _ "[Status_read r ?t]"]) (auto simp: verdict_def)
  show ?thesis
  proof (cases r)
    case (Inl e)
    with assms st have "res = Some (Inl e)" "cl' = ?cl" by (auto simp: poll_status_def Let_def)
    then show ?thesis using Inl by (intro stop) auto
  next
    case (Inr status)
    show ?thesis
    proof (cases "status_is status ''completed''")
      case True
      obtain f cl2 where fin: "finalize_uploads env cf t ?cl = (f, cl2)" by force
      have log2: "cl_log cl2 = cl_log cl @ [Status_read r ?t]" using log_finalize [OF fin] log by simp
      show ?thesis
      proof (cases f)
        case (Inl e)
        with assms st Inr True fin have "res = Some (Inl (Thrown e))" "cl' = cl2" by (auto simp: poll_status_def Let_def)
        then show ?thesis using log2 True Inr by (intro exI [of _ "[Status_read r ?t]"]) (auto simp: verdict_def)
      next
        case (Inr u)
        with assms st \<open>r = Inr status\<close> True fin have "res = Some (Inr status)" "cl' = note_event Uploads_finalized cl2"
          by (auto simp: poll_status_def Let_def)
        then show ?thesis using log2 True \<open>r = Inr status\<close>
          by (intro exI [of _ "[Status_read r ?t, Uploads_finalized]"]) (auto simp: verdict_def)
      qed
    next
      case False
      show ?thesis
      proof (cases "status_is status ''failed'' \<or> status_is status ''cancelled'' \<or> wp_timeoutMs wp \<le> ?t - startedAt")
        case True
        with assms st Inr False obtain a where "res = Some (Inl a)" "cl' = ?cl" "decided t wp startedAt (r, ?t) (Inl a)"
          by (auto simp: poll_status_def Let_def split: if_splits)
        then show ?thesis by (intro stop) auto
      next
        case goon: False
        with assms st Inr False have "res = None" "cl' = ?cl" by (auto simp: poll_status_def Let_def split: if_splits)
        then show ?thesis using log goon False Inr by (intro exI [of _ "[Status_read r ?t]"]) (auto simp: ended_def)
      qed
    qed
  qed
qed

lemma poll_pause_log:
  assumes "poll_pause env cf wp startedAt p cl = (p', cl')"
  shows "\<exists>l. cl_log cl' = cl_log cl @ l \<and> foldl hold_step (Some (pl_waiter p)) l = Some (pl_waiter p')
    \<and> reads l = [] \<and> Uploads_finalized \<notin> set l"
proof (cases "pl_waiter p")
  case True
  let ?t = "client_now env cl"
  define waitMs where "waitMs = min (max 1 (wp_timeoutMs wp - (?t - startedAt)))
    (jitteredDelay (pl_interval p) (ce_random (cn_control env) (cr_world (cl_run cl))))"
  obtain r cl1 where w: "outside env cf (cn_wait env waitMs) (note_event (Waited waitMs ?t) cl) = (r, cl1)" by force
  have log: "cl_log cl1 = cl_log cl @ [Waited waitMs ?t]" using log_outside [OF w] by simp
  have step: "(p', cl') = (case r of
           Inr ev \<Rightarrow> (p\<lparr>pl_interval := if ev \<noteq> None then wp_pollMs wp else next_interval wp (pl_interval p)\<rparr>, cl1)
         | Inl _ \<Rightarrow>
             (let cl2 = close_waiter env cf cl1; remainingWaitMs = max 0 (waitMs - (client_now env cl2 - ?t)) in
              (\<lparr>pl_waiter = False, pl_interval = next_interval wp (pl_interval p)\<rparr>,
               if remainingWaitMs > 0 then sleep_for env cf remainingWaitMs cl2 else cl2)))"
    using assms True w [unfolded waitMs_def] unfolding waitMs_def by (simp add: poll_pause_def Let_def split: sum.splits)
  show ?thesis
  proof (cases r)
    case (Inl e)
    with step log True show ?thesis by (auto simp: Let_def)
  next
    case (Inr ev)
    with step log True show ?thesis by auto
  qed
next
  case False
  with assms show ?thesis by (auto simp: poll_pause_def Let_def)
qed

lemma poll_loop_log:
  assumes "poll_loop env cf t wp startedAt n p cl = (res, p', cl')"
  shows "\<exists>l. cl_log cl' = cl_log cl @ l \<and> foldl hold_step (Some (pl_waiter p)) l = Some (pl_waiter p')
    \<and> (case res of None \<Rightarrow> True | Some r \<Rightarrow> verdict t wp startedAt l r)"
  using assms
proof (induction n arbitrary: p cl)
  case 0
  then show ?case by simp
next
  case (Suc n)
  obtain sres cl1 where s: "poll_status env cf t wp startedAt cl = (sres, cl1)" by force
  obtain l1 where l1: "cl_log cl1 = cl_log cl @ l1" "foldl hold_step (Some (pl_waiter p)) l1 = Some (pl_waiter p)"
    "case sres of None \<Rightarrow> (\<forall>x \<in> set (reads l1). goes_on wp startedAt x) \<and> Uploads_finalized \<notin> set l1 | Some r \<Rightarrow> verdict t wp startedAt l1 r"
    using poll_status_log [OF s] by blast
  show ?case
  proof (cases sres)
    case (Some r)
    with Suc.prems s l1 show ?thesis by auto
  next
    case None
    obtain p1 cl2 where pz: "poll_pause env cf wp startedAt p cl1 = (p1, cl2)" by force
    obtain l2 where l2: "cl_log cl2 = cl_log cl1 @ l2" "foldl hold_step (Some (pl_waiter p)) l2 = Some (pl_waiter p1)"
      "reads l2 = []" "Uploads_finalized \<notin> set l2" using poll_pause_log [OF pz] by blast
    have "poll_loop env cf t wp startedAt n p1 cl2 = (res, p', cl')" using Suc.prems s None pz by simp
    from Suc.IH [OF this] obtain l3 where l3: "cl_log cl' = cl_log cl2 @ l3"
      "foldl hold_step (Some (pl_waiter p1)) l3 = Some (pl_waiter p')" "case res of None \<Rightarrow> True | Some r \<Rightarrow> verdict t wp startedAt l3 r" by blast
    have "verdict t wp startedAt (l1 @ l2 @ l3) r" if "verdict t wp startedAt l3 r" for r
    proof -
      from that obtain earlier latest where "reads l3 = earlier @ [latest]" "\<forall>x \<in> set earlier. goes_on wp startedAt x"
        "decided t wp startedAt latest r" "Uploads_finalized \<in> set l3 \<longleftrightarrow> (\<exists>status. r = Inr status)" by (auto simp: verdict_def)
      with l1(3) l2(3,4) None show ?thesis unfolding verdict_def by (intro exI [of _ "reads l1 @ earlier"] exI [of _ latest]) auto
    qed
    with l1 l2 l3 show ?thesis by (intro exI [of _ "l1 @ l2 @ l3"]) (auto split: option.split)
  qed
qed

text \<open>
  C11. A wait ends as the last status it read says. When waiting for a transfer returns, every status before the last one was
  neither terminal nor read too late; it returns the transfer only when the last was completed and the Hub uploads were finalized
  after it, and throws the storage or failure error of a failed one, the cancellation of a cancelled one, what reading it threw,
  or, only when the time was up, the timeout. On every one of these ends the terminal signal waiter it opened is closed, once, and
  never waited on afterwards.
\<close>

theorem wait_ends_as_status_says:
  assumes "waitForTransfer env cf n t o1 cl = (Some r, cl')"
  shows "case wait_plan_of o1 of
      Inl e \<Rightarrow> r = Inl (Thrown e) \<and> cl' = cl
    | Inr wp \<Rightarrow> \<exists>l. cl_log cl' = cl_log cl @ l \<and> verdict t wp (client_now env cl) l r \<and> foldl hold_step (Some False) l = Some False"
proof (cases "wait_plan_of o1")
  case (Inl e)
  with assms show ?thesis by (simp add: waitForTransfer_def)
next
  case (Inr wp)
  obtain a cl0 where op: "openTransferTerminalWaiter env cf t cl = (a, cl0)" by force
  let ?held = "\<not> isl a"
  let ?p = "\<lparr>pl_waiter = ?held, pl_interval = wp_pollMs wp\<rparr>"
  let ?cl1 = "if ?held then note_event Waiter_opened cl0 else cl0"
  obtain res p' cl2 where lp: "poll_loop env cf t wp (client_now env cl) n ?p ?cl1 = (res, p', cl2)" by (metis prod_cases3)
  have ends: "res = Some r" "cl' = (if pl_waiter p' then close_waiter env cf cl2 else cl2)"
    using assms Inr op lp by (cases a; force simp: waitForTransfer_def Let_def)+
  obtain l where l: "cl_log cl2 = cl_log ?cl1 @ l" "foldl hold_step (Some ?held) l = Some (pl_waiter p')"
    "verdict t wp (client_now env cl) l r"
    using poll_loop_log [OF lp] ends(1) by auto
  let ?pre = "if ?held then [Waiter_opened] else []" and ?post = "if pl_waiter p' then [Waiter_closed] else []"
  have "cl_log cl' = cl_log cl @ ?pre @ l @ ?post" using l(1) ends(2) log_open [OF op] by simp
  moreover have "foldl hold_step (Some False) (?pre @ l @ ?post) = Some False" using l(2) by (cases "?held"; cases "pl_waiter p'") simp_all
  moreover have "verdict t wp (client_now env cl) (?pre @ l @ ?post) r" using l(3) by (auto simp: verdict_def)
  ultimately show ?thesis using Inr by auto
qed


subsection \<open>The wait ends\<close>

text \<open>
  What the outside world owes a wait: no operation turns the clock back or adds to the terminal events still to come, a
  sleep lasts as long as asked, and a wait on the waiter either delivers one of those events or lasts its time, unless
  it fails.
\<close>

definition onward :: "'w client_env \<Rightarrow> ('w \<Rightarrow> nat) \<Rightarrow> 'w \<Rightarrow> 'w \<Rightarrow> bool" where
  "onward env backlog w w' \<longleftrightarrow>
     ce_now_ms (cn_control env) w \<le> ce_now_ms (cn_control env) w' \<and> backlog w' \<le> backlog w"

definition steady :: "'w client_env \<Rightarrow> ('w \<Rightarrow> nat) \<Rightarrow> bool" where
  "steady env backlog \<longleftrightarrow>
     (\<forall>w. onward env backlog w (snd (ce_connect (cn_control env) w)))
     \<and> (\<forall>s j w. onward env backlog w (snd (ce_request (cn_control env) s j w)))
     \<and> (\<forall>s w. onward env backlog w (snd (ce_resolve (cn_control env) s w)))
     \<and> (\<forall>ms w. onward env backlog w (ce_sleep (cn_control env) ms w)
          \<and> ce_now_ms (cn_control env) (ce_sleep (cn_control env) ms w) \<ge> ce_now_ms (cn_control env) w + ms)
     \<and> (\<forall>t w. onward env backlog w (snd (cn_open env t w))) \<and> (\<forall>w. onward env backlog w (snd (cn_close env w)))
     \<and> (\<forall>a w. onward env backlog w (snd (cn_submission env a w))) \<and> (\<forall>n w. onward env backlog w (snd (cn_payload env n w)))
     \<and> (\<forall>ms w. onward env backlog w (snd (cn_wait env ms w)))
     \<and> (\<forall>ms w w'. cn_wait env ms w = (Inr None, w') \<longrightarrow> ce_now_ms (cn_control env) w' \<ge> ce_now_ms (cn_control env) w + ms)
     \<and> (\<forall>ms w ev w'. cn_wait env ms w = (Inr (Some ev), w') \<longrightarrow> backlog w' < backlog w)"

definition run_onward :: "'w client_env \<Rightarrow> ('w \<Rightarrow> nat) \<Rightarrow> 'w control_run \<Rightarrow> 'w control_run \<Rightarrow> bool" where
  "run_onward env backlog cs cs' \<longleftrightarrow> onward env backlog (cr_world cs) (cr_world cs')"

lemma onward_refl [simp]: "onward env backlog w w"
  by (simp add: onward_def)

lemma onward_trans: "onward env backlog w w' \<Longrightarrow> onward env backlog w' w'' \<Longrightarrow> onward env backlog w w''"
  by (auto simp: onward_def)

lemma run_onward_refl [simp]: "run_onward env backlog cs cs"
  by (simp add: run_onward_def)

lemma run_onward_trans: "run_onward env backlog cs cs' \<Longrightarrow> run_onward env backlog cs' cs'' \<Longrightarrow> run_onward env backlog cs cs''"
  by (auto simp: run_onward_def intro: onward_trans)

lemma run_onward_same: "cr_world cs' = cr_world cs \<Longrightarrow> run_onward env backlog cs cs'"
  by (simp add: run_onward_def)

lemma world_after_await [simp]: "cr_world (after_await ce cf w cs) = w"
  by (simp add: after_await_def)

lemma world_drop [simp]: "cr_world (drop_closed ce cs) = cr_world cs"
  by (simp add: drop_closed_def)

lemma steadyD:
  assumes "steady env backlog"
  shows "ce_connect (cn_control env) w = (c, w') \<Longrightarrow> onward env backlog w w'"
    and "ce_request (cn_control env) s j w = (q, w') \<Longrightarrow> onward env backlog w w'"
    and "ce_resolve (cn_control env) s w = (x, w') \<Longrightarrow> onward env backlog w w'"
  using assms unfolding steady_def by (metis snd_conv)+

lemma run_onward_connection:
  assumes "steady env backlog" and "connection (cn_control env) cf cs = (r, cs')"
  shows "run_onward env backlog cs cs'"
  using assms(2) steadyD(1) [OF assms(1)]
  by (auto simp: connection_def run_onward_def Let_def split: if_splits prod.splits sum.splits)

lemma run_onward_resolve_once:
  assumes "steady env backlog" and "resolve_once (cn_control env) cf cs = (r, cs')"
  shows "run_onward env backlog cs cs'"
proof -
  obtain c cs1 where c: "connection (cn_control env) cf cs = (c, cs1)" by force
  have one: "run_onward env backlog cs cs1" by (rule run_onward_connection [OF assms(1) c])
  have "run_onward env backlog cs1 cs'"
    using assms(2) c steadyD(3) [OF assms(1)]
    by (cases c) (auto simp: resolve_once_def run_onward_def Let_def split: prod.splits sum.splits)
  with one show ?thesis by (rule run_onward_trans)
qed

lemma run_onward_slept: "steady env backlog \<Longrightarrow> run_onward env backlog cs (sleepWithJitter (cn_control env) cf ms cs)"
  by (simp add: run_onward_def sleepWithJitter_def steady_def)

lemma run_onward_dropped: "run_onward env backlog cs cs' \<Longrightarrow> run_onward env backlog cs (drop_closed ce cs')"
  by (simp add: run_onward_def)

lemma run_onward_fresh:
  assumes "steady env backlog"
  shows "resolveAuthTokenFresh (cn_control env) cf n cs = (r, cs') \<Longrightarrow> run_onward env backlog cs cs'"
proof (induction n arbitrary: cs)
  case 0
  then show ?case by simp
next
  case (Suc n)
  obtain a cs1 where once: "resolve_once (cn_control env) cf cs = (a, cs1)" by force
  have one: "run_onward env backlog cs cs1" by (rule run_onward_resolve_once [OF assms once])
  show ?case
  proof (cases "a")
    case (Inr token)
    with Suc.prems once one show ?thesis by simp
  next
    case (Inl e)
    let ?slept = "sleepWithJitter (cn_control env) cf (retry_delay (LIFECYCLE_REQUEST_MAX_ATTEMPTS - Suc n)) (drop_closed (cn_control env) cs1)"
    have slept: "run_onward env backlog cs ?slept"
      by (rule run_onward_trans [OF run_onward_dropped [OF one] run_onward_slept [OF assms]])
    show ?thesis
    proof (cases "\<not> isRetryableLifecycleError e \<or> n = 0")
      case True
      with Suc.prems once Inl one show ?thesis by auto
    next
      case False
      with Suc.prems once Inl have "resolveAuthTokenFresh (cn_control env) cf n ?slept = (r, cs')" by simp
      from run_onward_trans [OF slept Suc.IH [OF this]] show ?thesis .
    qed
  qed
qed

lemma run_onward_token:
  assumes "steady env backlog" and "resolveAuthToken (cn_control env) cf cs = (r, cs')"
  shows "run_onward env backlog cs cs'"
  using assms(2) run_onward_fresh [OF assms(1)]
  by (auto simp: resolveAuthToken_def Let_def split: option.splits if_splits)

lemma run_onward_once:
  assumes "steady env backlog" and "request_once (cn_control env) cf subject shardId enveloped cs = (r, cs')"
  shows "run_onward env backlog cs cs'"
proof -
  obtain a cs1 where a: "resolveAuthToken (cn_control env) cf cs = (a, cs1)" by force
  have one: "run_onward env backlog cs cs1" by (rule run_onward_token [OF assms(1) a])
  show ?thesis
  proof (cases a)
    case (Inl e)
    with assms(2) a one show ?thesis by (simp add: request_once_def)
  next
    case (Inr token)
    obtain c cs2 where c: "connection (cn_control env) cf cs1 = (c, cs2)" by force
    have two: "run_onward env backlog cs cs2" by (rule run_onward_trans [OF one run_onward_connection [OF assms(1) c]])
    have "run_onward env backlog cs2 cs'" if "\<not> ce_msgpack_size (cn_control env) (enveloped token) > ci_maxPayloadBytes cf"
      using assms(2) a c that Inr steadyD(2) [OF assms(1)]
      by (cases c) (auto simp: request_once_def run_onward_def Let_def split: prod.splits sum.splits)
    moreover have "cs' = cs1" if "ce_msgpack_size (cn_control env) (enveloped token) > ci_maxPayloadBytes cf"
      using assms(2) a that Inr by (simp add: request_once_def Let_def)
    ultimately show ?thesis using one run_onward_trans [OF two] by blast
  qed
qed

lemma run_onward_loop:
  assumes "steady env backlog"
  shows "request_loop (cn_control env) cf subject shardId enveloped n cs = (r, cs') \<Longrightarrow> run_onward env backlog cs cs'"
proof (induction n arbitrary: cs)
  case 0
  then show ?case by simp
next
  case (Suc n)
  let ?delay = "retry_delay (LIFECYCLE_REQUEST_MAX_ATTEMPTS - Suc n)"
  obtain a cs1 where once: "request_once (cn_control env) cf subject shardId enveloped cs = (a, cs1)" by force
  have one: "run_onward env backlog cs cs1" by (rule run_onward_once [OF assms once])
  have slept: "run_onward env backlog cs cs'"
    if "request_loop (cn_control env) cf subject shardId enveloped n (sleepWithJitter (cn_control env) cf ?delay cs2) = (r, cs')"
      and "cr_world cs2 = cr_world cs1" for cs2
  proof -
    have "run_onward env backlog cs1 cs2" using that(2) by (rule run_onward_same)
    with one have "run_onward env backlog cs cs2" by (rule run_onward_trans)
    from run_onward_trans [OF run_onward_trans [OF this run_onward_slept [OF assms]] Suc.IH [OF that(1)]] show ?thesis .
  qed
  show ?case
  proof (cases a)
    case (Inl e)
    with Suc.prems once one slept [of "drop_closed (cn_control env) cs1"] show ?thesis by (auto simp: Let_def split: if_splits)
  next
    case (Inr rep)
    with Suc.prems once one slept [of cs1]
      slept [of "cs1\<lparr>cr_control := (cr_control cs1)\<lparr>lc_authToken := None, lc_authTokenExpiresAt := 0\<rparr>\<rparr>"]
    show ?thesis by (auto simp: Let_def split: if_splits)
  qed
qed

definition cl_onward :: "'w client_env \<Rightarrow> ('w \<Rightarrow> nat) \<Rightarrow> 'w client \<Rightarrow> 'w client \<Rightarrow> bool" where
  "cl_onward env backlog cl cl' \<longleftrightarrow> run_onward env backlog (cl_run cl) (cl_run cl')"

lemma cl_onward_refl [simp]: "cl_onward env backlog cl cl"
  by (simp add: cl_onward_def)

lemma cl_onward_trans [trans]: "cl_onward env backlog cl cl' \<Longrightarrow> cl_onward env backlog cl' cl'' \<Longrightarrow> cl_onward env backlog cl cl''"
  by (auto simp: cl_onward_def intro: run_onward_trans)

lemma cl_onward_request:
  assumes "steady env backlog" and "client_request env cf m payload o1 cl = (r, cl')"
  shows "cl_onward env backlog cl cl'"
proof -
  obtain a cs where a: "sdk_request (cn_control env) cf m payload o1 (cl_run cl) = (a, cs)" by force
  have "run_onward env backlog (cl_run cl) cs"
    using a run_onward_loop [OF assms(1)] by (fastforce simp: sdk_request_def run_onward_def Let_def split: prod.splits)
  with a assms(2) show ?thesis by (auto simp: client_request_def cl_onward_def)
qed

lemma cl_onward_outside:
  assumes "\<And>w. onward env backlog w (snd (f w))" and "outside env cf f cl = (a, cl')"
  shows "cl_onward env backlog cl cl'"
  using assms(2) assms(1) [of "cr_world (cl_run cl)"]
  by (auto simp: outside_def cl_onward_def run_onward_def split: prod.splits)

lemma run_stop [simp]: "cl_run (stopRecoverySigner t owner cl) = cl_run cl"
  by (simp add: stopRecoverySigner_def stop_registration_def Let_def split: option.split)

lemma world_let_go [simp]: "cr_world (cl_run (let_go t cl)) = cr_world (cl_run cl)"
  by (simp add: let_go_def on_control_def)

lemma run_settle [simp]: "cl_run (settle_pending a n outcome cl) = cl_run cl"
  by (simp add: settle_pending_def split: option.split)

lemma cl_onward_deliver:
  assumes "steady env backlog" and "deliver_grants env cf t a made cl = (r, cl')"
  shows "cl_onward env backlog cl cl'"
proof (cases made)
  case (Inl e)
  with assms(2) show ?thesis by (simp add: deliver_grants_def)
next
  case (Inr n)
  obtain q cl1 where q: "outside env cf (cn_payload env n) cl = (q, cl1)" by force
  have one: "cl_onward env backlog cl cl1"
    by (rule cl_onward_outside [OF _ q]) (use assms(1) in \<open>simp add: steady_def\<close>)
  have settled: "cl_onward env backlog cl1 (settle_pending a n x cl1)" for x by (simp add: cl_onward_def)
  show ?thesis
  proof (cases q)
    case (Inl e)
    with assms(2) Inr q cl_onward_trans [OF one settled] show ?thesis by (auto simp: deliver_grants_def)
  next
    case (Inr made')
    obtain payload expiries where pe: "made' = (payload, expiries)" by force
    obtain z cl2 where z: "client_request env cf ''transfer.integrity_audit_grants'' (json_entries (Some payload))
        (transfer_options t (Some (transfer_key t (''integrity-audit:'' @ a @ '':''
           @ js_string (coalesce (jget payload ''submitted_at'') JNull))))) (settle_pending a n (Inr expiries) cl1) = (z, cl2)" by force
    have "cl' = cl2" using assms(2) \<open>made = Inr n\<close> q Inr pe z by (auto simp: deliver_grants_def split: sum.splits if_splits)
    with cl_onward_trans [OF cl_onward_trans [OF one settled] cl_onward_request [OF assms(1) z]] show ?thesis by simp
  qed
qed

lemma cl_onward_submit:
  assumes "steady env backlog" and "submitIntegrityAuditGrantsIfPresent env cf status cl = (r, cl')"
  shows "cl_onward env backlog cl cl'"
proof -
  have sub: "cl_onward env backlog cl cl'" if sub: "outside env cf (cn_submission env a) cl = (r, cl')" for a
    by (rule cl_onward_outside [OF _ sub]) (use assms(1) in \<open>simp add: steady_def\<close>)
  have gr: "cl_onward env backlog cl cl'" if grants: "submit_grants env cf t a challenge cl = (r, cl')" for t a challenge
  proof -
    obtain made g where mg: "signedIntegrityGrants (client_now env cl) a t (stringify challenge) (cl_grants cl) = (made, g)" by force
    let ?cl1 = "cl\<lparr>cl_starts := cl_starts cl + 1, cl_grants := g\<lparr>gs_submissions := amap_set a (cl_starts cl) (gs_submissions g)\<rparr>\<rparr>"
    obtain z cl2 where z: "deliver_grants env cf t a made ?cl1 = (z, cl2)" by force
    have "cl_run cl' = cl_run cl2" using grants mg z
      by (auto simp: submit_grants_def forget_submission_def Let_def split: sum.splits)
    with cl_onward_deliver [OF assms(1) z] show ?thesis by (simp add: cl_onward_def)
  qed
  from assms(2) show ?thesis
    by (auto simp: submitIntegrityAuditGrantsIfPresent_def Let_def intro: sub gr split: option.splits if_splits)
qed

lemma cl_onward_status:
  assumes "steady env backlog" and "transferStatus env cf t cl = (r, cl')"
  shows "cl_onward env backlog cl cl'"
proof (cases "validateId t ''transferId''")
  case (Inl e)
  with assms(2) show ?thesis by (simp add: transferStatus_def)
next
  case (Inr u)
  obtain q cl1 where q: "client_request env cf ''transfer.status'' [(''transfer_id'', JStr t)] (transfer_options t None) cl = (q, cl1)" by force
  have one: "cl_onward env backlog cl cl1" by (rule cl_onward_request [OF assms(1) q])
  show ?thesis
  proof (cases q)
    case (Inl e)
    with assms(2) Inr q one show ?thesis by (simp add: transferStatus_def)
  next
    case (Inr answer)
    obtain z cl2 where z: "submitIntegrityAuditGrantsIfPresent env cf answer cl1 = (z, cl2)" by force
    have "cl_onward env backlog cl cl2" by (rule cl_onward_trans [OF one cl_onward_submit [OF assms(1) z]])
    moreover have "cr_world (cl_run cl') = cr_world (cl_run cl1) \<or> cr_world (cl_run cl') = cr_world (cl_run cl2)"
      using assms(2) \<open>validateId t ''transferId'' = Inr u\<close> q Inr z
      by (auto simp: transferStatus_def Let_def split: sum.splits if_splits)
    ultimately show ?thesis using one by (auto simp: cl_onward_def run_onward_def)
  qed
qed

definition backlog_of :: "('w \<Rightarrow> nat) \<Rightarrow> 'w client \<Rightarrow> nat" where
  "backlog_of backlog cl = backlog (cr_world (cl_run cl))"

lemma cl_onward_iff:
  "cl_onward env backlog cl cl' \<longleftrightarrow> client_now env cl \<le> client_now env cl' \<and> backlog_of backlog cl' \<le> backlog_of backlog cl"
  by (simp add: cl_onward_def run_onward_def onward_def client_now_def backlog_of_def)

lemma now_note [simp]: "client_now env (note_event ev cl) = client_now env cl" "backlog_of backlog (note_event ev cl) = backlog_of backlog cl"
  by (simp_all add: client_now_def backlog_of_def note_event_def)

lemma sleep_onward:
  assumes "steady env backlog"
  shows "cl_onward env backlog cl (sleep_for env cf ms cl)" "client_now env (sleep_for env cf ms cl) \<ge> client_now env cl + ms"
  using assms by (auto simp: sleep_for_def outside_def cl_onward_def run_onward_def client_now_def note_event_def steady_def)

lemma close_onward: "steady env backlog \<Longrightarrow> cl_onward env backlog cl (close_waiter env cf cl)"
  by (simp add: close_waiter_def outside_def cl_onward_def run_onward_def note_event_def steady_def case_prod_beta)

lemma wait_onward:
  assumes "steady env backlog" and "outside env cf (cn_wait env ms) cl = (r, cl')"
  shows "cl_onward env backlog cl cl'" and "r = Inr None \<Longrightarrow> client_now env cl' \<ge> client_now env cl + ms"
    and "r = Inr (Some ev) \<Longrightarrow> backlog_of backlog cl' < backlog_of backlog cl"
proof -
  obtain w where w: "cn_wait env ms (cr_world (cl_run cl)) = (r, w)" "cr_world (cl_run cl') = w"
    using assms(2) by (auto simp: outside_def split: prod.splits)
  show "cl_onward env backlog cl cl'"
    by (rule cl_onward_outside [OF _ assms(2)]) (use assms(1) in \<open>simp add: steady_def\<close>)
  show "client_now env cl' \<ge> client_now env cl + ms" if "r = Inr None"
    using assms(1) w that unfolding steady_def client_now_def by blast
  show "backlog_of backlog cl' < backlog_of backlog cl" if "r = Inr (Some ev)"
    using assms(1) w that unfolding steady_def backlog_of_def by blast
qed

lemma pause_progress:
  assumes "steady env backlog" and "poll_pause env cf wp startedAt p cl = (p', cl')"
  shows "cl_onward env backlog cl cl' \<and> (client_now env cl' \<ge> client_now env cl + 1 \<or> backlog_of backlog cl' < backlog_of backlog cl)"
proof -
  let ?t = "client_now env cl"
  define waitMs where "waitMs = min (max 1 (wp_timeoutMs wp - (?t - startedAt)))
    (jitteredDelay (pl_interval p) (ce_random (cn_control env) (cr_world (cl_run cl))))"
  have w1: "waitMs \<ge> 1" by (simp add: waitMs_def jitteredDelay_def)
  show ?thesis
  proof (cases "pl_waiter p")
    case False
    with assms(2) have "cl' = sleep_for env cf waitMs cl" by (simp add: poll_pause_def waitMs_def Let_def)
    with sleep_onward [OF assms(1), where cl = cl and cf = cf and ms = waitMs] w1 show ?thesis by auto
  next
    case True
    obtain r cl1 where w: "outside env cf (cn_wait env waitMs) (note_event (Waited waitMs ?t) cl) = (r, cl1)" by force
    note ow = wait_onward [OF assms(1) w, simplified cl_onward_iff now_note]
    have one: "cl_onward env backlog cl cl1" using ow(1) by (simp add: cl_onward_iff)
    show ?thesis
    proof (cases r)
      case (Inr ev)
      with assms(2) True w have "cl' = cl1" by (simp add: poll_pause_def waitMs_def Let_def)
      then show ?thesis using one ow(2,3) Inr w1 by (cases ev) auto
    next
      case (Inl e)
      let ?cl2 = "close_waiter env cf cl1"
      have two: "cl_onward env backlog cl ?cl2" by (rule cl_onward_trans [OF one close_onward [OF assms(1)]])
      let ?left = "max 0 (waitMs - (client_now env ?cl2 - ?t))"
      have "poll_pause env cf wp startedAt p cl = (\<lparr>pl_waiter = False, pl_interval = next_interval wp (pl_interval p)\<rparr>,
          if ?left > 0 then sleep_for env cf ?left ?cl2 else ?cl2)"
        using True w Inl unfolding poll_pause_def waitMs_def Let_def by simp
      with assms(2) have cl': "cl' = (if ?left > 0 then sleep_for env cf ?left ?cl2 else ?cl2)" by simp
      show ?thesis
      proof (cases "waitMs - (client_now env ?cl2 - ?t) > 0")
        case more: True
        with cl' have "cl' = sleep_for env cf (waitMs - (client_now env ?cl2 - ?t)) ?cl2" by simp
        with two sleep_onward [OF assms(1), where cl = ?cl2 and cf = cf and ms = "waitMs - (client_now env ?cl2 - ?t)"] w1 cl_onward_trans
        show ?thesis by fastforce
      next
        case False
        with cl' two w1 show ?thesis by auto
      qed
    qed
  qed
qed

lemma status_progress:
  assumes "steady env backlog" and "poll_status env cf t wp startedAt cl = (None, cl')"
  shows "cl_onward env backlog cl cl' \<and> client_now env cl' - startedAt < wp_timeoutMs wp"
proof -
  obtain r cl1 where st: "transferStatus env cf t cl = (r, cl1)" by force
  have "cl' = note_event (Status_read r (client_now env cl1)) cl1 \<and> client_now env cl1 - startedAt < wp_timeoutMs wp"
    using assms(2) st by (auto simp: poll_status_def Let_def split: sum.splits prod.splits if_splits)
  with cl_onward_status [OF assms(1) st] show ?thesis by (simp add: cl_onward_iff)
qed

definition rounds_left :: "'w client_env \<Rightarrow> ('w \<Rightarrow> nat) \<Rightarrow> wait_plan \<Rightarrow> int \<Rightarrow> 'w client \<Rightarrow> nat" where
  "rounds_left env backlog wp startedAt cl = nat (startedAt + wp_timeoutMs wp - client_now env cl) + backlog_of backlog cl"

lemma poll_loop_ends:
  assumes "steady env backlog" and "rounds_left env backlog wp startedAt cl < n"
  shows "fst (poll_loop env cf t wp startedAt n p cl) \<noteq> None"
  using assms(2)
proof (induction n arbitrary: p cl)
  case 0
  then show ?case by simp
next
  case (Suc n)
  obtain sres cl1 where s: "poll_status env cf t wp startedAt cl = (sres, cl1)" by force
  show ?case
  proof (cases sres)
    case (Some r)
    with s show ?thesis by simp
  next
    case None
    obtain p1 cl2 where pz: "poll_pause env cf wp startedAt p cl1 = (p1, cl2)" by force
    have "rounds_left env backlog wp startedAt cl2 < rounds_left env backlog wp startedAt cl"
      using status_progress [OF assms(1) s [unfolded None]] pause_progress [OF assms(1) pz]
      by (auto simp: rounds_left_def cl_onward_iff)
    with Suc.prems have "rounds_left env backlog wp startedAt cl2 < n" by simp
    from Suc.IH [OF this] s None pz show ?thesis by simp
  qed
qed

text \<open>
  C12. A wait ends in time. When the clock of the outside world does not go back, a sleep lasts as long as asked and each wait on the
  terminal waiter lasts its time, fails, or delivers one of finitely many events, waiting for a transfer ends, whatever the
  server answers: after at most as many rounds as the timeout has milliseconds and there are events to come, and one.
\<close>

theorem wait_terminates:
  assumes "steady env backlog" and "wait_plan_of o1 = Inr wp" and "nat (wp_timeoutMs wp) + backlog (cr_world (cl_run cl)) < n"
  shows "fst (waitForTransfer env cf n t o1 cl) \<noteq> None"
proof -
  obtain a cl0 where op: "openTransferTerminalWaiter env cf t cl = (a, cl0)" by force
  have "cl_onward env backlog cl cl0"
    using op assms(1) cl_onward_outside [of env backlog "cn_open env t" cf cl a cl0]
    by (auto simp: openTransferTerminalWaiter_def steady_def split: sum.splits)
  then have left: "rounds_left env backlog wp (client_now env cl) cl0 < n"
    using assms(3) by (auto simp: rounds_left_def cl_onward_iff backlog_of_def)
  then have left': "rounds_left env backlog wp (client_now env cl) (note_event Waiter_opened cl0) < n"
    by (simp add: rounds_left_def)
  show ?thesis
    using poll_loop_ends [OF assms(1) left] poll_loop_ends [OF assms(1) left'] assms(2) op
    by (cases a) (simp_all add: waitForTransfer_def Let_def case_prod_beta)
qed


subsection \<open>The pace of a wait\<close>

definition fair_random :: "'w client_env \<Rightarrow> bool" where
  "fair_random env \<longleftrightarrow> (\<forall>w. 0 \<le> ce_random (cn_control env) w \<and> ce_random (cn_control env) w < 1)"

definition longest :: "wait_plan \<Rightarrow> int" where
  "longest wp = \<lfloor>rat_of_int (wp_maxMs wp) * (6 / 5) + 1 / 2\<rfloor>"

definition in_pace :: "wait_plan \<Rightarrow> int \<Rightarrow> int \<Rightarrow> int \<Rightarrow> bool" where
  "in_pace wp startedAt ms t \<longleftrightarrow> 1 \<le> ms \<and> ms \<le> max 1 (startedAt + wp_timeoutMs wp - t) \<and> ms \<le> longest wp"

definition paced :: "wait_plan \<Rightarrow> int \<Rightarrow> client_event \<Rightarrow> bool" where
  "paced wp startedAt ev = (case ev of Waited ms t \<Rightarrow> in_pace wp startedAt ms t | Slept_for ms t \<Rightarrow> in_pace wp startedAt ms t | _ \<Rightarrow> True)"

lemma paced_simps [simp]:
  "paced wp s (Waited ms t) = in_pace wp s ms t" "paced wp s (Slept_for ms t) = in_pace wp s ms t" "paced wp s (Status_read r t)"
  "paced wp s Waiter_opened" "paced wp s Waiter_closed" "paced wp s Uploads_finalized"
  by (simp_all add: paced_def)

lemma jittered_bounds:
  assumes "1 \<le> i" and "i \<le> wp_maxMs wp" and "0 \<le> r" and "r < 1"
  shows "1 \<le> jitteredDelay i r \<and> jitteredDelay i r \<le> longest wp"
proof -
  have "rat_of_int i * (4 / 5 + r * (2 / 5)) \<le> rat_of_int (wp_maxMs wp) * (6 / 5)"
    using assms by (intro mult_mono) auto
  then have "\<lfloor>rat_of_int i * (4 / 5 + r * (2 / 5)) + 1 / 2\<rfloor> \<le> longest wp"
    unfolding longest_def by (intro floor_mono) simp
  moreover have "1 \<le> longest wp"
    unfolding longest_def le_floor_iff using assms(1,2) by simp
  ultimately show ?thesis by (simp add: jitteredDelay_def)
qed

definition interval_ok :: "wait_plan \<Rightarrow> poll \<Rightarrow> bool" where
  "interval_ok wp p \<longleftrightarrow> 1 \<le> pl_interval p \<and> pl_interval p \<le> wp_maxMs wp"

lemma next_interval_ok:
  assumes "interval_ok wp p"
  shows "pl_interval p \<le> next_interval wp (pl_interval p) \<and> next_interval wp (pl_interval p) \<le> wp_maxMs wp"
proof -
  have "1 \<le> rat_of_int (pl_interval p)" using assms by (simp add: interval_ok_def)
  then have "pl_interval p \<le> \<lceil>rat_of_int (pl_interval p) * (3 / 2)\<rceil>" unfolding le_ceiling_iff by linarith
  with assms show ?thesis by (simp add: next_interval_def interval_ok_def)
qed

lemma poll_pause_paced:
  assumes "steady env backlog" and "fair_random env" and "interval_ok wp p" and "1 \<le> wp_pollMs wp" and "wp_pollMs wp \<le> wp_maxMs wp"
    and "poll_pause env cf wp startedAt p cl = (p', cl')"
  shows "interval_ok wp p' \<and> (\<exists>l. cl_log cl' = cl_log cl @ l \<and> (\<forall>ev \<in> set l. paced wp startedAt ev))"
proof -
  let ?t = "client_now env cl"
  define waitMs where "waitMs = min (max 1 (wp_timeoutMs wp - (?t - startedAt)))
    (jitteredDelay (pl_interval p) (ce_random (cn_control env) (cr_world (cl_run cl))))"
  have pace: "in_pace wp startedAt waitMs ?t"
    using jittered_bounds [of "pl_interval p" wp "ce_random (cn_control env) (cr_world (cl_run cl))"] assms(2,3)
    by (auto simp: in_pace_def waitMs_def interval_ok_def fair_random_def algebra_simps)
  note nx = next_interval_ok [OF assms(3)]
  show ?thesis
  proof (cases "pl_waiter p")
    case False
    with assms(6) have "p' = p\<lparr>pl_interval := next_interval wp (pl_interval p)\<rparr>" "cl' = sleep_for env cf waitMs cl"
      by (simp_all add: poll_pause_def waitMs_def Let_def)
    with nx assms(3) pace show ?thesis by (auto simp: interval_ok_def)
  next
    case True
    obtain r cl1 where w: "outside env cf (cn_wait env waitMs) (note_event (Waited waitMs ?t) cl) = (r, cl1)" by force
    have log: "cl_log cl1 = cl_log cl @ [Waited waitMs ?t]" using log_outside [OF w] by simp
    show ?thesis
    proof (cases r)
      case (Inr ev)
      with assms(6) True w have "cl' = cl1" "p' = p\<lparr>pl_interval := if ev \<noteq> None then wp_pollMs wp else next_interval wp (pl_interval p)\<rparr>"
        by (simp_all add: poll_pause_def waitMs_def Let_def)
      with nx assms(3,4,5) pace log show ?thesis by (auto simp: interval_ok_def)
    next
      case (Inl e)
      let ?cl2 = "close_waiter env cf cl1"
      let ?left = "max 0 (waitMs - (client_now env ?cl2 - ?t))"
      have eq: "poll_pause env cf wp startedAt p cl = (\<lparr>pl_waiter = False, pl_interval = next_interval wp (pl_interval p)\<rparr>,
          if ?left > 0 then sleep_for env cf ?left ?cl2 else ?cl2)"
        using True w Inl unfolding poll_pause_def waitMs_def Let_def by simp
      have "?t \<le> client_now env ?cl2"
        using wait_onward(1) [OF assms(1) w] close_onward [OF assms(1), of cl1 cf] by (simp add: cl_onward_iff)
      then have "?left > 0 \<Longrightarrow> in_pace wp startedAt ?left (client_now env ?cl2)"
        using pace by (auto simp: in_pace_def)
      with eq assms(3,6) nx log pace show ?thesis by (auto simp: interval_ok_def)
    qed
  qed
qed

lemma poll_loop_paced:
  assumes "steady env backlog" and "fair_random env" and "1 \<le> wp_pollMs wp" and "wp_pollMs wp \<le> wp_maxMs wp"
    and "poll_loop env cf t wp startedAt n p cl = (res, p', cl')" and "interval_ok wp p"
  shows "\<exists>l. cl_log cl' = cl_log cl @ l \<and> (\<forall>ev \<in> set l. paced wp startedAt ev)"
  using assms(5,6)
proof (induction n arbitrary: p cl)
  case 0
  then show ?case by simp
next
  case (Suc n)
  obtain sres cl1 where s: "poll_status env cf t wp startedAt cl = (sres, cl1)" by force
  have one: "\<exists>l. cl_log cl1 = cl_log cl @ l \<and> (\<forall>ev \<in> set l. paced wp startedAt ev)"
    using s by (auto simp: poll_status_def Let_def dest!: log_status log_finalize split: sum.splits prod.splits if_splits)
  show ?case
  proof (cases sres)
    case (Some r)
    with Suc.prems s one show ?thesis by auto
  next
    case None
    obtain p1 cl2 where pz: "poll_pause env cf wp startedAt p cl1 = (p1, cl2)" by force
    have "poll_loop env cf t wp startedAt n p1 cl2 = (res, p', cl')" using Suc.prems s None pz by simp
    with Suc.IH poll_pause_paced [OF assms(1,2) Suc.prems(2) assms(3,4) pz] one show ?thesis by fastforce
  qed
qed

text \<open>
  A wait keeps its pace. Every wait on the terminal waiter and every sleep while waiting for a transfer lasts at least a
  millisecond, never longer than what is left of the timeout (or that millisecond), and never longer than the longest poll
  interval with its jitter, a fifth more; also what is slept after the waiter failed.
\<close>

theorem wait_keeps_pace:
  assumes "steady env backlog" and "fair_random env" and "wait_plan_of o1 = Inr wp"
  shows "\<exists>l. cl_log (snd (waitForTransfer env cf n t o1 cl)) = cl_log cl @ l \<and> (\<forall>ev \<in> set l. paced wp (client_now env cl) ev)"
proof -
  have poll: "1 \<le> wp_pollMs wp" "wp_pollMs wp \<le> wp_maxMs wp"
    using assms(3) by (auto simp: wait_plan_of_def Let_def split: if_splits)
  obtain a cl0 where op: "openTransferTerminalWaiter env cf t cl = (a, cl0)" by force
  let ?p = "\<lparr>pl_waiter = \<not> isl a, pl_interval = wp_pollMs wp\<rparr>"
  let ?cl1 = "if isl a then cl0 else note_event Waiter_opened cl0"
  obtain res p' cl2 where lp: "poll_loop env cf t wp (client_now env cl) n ?p ?cl1 = (res, p', cl2)" by (metis prod_cases3)
  obtain l where l: "cl_log cl2 = cl_log ?cl1 @ l" "\<forall>ev \<in> set l. paced wp (client_now env cl) ev"
    using poll_loop_paced [OF assms(1,2) poll lp] poll by (auto simp: interval_ok_def)
  have "snd (waitForTransfer env cf n t o1 cl) = (if res \<noteq> None \<and> pl_waiter p' then close_waiter env cf cl2 else cl2)"
    using assms(3) op lp by (cases a) (auto simp: waitForTransfer_def Let_def)
  with l log_open [OF op] show ?thesis by auto
qed

subsection \<open>A wait in a small world\<close>

text \<open>The world is the number of requests answered and the clock; the second status is the end.\<close>

definition demo_status :: "nat \<Rightarrow> reply" where
  "demo_status n = \<lparr>rp_ok = True, rp_status = 200, rp_payload = Some (JObj [(''status'', JStr (if n = 0 then ''running'' else ''completed''))]),
     rp_error = None, rp_runtime_epoch = ''e1'', rp_transport_epoch = ''x''\<rparr>"

definition demo_client_env :: "(nat \<times> int) client_env" where
  "demo_client_env = \<lparr>cn_control = \<lparr>ce_connect = \<lambda>w. (Inr (), w), ce_isClosed = \<lambda>_. False,
       ce_request = \<lambda>_ _ (n, c). (Inr (demo_status n), (n + 1, c)), ce_resolve = \<lambda>_ w. (Inl (Other_error [] ''timeout''), w),
       ce_now_ms = snd, ce_iso_now = \<lambda>_. ''2026-01-01T00:00:00.000Z'', ce_random = \<lambda>_. 0, ce_sleep = \<lambda>ms (n, c). (n, c + max 0 ms),
       ce_meanwhile = \<lambda>_. [], ce_msgpack_size = \<lambda>_. 100, ce_sha256 = \<lambda>_. [], ce_randomId = \<lambda>_. ''r''\<rparr>,
     cn_hub = \<lparr>hb_fetch = \<lambda>_ w. (Inl ''offline'', w), hb_host = \<lambda>_ _. None, hb_md5 = \<lambda>_. [], hb_sha256 = \<lambda>_. []\<rparr>,
     cn_open = \<lambda>_ w. (Inr (), w), cn_wait = \<lambda>ms (n, c). (Inr None, (n, c + max 0 ms)), cn_close = \<lambda>w. (Inr (), w),
     cn_submission = \<lambda>_ w. (Inr (), w), cn_payload = \<lambda>_ w. (Inl (''Error'', ''offline''), w), cn_errorName = \<lambda>_. ''Error''\<rparr>"

definition demo_client :: "(nat \<times> int) client" where
  "demo_client = new_client \<lparr>cr_world = (0, 0), cr_control = new_lifecycle\<lparr>lc_authToken := Some ''tok'', lc_authTokenExpiresAt := 3600\<rparr>,
     cr_nc = True, cr_sent = []\<rparr>"

definition demo_wait :: wait_options where
  "demo_wait = \<lparr>wo_timeoutMs = Some 10, wo_pollIntervalMs = Some 2, wo_maxPollIntervalMs = Some 4\<rparr>"

lemma demo_steady: "steady demo_client_env (\<lambda>_. 0)"
  by (auto simp: steady_def onward_def demo_client_env_def)

lemma demo_wait_plan: "wait_plan_of demo_wait = Inr \<lparr>wp_timeoutMs = 10, wp_pollMs = 2, wp_maxMs = 4\<rparr>"
  by (simp add: wait_plan_of_def demo_wait_def)

theorem wait_terminates_witness: "fst (waitForTransfer demo_client_env demo_config 11 ''t1'' demo_wait demo_client) \<noteq> None"
  by (rule wait_terminates [OF demo_steady demo_wait_plan]) simp

theorem wait_keeps_pace_witness:
  "\<exists>l. cl_log (snd (waitForTransfer demo_client_env demo_config 11 ''t1'' demo_wait demo_client)) = l
     \<and> (\<forall>ev \<in> set l. paced \<lparr>wp_timeoutMs = 10, wp_pollMs = 2, wp_maxMs = 4\<rparr> 0 ev)"
proof -
  have "fair_random demo_client_env" by (simp add: fair_random_def demo_client_env_def)
  from wait_keeps_pace [OF demo_steady this demo_wait_plan, of demo_config 11 "''t1''" demo_client]
  show ?thesis by (simp add: client_now_def demo_client_env_def demo_client_def new_client_def)
qed

theorem wait_ends_as_status_says_witness:
  "\<exists>r cl' l. waitForTransfer demo_client_env demo_config 11 ''t1'' demo_wait demo_client = (Some r, cl')
     \<and> r = Inr (JObj [(''status'', JStr ''completed'')]) \<and> cl_log cl' = l
     \<and> verdict ''t1'' \<lparr>wp_timeoutMs = 10, wp_pollMs = 2, wp_maxMs = 4\<rparr> 0 l r \<and> foldl hold_step (Some False) l = Some False"
proof -
  let ?run = "waitForTransfer demo_client_env demo_config 11 ''t1'' demo_wait demo_client"
  have r: "fst ?run = Some (Inr (JObj [(''status'', JStr ''completed'')]))" by code_simp
  then obtain cl' where run: "?run = (Some (Inr (JObj [(''status'', JStr ''completed'')])), cl')" by (metis prod.collapse)
  from wait_ends_as_status_says [OF run] run demo_wait_plan
  show ?thesis by (auto simp: client_now_def demo_client_env_def demo_client_def new_client_def)
qed


text \<open>The world of a client whose next status is the end.\<close>

definition demo_client_late :: "(nat \<times> int) client" where
  "demo_client_late = demo_client\<lparr>cl_run := (cl_run demo_client)\<lparr>cr_world := (1, 0)\<rparr>,
     cl_signers := [(''t1'', \<lparr>rg_owner = demo_lease 0, rg_serial = 0, rg_integrity = False\<rparr>)]\<rparr>"

theorem ended_transfer_holds_nothing_witness:
  "case transferStatus demo_client_env demo_config ''t1'' demo_client_late of
     (Inl e, cl') \<Rightarrow> False | (Inr status, cl') \<Rightarrow> ended status \<and> let_gone ''t1'' cl'"
proof -
  have st: "fst (transferStatus demo_client_env demo_config ''t1'' demo_client_late) = Inr (JObj [(''status'', JStr ''completed'')])"
    by code_simp
  moreover have "ended (JObj [(''status'', JStr ''completed'')])" by code_simp
  ultimately show ?thesis
    using ended_transfer_holds_nothing [of demo_client_env demo_config "''t1''" demo_client_late]
    by (cases "transferStatus demo_client_env demo_config ''t1'' demo_client_late") auto
qed

text \<open>
  An abort while the integrity subscription starts ends both subscriptions but forgets neither the registration nor the
  audit signer: the client goes on holding a signer that is served by nothing.
\<close>

lemma abort_leaves_registration:
  assumes "signer_of cl t = Some r" and "rg_serial r = n"
  shows "signer_of (integrity_served t owner n True True cl) t = Some r
    \<and> (\<forall>x \<in> set (cl_open (integrity_served t owner n True True cl)). fst x \<noteq> n)"
  using assms by (auto simp: integrity_served_def flushed_def signer_of_def Let_def)


end
