(* ===== verification/SdkStream.thy ===== *)
theory SdkStream
  imports SdkRoutes Effects TransferId "HOL-Library.Multiset"
begin

text \<open>
  The stream in which the SDK hands signed routes to the runtime (\<open>RouteStreamSender\<close>, \<open>RouteKeysChecksum\<close> and the
  identities around them in \<open>sdks/typescript/src/client.ts\<close>): routes are buffered, cut into batches and sent one batch
  after the other while the next routes are signed. SHA-256, the size of a message and the requests to the runtime
  are parameters; telemetry is left out.
\<close>

subsection \<open>Checksums\<close>

record keys_checksum =
  kc_bytes :: "8 word list"
  kc_count :: nat

definition empty_checksum :: keys_checksum where
  "empty_checksum = \<lparr>kc_bytes = replicate 32 0, kc_count = 0\<rparr>"

text \<open>\<open>bytes[index] ^= other[index] ?? 0\<close>.\<close>

definition xor_into :: "8 word list \<Rightarrow> 8 word list \<Rightarrow> 8 word list" where
  "xor_into bytes other = map (\<lambda>i. xor (bytes ! i) (if i < length other then other ! i else 0)) [0..<length bytes]"

definition addMany :: "(string \<Rightarrow> 8 word list) \<Rightarrow> keys_checksum \<Rightarrow> string list \<Rightarrow> keys_checksum" where
  "addMany sha256 c routeKeys =
     \<lparr>kc_bytes = foldl xor_into (kc_bytes c) (map sha256 routeKeys), kc_count = kc_count c + length routeKeys\<rparr>"

definition merge :: "keys_checksum \<Rightarrow> keys_checksum \<Rightarrow> keys_checksum" where
  "merge c other = \<lparr>kc_bytes = xor_into (kc_bytes c) (kc_bytes other), kc_count = kc_count c + kc_count other\<rparr>"

definition checksum_value :: "keys_checksum \<Rightarrow> string" where
  "checksum_value c = ''sha256-xor-v1:'' @ show_nat (kc_count c) @ '':'' @ bytesToHex (kc_bytes c)"

definition routeKeyForSignedRoute :: "signed_route \<Rightarrow> string" where
  "routeKeyForSignedRoute r = rt_source_id r @ '':'' @ rt_destination_id r @ '':'' @ show_int (rt_chunk_index r)"

definition signedRouteDeliveryIndex :: "signed_route \<Rightarrow> int option" where
  "signedRouteDeliveryIndex r =
     (case as_num (map_of (coalesce (rt_metadata r) []) ''delivery_index'') of
        Some n \<Rightarrow> Some n | None \<Rightarrow> rt_delivery_index r)"

definition routeCoordinateChecksum :: "(string \<Rightarrow> 8 word list) \<Rightarrow> signed_route list \<Rightarrow> string" where
  "routeCoordinateChecksum sha256 routes =
     checksum_value (addMany sha256 empty_checksum
       (map (\<lambda>r. routeKeyForSignedRoute r @ '':''
          @ (case signedRouteDeliveryIndex r of None \<Rightarrow> ''missing'' | Some n \<Rightarrow> show_int n)) routes))"

definition stableRouteStreamId :: "(string \<Rightarrow> 8 word list) \<Rightarrow> string \<Rightarrow> string \<Rightarrow> int \<Rightarrow> int \<Rightarrow> string \<Rightarrow> string" where
  "stableRouteStreamId sha256 transferId planIdentity totalRoutes totalChunks signedUrlFlow =
     uuid_form (bytesToHex (mark_uuid (take 16 (sha256
       (''beam:route-stream:'' @ signedUrlFlow @ '':'' @ transferId @ '':'' @ planIdentity @ '':'' @ show_int totalRoutes
        @ '':'' @ show_int totalChunks)))))"

definition countDistinctRouteChunks :: "signed_route list \<Rightarrow> nat" where
  "countDistinctRouteChunks routes =
     length (remdups (map (\<lambda>r. rt_source_id r @ '':'' @ show_int (rt_chunk_index r)) routes))"

text \<open>A checksum does not see the order of the keys, nor how they were batched.\<close>

lemma length_xor_into [simp]: "length (xor_into a b) = length a"
  by (simp add: xor_into_def)

lemma nth_xor_into: "i < length a \<Longrightarrow> xor_into a b ! i = xor (a ! i) (if i < length b then b ! i else 0)"
  by (simp add: xor_into_def)

lemma xor_into_comm: "xor_into (xor_into a b) c = xor_into (xor_into a c) b"
  by (rule nth_equalityI) (simp_all add: nth_xor_into xor.assoc xor.commute xor.left_commute)

lemma xor_into_fold: "length b = length a \<Longrightarrow> foldl xor_into (xor_into a b) xs = xor_into a (foldl xor_into b xs)"
proof (induction xs arbitrary: b)
  case (Cons x xs)
  have "xor_into (xor_into a b) x = xor_into a (xor_into b x)"
    using Cons.prems by (intro nth_equalityI) (simp_all add: nth_xor_into xor.assoc)
  then show ?case using Cons by simp
qed simp

lemma xor_into_zero: "xor_into a (replicate n 0) = a"
  by (rule nth_equalityI) (simp_all add: nth_xor_into)

lemma length_foldl_xor [simp]: "length (foldl xor_into a xs) = length a"
  by (induction xs arbitrary: a) simp_all

lemma foldl_xor_mset: "mset xs = mset ys \<Longrightarrow> foldl xor_into a xs = foldl xor_into a ys"
proof -
  assume same: "mset xs = mset ys"
  have "fold (\<lambda>x a. xor_into a x) xs = fold (\<lambda>x a. xor_into a x) ys"
    by (rule fold_multiset_equiv [OF _ same]) (auto simp: fun_eq_iff xor_into_comm)
  then show ?thesis by (simp add: foldl_conv_fold)
qed

lemma merge_addMany:
  "length (kc_bytes c) = 32 \<Longrightarrow> merge c (addMany sha256 empty_checksum ks) = addMany sha256 c ks"
proof -
  assume len: "length (kc_bytes c) = 32"
  have "xor_into (kc_bytes c) (foldl xor_into (replicate 32 0) (map sha256 ks)) = foldl xor_into (kc_bytes c) (map sha256 ks)"
    using xor_into_fold [of "replicate 32 0" "kc_bytes c" "map sha256 ks"] len by (simp add: xor_into_zero)
  then show ?thesis by (simp add: merge_def addMany_def empty_checksum_def)
qed

lemma addMany_append: "addMany sha256 (addMany sha256 c xs) ys = addMany sha256 c (xs @ ys)"
  by (simp add: addMany_def)

lemma length_addMany [simp]: "length (kc_bytes (addMany sha256 c ks)) = length (kc_bytes c)"
  by (simp add: addMany_def)

lemma length_empty_checksum [simp]: "length (kc_bytes empty_checksum) = 32"
  by (simp add: empty_checksum_def)

lemma merge_batches:
  "length (kc_bytes c) = 32 \<Longrightarrow> foldl (\<lambda>c ks. merge c (addMany sha256 empty_checksum ks)) c batches = addMany sha256 c (concat batches)"
proof (induction batches arbitrary: c)
  case (Cons ks batches)
  then show ?case by (simp add: merge_addMany addMany_append)
qed (simp add: addMany_def)

text \<open>
  The checksum of a stream identifies its keys and nothing else. However the keys are cut into batches, in whatever
  order they come, merging the checksums of the batches gives the checksum of all keys together, printed the same.
\<close>

theorem checksum_ignores_batches_and_order:
  assumes "mset (concat batches) = mset keys"
  shows "checksum_value (foldl (\<lambda>c ks. merge c (addMany sha256 empty_checksum ks)) empty_checksum batches)
    = checksum_value (addMany sha256 empty_checksum keys)"
proof -
  have "mset (map sha256 (concat batches)) = mset (map sha256 keys)" using assms by simp
  from foldl_xor_mset [OF this] mset_eq_length [OF assms]
  have "addMany sha256 empty_checksum (concat batches) = addMany sha256 empty_checksum keys" by (simp add: addMany_def)
  then show ?thesis by (simp add: merge_batches)
qed

theorem checksum_ignores_batches_and_order_witness:
  "checksum_value (foldl (\<lambda>c ks. merge c (addMany (\<lambda>_. replicate 32 1) empty_checksum ks)) empty_checksum [[''b''], [''a'', ''c'']])
    = checksum_value (addMany (\<lambda>_. replicate 32 1) empty_checksum [''a'', ''b'', ''c''])"
  by (rule checksum_ignores_batches_and_order) (simp add: add_mset_commute)


subsection \<open>The sender\<close>

record stream_options =
  so_streamId :: string
  so_transferId :: string
  so_totalRoutes :: int
  so_totalChunks :: int
  so_routeGenerationId :: string
  so_urlsExpiresAt :: "string option"
  so_signedUrlFlow :: string
  so_autoDistribute :: bool

text \<open>\<open>ss_queue\<close> holds the sends chained behind the tail that have not run yet.\<close>

record stream =
  ss_checksum :: keys_checksum
  ss_batch :: "signed_route list"
  ss_seen :: "int list"
  ss_batchIndex :: nat
  ss_routeCount :: nat
  ss_queue :: "(nat \<times> signed_route list) list"
  ss_error :: "string option"

definition new_stream :: stream where
  "new_stream = \<lparr>ss_checksum = empty_checksum, ss_batch = [], ss_seen = [], ss_batchIndex = 0, ss_routeCount = 0,
     ss_queue = [], ss_error = None\<rparr>"

datatype stream_event =
  Ev_begin "(string \<times> json) list" string "string + json"
| Ev_manifest "(string \<times> json) list" string "string + json"
| Ev_batch nat "signed_route list" "(string \<times> json) list" string "string + json"
| Ev_complete nat int string "(string \<times> json) list" string "string + json"

text \<open>A request to the runtime: its type, its payload and its idempotency key.\<close>

record 'w sender_env =
  se_request :: "string \<Rightarrow> (string \<times> json) list \<Rightarrow> string \<Rightarrow> 'w \<Rightarrow> (string + json) \<times> 'w"
  se_sha256 :: "string \<Rightarrow> 8 word list"
  se_msgpack_size :: "json \<Rightarrow> int"
  se_identity :: control_identity
  se_now :: string

type_synonym ('w, 'a) sact = "('w \<times> stream, stream_event, 'a) act"

definition ROUTE_STREAM_BATCH_ROUTES :: nat where "ROUTE_STREAM_BATCH_ROUTES = 1024"

definition stream_key :: "stream_options \<Rightarrow> string \<Rightarrow> string" where
  "stream_key o1 step = ''transfer:'' @ so_transferId o1 @ '':route-stream:'' @ so_streamId o1 @ '':'' @ step"

definition stream_begin :: "'w sender_env \<Rightarrow> stream_options \<Rightarrow> ('w, unit) sact" where
  "stream_begin env o1 =
     (let payload = compact
        [(''transfer_id'', Some (JStr (so_transferId o1))), (''route_generation_id'', Some (JStr (so_routeGenerationId o1))),
         (''stream_id'', Some (JStr (so_streamId o1))), (''total_routes'', Some (JNum (so_totalRoutes o1))),
         (''total_chunks'', Some (JNum (so_totalChunks o1))), (''route_contract_version'', Some (JStr (so_signedUrlFlow o1))),
         (''urls_expires_at'', map_option JStr (so_urlsExpiresAt o1)), (''signed_url_flow'', Some (JStr (so_signedUrlFlow o1))),
         (''auto_distribute'', Some (JBool (so_autoDistribute o1)))];
       key = stream_key o1 ''begin'' in
      bind_a (on_world (call (Ev_begin payload key) (se_request env ''transfer.route_stream.begin'' payload key))) (\<lambda>_. return_a ()))"

text \<open>One chained send: after an error it does nothing, and its own error is kept for whoever awaits the tail.\<close>

definition batch_payload :: "'w sender_env \<Rightarrow> stream_options \<Rightarrow> nat \<Rightarrow> signed_route list \<Rightarrow> (string \<times> json) list" where
  "batch_payload env o1 batchIndex chunk =
     [(''transfer_id'', JStr (so_transferId o1)), (''route_generation_id'', JStr (so_routeGenerationId o1)),
      (''stream_id'', JStr (so_streamId o1)),
      (''batch_id'', JStr (so_streamId o1 @ '':'' @ show_nat batchIndex @ '':'' @ routeCoordinateChecksum (se_sha256 env) chunk)),
      (''batch_index'', JNum (int batchIndex)), (''route_batch'', compact_batch_json (compactSignedRoutes chunk)),
      (''route_count'', JNum (int (length chunk))),
      (''route_keys_checksum'', JStr (checksum_value (addMany (se_sha256 env) empty_checksum (map routeKeyForSignedRoute chunk))))]"

definition send_chunk :: "'w sender_env \<Rightarrow> stream_options \<Rightarrow> nat \<Rightarrow> signed_route list \<Rightarrow> ('w, unit) sact" where
  "send_chunk env o1 batchIndex chunk =
     bind_a get_state (\<lambda>st.
       if ss_error st \<noteq> None then return_a ()
       else
         (let payload = batch_payload env o1 batchIndex chunk;
              key = stream_key o1 (''batch:'' @ show_nat batchIndex @ '':'' @ routeCoordinateChecksum (se_sha256 env) chunk) in
          bind_a (modify_state (\<lambda>s. s\<lparr>ss_checksum := merge (ss_checksum s)
            (addMany (se_sha256 env) empty_checksum (map routeKeyForSignedRoute chunk))\<rparr>)) (\<lambda>_.
          bind_a (attempt (on_world (call (Ev_batch batchIndex chunk payload key) (se_request env ''transfer.route_stream.batch'' payload key))))
            (\<lambda>answer. case answer of
                Inl e \<Rightarrow> modify_state (\<lambda>s. s\<lparr>ss_error := Some e\<rparr>)
              | Inr _ \<Rightarrow> return_a ()))))"

text \<open>The next chained send runs; awaiting the tail runs them all.\<close>

definition run_send :: "'w sender_env \<Rightarrow> stream_options \<Rightarrow> ('w, unit) sact" where
  "run_send env o1 =
     bind_a get_state (\<lambda>st.
       case ss_queue st of
         [] \<Rightarrow> return_a ()
       | (i, chunk) # rest \<Rightarrow>
           bind_a (modify_state (\<lambda>s. s\<lparr>ss_queue := rest\<rparr>)) (\<lambda>_. send_chunk env o1 i chunk))"

definition await_tail :: "'w sender_env \<Rightarrow> stream_options \<Rightarrow> ('w, unit) sact" where
  "await_tail env o1 =
     bind_a get_state (\<lambda>st. fold_a (\<lambda>_ _. run_send env o1) () (ss_queue st))"

definition rethrow :: "('w, unit) sact" where
  "rethrow = bind_a get_state (\<lambda>st. case ss_error st of None \<Rightarrow> return_a () | Some e \<Rightarrow> lift_a (Inl e))"

definition split_payload :: "stream_options \<Rightarrow> nat \<Rightarrow> (string \<times> json) list" where
  "split_payload o1 batchIndex =
     [(''transfer_id'', JStr (so_transferId o1)), (''route_generation_id'', JStr (so_routeGenerationId o1)),
      (''stream_id'', JStr (so_streamId o1)), (''batch_id'', JStr (so_streamId o1 @ '':estimate'')),
      (''batch_index'', JNum (int batchIndex))]"

definition enqueueFlush :: "'w sender_env \<Rightarrow> stream_options \<Rightarrow> ('w, unit) sact" where
  "enqueueFlush env o1 =
     bind_a get_state (\<lambda>st.
       if ss_batch st = [] then return_a ()
       else
         bind_a (await_tail env o1) (\<lambda>_.
         bind_a rethrow (\<lambda>_.
         bind_a get_state (\<lambda>st.
         bind_a (modify_state (\<lambda>s. s\<lparr>ss_batch := []\<rparr>)) (\<lambda>_.
         bind_a (lift_a (splitRoutesForPayload (se_msgpack_size env) (se_identity env) (se_now env) ''transfer.route_stream.batch''
             (split_payload o1 (ss_batchIndex st)) (ss_batch st))) (\<lambda>chunks.
           modify_state (\<lambda>s. s\<lparr>ss_queue := ss_queue s @ zip [ss_batchIndex s..<ss_batchIndex s + length chunks] chunks,
             ss_batchIndex := ss_batchIndex s + length chunks\<rparr>)))))))"

definition addRoute :: "'w sender_env \<Rightarrow> stream_options \<Rightarrow> signed_route \<Rightarrow> ('w, unit) sact" where
  "addRoute env o1 r =
     bind_a get_state (\<lambda>st.
       case signedRouteDeliveryIndex r of
         None \<Rightarrow> lift_a (Inl ''route delivery_index is required'')
       | Some index \<Rightarrow>
           if \<bar>index\<bar> > 2 ^ 53 - 1 \<or> index < 0 \<or> index \<ge> so_totalRoutes o1 then
             lift_a (Inl (''route delivery_index '' @ show_int index @ '' is outside the declared route stream''))
           else if List.member (ss_seen st) index then
             lift_a (Inl (''duplicate route delivery_index '' @ show_int index))
           else
             bind_a (modify_state (\<lambda>s. s\<lparr>ss_seen := ss_seen s @ [index], ss_routeCount := ss_routeCount s + 1,
                 ss_batch := ss_batch s @ [r\<lparr>rt_delivery_index := Some index\<rparr>]\<rparr>)) (\<lambda>_.
             bind_a get_state (\<lambda>st.
               if length (ss_batch st) \<ge> ROUTE_STREAM_BATCH_ROUTES then enqueueFlush env o1 else return_a ())))"

definition stream_complete :: "'w sender_env \<Rightarrow> stream_options \<Rightarrow> json \<Rightarrow> ('w, json) sact" where
  "stream_complete env o1 sdkPerformance =
     bind_a get_state (\<lambda>st.
       if int (ss_routeCount st) \<noteq> so_totalRoutes o1 \<or> int (length (ss_seen st)) \<noteq> so_totalRoutes o1 then
         lift_a (Inl (''route stream has incomplete or duplicate delivery indices: received '' @ show_nat (ss_routeCount st)
           @ '' of '' @ show_int (so_totalRoutes o1) @ '' routes''))
       else
         bind_a (enqueueFlush env o1) (\<lambda>_.
         bind_a (await_tail env o1) (\<lambda>_.
         bind_a rethrow (\<lambda>_.
         bind_a get_state (\<lambda>st.
           (let payload =
                  [(''sdk_performance'', sdkPerformance), (''transfer_id'', JStr (so_transferId o1)),
                   (''route_generation_id'', JStr (so_routeGenerationId o1)), (''stream_id'', JStr (so_streamId o1)),
                   (''expected_batches'', JNum (int (ss_batchIndex st))), (''expected_routes'', JNum (so_totalRoutes o1)),
                   (''route_keys_checksum'', JStr (checksum_value (ss_checksum st)))];
                key = stream_key o1 ''complete'' in
            on_world (call (Ev_complete (ss_batchIndex st) (so_totalRoutes o1) (checksum_value (ss_checksum st)) payload key)
              (se_request env ''transfer.route_stream.complete'' payload key))))))))"

definition stream_abort :: "'w sender_env \<Rightarrow> stream_options \<Rightarrow> ('w, unit) sact" where
  "stream_abort env o1 =
     bind_a (modify_state (\<lambda>s. s\<lparr>ss_error := or_else (ss_error s) (Some ''route_stream_aborted'')\<rparr>)) (\<lambda>_. await_tail env o1)"

text \<open>A producer: routes are added one after the other, and a chained send may run at any moment between.\<close>

datatype stream_op = Op_add signed_route | Op_send

fun run_op :: "'w sender_env \<Rightarrow> stream_options \<Rightarrow> stream_op \<Rightarrow> ('w, unit) sact" where
  "run_op env o1 (Op_add r) = addRoute env o1 r"
| "run_op env o1 Op_send = run_send env o1"

definition run_ops :: "'w sender_env \<Rightarrow> stream_options \<Rightarrow> stream_op list \<Rightarrow> ('w, unit) sact" where
  "run_ops env o1 ops = fold_a (\<lambda>_ step. run_op env o1 step) () ops"

fun added :: "stream_op list \<Rightarrow> signed_route list" where
  "added [] = []"
| "added (Op_add r # ops) = r\<lparr>rt_delivery_index := signedRouteDeliveryIndex r\<rparr> # added ops"
| "added (Op_send # ops) = added ops"


subsection \<open>What a stream has sent\<close>

definition sent_of :: "stream_event list \<Rightarrow> (nat \<times> signed_route list \<times> (string + json)) list" where
  "sent_of l = concat (map (\<lambda>ev. case ev of Ev_batch i chunk _ _ answer \<Rightarrow> [(i, chunk, answer)] | _ \<Rightarrow> []) l)"

lemma sent_of_append [simp]: "sent_of (l @ l') = sent_of l @ sent_of l'"
  by (simp add: sent_of_def)

lemma sent_of_simps [simp]:
  "sent_of [] = []" "sent_of [Ev_batch i chunk p k a] = [(i, chunk, a)]" "sent_of [Ev_begin p k a] = []"
  "sent_of [Ev_complete n m c p k a] = []" "sent_of [Ev_manifest p k a] = []"
  by (simp_all add: sent_of_def)

definition routes_sent :: "stream_event list \<Rightarrow> signed_route list" where
  "routes_sent l = concat (map (\<lambda>(_, chunk, _). chunk) (sent_of l))"

definition no_complete :: "stream_event list \<Rightarrow> bool" where
  "no_complete l \<longleftrightarrow> (\<forall>n m c p k a. Ev_complete n m c p k a \<notin> set l)"

lemma no_complete_simps [simp]: "no_complete []" "no_complete (l @ [Ev_batch i chunk p k a]) \<longleftrightarrow> no_complete l"
  by (simp_all add: no_complete_def)

definition stream_ok :: "'w sender_env \<Rightarrow> stream_options \<Rightarrow> signed_route list \<Rightarrow> stream \<Rightarrow> stream_event list \<Rightarrow> bool" where
  "stream_ok env o1 rs s l \<longleftrightarrow>
     no_complete l \<and> map rt_delivery_index rs = map Some (ss_seen s) \<and> distinct (ss_seen s) \<and> set (ss_seen s) \<subseteq> {0..<so_totalRoutes o1}
     \<and> ss_routeCount s = length (ss_seen s)
     \<and> (ss_error s = None \<longrightarrow>
          (\<forall>(_, _, answer) \<in> set (sent_of l). \<exists>v. answer = Inr v)
          \<and> map fst (sent_of l) @ map fst (ss_queue s) = [0..<ss_batchIndex s]
          \<and> routes_sent l @ concat (map snd (ss_queue s)) @ ss_batch s = rs
          \<and> ss_checksum s = addMany (se_sha256 env) empty_checksum (map routeKeyForSignedRoute (routes_sent l)))"

lemmas act_defs = bind_a_def return_a_def lift_a_def get_state_def modify_state_def on_world_def attempt_def call_def

text \<open>What running one chained send does to the state and the trace.\<close>

lemma run_send_hoare:
  "hoare (\<lambda>s l. stream_ok env o1 rs s l \<and> length (ss_queue s) = n \<and> ss_batch s = b)
     (run_send env o1) (\<lambda>_ s l. stream_ok env o1 rs s l \<and> length (ss_queue s) = n - 1 \<and> ss_batch s = b) (\<lambda>_. no_complete)"
proof (rule hoareI)
  fix w s l r w' s' l'
  assume pre: "stream_ok env o1 rs s l \<and> length (ss_queue s) = n \<and> ss_batch s = b"
    and run: "run_send env o1 ((w, s), l) = (r, ((w', s'), l'))"
  have "r = Inr () \<and> stream_ok env o1 rs s' l' \<and> length (ss_queue s') = n - 1 \<and> ss_batch s' = b"
  proof (cases "ss_queue s")
    case Nil
    then show ?thesis using pre run by (auto simp: run_send_def act_defs)
  next
    case (Cons q rest)
    obtain i chunk where q: "q = (i, chunk)" by fastforce
    show ?thesis
    proof (cases "ss_error s = None")
      case True
      let ?p = "batch_payload env o1 i chunk"
      let ?k = "stream_key o1 (''batch:'' @ show_nat i @ '':'' @ routeCoordinateChecksum (se_sha256 env) chunk)"
      obtain a v where ask: "se_request env ''transfer.route_stream.batch'' ?p ?k w = (a, v)" by fastforce
      have len: "length (kc_bytes (ss_checksum s)) = 32" using pre True by (simp add: stream_ok_def)
      note before = pre [unfolded stream_ok_def] Cons q True
      show ?thesis
      proof (cases a)
        case (Inl e)
        then show ?thesis
          using run before ask by (auto simp: run_send_def send_chunk_def act_defs Let_def stream_ok_def)
      next
        case (Inr x)
        then have "s' = s\<lparr>ss_queue := rest, ss_checksum := merge (ss_checksum s)
            (addMany (se_sha256 env) empty_checksum (map routeKeyForSignedRoute chunk))\<rparr>"
            "l' = l @ [Ev_batch i chunk ?p ?k (Inr x)]" "r = Inr ()"
          using run Cons q True ask by (auto simp: run_send_def send_chunk_def act_defs Let_def)
        then show ?thesis
          using before len by (auto simp: stream_ok_def routes_sent_def merge_addMany addMany_append)
      qed
    next
      case False
      then show ?thesis
        using run pre Cons q by (auto simp: run_send_def send_chunk_def act_defs stream_ok_def)
    qed
  qed
  then show "case r of Inl e \<Rightarrow> no_complete l' | Inr a \<Rightarrow> stream_ok env o1 rs s' l' \<and> length (ss_queue s') = n - 1 \<and> ss_batch s' = b" by simp
qed

lemma await_tail_hoare:
  "hoare (\<lambda>s l. stream_ok env o1 rs s l \<and> ss_batch s = b)
     (await_tail env o1) (\<lambda>_ s l. stream_ok env o1 rs s l \<and> ss_queue s = [] \<and> ss_batch s = b) (\<lambda>_. no_complete)"
proof -
  have runs: "hoare (\<lambda>s l. stream_ok env o1 rs s l \<and> length (ss_queue s) = length xs \<and> ss_batch s = b)
      (fold_a (\<lambda>_ _. run_send env o1) () xs) (\<lambda>_ s l. stream_ok env o1 rs s l \<and> ss_queue s = [] \<and> ss_batch s = b) (\<lambda>_. no_complete)"
    for xs :: "(nat \<times> signed_route list) list"
  proof (induction xs)
    case Nil
    show ?case by (simp add: hoare_return)
  next
    case (Cons x xs)
    show ?case
      unfolding fold_a.simps
    proof (rule hoare_bind)
      show "hoare (\<lambda>s l. stream_ok env o1 rs s l \<and> length (ss_queue s) = length (x # xs) \<and> ss_batch s = b) (run_send env o1)
          (\<lambda>_ s l. stream_ok env o1 rs s l \<and> length (ss_queue s) = length xs \<and> ss_batch s = b) (\<lambda>_. no_complete)"
        using run_send_hoare [of env o1 rs "length (x # xs)" b] by simp
    qed (use Cons in simp)
  qed
  have "hoare (\<lambda>s l. stream_ok env o1 rs s l \<and> length (ss_queue s) = length (ss_queue st) \<and> ss_batch s = b)
      (fold_a (\<lambda>_ _. run_send env o1) () (ss_queue st)) (\<lambda>_ s l. stream_ok env o1 rs s l \<and> ss_queue s = [] \<and> ss_batch s = b) (\<lambda>_. no_complete)" for st
    by (rule runs)
  then show ?thesis
    unfolding await_tail_def
    by (intro hoare_bind [where R = "\<lambda>st s l. stream_ok env o1 rs s l \<and> length (ss_queue s) = length (ss_queue st) \<and> ss_batch s = b"] hoare_get) simp_all
qed

lemma rethrow_hoare:
  "(\<And>s l. P s l \<Longrightarrow> ss_error s = None \<Longrightarrow> Q () s l) \<Longrightarrow> (\<And>s l. P s l \<Longrightarrow> no_complete l) \<Longrightarrow> hoare P rethrow Q (\<lambda>_. no_complete)"
  by (rule hoareI) (auto simp: rethrow_def act_defs split: option.splits)

lemma splitRoutes_concat:
  "splitRoutesForPayload ms c now ty p routes = Inr chunks \<Longrightarrow> concat chunks = routes"
  using split_from_sound [where encodedBytes = "\<lambda>b. ms (estimate_envelope c now ty p b)"
      and target = "targetPayloadBytes c" and maxPayload = "ci_maxPayloadBytes c" and routes = routes]
  by (simp add: splitRoutesForPayload_def)

lemma enqueueFlush_hoare:
  "hoare (stream_ok env o1 rs) (enqueueFlush env o1) (\<lambda>_ s l. stream_ok env o1 rs s l \<and> ss_batch s = []) (\<lambda>_. no_complete)"
proof -
  let ?T = "\<lambda>st. bind_a (modify_state (\<lambda>s. s\<lparr>ss_batch := []\<rparr>)) (\<lambda>_.
      bind_a (lift_a (splitRoutesForPayload (se_msgpack_size env) (se_identity env) (se_now env) ''transfer.route_stream.batch''
          (split_payload o1 (ss_batchIndex st)) (ss_batch st))) (\<lambda>chunks.
        modify_state (\<lambda>s. s\<lparr>ss_queue := ss_queue s @ zip [ss_batchIndex s..<ss_batchIndex s + length chunks] chunks,
          ss_batchIndex := ss_batchIndex s + length chunks\<rparr>))) :: ('a, unit) sact"
  have cut: "hoare (\<lambda>s l. (stream_ok env o1 rs s l \<and> ss_queue s = [] \<and> ss_error s = None) \<and> s = st) (?T st)
      (\<lambda>_ s l. stream_ok env o1 rs s l \<and> ss_batch s = []) (\<lambda>_. no_complete)" for st
  proof (rule hoareI)
    fix w s l r w' s' l'
    assume pre: "(stream_ok env o1 rs s l \<and> ss_queue s = [] \<and> ss_error s = None) \<and> s = st"
      and run: "?T st ((w, s), l) = (r, ((w', s'), l'))"
    let ?split = "splitRoutesForPayload (se_msgpack_size env) (se_identity env) (se_now env) ''transfer.route_stream.batch''
          (split_payload o1 (ss_batchIndex st)) (ss_batch st)"
    show "case r of Inl e \<Rightarrow> no_complete l' | Inr a \<Rightarrow> stream_ok env o1 rs s' l' \<and> ss_batch s' = []"
    proof (cases ?split)
      case (Inl e)
      then show ?thesis using run pre by (auto simp: act_defs stream_ok_def)
    next
      case (Inr chunks)
      have "concat chunks = ss_batch st" using Inr by (rule splitRoutes_concat)
      moreover have "[0..<ss_batchIndex s + length chunks] = [0..<ss_batchIndex s] @ [ss_batchIndex s..<ss_batchIndex s + length chunks]"
        by (rule upt_add_eq_append) simp
      moreover have "s' = s\<lparr>ss_batch := [], ss_queue := zip [ss_batchIndex s..<ss_batchIndex s + length chunks] chunks,
          ss_batchIndex := ss_batchIndex s + length chunks\<rparr>" "l' = l" "r = Inr ()"
        using run Inr pre by (auto simp: act_defs)
      ultimately show ?thesis using pre by (auto simp: stream_ok_def)
    qed
  qed
  have work: "hoare (\<lambda>s l. stream_ok env o1 rs s l \<and> ss_batch s = b) (bind_a (await_tail env o1) (\<lambda>_. bind_a rethrow (\<lambda>_. bind_a get_state ?T)))
      (\<lambda>_ s l. stream_ok env o1 rs s l \<and> ss_batch s = []) (\<lambda>_. no_complete)" for b
  proof (rule hoare_bind [OF await_tail_hoare])
    fix u :: unit
    show "hoare (\<lambda>s l. stream_ok env o1 rs s l \<and> ss_queue s = [] \<and> ss_batch s = b) (bind_a rethrow (\<lambda>_. bind_a get_state ?T))
        (\<lambda>_ s l. stream_ok env o1 rs s l \<and> ss_batch s = []) (\<lambda>_. no_complete)"
    proof (rule hoare_bind [OF rethrow_hoare [where Q = "\<lambda>_ s l. stream_ok env o1 rs s l \<and> ss_queue s = [] \<and> ss_error s = None"]], simp, simp add: stream_ok_def)
      fix v :: unit
      show "hoare (\<lambda>s l. stream_ok env o1 rs s l \<and> ss_queue s = [] \<and> ss_error s = None) (bind_a get_state ?T)
          (\<lambda>_ s l. stream_ok env o1 rs s l \<and> ss_batch s = []) (\<lambda>_. no_complete)"
        by (rule hoare_bind [OF hoare_get [where Q = "\<lambda>st s l. (stream_ok env o1 rs s l \<and> ss_queue s = [] \<and> ss_error s = None) \<and> s = st"] cut]) simp
    qed
  qed
  show ?thesis
    unfolding enqueueFlush_def
  proof (rule hoare_bind [OF hoare_get [where Q = "\<lambda>st s l. stream_ok env o1 rs s l \<and> s = st"]], simp)
    fix st
    show "hoare (\<lambda>s l. stream_ok env o1 rs s l \<and> s = st)
        (if ss_batch st = [] then return_a () else bind_a (await_tail env o1) (\<lambda>_. bind_a rethrow (\<lambda>_. bind_a get_state ?T)))
        (\<lambda>_ s l. stream_ok env o1 rs s l \<and> ss_batch s = []) (\<lambda>_. no_complete)"
      using hoare_pre [OF work [of "ss_batch st"], of "\<lambda>s l. stream_ok env o1 rs s l \<and> s = st"]
      by (auto intro!: hoare_return)
  qed
qed


lemma hoare_post: "hoare P m Q E \<Longrightarrow> (\<And>a s l. Q a s l \<Longrightarrow> Q' a s l) \<Longrightarrow> hoare P m Q' E"
  unfolding hoare_def by (metis (no_types, lifting) sum.case_eq_if)

lemma addRoute_hoare:
  "hoare (stream_ok env o1 rs) (addRoute env o1 r)
     (\<lambda>_. stream_ok env o1 (rs @ [r\<lparr>rt_delivery_index := signedRouteDeliveryIndex r\<rparr>])) (\<lambda>_. no_complete)"
proof -
  let ?r = "r\<lparr>rt_delivery_index := signedRouteDeliveryIndex r\<rparr>"
  let ?ok = "stream_ok env o1 (rs @ [?r])"
  have flush: "hoare ?ok (bind_a get_state (\<lambda>st. if length (ss_batch st) \<ge> ROUTE_STREAM_BATCH_ROUTES then enqueueFlush env o1 else return_a ()))
      (\<lambda>_. ?ok) (\<lambda>_. no_complete)"
  proof (rule hoare_bind [OF hoare_get [where Q = "\<lambda>_. ?ok"]], assumption)
    fix st
    have "hoare ?ok (enqueueFlush env o1) (\<lambda>_. ?ok) (\<lambda>_. no_complete)"
      by (rule hoare_post [OF enqueueFlush_hoare]) simp
    then show "hoare ?ok (if length (ss_batch st) \<ge> ROUTE_STREAM_BATCH_ROUTES then enqueueFlush env o1 else return_a ()) (\<lambda>_. ?ok) (\<lambda>_. no_complete)"
      by (simp add: hoare_return)
  qed
  show ?thesis
    unfolding addRoute_def
  proof (rule hoare_bind [OF hoare_get [where Q = "\<lambda>st s l. stream_ok env o1 rs s l \<and> s = st"]], simp)
    fix st
    have throws: "hoare (\<lambda>s l. stream_ok env o1 rs s l \<and> s = st) (lift_a (Inl e)) Q (\<lambda>_. no_complete)" for Q :: "unit \<Rightarrow> stream \<Rightarrow> stream_event list \<Rightarrow> bool" and e
      by (rule hoareI) (auto simp: lift_a_def stream_ok_def)
    have add: "hoare (\<lambda>s l. stream_ok env o1 rs s l \<and> s = st)
        (bind_a (modify_state (\<lambda>s. s\<lparr>ss_seen := ss_seen s @ [index], ss_routeCount := ss_routeCount s + 1,
            ss_batch := ss_batch s @ [r\<lparr>rt_delivery_index := Some index\<rparr>]\<rparr>)) (\<lambda>_.
          bind_a get_state (\<lambda>st. if length (ss_batch st) \<ge> ROUTE_STREAM_BATCH_ROUTES then enqueueFlush env o1 else return_a ())))
        (\<lambda>_. ?ok) (\<lambda>_. no_complete)"
      if index: "signedRouteDeliveryIndex r = Some index" "0 \<le> index" "index < so_totalRoutes o1" "index \<notin> set (ss_seen st)" for index
    proof (rule hoare_bind [OF hoare_modify flush])
      fix s l assume "stream_ok env o1 rs s l \<and> s = st"
      then show "?ok (s\<lparr>ss_seen := ss_seen s @ [index], ss_routeCount := ss_routeCount s + 1,
          ss_batch := ss_batch s @ [r\<lparr>rt_delivery_index := Some index\<rparr>]\<rparr>) l"
        using index by (auto simp: stream_ok_def)
    qed
    show "hoare (\<lambda>s l. stream_ok env o1 rs s l \<and> s = st)
        (case signedRouteDeliveryIndex r of
          None \<Rightarrow> lift_a (Inl ''route delivery_index is required'')
        | Some index \<Rightarrow>
            if \<bar>index\<bar> > 2 ^ 53 - 1 \<or> index < 0 \<or> index \<ge> so_totalRoutes o1 then
              lift_a (Inl (''route delivery_index '' @ show_int index @ '' is outside the declared route stream''))
            else if List.member (ss_seen st) index then lift_a (Inl (''duplicate route delivery_index '' @ show_int index))
            else
              bind_a (modify_state (\<lambda>s. s\<lparr>ss_seen := ss_seen s @ [index], ss_routeCount := ss_routeCount s + 1,
                  ss_batch := ss_batch s @ [r\<lparr>rt_delivery_index := Some index\<rparr>]\<rparr>)) (\<lambda>_.
              bind_a get_state (\<lambda>st. if length (ss_batch st) \<ge> ROUTE_STREAM_BATCH_ROUTES then enqueueFlush env o1 else return_a ())))
        (\<lambda>_. ?ok) (\<lambda>_. no_complete)"
      using add throws by (auto split: option.split)
  qed
qed

lemma run_ops_hoare:
  "hoare (stream_ok env o1 rs) (run_ops env o1 ops) (\<lambda>_. stream_ok env o1 (rs @ added ops)) (\<lambda>_. no_complete)"
  unfolding run_ops_def
proof (induction ops arbitrary: rs rule: added.induct)
  case 1
  show ?case by (simp add: hoare_return)
next
  case (2 r ops)
  show ?case
    unfolding fold_a.simps run_op.simps by (rule hoare_bind [OF addRoute_hoare])
      (use 2 [of "rs @ [r\<lparr>rt_delivery_index := signedRouteDeliveryIndex r\<rparr>]"] in simp)
next
  case (3 ops)
  have "hoare (stream_ok env o1 rs) (run_send env o1) (\<lambda>_. stream_ok env o1 rs) (\<lambda>_. no_complete)"
  proof (rule hoareI)
    fix w s l r w' s' l'
    assume "stream_ok env o1 rs s l" and run: "run_send env o1 ((w, s), l) = (r, ((w', s'), l'))"
    then have "stream_ok env o1 rs s l \<and> length (ss_queue s) = length (ss_queue s) \<and> ss_batch s = ss_batch s" by simp
    from hoareD [OF run_send_hoare this run]
    show "case r of Inl e \<Rightarrow> no_complete l' | Inr a \<Rightarrow> stream_ok env o1 rs s' l'" by (cases r) simp_all
  qed
  then show ?case
    unfolding fold_a.simps run_op.simps by (rule hoare_bind) (use 3 in simp)
qed

text \<open>What is known at the moment a stream is declared complete.\<close>

definition complete_ok :: "'w sender_env \<Rightarrow> stream_options \<Rightarrow> signed_route list \<Rightarrow> stream_event list \<Rightarrow> nat \<Rightarrow> int \<Rightarrow> string \<Rightarrow> bool" where
  "complete_ok env o1 rs l batches routes checksum \<longleftrightarrow>
     routes = so_totalRoutes o1 \<and> int (length rs) = routes \<and> routes_sent l = rs
     \<and> map fst (sent_of l) = [0..<batches] \<and> (\<forall>(_, _, answer) \<in> set (sent_of l). \<exists>v. answer = Inr v)
     \<and> distinct (map rt_delivery_index rs) \<and> set (map rt_delivery_index rs) = Some ` {0..<routes}
     \<and> checksum = checksum_value (addMany (se_sha256 env) empty_checksum (map routeKeyForSignedRoute rs))"

definition completes_ok :: "'w sender_env \<Rightarrow> stream_options \<Rightarrow> signed_route list \<Rightarrow> stream_event list \<Rightarrow> bool" where
  "completes_ok env o1 rs l \<longleftrightarrow>
     (\<forall>before batches routes checksum p k a after.
        l = before @ Ev_complete batches routes checksum p k a # after \<longrightarrow> complete_ok env o1 rs before batches routes checksum)"

lemma all_indices:
  assumes "distinct seen" and "set seen \<subseteq> {0..<n}" and "int (length seen) = n"
  shows "set seen = {0..<n}"
proof (rule card_subset_eq)
  show "card (set seen) = card {0..<n}" using assms by (simp add: distinct_card)
qed (use assms in auto)

lemma complete_call_hoare:
  "hoare (\<lambda>s l. (stream_ok env o1 rs s l \<and> ss_queue s = [] \<and> ss_batch s = [] \<and> int (length (ss_seen s)) = so_totalRoutes o1
      \<and> ss_error s = None) \<and> s = st)
     (on_world (call (Ev_complete (ss_batchIndex st) (so_totalRoutes o1) (checksum_value (ss_checksum st)) payload key) f))
     (\<lambda>_ s l. completes_ok env o1 rs l) (\<lambda>s l. completes_ok env o1 rs l)"
proof -
  have ok: "completes_ok env o1 rs (l @ [Ev_complete (ss_batchIndex s) (so_totalRoutes o1) (checksum_value (ss_checksum s)) payload key a])"
    if pre: "stream_ok env o1 rs s l" "ss_queue s = []" "ss_batch s = []" "int (length (ss_seen s)) = so_totalRoutes o1"
      "ss_error s = None" for s l a
  proof -
    have fresh: "no_complete l" using pre(1) by (simp add: stream_ok_def)
    have "set (ss_seen s) = {0..<so_totalRoutes o1}" using pre by (intro all_indices) (auto simp: stream_ok_def)
    moreover have "length rs = length (ss_seen s)" using pre(1) by (metis length_map stream_ok_def)
    moreover have "set (map rt_delivery_index rs) = Some ` set (ss_seen s)" "distinct (map rt_delivery_index rs)"
      using pre(1) by (simp_all add: stream_ok_def distinct_map)
    ultimately have "complete_ok env o1 rs l (ss_batchIndex s) (so_totalRoutes o1) (checksum_value (ss_checksum s))"
      using pre by (auto simp: complete_ok_def stream_ok_def)
    moreover have "before = l \<and> batches = ss_batchIndex s \<and> routes = so_totalRoutes o1 \<and> checksum = checksum_value (ss_checksum s)"
      if "l @ [Ev_complete (ss_batchIndex s) (so_totalRoutes o1) (checksum_value (ss_checksum s)) payload key a]
        = before @ Ev_complete batches routes checksum p k b # after" for before batches routes checksum p k b after
    proof (cases after rule: rev_cases)
      case Nil
      then show ?thesis using that by simp
    next
      case (snoc ys y)
      then have "l = before @ Ev_complete batches routes checksum p k b # ys" using that by simp
      then have "Ev_complete batches routes checksum p k b \<in> set l" by simp
      then show ?thesis using fresh by (auto simp: no_complete_def)
    qed
    ultimately show ?thesis unfolding completes_ok_def by blast
  qed
  show ?thesis by (rule hoare_call) (auto intro: ok)
qed


lemma no_complete_ok: "no_complete l \<Longrightarrow> completes_ok env o1 rs l"
  unfolding no_complete_def completes_ok_def by (metis in_set_conv_decomp)

lemma hoare_exn: "hoare P m Q E \<Longrightarrow> (\<And>s l. E s l \<Longrightarrow> E' s l) \<Longrightarrow> hoare P m Q E'"
  unfolding hoare_def by (metis (no_types, lifting) sum.case_eq_if)

lemma seen_count: "stream_ok env o1 rs s l \<Longrightarrow> length (ss_seen s) = length rs"
  by (metis length_map stream_ok_def)

lemma stream_complete_hoare:
  "hoare (stream_ok env o1 rs) (stream_complete env o1 perf) (\<lambda>_ _. completes_ok env o1 rs) (\<lambda>_. completes_ok env o1 rs)"
proof -
  let ?E = "\<lambda>_. completes_ok env o1 rs"
  let ?call = "\<lambda>st. let payload =
                  [(''sdk_performance'', perf), (''transfer_id'', JStr (so_transferId o1)),
                   (''route_generation_id'', JStr (so_routeGenerationId o1)), (''stream_id'', JStr (so_streamId o1)),
                   (''expected_batches'', JNum (int (ss_batchIndex st))), (''expected_routes'', JNum (so_totalRoutes o1)),
                   (''route_keys_checksum'', JStr (checksum_value (ss_checksum st)))];
                key = stream_key o1 ''complete'' in
            on_world (call (Ev_complete (ss_batchIndex st) (so_totalRoutes o1) (checksum_value (ss_checksum st)) payload key)
              (se_request env ''transfer.route_stream.complete'' payload key)) :: ('a, json) sact"
  have ends: "hoare (\<lambda>s l. stream_ok env o1 rs s l \<and> ss_batch s = [])
      (bind_a (await_tail env o1) (\<lambda>_. bind_a rethrow (\<lambda>_. bind_a get_state ?call))) (\<lambda>_. ?E) ?E"
    if total: "int (length rs) = so_totalRoutes o1"
  proof (rule hoare_bind [OF hoare_exn [OF await_tail_hoare no_complete_ok]], assumption)
    show "hoare (\<lambda>s l. stream_ok env o1 rs s l \<and> ss_queue s = [] \<and> ss_batch s = []) (bind_a rethrow (\<lambda>_. bind_a get_state ?call)) (\<lambda>_. ?E) ?E"
    proof (rule hoare_bind [OF hoare_exn [OF rethrow_hoare [where Q = "\<lambda>_ s l. stream_ok env o1 rs s l \<and> ss_queue s = [] \<and> ss_batch s = [] \<and> ss_error s = None"] no_complete_ok]],
        simp, simp add: stream_ok_def, assumption)
      show "hoare (\<lambda>s l. stream_ok env o1 rs s l \<and> ss_queue s = [] \<and> ss_batch s = [] \<and> ss_error s = None) (bind_a get_state ?call) (\<lambda>_. ?E) ?E"
      proof (rule hoare_bind [OF hoare_get [where Q = "\<lambda>st s l. (stream_ok env o1 rs s l \<and> ss_queue s = [] \<and> ss_batch s = []
            \<and> int (length (ss_seen s)) = so_totalRoutes o1 \<and> ss_error s = None) \<and> s = st"]])
        show "hoare (\<lambda>s l. (stream_ok env o1 rs s l \<and> ss_queue s = [] \<and> ss_batch s = []
            \<and> int (length (ss_seen s)) = so_totalRoutes o1 \<and> ss_error s = None) \<and> s = st) (?call st) (\<lambda>_. ?E) ?E" for st
          unfolding Let_def by (rule complete_call_hoare)
      qed (use total seen_count in metis)
    qed
  qed
  show ?thesis
    unfolding stream_complete_def
  proof (rule hoare_bind [OF hoare_get [where Q = "\<lambda>st s l. stream_ok env o1 rs s l \<and> s = st"]], simp)
    fix st
    have refuse: "hoare (\<lambda>s l. stream_ok env o1 rs s l \<and> s = st) (lift_a (Inl e) :: ('a, json) sact) (\<lambda>_. ?E) ?E" for e
      by (rule hoareI) (auto simp: lift_a_def stream_ok_def intro: no_complete_ok)
    have go: "hoare (\<lambda>s l. stream_ok env o1 rs s l \<and> s = st)
        (bind_a (enqueueFlush env o1) (\<lambda>_. bind_a (await_tail env o1) (\<lambda>_. bind_a rethrow (\<lambda>_. bind_a get_state ?call)))) (\<lambda>_. ?E) ?E"
      if "int (length (ss_seen st)) = so_totalRoutes o1"
    proof (rule hoareI)
      fix w s l r w' s' l'
      assume pre: "stream_ok env o1 rs s l \<and> s = st"
        and run: "bind_a (enqueueFlush env o1) (\<lambda>_. bind_a (await_tail env o1) (\<lambda>_. bind_a rethrow (\<lambda>_. bind_a get_state ?call))) ((w, s), l)
          = (r, ((w', s'), l'))"
      then have "int (length rs) = so_totalRoutes o1" using that seen_count by metis
      from hoare_bind [OF hoare_exn [OF enqueueFlush_hoare no_complete_ok] ends [OF this]]
      have "hoare (stream_ok env o1 rs)
          (bind_a (enqueueFlush env o1) (\<lambda>_. bind_a (await_tail env o1) (\<lambda>_. bind_a rethrow (\<lambda>_. bind_a get_state ?call)))) (\<lambda>_. ?E) ?E" by simp
      from hoareD [OF this _ run] pre have "stream_ok env o1 rs s l \<Longrightarrow> completes_ok env o1 rs l'" by (cases r) simp_all
      then have "completes_ok env o1 rs l'" using pre by blast
      then show "case r of Inl e \<Rightarrow> ?E s' l' | Inr a \<Rightarrow> ?E s' l'" by (cases r) simp_all
    qed
    show "hoare (\<lambda>s l. stream_ok env o1 rs s l \<and> s = st)
        (if int (ss_routeCount st) \<noteq> so_totalRoutes o1 \<or> int (length (ss_seen st)) \<noteq> so_totalRoutes o1 then
           lift_a (Inl (''route stream has incomplete or duplicate delivery indices: received '' @ show_nat (ss_routeCount st)
             @ '' of '' @ show_int (so_totalRoutes o1) @ '' routes''))
         else bind_a (enqueueFlush env o1) (\<lambda>_. bind_a (await_tail env o1) (\<lambda>_. bind_a rethrow (\<lambda>_. bind_a get_state ?call)))) (\<lambda>_. ?E) ?E"
      by (cases "int (length (ss_seen st)) = so_totalRoutes o1"; cases "int (ss_routeCount st) = so_totalRoutes o1")
        (simp_all only: refuse go if_True if_False not_True_eq_False not_False_eq_True simp_thms)
  qed
qed

text \<open>
  C24. A stream is declared complete only when every route has been taken. For any routes added and any schedule of the
  sends, the final request of a stream comes after the runtime acknowledged every batch, numbered 0, 1, 2 and so on
  without a gap; the batches together are the added routes in their order; their delivery indices are exactly those
  from 0 to the declared total, each once; and the checksum of the request is the checksum of exactly these routes.
\<close>

theorem complete_stream_covers_every_route:
  assumes "run_ops env o1 ops ((w, new_stream), []) = (Inr (), ((w1, s1), l1))"
    and "stream_complete env o1 perf ((w1, s1), l1) = (r, ((w2, s2), before @ Ev_complete batches routes checksum payload key answer # after))"
  shows "routes = so_totalRoutes o1 \<and> int (length (added ops)) = routes \<and> routes_sent before = added ops
    \<and> map fst (sent_of before) = [0..<batches] \<and> (\<forall>(_, _, a) \<in> set (sent_of before). \<exists>v. a = Inr v)
    \<and> distinct (map rt_delivery_index (added ops)) \<and> set (map rt_delivery_index (added ops)) = Some ` {0..<routes}
    \<and> checksum = checksum_value (addMany (se_sha256 env) empty_checksum (map routeKeyForSignedRoute (added ops)))"
proof -
  have "stream_ok env o1 [] new_stream []" by (simp add: stream_ok_def new_stream_def routes_sent_def addMany_def)
  from hoareD [OF run_ops_hoare this assms(1)] have "stream_ok env o1 (added ops) s1 l1" by simp
  from hoareD [OF stream_complete_hoare this assms(2)]
  have "completes_ok env o1 (added ops) (before @ Ev_complete batches routes checksum payload key answer # after)"
    by (cases r) simp_all
  from this [unfolded completes_ok_def, rule_format, OF refl] show ?thesis unfolding complete_ok_def .
qed

definition demo_options :: stream_options where
  "demo_options =
     \<lparr>so_streamId = ''s'', so_transferId = ''t'', so_totalRoutes = 2, so_totalChunks = 1, so_routeGenerationId = ''g'',
      so_urlsExpiresAt = None, so_signedUrlFlow = ''signed_url'', so_autoDistribute = True\<rparr>"

definition demo_sender :: "unit sender_env" where
  "demo_sender =
     \<lparr>se_request = (\<lambda>_ _ _ w. (Inr JNull, w)), se_sha256 = (\<lambda>_. replicate 32 1), se_msgpack_size = (\<lambda>_. 10),
      se_identity = demo_control, se_now = ''now''\<rparr>"

definition demo_routes :: "signed_route list" where
  "demo_routes = [demo_route ''x'' 0, demo_route ''y'' 1]"

lemma demo_split:
  "splitRoutesForPayload (\<lambda>_. 10) demo_control ''now'' ty p demo_routes = Inr [demo_routes]"
proof -
  have found: "bisect (\<lambda>count. True) 1 2 0 = 2" by (simp add: bisect.simps)
  have target: "targetPayloadBytes demo_control = 1000"
    by (simp add: targetPayloadBytes_def demo_control_def BEAM_ROUTE_TARGET_PAYLOAD_BYTES_def)
  have "split_from (\<lambda>_. 10) 1000 1000 demo_routes = Inr [demo_routes]"
    by (subst split_from.simps) (simp add: demo_routes_def found Let_def split_from.simps [of _ _ _ "[]"] del: bisect.simps)
  then show ?thesis by (simp add: splitRoutesForPayload_def target) (simp add: demo_control_def)
qed


theorem complete_stream_covers_every_route_witness:
  "\<exists>before batches checksum payload key answer.
     snd (snd (stream_complete demo_sender demo_options JNull
       (snd (run_ops demo_sender demo_options [Op_add (demo_route ''x'' 0), Op_send, Op_add (demo_route ''y'' 1)] (((), new_stream), [])))))
       = before @ [Ev_complete batches 2 checksum payload key answer]
     \<and> routes_sent before = demo_routes"
proof -
  let ?ops = "[Op_add (demo_route ''x'' 0), Op_send, Op_add (demo_route ''y'' 1)]"
  let ?s1 = "new_stream\<lparr>ss_seen := [0, 1], ss_routeCount := 2, ss_batch := demo_routes\<rparr>"
  have index: "signedRouteDeliveryIndex (demo_route d i) = Some i" "rt_delivery_index (demo_route d i) = Some i"
      "(demo_route d i)\<lparr>rt_delivery_index := Some i\<rparr> = demo_route d i" for d i
    by (simp_all add: signedRouteDeliveryIndex_def demo_route_def)
  have adds: "run_ops demo_sender demo_options ?ops (((), new_stream), []) = (Inr (), (((), ?s1), []))"
    by (simp add: run_ops_def addRoute_def run_send_def act_defs index new_stream_def demo_options_def ROUTE_STREAM_BATCH_ROUTES_def
        numeral_2_eq_2 demo_routes_def)
  have ends: "\<exists>r s2 before batches checksum payload key answer.
      stream_complete demo_sender demo_options JNull (((), ?s1), []) = (r, (((), s2), before @ [Ev_complete batches 2 checksum payload key answer]))"
    by (simp add: stream_complete_def enqueueFlush_def await_tail_def run_send_def send_chunk_def rethrow_def act_defs new_stream_def
        demo_options_def demo_sender_def demo_split Let_def demo_routes_def [symmetric])
  then obtain r s2 before batches checksum payload key answer where
    done1: "stream_complete demo_sender demo_options JNull (((), ?s1), []) = (r, (((), s2), before @ Ev_complete batches 2 checksum payload key answer # []))"
    by blast
  have "added ?ops = demo_routes" by (simp add: index demo_routes_def)
  with complete_stream_covers_every_route [OF adds done1] have "routes_sent before = demo_routes" by simp
  with adds done1 show ?thesis by auto
qed

end
