(* ===== verification/SdkProducer.thy ===== *)
theory SdkProducer
  imports SdkClient SdkStream
begin

text \<open>
  The run of a prepared transfer, \<open>streamPreparedRoutes\<close> and its surroundings in \<open>executeProviderTransfer\<close> of
  \<open>sdks/typescript/src/client.ts\<close>. A producer starts the signing of every planned route, holds
  at most so many unsettled, and hands each settled route to the route stream. A pending signing is data: its chunk, its
  target, what the cancellation check at its start said, and the settled read grant of its chunk; it is carried out when
  it is the next one to settle, which the world chooses, and the sends of the stream advance in between as the world
  chooses. The multipart groups, set up beside the producer (\<open>SdkManifest\<close>), answer for their group and end as a whole.
\<close>

subsection \<open>The world of a producer\<close>

text \<open>The world proper and the flag \<open>foregroundCancelled\<close>, which outlives what was thrown.\<close>

record 'v producing =
  pw_world :: 'v
  pw_cancelled :: bool

type_synonym ('v, 'a) pact = "('v producing, 'a) sact"

record 'v producer_env =
  pe_sender :: "'v sender_env"
  pe_signing :: "'v signing_env"
  pe_cancelled :: "'v \<Rightarrow> (string + unit) \<times> 'v"
  pe_group :: "string \<Rightarrow> 'v \<Rightarrow> (string + (upload_state \<times> group_manifest) option) \<times> 'v"
  pe_manifests :: "'v \<Rightarrow> (string + json list) \<times> 'v"
  pe_choose :: "'v \<Rightarrow> nat"
  pe_sends :: "'v \<Rightarrow> nat"
  pe_clock :: "'v \<Rightarrow> int"
  pe_performance :: json

record producer_config =
  pc_limit :: nat
  pc_overridden :: bool
  pc_flow :: string
  pc_autoDistribute :: bool

definition on_v :: "('v \<Rightarrow> (string + 'a) \<times> 'v) \<Rightarrow> ('v, 'a) pact" where
  "on_v f = on_world (\<lambda>(w, l). case f (pw_world w) of (r, v) \<Rightarrow> (r, (w\<lparr>pw_world := v\<rparr>, l)))"

definition ask_v :: "('v \<Rightarrow> 'a) \<Rightarrow> ('v, 'a) pact" where
  "ask_v f = on_v (\<lambda>v. (Inr (f v), v))"

definition lift_sender :: "'v sender_env \<Rightarrow> 'v producing sender_env" where
  "lift_sender se = \<lparr>se_request = \<lambda>m payload key w. (case se_request se m payload key (pw_world w) of (r, v) \<Rightarrow> (r, w\<lparr>pw_world := v\<rparr>)),
     se_sha256 = se_sha256 se, se_msgpack_size = se_msgpack_size se, se_identity = se_identity se, se_now = se_now se\<rparr>"

definition sender :: "'v producer_env \<Rightarrow> 'v producing sender_env" where
  "sender env = lift_sender (pe_sender env)"

text \<open>A signing runs on the world; the trace of its calls is not kept here.\<close>

definition signing_run :: "('v, 'a) sgn \<Rightarrow> 'v \<Rightarrow> (string + 'a) \<times> 'v" where
  "signing_run m v = (case m (v, []) of (r, (v', _)) \<Rightarrow> (r, v'))"

definition ABORTED :: string where "ABORTED = ''This operation was aborted''"

definition assertOwnership :: "'v producer_env \<Rightarrow> ('v, unit) pact" where
  "assertOwnership env = on_v (\<lambda>v. (if sn_aborted (pe_signing env) v then Inl ABORTED else Inr (), v))"

text \<open>The check for a cancellation: a replay only looks at the signal; what it throws marks the run as cancelled.\<close>

definition cancel_check :: "'v producer_env \<Rightarrow> bool \<Rightarrow> 'v \<Rightarrow> (string + unit) \<times> 'v" where
  "cancel_check env replay v =
     (if sn_aborted (pe_signing env) v then (Inl ABORTED, v) else if replay then (Inr (), v) else pe_cancelled env v)"

definition throwIfCancelled :: "'v producer_env \<Rightarrow> bool \<Rightarrow> ('v, unit) pact" where
  "throwIfCancelled env replay = on_world (\<lambda>(w, l).
     case cancel_check env replay (pw_world w) of
       (Inl e, v) \<Rightarrow> (Inl e, (w\<lparr>pw_world := v, pw_cancelled := True\<rparr>, l))
     | (Inr u, v) \<Rightarrow> (Inr u, (w\<lparr>pw_world := v\<rparr>, l)))"

subsection \<open>Signing one route\<close>

record pending_route =
  pn_chunk :: chunk_item
  pn_target :: signing_target
  pn_grant :: "string + source_grant"
  pn_started :: "string + unit"

definition target_key :: "signing_target \<Rightarrow> string" where
  "target_key t = (case as_str (map_of (tg_metadata t) ''final_object_key'') of Some k \<Rightarrow> k | None \<Rightarrow> tg_object_key t)"

definition target_part :: "chunk_item \<Rightarrow> signing_target \<Rightarrow> string + int" where
  "target_part chunk t = (case as_num (map_of (tg_metadata t) ''part_number'') of
     Some n \<Rightarrow> Inr n | None \<Rightarrow> multipartPartNumber (ch_source_chunk_index chunk) 0)"

definition sign_pending :: "'v producer_env \<Rightarrow> signing_setup \<Rightarrow> producer_config \<Rightarrow> pending_route \<Rightarrow> ('v, signed_route) pact" where
  "sign_pending env setup cfg p =
     (let chunk = pn_chunk p; target = pn_target p; destId = tg_destination_id target; key = target_key target in
      bind_a (lift_a (pn_started p)) (\<lambda>_.
      case map_of (su_destinations setup) destId of
        None \<Rightarrow> lift_a (Inl (''BeamCore returned unknown destination_id: '' @ destId))
      | Some destination \<Rightarrow>
          (case map_of (su_sources setup) (ch_source_id chunk) of
             None \<Rightarrow> lift_a (Inl (''BeamCore returned unknown source_id: '' @ ch_source_id chunk))
           | Some source \<Rightarrow>
               if key = [] then lift_a (Inl ''destination signing target is missing object_key'')
               else
                 (let direct = isDirectPutDestination destination;
                      groupId = multipartGroupStateKey (pr_transfer_id (su_prepared setup)) destId (ch_source_id chunk) key in
                  bind_a (if direct then return_a None else on_v (pe_group env groupId)) (\<lambda>upload.
                    if \<not> direct \<and> upload = None then
                      lift_a (Inl (''multipart group manifest is missing for '' @ ch_source_id chunk @ '':'' @ destId))
                    else
                      bind_a (lift_a (target_part chunk target)) (\<lambda>partNumber.
                        on_v (signing_run (signProviderRoute (pe_signing env)
                          \<lparr>pv_chunk = chunk, pv_target = target, pv_source = source, pv_sourceGrant = Some (pn_grant p),
                           pv_destination = destination, pv_expiresIn = su_expiresIn setup, pv_upload = upload,
                           pv_hub = find (\<lambda>h. hu_destinationId h = destId) (rev (su_hub setup)),
                           pv_finalObjectKey = key, pv_signedUrlFlow = pc_flow cfg, pv_partNumber = partNumber\<rparr>))))))))"

subsection \<open>The producer\<close>

text \<open>What is pending, how many may be, and the window over which the pace of signing is measured.\<close>

record production =
  po_pending :: "pending_route list"
  po_limit :: nat
  po_inWindow :: nat
  po_since :: int

text \<open>A window of 1024 routes that took longer than four seconds doubles the limit, up to 256, unless it was configured.\<close>

definition window_step :: "producer_config \<Rightarrow> int \<Rightarrow> production \<Rightarrow> production" where
  "window_step cfg now po =
     (if po_inWindow po + 1 = ROUTE_STREAM_BATCH_ROUTES then
        po\<lparr>po_inWindow := 0, po_since := now,
           po_limit := (if \<not> pc_overridden cfg \<and> now - po_since po > 4000 \<and> po_limit po < 256 then min 256 (po_limit po * 2) else po_limit po)\<rparr>
      else po\<lparr>po_inWindow := po_inWindow po + 1\<rparr>)"

definition streamNextCompletedRoute ::
  "'v producer_env \<Rightarrow> signing_setup \<Rightarrow> producer_config \<Rightarrow> stream_options \<Rightarrow> production \<Rightarrow> ('v, production) pact" where
  "streamNextCompletedRoute env setup cfg o1 po =
     bind_a (ask_v (pe_choose env)) (\<lambda>choice.
       let i = choice mod length (po_pending po) in
       bind_a (sign_pending env setup cfg (po_pending po ! i)) (\<lambda>route.
       bind_a (assertOwnership env) (\<lambda>_.
       bind_a (ask_v (pe_sends env)) (\<lambda>sends.
       bind_a (fold_a (\<lambda>_ _. run_send (sender env) o1) () [0..<sends]) (\<lambda>_.
       bind_a (addRoute (sender env) o1 route) (\<lambda>_.
       bind_a (ask_v (pe_clock env)) (\<lambda>now.
         return_a (window_step cfg now (po\<lparr>po_pending := take i (po_pending po) @ drop (Suc i) (po_pending po)\<rparr>)))))))))"

definition begin_route ::
  "'v producer_env \<Rightarrow> bool \<Rightarrow> chunk_item \<Rightarrow> string + source_grant \<Rightarrow> signing_target \<Rightarrow> ('v, pending_route) pact" where
  "begin_route env replay chunk grant target =
     bind_a (attempt (throwIfCancelled env replay)) (\<lambda>started.
       return_a \<lparr>pn_chunk = chunk, pn_target = target, pn_grant = grant, pn_started = started\<rparr>)"

definition produce_target ::
  "'v producer_env \<Rightarrow> signing_setup \<Rightarrow> producer_config \<Rightarrow> stream_options \<Rightarrow> bool \<Rightarrow> chunk_item \<Rightarrow> string + source_grant
   \<Rightarrow> production \<Rightarrow> signing_target \<Rightarrow> ('v, production) pact" where
  "produce_target env setup cfg o1 replay chunk grant po target =
     bind_a (begin_route env replay chunk grant target) (\<lambda>p.
       let po1 = po\<lparr>po_pending := po_pending po @ [p]\<rparr> in
       if length (po_pending po1) \<ge> po_limit po1 then streamNextCompletedRoute env setup cfg o1 po1 else return_a po1)"

definition produce_chunk ::
  "'v producer_env \<Rightarrow> signing_setup \<Rightarrow> producer_config \<Rightarrow> stream_options \<Rightarrow> bool \<Rightarrow> production \<Rightarrow> string + chunk_item
   \<Rightarrow> ('v, production) pact" where
  "produce_chunk env setup cfg o1 replay po item =
     bind_a (lift_a item) (\<lambda>chunk.
     bind_a (throwIfCancelled env replay) (\<lambda>_.
       let pin = plannedSourcePin (pr_plan (su_prepared setup)) (ch_source_id chunk) in
       bind_a (attempt (on_v (signing_run (signSourceChunk (pe_signing env) (map_of (su_sources setup) (ch_source_id chunk))
           (ch_source_url chunk) chunk (fst pin) (snd pin) (su_expiresIn setup))))) (\<lambda>grant.
         fold_a (produce_target env setup cfg o1 replay chunk grant) po (ch_destinations chunk))))"

text \<open>\<open>while (pendingRoutes.size)\<close>: each round settles one.\<close>

definition drain ::
  "'v producer_env \<Rightarrow> signing_setup \<Rightarrow> producer_config \<Rightarrow> stream_options \<Rightarrow> production \<Rightarrow> ('v, production) pact" where
  "drain env setup cfg o1 po = fold_a (\<lambda>po _. streamNextCompletedRoute env setup cfg o1 po) po (po_pending po)"

text \<open>\<open>createMultipartGroupWaiters\<close> throws for a group without a key.\<close>

definition check_waiters :: "signing_setup \<Rightarrow> string + unit" where
  "check_waiters setup =
     (case find (\<lambda>(s, d). (case map_of (su_destinations setup) (pd_destination_id d) of
           None \<Rightarrow> False | Some config \<Rightarrow> \<not> isDirectPutDestination config \<and> final_key d (ps_source_id s) = None))
         (plan_groups (pr_plan (su_prepared setup))) of
        Some (s, d) \<Rightarrow> Inl (''plan final object key not found: '' @ ps_source_id s @ '':'' @ pd_destination_id d)
      | None \<Rightarrow> Inr ())"

definition finish_stream ::
  "'v producer_env \<Rightarrow> signing_setup \<Rightarrow> stream_options \<Rightarrow> ('v, unit) pact" where
  "finish_stream env setup o1 =
     bind_a (on_v (pe_manifests env)) (\<lambda>manifest.
     bind_a (lift_a (validateMultipartGroupManifest manifest (pr_transfer_id (su_prepared setup)))) (\<lambda>_.
     bind_a (assertOwnership env) (\<lambda>_.
     bind_a (stream_complete (sender env) o1 (pe_performance env)) (\<lambda>attached.
       if falsy (jget attached ''success'') then
         lift_a (Inl (coalesce (or_else (as_str (jget attached ''error'')) (as_str (jget attached ''message''))) ''route stream failed''))
       else return_a ()))))"

definition route_stream_options ::
  "(string \<Rightarrow> 8 word list) \<Rightarrow> signing_setup \<Rightarrow> producer_config \<Rightarrow> string \<Rightarrow> string \<Rightarrow> stream_options" where
  "route_stream_options sha256 setup cfg generation urlsExpiresAt =
     (let plan = pr_plan (su_prepared setup) in
      \<lparr>so_streamId = stableRouteStreamId sha256 (pr_transfer_id (su_prepared setup)) (pl_plan_nonce plan @ '':'' @ generation)
         (pl_delivery_route_count plan) (pl_logical_chunk_count plan) (pc_flow cfg),
       so_transferId = pr_transfer_id (su_prepared setup), so_totalRoutes = pl_delivery_route_count plan,
       so_totalChunks = pl_logical_chunk_count plan, so_routeGenerationId = generation, so_urlsExpiresAt = Some urlsExpiresAt,
       so_signedUrlFlow = pc_flow cfg, so_autoDistribute = pc_autoDistribute cfg\<rparr>)"

text \<open>The body of the \<open>try\<close> of \<open>streamPreparedRoutes\<close>, from the first request of the stream on.\<close>

definition produce_routes ::
  "'v producer_env \<Rightarrow> signing_setup \<Rightarrow> producer_config \<Rightarrow> stream_options \<Rightarrow> bool \<Rightarrow> ('v, unit) pact" where
  "produce_routes env setup cfg o1 replay =
     bind_a (stream_begin (sender env) o1) (\<lambda>_.
     bind_a (lift_a (check_waiters setup)) (\<lambda>_.
     bind_a (ask_v (pe_clock env)) (\<lambda>since.
     bind_a (fold_a (produce_chunk env setup cfg o1 replay)
         \<lparr>po_pending = [], po_limit = pc_limit cfg, po_inWindow = 0, po_since = since\<rparr>
         (materializePlanChunks (pr_plan (su_prepared setup)))) (\<lambda>po.
     bind_a (drain env setup cfg o1 po) (\<lambda>_.
       finish_stream env setup o1)))))"

subsection \<open>What is delivered\<close>

text \<open>A place of the plan: a chunk of a source, with its range, and a destination.\<close>

type_synonym place = "string \<times> int \<times> string \<times> int \<times> int"

definition place :: "signed_route \<Rightarrow> place" where
  "place r = (rt_source_id r, rt_chunk_index r, rt_destination_id r, rt_source_offset r, rt_chunk_size r)"

definition target_place :: "chunk_item \<Rightarrow> signing_target \<Rightarrow> place" where
  "target_place c t = (ch_source_id c, ch_chunk_index c, tg_destination_id t, ch_source_offset c, ch_chunk_size c)"

definition item_places :: "string + chunk_item \<Rightarrow> place list" where
  "item_places item = (case item of Inl _ \<Rightarrow> [] | Inr c \<Rightarrow> map (target_place c) (ch_destinations c))"

definition planned_places :: "plan_descriptor \<Rightarrow> place list" where
  "planned_places d = concat (map item_places (materializePlanChunks d))"

definition pending_place :: "pending_route \<Rightarrow> place" where
  "pending_place p = target_place (pn_chunk p) (pn_target p)"

definition well_granted :: "pending_route \<Rightarrow> bool" where
  "well_granted p \<longleftrightarrow> granted (pn_chunk p) (Some (pn_grant p))"

lemma route_at_place: "route_at c (tg_destination_id t) r \<Longrightarrow> place r = target_place c t"
  by (simp add: route_at_def place_def target_place_def)

lemma place_indexed [simp]: "place (r\<lparr>rt_delivery_index := i\<rparr>) = place r"
  by (simp add: place_def)

text \<open>Steps that touch neither the stream nor its trace.\<close>

lemma hoare_lift: "(\<And>s l a. P s l \<Longrightarrow> r = Inr a \<Longrightarrow> Q a s l) \<Longrightarrow> (\<And>s l. P s l \<Longrightarrow> E s l) \<Longrightarrow> hoare P (lift_a r) Q E"
  by (rule hoareI) (auto simp: lift_a_def split: sum.split)

lemma hoare_on_v:
  assumes "\<And>v a v'. f v = (Inr a, v') \<Longrightarrow> R a" and "\<And>s l. P s l \<Longrightarrow> E s l"
  shows "hoare P (on_v f) (\<lambda>a s l. P s l \<and> R a) E"
  using assms by (intro hoareI) (fastforce simp: on_v_def on_world_def split: sum.splits prod.splits)

lemma hoare_on_v_any: "(\<And>s l. P s l \<Longrightarrow> E s l) \<Longrightarrow> hoare P (on_v f) (\<lambda>_. P) E"
  by (rule hoare_post [OF hoare_on_v [where R = "\<lambda>_. True"]]) auto

lemma hoare_ask: "(\<And>s l. P s l \<Longrightarrow> E s l) \<Longrightarrow> hoare P (ask_v f) (\<lambda>_. P) E"
  unfolding ask_v_def by (rule hoare_on_v_any)

lemma hoare_owned: "(\<And>s l. P s l \<Longrightarrow> E s l) \<Longrightarrow> hoare P (assertOwnership env) (\<lambda>_. P) E"
  unfolding assertOwnership_def by (rule hoare_on_v_any)

lemma hoare_cancelled: "(\<And>s l. P s l \<Longrightarrow> E s l) \<Longrightarrow> hoare P (throwIfCancelled env replay) (\<lambda>_. P) E"
  by (rule hoareI) (auto simp: throwIfCancelled_def on_world_def split: prod.splits sum.splits)

lemma hoare_tried: "hoare P m (\<lambda>_. P) (\<lambda>s l. P s l) \<Longrightarrow> hoare P (attempt m) (\<lambda>_. P) E"
  by (rule hoare_attempt) auto

lemma hoare_ex: "(\<And>x. hoare (P x) m Q E) \<Longrightarrow> hoare (\<lambda>s l. \<exists>x. P x s l) m Q E"
  unfolding hoare_def by blast

lemma hoare_fact: "(X \<Longrightarrow> hoare P m Q E) \<Longrightarrow> hoare (\<lambda>s l. P s l \<and> X) m Q E"
  unfolding hoare_def by blast

lemma yields_run: "yields m R \<Longrightarrow> signing_run m v = (Inr a, v') \<Longrightarrow> R a"
  unfolding signing_run_def by (auto dest: yieldsD split: prod.splits)

lemma hoare_if: "hoare P m Q E \<Longrightarrow> hoare P n Q E \<Longrightarrow> hoare P (if b then m else n) Q E"
  by simp

lemma hoare_option: "hoare P m Q E \<Longrightarrow> (\<And>x. hoare P (f x) Q E) \<Longrightarrow> hoare P (case z of None \<Rightarrow> m | Some x \<Rightarrow> f x) Q E"
  by (cases z) simp_all

lemma sign_pending_hoare:
  assumes "well_granted p" and "\<And>s l. P s l \<Longrightarrow> E s l"
  shows "hoare P (sign_pending env setup cfg p) (\<lambda>route s l. P s l \<and> place route = pending_place p) E"
proof -
  have signs: "hoare P (on_v (signing_run (signProviderRoute (pe_signing env) input))) (\<lambda>route s l. P s l \<and> place route = pending_place p) E"
    if input: "pv_chunk input = pn_chunk p" "pv_sourceGrant input = Some (pn_grant p)" "pv_target input = pn_target p" for input
  proof (rule hoare_on_v [OF _ assms(2)])
    fix v a v' assume run: "signing_run (signProviderRoute (pe_signing env) input) v = (Inr a, v')"
    have "yields (signProviderRoute (pe_signing env) input) (route_at (pn_chunk p) (tg_destination_id (pn_target p)))"
      using yields_provider_route [of input "pe_signing env"] input assms(1) by (simp add: well_granted_def)
    from yields_run [OF this run] show "place a = pending_place p" by (simp add: pending_place_def route_at_place)
  qed
  have group: "hoare P (if direct then return_a None else on_v f) (\<lambda>_. P) E"
    for direct and f :: "'a \<Rightarrow> (string + (upload_state \<times> group_manifest) option) \<times> 'a"
    using hoare_post [OF hoare_on_v [of f "\<lambda>_. True", OF TrueI assms(2)]] by (auto intro: hoare_return)
  have thrown: "hoare P (lift_a (Inl e)) Q E" for e and Q :: "signed_route \<Rightarrow> stream \<Rightarrow> stream_event list \<Rightarrow> bool"
    by (rule hoare_lift) (simp_all add: assms(2))
  show ?thesis
    unfolding sign_pending_def Let_def
    by (rule hoare_bind [OF hoare_lift [where Q = "\<lambda>_. P"]], assumption, erule assms(2),
        rule hoare_option, rule thrown, rule hoare_option, rule thrown, rule hoare_if, rule thrown,
        rule hoare_bind [OF group], rule hoare_if, rule thrown,
        rule hoare_bind [OF hoare_lift [where Q = "\<lambda>_. P"]], assumption, erule assms(2), rule signs, simp_all)
qed

text \<open>
  The invariant of the producer: the routes handed to the stream and those pending together are those of the places
  passed so far.
\<close>

definition underway ::
  "'v producer_env \<Rightarrow> stream_options \<Rightarrow> place multiset \<Rightarrow> production \<Rightarrow> stream \<Rightarrow> stream_event list \<Rightarrow> bool" where
  "underway env o1 M po s l \<longleftrightarrow>
     (\<forall>p \<in> set (po_pending po). well_granted p)
     \<and> (\<exists>rs. stream_ok (sender env) o1 rs s l \<and> image_mset place (mset rs) + image_mset pending_place (mset (po_pending po)) = M)"

lemma underway_fresh: "underway env o1 M po s l \<Longrightarrow> no_complete l"
  by (auto simp: underway_def stream_ok_def)

lemma sends_hoare:
  "hoare (stream_ok env o1 rs) (fold_a (\<lambda>_ _. run_send env o1) () ns) (\<lambda>_. stream_ok env o1 rs) (\<lambda>_. no_complete)"
proof (rule hoare_fold [where I = "\<lambda>_. stream_ok env o1 rs"])
  show "hoare (stream_ok env o1 rs) (run_send env o1) (\<lambda>_. stream_ok env o1 rs) (\<lambda>_. no_complete)"
    using run_ops_hoare [of env o1 rs "[Op_send]"] by (simp add: run_ops_def hoare_def bind_a_def return_a_def split: prod.splits sum.splits) blast
qed

lemma mset_take_out: "i < length xs \<Longrightarrow> mset xs = add_mset (xs ! i) (mset (take i xs @ drop (Suc i) xs))"
  by (metis Cons_nth_drop_Suc append_take_drop_id mset.simps(2) mset_append union_mset_add_mset_right)

lemma window_pending [simp]: "po_pending (window_step cfg now po) = po_pending po"
  by (simp add: window_step_def)

lemma stream_next_hoare:
  assumes "po_pending po \<noteq> []"
  shows "hoare (underway env o1 M po) (streamNextCompletedRoute env setup cfg o1 po)
    (\<lambda>po' s l. underway env o1 M po' s l \<and> length (po_pending po') = length (po_pending po) - 1) (\<lambda>_. no_complete)"
proof -
  let ?P = "underway env o1 M po"
  show ?thesis
    unfolding streamNextCompletedRoute_def Let_def
  proof (rule hoare_bind [OF hoare_ask], rule underway_fresh, assumption)
    fix choice
    let ?i = "choice mod length (po_pending po)"
    let ?p = "po_pending po ! ?i" and ?rest = "take ?i (po_pending po) @ drop (Suc ?i) (po_pending po)"
    have i: "?i < length (po_pending po)" using assms by simp
    have len: "length ?rest = length (po_pending po) - 1" using i by simp
    have out: "mset (po_pending po) = add_mset ?p (mset ?rest)" by (rule mset_take_out [OF i])
    have sub: "set ?rest \<subseteq> set (po_pending po)" using set_take_subset set_drop_subset by fastforce
    let ?tail = "\<lambda>route. bind_a (assertOwnership env) (\<lambda>_.
       bind_a (ask_v (pe_sends env)) (\<lambda>sends.
       bind_a (fold_a (\<lambda>_ _. run_send (sender env) o1) () [0..<sends]) (\<lambda>_.
       bind_a (addRoute (sender env) o1 route) (\<lambda>_.
       bind_a (ask_v (pe_clock env)) (\<lambda>now. return_a (window_step cfg now (po\<lparr>po_pending := ?rest\<rparr>)))))))"
    let ?Q = "\<lambda>po' s l. underway env o1 M po' s l \<and> length (po_pending po') = length (po_pending po) - 1"
    have tail: "hoare (stream_ok (sender env) o1 rs) (?tail route) ?Q (\<lambda>_. no_complete)"
      if rs: "image_mset place (mset rs) + image_mset pending_place (mset (po_pending po)) = M" "place route = pending_place ?p"
        "\<forall>p \<in> set (po_pending po). well_granted p" for rs route
    proof -
      let ?ok = "stream_ok (sender env) o1 rs"
      let ?ok' = "stream_ok (sender env) o1 (rs @ [route\<lparr>rt_delivery_index := signedRouteDeliveryIndex route\<rparr>])"
      have fresh: "stream_ok (sender env) o1 rs' s l \<Longrightarrow> no_complete l" for rs' s l by (simp add: stream_ok_def)
      have ends: "?ok' s l \<Longrightarrow> ?Q (window_step cfg now (po\<lparr>po_pending := ?rest\<rparr>)) s l" for s l now
        using rs out sub len by (auto simp: underway_def intro!: exI [of _ "rs @ [route\<lparr>rt_delivery_index := signedRouteDeliveryIndex route\<rparr>]"])
      show ?thesis
        by (rule hoare_bind [OF hoare_owned [OF fresh]], assumption, rule hoare_bind [OF hoare_ask [OF fresh]], assumption,
            rule hoare_bind [OF sends_hoare], rule hoare_bind [OF addRoute_hoare],
            rule hoare_bind [OF hoare_ask [OF fresh]], assumption, rule hoare_return, rule ends)
    qed
    have signed_next: "hoare (\<lambda>s l. ?P s l \<and> place route = pending_place ?p) (?tail route) ?Q (\<lambda>_. no_complete)" for route
    proof (rule hoareI)
      fix w s l r w' s' l'
      assume pre: "?P s l \<and> place route = pending_place ?p" and run: "?tail route ((w, s), l) = (r, ((w', s'), l'))"
      then obtain rs where "stream_ok (sender env) o1 rs s l"
        "image_mset place (mset rs) + image_mset pending_place (mset (po_pending po)) = M" "\<forall>p \<in> set (po_pending po). well_granted p"
        by (auto simp: underway_def)
      with hoareD [OF tail _ run] pre show "case r of Inl e \<Rightarrow> no_complete l' | Inr a \<Rightarrow> ?Q a s' l'" by blast
    qed
    show "hoare ?P (bind_a (sign_pending env setup cfg ?p) ?tail) ?Q (\<lambda>_. no_complete)"
    proof (rule hoareI)
      fix w s l r w' s' l'
      assume pre: "?P s l" and run: "bind_a (sign_pending env setup cfg ?p) ?tail ((w, s), l) = (r, ((w', s'), l'))"
      have "well_granted ?p" using pre i by (auto simp: underway_def)
      from hoare_bind [OF sign_pending_hoare [OF this, where P = ?P and E = "\<lambda>_. no_complete"] signed_next] underway_fresh
      have "hoare ?P (bind_a (sign_pending env setup cfg ?p) ?tail) ?Q (\<lambda>_. no_complete)" by blast
      from hoareD [OF this pre run] show "case r of Inl e \<Rightarrow> no_complete l' | Inr a \<Rightarrow> ?Q a s' l'" .
    qed
  qed
qed

lemma underway_pending:
  assumes "granted chunk (Some grant)"
  shows "underway env o1 M po s l \<Longrightarrow>
    underway env o1 (M + {#target_place chunk target#})
      (po\<lparr>po_pending := po_pending po @ [\<lparr>pn_chunk = chunk, pn_target = target, pn_grant = grant, pn_started = started\<rparr>]\<rparr>) s l"
  using assms by (auto simp: underway_def well_granted_def pending_place_def)

lemma produce_target_hoare:
  assumes "granted chunk (Some grant)"
  shows "hoare (underway env o1 M po) (produce_target env setup cfg o1 replay chunk grant po target)
    (\<lambda>po'. underway env o1 (M + {#target_place chunk target#}) po') (\<lambda>_. no_complete)"
proof -
  let ?p = "\<lambda>started. \<lparr>pn_chunk = chunk, pn_target = target, pn_grant = grant, pn_started = started\<rparr>"
  let ?po = "\<lambda>p. po\<lparr>po_pending := po_pending po @ [p]\<rparr>"
  have begun: "hoare (underway env o1 M po) (begin_route env replay chunk grant target)
      (\<lambda>p. underway env o1 (M + {#target_place chunk target#}) (?po p)) (\<lambda>_. no_complete)"
    unfolding begin_route_def
    by (rule hoare_bind [OF hoare_tried [OF hoare_cancelled]], assumption, rule hoare_return, rule underway_pending [OF assms])
  have next_one: "hoare (underway env o1 M' (?po p)) (streamNextCompletedRoute env setup cfg o1 (?po p))
      (\<lambda>po'. underway env o1 M' po') (\<lambda>_. no_complete)" for M' p
    by (rule hoare_post [OF stream_next_hoare]) simp_all
  show ?thesis
    unfolding produce_target_def Let_def by (rule hoare_bind [OF begun], rule hoare_if, rule next_one, rule hoare_return)
qed

lemma produce_targets_hoare:
  assumes "granted chunk (Some grant)"
  shows "hoare (underway env o1 M po) (fold_a (produce_target env setup cfg o1 replay chunk grant) po targets)
    (\<lambda>po'. underway env o1 (M + mset (map (target_place chunk) targets)) po') (\<lambda>_. no_complete)"
proof (induction targets arbitrary: M po)
  case Nil
  show ?case by (simp add: hoare_return)
next
  case (Cons t ts)
  show ?case
    unfolding fold_a.simps
    by (rule hoare_bind [OF produce_target_hoare [OF assms]]) (use Cons [of "M + {#target_place chunk t#}"] in \<open>simp add: ac_simps\<close>)
qed

lemma produce_chunk_hoare:
  "hoare (underway env o1 M po) (produce_chunk env setup cfg o1 replay po item)
    (\<lambda>po'. underway env o1 (M + mset (item_places item)) po') (\<lambda>_. no_complete)"
proof (cases item)
  case (Inl e)
  then show ?thesis unfolding produce_chunk_def by (auto simp: lift_a_def bind_a_def hoare_def underway_fresh)
next
  case (Inr chunk)
  let ?pin = "plannedSourcePin (pr_plan (su_prepared setup)) (ch_source_id chunk)"
  let ?sign = "on_v (signing_run (signSourceChunk (pe_signing env) (map_of (su_sources setup) (ch_source_id chunk))
           (ch_source_url chunk) chunk (fst ?pin) (snd ?pin) (su_expiresIn setup))) :: ('a, source_grant) pact"
  have "hoare (underway env o1 M po) ?sign (\<lambda>g s l. underway env o1 M po s l \<and> granted chunk (Some (Inr g)))
      (\<lambda>s l. \<forall>e. underway env o1 M po s l \<and> granted chunk (Some (Inl e)))"
    by (rule hoare_on_v) (auto simp: granted_def dest: yields_run [OF yields_source_chunk])
  then have grant: "hoare (underway env o1 M po) (attempt ?sign)
      (\<lambda>grant s l. underway env o1 M po s l \<and> granted chunk (Some grant)) (\<lambda>_. no_complete)"
    by (rule hoare_attempt [where Q = "\<lambda>grant s l. underway env o1 M po s l \<and> granted chunk (Some grant)"])
  have signs: "hoare (\<lambda>s l. underway env o1 M po s l \<and> granted chunk (Some grant))
      (fold_a (produce_target env setup cfg o1 replay chunk grant) po (ch_destinations chunk))
      (\<lambda>po'. underway env o1 (M + mset (item_places item)) po') (\<lambda>_. no_complete)" for grant
    unfolding Inr item_places_def sum.case by (rule hoare_fact) (rule produce_targets_hoare)
  show ?thesis
    unfolding produce_chunk_def Let_def Inr
    by (rule hoare_bind [OF hoare_lift [where Q = "\<lambda>c s l. underway env o1 M po s l \<and> c = chunk"]], simp, erule underway_fresh,
        rule hoare_fact, hypsubst, rule hoare_bind [OF hoare_cancelled], erule underway_fresh, rule hoare_bind [OF grant],
        rule signs [unfolded Inr])
qed

lemma produce_all_hoare:
  "hoare (underway env o1 M po) (fold_a (produce_chunk env setup cfg o1 replay) po items)
    (\<lambda>po'. underway env o1 (M + mset (concat (map item_places items))) po') (\<lambda>_. no_complete)"
proof (induction items arbitrary: M po)
  case Nil
  show ?case by (simp add: hoare_return)
next
  case (Cons item rest)
  show ?case
    unfolding fold_a.simps
    by (rule hoare_bind [OF produce_chunk_hoare]) (use Cons [of "M + mset (item_places item)"] in \<open>simp add: ac_simps\<close>)
qed

lemma drain_hoare:
  "length xs = length (po_pending po) \<Longrightarrow>
   hoare (underway env o1 M po) (fold_a (\<lambda>po _. streamNextCompletedRoute env setup cfg o1 po) po (xs :: 'b list))
     (\<lambda>po' s l. underway env o1 M po' s l \<and> po_pending po' = []) (\<lambda>_. no_complete)"
proof (induction xs arbitrary: po)
  case Nil
  then show ?case by (simp add: hoare_return)
next
  case (Cons x xs)
  then have some: "po_pending po \<noteq> []" by auto
  have rest: "hoare (\<lambda>s l. underway env o1 M po' s l \<and> length (po_pending po') = length (po_pending po) - 1)
      (fold_a (\<lambda>po _. streamNextCompletedRoute env setup cfg o1 po) po' xs)
      (\<lambda>po' s l. underway env o1 M po' s l \<and> po_pending po' = []) (\<lambda>_. no_complete)" for po'
    by (rule hoare_fact) (rule Cons.IH, use Cons.prems in simp)
  show ?case unfolding fold_a.simps by (rule hoare_bind [OF stream_next_hoare [OF some] rest])
qed

text \<open>
  What is known when a run of the producer has asked for the completion of its stream: the routes sent before it are one
  for every place of the plan, and the completion is that of the stream's own property.
\<close>

definition delivered :: "'v producer_env \<Rightarrow> signing_setup \<Rightarrow> stream_options \<Rightarrow> stream_event list \<Rightarrow> bool" where
  "delivered env setup o1 l \<longleftrightarrow>
     (\<forall>before batches routes checksum p k a after. l = before @ Ev_complete batches routes checksum p k a # after \<longrightarrow>
        image_mset place (mset (routes_sent before)) = mset (planned_places (pr_plan (su_prepared setup)))
        \<and> complete_ok (sender env) o1 (routes_sent before) before batches routes checksum)"

lemma fresh_delivered: "no_complete l \<Longrightarrow> delivered env setup o1 l"
  unfolding no_complete_def delivered_def by (metis in_set_conv_decomp)

lemma completes_delivered:
  assumes "completes_ok (sender env) o1 rs l" and "image_mset place (mset rs) = mset (planned_places (pr_plan (su_prepared setup)))"
  shows "delivered env setup o1 l"
  unfolding delivered_def
proof (intro allI impI)
  fix before batches routes checksum p k a after
  assume "l = before @ Ev_complete batches routes checksum p k a # after"
  with assms(1) have ok: "complete_ok (sender env) o1 rs before batches routes checksum" unfolding completes_ok_def by blast
  then have "routes_sent before = rs" by (simp add: complete_ok_def)
  with ok assms(2) show "image_mset place (mset (routes_sent before)) = mset (planned_places (pr_plan (su_prepared setup)))
      \<and> complete_ok (sender env) o1 (routes_sent before) before batches routes checksum" by simp
qed

lemma finish_stream_hoare:
  "hoare (\<lambda>s l. underway env o1 (mset (planned_places (pr_plan (su_prepared setup)))) po s l \<and> po_pending po = [])
     (finish_stream env setup o1) (\<lambda>_ _. delivered env setup o1) (\<lambda>_. delivered env setup o1)"
proof -
  let ?E = "\<lambda>_ :: stream. delivered env setup o1"
  let ?ok = "stream_ok (sender env) o1"
  have fresh: "?ok rs s l \<Longrightarrow> delivered env setup o1 l" for rs s l by (rule fresh_delivered) (simp add: stream_ok_def)
  have answer: "hoare (\<lambda>_. delivered env setup o1) (if b then lift_a (Inl e) else return_a ()) (\<lambda>_ _. delivered env setup o1) ?E" for b e
    by (rule hoare_if) (auto intro: hoare_return hoare_lift)
  have run: "hoare (?ok rs) (finish_stream env setup o1) (\<lambda>_ _. delivered env setup o1) ?E"
    if rs: "image_mset place (mset rs) = mset (planned_places (pr_plan (su_prepared setup)))" for rs
  proof -
    have complete: "hoare (?ok rs) (stream_complete (sender env) o1 perf) (\<lambda>_ _. delivered env setup o1) ?E" for perf
      by (rule hoare_exn [OF hoare_post [OF stream_complete_hoare]]) (rule completes_delivered [OF _ rs], assumption)+
    show ?thesis
      unfolding finish_stream_def
      by (rule hoare_bind [OF hoare_on_v_any], erule fresh,
          rule hoare_bind [OF hoare_lift [where Q = "\<lambda>_. ?ok rs"]], assumption, erule fresh,
          rule hoare_bind [OF hoare_owned], erule fresh, rule hoare_bind [OF complete], rule answer)
  qed
  show ?thesis
  proof (rule hoareI)
    fix w s l r w' s' l'
    assume pre: "underway env o1 (mset (planned_places (pr_plan (su_prepared setup)))) po s l \<and> po_pending po = []"
      and go: "finish_stream env setup o1 ((w, s), l) = (r, ((w', s'), l'))"
    then obtain rs where "?ok rs s l" "image_mset place (mset rs) = mset (planned_places (pr_plan (su_prepared setup)))"
      by (auto simp: underway_def)
    from hoareD [OF run [OF this(2)] this(1) go]
    show "case r of Inl e \<Rightarrow> delivered env setup o1 l' | Inr a \<Rightarrow> delivered env setup o1 l'" .
  qed
qed

lemma begin_hoare:
  "hoare (stream_ok env o1 []) (stream_begin env o1) (\<lambda>_. stream_ok env o1 []) (\<lambda>_. no_complete)"
  unfolding stream_begin_def Let_def
  by (rule hoare_bind [OF hoare_call [where Q = "\<lambda>_. stream_ok env o1 []"]])
    (auto simp: stream_ok_def no_complete_def routes_sent_def intro: hoare_return)

lemma produce_routes_hoare:
  "hoare (stream_ok (sender env) o1 []) (produce_routes env setup cfg o1 replay)
     (\<lambda>_ _. delivered env setup o1) (\<lambda>_. delivered env setup o1)"
proof -
  let ?ok = "stream_ok (sender env) o1 []" and ?E = "\<lambda>_ :: stream. delivered env setup o1"
  let ?M = "mset (planned_places (pr_plan (su_prepared setup)))"
  let ?po = "\<lambda>since. \<lparr>po_pending = [], po_limit = pc_limit cfg, po_inWindow = 0, po_since = since\<rparr>"
  have fresh: "?ok s l \<Longrightarrow> delivered env setup o1 l" for s l by (rule fresh_delivered) (simp add: stream_ok_def)
  have started: "?ok s l \<Longrightarrow> underway env o1 {#} (?po since) s l" for since s l by (auto simp: underway_def)
  have chunks: "hoare ?ok (fold_a (produce_chunk env setup cfg o1 replay) (?po since) (materializePlanChunks (pr_plan (su_prepared setup))))
      (\<lambda>po. underway env o1 ?M po) ?E" for since
  proof -
    have all: "hoare (underway env o1 {#} (?po since))
        (fold_a (produce_chunk env setup cfg o1 replay) (?po since) (materializePlanChunks (pr_plan (su_prepared setup))))
        (\<lambda>po. underway env o1 ?M po) (\<lambda>_. no_complete)"
      using produce_all_hoare [where M = "{#}" and po = "?po since"] by (simp add: planned_places_def)
    show ?thesis by (rule hoare_exn [OF hoare_pre [OF all started] fresh_delivered])
  qed
  have drained: "hoare (underway env o1 ?M po) (drain env setup cfg o1 po) (\<lambda>po' s l. underway env o1 ?M po' s l \<and> po_pending po' = []) ?E" for po
    unfolding drain_def by (rule hoare_exn [OF drain_hoare [OF refl] fresh_delivered])
  show ?thesis
    unfolding produce_routes_def
    by (rule hoare_bind [OF hoare_exn [OF begin_hoare fresh_delivered]], assumption,
        rule hoare_bind [OF hoare_lift [where Q = "\<lambda>_. ?ok"]], assumption, erule fresh,
        rule hoare_bind [OF hoare_ask], erule fresh, rule hoare_bind [OF chunks], rule hoare_bind [OF drained], rule finish_stream_hoare)
qed

text \<open>
  C22. A prepared transfer streams its whole plan. Whatever order the signings settle in, however the sends of the stream advance
  and wherever the run fails, when a run of the producer asks for the completion of its stream, the routes in the batches
  acknowledged before it are one for every chunk of the plan and every destination of the chunk, none twice and none else, each
  with the offset and size of its chunk; and the completion states their number and their checksum.
\<close>

theorem stream_delivers_plan:
  "delivered env setup o1 (snd (snd (produce_routes env setup cfg o1 replay ((w, new_stream), []))))"
proof -
  obtain r w' s' l where run: "produce_routes env setup cfg o1 replay ((w, new_stream), []) = (r, ((w', s'), l))"
    by (metis prod.exhaust)
  have "stream_ok (sender env) o1 [] new_stream []" by (simp add: stream_ok_def new_stream_def routes_sent_def addMany_def)
  from hoareD [OF produce_routes_hoare this run] have "delivered env setup o1 l" by (cases r) simp_all
  then show ?thesis using run by simp
qed

subsection \<open>How much is signed at once\<close>

text \<open>The limit in force never falls and never passes the configured one or 256, whichever is larger.\<close>

definition in_limits :: "producer_config \<Rightarrow> production \<Rightarrow> bool" where
  "in_limits cfg po \<longleftrightarrow> pc_limit cfg \<le> po_limit po \<and> po_limit po \<le> max (pc_limit cfg) 256 \<and> length (po_pending po) < po_limit po"

lemma window_limits:
  "pc_limit cfg \<le> po_limit po \<Longrightarrow> po_limit po \<le> max (pc_limit cfg) 256 \<Longrightarrow>
   po_limit po \<le> po_limit (window_step cfg now po) \<and> po_limit (window_step cfg now po) \<le> max (pc_limit cfg) 256"
  by (auto simp: window_step_def)

lemma yields_next:
  assumes "pc_limit cfg \<le> po_limit po" and "po_limit po \<le> max (pc_limit cfg) 256" and "length (po_pending po) \<le> po_limit po"
    and "po_pending po \<noteq> []"
  shows "yields (streamNextCompletedRoute env setup cfg o1 po) (in_limits cfg)"
proof -
  have "in_limits cfg (window_step cfg now (po\<lparr>po_pending := take (c mod length (po_pending po)) (po_pending po)
      @ drop (Suc (c mod length (po_pending po))) (po_pending po)\<rparr>))" for c now
  proof -
    let ?po = "po\<lparr>po_pending := take (c mod length (po_pending po)) (po_pending po)
      @ drop (Suc (c mod length (po_pending po))) (po_pending po)\<rparr>"
    have i: "c mod length (po_pending po) < length (po_pending po)" using assms(4) by simp
    then have "length (po_pending ?po) < po_limit po" using assms(3) by (simp add: min_def)
    with window_limits [of cfg ?po now] assms(1,2) show ?thesis by (simp add: in_limits_def)
  qed
  then show ?thesis
    unfolding streamNextCompletedRoute_def Let_def by (intro yields_then yields_return)
qed

lemma yields_target:
  assumes "in_limits cfg po"
  shows "yields (produce_target env setup cfg o1 replay chunk grant po target) (in_limits cfg)"
  unfolding produce_target_def Let_def
  by (rule yields_then, rule yields_if, rule yields_next) (use assms in \<open>auto simp: in_limits_def intro!: yields_return\<close>)

lemma yields_all:
  "(\<And>acc x. I acc \<Longrightarrow> yields (f acc x) I) \<Longrightarrow> I acc \<Longrightarrow> yields (fold_a f acc xs) I"
proof (induction xs arbitrary: acc)
  case (Cons x xs)
  show ?case unfolding fold_a.simps by (rule yields_bind [OF Cons.prems(1) [OF Cons.prems(2)]]) (rule Cons.IH [OF Cons.prems(1)])
qed (simp add: yields_return)

lemma signing_stays_in_limits:
  assumes "0 < pc_limit cfg"
  shows "yields (fold_a (produce_chunk env setup cfg o1 replay)
    \<lparr>po_pending = [], po_limit = pc_limit cfg, po_inWindow = 0, po_since = since\<rparr> items) (in_limits cfg)"
proof (rule yields_all)
  fix po item assume "in_limits cfg po"
  then show "yields (produce_chunk env setup cfg o1 replay po item) (in_limits cfg)"
    unfolding produce_chunk_def Let_def by (intro yields_then yields_all yields_target)
qed (use assms in \<open>simp add: in_limits_def\<close>)

subsection \<open>How a run ends\<close>

text \<open>
  The outcome of \<open>streamPreparedRoutes\<close>: done, stopped by the signal, or failed, and whether by a cancellation. Signings
  still pending then settle unobserved.
\<close>

datatype stream_end = Streamed | Stream_aborted | Stream_failed string bool

definition was_cancelled :: "('v, bool) pact" where
  "was_cancelled = on_world (\<lambda>(w, l). (Inr (pw_cancelled w), (w, l)))"

definition streamPreparedRoutes ::
  "'v producer_env \<Rightarrow> signing_setup \<Rightarrow> producer_config \<Rightarrow> stream_options \<Rightarrow> bool \<Rightarrow> ('v, stream_end) pact" where
  "streamPreparedRoutes env setup cfg o1 replay =
     bind_a (assertOwnership env) (\<lambda>_.
     bind_a (attempt (produce_routes env setup cfg o1 replay)) (\<lambda>r. case r of
         Inr _ \<Rightarrow> return_a Streamed
       | Inl e \<Rightarrow>
           bind_a (ask_v (sn_aborted (pe_signing env))) (\<lambda>aborted.
             if aborted then return_a Stream_aborted
             else bind_a (attempt (stream_abort (sender env) o1)) (\<lambda>_.
               bind_a was_cancelled (\<lambda>cancelled. return_a (Stream_failed e cancelled))))))"

text \<open>What the foreground throws: an error, that recovery goes on, or the account of a failed transfer.\<close>

datatype run_error = Run_failed string | Recovery_pending string string | Provider_failed provider_failure

definition continue_lease :: "'w client_env \<Rightarrow> control_config \<Rightarrow> lease \<Rightarrow> 'w client \<Rightarrow> 'w client" where
  "continue_lease env cf l = on_control (continueRecoveryLease cf (ce_randomId (cn_control env)) (ls_transferId l) (Some l))"

definition release_lease :: "lease \<Rightarrow> 'w client \<Rightarrow> 'w client" where
  "release_lease l = on_control (releaseRecoveryLease (ls_transferId l) (Some l))"

text \<open>
  The \<open>catch\<close> of \<open>streamPreparedRoutes\<close>: \<open>recoverable\<close> is what \<open>isRecoverableRouteStreamError\<close> says of the error, and
  \<open>cleanup\<close> the cancellation of the transfer with the cleanup of its uploads.
\<close>

definition after_stream ::
  "'w client_env \<Rightarrow> control_config \<Rightarrow> lease \<Rightarrow> bool \<Rightarrow> (string \<Rightarrow> bool) \<Rightarrow> (string \<Rightarrow> 'w client \<Rightarrow> provider_failure \<times> 'w client)
   \<Rightarrow> stream_end \<Rightarrow> 'w client \<Rightarrow> (run_error + unit) \<times> 'w client" where
  "after_stream env cf l replay recoverable cleanup ending cl =
     (case ending of
        Streamed \<Rightarrow> (Inr (), cl)
      | Stream_aborted \<Rightarrow> (Inl (Run_failed ABORTED), release_lease l (stopRecoverySigner (ls_transferId l) (Some l) cl))
      | Stream_failed e cancelled \<Rightarrow>
          if replay then (Inl (Run_failed e), cl)
          else if cancelled then (Inl (Run_failed e), continue_lease env cf l cl)
          else if recoverable e then (Inl (Recovery_pending (ls_transferId l) e), continue_lease env cf l cl)
          else (case cleanup e cl of (f, cl') \<Rightarrow> (Inl (Provider_failed f), release_lease l cl')))"

text \<open>
  The end of \<open>executeProviderTransfer\<close>, from the registration of the lease on: the callback that is told of the prepared
  transfer, the check for a cancellation, and the stream.
\<close>

definition run_transfer ::
  "'w client_env \<Rightarrow> control_config \<Rightarrow> lease \<Rightarrow> ('w \<Rightarrow> bool) \<Rightarrow> ('w \<Rightarrow> (string + unit) \<times> 'w) \<Rightarrow> ('w \<Rightarrow> (string + unit) \<times> 'w)
   \<Rightarrow> ('w client \<Rightarrow> (run_error + unit) \<times> 'w client) \<Rightarrow> 'w client \<Rightarrow> (run_error + unit) \<times> 'w client" where
  "run_transfer env cf l aborted onPrepared cancelCheck stream cl =
     (case registerRecoveryLease l (cl_control cl) of
        Inl e \<Rightarrow> (Inl (Run_failed e), cl)
      | Inr st \<Rightarrow>
          (let cl1 = on_control (\<lambda>_. st) cl in
           if aborted (cr_world (cl_run cl1)) then (Inl (Run_failed ABORTED), continue_lease env cf l cl1)
           else (case outside env cf onPrepared cl1 of
               (Inl e, cl2) \<Rightarrow> (Inl (Run_failed e), continue_lease env cf l cl2)
             | (Inr _, cl2) \<Rightarrow> (case outside env cf cancelCheck cl2 of
                   (Inl e, cl3) \<Rightarrow> (Inl (Run_failed e), continue_lease env cf l cl3)
                 | (Inr _, cl3) \<Rightarrow> stream cl3))))"

definition holds_lease :: "lease \<Rightarrow> 'w client \<Rightarrow> bool" where
  "holds_lease l cl \<longleftrightarrow> lease_of (cl_control cl) (ls_transferId l) = Some l"

definition recovering :: "lease \<Rightarrow> 'w client \<Rightarrow> bool" where
  "recovering l cl \<longleftrightarrow> map_of (lc_operations (cl_control cl)) l \<noteq> None"

lemma control_on [simp]: "cl_control (on_control f cl) = f (cl_control cl)"
  by (simp add: cl_control_def on_control_def)

lemma released: "\<not> holds_lease l (release_lease l cl)"
  by (auto simp: holds_lease_def release_lease_def releaseRecoveryLease_def lease_of_def dispose_def Let_def
      simp del: map_of_eq_Some_iff split: option.split)

lemma recover_operates: "map_of (lc_operations (recoverLease l st)) l \<noteq> None \<and> lc_leases (recoverLease l st) = lc_leases st"
  by (auto simp: recoverLease_def loop_top_def simp del: map_of_eq_Some_iff)

lemma continued:
  assumes "holds_lease l cl" and "\<not> lc_closed (cl_control cl)"
  shows "holds_lease l (continue_lease env cf l cl) \<and> recovering l (continue_lease env cf l cl)"
  using assms recover_operates [of l]
  by (auto simp: holds_lease_def recovering_def continue_lease_def continueRecoveryLease_def lease_of_def simp del: map_of_eq_Some_iff
      split: option.split prod.split)

lemma stopped_signer: "map_option rg_owner (signer_of (stopRecoverySigner (ls_transferId l) (Some l) cl) (ls_transferId l)) \<noteq> Some l"
  by (simp add: signer_of_stop)

lemma signer_released [simp]: "signer_of (release_lease l cl) = signer_of cl"
  by (simp add: release_lease_def signer_of_def on_control_def)

text \<open>
  However the stream of a run ends, its lease is settled accordingly: kept when it was streamed, given up with the signer when
  the signal aborted, given up when the transfer was cancelled for a failure, and otherwise in the hands of a running
  recovery when the run still held it.
\<close>

lemma run_settles_lease:
  "case after_stream env cf l False recoverable cleanup ending cl of (r, cl') \<Rightarrow>
     (case ending of
        Streamed \<Rightarrow> r = Inr () \<and> cl' = cl
      | Stream_aborted \<Rightarrow> \<not> holds_lease l cl' \<and> map_option rg_owner (signer_of cl' (ls_transferId l)) \<noteq> Some l
      | Stream_failed e cancelled \<Rightarrow>
          (if \<not> cancelled \<and> \<not> recoverable e then \<not> holds_lease l cl' \<and> (\<exists>f. r = Inl (Provider_failed f))
           else holds_lease l cl \<longrightarrow> lc_closed (cl_control cl) \<or> holds_lease l cl' \<and> recovering l cl'))"
proof (cases ending)
  case Stream_aborted
  then show ?thesis using released [of l] stopped_signer [of l cl] by (simp add: after_stream_def)
next
  case (Stream_failed e cancelled)
  then show ?thesis using continued [of l cl env cf] by (auto simp: after_stream_def released split: prod.split)
qed (simp add: after_stream_def)

text \<open>
  An abort between the registration of the signers and that of the lease is seen after the lease was registered, by a
  check whose failure hands the lease to a recovery: the aborted run keeps its lease and recovers in the background.
\<close>

lemma abort_before_stream_recovers:
  assumes "\<not> lc_closed (cl_control cl)" and "aborted (cr_world (cl_run cl))"
  shows "\<exists>cl'. run_transfer env cf l aborted onPrepared cancelCheck stream cl = (Inl (Run_failed ABORTED), cl')
    \<and> holds_lease l cl' \<and> recovering l cl'"
proof -
  from assms(1) obtain st where st: "registerRecoveryLease l (cl_control cl) = Inr st"
    "lease_of st (ls_transferId l) = Some l" "\<not> lc_closed st"
    by (auto simp: registerRecoveryLease_def lease_of_def dispose_def Let_def simp del: map_of_eq_Some_iff split: option.split)
  let ?cl = "on_control (\<lambda>_. st) cl"
  have "holds_lease l ?cl" "\<not> lc_closed (cl_control ?cl)" using st by (simp_all add: holds_lease_def)
  from continued [OF this, of env cf] show ?thesis using st assms(2) by (simp add: run_transfer_def Let_def on_control_def)
qed


end
