(* ===== verification/SdkAttach.thy ===== *)
theory SdkAttach
  imports SdkProducer
begin

text \<open>
  The manual attachment of routes, \<open>attachSignedUrls\<close> of \<open>sdks/typescript/src/client.ts\<close>: routes the caller signed are put
  into the order of their delivery indices and streamed, with a lease by which a recovery can ask for them again. The
  requests for the manifest groups go out together; here one after the other, none waiting for the success of another.
  \<open>AsyncMutex\<close>, which keeps the replays of a recovery out of the first stream and out of each other, is a state machine.
  How strings compare in the caller's locale is a parameter; it decides only between routes of the same index.
\<close>

subsection \<open>The order of the routes\<close>

definition compareSignedRoutesByDelivery :: "(string \<Rightarrow> string \<Rightarrow> int) \<Rightarrow> signed_route \<Rightarrow> signed_route \<Rightarrow> int" where
  "compareSignedRoutesByDelivery localeCompare left right =
     (case (signedRouteDeliveryIndex left, signedRouteDeliveryIndex right) of
        (Some i, Some j) \<Rightarrow>
          if i \<noteq> j then i - j else localeCompare (routeKeyForSignedRoute left) (routeKeyForSignedRoute right)
      | _ \<Rightarrow> localeCompare (routeKeyForSignedRoute left) (routeKeyForSignedRoute right))"

text \<open>\<open>Array.prototype.sort\<close> is stable.\<close>

definition insert_route :: "(string \<Rightarrow> string \<Rightarrow> int) \<Rightarrow> signed_route \<Rightarrow> signed_route list \<Rightarrow> signed_route list" where
  "insert_route loc r rs =
     takeWhile (\<lambda>x. compareSignedRoutesByDelivery loc x r < 0) rs @ r # dropWhile (\<lambda>x. compareSignedRoutesByDelivery loc x r < 0) rs"

definition sort_routes :: "(string \<Rightarrow> string \<Rightarrow> int) \<Rightarrow> signed_route list \<Rightarrow> signed_route list" where
  "sort_routes loc rs = foldr (insert_route loc) rs []"

definition indexed_route :: "nat \<Rightarrow> signed_route \<Rightarrow> string + signed_route" where
  "indexed_route destinationCount r =
     (if signedRouteDeliveryIndex r \<noteq> None then Inr r
      else if destinationCount \<noteq> 1 then Inl ''delivery_index is required when manually attaching routes for multiple destinations''
      else Inr (r\<lparr>rt_delivery_index := Some (rt_chunk_index r)\<rparr>))"

definition orderedRoutes :: "(string \<Rightarrow> string \<Rightarrow> int) \<Rightarrow> signed_route list \<Rightarrow> string + signed_route list" where
  "orderedRoutes loc rs =
     map_sum (\<lambda>e. e) (sort_routes loc) (map_result (indexed_route (length (remdups (map rt_destination_id rs)))) rs)"

subsection \<open>The stream of attached routes\<close>

text \<open>The stream sends every group in a batch of its own.\<close>

definition stableManifestBatchIdentity :: "(string \<Rightarrow> 8 word list) \<Rightarrow> group_manifest \<Rightarrow> string" where
  "stableManifestBatchIdentity sha256 g =
     bytesToHex (take 16 (sha256 (gm_multipart_group_id g @ '':'' @ gm_source_id g @ '':'' @ gm_destination_id g)))"

definition send_manifest_group :: "'w sender_env \<Rightarrow> stream_options \<Rightarrow> group_manifest \<Rightarrow> ('w, unit) sact" where
  "send_manifest_group env o1 g =
     (let identity = stableManifestBatchIdentity (se_sha256 env) g;
          payload = [(''transfer_id'', JStr (so_transferId o1)), (''route_generation_id'', JStr (so_routeGenerationId o1)),
            (''stream_id'', JStr (so_streamId o1)), (''manifest_batch_id'', JStr identity), (''groups'', JArr [manifest_json g])];
          key = stream_key o1 (''manifest:'' @ identity) in
      bind_a (on_world (call (Ev_manifest payload key) (se_request env ''transfer.route_stream.manifest'' payload key))) (\<lambda>_. return_a ()))"

definition addManifestGroups :: "'w sender_env \<Rightarrow> stream_options \<Rightarrow> group_manifest list \<Rightarrow> ('w, unit) sact" where
  "addManifestGroups env o1 groups =
     bind_a (fold_a (\<lambda>acc g. bind_a (attempt (send_manifest_group env o1 g)) (\<lambda>r. return_a (acc @ [r]))) [] groups) (\<lambda>answers.
       lift_a (map_sum (\<lambda>e. e) (\<lambda>_. ()) (map_result (\<lambda>r. r) answers)))"

definition attach_options ::
  "(string \<Rightarrow> 8 word list) \<Rightarrow> string \<Rightarrow> string \<Rightarrow> string option \<Rightarrow> bool \<Rightarrow> signed_route list \<Rightarrow> stream_options" where
  "attach_options sha256 transferId generation urlsExpiresAt autoDistribute ordered =
     (let routes = int (length ordered); chunks = int (countDistinctRouteChunks ordered) in
      \<lparr>so_streamId = stableRouteStreamId sha256 transferId (routeCoordinateChecksum sha256 ordered @ '':'' @ generation) routes chunks
         ''signed_url'',
       so_transferId = transferId, so_totalRoutes = routes, so_totalChunks = chunks, so_routeGenerationId = generation,
       so_urlsExpiresAt = urlsExpiresAt, so_signedUrlFlow = ''signed_url'', so_autoDistribute = autoDistribute\<rparr>)"

text \<open>Before a route is added, as many of the chained sends run as the world lets.\<close>

definition add_in_turn :: "'w sender_env \<Rightarrow> ('w \<Rightarrow> nat) \<Rightarrow> stream_options \<Rightarrow> unit \<Rightarrow> signed_route \<Rightarrow> ('w, unit) sact" where
  "add_in_turn env turns o1 _ r =
     bind_a (on_world (\<lambda>(w, l). (Inr (turns w), (w, l)))) (\<lambda>sends.
     bind_a (fold_a (\<lambda>_ _. run_send env o1) () [0..<sends]) (\<lambda>_. addRoute env o1 r))"

record attach_input =
  at_routes :: "signed_route list"
  at_manifest :: "group_manifest list"
  at_generation :: string
  at_urlsExpiresAt :: "string option"

definition attached_stream ::
  "'w sender_env \<Rightarrow> ('w \<Rightarrow> nat) \<Rightarrow> (string \<Rightarrow> string \<Rightarrow> int) \<Rightarrow> json \<Rightarrow> string \<Rightarrow> bool \<Rightarrow> attach_input \<Rightarrow> ('w, json) sact" where
  "attached_stream env turns loc perf transferId autoDistribute inp =
     bind_a (lift_a (validateMultipartGroupManifest (map manifest_json (at_manifest inp)) transferId)) (\<lambda>_.
     bind_a (lift_a (validateSignedRouteManifestContract (at_routes inp) (at_manifest inp))) (\<lambda>_.
     bind_a (lift_a (orderedRoutes loc (at_routes inp))) (\<lambda>ordered.
       let o1 = attach_options (se_sha256 env) transferId (at_generation inp) (at_urlsExpiresAt inp) autoDistribute ordered in
       bind_a (stream_begin env o1) (\<lambda>_.
       bind_a (if at_manifest inp = [] then return_a () else addManifestGroups env o1 (at_manifest inp)) (\<lambda>_.
       bind_a (fold_a (add_in_turn env turns o1) () ordered) (\<lambda>_.
         stream_complete env o1 perf))))))"


subsection \<open>What an attachment sends\<close>

definition index_of :: "signed_route \<Rightarrow> int" where
  "index_of r = the (signedRouteDeliveryIndex r)"

lemma compare_index:
  assumes "signedRouteDeliveryIndex a \<noteq> None" and "signedRouteDeliveryIndex b \<noteq> None"
  shows "(compareSignedRoutesByDelivery loc a b < 0 \<longrightarrow> index_of a \<le> index_of b)
    \<and> (\<not> compareSignedRoutesByDelivery loc a b < 0 \<longrightarrow> index_of b \<le> index_of a)"
  using assms by (auto simp: compareSignedRoutesByDelivery_def index_of_def split: if_splits)

lemma insert_route_mset [simp]: "mset (insert_route loc r rs) = add_mset r (mset rs)"
  unfolding insert_route_def
  by (simp, metis (no_types, lifting) mset_append takeWhile_dropWhile_id)

lemma insert_route_sorted:
  assumes "sorted (map index_of rs)" and "\<forall>x \<in> set (r # rs). signedRouteDeliveryIndex x \<noteq> None"
  shows "sorted (map index_of (insert_route loc r rs))"
  using assms
proof (induction rs)
  case Nil
  then show ?case by (simp add: insert_route_def)
next
  case (Cons y ys)
  let ?before = "\<lambda>x. compareSignedRoutesByDelivery loc x r < 0"
  show ?case
  proof (cases "?before y")
    case True
    then have split: "insert_route loc r (y # ys) = y # insert_route loc r ys" by (simp add: insert_route_def)
    have "set (insert_route loc r ys) = insert r (set ys)"
      by (metis insert_route_mset set_mset_add_mset_insert set_mset_mset)
    moreover have "index_of y \<le> index_of r" using compare_index [of y r loc] True Cons.prems(2) by simp
    ultimately show ?thesis using Cons unfolding split by auto
  next
    case False
    then have split: "insert_route loc r (y # ys) = r # y # ys" by (simp add: insert_route_def)
    have "index_of r \<le> index_of y" using compare_index [of y r loc] False Cons.prems(2) by simp
    then show ?thesis using Cons.prems(1) unfolding split by auto
  qed
qed

lemma sort_routes_mset [simp]: "mset (sort_routes loc rs) = mset rs"
  by (induction rs) (simp_all add: sort_routes_def)

lemma sort_routes_sorted:
  "\<forall>x \<in> set rs. signedRouteDeliveryIndex x \<noteq> None \<Longrightarrow> sorted (map index_of (sort_routes loc rs))"
proof (induction rs)
  case (Cons r rs)
  have "set (sort_routes loc rs) = set rs" by (metis sort_routes_mset set_mset_mset)
  with Cons show ?case using insert_route_sorted [of "sort_routes loc rs" r loc] by (simp add: sort_routes_def)
qed (simp add: sort_routes_def)

text \<open>Routes that were given an index keep their places in the plan.\<close>

lemma indexed_routes:
  "map_result (indexed_route n) rs = Inr rs' \<Longrightarrow> map place rs' = map place rs \<and> (\<forall>x \<in> set rs'. signedRouteDeliveryIndex x \<noteq> None)"
proof (induction rs arbitrary: rs')
  case (Cons r rs)
  from Cons.prems obtain r' rest where here: "indexed_route n r = Inr r'" and rest: "map_result (indexed_route n) rs = Inr rest"
    and rs': "rs' = r' # rest"
    by (auto split: sum.splits)
  have "place r' = place r \<and> signedRouteDeliveryIndex r' \<noteq> None"
    using here by (auto simp: indexed_route_def signedRouteDeliveryIndex_def split: if_splits option.splits)
  with Cons.IH [OF rest] show ?case by (simp add: rs')
qed simp

lemma ordered_routes:
  assumes "orderedRoutes loc rs = Inr ordered"
  shows "length ordered = length rs \<and> image_mset place (mset ordered) = image_mset place (mset rs)
    \<and> (\<forall>x \<in> set ordered. signedRouteDeliveryIndex x \<noteq> None) \<and> sorted (map index_of ordered)"
proof -
  from assms obtain rs' where rs': "map_result (indexed_route (length (remdups (map rt_destination_id rs)))) rs = Inr rs'"
    and ordered: "ordered = sort_routes loc rs'"
    by (cases "map_result (indexed_route (length (remdups (map rt_destination_id rs)))) rs") (auto simp: orderedRoutes_def)
  from indexed_routes [OF rs'] have places: "map place rs' = map place rs" and known: "\<forall>x \<in> set rs'. signedRouteDeliveryIndex x \<noteq> None"
    by simp_all
  have eq: "mset ordered = mset rs'" unfolding ordered by simp
  have "set ordered = set rs'" by (rule mset_eq_setD [OF eq])
  moreover have "length ordered = length rs'" by (rule mset_eq_length [OF eq])
  moreover have "length rs' = length rs" by (rule map_eq_imp_length_eq [OF places])
  moreover have "image_mset place (mset rs') = image_mset place (mset rs)" using arg_cong [OF places, of mset] by simp
  ultimately show ?thesis using eq known sort_routes_sorted [OF known, of loc, folded ordered] by simp
qed


lemma manifest_group_hoare:
  "hoare (stream_ok env o1 []) (send_manifest_group env o1 g) (\<lambda>_. stream_ok env o1 []) (stream_ok env o1 [])"
  unfolding send_manifest_group_def Let_def
  by (rule hoare_bind [OF hoare_call [where Q = "\<lambda>_. stream_ok env o1 []"]])
    (auto simp: stream_ok_def no_complete_def routes_sent_def intro: hoare_return)

lemma manifest_groups_hoare:
  "hoare (stream_ok env o1 []) (addManifestGroups env o1 groups) (\<lambda>_. stream_ok env o1 []) (\<lambda>_. no_complete)"
proof -
  have one: "hoare (stream_ok env o1 []) (bind_a (attempt (send_manifest_group env o1 g)) (\<lambda>r. return_a (acc @ [r])))
      (\<lambda>_. stream_ok env o1 []) (\<lambda>_. no_complete)" for g acc
    by (rule hoare_bind [OF hoare_tried [OF manifest_group_hoare]]) (auto intro: hoare_return)
  have all: "hoare (stream_ok env o1 [])
      (fold_a (\<lambda>acc g. bind_a (attempt (send_manifest_group env o1 g)) (\<lambda>r. return_a (acc @ [r]))) acc groups)
      (\<lambda>_. stream_ok env o1 []) (\<lambda>_. no_complete)" for acc
  proof (induction groups arbitrary: acc)
    case (Cons g groups)
    show ?case unfolding fold_a.simps by (rule hoare_bind [OF one Cons.IH])
  qed (simp add: hoare_return)
  show ?thesis
    unfolding addManifestGroups_def
    by (rule hoare_bind [OF all], rule hoare_lift) (auto simp: stream_ok_def)
qed

definition numbered :: "signed_route list \<Rightarrow> signed_route list" where
  "numbered rs = map (\<lambda>r. r\<lparr>rt_delivery_index := signedRouteDeliveryIndex r\<rparr>) rs"

lemma add_all_hoare:
  "hoare (stream_ok env o1 rs) (fold_a (add_in_turn env turns o1) () new)
     (\<lambda>_. stream_ok env o1 (rs @ numbered new)) (\<lambda>_. no_complete)"
proof (induction new arbitrary: rs)
  case Nil
  show ?case by (simp add: hoare_return numbered_def)
next
  case (Cons r new)
  have turn: "hoare (stream_ok env o1 rs) (on_world (\<lambda>(w, l). (Inr (turns w), (w, l)))) (\<lambda>_. stream_ok env o1 rs) (\<lambda>_. no_complete)"
    by (rule hoareI) (auto simp: on_world_def stream_ok_def split: prod.splits)
  have "hoare (stream_ok env o1 rs) (add_in_turn env turns o1 () r)
      (\<lambda>_. stream_ok env o1 (rs @ [r\<lparr>rt_delivery_index := signedRouteDeliveryIndex r\<rparr>])) (\<lambda>_. no_complete)"
    unfolding add_in_turn_def by (rule hoare_bind [OF turn], rule hoare_bind [OF sends_hoare], rule addRoute_hoare)
  from hoare_bind [OF this Cons.IH] show ?case by (simp add: numbered_def)
qed

text \<open>What is known of the trace of an attachment once it asks for completion.\<close>

definition in_order :: "attach_input \<Rightarrow> stream_event list \<Rightarrow> nat \<Rightarrow> int \<Rightarrow> bool" where
  "in_order inp before batches routes \<longleftrightarrow>
     routes = int (length (at_routes inp))
     \<and> map rt_delivery_index (routes_sent before) = map (\<lambda>i. Some (int i)) [0..<length (at_routes inp)]
     \<and> image_mset place (mset (routes_sent before)) = image_mset place (mset (at_routes inp))
     \<and> map fst (sent_of before) = [0..<batches] \<and> (\<forall>(_, _, answer) \<in> set (sent_of before). \<exists>v. answer = Inr v)"

definition completes_in_order :: "attach_input \<Rightarrow> stream_event list \<Rightarrow> bool" where
  "completes_in_order inp l \<longleftrightarrow>
     (\<forall>before batches routes checksum p k a after.
        l = before @ Ev_complete batches routes checksum p k a # after \<longrightarrow> in_order inp before batches routes)"

lemma fresh_in_order: "no_complete l \<Longrightarrow> completes_in_order inp l"
  unfolding no_complete_def completes_in_order_def by (metis in_set_conv_decomp)

lemma sorted_indices:
  fixes xs :: "int list"
  assumes "sorted xs" and "distinct xs" and "set xs = {0..<int n}"
  shows "xs = map int [0..<n]"
  by (rule sorted_distinct_set_unique) (use assms in \<open>auto simp: distinct_map image_int_atLeastLessThan sorted_map\<close>)

lemma complete_in_order:
  assumes ordered: "orderedRoutes loc (at_routes inp) = Inr ordered"
    and ok: "complete_ok env o1 (numbered ordered) before batches routes checksum"
  shows "in_order inp before batches routes"
proof -
  note facts = ordered_routes [OF ordered]
  let ?ixs = "map index_of ordered"
  have known: "map rt_delivery_index (numbered ordered) = map Some ?ixs"
    using facts by (simp add: numbered_def index_of_def)
  have routes: "routes = int (length (at_routes inp))" using ok facts by (simp add: complete_ok_def numbered_def)
  have "distinct (map Some ?ixs)" "set (map Some ?ixs) = Some ` {0..<routes}"
    using ok unfolding known [symmetric] complete_ok_def by simp_all
  then have "distinct ?ixs" "set ?ixs = {0..<int (length (at_routes inp))}"
    unfolding routes by (simp only: distinct_map, simp only: set_map inj_image_eq_iff [OF inj_Some])
  with facts have "?ixs = map int [0..<length (at_routes inp)]" by (intro sorted_indices) simp_all
  then have "map rt_delivery_index (numbered ordered) = map (\<lambda>i. Some (int i)) [0..<length (at_routes inp)]"
    unfolding known by simp
  moreover have "map place (numbered ordered) = map place ordered" by (simp add: numbered_def)
  ultimately show ?thesis
    using ok facts routes by (simp add: in_order_def complete_ok_def) (metis mset_map)
qed


lemma attached_stream_hoare:
  fixes env :: "'w sender_env" and transferId :: string and auto1 :: bool
  assumes "orderedRoutes loc (at_routes inp) = Inr ordered"
  defines "o1 \<equiv> attach_options (se_sha256 env) transferId (at_generation inp) (at_urlsExpiresAt inp) auto1 ordered"
  shows "hoare (stream_ok env o1 []) (attached_stream env turns loc perf transferId auto1 inp)
    (\<lambda>_ _. completes_in_order inp) (\<lambda>_. completes_in_order inp)"
proof -
  let ?E = "\<lambda>_ :: stream. completes_in_order inp"
  have fresh: "stream_ok env o1 rs s l \<Longrightarrow> completes_in_order inp l" for rs s l
    by (rule fresh_in_order) (simp add: stream_ok_def)
  have finish: "completes_ok env o1 (numbered ordered) l \<Longrightarrow> completes_in_order inp l" for l
    unfolding completes_ok_def completes_in_order_def using complete_in_order [OF assms(1)] by metis
  have complete: "hoare (stream_ok env o1 (numbered ordered)) (stream_complete env o1 perf) (\<lambda>_. ?E) ?E"
    by (rule hoare_exn [OF hoare_post [OF stream_complete_hoare]]) (rule finish, assumption)+
  have adds: "hoare (stream_ok env o1 []) (fold_a (add_in_turn env turns o1) () ordered) (\<lambda>_. stream_ok env o1 (numbered ordered)) ?E"
    by (rule hoare_exn [OF add_all_hoare [where rs = "[]", simplified] fresh_in_order])
  have groups: "hoare (stream_ok env o1 [])
      (if at_manifest inp = [] then return_a () else addManifestGroups env o1 (at_manifest inp)) (\<lambda>_. stream_ok env o1 []) ?E"
    by (rule hoare_if, rule hoare_return, assumption, rule hoare_exn [OF manifest_groups_hoare fresh_in_order])
  show ?thesis
    unfolding attached_stream_def assms(1) Let_def
    by (rule hoare_bind [OF hoare_lift [where Q = "\<lambda>_. stream_ok env o1 []"]], assumption, erule fresh,
        rule hoare_bind [OF hoare_lift [where Q = "\<lambda>_. stream_ok env o1 []"]], assumption, erule fresh,
        rule hoare_bind [OF hoare_lift [where Q = "\<lambda>x s l. stream_ok env o1 [] s l \<and> x = ordered"]], simp, erule fresh,
        rule hoare_fact)
      (simp only: o1_def [symmetric], rule hoare_bind [OF hoare_exn [OF begin_hoare fresh_in_order]], assumption,
        rule hoare_bind [OF groups], rule hoare_bind [OF adds complete])
qed


text \<open>
  C23. Routes attached by hand arrive in the order of delivery. Whatever order the caller gives them in and however the sends of
  the stream advance, when an attachment asks for the completion of its stream, the routes in the batches acknowledged before
  it have the delivery indices 0, 1, 2 and so on, in this order and without a gap; they are the caller's routes, each with its
  source, chunk, destination and range, and the completion states how many these are; the batches are numbered without a gap.
\<close>

theorem attached_routes_in_order:
  assumes "attached_stream env turns loc perf transferId auto1 inp ((w, new_stream), [])
    = (r, ((w', s'), before @ Ev_complete batches routes checksum payload key answer # after))"
  shows "routes = int (length (at_routes inp))
    \<and> map rt_delivery_index (routes_sent before) = map (\<lambda>i. Some (int i)) [0..<length (at_routes inp)]
    \<and> image_mset place (mset (routes_sent before)) = image_mset place (mset (at_routes inp))
    \<and> map fst (sent_of before) = [0..<batches] \<and> (\<forall>(_, _, a) \<in> set (sent_of before). \<exists>v. a = Inr v)"
proof (cases "orderedRoutes loc (at_routes inp)")
  case (Inl e)
  then have False using assms by (auto simp: attached_stream_def act_defs split: sum.splits)
  then show ?thesis ..
next
  case (Inr ordered)
  let ?o1 = "attach_options (se_sha256 env) transferId (at_generation inp) (at_urlsExpiresAt inp) auto1 ordered"
  have "stream_ok env ?o1 [] new_stream []" by (simp add: stream_ok_def new_stream_def routes_sent_def addMany_def)
  from hoareD [OF attached_stream_hoare [OF Inr] this assms]
  have "completes_in_order inp (before @ Ev_complete batches routes checksum payload key answer # after)" by (cases r) simp_all
  from this [unfolded completes_in_order_def, rule_format, OF refl] show ?thesis by (simp add: in_order_def)
qed

definition demo_attach :: attach_input where
  "demo_attach = \<lparr>at_routes = [demo_route ''y'' 1, demo_route ''x'' 0], at_manifest = [], at_generation = ''g'', at_urlsExpiresAt = None\<rparr>"

lemma demo_index [simp]:
  "signedRouteDeliveryIndex (demo_route d i) = Some i" "rt_delivery_index (demo_route d i) = Some i"
  "(demo_route d i)\<lparr>rt_delivery_index := Some i\<rparr> = demo_route d i"
  by (simp_all add: signedRouteDeliveryIndex_def demo_route_def)

lemma demo_ordered: "orderedRoutes (\<lambda>_ _. 0) (at_routes demo_attach) = Inr demo_routes"
  by (simp add: orderedRoutes_def demo_attach_def indexed_route_def sort_routes_def insert_route_def
      compareSignedRoutesByDelivery_def demo_routes_def)

lemma demo_contract: "validateSignedRouteManifestContract (at_routes demo_attach) [] = Inr ()"
  by (simp add: validateSignedRouteManifestContract_def validate_route_contract_def route_metadata_def demo_attach_def demo_route_def)

lemma demo_completes:
  assumes "so_totalRoutes o1 = 2"
  shows "\<exists>s2 before batches checksum payload key answer.
    stream_complete demo_sender o1 JNull (((), new_stream\<lparr>ss_seen := [0, 1], ss_routeCount := 2, ss_batch := demo_routes\<rparr>), l)
      = (Inr JNull, (((), s2), before @ [Ev_complete batches 2 checksum payload key answer]))"
  using assms by (simp add: stream_complete_def enqueueFlush_def await_tail_def run_send_def send_chunk_def rethrow_def act_defs
      new_stream_def demo_sender_def demo_split Let_def demo_routes_def [symmetric])

lemma demo_adds:
  assumes "so_totalRoutes o1 = 2"
  shows "fold_a (add_in_turn demo_sender (\<lambda>_. Suc 0) o1) () demo_routes (((), new_stream), l)
    = (Inr (), (((), new_stream\<lparr>ss_seen := [0, 1], ss_routeCount := 2, ss_batch := demo_routes\<rparr>), l))"
  using assms by (simp add: demo_routes_def add_in_turn_def addRoute_def run_send_def act_defs new_stream_def
      ROUTE_STREAM_BATCH_ROUTES_def numeral_2_eq_2)

theorem attached_routes_in_order_witness:
  "\<exists>before batches checksum payload key answer.
     snd (snd (attached_stream demo_sender (\<lambda>_. 1) (\<lambda>_ _. 0) JNull ''t'' True demo_attach (((), new_stream), [])))
       = before @ [Ev_complete batches 2 checksum payload key answer]
     \<and> map rt_delivery_index (routes_sent before) = [Some 0, Some 1]"
proof -
  let ?o1 = "attach_options (se_sha256 demo_sender) ''t'' ''g'' None True demo_routes"
  have o1: "so_totalRoutes ?o1 = 2" by (simp add: attach_options_def Let_def demo_routes_def)
  obtain l where begun: "stream_begin demo_sender ?o1 (((), new_stream), []) = (Inr (), (((), new_stream), l))"
    by (simp add: stream_begin_def act_defs Let_def demo_sender_def)
  have empty: "at_manifest demo_attach = []" "at_generation demo_attach = ''g''" "at_urlsExpiresAt demo_attach = None"
    by (simp_all add: demo_attach_def)
  have "attached_stream demo_sender (\<lambda>_. 1) (\<lambda>_ _. 0) JNull ''t'' True demo_attach (((), new_stream), [])
      = stream_complete demo_sender ?o1 JNull (((), new_stream\<lparr>ss_seen := [0, 1], ss_routeCount := 2, ss_batch := demo_routes\<rparr>), l)"
    by (simp add: attached_stream_def demo_ordered demo_contract empty validateMultipartGroupManifest_def bind_a_def lift_a_def
        return_a_def begun demo_adds [OF o1] Let_def)
  with demo_completes [OF o1, of l] obtain s2 before batches checksum payload key answer where
    run: "attached_stream demo_sender (\<lambda>_. 1) (\<lambda>_ _. 0) JNull ''t'' True demo_attach (((), new_stream), [])
      = (Inr JNull, (((), s2), before @ Ev_complete batches 2 checksum payload key answer # []))"
    by auto
  from attached_routes_in_order [OF run] have "map rt_delivery_index (routes_sent before) = [Some 0, Some 1]"
    by (simp add: demo_attach_def upt_rec)
  with run show ?thesis by auto
qed


subsection \<open>The attachment and its lease\<close>

definition stream_attached ::
  "'w sender_env \<Rightarrow> ('w \<Rightarrow> nat) \<Rightarrow> (string \<Rightarrow> string \<Rightarrow> int) \<Rightarrow> json \<Rightarrow> string \<Rightarrow> bool \<Rightarrow> attach_input \<Rightarrow> 'w \<Rightarrow> (string + json) \<times> 'w" where
  "stream_attached env turns loc perf transferId autoDistribute inp w =
     (case attached_stream env turns loc perf transferId autoDistribute inp ((w, new_stream), []) of (r, ((w', _), _)) \<Rightarrow> (r, w'))"

text \<open>A replay asks the caller for fresh routes; \<open>stream\<close> streams what it is given.\<close>

definition replay_attached ::
  "(string \<Rightarrow> 'w \<Rightarrow> (string + attach_input) \<times> 'w) \<Rightarrow> (attach_input \<Rightarrow> 'w \<Rightarrow> (string + json) \<times> 'w) \<Rightarrow> string \<Rightarrow> 'w \<Rightarrow> (string + unit) \<times> 'w" where
  "replay_attached recoveryFactory stream generation w =
     (case recoveryFactory generation w of
        (Inl e, w1) \<Rightarrow> (Inl e, w1)
      | (Inr fresh, w1) \<Rightarrow>
          (case stream (fresh\<lparr>at_generation := generation\<rparr>) w1 of
             (Inl e, w2) \<Rightarrow> (Inl e, w2)
           | (Inr attached, w2) \<Rightarrow>
               (if falsy (jget attached ''success'') then
                  Inl (coalesce (or_else (as_str (jget attached ''error'')) (as_str (jget attached ''message''))) ''route replay failed'')
                else Inr (), w2)))"

text \<open>What becomes of the lease: \<open>recoverable\<close> is what \<open>isRecoverableRouteStreamError\<close> says of an error.\<close>

definition after_attach ::
  "'w client_env \<Rightarrow> control_config \<Rightarrow> lease \<Rightarrow> (string \<Rightarrow> bool) \<Rightarrow> string + json \<Rightarrow> 'w client \<Rightarrow> (run_error + json) \<times> 'w client" where
  "after_attach env cf l recoverable outcome cl =
     (case outcome of
        Inr attached \<Rightarrow> (Inr attached, if falsy (jget attached ''success'') then release_lease l cl else cl)
      | Inl e \<Rightarrow>
          if recoverable e then (Inl (Recovery_pending (ls_transferId l) e), continue_lease env cf l cl)
          else (Inl (Run_failed e), release_lease l cl))"

definition attachSignedUrls ::
  "'w client_env \<Rightarrow> control_config \<Rightarrow> lease \<Rightarrow> (string \<Rightarrow> bool) \<Rightarrow> (attach_input \<Rightarrow> 'w \<Rightarrow> (string + json) \<times> 'w) \<Rightarrow> attach_input
   \<Rightarrow> 'w client \<Rightarrow> (run_error + json) \<times> 'w client" where
  "attachSignedUrls env cf l recoverable stream inp cl =
     (case validateId (ls_transferId l) ''transferId'' of
        Inl e \<Rightarrow> (Inl (Run_failed e), cl)
      | Inr _ \<Rightarrow>
      (case validateMultipartGroupManifest (map manifest_json (at_manifest inp)) (ls_transferId l) of
        Inl e \<Rightarrow> (Inl (Run_failed e), cl)
      | Inr _ \<Rightarrow>
      (case validateSignedRouteManifestContract (at_routes inp) (at_manifest inp) of
        Inl e \<Rightarrow> (Inl (Run_failed e), cl)
      | Inr _ \<Rightarrow>
      (case registerRecoveryLease l (cl_control cl) of
        Inl e \<Rightarrow> (Inl (Run_failed e), cl)
      | Inr st \<Rightarrow>
          (case outside env cf (stream inp) (on_control (\<lambda>_. st) cl) of
             (outcome, cl') \<Rightarrow> after_attach env cf l recoverable outcome cl')))))"

text \<open>
  An attachment that the runtime accepted keeps its lease, one that failed for good gives it up, and one that may still
  recover is in the hands of a running recovery when it still held its lease.
\<close>

lemma attach_settles_lease:
  "case after_attach env cf l recoverable outcome cl of (r, cl') \<Rightarrow>
     (case outcome of
        Inr attached \<Rightarrow> r = Inr attached \<and> (if falsy (jget attached ''success'') then \<not> holds_lease l cl' else cl' = cl)
      | Inl e \<Rightarrow>
          (if recoverable e then holds_lease l cl \<longrightarrow> lc_closed (cl_control cl) \<or> holds_lease l cl' \<and> recovering l cl'
           else \<not> holds_lease l cl'))"
  using continued [of l cl env cf] by (auto simp: after_attach_def released split: sum.split)

subsection \<open>The lock of the route streams\<close>

text \<open>
  \<open>AsyncMutex\<close>: the n-th caller of \<open>acquire\<close> waits for the promise of the one before it and resolves its own when it
  releases. Callers are numbered in the order of their calls.
\<close>

record mutex =
  mx_asked :: nat
  mx_inside :: "nat list"
  mx_released :: "nat list"

definition new_mutex :: mutex where
  "new_mutex = \<lparr>mx_asked = 0, mx_inside = [], mx_released = []\<rparr>"

definition tail_resolved :: "mutex \<Rightarrow> nat \<Rightarrow> bool" where
  "tail_resolved m n = (n = 0 \<or> List.member (mx_released m) (n - 1))"

inductive mutex_step :: "mutex \<Rightarrow> mutex \<Rightarrow> bool" where
  Acquire: "mutex_step m (m\<lparr>mx_asked := mx_asked m + 1\<rparr>)"
| Enter: "n < mx_asked m \<Longrightarrow> n \<notin> set (mx_inside m) \<Longrightarrow> n \<notin> set (mx_released m) \<Longrightarrow> tail_resolved m n \<Longrightarrow>
    mutex_step m (m\<lparr>mx_inside := mx_inside m @ [n]\<rparr>)"
| Release: "n \<in> set (mx_inside m) \<Longrightarrow>
    mutex_step m (m\<lparr>mx_inside := removeAll n (mx_inside m), mx_released := mx_released m @ [n]\<rparr>)"

inductive mutex_reached :: "mutex \<Rightarrow> bool" where
  Reach_new: "mutex_reached new_mutex"
| Reach_step: "mutex_reached m \<Longrightarrow> mutex_step m m' \<Longrightarrow> mutex_reached m'"

inductive_cases mutex_stepE: "mutex_step m m'"

definition in_turn :: "mutex \<Rightarrow> bool" where
  "in_turn m \<longleftrightarrow> (let k = length (mx_released m) in
     mx_released m = [0..<k] \<and> k \<le> mx_asked m \<and> (mx_inside m = [] \<or> mx_inside m = [k] \<and> k < mx_asked m))"

lemma in_turn_step: "mutex_step m m' \<Longrightarrow> in_turn m \<Longrightarrow> in_turn m'"
proof (erule mutex_stepE, goal_cases)
  case (2 n)
  let ?k = "length (mx_released m)"
  from 2 have released: "mx_released m = [0..<?k]" by (simp add: in_turn_def Let_def)
  then have "set (mx_released m) = {0..<?k}" by (metis set_upt)
  with 2 have "n = ?k" by (auto simp: tail_resolved_def)
  moreover from this 2 have "mx_inside m = []" by (auto simp: in_turn_def Let_def)
  ultimately show ?case using 2 released by (simp add: in_turn_def Let_def)
qed (auto simp: in_turn_def Let_def)

text \<open>
  The lock admits one caller after the other, in the order they asked: those before the one inside have released, and while
  nobody is inside the next one that asked may enter.
\<close>

lemma mutex_serves_in_order:
  assumes "mutex_reached m"
  shows "in_turn m \<and> length (mx_inside m) \<le> 1
    \<and> (mx_inside m = [] \<longrightarrow> length (mx_released m) < mx_asked m \<longrightarrow> (\<exists>m'. mutex_step m m' \<and> mx_inside m' = [length (mx_released m)]))"
proof -
  from assms have ok: "in_turn m"
  proof (induction rule: mutex_reached.induct)
    case Reach_new
    show ?case by (simp add: in_turn_def new_mutex_def Let_def)
  qed (rule in_turn_step)
  moreover have "\<exists>m'. mutex_step m m' \<and> mx_inside m' = [length (mx_released m)]"
    if free: "mx_inside m = []" and asked: "length (mx_released m) < mx_asked m"
  proof -
    let ?k = "length (mx_released m)"
    have released: "set (mx_released m) = {0..<?k}" using ok by (metis in_turn_def set_upt)
    then have "tail_resolved m ?k" by (cases "mx_released m = []") (auto simp: tail_resolved_def)
    from Enter [OF asked _ _ this] free released show ?thesis by fastforce
  qed
  ultimately show ?thesis by (auto simp: in_turn_def Let_def)
qed

end
