(* ===== verification/Spec2Isabelle.thy ===== *)
theory Spec2Isabelle
  imports BeamErrors Retry Sse Events Http TransferHandle BrokerMemory ReceiptRuns RelayIO RelayAllowlist BridgeLive BridgeVerify
    SdkAttach
begin

text \<open>
  A model of the TypeScript code of the Beam SDK repository. The repository holds five parts that share one contract with
  the Beam service: a browser SDK (\<open>packages/web-sdk\<close>), the server-side broker a customer runs for it
  (\<open>packages/web-sdk-server\<close>), the Chainlink CRE workflows that record Beam's receipts on a contract
  (\<open>packages/cre/workflows\<close>), the relay and the bridge that serve and feed those workflows (\<open>packages/cre/relay\<close>,
  \<open>packages/cre/bridge\<close>), and the TypeScript SDK that prepares, signs and recovers transfers
  (\<open>sdks/typescript/src\<close>). Each theory models one component; its opening text names the file it translates, and its
  definitions carry the names of the code.

  \<^bold>\<open>How the code is modelled.\<close> A string is the list of its UTF-8 bytes; a number that the code treats as whole is an
  \<^typ>\<open>int\<close>, one that may be fractional or \<open>NaN\<close> is a rational or an option of one, a hash on 32 bits is a word. An
  exception is the left summand of a sum. A \<open>Map\<close> is an association list in insertion order. Asynchronous code is
  written in one of three ways: as a program over an opaque world with a trace of its calls (theory \<open>Effects\<close>, with its
  program logic), when its awaits are calls to the outside; as a state machine whose steps run from one await to the
  next and may interleave in any order (handles, providers of tokens, waiters, recovery leases, the bridge), when other
  code runs in between; and as a loop with fuel, when it may run for ever (reconnection). Hash functions, MessagePack,
  the ABI coder, signature recovery, presigning, the network, the chain library, clocks and random numbers are
  parameters, and what is proved holds for every value of them; laws they must satisfy are hypotheses with a witness.

  \<^bold>\<open>Shared theories.\<close> \<open>Prelude\<close> (options, texts, digits, insertion-ordered maps and the locale \<open>js_map\<close> of their
  contract), \<open>Json\<close> (JSON values, printing and parsing, with the round trip), \<open>Base64Url\<close>, \<open>WebPlatform\<close> (percent
  coding, headers, numbers, dates) and \<open>Effects\<close> (trace logic, cost logic, Hoare logic with a state).

  \<^bold>\<open>Browser SDK.\<close> \<open>BeamErrors\<close> (\<open>core/errors\<close>), \<open>Retry\<close> (\<open>core/retry\<close>: attempts are bounded, and a stream that keeps
  flapping is retried for ever), \<open>Sse\<close> (\<open>core/transport/sse.ts\<close>: the parser does not depend on the cut into chunks),
  \<open>Events\<close> (\<open>core/events\<close>), \<open>AuthProvider\<close> (\<open>core/auth\<close>: one mint at a time), \<open>Http\<close> (\<open>core/transport/http.ts\<close>: one
  request is one operation with one idempotency key, a 401 is re-minted once and never left to the backoff), \<open>TransferHandle\<close> (\<open>transfers\<close>: a handle settles once).

  \<^bold>\<open>Broker.\<close> \<open>WebToken\<close> (\<open>token.ts\<close>), \<open>MemoryUpstream\<close> (\<open>upstreams/memory.ts\<close>), \<open>Broker\<close> (\<open>broker.ts\<close>: every route is
  guarded by its scope, the token endpoint only narrows, the event stream reaches the browser's parser),
  \<open>BrokerMemory\<close> (the upstream contract as a locale, interpreted on the in-process upstream).

  \<^bold>\<open>CRE workflows.\<close> \<open>TransferId\<close>, \<open>Receipts\<close>, \<open>BeamProject\<close>, \<open>Subjects\<close>, \<open>Studio\<close>, \<open>StartWorkflow\<close>, \<open>Observe\<close>,
  \<open>ReceiptWorkflow\<close> model the files of the same names; \<open>ReceiptRuns\<close> proves what a run spends (the budget of HTTP
  requests), what its window reaches, and that a report is written only from what Beam answered, whichever trigger started it.

  \<^bold>\<open>Relay.\<close> \<open>Customers\<close>, \<open>Relay\<close>, \<open>RelayReceipts\<close>, \<open>RelayClose\<close>, \<open>RelayAllowlist\<close>, \<open>RelayIO\<close>: a pass starts what was
  requested and moves its cursor only past what was delivered, charges a customer only for a recorded receipt that
  one of its approved addresses asked for or its periods cover, never Beam itself, closes a request only under a hold, and never loses a closing charge; its reads and posts are those
  of the workflows' nodes. The passes of \<open>runStarts\<close> have fuel; \<open>runStarts_terminates\<close> shows how much is enough.

  \<^bold>\<open>Bridge.\<close> \<open>BridgeWebhook\<close>, \<open>BridgeReport\<close>, \<open>BridgeChain\<close>, \<open>Bridge\<close> translate the files; \<open>BridgeRuns\<close> has the
  interleaved steps and their invariant (a poll sees its own Room's replies only, a reply is final, a forwarded batch
  stays in its limits), \<open>BridgeLive\<close> a variant by which every request is answered before its 25 hours are over or dropped after them, \<open>BridgeVerify\<close> the offline check,
  which accepts what the bridge replies.

  \<^bold>\<open>TypeScript SDK.\<close> \<open>SdkPlan\<close> (the compact plan: the chunks of a whole one tile every source, its delivery indices number every
  route once; what a whole plan is, is an assumption on BeamCore), \<open>SdkRoutes\<close> (routes are compacted without loss and cut into batches that fit the splitter's estimate), \<open>SdkStream\<close> (a route stream
  completes only when every route was sent), \<open>SdkControl\<close> and \<open>SdkRequest\<close> (requests to the runtime and their retries),
  \<open>SdkRecovery\<close> (who holds a transfer's recovery lease, the loops that drive recoveries, the hand-over between owners),
  \<open>SdkSignals\<close> (terminal events, the two signers that serve the runtime), \<open>SdkProviders\<close> (presigned requests and the
  lifetime of a grant, bounded by what the URL states), \<open>SdkManifest\<close> (the multipart uploads of a transfer and their manifests) and \<open>SdkUploads\<close> (a failed
  transfer accounts for every upload, a restarted client takes over all of them), \<open>SdkHuggingFace\<close> (uploads to the Hub: the
  ETags are those of the plan's chunks, a commit follows the completion) and \<open>SdkSigning\<close> (recovered routes and the grants
  of an audit follow the coordinates of the plan). \<open>SdkClient\<close> puts them together: the operations of \<open>BeamClient\<close>, the signers it keeps
  for its transfers (a subscription outlives its registration only when its flush failed), the status of a transfer, and the wait for its end, whose
  rounds are counted by a fuel: \<open>wait_terminates\<close> shows that the milliseconds of the timeout, the terminal events still to
  come and one are enough. \<open>SdkProducer\<close> runs a prepared transfer: whatever order its signings settle in, a completed stream
  carried every planned route once; \<open>SdkAttach\<close> streams routes signed elsewhere in the order of their delivery, and holds
  the lock that keeps replays apart. Attempts of a request are counted by a fuel of three, the code's own bound.


  \<^bold>\<open>Not modelled.\<close> The browser SDK's rooms, WebRTC and web agent drive browser objects; its configuration, logger and
  media helpers, the adapters of the broker to Express and the Beam SDK, the entry points and the sealed box of the relay,
  the forwarding and saved state of the bridge are glue around the modelled parts. The command line and the editor
  extension are user interfaces. Of the SDK's client the steps that prepare a provider transfer before it is streamed
  are modelled in their parts only. A pass of the bridge over a contract reads the chain for a request and opens it there in one
  step, under the clock of the pass; the ABI coder never throws; a reply leaves out the members that MessagePack would write as nil.
  Telemetry and log lines are left out everywhere. The Python SDK, the contracts and the
  tests are not TypeScript implementation code.
\<close>

end
